(* ===== verification/Prelude.thy ===== *)
theory Prelude
  imports Main "HOL-Library.Word" "HOL-Library.Sublist"
begin

section \<open>Shared vocabulary\<close>

text \<open>
  Names, arithmetic and generic lemmas that every other theory of the development uses.

  \<^item> A Rust \<open>String\<close> or \<open>&str\<close> is the list of its UTF-8 bytes, a \<open>string\<close> whose characters are
    bytes; \<open>len\<close> is \<open>length\<close>. The theory \<open>Utf8\<close> holds the encoding.
  \<^item> \<open>usize\<close> is the 64-bit unsigned integer: a \<open>nat\<close> with its maximum written out, because the
    code computes with it by \<open>saturating_add\<close>, \<open>saturating_sub\<close> and \<open>min\<close>. Counters and clocks
    whose overflow the code checks are machine words.
  \<^item> \<open>Result<T, E>\<close> is the sum \<open>'e + 'a\<close> with \<open>Inl\<close> for the error; \<open>and_then\<close> is the \<open>?\<close> operator.
\<close>

named_theorems wf_intros \<open>facts that an operation keeps the invariant of its state\<close>
named_theorems bound_simps \<open>length and size bounds of the routines that cut text\<close>

type_synonym u64 = "64 word"
type_synonym i64 = "64 word"

subsection \<open>The sizes of the machine\<close>

definition usize_max :: nat where
  "usize_max = 2 ^ 64 - 1"

definition sat_add :: "nat \<Rightarrow> nat \<Rightarrow> nat" where
  "sat_add a b = min usize_max (a + b)"

definition div_ceil :: "nat \<Rightarrow> nat \<Rightarrow> nat" where
  "div_ceil a b = (a + b - 1) div b"

lemma sat_add_le: "sat_add a b \<le> a + b"
  by (simp add: sat_add_def)

lemma sat_add_le_max [simp]: "sat_add a b \<le> usize_max"
  by (simp add: sat_add_def)

lemma sat_add_mono: "a \<le> a' \<Longrightarrow> b \<le> b' \<Longrightarrow> sat_add a b \<le> sat_add a' b'"
  by (auto simp: sat_add_def min_def)

lemma sat_add_exact: "a + b \<le> usize_max \<Longrightarrow> sat_add a b = a + b"
  by (simp add: sat_add_def)

lemma sat_add_exact_below: "sat_add a b < usize_max \<Longrightarrow> sat_add a b = a + b"
  by (auto simp: sat_add_def min_def split: if_splits)

lemma sat_add_assoc: "sat_add (sat_add a b) c = sat_add a (sat_add b c)"
  by (auto simp: sat_add_def min_def)

lemma sat_add_commute: "sat_add a b = sat_add b a"
  by (simp add: sat_add_def add.commute)

lemma sat_add_0 [simp]: "sat_add 0 b = min usize_max b" "sat_add a 0 = min usize_max a"
  by (simp_all add: sat_add_def)

lemma div_ceil_pos: "0 < a \<Longrightarrow> 0 < b \<Longrightarrow> 0 < div_ceil a b"
  by (simp add: div_ceil_def div_greater_zero_iff)

text \<open>\<open>iter().fold(0, usize::saturating_add)\<close>.\<close>

definition sat_sum :: "nat list \<Rightarrow> nat" where
  "sat_sum ns = foldl sat_add 0 ns"

lemma foldl_sat_add: "foldl sat_add (min usize_max k) ns = min usize_max (k + sum_list ns)"
proof (induction ns arbitrary: k)
  case Nil
  then show ?case by simp
next
  case (Cons n ns)
  have "sat_add (min usize_max k) n = min usize_max (k + n)"
    by (simp add: sat_add_def min_def)
  then show ?case using Cons.IH [of "k + n"] by (simp add: add.assoc)
qed

lemma sat_sum_eq: "sat_sum ns = min usize_max (sum_list ns)"
  using foldl_sat_add [of 0 ns] by (simp add: sat_sum_def)

lemma sat_sum_le: "sat_sum ns \<le> sum_list ns"
  by (simp add: sat_sum_eq)

lemma sat_sum_append: "sat_sum (xs @ ys) = sat_add (sat_sum xs) (sat_sum ys)"
  by (auto simp: sat_sum_eq sat_add_def min_def)

lemma sat_sum_Nil [simp]: "sat_sum [] = 0"
  by (simp add: sat_sum_eq)

subsection \<open>Results\<close>

definition and_then :: "'e + 'a \<Rightarrow> ('a \<Rightarrow> 'e + 'b) \<Rightarrow> 'e + 'b" where
  "and_then r f = (case r of Inl e \<Rightarrow> Inl e | Inr a \<Rightarrow> f a)"

lemma and_then_simps [simp]:
  "and_then (Inl e) f = Inl e"
  "and_then (Inr a) f = f a"
  by (simp_all add: and_then_def)

lemma and_then_Inr_iff: "and_then r f = Inr b \<longleftrightarrow> (\<exists>a. r = Inr a \<and> f a = Inr b)"
  by (cases r) auto

lemma and_then_Inl_iff: "and_then r f = Inl e \<longleftrightarrow> r = Inl e \<or> (\<exists>a. r = Inr a \<and> f a = Inl e)"
  by (cases r) auto

lemma and_then_InrE [elim]:
  assumes "and_then r f = Inr b"
  obtains a where "r = Inr a" and "f a = Inr b"
  using assms by (auto simp: and_then_Inr_iff)

text \<open>\<open>map_err\<close>, and a guard that returns an error early.\<close>

definition map_err :: "('e \<Rightarrow> 'f) \<Rightarrow> 'e + 'a \<Rightarrow> 'f + 'a" where
  "map_err g r = (case r of Inl e \<Rightarrow> Inl (g e) | Inr a \<Rightarrow> Inr a)"

lemma map_err_simps [simp]:
  "map_err g (Inl e) = Inl (g e)"
  "map_err g (Inr a) = Inr a"
  "map_err g r = Inr v \<longleftrightarrow> r = Inr v"
  by (simp_all add: map_err_def split: sum.splits)

definition ensure :: "bool \<Rightarrow> 'e \<Rightarrow> 'e + unit" where
  "ensure b e = (if b then Inr () else Inl e)"

lemma ensure_simps [simp]:
  "ensure True e = Inr ()"
  "ensure False e = Inl e"
  "ensure b e = Inr u \<longleftrightarrow> b"
  by (simp_all add: ensure_def)

text \<open>\<open>Option::ok_or\<close>.\<close>

definition ok_or :: "'e \<Rightarrow> 'a option \<Rightarrow> 'e + 'a" where
  "ok_or e v = (case v of None \<Rightarrow> Inl e | Some a \<Rightarrow> Inr a)"

lemma ok_or_simps [simp]:
  "ok_or e None = Inl e"
  "ok_or e (Some a) = Inr a"
  "ok_or e v = Inr a \<longleftrightarrow> v = Some a"
  by (simp_all add: ok_or_def split: option.splits)

subsection \<open>Lists\<close>

lemma last_filter_append:
  "last (filter P (xs @ [x])) = (if P x then x else last (filter P xs))"
  by simp

lemma count_list_takeWhile_le: "length (takeWhile P xs) \<le> length xs"
  by (induction xs) auto

lemma takeWhile_append_dropWhile_id: "takeWhile P xs @ drop (length (takeWhile P xs)) xs = xs"
  by (metis dropWhile_eq_drop takeWhile_dropWhile_id)

lemma subseq_concat_map:
  "(\<And>x. x \<in> set xs \<Longrightarrow> subseq (f x) (g x)) \<Longrightarrow> subseq (concat (map f xs)) (concat (map g xs))"
  by (induction xs) (auto intro: list_emb_append_mono)

lemma upt_Suc_shift: "[0..<Suc n] = 0 # map Suc [0..<n]"
  by (simp add: map_Suc_upt upt_conv_Cons)

lemma list_all_upt_shift: "list_all P [0..<Suc n] \<longleftrightarrow> P 0 \<and> list_all (\<lambda>i. P (Suc i)) [0..<n]"
  unfolding upt_Suc_shift by (simp add: list.pred_map comp_def del: upt_Suc)

lemma map_filter_append [simp]:
  "List.map_filter f (xs @ ys) = List.map_filter f xs @ List.map_filter f ys"
  by (simp add: List.map_filter_def)

lemma map_filter_update:
  "n \<notin> set ns \<Longrightarrow> List.map_filter (m(n \<mapsto> t)) ns = List.map_filter m ns"
  by (induction ns) (auto simp: List.map_filter_def)

text \<open>An \<open>i64\<close> is a 64-bit word read by \<open>sint\<close>.\<close>

abbreviation i64_max :: int where
  "i64_max \<equiv> 2 ^ 63 - 1"

abbreviation i64_min :: int where
  "i64_min \<equiv> - (2 ^ 63)"

text \<open>\<open>checked_add\<close>, \<open>checked_sub\<close> and \<open>checked_mul\<close> on a signed 64-bit value.\<close>

definition checked_i64 :: "int \<Rightarrow> i64 option" where
  "checked_i64 v = (if i64_min \<le> v \<and> v \<le> i64_max then Some (word_of_int v) else None)"

definition checked_add_i64 :: "i64 \<Rightarrow> i64 \<Rightarrow> i64 option" where
  "checked_add_i64 a b = checked_i64 (sint a + sint b)"

definition checked_sub_i64 :: "i64 \<Rightarrow> i64 \<Rightarrow> i64 option" where
  "checked_sub_i64 a b = checked_i64 (sint a - sint b)"

definition checked_mul_i64 :: "i64 \<Rightarrow> i64 \<Rightarrow> i64 option" where
  "checked_mul_i64 a b = checked_i64 (sint a * sint b)"

definition checked_add_u64 :: "u64 \<Rightarrow> u64 \<Rightarrow> u64 option" where
  "checked_add_u64 a b = (if unat a + unat b < 2 ^ 64 then Some (a + b) else None)"

definition saturating_add_u64 :: "u64 \<Rightarrow> u64 \<Rightarrow> u64" where
  "saturating_add_u64 a b = (if unat a + unat b < 2 ^ 64 then a + b else - 1)"

lemma sint_i64_range [simp]: "i64_min \<le> sint (a :: i64)" "sint (a :: i64) \<le> i64_max"
  using sint_range_size [of a] by (simp_all add: word_size)

lemma checked_i64_Some: "checked_i64 v = Some w \<Longrightarrow> sint w = v"
  by (auto simp: checked_i64_def sint_sbintrunc' signed_take_bit_int_eq_self split: if_splits)

lemma checked_add_i64_Some: "checked_add_i64 a b = Some c \<Longrightarrow> sint c = sint a + sint b"
  by (simp add: checked_add_i64_def checked_i64_Some)

lemma checked_sub_i64_Some: "checked_sub_i64 a b = Some c \<Longrightarrow> sint c = sint a - sint b"
  by (simp add: checked_sub_i64_def checked_i64_Some)

lemma checked_mul_i64_Some: "checked_mul_i64 a b = Some c \<Longrightarrow> sint c = sint a * sint b"
  by (simp add: checked_mul_i64_def checked_i64_Some)

lemma checked_add_u64_Some: "checked_add_u64 a b = Some c \<Longrightarrow> unat c = unat a + unat b"
  by (auto simp: checked_add_u64_def unat_word_ariths split: if_splits)

lemma unat_saturating_add_u64:
  "unat (saturating_add_u64 a b) = min (2 ^ 64 - 1) (unat a + unat b)"
  by (auto simp: saturating_add_u64_def unat_word_ariths min_def unsigned_minus_1_eq_mask mask_eq_exp_minus_1)

end
