(* ===== verification/Utf8.thy ===== *)
theory Utf8
  imports Prelude
begin

section \<open>UTF-8 strings as byte lists\<close>

text \<open>
  A Rust string is a byte list that is well-formed UTF-8. This theory models what the source uses
  of \<open>str\<close>: the encoding (\<open>valid_utf8\<close>), \<open>is_char_boundary\<close>, the loops that move an offset to a
  boundary (\<open>utf8_prefix\<close>, \<open>utf8_forward_boundary\<close> and \<open>utf8_backward_boundary\<close> of
  \<open>fx-core/src/agent.rs\<close> and \<open>fx-store/src/lib.rs\<close>), \<open>split_whitespace\<close>, \<open>trim\<close> and \<open>split\<close>, and
  the ASCII classes. Slicing a Rust string off a boundary panics, so the lemmas show that each
  cut falls on one and that both pieces are again well-formed.
\<close>

subsection \<open>Bytes\<close>

definition byte_of :: "char \<Rightarrow> nat" where
  "byte_of c = of_char c"

lemma byte_of_less [simp]: "byte_of c < 256"
  unfolding byte_of_def using nat_of_char_less_256 by simp

definition is_ascii :: "char \<Rightarrow> bool" where
  "is_ascii c \<longleftrightarrow> byte_of c < 128"

definition is_ascii_digit :: "char \<Rightarrow> bool" where
  "is_ascii_digit c \<longleftrightarrow> 48 \<le> byte_of c \<and> byte_of c \<le> 57"

definition is_ascii_uppercase :: "char \<Rightarrow> bool" where
  "is_ascii_uppercase c \<longleftrightarrow> 65 \<le> byte_of c \<and> byte_of c \<le> 90"

definition is_ascii_lowercase :: "char \<Rightarrow> bool" where
  "is_ascii_lowercase c \<longleftrightarrow> 97 \<le> byte_of c \<and> byte_of c \<le> 122"

definition is_ascii_alphanumeric :: "char \<Rightarrow> bool" where
  "is_ascii_alphanumeric c \<longleftrightarrow> is_ascii_digit c \<or> is_ascii_uppercase c \<or> is_ascii_lowercase c"

text \<open>\<open>u8::is_ascii_whitespace\<close>: tab, line feed, form feed, carriage return and space.\<close>

definition is_ascii_whitespace :: "char \<Rightarrow> bool" where
  "is_ascii_whitespace c \<longleftrightarrow> byte_of c \<in> {9, 10, 12, 13, 32}"

definition is_ascii_control :: "char \<Rightarrow> bool" where
  "is_ascii_control c \<longleftrightarrow> byte_of c < 32 \<or> byte_of c = 127"

definition to_ascii_lowercase :: "char \<Rightarrow> char" where
  "to_ascii_lowercase c = (if is_ascii_uppercase c then char_of (byte_of c + 32) else c)"

lemmas ascii_class_defs = is_ascii_def is_ascii_digit_def is_ascii_uppercase_def
  is_ascii_lowercase_def is_ascii_alphanumeric_def is_ascii_whitespace_def is_ascii_control_def

lemma ascii_classes [simp]:
  "is_ascii_digit c \<Longrightarrow> is_ascii c"
  "is_ascii_uppercase c \<Longrightarrow> is_ascii c"
  "is_ascii_alphanumeric c \<Longrightarrow> is_ascii c"
  "is_ascii_whitespace c \<Longrightarrow> is_ascii c"
  by (auto simp: ascii_class_defs)

subsection \<open>Well-formed encodings\<close>

definition is_cont :: "char \<Rightarrow> bool" where
  "is_cont c \<longleftrightarrow> 128 \<le> byte_of c \<and> byte_of c < 192"

lemma ascii_not_cont [simp]: "is_ascii c \<Longrightarrow> \<not> is_cont c"
  by (simp add: is_ascii_def is_cont_def)

definition conts :: "nat \<Rightarrow> string \<Rightarrow> bool" where
  "conts n s \<longleftrightarrow> n \<le> length s \<and> list_all is_cont (take n s)"

text \<open>
  The length of the scalar value encoded at the head, 0 when there is none: the table of
  well-formed byte sequences (no overlong forms, no surrogates, nothing above U+10FFFF).
\<close>

fun utf8_head :: "string \<Rightarrow> nat" where
  "utf8_head [] = 0"
| "utf8_head (c # s) =
     (let b = byte_of c; b2 = (case s of [] \<Rightarrow> 0 | d # _ \<Rightarrow> byte_of d) in
      if b < 128 then 1
      else if 194 \<le> b \<and> b \<le> 223 \<and> conts 1 s then 2
      else if 224 \<le> b \<and> b \<le> 239 \<and> conts 2 s
        \<and> (b = 224 \<longrightarrow> 160 \<le> b2) \<and> (b = 237 \<longrightarrow> b2 < 160) then 3
      else if 240 \<le> b \<and> b \<le> 244 \<and> conts 3 s
        \<and> (b = 240 \<longrightarrow> 144 \<le> b2) \<and> (b = 244 \<longrightarrow> b2 < 144) then 4
      else 0)"

lemma utf8_head_bounds: "utf8_head s \<le> 4 \<and> utf8_head s \<le> length s"
  by (cases s) (auto simp: Let_def conts_def)

lemma utf8_head_lead: "0 < utf8_head s \<Longrightarrow> \<not> is_cont (s ! 0)"
  by (cases s) (auto simp: Let_def is_cont_def split: if_splits)

lemma conts_nth: "conts n s \<Longrightarrow> i < n \<Longrightarrow> is_cont (s ! i)"
  by (auto simp: conts_def list_all_length)

lemma utf8_head_conts:
  assumes "0 < i" and "i < utf8_head s"
  shows "is_cont (s ! i)"
proof (cases s)
  case Nil
  with assms show ?thesis by simp
next
  case (Cons c r)
  with assms have "conts (utf8_head s - 1) r"
    by (auto simp: Let_def split: if_splits)
  moreover from assms obtain j where "i = Suc j" and "j < utf8_head s - 1"
    by (cases i) auto
  ultimately show ?thesis using Cons by (simp add: conts_nth)
qed

lemma conts_Nil [simp]: "conts n [] \<longleftrightarrow> n = 0"
  by (auto simp: conts_def)

lemma conts_append: "conts n r \<Longrightarrow> conts n (r @ t)"
  by (auto simp: conts_def)

lemma conts_take: "conts n r \<Longrightarrow> n \<le> m \<Longrightarrow> conts n (take m r)"
  by (auto simp: conts_def min_def)

lemma utf8_head_append: "0 < utf8_head s \<Longrightarrow> utf8_head (s @ t) = utf8_head s"
proof (cases s)
  case (Cons c r)
  then show "0 < utf8_head s \<Longrightarrow> ?thesis"
    by (cases r) (auto simp: Let_def conts_append [of _ "_ # _", simplified] split: if_splits)
qed simp

lemma utf8_head_take: "utf8_head s \<le> n \<Longrightarrow> 0 < utf8_head s \<Longrightarrow> 0 < utf8_head (take n s)"
proof (cases s)
  case (Cons c r)
  assume le: "utf8_head s \<le> n" and pos: "0 < utf8_head s"
  then obtain m where n: "n = Suc m" by (cases n) auto
  show ?thesis
  proof (cases "r = [] \<or> m = 0")
    case True
    with Cons le pos n show ?thesis by (auto simp: Let_def split: if_splits)
  next
    case False
    then obtain d q k where r: "r = d # q" and m: "m = Suc k" by (cases r; cases m) auto
    have "conts j r \<Longrightarrow> j \<le> Suc k \<Longrightarrow> conts j (d # take k q)" for j
      using conts_take [of j r "Suc k"] r by simp
    then show ?thesis using le pos Cons n r m by (auto simp: Let_def split: if_splits)
  qed
qed simp

function valid_utf8 :: "string \<Rightarrow> bool" where
  "valid_utf8 s =
     (if s = [] then True
      else if utf8_head s = 0 then False
      else valid_utf8 (drop (utf8_head s) s))"
  by pat_completeness auto
termination
  by (relation "measure length") auto

declare valid_utf8.simps [simp del]

lemma valid_utf8_Nil [simp]: "valid_utf8 []"
  by (simp add: valid_utf8.simps)

lemma valid_utf8_nonempty:
  "s \<noteq> [] \<Longrightarrow> valid_utf8 s \<longleftrightarrow> 0 < utf8_head s \<and> valid_utf8 (drop (utf8_head s) s)"
  by (subst valid_utf8.simps) simp

lemma valid_utf8_ascii_Cons [simp]: "is_ascii c \<Longrightarrow> valid_utf8 (c # s) \<longleftrightarrow> valid_utf8 s"
  by (subst valid_utf8.simps) (simp add: is_ascii_def)

lemma valid_utf8_ascii: "list_all is_ascii s \<Longrightarrow> valid_utf8 s"
  by (induction s) auto

lemma valid_utf8_append: "valid_utf8 s \<Longrightarrow> valid_utf8 t \<Longrightarrow> valid_utf8 (s @ t)"
proof (induction s rule: valid_utf8.induct)
  case (1 s)
  show ?case
  proof (cases "s = []")
    case True
    with 1 show ?thesis by simp
  next
    case False
    with "1.prems" have h: "0 < utf8_head s" and d: "valid_utf8 (drop (utf8_head s) s)"
      by (simp_all add: valid_utf8_nonempty)
    from "1.IH" [OF False _ d "1.prems"(2)] h
    have "valid_utf8 (drop (utf8_head s) s @ t)" by simp
    moreover have "utf8_head s \<le> length s" using utf8_head_bounds by blast
    ultimately show ?thesis using h
      by (subst valid_utf8.simps) (simp add: utf8_head_append)
  qed
qed

lemma valid_utf8_concat: "list_all valid_utf8 ss \<Longrightarrow> valid_utf8 (concat ss)"
  by (induction ss) (auto intro: valid_utf8_append)

subsection \<open>Character boundaries\<close>

definition is_char_boundary :: "string \<Rightarrow> nat \<Rightarrow> bool" where
  "is_char_boundary s i \<longleftrightarrow> i = 0 \<or> i = length s \<or> (i < length s \<and> \<not> is_cont (s ! i))"

lemma is_char_boundary_ends [simp]:
  "is_char_boundary s 0"
  "is_char_boundary s (length s)"
  by (simp_all add: is_char_boundary_def)

lemma ascii_is_boundary: "i < length s \<Longrightarrow> is_ascii (s ! i) \<Longrightarrow> is_char_boundary s i"
  by (simp add: is_char_boundary_def)

text \<open>A boundary cuts a well-formed string into two.\<close>

lemma valid_utf8_cut:
  assumes "valid_utf8 s" and "is_char_boundary s i"
  shows "valid_utf8 (take i s) \<and> valid_utf8 (drop i s)"
  using assms
proof (induction s arbitrary: i rule: valid_utf8.induct)
  case (1 s)
  show ?case
  proof (cases "s = [] \<or> i = 0")
    case True
    with 1 show ?thesis by auto
  next
    case False
    let ?n = "utf8_head s"
    from False "1.prems" have n: "0 < ?n" and v: "valid_utf8 (drop ?n s)"
      by (simp_all add: valid_utf8_nonempty)
    have nl: "?n \<le> length s" using utf8_head_bounds by blast
    have ge: "?n \<le> i"
      using False "1.prems"(2) nl utf8_head_conts [of i s] by (force simp: is_char_boundary_def)
    then have d: "drop (i - ?n) (drop ?n s) = drop i s"
      and t: "take (i - ?n) (drop ?n s) = drop ?n (take i s)"
      by (simp_all add: drop_take)
    from ge "1.prems"(2) False nl have "is_char_boundary (drop ?n s) (i - ?n)"
      by (auto simp: is_char_boundary_def)
    with "1.IH" [of "i - ?n"] False n v
    have "valid_utf8 (drop ?n (take i s)) \<and> valid_utf8 (drop i s)" by (simp only: d t) simp
    moreover have "utf8_head (take i s) = ?n"
      using utf8_head_append [of "take i s" "drop i s"] utf8_head_take [OF ge n] by simp
    ultimately show ?thesis using n by (subst valid_utf8.simps) simp
  qed
qed

lemma valid_utf8_take: "valid_utf8 s \<Longrightarrow> is_char_boundary s i \<Longrightarrow> valid_utf8 (take i s)"
  and valid_utf8_drop: "valid_utf8 s \<Longrightarrow> is_char_boundary s i \<Longrightarrow> valid_utf8 (drop i s)"
  using valid_utf8_cut by auto

lemma is_char_boundary_drop:
  "is_char_boundary s j \<Longrightarrow> i \<le> j \<Longrightarrow> is_char_boundary (drop i s) (j - i)"
  by (auto simp: is_char_boundary_def)

lemma valid_utf8_slice:
  assumes "valid_utf8 s" and "is_char_boundary s i" and "is_char_boundary s j" and "i \<le> j"
  shows "valid_utf8 (take (j - i) (drop i s))"
  using assms by (blast intro: valid_utf8_take valid_utf8_drop is_char_boundary_drop)

text \<open>
  After a boundary whose byte is ASCII comes a boundary: the scanners of the redactor move one
  ASCII byte at a time.
\<close>

lemma valid_utf8_nth_0: "valid_utf8 s \<Longrightarrow> s \<noteq> [] \<Longrightarrow> \<not> is_cont (s ! 0)"
  using utf8_head_lead by (simp add: valid_utf8_nonempty)

lemma boundary_Suc:
  assumes "valid_utf8 s" and "i < length s" and "is_ascii (s ! i)"
  shows "is_char_boundary s (Suc i)"
proof -
  have "valid_utf8 (drop i s)" using assms by (intro valid_utf8_drop ascii_is_boundary)
  moreover have "drop i s = s ! i # drop (Suc i) s" using assms(2) by (rule Cons_nth_drop_Suc [symmetric])
  ultimately have v: "valid_utf8 (drop (Suc i) s)" using assms(3) by simp
  show ?thesis
  proof (cases "Suc i < length s")
    case True
    with valid_utf8_nth_0 [OF v] show ?thesis by (simp add: is_char_boundary_def)
  next
    case False
    with assms(2) have "Suc i = length s" by simp
    then show ?thesis by (simp add: is_char_boundary_def)
  qed
qed

lemma boundary_after_ascii_run:
  assumes "valid_utf8 s" and "i < j" and "j \<le> length s" and "is_ascii (s ! (j - 1))"
  shows "is_char_boundary s j"
  using boundary_Suc [of s "j - 1"] assms by simp

subsection \<open>Moving an offset to a boundary\<close>

text \<open>\<open>while end > 0 && !content.is_char_boundary(end) { end -= 1; }\<close>\<close>

fun utf8_backward_boundary :: "string \<Rightarrow> nat \<Rightarrow> nat" where
  "utf8_backward_boundary s 0 = 0"
| "utf8_backward_boundary s (Suc n) =
     (if is_char_boundary s (Suc n) then Suc n else utf8_backward_boundary s n)"

text \<open>\<open>while offset < value.len() && !value.is_char_boundary(offset) { offset += 1; }\<close>\<close>

function utf8_forward_boundary :: "string \<Rightarrow> nat \<Rightarrow> nat" where
  "utf8_forward_boundary s n =
     (if n < length s \<and> \<not> is_char_boundary s n then utf8_forward_boundary s (Suc n) else n)"
  by pat_completeness auto
termination
  by (relation "measure (\<lambda>(s, n). length s - n)") auto

declare utf8_forward_boundary.simps [simp del]

definition utf8_prefix :: "string \<Rightarrow> nat \<Rightarrow> string" where
  "utf8_prefix s max_bytes = take (utf8_backward_boundary s (min (length s) max_bytes)) s"

lemma utf8_backward_boundary_le [simp]: "utf8_backward_boundary s n \<le> n"
  by (induction n) auto

lemma utf8_backward_boundary_is_boundary [simp]: "is_char_boundary s (utf8_backward_boundary s n)"
  by (induction n) auto

lemma utf8_backward_boundary_greatest:
  "is_char_boundary s i \<Longrightarrow> i \<le> n \<Longrightarrow> i \<le> utf8_backward_boundary s n"
  by (induction n) (auto simp: le_Suc_eq)

lemma utf8_backward_boundary_id [simp]: "is_char_boundary s n \<Longrightarrow> utf8_backward_boundary s n = n"
  by (cases n) auto

lemma utf8_forward_boundary_props:
  "n \<le> utf8_forward_boundary s n \<and>
   (n \<le> length s \<longrightarrow> utf8_forward_boundary s n \<le> length s
      \<and> is_char_boundary s (utf8_forward_boundary s n))"
proof (induction s n rule: utf8_forward_boundary.induct)
  case (1 s n)
  then show ?case by (subst (1 2 3) utf8_forward_boundary.simps) (auto simp: is_char_boundary_def)
qed

lemma utf8_forward_boundary_id [simp]: "is_char_boundary s n \<Longrightarrow> utf8_forward_boundary s n = n"
  by (subst utf8_forward_boundary.simps) simp

text \<open>A scalar value is at most four bytes, so a boundary is at most three bytes away.\<close>

lemma boundary_within_4:
  assumes "valid_utf8 s" and "is_char_boundary s i" and "i < length s"
  shows "\<exists>j. i < j \<and> j \<le> i + 4 \<and> j \<le> length s \<and> is_char_boundary s j"
proof -
  let ?r = "drop i s"
  from assms have v: "valid_utf8 ?r" and ne: "?r \<noteq> []" by (simp_all add: valid_utf8_drop)
  let ?n = "utf8_head ?r"
  from v ne have n: "0 < ?n" and v': "valid_utf8 (drop ?n ?r)"
    by (simp_all add: valid_utf8_nonempty)
  have b: "?n \<le> 4" "?n \<le> length ?r" using utf8_head_bounds by blast+
  have "is_char_boundary s (i + ?n)"
  proof (cases "i + ?n < length s")
    case True
    with valid_utf8_nth_0 [OF v'] show ?thesis by (simp add: is_char_boundary_def add.commute)
  next
    case False
    with b assms(3) show ?thesis by (simp add: is_char_boundary_def)
  qed
  with n b assms(3) show ?thesis by (intro exI [of _ "i + ?n"]) auto
qed

lemma utf8_prefix_prefix [simp]: "prefix (utf8_prefix s n) s"
  by (simp add: utf8_prefix_def take_is_prefix)

lemma length_utf8_prefix [bound_simps]: "length (utf8_prefix s n) \<le> n"
proof -
  have "utf8_backward_boundary s (min (length s) n) \<le> min (length s) n"
    by (rule utf8_backward_boundary_le)
  then show ?thesis by (simp add: utf8_prefix_def)
qed

lemma utf8_prefix_boundary: "is_char_boundary s (length (utf8_prefix s n))"
proof -
  let ?k = "utf8_backward_boundary s (min (length s) n)"
  have "?k \<le> length s" using utf8_backward_boundary_le [of s "min (length s) n"] by simp
  then have "length (utf8_prefix s n) = ?k" by (simp add: utf8_prefix_def)
  then show ?thesis by simp
qed

lemma utf8_prefix_valid: "valid_utf8 s \<Longrightarrow> valid_utf8 (utf8_prefix s n)"
  by (simp add: utf8_prefix_def valid_utf8_take)

lemma utf8_prefix_all: "length s \<le> n \<Longrightarrow> utf8_prefix s n = s"
  by (simp add: utf8_prefix_def min_def)

end
