(* ===== verification/Text.thy ===== *)
theory Text
  imports Utf8
begin

section \<open>The text routines of the standard library\<close>

text \<open>
  What the source uses of \<open>str\<close> beyond the encoding: Unicode white space (\<open>split_whitespace\<close>,
  \<open>trim\<close>), splitting at a byte, joining, literal search, and decimal formatting. A white-space
  scalar is recognised by its encoding; a lead byte never occurs inside another scalar, so on a
  well-formed string the byte scan meets exactly the white-space characters.
\<close>

subsection \<open>White space\<close>

text \<open>
  The white-space characters by encoded length: the ASCII ones with U+000B; U+0085 and U+00A0;
  U+1680, U+2000 to U+200A, U+2028, U+2029, U+202F, U+205F and U+3000.
\<close>

definition ws1 :: "char \<Rightarrow> bool" where
  "ws1 a \<longleftrightarrow> (9 \<le> byte_of a \<and> byte_of a \<le> 13) \<or> byte_of a = 32"

definition ws2 :: "char \<Rightarrow> char \<Rightarrow> bool" where
  "ws2 a c \<longleftrightarrow> byte_of a = 194 \<and> (byte_of c = 133 \<or> byte_of c = 160)"

definition ws3 :: "char \<Rightarrow> char \<Rightarrow> char \<Rightarrow> bool" where
  "ws3 a c d \<longleftrightarrow>
     (byte_of a = 225 \<and> byte_of c = 154 \<and> byte_of d = 128)
     \<or> (byte_of a = 226 \<and> byte_of c = 128
         \<and> ((128 \<le> byte_of d \<and> byte_of d \<le> 138) \<or> byte_of d \<in> {168, 169, 175}))
     \<or> (byte_of a = 226 \<and> byte_of c = 129 \<and> byte_of d = 159)
     \<or> (byte_of a = 227 \<and> byte_of c = 128 \<and> byte_of d = 128)"

text \<open>The encoded length of the white-space character at the head, 0 when there is none.\<close>

fun ws_head :: "string \<Rightarrow> nat" where
  "ws_head [] = 0"
| "ws_head (a # s) =
     (if ws1 a then 1
      else case s of
        [] \<Rightarrow> 0
      | c # t \<Rightarrow>
          if ws2 a c then 2
          else (case t of [] \<Rightarrow> 0 | d # _ \<Rightarrow> if ws3 a c d then 3 else 0))"

lemma ws_head_le: "ws_head s \<le> length s"
  by (cases s) (auto split: list.splits)

lemma utf8_head_ws1: "ws1 a \<Longrightarrow> utf8_head (a # s) = 1"
  by (auto simp: ws1_def)

lemma utf8_head_ws2: "ws2 a c \<Longrightarrow> utf8_head (a # c # s) = 2"
  by (auto simp: ws2_def conts_def is_cont_def)

lemma utf8_head_ws3: "ws3 a c d \<Longrightarrow> utf8_head (a # c # d # s) = 3"
  unfolding ws3_def by (elim disjE) (auto simp: conts_def is_cont_def numeral_2_eq_2)

lemma ws_head_utf8_head: "0 < ws_head s \<Longrightarrow> utf8_head s = ws_head s"
  by (cases s)
    (auto simp: utf8_head_ws1 utf8_head_ws2 utf8_head_ws3 simp del: utf8_head.simps
      split: if_splits list.splits)

text \<open>\<open>split_whitespace\<close>; \<open>acc\<close> is the current word, reversed.\<close>

function split_ws :: "string \<Rightarrow> string \<Rightarrow> string list" where
  "split_ws acc s =
     (if s = [] then (if acc = [] then [] else [rev acc])
      else if 0 < ws_head s
        then (if acc = [] then [] else [rev acc]) @ split_ws [] (drop (ws_head s) s)
      else split_ws (hd s # acc) (tl s))"
  by pat_completeness auto
termination
  by (relation "measure (\<lambda>(acc, s). length s)") auto

declare split_ws.simps [simp del]

definition split_whitespace :: "string \<Rightarrow> string list" where
  "split_whitespace s = split_ws [] s"

lemma split_ws_nonempty: "w \<in> set (split_ws acc s) \<Longrightarrow> w \<noteq> []"
proof (induction acc s rule: split_ws.induct)
  case (1 acc s)
  then show ?case by (subst (asm) (2) split_ws.simps) (auto split: if_splits)
qed

text \<open>
  A measure of words summed over the split is bounded by half the text, when it is bounded so on
  each word with the separator counted.
\<close>

lemma split_ws_sum_bound:
  assumes f: "\<And>w. w \<noteq> [] \<Longrightarrow> 2 * f w \<le> length w + 1"
  shows "2 * sum_list (map f (split_ws acc s)) \<le> length acc + length s + 1"
proof (induction acc s rule: split_ws.induct)
  case (1 acc s)
  have facc: "acc \<noteq> [] \<Longrightarrow> 2 * f (rev acc) \<le> length acc + 1" using f [of "rev acc"] by simp
  consider "s = []" | "s \<noteq> []" "0 < ws_head s" | "s \<noteq> []" "ws_head s = 0" by blast
  then show ?case
  proof cases
    case 1
    with facc show ?thesis by (subst split_ws.simps) auto
  next
    case 2
    with "1.IH"(1) ws_head_le [of s] facc show ?thesis by (subst split_ws.simps) force
  next
    case 3
    with "1.IH"(2) have "2 * sum_list (map f (split_ws (hd s # acc) (tl s))) \<le> length acc + 1 + length (tl s) + 1"
      by simp
    with 3 show ?thesis by (subst split_ws.simps) (cases s; simp)
  qed
qed

lemma split_ws_valid:
  "valid_utf8 (rev acc @ s) \<Longrightarrow> list_all valid_utf8 (split_ws acc s)"
proof (induction acc s rule: split_ws.induct)
  case (1 acc s)
  consider "s = []" | "s \<noteq> []" "0 < ws_head s" | "s \<noteq> []" "ws_head s = 0" by blast
  then show ?case
  proof cases
    case 1
    with "1.prems" show ?thesis by (subst split_ws.simps) auto
  next
    case 2
    from 2 have u: "utf8_head s = ws_head s" by (simp add: ws_head_utf8_head)
    from 2 u have "\<not> is_cont (s ! 0)" by (metis utf8_head_lead)
    with 2 have b: "is_char_boundary (rev acc @ s) (length acc)"
      by (simp add: is_char_boundary_def nth_append)
    from valid_utf8_cut [OF "1.prems" b] have "valid_utf8 (rev acc)" and v: "valid_utf8 s" by simp_all
    moreover from v 2 u have "valid_utf8 (drop (ws_head s) s)" by (simp add: valid_utf8_nonempty)
    ultimately show ?thesis using 2 "1.IH"(1) by (subst split_ws.simps) auto
  next
    case 3
    with "1.IH"(2) "1.prems" show ?thesis by (subst split_ws.simps) (cases s; simp)
  qed
qed

lemma split_whitespace_valid: "valid_utf8 s \<Longrightarrow> list_all valid_utf8 (split_whitespace s)"
  by (simp add: split_whitespace_def split_ws_valid)

text \<open>\<open>trim_start\<close>, \<open>trim_end\<close>, \<open>trim\<close>.\<close>

function all_ws :: "string \<Rightarrow> bool" where
  "all_ws s = (if s = [] then True else if ws_head s = 0 then False else all_ws (drop (ws_head s) s))"
  by pat_completeness auto
termination
  by (relation "measure length") auto

declare all_ws.simps [simp del]

function trim_start :: "string \<Rightarrow> string" where
  "trim_start s = (if 0 < ws_head s then trim_start (drop (ws_head s) s) else s)"
  by pat_completeness auto
termination
  by (relation "measure length") (auto, metis diff_less leD length_greater_0_conv list.size(3) ws_head_le)

declare trim_start.simps [simp del]

fun trim_end :: "string \<Rightarrow> string" where
  "trim_end [] = []"
| "trim_end (c # s) = (if all_ws (c # s) then [] else c # trim_end s)"

definition trim :: "string \<Rightarrow> string" where
  "trim s = trim_end (trim_start s)"

lemma length_trim_start: "length (trim_start s) \<le> length s"
proof (induction s rule: trim_start.induct)
  case (1 s)
  then show ?case by (subst trim_start.simps) (auto intro: le_trans)
qed

lemma length_trim_end: "length (trim_end s) \<le> length s"
  by (induction s) auto

lemma length_trim [bound_simps]: "length (trim s) \<le> length s"
  unfolding trim_def using length_trim_start length_trim_end le_trans by blast

subsection \<open>Splitting, joining, searching\<close>

text \<open>\<open>str::split(c)\<close> for an ASCII separator: always at least one piece.\<close>

fun split_on :: "char \<Rightarrow> string \<Rightarrow> string list" where
  "split_on c [] = [[]]"
| "split_on c (x # xs) =
     (if x = c then [] # split_on c xs
      else case split_on c xs of [] \<Rightarrow> [[x]] | w # ws \<Rightarrow> (x # w) # ws)"

lemma split_on_nonempty [simp]: "split_on c s \<noteq> []"
  by (induction s) (auto split: list.splits)

fun join :: "string \<Rightarrow> string list \<Rightarrow> string" where
  "join sep [] = []"
| "join sep [w] = w"
| "join sep (w # v # ws) = w @ sep @ join sep (v # ws)"

lemma join_split_on [simp]: "join [c] (split_on c s) = s"
proof (induction s)
  case (Cons x s)
  show ?case
  proof (cases "split_on c s")
    case Nil
    then show ?thesis by simp
  next
    case (Cons w ws)
    with Cons.IH show ?thesis by (cases ws) auto
  qed
qed simp

lemma split_on_notin: "w \<in> set (split_on c s) \<Longrightarrow> c \<notin> set w"
  by (induction s arbitrary: w) (auto split: list.splits if_splits)

lemma join_valid: "valid_utf8 sep \<Longrightarrow> list_all valid_utf8 ws \<Longrightarrow> valid_utf8 (join sep ws)"
  by (induction sep ws rule: join.induct) (auto intro: valid_utf8_append)

definition contains_str :: "string \<Rightarrow> string \<Rightarrow> bool" where
  "contains_str s needle \<longleftrightarrow> sublist needle s"

definition strip_suffix :: "string \<Rightarrow> string \<Rightarrow> string option" where
  "strip_suffix s suf = (if suffix suf s then Some (take (length s - length suf) s) else None)"

definition strip_prefix :: "string \<Rightarrow> string \<Rightarrow> string option" where
  "strip_prefix s pre = (if prefix pre s then Some (drop (length pre) s) else None)"

lemma strip_suffix_Some_iff: "strip_suffix s suf = Some p \<longleftrightarrow> s = p @ suf"
  by (auto simp: strip_suffix_def suffix_def)

subsection \<open>Decimal formatting\<close>

text \<open>\<open>format!("{}", n)\<close> for an unsigned integer.\<close>

fun show_nat :: "nat \<Rightarrow> string" where
  "show_nat n = (if n < 10 then [char_of (48 + n)] else show_nat (n div 10) @ [char_of (48 + n mod 10)])"

declare show_nat.simps [simp del]

lemma show_nat_nonempty [simp]: "show_nat n \<noteq> []"
  by (subst show_nat.simps) simp

lemma byte_of_char_of_digit: "d < 10 \<Longrightarrow> byte_of (char_of (48 + d)) = 48 + d"
  by (simp add: byte_of_def of_char_of)

lemma show_nat_digits: "list_all is_ascii_digit (show_nat n)"
proof (induction n rule: show_nat.induct)
  case (1 n)
  have "d < 10 \<Longrightarrow> is_ascii_digit (char_of (48 + d))" for d :: nat
    by (simp add: is_ascii_digit_def byte_of_char_of_digit)
  with 1 show ?case by (subst show_nat.simps) simp
qed

text \<open>The value of a digit string, the inverse of \<open>show_nat\<close>.\<close>

definition read_nat :: "string \<Rightarrow> nat" where
  "read_nat s = foldl (\<lambda>n c. 10 * n + (byte_of c - 48)) 0 s"

lemma read_show_nat [simp]: "read_nat (show_nat n) = n"
proof (induction n rule: show_nat.induct)
  case (1 n)
  then show ?case by (subst show_nat.simps) (auto simp: read_nat_def byte_of_char_of_digit)
qed

lemma show_nat_inject [simp]: "show_nat m = show_nat n \<longleftrightarrow> m = n"
  by (metis read_show_nat)

lemma length_show_nat: "n < 10 ^ k \<Longrightarrow> 0 < k \<Longrightarrow> length (show_nat n) \<le> k"
proof (induction k arbitrary: n)
  case (Suc k)
  show ?case
  proof (cases "n < 10")
    case True
    then show ?thesis by (subst show_nat.simps) simp
  next
    case False
    with Suc.prems have "n div 10 < 10 ^ k" and "0 < k"
      by (auto simp: less_mult_imp_div_less mult.commute intro: Suc_leI gr0I)
    with Suc.IH have "length (show_nat (n div 10)) \<le> k" by blast
    with False show ?thesis by (subst show_nat.simps) simp
  qed
qed simp

end
