(* ===== verification/Message.thy ===== *)
theory Message
  imports Text
begin

section \<open>Conversation and gateway data\<close>

text \<open>
  The provider-neutral values of \<open>fx-core/src/message.rs\<close>, \<open>fx-core/src/gateway.rs\<close> and
  \<open>fx-core/src/tool.rs\<close>. \<open>json\<close> is the value type of \<open>serde_json\<close>; its parser and printer are
  parameters wherever they are used.
\<close>

datatype json =
    JNull
  | JBool bool
  | JNumber int
  | JString string
  | JArray "json list"
  | JObject "(string \<times> json) list"

definition is_object :: "json \<Rightarrow> bool" where
  "is_object v \<longleftrightarrow> (case v of JObject _ \<Rightarrow> True | _ \<Rightarrow> False)"

text \<open>
  What a derived \<open>Deserialize\<close> sees of a value: the fields of an object, where no field of the
  struct is there twice, or the fields by position for an array that is not too long; an absent
  field is missing in the list.
\<close>

definition struct_fields :: "string list \<Rightarrow> json \<Rightarrow> (string \<times> json) list option" where
  "struct_fields names v =
     (case v of
        JObject obj \<Rightarrow>
          if distinct (filter (\<lambda>k. k \<in> set names) (map fst obj)) then Some obj else None
      | JArray vs \<Rightarrow> if length vs \<le> length names then Some (zip names vs) else None
      | _ \<Rightarrow> None)"

definition string_field :: "(string \<times> json) list \<Rightarrow> string \<Rightarrow> string option" where
  "string_field obj key = (case map_of obj key of Some (JString s) \<Rightarrow> Some s | _ \<Rightarrow> None)"

definition nat_field :: "nat \<Rightarrow> (string \<times> json) list \<Rightarrow> string \<Rightarrow> nat option" where
  "nat_field largest obj key =
     (case map_of obj key of
        Some (JNumber n) \<Rightarrow> if 0 \<le> n \<and> n \<le> int largest then Some (nat n) else None
      | _ \<Rightarrow> None)"

datatype role = System | User | Assistant | Tool

datatype tool_argument_integrity = Valid | MalformedJson

datatype tool_execution_provenance = FxLocal | Provider

record tool_call =
  tc_id :: string
  tc_name :: string
  arguments_json :: string
  argument_integrity :: tool_argument_integrity
  provisional_id :: "string option"
  provider_result :: "string option"
  provenance :: tool_execution_provenance

datatype cache_policy = DefaultCache | NoCache

record chat_message =
  role :: role
  content :: "string option"
  tool_call_id :: "string option"
  tool_name :: "string option"
  tool_calls :: "tool_call list"
  permission_feedback :: bool
  cache_policy :: cache_policy

text \<open>\<open>ChatMessage::text\<close>.\<close>

definition chat_text :: "role \<Rightarrow> string \<Rightarrow> chat_message" where
  "chat_text r c =
     \<lparr>role = r, content = Some c, tool_call_id = None, tool_name = None, tool_calls = [],
      permission_feedback = False, cache_policy = DefaultCache\<rparr>"

lemma chat_text_simps [simp]:
  "role (chat_text r c) = r"
  "content (chat_text r c) = Some c"
  "tool_call_id (chat_text r c) = None"
  "tool_name (chat_text r c) = None"
  "tool_calls (chat_text r c) = []"
  by (simp_all add: chat_text_def)

datatype finish_reason = Stop | Length | ContentFilter | ToolCalls | FinishError | Other

record usage =
  input_tokens :: "u64 option"
  output_tokens :: "u64 option"

text \<open>\<open>Usage::default()\<close>.\<close>

definition usage_default :: usage where
  "usage_default = \<lparr>input_tokens = None, output_tokens = None\<rparr>"

datatype tool_choice = AutoChoice | NoneChoice | RequiredChoice

datatype tool_advertisement_kind = Function | ProviderTool string json

record tool_advertisement =
  ad_name :: string
  ad_description :: string
  ad_input_schema :: json
  ad_kind :: tool_advertisement_kind

text \<open>\<open>ToolAdvertisement::function\<close> and \<open>ToolAdvertisement::provider\<close>.\<close>

definition advertise_function :: "string \<Rightarrow> string \<Rightarrow> json \<Rightarrow> tool_advertisement" where
  "advertise_function name description schema =
     \<lparr>ad_name = name, ad_description = description, ad_input_schema = schema, ad_kind = Function\<rparr>"

definition advertise_provider :: "string \<Rightarrow> string \<Rightarrow> json \<Rightarrow> tool_advertisement" where
  "advertise_provider ident name args =
     \<lparr>ad_name = name, ad_description = [], ad_input_schema = JNull,
      ad_kind = ProviderTool ident args\<rparr>"

record gateway_request =
  gw_model :: string
  gw_messages :: "chat_message list"
  gw_tools :: "tool_advertisement list"
  gw_tool_choice :: tool_choice
  gw_max_output_tokens :: "nat option"

record gateway_response =
  resp_content :: "string option"
  resp_tool_calls :: "tool_call list"
  resp_generation_id :: "string option"
  resp_finish_reason :: "finish_reason option"
  resp_usage :: usage
  resp_delivery_ambiguous :: bool

datatype gateway_event =
    ContentDelta string
  | ReasoningDelta string
  | GatewayToolStarted string string

datatype gateway_error =
    GwCancelled
  | Authentication
  | Rejected string
  | DefinitelyUnsent
  | PossiblySent
  | InvalidResponse string
  | GwUnavailable string

text \<open>Effects, outputs and errors of tools.\<close>

datatype tool_effect = Read | Write | Process | Network | UserInteraction | Delegation

datatype sandbox_mode = NoSandbox | OsSandbox

record tool_limits =
  max_result_bytes :: nat
  max_read_file_lines :: nat
  max_read_file_line_bytes :: nat
  max_list_entries :: nat
  command_timeout_ms :: "nat option"

definition tool_limits_default :: tool_limits where
  "tool_limits_default =
     \<lparr>max_result_bytes = 64 * 1024, max_read_file_lines = 400, max_read_file_line_bytes = 2000,
      max_list_entries = 100, command_timeout_ms = None\<rparr>"

record tool_output =
  out_content :: string
  is_error :: bool
  structured :: "json option"
  original_bytes :: nat
  truncated :: bool
  durable_content :: "string option"

datatype tool_error =
    InvalidArguments string
  | OutsideWorkspace string
  | PermissionDenied string
  | Execution string
  | Cancelled

text \<open>\<open>Display for ToolError\<close>.\<close>

fun show_tool_error :: "tool_error \<Rightarrow> string" where
  "show_tool_error (InvalidArguments m) = ''invalid arguments: '' @ m"
| "show_tool_error (OutsideWorkspace m) = ''tool call is outside the active workspace: '' @ m"
| "show_tool_error (PermissionDenied m) = ''permission denied: '' @ m"
| "show_tool_error (Execution m) = ''tool execution failed: '' @ m"
| "show_tool_error Cancelled = ''tool was cancelled''"

end
