(* ===== verification/Paths.thy ===== *)
theory Paths
  imports Text "HOL-Library.List_Lexorder"
begin

section \<open>Unix paths\<close>

text \<open>
  \<open>std::path\<close> on Unix, as the permission rules and the workspace boundary use it. A path is its
  byte string; \<open>components\<close> is its normal form: repeated separators and inner \<open>.\<close> disappear, a
  leading \<open>.\<close> of a relative path stays, \<open>..\<close> stays. \<open>starts_with\<close> and \<open>strip_prefix\<close> compare whole
  components, never bytes.
\<close>

datatype component = RootDir | CurDir | ParentDir | Normal string

definition is_absolute :: "string \<Rightarrow> bool" where
  "is_absolute s \<longleftrightarrow> prefix ''/'' s"

fun path_parts :: "bool \<Rightarrow> string list \<Rightarrow> component list" where
  "path_parts first [] = []"
| "path_parts first (w # ws) =
     (if w = [] then path_parts first ws
      else if w = ''.'' then (if first then CurDir # path_parts False ws else path_parts False ws)
      else if w = ''..'' then ParentDir # path_parts False ws
      else Normal w # path_parts False ws)"

definition components :: "string \<Rightarrow> component list" where
  "components s =
     (if is_absolute s then RootDir # path_parts False (split_on CHR ''/'' s)
      else path_parts True (split_on CHR ''/'' s))"

definition path_starts_with :: "string \<Rightarrow> string \<Rightarrow> bool" where
  "path_starts_with path base \<longleftrightarrow> prefix (components base) (components path)"

text \<open>A component name is not empty, not a dot name, and holds no separator.\<close>

definition normal_name :: "string \<Rightarrow> bool" where
  "normal_name w \<longleftrightarrow> w \<noteq> [] \<and> w \<noteq> ''.'' \<and> w \<noteq> ''..'' \<and> CHR ''/'' \<notin> set w"

lemma path_parts_normal:
  "\<forall>w \<in> set ws. CHR ''/'' \<notin> set w \<Longrightarrow> Normal n \<in> set (path_parts b ws) \<Longrightarrow> normal_name n"
  by (induction b ws rule: path_parts.induct) (auto simp: normal_name_def split: if_splits)

lemma components_normal: "Normal n \<in> set (components s) \<Longrightarrow> normal_name n"
proof -
  have "\<forall>w \<in> set (split_on CHR ''/'' s). CHR ''/'' \<notin> set w" by (blast dest: split_on_notin)
  then show "Normal n \<in> set (components s) \<Longrightarrow> normal_name n"
    by (auto simp: components_def dest: path_parts_normal split: if_splits)
qed

lemma path_parts_rootless: "RootDir \<notin> set (path_parts b ws)"
  by (induction b ws rule: path_parts.induct) auto

lemma components_root_head: "RootDir \<in> set (components s) \<longleftrightarrow> is_absolute s"
  by (simp add: components_def path_parts_rootless)

lemma path_starts_with_refl [simp]: "path_starts_with p p"
  by (simp add: path_starts_with_def)

lemma path_starts_with_trans:
  "path_starts_with p q \<Longrightarrow> path_starts_with q r \<Longrightarrow> path_starts_with p r"
  by (auto simp: path_starts_with_def intro: prefix_order.trans)

subsection \<open>The order of paths\<close>

text \<open>
  \<open>Component\<close> derives its order: by variant, then by the bytes of the name. Paths are ordered, and
  are equal, by their components; this is the order a \<open>BTreeSet<PathBuf>\<close> keeps.
\<close>

fun component_key :: "component \<Rightarrow> nat list" where
  "component_key RootDir = [0]"
| "component_key CurDir = [1]"
| "component_key ParentDir = [2]"
| "component_key (Normal n) = 3 # map byte_of n"

lemma inj_byte_of: "inj byte_of"
  by (auto simp: inj_def byte_of_def)

lemma component_key_inject: "component_key a = component_key b \<Longrightarrow> a = b"
  by (cases a; cases b) (auto dest: map_injective [OF _ inj_byte_of])

instantiation component :: linorder
begin

definition less_eq_component :: "component \<Rightarrow> component \<Rightarrow> bool" where
  "less_eq_component a b \<longleftrightarrow> component_key a \<le> component_key b"

definition less_component :: "component \<Rightarrow> component \<Rightarrow> bool" where
  "less_component a b \<longleftrightarrow> component_key a < component_key b"

instance
  by standard (auto simp: less_eq_component_def less_component_def dest: component_key_inject)

end

definition path_eq :: "string \<Rightarrow> string \<Rightarrow> bool" where
  "path_eq p q \<longleftrightarrow> components p = components q"

definition path_less :: "string \<Rightarrow> string \<Rightarrow> bool" where
  "path_less p q \<longleftrightarrow> components p < components q"

text \<open>\<open>BTreeSet::insert\<close> and \<open>extend\<close>: an element that is present stays as it is.\<close>

fun path_insert :: "string \<Rightarrow> string list \<Rightarrow> string list" where
  "path_insert p [] = [p]"
| "path_insert p (q # qs) =
     (if path_eq p q then q # qs else if path_less p q then p # q # qs else q # path_insert p qs)"

definition path_extend :: "string list \<Rightarrow> string list \<Rightarrow> string list" where
  "path_extend targets ps = foldl (\<lambda>s p. path_insert p s) targets ps"

definition path_sorted :: "string list \<Rightarrow> bool" where
  "path_sorted ps \<longleftrightarrow> sorted_wrt path_less ps"

lemma path_insert_components: "components ` set (path_insert p qs) = insert (components p) (components ` set qs)"
  by (induction qs) (auto simp: path_eq_def)

lemma path_insert_subset: "set (path_insert p qs) \<subseteq> insert p (set qs)"
  by (induction qs) auto

lemma path_less_components: "x \<in> set (path_insert p qs) \<Longrightarrow> components x \<in> insert (components p) (components ` set qs)"
  using path_insert_components by blast

lemma path_insert_sorted [wf_intros]: "path_sorted qs \<Longrightarrow> path_sorted (path_insert p qs)"
proof (induction qs)
  case (Cons q qs)
  have "path_less q x" if "x \<in> set (path_insert p qs)" "\<not> path_eq p q" "\<not> path_less p q" for x
    using path_less_components [OF that(1)] that(2,3) Cons.prems
    by (auto simp: path_sorted_def path_less_def path_eq_def)
  with Cons show ?case by (auto simp: path_sorted_def path_less_def path_eq_def)
qed (simp add: path_sorted_def)

lemma path_extend_sorted [wf_intros]: "path_sorted s \<Longrightarrow> path_sorted (path_extend s ps)"
  unfolding path_extend_def by (induction ps arbitrary: s) (simp_all add: path_insert_sorted)

lemma path_extend_components:
  "components ` set (path_extend s ps) = components ` set s \<union> components ` set ps"
  unfolding path_extend_def by (induction ps arbitrary: s) (auto simp: path_insert_components)

lemma path_insert_nonempty [simp]: "path_insert p qs \<noteq> []"
  by (cases qs) auto

lemma path_extend_nonempty: "path_extend s ps = [] \<longleftrightarrow> s = [] \<and> ps = []"
  using path_extend_components [of s ps] by auto

subsection \<open>Building paths\<close>

text \<open>\<open>PathBuf::push\<close> (and \<open>join\<close>): an absolute path replaces, another is appended after a separator.\<close>

definition path_push :: "string \<Rightarrow> string \<Rightarrow> string" where
  "path_push base p =
     (if is_absolute p then p
      else if base = [] \<or> last base = CHR ''/'' then base @ p
      else base @ ''/'' @ p)"

fun component_text :: "component \<Rightarrow> string" where
  "component_text RootDir = ''/''"
| "component_text CurDir = ''.''"
| "component_text ParentDir = ''..''"
| "component_text (Normal n) = n"

text \<open>The path of a list of components, and the methods that take a path apart by its last one.\<close>

definition render :: "component list \<Rightarrow> string" where
  "render cs = foldl (\<lambda>p c. path_push p (component_text c)) [] cs"

definition path_parent :: "string \<Rightarrow> string option" where
  "path_parent p =
     (let cs = components p in
      if cs = [] \<or> last cs = RootDir then None else Some (render (butlast cs)))"

definition path_file_name :: "string \<Rightarrow> string option" where
  "path_file_name p =
     (let cs = components p in
      if cs = [] then None else case last cs of Normal n \<Rightarrow> Some n | _ \<Rightarrow> None)"

definition path_strip_prefix :: "string \<Rightarrow> string \<Rightarrow> string option" where
  "path_strip_prefix path base =
     (if path_starts_with path base
      then Some (render (drop (length (components base)) (components path))) else None)"

lemma split_on_append: "split_on c (a @ c # b) = split_on c a @ split_on c b"
  by (induction a) (auto split: list.splits)

lemma split_on_single: "c \<notin> set w \<Longrightarrow> split_on c w = [w]"
  by (induction w) auto

lemma path_parts_append:
  "path_parts b (ws @ vs) = path_parts b ws @ path_parts (b \<and> list_all (\<lambda>w. w = []) ws) vs"
  by (induction b ws rule: path_parts.induct) auto

definition plain_text :: "string \<Rightarrow> bool" where
  "plain_text w \<longleftrightarrow> normal_name w \<or> w = ''..''"

lemma plain_text_parts:
  "plain_text w \<Longrightarrow> path_parts b [w] = [if w = ''..'' then ParentDir else Normal w]"
  by (auto simp: plain_text_def normal_name_def)

lemma plain_text_relative: "plain_text w \<Longrightarrow> \<not> is_absolute w \<and> CHR ''/'' \<notin> set w \<and> w \<noteq> []"
  by (cases w) (auto simp: plain_text_def normal_name_def is_absolute_def)

lemma components_append_sep:
  assumes "plain_text w"
  shows "components (base @ CHR ''/'' # w) = components (base @ ''/'') @ [if w = ''..'' then ParentDir else Normal w]"
proof -
  have sw: "split_on CHR ''/'' w = [w]" using assms by (simp add: split_on_single plain_text_relative)
  have abs: "is_absolute (base @ CHR ''/'' # w) = is_absolute (base @ ''/'')"
    by (cases base) (simp_all add: is_absolute_def)
  show ?thesis
    unfolding components_def abs
    using assms
    by (auto simp: split_on_append sw path_parts_append split_on_append [of _ base "[]", simplified]
        plain_text_def normal_name_def)
qed

lemma components_trailing_sep: "base \<noteq> [] \<Longrightarrow> components (base @ ''/'') = components base"
proof -
  assume "base \<noteq> []"
  then have abs: "is_absolute (base @ ''/'') = is_absolute base" by (cases base) (simp_all add: is_absolute_def)
  show ?thesis
    unfolding components_def abs
    by (simp add: split_on_append [of _ base "[]", simplified] path_parts_append)
qed

lemma components_push:
  assumes "plain_text w"
  shows "components (path_push base w) = components base @ [if w = ''..'' then ParentDir else Normal w]"
proof (cases "base = []")
  case True
  have "split_on CHR ''/'' w = [w]" using assms by (simp add: split_on_single plain_text_relative)
  with True plain_text_relative [OF assms] plain_text_parts [OF assms] show ?thesis
    by (simp add: path_push_def components_def) (simp add: is_absolute_def)
next
  case False
  note ne = this
  show ?thesis
  proof (cases "last base = CHR ''/''")
    case True
    with ne have b: "base = butlast base @ ''/''" by (metis append_butlast_last_id)
    have "path_push base w = butlast base @ CHR ''/'' # w"
      using plain_text_relative [OF assms] True ne
      by (simp add: path_push_def) (metis append.assoc append_Cons append_Nil b)
    with components_append_sep [OF assms, of "butlast base"] b show ?thesis by simp
  next
    case False
    with ne plain_text_relative [OF assms] have "path_push base w = base @ CHR ''/'' # w"
      by (simp add: path_push_def)
    with components_append_sep [OF assms, of base] components_trailing_sep [OF ne] show ?thesis by simp
  qed
qed

text \<open>The lists that are the components of some path.\<close>

definition component_list :: "component list \<Rightarrow> bool" where
  "component_list cs \<longleftrightarrow> list_all (\<lambda>c. c \<noteq> RootDir \<and> c \<noteq> CurDir) (tl cs)
     \<and> list_all (\<lambda>c. case c of Normal n \<Rightarrow> normal_name n | _ \<Rightarrow> True) cs"

lemma path_parts_tail:
  "list_all (\<lambda>c. c \<noteq> RootDir \<and> c \<noteq> CurDir) (path_parts False ws)"
  "list_all (\<lambda>c. c \<noteq> RootDir \<and> c \<noteq> CurDir) (tl (path_parts True ws))"
proof -
  show f: "list_all (\<lambda>c. c \<noteq> RootDir \<and> c \<noteq> CurDir) (path_parts False ws)" for ws
    by (induction ws) auto
  show "list_all (\<lambda>c. c \<noteq> RootDir \<and> c \<noteq> CurDir) (tl (path_parts True ws))"
    using f by (induction ws) auto
qed

lemma component_list_components: "component_list (components p)"
proof -
  have "case c of Normal n \<Rightarrow> normal_name n | _ \<Rightarrow> True" if "c \<in> set (components p)" for c
    using that components_normal [of _ p] by (auto split: component.split)
  moreover have "list_all (\<lambda>c. c \<noteq> RootDir \<and> c \<noteq> CurDir) (tl (components p))"
    by (simp add: components_def path_parts_tail)
  ultimately show ?thesis by (simp add: component_list_def list_all_iff)
qed

lemma component_list_butlast: "component_list cs \<Longrightarrow> component_list (butlast cs)"
  unfolding component_list_def list_all_iff butlast_tl [symmetric] by (blast dest: in_set_butlastD)

lemma component_list_snoc: "component_list (cs @ [c]) \<Longrightarrow> component_list cs"
  using component_list_butlast [of "cs @ [c]"] by simp

lemma component_list_drop: "component_list cs \<Longrightarrow> component_list (drop n cs)"
  unfolding component_list_def list_all_iff tl_drop by (blast dest: in_set_dropD)

lemma components_render: "component_list cs \<Longrightarrow> components (render cs) = cs"
proof (induction cs rule: rev_induct)
  case Nil
  then show ?case by (simp add: render_def components_def is_absolute_def)
next
  case (snoc c cs)
  have IH: "components (render cs) = cs" using snoc component_list_snoc by blast
  have r: "render (cs @ [c]) = path_push (render cs) (component_text c)" by (simp add: render_def)
  show ?case
  proof (cases "cs = []")
    case True
    then have "render cs = []" by (simp add: render_def)
    with True snoc.prems r show ?thesis
      using components_push [of "component_text c" "[]"]
      by (cases c)
        (auto simp: component_list_def plain_text_def path_push_def components_def is_absolute_def normal_name_def)
  next
    case False
    with snoc.prems have c: "c \<noteq> RootDir" "c \<noteq> CurDir" "\<And>n. c = Normal n \<Longrightarrow> normal_name n"
      by (auto simp: component_list_def)
    then have "plain_text (component_text c)" by (cases c) (auto simp: plain_text_def)
    from components_push [OF this, of "render cs"] c IH r show ?thesis
      by (cases c) (auto simp: normal_name_def)
  qed
qed

lemma path_parent_Some:
  "path_parent p = Some q \<Longrightarrow> components q = butlast (components p) \<and> components p \<noteq> []"
  by (auto simp: path_parent_def Let_def components_render component_list_butlast
      component_list_components split: if_splits)

lemma path_parent_shorter: "path_parent p = Some q \<Longrightarrow> length (components q) < length (components p)"
  by (auto dest: path_parent_Some)

lemma path_file_name_Some:
  "path_file_name p = Some n \<Longrightarrow> components p \<noteq> [] \<and> last (components p) = Normal n"
  by (auto simp: path_file_name_def Let_def split: if_splits component.splits)

lemma components_push_name: "normal_name n \<Longrightarrow> components (path_push p n) = components p @ [Normal n]"
  using components_push [of n p] by (auto simp: plain_text_def normal_name_def)

lemma components_push_names:
  "list_all normal_name ns \<Longrightarrow> components (foldl path_push p ns) = components p @ map Normal ns"
  by (induction ns arbitrary: p) (simp_all add: components_push_name)

end
