(* ===== verification/Permission.thy ===== *)
theory Permission
  imports Message Paths
begin

section \<open>The permission policy\<close>

text \<open>
  \<open>fx-core/src/permission.rs\<close>: the engine's state is the session mode, the configured rules in
  order and the grants given during the session. \<open>decide\<close> is the loop of \<open>PermissionEngine::decide\<close>
  with its early returns; \<open>decide_spec\<close> states the precedence the module promises, and
  \<open>decide_meets_spec\<close> shows that they agree. What the agent relies on is the locale
  \<open>permission_gate\<close>: how a grant changes later decisions.
\<close>

datatype permission_mode = AskMode | AutoMode | YoloMode

datatype permission_action = AllowAction | AskAction | DenyAction

record permission_rule =
  rule_permission :: string
  rule_pattern :: string
  rule_action :: permission_action

record permission_request =
  permission :: string
  req_target :: string
  grant_target :: string
  effect :: tool_effect

text \<open>\<open>PermissionRequest::new\<close> and \<open>with_grant_target\<close>.\<close>

definition new_permission_request :: "string \<Rightarrow> string \<Rightarrow> tool_effect \<Rightarrow> permission_request" where
  "new_permission_request p t e =
     \<lparr>permission = p, req_target = t, grant_target = t, effect = e\<rparr>"

definition with_grant_target :: "permission_request \<Rightarrow> string \<Rightarrow> permission_request" where
  "with_grant_target r t = r\<lparr>grant_target := t\<rparr>"

datatype permission_decision = Allow | Ask | AutoReview | Deny

record permission_engine =
  mode :: permission_mode
  configured_rules :: "permission_rule list"
  session_grants :: "(string \<times> string) list"

definition new_engine :: "permission_mode \<Rightarrow> permission_rule list \<Rightarrow> permission_engine" where
  "new_engine m rules = \<lparr>mode = m, configured_rules = rules, session_grants = []\<rparr>"

definition set_mode :: "permission_engine \<Rightarrow> permission_mode \<Rightarrow> permission_engine" where
  "set_mode e m = e\<lparr>mode := m\<rparr>"

definition grant_for_session :: "permission_engine \<Rightarrow> string \<Rightarrow> string \<Rightarrow> permission_engine" where
  "grant_for_session e p t =
     (if (p, t) \<in> set (session_grants e) then e
      else e\<lparr>session_grants := session_grants e @ [(p, t)]\<rparr>)"

definition grant_request_for_session ::
  "permission_engine \<Rightarrow> permission_request \<Rightarrow> permission_engine" where
  "grant_request_for_session e r = grant_for_session e (permission r) (grant_target r)"

definition automatic_baseline :: "tool_effect \<Rightarrow> permission_decision" where
  "automatic_baseline e = (case e of Read \<Rightarrow> Allow | _ \<Rightarrow> AutoReview)"

definition pattern_matches :: "string \<Rightarrow> string \<Rightarrow> bool" where
  "pattern_matches pattern target =
     (if pattern = ''*'' \<or> pattern = target then True
      else case strip_suffix pattern ''/**'' of
        None \<Rightarrow> False
      | Some pre \<Rightarrow> path_starts_with target pre)"

definition rule_applies :: "permission_rule \<Rightarrow> permission_request \<Rightarrow> bool" where
  "rule_applies rule r \<longleftrightarrow>
     (rule_permission rule = permission r \<or> rule_permission rule = ''*'')
     \<and> pattern_matches (rule_pattern rule) (req_target r)"

fun action_decision :: "permission_action \<Rightarrow> permission_decision" where
  "action_decision AllowAction = Allow"
| "action_decision AskAction = Ask"
| "action_decision DenyAction = Deny"

text \<open>The loop over the rules that apply: each overwrites the one before.\<close>

definition configured_decision ::
  "permission_engine \<Rightarrow> permission_request \<Rightarrow> permission_decision option" where
  "configured_decision e r =
     foldl (\<lambda>configured rule.
        if rule_applies rule r then Some (action_decision (rule_action rule)) else configured)
       None (configured_rules e)"

definition decide :: "permission_engine \<Rightarrow> permission_request \<Rightarrow> permission_decision" where
  "decide e r =
     (if mode e = YoloMode then Allow
      else let configured = configured_decision e r in
        if configured = Some Deny then Deny
        else if \<exists>g \<in> set (session_grants e). fst g = permission r \<and> snd g = grant_target r
          then Allow
        else case configured of
            Some d \<Rightarrow> d
          | None \<Rightarrow>
             (case mode e of
                AskMode \<Rightarrow> Ask
              | AutoMode \<Rightarrow> automatic_baseline (effect r)
              | YoloMode \<Rightarrow> Allow))"

subsection \<open>The precedence the policy promises\<close>

text \<open>
  Yolo, then a configured deny, then an exact session grant, then the configured allow or ask,
  then the baseline of the mode. Of the configured rules that apply, the last one counts.
\<close>

definition last_rule :: "permission_engine \<Rightarrow> permission_request \<Rightarrow> permission_action option" where
  "last_rule e r =
     (let rs = filter (\<lambda>rule. rule_applies rule r) (configured_rules e) in
      if rs = [] then None else Some (rule_action (last rs)))"

definition granted :: "permission_engine \<Rightarrow> permission_request \<Rightarrow> bool" where
  "granted e r \<longleftrightarrow> (permission r, grant_target r) \<in> set (session_grants e)"

fun decide_spec ::
  "permission_mode \<Rightarrow> permission_action option \<Rightarrow> bool \<Rightarrow> tool_effect \<Rightarrow> permission_decision" where
  "decide_spec YoloMode rule grant eff = Allow"
| "decide_spec m (Some DenyAction) grant eff = Deny"
| "decide_spec m rule True eff = Allow"
| "decide_spec m (Some AllowAction) grant eff = Allow"
| "decide_spec m (Some AskAction) grant eff = Ask"
| "decide_spec AskMode None grant eff = Ask"
| "decide_spec AutoMode None grant eff = (if eff = Read then Allow else AutoReview)"

lemma configured_decision_last:
  "configured_decision e r = map_option action_decision (last_rule e r)"
proof -
  let ?f = "\<lambda>configured rule.
    if rule_applies rule r then Some (action_decision (rule_action rule)) else configured"
  have "foldl ?f c rules =
      (let rs = filter (\<lambda>rule. rule_applies rule r) rules in
       if rs = [] then c else Some (action_decision (rule_action (last rs))))" for c rules
    by (induction rules arbitrary: c) (auto simp: Let_def)
  then show ?thesis by (simp add: configured_decision_def last_rule_def Let_def)
qed

lemma granted_iff:
  "(\<exists>g \<in> set (session_grants e). fst g = permission r \<and> snd g = grant_target r) \<longleftrightarrow> granted e r"
  by (force simp: granted_def)

lemma decide_meets_spec_eq:
  "decide e r = decide_spec (mode e) (last_rule e r) (granted e r) (effect r)"
proof -
  have "configured_decision e r = Some Deny \<longleftrightarrow> last_rule e r = Some DenyAction"
    by (cases "last_rule e r")
      (auto simp: configured_decision_last elim: action_decision.elims)
  then show ?thesis
    unfolding decide_def granted_iff Let_def
    by (cases "last_rule e r"; cases "the (last_rule e r)"; cases "mode e"; cases "granted e r";
        cases "effect r")
      (simp_all add: configured_decision_last automatic_baseline_def)
qed

text \<open>
  C2. For every engine and request the decision loop computes the promised precedence: yolo mode
  first, then a deny as the last configured rule that applies, then a session grant, then the last
  configured allow or ask, then the mode's baseline.
\<close>

theorem decide_meets_spec:
  "decide e r = decide_spec (mode e) (last_rule e r) (granted e r) (effect r)"
  by (rule decide_meets_spec_eq)

subsection \<open>What a grant changes\<close>

lemma mode_grant [simp]: "mode (grant_request_for_session e r) = mode e"
  by (simp add: grant_request_for_session_def grant_for_session_def)

lemma last_rule_grant [simp]: "last_rule (grant_request_for_session e q) r = last_rule e r"
  by (simp add: grant_request_for_session_def grant_for_session_def last_rule_def)

lemma granted_grant [simp]:
  "granted (grant_request_for_session e q) r \<longleftrightarrow>
     granted e r \<or> (permission r = permission q \<and> grant_target r = grant_target q)"
  by (auto simp: granted_def grant_request_for_session_def grant_for_session_def)

lemma decide_spec_Deny_iff:
  "decide_spec m rule g eff = Deny \<longleftrightarrow> m \<noteq> YoloMode \<and> rule = Some DenyAction"
  by (induction m rule g eff rule: decide_spec.induct) auto

lemma decide_spec_granted: "decide_spec m rule True eff \<in> {Allow, Deny}"
  by (cases m; cases rule; cases "the rule") auto

lemma decide_spec_mono: "decide_spec m rule g eff = Allow \<Longrightarrow> decide_spec m rule (g \<or> h) eff = Allow"
  by (cases m; cases rule; cases "the rule"; cases g; cases h) (auto split: if_splits)

text \<open>
  The interface the agent's admission uses. Giving a grant never lifts a deny, never takes an
  allow away, and settles the granted request.
\<close>

locale permission_gate =
  fixes verdict :: "'s \<Rightarrow> 'r \<Rightarrow> permission_decision"
    and give :: "'s \<Rightarrow> 'r \<Rightarrow> 's"
  assumes give_settles: "verdict (give s r) r = Allow \<or> verdict (give s r) r = Deny"
    and give_deny: "verdict (give s q) r = Deny \<longleftrightarrow> verdict s r = Deny"
    and give_allow: "verdict s r = Allow \<Longrightarrow> verdict (give s q) r = Allow"
begin

definition give_all :: "'s \<Rightarrow> 'r list \<Rightarrow> 's" where
  "give_all s rs = foldl give s rs"

lemma give_all_deny: "verdict (give_all s rs) r = Deny \<longleftrightarrow> verdict s r = Deny"
  unfolding give_all_def by (induction rs arbitrary: s) (simp_all add: give_deny)

lemma give_all_allow: "verdict s r = Allow \<Longrightarrow> verdict (give_all s rs) r = Allow"
  unfolding give_all_def by (induction rs arbitrary: s) (simp_all add: give_allow)

lemma give_all_settles:
  assumes "r \<in> set rs" and "verdict s r \<noteq> Deny"
  shows "verdict (give_all s rs) r = Allow"
  using assms
proof (induction rs arbitrary: s)
  case (Cons q rs)
  show ?case
  proof (cases "q = r")
    case True
    with Cons.prems(2) give_settles [of s r] give_deny [of s r r]
    have "verdict (give s r) r = Allow" by auto
    with True give_all_allow [of "give s r" r rs] show ?thesis by (simp add: give_all_def)
  next
    case False
    with Cons.prems have "r \<in> set rs" and "verdict (give s q) r \<noteq> Deny" by (auto simp: give_deny)
    with Cons.IH show ?thesis by (simp add: give_all_def)
  qed
qed simp

end

interpretation engine: permission_gate decide grant_request_for_session
proof unfold_locales
  fix e :: permission_engine and r :: permission_request
  show "decide (grant_request_for_session e r) r = Allow \<or> decide (grant_request_for_session e r) r = Deny"
    using decide_spec_granted by (simp add: decide_meets_spec_eq)
next
  fix e q r
  show "decide (grant_request_for_session e q) r = Deny \<longleftrightarrow> decide e r = Deny"
    by (simp add: decide_meets_spec_eq decide_spec_Deny_iff)
next
  fix e r q
  assume "decide e r = Allow"
  then show "decide (grant_request_for_session e q) r = Allow"
    by (simp add: decide_meets_spec_eq decide_spec_mono)
qed

text \<open>
  A request the policy denies stays denied, and one it does not deny stays so, whatever list
  of requests is granted for the session afterwards.
\<close>

theorem grants_never_lift_a_deny:
  "decide (foldl grant_request_for_session e rs) r = Deny \<longleftrightarrow> decide e r = Deny"
  by (rule engine.give_all_deny [unfolded engine.give_all_def])

text \<open>
  Once a request that is not denied has been granted for the session, no later list of grants
  makes the policy ask about it again: it is allowed.
\<close>

theorem granted_requests_are_allowed:
  assumes "r \<in> set rs" and "decide e r \<noteq> Deny"
  shows "decide (foldl grant_request_for_session e (rs @ qs)) r = Allow"
  using assms by (intro engine.give_all_settles [unfolded engine.give_all_def]) auto

theorem granted_requests_are_allowed_witness:
  "decide (foldl grant_request_for_session (new_engine AskMode [])
     ([new_permission_request ''write_file'' ''/w/a'' Write] @ [])) 
     (new_permission_request ''write_file'' ''/w/a'' Write) = Allow"
  by (rule granted_requests_are_allowed)
    (simp_all add: decide_def configured_decision_def new_engine_def new_permission_request_def)

subsection \<open>The grants are a set\<close>

lemma grant_distinct [wf_intros]:
  "distinct (session_grants e) \<Longrightarrow> distinct (session_grants (grant_request_for_session e r))"
  by (simp add: grant_request_for_session_def grant_for_session_def)

lemma new_engine_distinct [wf_intros]: "distinct (session_grants (new_engine m rules))"
  by (simp add: new_engine_def)

end
