(* ===== verification/Futures.thy ===== *)
theory Futures
  imports Prelude
begin

section \<open>Futures and the ordered join\<close>

text \<open>
  A boxed future is what polling it does to the world: it is ready with a value, or pending with
  the future that remains. As a datatype it is well-founded: whatever the world does, a future
  that is polled again and again becomes ready. (A tool that hangs for ever blocks the agent in
  the source as well; the model is about tools that return.) \<open>join_ordered\<close> of
  \<open>fx-core/src/agent.rs\<close> polls all pending futures in index order in every round.
\<close>

datatype (dead 'w, 'a) future = Fut (poll: "'w \<Rightarrow> ('a + ('w, 'a) future) \<times> 'w")

definition ready :: "'a \<Rightarrow> ('w, 'a) future" where
  "ready a = Fut (\<lambda>w. (Inl a, w))"

text \<open>\<open>async { f(inner.await) }\<close> is \<open>map_future\<close>, given by the datatype.\<close>

text \<open>\<open>fut.await\<close>: poll until ready.\<close>

primrec await :: "('w, 'a) future \<Rightarrow> 'w \<Rightarrow> 'a \<times> 'w" where
  "await (Fut p) =
     (\<lambda>w. case map_prod (map_sum id await) id (p w) of
        (Inl a, w') \<Rightarrow> (a, w')
      | (Inr k, w') \<Rightarrow> k w')"

lemma await_Fut [simp]:
  "await (Fut p) w = (case p w of (Inl a, w') \<Rightarrow> (a, w') | (Inr f, w') \<Rightarrow> await f w')"
  by (auto split: prod.splits sum.splits)

declare await.simps [simp del]

lemma await_ready [simp]: "await (ready a) w = (a, w)"
  by (simp add: ready_def)

subsection \<open>One round of polling\<close>

text \<open>
  One call of the \<open>poll_fn\<close> closure: \<open>futures\<close> holds the pending futures, \<open>outputs\<close> the values of
  the others.
\<close>

fun poll_round ::
  "('w, 'a) future option list \<Rightarrow> 'a option list \<Rightarrow> 'w \<Rightarrow>
     ('w, 'a) future option list \<times> 'a option list \<times> nat \<times> 'w" where
  "poll_round [] os w = ([], os, 0, w)"
| "poll_round (None # fs) (v # vs) w =
     (case poll_round fs vs w of (fs', vs', remaining, w') \<Rightarrow> (None # fs', v # vs', remaining, w'))"
| "poll_round (Some f # fs) (v # vs) w =
     (case poll f w of
        (Inl a, w1) \<Rightarrow>
          (case poll_round fs vs w1 of
             (fs', vs', remaining, w') \<Rightarrow> (None # fs', Some a # vs', remaining, w'))
      | (Inr g, w1) \<Rightarrow>
          (case poll_round fs vs w1 of
             (fs', vs', remaining, w') \<Rightarrow> (Some g # fs', v # vs', Suc remaining, w')))"
| "poll_round (f # fs) [] w = (f # fs, [], 0, w)"

text \<open>The well-founded order behind the termination of the join: what a poll leaves.\<close>

definition polled :: "(('w, 'a) future \<times> ('w, 'a) future) set" where
  "polled = {(g, f). \<exists>w w'. poll f w = (Inr g, w')}"

lemma wf_polled: "wf (polled :: (('w, 'a) future \<times> ('w, 'a) future) set)"
proof (rule wfUNIVI)
  fix P :: "('w, 'a) future \<Rightarrow> bool" and f
  assume step: "\<forall>x. (\<forall>y. (y, x) \<in> polled \<longrightarrow> P y) \<longrightarrow> P x"
  show "P f"
  proof (induction f)
    case (Fut p)
    have "P g" if "(g, Fut p) \<in> polled" for g
    proof -
      from that obtain w w' where "p w = (Inr g, w')" by (auto simp: polled_def)
      have "p w \<in> range p" by (rule rangeI)
      moreover have "Inr g \<in> Basic_BNFs.fsts (p w)" using \<open>p w = (Inr g, w')\<close> by (simp add: prod_set_defs)
      moreover have "g \<in> Basic_BNFs.setr (Inr g)" by (rule setr.intros) simp
      ultimately show ?thesis by (rule Fut)
    qed
    with step show ?case by blast
  qed
qed

definition polled_opt :: "(('w, 'a) future option \<times> ('w, 'a) future option) set" where
  "polled_opt = {(None, Some f) | f. True} \<union> {(Some g, Some f) | g f. (g, f) \<in> polled}"

lemma wf_polled_opt: "wf (polled_opt :: (('w, 'a) future option \<times> ('w, 'a) future option) set)"
proof (rule wfUNIVI)
  fix P :: "('w, 'a) future option \<Rightarrow> bool" and x
  assume step: "\<forall>x. (\<forall>y. (y, x) \<in> polled_opt \<longrightarrow> P y) \<longrightarrow> P x"
  have none: "P None" by (rule mp [OF spec [OF step]]) (simp add: polled_opt_def)
  have "P (Some f)" for f
  proof (induction f rule: wf_induct_rule [OF wf_polled])
    case (1 f)
    show ?case
    proof (rule mp [OF spec [OF step]], intro allI impI)
      fix y
      assume "(y, Some f) \<in> polled_opt"
      then consider "y = None" | g where "y = Some g" "(g, f) \<in> polled"
        by (auto simp: polled_opt_def)
      then show "P y" using none "1.IH" by cases simp_all
    qed
  qed
  with none show "P x" by (cases x) auto
qed

lemma poll_round_lengths:
  "length fs = length vs \<Longrightarrow> poll_round fs vs w = (fs', vs', n, w') \<Longrightarrow>
     length fs' = length vs \<and> length vs' = length vs"
proof (induction fs arbitrary: vs w fs' vs' n w')
  case (Cons o' fs)
  from Cons.prems(1) obtain v us where vs: "vs = v # us" and len: "length fs = length us"
    by (cases vs) auto
  show ?case
  proof (cases o')
    case None
    obtain gs xs m w2 where "poll_round fs us w = (gs, xs, m, w2)" by (rule prod_cases4)
    with Cons.IH [OF len this] Cons.prems(2) vs None show ?thesis by auto
  next
    case (Some f)
    obtain r w1 where pf: "poll f w = (r, w1)" by (cases "poll f w")
    obtain gs xs m w2 where pr: "poll_round fs us w1 = (gs, xs, m, w2)" by (rule prod_cases4)
    with Cons.IH [OF len pr] Cons.prems(2) vs Some pf show ?thesis by (cases r) auto
  qed
qed auto

lemma poll_round_progress:
  assumes "length fs = length vs" and "poll_round fs vs w = (fs', vs', n, w')" and "n \<noteq> 0"
  shows "(fs', fs) \<in> lex polled_opt"
  using assms
proof (induction fs arbitrary: vs w fs' vs' n w')
  case (Cons o' fs)
  from Cons.prems(1) obtain v us where vs: "vs = v # us" and len: "length fs = length us"
    by (cases vs) auto
  show ?case
  proof (cases o')
    case None
    obtain gs xs m w2 where pr: "poll_round fs us w = (gs, xs, m, w2)" by (rule prod_cases4)
    with Cons.IH [OF len pr] Cons.prems(2,3) vs None show ?thesis by auto
  next
    case (Some f)
    obtain r w1 where pf: "poll f w = (r, w1)" by (cases "poll f w")
    obtain gs xs m w2 where pr: "poll_round fs us w1 = (gs, xs, m, w2)" by (rule prod_cases4)
    from poll_round_lengths [OF len pr] len have gs: "length gs = length fs" by simp
    show ?thesis
    proof (cases r)
      case (Inl a)
      with pf pr gs Cons.prems(2) vs Some show ?thesis by (auto simp: polled_opt_def)
    next
      case (Inr g)
      with pf have "(g, f) \<in> polled" by (auto simp: polled_def)
      with Inr pf pr gs Cons.prems(2) vs Some show ?thesis by (auto simp: polled_opt_def)
    qed
  qed
qed auto

text \<open>
  The join: rounds until nothing remains. The second component is what
  \<open>expect("completed future has output")\<close> reads.
\<close>

function join_rounds ::
  "('w, 'a) future option list \<Rightarrow> 'a option list \<Rightarrow> 'w \<Rightarrow> 'a option list \<times> 'w" where
  "join_rounds fs vs w =
     (if length fs \<noteq> length vs then (vs, w)
      else case poll_round fs vs w of
        (fs', vs', remaining, w') \<Rightarrow>
          if remaining = 0 then (vs', w') else join_rounds fs' vs' w')"
  by pat_completeness auto
termination
proof (relation "inv_image (lex polled_opt) fst", goal_cases)
  case 1
  show ?case by (intro wf_inv_image wf_lex wf_polled_opt)
next
  case (2 fs vs w fs' y vs' z n w')
  then have "(fs', fs) \<in> lex polled_opt"
    by (intro poll_round_progress [of fs vs w fs' vs' n w']) auto
  then show ?case by simp
qed

declare join_rounds.simps [simp del]

definition join_ordered :: "('w, 'a) future list \<Rightarrow> 'w \<Rightarrow> 'a list \<times> 'w" where
  "join_ordered fs w =
     (case join_rounds (map Some fs) (replicate (length fs) None) w of
        (vs, w') \<Rightarrow> (map the vs, w'))"

subsection \<open>What a join returns\<close>

text \<open>
  \<open>settles P f\<close>: whatever the world does between the polls, every value the future can become
  ready with satisfies \<open>P\<close>.
\<close>

inductive settles :: "('a \<Rightarrow> bool) \<Rightarrow> ('w, 'a) future \<Rightarrow> bool" for P where
  settlesI: "(\<And>w a w'. poll f w = (Inl a, w') \<Longrightarrow> P a) \<Longrightarrow>
     (\<And>w g w'. poll f w = (Inr g, w') \<Longrightarrow> settles P g) \<Longrightarrow> settles P f"

inductive_cases settlesE: "settles P f"

lemma settles_ready_value: "settles P f \<Longrightarrow> poll f w = (Inl a, w') \<Longrightarrow> P a"
  by (auto elim: settlesE)

lemma settles_pending: "settles P f \<Longrightarrow> poll f w = (Inr g, w') \<Longrightarrow> settles P g"
  by (erule settles.cases) blast

lemma settles_True: "settles (\<lambda>_. True) f"
proof (induction f rule: wf_induct_rule [OF wf_polled])
  case (1 f)
  show ?case
  proof (rule settlesI)
    fix w g w'
    assume "poll f w = (Inr g, w')"
    then have "(g, f) \<in> polled" unfolding polled_def by blast
    then show "settles (\<lambda>_. True) g" by (rule "1.IH")
  qed simp
qed

lemma settles_ready [intro]: "P a \<Longrightarrow> settles P (ready a)"
  by (rule settlesI) (auto simp: ready_def)

lemma settles_await: "settles P f \<Longrightarrow> P (fst (await f w))"
proof (induction arbitrary: w rule: settles.induct)
  case (settlesI f)
  obtain p where f: "f = Fut p" by (cases f)
  then show ?case using settlesI by (auto split: prod.splits sum.splits)
qed

lemma settles_map: "settles (\<lambda>a. P (g a)) f \<Longrightarrow> settles P (map_future g f)"
proof (induction rule: settles.induct)
  case (settlesI f)
  show ?case
  proof (rule settles.settlesI)
    fix w a w'
    assume "poll (map_future g f) w = (Inl a, w')"
    then obtain b where "poll f w = (Inl b, w')" and "a = g b"
      by (cases f; cases "poll f w"; cases "fst (poll f w)") auto
    with settlesI(1) show "P a" by auto
  next
    fix w h w'
    assume "poll (map_future g f) w = (Inr h, w')"
    then obtain k where "poll f w = (Inr k, w')" and "h = map_future g k"
      by (cases f; cases "poll f w"; cases "fst (poll f w)") auto
    with settlesI(3) show "settles P h" by auto
  qed
qed

text \<open>The invariant of the rounds: slot \<open>i\<close> is pending and settles to \<open>P\<close>, or holds such a value.\<close>

definition slot_ok :: "('a \<Rightarrow> bool) \<Rightarrow> ('w, 'a) future option \<Rightarrow> 'a option \<Rightarrow> bool" where
  "slot_ok P f v \<longleftrightarrow> (case f of Some g \<Rightarrow> settles P g | None \<Rightarrow> (\<exists>a. v = Some a \<and> P a))"

fun slots_ok :: "('a \<Rightarrow> bool) list \<Rightarrow> ('w, 'a) future option list \<Rightarrow> 'a option list \<Rightarrow> bool" where
  "slots_ok [] [] [] = True"
| "slots_ok (P # Ps) (f # fs) (v # vs) = (slot_ok P f v \<and> slots_ok Ps fs vs)"
| "slots_ok _ _ _ = False"

lemma slots_ok_length: "slots_ok Ps fs vs \<Longrightarrow> length fs = length vs \<and> length Ps = length vs"
  by (induction Ps fs vs rule: slots_ok.induct) auto

lemma poll_round_slots:
  "slots_ok Ps fs vs \<Longrightarrow> poll_round fs vs w = (fs', vs', n, w') \<Longrightarrow>
     slots_ok Ps fs' vs' \<and> (n = 0 \<longrightarrow> list_all2 (\<lambda>P v. \<exists>a. v = Some a \<and> P a) Ps vs')"
proof (induction Ps fs vs arbitrary: w fs' vs' n w' rule: slots_ok.induct)
  case (2 P Ps f fs v vs)
  show ?case
  proof (cases f)
    case None
    obtain gs xs m w2 where "poll_round fs vs w = (gs, xs, m, w2)" by (rule prod_cases4)
    with 2 None show ?thesis by (auto simp: slot_ok_def)
  next
    case (Some g)
    obtain r w1 where pf: "poll g w = (r, w1)" by (cases "poll g w")
    obtain gs xs m w2 where pr: "poll_round fs vs w1 = (gs, xs, m, w2)" by (rule prod_cases4)
    from "2.prems"(1) Some have s: "settles P g" by (simp add: slot_ok_def)
    show ?thesis
    proof (cases r)
      case (Inl a)
      with settles_ready_value [OF s] pf have "P a" by blast
      with Inl pf pr Some 2 show ?thesis by (auto simp: slot_ok_def)
    next
      case (Inr h)
      with settles_pending [OF s] pf have "settles P h" by blast
      with Inr pf pr Some 2 show ?thesis by (auto simp: slot_ok_def)
    qed
  qed
qed auto

lemma join_rounds_slots:
  "slots_ok Ps fs vs \<Longrightarrow>
     list_all2 (\<lambda>P v. \<exists>a. v = Some a \<and> P a) Ps (fst (join_rounds fs vs w))"
proof (induction fs vs w rule: join_rounds.induct)
  case (1 fs vs w)
  obtain fs' vs' n w' where pr: "poll_round fs vs w = (fs', vs', n, w')" by (rule prod_cases4)
  from slots_ok_length [OF "1.prems"] have len: "length fs = length vs" by simp
  from poll_round_slots [OF "1.prems" pr] "1.IH" [OF _ pr [symmetric]] len show ?case
    by (subst join_rounds.simps) (auto simp: pr)
qed

lemma slots_ok_start: "list_all2 settles Ps fs \<Longrightarrow> slots_ok Ps (map Some fs) (replicate (length fs) None)"
  by (induction rule: list_all2_induct) (simp_all add: slot_ok_def)

lemma join_ordered_settles:
  assumes "list_all2 settles Ps fs"
  shows "list_all2 (\<lambda>P a. P a) Ps (fst (join_ordered fs w))"
  using join_rounds_slots [OF slots_ok_start [OF assms], of w]
  by (auto simp: join_ordered_def list_all2_conv_all_nth split: prod.splits)

lemma join_ordered_length [simp]: "length (fst (join_ordered fs w)) = length fs"
proof -
  have "list_all2 settles (replicate (length fs) (\<lambda>_. True)) fs"
    by (simp add: list_all2_conv_all_nth settles_True)
  from join_ordered_settles [OF this, of w] show ?thesis by (simp add: list_all2_lengthD [symmetric])
qed

text \<open>
  The join always ends with a value in every slot (the \<open>expect("completed future has output")\<close>
  cannot fail), and the values stand in the order of the futures, whichever finish first: if every
  value future \<open>i\<close> can give satisfies \<open>P i\<close>, so does the value in place \<open>i\<close>.
\<close>

theorem join_is_complete_and_ordered:
  assumes "list_all2 settles Ps fs"
  shows "None \<notin> set (fst (join_rounds (map Some fs) (replicate (length fs) None) w))
    \<and> list_all2 (\<lambda>P a. P a) Ps (fst (join_ordered fs w))"
  using join_ordered_settles [OF assms] join_rounds_slots [OF slots_ok_start [OF assms], of w]
  by (auto simp: list_all2_conv_all_nth in_set_conv_nth)

definition slow_future :: "(nat, nat) future" where
  "slow_future = Fut (\<lambda>w. (Inr (ready 1), w + 1))"

theorem join_is_complete_and_ordered_witness:
  "fst (join_ordered [slow_future, ready 2] 0) = [1, 2]"
proof -
  have "settles ((=) 1) slow_future"
  proof (rule settlesI)
    fix w g w'
    assume "poll slow_future w = (Inr g, w')"
    then have "g = ready 1" by (simp add: slow_future_def)
    then show "settles ((=) 1) g" by (simp add: settles_ready)
  qed (simp add: slow_future_def)
  moreover have "settles ((=) 2) (ready 2 :: (nat, nat) future)" by (rule settles_ready) simp
  ultimately have "list_all2 settles [(=) 1, (=) 2] [slow_future, ready 2]" by simp
  from join_is_complete_and_ordered [OF this, of 0] show ?thesis
    by (auto simp: list_all2_Cons1)
qed

end
