(* ===== verification/Tools.thy ===== *)
theory Tools
  imports Permission Futures
begin

section \<open>The tool contract and its registry\<close>

text \<open>
  \<open>fx-core/src/tool.rs\<close>, \<open>fx-core/src/tool_result.rs\<close> and \<open>fx-core/src/read_evidence.rs\<close>. The host
  is a type \<open>'w\<close> of worlds: a method with effects maps a world to its result and the next world, an
  asynchronous one gives a \<open>future\<close>. A trait object is the record of its methods.
\<close>

subsection \<open>Read evidence\<close>

record read_evidence =
  modified_ns :: int
  content_hash :: "nat list"
  model_view_covers_full_file :: bool
  snapshot_covers_full_file :: bool

text \<open>
  The interface \<open>ReadEvidenceStore\<close>. Two spellings of a path with the same components are one key.
\<close>

locale evidence_store =
  fixes record_evidence :: "'s \<Rightarrow> string \<Rightarrow> read_evidence \<Rightarrow> 's"
    and lookup_evidence :: "'s \<Rightarrow> string \<Rightarrow> read_evidence option"
    and remove_evidence :: "'s \<Rightarrow> string \<Rightarrow> 's"
  assumes lookup_record:
      "lookup_evidence (record_evidence s p ev) q = (if path_eq p q then Some ev else lookup_evidence s q)"
    and lookup_remove:
      "lookup_evidence (remove_evidence s p) q = (if path_eq p q then None else lookup_evidence s q)"
begin

fun apply_op :: "'s \<Rightarrow> string \<times> read_evidence option \<Rightarrow> 's" where
  "apply_op s (p, Some ev) = record_evidence s p ev"
| "apply_op s (p, None) = remove_evidence s p"

lemma lookup_apply_op: "lookup_evidence (apply_op s x) q = (if path_eq (fst x) q then snd x else lookup_evidence s q)"
  by (cases "(s, x)" rule: apply_op.cases) (simp_all add: lookup_record lookup_remove)

lemma lookup_last_op:
  "lookup_evidence (foldl apply_op s xs) q =
     (case filter (\<lambda>x. path_eq (fst x) q) xs of
        [] \<Rightarrow> lookup_evidence s q
      | ys \<Rightarrow> snd (last ys))"
proof (induction xs rule: rev_induct)
  case (snoc x xs)
  then show ?case by (auto simp: lookup_apply_op split: list.splits)
qed simp

end

text \<open>\<open>MemoryReadEvidenceStore\<close>: a hash map keyed by the path.\<close>

type_synonym memory_evidence = "component list \<rightharpoonup> read_evidence"

definition record_evidence :: "memory_evidence \<Rightarrow> string \<Rightarrow> read_evidence \<Rightarrow> memory_evidence" where
  "record_evidence entries path ev = entries(components path \<mapsto> ev)"

definition lookup_evidence :: "memory_evidence \<Rightarrow> string \<Rightarrow> read_evidence option" where
  "lookup_evidence entries path = entries (components path)"

definition remove_evidence :: "memory_evidence \<Rightarrow> string \<Rightarrow> memory_evidence" where
  "remove_evidence entries path = entries(components path := None)"

interpretation memory: evidence_store record_evidence lookup_evidence remove_evidence
  by unfold_locales
    (auto simp: record_evidence_def lookup_evidence_def remove_evidence_def path_eq_def)

definition evidence_step :: "memory_evidence \<Rightarrow> string \<times> read_evidence option \<Rightarrow> memory_evidence" where
  "evidence_step s x =
     (case snd x of Some ev \<Rightarrow> record_evidence s (fst x) ev | None \<Rightarrow> remove_evidence s (fst x))"

lemma evidence_step_apply_op: "evidence_step = memory.apply_op"
  by (intro ext) (auto simp: evidence_step_def split: option.splits)

text \<open>
  After any sequence of records and removals, the evidence found for a path is what the last
  operation on that path left, whichever spelling of the path each one used.
\<close>

theorem evidence_is_the_last_write:
  "lookup_evidence (foldl evidence_step s xs) q =
     (case filter (\<lambda>x. path_eq (fst x) q) xs of
        [] \<Rightarrow> lookup_evidence s q
      | ys \<Rightarrow> snd (last ys))"
  unfolding evidence_step_apply_op by (rule memory.lookup_last_op)

subsection \<open>Tool results kept outside the conversation\<close>

definition large_tool_result_bytes :: nat where
  "large_tool_result_bytes = 16 * 1024"

definition tool_result_preview_bytes :: nat where
  "tool_result_preview_bytes = 4 * 1024"

definition tool_result_default_read_bytes :: nat where
  "tool_result_default_read_bytes = 8 * 1024"

definition tool_result_max_read_bytes :: nat where
  "tool_result_max_read_bytes = 64 * 1024"

record stored_tool_result =
  stored_handle :: string
  stored_bytes :: nat

record tool_result_page =
  page_content :: string
  page_start :: nat
  page_end :: nat
  page_total :: nat

record tool_result_match =
  match_line :: nat
  match_content :: string

datatype tool_result_store_error =
    InvalidHandle
  | InvalidQuery
  | NotFound
  | TooLarge
  | StoreUnavailable string

fun show_store_error :: "tool_result_store_error \<Rightarrow> string" where
  "show_store_error InvalidHandle = ''invalid tool-result handle''"
| "show_store_error InvalidQuery = ''tool-result query must not be empty''"
| "show_store_error NotFound = ''tool-result handle was not found''"
| "show_store_error TooLarge = ''tool result exceeds the storage limit''"
| "show_store_error (StoreUnavailable m) = ''tool-result store is unavailable: '' @ m"

record 'w result_store =
  rs_store :: "string \<Rightarrow> string \<Rightarrow> string \<Rightarrow> 'w \<Rightarrow> (tool_result_store_error + stored_tool_result) \<times> 'w"
  rs_read_range :: "string \<Rightarrow> nat \<Rightarrow> nat \<Rightarrow> 'w \<Rightarrow> (tool_result_store_error + tool_result_page) \<times> 'w"
  rs_search :: "string \<Rightarrow> string \<Rightarrow> nat \<Rightarrow> 'w \<Rightarrow> (tool_result_store_error + tool_result_match list) \<times> 'w"

subsection \<open>The context of an invocation\<close>

text \<open>
  \<open>CancellationSignal\<close> is a read of the world that may also move it: the flag is set from outside,
  at any moment. \<open>ScopedProjectContextProvider::select\<close> keeps its own record of what it delivered.
\<close>

record 'w tool_context =
  workspace_root :: string
  additional_roots :: "string list"
  limits :: tool_limits
  tool_results :: "'w result_store option"
  project_context :: "(string list \<Rightarrow> 'w \<Rightarrow> (string + string option) \<times> 'w) option"
  cancellation :: "'w \<Rightarrow> bool \<times> 'w"
  sandbox :: sandbox_mode

text \<open>\<open>NeverCancelled\<close> and \<open>ToolContext::new\<close>.\<close>

definition never_cancelled :: "'w \<Rightarrow> bool \<times> 'w" where
  "never_cancelled w = (False, w)"

definition new_tool_context :: "string \<Rightarrow> 'w tool_context" where
  "new_tool_context root =
     \<lparr>workspace_root = root, additional_roots = [], limits = tool_limits_default,
      tool_results = None, project_context = None, cancellation = never_cancelled,
      sandbox = NoSandbox\<rparr>"

subsection \<open>Tools\<close>

record file_change_review =
  fc_path :: string
  fc_before :: "string option"
  fc_after :: string

record command_review =
  cr_command :: string
  cr_cwd :: string
  cr_shell :: string
  cr_profile :: string

datatype tool_review = FileChange file_change_review | Command command_review

text \<open>
  \<open>PreparedToolCall\<close>: the owned action is its \<open>commit\<close>. \<open>commit(self: Box<Self>, ..)\<close> consumes it;
  in the model an admission is consumed by the one future built from it.
\<close>

record 'w prepared_call =
  pc_tool_name :: string
  pc_permission_requests :: "permission_request list"
  pc_irreversible :: bool
  pc_review :: "tool_review option"
  pc_commit :: "'w tool_context \<Rightarrow> ('w, tool_error + tool_output) future"

datatype 'w tool_preparation =
    DirectCall "permission_request list" bool
  | PreparedCall "'w prepared_call"

record 'w tool =
  t_name :: string
  t_description :: string
  t_input_schema :: json
  t_effect :: "json \<Rightarrow> tool_error + tool_effect"
  t_project_context_targets :: "'w tool_context \<Rightarrow> json \<Rightarrow> 'w \<Rightarrow> (tool_error + string list) \<times> 'w"
  t_prepare :: "'w tool_context \<Rightarrow> json \<Rightarrow> 'w \<Rightarrow> (tool_error + 'w tool_preparation) \<times> 'w"
  t_execute :: "'w tool_context \<Rightarrow> json \<Rightarrow> ('w, tool_error + tool_output) future"

text \<open>
  The provided methods of the trait: \<open>irreversible\<close>, \<open>project_context_targets\<close>,
  \<open>permission_requests\<close> and \<open>prepare\<close>, over the methods a tool overrides or not.
\<close>

definition default_irreversible :: "json \<Rightarrow> tool_error + bool" where
  "default_irreversible arguments = Inr False"

definition default_targets :: "'w tool_context \<Rightarrow> json \<Rightarrow> 'w \<Rightarrow> (tool_error + string list) \<times> 'w" where
  "default_targets context arguments w = (Inr [], w)"

definition default_permission_requests ::
  "string \<Rightarrow> (json \<Rightarrow> tool_error + tool_effect) \<Rightarrow> 'w tool_context \<Rightarrow> json \<Rightarrow>
     tool_error + permission_request list" where
  "default_permission_requests name eff context arguments =
     and_then (eff arguments) (\<lambda>e. Inr [new_permission_request name (workspace_root context) e])"

definition default_prepare ::
  "('w tool_context \<Rightarrow> json \<Rightarrow> tool_error + permission_request list) \<Rightarrow>
     (json \<Rightarrow> tool_error + bool) \<Rightarrow> 'w tool_context \<Rightarrow> json \<Rightarrow> 'w \<Rightarrow>
     (tool_error + 'w tool_preparation) \<times> 'w" where
  "default_prepare requests irreversible context arguments w =
     (and_then (requests context arguments) (\<lambda>rs.
        and_then (irreversible arguments) (\<lambda>irr. Inr (DirectCall rs irr))), w)"

definition advertisement :: "'w tool \<Rightarrow> tool_advertisement" where
  "advertisement t = advertise_function (t_name t) (t_description t) (t_input_schema t)"

subsection \<open>The registry\<close>

datatype registry_error = Duplicate string | Unknown string

fun show_registry_error :: "registry_error \<Rightarrow> string" where
  "show_registry_error (Duplicate n) = ''tool `'' @ n @ ''` is already registered''"
| "show_registry_error (Unknown n) = ''tool `'' @ n @ ''` is not registered''"

record 'w registry =
  reg_tools :: "string \<rightharpoonup> 'w tool"
  reg_order :: "string list"

definition empty_registry :: "'w registry" where
  "empty_registry = \<lparr>reg_tools = Map.empty, reg_order = []\<rparr>"

definition register :: "'w registry \<Rightarrow> 'w tool \<Rightarrow> (registry_error + unit) \<times> 'w registry" where
  "register reg t =
     (let name = t_name t in
      case reg_tools reg name of
        Some _ \<Rightarrow> (Inl (Duplicate name), reg)
      | None \<Rightarrow> (Inr (), reg\<lparr>reg_tools := (reg_tools reg)(name \<mapsto> t),
                            reg_order := reg_order reg @ [name]\<rparr>))"

definition get_tool :: "'w registry \<Rightarrow> string \<Rightarrow> registry_error + 'w tool" where
  "get_tool reg name = ok_or (Unknown name) (reg_tools reg name)"

definition advertisements :: "'w registry \<Rightarrow> tool_advertisement list" where
  "advertisements reg = map advertisement (List.map_filter (reg_tools reg) (reg_order reg))"

definition registry_len :: "'w registry \<Rightarrow> nat" where
  "registry_len reg = card (dom (reg_tools reg))"

definition registry_is_empty :: "'w registry \<Rightarrow> bool" where
  "registry_is_empty reg \<longleftrightarrow> dom (reg_tools reg) = {}"

text \<open>
  \<open>parse\<close> is \<open>serde_json::from_str\<close>, \<open>Inl\<close> the text of its error.
\<close>

definition validate_call ::
  "(string \<Rightarrow> string + json) \<Rightarrow> 'w registry \<Rightarrow> tool_call \<Rightarrow> tool_error + ('w tool \<times> json)" where
  "validate_call parse reg call =
     and_then (map_err (\<lambda>e. InvalidArguments (show_registry_error e)) (get_tool reg (tc_name call)))
       (\<lambda>t. and_then (map_err InvalidArguments (parse (arguments_json call)))
         (\<lambda>arguments. and_then
            (ensure (is_object arguments) (InvalidArguments ''tool arguments must be a JSON object''))
            (\<lambda>_. Inr (t, arguments))))"

subsection \<open>The registry is the list of first registrations\<close>

definition registry_ok :: "'w registry \<Rightarrow> bool" where
  "registry_ok reg \<longleftrightarrow> distinct (reg_order reg) \<and> set (reg_order reg) = dom (reg_tools reg)
     \<and> (\<forall>n t. reg_tools reg n = Some t \<longrightarrow> t_name t = n)"

lemma empty_registry_ok [wf_intros]: "registry_ok empty_registry"
  by (simp add: registry_ok_def empty_registry_def)

lemma register_ok [wf_intros]: "registry_ok reg \<Longrightarrow> registry_ok (snd (register reg t))"
  by (auto simp: registry_ok_def register_def Let_def split: option.splits)

lemma registry_len_order: "registry_ok reg \<Longrightarrow> registry_len reg = length (reg_order reg)"
  by (metis registry_ok_def registry_len_def distinct_card)

text \<open>\<open>first_tools\<close>: the tools of a list that are the first with their name.\<close>

fun first_tools :: "string set \<Rightarrow> 'w tool list \<Rightarrow> 'w tool list" where
  "first_tools seen [] = []"
| "first_tools seen (t # ts) =
     (if t_name t \<in> seen then first_tools seen ts else t # first_tools (insert (t_name t) seen) ts)"

definition register_all :: "'w registry \<Rightarrow> 'w tool list \<Rightarrow> 'w registry" where
  "register_all reg ts = foldl (\<lambda>r t. snd (register r t)) reg ts"

lemma register_all_ok [wf_intros]: "registry_ok reg \<Longrightarrow> registry_ok (register_all reg ts)"
  unfolding register_all_def by (induction ts arbitrary: reg) (simp_all add: register_ok)

lemma register_all_tools:
  "registry_ok reg \<Longrightarrow>
     List.map_filter (reg_tools (register_all reg ts)) (reg_order (register_all reg ts)) =
       List.map_filter (reg_tools reg) (reg_order reg) @ first_tools (dom (reg_tools reg)) ts"
proof (induction ts arbitrary: reg)
  case (Cons t ts)
  show ?case
  proof (cases "reg_tools reg (t_name t)")
    case None
    let ?reg = "snd (register reg t)"
    have reg: "?reg = reg\<lparr>reg_tools := (reg_tools reg)(t_name t \<mapsto> t), reg_order := reg_order reg @ [t_name t]\<rparr>"
      by (simp add: register_def None Let_def)
    from None Cons.prems have "t_name t \<notin> set (reg_order reg)" by (auto simp: registry_ok_def)
    then have "List.map_filter (reg_tools ?reg) (reg_order ?reg) =
        List.map_filter (reg_tools reg) (reg_order reg) @ [t]"
      by (simp add: reg map_filter_update)
    moreover have "dom (reg_tools ?reg) = insert (t_name t) (dom (reg_tools reg))" by (auto simp: reg)
    ultimately show ?thesis
      using Cons.IH [OF register_ok [OF Cons.prems], of t] None by (simp add: register_all_def domIff)
  next
    case (Some u)
    then have "snd (register reg t) = reg" by (simp add: register_def Let_def)
    with Cons.IH [OF Cons.prems] Some show ?thesis by (simp add: register_all_def domI)
  qed
qed (simp add: register_all_def)

lemma register_all_get:
  "reg_tools (register_all reg ts) n =
     (case reg_tools reg n of Some t \<Rightarrow> Some t | None \<Rightarrow> find (\<lambda>t. t_name t = n) ts)"
proof (induction ts arbitrary: reg)
  case (Cons t ts)
  have "reg_tools (register_all reg (t # ts)) n = reg_tools (register_all (snd (register reg t)) ts) n"
    by (simp add: register_all_def)
  also have "\<dots> = (case reg_tools (snd (register reg t)) n of
      Some t \<Rightarrow> Some t | None \<Rightarrow> find (\<lambda>t. t_name t = n) ts)"
    by (rule Cons.IH)
  also have "\<dots> = (case reg_tools reg n of
      Some t \<Rightarrow> Some t | None \<Rightarrow> find (\<lambda>t. t_name t = n) (t # ts))"
    by (auto simp: register_def Let_def split: option.splits)
  finally show ?case .
qed (simp add: register_all_def split: option.splits)

text \<open>
  A registry filled from empty by any list of registrations finds under each name the first
  tool registered with it, reports the others as duplicates, and advertises exactly those first
  tools in the order of registration.
\<close>

theorem registry_keeps_first_registrations:
  "advertisements (register_all empty_registry ts) = map advertisement (first_tools {} ts)
   \<and> get_tool (register_all empty_registry ts) n =
       ok_or (Unknown n) (find (\<lambda>t. t_name t = n) ts)
   \<and> registry_len (register_all empty_registry ts) = length (first_tools {} ts)
   \<and> fst (register (register_all empty_registry ts) t) =
       (if t_name t \<in> t_name ` set ts then Inl (Duplicate (t_name t)) else Inr ())"
proof -
  let ?reg = "register_all empty_registry ts"
  have ok: "registry_ok ?reg" by (intro register_all_ok empty_registry_ok)
  have tools: "List.map_filter (reg_tools ?reg) (reg_order ?reg) = first_tools {} ts"
    using register_all_tools [OF empty_registry_ok, of ts] by (simp add: empty_registry_def List.map_filter_def)
  have get: "reg_tools ?reg m = find (\<lambda>t. t_name t = m) ts" for m
    by (simp add: register_all_get empty_registry_def)
  have "length (List.map_filter (reg_tools ?reg) (reg_order ?reg)) = length (reg_order ?reg)"
    using ok by (auto simp: List.map_filter_def registry_ok_def intro!: arg_cong [where f = length] filter_True)
  moreover have "find (\<lambda>u. t_name u = t_name t) ts = None \<longleftrightarrow> t_name t \<notin> t_name ` set ts"
    by (auto simp: find_None_iff image_iff)
  ultimately show ?thesis
    using tools by (auto simp: advertisements_def get_tool_def get registry_len_order [OF ok]
        register_def Let_def split: option.splits)
qed

lemma validate_call_Inr_iff:
  "validate_call parse reg call = Inr (t, arguments) \<longleftrightarrow>
     reg_tools reg (tc_name call) = Some t \<and> parse (arguments_json call) = Inr arguments
     \<and> is_object arguments"
  by (auto simp: validate_call_def get_tool_def and_then_def map_err_def ok_or_def ensure_def
      split: option.splits sum.splits if_splits)

end
