(* ===== verification/Gateway.thy ===== *)
theory Gateway
  imports Message
begin

section \<open>The retrying gateway\<close>

text \<open>
  \<open>fx-core/src/gateway.rs\<close>: \<open>SafeRetryGateway\<close> repeats a request only while the inner gateway
  proves that it was never sent. A gateway maps a request and a world to its result, the events it
  emitted and the next world.
\<close>

type_synonym 'w gateway =
  "gateway_request \<Rightarrow> 'w \<Rightarrow> (gateway_error + gateway_response) \<times> gateway_event list \<times> 'w"

definition default_unsent_retries :: nat where
  "default_unsent_retries = 1"

text \<open>The \<open>loop\<close> of \<open>complete\<close>; \<open>retries\<close> and the events emitted so far are its variables.\<close>

function retry_loop ::
  "'w gateway \<Rightarrow> nat \<Rightarrow> gateway_request \<Rightarrow> nat \<Rightarrow> gateway_event list \<Rightarrow> 'w \<Rightarrow>
     (gateway_error + gateway_response) \<times> gateway_event list \<times> 'w" where
  "retry_loop inner max_unsent_retries request retries evs w =
     (case inner request w of
        (result, new, w') \<Rightarrow>
          if result = Inl DefinitelyUnsent \<and> retries < max_unsent_retries
          then retry_loop inner max_unsent_retries request (retries + 1) (evs @ new) w'
          else (result, evs @ new, w'))"
  by pat_completeness auto
termination
  by (relation "measure (\<lambda>(inner, m, request, retries, evs, w). m - retries)") auto

declare retry_loop.simps [simp del]

definition safe_retry :: "'w gateway \<Rightarrow> nat \<Rightarrow> 'w gateway" where
  "safe_retry inner max_unsent_retries request w =
     retry_loop inner max_unsent_retries request 0 [] w"

subsection \<open>The attempts\<close>

text \<open>\<open>attempt inner request n w\<close>: what attempt \<open>n\<close> of a run of attempts from \<open>w\<close> gives.\<close>

primrec world_after :: "'w gateway \<Rightarrow> gateway_request \<Rightarrow> nat \<Rightarrow> 'w \<Rightarrow> 'w" where
  "world_after inner request 0 w = w"
| "world_after inner request (Suc n) w = world_after inner request n (snd (snd (inner request w)))"

definition attempt ::
  "'w gateway \<Rightarrow> gateway_request \<Rightarrow> nat \<Rightarrow> 'w \<Rightarrow>
     (gateway_error + gateway_response) \<times> gateway_event list \<times> 'w" where
  "attempt inner request n w = inner request (world_after inner request n w)"

definition unsent :: "(gateway_error + gateway_response) \<times> gateway_event list \<times> 'w \<Rightarrow> bool" where
  "unsent r \<longleftrightarrow> fst r = Inl DefinitelyUnsent"

definition attempts_until ::
  "'w gateway \<Rightarrow> gateway_request \<Rightarrow> nat \<Rightarrow> 'w \<Rightarrow> (gateway_error + gateway_response) \<times> gateway_event list \<times> 'w"
  where
  "attempts_until inner request n w =
     (fst (attempt inner request n w),
      concat (map (\<lambda>i. fst (snd (attempt inner request i w))) [0..<Suc n]),
      snd (snd (attempt inner request n w)))"

lemma retry_loop_attempts:
  "\<exists>n. (n + retries \<le> max_unsent_retries \<or> n = 0)
     \<and> list_all (\<lambda>i. unsent (attempt inner request i w)) [0..<n]
     \<and> (unsent (attempt inner request n w) \<longrightarrow> max_unsent_retries \<le> n + retries)
     \<and> retry_loop inner max_unsent_retries request retries evs w =
         (case attempts_until inner request n w of (r, new, w') \<Rightarrow> (r, evs @ new, w'))"
proof (induction inner max_unsent_retries request retries evs w rule: retry_loop.induct)
  case (1 inner m request retries evs w)
  obtain r new w1 where step: "inner request w = (r, new, w1)" by (rule prod_cases3)
  have at0: "attempt inner request 0 w = (r, new, w1)" by (simp add: attempt_def step)
  have atS: "attempt inner request (Suc n) w = attempt inner request n w1" for n
    by (simp add: attempt_def step)
  show ?case
  proof (cases "r = Inl DefinitelyUnsent \<and> retries < m")
    case True
    with "1.IH" [OF step [symmetric] refl True] obtain n where
      n: "n + Suc retries \<le> m \<or> n = 0"
        "list_all (\<lambda>i. unsent (attempt inner request i w1)) [0..<n]"
        "unsent (attempt inner request n w1) \<longrightarrow> m \<le> n + Suc retries"
        "retry_loop inner m request (retries + 1) (evs @ new) w1 =
           (case attempts_until inner request n w1 of (r, new', w') \<Rightarrow> (r, (evs @ new) @ new', w'))"
      by auto
    have "attempts_until inner request (Suc n) w =
        (case attempts_until inner request n w1 of (r, new', w') \<Rightarrow> (r, new @ new', w'))"
      unfolding attempts_until_def upt_Suc_shift [of "Suc n"] by (simp add: atS at0 comp_def del: upt_Suc)
    moreover have "list_all (\<lambda>i. unsent (attempt inner request i w)) [0..<Suc n]"
      using n(2) True by (simp add: list_all_upt_shift atS at0 unsent_def del: upt_Suc)
    ultimately show ?thesis using n True
      by (intro exI [of _ "Suc n"]) (auto simp: atS step retry_loop.simps split: prod.splits)
  next
    case False
    then show ?thesis
      by (intro exI [of _ 0])
        (auto simp: attempts_until_def at0 unsent_def step retry_loop.simps [of inner m])
  qed
qed

text \<open>
  A completion is one run of at most \<open>max_unsent_retries + 1\<close> attempts: every attempt but the
  last was definitely unsent, the result is the last attempt's, the events are those of all
  attempts in order, and it gives up on an unsent request only when the retries are used up. So a
  request that may have been delivered is never sent twice.
\<close>

theorem only_unsent_requests_are_retried:
  "\<exists>n. n \<le> max_unsent_retries
     \<and> list_all (\<lambda>i. unsent (attempt inner request i w)) [0..<n]
     \<and> (if unsent (attempt inner request n w) then n = max_unsent_retries else True)
     \<and> safe_retry inner max_unsent_retries request w = attempts_until inner request n w"
proof -
  from retry_loop_attempts [of 0 max_unsent_retries inner request w "[]"] obtain n where
    "n \<le> max_unsent_retries \<or> n = 0"
    "list_all (\<lambda>i. unsent (attempt inner request i w)) [0..<n]"
    "unsent (attempt inner request n w) \<longrightarrow> max_unsent_retries \<le> n"
    "safe_retry inner max_unsent_retries request w = attempts_until inner request n w"
    unfolding safe_retry_def by auto
  then show ?thesis by (intro exI [of _ n]) auto
qed

subsection \<open>Gateways that are silent until they send\<close>

text \<open>
  What a provider adapter promises: nothing is emitted for a request that was not sent. Then the
  listener of the retrying gateway hears one attempt only, and the promise is kept by the wrapper.
\<close>

definition silent_until_sent :: "'w gateway \<Rightarrow> bool" where
  "silent_until_sent g \<longleftrightarrow>
     (\<forall>request w. fst (g request w) = Inl DefinitelyUnsent \<longrightarrow> fst (snd (g request w)) = [])"

text \<open>
  Over a gateway that emits nothing for an unsent request, the events of a completion are
  those of one attempt of the inner gateway, the one whose result is returned: no text is streamed
  twice. The wrapped gateway keeps the promise.
\<close>

theorem retries_stream_one_attempt:
  assumes "silent_until_sent inner"
  shows "(\<exists>w'. safe_retry inner m request w = inner request w')
    \<and> silent_until_sent (safe_retry inner m)"
proof -
  have one: "\<exists>w'. safe_retry inner m request w = inner request w'" for request w
  proof -
    from retry_loop_attempts [of 0 m inner request w "[]"] obtain n where
      n: "list_all (\<lambda>i. unsent (attempt inner request i w)) [0..<n]"
        "safe_retry inner m request w = attempts_until inner request n w"
      unfolding safe_retry_def by auto
    have "fst (snd (attempt inner request i w)) = []" if "i < n" for i
      using n(1) that assms by (auto simp: list_all_iff unsent_def silent_until_sent_def attempt_def)
    then have "concat (map (\<lambda>i. fst (snd (attempt inner request i w))) [0..<n]) = []" by simp
    with n(2) have "safe_retry inner m request w = attempt inner request n w"
      by (simp add: attempts_until_def)
    then show ?thesis unfolding attempt_def by blast
  qed
  have "silent_until_sent (safe_retry inner m)"
    unfolding silent_until_sent_def
  proof (intro allI impI)
    fix request w
    assume unsent: "fst (safe_retry inner m request w) = Inl DefinitelyUnsent"
    obtain w' where "safe_retry inner m request w = inner request w'" using one by blast
    with unsent assms show "fst (snd (safe_retry inner m request w)) = []"
      by (simp add: silent_until_sent_def)
  qed
  with one show ?thesis by blast
qed

definition flaky_gateway :: "nat gateway" where
  "flaky_gateway request w =
     (if w = 0 then (Inl DefinitelyUnsent, [], 1) else (Inl PossiblySent, [ContentDelta ''x''], w))"

definition example_request :: gateway_request where
  "example_request =
     \<lparr>gw_model = ''m'', gw_messages = [], gw_tools = [], gw_tool_choice = AutoChoice,
      gw_max_output_tokens = None\<rparr>"

theorem retries_stream_one_attempt_witness:
  "\<exists>w'. safe_retry flaky_gateway 1 example_request 0 = flaky_gateway example_request w'"
  using retries_stream_one_attempt [of flaky_gateway 1 example_request 0]
  by (simp add: silent_until_sent_def flaky_gateway_def)

end
