(* ===== verification/Redaction.thy ===== *)
theory Redaction
  imports Text
begin

section \<open>Secret redaction\<close>

text \<open>
  \<open>fx-core/src/redaction.rs\<close>, byte by byte: the four recognisers of \<open>secret_span\<close> in their
  order, each returning the span that is masked, and the scan that copies the text between the
  spans; the result is the text with the leftmost matches masked, and stays UTF-8. Offsets are indices into the text; the code's \<open>saturating_add\<close> on an offset never
  saturates, as a Rust allocation is shorter than half the address space.
\<close>

definition redacted_marker :: string where
  "redacted_marker = ''[redacted]''"

definition is_key :: "char \<Rightarrow> bool" where
  "is_key c \<longleftrightarrow> is_ascii_alphanumeric c \<or> c = CHR ''_''"

definition is_token :: "char \<Rightarrow> bool" where
  "is_token c \<longleftrightarrow> is_ascii_alphanumeric c \<or> c \<in> {CHR ''-'', CHR ''_'', CHR ''.''}"

definition is_quote :: "char \<Rightarrow> bool" where
  "is_quote c \<longleftrightarrow> byte_of c = 39 \<or> byte_of c = 34"

definition is_newline :: "char \<Rightarrow> bool" where
  "is_newline c \<longleftrightarrow> byte_of c = 10 \<or> byte_of c = 13"

text \<open>\<open>text.get(i).is_some_and(p)\<close>, and the loop \<open>while text.get(i).is_some_and(p) { i += 1 }\<close>.\<close>

definition at :: "string \<Rightarrow> nat \<Rightarrow> (char \<Rightarrow> bool) \<Rightarrow> bool" where
  "at s i P \<longleftrightarrow> i < length s \<and> P (s ! i)"

function scan_while :: "(char \<Rightarrow> bool) \<Rightarrow> string \<Rightarrow> nat \<Rightarrow> nat" where
  "scan_while P s i = (if at s i P then scan_while P s (Suc i) else i)"
  by pat_completeness auto
termination
  by (relation "measure (\<lambda>(P, s, i). length s - i)") (auto simp: at_def)

declare scan_while.simps [simp del]

text \<open>\<open>start.checked_sub(1).is_some_and(|index| p(text[index]))\<close>.\<close>

definition preceded_by :: "string \<Rightarrow> nat \<Rightarrow> (char \<Rightarrow> bool) \<Rightarrow> bool" where
  "preceded_by s i P \<longleftrightarrow> 0 < i \<and> P (s ! (i - 1))"

subsection \<open>The recognisers\<close>

text \<open>The scan of \<open>basic_auth_url\<close> over the bytes from the end of \<open>https://\<close>.\<close>

fun url_scan :: "nat \<Rightarrow> string \<Rightarrow> nat \<Rightarrow> bool \<Rightarrow> (nat \<times> nat) option" where
  "url_scan start [] i colon = None"
| "url_scan start (c # cs) i colon =
     (if c = CHR '':'' then url_scan start cs (Suc i) True
      else if c = CHR ''@'' \<and> colon \<and> start < i then Some (start, i)
      else if c \<in> {CHR ''/'', CHR ''?'', CHR ''#''} \<or> byte_of c \<in> {10, 13, 9, 32} then None
      else url_scan start cs (Suc i) colon)"

definition basic_auth_url :: "string \<Rightarrow> nat \<Rightarrow> (nat \<times> nat) option" where
  "basic_auth_url s start =
     (if start \<le> length s \<and> prefix ''https://'' (drop start s)
      then let cred = start + length ''https://'' in url_scan cred (drop cred s) cred False
      else None)"

definition aws_prefixes :: "string list" where
  "aws_prefixes = [''AKIA'', ''ASIA'', ''AIDA'', ''AGPA'', ''AROA'', ''ANPA'']"

definition aws_access_key :: "string \<Rightarrow> nat \<Rightarrow> (nat \<times> nat) option" where
  "aws_access_key s start =
     (if start + 20 \<le> length s
      then let candidate = take 20 (drop start s) in
        if \<not> list_ex (\<lambda>p. prefix p candidate) aws_prefixes
           \<or> \<not> list_all (\<lambda>c. is_ascii_uppercase c \<or> is_ascii_digit c) candidate
           \<or> preceded_by s start is_token
           \<or> at s (start + 20) is_token
        then None
        else Some (start, start + 20)
      else None)"

definition sensitive_words :: "string list" where
  "sensitive_words = [''password'', ''passwd'', ''api_key'', ''apikey'', ''secret'', ''token'',
     ''private_key'', ''access_key'']"

definition sensitive_key :: "string \<Rightarrow> bool" where
  "sensitive_key key =
     (let k = map to_ascii_lowercase key in list_ex (\<lambda>w. contains_str k w) sensitive_words)"

text \<open>The end of a quoted value: an unescaped closing quote or the end of the line.\<close>

function quoted_end :: "char \<Rightarrow> string \<Rightarrow> nat \<Rightarrow> bool \<Rightarrow> nat" where
  "quoted_end q s i escaped =
     (if length s \<le> i then i
      else if is_newline (s ! i) \<or> (s ! i = q \<and> \<not> escaped) then i
      else quoted_end q s (Suc i) (\<not> escaped \<and> byte_of (s ! i) = 92))"
  by pat_completeness auto
termination
  by (relation "measure (\<lambda>(q, s, i, e). length s - i)") auto

declare quoted_end.simps [simp del]

definition assignment_value :: "string \<Rightarrow> nat \<Rightarrow> (nat \<times> nat) option" where
  "assignment_value s start =
     (if length s \<le> start then None
      else if is_quote (s ! start)
        then let e = quoted_end (s ! start) s (start + 1) False in
          (if start + 1 < e then Some (start + 1, e) else None)
      else let e = scan_while (\<lambda>c. \<not> is_ascii_whitespace c \<and> \<not> is_quote c) s start in
          (if start < e then Some (start, e) else None))"

definition blank :: "char \<Rightarrow> bool" where
  "blank c \<longleftrightarrow> is_ascii_whitespace c \<and> \<not> is_newline c"

definition sensitive_assignment :: "string \<Rightarrow> nat \<Rightarrow> (nat \<times> nat) option" where
  "sensitive_assignment s start =
     (if preceded_by s start is_key then None
      else
        let quoted = at s start is_quote;
            key_start = start + (if quoted then 1 else 0)
        in if \<not> at s key_start is_key then None
        else
          let key_end = scan_while is_key s key_start
          in if quoted \<and> \<not> at s key_end (\<lambda>c. c = s ! start) then None
          else
            let delimiter = scan_while blank s (key_end + (if quoted then 1 else 0))
            in if \<not> at s delimiter (\<lambda>c. c = CHR ''='' \<or> c = CHR '':'')
                  \<or> \<not> sensitive_key (take (key_end - key_start) (drop key_start s))
               then None
               else assignment_value s (scan_while blank s (delimiter + 1)))"

text \<open>One of the two prefix loops of \<open>inline_token\<close>.\<close>

fun token_loop :: "string \<Rightarrow> nat \<Rightarrow> nat \<Rightarrow> string list \<Rightarrow> (nat \<times> nat) option" where
  "token_loop s start minimum [] = None"
| "token_loop s start minimum (p # ps) =
     (if \<not> prefix p (drop start s) then token_loop s start minimum ps
      else let e = scan_while is_token s (start + length p) in
        if minimum \<le> e - start then Some (start, e) else token_loop s start minimum ps)"

definition token_prefixes :: "string list" where
  "token_prefixes = [''sk-'', ''sk_live_'', ''pk_live_'', ''github_pat_'', ''xoxb-'', ''xoxp-'', ''Bearer '']"

definition github_prefixes :: "string list" where
  "github_prefixes = [''ghp_'', ''gho_'', ''ghu_'', ''ghs_'', ''ghr_'']"

definition inline_token :: "string \<Rightarrow> nat \<Rightarrow> (nat \<times> nat) option" where
  "inline_token s start =
     (if preceded_by s start is_token \<or> length s < start then None
      else case token_loop s start 16 token_prefixes of
          Some r \<Rightarrow> Some r
        | None \<Rightarrow> token_loop s start 40 github_prefixes)"

fun or_else :: "'a option \<Rightarrow> 'a option \<Rightarrow> 'a option" where
  "or_else (Some a) b = Some a"
| "or_else None b = b"

definition secret_span :: "string \<Rightarrow> nat \<Rightarrow> (nat \<times> nat) option" where
  "secret_span s start =
     or_else (basic_auth_url s start)
       (or_else (aws_access_key s start)
         (or_else (sensitive_assignment s start) (inline_token s start)))"

subsection \<open>Every span makes progress and falls on character boundaries\<close>

lemma scan_while_ge: "i \<le> scan_while P s i"
proof (induction P s i rule: scan_while.induct)
  case (1 P s i)
  then show ?case by (subst scan_while.simps) (auto intro: Suc_leD)
qed

lemma scan_while_le: "i \<le> length s \<Longrightarrow> scan_while P s i \<le> length s"
proof (induction P s i rule: scan_while.induct)
  case (1 P s i)
  then show ?case by (subst scan_while.simps) (simp add: at_def)
qed

lemma scan_while_all: "i \<le> j \<Longrightarrow> j < scan_while P s i \<Longrightarrow> P (s ! j)"
proof (induction P s i rule: scan_while.induct)
  case (1 P s i)
  show ?case
  proof (cases "at s i P")
    case True
    with "1.prems"(2) have "j < scan_while P s (Suc i)" by (subst (asm) scan_while.simps) simp
    with "1.IH" True "1.prems"(1) show ?thesis by (cases "i = j") (auto simp: at_def)
  next
    case False
    with "1.prems" show ?thesis by (subst (asm) scan_while.simps) simp
  qed
qed

lemma scan_while_stop: "\<not> at s (scan_while P s i) P"
proof (induction P s i rule: scan_while.induct)
  case (1 P s i)
  then show ?case by (subst scan_while.simps) simp
qed

lemma quoted_end_props:
  "i \<le> length s \<Longrightarrow> i \<le> quoted_end q s i esc \<and> quoted_end q s i esc \<le> length s
     \<and> (quoted_end q s i esc < length s \<longrightarrow>
          is_newline (s ! quoted_end q s i esc) \<or> s ! quoted_end q s i esc = q)"
proof (induction q s i esc rule: quoted_end.induct)
  case (1 q s i esc)
  then show ?case by (subst (1 2 3 4 5) quoted_end.simps) auto
qed

definition span_ok :: "string \<Rightarrow> nat \<Rightarrow> nat \<times> nat \<Rightarrow> bool" where
  "span_ok s start pe \<longleftrightarrow>
     start \<le> fst pe \<and> fst pe < snd pe \<and> snd pe \<le> length s
     \<and> (valid_utf8 s \<longrightarrow> is_char_boundary s (fst pe) \<and> is_char_boundary s (snd pe))"

lemma key_ascii: "is_key c \<Longrightarrow> is_ascii c"
  unfolding is_key_def using ascii_classes(3) by (auto simp: is_ascii_def byte_of_def)

lemma token_ascii: "is_token c \<Longrightarrow> is_ascii c"
  unfolding is_token_def using ascii_classes(3) by (auto simp: is_ascii_def byte_of_def)

lemma quote_ascii: "is_quote c \<Longrightarrow> is_ascii c"
  by (auto simp: is_quote_def is_ascii_def)

lemma newline_ascii: "is_newline c \<Longrightarrow> is_ascii c"
  by (auto simp: is_newline_def is_ascii_def)

lemma prefix_drop_nth: "prefix p (drop i s) \<Longrightarrow> k < length p \<Longrightarrow> i + k < length s \<and> s ! (i + k) = p ! k"
  by (auto simp: prefix_def) (metis add_lessD1 length_append length_drop less_diff_conv add.commute
    trans_less_add1, metis length_append length_drop nth_append nth_drop add_lessD1 less_imp_le
    less_diff_conv nat_le_linear drop_all list.size(3) not_less_zero append_is_Nil_conv)

lemma boundary_prefix_start:
  "valid_utf8 s \<Longrightarrow> prefix p (drop i s) \<Longrightarrow> p \<noteq> [] \<Longrightarrow> is_ascii (p ! 0) \<Longrightarrow> is_char_boundary s i"
  using prefix_drop_nth [of p i s 0] by (auto intro: ascii_is_boundary)

lemma url_scan_span:
  "url_scan start (drop i s) i colon = Some (p, e) \<Longrightarrow> start \<le> i \<Longrightarrow>
     p = start \<and> start < e \<and> e < length s \<and> s ! e = CHR ''@''"
proof (induction "length s - i" arbitrary: i colon)
  case 0
  then show ?case by simp
next
  case (Suc n)
  then have d: "drop i s = s ! i # drop (Suc i) s" by (intro Cons_nth_drop_Suc [symmetric]) simp
  from Suc.hyps(2) have n: "n = length s - Suc i" by simp
  show ?case
    using Suc.prems Suc.hyps(1) [OF n] Suc.hyps(2)
    by (auto simp: d simp del: drop_Suc split: if_splits)
qed

lemma basic_auth_url_span:
  assumes "basic_auth_url s start = Some pe"
  shows "span_ok s start pe"
proof -
  let ?u = "''https://''"
  from assms have pre: "prefix ?u (drop start s)"
    and sc: "url_scan (start + 8) (drop (start + 8) s) (start + 8) False = Some (fst pe, snd pe)"
    by (auto simp: basic_auth_url_def Let_def eval_nat_numeral split: if_splits)
  from url_scan_span [OF sc] have e: "fst pe = start + 8" "start + 8 < snd pe" "snd pe < length s"
    and at: "s ! snd pe = CHR ''@''" by auto
  have "s ! (start + 7) = CHR ''/''" using prefix_drop_nth [OF pre, of 7] by simp
  then have "valid_utf8 s \<Longrightarrow> is_char_boundary s (start + 8)"
    using boundary_Suc [of s "start + 7"] e by (simp add: is_ascii_def byte_of_def add.commute)
  moreover have "is_char_boundary s (snd pe)"
    using e at by (intro ascii_is_boundary) (simp_all add: is_ascii_def byte_of_def)
  ultimately show ?thesis using e by (simp add: span_ok_def)
qed

lemma aws_access_key_span:
  assumes "aws_access_key s start = Some pe"
  shows "span_ok s start pe"
proof -
  let ?c = "take 20 (drop start s)"
  from assms have le: "start + 20 \<le> length s" and pe: "pe = (start, start + 20)"
    and all: "list_all (\<lambda>c. is_ascii_uppercase c \<or> is_ascii_digit c) ?c"
    by (auto simp: aws_access_key_def Let_def split: if_splits)
  have asc: "is_ascii (s ! (start + k))" if "k < 20" for k
  proof -
    from that le have "k < length ?c" by simp
    with all have "is_ascii_uppercase (?c ! k) \<or> is_ascii_digit (?c ! k)"
      by (auto simp: list_all_length)
    with that le show ?thesis by auto
  qed
  from asc [of 0] le have "is_char_boundary s start" by (intro ascii_is_boundary) simp_all
  moreover from asc [of 19] le have "valid_utf8 s \<Longrightarrow> is_char_boundary s (start + 20)"
    using boundary_Suc [of s "start + 19"] by (simp add: add.commute)
  ultimately show ?thesis using le pe by (simp add: span_ok_def)
qed

lemma assignment_value_span:
  assumes a: "assignment_value s start = Some pe" and pred: "preceded_by s start is_ascii"
  shows "span_ok s start pe"
proof (cases "is_quote (s ! start)")
  case True
  let ?e = "quoted_end (s ! start) s (start + 1) False"
  from a True have pe: "pe = (start + 1, ?e)" and lt: "start + 1 < ?e" and l: "start < length s"
    by (auto simp: assignment_value_def Let_def split: if_splits)
  note q = quoted_end_props [of "start + 1" s "s ! start" False]
  have "valid_utf8 s \<Longrightarrow> is_char_boundary s (start + 1)"
    using boundary_Suc [of s start] True l by (simp add: quote_ascii)
  moreover have "is_char_boundary s ?e"
    using q l True
    by (cases "?e < length s") (auto intro!: ascii_is_boundary simp: quote_ascii newline_ascii)
  ultimately show ?thesis using pe lt q l by (simp add: span_ok_def)
next
  case False
  let ?P = "\<lambda>c. \<not> is_ascii_whitespace c \<and> \<not> is_quote c"
  let ?e = "scan_while ?P s start"
  from a False have pe: "pe = (start, ?e)" and lt: "start < ?e" and l: "start < length s"
    by (auto simp: assignment_value_def Let_def split: if_splits)
  have le: "?e \<le> length s" using l by (intro scan_while_le) simp
  have "is_char_boundary s ?e"
    using scan_while_stop [of s ?P start] le
    by (cases "?e < length s") (auto intro!: ascii_is_boundary simp: at_def quote_ascii)
  moreover have "valid_utf8 s \<Longrightarrow> is_char_boundary s start"
    using pred l boundary_Suc [of s "start - 1"] by (simp add: preceded_by_def)
  ultimately show ?thesis using pe lt le by (simp add: span_ok_def)
qed

lemma span_ok_later: "span_ok s i pe \<Longrightarrow> start \<le> i \<Longrightarrow> span_ok s start pe"
  by (auto simp: span_ok_def)

lemma preceded_after_scan:
  assumes "at s d Q" and "\<And>c. Q c \<Longrightarrow> is_ascii c"
  shows "preceded_by s (scan_while blank s (d + 1)) is_ascii"
proof (cases "scan_while blank s (d + 1) = d + 1")
  case True
  with assms show ?thesis by (simp add: preceded_by_def at_def)
next
  case False
  let ?e = "scan_while blank s (d + 1)"
  from False scan_while_ge [of "d + 1" blank s] have "d + 1 \<le> ?e - 1" and "?e - 1 < ?e" by simp_all
  then have "blank (s ! (?e - 1))" by (rule scan_while_all)
  with \<open>?e - 1 < ?e\<close> show ?thesis by (simp add: preceded_by_def blank_def)
qed

lemma sensitive_assignment_span:
  assumes "sensitive_assignment s start = Some pe"
  shows "span_ok s start pe"
proof -
  define k where "k = start + (if at s start is_quote then 1 else 0)"
  define ke where "ke = scan_while is_key s k"
  define d where "d = scan_while blank s (ke + (if at s start is_quote then 1 else 0))"
  define v where "v = scan_while blank s (d + 1)"
  from assms have dl: "at s d (\<lambda>c. c = CHR ''='' \<or> c = CHR '':'')"
    and av: "assignment_value s v = Some pe"
    unfolding sensitive_assignment_def Let_def k_def [symmetric] ke_def [symmetric]
      d_def [symmetric] v_def [symmetric]
    by (auto split: if_splits simp: v_def)
  have "start \<le> k" and "k \<le> ke" by (simp_all add: k_def ke_def scan_while_ge)
  moreover have "ke \<le> d" unfolding d_def by (rule order_trans [OF _ scan_while_ge]) simp
  moreover have "d \<le> v" unfolding v_def by (rule order_trans [OF _ scan_while_ge]) simp
  ultimately have "start \<le> v" by simp
  moreover have "preceded_by s v is_ascii"
    unfolding v_def using dl
    by (rule preceded_after_scan) (auto simp: is_ascii_def byte_of_def)
  ultimately show ?thesis using assignment_value_span [OF av] by (blast intro: span_ok_later)
qed

lemma token_loop_span:
  assumes "token_loop s start minimum ps = Some pe" and "0 < minimum"
    and "\<forall>p \<in> set ps. p \<noteq> [] \<and> list_all is_ascii p"
  shows "span_ok s start pe"
  using assms
proof (induction ps)
  case Nil
  then show ?case by simp
next
  case (Cons p ps)
  let ?e = "scan_while is_token s (start + length p)"
  show ?case
  proof (cases "prefix p (drop start s) \<and> minimum \<le> ?e - start")
    case False
    with Cons show ?thesis by (auto simp: Let_def split: if_splits)
  next
    case True
    with Cons.prems(1) have pe: "pe = (start, ?e)" by (simp add: Let_def)
    from Cons.prems(3) have p: "p \<noteq> []" "list_all is_ascii p" by simp_all
    from True p prefix_drop_nth [of p start s "length p - 1"] have l: "start + length p \<le> length s"
      and lp: "is_ascii (s ! (start + length p - 1))"
      by (auto simp: list_all_length Suc_le_eq neq_Nil_conv)
    have ge: "start + length p \<le> ?e" by (rule scan_while_ge)
    have le: "?e \<le> length s" by (rule scan_while_le [OF l])
    have "is_ascii (s ! (?e - 1))"
    proof (cases "?e = start + length p")
      case True
      with lp show ?thesis by simp
    next
      case False
      with ge have "start + length p \<le> ?e - 1" "?e - 1 < ?e" by simp_all
      then show ?thesis using scan_while_all [of "start + length p" "?e - 1" is_token s]
        by (simp add: token_ascii)
    qed
    then have "valid_utf8 s \<Longrightarrow> is_char_boundary s ?e"
      using ge le p(1) by (intro boundary_after_ascii_run [of s start]) (auto simp: neq_Nil_conv)
    moreover have "valid_utf8 s \<Longrightarrow> is_char_boundary s start"
      using True p by (intro boundary_prefix_start [of s p]) (auto simp: list_all_length)
    moreover have "start < ?e" using ge p(1) by (cases p) auto
    ultimately show ?thesis using pe le by (auto simp: span_ok_def)
  qed
qed

lemma inline_token_span:
  assumes "inline_token s start = Some pe"
  shows "span_ok s start pe"
proof -
  have a: "\<forall>p \<in> set token_prefixes. p \<noteq> [] \<and> list_all is_ascii p"
    and b: "\<forall>p \<in> set github_prefixes. p \<noteq> [] \<and> list_all is_ascii p"
    by (simp_all add: token_prefixes_def github_prefixes_def is_ascii_def byte_of_def)
  from assms have "token_loop s start 16 token_prefixes = Some pe \<or> token_loop s start 40 github_prefixes = Some pe"
    by (auto simp: inline_token_def split: if_splits option.splits)
  then show ?thesis using token_loop_span [OF _ _ a, where pe = pe] token_loop_span [OF _ _ b, where pe = pe]
    by fastforce
qed

lemma or_else_Some: "or_else a b = Some x \<Longrightarrow> a = Some x \<or> b = Some x"
  by (cases a) auto

lemma secret_span_ok: "secret_span s start = Some pe \<Longrightarrow> span_ok s start pe"
  unfolding secret_span_def
  by (blast dest: or_else_Some intro: basic_auth_url_span aws_access_key_span
      sensitive_assignment_span inline_token_span)

lemma secret_span_bounds:
  assumes "secret_span s start = Some (p, e)"
  shows "start \<le> p" "p < e" "e \<le> length s" "start < e"
  using secret_span_ok [OF assms] by (auto simp: span_ok_def)

subsection \<open>The scan\<close>

text \<open>The loop of \<open>redact_secrets\<close>: \<open>output\<close>, \<open>copied\<close> and \<open>index\<close> are its variables.\<close>

function redact_loop :: "string \<Rightarrow> string \<Rightarrow> nat \<Rightarrow> nat \<Rightarrow> string \<times> nat" where
  "redact_loop s output copied index =
     (if length s \<le> index then (output, copied)
      else case secret_span s index of
          None \<Rightarrow> redact_loop s output copied (Suc index)
        | Some (p, e) \<Rightarrow>
            redact_loop s (output @ take (p - copied) (drop copied s) @ redacted_marker) e e)"
  by pat_completeness auto
termination
  by (relation "measure (\<lambda>(s, out, copied, index). length s - index)")
    (auto dest: secret_span_bounds(4))

declare redact_loop.simps [simp del]

text \<open>The result: \<open>None\<close> is \<open>Cow::Borrowed\<close>, the text itself.\<close>

definition redact_cow :: "string \<Rightarrow> string option" where
  "redact_cow s =
     (let (output, copied) = redact_loop s [] 0 0 in
      if output = [] then None else Some (output @ drop copied s))"

definition redact_secrets :: "string \<Rightarrow> string" where
  "redact_secrets s = (case redact_cow s of None \<Rightarrow> s | Some t \<Rightarrow> t)"

text \<open>The spans the scan masks, with the index at which each is recognised.\<close>

function spans_from :: "string \<Rightarrow> nat \<Rightarrow> (nat \<times> nat \<times> nat) list" where
  "spans_from s index =
     (if length s \<le> index then []
      else case secret_span s index of
          None \<Rightarrow> spans_from s (Suc index)
        | Some (p, e) \<Rightarrow> (index, p, e) # spans_from s e)"
  by pat_completeness auto
termination
  by (relation "measure (\<lambda>(s, index). length s - index)") (auto dest: secret_span_bounds(4))

declare spans_from.simps [simp del]

text \<open>What masking a list of spans means: the text between them is kept byte for byte.\<close>

fun mask :: "string \<Rightarrow> nat \<Rightarrow> (nat \<times> nat \<times> nat) list \<Rightarrow> string" where
  "mask s copied [] = drop copied s"
| "mask s copied ((i, p, e) # spans) =
     take (p - copied) (drop copied s) @ redacted_marker @ mask s e spans"

lemma redact_loop_mask:
  "copied \<le> index \<Longrightarrow>
     (let (r, c) = redact_loop s out copied index in r @ drop c s)
       = out @ mask s copied (spans_from s index)
     \<and> (fst (redact_loop s out copied index) = [] \<longleftrightarrow> out = [] \<and> spans_from s index = [])
     \<and> (spans_from s index = [] \<longrightarrow> redact_loop s out copied index = (out, copied))"
proof (induction s out copied index rule: redact_loop.induct)
  case (1 s out copied index)
  consider "length s \<le> index"
    | "index < length s" "secret_span s index = None"
    | p e where "index < length s" "secret_span s index = Some (p, e)"
    by (cases "length s \<le> index"; cases "secret_span s index") auto
  then show ?case
  proof cases
    case 1
    then show ?thesis by (simp add: redact_loop.simps [of s] spans_from.simps [of s])
  next
    case 2
    with "1.IH"(1) "1.prems" show ?thesis
      by (simp add: redact_loop.simps [of s out copied index] spans_from.simps [of s index])
  next
    case 3
    with "1.IH"(2) [OF _ 3(2) refl] show ?thesis
      by (simp add: redact_loop.simps [of s out copied index] spans_from.simps [of s index]
          redacted_marker_def split: prod.splits)
  qed
qed

lemma redact_secrets_mask_eq: "redact_secrets s = mask s 0 (spans_from s 0)"
  using redact_loop_mask [of 0 0 s "[]"]
  by (cases "spans_from s 0 = []") (auto simp: redact_secrets_def redact_cow_def split: prod.splits)

lemma redact_cow_None: "redact_cow s = None \<longleftrightarrow> spans_from s 0 = []"
  using redact_loop_mask [of 0 0 s "[]"] by (auto simp: redact_cow_def split: prod.splits)

lemma spans_from_recognised:
  "(i, p, e) \<in> set (spans_from s index) \<Longrightarrow> index \<le> i \<and> secret_span s i = Some (p, e)"
proof (induction s index rule: spans_from.induct)
  case (1 s index)
  consider "length s \<le> index"
    | "index < length s" "secret_span s index = None"
    | p' e' where "index < length s" "secret_span s index = Some (p', e')"
    by (cases "length s \<le> index"; cases "secret_span s index") auto
  then show ?case
  proof cases
    case 1
    with "1.prems" show ?thesis by (simp add: spans_from.simps [of s index])
  next
    case 2
    with "1.IH"(1) "1.prems" show ?thesis by (auto simp: spans_from.simps [of s index])
  next
    case 3
    with "1.IH"(2) [OF _ 3(2) refl] "1.prems" secret_span_bounds(4) [OF 3(2)]
    show ?thesis by (auto simp: spans_from.simps [of s index])
  qed
qed

lemma spans_from_cover:
  "index \<le> i \<Longrightarrow> i < length s \<Longrightarrow> secret_span s i \<noteq> None \<Longrightarrow>
     \<exists>(j, p, e) \<in> set (spans_from s index). j \<le> i \<and> i < e"
proof (induction s index rule: spans_from.induct)
  case (1 s index)
  consider "secret_span s index = None" | p e where "secret_span s index = Some (p, e)"
    by (cases "secret_span s index") auto
  then show ?case
  proof cases
    case 1
    with "1.prems" have "Suc index \<le> i" by (cases "index = i") auto
    with "1.IH"(1) "1.prems" 1 show ?thesis by (simp add: spans_from.simps [of s index])
  next
    case 2
    show ?thesis
    proof (cases "i < e")
      case True
      with "1.prems" 2 show ?thesis by (simp add: spans_from.simps [of s index])
    next
      case False
      with "1.IH"(2) [OF _ 2 refl] "1.prems" 2 show ?thesis
        by (simp add: spans_from.simps [of s index])
    qed
  qed
qed

lemma mask_valid:
  "valid_utf8 s \<Longrightarrow> is_char_boundary s copied \<Longrightarrow> copied \<le> index \<Longrightarrow>
     valid_utf8 (mask s copied (spans_from s index))"
proof (induction s index arbitrary: copied rule: spans_from.induct)
  case (1 s index)
  consider "length s \<le> index"
    | "index < length s" "secret_span s index = None"
    | p e where "index < length s" "secret_span s index = Some (p, e)"
    by (cases "length s \<le> index"; cases "secret_span s index") auto
  then show ?case
  proof cases
    case 1
    with "1.prems" show ?thesis by (simp add: spans_from.simps [of s index] valid_utf8_drop)
  next
    case 2
    with "1.IH"(1) [of copied] "1.prems" show ?thesis by (simp add: spans_from.simps [of s index])
  next
    case 3
    from secret_span_ok [OF 3(2)] "1.prems"(1,3) have pe: "is_char_boundary s p" "is_char_boundary s e" "copied \<le> p"
      by (auto simp: span_ok_def)
    have "valid_utf8 redacted_marker"
      by (rule valid_utf8_ascii) (simp add: redacted_marker_def is_ascii_def byte_of_def)
    with "1.IH"(2) [OF _ 3(2) refl, of e] 3 "1.prems" pe show ?thesis
      by (simp add: spans_from.simps [of s index] valid_utf8_append valid_utf8_slice)
  qed
qed

text \<open>The spans the scan masks: in order, apart from each other, each recognised where it says.\<close>

definition masked_apart :: "nat \<times> nat \<times> nat \<Rightarrow> nat \<times> nat \<times> nat \<Rightarrow> bool" where
  "masked_apart a b \<longleftrightarrow> (case (a, b) of ((j, p, e), (j', p', e')) \<Rightarrow> e \<le> j')"

lemma spans_from_apart: "sorted_wrt masked_apart (spans_from s index)"
proof (induction s index rule: spans_from.induct)
  case (1 s index)
  consider "length s \<le> index"
    | "index < length s" "secret_span s index = None"
    | p e where "index < length s" "secret_span s index = Some (p, e)"
    by (cases "length s \<le> index"; cases "secret_span s index") auto
  then show ?case
  proof cases
    case 1
    then show ?thesis by (simp add: spans_from.simps [of s index])
  next
    case 2
    with "1.IH"(1) show ?thesis by (simp add: spans_from.simps [of s index])
  next
    case 3
    with "1.IH"(2) [OF _ 3(2) refl]
    show ?thesis
      by (auto simp: spans_from.simps [of s index] masked_apart_def dest: spans_from_recognised)
  qed
qed

text \<open>
  What a recogniser finds is masked as found, unless the scan jumped over it: it was found inside
  an earlier match, between the index where that one was recognised and the end of its value.
\<close>

lemma spans_from_complete:
  assumes "i < length s" and "secret_span s i = Some (p, e)"
  shows "(i, p, e) \<in> set (spans_from s 0)
    \<or> (\<exists>(j, p', e') \<in> set (spans_from s 0). j < i \<and> i < e')"
proof -
  from spans_from_cover [of 0 i s] assms obtain j p' e'
    where m: "(j, p', e') \<in> set (spans_from s 0)" "j \<le> i" "i < e'" by auto
  show ?thesis
  proof (cases "j = i")
    case True
    with m spans_from_recognised [OF m(1)] assms(2) show ?thesis by simp
  next
    case False
    with m show ?thesis by fastforce
  qed
qed

lemma recognised_bounds:
  "(j, p, e) \<in> set (spans_from s 0) \<Longrightarrow>
     secret_span s j = Some (p, e) \<and> j \<le> p \<and> p < e \<and> e \<le> length s"
  using spans_from_recognised secret_span_bounds by blast

text \<open>
  C4. Redaction masks the leftmost secrets: its result is the text with the values of a list of
  spans replaced by the marker and every other byte kept in order; the spans do not overlap and
  stand in the order of the text; each is what the recognisers return at its index; and a secret
  that the recognisers find at an index \<open>i\<close> is one of the masked spans, unless \<open>i\<close> lies strictly
  inside an earlier match, after the index where that one was recognised and before the end of
  its value. A secret in that last position may stay in clear
  (\<open>secrets_inside_a_match_can_stay\<close>).
\<close>

theorem redaction_masks_the_leftmost_secrets:
  "redact_secrets s = mask s 0 (spans_from s 0)
   \<and> sorted_wrt (\<lambda>(j, p, e) (j', p', e'). e \<le> j') (spans_from s 0)
   \<and> (\<forall>(j, p, e) \<in> set (spans_from s 0).
        secret_span s j = Some (p, e) \<and> j \<le> p \<and> p < e \<and> e \<le> length s)
   \<and> (\<forall>i p e. i < length s \<longrightarrow> secret_span s i = Some (p, e) \<longrightarrow>
        (i, p, e) \<in> set (spans_from s 0)
        \<or> (\<exists>(j, p', e') \<in> set (spans_from s 0). j < i \<and> i < e'))"
proof (intro conjI)
  show "redact_secrets s = mask s 0 (spans_from s 0)" by (rule redact_secrets_mask_eq)
  show "sorted_wrt (\<lambda>(j, p, e) (j', p', e'). e \<le> j') (spans_from s 0)"
    by (rule sorted_wrt_mono_rel [OF _ spans_from_apart]) (auto simp: masked_apart_def)
  show "\<forall>(j, p, e) \<in> set (spans_from s 0).
      secret_span s j = Some (p, e) \<and> j \<le> p \<and> p < e \<and> e \<le> length s"
    using recognised_bounds by blast
  show "\<forall>i p e. i < length s \<longrightarrow> secret_span s i = Some (p, e) \<longrightarrow>
      (i, p, e) \<in> set (spans_from s 0)
      \<or> (\<exists>(j, p', e') \<in> set (spans_from s 0). j < i \<and> i < e')"
    using spans_from_complete by blast
qed

theorem redaction_masks_the_leftmost_secrets_witness:
  "redact_secrets ''token=abc'' = ''token=[redacted]''"
proof -
  let ?s = "''token=abc''"
  have "redact_secrets ?s = mask ?s 0 (spans_from ?s 0)"
    using redaction_masks_the_leftmost_secrets [of ?s] by blast
  also have "\<dots> = ''token=[redacted]''" by code_simp
  finally show ?thesis .
qed

text \<open>
  Secrets that are recognised by themselves and stay in clear: an access key that is the quoted
  name of an assignment (the name's last part is a sensitive word, so the value is masked and the
  scan goes on behind it), and a password whose own assignment is the unquoted beginning of the
  value of another one.
\<close>

theorem secrets_inside_a_match_can_stay:
  "secret_span ''\"AKIA0123456789SECRET\":x'' 1 = Some (1, 21)
   \<and> redact_secrets ''\"AKIA0123456789SECRET\":x'' = ''\"AKIA0123456789SECRET\":[redacted]''
   \<and> secret_span ''token=password=\"abc\"'' 6 = Some (16, 19)
   \<and> redact_secrets ''token=password=\"abc\"'' = ''token=[redacted]\"abc\"''"
proof (intro conjI)
  show "secret_span ''\"AKIA0123456789SECRET\":x'' 1 = Some (1, 21)" by code_simp
  show "redact_secrets ''\"AKIA0123456789SECRET\":x'' = ''\"AKIA0123456789SECRET\":[redacted]''"
    by code_simp
  show "secret_span ''token=password=\"abc\"'' 6 = Some (16, 19)" by code_simp
  show "redact_secrets ''token=password=\"abc\"'' = ''token=[redacted]\"abc\"''" by code_simp
qed

text \<open>
  C40. Redacting a well-formed UTF-8 text gives a well-formed UTF-8 text, so the
  \<open>expect("redacting UTF-8 preserves UTF-8")\<close> of the source cannot panic.
\<close>

theorem redaction_preserves_utf8:
  assumes "valid_utf8 s"
  shows "valid_utf8 (redact_secrets s)"
  unfolding redact_secrets_mask_eq using assms by (intro mask_valid) simp_all

theorem redaction_preserves_utf8_witness:
  "valid_utf8 (redact_secrets ''secret: x'')"
  by (rule redaction_preserves_utf8) (rule valid_utf8_ascii, simp add: is_ascii_def byte_of_def)

end
