(* ===== verification/Agent.thy ===== *)
theory Agent
  imports Tools Gateway Redaction Context_Projection
begin

section \<open>The agent loop\<close>

text \<open>
  \<open>fx-core/src/agent.rs\<close>: the loop that projects the transcript, asks the gateway, admits and runs
  the tools the response calls, and records the outcomes. What the loop changes outside its own
  transcript is the \<open>host\<close>: the world, the permission engine it was lent, and the events it emitted
  (in order). \<open>serde_json::from_str\<close> is the parameter \<open>env_parse\<close>; the gateway, the approval handler,
  the tools and the cancellation flag are the injected traits of the source.
\<close>

record agent_options =
  ao_model :: string
  max_steps :: nat
  ao_max_output_tokens :: "nat option"
  history_context_tokens :: nat

definition default_history_tokens :: nat where
  "default_history_tokens = 24000"

definition new_agent_options :: "string \<Rightarrow> agent_options" where
  "new_agent_options model =
     \<lparr>ao_model = model, max_steps = 50, ao_max_output_tokens = None,
      history_context_tokens = default_history_tokens\<rparr>"

record agent_request =
  history :: "chat_message list"
  prompt :: string

datatype agent_stop_reason = Complete | StepLimit | CancelledRun

record agent_result =
  res_messages :: "chat_message list"
  res_output :: string
  res_usage :: usage
  res_steps :: nat
  stop_reason :: agent_stop_reason
  res_ambiguous :: bool

datatype approval_decision = AllowOnce | AllowForSession | DenyApproval

datatype approval_kind = UserApproval | AutomaticApproval

record approval_request =
  ap_kind :: approval_kind
  ap_tool_call_id :: string
  ap_tool_name :: string
  ap_arguments_json :: string
  ap_permission_requests :: "permission_request list"
  ap_irreversible :: bool
  ap_review :: "tool_review option"

type_synonym 'w approvals = "approval_request \<Rightarrow> 'w \<Rightarrow> (string + approval_decision) \<times> 'w"

text \<open>\<open>StaticApprovalHandler\<close>.\<close>

definition static_approval :: "approval_decision \<Rightarrow> 'w approvals" where
  "static_approval d request w = (Inr d, w)"

datatype agent_event =
    GatewayEv gateway_event
  | ToolStarted string string string
  | ToolFinished string string bool tool_output

datatype agent_error =
    GatewayFailed gateway_error
  | ApprovalFailed string
  | ProjectContextFailed string

record 'w host =
  world :: 'w
  permissions :: permission_engine
  events :: "agent_event list"

definition emit :: "'w host \<Rightarrow> agent_event list \<Rightarrow> 'w host" where
  "emit h evs = h\<lparr>events := events h @ evs\<rparr>"

text \<open>The arguments every routine of a tool batch is lent.\<close>

record 'w batch_env =
  env_parse :: "string \<Rightarrow> string + json"
  env_tools :: "'w registry"
  env_context :: "'w tool_context"
  env_approve :: "'w approvals"

definition is_cancelled :: "'w batch_env \<Rightarrow> 'w host \<Rightarrow> bool \<times> 'w host" where
  "is_cancelled env h =
     (case cancellation (env_context env) (world h) of (b, w) \<Rightarrow> (b, h\<lparr>world := w\<rparr>))"

type_synonym outcome = "tool_output \<times> bool"

subsection \<open>Outputs\<close>

definition error_output :: "string \<Rightarrow> tool_output" where
  "error_output c =
     \<lparr>out_content = c, is_error = True, structured = None, original_bytes = length c,
      truncated = False, durable_content = None\<rparr>"

definition newline :: string where
  "newline = [CHR 0x0A]"

definition truncation_marker :: "string \<Rightarrow> nat \<Rightarrow> nat \<Rightarrow> string" where
  "truncation_marker name original max_bytes =
     newline @ ''... [tool result truncated for '' @ name @ '': original '' @ show_nat original
       @ '' bytes; cap is '' @ show_nat max_bytes @ '' bytes]'' @ newline"

definition bounded_inline_output :: "string \<Rightarrow> nat \<Rightarrow> string \<Rightarrow> string \<times> bool" where
  "bounded_inline_output c max_bytes name =
     (if length c \<le> max_bytes then (c, False)
      else let marker = truncation_marker name (length c) max_bytes in
        if max_bytes \<le> length marker then (utf8_prefix marker max_bytes, True)
        else (utf8_prefix c (max_bytes - length marker) @ marker, True))"

definition stored_preview :: "stored_tool_result \<Rightarrow> string \<Rightarrow> string" where
  "stored_preview stored durable =
     ''<tool_result_preview handle='' @ [CHR 0x22] @ stored_handle stored @ [CHR 0x22]
       @ '' stored_bytes='' @ [CHR 0x22] @ show_nat (stored_bytes stored) @ [CHR 0x22] @ ''>'' @ newline
       @ utf8_prefix durable tool_result_preview_bytes @ newline
       @ ''</tool_result_preview>'' @ newline
       @ ''<tool_result_handle>'' @ stored_handle stored @ ''</tool_result_handle>'' @ newline
       @ ''Full result is stored outside session JSON. Use read_tool_result with this handle to inspect a byte range or literal query.''"

definition inline_output :: "'w tool_context \<Rightarrow> tool_call \<Rightarrow> string \<Rightarrow> tool_output \<Rightarrow> tool_output" where
  "inline_output ctx call durable out =
     (case bounded_inline_output durable (max_result_bytes (limits ctx)) (tc_name call) of
        (c, shortened) \<Rightarrow> out\<lparr>out_content := c, truncated := truncated out \<or> shortened,
                        structured := (if shortened then None else structured out)\<rparr>)"

definition finalize_tool_output ::
  "'w tool_context \<Rightarrow> tool_call \<Rightarrow> tool_output \<Rightarrow> 'w \<Rightarrow> tool_output \<times> 'w" where
  "finalize_tool_output ctx call out w =
     (case durable_content out of
        None \<Rightarrow>
          (case redact_cow (out_content out) of
             Some redacted \<Rightarrow> (out\<lparr>out_content := redacted, structured := None\<rparr>, w)
           | None \<Rightarrow> (out, w))
      | Some full \<Rightarrow>
          let out = out\<lparr>durable_content := None, original_bytes := max (original_bytes out) (length full)\<rparr>;
              durable = redact_secrets full in
          if large_tool_result_bytes < length durable then
            (case tool_results ctx of
               None \<Rightarrow> (inline_output ctx call durable out, w)
             | Some store \<Rightarrow>
                 (case rs_store store (tc_id call) (tc_name call) durable w of
                    (Inr stored, w') \<Rightarrow>
                      (out\<lparr>out_content := stored_preview stored durable, structured := None,
                           truncated := True\<rparr>, w')
                  | (Inl e, w') \<Rightarrow>
                      (error_output (''tool result storage failed: '' @ show_store_error e), w')))
          else (inline_output ctx call durable out, w))"

definition sum_optional :: "u64 option \<Rightarrow> u64 option \<Rightarrow> u64 option" where
  "sum_optional l r =
     (case (l, r) of
        (None, None) \<Rightarrow> None
      | _ \<Rightarrow> Some (saturating_add_u64 (case l of Some a \<Rightarrow> a | None \<Rightarrow> 0)
                      (case r of Some b \<Rightarrow> b | None \<Rightarrow> 0)))"

definition accumulate_usage :: "usage \<Rightarrow> usage \<Rightarrow> usage" where
  "accumulate_usage acc next =
     \<lparr>input_tokens = sum_optional (input_tokens acc) (input_tokens next),
      output_tokens = sum_optional (output_tokens acc) (output_tokens next)\<rparr>"

subsection \<open>Admission\<close>

datatype 'w admission =
    Immediate tool_output bool
  | DirectExecution "'w tool" json
  | PreparedExecution "'w prepared_call"

definition cancelled_outcome :: outcome where
  "cancelled_outcome = (error_output (show_tool_error Cancelled), False)"

definition result_outcome :: "tool_error + tool_output \<Rightarrow> outcome" where
  "result_outcome r =
     (case r of Inr out \<Rightarrow> (out, False) | Inl e \<Rightarrow> (error_output (show_tool_error e), False))"

text \<open>\<open>LocalToolAdmission::into_future\<close>: the flag is read when the future is first polled.\<close>

definition guarded_future ::
  "('w \<Rightarrow> bool \<times> 'w) \<Rightarrow> ('w, tool_error + tool_output) future \<Rightarrow> ('w, outcome) future" where
  "guarded_future cancel f =
     Fut (\<lambda>w. case cancel w of
        (True, w') \<Rightarrow> (Inl cancelled_outcome, w')
      | (False, w') \<Rightarrow> poll (map_future result_outcome f) w')"

fun into_future :: "'w tool_context \<Rightarrow> 'w admission \<Rightarrow> ('w, outcome) future" where
  "into_future ctx (Immediate out feedback) = ready (out, feedback)"
| "into_future ctx (DirectExecution t arguments) =
     guarded_future (cancellation ctx) (t_execute t ctx arguments)"
| "into_future ctx (PreparedExecution prepared) =
     guarded_future (cancellation ctx) (pc_commit prepared ctx)"

fun preparation_parts ::
  "'w tool_preparation \<Rightarrow> permission_request list \<times> bool \<times> tool_review option" where
  "preparation_parts (DirectCall requests irreversible) = (requests, irreversible, None)"
| "preparation_parts (PreparedCall p) = (pc_permission_requests p, pc_irreversible p, pc_review p)"

fun admitted :: "'w tool \<Rightarrow> json \<Rightarrow> 'w tool_preparation \<Rightarrow> 'w admission" where
  "admitted t arguments (DirectCall _ _) = DirectExecution t arguments"
| "admitted t arguments (PreparedCall p) = PreparedExecution p"

definition needs_review :: "permission_decision \<Rightarrow> bool" where
  "needs_review d \<longleftrightarrow> d = Ask \<or> d = AutoReview"

text \<open>The grants of \<open>AllowForSession\<close>: the requests whose decision asked.\<close>

definition asked_requests ::
  "permission_request list \<Rightarrow> permission_decision list \<Rightarrow> permission_request list" where
  "asked_requests requests decisions =
     map fst (filter (\<lambda>(r, d). needs_review d) (zip requests decisions))"

definition denial_reason :: "approval_kind \<Rightarrow> string" where
  "denial_reason k =
     (case k of UserApproval \<Rightarrow> ''tool permission denied by user''
      | AutomaticApproval \<Rightarrow> ''tool permission denied by automatic safety review'')"

text \<open>The end of \<open>admit_local_tool\<close>: one more look at the flag, then the admission.\<close>

definition admit_unless_cancelled ::
  "'w batch_env \<Rightarrow> 'w tool \<Rightarrow> json \<Rightarrow> 'w tool_preparation \<Rightarrow> 'w host \<Rightarrow>
     (agent_error + 'w admission) \<times> 'w host" where
  "admit_unless_cancelled env t arguments preparation h =
     (case is_cancelled env h of
        (True, h') \<Rightarrow> (Inr (Immediate (fst cancelled_outcome) False), h')
      | (False, h') \<Rightarrow> (Inr (admitted t arguments preparation), h'))"

definition admit_local_tool ::
  "'w batch_env \<Rightarrow> tool_call \<Rightarrow> 'w host \<Rightarrow> (agent_error + 'w admission) \<times> 'w host" where
  "admit_local_tool env call h =
     (case validate_call (env_parse env) (env_tools env) call of
        Inl e \<Rightarrow> (Inr (Immediate (error_output (show_tool_error e)) False), h)
      | Inr (t, arguments) \<Rightarrow>
         (case t_prepare t (env_context env) arguments (world h) of
            (Inl e, w) \<Rightarrow>
              (Inr (Immediate (error_output (show_tool_error e)) False), h\<lparr>world := w\<rparr>)
          | (Inr preparation, w) \<Rightarrow>
              (case preparation_parts preparation of
                 (requests, irreversible, review) \<Rightarrow>
                 let h = h\<lparr>world := w\<rparr>;
                     decisions = map (decide (permissions h)) requests in
                 if Deny \<in> set decisions then
                   (Inr (Immediate (error_output ''tool permission denied'') True), h)
                 else if Ask \<in> set decisions \<or> AutoReview \<in> set decisions then
                   let kind = (if Ask \<in> set decisions then UserApproval else AutomaticApproval);
                       request = \<lparr>ap_kind = kind, ap_tool_call_id = tc_id call,
                          ap_tool_name = t_name t, ap_arguments_json = arguments_json call,
                          ap_permission_requests = requests, ap_irreversible = irreversible,
                          ap_review = review\<rparr> in
                   (case env_approve env request (world h) of
                      (Inl e, w') \<Rightarrow> (Inl (ApprovalFailed e), h\<lparr>world := w'\<rparr>)
                    | (Inr AllowOnce, w') \<Rightarrow>
                        admit_unless_cancelled env t arguments preparation (h\<lparr>world := w'\<rparr>)
                    | (Inr AllowForSession, w') \<Rightarrow>
                        admit_unless_cancelled env t arguments preparation
                          (h\<lparr>world := w', permissions :=
                             foldl grant_request_for_session (permissions h)
                               (asked_requests requests decisions)\<rparr>)
                    | (Inr DenyApproval, w') \<Rightarrow>
                        (Inr (Immediate (error_output (denial_reason kind)) True), h\<lparr>world := w'\<rparr>))
                 else admit_unless_cancelled env t arguments preparation h)))"

definition await_host :: "('w, 'a) future \<Rightarrow> 'w host \<Rightarrow> 'a \<times> 'w host" where
  "await_host f h = (case await f (world h) of (a, w) \<Rightarrow> (a, h\<lparr>world := w\<rparr>))"

definition provider_output :: "string \<Rightarrow> tool_output" where
  "provider_output c =
     \<lparr>out_content = c, is_error = False, structured = None, original_bytes = length c,
      truncated = False, durable_content = None\<rparr>"

definition execute_one_tool ::
  "'w batch_env \<Rightarrow> tool_call \<Rightarrow> 'w host \<Rightarrow> (agent_error + outcome) \<times> 'w host" where
  "execute_one_tool env call h =
     (if provenance call = Provider then
        (Inr (provider_output (case provider_result call of
            Some c \<Rightarrow> c | None \<Rightarrow> ''provider-executed tool returned no result''), False), h)
      else if argument_integrity call = MalformedJson then
        (Inr (error_output ''tool arguments were malformed JSON'', False), h)
      else case admit_local_tool env call h of
          (Inl e, h') \<Rightarrow> (Inl e, h')
        | (Inr admission, h') \<Rightarrow>
            (case await_host (into_future (env_context env) admission) h' of
               (out, h'') \<Rightarrow> (Inr out, h'')))"

subsection \<open>A batch of tool calls\<close>

definition emit_tool_started :: "'w host \<Rightarrow> tool_call \<Rightarrow> 'w host" where
  "emit_tool_started h call = emit h [ToolStarted (tc_id call) (tc_name call) (arguments_json call)]"

definition emit_tool_finished :: "'w host \<Rightarrow> tool_call \<Rightarrow> tool_output \<Rightarrow> 'w host" where
  "emit_tool_finished h call out =
     emit h [ToolFinished (tc_id call) (tc_name call) (is_error out) out]"

definition local_call :: "tool_call \<Rightarrow> bool" where
  "local_call call \<longleftrightarrow> provenance call = FxLocal \<and> argument_integrity call \<noteq> MalformedJson"

definition is_local_read :: "'w batch_env \<Rightarrow> tool_call \<Rightarrow> bool" where
  "is_local_read env call \<longleftrightarrow> local_call call
     \<and> (case validate_call (env_parse env) (env_tools env) call of
          Inl _ \<Rightarrow> False
        | Inr (t, arguments) \<Rightarrow> t_effect t arguments = Inr Read)"

definition parallel_read_prefix_len :: "'w batch_env \<Rightarrow> tool_call list \<Rightarrow> nat" where
  "parallel_read_prefix_len env calls = length (takeWhile (is_local_read env) calls)"

text \<open>The admissions of a parallel batch: one after the other, before anything runs.\<close>

fun admit_all ::
  "'w batch_env \<Rightarrow> tool_call list \<Rightarrow> 'w host \<Rightarrow> (agent_error + ('w, outcome) future list) \<times> 'w host"
  where
  "admit_all env [] h = (Inr [], h)"
| "admit_all env (call # calls) h =
     (case admit_local_tool env call h of
        (Inl e, h') \<Rightarrow> (Inl e, h')
      | (Inr admission, h') \<Rightarrow>
          (case admit_all env calls h' of
             (Inl e, h'') \<Rightarrow> (Inl e, h'')
           | (Inr fs, h'') \<Rightarrow> (Inr (into_future (env_context env) admission # fs), h'')))"

definition finish_call :: "'w batch_env \<Rightarrow> tool_call \<Rightarrow> outcome \<Rightarrow> 'w host \<Rightarrow> outcome \<times> 'w host" where
  "finish_call env call out h =
     (case finalize_tool_output (env_context env) call (fst out) (world h) of
        (final, w) \<Rightarrow> ((final, snd out), emit_tool_finished (h\<lparr>world := w\<rparr>) call final))"

fun finish_all ::
  "'w batch_env \<Rightarrow> tool_call list \<Rightarrow> outcome list \<Rightarrow> 'w host \<Rightarrow> outcome list \<times> 'w host" where
  "finish_all env (call # calls) (out # outs) h =
     (case finish_call env call out h of
        (final, h') \<Rightarrow>
          (case finish_all env calls outs h' of (finals, h'') \<Rightarrow> (final # finals, h'')))"
| "finish_all env calls outs h = (outs, h)"

definition run_parallel ::
  "'w batch_env \<Rightarrow> tool_call list \<Rightarrow> 'w host \<Rightarrow> (agent_error + outcome list) \<times> 'w host" where
  "run_parallel env batch h =
     (case admit_all env batch (foldl emit_tool_started h batch) of
        (Inl e, h') \<Rightarrow> (Inl e, h')
      | (Inr fs, h') \<Rightarrow>
          (case join_ordered fs (world h') of
             (outs, w) \<Rightarrow>
               (case finish_all env batch outs (h'\<lparr>world := w\<rparr>) of
                  (finals, h'') \<Rightarrow> (Inr finals, h''))))"

definition run_single ::
  "'w batch_env \<Rightarrow> tool_call \<Rightarrow> 'w host \<Rightarrow> (agent_error + outcome) \<times> 'w host" where
  "run_single env call h =
     (case execute_one_tool env call (emit_tool_started h call) of
        (Inl e, h') \<Rightarrow> (Inl e, h')
      | (Inr out, h') \<Rightarrow> (case finish_call env call out h' of (final, h'') \<Rightarrow> (Inr final, h'')))"

definition deferred_output :: tool_output where
  "deferred_output = error_output
     ''tool execution deferred because new scoped project instructions were loaded; review the new rules and retry the action''"

definition deferred_at :: "bool list \<Rightarrow> nat \<Rightarrow> bool" where
  "deferred_at deferred i = (if i < length deferred then deferred ! i else False)"

definition prepend :: "outcome list \<Rightarrow> (agent_error + outcome list) \<times> 'w host \<Rightarrow> (agent_error + outcome list) \<times> 'w host"
  where "prepend outs r = (map_sum id ((@) outs) (fst r), snd r)"

text \<open>
  The loop of \<open>execute_tool_batch\<close> from \<open>index\<close> on: \<open>calls\<close> is \<open>calls[index..]\<close> and \<open>deferred\<close> the
  flags from there.
\<close>

function execute_tool_batch ::
  "'w batch_env \<Rightarrow> tool_call list \<Rightarrow> bool list \<Rightarrow> 'w host \<Rightarrow>
     (agent_error + outcome list) \<times> 'w host" where
  "execute_tool_batch env [] deferred h = (Inr [], h)"
| "execute_tool_batch env (call # calls) deferred h =
     (case is_cancelled env h of
        (True, h0) \<Rightarrow> (Inr (map (\<lambda>_. cancelled_outcome) (call # calls)), h0)
      | (False, h0) \<Rightarrow>
         if deferred_at deferred 0 then
           prepend [(deferred_output, False)]
             (execute_tool_batch env calls (drop 1 deferred)
                (emit_tool_finished (emit_tool_started h0 call) call deferred_output))
         else
           let n = parallel_read_prefix_len env (call # calls) in
           if 2 \<le> n then
             (case run_parallel env (take n (call # calls)) h0 of
                (Inl e, h1) \<Rightarrow> (Inl e, h1)
              | (Inr outs, h1) \<Rightarrow>
                  prepend outs
                    (execute_tool_batch env (drop n (call # calls)) (drop n deferred) h1))
           else
             (case run_single env call h0 of
                (Inl e, h1) \<Rightarrow> (Inl e, h1)
              | (Inr out, h1) \<Rightarrow>
                  prepend [out] (execute_tool_batch env calls (drop 1 deferred) h1)))"
  by pat_completeness auto
termination
  by (relation "measure (\<lambda>(env, calls, deferred, h). length calls)") auto

declare execute_tool_batch.simps(2) [simp del]

subsection \<open>Scoped project instructions\<close>

text \<open>
  The scan over the calls: the targets of every local call that names some, and the positions of
  those whose effect is not a read. \<open>targets\<close> is the \<open>BTreeSet\<close>.
\<close>

fun scan_targets ::
  "'w batch_env \<Rightarrow> nat \<Rightarrow> tool_call list \<Rightarrow> string list \<times> nat list \<Rightarrow> 'w \<Rightarrow>
     (string list \<times> nat list) \<times> 'w" where
  "scan_targets env index [] acc w = (acc, w)"
| "scan_targets env index (call # calls) (targets, sensitive) w =
     (if \<not> local_call call then scan_targets env (index + 1) calls (targets, sensitive) w
      else case validate_call (env_parse env) (env_tools env) call of
          Inl _ \<Rightarrow> scan_targets env (index + 1) calls (targets, sensitive) w
        | Inr (t, arguments) \<Rightarrow>
           (case t_project_context_targets t (env_context env) arguments w of
              (Inl _, w') \<Rightarrow> scan_targets env (index + 1) calls (targets, sensitive) w'
            | (Inr ts, w') \<Rightarrow>
                if ts = [] then scan_targets env (index + 1) calls (targets, sensitive) w'
                else scan_targets env (index + 1) calls
                       (path_extend targets ts,
                        if t_effect t arguments = Inr Read then sensitive else sensitive @ [index]) w'))"

definition set_flags :: "bool list \<Rightarrow> nat list \<Rightarrow> bool list" where
  "set_flags flags is = foldl (\<lambda>fs i. fs[i := True]) flags is"

definition select_scoped_project_context ::
  "'w batch_env \<Rightarrow> tool_call list \<Rightarrow> 'w \<Rightarrow> (agent_error + (string option \<times> bool list)) \<times> 'w" where
  "select_scoped_project_context env calls w =
     (let deferred = replicate (length calls) False in
      case project_context (env_context env) of
        None \<Rightarrow> (Inr (None, deferred), w)
      | Some select \<Rightarrow>
         (case scan_targets env 0 calls ([], []) w of
            ((targets, sensitive), w') \<Rightarrow>
              if targets = [] then (Inr (None, deferred), w')
              else case select targets w' of
                  (Inl e, w'') \<Rightarrow> (Inl (ProjectContextFailed e), w'')
                | (Inr None, w'') \<Rightarrow> (Inr (None, deferred), w'')
                | (Inr (Some delta), w'') \<Rightarrow>
                    (Inr (Some delta, set_flags deferred sensitive), w'')))"

definition insert_stable_system_context :: "chat_message list \<Rightarrow> string \<Rightarrow> chat_message list" where
  "insert_stable_system_context ms c =
     (let prefix_end = length (takeWhile (\<lambda>m. role m = System) ms) in
      take prefix_end ms @ [chat_text System c] @ drop prefix_end ms)"

subsection \<open>The loop\<close>

record 'w agent =
  ag_gateway :: "'w gateway"
  ag_tools :: "'w registry"
  ag_options :: agent_options
  ag_projector :: "chat_message list \<Rightarrow> nat \<Rightarrow> context_projection"

text \<open>\<open>Agent::new\<close> with its \<open>DeterministicContextProjector\<close>, and \<open>with_context_projector\<close>.\<close>

definition new_agent :: "'w gateway \<Rightarrow> 'w registry \<Rightarrow> agent_options \<Rightarrow> 'w agent" where
  "new_agent g tools opts =
     \<lparr>ag_gateway = g, ag_tools = tools, ag_options = opts, ag_projector = project\<rparr>"

definition with_context_projector ::
  "'w agent \<Rightarrow> (chat_message list \<Rightarrow> nat \<Rightarrow> context_projection) \<Rightarrow> 'w agent" where
  "with_context_projector ag p = ag\<lparr>ag_projector := p\<rparr>"

record 'w loop_state =
  ls_messages :: "chat_message list"
  ls_usage :: usage
  ls_output :: string
  ls_ambiguous :: bool
  ls_step :: nat
  ls_host :: "'w host"

definition run_result :: "agent_stop_reason \<Rightarrow> 'w loop_state \<Rightarrow> agent_result" where
  "run_result reason st =
     \<lparr>res_messages = ls_messages st, res_output = ls_output st, res_usage = ls_usage st,
      res_steps = ls_step st, stop_reason = reason, res_ambiguous = ls_ambiguous st\<rparr>"

datatype 'w iteration =
    Finished "agent_error + agent_result" "'w host"
  | Continue "'w loop_state"

definition assistant_message :: "gateway_response \<Rightarrow> chat_message" where
  "assistant_message response =
     \<lparr>role = Assistant, content = resp_content response, tool_call_id = None, tool_name = None,
      tool_calls = resp_tool_calls response, permission_feedback = False,
      cache_policy = DefaultCache\<rparr>"

definition tool_message :: "tool_call \<Rightarrow> outcome \<Rightarrow> chat_message" where
  "tool_message call out =
     \<lparr>role = Tool, content = Some (out_content (fst out)), tool_call_id = Some (tc_id call),
      tool_name = Some (tc_name call), tool_calls = [], permission_feedback = snd out,
      cache_policy = DefaultCache\<rparr>"

definition record_response :: "'w loop_state \<Rightarrow> gateway_response \<Rightarrow> 'w loop_state" where
  "record_response st response =
     st\<lparr>ls_usage := accumulate_usage (ls_usage st) (resp_usage response),
        ls_ambiguous := ls_ambiguous st \<or> resp_delivery_ambiguous response,
        ls_output := ls_output st @ (case resp_content response of Some c \<Rightarrow> c | None \<Rightarrow> []),
        ls_messages := ls_messages st @ [assistant_message response]\<rparr>"

text \<open>The part of an iteration after \<open>response.tool_calls.is_empty()\<close>.\<close>

definition tool_phase :: "'w batch_env \<Rightarrow> tool_call list \<Rightarrow> 'w loop_state \<Rightarrow> 'w iteration" where
  "tool_phase env calls st =
     (let h = ls_host st in
      case select_scoped_project_context env calls (world h) of
        (Inl e, w) \<Rightarrow> Finished (Inl e) (h\<lparr>world := w\<rparr>)
      | (Inr (delta, deferred), w) \<Rightarrow>
          let messages = (case delta of
                Some d \<Rightarrow> insert_stable_system_context (ls_messages st) d
              | None \<Rightarrow> ls_messages st) in
          (case execute_tool_batch env calls deferred (h\<lparr>world := w\<rparr>) of
             (Inl e, h') \<Rightarrow> Finished (Inl e) h'
           | (Inr outs, h') \<Rightarrow>
               Continue (st\<lparr>ls_messages := messages @ map2 tool_message calls outs,
                            ls_host := h'\<rparr>)))"

definition after_response ::
  "'w batch_env \<Rightarrow> gateway_response \<Rightarrow> 'w loop_state \<Rightarrow> 'w iteration" where
  "after_response env response st =
     (let st = record_response st response in
      case is_cancelled env (ls_host st) of
        (True, h) \<Rightarrow> Finished (Inr (run_result CancelledRun st)) h
      | (False, h) \<Rightarrow>
          if resp_tool_calls response = [] then Finished (Inr (run_result Complete st)) h
          else tool_phase env (resp_tool_calls response) (st\<lparr>ls_host := h\<rparr>))"

definition gateway_request_of :: "'w agent \<Rightarrow> chat_message list \<Rightarrow> gateway_request" where
  "gateway_request_of ag ms =
     \<lparr>gw_model = ao_model (ag_options ag),
      gw_messages = messages (ag_projector ag ms (history_context_tokens (ag_options ag))),
      gw_tools = advertisements (ag_tools ag), gw_tool_choice = AutoChoice,
      gw_max_output_tokens = ao_max_output_tokens (ag_options ag)\<rparr>"

text \<open>
  One pass through the body of the \<open>while\<close> of \<open>run_controlled\<close>.
\<close>

definition iteration :: "'w agent \<Rightarrow> 'w batch_env \<Rightarrow> 'w loop_state \<Rightarrow> 'w iteration" where
  "iteration ag env st =
     (case is_cancelled env (ls_host st) of
        (True, h) \<Rightarrow> Finished (Inr (run_result CancelledRun st)) h
      | (False, h) \<Rightarrow>
          let st = st\<lparr>ls_step := ls_step st + 1\<rparr> in
          (case ag_gateway ag (gateway_request_of ag (ls_messages st)) (world h) of
             (result, evs, w) \<Rightarrow>
               let h = emit (h\<lparr>world := w\<rparr>) (map GatewayEv evs) in
               (case result of
                  Inl e \<Rightarrow>
                    if e = GwCancelled then
                      (case is_cancelled env h of
                         (True, h') \<Rightarrow> Finished (Inr (run_result CancelledRun st)) h'
                       | (False, h') \<Rightarrow> Finished (Inl (GatewayFailed e)) h')
                    else Finished (Inl (GatewayFailed e)) h
                | Inr response \<Rightarrow> after_response env response (st\<lparr>ls_host := h\<rparr>))))"

text \<open>\<open>max_steps = 0\<close> is no limit, so the loop is a partial function: no value is a run that never ends.\<close>

partial_function (option) agent_loop ::
  "'w agent \<Rightarrow> 'w batch_env \<Rightarrow> 'w loop_state \<Rightarrow> ((agent_error + agent_result) \<times> 'w host) option"
  where
  "agent_loop ag env st =
     (if max_steps (ag_options ag) = 0 \<or> ls_step st < max_steps (ag_options ag) then
        (case iteration ag env st of
           Finished r h \<Rightarrow> Some (r, h)
         | Continue st' \<Rightarrow> agent_loop ag env st')
      else Some (Inr (run_result StepLimit st), ls_host st))"

definition start_state :: "agent_request \<Rightarrow> 'w host \<Rightarrow> 'w loop_state" where
  "start_state request h =
     \<lparr>ls_messages = history request @ [chat_text User (prompt request)], ls_usage = usage_default,
      ls_output = [], ls_ambiguous = False, ls_step = 0, ls_host = h\<rparr>"

definition invocation_env ::
  "(string \<Rightarrow> string + json) \<Rightarrow> 'w agent \<Rightarrow> 'w tool_context \<Rightarrow> 'w approvals \<Rightarrow>
     ('w \<Rightarrow> bool \<times> 'w) \<Rightarrow> 'w batch_env" where
  "invocation_env parse ag ctx approve cancel =
     \<lparr>env_parse = parse, env_tools = ag_tools ag, env_context = ctx\<lparr>cancellation := cancel\<rparr>,
      env_approve = approve\<rparr>"

definition run_controlled ::
  "(string \<Rightarrow> string + json) \<Rightarrow> 'w agent \<Rightarrow> agent_request \<Rightarrow> 'w tool_context \<Rightarrow> 'w approvals \<Rightarrow>
     ('w \<Rightarrow> bool \<times> 'w) \<Rightarrow> 'w host \<Rightarrow> ((agent_error + agent_result) \<times> 'w host) option" where
  "run_controlled parse ag request ctx approve cancel h =
     agent_loop ag (invocation_env parse ag ctx approve cancel) (start_state request h)"

definition run_agent ::
  "(string \<Rightarrow> string + json) \<Rightarrow> 'w agent \<Rightarrow> agent_request \<Rightarrow> 'w tool_context \<Rightarrow> 'w approvals \<Rightarrow>
     'w host \<Rightarrow> ((agent_error + agent_result) \<times> 'w host) option" where
  "run_agent parse ag request ctx approve h =
     run_controlled parse ag request ctx approve never_cancelled h"

end
