(* ===== verification/Agent_Admission.thy ===== *)
theory Agent_Admission
  imports Agent
begin

section \<open>What the agent admits, and what it shows\<close>

text \<open>
  Facts about \<open>admit_local_tool\<close> (\<open>fx-core/src/agent.rs\<close>): nothing runs that the policy denies, and
  what the policy asks about runs only on the reviewer's word; a session approval is remembered.
  Then the outputs: their bound, their encoding, and that what is stored or shown of a durable
  result depends on it only through its redaction.
\<close>

subsection \<open>Admission\<close>

fun executes :: "'w admission \<Rightarrow> bool" where
  "executes (Immediate _ _) = False"
| "executes _ = True"

lemma executes_admitted [simp]: "executes (admitted t arguments preparation)"
  by (cases preparation) simp_all

lemma admit_unless_cancelled_parts:
  "admit_unless_cancelled env t arguments preparation h = (Inr a, h') \<Longrightarrow>
     permissions h' = permissions h \<and> events h' = events h
     \<and> (a = admitted t arguments preparation \<or> a = Immediate (fst cancelled_outcome) False)"
  by (auto simp: admit_unless_cancelled_def is_cancelled_def split: prod.splits bool.splits)

lemma admit_unless_cancelled_Inr: "\<exists>a. fst (admit_unless_cancelled env t arguments p h) = Inr a"
  by (auto simp: admit_unless_cancelled_def split: prod.splits bool.splits)

lemma admit_unless_cancelled_events:
  "events (snd (admit_unless_cancelled env t arguments p h)) = events h"
  by (auto simp: admit_unless_cancelled_def is_cancelled_def split: prod.splits bool.splits)

lemma admit_local_tool_events: "events (snd (admit_local_tool env call h)) = events h"
  unfolding admit_local_tool_def Let_def
  by (auto simp: admit_unless_cancelled_events split: sum.splits prod.splits approval_decision.splits)

text \<open>The requests, decisions and review of a call that validates and prepares.\<close>

definition review_of ::
  "tool_call \<Rightarrow> 'w tool \<Rightarrow> 'w tool_preparation \<Rightarrow> permission_decision list \<Rightarrow> approval_request" where
  "review_of call t preparation decisions =
     (case preparation_parts preparation of (requests, irreversible, review) \<Rightarrow>
        \<lparr>ap_kind = (if Ask \<in> set decisions then UserApproval else AutomaticApproval),
         ap_tool_call_id = tc_id call, ap_tool_name = t_name t,
         ap_arguments_json = arguments_json call, ap_permission_requests = requests,
         ap_irreversible = irreversible, ap_review = review\<rparr>)"

definition session_grant ::
  "permission_engine \<Rightarrow> permission_request list \<Rightarrow> permission_engine" where
  "session_grant e requests =
     foldl grant_request_for_session e (asked_requests requests (map (decide e) requests))"

lemma asked_requests_map: "asked_requests requests (map f requests) = filter (\<lambda>r. needs_review (f r)) requests"
  by (induction requests) (simp_all add: asked_requests_def)

lemma not_denied_cases: "d \<noteq> Deny \<Longrightarrow> \<not> needs_review d \<Longrightarrow> d = Allow"
  by (cases d) (simp_all add: needs_review_def)

lemma session_grant_settles:
  assumes "r \<in> set requests" and "list_all (\<lambda>r. decide e r \<noteq> Deny) requests"
  shows "decide (session_grant e requests) r = Allow"
proof (cases "needs_review (decide e r)")
  case True
  with assms show ?thesis
    unfolding session_grant_def asked_requests_map
    by (intro engine.give_all_settles [unfolded engine.give_all_def]) (auto simp: list_all_iff)
next
  case False
  with assms have "decide e r = Allow" by (auto simp: list_all_iff intro: not_denied_cases)
  then show ?thesis
    unfolding session_grant_def by (rule engine.give_all_allow [unfolded engine.give_all_def])
qed

text \<open>\<open>admit_local_tool\<close> after validation and preparation, by the decisions.\<close>

lemma admit_local_tool_prepared:
  assumes "validate_call (env_parse env) (env_tools env) call = Inr (t, arguments)"
    and "t_prepare t (env_context env) arguments (world h) = (Inr preparation, w)"
  defines "requests \<equiv> fst (preparation_parts preparation)"
    and "h1 \<equiv> h\<lparr>world := w\<rparr>"
  defines "decisions \<equiv> map (decide (permissions h)) requests"
  shows "admit_local_tool env call h =
    (if Deny \<in> set decisions then (Inr (Immediate (error_output ''tool permission denied'') True), h1)
     else if list_all (\<lambda>d. d = Allow) decisions then admit_unless_cancelled env t arguments preparation h1
     else case env_approve env (review_of call t preparation decisions) w of
         (Inl e, w') \<Rightarrow> (Inl (ApprovalFailed e), h\<lparr>world := w'\<rparr>)
       | (Inr AllowOnce, w') \<Rightarrow> admit_unless_cancelled env t arguments preparation (h\<lparr>world := w'\<rparr>)
       | (Inr AllowForSession, w') \<Rightarrow> admit_unless_cancelled env t arguments preparation
           (h\<lparr>world := w', permissions := session_grant (permissions h) requests\<rparr>)
       | (Inr DenyApproval, w') \<Rightarrow>
           (Inr (Immediate (error_output (denial_reason
              (if Ask \<in> set decisions then UserApproval else AutomaticApproval))) True), h\<lparr>world := w'\<rparr>))"
proof -
  have "list_all (\<lambda>d. d = Allow) decisions \<longleftrightarrow> \<not> (Ask \<in> set decisions \<or> AutoReview \<in> set decisions)"
    if "Deny \<notin> set decisions"
    using that by (auto simp: list_all_iff) (metis permission_decision.exhaust)
  then show ?thesis
    using assms(1,2)
    by (auto simp: admit_local_tool_def Let_def review_of_def session_grant_def requests_def
        h1_def decisions_def split: prod.splits sum.splits approval_decision.splits)
qed

lemma admit_local_tool_executes:
  assumes "admit_local_tool env call h = (Inr a, h')" and "executes a"
  obtains t arguments preparation w where
    "validate_call (env_parse env) (env_tools env) call = Inr (t, arguments)"
    "t_prepare t (env_context env) arguments (world h) = (Inr preparation, w)"
proof (cases "validate_call (env_parse env) (env_tools env) call")
  case (Inl e)
  with assms show ?thesis by (auto simp: admit_local_tool_def)
next
  case (Inr v)
  obtain t arguments where v: "v = (t, arguments)" by (cases v)
  obtain r w where prep: "t_prepare t (env_context env) arguments (world h) = (r, w)"
    by (cases "t_prepare t (env_context env) arguments (world h)")
  show ?thesis
  proof (cases r)
    case (Inl e)
    with assms Inr v prep show ?thesis by (auto simp: admit_local_tool_def)
  next
    case (Inr p)
    with \<open>validate_call _ _ _ = Inr v\<close> v prep that show ?thesis by simp
  qed
qed

text \<open>
  C1. If a call is admitted for execution, it names a registered tool with an object of arguments,
  the policy denies none of the requests it was prepared with, and either the policy allows them
  all and is left as it was, or the reviewer was shown exactly those requests and said yes. A yes
  for the session leaves a policy that allows every one of them.
\<close>

theorem nothing_runs_unreviewed:
  assumes "admit_local_tool env call h = (Inr a, h')" and "executes a"
  shows "\<exists>t arguments preparation w.
     validate_call (env_parse env) (env_tools env) call = Inr (t, arguments)
   \<and> t_prepare t (env_context env) arguments (world h) = (Inr preparation, w)
   \<and> a = admitted t arguments preparation
   \<and> (let requests = fst (preparation_parts preparation);
          decisions = map (decide (permissions h)) requests in
      Deny \<notin> set decisions
      \<and> (if list_all (\<lambda>d. d = Allow) decisions then permissions h' = permissions h
         else \<exists>w'.
             env_approve env (review_of call t preparation decisions) w = (Inr AllowOnce, w')
               \<and> permissions h' = permissions h
           \<or> env_approve env (review_of call t preparation decisions) w = (Inr AllowForSession, w')
               \<and> list_all (\<lambda>r. decide (permissions h') r = Allow) requests))"
proof -
  from admit_local_tool_executes [OF assms] obtain t arguments preparation w where
    v: "validate_call (env_parse env) (env_tools env) call = Inr (t, arguments)" and
    p: "t_prepare t (env_context env) arguments (world h) = (Inr preparation, w)" .
  let ?requests = "fst (preparation_parts preparation)"
  let ?decisions = "map (decide (permissions h)) ?requests"
  note eq = admit_local_tool_prepared [OF v p]
  have deny: "Deny \<notin> set ?decisions"
  proof
    assume "Deny \<in> set ?decisions"
    with eq assms show False by (simp add: executes.simps)
  qed
  show ?thesis
  proof (cases "list_all (\<lambda>d. d = Allow) ?decisions")
    case True
    with eq deny assms(1)
    have "admit_unless_cancelled env t arguments preparation (h\<lparr>world := w\<rparr>) = (Inr a, h')" by simp
    from admit_unless_cancelled_parts [OF this] assms(2) v p deny True show ?thesis
      by (auto simp: Let_def)
  next
    case False
    obtain r w' where r: "env_approve env (review_of call t preparation ?decisions) w = (r, w')"
      by (cases "env_approve env (review_of call t preparation ?decisions) w")
    from eq deny False assms r obtain h2 where
      h2: "admit_unless_cancelled env t arguments preparation h2 = (Inr a, h')" and
      which: "r = Inr AllowOnce \<and> permissions h2 = permissions h
        \<or> r = Inr AllowForSession \<and> permissions h2 = session_grant (permissions h) ?requests"
      by (auto split: sum.splits approval_decision.splits)
    from deny have "list_all (\<lambda>r. decide (permissions h) r \<noteq> Deny) ?requests"
      by (auto simp: list_all_iff image_iff)
    then have "list_all (\<lambda>q. decide (session_grant (permissions h) ?requests) q = Allow) ?requests"
      by (auto simp: list_all_iff intro: session_grant_settles)
    with admit_unless_cancelled_parts [OF h2] which assms(2) v p deny False r show ?thesis
      by (auto simp: Let_def)
  qed
qed

text \<open>A small host: its world counts what was written.\<close>

definition note_tool :: "nat tool" where
  "note_tool =
     \<lparr>t_name = ''note'', t_description = [], t_input_schema = JObject [],
      t_effect = (\<lambda>_. Inr Write), t_project_context_targets = default_targets,
      t_prepare = default_prepare (default_permission_requests ''note'' (\<lambda>_. Inr Write)) default_irreversible,
      t_execute = (\<lambda>_ _. Fut (\<lambda>w. (Inl (Inr (provider_output ''ok'')), w + 1)))\<rparr>"

definition note_env :: "approval_decision \<Rightarrow> nat batch_env" where
  "note_env d =
     \<lparr>env_parse = (\<lambda>_. Inr (JObject [])),
      env_tools = \<lparr>reg_tools = [''note'' \<mapsto> note_tool], reg_order = [''note'']\<rparr>,
      env_context = new_tool_context ''/w'', env_approve = static_approval d\<rparr>"

definition note_call :: tool_call where
  "note_call =
     \<lparr>tc_id = ''1'', tc_name = ''note'', arguments_json = ''{}'', argument_integrity = Valid,
      provisional_id = None, provider_result = None, provenance = FxLocal\<rparr>"

definition note_host :: "nat host" where
  "note_host = \<lparr>world = 0, permissions = new_engine AskMode [], events = []\<rparr>"

definition note_request :: permission_request where
  "note_request = new_permission_request ''note'' ''/w'' Write"

lemma note_validates:
  "validate_call (env_parse (note_env d)) (env_tools (note_env d)) note_call = Inr (note_tool, JObject [])"
  by (simp add: validate_call_def note_env_def note_call_def get_tool_def is_object_def)

lemma note_prepares:
  "t_prepare note_tool (env_context (note_env d)) args w = (Inr (DirectCall [note_request] False), w)"
  by (simp add: note_tool_def default_prepare_def default_permission_requests_def note_env_def
      default_irreversible_def new_tool_context_def note_request_def)

lemma note_decides: "decide (permissions note_host) note_request = Ask"
  by (simp add: note_host_def note_request_def decide_meets_spec_eq new_engine_def last_rule_def
      granted_def new_permission_request_def)

lemma note_approves [simp]: "env_approve (note_env d) r w = (Inr d, w)"
  by (simp add: note_env_def static_approval_def)

lemma note_not_cancelled [simp]: "is_cancelled (note_env d) h = (False, h)"
  by (simp add: is_cancelled_def note_env_def new_tool_context_def never_cancelled_def)

lemma note_admitted:
  "admit_local_tool (note_env AllowForSession) note_call note_host =
     (Inr (DirectExecution note_tool (JObject [])),
      note_host\<lparr>permissions := session_grant (permissions note_host) [note_request]\<rparr>)"
  using admit_local_tool_prepared [OF note_validates [of AllowForSession] note_prepares, of note_host]
  by (simp add: note_decides admit_unless_cancelled_def)

theorem nothing_runs_unreviewed_witness:
  "decide (session_grant (permissions note_host) [note_request]) note_request = Allow"
  using nothing_runs_unreviewed [OF note_admitted] note_validates [of AllowForSession]
    note_prepares [of AllowForSession "JObject []" "world note_host"]
  by (auto simp: Let_def note_decides)

text \<open>
  A yes for the session is remembered: when a call was admitted on \<open>AllowForSession\<close>, a later
  call that prepares to requests among the same ones is admitted without any reviewer: the result is
  the same whatever the approval handler would say, and it is an execution unless the run was
  cancelled.
\<close>

theorem session_approval_is_remembered:
  assumes "validate_call (env_parse env) (env_tools env) call = Inr (t, arguments)"
    and "t_prepare t (env_context env) arguments (world h) = (Inr preparation, w)"
    and "list_all (\<lambda>r. decide (permissions h) r \<noteq> Deny) (fst (preparation_parts preparation))"
    and "validate_call (env_parse env) (env_tools env) later = Inr (t', arguments')"
    and "t_prepare t' (env_context env) arguments' (world h2) = (Inr preparation', w2)"
    and "set (fst (preparation_parts preparation')) \<subseteq> set (fst (preparation_parts preparation))"
    and "permissions h2 =
      foldl grant_request_for_session
        (session_grant (permissions h) (fst (preparation_parts preparation))) others"
  shows "admit_local_tool (env\<lparr>env_approve := approve\<rparr>) later h2 =
    admit_unless_cancelled env t' arguments' preparation' (h2\<lparr>world := w2\<rparr>)"
proof -
  have allow: "decide (permissions h2) r = Allow"
    if "r \<in> set (fst (preparation_parts preparation'))" for r
    unfolding assms(7) using that assms(3,6)
    by (intro engine.give_all_allow [unfolded engine.give_all_def] session_grant_settles) auto
  then have "Deny \<notin> set (map (decide (permissions h2)) (fst (preparation_parts preparation')))"
    and "list_all (\<lambda>d. d = Allow) (map (decide (permissions h2)) (fst (preparation_parts preparation')))"
    by (auto simp: list_all_iff)
  with admit_local_tool_prepared [of "env\<lparr>env_approve := approve\<rparr>" later t' arguments' h2 preparation' w2]
    assms(4,5)
  show ?thesis by (simp add: admit_unless_cancelled_def is_cancelled_def)
qed

theorem session_approval_is_remembered_witness:
  "fst (admit_local_tool (note_env AllowForSession\<lparr>env_approve := static_approval DenyApproval\<rparr>) note_call
     (note_host\<lparr>permissions := session_grant (permissions note_host) [note_request]\<rparr>)) =
   Inr (DirectExecution note_tool (JObject []))"
proof -
  have "list_all (\<lambda>r. decide (permissions note_host) r \<noteq> Deny)
      (fst (preparation_parts (DirectCall [note_request] False :: nat tool_preparation)))"
    by (simp add: note_decides)
  from session_approval_is_remembered [OF note_validates [of AllowForSession] note_prepares this
      note_validates note_prepares,
      of "note_host\<lparr>permissions := session_grant (permissions note_host) [note_request]\<rparr>" "[]"]
  have "admit_local_tool (note_env AllowForSession\<lparr>env_approve := static_approval DenyApproval\<rparr>) note_call
      (note_host\<lparr>permissions := session_grant (permissions note_host) [note_request]\<rparr>) =
    admit_unless_cancelled (note_env AllowForSession) note_tool (JObject [])
      (DirectCall [note_request] False)
      (note_host\<lparr>permissions := session_grant (permissions note_host) [note_request], world := 0\<rparr>)"
    by (simp add: note_host_def)
  then show ?thesis by (simp add: admit_unless_cancelled_def)
qed

subsection \<open>Outputs\<close>

lemma truncation_marker_valid: "valid_utf8 name \<Longrightarrow> valid_utf8 (truncation_marker name n m)"
proof -
  assume name: "valid_utf8 name"
  have num: "valid_utf8 (show_nat k)" for k
    by (rule valid_utf8_ascii) (use show_nat_digits [of k] in \<open>auto simp: list_all_iff\<close>)
  have nl: "valid_utf8 newline" by (simp add: newline_def is_ascii_def byte_of_def)
  show ?thesis
    unfolding truncation_marker_def
    by (intro valid_utf8_append nl name num valid_utf8_ascii) (simp_all add: is_ascii_def byte_of_def)
qed

lemma bounded_inline_output_valid:
  "valid_utf8 c \<Longrightarrow> valid_utf8 name \<Longrightarrow> valid_utf8 (fst (bounded_inline_output c m name))"
  by (simp add: bounded_inline_output_def Let_def utf8_prefix_valid truncation_marker_valid
      valid_utf8_append)

lemma length_bounded_inline_output [bound_simps]: "length (fst (bounded_inline_output c m name)) \<le> m"
  using length_utf8_prefix [of "truncation_marker name (length c) m" m]
    length_utf8_prefix [of c "m - length (truncation_marker name (length c) m)"]
  by (auto simp: bounded_inline_output_def Let_def)

text \<open>
  What is shown of a result inline is at most the cap, whatever the tool's name and the size;
  it is the whole result exactly when that fits, and otherwise a prefix of it that ends on a
  character, followed by the marker (or the marker's own prefix, when the cap is that small).
\<close>

theorem inline_output_is_bounded:
  "length (fst (bounded_inline_output c m name)) \<le> m
   \<and> (snd (bounded_inline_output c m name) \<longleftrightarrow> m < length c)
   \<and> (if length c \<le> m then fst (bounded_inline_output c m name) = c
      else \<exists>p tail. fst (bounded_inline_output c m name) = p @ tail \<and> prefix p c
        \<and> is_char_boundary c (length p) \<and> prefix tail (truncation_marker name (length c) m))"
proof -
  have "\<exists>p tail. fst (bounded_inline_output c m name) = p @ tail \<and> prefix p c
      \<and> is_char_boundary c (length p) \<and> prefix tail (truncation_marker name (length c) m)"
    if "m < length c"
  proof (cases "m \<le> length (truncation_marker name (length c) m)")
    case True
    with that show ?thesis
      by (intro exI [of _ "[]"] exI [of _ "utf8_prefix (truncation_marker name (length c) m) m"])
        (simp add: bounded_inline_output_def Let_def)
  next
    case False
    let ?p = "utf8_prefix c (m - length (truncation_marker name (length c) m))"
    have "is_char_boundary c (length ?p)" by (rule utf8_prefix_boundary)
    with False that show ?thesis
      by (intro exI [of _ ?p] exI [of _ "truncation_marker name (length c) m"])
        (simp add: bounded_inline_output_def Let_def)
  qed
  moreover have "snd (bounded_inline_output c m name) \<longleftrightarrow> m < length c"
    by (auto simp: bounded_inline_output_def Let_def)
  moreover have "fst (bounded_inline_output c m name) = c" if "length c \<le> m"
    using that by (simp add: bounded_inline_output_def)
  ultimately show ?thesis using length_bounded_inline_output [of c m name] by (simp add: not_le)
qed

lemma inline_output_parts [simp]:
  "durable_content (inline_output ctx call d out) = durable_content out"
  "original_bytes (inline_output ctx call d out) = original_bytes out"
  by (simp_all add: inline_output_def split: prod.splits)

lemma finalize_durable: "durable_content (fst (finalize_tool_output ctx call out w)) = None"
  by (auto simp: finalize_tool_output_def Let_def error_output_def split: option.splits sum.splits prod.splits)

text \<open>
  A complete result leaves the process only in its redacted form: two results of the same size
  with the same redaction give the same store calls, the same output to the model and to the
  listeners, and the same world. And no output that is recorded or emitted still carries the
  complete content.
\<close>

theorem durable_content_leaves_redacted:
  assumes "redact_secrets a = redact_secrets b" and "length a = length b"
  shows "finalize_tool_output ctx call (out\<lparr>durable_content := Some a\<rparr>) w =
      finalize_tool_output ctx call (out\<lparr>durable_content := Some b\<rparr>) w
    \<and> durable_content (fst (finalize_tool_output ctx call (out\<lparr>durable_content := Some a\<rparr>) w)) = None"
  using assms by (simp add: finalize_durable) (simp add: finalize_tool_output_def Let_def)

theorem durable_content_leaves_redacted_witness:
  "finalize_tool_output (new_tool_context ''/w'') note_call
     ((error_output [])\<lparr>durable_content := Some ''token=abc''\<rparr>) (0 :: nat) =
   finalize_tool_output (new_tool_context ''/w'') note_call
     ((error_output [])\<lparr>durable_content := Some ''token=xyz''\<rparr>) 0"
proof -
  have "redact_secrets ''token=abc'' = redact_secrets ''token=xyz''" by code_simp
  from durable_content_leaves_redacted [OF this, of "new_tool_context ''/w''" note_call "error_output []" "0 :: nat"]
  show ?thesis by simp
qed

end
