(* ===== verification/Agent_Batch.thy ===== *)
theory Agent_Batch
  imports Agent_Admission
begin

section \<open>The batch of tool calls\<close>

text \<open>
  Facts about \<open>execute_tool_batch\<close> and \<open>select_scoped_project_context\<close> of \<open>fx-core/src/agent.rs\<close>:
  every call gets one outcome in its place, every call that starts finishes with that outcome, and
  a call whose target brought new project instructions does not run.
\<close>

subsection \<open>Events of a batch\<close>

definition start_event :: "tool_call \<Rightarrow> agent_event" where
  "start_event call = ToolStarted (tc_id call) (tc_name call) (arguments_json call)"

definition finish_event :: "tool_call \<Rightarrow> outcome \<Rightarrow> agent_event" where
  "finish_event call out =
     ToolFinished (tc_id call) (tc_name call) (is_error (fst out)) (fst out)"

fun is_start :: "agent_event \<Rightarrow> bool" where
  "is_start (ToolStarted _ _ _) = True"
| "is_start _ = False"

fun is_finish :: "agent_event \<Rightarrow> bool" where
  "is_finish (ToolFinished _ _ _ _) = True"
| "is_finish _ = False"

lemma event_classes [simp]:
  "is_start (start_event c)" "\<not> is_finish (start_event c)"
  "is_finish (finish_event c out)" "\<not> is_start (finish_event c out)"
  by (simp_all add: start_event_def finish_event_def)

text \<open>
  \<open>tool_log calls outs evs\<close>: the events are the starts of \<open>calls\<close> in order and their finishes with
  \<open>outs\<close> in order, and at no point have more calls finished than started.
\<close>

definition tool_log :: "tool_call list \<Rightarrow> outcome list \<Rightarrow> agent_event list \<Rightarrow> bool" where
  "tool_log calls outs evs \<longleftrightarrow> length outs = length calls
     \<and> filter is_start evs = map start_event calls
     \<and> filter is_finish evs = map2 finish_event calls outs
     \<and> (\<forall>i. length (filter is_finish (take i evs)) \<le> length (filter is_start (take i evs)))"

lemma tool_log_Nil [simp]: "tool_log [] [] []"
  by (simp add: tool_log_def)

lemma tool_log_append:
  assumes "tool_log cs os es" and "tool_log cs' os' es'"
  shows "tool_log (cs @ cs') (os @ os') (es @ es')"
proof -
  have "length (filter is_finish (take i (es @ es'))) \<le> length (filter is_start (take i (es @ es')))" for i
    using assms by (simp add: tool_log_def add_mono)
  with assms show ?thesis by (simp add: tool_log_def)
qed

lemma tool_log_round:
  assumes "length outs = length calls"
  shows "tool_log calls outs (map start_event calls @ map2 finish_event calls outs)"
proof -
  let ?ss = "map start_event calls" and ?fs = "map2 finish_event calls outs"
  have ss: "filter is_start ?ss = ?ss" "filter is_finish ?ss = []"
    by (induction calls) simp_all
  have fs: "filter is_finish ?fs = ?fs" "filter is_start ?fs = []"
    using assms by (induction outs calls rule: list_induct2) simp_all
  have empty: "filter P (take i xs) = []" if "filter P xs = []" for P :: "agent_event \<Rightarrow> bool" and i xs
    using that by (auto simp: filter_empty_conv dest: in_set_takeD)
  have "length (filter is_finish (take i (?ss @ ?fs))) \<le> length (filter is_start (take i (?ss @ ?fs)))" for i
  proof (cases "i \<le> length calls")
    case True
    with empty [OF ss(2), of i] show ?thesis by simp
  next
    case False
    have "length (filter is_finish (take k ?fs)) \<le> length calls" for k
      using assms by (intro order.trans [OF length_filter_le]) simp
    with False show ?thesis by (simp add: ss trans_le_add1)
  qed
  with ss fs assms show ?thesis by (simp add: tool_log_def)
qed

lemma events_started: "events (foldl emit_tool_started h calls) = events h @ map start_event calls"
  by (induction calls arbitrary: h) (simp_all add: emit_tool_started_def emit_def start_event_def)

lemma finish_call_events:
  "finish_call env call out h = (final, h') \<Longrightarrow> events h' = events h @ [finish_event call final]"
  by (auto simp: finish_call_def emit_tool_finished_def emit_def finish_event_def split: prod.splits)

lemma finish_all_events:
  "length outs = length calls \<Longrightarrow> finish_all env calls outs h = (finals, h') \<Longrightarrow>
     length finals = length calls \<and> events h' = events h @ map2 finish_event calls finals"
proof (induction calls arbitrary: outs h finals h')
  case (Cons call calls)
  then obtain out outs' where "outs = out # outs'" by (cases outs) auto
  with Cons show ?case by (fastforce dest: finish_call_events split: prod.splits)
qed simp

lemma admit_all_events:
  "admit_all env calls h = (r, h') \<Longrightarrow> events h' = events h
     \<and> (case r of Inl _ \<Rightarrow> True | Inr fs \<Rightarrow> length fs = length calls)"
proof (induction calls arbitrary: h r h')
  case (Cons call calls)
  obtain r1 h1 where a: "admit_local_tool env call h = (r1, h1)" by fastforce
  obtain r2 h2 where b: "admit_all env calls h1 = (r2, h2)" by fastforce
  from admit_local_tool_events [of env call h] a have "events h1 = events h" by simp
  with a b Cons.IH [OF b] Cons.prems show ?case by (auto split: sum.splits)
qed simp

lemma run_parallel_log:
  assumes "run_parallel env batch h = (Inr outs, h')"
  shows "\<exists>new. events h' = events h @ new \<and> tool_log batch outs new"
proof -
  let ?h = "foldl emit_tool_started h batch"
  obtain r h1 where a: "admit_all env batch ?h = (r, h1)" by fastforce
  from a assms obtain fs where r: "r = Inr fs" by (cases r) (auto simp: run_parallel_def)
  obtain os w where j: "join_ordered fs (world h1) = (os, w)" by fastforce
  from j have "length os = length fs" using join_ordered_length [of fs "world h1"] by simp
  with admit_all_events [OF a] r have len: "length os = length batch" and
    ev: "events h1 = events h @ map start_event batch" by (simp_all add: events_started)
  from assms a r j have f: "finish_all env batch os (h1\<lparr>world := w\<rparr>) = (outs, h')"
    by (auto simp: run_parallel_def split: prod.splits)
  from finish_all_events [OF len f] ev
  show ?thesis
    by (intro exI [of _ "map start_event batch @ map2 finish_event batch outs"])
      (simp add: tool_log_round)
qed

lemma execute_one_tool_events: "events (snd (execute_one_tool env call h)) = events h"
  using admit_local_tool_events [of env call h]
  by (auto simp: execute_one_tool_def await_host_def split: prod.splits sum.splits)

lemma run_single_log:
  assumes "run_single env call h = (Inr out, h')"
  shows "\<exists>new. events h' = events h @ new \<and> tool_log [call] [out] new"
proof -
  obtain r h1 where a: "execute_one_tool env call (emit_tool_started h call) = (r, h1)" by fastforce
  from a assms obtain o' where r: "r = Inr o'" by (cases r) (auto simp: run_single_def)
  from execute_one_tool_events [of env call "emit_tool_started h call"] a
  have "events h1 = events h @ [start_event call]"
    by (simp add: emit_tool_started_def emit_def start_event_def)
  moreover from a r assms have "finish_call env call o' h1 = (out, h')"
    by (auto simp: run_single_def split: prod.splits)
  ultimately show ?thesis
    using tool_log_round [of "[out]" "[call]"]
    by (intro exI [of _ "[start_event call, finish_event call out]"]) (auto dest: finish_call_events)
qed

lemma prepend_Inr_iff:
  "prepend outs r = (Inr xs, h) \<longleftrightarrow> (\<exists>ys. r = (Inr ys, h) \<and> xs = outs @ ys)"
  by (cases r; cases "fst r") (auto simp: prepend_def)

lemma take_parallel_length:
  "length (take (parallel_read_prefix_len env calls) calls) = parallel_read_prefix_len env calls"
  by (simp add: parallel_read_prefix_len_def length_takeWhile_le)

lemma execute_tool_batch_cases:
  assumes "execute_tool_batch env (call # calls) deferred h = (Inr outs, h')"
  obtains (Cancelled) h0 where "is_cancelled env h = (True, h0)"
      "outs = map (\<lambda>_. cancelled_outcome) (call # calls)" "h' = h0"
  | (Deferred) h0 ys where "is_cancelled env h = (False, h0)" "deferred_at deferred 0"
      "execute_tool_batch env calls (drop 1 deferred)
         (emit_tool_finished (emit_tool_started h0 call) call deferred_output) = (Inr ys, h')"
      "outs = (deferred_output, False) # ys"
  | (Parallel) h0 n xs h1 ys where "is_cancelled env h = (False, h0)" "\<not> deferred_at deferred 0"
      "n = parallel_read_prefix_len env (call # calls)" "2 \<le> n"
      "run_parallel env (take n (call # calls)) h0 = (Inr xs, h1)"
      "execute_tool_batch env (drop n (call # calls)) (drop n deferred) h1 = (Inr ys, h')"
      "outs = xs @ ys"
  | (Single) h0 x h1 ys where "is_cancelled env h = (False, h0)" "\<not> deferred_at deferred 0"
      "run_single env call h0 = (Inr x, h1)"
      "execute_tool_batch env calls (drop 1 deferred) h1 = (Inr ys, h')" "outs = x # ys"
proof -
  let ?n = "parallel_read_prefix_len env (call # calls)"
  obtain b h0 where "is_cancelled env h = (b, h0)" by fastforce
  then consider "is_cancelled env h = (True, h0)" | "is_cancelled env h = (False, h0)"
    by (cases b) auto
  then show thesis
  proof cases
    case 1
    with assms Cancelled [OF 1] show thesis by (simp add: execute_tool_batch.simps(2))
  next
    case c: 2
    note eq = assms [unfolded execute_tool_batch.simps(2) c prod.case bool.case Let_def]
    consider "deferred_at deferred 0" | "\<not> deferred_at deferred 0" "2 \<le> ?n"
      | "\<not> deferred_at deferred 0" "\<not> 2 \<le> ?n" by blast
    then show thesis
    proof cases
      case 1
      with eq Deferred [OF c 1] show thesis by (auto simp: prepend_Inr_iff)
    next
      case 2
      with eq Parallel [OF c 2(1) refl 2(2)] show thesis
        by (auto simp: prepend_Inr_iff split: prod.splits sum.splits)
    next
      case 3
      with eq Single [OF c 3(1)] show thesis
        by (auto simp: prepend_Inr_iff split: prod.splits sum.splits)
    qed
  qed
qed

lemma execute_tool_batch_log:
  "execute_tool_batch env calls deferred h = (Inr outs, h') \<Longrightarrow>
     \<exists>n new. n \<le> length calls \<and> length outs = length calls
       \<and> drop n outs = replicate (length calls - n) cancelled_outcome
       \<and> events h' = events h @ new \<and> tool_log (take n calls) (take n outs) new"
proof (induction "length calls" arbitrary: calls deferred h outs h' rule: less_induct)
  case less
  show ?case
  proof (cases calls)
    case Nil
    with less.prems show ?thesis by simp
  next
    case (Cons call rest)
    have step: ?thesis
      if sub: "execute_tool_batch env (drop k calls) d h1 = (Inr ys, h')" and k: "0 < k" "k \<le> length calls"
        and outs: "outs = xs @ ys" and log: "events h1 = events h @ new" "tool_log (take k calls) xs new"
      for k d h1 ys xs new
    proof -
      from less.hyps [OF _ sub] k Cons obtain n new' where
        n: "n \<le> length calls - k" "length ys = length calls - k"
          "drop n ys = replicate (length calls - k - n) cancelled_outcome"
          "events h' = events h1 @ new'" "tool_log (take n (drop k calls)) (take n ys) new'"
        by auto
      from log(2) k have "length xs = k" by (auto simp: tool_log_def)
      with n k outs log tool_log_append [OF log(2) n(5)] show ?thesis
        by (intro exI [of _ "k + n"] exI [of _ "new @ new'"]) (simp add: take_add)
    qed
    from less.prems [unfolded Cons] show ?thesis
    proof (cases rule: execute_tool_batch_cases)
      case (Cancelled h0)
      then show ?thesis
        by (intro exI [of _ 0]) (auto simp: Cons map_replicate_const is_cancelled_def split: prod.splits)
    next
      case (Deferred h0 ys)
      from Deferred(1) have "events h0 = events h" by (auto simp: is_cancelled_def split: prod.splits)
      then show ?thesis
        using Deferred(3,4) tool_log_round [of "[(deferred_output, False)]" "[call]"] Cons
        by (intro step [of 1 "drop 1 deferred" _ ys "[(deferred_output, False)]"])
          (auto simp: emit_tool_started_def emit_tool_finished_def emit_def start_event_def finish_event_def)
    next
      case (Parallel h0 n xs h1 ys)
      from Parallel(1) have "events h0 = events h" by (auto simp: is_cancelled_def split: prod.splits)
      moreover from run_parallel_log [OF Parallel(5)] obtain new where
        "events h1 = events h0 @ new" "tool_log (take n (call # rest)) xs new" by blast
      moreover have "n \<le> length calls"
        using take_parallel_length [of env "call # rest"] Parallel(3) Cons by (simp add: min_def split: if_splits)
      ultimately show ?thesis
        using Parallel Cons by (intro step [of n "drop n deferred" h1 ys xs new]) auto
    next
      case (Single h0 x h1 ys)
      from Single(1) have "events h0 = events h" by (auto simp: is_cancelled_def split: prod.splits)
      moreover from run_single_log [OF Single(3)] obtain new where
        "events h1 = events h0 @ new" "tool_log [call] [x] new" by blast
      ultimately show ?thesis
        using Single Cons by (intro step [of 1 "drop 1 deferred" h1 ys "[x]" new]) auto
    qed
  qed
qed

text \<open>
  C6. A batch that ends without an error gives one outcome per call, in the order of the calls.
  It starts a prefix of the calls, in order, and each started call finishes exactly once, after its
  start, with exactly the output that is recorded for it; every later call has the cancelled
  outcome and no event.
\<close>

theorem every_call_is_answered_once:
  "case execute_tool_batch env calls deferred h of
     (Inl e, h') \<Rightarrow> True
   | (Inr outs, h') \<Rightarrow>
       (\<exists>n new. n \<le> length calls \<and> length outs = length calls
         \<and> drop n outs = replicate (length calls - n) cancelled_outcome
         \<and> events h' = events h @ new \<and> tool_log (take n calls) (take n outs) new)"
  using execute_tool_batch_log [of env calls deferred h] by (auto split: prod.splits sum.splits)

subsection \<open>Deferred calls\<close>

text \<open>The targets each call names, \<open>[]\<close> for the calls the scan skips.\<close>

fun call_targets :: "'w batch_env \<Rightarrow> tool_call list \<Rightarrow> 'w \<Rightarrow> string list list \<times> 'w" where
  "call_targets env [] w = ([], w)"
| "call_targets env (call # calls) w =
     (case (if local_call call
            then (case validate_call (env_parse env) (env_tools env) call of
                Inl _ \<Rightarrow> ([], w)
              | Inr (t, arguments) \<Rightarrow>
                 (case t_project_context_targets t (env_context env) arguments w of
                    (Inl _, w') \<Rightarrow> ([], w')
                  | (Inr ts, w') \<Rightarrow> (ts, w')))
            else ([], w)) of
        (ts, w') \<Rightarrow> (case call_targets env calls w' of (tss, w'') \<Rightarrow> (ts # tss, w'')))"

lemma call_targets_length: "call_targets env calls w = (tss, w') \<Longrightarrow> length tss = length calls"
  by (induction calls arbitrary: w tss w') (auto split: prod.splits)

definition sensitive :: "'w batch_env \<Rightarrow> tool_call \<Rightarrow> string list \<Rightarrow> bool" where
  "sensitive env call ts \<longleftrightarrow> ts \<noteq> [] \<and> \<not> is_local_read env call"

lemma scan_targets_spec:
  "call_targets env calls w = (tss, w') \<Longrightarrow>
     scan_targets env k calls (T, S) w =
       ((foldl path_extend T tss,
         S @ map fst (filter (\<lambda>(i, call, ts). sensitive env call ts) (zip [k..<k + length calls] (zip calls tss)))), w')"
proof (induction calls arbitrary: k T S w tss w')
  case (Cons call calls)
  obtain ts w1 tss' where tss: "tss = ts # tss'" and rest: "call_targets env calls w1 = (tss', w')" and
    first: "(if local_call call
            then (case validate_call (env_parse env) (env_tools env) call of
                Inl _ \<Rightarrow> ([], w)
              | Inr (t, arguments) \<Rightarrow>
                 (case t_project_context_targets t (env_context env) arguments w of
                    (Inl _, w') \<Rightarrow> ([], w')
                  | (Inr ts, w') \<Rightarrow> (ts, w')))
            else ([], w)) = (ts, w1)"
    using Cons.prems by (auto split: prod.splits)
  have upt: "[k..<k + length (call # calls)] = k # [Suc k..<Suc k + length calls]"
    by (simp add: upt_conv_Cons del: upt_Suc)
  have ext: "path_extend T [] = T" for T by (simp add: path_extend_def)
  have "scan_targets env k (call # calls) (T, S) w =
      scan_targets env (Suc k) calls (path_extend T ts, if sensitive env call ts then S @ [k] else S) w1"
    using first by (auto simp: sensitive_def is_local_read_def ext split: if_splits sum.splits prod.splits)
  with Cons.IH [OF rest, of "Suc k" "path_extend T ts" "if sensitive env call ts then S @ [k] else S"]
  show ?case unfolding upt by (simp add: tss)
qed simp

lemma set_flags_length [simp]: "length (set_flags flags is) = length flags"
  unfolding set_flags_def by (induction "is" arbitrary: flags) simp_all

lemma set_flags_nth: "i < length flags \<Longrightarrow> set_flags flags is ! i = (flags ! i \<or> i \<in> set is)"
proof (induction "is" arbitrary: flags)
  case (Cons a as)
  have "set_flags flags (a # as) = set_flags (flags[a := True]) as" by (simp add: set_flags_def)
  with Cons show ?case by (cases "i = a") simp_all
qed (simp add: set_flags_def)

lemma select_deferred:
  assumes "select_scoped_project_context env calls w = (Inr (delta, deferred), w')"
  shows "deferred = map (\<lambda>(call, ts). delta \<noteq> None \<and> sensitive env call ts)
    (zip calls (fst (call_targets env calls w)))"
proof -
  obtain tss w1 where ct: "call_targets env calls w = (tss, w1)" by fastforce
  note len = call_targets_length [OF ct]
  let ?S = "map fst (filter (\<lambda>(i, call, ts). sensitive env call ts) (zip [0..<length calls] (zip calls tss)))"
  have "i \<in> set ?S \<longleftrightarrow> sensitive env (calls ! i) (tss ! i)" if "i < length calls" for i
    using that len by (force simp: set_zip image_iff)
  then have flags: "set_flags (replicate (length calls) False) ?S =
      map (\<lambda>(call, ts). sensitive env call ts) (zip calls tss)"
    using len by (intro nth_equalityI) (simp_all add: set_flags_nth)
  have none: "replicate (length calls) False = map (\<lambda>(call, ts). False) (zip calls tss)"
    using len by (intro nth_equalityI) simp_all
  from assms scan_targets_spec [OF ct, of 0 "[]" "[]"] flags none ct show ?thesis
    by (auto simp: select_scoped_project_context_def Let_def case_prod_unfold split: option.splits if_splits sum.splits)
qed

lemma parallel_prefix_reads:
  "i < parallel_read_prefix_len env calls \<Longrightarrow> is_local_read env (calls ! i)"
  unfolding parallel_read_prefix_len_def by (metis nth_mem set_takeWhileD takeWhile_nth)

lemma deferred_at_drop: "deferred_at (drop k deferred) i = deferred_at deferred (k + i)"
  by (auto simp: deferred_at_def)

lemma execute_tool_batch_deferred:
  "execute_tool_batch env calls deferred h = (Inr outs, h') \<Longrightarrow>
     (\<And>j. j < length calls \<Longrightarrow> deferred_at deferred j \<Longrightarrow> \<not> is_local_read env (calls ! j)) \<Longrightarrow>
     i < length calls \<Longrightarrow> deferred_at deferred i \<Longrightarrow>
     outs ! i \<in> {(deferred_output, False), cancelled_outcome}"
proof (induction "length calls" arbitrary: calls deferred h outs h' i rule: less_induct)
  case less
  then obtain call rest where Cons: "calls = call # rest" by (cases calls) auto
  have step: ?case
    if sub: "execute_tool_batch env (drop k calls) (drop k deferred) h1 = (Inr ys, h')"
      and k: "0 < k" "k \<le> i" and outs: "outs = xs @ ys" "length xs = k"
    for k h1 ys xs
  proof -
    have "ys ! (i - k) \<in> {(deferred_output, False), cancelled_outcome}"
    proof (rule less.hyps [OF _ sub])
      fix j
      assume "j < length (drop k calls)" and "deferred_at (drop k deferred) j"
      then show "\<not> is_local_read env (drop k calls ! j)"
        using less.prems(2) [of "k + j"] k less.prems(3) by (simp add: deferred_at_drop)
    qed (use k less.prems(3,4) in \<open>auto simp: deferred_at_drop\<close>)
    with outs k show ?thesis by (simp add: nth_append)
  qed
  from less.prems(1) [unfolded Cons] show ?case
  proof (cases rule: execute_tool_batch_cases)
    case (Cancelled h0)
    have "outs ! i = cancelled_outcome"
      unfolding Cancelled(2) using less.prems(3) Cons by (subst nth_map) simp_all
    then show ?thesis by simp
  next
    case (Deferred h0 ys)
    show ?thesis
    proof (cases i)
      case 0
      with Deferred(4) show ?thesis by simp
    next
      case (Suc j)
      with Deferred(3,4) Cons show ?thesis
        by (intro step [of 1 _ ys "[(deferred_output, False)]"]) simp_all
    qed
  next
    case (Parallel h0 n xs h1 ys)
    from run_parallel_log [OF Parallel(5)] have "length xs = length (take n (call # rest))"
      by (auto simp: tool_log_def)
    with take_parallel_length [of env "call # rest"] Parallel(3) have "length xs = n" by simp
    moreover have "n \<le> i"
    proof (rule ccontr)
      assume "\<not> n \<le> i"
      with parallel_prefix_reads [of i env "call # rest"] Parallel(3) less.prems(2-4) Cons
      show False by simp
    qed
    ultimately show ?thesis using Parallel(4,6,7) Cons by (intro step [of n h1 ys xs]) simp_all
  next
    case (Single h0 x h1 ys)
    with less.prems(4) have "i \<noteq> 0" by (auto intro: ccontr)
    with Single(4,5) Cons show ?thesis by (intro step [of 1 h1 ys "[x]"]) simp_all
  qed
qed

text \<open>
  When the targets of a batch bring new project instructions, no call of it that names a
  target and is not a read is run: each has the deferred outcome (or the cancelled one) in its
  place, even in the middle of calls that run in parallel. When they bring none, nothing is deferred.
\<close>

theorem new_instructions_hold_back_writes:
  assumes "select_scoped_project_context env calls w = (Inr (delta, deferred), w')"
    and "execute_tool_batch env calls deferred h = (Inr outs, h')"
  shows "list_all (\<lambda>i. deferred_at deferred i =
        (delta \<noteq> None \<and> sensitive env (calls ! i) (fst (call_targets env calls w) ! i))) [0..<length calls]
    \<and> list_all (\<lambda>i. if deferred_at deferred i
        then outs ! i \<in> {(deferred_output, False), cancelled_outcome} else True) [0..<length calls]"
proof -
  obtain tss w1 where ct: "call_targets env calls w = (tss, w1)" by fastforce
  note len = call_targets_length [OF ct]
  have at: "deferred_at deferred i = (delta \<noteq> None \<and> sensitive env (calls ! i) (tss ! i))"
    if "i < length calls" for i
    using select_deferred [OF assms(1)] ct len that by (simp add: deferred_at_def)
  have "outs ! i \<in> {(deferred_output, False), cancelled_outcome}"
    if "i < length calls" "deferred_at deferred i" for i
    using assms(2) _ that by (rule execute_tool_batch_deferred) (simp add: at sensitive_def)
  with at ct show ?thesis by (simp add: list_all_iff)
qed

definition scoped_env :: "nat batch_env" where
  "scoped_env =
     (note_env AllowOnce)\<lparr>env_tools := \<lparr>reg_tools = [''note'' \<mapsto>
          note_tool\<lparr>t_project_context_targets := \<lambda>_ _ w. (Inr [''/w/sub''], w)\<rparr>], reg_order = [''note'']\<rparr>,
        env_context := (new_tool_context ''/w'')\<lparr>project_context := Some (\<lambda>ts w. (Inr (Some ''rules''), w))\<rparr>\<rparr>"

theorem new_instructions_hold_back_writes_witness:
  "\<exists>outs h'. execute_tool_batch scoped_env [note_call] [True] note_host = (Inr outs, h')
     \<and> outs ! 0 \<in> {(deferred_output, False), cancelled_outcome}"
proof -
  have valid: "validate_call (env_parse scoped_env) (env_tools scoped_env) note_call =
      Inr (note_tool\<lparr>t_project_context_targets := \<lambda>_ _ w. (Inr [''/w/sub''], w)\<rparr>, JObject [])"
    by (simp add: scoped_env_def note_env_def validate_call_def get_tool_def note_call_def is_object_def)
  have "local_call note_call" by (simp add: local_call_def note_call_def)
  then have "scan_targets scoped_env 0 [note_call] ([], []) 0 = (([''/w/sub''], [0]), 0)"
    by (simp add: valid path_extend_def note_tool_def)
  moreover have "project_context (env_context scoped_env) = Some (\<lambda>ts w. (Inr (Some ''rules''), w))"
    by (simp add: scoped_env_def)
  ultimately have "select_scoped_project_context scoped_env [note_call] 0 = (Inr (Some ''rules'', [True]), 0)"
    by (simp add: select_scoped_project_context_def set_flags_def)
  moreover have "\<exists>outs h'. execute_tool_batch scoped_env [note_call] [True] note_host = (Inr outs, h')"
    by (simp add: execute_tool_batch.simps(2) deferred_at_def prepend_def is_cancelled_def
        scoped_env_def note_env_def new_tool_context_def never_cancelled_def)
  ultimately show ?thesis
    using new_instructions_hold_back_writes [of scoped_env "[note_call]" 0 "Some ''rules''" "[True]" 0 note_host]
    by (fastforce simp: deferred_at_def)
qed

end
