(* ===== verification/Agent_Run.thy ===== *)
theory Agent_Run
  imports Agent_Batch
begin

section \<open>Runs of the agent\<close>

text \<open>
  Facts about \<open>run_controlled\<close> of \<open>fx-core/src/agent.rs\<close>: with a step limit every run ends after
  at most that many requests;
  the transcript stays one that a provider accepts, each tool call of an assistant message followed
  by its result; and every request holds the system messages and the latest turn.
\<close>

subsection \<open>Transcripts\<close>

definition answers :: "tool_call \<Rightarrow> chat_message \<Rightarrow> bool" where
  "answers call m \<longleftrightarrow> role m = Tool \<and> tool_call_id m = Some (tc_id call)"

text \<open>
  \<open>answered\<close>: after each assistant message stand the results of its calls, in order, and tool
  messages stand nowhere else.
\<close>

fun answered :: "chat_message list \<Rightarrow> bool" where
  "answered [] = True"
| "answered (m # ms) =
     (if role m = Assistant then
        length (tool_calls m) \<le> length ms
        \<and> list_all2 answers (tool_calls m) (take (length (tool_calls m)) ms)
        \<and> answered (drop (length (tool_calls m)) ms)
      else role m \<noteq> Tool \<and> answered ms)"

text \<open>A run that is cancelled may leave the calls of its last assistant message open.\<close>

definition answered_but_last :: "chat_message list \<Rightarrow> bool" where
  "answered_but_last ms \<longleftrightarrow> ms \<noteq> [] \<and> role (last ms) = Assistant \<and> answered (butlast ms)"

lemma answered_append: "answered xs \<Longrightarrow> answered (xs @ ys) = answered ys"
proof (induction xs rule: answered.induct)
  case (2 m ms)
  then show ?case by (auto split: if_splits)
qed simp

lemma answered_round:
  assumes "answered ms" and "role m = Assistant" and "length outs = length (tool_calls m)"
  shows "answered (ms @ m # map2 tool_message (tool_calls m) outs)"
proof -
  have "list_all2 answers calls (map2 tool_message calls outs')" if "length outs' = length calls" for calls outs'
    using that by (induction outs' calls rule: list_induct2) (simp_all add: answers_def tool_message_def)
  with assms show ?thesis by (simp add: answered_append)
qed

lemma answered_insert: "answered (insert_stable_system_context ms c) = answered ms"
proof -
  let ?n = "length (takeWhile (\<lambda>m. role m = System) ms)"
  have sys: "answered xs" if "list_all (\<lambda>m. role m = System) xs" for xs
    using that by (induction xs) simp_all
  have "list_all (\<lambda>m. role m = System) (take ?n ms)"
    by (simp add: takeWhile_eq_take [symmetric] list_all_iff) (metis set_takeWhileD)
  note pre = sys [OF this]
  have "answered ms = answered (take ?n ms @ drop ?n ms)" by simp
  also have "\<dots> = answered (drop ?n ms)" by (rule answered_append [OF pre])
  finally show ?thesis
    using pre by (simp add: insert_stable_system_context_def Let_def answered_append)
qed

lemma insert_snoc:
  "role a \<noteq> System \<Longrightarrow>
     insert_stable_system_context (ms @ [a]) c = insert_stable_system_context ms c @ [a]"
proof -
  assume "role a \<noteq> System"
  then have "takeWhile (\<lambda>m. role m = System) (ms @ [a]) = takeWhile (\<lambda>m. role m = System) ms"
    by (induction ms) simp_all
  then show ?thesis
    using length_takeWhile_le [of "\<lambda>m. role m = System" ms]
    by (simp add: insert_stable_system_context_def Let_def)
qed

lemma subseq_insert: "subseq ms (insert_stable_system_context ms c)"
proof -
  have "subseq (take n ms @ [] @ drop n ms) (take n ms @ [chat_text System c] @ drop n ms)" for n
    by (intro list_emb_append_mono) auto
  then show ?thesis by (simp add: insert_stable_system_context_def Let_def)
qed

subsection \<open>One iteration\<close>

definition ends_well :: "agent_result \<Rightarrow> bool" where
  "ends_well res \<longleftrightarrow>
     (if stop_reason res = CancelledRun
      then answered (res_messages res) \<or> answered_but_last (res_messages res)
      else answered (res_messages res))"

lemma record_response_messages [simp]:
  "ls_messages (record_response st r) = ls_messages st @ [assistant_message r]"
  "ls_step (record_response st r) = ls_step st"
  by (simp_all add: record_response_def)

lemma assistant_message_simps [simp]:
  "role (assistant_message r) = Assistant" "tool_calls (assistant_message r) = resp_tool_calls r"
  by (simp_all add: assistant_message_def)

text \<open>The messages a tool phase leaves: the transcript with instructions inserted, and the results.\<close>

lemma tool_phase_Continue:
  assumes "tool_phase env calls st = Continue st'"
  obtains ms outs where
    "ls_messages st' = ms @ map2 tool_message calls outs" "length outs = length calls"
    "ms = ls_messages st \<or> (\<exists>d. ms = insert_stable_system_context (ls_messages st) d)"
    "ls_step st' = ls_step st"
proof -
  obtain r w where sel: "select_scoped_project_context env calls (world (ls_host st)) = (r, w)" by fastforce
  from assms sel obtain delta deferred where r: "r = Inr (delta, deferred)"
    by (cases r) (auto simp: tool_phase_def Let_def)
  obtain b h where ex: "execute_tool_batch env calls deferred ((ls_host st)\<lparr>world := w\<rparr>) = (b, h)" by fastforce
  from assms sel r ex obtain outs where b: "b = Inr outs"
    by (cases b) (auto simp: tool_phase_def Let_def)
  have len: "length outs = length calls"
    using execute_tool_batch_log [OF ex [unfolded b]] by blast
  let ?ms = "case delta of Some d \<Rightarrow> insert_stable_system_context (ls_messages st) d | None \<Rightarrow> ls_messages st"
  from assms sel r ex b have "ls_messages st' = ?ms @ map2 tool_message calls outs" "ls_step st' = ls_step st"
    by (auto simp: tool_phase_def Let_def)
  with len that [of ?ms outs] show thesis by (auto split: option.splits)
qed

lemma tool_phase_not_done: "tool_phase env calls st = Finished r h \<Longrightarrow> \<exists>e. r = Inl e"
  by (auto simp: tool_phase_def Let_def split: prod.splits sum.splits)

lemma iteration_shape:
  assumes "iteration ag env st = it"
  shows "(\<exists>e h. it = Finished (Inl e) h)
    \<or> (\<exists>h. it = Finished (Inr (run_result CancelledRun st)) h)
    \<or> (\<exists>h. it = Finished (Inr (run_result CancelledRun (st\<lparr>ls_step := ls_step st + 1\<rparr>))) h)
    \<or> (\<exists>h h' response. it = Finished (Inr (run_result CancelledRun
          (record_response (st\<lparr>ls_step := ls_step st + 1, ls_host := h\<rparr>) response))) h')
    \<or> (\<exists>h h' response. resp_tool_calls response = [] \<and> it = Finished (Inr (run_result Complete
          (record_response (st\<lparr>ls_step := ls_step st + 1, ls_host := h\<rparr>) response))) h')
    \<or> (\<exists>h h' response st'. it = Continue st' \<and> tool_phase env (resp_tool_calls response)
          ((record_response (st\<lparr>ls_step := ls_step st + 1, ls_host := h\<rparr>) response)\<lparr>ls_host := h'\<rparr>) = Continue st')"
proof -
  obtain b h where c: "is_cancelled env (ls_host st) = (b, h)" by fastforce
  obtain r evs w where g: "ag_gateway ag (gateway_request_of ag (ls_messages st)) (world h) = (r, evs, w)"
    by (rule prod_cases3)
  let ?h = "emit (h\<lparr>world := w\<rparr>) (map GatewayEv evs)"
  obtain b2 h2 where c2: "is_cancelled env ?h = (b2, h2)" by fastforce
  show ?thesis
  proof (cases b)
    case True
    with assms c show ?thesis by (auto simp: iteration_def)
  next
    case False
    show ?thesis
    proof (cases r)
      case (Inl e)
      with assms c False g c2 show ?thesis
        by (cases b2) (auto simp: iteration_def Let_def split: if_splits)
    next
      case (Inr response)
      let ?st = "record_response (st\<lparr>ls_step := ls_step st + 1, ls_host := ?h\<rparr>) response"
      have host: "ls_host ?st = ?h" by (simp add: record_response_def)
      from assms c False g Inr have it: "it = after_response env response (st\<lparr>ls_step := ls_step st + 1, ls_host := ?h\<rparr>)"
        by (simp add: iteration_def Let_def)
      show ?thesis
      proof (cases "b2 \<or> resp_tool_calls response = []")
        case True
        with it c2 host show ?thesis by (cases b2) (auto simp: after_response_def Let_def)
      next
        case False
        then have tp: "tool_phase env (resp_tool_calls response) (?st\<lparr>ls_host := h2\<rparr>) = it"
          using it c2 host by (simp add: after_response_def Let_def)
        show ?thesis
        proof (cases it)
          case (Finished r' h')
          with tool_phase_not_done [OF tp [unfolded Finished]] show ?thesis by auto
        next
          case (Continue st')
          with tp show ?thesis by blast
        qed
      qed
    qed
  qed
qed

lemma iteration_Continue:
  assumes "iteration ag env st = Continue st'"
  shows "ls_step st' = ls_step st + 1"
    and "answered (ls_messages st) \<Longrightarrow> answered (ls_messages st')"
    and "subseq (ls_messages st) (ls_messages st')"
proof -
  from iteration_shape [OF assms] obtain h h' response where
    "tool_phase env (resp_tool_calls response)
      ((record_response (st\<lparr>ls_step := ls_step st + 1, ls_host := h\<rparr>) response)\<lparr>ls_host := h'\<rparr>) = Continue st'"
    by auto
  then obtain ms outs where
    st': "ls_messages st' = ms @ map2 tool_message (resp_tool_calls response) outs"
      "length outs = length (resp_tool_calls response)" "ls_step st' = ls_step st + 1" and
    ms: "ms = ls_messages st @ [assistant_message response]
      \<or> (\<exists>d. ms = insert_stable_system_context (ls_messages st @ [assistant_message response]) d)"
    by (rule tool_phase_Continue) auto
  show "ls_step st' = ls_step st + 1" by (rule st'(3))
  from ms obtain ms0 where ms0: "ms = ms0 @ [assistant_message response]"
    "answered ms0 = answered (ls_messages st)" "subseq (ls_messages st) ms0"
    by (auto simp: insert_snoc answered_insert subseq_insert)
  show "answered (ls_messages st')" if "answered (ls_messages st)"
    using answered_round [of ms0 "assistant_message response" outs] that ms0 st' by simp
  show "subseq (ls_messages st) (ls_messages st')"
    using list_emb_append_mono [OF ms0(3), of "[]" "assistant_message response # map2 tool_message (resp_tool_calls response) outs"]
      ms0(1) st'(1) by simp
qed

lemma iteration_Finished:
  assumes "iteration ag env st = Finished (Inr res) h"
  shows "res_steps res \<le> ls_step st + 1" and "stop_reason res \<noteq> StepLimit"
    and "answered (ls_messages st) \<Longrightarrow> ends_well res"
    and "subseq (ls_messages st) (res_messages res)"
  using iteration_shape [OF assms]
  by (auto simp: run_result_def ends_well_def answered_but_last_def answered_append)

subsection \<open>Whole runs\<close>

lemma agent_loop_returns:
  assumes "0 < max_steps (ag_options ag)"
  shows "\<exists>r h. agent_loop ag env st = Some (r, h)"
proof (induction "max_steps (ag_options ag) - ls_step st" arbitrary: st rule: less_induct)
  case less
  show ?case
  proof (cases "ls_step st < max_steps (ag_options ag)")
    case True
    show ?thesis
    proof (cases "iteration ag env st")
      case (Finished r h)
      with True show ?thesis by (subst agent_loop.simps) simp
    next
      case (Continue st')
      from iteration_Continue(1) [OF Continue] True
      have "max_steps (ag_options ag) - ls_step st' < max_steps (ag_options ag) - ls_step st" by simp
      from less.hyps [OF this] Continue True show ?thesis by (subst agent_loop.simps) simp
    qed
  next
    case False
    with assms show ?thesis by (subst agent_loop.simps) simp
  qed
qed

definition run_ends :: "'w agent \<Rightarrow> 'w loop_state \<Rightarrow> agent_error + agent_result \<Rightarrow> bool" where
  "run_ends ag st r \<longleftrightarrow>
     (case r of
        Inl e \<Rightarrow> True
      | Inr res \<Rightarrow>
          subseq (ls_messages st) (res_messages res)
          \<and> (answered (ls_messages st) \<longrightarrow> ends_well res)
          \<and> (stop_reason res = StepLimit \<longrightarrow> max_steps (ag_options ag) \<noteq> 0)
          \<and> (max_steps (ag_options ag) \<noteq> 0 \<and> ls_step st \<le> max_steps (ag_options ag) \<longrightarrow>
               res_steps res \<le> max_steps (ag_options ag)
               \<and> (stop_reason res = StepLimit \<longrightarrow> res_steps res = max_steps (ag_options ag))))"

lemma agent_loop_ends: "agent_loop ag env st = Some y \<Longrightarrow> run_ends ag st (fst y)"
proof (induction rule: agent_loop.raw_induct [rotated 1, consumes 1])
  case (1 loop ag env st y)
  let ?m = "max_steps (ag_options ag)"
  show ?case
  proof (cases "?m = 0 \<or> ls_step st < ?m")
    case go: True
    show ?thesis
    proof (cases "iteration ag env st")
      case (Finished r' h')
      with 1(2) go have r: "fst y = r'" by auto
      show ?thesis
      proof (cases r')
        case (Inr res)
        with iteration_Finished [OF Finished [unfolded Inr]] go r show ?thesis by (auto simp: run_ends_def)
      qed (simp add: run_ends_def r)
    next
      case (Continue st')
      with 1(2) go have "loop ag env st' = Some y" by auto
      then have "run_ends ag st' (fst y)" by (rule 1(1))
      with iteration_Continue [OF Continue] go show ?thesis
        by (auto simp: run_ends_def split: sum.splits intro: subseq_order.trans)
    qed
  next
    case False
    with 1(2) have "fst y = Inr (run_result StepLimit st)" by auto
    with False show ?thesis by (simp add: run_ends_def run_result_def ends_well_def)
  qed
qed

lemma start_messages: "ls_messages (start_state request h) = history request @ [chat_text User (prompt request)]"
  by (simp add: start_state_def)

subsection \<open>Counting requests\<close>

text \<open>
  How often a run asks the gateway can be read off the events: for a gateway that marks every
  request by exactly one event of a kind \<open>P\<close>, the requests of a stretch of the run are the marked
  events it appends.
\<close>

definition marked :: "(gateway_event \<Rightarrow> bool) \<Rightarrow> agent_event list \<Rightarrow> nat" where
  "marked P evs = length (filter (\<lambda>e. case e of GatewayEv g \<Rightarrow> P g | _ \<Rightarrow> False) evs)"

definition marks_requests :: "(gateway_event \<Rightarrow> bool) \<Rightarrow> 'w gateway \<Rightarrow> bool" where
  "marks_requests P g \<longleftrightarrow> (\<forall>q w. length (filter P (fst (snd (g q w)))) = 1)"

definition requests :: "(gateway_event \<Rightarrow> bool) \<Rightarrow> 'w host \<Rightarrow> 'w host \<Rightarrow> nat \<Rightarrow> bool" where
  "requests P h h' n \<longleftrightarrow> (\<exists>new. events h' = events h @ new \<and> marked P new = n)"

lemma marked_simps [simp]:
  "marked P [] = 0" "marked P (xs @ ys) = marked P xs + marked P ys"
  "marked P (map GatewayEv evs) = length (filter P evs)"
  "marked P (map start_event calls) = 0" "marked P (map2 finish_event calls outs) = 0"
  "marked P [start_event call] = 0" "marked P [finish_event call out] = 0"
  by (auto simp: marked_def filter_map comp_def start_event_def finish_event_def filter_empty_conv
      dest!: set_zip_leftD split: prod.splits)

lemma requests_none: "events h' = events h \<Longrightarrow> requests P h h' 0"
  by (simp add: requests_def)

lemma requests_trans: "requests P h h1 m \<Longrightarrow> requests P h1 h2 n \<Longrightarrow> requests P h h2 (m + n)"
  by (fastforce simp: requests_def)

lemma requests_then: "requests P h h1 0 \<Longrightarrow> requests P h1 h2 n \<Longrightarrow> requests P h h2 n"
  using requests_trans [of P h h1 0 h2 n] by simp

lemma requests_started: "requests P h (foldl emit_tool_started h calls) 0"
  by (simp add: requests_def events_started)

lemma requests_start_one: "requests P h (emit_tool_started h call) 0"
  using requests_started [of P h "[call]"] by simp

lemma requests_finish_call: "requests P h (snd (finish_call env call out h)) 0"
  using finish_call_events [of env call out h] by (cases "finish_call env call out h") (simp add: requests_def)

lemma requests_finish_all: "requests P h (snd (finish_all env calls outs h)) 0"
proof (induction env calls outs h rule: finish_all.induct)
  case (1 env call calls out outs h)
  obtain final h1 where f: "finish_call env call out h = (final, h1)" by fastforce
  from requests_finish_call [of P h env call out] f have "requests P h h1 0" by simp
  from requests_then [OF this "1.IH" [OF f [symmetric]]] f show ?case by (auto split: prod.splits)
qed (simp_all add: requests_none)

lemma requests_run_parallel: "requests P h (snd (run_parallel env batch h)) 0"
proof -
  let ?h = "foldl emit_tool_started h batch"
  obtain r h1 where a: "admit_all env batch ?h = (r, h1)" by fastforce
  from admit_all_events [OF a] requests_started [of P h batch] have h1: "requests P h h1 0"
    by (simp add: requests_def)
  show ?thesis
  proof (cases r)
    case (Inl e)
    with a h1 show ?thesis by (simp add: run_parallel_def)
  next
    case (Inr fs)
    obtain os w where j: "join_ordered fs (world h1) = (os, w)" by fastforce
    from h1 have "requests P h (h1\<lparr>world := w\<rparr>) 0" by (simp add: requests_def)
    from requests_then [OF this requests_finish_all [of P "h1\<lparr>world := w\<rparr>" env batch os]] a Inr j
    show ?thesis by (auto simp: run_parallel_def split: prod.splits)
  qed
qed

lemma requests_run_single: "requests P h (snd (run_single env call h)) 0"
proof -
  obtain r h1 where a: "execute_one_tool env call (emit_tool_started h call) = (r, h1)" by fastforce
  from execute_one_tool_events [of env call "emit_tool_started h call"] a requests_start_one [of P h call]
  have h1: "requests P h h1 0" by (simp add: requests_def)
  show ?thesis
  proof (cases r)
    case (Inl e)
    with a h1 show ?thesis by (simp add: run_single_def)
  next
    case (Inr out)
    with a requests_then [OF h1 requests_finish_call [of P h1 env call out]] show ?thesis
      by (auto simp: run_single_def split: prod.splits)
  qed
qed

lemma requests_is_cancelled: "is_cancelled env h = (b, h0) \<Longrightarrow> requests P h h0 0"
  by (auto simp: is_cancelled_def requests_none split: prod.splits)

lemma snd_prepend [simp]: "snd (prepend outs r) = snd r"
  by (simp add: prepend_def)

lemma requests_batch: "requests P h (snd (execute_tool_batch env calls deferred h)) 0"
proof (induction env calls deferred h rule: execute_tool_batch.induct)
  case (2 env call calls deferred h)
  obtain b h0 where c: "is_cancelled env h = (b, h0)" by fastforce
  note h0 = requests_is_cancelled [OF c, of P]
  let ?n = "parallel_read_prefix_len env (call # calls)"
  consider "b" | "\<not> b" "deferred_at deferred 0" | "\<not> b" "\<not> deferred_at deferred 0" "2 \<le> ?n"
    | "\<not> b" "\<not> deferred_at deferred 0" "\<not> 2 \<le> ?n" by blast
  then show ?case
  proof cases
    case 1
    with c h0 show ?thesis by (simp add: execute_tool_batch.simps(2))
  next
    case 2
    let ?h1 = "emit_tool_finished (emit_tool_started h0 call) call deferred_output"
    have "events ?h1 = events h0 @ [start_event call] @ [finish_event call (deferred_output, False)]"
      by (simp add: emit_tool_finished_def emit_tool_started_def emit_def start_event_def finish_event_def)
    then have h1: "requests P h0 ?h1 0"
      unfolding requests_def by (intro exI conjI) (assumption, simp only: marked_simps add_0)
    from 2 c have "requests P ?h1 (snd (execute_tool_batch env calls (drop 1 deferred) ?h1)) 0"
      using "2.IH"(1) [of True h0] "2.IH"(1) [of False h0] by auto
    with requests_then [OF requests_then [OF h0 h1]] c 2 show ?thesis
      by (simp add: execute_tool_batch.simps(2))
  next
    case 3
    obtain r h1 where p: "run_parallel env (take ?n (call # calls)) h0 = (r, h1)" by fastforce
    from requests_run_parallel [of P h0 env "take ?n (call # calls)"] p
    have h1: "requests P h h1 0" using requests_then [OF h0] by simp
    show ?thesis
    proof (cases r)
      case (Inl e)
      with c 3 p h1 show ?thesis by (simp add: execute_tool_batch.simps(2) Let_def)
    next
      case (Inr outs)
      have "requests P h1 (snd (execute_tool_batch env (drop ?n (call # calls)) (drop ?n deferred) h1)) 0"
        using "2.IH"(2) [OF c [symmetric]] 3 p Inr by auto
      with requests_then [OF h1] c 3 p Inr show ?thesis
        by (simp add: execute_tool_batch.simps(2) Let_def)
    qed
  next
    case 4
    obtain r h1 where p: "run_single env call h0 = (r, h1)" by fastforce
    from requests_run_single [of P h0 env call] p
    have h1: "requests P h h1 0" using requests_then [OF h0] by simp
    show ?thesis
    proof (cases r)
      case (Inl e)
      with c 4 p h1 show ?thesis by (simp add: execute_tool_batch.simps(2) Let_def)
    next
      case (Inr out)
      have "requests P h1 (snd (execute_tool_batch env calls (drop 1 deferred) h1)) 0"
        using "2.IH"(3) [OF c [symmetric]] 4 p Inr by auto
      with requests_then [OF h1] c 4 p Inr show ?thesis
        by (simp add: execute_tool_batch.simps(2) Let_def)
    qed
  qed
qed (simp add: requests_none)

text \<open>The host an iteration leaves: that of its result, or that of the next state.\<close>

fun iteration_host :: "'w iteration \<Rightarrow> 'w host" where
  "iteration_host (Finished r h) = h"
| "iteration_host (Continue st) = ls_host st"

lemma requests_tool_phase: "requests P (ls_host st) (iteration_host (tool_phase env calls st)) 0"
proof -
  obtain r w where sel: "select_scoped_project_context env calls (world (ls_host st)) = (r, w)" by fastforce
  let ?h = "(ls_host st)\<lparr>world := w\<rparr>"
  have h: "requests P (ls_host st) ?h 0" by (simp add: requests_none)
  show ?thesis
  proof (cases r)
    case (Inl e)
    with sel h show ?thesis by (simp add: tool_phase_def)
  next
    case (Inr d)
    obtain delta deferred where d: "d = (delta, deferred)" by fastforce
    obtain b h1 where ex: "execute_tool_batch env calls deferred ?h = (b, h1)" by fastforce
    from requests_then [OF h requests_batch [of P ?h env calls deferred]] ex
    have "requests P (ls_host st) h1 0" by simp
    with sel Inr d ex show ?thesis by (cases b) (simp_all add: tool_phase_def Let_def)
  qed
qed

lemma requests_after_response:
  "requests P (ls_host st) (iteration_host (after_response env response st)) 0"
proof -
  let ?st = "record_response st response"
  have host: "ls_host ?st = ls_host st" by (simp add: record_response_def)
  obtain b h where c: "is_cancelled env (ls_host st) = (b, h)" by fastforce
  note h = requests_is_cancelled [OF c, of P]
  from requests_then [OF h] requests_tool_phase [of P "?st\<lparr>ls_host := h\<rparr>" env "resp_tool_calls response"]
  have "requests P (ls_host st)
      (iteration_host (tool_phase env (resp_tool_calls response) (?st\<lparr>ls_host := h\<rparr>))) 0"
    by simp
  with h c host show ?thesis by (cases b) (simp_all add: after_response_def Let_def)
qed

text \<open>The requests of one iteration: one, unless it ends at the first look at the flag.\<close>

definition iteration_requests :: "'w loop_state \<Rightarrow> 'w iteration \<Rightarrow> nat" where
  "iteration_requests st it =
     (case it of Finished (Inr res) h \<Rightarrow> res_steps res - ls_step st | _ \<Rightarrow> 1)"

lemma after_response_requests:
  "iteration_requests st (after_response env response (st\<lparr>ls_step := ls_step st + 1, ls_host := h\<rparr>)) = 1"
proof -
  have "tool_phase env calls st' = Finished r h' \<Longrightarrow> \<exists>e. r = Inl e" for calls st' r h'
    by (rule tool_phase_not_done)
  then show ?thesis
    by (auto simp: iteration_requests_def after_response_def Let_def run_result_def
        split: prod.splits bool.splits iteration.splits sum.splits)
qed

lemma requests_iteration:
  assumes "marks_requests P (ag_gateway ag)"
  shows "requests P (ls_host st) (iteration_host (iteration ag env st))
      (iteration_requests st (iteration ag env st))"
proof -
  obtain b h where c: "is_cancelled env (ls_host st) = (b, h)" by fastforce
  note h = requests_is_cancelled [OF c, of P]
  obtain r evs w where g: "ag_gateway ag (gateway_request_of ag (ls_messages st)) (world h) = (r, evs, w)"
    by (rule prod_cases3)
  let ?h = "emit (h\<lparr>world := w\<rparr>) (map GatewayEv evs)"
  from assms g have one: "length (filter P evs) = 1"
    unfolding marks_requests_def by (metis fst_conv snd_conv)
  have "events ?h = events h @ map GatewayEv evs" by (simp add: emit_def)
  with one have "requests P h ?h 1"
    unfolding requests_def by (intro exI [of _ "map GatewayEv evs"]) simp
  then have h1: "requests P (ls_host st) ?h 1" by (rule requests_then [OF h])
  show ?thesis
  proof (cases b)
    case True
    with c h show ?thesis by (simp add: iteration_def iteration_requests_def run_result_def)
  next
    case False
    show ?thesis
    proof (cases r)
      case (Inl e)
      obtain b2 h2 where c2: "is_cancelled env ?h = (b2, h2)" by fastforce
      from requests_trans [OF h1 requests_is_cancelled [OF c2]]
      have "requests P (ls_host st) h2 1" by simp
      with h1 c False g Inl c2 show ?thesis
        by (cases b2) (simp_all add: iteration_def iteration_requests_def run_result_def Let_def)
    next
      case (Inr response)
      let ?st = "st\<lparr>ls_step := ls_step st + 1, ls_host := ?h\<rparr>"
      from c False g Inr have it: "iteration ag env st = after_response env response ?st"
        by (simp add: iteration_def Let_def)
      from requests_trans [OF h1] requests_after_response [of P ?st env response]
      have "requests P (ls_host st) (iteration_host (after_response env response ?st)) 1" by simp
      then show ?thesis unfolding it by (simp only: after_response_requests)
    qed
  qed
qed

definition run_requests :: "(gateway_event \<Rightarrow> bool) \<Rightarrow> 'w agent \<Rightarrow> 'w loop_state \<Rightarrow>
    (agent_error + agent_result) \<times> 'w host \<Rightarrow> bool" where
  "run_requests P ag st y \<longleftrightarrow> (\<exists>n. requests P (ls_host st) (snd y) n
     \<and> (max_steps (ag_options ag) = 0 \<or> ls_step st + n \<le> max (ls_step st) (max_steps (ag_options ag)))
     \<and> (case fst y of Inl e \<Rightarrow> True | Inr res \<Rightarrow> res_steps res = ls_step st + n))"

lemma agent_loop_requests:
  "agent_loop ag env st = Some y \<Longrightarrow> marks_requests P (ag_gateway ag) \<Longrightarrow> run_requests P ag st y"
proof (induction rule: agent_loop.raw_induct [rotated 1, consumes 1])
  case (1 loop ag env st y)
  let ?m = "max_steps (ag_options ag)"
  let ?it = "iteration ag env st"
  show ?case
  proof (cases "?m = 0 \<or> ls_step st < ?m")
    case go: True
    note one = requests_iteration [OF 1(3), of st env]
    show ?thesis
    proof (cases ?it)
      case (Finished r' h')
      with 1(2) go have y: "y = (r', h')" by auto
      from Finished one have n: "requests P (ls_host st) h' (iteration_requests st (Finished r' h'))" by simp
      have "ls_step st \<le> res_steps res" if "r' = Inr res" for res
        using iteration_shape [OF Finished [unfolded that]] by (auto simp: run_result_def)
      moreover have "res_steps res \<le> ls_step st + 1" if "r' = Inr res" for res
        using iteration_Finished(1) [OF Finished [unfolded that]] .
      ultimately show ?thesis
        unfolding run_requests_def using n y go
        by (intro exI [of _ "iteration_requests st (Finished r' h')"])
          (cases r'; fastforce simp: iteration_requests_def)
    next
      case (Continue st')
      with 1(2) go have "loop ag env st' = Some y" by auto
      then have "run_requests P ag st' y" using 1(3) by (rule 1(1))
      then obtain n where n: "requests P (ls_host st') (snd y) n"
        "?m = 0 \<or> ls_step st' + n \<le> max (ls_step st') ?m"
        "case fst y of Inl e \<Rightarrow> True | Inr res \<Rightarrow> res_steps res = ls_step st' + n"
        unfolding run_requests_def by blast
      from one Continue have "requests P (ls_host st) (ls_host st') 1"
        by (simp add: iteration_requests_def)
      from requests_trans [OF this n(1)] n(2,3) iteration_Continue(1) [OF Continue] go
      show ?thesis unfolding run_requests_def
        by (intro exI [of _ "1 + n"]) (auto split: sum.splits)
    qed
  next
    case False
    with 1(2) have "y = (Inr (run_result StepLimit st), ls_host st)" by auto
    with False show ?thesis
      by (auto simp: run_requests_def run_result_def requests_none intro: exI [of _ 0])
  qed
qed

text \<open>
  C9. With a step limit every run returns, whatever the gateway, the tools and the reviewers do
  (each of which returns); the steps that a result reports are within the limit, and it gives the
  limit as its reason to stop only when they reach it. The steps are the requests that were made:
  for a gateway that marks each request by exactly one event of a kind \<open>P\<close>, the run adds \<open>n\<close> marked
  events to those of its host, where \<open>n\<close> is at most the limit, whether the run ends with an error
  or with a result, and is exactly the number of steps of a result.
\<close>

theorem limited_runs_return:
  assumes "0 < max_steps (ag_options ag)"
  shows "\<exists>r h'. run_controlled parse ag request ctx approve cancel h = Some (r, h')
    \<and> (case r of
         Inl e \<Rightarrow> True
       | Inr res \<Rightarrow> res_steps res \<le> max_steps (ag_options ag)
           \<and> (if stop_reason res = StepLimit then res_steps res = max_steps (ag_options ag) else True))
    \<and> (if marks_requests P (ag_gateway ag)
       then \<exists>n. requests P h h' n \<and> n \<le> max_steps (ag_options ag)
          \<and> (case r of Inl e \<Rightarrow> True | Inr res \<Rightarrow> res_steps res = n)
       else True)"
proof -
  let ?st = "start_state request h"
  from agent_loop_returns [OF assms] obtain r h' where
    run: "agent_loop ag (invocation_env parse ag ctx approve cancel) ?st = Some (r, h')"
    by blast
  have st: "ls_step ?st = 0" "ls_host ?st = h" by (simp_all add: start_state_def)
  have ends: "case r of Inl e \<Rightarrow> True | Inr res \<Rightarrow> res_steps res \<le> max_steps (ag_options ag)
      \<and> (if stop_reason res = StepLimit then res_steps res = max_steps (ag_options ag) else True)"
    using agent_loop_ends [OF run] assms st by (auto simp: run_ends_def split: sum.splits)
  have count: "\<exists>n. requests P h h' n \<and> n \<le> max_steps (ag_options ag)
      \<and> (case r of Inl e \<Rightarrow> True | Inr res \<Rightarrow> res_steps res = n)"
    if "marks_requests P (ag_gateway ag)"
    using agent_loop_requests [OF run that] assms
    unfolding run_requests_def st fst_conv snd_conv by (cases r) auto
  from run ends count show ?thesis
    by (intro exI [of _ r] exI [of _ h'] conjI) (simp_all add: run_controlled_def)
qed

text \<open>A gateway that always calls the tool of the small host, and one that answers.\<close>

definition calling_gateway :: "nat gateway" where
  "calling_gateway request w =
     (Inr \<lparr>resp_content = None, resp_tool_calls = [note_call], resp_generation_id = None,
           resp_finish_reason = None, resp_usage = usage_default, resp_delivery_ambiguous = False\<rparr>,
      [ContentDelta ''note''], w)"

definition calling_agent :: "nat agent" where
  "calling_agent = new_agent calling_gateway (env_tools (note_env AllowOnce)) (new_agent_options ''m'')"

theorem limited_runs_return_witness:
  "\<exists>r h' n. run_agent (\<lambda>_. Inr (JObject [])) calling_agent \<lparr>history = [], prompt = ''go''\<rparr>
       (new_tool_context ''/w'') (static_approval AllowOnce) note_host = Some (r, h')
     \<and> requests (\<lambda>_. True) note_host h' n \<and> n \<le> 50"
proof -
  have m: "max_steps (ag_options calling_agent) = 50"
    by (simp add: calling_agent_def new_agent_def new_agent_options_def)
  have "marks_requests (\<lambda>_. True) (ag_gateway calling_agent)"
    by (simp add: marks_requests_def calling_agent_def new_agent_def calling_gateway_def)
  moreover have "0 < max_steps (ag_options calling_agent)" by (simp add: m)
  note limited_runs_return [OF this, where P = "\<lambda>_. True"]
  ultimately show ?thesis unfolding run_agent_def m by (simp only: if_True) blast
qed

text \<open>
  C7. If the history a run starts from is answered, so is the transcript it returns: every
  assistant message is followed by one result per tool call, in order, and no result stands alone.
  Only a cancelled run may leave the calls of its last message without results. The run adds to
  the history and the prompt and drops nothing of them.
\<close>

theorem transcripts_stay_answered:
  assumes "run_controlled parse ag request ctx approve cancel h = Some (Inr res, h')"
    and "answered (history request)"
  shows "subseq (history request @ [chat_text User (prompt request)]) (res_messages res)
    \<and> (if stop_reason res = CancelledRun
       then answered (res_messages res) \<or> answered_but_last (res_messages res)
       else answered (res_messages res))"
proof -
  from assms(1) have "run_ends ag (start_state request h) (Inr res)"
    unfolding run_controlled_def by (auto dest: agent_loop_ends)
  moreover have "answered (ls_messages (start_state request h))"
    using assms(2) by (simp add: start_messages answered_append)
  ultimately show ?thesis by (simp add: run_ends_def ends_well_def start_messages)
qed

definition final_gateway :: "nat gateway" where
  "final_gateway request w =
     (Inr \<lparr>resp_content = Some ''done'', resp_tool_calls = [], resp_generation_id = None,
           resp_finish_reason = Some Stop, resp_usage = usage_default, resp_delivery_ambiguous = False\<rparr>,
      [ContentDelta ''done''], w)"

definition final_agent :: "nat agent" where
  "final_agent = new_agent final_gateway empty_registry (new_agent_options ''m'')"

theorem transcripts_stay_answered_witness:
  "\<exists>res h'. run_controlled (\<lambda>_. Inl []) final_agent \<lparr>history = [chat_text System ''s''], prompt = ''go''\<rparr>
       (new_tool_context ''/w'') (static_approval AllowOnce) never_cancelled note_host = Some (Inr res, h')
     \<and> stop_reason res = Complete \<and> answered (res_messages res)"
proof -
  let ?request = "\<lparr>history = [chat_text System ''s''], prompt = ''go''\<rparr>"
  have "\<exists>res h'. run_controlled (\<lambda>_. Inl []) final_agent ?request
       (new_tool_context ''/w'') (static_approval AllowOnce) never_cancelled note_host = Some (Inr res, h')
     \<and> stop_reason res = Complete"
    unfolding run_controlled_def
    by (subst agent_loop.simps)
      (simp add: final_agent_def new_agent_def new_agent_options_def start_state_def iteration_def
        is_cancelled_def invocation_env_def never_cancelled_def final_gateway_def Let_def
        after_response_def record_response_def emit_def run_result_def)
  moreover have "answered (history ?request)" by simp
  ultimately show ?thesis
    using transcripts_stay_answered [of "\<lambda>_. Inl []" final_agent ?request] by fastforce
qed

subsection \<open>What the gateway is asked\<close>

context context_projector
begin

lemma request_carries_latest:
  assumes "ag_projector ag = projector" and "role u = User" and "list_all (\<lambda>m. role m \<noteq> User) ys"
  shows "suffix (u # ys) (gw_messages (gateway_request_of ag (xs @ u # ys)))
    \<and> prefix (takeWhile (\<lambda>m. role m = System) (xs @ u # ys))
         (gw_messages (gateway_request_of ag (xs @ u # ys)))"
proof -
  let ?ms = "xs @ u # ys"
  let ?b = "history_context_tokens (ag_options ag)"
  have req: "gw_messages (gateway_request_of ag ?ms) = messages (projector ?ms ?b)"
    by (simp only: gateway_request_of_def gateway_request.simps assms(1))
  have tw: "takeWhile (\<lambda>m. role m = System) ?ms = take (system_prefix_len ?ms) ?ms"
    unfolding system_prefix_len_def by (rule takeWhile_eq_take)
  show ?thesis
    unfolding req tw using keeps_latest [of ?ms ?b] keeps_system [of ?ms ?b]
    by (simp only: latest_turn_eq [OF assms(2,3)] simp_thms)
qed

end

text \<open>
  Whatever the budget, a request of the default agent ends with the latest user message and
  everything after it, so the current prompt with all its tool calls and results, and starts with
  all leading system messages.
\<close>

theorem requests_carry_the_current_turn:
  assumes "role u = User" and "list_all (\<lambda>m. role m \<noteq> User) ys"
  shows "suffix (u # ys) (gw_messages (gateway_request_of (new_agent g tools opts) (xs @ u # ys)))
    \<and> prefix (takeWhile (\<lambda>m. role m = System) (xs @ u # ys))
         (gw_messages (gateway_request_of (new_agent g tools opts) (xs @ u # ys)))"
  by (rule deterministic.request_carries_latest [OF _ assms]) (simp add: new_agent_def)

theorem requests_carry_the_current_turn_witness:
  "suffix [chat_text User ''go'']
     (gw_messages (gateway_request_of final_agent [chat_text System ''s'', chat_text User ''go'']))"
  using requests_carry_the_current_turn [of "chat_text User ''go''" "[]" final_gateway empty_registry
      "new_agent_options ''m''" "[chat_text System ''s'']"]
  by (simp add: final_agent_def)

end
