(* ===== verification/Pattern.thy ===== *)
theory Pattern
  imports Text
begin

unbundle bit_operations_syntax

section \<open>The output matcher\<close>

text \<open>
  \<open>pattern_feed\<close> of \<open>fx-process/src/monitor.rs\<close>: a nondeterministic automaton whose set of states is
  a bit set of five 64-bit words, fed chunk by chunk. \<open>glob\<close> is what a pattern means; the lemmas
  show that the bit set holds exactly the positions of the pattern that a suffix of the input so
  far reaches, so that a match is found when, and only when, the input contains one.
\<close>

datatype monitor_error =
    InvalidCondition
  | InvalidLifetime
  | InvalidSchedule
  | MissingCheckSchedule
  | UnexpectedCheckSchedule
  | InvalidMonitor
  | InvalidState
  | InvalidClock
  | InvalidPattern
  | InvalidEventId
  | CounterOverflow
  | DeadlineOverflow
  | IdExhausted

definition maximum_pattern_bytes :: nat where
  "maximum_pattern_bytes = 256"

definition pattern_words :: nat where
  "pattern_words = 5"

text \<open>\<open>(MAXIMUM_PATTERN_BYTES + 1).div_ceil(64)\<close>.\<close>

lemma pattern_words_eq: "pattern_words = div_ceil (maximum_pattern_bytes + 1) 64"
  by (simp add: pattern_words_def div_ceil_def maximum_pattern_bytes_def)

type_synonym matcher_states = "u64 list"

definition no_states :: matcher_states where
  "no_states = replicate pattern_words 0"

definition set_state_bit :: "matcher_states \<Rightarrow> nat \<Rightarrow> matcher_states" where
  "set_state_bit states index =
     states[index div 64 := states ! (index div 64) OR push_bit (index mod 64) 1]"

definition bit_is_set :: "matcher_states \<Rightarrow> nat \<Rightarrow> bool" where
  "bit_is_set states index \<longleftrightarrow> states ! (index div 64) AND push_bit (index mod 64) 1 \<noteq> 0"

text \<open>\<open>epsilon_closure\<close>: the loop over the tokens from \<open>index\<close> on.\<close>

fun closure_from :: "nat \<Rightarrow> string \<Rightarrow> matcher_states \<Rightarrow> matcher_states" where
  "closure_from index [] states = states"
| "closure_from index (token # pattern) states =
     closure_from (index + 1) pattern
       (if token = CHR ''*'' \<and> bit_is_set states index then set_state_bit states (index + 1) else states)"

definition epsilon_closure :: "string \<Rightarrow> bool \<Rightarrow> matcher_states \<Rightarrow> matcher_states" where
  "epsilon_closure pattern wildcard states =
     (if \<not> wildcard then states else closure_from 0 pattern states)"

fun step_from ::
  "bool \<Rightarrow> char \<Rightarrow> matcher_states \<Rightarrow> nat \<Rightarrow> string \<Rightarrow> matcher_states \<Rightarrow> matcher_states" where
  "step_from wildcard byte states index [] next_states = next_states"
| "step_from wildcard byte states index (token # pattern) next_states =
     step_from wildcard byte states (index + 1) pattern
       (if \<not> bit_is_set states index then next_states
        else if wildcard \<and> token = CHR ''*'' then set_state_bit next_states index
        else if token = byte \<or> wildcard \<and> token = CHR ''?'' then set_state_bit next_states (index + 1)
        else next_states)"

text \<open>One byte: the body of the outer loop.\<close>

definition step_byte :: "string \<Rightarrow> bool \<Rightarrow> matcher_states \<Rightarrow> char \<Rightarrow> matcher_states" where
  "step_byte pattern wildcard states byte =
     epsilon_closure pattern wildcard
       (step_from wildcard byte states 0 pattern (set_state_bit no_states 0))"

fun feed_bytes :: "string \<Rightarrow> bool \<Rightarrow> matcher_states \<Rightarrow> string \<Rightarrow> bool \<times> matcher_states" where
  "feed_bytes pattern wildcard states [] = (bit_is_set states (length pattern), states)"
| "feed_bytes pattern wildcard states (byte # bytes) =
     (let states = step_byte pattern wildcard states byte in
      if bit_is_set states (length pattern) then (True, states)
      else feed_bytes pattern wildcard states bytes)"

definition pattern_feed ::
  "string \<Rightarrow> bool \<Rightarrow> matcher_states \<Rightarrow> string \<Rightarrow> (monitor_error + bool) \<times> matcher_states" where
  "pattern_feed pattern wildcard states bytes =
     (if pattern = [] \<or> maximum_pattern_bytes < length pattern then (Inl InvalidPattern, states)
      else case feed_bytes pattern wildcard
             (epsilon_closure pattern wildcard (set_state_bit states 0)) bytes of
          (b, states') \<Rightarrow> (Inr b, states'))"

definition matches_pattern :: "string \<Rightarrow> bool \<Rightarrow> string \<Rightarrow> monitor_error + bool" where
  "matches_pattern pattern wildcard bytes = fst (pattern_feed pattern wildcard no_states bytes)"

subsection \<open>What a pattern means\<close>

text \<open>
  A token of a wildcard pattern: \<open>*\<close> is any text, \<open>?\<close> any byte, another byte itself. A pattern
  matches the concatenations of what its tokens match.
\<close>

definition token_matches :: "bool \<Rightarrow> char \<Rightarrow> string \<Rightarrow> bool" where
  "token_matches wildcard token s \<longleftrightarrow>
     (if wildcard \<and> token = CHR ''*'' then True
      else length s = 1 \<and> (s = [token] \<or> wildcard \<and> token = CHR ''?''))"

fun glob :: "bool \<Rightarrow> string \<Rightarrow> string \<Rightarrow> bool" where
  "glob wildcard [] s = (s = [])"
| "glob wildcard (token # pattern) s =
     list_ex (\<lambda>k. token_matches wildcard token (take k s) \<and> glob wildcard pattern (drop k s))
       [0..<Suc (length s)]"

lemma glob_Cons:
  "glob w (t # p) s \<longleftrightarrow> (\<exists>a b. s = a @ b \<and> token_matches w t a \<and> glob w p b)"
proof -
  have "(\<exists>a b. s = a @ b \<and> token_matches w t a \<and> glob w p b)"
    if "token_matches w t (take k s)" "glob w p (drop k s)" for k
    using that by (metis append_take_drop_id)
  moreover have "list_ex (\<lambda>k. token_matches w t (take k s) \<and> glob w p (drop k s)) [0..<Suc (length s)]"
    if "s = a @ b" "token_matches w t a" "glob w p b" for a b
    using that by (auto simp: list_ex_iff simp del: upt_Suc intro!: bexI [of _ "length a"])
  ultimately show ?thesis by (auto simp: list_ex_iff simp del: upt_Suc)
qed

declare glob.simps(2) [simp del]

lemma glob_snoc:
  "glob w (p @ [t]) s \<longleftrightarrow> (\<exists>a b. s = a @ b \<and> glob w p a \<and> token_matches w t b)"
proof (induction p arbitrary: s)
  case Nil
  then show ?case by (auto simp: glob_Cons)
next
  case (Cons u p)
  show ?case
  proof
    assume "glob w ((u # p) @ [t]) s"
    then obtain a b c where "s = a @ b @ c" "token_matches w u a" "glob w p b" "token_matches w t c"
      by (auto simp: glob_Cons Cons.IH)
    then show "\<exists>a b. s = a @ b \<and> glob w (u # p) a \<and> token_matches w t b"
      by (intro exI [of _ "a @ b"] exI [of _ c]) (auto simp: glob_Cons)
  next
    assume "\<exists>a b. s = a @ b \<and> glob w (u # p) a \<and> token_matches w t b"
    then obtain a b c where "s = a @ b @ c" "token_matches w u a" "glob w p b" "token_matches w t c"
      by (auto simp: glob_Cons)
    then show "glob w ((u # p) @ [t]) s"
      by (auto simp: glob_Cons Cons.IH)
  qed
qed

lemma glob_literal: "glob False p s \<longleftrightarrow> s = p"
  by (induction p arbitrary: s) (auto simp: glob_Cons token_matches_def)

text \<open>\<open>reaches p w u i\<close>: the first \<open>i\<close> tokens match a suffix of \<open>u\<close>.\<close>

definition reaches :: "string \<Rightarrow> bool \<Rightarrow> string \<Rightarrow> nat \<Rightarrow> bool" where
  "reaches p w u i \<longleftrightarrow> (\<exists>s. suffix s u \<and> glob w (take i p) s)"

lemma reaches_0 [simp]: "reaches p w u 0"
  by (auto simp: reaches_def)

lemma suffix_append_one: "suffix s (u @ [b]) \<longleftrightarrow> s = [] \<or> (\<exists>t. s = t @ [b] \<and> suffix t u)"
  by (cases s rule: rev_cases) (auto simp: suffix_def)

lemma reaches_Suc:
  assumes "i < length p"
  shows "reaches p w u (Suc i) \<longleftrightarrow>
    (\<exists>a b. suffix (a @ b) u \<and> glob w (take i p) a \<and> token_matches w (p ! i) b)"
  using assms by (auto simp: reaches_def take_Suc_conv_app_nth glob_snoc)

lemma reaches_star:
  assumes "i < length p" and "w" and "p ! i = CHR ''*''"
  shows "reaches p w (u @ [b]) (Suc i) \<longleftrightarrow> reaches p w (u @ [b]) i \<or> reaches p w u (Suc i)"
proof
  assume "reaches p w (u @ [b]) (Suc i)"
  then obtain a c where ac: "suffix (a @ c) (u @ [b])" "glob w (take i p) a"
    using assms by (auto simp: reaches_Suc)
  show "reaches p w (u @ [b]) i \<or> reaches p w u (Suc i)"
  proof (cases c rule: rev_cases)
    case Nil
    with ac show ?thesis by (auto simp: reaches_def)
  next
    case (snoc c' x)
    with ac(1) have "suffix (a @ c') u" by (auto simp: suffix_append_one)
    with ac(2) assms show ?thesis by (auto simp: reaches_Suc token_matches_def)
  qed
next
  assume "reaches p w (u @ [b]) i \<or> reaches p w u (Suc i)"
  then show "reaches p w (u @ [b]) (Suc i)"
  proof
    assume "reaches p w (u @ [b]) i"
    then obtain a where "suffix a (u @ [b])" "glob w (take i p) a" by (auto simp: reaches_def)
    with assms show ?thesis
      unfolding reaches_Suc [OF assms(1)]
      by (intro exI [of _ a] exI [of _ "[]"]) (simp add: token_matches_def)
  next
    assume "reaches p w u (Suc i)"
    then obtain a c where "suffix (a @ c) u" "glob w (take i p) a"
      using assms by (auto simp: reaches_Suc)
    with assms show ?thesis
      unfolding reaches_Suc [OF assms(1)]
      by (intro exI [of _ a] exI [of _ "c @ [b]"]) (auto simp: token_matches_def suffix_append_one)
  qed
qed

lemma reaches_byte:
  assumes "i < length p" and "\<not> (w \<and> p ! i = CHR ''*'')"
  shows "reaches p w (u @ [b]) (Suc i) \<longleftrightarrow>
    reaches p w u i \<and> (p ! i = b \<or> w \<and> p ! i = CHR ''?'')"
proof
  assume "reaches p w (u @ [b]) (Suc i)"
  then obtain a c where ac: "suffix (a @ [c]) (u @ [b])" "glob w (take i p) a"
    "[c] = [p ! i] \<or> w \<and> p ! i = CHR ''?''"
    using assms by (auto simp: reaches_Suc token_matches_def length_Suc_conv)
  then show "reaches p w u i \<and> (p ! i = b \<or> w \<and> p ! i = CHR ''?'')"
    by (auto simp: suffix_append_one reaches_def)
next
  assume "reaches p w u i \<and> (p ! i = b \<or> w \<and> p ! i = CHR ''?'')"
  then obtain a where "suffix a u" "glob w (take i p) a" "p ! i = b \<or> w \<and> p ! i = CHR ''?''"
    by (auto simp: reaches_def)
  with assms show "reaches p w (u @ [b]) (Suc i)"
    unfolding reaches_Suc [OF assms(1)]
    by (intro exI [of _ a] exI [of _ "[b]"]) (auto simp: token_matches_def suffix_append_one)
qed

lemma reaches_nil_Suc:
  assumes "i < length p"
  shows "reaches p w [] (Suc i) \<longleftrightarrow> w \<and> p ! i = CHR ''*'' \<and> reaches p w [] i"
  unfolding reaches_Suc [OF assms] by (auto simp: token_matches_def reaches_def)

text \<open>The whole pattern is reached after some prefix of the input when the input contains a match.\<close>

lemma reaches_all:
  "(\<exists>u. prefix u bytes \<and> reaches p w u (length p)) \<longleftrightarrow> (\<exists>s. sublist s bytes \<and> glob w p s)"
  by (auto simp: reaches_def sublist_altdef)

subsection \<open>The bit set\<close>

definition states_ok :: "matcher_states \<Rightarrow> bool" where
  "states_ok states \<longleftrightarrow> length states = pattern_words"

lemma no_states_ok [simp]: "states_ok no_states"
  by (simp add: states_ok_def no_states_def)

lemma set_state_bit_ok [simp]: "states_ok (set_state_bit states i) = states_ok states"
  by (simp add: states_ok_def set_state_bit_def)

lemma bit_is_set_bit: "bit_is_set states i \<longleftrightarrow> bit (states ! (i div 64)) (i mod 64)"
proof -
  have "push_bit n (1 :: u64) = 2 ^ n" for n by (simp add: push_bit_eq_mult)
  then show ?thesis by (simp add: bit_is_set_def bit_iff_and_push_bit_not_eq_0)
qed

lemma bit_no_states [simp]: "i < 320 \<Longrightarrow> \<not> bit_is_set no_states i"
  by (simp add: bit_is_set_bit no_states_def pattern_words_def)

lemma bit_set_state_bit:
  assumes "states_ok states" and "i < 320" and "j < 320"
  shows "bit_is_set (set_state_bit states i) j \<longleftrightarrow> j = i \<or> bit_is_set states j"
proof -
  have len: "i div 64 < length states" using assms by (simp add: states_ok_def pattern_words_def)
  have bit1: "bit (push_bit (i mod 64) (1 :: u64)) (j mod 64) \<longleftrightarrow> j mod 64 = i mod 64"
    by (auto simp: bit_push_bit_iff bit_1_iff bit_exp_iff)
  show ?thesis
  proof (cases "j div 64 = i div 64")
    case True
    then have "j = i \<longleftrightarrow> j mod 64 = i mod 64" by (metis div_mult_mod_eq)
    with True len bit1 show ?thesis by (auto simp: bit_is_set_bit set_state_bit_def bit_or_iff)
  next
    case False
    with len show ?thesis by (auto simp: bit_is_set_bit set_state_bit_def)
  qed
qed

lemma closure_from_ok [simp]: "states_ok (closure_from i p states) = states_ok states"
  by (induction i p states rule: closure_from.induct) auto

text \<open>
  The automaton stays on a star while it consumes bytes, so the bit of a star says that the pattern
  up to and with the star is reached.
\<close>

definition is_star :: "string \<Rightarrow> bool \<Rightarrow> nat \<Rightarrow> bool" where
  "is_star p w i \<longleftrightarrow> w \<and> i < length p \<and> p ! i = CHR ''*''"

definition at_state :: "string \<Rightarrow> bool \<Rightarrow> string \<Rightarrow> nat \<Rightarrow> bool" where
  "at_state p w u i \<longleftrightarrow> (if is_star p w i then reaches p w u (Suc i) else reaches p w u i)"

definition tracks :: "string \<Rightarrow> bool \<Rightarrow> string \<Rightarrow> matcher_states \<Rightarrow> bool" where
  "tracks p w u states \<longleftrightarrow>
     states_ok states \<and> (\<forall>i \<le> length p. bit_is_set states i \<longleftrightarrow> at_state p w u i)"

lemma reaches_star_mono: "is_star p w i \<Longrightarrow> reaches p w u i \<Longrightarrow> reaches p w u (Suc i)"
proof -
  assume star: "is_star p w i" and "reaches p w u i"
  then obtain a where "suffix a u" "glob w (take i p) a" by (auto simp: reaches_def)
  moreover from star have "i < length p" by (simp add: is_star_def)
  ultimately show ?thesis
    using star unfolding reaches_Suc [OF \<open>i < length p\<close>]
    by (intro exI [of _ a] exI [of _ "[]"]) (simp add: is_star_def token_matches_def)
qed

lemma at_state_0 [simp]: "at_state p w u 0"
  using reaches_star_mono [of p w 0 u] by (simp add: at_state_def)

lemma at_state_end: "at_state p w u (length p) = reaches p w u (length p)"
  by (simp add: at_state_def is_star_def)

lemma at_state_star_mono: "is_star p w i \<Longrightarrow> at_state p w u i \<Longrightarrow> at_state p w u (Suc i)"
  using reaches_star_mono [of p w "Suc i" u] by (simp add: at_state_def)

lemma closure_from_snoc:
  "closure_from k (p @ [t]) states =
     (let states' = closure_from k p states in
      if t = CHR ''*'' \<and> bit_is_set states' (k + length p)
      then set_state_bit states' (k + length p + 1) else states')"
  by (induction k p states rule: closure_from.induct) (simp_all add: Let_def)

text \<open>One pass in order closes chains of stars.\<close>

lemma closure_bits:
  assumes "states_ok states" and "length p < 319"
    and "R 0 = bit_is_set states 0"
    and "\<And>i. i < length p \<Longrightarrow> R (Suc i) = (bit_is_set states (Suc i) \<or> p ! i = CHR ''*'' \<and> R i)"
  shows "(\<forall>i \<le> length p. bit_is_set (closure_from 0 p states) i = R i)
    \<and> (\<forall>i. length p < i \<and> i < 320 \<longrightarrow> bit_is_set (closure_from 0 p states) i = bit_is_set states i)"
  using assms(2,4)
proof (induction p rule: rev_induct)
  case (snoc t p)
  have IH: "\<forall>i \<le> length p. bit_is_set (closure_from 0 p states) i = R i"
    "\<forall>i. length p < i \<and> i < 320 \<longrightarrow> bit_is_set (closure_from 0 p states) i = bit_is_set states i"
    using snoc.IH snoc.prems by (simp_all add: nth_append)
  have last: "R (Suc (length p)) = (bit_is_set states (Suc (length p)) \<or> t = CHR ''*'' \<and> R (length p))"
    using snoc.prems(2) [of "length p"] by simp
  have ok: "states_ok (closure_from 0 p states)" using assms(1) by simp
  have set: "bit_is_set (set_state_bit (closure_from 0 p states) (Suc (length p))) j
      = (j = Suc (length p) \<or> bit_is_set (closure_from 0 p states) j)" if "j < 320" for j
    using bit_set_state_bit [OF ok _ that, of "Suc (length p)"] snoc.prems(1) by simp
  show ?case
    using IH last snoc.prems(1) by (auto simp: closure_from_snoc set le_Suc_eq Let_def)
qed (use assms(3) in simp)

lemma step_from_snoc:
  "step_from w b states k (p @ [t]) ns =
     (let ns' = step_from w b states k p ns; index = k + length p in
      if \<not> bit_is_set states index then ns'
      else if w \<and> t = CHR ''*'' then set_state_bit ns' index
      else if t = b \<or> w \<and> t = CHR ''?'' then set_state_bit ns' (index + 1)
      else ns')"
  by (induction p arbitrary: k ns) (simp_all add: Let_def)

lemma step_from_ok [simp]: "states_ok (step_from w b states k p ns) = states_ok ns"
  by (induction p arbitrary: k ns) simp_all

definition takes_byte :: "string \<Rightarrow> bool \<Rightarrow> char \<Rightarrow> nat \<Rightarrow> bool" where
  "takes_byte p w b i \<longleftrightarrow> i < length p \<and> \<not> is_star p w i \<and> (p ! i = b \<or> w \<and> p ! i = CHR ''?'')"

lemma step_bits:
  assumes "length p < 319"
  defines "ns \<equiv> set_state_bit no_states 0"
  shows "\<forall>i < 320. bit_is_set (step_from w b states 0 p ns) i \<longleftrightarrow>
    i = 0 \<or> is_star p w i \<and> bit_is_set states i
    \<or> (\<exists>j. i = Suc j \<and> takes_byte p w b j \<and> bit_is_set states j)"
  using assms(1)
proof (induction p rule: rev_induct)
  case Nil
  then show ?case by (auto simp: ns_def bit_set_state_bit is_star_def takes_byte_def)
next
  case (snoc t p)
  have ok: "states_ok (step_from w b states 0 p ns)" by (simp add: ns_def)
  have set: "bit_is_set (set_state_bit (step_from w b states 0 p ns) k) j
      = (j = k \<or> bit_is_set (step_from w b states 0 p ns) j)" if "j < 320" "k < 320" for j k
    using bit_set_state_bit [OF ok that(2,1)] .
  have star: "is_star (p @ [t]) w i \<longleftrightarrow> is_star p w i \<or> i = length p \<and> w \<and> t = CHR ''*''" for i
    by (auto simp: is_star_def nth_append)
  have takes: "takes_byte (p @ [t]) w b i \<longleftrightarrow> takes_byte p w b i
      \<or> i = length p \<and> \<not> (w \<and> t = CHR ''*'') \<and> (t = b \<or> w \<and> t = CHR ''?'')" for i
    by (auto simp: takes_byte_def is_star_def nth_append)
  have len: "length p < 319" using snoc.prems by simp
  show ?case
  proof (intro allI impI)
    fix i :: nat
    assume i: "i < 320"
    let ?b = "bit_is_set states (length p)" and ?st = "w \<and> t = CHR ''*''"
      and ?m = "t = b \<or> w \<and> t = CHR ''?''"
    have "bit_is_set (step_from w b states 0 (p @ [t]) ns) i \<longleftrightarrow>
        bit_is_set (step_from w b states 0 p ns) i \<or> ?b \<and> ?st \<and> i = length p
        \<or> ?b \<and> \<not> ?st \<and> ?m \<and> i = Suc (length p)"
      using i len set [of i "length p"] set [of i "Suc (length p)"]
      by (auto simp: step_from_snoc Let_def)
    also have "bit_is_set (step_from w b states 0 p ns) i \<longleftrightarrow>
        i = 0 \<or> is_star p w i \<and> bit_is_set states i
        \<or> (\<exists>j. i = Suc j \<and> takes_byte p w b j \<and> bit_is_set states j)"
      using snoc.IH [OF len] i by blast
    finally show "bit_is_set (step_from w b states 0 (p @ [t]) ns) i \<longleftrightarrow>
        i = 0 \<or> is_star (p @ [t]) w i \<and> bit_is_set states i
        \<or> (\<exists>j. i = Suc j \<and> takes_byte (p @ [t]) w b j \<and> bit_is_set states j)"
      unfolding star takes by blast
  qed
qed

lemma at_state_byte:
  assumes "i < length p"
  shows "at_state p w (u @ [b]) (Suc i) \<longleftrightarrow>
    is_star p w (Suc i) \<and> at_state p w u (Suc i) \<or> takes_byte p w b i \<and> at_state p w u i
    \<or> is_star p w i \<and> at_state p w (u @ [b]) i"
proof -
  have star: "reaches p w (u @ [b]) (Suc j) \<longleftrightarrow> reaches p w (u @ [b]) j \<or> reaches p w u (Suc j)"
    if "is_star p w j" for j
    using that by (intro reaches_star) (auto simp: is_star_def)
  have byte: "reaches p w (u @ [b]) (Suc i) \<longleftrightarrow> reaches p w u i \<and> takes_byte p w b i"
    if "\<not> is_star p w i"
    using that assms reaches_byte [of i p w u b] by (auto simp: is_star_def takes_byte_def)
  have "takes_byte p w b i \<Longrightarrow> \<not> is_star p w i" by (simp add: takes_byte_def)
  then show ?thesis
    by (cases "is_star p w i"; cases "is_star p w (Suc i)") (auto simp: at_state_def star byte)
qed

lemma step_tracks:
  assumes "tracks p w u states" and "length p \<le> maximum_pattern_bytes"
  shows "tracks p w (u @ [b]) (step_byte p w states b)"
proof -
  let ?N = "step_from w b states 0 p (set_state_bit no_states 0)"
  have len: "length p < 319" using assms(2) by (simp add: maximum_pattern_bytes_def)
  have bits: "bit_is_set states i = at_state p w u i" if "i \<le> length p" for i
    using assms(1) that by (simp add: tracks_def)
  have ok: "states_ok ?N" by simp
  have N: "bit_is_set ?N i \<longleftrightarrow> i = 0 \<or> is_star p w i \<and> at_state p w u i
      \<or> (\<exists>j. i = Suc j \<and> takes_byte p w b j \<and> at_state p w u j)" if "i \<le> length p" for i
    using step_bits [OF len, of w b states] that len bits by auto
  have R: "at_state p w (u @ [b]) (Suc i) = (bit_is_set ?N (Suc i) \<or> is_star p w i \<and> at_state p w (u @ [b]) i)"
    if "i < length p" for i
    using at_state_byte [OF that] N [of "Suc i"] that by auto
  show ?thesis
  proof (cases w)
    case True
    then have "is_star p w i \<longleftrightarrow> p ! i = CHR ''*''" if "i < length p" for i
      using that by (simp add: is_star_def)
    with R N [of 0] closure_bits [OF ok len, of "at_state p w (u @ [b])"] True show ?thesis
      by (simp add: tracks_def step_byte_def epsilon_closure_def)
  next
    case False
    have "bit_is_set ?N i = at_state p w (u @ [b]) i" if "i \<le> length p" for i
      using R [of "i - 1"] N [of 0] that False by (cases i) (simp_all add: is_star_def)
    with False ok show ?thesis by (simp add: tracks_def step_byte_def epsilon_closure_def)
  qed
qed

lemma closure_tracks_again:
  assumes "tracks p w u states" and "length p \<le> maximum_pattern_bytes"
  shows "tracks p w u (epsilon_closure p w (set_state_bit states 0))"
proof -
  have len: "length p < 319" using assms(2) by (simp add: maximum_pattern_bytes_def)
  let ?s = "set_state_bit states 0"
  have ok: "states_ok ?s" using assms(1) by (simp add: tracks_def)
  have bits: "bit_is_set ?s i = at_state p w u i" if "i \<le> length p" for i
    using assms(1) that len bit_set_state_bit [of states 0 i] by (auto simp: tracks_def)
  show ?thesis
  proof (cases w)
    case True
    then have star: "is_star p w i \<longleftrightarrow> p ! i = CHR ''*''" if "i < length p" for i
      using that by (simp add: is_star_def)
    have "at_state p w u (Suc i) = (bit_is_set ?s (Suc i) \<or> p ! i = CHR ''*'' \<and> at_state p w u i)"
      if "i < length p" for i
      using that star at_state_star_mono [of p w i u] bits [of "Suc i"] by auto
    with closure_bits [OF ok len, of "at_state p w u"] bits [of 0] True ok show ?thesis
      by (simp add: tracks_def epsilon_closure_def)
  next
    case False
    with bits ok show ?thesis by (simp add: tracks_def epsilon_closure_def)
  qed
qed

lemma closure_tracks_start:
  assumes "length p \<le> maximum_pattern_bytes"
  shows "tracks p w [] (epsilon_closure p w (set_state_bit no_states 0))"
proof -
  have len: "length p < 319" using assms by (simp add: maximum_pattern_bytes_def)
  let ?s = "set_state_bit no_states 0"
  have ok: "states_ok ?s" by simp
  have bits: "bit_is_set ?s i = (i = 0)" if "i \<le> length p" for i
    using that len bit_set_state_bit [of no_states 0 i] by auto
  have R: "at_state p w [] (Suc i) = (is_star p w i \<and> at_state p w [] i)" if "i < length p" for i
    using that reaches_nil_Suc [of i p w] reaches_nil_Suc [of "Suc i" p w]
    by (auto simp: at_state_def is_star_def)
  show ?thesis
  proof (cases w)
    case True
    then have star: "is_star p w i \<longleftrightarrow> p ! i = CHR ''*''" if "i < length p" for i
      using that by (simp add: is_star_def)
    with closure_bits [OF ok len, of "at_state p w []"] bits R True show ?thesis
      by (simp add: tracks_def epsilon_closure_def)
  next
    case False
    have "at_state p w [] i = (i = 0)" if "i \<le> length p" for i
      using R [of "i - 1"] that False by (cases i) (simp_all add: is_star_def)
    with False bits ok show ?thesis by (simp add: tracks_def epsilon_closure_def)
  qed
qed

subsection \<open>Matching\<close>

lemma feed_bytes_tracks:
  assumes "tracks p w u states" and "length p \<le> maximum_pattern_bytes"
    and "feed_bytes p w states bytes = (b, states')"
  shows "(b \<longleftrightarrow> (if bytes = [] then reaches p w u (length p)
              else \<exists>v. v \<noteq> [] \<and> prefix v bytes \<and> reaches p w (u @ v) (length p)))
    \<and> (\<not> b \<longrightarrow> tracks p w (u @ bytes) states')"
  using assms
proof (induction bytes arbitrary: u states b states')
  case Nil
  then show ?case by (auto simp: tracks_def at_state_end)
next
  case (Cons c bytes)
  let ?s = "step_byte p w states c"
  from step_tracks [OF Cons.prems(1,2)] have tr: "tracks p w (u @ [c]) ?s" .
  then have acc: "bit_is_set ?s (length p) \<longleftrightarrow> reaches p w (u @ [c]) (length p)"
    by (simp add: tracks_def at_state_end)
  have split: "(\<exists>v. v \<noteq> [] \<and> prefix v (c # bytes) \<and> reaches p w (u @ v) (length p)) \<longleftrightarrow>
      reaches p w (u @ [c]) (length p)
      \<or> (\<exists>v. v \<noteq> [] \<and> prefix v bytes \<and> reaches p w ((u @ [c]) @ v) (length p))"
  proof -
    have "(\<exists>v. v \<noteq> [] \<and> prefix v (c # bytes) \<and> P v) \<longleftrightarrow> (\<exists>v. prefix v bytes \<and> P (c # v))" for P
      by (auto simp: prefix_Cons)
    moreover have "(\<exists>v. prefix v bytes \<and> P (c # v)) \<longleftrightarrow>
        P [c] \<or> (\<exists>v. v \<noteq> [] \<and> prefix v bytes \<and> P (c # v))" for P
      by (metis Nil_prefix)
    ultimately show ?thesis by simp
  qed
  show ?case
  proof (cases "bit_is_set ?s (length p)")
    case True
    with Cons.prems(3) acc split show ?thesis by (auto simp: Let_def)
  next
    case False
    with Cons.prems(3) have "feed_bytes p w ?s bytes = (b, states')" by (simp add: Let_def)
    from Cons.IH [OF tr Cons.prems(2) this] False acc split show ?thesis by auto
  qed
qed

definition valid_pattern :: "string \<Rightarrow> bool" where
  "valid_pattern p \<longleftrightarrow> p \<noteq> [] \<and> length p \<le> maximum_pattern_bytes"

lemma matches_pattern_eq:
  "matches_pattern p w bytes =
     (if valid_pattern p then Inr (\<exists>s. sublist s bytes \<and> glob w p s) else Inl InvalidPattern)"
proof (cases "valid_pattern p")
  case True
  then have len: "length p \<le> maximum_pattern_bytes" and ne: "p \<noteq> []" by (simp_all add: valid_pattern_def)
  obtain b st where fb: "feed_bytes p w (epsilon_closure p w (set_state_bit no_states 0)) bytes = (b, st)"
    by fastforce
  have nil: "reaches p w v (length p)" if "reaches p w [] (length p)" for v
    using that by (auto simp: reaches_def intro!: exI [of _ "[]"])
  have "b \<longleftrightarrow> (\<exists>v. prefix v bytes \<and> reaches p w v (length p))"
  proof (cases bytes)
    case Nil
    with feed_bytes_tracks [OF closure_tracks_start [OF len] len fb] show ?thesis by simp
  next
    case (Cons c cs)
    then have "b \<longleftrightarrow> (\<exists>v. v \<noteq> [] \<and> prefix v bytes \<and> reaches p w v (length p))"
      using feed_bytes_tracks [OF closure_tracks_start [OF len] len fb] by simp
    moreover have "prefix [c] bytes" using Cons by simp
    ultimately show ?thesis using nil by (metis list.distinct(1))
  qed
  with fb True ne len show ?thesis
    by (simp add: matches_pattern_def pattern_feed_def reaches_all)
next
  case False
  then show ?thesis by (auto simp: matches_pattern_def pattern_feed_def valid_pattern_def)
qed

lemma literal_pattern_eq:
  "matches_pattern p False bytes =
     (if valid_pattern p then Inr (contains_str bytes p) else Inl InvalidPattern)"
  by (simp add: matches_pattern_eq glob_literal contains_str_def)

text \<open>
  C38. For a pattern of 1 to 256 bytes the matcher says yes exactly if some part of the bytes
  matches it: the wildcard pattern as a glob, the plain one as a substring; any other pattern is
  refused.
\<close>

theorem matcher_finds_exactly_the_matches:
  "matches_pattern p w bytes =
     (if 1 \<le> length p \<and> length p \<le> 256 then Inr (\<exists>s. sublist s bytes \<and> glob w p s)
      else Inl InvalidPattern)
   \<and> (glob False p s \<longleftrightarrow> s = p)"
  by (cases p) (simp_all add: matches_pattern_eq valid_pattern_def maximum_pattern_bytes_def glob_literal)

subsection \<open>Chunks\<close>

text \<open>Feeding the chunks of an output until one of them completes a match.\<close>

fun feed_chunks :: "string \<Rightarrow> bool \<Rightarrow> matcher_states \<Rightarrow> string list \<Rightarrow> monitor_error + bool" where
  "feed_chunks p w states [] = Inr False"
| "feed_chunks p w states (c # cs) =
     (case pattern_feed p w states c of
        (Inl e, states') \<Rightarrow> Inl e
      | (Inr b, states') \<Rightarrow> if b then Inr True else feed_chunks p w states' cs)"

lemma prefix_append_ex:
  "(\<exists>v. prefix v (a @ b) \<and> P v) \<longleftrightarrow> (\<exists>v. prefix v a \<and> P v) \<or> (\<exists>v. prefix v b \<and> P (a @ v))"
  by (auto simp: prefix_append)

lemma feed_chunks_tracks:
  assumes "tracks p w u states" and "valid_pattern p" and "\<not> reaches p w u (length p)"
  shows "feed_chunks p w states cs = Inr (\<exists>v. prefix v (concat cs) \<and> reaches p w (u @ v) (length p))"
  using assms(1,3)
proof (induction cs arbitrary: u states)
  case (Cons c cs)
  from assms(2) have len: "length p \<le> maximum_pattern_bytes" and ne: "p \<noteq> []"
    by (simp_all add: valid_pattern_def)
  obtain b st where fb: "feed_bytes p w (epsilon_closure p w (set_state_bit states 0)) c = (b, st)"
    by fastforce
  note fed = feed_bytes_tracks [OF closure_tracks_again [OF Cons.prems(1) len] len fb]
  have b: "b \<longleftrightarrow> (\<exists>v. prefix v c \<and> reaches p w (u @ v) (length p))"
    using fed Cons.prems(2) by (cases "c = []") (auto, metis append_Nil2)
  show ?case
  proof (cases b)
    case True
    with b fb len ne show ?thesis
      by (simp add: pattern_feed_def prefix_append_ex)
  next
    case False
    with b have "\<not> reaches p w (u @ c) (length p)" by blast
    moreover from fed False have "tracks p w (u @ c) st" by blast
    ultimately have rest: "feed_chunks p w st cs =
        Inr (\<exists>v. prefix v (concat cs) \<and> reaches p w (u @ c @ v) (length p))"
      using Cons.IH [of "u @ c" st] by simp
    from False fb len ne have "feed_chunks p w states (c # cs) = feed_chunks p w st cs"
      by (simp add: pattern_feed_def)
    moreover from False b have "\<not> (\<exists>v. prefix v c \<and> reaches p w (u @ v) (length p))" by blast
    ultimately show ?thesis
      unfolding rest concat.simps prefix_append_ex by (simp only: simp_thms)
  qed
qed simp

text \<open>
  However an output is cut into chunks, feeding them one by one reports a match exactly if the
  whole output holds one, also one that spans several chunks.
\<close>

theorem chunks_do_not_hide_matches:
  "feed_chunks p w no_states (c # cs) = matches_pattern p w (concat (c # cs))"
proof (cases "valid_pattern p")
  case True
  then have len: "length p \<le> maximum_pattern_bytes" and ne: "p \<noteq> []" by (simp_all add: valid_pattern_def)
  obtain b st where fb: "feed_bytes p w (epsilon_closure p w (set_state_bit no_states 0)) c = (b, st)"
    by fastforce
  note fed = feed_bytes_tracks [OF closure_tracks_start [OF len] len fb]
  from fb len ne have "matches_pattern p w c = Inr b"
    by (simp add: matches_pattern_def pattern_feed_def)
  then have b: "b \<longleftrightarrow> (\<exists>v. prefix v c \<and> reaches p w v (length p))"
    using True by (simp add: matches_pattern_eq reaches_all)
  have whole: "matches_pattern p w (concat (c # cs)) =
      Inr (\<exists>v. prefix v (c @ concat cs) \<and> reaches p w v (length p))"
    using True by (simp add: matches_pattern_eq reaches_all)
  show ?thesis
  proof (cases b)
    case True
    with b fb len ne show ?thesis
      unfolding whole by (simp add: pattern_feed_def prefix_append_ex)
  next
    case False
    with b have no: "\<not> reaches p w c (length p)" by blast
    from fed False have "tracks p w c st" by simp
    note rest = feed_chunks_tracks [OF this True no, of cs]
    from False fb len ne have "feed_chunks p w no_states (c # cs) = feed_chunks p w st cs"
      by (simp add: pattern_feed_def)
    moreover from False b have "\<not> (\<exists>v. prefix v c \<and> reaches p w v (length p))" by blast
    ultimately show ?thesis unfolding whole rest prefix_append_ex by (simp only: simp_thms)
  qed
next
  case False
  then have "p = [] \<or> maximum_pattern_bytes < length p" by (auto simp: valid_pattern_def)
  then show ?thesis by (simp add: matches_pattern_def pattern_feed_def)
qed

end
