(* ===== verification/Monitor.thy ===== *)
theory Monitor
  imports Pattern
begin

section \<open>Terminal monitors\<close>

text \<open>
  \<open>fx-process/src/monitor.rs\<close>: the state machine of a terminal monitor. Clocks are \<open>i64\<close>
  milliseconds and counters \<open>u64\<close>, both as words. A method that takes \<open>&mut self\<close> and returns a
  \<open>Result\<close> gives the result and the monitor it leaves, also on an error.
\<close>

definition minimum_schedule_ms :: nat where
  "minimum_schedule_ms = 10"

definition maximum_schedule_ms :: nat where
  "maximum_schedule_ms = 24 * 60 * 60 * 1000"

definition maximum_lifetime_ms :: nat where
  "maximum_lifetime_ms = 365 * 24 * 60 * 60 * 1000"

definition maximum_monitor_id_bytes :: nat where
  "maximum_monitor_id_bytes = 128"

definition maximum_authority_text_bytes :: nat where
  "maximum_authority_text_bytes = 4096"

definition maximum_command_bytes :: nat where
  "maximum_command_bytes = 64 * 1024"

datatype monitor_signal = Hangup | Interrupt | Quit | Terminate | Kill

datatype monitor_condition =
    ProcessExit
  | ExitCode "32 word"
  | Signal monitor_signal
  | OutputContains string
  | OutputMatches string
  | OutputQuiet u64
  | ScreenMatches string
  | TcpReady string "16 word"
  | HttpReady string
  | PathExists string
  | PathChanged string
  | PathSize string u64
  | CustomProbe string string

fun requires_polling :: "monitor_condition \<Rightarrow> bool" where
  "requires_polling (TcpReady _ _) = True"
| "requires_polling (HttpReady _) = True"
| "requires_polling (PathExists _) = True"
| "requires_polling (PathChanged _) = True"
| "requires_polling (PathSize _ _) = True"
| "requires_polling (CustomProbe _ _) = True"
| "requires_polling _ = False"

fun is_gap_sensitive :: "monitor_condition \<Rightarrow> bool" where
  "is_gap_sensitive (OutputContains _) = True"
| "is_gap_sensitive (OutputMatches _) = True"
| "is_gap_sensitive (OutputQuiet _) = True"
| "is_gap_sensitive (ScreenMatches _) = True"
| "is_gap_sensitive _ = False"

definition valid_text :: "string \<Rightarrow> nat \<Rightarrow> monitor_error \<Rightarrow> monitor_error + unit" where
  "valid_text s maximum e =
     (if s = [] \<or> maximum < length s \<or> CHR 0x00 \<in> set s then Inl e else Inr ())"

definition validate_schedule :: "u64 \<Rightarrow> monitor_error + unit" where
  "validate_schedule interval =
     (if minimum_schedule_ms \<le> unat interval \<and> unat interval \<le> maximum_schedule_ms
      then Inr () else Inl InvalidSchedule)"

definition validate_monitor_id :: "string \<Rightarrow> monitor_error + unit" where
  "validate_monitor_id s = valid_text s maximum_monitor_id_bytes InvalidMonitor"

fun validate_condition :: "monitor_condition \<Rightarrow> monitor_error + unit" where
  "validate_condition ProcessExit = Inr ()"
| "validate_condition (ExitCode _) = Inr ()"
| "validate_condition (Signal _) = Inr ()"
| "validate_condition (OutputContains p) = valid_text p maximum_pattern_bytes InvalidCondition"
| "validate_condition (OutputMatches p) = valid_text p maximum_pattern_bytes InvalidCondition"
| "validate_condition (ScreenMatches p) = valid_text p maximum_pattern_bytes InvalidCondition"
| "validate_condition (OutputQuiet duration) =
     map_err (\<lambda>_. InvalidCondition) (validate_schedule duration)"
| "validate_condition (TcpReady host port) =
     and_then (valid_text host maximum_authority_text_bytes InvalidCondition)
       (\<lambda>_. if port = 0 then Inl InvalidCondition else Inr ())"
| "validate_condition (HttpReady p) = valid_text p maximum_authority_text_bytes InvalidCondition"
| "validate_condition (PathExists p) = valid_text p maximum_authority_text_bytes InvalidCondition"
| "validate_condition (PathChanged p) = valid_text p maximum_authority_text_bytes InvalidCondition"
| "validate_condition (PathSize p _) = valid_text p maximum_authority_text_bytes InvalidCondition"
| "validate_condition (CustomProbe command cwd) =
     and_then (valid_text command maximum_command_bytes InvalidCondition)
       (\<lambda>_. valid_text cwd maximum_authority_text_bytes InvalidCondition)"

datatype notify_schedule =
    OnMatch
  | OnStateChange
  | OnExit
  | EveryCheck
  | EveryNChecks "32 word"
  | Interval u64

datatype monitor_lifetime = UntilMatch | UntilSessionEnd | Duration u64

record monitor_definition =
  condition :: monitor_condition
  check_interval_ms :: "u64 option"
  notify :: notify_schedule
  lifetime :: monitor_lifetime

definition validate_notify :: "notify_schedule \<Rightarrow> monitor_error + unit" where
  "validate_notify n =
     (case n of
        EveryNChecks count \<Rightarrow> if count = 0 \<or> 1000000 < unat count then Inl InvalidSchedule else Inr ()
      | Interval interval \<Rightarrow> validate_schedule interval
      | _ \<Rightarrow> Inr ())"

definition validate_lifetime :: "monitor_lifetime \<Rightarrow> monitor_error + unit" where
  "validate_lifetime l =
     (case l of
        Duration d \<Rightarrow> if d = 0 \<or> maximum_lifetime_ms < unat d then Inl InvalidLifetime else Inr ()
      | _ \<Rightarrow> Inr ())"

definition validate_checks :: "monitor_condition \<Rightarrow> u64 option \<Rightarrow> monitor_error + unit" where
  "validate_checks c interval =
     (case (requires_polling c, interval) of
        (True, Some i) \<Rightarrow> validate_schedule i
      | (True, None) \<Rightarrow> Inl MissingCheckSchedule
      | (False, Some _) \<Rightarrow> Inl UnexpectedCheckSchedule
      | (False, None) \<Rightarrow> Inr ())"

definition validate_definition :: "monitor_definition \<Rightarrow> monitor_error + unit" where
  "validate_definition d =
     and_then (validate_condition (condition d)) (\<lambda>_.
     and_then (validate_notify (notify d)) (\<lambda>_.
     and_then (validate_lifetime (lifetime d)) (\<lambda>_.
       validate_checks (condition d) (check_interval_ms d))))"

datatype monitor_operation =
    AddMonitor monitor_definition
  | UpdateMonitor string monitor_definition
  | PauseMonitor string
  | ResumeMonitor string
  | RemoveMonitor string

fun validate_operation :: "monitor_operation \<Rightarrow> monitor_error + unit" where
  "validate_operation (AddMonitor d) = validate_definition d"
| "validate_operation (UpdateMonitor i d) =
     and_then (validate_monitor_id i) (\<lambda>_. validate_definition d)"
| "validate_operation (PauseMonitor i) = validate_monitor_id i"
| "validate_operation (ResumeMonitor i) = validate_monitor_id i"
| "validate_operation (RemoveMonitor i) = validate_monitor_id i"

datatype monitor_state = Active | Paused | Matched | Degraded

datatype event_reason =
    MatchedEvent
  | StateChanged
  | SessionExitEvent
  | CheckEvent
  | IntervalEvent
  | Expired
  | Removed
  | PausedEvent
  | Resumed
  | Updated

datatype observation = Check | Output | Screen | Quiet | Exit | SessionExit

record path_baseline =
  pb_exists :: bool
  pb_size :: u64
  pb_modified_ns :: int

record monitor =
  monitor_id :: string
  mon_definition :: monitor_definition
  state :: monitor_state
  generation :: u64
  created_at_ms :: i64
  lifetime_deadline_ms :: "i64 option"
  next_check_ms :: "i64 option"
  next_notification_ms :: "i64 option"
  check_count :: u64
  notification_count :: u64
  last_event_id :: u64
  last_event_reason :: "event_reason option"
  condition_matched :: bool
  baseline :: "path_baseline option"
  probe_cwd_fingerprint :: "nat list option"
  matcher_states :: matcher_states

record decision =
  dec_notify :: "event_reason option"
  dec_remove :: bool
  dec_state_changed :: bool

definition no_decision :: decision where
  "no_decision = \<lparr>dec_notify = None, dec_remove = False, dec_state_changed = False\<rparr>"

subsection \<open>Deadlines\<close>

text \<open>\<open>i64::try_from(u64)\<close>.\<close>

definition i64_of_u64 :: "u64 \<Rightarrow> monitor_error + i64" where
  "i64_of_u64 d = (if unat d < 2 ^ 63 then Inr d else Inl DeadlineOverflow)"

definition deadline :: "i64 \<Rightarrow> u64 \<Rightarrow> monitor_error + i64" where
  "deadline now duration =
     and_then (i64_of_u64 duration) (\<lambda>d. ok_or DeadlineOverflow (checked_add_i64 now d))"

text \<open>
  \<open>elapsed / interval\<close> divides two values that are not negative here; the \<open>+ 1\<close> is the machine's.
\<close>

definition advance_deadline :: "i64 \<Rightarrow> u64 \<Rightarrow> i64 \<Rightarrow> monitor_error + i64" where
  "advance_deadline current interval_ms now =
     and_then (i64_of_u64 interval_ms) (\<lambda>interval.
       if sint interval \<le> 0 then Inl InvalidSchedule
       else if sint now < sint current then Inr current
       else and_then (ok_or DeadlineOverflow (checked_sub_i64 now current)) (\<lambda>elapsed.
         let steps = word_of_int (sint elapsed div sint interval) + 1 in
         and_then (ok_or DeadlineOverflow (checked_mul_i64 steps interval)) (\<lambda>offset.
           ok_or DeadlineOverflow (checked_add_i64 current offset))))"

definition earlier :: "i64 option \<Rightarrow> i64 option \<Rightarrow> i64 option" where
  "earlier left right =
     (case (left, right) of
        (None, v) \<Rightarrow> v
      | (Some l, None) \<Rightarrow> Some l
      | (Some l, Some r) \<Rightarrow> Some (if sint l \<le> sint r then l else r))"

definition stable_id :: "u64 \<Rightarrow> monitor_error + string" where
  "stable_id n = (if n = 0 then Inl IdExhausted else Inr (''monitor-'' @ show_nat (unat n)))"

text \<open>\<open>is_some_and(|due| now_ms >= due)\<close>.\<close>

definition due_at :: "i64 option \<Rightarrow> i64 \<Rightarrow> bool" where
  "due_at due now = (case due of None \<Rightarrow> False | Some d \<Rightarrow> sint d \<le> sint now)"

subsection \<open>The monitor\<close>

definition opt_deadline :: "i64 \<Rightarrow> u64 option \<Rightarrow> monitor_error + i64 option" where
  "opt_deadline now d =
     (case d of None \<Rightarrow> Inr None | Some d \<Rightarrow> and_then (deadline now d) (\<lambda>t. Inr (Some t)))"

definition lifetime_duration :: "monitor_lifetime \<Rightarrow> u64 option" where
  "lifetime_duration l = (case l of Duration d \<Rightarrow> Some d | _ \<Rightarrow> None)"

definition quiet_duration :: "monitor_condition \<Rightarrow> u64 option" where
  "quiet_duration c = (case c of OutputQuiet d \<Rightarrow> Some d | _ \<Rightarrow> None)"

definition notify_interval :: "notify_schedule \<Rightarrow> u64 option" where
  "notify_interval n = (case n of Interval i \<Rightarrow> Some i | _ \<Rightarrow> None)"

text \<open>The time of the next check: the check interval, or else the quiet period.\<close>

definition check_duration :: "monitor_definition \<Rightarrow> u64 option" where
  "check_duration d =
     (case check_interval_ms d of Some i \<Rightarrow> Some i | None \<Rightarrow> quiet_duration (condition d))"

definition new_monitor :: "string \<Rightarrow> monitor_definition \<Rightarrow> i64 \<Rightarrow> monitor_error + monitor" where
  "new_monitor ident d now =
     and_then (validate_definition d) (\<lambda>_.
     and_then (ensure (0 \<le> sint now) InvalidClock) (\<lambda>_.
     and_then (validate_monitor_id ident) (\<lambda>_.
     and_then (opt_deadline now (lifetime_duration (lifetime d))) (\<lambda>lifetime_deadline.
     and_then (opt_deadline now (check_duration d)) (\<lambda>next_check.
     and_then (opt_deadline now (notify_interval (notify d))) (\<lambda>next_notification.
       Inr \<lparr>monitor_id = ident, mon_definition = d, state = Active, generation = 1,
            created_at_ms = now, lifetime_deadline_ms = lifetime_deadline,
            next_check_ms = next_check, next_notification_ms = next_notification,
            check_count = 0, notification_count = 0, last_event_id = 0, last_event_reason = None,
            condition_matched = False, baseline = None, probe_cwd_fingerprint = None,
            matcher_states = no_states\<rparr>))))))"

definition is_expired :: "monitor \<Rightarrow> i64 \<Rightarrow> monitor_error + bool" where
  "is_expired m now =
     (if sint now < 0 then Inl InvalidClock else Inr (due_at (lifetime_deadline_ms m) now))"

definition state_notification :: "monitor \<Rightarrow> event_reason \<Rightarrow> event_reason option" where
  "state_notification m reason = (if notify (mon_definition m) = OnStateChange then Some reason else None)"

definition final_decision :: "event_reason option \<Rightarrow> decision" where
  "final_decision n = \<lparr>dec_notify = n, dec_remove = True, dec_state_changed = True\<rparr>"

text \<open>\<open>matches!(self.runtime.state, Paused | Degraded)\<close>.\<close>

definition suspended :: "monitor \<Rightarrow> bool" where
  "suspended m \<longleftrightarrow> state m = Paused \<or> state m = Degraded"

text \<open>The two assignments of \<open>next_check_ms\<close> in \<open>observe\<close>; the second only for a quiet condition.\<close>

definition reschedule_check :: "observation \<Rightarrow> i64 \<Rightarrow> monitor \<Rightarrow> (monitor_error + unit) \<times> monitor" where
  "reschedule_check obs now m =
     (if obs = Check then
        (case check_interval_ms (mon_definition m) of
           None \<Rightarrow> (Inr (), m)
         | Some interval \<Rightarrow>
             let due = (case next_check_ms m of Some d \<Rightarrow> d | None \<Rightarrow> now) in
             (case advance_deadline due interval now of
                Inl e \<Rightarrow> (Inl e, m)
              | Inr next_due \<Rightarrow> (Inr (), m\<lparr>next_check_ms := Some next_due\<rparr>)))
      else if obs = Quiet then
        (case quiet_duration (condition (mon_definition m)) of
           None \<Rightarrow> (Inr (), m)
         | Some duration \<Rightarrow>
             (case deadline now duration of
                Inl e \<Rightarrow> (Inl e, m)
              | Inr next_due \<Rightarrow> (Inr (), m\<lparr>next_check_ms := Some next_due\<rparr>)))
      else (Inr (), m))"

text \<open>\<open>u64::is_multiple_of\<close>: of zero only zero is.\<close>

definition is_multiple_of :: "u64 \<Rightarrow> 32 word \<Rightarrow> bool" where
  "is_multiple_of n count \<longleftrightarrow> (if count = 0 then n = 0 else unat n mod unat count = 0)"

definition observe_notify :: "notify_schedule \<Rightarrow> u64 \<Rightarrow> bool \<Rightarrow> event_reason option" where
  "observe_notify n checks newly_matched =
     (case n of
        OnMatch \<Rightarrow> if newly_matched then Some MatchedEvent else None
      | OnStateChange \<Rightarrow> if newly_matched then Some StateChanged else None
      | EveryCheck \<Rightarrow> Some CheckEvent
      | EveryNChecks count \<Rightarrow> if is_multiple_of checks count then Some CheckEvent else None
      | _ \<Rightarrow> None)"

definition observe ::
  "observation \<Rightarrow> bool \<Rightarrow> i64 \<Rightarrow> monitor \<Rightarrow> (monitor_error + decision) \<times> monitor" where
  "observe obs condition_matches now m =
     (if suspended m then (Inr no_decision, m)
      else case is_expired m now of
          Inl e \<Rightarrow> (Inl e, m)
        | Inr True \<Rightarrow> (Inr (final_decision (state_notification m Expired)), m)
        | Inr False \<Rightarrow>
            if obs = SessionExit then
              (Inr (final_decision
                 (if notify (mon_definition m) = OnExit then Some SessionExitEvent
                  else state_notification m SessionExitEvent)), m)
            else case checked_add_u64 (check_count m) 1 of
                None \<Rightarrow> (Inl CounterOverflow, m)
              | Some count \<Rightarrow>
                  (case reschedule_check obs now (m\<lparr>check_count := count\<rparr>) of
                     (Inl e, m) \<Rightarrow> (Inl e, m)
                   | (Inr _, m) \<Rightarrow>
                       let newly_matched = condition_matches \<and> \<not> condition_matched m;
                           m = (if newly_matched then m\<lparr>condition_matched := True, state := Matched\<rparr> else m) in
                       (Inr \<lparr>dec_notify = observe_notify (notify (mon_definition m)) (check_count m) newly_matched,
                             dec_remove = (newly_matched \<and> lifetime (mon_definition m) = UntilMatch),
                             dec_state_changed = newly_matched\<rparr>, m)))"

definition timer_decision :: "i64 \<Rightarrow> monitor \<Rightarrow> (monitor_error + decision) \<times> monitor" where
  "timer_decision now m =
     (case is_expired m now of
        Inl e \<Rightarrow> (Inl e, m)
      | Inr True \<Rightarrow> (Inr (final_decision (state_notification m Expired)), m)
      | Inr False \<Rightarrow>
          if suspended m then (Inr no_decision, m)
          else case notify_interval (notify (mon_definition m)) of
              None \<Rightarrow> (Inr no_decision, m)
            | Some interval \<Rightarrow>
                (case next_notification_ms m of
                   None \<Rightarrow> (Inl InvalidState, m)
                 | Some due \<Rightarrow>
                     if sint now < sint due then (Inr no_decision, m)
                     else case advance_deadline due interval now of
                         Inl e \<Rightarrow> (Inl e, m)
                       | Inr next_due \<Rightarrow>
                           (Inr (no_decision\<lparr>dec_notify := Some IntervalEvent\<rparr>),
                            m\<lparr>next_notification_ms := Some next_due\<rparr>)))"

definition note_output :: "i64 \<Rightarrow> monitor \<Rightarrow> (monitor_error + unit) \<times> monitor" where
  "note_output now m =
     (case quiet_duration (condition (mon_definition m)) of
        None \<Rightarrow> (Inr (), m)
      | Some duration \<Rightarrow>
          (case deadline now duration of
             Inl e \<Rightarrow> (Inl e, m)
           | Inr due \<Rightarrow> (Inr (), m\<lparr>next_check_ms := Some due\<rparr>)))"

definition quiet_due :: "monitor \<Rightarrow> i64 \<Rightarrow> bool" where
  "quiet_due m now \<longleftrightarrow> state m \<noteq> Paused \<and> quiet_duration (condition (mon_definition m)) \<noteq> None
     \<and> due_at (next_check_ms m) now"

definition polling_due :: "monitor \<Rightarrow> i64 \<Rightarrow> bool" where
  "polling_due m now \<longleftrightarrow> \<not> suspended m \<and> requires_polling (condition (mon_definition m))
     \<and> due_at (next_check_ms m) now"

definition next_deadline :: "monitor \<Rightarrow> i64 option" where
  "next_deadline m =
     (if suspended m then lifetime_deadline_ms m
      else earlier (earlier (lifetime_deadline_ms m) (next_check_ms m)) (next_notification_ms m))"

definition pause :: "monitor \<Rightarrow> bool \<times> monitor" where
  "pause m = (if suspended m then (False, m) else (True, m\<lparr>state := Paused\<rparr>))"

definition resume :: "i64 \<Rightarrow> monitor \<Rightarrow> (monitor_error + bool) \<times> monitor" where
  "resume now m =
     (if state m \<noteq> Paused then (Inr False, m)
      else let m = m\<lparr>state := (if condition_matched m then Matched else Active)\<rparr> in
        (case opt_deadline now (check_duration (mon_definition m)) of
           Inl e \<Rightarrow> (Inl e, m)
         | Inr check \<Rightarrow>
             let m = (case check of None \<Rightarrow> m | Some t \<Rightarrow> m\<lparr>next_check_ms := Some t\<rparr>) in
             (case opt_deadline now (notify_interval (notify (mon_definition m))) of
                Inl e \<Rightarrow> (Inl e, m)
              | Inr notification \<Rightarrow>
                  (Inr True, (case notification of
                       None \<Rightarrow> m | Some t \<Rightarrow> m\<lparr>next_notification_ms := Some t\<rparr>)))))"

definition bump_generation :: "monitor \<Rightarrow> (monitor_error + unit) \<times> monitor" where
  "bump_generation m =
     (case checked_add_u64 (generation m) 1 of
        None \<Rightarrow> (Inl CounterOverflow, m)
      | Some g \<Rightarrow> (Inr (), m\<lparr>generation := g\<rparr>))"

definition degrade_for_raw_gap :: "monitor \<Rightarrow> (monitor_error + bool) \<times> monitor" where
  "degrade_for_raw_gap m =
     (if \<not> is_gap_sensitive (condition (mon_definition m)) \<or> state m = Degraded then (Inr False, m)
      else case bump_generation
             (m\<lparr>state := Degraded, matcher_states := no_states, next_check_ms := None,
                next_notification_ms := None\<rparr>) of
          (Inl e, m) \<Rightarrow> (Inl e, m)
        | (Inr _, m) \<Rightarrow> (Inr True, m))"

definition note_notification ::
  "u64 \<Rightarrow> event_reason \<Rightarrow> monitor \<Rightarrow> (monitor_error + unit) \<times> monitor" where
  "note_notification event_id reason m =
     (if event_id = 0 \<or> event_id \<le> last_event_id m then (Inl InvalidEventId, m)
      else let m = m\<lparr>last_event_id := event_id, last_event_reason := Some reason\<rparr> in
        (case checked_add_u64 (notification_count m) 1 of
           None \<Rightarrow> (Inl CounterOverflow, m)
         | Some n \<Rightarrow> (Inr (), m\<lparr>notification_count := n\<rparr>)))"

definition feed_output :: "string \<Rightarrow> monitor \<Rightarrow> (monitor_error + bool) \<times> monitor" where
  "feed_output bytes m =
     (case condition (mon_definition m) of
        OutputContains p \<Rightarrow>
          (case pattern_feed p False (matcher_states m) bytes of
             (r, states) \<Rightarrow> (r, m\<lparr>matcher_states := states\<rparr>))
      | OutputMatches p \<Rightarrow>
          (case pattern_feed p True (matcher_states m) bytes of
             (r, states) \<Rightarrow> (r, m\<lparr>matcher_states := states\<rparr>))
      | _ \<Rightarrow> (Inr False, m))"

definition validate_monitor :: "monitor \<Rightarrow> monitor_error + unit" where
  "validate_monitor m =
     and_then (validate_monitor_id (monitor_id m)) (\<lambda>_.
     and_then (validate_definition (mon_definition m)) (\<lambda>_.
     and_then (ensure (\<not> (generation m = 0 \<or> sint (created_at_ms m) < 0
         \<or> (0 < last_event_id m \<and> notification_count m = 0)
         \<or> ((last_event_id m = 0) \<noteq> (last_event_reason m = None))
         \<or> (condition_matched m \<and> state m = Active))) InvalidState) (\<lambda>_.
       ensure (\<not> (case lifetime_deadline_ms m of None \<Rightarrow> False
                  | Some d \<Rightarrow> sint d \<le> sint (created_at_ms m))) InvalidState)))"

fun show_monitor_error :: "monitor_error \<Rightarrow> string" where
  "show_monitor_error InvalidCondition = ''invalid monitor condition''"
| "show_monitor_error InvalidLifetime = ''invalid monitor lifetime''"
| "show_monitor_error InvalidSchedule = ''invalid monitor schedule''"
| "show_monitor_error MissingCheckSchedule = ''polling monitor requires check_interval_ms''"
| "show_monitor_error UnexpectedCheckSchedule = ''event-driven monitor cannot set check_interval_ms''"
| "show_monitor_error InvalidMonitor = ''invalid monitor''"
| "show_monitor_error InvalidState = ''invalid monitor state''"
| "show_monitor_error InvalidClock = ''invalid monitor clock''"
| "show_monitor_error InvalidPattern = ''invalid monitor pattern''"
| "show_monitor_error InvalidEventId = ''invalid monitor event id''"
| "show_monitor_error CounterOverflow = ''monitor counter overflow''"
| "show_monitor_error DeadlineOverflow = ''monitor deadline overflow''"
| "show_monitor_error IdExhausted = ''monitor id exhausted''"

end
