(* ===== verification/Monitor_Lifecycle.thy ===== *)
theory Monitor_Lifecycle
  imports Monitor
begin

section \<open>The life of a monitor\<close>

text \<open>
  Facts about \<open>fx-process/src/monitor.rs\<close>: deadlines advance past the clock on their own grid; every
  monitor that the operations can produce is valid, keeps its definition, and has the deadlines its
  schedule needs; a match is announced once; sleeping until \<open>next_deadline\<close> misses nothing.
\<close>

subsection \<open>Deadlines\<close>

lemma sint_word_of_int_i64: "i64_min \<le> v \<Longrightarrow> v \<le> i64_max \<Longrightarrow> sint (word_of_int v :: i64) = v"
  by (simp add: sint_sbintrunc' signed_take_bit_int_eq_self)

lemma sint_u64_small: "unat (d :: u64) < 2 ^ 63 \<Longrightarrow> sint d = int (unat d)"
proof -
  assume "unat d < 2 ^ 63"
  then have "unat d \<le> 9223372036854775807" by simp
  then have "int (unat d) \<le> int 9223372036854775807" by (rule of_nat_mono)
  also have "int 9223372036854775807 = i64_max" by simp
  finally have "int (unat d) \<le> i64_max" .
  moreover have "i64_min \<le> int (unat d)" by (rule order.trans [of _ 0]) simp_all
  ultimately show ?thesis
    using sint_word_of_int_i64 [of "int (unat d)"] by simp
qed

lemma i64_of_u64_Inr: "i64_of_u64 d = Inr v \<Longrightarrow> sint v = int (unat d)"
  by (auto simp: i64_of_u64_def sint_u64_small split: if_splits)

lemma deadline_Inr: "deadline now d = Inr t \<Longrightarrow> sint t = sint now + int (unat d)"
  by (auto simp: deadline_def and_then_Inr_iff dest!: i64_of_u64_Inr checked_add_i64_Some)

lemma deadline_Inl: "deadline now d = Inl e \<Longrightarrow> e = DeadlineOverflow"
  by (auto simp: deadline_def and_then_Inl_iff i64_of_u64_def ok_or_def split: if_splits option.splits)

lemma validate_schedule_bounds:
  "validate_schedule i = Inr u \<longleftrightarrow> 10 \<le> unat i \<and> unat i \<le> 86400000"
  by (simp add: validate_schedule_def minimum_schedule_ms_def maximum_schedule_ms_def)

lemma advance_deadline_Inl:
  assumes "advance_deadline current interval now = Inl e" and "0 < sint interval"
  shows "e = DeadlineOverflow"
proof -
  have ok: "ok_or DeadlineOverflow v = Inl e' \<Longrightarrow> e' = DeadlineOverflow" for v :: "i64 option" and e'
    by (auto simp: ok_or_def split: option.splits)
  from assms show ?thesis
    by (auto simp: advance_deadline_def and_then_Inl_iff Let_def i64_of_u64_def split: if_splits dest: ok)
qed

lemma grid_step:
  fixes c now n q r t :: int
  assumes "t = c + (q * n + n)" and "q * n + r = now - c" and "0 \<le> r" and "r < n" and "c \<le> now"
  shows "now < t" and "c \<le> t" and "t - n \<le> now"
  using assms by linarith+

lemma advance_deadline_Inr:
  assumes "advance_deadline current interval now = Inr t" and "2 \<le> unat interval"
  shows "sint now < sint t" and "sint current \<le> sint t"
    and "(sint t - sint current) mod int (unat interval) = 0"
    and "t = current \<or> sint t - int (unat interval) \<le> sint now"
proof -
  from assms(1) obtain iv where iv: "i64_of_u64 interval = Inr iv" by (auto simp: advance_deadline_def)
  define n where "n = int (unat interval)"
  have n: "2 \<le> n" using assms(2) unfolding n_def by linarith
  have siv: "sint iv = n" using i64_of_u64_Inr [OF iv] by (simp only: n_def)
  have "sint now < sint t \<and> sint current \<le> sint t \<and> (sint t - sint current) mod n = 0
      \<and> (t = current \<or> sint t - n \<le> sint now)"
  proof (cases "sint now < sint current")
    case True
    with assms(1) iv siv n show ?thesis by (auto simp: advance_deadline_def)
  next
    case False
    with assms(1) iv siv n obtain el off where
      el: "checked_sub_i64 now current = Some el" and
      off: "checked_mul_i64 (word_of_int (sint el div n) + 1) iv = Some off" and
      t: "checked_add_i64 current off = Some t"
      by (auto simp: advance_deadline_def and_then_Inr_iff Let_def)
    have e: "sint el = sint now - sint current" using checked_sub_i64_Some [OF el] .
    with False have el0: "0 \<le> sint el" by simp
    let ?q = "sint el div n"
    have q0: "0 \<le> ?q" using el0 n by (simp add: pos_imp_zdiv_nonneg_iff)
    have m: "?q * n + sint el mod n = sint el" by simp
    have r: "0 \<le> sint el mod n" "sint el mod n < n" using n by simp_all
    have "?q * 2 \<le> ?q * n" using q0 n by (intro mult_left_mono)
    with m r have "?q * 2 \<le> sint el" by linarith
    moreover have "sint el \<le> 9223372036854775807" using sint_i64_range(2) [of el] by simp
    ultimately have "?q + 1 \<le> 9223372036854775807" "- 9223372036854775808 \<le> ?q + 1"
      using q0 by linarith+
    then have q1: "sint (word_of_int (?q + 1) :: i64) = ?q + 1"
      by (intro sint_word_of_int_i64) simp_all
    have w: "(word_of_int ?q + 1 :: i64) = word_of_int (?q + 1)" by simp
    have "sint off = (?q + 1) * n"
      using checked_mul_i64_Some [OF off] by (simp only: w q1 siv)
    with checked_add_i64_Some [OF t] have st: "sint t = sint current + (?q + 1) * n" by (simp only:)
    have "(sint t - sint current) mod n = 0" unfolding st add_diff_cancel_left' by (rule mod_mult_self2_is_0)
    moreover from st have "sint t = sint current + (?q * n + n)" by (simp only: distrib_right mult_1)
    then have "sint now < sint t" "sint current \<le> sint t" "sint t - n \<le> sint now"
      using grid_step [OF _ trans [OF m e] r] False by (simp_all only: not_less)
    ultimately show ?thesis by simp
  qed
  then show "sint now < sint t" "sint current \<le> sint t"
    "(sint t - sint current) mod int (unat interval) = 0"
    "t = current \<or> sint t - int (unat interval) \<le> sint now" by (simp_all only: n_def)
qed

lemma valid_schedule_pos: "validate_schedule i = Inr u \<Longrightarrow> 0 < sint i"
proof -
  assume "validate_schedule i = Inr u"
  then have i: "10 \<le> unat i" "unat i \<le> 86400000" by (simp_all add: validate_schedule_bounds)
  then have "sint i = int (unat i)" by (intro sint_u64_small) simp
  with i show ?thesis by linarith
qed

text \<open>
  The first point of the grid of \<open>current\<close> after \<open>now\<close>, for a deadline that is due. The advance fails
  only when that point, or its distance from the old deadline, is not a 64-bit number.
\<close>

definition next_grid_point :: "int \<Rightarrow> int \<Rightarrow> int \<Rightarrow> int" where
  "next_grid_point c n now = c + ((now - c) div n * n + n)"

lemma next_grid_point:
  assumes "0 < n" and "c \<le> now"
  shows "now < next_grid_point c n now" "next_grid_point c n now - n \<le> now"
    "(next_grid_point c n now - c) mod n = 0"
proof -
  have "0 \<le> (now - c) mod n" "(now - c) mod n < n" using assms(1) by simp_all
  from grid_step [OF refl _ this assms(2)]
  show "now < next_grid_point c n now" "next_grid_point c n now - n \<le> now"
    unfolding next_grid_point_def by simp_all
  show "(next_grid_point c n now - c) mod n = 0" by (simp add: next_grid_point_def)
qed

lemma checked_i64_None: "checked_i64 v = None \<Longrightarrow> i64_min \<le> v \<Longrightarrow> i64_max < v"
  by (auto simp: checked_i64_def split: if_splits)

lemma advance_deadline_fails:
  assumes fail: "advance_deadline current interval now = Inl e"
    and iv: "10 \<le> unat interval" "unat interval \<le> 86400000"
  shows "sint current \<le> sint now
    \<and> (i64_max < next_grid_point (sint current) (int (unat interval)) (sint now)
       \<or> i64_max < next_grid_point (sint current) (int (unat interval)) (sint now) - sint current)"
proof -
  define n where "n = int (unat interval)"
  define d where "d = sint now - sint current"
  have n: "10 \<le> n" using iv(1) unfolding n_def by linarith
  have i: "i64_of_u64 interval = Inr interval" using iv(2) by (simp add: i64_of_u64_def)
  from i64_of_u64_Inr [OF i] have si: "sint interval = n" by (simp only: n_def)
  have due: "sint current \<le> sint now"
    using fail i si n by (auto simp: advance_deadline_def split: if_splits)
  then have d0: "0 \<le> d" by (simp add: d_def)
  have q0: "0 \<le> d div n" using d0 n by (simp add: pos_imp_zdiv_nonneg_iff)
  have q10: "d div n * 10 \<le> d"
    using mult_left_mono [OF n q0] div_mult_mod_eq [of d n] pos_mod_sign [of n d] n by linarith
  have p: "next_grid_point (sint current) n (sint now) = sint current + (d div n * n + n)"
    by (simp only: next_grid_point_def d_def)
  have grid: "d < d div n * n + n"
    using div_mult_mod_eq [of d n] pos_mod_bound [of n d] n by linarith
  have low: "i64_min \<le> 0" by simp
  have pos: "0 \<le> d div n * n + n" using grid d0 by linarith
  from fail i si n due
  have f: "and_then (ok_or DeadlineOverflow (checked_sub_i64 now current)) (\<lambda>elapsed.
      let steps = word_of_int (sint elapsed div n) + 1 in
      and_then (ok_or DeadlineOverflow (checked_mul_i64 steps interval)) (\<lambda>offset.
        ok_or DeadlineOverflow (checked_add_i64 current offset))) = Inl e"
    by (simp add: advance_deadline_def)
  have "i64_max < sint current + (d div n * n + n) \<or> i64_max < d div n * n + n"
  proof (cases "checked_sub_i64 now current")
    case None
    then have "i64_max < d"
      using d0 by (intro checked_i64_None) (simp_all add: checked_sub_i64_def d_def)
    with grid show ?thesis by linarith
  next
    case (Some el)
    have el: "sint el = d" using checked_sub_i64_Some [OF Some] by (simp only: d_def)
    have "d \<le> i64_max" using sint_i64_range(2) [of el] by (simp only: el)
    then have "d \<le> 9223372036854775807" by simp
    then have "- 9223372036854775808 \<le> d div n + 1" "d div n + 1 \<le> 9223372036854775807"
      using q0 q10 by linarith+
    then have "sint (word_of_int (d div n + 1) :: i64) = d div n + 1"
      by (intro sint_word_of_int_i64) simp_all
    then have steps: "sint (word_of_int (d div n) + 1 :: i64) = d div n + 1" by simp
    have prod: "(d div n + 1) * n = d div n * n + n" by (simp only: distrib_right mult_1)
    show ?thesis
    proof (cases "checked_mul_i64 (word_of_int (d div n) + 1) interval")
      case None
      then have "checked_i64 (d div n * n + n) = None"
        by (simp only: checked_mul_i64_def steps si prod)
      moreover have "i64_min \<le> d div n * n + n" by (rule order.trans [OF low pos])
      ultimately have "i64_max < d div n * n + n" by (rule checked_i64_None)
      then show ?thesis by (rule disjI2)
    next
      case off: (Some off)
      have so: "sint off = d div n * n + n"
        using checked_mul_i64_Some [OF off] by (simp only: steps si prod)
      from f Some off el have "checked_add_i64 current off = None"
        by (cases "checked_add_i64 current off") (simp_all add: Let_def)
      then have "checked_i64 (sint current + (d div n * n + n)) = None"
        by (simp only: checked_add_i64_def so)
      moreover have "i64_min \<le> sint current + (d div n * n + n)"
        using pos sint_i64_range(1) [of current] by linarith
      ultimately have "i64_max < sint current + (d div n * n + n)" by (rule checked_i64_None)
      then show ?thesis by (rule disjI1)
    qed
  qed
  then show ?thesis
    unfolding n_def [symmetric] p by (simp only: add_diff_cancel_left' due simp_thms)
qed

text \<open>
  C39. For every valid schedule the next deadline is the first point of the deadline's own grid
  after the clock: it is later than now, it differs from the old one by a multiple of the interval,
  and it skips no point; a deadline that is not due stays. It fails only for a deadline that is due
  and whose next grid point is beyond the range of the clock, or more than \<open>i64::MAX\<close> milliseconds
  after the old deadline, which takes a negative old deadline.
\<close>

theorem deadlines_advance_on_their_grid:
  assumes "validate_schedule interval = Inr ()"
  shows "case advance_deadline current interval now of
      Inl e \<Rightarrow> e = DeadlineOverflow \<and> sint current \<le> sint now
        \<and> (\<exists>t. sint now < t \<and> t - int (unat interval) \<le> sint now
            \<and> (t - sint current) mod int (unat interval) = 0
            \<and> (i64_max < t \<or> i64_max < t - sint current))
    | Inr t \<Rightarrow> sint now < sint t \<and> sint current \<le> sint t
        \<and> (sint t - sint current) mod int (unat interval) = 0
        \<and> (t = current \<or> sint t - int (unat interval) \<le> sint now)"
proof (cases "advance_deadline current interval now")
  case (Inl e)
  from assms have iv: "10 \<le> unat interval" "unat interval \<le> 86400000"
    by (simp_all add: validate_schedule_bounds)
  have pos: "0 < sint interval" using assms by (rule valid_schedule_pos)
  have n: "0 < int (unat interval)" using iv(1) by linarith
  note fails = advance_deadline_fails [OF Inl iv]
  note grid = next_grid_point [OF n conjunct1 [OF fails]]
  show ?thesis unfolding Inl sum.case
    by (intro conjI exI [of _ "next_grid_point (sint current) (int (unat interval)) (sint now)"]
        advance_deadline_Inl [OF Inl pos] conjunct1 [OF fails] conjunct2 [OF fails] grid)
next
  case (Inr t)
  moreover have "2 \<le> unat interval" using assms by (simp add: validate_schedule_bounds)
  ultimately show ?thesis using advance_deadline_Inr [of current interval now t] by (simp only: sum.case)
qed

theorem deadlines_advance_on_their_grid_witness:
  "\<exists>t. advance_deadline 100 50 230 = Inr t \<and> sint t = 250"
proof -
  have v: "validate_schedule 50 = Inr ()" by (simp add: validate_schedule_bounds)
  have "advance_deadline 100 50 230 = Inr 250"
    by (simp add: advance_deadline_def i64_of_u64_def checked_sub_i64_def checked_mul_i64_def
        checked_add_i64_def checked_i64_def Let_def)
  with deadlines_advance_on_their_grid [OF v, of 100 230] show ?thesis by simp
qed

subsection \<open>Reachable monitors\<close>

text \<open>A call of a mutating method, and the world's two assignments of public fields.\<close>

datatype monitor_call =
    Observe observation bool i64
  | TimerDecision i64
  | NoteOutput i64
  | Pause
  | Resume i64
  | DegradeForRawGap
  | BumpGeneration
  | NoteNotification u64 event_reason
  | FeedOutput string
  | SetBaseline "path_baseline option"
  | SetProbeFingerprint "nat list option"

definition decision_of :: "monitor_error + decision \<Rightarrow> decision option" where
  "decision_of r = (case r of Inl _ \<Rightarrow> None | Inr d \<Rightarrow> Some d)"

fun apply_call :: "monitor_call \<Rightarrow> monitor \<Rightarrow> decision option \<times> monitor" where
  "apply_call (Observe obs b now) m = map_prod decision_of id (observe obs b now m)"
| "apply_call (TimerDecision now) m = map_prod decision_of id (timer_decision now m)"
| "apply_call (NoteOutput now) m = (None, snd (note_output now m))"
| "apply_call Pause m = (None, snd (pause m))"
| "apply_call (Resume now) m = (None, snd (resume now m))"
| "apply_call DegradeForRawGap m = (None, snd (degrade_for_raw_gap m))"
| "apply_call BumpGeneration m = (None, snd (bump_generation m))"
| "apply_call (NoteNotification i r) m = (None, snd (note_notification i r m))"
| "apply_call (FeedOutput bytes) m = (None, snd (feed_output bytes m))"
| "apply_call (SetBaseline b) m = (None, m\<lparr>baseline := b\<rparr>)"
| "apply_call (SetProbeFingerprint f) m = (None, m\<lparr>probe_cwd_fingerprint := f\<rparr>)"

inductive monitor_step :: "monitor \<Rightarrow> monitor \<Rightarrow> bool" where
  step: "monitor_step m (snd (apply_call c m))"

inductive_cases monitor_stepE: "monitor_step m m'"

inductive reachable_from :: "monitor \<Rightarrow> monitor \<Rightarrow> bool" for m0 where
  start: "reachable_from m0 m0"
| more: "reachable_from m0 m \<Longrightarrow> monitor_step m m' \<Longrightarrow> reachable_from m0 m'"

text \<open>The fields no call touches.\<close>

definition same_identity :: "monitor \<Rightarrow> monitor \<Rightarrow> bool" where
  "same_identity m m' \<longleftrightarrow> monitor_id m' = monitor_id m \<and> mon_definition m' = mon_definition m
     \<and> created_at_ms m' = created_at_ms m \<and> lifetime_deadline_ms m' = lifetime_deadline_ms m"

text \<open>What changes: the state, the counters, the schedule.\<close>

definition runtime_ok :: "monitor \<Rightarrow> bool" where
  "runtime_ok m \<longleftrightarrow> generation m \<noteq> 0
     \<and> (0 < last_event_id m \<longrightarrow> notification_count m \<noteq> 0)
     \<and> (last_event_id m = 0 \<longleftrightarrow> last_event_reason m = None)
     \<and> (condition_matched m \<longrightarrow> state m \<noteq> Active)
     \<and> (state m \<noteq> Degraded \<longrightarrow>
          (notify_interval (notify (mon_definition m)) \<noteq> None \<longrightarrow> next_notification_ms m \<noteq> None)
          \<and> (check_duration (mon_definition m) \<noteq> None \<longrightarrow> next_check_ms m \<noteq> None))"

definition identity_ok :: "monitor \<Rightarrow> bool" where
  "identity_ok m \<longleftrightarrow> validate_monitor_id (monitor_id m) = Inr ()
     \<and> validate_definition (mon_definition m) = Inr () \<and> 0 \<le> sint (created_at_ms m)
     \<and> (case lifetime_deadline_ms m of None \<Rightarrow> True | Some d \<Rightarrow> sint (created_at_ms m) < sint d)"

lemma validate_monitor_ok: "identity_ok m \<Longrightarrow> runtime_ok m \<Longrightarrow> validate_monitor m = Inr ()"
  by (auto simp: identity_ok_def runtime_ok_def validate_monitor_def and_then_Inr_iff not_less
      split: option.splits)

lemma checked_add_u64_None: "checked_add_u64 a 1 = None \<Longrightarrow> a \<noteq> 0"
  by (auto simp: checked_add_u64_def)

lemma checked_add_u64_nonzero: "checked_add_u64 a 1 = Some b \<Longrightarrow> b \<noteq> 0"
  by (auto dest: checked_add_u64_Some)

text \<open>The calls that only count and reschedule.\<close>

definition keeps :: "monitor \<Rightarrow> monitor \<Rightarrow> bool" where
  "keeps m m' \<longleftrightarrow> same_identity m m' \<and> state m' = state m \<and> generation m' = generation m
     \<and> last_event_id m' = last_event_id m \<and> last_event_reason m' = last_event_reason m
     \<and> notification_count m' = notification_count m \<and> condition_matched m' = condition_matched m
     \<and> (next_check_ms m' = None \<longrightarrow> next_check_ms m = None)
     \<and> (next_notification_ms m' = None \<longrightarrow> next_notification_ms m = None)"

lemma keeps_simps [simp]:
  "keeps m m"
  "keeps m (m\<lparr>next_check_ms := Some t\<rparr>)"
  "keeps m (m\<lparr>next_notification_ms := Some t\<rparr>)"
  "keeps m (m\<lparr>matcher_states := st\<rparr>)"
  "keeps m (m\<lparr>baseline := b\<rparr>)"
  "keeps m (m\<lparr>probe_cwd_fingerprint := f\<rparr>)"
  "keeps (m\<lparr>check_count := n\<rparr>) m' = keeps m m'"
  by (simp_all add: keeps_def same_identity_def)

lemma keeps_reschedule: "reschedule_check obs now m = (r, m') \<Longrightarrow> keeps m m'"
  by (auto simp: reschedule_check_def Let_def split: if_splits option.splits sum.splits)

lemma keeps_timer: "keeps m (snd (timer_decision now m))"
  by (auto simp: timer_decision_def split: sum.splits bool.splits if_splits option.splits)

lemma keeps_note_output: "keeps m (snd (note_output now m))"
  by (auto simp: note_output_def split: sum.splits option.splits)

lemma keeps_feed: "keeps m (snd (feed_output bytes m))"
  by (auto simp: feed_output_def split: monitor_condition.splits prod.splits)

text \<open>\<open>observe\<close> keeps, or keeps and matches for the first time.\<close>

lemma observe_keeps:
  assumes "observe obs b now m = (r, m')"
  shows "keeps m m' \<and> decision_of r \<noteq> None \<longrightarrow> dec_notify (the (decision_of r)) \<noteq> Some MatchedEvent"
    and "keeps m m' \<or> \<not> suspended m \<and> \<not> condition_matched m
      \<and> (\<exists>m1. keeps m m1 \<and> m' = m1\<lparr>condition_matched := True, state := Matched\<rparr>)"
proof -
  have "(keeps m m' \<and> (decision_of r \<noteq> None \<longrightarrow> dec_notify (the (decision_of r)) \<noteq> Some MatchedEvent))
      \<or> \<not> suspended m \<and> \<not> condition_matched m
        \<and> (\<exists>m1. keeps m m1 \<and> m' = m1\<lparr>condition_matched := True, state := Matched\<rparr>)"
  proof (cases "suspended m \<or> is_expired m now \<noteq> Inr False \<or> obs = SessionExit
      \<or> checked_add_u64 (check_count m) 1 = None")
    case True
    have "fst (Inr d, m) = Inr d" for d :: decision by simp
    with True assms show ?thesis
      by (cases "is_expired m now")
        (auto simp: observe_def decision_of_def no_decision_def final_decision_def
          state_notification_def split: bool.splits option.splits if_splits)
  next
    case False
    then obtain count where count: "checked_add_u64 (check_count m) 1 = Some count" by auto
    obtain q m1 where rs: "reschedule_check obs now (m\<lparr>check_count := count\<rparr>) = (q, m1)" by fastforce
    from keeps_reschedule [OF rs] have k: "keeps m m1" by simp
    then have eq: "mon_definition m1 = mon_definition m" "condition_matched m1 = condition_matched m"
      by (simp_all add: keeps_def same_identity_def)
    show ?thesis
    proof (cases q)
      case (Inl e)
      with assms False count rs k show ?thesis by (auto simp: observe_def decision_of_def)
    next
      case (Inr u)
      show ?thesis
      proof (cases "b \<and> \<not> condition_matched m")
        case True
        with assms False count rs Inr k eq
        have "m' = m1\<lparr>condition_matched := True, state := Matched\<rparr>" by (auto simp: observe_def)
        with True False k show ?thesis by auto
      next
        case no: False
        with assms False count rs Inr k eq
        have "m' = m1" "r = Inr \<lparr>dec_notify = observe_notify (notify (mon_definition m)) (check_count m1) False,
            dec_remove = False, dec_state_changed = False\<rparr>" by (auto simp: observe_def)
        with k show ?thesis
          by (auto simp: decision_of_def observe_notify_def split: notify_schedule.splits if_splits)
      qed
    qed
  qed
  then show "keeps m m' \<and> decision_of r \<noteq> None \<longrightarrow> dec_notify (the (decision_of r)) \<noteq> Some MatchedEvent"
    and "keeps m m' \<or> \<not> suspended m \<and> \<not> condition_matched m
      \<and> (\<exists>m1. keeps m m1 \<and> m' = m1\<lparr>condition_matched := True, state := Matched\<rparr>)"
    by (auto simp: keeps_def)
qed

lemma timer_not_matched:
  "decision_of (fst (timer_decision now m)) \<noteq> None \<Longrightarrow>
     dec_notify (the (decision_of (fst (timer_decision now m)))) \<noteq> Some MatchedEvent"
  by (auto simp: timer_decision_def state_notification_def final_decision_def no_decision_def
      decision_of_def split: sum.splits bool.splits if_splits option.splits)

lemma keeps_runtime_ok: "keeps m m' \<Longrightarrow> runtime_ok m \<Longrightarrow> runtime_ok m'"
  by (auto simp: keeps_def runtime_ok_def same_identity_def)

lemma resume_identity: "same_identity m (snd (resume now m))"
  by (auto simp: resume_def Let_def same_identity_def split: sum.splits option.splits)

lemma resume_runtime_ok: "runtime_ok m \<Longrightarrow> runtime_ok (snd (resume now m))"
proof -
  assume ok: "runtime_ok m"
  have opt: "opt_deadline now d = Inr None \<Longrightarrow> d = None" for d
    by (auto simp: opt_deadline_def and_then_Inr_iff split: option.splits)
  show ?thesis
    using ok by (auto simp: resume_def Let_def runtime_ok_def dest: opt split: sum.splits option.splits)
qed

lemma apply_call_identity: "same_identity m (snd (apply_call c m))"
proof (cases c)
  case (Observe obs b now)
  obtain r m' where o: "observe obs b now m = (r, m')" by fastforce
  from observe_keeps(2) [OF o] Observe o show ?thesis by (auto simp: keeps_def same_identity_def)
next
  case (Resume now)
  then show ?thesis by (simp add: resume_identity)
next
  case (TimerDecision now)
  then show ?thesis using keeps_timer [of m now] by (simp add: keeps_def)
next
  case (NoteOutput now)
  then show ?thesis using keeps_note_output [of m now] by (simp add: keeps_def)
next
  case (FeedOutput bytes)
  then show ?thesis using keeps_feed [of m bytes] by (simp add: keeps_def)
qed (auto simp: same_identity_def pause_def degrade_for_raw_gap_def bump_generation_def
      note_notification_def Let_def split: option.splits)

lemma apply_call_runtime_ok: "runtime_ok m \<Longrightarrow> runtime_ok (snd (apply_call c m))"
proof (cases c)
  case (Observe obs b now)
  assume ok: "runtime_ok m"
  obtain r m' where o: "observe obs b now m = (r, m')" by fastforce
  from observe_keeps(2) [OF o] Observe o ok show ?thesis
    by (auto dest: keeps_runtime_ok) (auto simp: keeps_def same_identity_def runtime_ok_def suspended_def)
next
  case (TimerDecision now)
  assume "runtime_ok m"
  with keeps_runtime_ok [OF keeps_timer] TimerDecision show ?thesis by simp
next
  case (NoteOutput now)
  assume "runtime_ok m"
  with keeps_runtime_ok [OF keeps_note_output] NoteOutput show ?thesis by simp
next
  case (FeedOutput bytes)
  assume "runtime_ok m"
  with keeps_runtime_ok [OF keeps_feed] FeedOutput show ?thesis by simp
next
  case (Resume now)
  assume "runtime_ok m"
  with resume_runtime_ok Resume show ?thesis by simp
next
  case (NoteNotification i reason)
  assume "runtime_ok m"
  with NoteNotification show ?thesis
    by (cases "checked_add_u64 (notification_count m) 1")
      (simp_all add: note_notification_def runtime_ok_def checked_add_u64_None checked_add_u64_nonzero)
qed (auto simp: runtime_ok_def pause_def suspended_def degrade_for_raw_gap_def bump_generation_def
    split: option.splits dest: checked_add_u64_nonzero)

subsection \<open>New monitors\<close>

lemma valid_lifetime_pos: "validate_lifetime l = Inr u \<Longrightarrow> lifetime_duration l = Some d \<Longrightarrow> 0 < unat d"
  by (auto simp: validate_lifetime_def lifetime_duration_def unat_gt_0 split: monitor_lifetime.splits if_splits)

lemma opt_deadline_Inr:
  "opt_deadline now d = Inr t \<Longrightarrow>
     (d = None \<longleftrightarrow> t = None) \<and> (\<forall>v. d = Some v \<longrightarrow> sint (the t) = sint now + int (unat v))"
  by (auto simp: opt_deadline_def and_then_Inr_iff split: option.splits dest: deadline_Inr)

lemma new_monitor_ok:
  assumes "new_monitor ident d now = Inr m"
  shows "identity_ok m" and "runtime_ok m"
proof -
  from assms obtain lt ck nt where
    valid: "validate_definition d = Inr ()" "validate_monitor_id ident = Inr ()" "0 \<le> sint now" and
    lt: "opt_deadline now (lifetime_duration (lifetime d)) = Inr lt" and
    ck: "opt_deadline now (check_duration d) = Inr ck" and
    nt: "opt_deadline now (notify_interval (notify d)) = Inr nt" and
    m: "m = \<lparr>monitor_id = ident, mon_definition = d, state = Active, generation = 1,
            created_at_ms = now, lifetime_deadline_ms = lt, next_check_ms = ck, next_notification_ms = nt,
            check_count = 0, notification_count = 0, last_event_id = 0, last_event_reason = None,
            condition_matched = False, baseline = None, probe_cwd_fingerprint = None,
            matcher_states = no_states\<rparr>"
    by (auto simp: new_monitor_def and_then_Inr_iff)
  have "validate_lifetime (lifetime d) = Inr ()"
    using valid(1) by (auto simp: validate_definition_def and_then_Inr_iff)
  note pos = valid_lifetime_pos [OF this]
  have "sint now < sint t" if "lt = Some t" for t
  proof -
    from opt_deadline_Inr [OF lt] that obtain v where v: "lifetime_duration (lifetime d) = Some v" by auto
    with opt_deadline_Inr [OF lt] that have "sint t = sint now + int (unat v)" by simp
    with pos [OF v] show ?thesis by linarith
  qed
  with valid m show "identity_ok m" by (auto simp: identity_ok_def split: option.splits)
  from opt_deadline_Inr [OF ck] opt_deadline_Inr [OF nt] m show "runtime_ok m"
    by (auto simp: runtime_ok_def)
qed

lemma same_identity_ok: "same_identity m m' \<Longrightarrow> identity_ok m' = identity_ok m"
  by (auto simp: identity_ok_def same_identity_def split: option.splits)

lemma reachable_ok:
  assumes "reachable_from m0 m" and "identity_ok m0" and "runtime_ok m0"
  shows "identity_ok m \<and> runtime_ok m \<and> same_identity m0 m"
  using assms(1)
proof induction
  case start
  with assms show ?case by (simp add: same_identity_def)
next
  case (more m m')
  from more.hyps(2) obtain c where "m' = snd (apply_call c m)" by (rule monitor_stepE)
  with more.IH apply_call_identity [of m c] apply_call_runtime_ok [of m c] show ?case
    using same_identity_ok [of m m'] by (auto simp: same_identity_def)
qed

text \<open>
  C10. A monitor that \<open>new\<close> accepts passes the module's own validation, and so does every monitor
  any sequence of method calls makes of it, also calls that return an error and leave their changes
  behind; its definition, its name and its lifetime never change, and unless it is degraded it has
  the deadlines its schedule needs.
\<close>

theorem reachable_monitors_are_valid:
  assumes "new_monitor ident d now = Inr m0" and "reachable_from m0 m"
  shows "validate_monitor m = Inr () \<and> same_identity m0 m \<and> mon_definition m = d
    \<and> (if state m = Degraded then True
       else (next_notification_ms m \<noteq> None \<or> notify_interval (notify d) = None)
         \<and> (next_check_ms m \<noteq> None \<or> check_duration d = None))"
proof -
  from reachable_ok [OF assms(2) new_monitor_ok [OF assms(1)]]
  have "identity_ok m" "runtime_ok m" "same_identity m0 m" by blast+
  moreover from assms(1) have "mon_definition m0 = d" by (auto simp: new_monitor_def and_then_Inr_iff)
  ultimately show ?thesis
    using validate_monitor_ok [of m] by (auto simp: runtime_ok_def same_identity_def)
qed

definition example_definition :: monitor_definition where
  "example_definition =
     \<lparr>condition = OutputContains ''ready'', check_interval_ms = None, notify = Interval 50,
      lifetime = UntilMatch\<rparr>"

definition example_monitor :: monitor where
  "example_monitor =
     \<lparr>monitor_id = ''monitor-1'', mon_definition = example_definition, state = Active, generation = 1,
      created_at_ms = 100, lifetime_deadline_ms = None, next_check_ms = None,
      next_notification_ms = Some 150, check_count = 0, notification_count = 0, last_event_id = 0,
      last_event_reason = None, condition_matched = False, baseline = None,
      probe_cwd_fingerprint = None, matcher_states = no_states\<rparr>"

lemma example_is_new: "new_monitor ''monitor-1'' example_definition 100 = Inr example_monitor"
proof -
  have "validate_schedule 50 = Inr ()" by (simp add: validate_schedule_bounds)
  then show ?thesis
    by (simp add: new_monitor_def example_definition_def example_monitor_def validate_definition_def
      validate_notify_def validate_lifetime_def validate_checks_def valid_text_def
      maximum_pattern_bytes_def validate_monitor_id_def
      maximum_monitor_id_bytes_def opt_deadline_def lifetime_duration_def check_duration_def
      quiet_duration_def notify_interval_def deadline_def i64_of_u64_def checked_add_i64_def
      checked_i64_def)
qed

theorem reachable_monitors_are_valid_witness:
  "validate_monitor (snd (apply_call (Observe Output True 120) example_monitor)) = Inr ()"
proof -
  have "reachable_from example_monitor (snd (apply_call (Observe Output True 120) example_monitor))"
    by (rule reachable_from.more [OF reachable_from.start monitor_step.step])
  from reachable_monitors_are_valid [OF example_is_new this] show ?thesis by blast
qed

subsection \<open>Notifications\<close>

fun run_calls :: "monitor_call list \<Rightarrow> monitor \<Rightarrow> decision list \<times> monitor" where
  "run_calls [] m = ([], m)"
| "run_calls (c # cs) m =
     (case apply_call c m of
        (d, m') \<Rightarrow>
          (case run_calls cs m' of
             (ds, m'') \<Rightarrow> (case d of None \<Rightarrow> ds | Some x \<Rightarrow> x # ds, m'')))"

definition announces_match :: "decision \<Rightarrow> bool" where
  "announces_match d \<longleftrightarrow> dec_notify d = Some MatchedEvent"

lemma apply_call_match:
  assumes "apply_call c m = (d, m')"
  shows "condition_matched m \<Longrightarrow> condition_matched m'"
    and "d = Some x \<Longrightarrow> announces_match x \<Longrightarrow> \<not> condition_matched m \<and> condition_matched m'"
proof -
  have "(condition_matched m \<longrightarrow> condition_matched m')
      \<and> (d = Some x \<and> announces_match x \<longrightarrow> \<not> condition_matched m \<and> condition_matched m')" for x
  proof (cases c)
    case (Observe obs b now)
    obtain r m1 where o: "observe obs b now m = (r, m1)" by fastforce
    with assms Observe have d: "d = decision_of r" "m' = m1" by auto
    from observe_keeps(2) [OF o] show ?thesis
    proof
      assume k: "keeps m m1"
      then have "condition_matched m1 = condition_matched m" by (simp add: keeps_def)
      with observe_keeps(1) [OF o] k d show ?thesis by (auto simp: announces_match_def)
    next
      assume "\<not> suspended m \<and> \<not> condition_matched m
        \<and> (\<exists>m2. keeps m m2 \<and> m1 = m2\<lparr>condition_matched := True, state := Matched\<rparr>)"
      with d show ?thesis by auto
    qed
  next
    case (TimerDecision now)
    with assms have "d = decision_of (fst (timer_decision now m))" "m' = snd (timer_decision now m)"
      by (auto simp: map_prod_def split: prod.splits)
    with keeps_timer [of m now] timer_not_matched [of now m] show ?thesis
      by (auto simp: keeps_def announces_match_def)
  next
    case (NoteOutput now)
    with assms keeps_note_output [of m now] show ?thesis by (auto simp: keeps_def)
  next
    case (FeedOutput bytes)
    with assms keeps_feed [of m bytes] show ?thesis by (auto simp: keeps_def)
  next
    case (Resume now)
    with assms show ?thesis by (auto simp: resume_def Let_def split: sum.splits option.splits)
  qed (use assms in \<open>auto simp: pause_def degrade_for_raw_gap_def bump_generation_def
      note_notification_def Let_def split: option.splits\<close>)
  then show "condition_matched m \<Longrightarrow> condition_matched m'"
    and "d = Some x \<Longrightarrow> announces_match x \<Longrightarrow> \<not> condition_matched m \<and> condition_matched m'" by blast+
qed

text \<open>
  Whatever sequence of observations, timers, pauses, resumes and gaps a monitor goes through,
  it announces its match at most once, and never if its condition had matched before.
\<close>

theorem a_match_is_announced_once:
  "length (filter announces_match (fst (run_calls cs m))) \<le> (if condition_matched m then 0 else 1)"
proof (induction cs arbitrary: m)
  case (Cons c cs)
  obtain d m' where a: "apply_call c m = (d, m')" by fastforce
  obtain ds m'' where r: "run_calls cs m' = (ds, m'')" by fastforce
  note match = apply_call_match [OF a]
  from Cons.IH [of m'] r have ds: "length (filter announces_match ds) \<le> (if condition_matched m' then 0 else 1)"
    by simp
  show ?case
  proof (cases d)
    case None
    with a r ds match(1) show ?thesis by (auto split: if_splits)
  next
    case (Some x)
    with a r ds match show ?thesis by (auto split: if_splits)
  qed
qed simp

subsection \<open>Sleeping until the next deadline\<close>

lemma earlier_due:
  "due_at (earlier a b) now \<longleftrightarrow> due_at a now \<or> due_at b now"
  by (auto simp: earlier_def due_at_def split: option.splits)

text \<open>
  The next deadline misses nothing: as long as it has not come, the timer has nothing to do
  (no notification, no removal, no change), no poll is due, and no quiet period has ended unless
  the monitor is degraded.
\<close>

theorem nothing_is_due_before_the_deadline:
  assumes "new_monitor ident d start = Inr m0" and "reachable_from m0 m"
    and "0 \<le> sint now" and "\<not> due_at (next_deadline m) now"
  shows "timer_decision now m = (Inr no_decision, m) \<and> \<not> polling_due m now
    \<and> (state m = Degraded \<or> quiet_due m now = False)"
proof -
  from reachable_ok [OF assms(2) new_monitor_ok [OF assms(1)]] have ok: "runtime_ok m" by blast
  have life: "\<not> due_at (lifetime_deadline_ms m) now"
    using assms(4) by (auto simp: next_deadline_def earlier_due split: if_splits)
  then have ex: "is_expired m now = Inr False" using assms(3) by (simp add: is_expired_def)
  show ?thesis
  proof (cases "suspended m")
    case True
    with ex show ?thesis by (auto simp: timer_decision_def polling_due_def quiet_due_def suspended_def)
  next
    case False
    with assms(4) have nd: "\<not> due_at (next_check_ms m) now" "\<not> due_at (next_notification_ms m) now"
      by (simp_all add: next_deadline_def earlier_due)
    have "timer_decision now m = (Inr no_decision, m)"
    proof (cases "notify_interval (notify (mon_definition m))")
      case None
      with ex False show ?thesis by (simp add: timer_decision_def)
    next
      case (Some interval)
      with ok False obtain due where "next_notification_ms m = Some due"
        by (auto simp: runtime_ok_def suspended_def)
      with Some ex False nd(2) show ?thesis by (simp add: timer_decision_def due_at_def)
    qed
    with nd show ?thesis by (simp add: polling_due_def quiet_due_def)
  qed
qed

theorem nothing_is_due_before_the_deadline_witness:
  "timer_decision 149 example_monitor = (Inr no_decision, example_monitor)"
proof -
  have "\<not> due_at (next_deadline example_monitor) 149"
    by (simp add: next_deadline_def example_monitor_def suspended_def earlier_def due_at_def)
  from nothing_is_due_before_the_deadline [OF example_is_new reachable_from.start _ this]
  show ?thesis by simp
qed

lemma deadline_later: "deadline now d = Inr t \<Longrightarrow> 0 < unat d \<Longrightarrow> sint now < sint t"
  using deadline_Inr [of now d t] by linarith

lemma valid_durations:
  assumes "validate_definition d = Inr ()"
  shows "check_duration d = Some v \<Longrightarrow> 0 < unat v"
    and "notify_interval (notify d) = Some v \<Longrightarrow> 0 < unat v"
proof -
  have sched: "validate_schedule i = Inr u \<Longrightarrow> 0 < unat i" for i u
    by (simp add: validate_schedule_bounds)
  from assms have parts: "validate_condition (condition d) = Inr ()" "validate_notify (notify d) = Inr ()"
    "validate_checks (condition d) (check_interval_ms d) = Inr ()"
    by (auto simp: validate_definition_def and_then_Inr_iff)
  have quiet: "0 < unat v" if "quiet_duration (condition d) = Some v"
    using parts(1) that
    by (auto simp: quiet_duration_def map_err_def dest: sched split: monitor_condition.splits sum.splits)
  have checks: "0 < unat v" if "check_interval_ms d = Some v"
    using parts(3) that by (auto simp: validate_checks_def dest: sched split: bool.splits)
  show "check_duration d = Some v \<Longrightarrow> 0 < unat v"
    using quiet checks by (auto simp: check_duration_def split: option.splits)
  show "notify_interval (notify d) = Some v \<Longrightarrow> 0 < unat v"
    using parts(2) by (auto simp: validate_notify_def notify_interval_def dest: sched split: notify_schedule.splits)
qed

lemma opt_deadline_later:
  "opt_deadline now d = Inr (Some t) \<Longrightarrow> (\<And>v. d = Some v \<Longrightarrow> 0 < unat v) \<Longrightarrow> sint now < sint t"
  by (auto simp: opt_deadline_def and_then_Inr_iff dest: deadline_later split: option.splits)

lemma opt_deadline_None: "opt_deadline now d = Inr None \<Longrightarrow> d = None"
  by (auto simp: opt_deadline_def and_then_Inr_iff split: option.splits)

lemma polling_has_checks:
  "validate_definition d = Inr () \<Longrightarrow> requires_polling (condition d) \<or> quiet_duration (condition d) \<noteq> None \<Longrightarrow>
     check_duration d \<noteq> None"
  by (auto simp: validate_definition_def and_then_Inr_iff validate_checks_def check_duration_def
      split: bool.splits option.splits)

text \<open>
  A resumed monitor starts its schedule afresh: after a successful \<open>resume\<close> no poll and no
  quiet period is due at that moment and the interval notification lies ahead, however long the
  pause was; and the monitor is active again, or matched if it had matched.
\<close>

theorem resume_starts_the_schedule_afresh:
  assumes "validate_definition (mon_definition m) = Inr ()" and "resume now m = (Inr True, m')"
  shows "\<not> polling_due m' now \<and> \<not> quiet_due m' now
    \<and> (due_at (next_notification_ms m') now = False \<or> notify_interval (notify (mon_definition m)) = None)
    \<and> state m' = (if condition_matched m then Matched else Active)"
proof -
  from assms(2) obtain ck nt where
    ck: "opt_deadline now (check_duration (mon_definition m)) = Inr ck" and
    nt: "opt_deadline now (notify_interval (notify (mon_definition m))) = Inr nt" and
    m': "mon_definition m' = mon_definition m" "state m' = (if condition_matched m then Matched else Active)"
      "next_check_ms m' = (case ck of None \<Rightarrow> next_check_ms m | Some t \<Rightarrow> Some t)"
      "next_notification_ms m' = (case nt of None \<Rightarrow> next_notification_ms m | Some t \<Rightarrow> Some t)"
    by (auto simp: resume_def Let_def split: if_splits sum.splits option.splits)
  note dur = valid_durations [OF assms(1)]
  have check: "\<not> due_at (next_check_ms m') now" if "check_duration (mon_definition m) \<noteq> None"
    using ck that opt_deadline_None opt_deadline_later [of now _ "the ck"] dur(1) m'(3)
    by (cases ck) (fastforce simp: due_at_def)+
  have interval: "\<not> due_at (next_notification_ms m') now" if "notify_interval (notify (mon_definition m)) \<noteq> None"
    using nt that opt_deadline_None opt_deadline_later [of now _ "the nt"] dur(2) m'(4)
    by (cases nt) (fastforce simp: due_at_def)+
  have "\<not> polling_due m' now" "\<not> quiet_due m' now"
    using check polling_has_checks [OF assms(1)] m'(1) by (auto simp: polling_due_def quiet_due_def)
  with interval m'(2) show ?thesis by (cases "notify_interval (notify (mon_definition m))") simp_all
qed

theorem resume_starts_the_schedule_afresh_witness:
  "\<exists>m'. resume 5000 (example_monitor\<lparr>state := Paused\<rparr>) = (Inr True, m')
     \<and> \<not> due_at (next_notification_ms m') 5000"
proof -
  let ?m = "example_monitor\<lparr>state := Paused\<rparr>"
  have "validate_definition (mon_definition ?m) = Inr ()"
    using new_monitor_ok(1) [OF example_is_new] by (simp add: identity_ok_def)
  moreover have "resume 5000 ?m = (Inr True, example_monitor\<lparr>next_notification_ms := Some 5050\<rparr>)"
    by (simp add: resume_def example_monitor_def example_definition_def check_duration_def
        quiet_duration_def notify_interval_def opt_deadline_def deadline_def i64_of_u64_def
        checked_add_i64_def checked_i64_def)
  ultimately show ?thesis
    using resume_starts_the_schedule_afresh [of ?m 5000]
    by (auto simp: example_monitor_def example_definition_def notify_interval_def)
qed

end
