(* ===== verification/Workspace_Path.thy ===== *)
theory Workspace_Path
  imports Message Paths
begin

section \<open>The workspace boundary\<close>

text \<open>
  \<open>fx-workspace/src/lib.rs\<close>: what a path given to a tool may refer to. The file system is a record of
  the three calls the code makes and the value of \<open>HOME\<close>; it does not change during a resolution.
  Paths are compared by their components, as \<open>std::path\<close> does.
\<close>

datatype path_intent = Workspace | External

record resolved_path =
  absolute :: string
  display :: string
  intent :: path_intent

record io_error =
  io_not_found :: bool
  io_message :: string

record file_system =
  canonicalize :: "string \<Rightarrow> io_error + string"
  read_link :: "string \<Rightarrow> io_error + string"
  entry_is_symlink :: "string \<Rightarrow> bool"
  home :: "string option"

definition io_text :: "string \<Rightarrow> io_error \<Rightarrow> tool_error" where
  "io_text path e = Execution (path @ '': '' @ io_message e)"

text \<open>
  \<open>lexical_normalize\<close>: the names that remain when \<open>..\<close> takes one back (at the root, or at the start
  of a relative path, it takes nothing).
\<close>

fun normal_parts :: "component list \<Rightarrow> bool \<times> string list \<Rightarrow> bool \<times> string list" where
  "normal_parts [] acc = acc"
| "normal_parts (RootDir # cs) (rooted, parts) = normal_parts cs (True, parts)"
| "normal_parts (CurDir # cs) (rooted, parts) = normal_parts cs (rooted, parts)"
| "normal_parts (ParentDir # cs) (rooted, parts) = normal_parts cs (rooted, butlast parts)"
| "normal_parts (Normal n # cs) (rooted, parts) = normal_parts cs (rooted, parts @ [n])"

definition lexical_normalize :: "string \<Rightarrow> string" where
  "lexical_normalize path =
     (case normal_parts (components path) (False, []) of
        (rooted, parts) \<Rightarrow> foldl path_push (if rooted then path_push [] ''/'' else []) parts)"

definition classify_input :: "file_system \<Rightarrow> string \<Rightarrow> string \<Rightarrow> tool_error + (string \<times> path_intent)" where
  "classify_input fs workspace input =
     (if is_absolute input then Inr (lexical_normalize input, External)
      else if input = ''~'' \<or> prefix ''~/'' input then
        (case home fs of
           Some h \<Rightarrow>
             if h \<noteq> [] \<and> is_absolute h then
               Inr (lexical_normalize
                      (path_push h (dropWhile (\<lambda>c. c = CHR ''/'') (tl input))), External)
             else Inl (InvalidArguments ''HOME is not set to an absolute path'')
         | None \<Rightarrow> Inl (InvalidArguments ''HOME is not set to an absolute path''))
      else if prefix ''~'' input then
        Inl (InvalidArguments ''only `~` and `~/...` home paths are supported'')
      else
        let candidate = lexical_normalize (path_push workspace input) in
        Inr (candidate, if path_starts_with candidate workspace then Workspace else External))"

text \<open>The end both resolutions share: the containment check and the display path.\<close>

definition finish_resolution ::
  "string \<Rightarrow> path_intent \<Rightarrow> string \<Rightarrow> tool_error + resolved_path" where
  "finish_resolution workspace i path =
     (if i = Workspace \<and> \<not> path_starts_with path workspace then Inl (OutsideWorkspace path)
      else Inr \<lparr>absolute = path,
                display = (case path_strip_prefix path workspace of Some d \<Rightarrow> d | None \<Rightarrow> path),
                intent = i\<rparr>)"

definition canonical_workspace :: "file_system \<Rightarrow> string \<Rightarrow> tool_error + string" where
  "canonical_workspace fs root =
     map_err (\<lambda>e. Execution (''workspace is unavailable: '' @ io_message e)) (canonicalize fs root)"

definition resolve_existing :: "file_system \<Rightarrow> string \<Rightarrow> string \<Rightarrow> tool_error + resolved_path" where
  "resolve_existing fs root raw =
     (let input = trim raw in
      if input = [] then Inl (InvalidArguments ''path must not be empty'')
      else and_then (canonical_workspace fs root) (\<lambda>workspace.
        and_then (classify_input fs workspace input) (\<lambda>(candidate, i).
          and_then (map_err (io_text candidate) (canonicalize fs candidate))
            (finish_resolution workspace i))))"

text \<open>
  \<open>canonicalize_deepest\<close>: \<open>missing\<close> holds the names taken off so far, the deepest first.
\<close>

function canonicalize_deepest_loop ::
  "file_system \<Rightarrow> string \<Rightarrow> string \<Rightarrow> string list \<Rightarrow> tool_error + string" where
  "canonicalize_deepest_loop fs path ancestor missing =
     (case canonicalize fs ancestor of
        Inr canonical \<Rightarrow> Inr (foldl path_push canonical (rev missing))
      | Inl e \<Rightarrow>
          if io_not_found e then
            (case path_file_name ancestor of
               None \<Rightarrow> Inl (io_text path e)
             | Some name \<Rightarrow>
                 (case path_parent ancestor of
                    None \<Rightarrow> Inl (io_text path e)
                  | Some up \<Rightarrow> canonicalize_deepest_loop fs path up (missing @ [name])))
          else Inl (io_text path e))"
  by pat_completeness auto
termination
  by (relation "measure (\<lambda>(fs, path, ancestor, missing). length (components ancestor))")
    (auto dest: path_parent_shorter)

declare canonicalize_deepest_loop.simps [simp del]

definition canonicalize_deepest :: "file_system \<Rightarrow> string \<Rightarrow> tool_error + string" where
  "canonicalize_deepest fs path = canonicalize_deepest_loop fs path path []"

definition link_target :: "file_system \<Rightarrow> string \<Rightarrow> string \<Rightarrow> string \<Rightarrow> string" where
  "link_target fs symlink workspace link =
     (if is_absolute link then lexical_normalize link
      else lexical_normalize
             (path_push (case path_parent symlink of Some p \<Rightarrow> p | None \<Rightarrow> workspace) link))"

definition validate_dangling_symlink_scope ::
  "file_system \<Rightarrow> string \<Rightarrow> string list \<Rightarrow> path_intent \<Rightarrow> string \<Rightarrow> tool_error + unit" where
  "validate_dangling_symlink_scope fs symlink missing i workspace =
     (if i = External then Inr ()
      else and_then (map_err (io_text symlink) (read_link fs symlink)) (\<lambda>link.
        and_then (canonicalize_deepest fs
            (foldl path_push (link_target fs symlink workspace link) (rev missing))) (\<lambda>resolved.
          if path_starts_with resolved workspace then Inr () else Inl (OutsideWorkspace resolved))))"

text \<open>The loop of \<open>resolve_target\<close>.\<close>

function resolve_target_loop ::
  "file_system \<Rightarrow> string \<Rightarrow> path_intent \<Rightarrow> string \<Rightarrow> string \<Rightarrow> string list \<Rightarrow> tool_error + string" where
  "resolve_target_loop fs workspace i candidate ancestor missing =
     (case canonicalize fs ancestor of
        Inr canonical \<Rightarrow> Inr (foldl path_push canonical (rev missing))
      | Inl e \<Rightarrow>
          if io_not_found e then
            and_then (if entry_is_symlink fs ancestor
                then validate_dangling_symlink_scope fs ancestor missing i workspace else Inr ()) (\<lambda>_.
              case path_file_name ancestor of
                None \<Rightarrow> Inl (io_text candidate e)
              | Some name \<Rightarrow>
                  (case path_parent ancestor of
                     None \<Rightarrow> Inl (io_text candidate e)
                   | Some up \<Rightarrow> resolve_target_loop fs workspace i candidate up (missing @ [name])))
          else Inl (io_text candidate e))"
  by pat_completeness auto
termination
  by (relation "measure (\<lambda>(fs, workspace, i, candidate, ancestor, missing). length (components ancestor))")
    (auto dest: path_parent_shorter)

declare resolve_target_loop.simps [simp del]

definition resolve_target :: "file_system \<Rightarrow> string \<Rightarrow> string \<Rightarrow> tool_error + resolved_path" where
  "resolve_target fs root raw =
     (let input = trim raw in
      if input = [] then Inl (InvalidArguments ''path must not be empty'')
      else and_then (canonical_workspace fs root) (\<lambda>workspace.
        and_then (classify_input fs workspace input) (\<lambda>(candidate, i).
          and_then (resolve_target_loop fs workspace i candidate candidate [])
            (finish_resolution workspace i))))"

subsection \<open>Normalisation\<close>

lemma list_all_butlast: "list_all P xs \<Longrightarrow> list_all P (butlast xs)"
  by (auto simp: list_all_iff dest: in_set_butlastD)

lemma normal_parts_spec:
  "normal_parts cs acc = (rooted', parts') \<Longrightarrow> list_all normal_name (snd acc) \<Longrightarrow>
     \<forall>n. Normal n \<in> set cs \<longrightarrow> normal_name n \<Longrightarrow>
     list_all normal_name parts' \<and> rooted' = (fst acc \<or> RootDir \<in> set cs)"
  by (induction cs acc rule: normal_parts.induct) (simp_all add: list_all_butlast)

lemma normal_parts_names: "normal_parts (map Normal ns) (rooted, parts) = (rooted, parts @ ns)"
  by (induction ns arbitrary: parts) simp_all

definition normal_components :: "component list \<Rightarrow> bool" where
  "normal_components cs \<longleftrightarrow> (\<exists>ns. list_all normal_name ns \<and> (cs = map Normal ns \<or> cs = RootDir # map Normal ns))"

lemma root_components [simp]: "components ''/'' = [RootDir]" "components [] = []"
  by (simp_all add: components_def is_absolute_def)

lemma lexical_normalize_spec:
  obtains ns where "list_all normal_name ns"
    "normal_parts (components p) (False, []) = (is_absolute p, ns)"
    "components (lexical_normalize p) = (if is_absolute p then [RootDir] else []) @ map Normal ns"
    "lexical_normalize p = render ((if is_absolute p then [RootDir] else []) @ map Normal ns)"
proof -
  obtain r ns where np: "normal_parts (components p) (False, []) = (r, ns)" by fastforce
  have "list_all normal_name ns \<and> r = (fst (False, [] :: string list) \<or> RootDir \<in> set (components p))"
    by (rule normal_parts_spec [OF np]) (simp_all add: components_normal)
  then have ns: "list_all normal_name ns" and r: "r = is_absolute p"
    by (simp_all add: components_root_head)
  have root: "path_push [] ''/'' = ''/''" by (simp add: path_push_def is_absolute_def)
  have c: "components (lexical_normalize p) = (if is_absolute p then [RootDir] else []) @ map Normal ns"
    using np r components_push_names [OF ns] by (simp add: lexical_normalize_def root)
  have "foldl path_push b ns = foldl (\<lambda>p c. path_push p (component_text c)) b (map Normal ns)" for b
    by (induction ns arbitrary: b) simp_all
  then have "lexical_normalize p = render ((if is_absolute p then [RootDir] else []) @ map Normal ns)"
    using np r by (simp add: lexical_normalize_def render_def)
  with that np r ns c show thesis by blast
qed

lemma lexical_normalize_render: "render (components (lexical_normalize p)) = lexical_normalize p"
  by (rule lexical_normalize_spec [of p]) simp

text \<open>
  Normalisation removes every dot component and nothing else: the result has only a root (when
  the path had one) and proper names, normalising again changes nothing, and a path without dot
  components keeps all its components. In particular no path climbs above its root.
\<close>

theorem normalisation_removes_the_dots:
  "normal_components (components (lexical_normalize p))
   \<and> (is_absolute (lexical_normalize p) \<longleftrightarrow> is_absolute p)
   \<and> lexical_normalize (lexical_normalize p) = lexical_normalize p
   \<and> (if normal_components (components p) then components (lexical_normalize p) = components p else True)"
proof -
  obtain ns where ns: "list_all normal_name ns"
    "components (lexical_normalize p) = (if is_absolute p then [RootDir] else []) @ map Normal ns"
    by (rule lexical_normalize_spec)
  have abs: "is_absolute (lexical_normalize p) \<longleftrightarrow> is_absolute p"
    using components_root_head [of "lexical_normalize p"] ns(2) by auto
  obtain ms where ms: "normal_parts (components (lexical_normalize p)) (False, []) = (is_absolute (lexical_normalize p), ms)"
    "lexical_normalize (lexical_normalize p) =
       render ((if is_absolute (lexical_normalize p) then [RootDir] else []) @ map Normal ms)"
    by (rule lexical_normalize_spec)
  have "ms = ns" using ms(1) unfolding ns(2) by (simp add: normal_parts_names split: if_splits)
  then have again: "lexical_normalize (lexical_normalize p) = lexical_normalize p"
    using ms(2) abs ns(2) lexical_normalize_render [of p] by simp
  have "components (lexical_normalize p) = components p" if "normal_components (components p)"
  proof -
    from that obtain ks where ks: "components p = map Normal ks \<or> components p = RootDir # map Normal ks"
      by (auto simp: normal_components_def)
    obtain qs where qs: "normal_parts (components p) (False, []) = (is_absolute p, qs)"
      "components (lexical_normalize p) = (if is_absolute p then [RootDir] else []) @ map Normal qs"
      by (rule lexical_normalize_spec)
    from ks qs components_root_head [of p] show ?thesis by (auto simp: normal_parts_names)
  qed
  with ns abs again show ?thesis by (auto simp: normal_components_def)
qed

subsection \<open>Containment\<close>

lemma starts_with_display:
  assumes "path_starts_with path ws"
  shows "\<exists>d. path_strip_prefix path ws = Some d \<and> components path = components ws @ components d"
proof -
  from assms obtain tail where c: "components path = components ws @ tail"
    by (auto simp: path_starts_with_def prefix_def)
  have "component_list (drop (length (components ws)) (components path))"
    by (intro component_list_drop component_list_components)
  with c assms show ?thesis by (simp add: path_strip_prefix_def components_render)
qed

lemma finish_resolution_Inr:
  "finish_resolution ws i path = Inr r \<Longrightarrow> absolute r = path \<and> intent r = i
     \<and> (i = Workspace \<longrightarrow> path_starts_with path ws)
     \<and> (path_starts_with path ws \<longrightarrow> components path = components ws @ components (display r))
     \<and> (\<not> path_starts_with path ws \<longrightarrow> display r = path)"
  using starts_with_display [of path ws]
  by (auto simp: finish_resolution_def path_strip_prefix_def split: if_splits)

text \<open>What a resolution knows: the canonical workspace, the candidate and its intent.\<close>

definition resolves_to ::
  "file_system \<Rightarrow> string \<Rightarrow> string \<Rightarrow> string \<Rightarrow> string \<Rightarrow> path_intent \<Rightarrow> bool" where
  "resolves_to fs root raw ws candidate i \<longleftrightarrow> trim raw \<noteq> [] \<and> canonicalize fs root = Inr ws
     \<and> classify_input fs ws (trim raw) = Inr (candidate, i)"

lemma resolve_existing_Inr:
  "resolve_existing fs root raw = Inr r \<longleftrightarrow>
     (\<exists>ws candidate i path. resolves_to fs root raw ws candidate i
       \<and> canonicalize fs candidate = Inr path \<and> finish_resolution ws i path = Inr r)"
  by (auto simp: resolve_existing_def resolves_to_def canonical_workspace_def Let_def and_then_Inr_iff
      split: if_splits)

lemma resolve_target_Inr:
  "resolve_target fs root raw = Inr r \<longleftrightarrow>
     (\<exists>ws candidate i path. resolves_to fs root raw ws candidate i
       \<and> resolve_target_loop fs ws i candidate candidate [] = Inr path
       \<and> finish_resolution ws i path = Inr r)"
  by (auto simp: resolve_target_def resolves_to_def canonical_workspace_def Let_def and_then_Inr_iff
      split: if_splits)

definition names_external :: "string \<Rightarrow> bool" where
  "names_external input \<longleftrightarrow> is_absolute input \<or> prefix ''~'' input"

lemma classify_Workspace:
  assumes "classify_input fs ws input = Inr (candidate, i)"
  shows "i = Workspace \<longleftrightarrow> \<not> names_external input
    \<and> path_starts_with (lexical_normalize (path_push ws input)) ws"
proof -
  have "prefix ''~/'' input \<Longrightarrow> prefix ''~'' input" by (auto simp: prefix_def)
  with assms show ?thesis
    by (auto simp: classify_input_def names_external_def Let_def split: if_splits option.splits)
qed

text \<open>
  C5. A path gets the workspace's authority only if it is relative, not a home path, and stays
  inside the canonical workspace after its dots are resolved; and whatever symbolic links do, the
  resolved path of such a request lies inside the canonical workspace, where its display path
  names it. Both resolutions keep this.
\<close>

theorem workspace_paths_stay_inside:
  assumes "resolve_existing fs root raw = Inr r \<or> resolve_target fs root raw = Inr r"
    and "intent r = Workspace"
  shows "\<exists>ws. canonicalize fs root = Inr ws \<and> names_external (trim raw) = False
    \<and> path_starts_with (lexical_normalize (path_push ws (trim raw))) ws
    \<and> path_starts_with (absolute r) ws
    \<and> components (absolute r) = components ws @ components (display r)"
proof -
  from assms(1) obtain ws candidate i path where
    "resolves_to fs root raw ws candidate i" "finish_resolution ws i path = Inr r"
    unfolding resolve_existing_Inr resolve_target_Inr by blast
  with assms(2) finish_resolution_Inr [of ws i path r] classify_Workspace [of fs ws "trim raw" candidate i]
  show ?thesis by (auto simp: resolves_to_def)
qed

text \<open>A file system in which everything below \<open>/w\<close> exists, and \<open>/w/out\<close> links elsewhere.\<close>

definition example_fs :: file_system where
  "example_fs =
     \<lparr>canonicalize = (\<lambda>p. if p = ''/w/out'' then Inr ''/etc'' else if path_starts_with p ''/w'' then Inr p
        else Inl \<lparr>io_not_found = True, io_message = ''not found''\<rparr>),
      read_link = (\<lambda>p. Inl \<lparr>io_not_found = False, io_message = ''not a link''\<rparr>),
      entry_is_symlink = (\<lambda>p. False), home = None\<rparr>"

lemma example_resolution:
  "resolve_existing example_fs ''/w'' ''src/./a'' =
     Inr \<lparr>absolute = ''/w/src/a'', display = ''src/a'', intent = Workspace\<rparr>"
  by code_simp

theorem workspace_paths_stay_inside_witness:
  "path_starts_with ''/w/src/a'' ''/w'' \<and> resolve_existing example_fs ''/w'' ''out'' = Inl (OutsideWorkspace ''/etc'')"
proof
  show "path_starts_with ''/w/src/a'' ''/w''"
    using workspace_paths_stay_inside [of example_fs "''/w''" "''src/./a''"] example_resolution
    by (force simp: example_fs_def)
  show "resolve_existing example_fs ''/w'' ''out'' = Inl (OutsideWorkspace ''/etc'')" by code_simp
qed

subsection \<open>Targets that do not exist yet\<close>

text \<open>The ancestors of a path, by their number of components.\<close>

definition ancestor :: "string \<Rightarrow> nat \<Rightarrow> string" where
  "ancestor p k = render (take k (components p))"

lemma component_list_take: "component_list cs \<Longrightarrow> component_list (take n cs)"
  unfolding component_list_def list_all_iff tl_take by (blast dest: in_set_takeD)

lemma components_ancestor: "components (ancestor p k) = take k (components p)"
  unfolding ancestor_def by (intro components_render component_list_take component_list_components)

lemma parent_ancestor:
  assumes "path_parent (ancestor p (Suc k)) = Some up" and "Suc k \<le> length (components p)"
  shows "up = ancestor p k"
proof -
  from assms(1) have "up = render (butlast (take (Suc k) (components p)))"
    by (simp add: path_parent_def components_ancestor Let_def split: if_splits)
  with assms(2) show ?thesis by (simp add: ancestor_def butlast_take)
qed

lemma ancestor_file_name:
  assumes "path_file_name (ancestor p k) = Some n" and "k \<le> length (components p)"
  shows "0 < k \<and> components p ! (k - 1) = Normal n"
proof -
  from path_file_name_Some [OF assms(1)] have ne: "take k (components p) \<noteq> []"
    and l: "last (take k (components p)) = Normal n" by (simp_all add: components_ancestor)
  from ne have "0 < k" "components p \<noteq> []" by auto
  with l assms(2) show ?thesis by (simp add: last_conv_nth)
qed

definition missing_at :: "file_system \<Rightarrow> string \<Rightarrow> bool" where
  "missing_at fs p \<longleftrightarrow> (\<exists>e. canonicalize fs p = Inl e \<and> io_not_found e)"

definition link_stays_inside :: "file_system \<Rightarrow> string \<Rightarrow> path_intent \<Rightarrow> string \<Rightarrow> string list \<Rightarrow> bool" where
  "link_stays_inside fs ws i p below \<longleftrightarrow>
     \<not> entry_is_symlink fs p \<or> i = External
     \<or> (\<exists>link resolved. read_link fs p = Inr link
          \<and> canonicalize_deepest fs (foldl path_push (link_target fs p ws link) below) = Inr resolved
          \<and> path_starts_with resolved ws)"

lemma validate_dangling_Inr:
  "(if entry_is_symlink fs p then validate_dangling_symlink_scope fs p missing i ws else Inr ()) = Inr u \<longleftrightarrow>
     link_stays_inside fs ws i p (rev missing)"
  by (auto simp: validate_dangling_symlink_scope_def link_stays_inside_def and_then_Inr_iff map_err_def
      split: if_splits sum.splits)

text \<open>The loop, from the ancestor with \<open>k\<close> components.\<close>

lemma resolve_target_loop_spec:
  assumes "resolve_target_loop fs ws i candidate (ancestor p k) missing = Inr path"
    and "k \<le> length (components p)" and "map Normal (rev missing) = drop k (components p)"
  shows "\<exists>j \<le> k. \<exists>canonical. canonicalize fs (ancestor p j) = Inr canonical
    \<and> path = foldl path_push canonical (map component_text (drop j (components p)))
    \<and> (\<forall>l. j < l \<and> l \<le> k \<longrightarrow> missing_at fs (ancestor p l)
          \<and> link_stays_inside fs ws i (ancestor p l) (map component_text (drop l (components p))))"
  using assms
proof (induction k arbitrary: missing)
  case (0 missing)
  have below: "rev missing = map component_text (drop 0 (components p))"
    unfolding "0.prems"(3) [symmetric] by (simp add: comp_def)
  have "path_file_name (ancestor p 0) = None" by (simp add: path_file_name_def components_ancestor)
  with "0.prems"(1) below show ?case
    by (subst (asm) resolve_target_loop.simps)
      (auto simp: and_then_Inr_iff split: sum.splits if_splits)
next
  case (Suc k missing)
  have below: "rev missing = map component_text (drop (Suc k) (components p))"
    unfolding Suc.prems(3) [symmetric] by (simp add: comp_def)
  show ?case
  proof (cases "canonicalize fs (ancestor p (Suc k))")
    case (Inr canonical)
    with Suc.prems(1) below show ?thesis
      by (intro exI [of _ "Suc k"]) (auto simp: resolve_target_loop.simps)
  next
    case (Inl e)
    with Suc.prems(1) obtain name up where
      nf: "io_not_found e" and name: "path_file_name (ancestor p (Suc k)) = Some name" and
      up: "path_parent (ancestor p (Suc k)) = Some up" and
      link: "link_stays_inside fs ws i (ancestor p (Suc k)) (rev missing)" and
      rest: "resolve_target_loop fs ws i candidate up (missing @ [name]) = Inr path"
      by (subst (asm) resolve_target_loop.simps)
        (auto simp: and_then_Inr_iff validate_dangling_Inr split: sum.splits if_splits option.splits)
    from ancestor_file_name [OF name Suc.prems(2)] have "components p ! k = Normal name" by simp
    with Suc.prems(2,3) have "map Normal (rev (missing @ [name])) = drop k (components p)"
      by (simp add: Cons_nth_drop_Suc [symmetric])
    from Suc.IH [OF _ _ this] rest parent_ancestor [OF up Suc.prems(2)] Suc.prems(2)
    obtain j canonical where j: "j \<le> k" "canonicalize fs (ancestor p j) = Inr canonical"
      "path = foldl path_push canonical (map component_text (drop j (components p)))"
      "\<forall>l. j < l \<and> l \<le> k \<longrightarrow> missing_at fs (ancestor p l)
          \<and> link_stays_inside fs ws i (ancestor p l) (map component_text (drop l (components p)))" by auto
    moreover have "missing_at fs (ancestor p (Suc k))" using Inl nf by (auto simp: missing_at_def)
    ultimately show ?thesis
      using link below by (intro exI [of _ j]) (auto simp: le_Suc_eq)
  qed
qed

lemma candidate_render:
  "resolves_to fs root raw ws candidate i \<Longrightarrow> ancestor candidate (length (components candidate)) = candidate"
  unfolding resolves_to_def classify_input_def Let_def
  by (auto simp: ancestor_def lexical_normalize_render split: if_splits option.splits)

text \<open>
  A target that need not exist resolves to its deepest ancestor that does, made canonical,
  followed by the missing names unchanged; and for a workspace request every missing ancestor that
  is a dangling symbolic link points, with the names below it, inside the workspace too.
\<close>

theorem targets_extend_the_deepest_ancestor:
  assumes "resolve_target fs root raw = Inr r"
  shows "\<exists>ws candidate i j canonical. resolves_to fs root raw ws candidate i
    \<and> j \<le> length (components candidate) \<and> canonicalize fs (ancestor candidate j) = Inr canonical
    \<and> absolute r = foldl path_push canonical (map component_text (drop j (components candidate)))
    \<and> list_all (\<lambda>l. missing_at fs (ancestor candidate l)
          \<and> link_stays_inside fs ws i (ancestor candidate l) (map component_text (drop l (components candidate))))
        [Suc j..<Suc (length (components candidate))]"
proof -
  from assms obtain ws candidate i path where
    res: "resolves_to fs root raw ws candidate i" and
    loop: "resolve_target_loop fs ws i candidate candidate [] = Inr path" and
    fin: "finish_resolution ws i path = Inr r"
    unfolding resolve_target_Inr by blast
  let ?n = "length (components candidate)"
  from loop have "resolve_target_loop fs ws i candidate (ancestor candidate ?n) [] = Inr path"
    by (simp only: candidate_render [OF res])
  from resolve_target_loop_spec [OF this] obtain j canonical where
    j: "j \<le> ?n" "canonicalize fs (ancestor candidate j) = Inr canonical"
      "path = foldl path_push canonical (map component_text (drop j (components candidate)))" and
    missing: "\<forall>l. j < l \<and> l \<le> ?n \<longrightarrow> missing_at fs (ancestor candidate l)
        \<and> link_stays_inside fs ws i (ancestor candidate l) (map component_text (drop l (components candidate)))"
    by auto
  have all: "list_all P [Suc j..<Suc ?n]" if "\<forall>l. j < l \<and> l \<le> ?n \<longrightarrow> P l" for P
    using that by (simp add: list_all_iff less_Suc_eq_le del: upt_Suc)
  have "absolute r = path" using finish_resolution_Inr [OF fin] by blast
  with res j all [OF missing] show ?thesis by blast
qed

definition sparse_fs :: file_system where
  "sparse_fs = example_fs\<lparr>canonicalize := \<lambda>p. if p = ''/w'' then Inr ''/w''
     else Inl \<lparr>io_not_found = True, io_message = ''not found''\<rparr>\<rparr>"

theorem targets_extend_the_deepest_ancestor_witness:
  "\<exists>r. resolve_target sparse_fs ''/w'' ''new/file'' = Inr r \<and> absolute r = ''/w/new/file''
     \<and> (\<exists>candidate j. canonicalize sparse_fs (ancestor candidate j) = Inr ''/w'')"
proof -
  have eq: "resolve_target sparse_fs ''/w'' ''new/file'' =
      Inr \<lparr>absolute = ''/w/new/file'', display = ''new/file'', intent = Workspace\<rparr>" by code_simp
  have "canonicalize sparse_fs p = Inr c \<Longrightarrow> c = ''/w''" for p c
    by (auto simp: sparse_fs_def split: if_splits)
  with targets_extend_the_deepest_ancestor [OF eq] eq show ?thesis by fastforce
qed

text \<open>
  The two resolutions agree: what \<open>resolve_existing\<close> accepts, \<open>resolve_target\<close> accepts with the
  same result.
\<close>

theorem existing_paths_resolve_alike:
  assumes "resolve_existing fs root raw = Inr r"
  shows "resolve_target fs root raw = Inr r"
proof -
  from assms obtain ws candidate i path where
    "resolves_to fs root raw ws candidate i" "canonicalize fs candidate = Inr path"
    "finish_resolution ws i path = Inr r"
    unfolding resolve_existing_Inr by blast
  moreover from this(2) have "resolve_target_loop fs ws i candidate candidate [] = Inr path"
    by (simp add: resolve_target_loop.simps)
  ultimately show ?thesis unfolding resolve_target_Inr by blast
qed

theorem existing_paths_resolve_alike_witness:
  "resolve_target example_fs ''/w'' ''src/./a'' =
     Inr \<lparr>absolute = ''/w/src/a'', display = ''src/a'', intent = Workspace\<rparr>"
  by (rule existing_paths_resolve_alike) (rule example_resolution)

end
