(* ===== verification/Tool_Results.thy ===== *)
theory Tool_Results
  imports Tools
begin

section \<open>Stored tool results\<close>

text \<open>
  \<open>SessionToolResultStore\<close> and \<open>ReadToolResult\<close> of \<open>fx-store/src/lib.rs\<close>. The disk is the part of
  the file system below one session: whether the session directory and the result directory are
  real directories, and the entries of the latter. Each system call of the store may fail with a
  message, \<open>fault\<close>; a staged (atomic) write that fails leaves the target as it was. \<open>hex8\<close> is the
  hexadecimal text of the first eight bytes of a SHA-256 digest, \<open>quoted\<close> is
  \<open>serde_json::to_string\<close> of a string.
\<close>

definition max_stored_tool_result_bytes :: nat where
  "max_stored_tool_result_bytes = 8 * 1024 * 1024"

definition max_tool_result_matches :: nat where
  "max_tool_result_matches = 50"

datatype dir_state = NoDir | RealDir | NotADir

datatype dir_entry = RegularFile string | IrregularFile

text \<open>The system calls of the store that can fail for reasons of their own.\<close>

datatype result_call = StatSession | StatResults | MakeResults | ChmodResults | StatFile | StageFile
  | ChmodFile | OpenFile | ReadFile

record result_disk =
  directory :: string
  session_dir :: dir_state
  results_dir :: dir_state
  result_files :: "string \<rightharpoonup> dir_entry"
  fault :: "result_call \<Rightarrow> string option"

subsection \<open>Handles\<close>

definition handle_char :: "char \<Rightarrow> bool" where
  "handle_char c \<longleftrightarrow> is_ascii_alphanumeric c \<or> c = CHR ''_'' \<or> c = CHR ''-''"

definition safe_handle_part :: "string \<Rightarrow> string" where
  "safe_handle_part value =
     (let result = map (\<lambda>c. if handle_char c then c else CHR ''-'') (take 48 value) in
      if result = [] then ''call'' else result)"

definition result_handle :: "(string \<Rightarrow> string) \<Rightarrow> string \<Rightarrow> string \<Rightarrow> string \<Rightarrow> string" where
  "result_handle hex8 call_id name body =
     ''result-'' @ safe_handle_part name @ ''-'' @ hex8 call_id @ ''-'' @ hex8 body @ ''.txt''"

definition validate_result_handle :: "string \<Rightarrow> tool_result_store_error + unit" where
  "validate_result_handle handle =
     (if handle = [] \<or> 160 < length handle \<or> contains_str handle ''..''
         \<or> \<not> list_all (\<lambda>c. handle_char c \<or> c = CHR ''.'') handle
      then Inl InvalidHandle else Inr ())"

subsection \<open>Operations\<close>

definition result_io :: "string \<Rightarrow> string \<Rightarrow> tool_result_store_error" where
  "result_io path error = StoreUnavailable (path @ '': '' @ error)"

definition attempt :: "result_disk \<Rightarrow> result_call \<Rightarrow> string \<Rightarrow> tool_result_store_error + unit" where
  "attempt disk call path = (case fault disk call of Some m \<Rightarrow> Inl (result_io path m) | None \<Rightarrow> Inr ())"

definition ensure_result_directory ::
  "result_disk \<Rightarrow> (tool_result_store_error + unit) \<times> result_disk" where
  "ensure_result_directory disk =
     (case path_parent (directory disk) of
        None \<Rightarrow> (Inl (StoreUnavailable ''tool-result directory has no parent''), disk)
      | Some parent \<Rightarrow>
          (case attempt disk StatSession parent of Inl e \<Rightarrow> (Inl e, disk) | Inr _ \<Rightarrow>
          (case session_dir disk of
             NoDir \<Rightarrow> (Inl (result_io parent ''not found''), disk)
           | NotADir \<Rightarrow>
               (Inl (StoreUnavailable (''session path is not a real directory: '' @ parent)), disk)
           | RealDir \<Rightarrow>
               (case attempt disk StatResults (directory disk) of Inl e \<Rightarrow> (Inl e, disk) | Inr _ \<Rightarrow>
               (case results_dir disk of
                  NotADir \<Rightarrow>
                    (Inl (StoreUnavailable
                       (''tool-result path is not a real directory: '' @ directory disk)), disk)
                | RealDir \<Rightarrow> (attempt disk ChmodResults (directory disk), disk)
                | NoDir \<Rightarrow>
                    (case attempt disk MakeResults (directory disk) of Inl e \<Rightarrow> (Inl e, disk) | Inr _ \<Rightarrow>
                     (attempt disk ChmodResults (directory disk), disk\<lparr>results_dir := RealDir\<rparr>)))))))"

definition result_path :: "result_disk \<Rightarrow> string \<Rightarrow> string" where
  "result_path disk handle = path_push (directory disk) handle"

definition reject_unsafe_result_file :: "result_disk \<Rightarrow> string \<Rightarrow> tool_result_store_error + unit" where
  "reject_unsafe_result_file disk handle =
     and_then (attempt disk StatFile (result_path disk handle)) (\<lambda>_.
       case result_files disk handle of
         Some IrregularFile \<Rightarrow>
           Inl (StoreUnavailable
             (''tool-result path is not a regular file: '' @ result_path disk handle))
       | _ \<Rightarrow> Inr ())"

text \<open>A failure of the last step, the mode of the file, is reported although the file is stored.\<close>

definition store_result ::
  "(string \<Rightarrow> string) \<Rightarrow> string \<Rightarrow> string \<Rightarrow> string \<Rightarrow> result_disk \<Rightarrow>
     (tool_result_store_error + stored_tool_result) \<times> result_disk" where
  "store_result hex8 call_id name body disk =
     (if max_stored_tool_result_bytes < length body then (Inl TooLarge, disk)
      else case ensure_result_directory disk of
          (Inl e, disk) \<Rightarrow> (Inl e, disk)
        | (Inr _, disk) \<Rightarrow>
            let handle = result_handle hex8 call_id name body;
                path = result_path disk handle in
            (case reject_unsafe_result_file disk handle of Inl e \<Rightarrow> (Inl e, disk) | Inr _ \<Rightarrow>
            (case attempt disk StageFile path of Inl e \<Rightarrow> (Inl e, disk) | Inr _ \<Rightarrow>
               let disk = disk\<lparr>result_files := (result_files disk)(handle \<mapsto> RegularFile body)\<rparr> in
               (and_then (attempt disk ChmodFile path)
                  (\<lambda>_. Inr \<lparr>stored_handle = handle, stored_bytes = length body\<rparr>), disk))))"

definition open_result_file :: "result_disk \<Rightarrow> string \<Rightarrow> tool_result_store_error + string" where
  "open_result_file disk handle =
     (case result_files disk handle of
        Some (RegularFile bytes) \<Rightarrow>
          and_then (attempt disk OpenFile (result_path disk handle)) (\<lambda>_. Inr bytes)
      | Some IrregularFile \<Rightarrow> Inl (result_io (result_path disk handle) ''not a regular file'')
      | None \<Rightarrow> Inl NotFound)"

definition read_result :: "result_disk \<Rightarrow> string \<Rightarrow> tool_result_store_error + string" where
  "read_result disk handle =
     and_then (validate_result_handle handle) (\<lambda>_.
     and_then (reject_unsafe_result_file disk handle) (\<lambda>_.
     and_then (open_result_file disk handle) (\<lambda>bytes.
       if max_stored_tool_result_bytes < length bytes then Inl TooLarge
       else and_then (attempt disk ReadFile (result_path disk handle)) (\<lambda>_.
         if valid_utf8 bytes then Inr bytes
         else Inl (StoreUnavailable (result_path disk handle @ '' is not valid UTF-8''))))))"

definition page_of :: "string \<Rightarrow> nat \<Rightarrow> nat \<Rightarrow> tool_result_page" where
  "page_of body start_byte byte_count =
     (let offset = min (start_byte - 1) (length body);
          count = min byte_count tool_result_max_read_bytes;
          end_byte = min (sat_add offset count) (length body);
          safe_start = utf8_forward_boundary body offset;
          safe_end = max (utf8_backward_boundary body end_byte) safe_start in
      \<lparr>page_content = take (safe_end - safe_start) (drop safe_start body),
       page_start = sat_add safe_start 1, page_end = safe_end, page_total = length body\<rparr>)"

definition read_range ::
  "string \<Rightarrow> nat \<Rightarrow> nat \<Rightarrow> result_disk \<Rightarrow> tool_result_store_error + tool_result_page" where
  "read_range handle start_byte byte_count disk =
     and_then (read_result disk handle) (\<lambda>body. Inr (page_of body start_byte byte_count))"

text \<open>The loop of \<open>search\<close> over the numbered lines.\<close>

fun search_lines ::
  "string \<Rightarrow> nat \<Rightarrow> nat \<Rightarrow> string list \<Rightarrow> nat \<Rightarrow> tool_result_match list \<Rightarrow> tool_result_match list" where
  "search_lines query max_matches index [] rendered result = result"
| "search_lines query max_matches index (line # lines) rendered result =
     (if \<not> contains_str line query
      then search_lines query max_matches (index + 1) lines rendered result
      else
        let remaining = tool_result_max_read_bytes - rendered in
        if remaining = 0 then result
        else
          let body = utf8_prefix line remaining;
              rendered = sat_add rendered (length body);
              result = result @ [\<lparr>match_line = index + 1, match_content = body\<rparr>] in
          if min max_matches max_tool_result_matches \<le> length result then result
          else search_lines query max_matches (index + 1) lines rendered result)"

definition search ::
  "string \<Rightarrow> string \<Rightarrow> nat \<Rightarrow> result_disk \<Rightarrow> tool_result_store_error + tool_result_match list" where
  "search handle raw max_matches disk =
     (let query = trim raw in
      if query = [] then Inl InvalidQuery
      else and_then (read_result disk handle) (\<lambda>body.
        Inr (search_lines query max_matches 0 (split_on CHR 0x0A body) 0 [])))"

text \<open>The store as the port the agent and the tool use.\<close>

definition session_tool_result_store :: "(string \<Rightarrow> string) \<Rightarrow> result_disk result_store" where
  "session_tool_result_store hex8 =
     \<lparr>rs_store = store_result hex8,
      rs_read_range = \<lambda>handle start count disk. (read_range handle start count disk, disk),
      rs_search = \<lambda>handle query n disk. (search handle query n disk, disk)\<rparr>"

subsection \<open>The tool\<close>

record read_input =
  ri_handle :: string
  ri_start_byte :: nat
  ri_byte_count :: nat
  ri_query :: "string option"

definition first_byte :: nat where
  "first_byte = 1"

definition default_result_bytes :: nat where
  "default_result_bytes = tool_result_default_read_bytes"

text \<open>
  \<open>serde_json::from_value\<close> for \<open>ReadToolResultInput\<close>: a field is present, absent with a default, or
  of the wrong type, and no other field is allowed. Numbers are integers here. \<open>err\<close> is the text of serde's error.
\<close>

definition read_usize :: "json option \<Rightarrow> nat \<Rightarrow> nat option" where
  "read_usize v d =
     (case v of
        None \<Rightarrow> Some d
      | Some (JNumber n) \<Rightarrow> if 0 \<le> n \<and> n \<le> int usize_max then Some (nat n) else None
      | Some _ \<Rightarrow> None)"

definition read_opt_string :: "json option \<Rightarrow> string option option" where
  "read_opt_string v =
     (case v of
        None \<Rightarrow> Some None
      | Some JNull \<Rightarrow> Some None
      | Some (JString s) \<Rightarrow> Some (Some s)
      | Some _ \<Rightarrow> None)"

definition parse_read_input :: "(json \<Rightarrow> string) \<Rightarrow> json \<Rightarrow> string + read_input" where
  "parse_read_input err v =
     (let names = [''handle'', ''start_byte'', ''byte_count'', ''query''] in
      case struct_fields names v of
        None \<Rightarrow> Inl (err v)
      | Some obj \<Rightarrow>
          (case (string_field obj ''handle'', read_usize (map_of obj ''start_byte'') first_byte,
                 read_usize (map_of obj ''byte_count'') default_result_bytes,
                 read_opt_string (map_of obj ''query'')) of
             (Some h, Some s, Some b, Some q) \<Rightarrow>
               if set (map fst obj) \<subseteq> set names
               then Inr \<lparr>ri_handle = h, ri_start_byte = s, ri_byte_count = b, ri_query = q\<rparr>
               else Inl (err v)
           | _ \<Rightarrow> Inl (err v)))"

definition result_tool_error :: "string \<Rightarrow> tool_result_store_error \<Rightarrow> tool_error" where
  "result_tool_error handle e =
     Execution (''read_tool_result failed for handle '' @ handle @ '': '' @
       (case e of
          NotFound \<Rightarrow> ''no exact match exists in the active session store; copy the handle exactly from the tool result preview''
        | _ \<Rightarrow> show_store_error e))"

definition line_feed :: string where
  "line_feed = [CHR 0x0A]"

definition quote_mark :: string where
  "quote_mark = [CHR 0x22]"

definition render_matches :: "(string \<Rightarrow> string) \<Rightarrow> string \<Rightarrow> string \<Rightarrow> tool_result_match list \<Rightarrow> string" where
  "render_matches quoted handle query matches =
     ''<tool_result_query handle='' @ quote_mark @ handle @ quote_mark @ ''>'' @ line_feed
     @ ''query: '' @ quoted query @ line_feed
     @ (if matches = [] then ''(no matches)'' @ line_feed
        else concat (map (\<lambda>m. show_nat (match_line m) @ ''|'' @ match_content m @ line_feed) matches))
     @ ''</tool_result_query>''"

definition render_page :: "string \<Rightarrow> tool_result_page \<Rightarrow> string" where
  "render_page handle page =
     ''<tool_result handle='' @ quote_mark @ handle @ quote_mark
     @ '' start_byte='' @ quote_mark @ show_nat (page_start page) @ quote_mark
     @ '' end_byte='' @ quote_mark @ show_nat (page_end page) @ quote_mark
     @ '' total_bytes='' @ quote_mark @ show_nat (page_total page) @ quote_mark @ ''>'' @ line_feed
     @ page_content page @ line_feed @ ''</tool_result>''"

definition read_tool_result ::
  "(json \<Rightarrow> string) \<Rightarrow> (string \<Rightarrow> string) \<Rightarrow> 'w result_store \<Rightarrow> json \<Rightarrow> 'w \<Rightarrow> (tool_error + tool_output) \<times> 'w"
  where
  "read_tool_result err quoted store arguments w =
     (case parse_read_input err arguments of
        Inl e \<Rightarrow> (Inl (InvalidArguments e), w)
      | Inr input \<Rightarrow>
         let handle = trim (ri_handle input);
             output = (\<lambda>body. \<lparr>out_content = body, is_error = False, structured = None,
                original_bytes = length body, truncated = False, durable_content = None\<rparr>) in
         if handle = [] \<or> ri_start_byte input = 0 \<or> ri_byte_count input = 0 then
           (Inl (InvalidArguments ''handle must be non-empty and byte offsets must be positive''), w)
         else case ri_query input of
             Some raw \<Rightarrow>
               let query = trim raw in
               if query = [] then (Inl (InvalidArguments ''query must not be empty''), w)
               else (case rs_search store handle query max_tool_result_matches w of
                   (Inl e, w') \<Rightarrow> (Inl (result_tool_error handle e), w')
                 | (Inr matches, w') \<Rightarrow> (Inr (output (render_matches quoted handle query matches)), w'))
           | None \<Rightarrow>
               (case rs_read_range store handle (ri_start_byte input)
                       (min (ri_byte_count input) tool_result_max_read_bytes) w of
                  (Inl e, w') \<Rightarrow> (Inl (result_tool_error handle e), w')
                | (Inr page, w') \<Rightarrow> (Inr (output (render_page handle page)), w')))"

definition read_tool_result_tool ::
  "(json \<Rightarrow> string) \<Rightarrow> (string \<Rightarrow> string) \<Rightarrow> json \<Rightarrow> 'w result_store \<Rightarrow> 'w tool" where
  "read_tool_result_tool err quoted schema store =
     \<lparr>t_name = ''read_tool_result'',
      t_description = ''Read a bounded UTF-8 byte range or search literal text in a session-scoped stored tool result.'',
      t_input_schema = schema, t_effect = (\<lambda>_. Inr Read), t_project_context_targets = default_targets,
      t_prepare = default_prepare (default_permission_requests ''read_tool_result'' (\<lambda>_. Inr Read)) default_irreversible,
      t_execute = (\<lambda>_ arguments. Fut (\<lambda>w.
         case read_tool_result err quoted store arguments w of (r, w') \<Rightarrow> (Inl r, w')))\<rparr>"

subsection \<open>Handles are valid\<close>

text \<open>What the store relies on: eight bytes are sixteen lower-case hexadecimal digits.\<close>

definition is_hex8 :: "string \<Rightarrow> bool" where
  "is_hex8 s \<longleftrightarrow> length s = 16 \<and>
     list_all (\<lambda>c. is_ascii_digit c \<or> (is_ascii_lowercase c \<and> byte_of c \<le> 102)) s"

lemma is_hex8_chars: "is_hex8 s \<Longrightarrow> length s = 16 \<and> list_all handle_char s"
  by (auto simp: is_hex8_def list_all_iff handle_char_def is_ascii_alphanumeric_def)

lemma safe_handle_part_chars:
  "list_all handle_char (safe_handle_part v) \<and> length (safe_handle_part v) \<le> 48"
  unfolding safe_handle_part_def Let_def
  by (auto simp: list_all_iff handle_char_def is_ascii_alphanumeric_def
    is_ascii_lowercase_def byte_of_def)

lemma dot_not_handle: "\<not> handle_char CHR ''.''"
  by (simp add: handle_char_def ascii_class_defs byte_of_def)

lemma one_dot:
  assumes "CHR ''.'' \<notin> set as"
  shows "\<not> contains_str (as @ ''.txt'') ''..''"
proof
  assume "contains_str (as @ ''.txt'') ''..''"
  then obtain x y where "as @ ''.txt'' = x @ ''..'' @ y"
    by (auto simp: contains_str_def sublist_def)
  then have "count_list (as @ ''.txt'') (CHR ''.'') = count_list (x @ ''..'' @ y) (CHR ''.'')" by simp
  moreover have "count_list as (CHR ''.'') = 0" using assms by (simp add: count_list_0_iff)
  ultimately show False by simp
qed

lemma result_handle_valid:
  assumes "\<And>s. is_hex8 (hex8 s)"
  shows "validate_result_handle (result_handle hex8 cid name body) = Inr ()"
proof -
  let ?as = "''result-'' @ safe_handle_part name @ ''-'' @ hex8 cid @ ''-'' @ hex8 body"
  have h: "result_handle hex8 cid name body = ?as @ ''.txt''" by (simp add: result_handle_def)
  have hx: "length (hex8 s) = 16 \<and> list_all handle_char (hex8 s)" for s
    using is_hex8_chars [OF assms] .
  have as: "list_all handle_char ?as"
    using hx safe_handle_part_chars [of name]
    by (simp add: handle_char_def is_ascii_alphanumeric_def is_ascii_lowercase_def byte_of_def)
  then have "CHR ''.'' \<notin> set ?as"
    using dot_not_handle unfolding list_all_iff by blast
  then have "\<not> contains_str (?as @ ''.txt'') ''..''" by (rule one_dot)
  moreover have "list_all (\<lambda>c. handle_char c \<or> c = CHR ''.'') (?as @ ''.txt'')"
    using as by (auto simp: list_all_iff handle_char_def is_ascii_alphanumeric_def
      is_ascii_lowercase_def byte_of_def)
  moreover have "length (?as @ ''.txt'') \<le> 160"
    using hx safe_handle_part_chars [of name] by simp
  ultimately show ?thesis unfolding h validate_result_handle_def by simp
qed

subsection \<open>Pages\<close>

lemma max_diff_bound: "x \<le> k + c \<Longrightarrow> k \<le> a \<Longrightarrow> max x a - a \<le> (c :: nat)"
  by simp

lemma page_of_props:
  assumes "length body < usize_max" and p_def: "p = page_of body s n"
  shows "page_content p = take (page_end p - (page_start p - 1)) (drop (page_start p - 1) body)"
    and "1 \<le> page_start p" and "page_start p - 1 \<le> page_end p" and "page_end p \<le> length body"
    and "page_total p = length body"
    and "is_char_boundary body (page_start p - 1)" and "is_char_boundary body (page_end p)"
    and "length (page_content p) \<le> min n tool_result_max_read_bytes"
proof -
  let ?o = "min (s - 1) (length body)"
  let ?c = "min n tool_result_max_read_bytes"
  let ?e = "min (sat_add ?o ?c) (length body)"
  let ?a = "utf8_forward_boundary body ?o"
  let ?b = "max (utf8_backward_boundary body ?e) ?a"
  have a: "?o \<le> ?a" "?a \<le> length body" "is_char_boundary body ?a"
    using utf8_forward_boundary_props [of ?o body] by simp_all
  have e: "utf8_backward_boundary body ?e \<le> ?e" by (rule utf8_backward_boundary_le)
  have b: "?b \<le> length body" "is_char_boundary body ?b"
    using a e by (auto simp: max_def)
  have sa: "sat_add ?a 1 = ?a + 1" using a(2) assms(1) by (simp add: sat_add_exact)
  have st: "page_start p = ?a + 1" and en: "page_end p = ?b" and ct: "page_content p = take (?b - ?a) (drop ?a body)"
    by (simp_all only: p_def page_of_def Let_def tool_result_page.simps sa)
  show "page_content p = take (page_end p - (page_start p - 1)) (drop (page_start p - 1) body)"
    by (simp only: st en ct diff_add_inverse2)
  show "1 \<le> page_start p" "page_start p - 1 \<le> page_end p" "page_end p \<le> length body"
    using b by (simp_all add: st en)
  show "page_total p = length body" by (simp add: p_def page_of_def Let_def)
  show "is_char_boundary body (page_start p - 1)" "is_char_boundary body (page_end p)"
    using a(3) b(2) by (simp_all only: st en diff_add_inverse2)
  have "utf8_backward_boundary body ?e \<le> ?o + ?c"
    using order.trans [OF e min.cobounded1] sat_add_le by (rule order.trans)
  then have "?b - ?a \<le> ?c" using a(1) by (rule max_diff_bound)
  moreover have "length (page_content p) \<le> ?b - ?a" unfolding ct length_take by (rule min.cobounded2)
  ultimately show "length (page_content p) \<le> ?c" by (rule order.trans [rotated])
qed

text \<open>The pages a reader sees who asks for \<open>n\<close> bytes and goes on one past the end of each page.\<close>

primrec pages :: "nat \<Rightarrow> string \<Rightarrow> nat \<Rightarrow> nat \<Rightarrow> tool_result_page list" where
  "pages 0 body n s = []"
| "pages (Suc k) body n s =
     (let p = page_of body s n in
      p # (if page_end p = page_total p then [] else pages k body n (page_end p + 1)))"

lemma page_progress:
  assumes v: "valid_utf8 body" and l: "length body < usize_max" and n: "4 \<le> n"
    and i: "is_char_boundary body i" and lt: "i < length body"
  shows "page_start (page_of body (i + 1) n) = i + 1 \<and> i < page_end (page_of body (i + 1) n)"
proof -
  let ?c = "min n tool_result_max_read_bytes"
  let ?e = "min (sat_add i ?c) (length body)"
  have c4: "4 \<le> ?c" using n by (simp add: tool_result_max_read_bytes_def)
  obtain j where j: "i < j" "j \<le> i + 4" "j \<le> length body" "is_char_boundary body j"
    using boundary_within_4 [OF v i lt] by blast
  have "j \<le> i + ?c" using j(2) c4 by linarith
  then have "j \<le> sat_add i ?c" using j(3) l by (simp add: sat_add_def)
  with j have "j \<le> utf8_backward_boundary body ?e" by (intro utf8_backward_boundary_greatest) auto
  moreover have "min (i + 1 - 1) (length body) = i" using lt by simp
  ultimately show ?thesis
    using j(1) lt l i by (simp add: page_of_def Let_def sat_add_exact less_max_iff_disj)
qed

lemma page_start_at_end:
  assumes "length body < usize_max" and "i = length body"
  shows "page_start (page_of body (i + 1) n) = length body + 1"
proof -
  have "min (i + 1 - 1) (length body) = length body" using assms(2) by simp
  then have "page_start (page_of body (i + 1) n) = sat_add (utf8_forward_boundary body (length body)) 1"
    by (simp only: page_of_def Let_def tool_result_page.simps)
  also have "\<dots> = length body + 1" using assms(1) by (simp add: sat_add_exact)
  finally show ?thesis .
qed

lemma pages_reassemble:
  assumes v: "valid_utf8 body" and l: "length body < usize_max" and n: "4 \<le> n"
  shows "is_char_boundary body i \<Longrightarrow> i \<le> length body \<Longrightarrow> length body - i < k \<Longrightarrow>
    concat (map page_content (pages k body n (i + 1))) = drop i body"
proof (induction k arbitrary: i)
  case (Suc k)
  let ?p = "page_of body (i + 1) n"
  note P = page_of_props [OF l refl, of "i + 1" n]
  show ?case
  proof (cases "i = length body")
    case True
    then have s: "page_start ?p = length body + 1" by (rule page_start_at_end [OF l])
    then have e: "page_end ?p = length body" using P(3,4) by simp
    have "page_content ?p = []" using P(1) s by simp
    then show ?thesis using e P(5) True by (simp add: Let_def)
  next
    case False
    with Suc.prems have lt: "i < length body" by simp
    from page_progress [OF v l n Suc.prems(1) lt]
    have s: "page_start ?p = i + 1" and e: "i < page_end ?p" by simp_all
    have ct: "page_content ?p = take (page_end ?p - i) (drop i body)" using P(1) s by simp
    show ?thesis
    proof (cases "page_end ?p = length body")
      case True
      then show ?thesis using ct P(5) by (simp add: Let_def)
    next
      case False
      have "concat (map page_content (pages k body n (page_end ?p + 1))) = drop (page_end ?p) body"
        using Suc.prems(3) e P(4,7) by (intro Suc.IH) auto
      moreover have "drop (page_end ?p) body = drop (page_end ?p - i) (drop i body)"
        using e by simp
      moreover have "concat (map page_content (pages (Suc k) body n (i + 1))) =
          page_content ?p @ concat (map page_content (pages k body n (page_end ?p + 1)))"
        using False P(5) by (simp add: Let_def)
      ultimately show ?thesis using ct by (simp only: append_take_drop_id)
    qed
  qed
qed simp

text \<open>
  Reading a stored result page by page loses nothing and ends: for a result of well-formed
  UTF-8, asking for pages of at least four bytes (the longest encoding of a character), from byte 1
  and each time from one past the end of the last page, gives pages whose contents joined are the
  result; every page is well-formed UTF-8 and within the requested count and the 64 KiB limit.
\<close>

theorem paged_reads_give_the_whole_result:
  assumes "valid_utf8 body" and "length body < usize_max" and "4 \<le> n"
  shows "concat (map page_content (pages (length body + 1) body n 1)) = body \<and>
    list_all (\<lambda>s. valid_utf8 (page_content (page_of body s n)) \<and>
       length (page_content (page_of body s n)) \<le> min n tool_result_max_read_bytes) starts"
proof
  show "concat (map page_content (pages (length body + 1) body n 1)) = body"
    using pages_reassemble [OF assms, of 0 "length body + 1"] by simp
  have "valid_utf8 (page_content (page_of body s n)) \<and>
       length (page_content (page_of body s n)) \<le> min n tool_result_max_read_bytes" for s
  proof
    note P = page_of_props [OF assms(2) refl, of s n]
    show "length (page_content (page_of body s n)) \<le> min n tool_result_max_read_bytes" by (rule P)
    show "valid_utf8 (page_content (page_of body s n))"
      unfolding P(1) using assms(1) P(6,7,3) by (rule valid_utf8_slice)
  qed
  then show "list_all (\<lambda>s. valid_utf8 (page_content (page_of body s n)) \<and>
       length (page_content (page_of body s n)) \<le> min n tool_result_max_read_bytes) starts"
    unfolding list_all_iff by blast
qed

theorem paged_reads_give_the_whole_result_witness:
  "concat (map page_content (pages (length ''hello'' + 1) ''hello'' 4 1)) = ''hello''"
  using paged_reads_give_the_whole_result [of "''hello''" 4 "[]"]
  by (simp del: pages.simps add: usize_max_def valid_utf8_ascii is_ascii_def byte_of_def)

subsection \<open>Storing and reading back\<close>

text \<open>
  A store a client can rely on: a result that is accepted stays readable under its handle until
  another result with the same handle is stored.
\<close>

locale result_archive =
  fixes ok :: "'s \<Rightarrow> bool"
    and accepts :: "string \<times> string \<times> string \<Rightarrow> bool"
    and handle_of :: "string \<times> string \<times> string \<Rightarrow> string"
    and put :: "'s \<Rightarrow> string \<times> string \<times> string \<Rightarrow> 's"
    and get :: "'s \<Rightarrow> string \<Rightarrow> 'e + string"
  assumes ok_put: "ok s \<Longrightarrow> accepts x \<Longrightarrow> ok (put s x)"
    and get_put: "ok s \<Longrightarrow> accepts x \<Longrightarrow>
      get (put s x) h = (if h = handle_of x then Inr (snd (snd x)) else get s h)"
begin

lemma get_after_puts:
  "ok s \<Longrightarrow> list_all accepts xs \<Longrightarrow>
    ok (foldl put s xs) \<and>
    get (foldl put s xs) h =
      (case filter (\<lambda>x. handle_of x = h) xs of [] \<Rightarrow> get s h | ys \<Rightarrow> Inr (snd (snd (last ys))))"
proof (induction xs rule: rev_induct)
  case (snoc x xs)
  then show ?case by (auto simp: ok_put get_put split: list.splits)
qed simp

end

definition healthy :: "result_disk \<Rightarrow> bool" where
  "healthy d \<longleftrightarrow> path_parent (directory d) \<noteq> None \<and> session_dir d = RealDir \<and> results_dir d \<noteq> NotADir \<and>
     list_all (\<lambda>c. fault d c = None)
       [StatSession, StatResults, MakeResults, ChmodResults, StatFile, StageFile, ChmodFile, OpenFile, ReadFile]
     \<and> IrregularFile \<notin> ran (result_files d)"

definition storable :: "string \<times> string \<times> string \<Rightarrow> bool" where
  "storable x \<longleftrightarrow> length (snd (snd x)) \<le> max_stored_tool_result_bytes \<and> valid_utf8 (snd (snd x))"

definition store_all :: "(string \<Rightarrow> string) \<Rightarrow> result_disk \<Rightarrow> (string \<times> string \<times> string) list \<Rightarrow> result_disk" where
  "store_all hex8 = foldl (\<lambda>d (c, n, b). snd (store_result hex8 c n b d))"

lemma healthy_attempt: "healthy d \<Longrightarrow> attempt d c p = Inr ()"
  by (cases c) (simp_all add: healthy_def attempt_def)

lemma healthy_regular: "healthy d \<Longrightarrow> result_files d h \<noteq> Some IrregularFile"
  by (auto simp: healthy_def ran_def)

lemma healthy_reject [simp]: "healthy d \<Longrightarrow> reject_unsafe_result_file d h = Inr ()"
  using healthy_regular [of d h]
  by (simp add: reject_unsafe_result_file_def healthy_attempt split: option.splits dir_entry.splits)

lemma healthy_directory:
  "healthy d \<Longrightarrow> ensure_result_directory d = (Inr (), d\<lparr>results_dir := RealDir\<rparr>)"
  by (auto simp: ensure_result_directory_def healthy_attempt healthy_def split: dir_state.splits option.splits)

lemma healthy_updates:
  "healthy d \<Longrightarrow> healthy (d\<lparr>results_dir := RealDir\<rparr>)"
  "healthy d \<Longrightarrow> healthy (d\<lparr>result_files := (result_files d)(h \<mapsto> RegularFile b)\<rparr>)"
  by (auto simp: healthy_def ran_def)

lemma store_result_healthy:
  assumes "healthy d" and "storable (c, n, b)"
  shows "store_result hex8 c n b d =
    (Inr \<lparr>stored_handle = result_handle hex8 c n b, stored_bytes = length b\<rparr>,
     d\<lparr>results_dir := RealDir,
       result_files := (result_files d)(result_handle hex8 c n b \<mapsto> RegularFile b)\<rparr>)"
  using assms healthy_updates [OF assms(1)] healthy_updates(2) [OF healthy_updates(1) [OF assms(1)]]
  by (simp add: store_result_def healthy_directory Let_def healthy_attempt storable_def)

lemma read_result_healthy:
  "healthy d \<Longrightarrow> read_result d h =
     and_then (validate_result_handle h) (\<lambda>_.
       case result_files d h of
         Some (RegularFile b) \<Rightarrow>
           if max_stored_tool_result_bytes < length b then Inl TooLarge
           else if valid_utf8 b then Inr b
           else Inl (StoreUnavailable (result_path d h @ '' is not valid UTF-8''))
       | _ \<Rightarrow> Inl NotFound)"
  using healthy_regular [of d h]
  by (auto simp: read_result_def open_result_file_def healthy_attempt
    split: option.splits dir_entry.splits)

text \<open>Contracts over a fixed hash whose digests have the documented form.\<close>

definition archive_put :: "(string \<Rightarrow> string) \<Rightarrow> result_disk \<Rightarrow> string \<times> string \<times> string \<Rightarrow> result_disk" where
  "archive_put hex8 d x = snd (store_result hex8 (fst x) (fst (snd x)) (snd (snd x)) d)"

definition archive_handle :: "(string \<Rightarrow> string) \<Rightarrow> string \<times> string \<times> string \<Rightarrow> string" where
  "archive_handle hex8 x = result_handle hex8 (fst x) (fst (snd x)) (snd (snd x))"

lemma archive_put_healthy:
  "healthy d \<Longrightarrow> storable x \<Longrightarrow> archive_put hex8 d x =
     d\<lparr>results_dir := RealDir,
       result_files := (result_files d)(archive_handle hex8 x \<mapsto> RegularFile (snd (snd x)))\<rparr>"
  by (cases x) (simp add: archive_put_def archive_handle_def store_result_healthy)

text \<open>
  A digest that may be anything, and the same digest repaired to the documented form: the
  interpretation below is for every function, and the theorem for those that need no repair.
\<close>

definition as_hex8 :: "(string \<Rightarrow> string) \<Rightarrow> string \<Rightarrow> string" where
  "as_hex8 hex8 s = (if is_hex8 (hex8 s) then hex8 s else replicate 16 CHR ''0'')"

lemma as_hex8_is_hex8: "is_hex8 (as_hex8 hex8 s)"
  by (simp add: as_hex8_def is_hex8_def is_ascii_digit_def byte_of_def list_all_iff)

interpretation session_archive:
  result_archive healthy storable "archive_handle (as_hex8 hex8)" "archive_put (as_hex8 hex8)" read_result
  for hex8
proof unfold_locales
  fix d x h
  assume d: "healthy d" and x: "storable x"
  let ?h = "archive_handle (as_hex8 hex8) x"
  let ?d = "archive_put (as_hex8 hex8) d x"
  have e: "?d = d\<lparr>results_dir := RealDir, result_files := (result_files d)(?h \<mapsto> RegularFile (snd (snd x)))\<rparr>"
    using d x by (rule archive_put_healthy)
  have "?d = (d\<lparr>results_dir := RealDir\<rparr>)
      \<lparr>result_files := (result_files (d\<lparr>results_dir := RealDir\<rparr>))(?h \<mapsto> RegularFile (snd (snd x)))\<rparr>"
    unfolding e by simp
  then show ok: "healthy ?d" by (simp only: healthy_updates d)
  have rp: "result_path ?d h = result_path d h" by (simp add: e result_path_def)
  have "validate_result_handle ?h = Inr ()"
    unfolding archive_handle_def by (rule result_handle_valid) (rule as_hex8_is_hex8)
  then show "read_result ?d h = (if h = ?h then Inr (snd (snd x)) else read_result d h)"
    unfolding read_result_healthy [OF ok] read_result_healthy [OF d] rp using x
    by (simp add: e storable_def)
qed

text \<open>
  C11. A stored result is read back. On a file system whose calls succeed, after any sequence of
  results of well-formed UTF-8 within the size limit, the handle of a result reads as the content
  last stored under it; a handle under which none of them was stored reads as before. The handles
  the store makes always pass its own validation.
\<close>

theorem stored_results_are_read_back:
  assumes "\<And>s. is_hex8 (hex8 s)" and "healthy d" and "list_all storable xs"
  shows "read_result (store_all hex8 d xs) h =
    (case filter (\<lambda>(c, n, b). result_handle hex8 c n b = h) xs of
       [] \<Rightarrow> read_result d h
     | ys \<Rightarrow> Inr (snd (snd (last ys))))"
proof -
  have "as_hex8 hex8 = hex8" using assms(1) by (simp add: as_hex8_def fun_eq_iff)
  then have "read_result (foldl (archive_put hex8) d xs) h =
    (case filter (\<lambda>x. archive_handle hex8 x = h) xs of [] \<Rightarrow> read_result d h | ys \<Rightarrow> Inr (snd (snd (last ys))))"
    using session_archive.get_after_puts [of d xs hex8 h] assms(2,3) by simp
  moreover have "archive_put hex8 = (\<lambda>d (c, n, b). snd (store_result hex8 c n b d))"
    and "archive_handle hex8 = (\<lambda>(c, n, b). result_handle hex8 c n b)"
    by (auto simp: archive_put_def archive_handle_def fun_eq_iff)
  ultimately show ?thesis by (simp add: store_all_def case_prod_unfold)
qed

definition sample_disk :: result_disk where
  "sample_disk = \<lparr>directory = ''/s/tool-results'', session_dir = RealDir, results_dir = NoDir,
     result_files = Map.empty, fault = \<lambda>_. None\<rparr>"

theorem stored_results_are_read_back_witness:
  "read_result (store_all (\<lambda>_. replicate 16 CHR ''a'') sample_disk [(''c1'', ''read_file'', ''abc'')])
     (result_handle (\<lambda>_. replicate 16 CHR ''a'') ''c1'' ''read_file'' ''abc'') = Inr ''abc''"
proof -
  have "path_parent ''/s/tool-results'' \<noteq> None" by code_simp
  then have "healthy sample_disk" by (simp add: healthy_def sample_disk_def)
  moreover have "is_hex8 (replicate 16 CHR ''a'')" by code_simp
  moreover have "list_all storable [(''c1'', ''read_file'', ''abc'')]"
    by (simp add: storable_def max_stored_tool_result_bytes_def valid_utf8_ascii is_ascii_def byte_of_def)
  ultimately show ?thesis
    using stored_results_are_read_back [of "\<lambda>_. replicate 16 CHR ''a''" sample_disk
      "[(''c1'', ''read_file'', ''abc'')]"
      "result_handle (\<lambda>_. replicate 16 CHR ''a'') ''c1'' ''read_file'' ''abc''"]
    by simp
qed

subsection \<open>Searching\<close>

definition matching_lines :: "string \<Rightarrow> nat \<Rightarrow> string list \<Rightarrow> (nat \<times> string) list" where
  "matching_lines query i ls = filter (\<lambda>(_, l). contains_str l query) (zip [i + 1..<i + 1 + length ls] ls)"

lemma matching_lines_simps [simp]:
  "matching_lines query i [] = []"
  "matching_lines query i (l # ls) =
     (if contains_str l query then [(i + 1, l)] else []) @ matching_lines query (i + 1) ls"
  by (simp_all add: matching_lines_def upt_conv_Cons del: upt_Suc)

definition shown :: "nat \<times> string \<Rightarrow> tool_result_match \<Rightarrow> bool" where
  "shown = (\<lambda>(i, l) m. match_line m = i \<and> prefix (match_content m) l)"

definition rendered_bytes :: "tool_result_match list \<Rightarrow> nat" where
  "rendered_bytes ms = sum_list (map (length \<circ> match_content) ms)"

lemma rendered_bytes_simps [simp]:
  "rendered_bytes [] = 0" "rendered_bytes (ms @ ns) = rendered_bytes ms + rendered_bytes ns"
  "rendered_bytes [m] = length (match_content m)"
  by (simp_all add: rendered_bytes_def)

abbreviation match_limit :: "nat \<Rightarrow> nat" where
  "match_limit n \<equiv> max 1 (min n max_tool_result_matches)"

text \<open>
  The loop with \<open>result\<close> so far appends \<open>new\<close>: the first matches of the rest, cut to the bytes left.
\<close>

lemma search_lines_spec:
  "rendered = rendered_bytes result \<Longrightarrow> rendered \<le> tool_result_max_read_bytes \<Longrightarrow>
   length result < match_limit n \<Longrightarrow>
   \<exists>new. search_lines query n i ls rendered result = result @ new \<and>
     list_all2 shown (take (length new) (matching_lines query i ls)) new \<and>
     length result + length new \<le> match_limit n \<and>
     rendered + rendered_bytes new \<le> tool_result_max_read_bytes"
proof (induction ls arbitrary: i rendered result)
  case (Cons l ls)
  let ?rem = "tool_result_max_read_bytes - rendered"
  show ?case
  proof (cases "contains_str l query \<and> ?rem \<noteq> 0")
    case False
    then show ?thesis
    proof (cases "contains_str l query")
      case True
      with False have "search_lines query n i (l # ls) rendered result = result @ []" by simp
      moreover have "list_all2 shown (take (length []) (matching_lines query i (l # ls))) []" by simp
      ultimately show ?thesis using Cons.prems
        by (metis add.right_neutral length_0_conv less_imp_le_nat rendered_bytes_simps(1))
    qed (use Cons.IH [OF Cons.prems, of "i + 1"] in simp)
  next
    case True
    let ?m = "\<lparr>match_line = i + 1, match_content = utf8_prefix l ?rem\<rparr>"
    let ?r = "rendered + length (utf8_prefix l ?rem)"
    have le: "?r \<le> tool_result_max_read_bytes"
      using length_utf8_prefix [of l ?rem] Cons.prems(2) by linarith
    then have sa: "sat_add rendered (length (utf8_prefix l ?rem)) = ?r"
      by (intro sat_add_exact) (simp add: tool_result_max_read_bytes_def usize_max_def)
    have sh: "shown (i + 1, l) ?m" by (simp add: shown_def)
    show ?thesis
    proof (cases "min n max_tool_result_matches \<le> length (result @ [?m])")
      case stop: True
      then have "search_lines query n i (l # ls) rendered result = result @ [?m]"
        using True by (simp add: Let_def sa)
      with sh True le Cons.prems(3) show ?thesis by (intro exI [of _ "[?m]"]) simp
    next
      case go: False
      then have run: "search_lines query n i (l # ls) rendered result =
          search_lines query n (i + 1) ls ?r (result @ [?m])"
        using True by (simp add: Let_def sa)
      from go have "length (result @ [?m]) < match_limit n" by simp
      moreover have "?r = rendered_bytes (result @ [?m])" using Cons.prems(1) by simp
      ultimately obtain new where
        "search_lines query n (i + 1) ls ?r (result @ [?m]) = (result @ [?m]) @ new"
        "list_all2 shown (take (length new) (matching_lines query (i + 1) ls)) new"
        "length (result @ [?m]) + length new \<le> match_limit n"
        "?r + rendered_bytes new \<le> tool_result_max_read_bytes"
        using Cons.IH [of ?r "result @ [?m]" "i + 1"] le by blast
      with run sh True show ?thesis
        by (intro exI [of _ "?m # new"]) (simp add: rendered_bytes_def)
    qed
  qed
qed auto

lemma search_lines_extends: "prefix result (search_lines query n i ls rendered result)"
  by (induction ls arbitrary: i rendered result) (auto simp: Let_def intro: append_prefixD)

lemma search_lines_empty_iff:
  "search_lines query n i ls 0 [] = [] \<longleftrightarrow> matching_lines query i ls = []"
proof (induction ls arbitrary: i)
  case (Cons l ls)
  have "0 < tool_result_max_read_bytes" by (simp add: tool_result_max_read_bytes_def)
  moreover have "search_lines query n j ls r [m] \<noteq> []" for j r m
    using search_lines_extends [of "[m]" query n j ls r] by auto
  ultimately show ?case using Cons.IH by (simp add: Let_def)
qed simp

text \<open>
  A search shows the first matching lines, in order: the lines shown carry the numbers of the
  first lines of the stored result that contain the (trimmed, non-empty) query and a prefix of
  their text, at most 50 and at most the count asked for (but one), and at most 64 KiB together.
  Nothing is shown exactly when no line matches.
\<close>

theorem search_shows_the_first_matches:
  "case (search handle raw n d, read_result d handle) of
     (Inr ms, Inr body) \<Rightarrow>
       (let found = matching_lines (trim raw) 0 (split_on CHR 0x0A body) in
        list_all2 shown (take (length ms) found) ms \<and> (ms = [] \<longleftrightarrow> found = []) \<and>
        length ms \<le> match_limit n \<and> rendered_bytes ms \<le> tool_result_max_read_bytes)
   | (Inr ms, Inl _) \<Rightarrow> False
   | (Inl e, Inl e') \<Rightarrow> e = (if trim raw = [] then InvalidQuery else e')
   | (Inl e, Inr _) \<Rightarrow> trim raw = [] \<and> e = InvalidQuery"
proof (cases "trim raw = []")
  case True
  then show ?thesis by (cases "read_result d handle") (simp_all add: search_def)
next
  case False
  show ?thesis
  proof (cases "read_result d handle")
    case (Inr body)
    let ?ls = "split_on CHR 0x0A body"
    obtain new where new: "search_lines (trim raw) n 0 ?ls 0 [] = new"
      "list_all2 shown (take (length new) (matching_lines (trim raw) 0 ?ls)) new"
      "length new \<le> match_limit n" "rendered_bytes new \<le> tool_result_max_read_bytes"
      using search_lines_spec [of 0 "[]" n "trim raw" 0 ?ls] by auto
    with search_lines_empty_iff [of "trim raw" n 0 ?ls] False Inr show ?thesis
      by (simp add: search_def Let_def)
  qed (use False in \<open>simp add: search_def\<close>)
qed

end
