(* ===== verification/Session.thy ===== *)
theory Session
  imports Agent_Run Paths
begin

section \<open>Sessions\<close>

text \<open>
  The session of \<open>fx-core/src/session.rs\<close> and the pure functions of \<open>fx-store/src/lib.rs\<close> on it:
  validation, the redaction of what is stored, the summary, and the identifiers of the event log.
  Times are \<open>i64\<close>; \<open>digest\<close> is \<open>Sha256::digest\<close> and \<open>hex\<close> is \<open>hex::encode\<close>.
\<close>

record session =
  schema_version :: nat
  session_id :: string
  created_at_ms :: i64
  updated_at_ms :: i64
  workspace_root :: string
  origin_workspace_root :: "string option"
  title :: "string option"
  preferred_model :: "string option"
  session_history :: "chat_message list"

record session_summary =
  sum_id :: string
  sum_workspace_root :: "string option"
  sum_origin_workspace_root :: "string option"
  sum_title :: "string option"
  sum_preview :: "string option"
  sum_created_at_ms :: i64
  sum_updated_at_ms :: i64
  sum_history_len :: nat
  sum_has_managed_children :: bool

datatype session_target = LastSession | SessionId string

datatype session_error =
    SessionNotFound string
  | InvalidSessionId string
  | Corrupt string
  | UnsupportedSchema nat
  | SessionUnavailable string

definition current_schema :: nat where
  "current_schema = 3"

subsection \<open>Validation\<close>

definition validate_session_id :: "string \<Rightarrow> session_error + unit" where
  "validate_session_id ident =
     (if ident = [] \<or> 255 < length ident \<or> ident = ''.'' \<or> ident = ''..''
         \<or> \<not> list_all (\<lambda>c. is_ascii_alphanumeric c \<or> c \<in> {CHR ''.'', CHR ''_'', CHR ''-''}) ident
      then Inl (InvalidSessionId ident) else Inr ())"

definition valid_model_preference :: "string \<Rightarrow> bool" where
  "valid_model_preference m \<longleftrightarrow> m \<noteq> [] \<and> length m \<le> 1024 \<and> \<not> is_ascii_whitespace (hd m)
     \<and> \<not> is_ascii_whitespace (last m) \<and> \<not> list_ex is_ascii_control m"

definition valid_root :: "string \<Rightarrow> bool" where
  "valid_root root \<longleftrightarrow> is_absolute root \<and> length root \<le> 4096"

definition holds_option :: "('a \<Rightarrow> bool) \<Rightarrow> 'a option \<Rightarrow> bool" where
  "holds_option P v = (case v of None \<Rightarrow> True | Some a \<Rightarrow> P a)"

definition validate_session :: "session \<Rightarrow> session_error + unit" where
  "validate_session s =
     and_then (validate_session_id (session_id s)) (\<lambda>_.
       if schema_version s \<notin> {1, 2, current_schema} then Inl (UnsupportedSchema (schema_version s))
       else ensure (0 \<le> sint (created_at_ms s) \<and> sint (created_at_ms s) \<le> sint (updated_at_ms s)
           \<and> valid_root (workspace_root s) \<and> holds_option valid_root (origin_workspace_root s)
           \<and> holds_option valid_model_preference (preferred_model s))
         (Corrupt ''session contains invalid durable fields''))"

definition validate_replacement :: "session \<Rightarrow> session \<Rightarrow> session_error + unit" where
  "validate_replacement previous s =
     ensure (session_id previous = session_id s \<and> created_at_ms previous = created_at_ms s
         \<and> origin_workspace_root previous = origin_workspace_root s
         \<and> sint (updated_at_ms previous) \<le> sint (updated_at_ms s))
       (Corrupt ''session replacement changes immutable identity or time ordering'')"

subsection \<open>Redaction of what is stored\<close>

definition retain_sensitive_identifier ::
  "(string \<Rightarrow> string) \<Rightarrow> (string \<Rightarrow> string) \<Rightarrow> (string \<rightharpoonup> string) \<Rightarrow> string \<Rightarrow> (string \<rightharpoonup> string)" where
  "retain_sensitive_identifier digest hex identifiers ident =
     (if identifiers ident \<noteq> None \<or> redact_cow ident = None then identifiers
      else identifiers(ident \<mapsto> ''call_'' @ hex (take 16 (digest ident))))"

definition opt_list :: "'a option \<Rightarrow> 'a list" where
  "opt_list v = (case v of None \<Rightarrow> [] | Some a \<Rightarrow> [a])"

text \<open>The identifiers of a message in the order the first loop visits them.\<close>

definition message_identifiers :: "chat_message \<Rightarrow> string list" where
  "message_identifiers m =
     opt_list (tool_call_id m)
     @ concat (map (\<lambda>call. tc_id call # opt_list (provisional_id call)) (tool_calls m))"

definition sensitive_identifiers ::
  "(string \<Rightarrow> string) \<Rightarrow> (string \<Rightarrow> string) \<Rightarrow> chat_message list \<Rightarrow> (string \<rightharpoonup> string)" where
  "sensitive_identifiers digest hex ms =
     foldl (retain_sensitive_identifier digest hex) Map.empty (concat (map message_identifiers ms))"

definition replace_identifier :: "(string \<rightharpoonup> string) \<Rightarrow> string \<Rightarrow> string" where
  "replace_identifier identifiers ident =
     (case identifiers ident of None \<Rightarrow> ident | Some replacement \<Rightarrow> replacement)"

definition redact_call :: "(string \<rightharpoonup> string) \<Rightarrow> tool_call \<Rightarrow> tool_call" where
  "redact_call identifiers call =
     call\<lparr>tc_id := replace_identifier identifiers (tc_id call),
          provisional_id := map_option (replace_identifier identifiers) (provisional_id call),
          arguments_json := redact_secrets (arguments_json call),
          provider_result := map_option redact_secrets (provider_result call)\<rparr>"

definition redact_message :: "(string \<rightharpoonup> string) \<Rightarrow> chat_message \<Rightarrow> chat_message" where
  "redact_message identifiers m =
     m\<lparr>content := map_option redact_secrets (content m),
       tool_call_id := map_option (replace_identifier identifiers) (tool_call_id m),
       tool_calls := map (redact_call identifiers) (tool_calls m)\<rparr>"

definition redact_durable_session ::
  "(string \<Rightarrow> string) \<Rightarrow> (string \<Rightarrow> string) \<Rightarrow> session \<Rightarrow> session" where
  "redact_durable_session digest hex s =
     s\<lparr>title := map_option redact_secrets (title s),
       session_history :=
         map (redact_message (sensitive_identifiers digest hex (session_history s))) (session_history s)\<rparr>"

subsection \<open>Summaries\<close>

text \<open>\<open>chars().take(n)\<close>: a scalar value is a byte and the continuation bytes after it.\<close>

fun take_chars :: "nat \<Rightarrow> string \<Rightarrow> string" where
  "take_chars 0 s = []"
| "take_chars (Suc n) [] = []"
| "take_chars (Suc n) (c # s) = c # takeWhile is_cont s @ take_chars n (dropWhile is_cont s)"

definition preview :: "session \<Rightarrow> string option" where
  "preview s =
     map_option (take_chars 200)
       (case title s of
          Some t \<Rightarrow> Some t
        | None \<Rightarrow> find (\<lambda>c. trim c \<noteq> []) (List.map_filter content (session_history s)))"

definition summary :: "session \<Rightarrow> session_summary" where
  "summary s =
     \<lparr>sum_id = session_id s, sum_workspace_root = Some (workspace_root s),
      sum_origin_workspace_root = origin_workspace_root s, sum_title = title s,
      sum_preview = preview s, sum_created_at_ms = created_at_ms s,
      sum_updated_at_ms = updated_at_ms s, sum_history_len = length (session_history s),
      sum_has_managed_children = False\<rparr>"

definition normalize_workspace :: "string \<Rightarrow> string" where
  "normalize_workspace root =
     (let trimmed = rev (dropWhile (\<lambda>c. c = CHR ''/'') (rev root)) in
      if trimmed = [] then ''/'' else trimmed)"

subsection \<open>Identifiers of the event log\<close>

definition zero_identifier :: string where
  "zero_identifier = replicate 32 CHR ''0''"

definition valid_identifier :: "string \<Rightarrow> bool" where
  "valid_identifier v \<longleftrightarrow> length v = 32 \<and>
     list_all (\<lambda>c. is_ascii_digit c \<or> (97 \<le> byte_of c \<and> byte_of c \<le> 102)) v"

definition checked_identifier :: "string \<Rightarrow> session_error + string" where
  "checked_identifier v = (if valid_identifier v then Inr v else Inl (Corrupt ''invalid event identifier''))"

text \<open>\<open>hex::decode_to_slice\<close> into 32 bytes is the parameter \<open>unhex\<close>.\<close>

definition decode_digest :: "(string \<Rightarrow> string option) \<Rightarrow> string \<Rightarrow> session_error + string" where
  "decode_digest unhex v = ok_or (Corrupt ''invalid SHA-256 digest'') (unhex v)"

subsection \<open>Redaction keeps conversations answered\<close>

lemma redact_message_fields [simp]:
  "role (redact_message f m) = role m"
  "length (tool_calls (redact_message f m)) = length (tool_calls m)"
  by (simp_all add: redact_message_def)

lemma answers_redacted: "answers c m \<Longrightarrow> answers (redact_call f c) (redact_message f m)"
  by (simp add: answers_def redact_call_def redact_message_def)

lemma redact_message_calls: "tool_calls (redact_message f m) = map (redact_call f) (tool_calls m)"
  by (simp add: redact_message_def)

lemma answered_redacted: "answered ms \<Longrightarrow> answered (map (redact_message f) ms)"
proof (induction ms rule: answered.induct)
  case (2 m ms)
  show ?case
  proof (cases "role m = Assistant")
    case True
    with "2.prems" have "list_all2 answers (tool_calls m) (take (length (tool_calls m)) ms)" by simp
    then have "list_all2 answers (map (redact_call f) (tool_calls m))
        (map (redact_message f) (take (length (tool_calls m)) ms))"
      by (auto simp: list_all2_map1 list_all2_map2 intro: answers_redacted elim: list_all2_mono)
    with 2 True show ?thesis by (simp add: redact_message_calls take_map drop_map)
  next
    case False
    with 2 show ?thesis by simp
  qed
qed simp

lemma redact_durable_fields [simp]:
  "session_id (redact_durable_session digest hex s) = session_id s"
  "schema_version (redact_durable_session digest hex s) = schema_version s"
  "created_at_ms (redact_durable_session digest hex s) = created_at_ms s"
  "updated_at_ms (redact_durable_session digest hex s) = updated_at_ms s"
  "workspace_root (redact_durable_session digest hex s) = workspace_root s"
  "origin_workspace_root (redact_durable_session digest hex s) = origin_workspace_root s"
  "preferred_model (redact_durable_session digest hex s) = preferred_model s"
  by (simp_all add: redact_durable_session_def)

lemma validate_session_iff:
  "validate_session s = Inr () \<longleftrightarrow> validate_session_id (session_id s) = Inr ()
     \<and> schema_version s \<in> {1, 2, current_schema}
     \<and> 0 \<le> sint (created_at_ms s) \<and> sint (created_at_ms s) \<le> sint (updated_at_ms s)
     \<and> valid_root (workspace_root s) \<and> holds_option valid_root (origin_workspace_root s)
     \<and> holds_option valid_model_preference (preferred_model s)"
  by (auto simp: validate_session_def and_then_Inr_iff)

text \<open>What the store writes for a session: its redacted form in the current schema.\<close>

definition stored_form :: "(string \<Rightarrow> string) \<Rightarrow> (string \<Rightarrow> string) \<Rightarrow> session \<Rightarrow> session" where
  "stored_form digest hex s = (redact_durable_session digest hex s)\<lparr>schema_version := current_schema\<rparr>"

lemma stored_form_fields [simp]:
  "session_id (stored_form digest hex s) = session_id s"
  "schema_version (stored_form digest hex s) = current_schema"
  by (simp_all add: stored_form_def)

lemma stored_form_valid: "validate_session s = Inr () \<Longrightarrow> validate_session (stored_form digest hex s) = Inr ()"
  by (simp add: validate_session_iff stored_form_def)

text \<open>Identifiers are renamed alike everywhere, and only those that look like a secret.\<close>

lemma retained_digest:
  "foldl (retain_sensitive_identifier digest hex) m xs ident =
     (if m ident \<noteq> None then m ident
      else if ident \<in> set xs \<and> redact_cow ident \<noteq> None
        then Some (''call_'' @ hex (take 16 (digest ident))) else None)"
proof (induction xs arbitrary: m)
  case (Cons x xs)
  then show ?case by (auto simp: retain_sensitive_identifier_def)
qed simp

text \<open>
  What the store keeps of a session is redacted and stays a usable session: the title, every
  message and every argument and provider result of a call are in their redacted form; a call whose
  identifier looks like a secret is renamed, and the results that name it are renamed alike, so an
  answered conversation stays answered; and identity, times, workspaces and validity are kept.
\<close>

theorem stored_sessions_stay_answered:
  "(if answered (session_history s) then answered (session_history (redact_durable_session digest hex s))
    else True)
   \<and> title (redact_durable_session digest hex s) = map_option redact_secrets (title s)
   \<and> map content (session_history (redact_durable_session digest hex s)) =
       map (map_option redact_secrets \<circ> content) (session_history s)
   \<and> map (map arguments_json \<circ> tool_calls) (session_history (redact_durable_session digest hex s)) =
       map (map (redact_secrets \<circ> arguments_json) \<circ> tool_calls) (session_history s)
   \<and> map (map provider_result \<circ> tool_calls) (session_history (redact_durable_session digest hex s)) =
       map (map (map_option redact_secrets \<circ> provider_result) \<circ> tool_calls) (session_history s)
   \<and> map (map tc_id \<circ> tool_calls) (session_history (redact_durable_session digest hex s)) =
       map (map ((\<lambda>i. if redact_cow i = None then i else ''call_'' @ hex (take 16 (digest i))) \<circ> tc_id)
         \<circ> tool_calls) (session_history s)
   \<and> (validate_session (redact_durable_session digest hex s) = Inr () \<longleftrightarrow> validate_session s = Inr ())"
proof -
  let ?f = "sensitive_identifiers digest hex (session_history s)"
  have h: "session_history (redact_durable_session digest hex s) = map (redact_message ?f) (session_history s)"
    by (simp add: redact_durable_session_def)
  have ids: "replace_identifier ?f (tc_id c) =
      (if redact_cow (tc_id c) = None then tc_id c else ''call_'' @ hex (take 16 (digest (tc_id c))))"
    if "m \<in> set (session_history s)" "c \<in> set (tool_calls m)" for m c
  proof -
    have "tc_id c \<in> set (concat (map message_identifiers (session_history s)))"
      using that by (auto simp: message_identifiers_def)
    then show ?thesis
      by (simp add: replace_identifier_def sensitive_identifiers_def retained_digest)
  qed
  have "title (redact_durable_session digest hex s) = map_option redact_secrets (title s)"
    by (simp add: redact_durable_session_def)
  moreover have "validate_session (redact_durable_session digest hex s) = Inr () \<longleftrightarrow> validate_session s = Inr ()"
    by (simp add: validate_session_iff)
  ultimately show ?thesis
    using ids unfolding h
    by (auto simp: answered_redacted redact_message_def redact_call_def)
qed

end
