(* ===== verification/Session_Json.thy ===== *)
theory Session_Json
  imports Session
begin

section \<open>Sessions as JSON\<close>

text \<open>
  The derived \<open>Serialize\<close> and \<open>Deserialize\<close> of \<open>Session\<close> (\<open>fx-core/src/session.rs\<close>) and of the
  messages in it (\<open>fx-core/src/message.rs\<close>), on values: which fields are written, which are left out
  when they are empty, and what stands for a field that is absent. \<open>None\<close> is a value of the wrong
  shape. Every session survives the way there and back.
\<close>

definition u64_max :: nat where "u64_max = 18446744073709551615"
definition u32_max :: nat where "u32_max = 4294967295"

definition json_nat :: "nat \<Rightarrow> json" where
  "json_nat n = JNumber (int n)"

subsection \<open>Fields\<close>

text \<open>A field with \<open>skip_serializing_if = "Option::is_none"\<close>.\<close>

definition some_field :: "string \<Rightarrow> string option \<Rightarrow> (string \<times> json) list" where
  "some_field key v = (case v of None \<Rightarrow> [] | Some t \<Rightarrow> [(key, JString t)])"

text \<open>An \<open>Option<String>\<close> with \<open>#[serde(default)]\<close>, and any other field with a default.\<close>

definition opt_string_field :: "(string \<times> json) list \<Rightarrow> string \<Rightarrow> string option option" where
  "opt_string_field obj key =
     (case map_of obj key of
        None \<Rightarrow> Some None
      | Some JNull \<Rightarrow> Some None
      | Some (JString t) \<Rightarrow> Some (Some t)
      | _ \<Rightarrow> None)"

definition default_field :: "'a \<Rightarrow> (json \<Rightarrow> 'a option) \<Rightarrow> (string \<times> json) list \<Rightarrow> string \<Rightarrow> 'a option" where
  "default_field d parse obj key = (case map_of obj key of None \<Rightarrow> Some d | Some v \<Rightarrow> parse v)"

definition i64_field :: "(string \<times> json) list \<Rightarrow> string \<Rightarrow> int option" where
  "i64_field obj key =
     (case map_of obj key of
        Some (JNumber n) \<Rightarrow> if i64_min \<le> n \<and> n \<le> i64_max then Some n else None
      | _ \<Rightarrow> None)"

definition bool_value :: "json \<Rightarrow> bool option" where
  "bool_value v = (case v of JBool b \<Rightarrow> Some b | _ \<Rightarrow> None)"

definition list_value :: "(json \<Rightarrow> 'a option) \<Rightarrow> json \<Rightarrow> 'a list option" where
  "list_value parse v = (case v of JArray vs \<Rightarrow> those (map parse vs) | _ \<Rightarrow> None)"

text \<open>A unit variant is its name, or an object with the name and \<open>null\<close>.\<close>

definition unit_variant :: "(string \<times> 'a) list \<Rightarrow> json \<Rightarrow> 'a option" where
  "unit_variant names v =
     (case v of
        JString t \<Rightarrow> map_of names t
      | JObject [(t, JNull)] \<Rightarrow> map_of names t
      | _ \<Rightarrow> None)"

subsection \<open>Enumerations\<close>

fun role_name :: "role \<Rightarrow> string" where
  "role_name System = ''system''"
| "role_name User = ''user''"
| "role_name Assistant = ''assistant''"
| "role_name Tool = ''tool''"

definition role_value :: "json \<Rightarrow> role option" where
  "role_value = unit_variant (map (\<lambda>r. (role_name r, r)) [System, User, Assistant, Tool])"

fun integrity_name :: "tool_argument_integrity \<Rightarrow> string" where
  "integrity_name Valid = ''valid''"
| "integrity_name MalformedJson = ''malformed_json''"

definition integrity_value :: "json \<Rightarrow> tool_argument_integrity option" where
  "integrity_value = unit_variant (map (\<lambda>i. (integrity_name i, i)) [Valid, MalformedJson])"

fun provenance_name :: "tool_execution_provenance \<Rightarrow> string" where
  "provenance_name FxLocal = ''fx_local''"
| "provenance_name Provider = ''provider''"

definition provenance_value :: "json \<Rightarrow> tool_execution_provenance option" where
  "provenance_value = unit_variant (map (\<lambda>p. (provenance_name p, p)) [FxLocal, Provider])"

fun cache_policy_name :: "cache_policy \<Rightarrow> string" where
  "cache_policy_name DefaultCache = ''default''"
| "cache_policy_name NoCache = ''no_cache''"

definition cache_policy_value :: "json \<Rightarrow> cache_policy option" where
  "cache_policy_value = unit_variant (map (\<lambda>p. (cache_policy_name p, p)) [DefaultCache, NoCache])"

subsection \<open>Calls, messages, sessions\<close>

definition call_json :: "tool_call \<Rightarrow> json" where
  "call_json c = JObject
     ([(''id'', JString (tc_id c)), (''name'', JString (tc_name c)),
       (''arguments_json'', JString (arguments_json c)),
       (''argument_integrity'', JString (integrity_name (argument_integrity c)))]
      @ some_field ''provisional_id'' (provisional_id c)
      @ some_field ''provider_result'' (provider_result c)
      @ [(''provenance'', JString (provenance_name (provenance c)))])"

definition call_of_json :: "json \<Rightarrow> tool_call option" where
  "call_of_json v =
     (case struct_fields [''id'', ''name'', ''arguments_json'', ''argument_integrity'', ''provisional_id'',
         ''provider_result'', ''provenance''] v of
        None \<Rightarrow> None
      | Some obj \<Rightarrow>
          (case (string_field obj ''id'', string_field obj ''name'', string_field obj ''arguments_json'',
                 default_field Valid integrity_value obj ''argument_integrity'',
                 opt_string_field obj ''provisional_id'', opt_string_field obj ''provider_result'',
                 default_field FxLocal provenance_value obj ''provenance'') of
             (Some i, Some n, Some a, Some g, Some p, Some r, Some q) \<Rightarrow>
               Some \<lparr>tc_id = i, tc_name = n, arguments_json = a, argument_integrity = g,
                 provisional_id = p, provider_result = r, provenance = q\<rparr>
           | _ \<Rightarrow> None))"

definition message_json :: "chat_message \<Rightarrow> json" where
  "message_json m = JObject
     ([(''role'', JString (role_name (role m)))]
      @ some_field ''content'' (content m)
      @ some_field ''tool_call_id'' (tool_call_id m)
      @ some_field ''tool_name'' (tool_name m)
      @ (if tool_calls m = [] then [] else [(''tool_calls'', JArray (map call_json (tool_calls m)))])
      @ [(''permission_feedback'', JBool (permission_feedback m)),
         (''cache_policy'', JString (cache_policy_name (cache_policy m)))])"

definition message_of_json :: "json \<Rightarrow> chat_message option" where
  "message_of_json v =
     (case struct_fields [''role'', ''content'', ''tool_call_id'', ''tool_name'', ''tool_calls'',
         ''permission_feedback'', ''cache_policy''] v of
        None \<Rightarrow> None
      | Some obj \<Rightarrow>
          (case (case map_of obj ''role'' of None \<Rightarrow> None | Some r \<Rightarrow> role_value r,
                 opt_string_field obj ''content'', opt_string_field obj ''tool_call_id'',
                 opt_string_field obj ''tool_name'',
                 default_field [] (list_value call_of_json) obj ''tool_calls'',
                 default_field False bool_value obj ''permission_feedback'',
                 default_field DefaultCache cache_policy_value obj ''cache_policy'') of
             (Some r, Some t, Some i, Some n, Some cs, Some f, Some p) \<Rightarrow>
               Some \<lparr>role = r, content = t, tool_call_id = i, tool_name = n, tool_calls = cs,
                 permission_feedback = f, cache_policy = p\<rparr>
           | _ \<Rightarrow> None))"

definition preferences_value :: "json \<Rightarrow> string option option" where
  "preferences_value v =
     (case struct_fields [''model''] v of None \<Rightarrow> None | Some obj \<Rightarrow> opt_string_field obj ''model'')"

definition session_json :: "session \<Rightarrow> json" where
  "session_json s = JObject
     ([(''schema_version'', json_nat (schema_version s)), (''id'', JString (session_id s)),
       (''created_at_ms'', JNumber (sint (created_at_ms s))),
       (''updated_at_ms'', JNumber (sint (updated_at_ms s))),
       (''workspace_root'', JString (workspace_root s))]
      @ some_field ''origin_workspace_root'' (origin_workspace_root s)
      @ some_field ''title'' (title s)
      @ [(''preferences'', JObject (some_field ''model'' (preferred_model s))),
         (''history'', JArray (map message_json (session_history s)))])"

definition session_of_json :: "json \<Rightarrow> session option" where
  "session_of_json v =
     (case struct_fields [''schema_version'', ''id'', ''created_at_ms'', ''updated_at_ms'', ''workspace_root'',
         ''origin_workspace_root'', ''title'', ''preferences'', ''history''] v of
        None \<Rightarrow> None
      | Some obj \<Rightarrow>
          (case (nat_field u32_max obj ''schema_version'', string_field obj ''id'',
                 i64_field obj ''created_at_ms'', i64_field obj ''updated_at_ms'',
                 string_field obj ''workspace_root'', opt_string_field obj ''origin_workspace_root'',
                 opt_string_field obj ''title'', default_field None preferences_value obj ''preferences'',
                 default_field [] (list_value message_of_json) obj ''history'') of
             (Some v, Some i, Some c, Some u, Some w, Some r, Some t, Some p, Some h) \<Rightarrow>
               Some \<lparr>schema_version = v, session_id = i, created_at_ms = word_of_int c,
                 updated_at_ms = word_of_int u, workspace_root = w, origin_workspace_root = r,
                 title = t, preferred_model = p, session_history = h\<rparr>
           | _ \<Rightarrow> None))"

subsection \<open>Round trips\<close>

lemma field_simps [simp]:
  "nat_field m ((k, json_nat n) # obj) k = (if n \<le> m then Some n else None)"
  "string_field ((k, JString v) # obj) k = Some v"
  "i64_field ((k, JNumber n') # obj) k = (if i64_min \<le> n' \<and> n' \<le> i64_max then Some n' else None)"
  "opt_string_field ((k, JString v) # obj) k = Some (Some v)"
  "opt_string_field [] k = Some None"
  "default_field d f ((k, x) # obj) k = f x"
  "default_field d f [] k = Some d"
  by (simp_all add: nat_field_def string_field_def i64_field_def json_nat_def opt_string_field_def
      default_field_def)

lemma other_field_simps [simp]:
  assumes "k \<noteq> k'"
  shows "nat_field m ((k', x) # obj) k = nat_field m obj k"
    "string_field ((k', x) # obj) k = string_field obj k"
    "i64_field ((k', x) # obj) k = i64_field obj k"
    "opt_string_field ((k', x) # obj) k = opt_string_field obj k"
    "default_field d f ((k', x) # obj) k = default_field d f obj k"
  using assms
  by (simp_all add: nat_field_def string_field_def i64_field_def opt_string_field_def default_field_def)

lemma skipped_field_simps [simp]:
  assumes "k \<noteq> k'"
  shows "nat_field m (some_field k' v @ obj) k = nat_field m obj k"
    "string_field (some_field k' v @ obj) k = string_field obj k"
    "i64_field (some_field k' v @ obj) k = i64_field obj k"
    "opt_string_field (some_field k' v @ obj) k = opt_string_field obj k"
    "default_field d f (some_field k' v @ obj) k = default_field d f obj k"
  using assms by (simp_all add: some_field_def split: option.split)

lemma enum_values [simp]:
  "role_value (JString (role_name r)) = Some r"
  "integrity_value (JString (integrity_name i)) = Some i"
  "provenance_value (JString (provenance_name p)) = Some p"
  "cache_policy_value (JString (cache_policy_name q)) = Some q"
  by (cases r; cases i; cases p; cases q;
      simp add: role_value_def integrity_value_def provenance_value_def cache_policy_value_def unit_variant_def)+

lemma own_field [simp]:
  assumes "k \<notin> fst ` set obj"
  shows "opt_string_field (some_field k v @ obj) k = Some v"
proof -
  have "map_of obj k = None" using assms by (simp add: map_of_eq_None_iff)
  then show ?thesis by (simp add: some_field_def opt_string_field_def split: option.split)
qed

lemma some_field_keys [simp]: "fst ` set (some_field k v) = (if v = None then {} else {k})"
  "map fst (some_field k v) = (if v = None then [] else [k])"
  by (cases v; simp add: some_field_def)+

lemma lone_field [simp]: "opt_string_field (some_field k v) k = Some v"
  using own_field [of k "[]" v] by simp

lemma those_map: "(\<And>x. x \<in> set xs \<Longrightarrow> g (f x) = Some x) \<Longrightarrow> those (map g (map f xs)) = Some xs"
  by (induction xs) simp_all

lemma call_roundtrip: "call_of_json (call_json c) = Some c"
  by (simp add: call_of_json_def call_json_def struct_fields_def image_Un)

lemma message_roundtrip: "message_of_json (message_json m) = Some m"
  by (simp add: message_of_json_def message_json_def struct_fields_def image_Un list_value_def bool_value_def
      those_map call_roundtrip del: map_map)

lemma i64_values [simp]:
  "- 9223372036854775808 \<le> sint (a :: i64)" "sint (a :: i64) \<le> 9223372036854775807"
  using sint_i64_range [of a] by simp_all

lemma session_roundtrip: "schema_version s \<le> u32_max \<Longrightarrow> session_of_json (session_json s) = Some s"
  by (simp add: session_of_json_def session_json_def struct_fields_def image_Un list_value_def
      those_map message_roundtrip preferences_value_def del: map_map)

end
