(* ===== verification/Actions.thy ===== *)
theory Actions
  imports Prelude
begin

section \<open>Actions on a state\<close>

text \<open>
  Code that works on a state and may return early with an error, as functions from a state to the
  result and the state that is left. \<open>seq\<close> is the semicolon after \<open>?\<close>: what follows an error does
  not happen, but what happened before it stays.
\<close>

definition give :: "'a \<Rightarrow> 's \<Rightarrow> ('e + 'a) \<times> 's" where
  "give a = (\<lambda>s. (Inr a, s))"

definition fail :: "'e \<Rightarrow> 's \<Rightarrow> ('e + 'a) \<times> 's" where
  "fail e = (\<lambda>s. (Inl e, s))"

definition lift :: "'e + 'a \<Rightarrow> 's \<Rightarrow> ('e + 'a) \<times> 's" where
  "lift r = (\<lambda>s. (r, s))"

definition seq ::
  "('s \<Rightarrow> ('e + 'a) \<times> 's) \<Rightarrow> ('a \<Rightarrow> 's \<Rightarrow> ('e + 'b) \<times> 's) \<Rightarrow> 's \<Rightarrow> ('e + 'b) \<times> 's" where
  "seq p f = (\<lambda>s. case p s of (Inl e, s') \<Rightarrow> (Inl e, s') | (Inr a, s') \<Rightarrow> f a s')"

lemma seq_Inr: "seq p f s = (Inr b, s'') \<longleftrightarrow> (\<exists>a s'. p s = (Inr a, s') \<and> f a s' = (Inr b, s''))"
  by (auto simp: seq_def split: prod.splits sum.splits)

lemma seq_Inl:
  "seq p f s = (Inl e, s'') \<longleftrightarrow>
     p s = (Inl e, s'') \<or> (\<exists>a s'. p s = (Inr a, s') \<and> f a s' = (Inl e, s''))"
  by (auto simp: seq_def split: prod.splits sum.splits)

lemma seq_cases:
  assumes "seq p f s = (r, s')"
  obtains (failed) e where "p s = (Inl e, s')" and "r = Inl e"
    | (went_on) a s1 where "p s = (Inr a, s1)" and "f a s1 = (r, s')"
  using assms by (auto simp: seq_def split: prod.splits sum.splits)

lemma action_simps:
  "give a s = (Inr a, s)" "fail e s = (Inl e, s)" "lift r s = (r, s)"
  by (simp_all add: give_def fail_def lift_def)

end
