(* ===== verification/Store_Io.thy ===== *)
theory Store_Io
  imports Session_Json Tool_Results Actions
begin

section \<open>The file system below a session\<close>

text \<open>
  The file routines of \<open>fx-store/src/lib.rs\<close> the session store is built on. A session directory holds
  an event log, a commit watermark, a manifest and a lock file; a directory entry that is no real
  directory (\<open>NotADir\<close>) is a symbolic link to one. Each routine is a program over \<open>store_io\<close>: the directory, the faults the
  next system calls meet (none when the list is used up) and a counter for fresh identifiers. A
  fault makes the call return an error; an append may have written part of its bytes before. A crash
  of the process is a fault after which nothing is written any more, which is what a routine does
  that returns the error.

  Third-party code is the record \<open>codec\<close>: the JSON text of \<open>serde_json\<close> with its parser, SHA-256, hexadecimal and base64 text, the message of a value of
  the wrong shape, and \<open>Uuid::new_v4().simple()\<close>. A
  streamed hash is the hash of all the bytes given to it, so the hasher is those bytes.
\<close>

record codec =
  json_bytes :: "json \<Rightarrow> string"
  json_parse :: "string \<Rightarrow> string + json"
  sha256 :: "string \<Rightarrow> string"
  to_hex :: "string \<Rightarrow> string"
  of_hex :: "string \<Rightarrow> string option"
  to_base64 :: "string \<Rightarrow> string"
  of_base64 :: "string \<Rightarrow> string + string"
  shape_error :: "json \<Rightarrow> string"
  fresh_identifier :: "nat \<Rightarrow> string"

text \<open>\<open>serde_json\<close> on a session: \<open>from_value\<close>, \<open>to_vec\<close> and \<open>from_slice\<close>.\<close>

definition session_of_value :: "codec \<Rightarrow> json \<Rightarrow> string + session" where
  "session_of_value c v = ok_or (shape_error c v) (session_of_json v)"

definition session_bytes :: "codec \<Rightarrow> session \<Rightarrow> string" where
  "session_bytes c s = json_bytes c (session_json s)"

definition session_parse :: "codec \<Rightarrow> string \<Rightarrow> string + session" where
  "session_parse c bytes = and_then (json_parse c bytes) (session_of_value c)"

definition event_schema_version :: nat where "event_schema_version = 1"
definition watermark_schema_version :: nat where "watermark_schema_version = 1"
definition event_frame_max_bytes :: nat where "event_frame_max_bytes = 8 * 1024 * 1024"
definition raw_state_chunk_bytes :: nat where "raw_state_chunk_bytes = 4 * 1024 * 1024"
definition max_state_bytes :: nat where "max_state_bytes = 256 * 1024 * 1024"
definition max_watermark_bytes :: nat where "max_watermark_bytes = 16 * 1024"
definition max_manifest_bytes :: nat where "max_manifest_bytes = 64 * 1024"

text \<open>The largest file offset of the operating system (\<open>off_t\<close>).\<close>

definition max_file_bytes :: nat where "max_file_bytes = 9223372036854775807"

subsection \<open>The directory and its system calls\<close>

datatype session_file = EventsFile | WatermarkFile | ManifestFile | LockFile

fun file_name :: "session_file \<Rightarrow> string" where
  "file_name EventsFile = ''events.jsonl''"
| "file_name WatermarkFile = ''commit.json''"
| "file_name ManifestFile = ''session.json''"
| "file_name LockFile = ''session.lock''"

datatype file_entry = Regular string | SymbolicLink | OtherEntry

record session_disk =
  root_dir :: dir_state
  own_dir :: dir_state
  entry :: "session_file \<Rightarrow> file_entry option"

datatype io_fault = Works | Fails string nat

record store_io =
  disk :: session_disk
  io_faults :: "io_fault list"
  fresh_count :: nat

type_synonym 'a program = "store_io \<Rightarrow> (session_error + 'a) \<times> store_io"

definition look :: "(session_disk \<Rightarrow> 'a) \<Rightarrow> 'a program" where
  "look f = (\<lambda>io. (Inr (f (disk io)), io))"

definition change :: "(session_disk \<Rightarrow> session_disk) \<Rightarrow> unit program" where
  "change f = (\<lambda>io. (Inr (), io\<lparr>disk := f (disk io)\<rparr>))"

definition next_fault :: "store_io \<Rightarrow> io_fault \<times> store_io" where
  "next_fault io =
     (case io_faults io of [] \<Rightarrow> (Works, io) | f # fs \<Rightarrow> (f, io\<lparr>io_faults := fs\<rparr>))"

definition unavailable :: "string \<Rightarrow> string \<Rightarrow> session_error" where
  "unavailable path m = SessionUnavailable (path @ '': '' @ m)"

text \<open>A system call on \<open>path\<close> without an effect of its own.\<close>

definition sys_call :: "string \<Rightarrow> unit program" where
  "sys_call path = (\<lambda>io. case next_fault io of
     (Works, io') \<Rightarrow> (Inr (), io') | (Fails m _, io') \<Rightarrow> (Inl (unavailable path m), io'))"

definition new_identifier :: "codec \<Rightarrow> string program" where
  "new_identifier c = (\<lambda>io. (Inr (fresh_identifier c (fresh_count io)), io\<lparr>fresh_count := fresh_count io + 1\<rparr>))"

definition set_entry :: "session_file \<Rightarrow> file_entry option \<Rightarrow> session_disk \<Rightarrow> session_disk" where
  "set_entry f e d = d\<lparr>entry := (entry d)(f := e)\<rparr>"

definition file_path :: "string \<Rightarrow> session_file \<Rightarrow> string" where
  "file_path dir f = path_push dir (file_name f)"

definition reject_unsafe_file :: "string \<Rightarrow> session_file \<Rightarrow> unit program" where
  "reject_unsafe_file dir f =
     seq (sys_call (file_path dir f)) (\<lambda>_. seq (look (\<lambda>d. entry d f)) (\<lambda>e.
       case e of
         None \<Rightarrow> give ()
       | Some (Regular _) \<Rightarrow> give ()
       | Some _ \<Rightarrow> fail (Corrupt (''session file is not a regular file: '' @ file_path dir f))))"

definition path_is_file :: "string \<Rightarrow> session_file \<Rightarrow> bool program" where
  "path_is_file dir f =
     seq (sys_call (file_path dir f)) (\<lambda>_. seq (look (\<lambda>d. entry d f)) (\<lambda>e.
       case e of
         None \<Rightarrow> give False
       | Some (Regular _) \<Rightarrow> give True
       | Some OtherEntry \<Rightarrow> give False
       | Some SymbolicLink \<Rightarrow> fail (Corrupt (''session file is a symbolic link: '' @ file_path dir f))))"

definition ensure_existing_directory :: "string \<Rightarrow> (session_disk \<Rightarrow> dir_state) \<Rightarrow> unit program" where
  "ensure_existing_directory path which =
     seq (sys_call path) (\<lambda>_. seq (look which) (\<lambda>s.
       case s of
         NoDir \<Rightarrow> fail (SessionNotFound path)
       | RealDir \<Rightarrow> give ()
       | NotADir \<Rightarrow> fail (Corrupt (''session path is not a real directory: '' @ path))))"

definition ensure_private_directory ::
  "string \<Rightarrow> (session_disk \<Rightarrow> dir_state) \<Rightarrow> (session_disk \<Rightarrow> session_disk) \<Rightarrow> unit program" where
  "ensure_private_directory path which create =
     seq (sys_call path) (\<lambda>_.
     seq (look which) (\<lambda>s. seq (if s = NoDir then change create else give ()) (\<lambda>_.
     seq (ensure_existing_directory path which) (\<lambda>_.
       sys_call path))))"

text \<open>\<open>File::open\<close> and \<open>read_to_end\<close> of a regular file.\<close>

definition open_file :: "string \<Rightarrow> session_file \<Rightarrow> string program" where
  "open_file dir f =
     seq (sys_call (file_path dir f)) (\<lambda>_. seq (look (\<lambda>d. entry d f)) (\<lambda>e.
       case e of
         Some (Regular bytes) \<Rightarrow> give bytes
       | None \<Rightarrow> fail (unavailable (file_path dir f) ''not found'')
       | Some _ \<Rightarrow> fail (unavailable (file_path dir f) ''not a regular file'')))"

definition read_json_bounded :: "codec \<Rightarrow> string \<Rightarrow> session_file \<Rightarrow> nat \<Rightarrow> json program" where
  "read_json_bounded c dir f limit =
     seq (open_file dir f) (\<lambda>bytes.
     seq (sys_call (file_path dir f)) (\<lambda>_.
       if bytes = [] \<or> limit < length bytes then
         fail (Corrupt (''invalid bounded file at '' @ file_path dir f))
       else seq (sys_call (file_path dir f)) (\<lambda>_.
         lift (map_err (\<lambda>m. Corrupt (file_path dir f @ '': '' @ m)) (json_parse c bytes)))))"

text \<open>The staged write replaces the file as a whole when it commits, and otherwise leaves it.\<close>

definition atomic_write_json :: "codec \<Rightarrow> string \<Rightarrow> session_file \<Rightarrow> json \<Rightarrow> nat \<Rightarrow> unit program" where
  "atomic_write_json c dir f v limit =
     seq (reject_unsafe_file dir f) (\<lambda>_.
       let bytes = json_bytes c v; path = file_path dir f in
       if bytes = [] \<or> limit < length bytes then
         fail (Corrupt ''encoded projection exceeds its size limit'')
       else seq (sys_call path) (\<lambda>_. seq (sys_call path) (\<lambda>_. seq (sys_call path) (\<lambda>_.
         seq (sys_call path) (\<lambda>_. change (set_entry f (Some (Regular bytes))))))))"

definition lock_session :: "string \<Rightarrow> unit program" where
  "lock_session dir =
     seq (reject_unsafe_file dir LockFile) (\<lambda>_.
     seq (sys_call (file_path dir LockFile)) (\<lambda>_.
     seq (look (\<lambda>d. entry d LockFile)) (\<lambda>e.
     seq (if e = None then change (set_entry LockFile (Some (Regular []))) else give ()) (\<lambda>_.
     seq (sys_call (file_path dir LockFile)) (\<lambda>_. sys_call (file_path dir LockFile))))))"

definition open_private_log :: "string \<Rightarrow> string program" where
  "open_private_log dir =
     seq (sys_call (file_path dir EventsFile)) (\<lambda>_.
     seq (look (\<lambda>d. entry d EventsFile)) (\<lambda>e.
       case e of
         Some (Regular bytes) \<Rightarrow> seq (sys_call (file_path dir EventsFile)) (\<lambda>_. give bytes)
       | None \<Rightarrow> seq (change (set_entry EventsFile (Some (Regular [])))) (\<lambda>_.
           seq (sys_call (file_path dir EventsFile)) (\<lambda>_. give []))
       | Some _ \<Rightarrow> fail (unavailable (file_path dir EventsFile) ''not a regular file'')))"

definition log_bytes :: "session_disk \<Rightarrow> string" where
  "log_bytes d = (case entry d EventsFile of Some (Regular b) \<Rightarrow> b | _ \<Rightarrow> [])"

definition set_log :: "string \<Rightarrow> session_disk \<Rightarrow> session_disk" where
  "set_log b = set_entry EventsFile (Some (Regular b))"

text \<open>\<open>write_all\<close> at the end of the log.\<close>

definition append_log :: "string \<Rightarrow> unit program" where
  "append_log frame = (\<lambda>io. case next_fault io of
     (Works, io') \<Rightarrow>
       if max_file_bytes < length (log_bytes (disk io')) + length frame then
         (Inl (SessionUnavailable ''append event log: file too large''), io')
       else (Inr (), io'\<lparr>disk := set_log (log_bytes (disk io') @ frame) (disk io')\<rparr>)
   | (Fails m k, io') \<Rightarrow>
       (Inl (SessionUnavailable (''append event log: '' @ m)),
        io'\<lparr>disk := set_log (log_bytes (disk io') @ take k frame) (disk io')\<rparr>))"

end
