(* ===== verification/Session_Store.thy ===== *)
theory Session_Store
  imports Store_Io
begin

section \<open>The event-log session store\<close>

text \<open>
  \<open>EventLogSessionStore\<close> of \<open>fx-store/src/lib.rs\<close>: a save appends the redacted session as a started
  event, its bytes in chunks and a committed event, and then moves the watermark over them; a load
  replays the log up to the watermark. \<open>c\<close> is the third-party code, \<open>dir\<close> the session directory.
\<close>

subsection \<open>Values of the log\<close>

record watermark =
  wm_schema_version :: nat
  wm_session_id :: string
  wm_log_generation :: string
  wm_last_event_seq :: nat
  wm_last_event_id :: string
  wm_event_log_bytes :: nat
  wm_event_log_sha256 :: string

definition watermark_json :: "watermark \<Rightarrow> json" where
  "watermark_json w = JObject
     [(''schema_version'', json_nat (wm_schema_version w)),
      (''session_id'', JString (wm_session_id w)),
      (''log_generation'', JString (wm_log_generation w)),
      (''last_event_seq'', json_nat (wm_last_event_seq w)),
      (''last_event_id'', JString (wm_last_event_id w)),
      (''event_log_bytes'', json_nat (wm_event_log_bytes w)),
      (''event_log_sha256'', JString (wm_event_log_sha256 w))]"

definition watermark_of_json :: "json \<Rightarrow> watermark option" where
  "watermark_of_json v =
     (case struct_fields [''schema_version'', ''session_id'', ''log_generation'', ''last_event_seq'',
         ''last_event_id'', ''event_log_bytes'', ''event_log_sha256''] v of
        None \<Rightarrow> None
      | Some obj \<Rightarrow>
          (case (nat_field u32_max obj ''schema_version'', string_field obj ''session_id'',
                 string_field obj ''log_generation'', nat_field u64_max obj ''last_event_seq'',
                 string_field obj ''last_event_id'', nat_field u64_max obj ''event_log_bytes'',
                 string_field obj ''event_log_sha256'') of
             (Some v, Some i, Some g, Some s, Some e, Some b, Some h) \<Rightarrow>
               Some \<lparr>wm_schema_version = v, wm_session_id = i, wm_log_generation = g,
                 wm_last_event_seq = s, wm_last_event_id = e, wm_event_log_bytes = b,
                 wm_event_log_sha256 = h\<rparr>
           | _ \<Rightarrow> None))"

record envelope =
  env_schema_version :: nat
  env_log_generation :: string
  env_seq :: nat
  env_event_id :: string
  env_timestamp_ms :: int
  env_kind :: string
  env_payload :: json

definition envelope_json :: "envelope \<Rightarrow> json" where
  "envelope_json e = JObject
     [(''schema_version'', json_nat (env_schema_version e)),
      (''log_generation'', JString (env_log_generation e)),
      (''seq'', json_nat (env_seq e)),
      (''event_id'', JString (env_event_id e)),
      (''timestamp_ms'', JNumber (env_timestamp_ms e)),
      (''kind'', JString (env_kind e)),
      (''payload'', env_payload e)]"

definition envelope_of_json :: "json \<Rightarrow> envelope option" where
  "envelope_of_json v =
     (case struct_fields [''schema_version'', ''log_generation'', ''seq'', ''event_id'',
         ''timestamp_ms'', ''kind'', ''payload''] v of
        None \<Rightarrow> None
      | Some obj \<Rightarrow>
          (case (nat_field u32_max obj ''schema_version'', string_field obj ''log_generation'',
                 nat_field u64_max obj ''seq'', string_field obj ''event_id'',
                 i64_field obj ''timestamp_ms'', string_field obj ''kind'', map_of obj ''payload'') of
             (Some v, Some g, Some s, Some i, Some t, Some k, Some p) \<Rightarrow>
               Some \<lparr>env_schema_version = v, env_log_generation = g, env_seq = s, env_event_id = i,
                 env_timestamp_ms = t, env_kind = k, env_payload = p\<rparr>
           | _ \<Rightarrow> None))"

text \<open>The payload of the started and of the committed event.\<close>

record replacement =
  rep_id :: string
  rep_encoded_bytes :: nat
  rep_sha256 :: string
  rep_chunk_count :: nat

definition replacement_json :: "replacement \<Rightarrow> json" where
  "replacement_json r = JObject
     [(''replacement_id'', JString (rep_id r)),
      (''encoded_bytes'', json_nat (rep_encoded_bytes r)),
      (''sha256'', JString (rep_sha256 r)),
      (''chunk_count'', json_nat (rep_chunk_count r))]"

definition replacement_of_json :: "json \<Rightarrow> replacement option" where
  "replacement_of_json v =
     (case struct_fields [''replacement_id'', ''encoded_bytes'', ''sha256'', ''chunk_count''] v of
        None \<Rightarrow> None
      | Some obj \<Rightarrow>
          (case (string_field obj ''replacement_id'', nat_field u64_max obj ''encoded_bytes'',
                 string_field obj ''sha256'', nat_field u64_max obj ''chunk_count'') of
             (Some i, Some b, Some h, Some n) \<Rightarrow>
               Some \<lparr>rep_id = i, rep_encoded_bytes = b, rep_sha256 = h, rep_chunk_count = n\<rparr>
           | _ \<Rightarrow> None))"

record replacement_chunk =
  ch_replacement_id :: string
  ch_index :: nat
  ch_raw_bytes :: nat
  ch_sha256 :: string
  ch_bytes :: string

definition chunk_json :: "replacement_chunk \<Rightarrow> json" where
  "chunk_json r = JObject
     [(''replacement_id'', JString (ch_replacement_id r)),
      (''chunk_index'', json_nat (ch_index r)),
      (''raw_bytes'', json_nat (ch_raw_bytes r)),
      (''chunk_sha256'', JString (ch_sha256 r)),
      (''bytes'', JString (ch_bytes r))]"

definition chunk_of_json :: "json \<Rightarrow> replacement_chunk option" where
  "chunk_of_json v =
     (case struct_fields [''replacement_id'', ''chunk_index'', ''raw_bytes'', ''chunk_sha256'', ''bytes''] v of
        None \<Rightarrow> None
      | Some obj \<Rightarrow>
          (case (string_field obj ''replacement_id'', nat_field u64_max obj ''chunk_index'',
                 nat_field u64_max obj ''raw_bytes'', string_field obj ''chunk_sha256'',
                 string_field obj ''bytes'') of
             (Some i, Some n, Some b, Some h, Some s) \<Rightarrow>
               Some \<lparr>ch_replacement_id = i, ch_index = n, ch_raw_bytes = b, ch_sha256 = h, ch_bytes = s\<rparr>
           | _ \<Rightarrow> None))"

subsection \<open>Replay\<close>

record pending_replacement =
  pen_id :: string
  pen_encoded_bytes :: nat
  pen_sha256 :: string
  pen_chunk_count :: nat
  pen_chunks :: string
  pen_next_chunk :: nat

type_synonym replay_state = "pending_replacement option \<times> session option"

definition shaped :: "codec \<Rightarrow> string \<Rightarrow> (json \<Rightarrow> 'a option) \<Rightarrow> json \<Rightarrow> session_error + 'a" where
  "shaped c label f v = ok_or (Corrupt (label @ '': '' @ shape_error c v)) (f v)"

definition replay_started :: "codec \<Rightarrow> json \<Rightarrow> replay_state \<Rightarrow> session_error + replay_state" where
  "replay_started c payload st =
     (if fst st \<noteq> None then Inl (Corrupt ''nested state replacement'')
      else and_then (shaped c ''replacement start'' replacement_of_json payload) (\<lambda>p.
        if rep_encoded_bytes p = 0 \<or> max_state_bytes < rep_encoded_bytes p then
          Inl (Corrupt ''invalid replacement size'')
        else if rep_chunk_count p \<noteq> div_ceil (rep_encoded_bytes p) raw_state_chunk_bytes then
          Inl (Corrupt ''invalid replacement chunks'')
        else and_then (checked_identifier (rep_id p)) (\<lambda>ident.
          and_then (decode_digest (of_hex c) (rep_sha256 p)) (\<lambda>hash.
            Inr (Some \<lparr>pen_id = ident, pen_encoded_bytes = rep_encoded_bytes p, pen_sha256 = hash,
                 pen_chunk_count = rep_chunk_count p, pen_chunks = [], pen_next_chunk = 0\<rparr>, snd st)))))"

definition replay_chunk :: "codec \<Rightarrow> json \<Rightarrow> replay_state \<Rightarrow> session_error + replay_state" where
  "replay_chunk c payload st =
     and_then (shaped c ''replacement chunk'' chunk_of_json payload) (\<lambda>p.
     and_then (ok_or (Corrupt ''replacement chunk without start'') (fst st)) (\<lambda>pending.
       if ch_replacement_id p \<noteq> pen_id pending \<or> ch_index p \<noteq> pen_next_chunk pending
          \<or> pen_chunk_count pending \<le> pen_next_chunk pending then
         Inl (Corrupt ''replacement chunk identity or order mismatch'')
       else and_then (map_err (\<lambda>m. Corrupt (''replacement chunk base64: '' @ m)) (of_base64 c (ch_bytes p)))
         (\<lambda>decoded.
         if decoded = [] \<or> raw_state_chunk_bytes < length decoded \<or> length decoded \<noteq> ch_raw_bytes p then
           Inl (Corrupt ''replacement chunk content mismatch'')
         else and_then (decode_digest (of_hex c) (ch_sha256 p)) (\<lambda>hash.
           if hash \<noteq> sha256 c decoded
              \<or> pen_encoded_bytes pending < sat_add (length (pen_chunks pending)) (length decoded) then
             Inl (Corrupt ''replacement chunk content mismatch'')
           else Inr (Some (pending\<lparr>pen_chunks := pen_chunks pending @ decoded,
                  pen_next_chunk := pen_next_chunk pending + 1\<rparr>), snd st)))))"

definition replay_committed_event :: "codec \<Rightarrow> json \<Rightarrow> replay_state \<Rightarrow> session_error + replay_state" where
  "replay_committed_event c payload st =
     and_then (shaped c ''replacement commit'' replacement_of_json payload) (\<lambda>p.
     and_then (ok_or (Corrupt ''replacement commit without start'') (fst st)) (\<lambda>r.
       if rep_id p \<noteq> pen_id r \<or> rep_encoded_bytes p \<noteq> pen_encoded_bytes r
          \<or> rep_chunk_count p \<noteq> pen_chunk_count r then
         Inl (Corrupt ''replacement commit content mismatch'')
       else and_then (decode_digest (of_hex c) (rep_sha256 p)) (\<lambda>hash.
         if hash \<noteq> pen_sha256 r \<or> pen_next_chunk r \<noteq> pen_chunk_count r
            \<or> length (pen_chunks r) \<noteq> pen_encoded_bytes r \<or> sha256 c (pen_chunks r) \<noteq> pen_sha256 r then
           Inl (Corrupt ''replacement commit content mismatch'')
         else and_then (map_err (\<lambda>m. Corrupt (''session state: '' @ m)) (session_parse c (pen_chunks r)))
           (\<lambda>decoded. and_then (validate_session decoded) (\<lambda>_. Inr (None, Some decoded))))))"

definition apply_event :: "codec \<Rightarrow> string \<Rightarrow> json \<Rightarrow> replay_state \<Rightarrow> session_error + replay_state" where
  "apply_event c kind payload st =
     (if kind = ''state_replacement_started'' then replay_started c payload st
      else if kind = ''state_replacement_chunk'' then replay_chunk c payload st
      else if kind = ''state_replacement_committed'' then replay_committed_event c payload st
      else Inl (Corrupt (''unsupported event kind `'' @ kind @ ''`'')))"

text \<open>
  \<open>read_until(b'\n')\<close> until the end: the lines with their newline; a last line without one is a line.
\<close>

function frames :: "string \<Rightarrow> string list" where
  "frames bytes =
     (if bytes = [] then []
      else let body = takeWhile (\<lambda>b. b \<noteq> CHR 0x0A) bytes; n = length body + 1 in
        take n bytes # frames (drop n bytes))"
  by pat_completeness auto
termination
  by (relation "measure length") auto

declare frames.simps [simp del]

record replay_cursor =
  next_seq :: nat
  last_seen_event_id :: string
  replayed :: replay_state

definition replay_start :: replay_cursor where
  "replay_start = \<lparr>next_seq = 1, last_seen_event_id = zero_identifier, replayed = (None, None)\<rparr>"

text \<open>One pass through the loop of \<open>replay_committed\<close>.\<close>

definition replay_frame ::
  "codec \<Rightarrow> string \<Rightarrow> string \<Rightarrow> replay_cursor \<Rightarrow> session_error + replay_cursor" where
  "replay_frame c generation line cur =
     (if event_frame_max_bytes < length line \<or> last line \<noteq> CHR 0x0A then
        Inl (Corrupt ''invalid event frame boundary'')
      else and_then (map_err (\<lambda>m. Corrupt (''event frame: '' @ m)) (json_parse c (butlast line))) (\<lambda>v.
        and_then (shaped c ''event frame'' envelope_of_json v) (\<lambda>e.
          if env_schema_version e \<noteq> event_schema_version \<or> env_log_generation e \<noteq> generation
             \<or> env_seq e \<noteq> next_seq cur \<or> \<not> valid_identifier (env_event_id e)
             \<or> env_timestamp_ms e < 0 then
            Inl (Corrupt ''invalid event identity or sequence'')
          else if u64_max < next_seq cur + 1 then Inl (Corrupt ''event sequence overflow'')
          else and_then (apply_event c (env_kind e) (env_payload e) (replayed cur)) (\<lambda>st.
            Inr \<lparr>next_seq = next_seq cur + 1, last_seen_event_id = env_event_id e, replayed = st\<rparr>))))"

fun replay_frames ::
  "codec \<Rightarrow> string \<Rightarrow> string list \<Rightarrow> replay_cursor \<Rightarrow> session_error + replay_cursor" where
  "replay_frames c generation [] cur = Inr cur"
| "replay_frames c generation (line # lines) cur =
     and_then (replay_frame c generation line cur) (replay_frames c generation lines)"

definition validate_watermark :: "codec \<Rightarrow> watermark \<Rightarrow> string \<Rightarrow> session_error + unit" where
  "validate_watermark c w expected_id =
     ensure (wm_schema_version w = watermark_schema_version \<and> wm_session_id w = expected_id
         \<and> valid_identifier (wm_log_generation w) \<and> valid_identifier (wm_last_event_id w)
         \<and> wm_last_event_seq w \<noteq> 0 \<and> wm_event_log_bytes w \<noteq> 0
         \<and> of_hex c (wm_event_log_sha256 w) \<noteq> None)
       (Corrupt ''invalid commit watermark'')"

text \<open>The pure part of \<open>replay_committed\<close>: what the committed prefix of the log holds.\<close>

definition replay_log :: "codec \<Rightarrow> watermark \<Rightarrow> string \<Rightarrow> string \<Rightarrow> session_error + session" where
  "replay_log c w expected_id committed =
     and_then (replay_frames c (wm_log_generation w) (frames committed) replay_start) (\<lambda>cur.
       if length committed \<noteq> wm_event_log_bytes w \<or> next_seq cur - 1 \<noteq> wm_last_event_seq w
          \<or> last_seen_event_id cur \<noteq> wm_last_event_id w
          \<or> to_hex c (sha256 c committed) \<noteq> wm_event_log_sha256 w
          \<or> fst (replayed cur) \<noteq> None then
         Inl (Corrupt ''event log does not match its committed watermark'')
       else and_then (ok_or (Corrupt ''event log has no committed session state'') (snd (replayed cur)))
         (\<lambda>s. if session_id s \<noteq> expected_id then
             Inl (Corrupt ''session state id does not match its directory'')
           else Inr (s\<lparr>schema_version := current_schema\<rparr>)))"

definition replay_committed :: "codec \<Rightarrow> string \<Rightarrow> string \<Rightarrow> (session \<times> watermark) program" where
  "replay_committed c dir expected_id =
     seq (reject_unsafe_file dir WatermarkFile) (\<lambda>_.
     seq (read_json_bounded c dir WatermarkFile max_watermark_bytes) (\<lambda>v.
     seq (lift (shaped c (file_path dir WatermarkFile) watermark_of_json v)) (\<lambda>w.
     seq (lift (validate_watermark c w expected_id)) (\<lambda>_.
     seq (reject_unsafe_file dir EventsFile) (\<lambda>_.
     seq (open_file dir EventsFile) (\<lambda>bytes.
     seq (sys_call (file_path dir EventsFile)) (\<lambda>_.
       if length bytes < wm_event_log_bytes w then
         fail (Corrupt ''event log does not contain the committed prefix'')
       else seq (sys_call (file_path dir EventsFile)) (\<lambda>_.
         seq (lift (replay_log c w expected_id (take (wm_event_log_bytes w) bytes))) (\<lambda>s.
           give (s, w))))))))))"

subsection \<open>Loading\<close>

definition load_legacy_optional :: "codec \<Rightarrow> string \<Rightarrow> string \<Rightarrow> session option program" where
  "load_legacy_optional c dir expected_id =
     seq (path_is_file dir ManifestFile) (\<lambda>is_file.
       if \<not> is_file then give None
       else seq (reject_unsafe_file dir ManifestFile) (\<lambda>_.
         seq (read_json_bounded c dir ManifestFile max_state_bytes) (\<lambda>v.
           case v of
             JObject obj \<Rightarrow>
               (case nat_field u64_max obj ''schema_version'' of
                  None \<Rightarrow> fail (Corrupt ''legacy schema is missing'')
                | Some schema \<Rightarrow>
                    if schema = current_schema then
                      fail (Corrupt ''schema-v3 manifest is missing its commit watermark'')
                    else if schema \<noteq> 1 \<and> schema \<noteq> 2 then
                      fail (UnsupportedSchema (schema mod (u32_max + 1)))
                    else seq (lift (map_err (\<lambda>m. Corrupt (''legacy session: '' @ m)) (session_of_value c v)))
                      (\<lambda>s. if session_id s \<noteq> expected_id then
                          fail (Corrupt ''legacy session id does not match its directory'')
                        else seq (lift (validate_session s)) (\<lambda>_.
                          give (Some (s\<lparr>schema_version := current_schema\<rparr>)))))
           | _ \<Rightarrow> fail (Corrupt ''legacy schema is missing''))))"

definition load_legacy :: "codec \<Rightarrow> string \<Rightarrow> string \<Rightarrow> session program" where
  "load_legacy c dir expected_id =
     seq (load_legacy_optional c dir expected_id) (\<lambda>s.
       case s of None \<Rightarrow> fail (SessionNotFound expected_id) | Some s \<Rightarrow> give s)"

definition load_id :: "codec \<Rightarrow> string \<Rightarrow> string \<Rightarrow> session program" where
  "load_id c root ident =
     seq (lift (validate_session_id ident)) (\<lambda>_.
       let dir = path_push root ident in
       seq (ensure_existing_directory dir own_dir) (\<lambda>_.
       seq (path_is_file dir WatermarkFile) (\<lambda>committed.
         if committed then seq (replay_committed c dir ident) (\<lambda>r. give (fst r))
         else load_legacy c dir ident)))"

subsection \<open>Saving\<close>

record event_header =
  eh_generation :: string
  eh_seq :: nat
  eh_event_id :: string
  eh_timestamp_ms :: int
  eh_kind :: string

definition event_frame :: "codec \<Rightarrow> event_header \<Rightarrow> json \<Rightarrow> string" where
  "event_frame c h payload =
     json_bytes c (envelope_json
       \<lparr>env_schema_version = event_schema_version, env_log_generation = eh_generation h,
        env_seq = eh_seq h, env_event_id = eh_event_id h, env_timestamp_ms = eh_timestamp_ms h,
        env_kind = eh_kind h, env_payload = payload\<rparr>) @ [CHR 0x0A]"

text \<open>The hasher is the bytes given to it so far.\<close>

definition write_event :: "codec \<Rightarrow> string \<Rightarrow> event_header \<Rightarrow> json \<Rightarrow> string program" where
  "write_event c hash h payload =
     (let frame = event_frame c h payload in
      if event_frame_max_bytes < length frame then
        fail (SessionUnavailable ''encoded event exceeds the 8 MiB frame limit'')
      else seq (append_log frame) (\<lambda>_. give (hash @ frame)))"

text \<open>\<open>slice::chunks\<close>; the size is positive.\<close>

function chunks :: "nat \<Rightarrow> 'a list \<Rightarrow> 'a list list" where
  "chunks n xs = (if xs = [] \<or> n = 0 then [] else take n xs # chunks n (drop n xs))"
  by pat_completeness auto
termination
  by (relation "measure (\<lambda>(n, xs). length xs)") auto

declare chunks.simps [simp del]

definition next_seq_number :: "nat \<Rightarrow> session_error + nat" where
  "next_seq_number n = (if u64_max < n + 1 then Inl (Corrupt ''event sequence overflow'') else Inr (n + 1))"

definition chunk_payload :: "codec \<Rightarrow> string \<Rightarrow> nat \<Rightarrow> string \<Rightarrow> json" where
  "chunk_payload c rid index chunk =
     chunk_json \<lparr>ch_replacement_id = rid, ch_index = index, ch_raw_bytes = length chunk,
       ch_sha256 = to_hex c (sha256 c chunk), ch_bytes = to_base64 c chunk\<rparr>"

text \<open>The loop over the chunks gives the last sequence number and the hasher.\<close>

fun write_chunks ::
  "codec \<Rightarrow> string \<Rightarrow> int \<Rightarrow> string \<Rightarrow> nat \<Rightarrow> string list \<Rightarrow> nat \<Rightarrow> string \<Rightarrow> (nat \<times> string) program" where
  "write_chunks c generation ts rid index [] n hash = give (n, hash)"
| "write_chunks c generation ts rid index (chunk # rest) n hash =
     seq (lift (next_seq_number n)) (\<lambda>n.
     seq (new_identifier c) (\<lambda>event_id.
     seq (write_event c hash
         \<lparr>eh_generation = generation, eh_seq = n, eh_event_id = event_id, eh_timestamp_ms = ts,
          eh_kind = ''state_replacement_chunk''\<rparr> (chunk_payload c rid index chunk)) (\<lambda>hash.
       write_chunks c generation ts rid (index + 1) rest n hash)))"

definition manifest_json :: "session \<Rightarrow> watermark \<Rightarrow> json" where
  "manifest_json s w =
     (let text_or_null = (\<lambda>v. case v of None \<Rightarrow> JNull | Some t \<Rightarrow> JString t) in JObject
     [(''schema_version'', json_nat current_schema),
      (''storage_format'', JString ''event_log_v1''),
      (''id'', JString (session_id s)),
      (''created_at_ms'', JNumber (sint (created_at_ms s))),
      (''updated_at_ms'', JNumber (sint (updated_at_ms s))),
      (''origin_workspace_root'', JString (case origin_workspace_root s of
          Some r \<Rightarrow> r | None \<Rightarrow> workspace_root s)),
      (''workspace_root'', JString (workspace_root s)),
      (''title'', text_or_null (title s)),
      (''preview'', text_or_null (preview s)),
      (''history_len'', json_nat (length (session_history s))),
      (''has_managed_children'', JBool False),
      (''log_generation'', JString (wm_log_generation w)),
      (''last_event_seq'', json_nat (wm_last_event_seq w)),
      (''event_log_bytes'', json_nat (wm_event_log_bytes w)),
      (''event_log_sha256'', JString (wm_event_log_sha256 w))])"

definition write_manifest_best_effort :: "codec \<Rightarrow> string \<Rightarrow> session \<Rightarrow> watermark \<Rightarrow> unit program" where
  "write_manifest_best_effort c dir s w =
     atomic_write_json c dir ManifestFile (manifest_json s w) max_manifest_bytes"

definition hash_file_prefix :: "string \<Rightarrow> nat \<Rightarrow> string program" where
  "hash_file_prefix dir n =
     (if n = 0 then give []
      else seq (open_file dir EventsFile) (\<lambda>bytes.
        seq (sys_call (file_path dir EventsFile)) (\<lambda>_.
          if length bytes < n then
            fail (Corrupt ''event log is shorter than its committed watermark'')
          else give (take n bytes))))"

text \<open>The start of \<open>save_sync\<close>: the session on disk, with the watermark its successor extends.\<close>

definition existing_session :: "codec \<Rightarrow> string \<Rightarrow> string \<Rightarrow> (session \<times> watermark) option program" where
  "existing_session c dir ident =
     seq (path_is_file dir WatermarkFile) (\<lambda>committed.
       if committed then seq (replay_committed c dir ident) (\<lambda>r. give (Some r))
       else seq (load_legacy_optional c dir ident) (\<lambda>legacy.
         case legacy of
           None \<Rightarrow> give None
         | Some s \<Rightarrow> seq (new_identifier c) (\<lambda>generation.
             give (Some (s, \<lparr>wm_schema_version = watermark_schema_version, wm_session_id = ident,
               wm_log_generation = generation, wm_last_event_seq = 0,
               wm_last_event_id = zero_identifier, wm_event_log_bytes = 0,
               wm_event_log_sha256 = to_hex c (sha256 c [])\<rparr>)))))"

text \<open>\<open>committed\<close> bytes of the log are kept, what follows them is cut off; the hasher is the prefix.\<close>

definition open_log_at :: "string \<Rightarrow> nat \<Rightarrow> string program" where
  "open_log_at dir committed =
     seq (open_private_log dir) (\<lambda>bytes.
     seq (sys_call (file_path dir EventsFile)) (\<lambda>_.
       if length bytes < committed then
         fail (Corrupt ''event log is shorter than its committed watermark'')
       else seq (sys_call (file_path dir EventsFile)) (\<lambda>_.
         seq (change (\<lambda>d. set_log (take committed (log_bytes d)) d)) (\<lambda>_.
         seq (sys_call (file_path dir EventsFile)) (\<lambda>_.
           hash_file_prefix dir committed)))))"

text \<open>The events of one replacement, from sequence number \<open>first\<close> on; gives the new watermark.\<close>

definition write_replacement ::
  "codec \<Rightarrow> string \<Rightarrow> session \<Rightarrow> string \<Rightarrow> nat \<Rightarrow> string \<Rightarrow> string \<Rightarrow> watermark program" where
  "write_replacement c generation stored encoded first dir hash =
     (let digest = to_hex c (sha256 c encoded); parts = chunks raw_state_chunk_bytes encoded;
          ts = sint (updated_at_ms stored) in
      seq (new_identifier c) (\<lambda>rid.
      let summary = \<lparr>rep_id = rid, rep_encoded_bytes = length encoded, rep_sha256 = digest,
            rep_chunk_count = div_ceil (length encoded) raw_state_chunk_bytes\<rparr> in
      seq (new_identifier c) (\<lambda>event_id.
      seq (write_event c hash
          \<lparr>eh_generation = generation, eh_seq = first, eh_event_id = event_id, eh_timestamp_ms = ts,
           eh_kind = ''state_replacement_started''\<rparr> (replacement_json summary)) (\<lambda>hash.
      seq (write_chunks c generation ts rid 0 parts first hash) (\<lambda>(n, hash).
      seq (lift (next_seq_number n)) (\<lambda>n.
      seq (new_identifier c) (\<lambda>event_id.
      seq (write_event c hash
          \<lparr>eh_generation = generation, eh_seq = n, eh_event_id = event_id, eh_timestamp_ms = ts,
           eh_kind = ''state_replacement_committed''\<rparr> (replacement_json summary)) (\<lambda>hash.
      seq (sys_call (file_path dir EventsFile)) (\<lambda>_.
      seq (sys_call (file_path dir EventsFile)) (\<lambda>_.
      seq (look log_bytes) (\<lambda>log.
        give \<lparr>wm_schema_version = watermark_schema_version, wm_session_id = session_id stored,
          wm_log_generation = generation, wm_last_event_seq = n, wm_last_event_id = event_id,
          wm_event_log_bytes = length log, wm_event_log_sha256 = to_hex c (sha256 c hash)\<rparr>)))))))))))"

text \<open>\<open>let _ = ...\<close>: the result is dropped, the effects stay.\<close>

definition ignore :: "unit program \<Rightarrow> unit program" where
  "ignore p = (\<lambda>io. (Inr (), snd (p io)))"

text \<open>The part of \<open>save_sync\<close> that extends the log, and the part that makes the extension count.\<close>

definition append_session ::
  "codec \<Rightarrow> string \<Rightarrow> session \<Rightarrow> string \<Rightarrow> (session \<times> watermark) option \<Rightarrow> watermark program" where
  "append_session c dir stored encoded existing =
     seq (reject_unsafe_file dir EventsFile) (\<lambda>_.
     seq (case existing of Some (_, w) \<Rightarrow> give (wm_log_generation w) | None \<Rightarrow> new_identifier c) (\<lambda>generation.
       let committed = (case existing of Some (_, w) \<Rightarrow> wm_event_log_bytes w | None \<Rightarrow> 0);
           first = (case existing of
             Some (_, w) \<Rightarrow> min u64_max (wm_last_event_seq w + 1) | None \<Rightarrow> 1) in
       if first = 0 then fail (Corrupt ''event sequence overflow'')
       else seq (open_log_at dir committed) (\<lambda>hash.
         write_replacement c generation stored encoded first dir hash)))"

definition commit_session ::
  "codec \<Rightarrow> string \<Rightarrow> session \<Rightarrow> string \<Rightarrow> (session \<times> watermark) option \<Rightarrow> unit program" where
  "commit_session c dir stored encoded existing =
     seq (append_session c dir stored encoded existing) (\<lambda>w.
     seq (atomic_write_json c dir WatermarkFile (watermark_json w) max_watermark_bytes) (\<lambda>_.
       ignore (write_manifest_best_effort c dir stored w)))"

text \<open>What is done under the lock.\<close>

definition save_locked :: "codec \<Rightarrow> string \<Rightarrow> session \<Rightarrow> unit program" where
  "save_locked c dir s =
     seq (existing_session c dir (session_id s)) (\<lambda>existing.
       let stored = stored_form (sha256 c) (to_hex c) s in
       seq (lift (case existing of Some (p, _) \<Rightarrow> validate_replacement p stored | None \<Rightarrow> Inr ())) (\<lambda>_.
         if map_option fst existing = Some stored then
           (case existing of Some (_, w) \<Rightarrow> write_manifest_best_effort c dir stored w | None \<Rightarrow> give ())
         else let encoded = session_bytes c stored in
           if encoded = [] \<or> max_state_bytes < length encoded then
             fail (SessionUnavailable
               (''session state exceeds the '' @ show_nat max_state_bytes @ '' byte limit''))
           else commit_session c dir stored encoded existing))"

definition save_sync :: "codec \<Rightarrow> string \<Rightarrow> session \<Rightarrow> unit program" where
  "save_sync c root s =
     seq (lift (validate_session s)) (\<lambda>_.
     let dir = path_push root (session_id s) in
     seq (ensure_private_directory root root_dir (\<lambda>d. d\<lparr>root_dir := RealDir\<rparr>)) (\<lambda>_.
     seq (ensure_private_directory dir own_dir (\<lambda>d. d\<lparr>own_dir := RealDir, entry := \<lambda>_. None\<rparr>)) (\<lambda>_.
     seq (lock_session dir) (\<lambda>_. save_locked c dir s))))"

subsection \<open>Listing\<close>

text \<open>
  The root as \<open>read_dir\<close> gives it: the entries in any order, each a session directory (with what is
  below it), another entry, or one that cannot be read. \<open>None\<close> is a root that does not exist.
\<close>

datatype root_entry = SessionEntry string session_disk | OtherRootEntry | UnreadableEntry

definition load_entry :: "codec \<Rightarrow> string \<Rightarrow> string \<Rightarrow> session_disk \<Rightarrow> session_error + session" where
  "load_entry c root ident d = fst (load_id c root ident \<lparr>disk = d, io_faults = [], fresh_count = 0\<rparr>)"

text \<open>The body of the loop of \<open>list_sync\<close> for one entry.\<close>

definition listed :: "codec \<Rightarrow> string \<Rightarrow> string option \<Rightarrow> root_entry \<Rightarrow> session_summary option" where
  "listed c root expected e =
     (case e of
        SessionEntry ident d \<Rightarrow>
          if validate_session_id ident \<noteq> Inr () then None
          else (case load_entry c root ident d of
              Inl _ \<Rightarrow> None
            | Inr s \<Rightarrow>
                if holds_option (\<lambda>r. normalize_workspace (workspace_root s) = r) expected
                then Some (summary s) else None)
      | _ \<Rightarrow> None)"

text \<open>The order of \<open>sort_by\<close>, a stable sort: later updates first, then larger names.\<close>

definition recent_key :: "session_summary \<Rightarrow> int \<times> nat list" where
  "recent_key s = (sint (sum_updated_at_ms s), map byte_of (sum_id s))"

fun bytes_less :: "nat list \<Rightarrow> nat list \<Rightarrow> bool" where
  "bytes_less xs [] = False"
| "bytes_less [] (y # ys) = True"
| "bytes_less (x # xs) (y # ys) = (x < y \<or> x = y \<and> bytes_less xs ys)"

definition before :: "session_summary \<Rightarrow> session_summary \<Rightarrow> bool" where
  "before a b \<longleftrightarrow> fst (recent_key b) < fst (recent_key a)
     \<or> fst (recent_key b) = fst (recent_key a) \<and> bytes_less (snd (recent_key b)) (snd (recent_key a))"

fun insert_recent :: "session_summary \<Rightarrow> session_summary list \<Rightarrow> session_summary list" where
  "insert_recent x [] = [x]"
| "insert_recent x (y # ys) = (if before y x then y # insert_recent x ys else x # y # ys)"

definition sort_recent :: "session_summary list \<Rightarrow> session_summary list" where
  "sort_recent xs = foldr insert_recent xs []"

definition list_sync ::
  "codec \<Rightarrow> string \<Rightarrow> root_entry list option \<Rightarrow> string option \<Rightarrow> nat \<Rightarrow> session_summary list" where
  "list_sync c root entries workspace limit =
     (if limit = 0 then []
      else case entries of
          None \<Rightarrow> []
        | Some es \<Rightarrow>
            take limit (sort_recent (List.map_filter (listed c root (map_option normalize_workspace workspace)) es)))"

text \<open>\<open>load\<close>: \<open>last\<close> is the first of the list.\<close>

definition load_target ::
  "codec \<Rightarrow> string \<Rightarrow> root_entry list option \<Rightarrow> session_target \<Rightarrow> string \<Rightarrow> session_error + session" where
  "load_target c root entries target workspace =
     (let find_disk = (\<lambda>ident. case find (\<lambda>e. case e of SessionEntry i _ \<Rightarrow> i = ident | _ \<Rightarrow> False)
              (case entries of None \<Rightarrow> [] | Some es \<Rightarrow> es) of
            Some (SessionEntry _ d) \<Rightarrow> d
          | _ \<Rightarrow> \<lparr>root_dir = RealDir, own_dir = NoDir, entry = \<lambda>_. None\<rparr>) in
      case target of
        SessionId ident \<Rightarrow> load_entry c root ident (find_disk ident)
      | LastSession \<Rightarrow>
          (case list_sync c root entries (Some workspace) 1 of
             [] \<Rightarrow> Inl (SessionNotFound ''last'')
           | s # _ \<Rightarrow> load_entry c root (sum_id s) (find_disk (sum_id s))))"

end
