(* ===== verification/Session_Durability.thy ===== *)
theory Session_Durability
  imports Session_Store
begin

section \<open>Saved sessions are durable\<close>

text \<open>
  What \<open>Session_Store\<close> guarantees over third-party code with the documented laws: a saved session is
  read back, a save that fails or dies anywhere leaves the old or the new session, and what an
  interrupted save left behind the committed prefix is never read.
\<close>

subsection \<open>Programs\<close>

lemma program_simps:
  "give a io = (Inr a, io)" "fail e io = (Inl e, io)" "lift r io = (r, io)"
  "look h io = (Inr (h (disk io)), io)" "change f io = (Inr (), io\<lparr>disk := f (disk io)\<rparr>)"
  by (simp_all add: give_def fail_def lift_def look_def change_def)

lemma next_fault_disk: "next_fault io = (f, io') \<Longrightarrow> disk io' = disk io"
  by (auto simp: next_fault_def split: list.splits)

lemma sys_call_disk [simp]: "disk (snd (sys_call p io)) = disk io"
  by (auto simp: sys_call_def dest: next_fault_disk split: prod.splits io_fault.splits)

lemma new_identifier_disk [simp]: "disk (snd (new_identifier c io)) = disk io"
  by (simp add: new_identifier_def)

text \<open>A program keeps a property of the directory, however it ends.\<close>

definition keeps :: "(session_disk \<Rightarrow> bool) \<Rightarrow> 'a program \<Rightarrow> bool" where
  "keeps P p \<longleftrightarrow> (\<forall>io. P (disk io) \<longrightarrow> P (disk (snd (p io))))"

named_theorems keeps_intros

lemma keeps_seq [keeps_intros]:
  assumes "keeps P p" and "\<And>a. keeps P (f a)"
  shows "keeps P (seq p f)"
  unfolding keeps_def
proof (intro allI impI)
  fix io :: store_io
  assume P: "P (disk io)"
  obtain r io' where r: "p io = (r, io')" by fastforce
  have P': "P (disk io')" using assms(1) P r unfolding keeps_def by (metis snd_conv)
  show "P (disk (snd (seq p f io)))"
  proof (cases r)
    case (Inl e)
    with r P' show ?thesis by (simp add: seq_def)
  next
    case (Inr a)
    with r P' assms(2) show ?thesis by (simp add: seq_def keeps_def)
  qed
qed

lemma keeps_basic [keeps_intros]:
  "keeps P (give a)" "keeps P (fail e)" "keeps P (lift r)" "keeps P (look f)" "keeps P (sys_call path)"
  "keeps P (new_identifier c)"
  by (simp_all add: keeps_def program_simps)

lemma keeps_change [keeps_intros]: "(\<And>d. P d \<Longrightarrow> P (f d)) \<Longrightarrow> keeps P (change f)"
  by (simp add: keeps_def program_simps)

lemma keeps_if [keeps_intros]: "keeps P p \<Longrightarrow> keeps P q \<Longrightarrow> keeps P (if b then p else q)"
  by simp

lemma keeps_reads [keeps_intros]:
  "keeps P (reject_unsafe_file dir f)" "keeps P (path_is_file dir f)" "keeps P (open_file dir f)"
  "keeps P (ensure_existing_directory path which)"
  unfolding reject_unsafe_file_def path_is_file_def open_file_def ensure_existing_directory_def
  by (auto intro!: keeps_intros split: option.splits file_entry.splits dir_state.splits)

lemma keeps_read_json [keeps_intros]: "keeps P (read_json_bounded c dir f limit)"
  unfolding read_json_bounded_def by (intro keeps_intros)

lemma keeps_replay_committed [keeps_intros]: "keeps P (replay_committed c dir ident)"
  unfolding replay_committed_def by (intro keeps_intros)

lemma keeps_legacy [keeps_intros]: "keeps P (load_legacy_optional c dir ident)"
  unfolding load_legacy_optional_def
  by (auto intro!: keeps_intros split: json.splits option.splits)

lemma keeps_existing [keeps_intros]: "keeps P (existing_session c dir ident)"
  unfolding existing_session_def by (auto intro!: keeps_intros split: option.splits)

subsection \<open>Programs that only read\<close>

text \<open>
  \<open>reads p r\<close>: without faults \<open>p\<close> gives what \<open>r\<close> says of the directory and changes nothing, and with
  faults it gives that or an error.
\<close>

definition reads :: "'a program \<Rightarrow> (session_disk \<Rightarrow> session_error + 'a) \<Rightarrow> bool" where
  "reads p r \<longleftrightarrow> (\<forall>io. (io_faults io = [] \<longrightarrow> p io = (r (disk io), io)) \<and>
     (\<forall>a io'. p io = (Inr a, io') \<longrightarrow> r (disk io) = Inr a \<and> disk io' = disk io))"

named_theorems reads_intros

lemma reads_quiet: "reads p r \<Longrightarrow> io_faults io = [] \<Longrightarrow> p io = (r (disk io), io)"
  unfolding reads_def by blast

lemma reads_Inr: "reads p r \<Longrightarrow> p io = (Inr a, io') \<Longrightarrow> r (disk io) = Inr a \<and> disk io' = disk io"
  unfolding reads_def by blast

lemma reads_seq [reads_intros]:
  assumes "reads p r" and "\<And>a. reads (f a) (g a)"
  shows "reads (seq p f) (\<lambda>d. and_then (r d) (\<lambda>a. g a d))"
  unfolding reads_def
proof (intro allI conjI impI)
  fix io :: store_io
  assume q: "io_faults io = []"
  have "p io = (r (disk io), io)" using assms(1) q by (rule reads_quiet)
  then show "seq p f io = (and_then (r (disk io)) (\<lambda>a. g a (disk io)), io)"
    using reads_quiet [OF assms(2) q] by (cases "r (disk io)") (simp_all add: seq_def)
next
  fix io b io'
  assume "seq p f io = (Inr b, io')"
  then obtain a io1 where p: "p io = (Inr a, io1)" and f: "f a io1 = (Inr b, io')" by (auto simp: seq_Inr)
  note 1 = reads_Inr [OF assms(1) p] and 2 = reads_Inr [OF assms(2) f]
  from 1 2 show "and_then (r (disk io)) (\<lambda>a. g a (disk io)) = Inr b" by simp
  from 1 2 show "disk io' = disk io" by simp
qed

lemma reads_basic [reads_intros]:
  "reads (give a) (\<lambda>_. Inr a)" "reads (fail e) (\<lambda>_. Inl e)" "reads (lift x) (\<lambda>_. x)"
  "reads (look h) (\<lambda>d. Inr (h d))"
  by (auto simp: reads_def program_simps)

lemma reads_sys_call [reads_intros]: "reads (sys_call path) (\<lambda>_. Inr ())"
  by (auto simp: reads_def sys_call_def next_fault_def split: list.splits io_fault.splits)

lemma reads_if [reads_intros]:
  "reads p r \<Longrightarrow> reads q s \<Longrightarrow> reads (if b then p else q) (\<lambda>d. if b then r d else s d)"
  by simp

lemma reads_eq: "reads p r \<Longrightarrow> (\<And>d. r d = r' d) \<Longrightarrow> reads p r'"
  by (metis ext)

text \<open>What each routine reads, as a function of the directory entries.\<close>

definition safe_entry :: "string \<Rightarrow> session_file \<Rightarrow> file_entry option \<Rightarrow> session_error + unit" where
  "safe_entry dir f e =
     (case e of
        None \<Rightarrow> Inr ()
      | Some (Regular _) \<Rightarrow> Inr ()
      | Some _ \<Rightarrow> Inl (Corrupt (''session file is not a regular file: '' @ file_path dir f)))"

definition entry_is_file :: "string \<Rightarrow> session_file \<Rightarrow> file_entry option \<Rightarrow> session_error + bool" where
  "entry_is_file dir f e =
     (case e of
        None \<Rightarrow> Inr False
      | Some (Regular _) \<Rightarrow> Inr True
      | Some OtherEntry \<Rightarrow> Inr False
      | Some SymbolicLink \<Rightarrow> Inl (Corrupt (''session file is a symbolic link: '' @ file_path dir f)))"

definition entry_bytes :: "string \<Rightarrow> session_file \<Rightarrow> file_entry option \<Rightarrow> session_error + string" where
  "entry_bytes dir f e =
     (case e of
        Some (Regular bytes) \<Rightarrow> Inr bytes
      | None \<Rightarrow> Inl (unavailable (file_path dir f) ''not found'')
      | Some _ \<Rightarrow> Inl (unavailable (file_path dir f) ''not a regular file''))"

definition bounded_json :: "codec \<Rightarrow> string \<Rightarrow> session_file \<Rightarrow> nat \<Rightarrow> file_entry option \<Rightarrow> session_error + json" where
  "bounded_json c dir f limit e =
     and_then (entry_bytes dir f e) (\<lambda>bytes.
       if bytes = [] \<or> limit < length bytes then
         Inl (Corrupt (''invalid bounded file at '' @ file_path dir f))
       else map_err (\<lambda>m. Corrupt (file_path dir f @ '': '' @ m)) (json_parse c bytes))"

definition watermark_of :: "codec \<Rightarrow> string \<Rightarrow> string \<Rightarrow> file_entry option \<Rightarrow> session_error + watermark" where
  "watermark_of c dir ident e =
     and_then (safe_entry dir WatermarkFile e) (\<lambda>_.
     and_then (bounded_json c dir WatermarkFile max_watermark_bytes e) (\<lambda>v.
     and_then (shaped c (file_path dir WatermarkFile) watermark_of_json v) (\<lambda>w.
     and_then (validate_watermark c w ident) (\<lambda>_. Inr w))))"

definition log_state :: "codec \<Rightarrow> string \<Rightarrow> string \<Rightarrow> watermark \<Rightarrow> file_entry option \<Rightarrow> session_error + session" where
  "log_state c dir ident w e =
     and_then (safe_entry dir EventsFile e) (\<lambda>_.
     and_then (entry_bytes dir EventsFile e) (\<lambda>bytes.
       if length bytes < wm_event_log_bytes w then
         Inl (Corrupt ''event log does not contain the committed prefix'')
       else replay_log c w ident (take (wm_event_log_bytes w) bytes)))"

definition committed_of ::
  "codec \<Rightarrow> string \<Rightarrow> string \<Rightarrow> file_entry option \<Rightarrow> file_entry option \<Rightarrow> session_error + (session \<times> watermark)" where
  "committed_of c dir ident we ee =
     and_then (watermark_of c dir ident we) (\<lambda>w.
       and_then (log_state c dir ident w ee) (\<lambda>s. Inr (s, w)))"

definition legacy_of :: "codec \<Rightarrow> string \<Rightarrow> string \<Rightarrow> file_entry option \<Rightarrow> session_error + session option" where
  "legacy_of c dir ident e =
     and_then (entry_is_file dir ManifestFile e) (\<lambda>is_file.
       if \<not> is_file then Inr None
       else and_then (safe_entry dir ManifestFile e) (\<lambda>_.
         and_then (bounded_json c dir ManifestFile max_state_bytes e) (\<lambda>v.
           case v of
             JObject obj \<Rightarrow>
               (case nat_field u64_max obj ''schema_version'' of
                  None \<Rightarrow> Inl (Corrupt ''legacy schema is missing'')
                | Some schema \<Rightarrow>
                    if schema = current_schema then
                      Inl (Corrupt ''schema-v3 manifest is missing its commit watermark'')
                    else if schema \<noteq> 1 \<and> schema \<noteq> 2 then Inl (UnsupportedSchema (schema mod (u32_max + 1)))
                    else and_then (map_err (\<lambda>m. Corrupt (''legacy session: '' @ m)) (session_of_value c v))
                      (\<lambda>s. if session_id s \<noteq> ident then
                          Inl (Corrupt ''legacy session id does not match its directory'')
                        else and_then (validate_session s) (\<lambda>_.
                          Inr (Some (s\<lparr>schema_version := current_schema\<rparr>)))))
           | _ \<Rightarrow> Inl (Corrupt ''legacy schema is missing''))))"

lemma reads_entries [reads_intros]:
  "reads (reject_unsafe_file dir f) (\<lambda>d. safe_entry dir f (entry d f))"
  "reads (path_is_file dir f) (\<lambda>d. entry_is_file dir f (entry d f))"
  "reads (open_file dir f) (\<lambda>d. entry_bytes dir f (entry d f))"
proof -
  have step: "reads (seq (sys_call path) (\<lambda>_. seq (look (\<lambda>d. entry d f)) g)) (\<lambda>d. h (entry d f))"
    if "\<And>e. reads (g e) (\<lambda>_. h e)" for path and g :: "file_entry option \<Rightarrow> 'a program" and h
    by (rule reads_eq, (rule reads_intros that)+) simp
  show "reads (reject_unsafe_file dir f) (\<lambda>d. safe_entry dir f (entry d f))"
    unfolding reject_unsafe_file_def
    by (rule step) (auto simp: safe_entry_def intro: reads_intros split: option.splits file_entry.splits)
  show "reads (path_is_file dir f) (\<lambda>d. entry_is_file dir f (entry d f))"
    unfolding path_is_file_def
    by (rule step) (auto simp: entry_is_file_def intro: reads_intros split: option.splits file_entry.splits)
  show "reads (open_file dir f) (\<lambda>d. entry_bytes dir f (entry d f))"
    unfolding open_file_def
    by (rule step) (auto simp: entry_bytes_def intro: reads_intros split: option.splits file_entry.splits)
qed

lemma reads_json [reads_intros]:
  "reads (read_json_bounded c dir f limit) (\<lambda>d. bounded_json c dir f limit (entry d f))"
  unfolding read_json_bounded_def
  by (rule reads_eq, (rule reads_intros)+) (simp add: bounded_json_def cong: if_cong)

lemma reads_replay [reads_intros]:
  "reads (replay_committed c dir ident)
     (\<lambda>d. committed_of c dir ident (entry d WatermarkFile) (entry d EventsFile))"
  unfolding replay_committed_def
  by (rule reads_eq, (rule reads_intros)+)
    (auto simp: committed_of_def watermark_of_def log_state_def and_then_def split: sum.splits)

lemma reads_legacy [reads_intros]:
  "reads (load_legacy_optional c dir ident) (\<lambda>d. legacy_of c dir ident (entry d ManifestFile))"
proof -
  have obj: "reads (case v of JObject obj \<Rightarrow> p obj | _ \<Rightarrow> fail e) (\<lambda>d. case v of JObject obj \<Rightarrow> r obj d | _ \<Rightarrow> Inl e)"
    if "\<And>obj. reads (p obj) (r obj)" for v and p :: "(string \<times> json) list \<Rightarrow> 'a program" and r e
    using that by (cases v) (simp_all add: reads_intros)
  have opt: "reads (case v of None \<Rightarrow> fail e | Some a \<Rightarrow> p a) (\<lambda>d. case v of None \<Rightarrow> Inl e | Some a \<Rightarrow> r a d)"
    if "\<And>a. reads (p a) (r a)" for v and p :: "nat \<Rightarrow> 'a program" and r e
    using that by (cases v) (simp_all add: reads_intros)
  show ?thesis
    unfolding load_legacy_optional_def legacy_of_def
    by (rule reads_eq, (rule reads_intros obj opt)+) (auto simp: and_then_def split: sum.splits json.splits option.splits)
qed

definition load_of :: "codec \<Rightarrow> string \<Rightarrow> string \<Rightarrow> session_disk \<Rightarrow> session_error + session" where
  "load_of c root ident d =
     and_then (validate_session_id ident) (\<lambda>_.
     let dir = path_push root ident in
     case own_dir d of
       NoDir \<Rightarrow> Inl (SessionNotFound dir)
     | NotADir \<Rightarrow> Inl (Corrupt (''session path is not a real directory: '' @ dir))
     | RealDir \<Rightarrow>
         and_then (entry_is_file dir WatermarkFile (entry d WatermarkFile)) (\<lambda>committed.
           if committed then
             and_then (committed_of c dir ident (entry d WatermarkFile) (entry d EventsFile)) (\<lambda>r. Inr (fst r))
           else and_then (legacy_of c dir ident (entry d ManifestFile)) (\<lambda>s.
             case s of None \<Rightarrow> Inl (SessionNotFound ident) | Some s \<Rightarrow> Inr s)))"

lemma reads_directory [reads_intros]:
  "reads (ensure_existing_directory path which)
     (\<lambda>d. case which d of NoDir \<Rightarrow> Inl (SessionNotFound path) | RealDir \<Rightarrow> Inr ()
       | NotADir \<Rightarrow> Inl (Corrupt (''session path is not a real directory: '' @ path)))"
proof -
  have st: "reads (case s of NoDir \<Rightarrow> fail a | RealDir \<Rightarrow> give () | NotADir \<Rightarrow> fail b)
      (\<lambda>d. case s of NoDir \<Rightarrow> Inl a | RealDir \<Rightarrow> Inr () | NotADir \<Rightarrow> Inl b)" for s a b
    by (cases s) (simp_all add: reads_intros)
  show ?thesis
    unfolding ensure_existing_directory_def by (rule reads_eq, (rule reads_intros st)+) simp
qed

lemma reads_load: "reads (load_id c root ident) (load_of c root ident)"
proof -
  have opt: "reads (case v of None \<Rightarrow> fail e | Some a \<Rightarrow> give a) (\<lambda>d. case v of None \<Rightarrow> Inl e | Some a \<Rightarrow> Inr a)"
    for v :: "session option" and e by (cases v) (simp_all add: reads_intros)
  show ?thesis
    unfolding load_id_def load_legacy_def load_of_def Let_def
    by (rule reads_eq, (rule reads_intros opt)+)
      (auto simp: and_then_def split: sum.splits dir_state.splits)
qed

lemma load_entry_eq: "load_entry c root ident d = load_of c root ident d"
  by (simp add: load_entry_def reads_quiet [OF reads_load])

subsection \<open>Third-party code\<close>

text \<open>The values \<open>serde_json\<close> can hold: numbers of 64 bits, and objects without duplicate keys.\<close>

fun plain_json :: "json \<Rightarrow> bool" where
  "plain_json (JNumber n) \<longleftrightarrow> i64_min \<le> n \<and> n \<le> int u64_max"
| "plain_json (JArray vs) \<longleftrightarrow> list_all plain_json vs"
| "plain_json (JObject obj) \<longleftrightarrow> distinct (map fst obj) \<and> list_all (\<lambda>kv. plain_json (snd kv)) obj"
| "plain_json _ \<longleftrightarrow> True"

lemma plain_nat [simp]: "plain_json (json_nat n) \<longleftrightarrow> n \<le> u64_max"
  by (simp add: json_nat_def)

lemma sint_le_u64_max [simp]: "sint (a :: i64) \<le> int u64_max"
proof -
  have "sint a \<le> 9223372036854775807" by (rule i64_values(2))
  also have "\<dots> \<le> int u64_max" by (simp add: u64_max_def)
  finally show ?thesis .
qed

lemma plain_list: "(\<And>x. plain_json (f x)) \<Longrightarrow> list_all plain_json (map f xs)"
  by (simp add: list_all_iff)

lemma plain_some_field [simp]: "list_all (\<lambda>kv. plain_json (snd kv)) (some_field k v)"
  by (simp add: some_field_def split: option.split)

lemma plain_call: "plain_json (call_json c)"
  by (simp add: call_json_def)

lemma plain_message: "plain_json (message_json m)"
  by (simp add: message_json_def plain_list plain_call)

lemma plain_session: "schema_version s \<le> u64_max \<Longrightarrow> plain_json (session_json s)"
  by (simp add: session_json_def plain_list plain_message)

text \<open>
  The documented behaviour the store relies on: the compact JSON text of a value is not empty, holds
  no newline and parses back to the value; hexadecimal text of a digest and base64 text decode to
  what was encoded; a fresh identifier is 32 lower-case hexadecimal digits.
\<close>

definition codec_laws :: "codec \<Rightarrow> bool" where
  "codec_laws c \<longleftrightarrow>
     (\<forall>v. plain_json v \<longrightarrow> json_parse c (json_bytes c v) = Inr v)
     \<and> (\<forall>v. json_bytes c v \<noteq> [] \<and> CHR 0x0A \<notin> set (json_bytes c v))
     \<and> (\<forall>x. of_hex c (to_hex c (sha256 c x)) = Some (sha256 c x))
     \<and> (\<forall>x. of_base64 c (to_base64 c x) = Inr x)
     \<and> (\<forall>n. valid_identifier (fresh_identifier c n))"

lemma codec_simps:
  assumes "codec_laws c"
  shows "plain_json v \<Longrightarrow> json_parse c (json_bytes c v) = Inr v" "json_bytes c v \<noteq> []"
    "CHR 0x0A \<notin> set (json_bytes c v)" "of_hex c (to_hex c (sha256 c x)) = Some (sha256 c x)"
    "of_base64 c (to_base64 c x) = Inr x" "valid_identifier (fresh_identifier c n)"
  using assms by (simp_all add: codec_laws_def)

lemma session_bytes_parse:
  assumes "codec_laws c" and "validate_session s = Inr ()"
  shows "session_parse c (session_bytes c s) = Inr s"
proof -
  have "schema_version s \<le> u32_max" "schema_version s \<le> u64_max"
    using assms(2) by (auto simp: validate_session_iff current_schema_def u32_max_def u64_max_def)
  then show ?thesis
    using assms(1)
    by (simp add: session_parse_def session_bytes_def session_of_value_def codec_simps plain_session session_roundtrip)
qed

lemma plain_payloads:
  "length chunk \<le> raw_state_chunk_bytes \<Longrightarrow> index \<le> u64_max \<Longrightarrow> plain_json (chunk_payload c rid index chunk)"
  "n \<le> max_state_bytes \<Longrightarrow> k \<le> u64_max \<Longrightarrow> plain_json (replacement_json
     \<lparr>rep_id = rid, rep_encoded_bytes = n, rep_sha256 = h, rep_chunk_count = k\<rparr>)"
  by (simp_all add: chunk_payload_def chunk_json_def replacement_json_def raw_state_chunk_bytes_def
      max_state_bytes_def u64_max_def)

subsection \<open>Frames\<close>

definition framed :: "string \<Rightarrow> bool" where
  "framed f \<longleftrightarrow> f \<noteq> [] \<and> last f = CHR 0x0A \<and> CHR 0x0A \<notin> set (butlast f)"

lemma framed_append: "CHR 0x0A \<notin> set x \<Longrightarrow> framed (x @ [CHR 0x0A])"
  by (simp add: framed_def)

lemma frames_Nil [simp]: "frames [] = []"
  by (simp add: frames.simps)

lemma takeWhile_newline:
  "CHR 0x0A \<notin> set x \<Longrightarrow> takeWhile (\<lambda>b. b \<noteq> CHR 0x0A) (x @ CHR 0x0A # r) = x"
  by (induction x) auto

lemma frames_line: "CHR 0x0A \<notin> set x \<Longrightarrow> frames (x @ CHR 0x0A # r) = (x @ [CHR 0x0A]) # frames r"
  by (subst frames.simps) (simp add: takeWhile_newline Let_def)

lemma framedE: "framed f \<Longrightarrow> (\<And>x. f = x @ [CHR 0x0A] \<Longrightarrow> CHR 0x0A \<notin> set x \<Longrightarrow> thesis) \<Longrightarrow> thesis"
  unfolding framed_def by (metis append_butlast_last_id)

lemma frames_framed: "framed f \<Longrightarrow> frames (f @ rest) = f # frames rest"
  by (erule framedE) (simp add: frames_line)

lemma frames_concat: "list_all framed fs \<Longrightarrow> frames (concat fs @ rest) = fs @ frames rest"
  by (induction fs) (simp_all add: frames_framed)

lemma line_cases:
  obtains "bytes = []"
  | x r where "bytes = x @ CHR 0x0A # r" and "CHR 0x0A \<notin> set x"
  | "bytes \<noteq> []" and "CHR 0x0A \<notin> set bytes"
  by (metis split_list_first)

lemma frames_append:
  "bytes = [] \<or> last bytes = CHR 0x0A \<Longrightarrow> frames (bytes @ rest) = frames bytes @ frames rest"
proof (induction bytes rule: length_induct)
  case (1 bytes)
  show ?case
  proof (cases bytes rule: line_cases)
    case (2 x r)
    have "r = [] \<or> last r = CHR 0x0A" using "1.prems" 2(1) by (auto split: if_splits)
    moreover have "length r < length bytes" using 2(1) by simp
    ultimately have "frames (r @ rest) = frames r @ frames rest" using "1.IH" by blast
    then show ?thesis by (simp add: 2 frames_line)
  next
    case 3
    with "1.prems" show ?thesis by (metis last_in_set)
  qed simp
qed

lemma replay_frames_append:
  "replay_frames c g (xs @ ys) cur = and_then (replay_frames c g xs cur) (replay_frames c g ys)"
proof (induction xs arbitrary: cur)
  case (Cons x xs)
  then show ?case by (cases "replay_frame c g x cur") simp_all
qed simp

text \<open>A committed prefix that replays ends with a newline.\<close>

lemma takeWhile_no_newline: "CHR 0x0A \<notin> set x \<Longrightarrow> takeWhile (\<lambda>b. b \<noteq> CHR 0x0A) x = x"
  by (induction x) auto

lemma frames_no_newline:
  assumes "bytes \<noteq> []" and "CHR 0x0A \<notin> set bytes"
  shows "frames bytes = [bytes]"
  using assms(1) by (subst frames.simps) (simp add: Let_def takeWhile_no_newline [OF assms(2)])

lemma replayed_newline:
  "replay_frames c g (frames bytes) cur = Inr cur' \<Longrightarrow> bytes = [] \<or> last bytes = CHR 0x0A"
proof (induction bytes arbitrary: cur rule: length_induct)
  case (1 bytes)
  show ?case
  proof (cases bytes rule: line_cases)
    case (2 x r)
    then obtain cur1 where "replay_frames c g (frames r) cur1 = Inr cur'"
      using "1.prems" by (auto simp: frames_line and_then_Inr_iff)
    moreover have "length r < length bytes" using 2(1) by simp
    ultimately have "r = [] \<or> last r = CHR 0x0A" using "1.IH" by blast
    with 2(1) show ?thesis by auto
  next
    case 3
    with "1.prems" show ?thesis
      by (auto simp: frames_no_newline and_then_Inr_iff replay_frame_def split: if_splits)
  qed simp
qed

subsection \<open>Replaying what was written\<close>

lemma watermark_roundtrip:
  "wm_schema_version w \<le> u32_max \<Longrightarrow> wm_last_event_seq w \<le> u64_max \<Longrightarrow> wm_event_log_bytes w \<le> u64_max \<Longrightarrow>
     watermark_of_json (watermark_json w) = Some w"
  by (simp add: watermark_of_json_def watermark_json_def struct_fields_def)

lemma envelope_roundtrip:
  "env_schema_version e \<le> u32_max \<Longrightarrow> env_seq e \<le> u64_max \<Longrightarrow> i64_min \<le> env_timestamp_ms e \<Longrightarrow>
     env_timestamp_ms e \<le> i64_max \<Longrightarrow> envelope_of_json (envelope_json e) = Some e"
  by (simp add: envelope_of_json_def envelope_json_def struct_fields_def)

lemma replacement_roundtrip:
  "rep_encoded_bytes r \<le> u64_max \<Longrightarrow> rep_chunk_count r \<le> u64_max \<Longrightarrow>
     replacement_of_json (replacement_json r) = Some r"
  by (simp add: replacement_of_json_def replacement_json_def struct_fields_def)

lemma chunk_roundtrip:
  "ch_index r \<le> u64_max \<Longrightarrow> ch_raw_bytes r \<le> u64_max \<Longrightarrow> chunk_of_json (chunk_json r) = Some r"
  by (simp add: chunk_of_json_def chunk_json_def struct_fields_def)

lemma event_frame_framed: "codec_laws c \<Longrightarrow> framed (event_frame c h payload)"
  unfolding event_frame_def by (intro framed_append codec_simps(3))

lemma replay_event_frame:
  assumes "codec_laws c" and "length (event_frame c h payload) \<le> event_frame_max_bytes"
    and "eh_generation h = g" and "eh_seq h = next_seq cur" and "next_seq cur + 1 \<le> u64_max"
    and "valid_identifier (eh_event_id h)" and "0 \<le> eh_timestamp_ms h" and "eh_timestamp_ms h \<le> i64_max"
    and "plain_json payload"
  shows "replay_frame c g (event_frame c h payload) cur =
    and_then (apply_event c (eh_kind h) payload (replayed cur)) (\<lambda>st.
      Inr \<lparr>next_seq = next_seq cur + 1, last_seen_event_id = eh_event_id h, replayed = st\<rparr>)"
proof -
  let ?e = "\<lparr>env_schema_version = event_schema_version, env_log_generation = eh_generation h,
        env_seq = eh_seq h, env_event_id = eh_event_id h, env_timestamp_ms = eh_timestamp_ms h,
        env_kind = eh_kind h, env_payload = payload\<rparr>"
  have f: "event_frame c h payload = json_bytes c (envelope_json ?e) @ [CHR 0x0A]"
    by (simp add: event_frame_def)
  have "envelope_of_json (envelope_json ?e) = Some ?e"
    using assms(4,5,7,8) by (intro envelope_roundtrip) (simp_all add: event_schema_version_def u32_max_def)
  moreover have "plain_json (envelope_json ?e)"
    using assms(4,5,7-9) by (simp add: envelope_json_def event_schema_version_def u64_max_def)
  ultimately show ?thesis
    using assms codec_simps(1) [OF assms(1)]
    by (simp add: replay_frame_def f shaped_def)
qed

lemma chunks_concat: "0 < n \<Longrightarrow> concat (chunks n xs) = xs"
  by (induction n xs rule: chunks.induct) (subst chunks.simps, simp)

lemma chunks_sizes: "list_all (\<lambda>x. x \<noteq> [] \<and> length x \<le> n) (chunks n xs)"
proof (induction n xs rule: chunks.induct)
  case (1 n xs)
  then show ?case by (subst chunks.simps) (auto simp: not_le)
qed

lemma length_chunks: "0 < n \<Longrightarrow> length (chunks n xs) = div_ceil (length xs) n"
proof (induction n xs rule: chunks.induct)
  case (1 n xs)
  show ?case
  proof (cases "xs = []")
    case True
    then show ?thesis using 1(2) by (subst chunks.simps) (simp add: div_ceil_def)
  next
    case False
    have ih: "length (chunks n (drop n xs)) = div_ceil (length xs - n) n" using 1 False by simp
    have "length (chunks n xs) = Suc (length (chunks n (drop n xs)))"
      using False 1(2) by (subst chunks.simps) simp
    also have "\<dots> = div_ceil (length xs) n"
    proof (cases "length xs \<le> n")
      case True
      moreover have "length xs + n - 1 = (length xs - 1) + n" and "length xs - 1 < n"
        using False True 1(2) by (cases xs, simp_all)+
      then have "(length xs + n - 1) div n = 1" using 1(2) by (metis div_add_self2 div_less add_0 less_not_refl)
      ultimately show ?thesis using ih 1(2) by (simp add: div_ceil_def)
    next
      case f: False
      have "length xs + n - 1 = (length xs - n + n - 1) + n" using f 1(2) by simp
      then have "(length xs + n - 1) div n = (length xs - n + n - 1) div n + 1"
        using 1(2) by (metis div_add_self2 less_numeral_extra(3))
      then show ?thesis using ih by (simp add: div_ceil_def)
    qed
    finally show ?thesis .
  qed
qed

lemma append_log_Inr:
  "append_log frame io = (Inr u, io') \<Longrightarrow>
     disk io' = set_log (log_bytes (disk io) @ frame) (disk io)
     \<and> length (log_bytes (disk io)) + length frame \<le> max_file_bytes"
  by (auto simp: append_log_def dest: next_fault_disk split: prod.splits io_fault.splits if_splits)

lemma log_bytes_set_log [simp]: "log_bytes (set_log b d) = b"
  by (simp add: log_bytes_def set_log_def set_entry_def)

lemma set_log_simps [simp]:
  "set_log b (set_log a d) = set_log b d"
  "entry (set_log b d) f = (if f = EventsFile then Some (Regular b) else entry d f)"
  "own_dir (set_log b d) = own_dir d" "root_dir (set_log b d) = root_dir d"
  by (simp_all add: set_log_def set_entry_def)

lemma set_log_same: "entry d EventsFile = Some (Regular b) \<Longrightarrow> set_log b d = d"
  by (simp add: set_log_def set_entry_def fun_upd_idem)

lemma write_event_Inr:
  "write_event c hash h payload io = (Inr hash', io') \<Longrightarrow>
     hash' = hash @ event_frame c h payload
     \<and> length (event_frame c h payload) \<le> event_frame_max_bytes
     \<and> disk io' = set_log (log_bytes (disk io) @ event_frame c h payload) (disk io)
     \<and> length (log_bytes (disk io)) + length (event_frame c h payload) \<le> max_file_bytes"
  by (auto simp: write_event_def Let_def seq_Inr program_simps dest: append_log_Inr split: if_splits)

lemma new_identifier_Inr:
  "new_identifier c io = (Inr i, io') \<Longrightarrow> i = fresh_identifier c (fresh_count io) \<and> disk io' = disk io"
  by (auto simp: new_identifier_def)

lemma next_seq_number_Inr: "next_seq_number n = Inr m \<Longrightarrow> m = n + 1 \<and> n + 1 \<le> u64_max"
  by (simp add: next_seq_number_def split: if_splits)

lemma replay_chunk_written:
  assumes "codec_laws c" and "chunk \<noteq> []" and "length chunk \<le> raw_state_chunk_bytes"
    and "pen_id p = rid" and "pen_next_chunk p = index" and "index < pen_chunk_count p"
    and "pen_chunk_count p \<le> u64_max"
    and "length (pen_chunks p) + length chunk \<le> pen_encoded_bytes p"
  shows "apply_event c ''state_replacement_chunk'' (chunk_payload c rid index chunk) (Some p, prev) =
    Inr (Some (p\<lparr>pen_chunks := pen_chunks p @ chunk, pen_next_chunk := index + 1\<rparr>), prev)"
proof -
  have "length chunk \<le> u64_max" using assms(3) by (simp add: raw_state_chunk_bytes_def u64_max_def)
  then have "chunk_of_json (chunk_payload c rid index chunk) =
      Some \<lparr>ch_replacement_id = rid, ch_index = index, ch_raw_bytes = length chunk,
       ch_sha256 = to_hex c (sha256 c chunk), ch_bytes = to_base64 c chunk\<rparr>"
    unfolding chunk_payload_def using assms(6,7) by (intro chunk_roundtrip) simp_all
  moreover have "sat_add (length (pen_chunks p)) (length chunk) \<le> pen_encoded_bytes p"
    using sat_add_le assms(8) by (rule order.trans)
  ultimately show ?thesis
    using assms codec_simps [OF assms(1)]
    by (simp add: apply_event_def replay_chunk_def shaped_def decode_digest_def)
qed

lemma write_chunks_Inr:
  assumes c: "codec_laws c" and ts: "0 \<le> ts" "ts \<le> i64_max"
  shows "write_chunks c g ts rid index parts n hash io = (Inr (n', hash'), io') \<Longrightarrow>
    entry (disk io) EventsFile = Some (Regular L) \<Longrightarrow>
    list_all (\<lambda>x. x \<noteq> [] \<and> length x \<le> raw_state_chunk_bytes) parts \<Longrightarrow> n + length parts + 1 \<le> u64_max \<Longrightarrow>
    n' = n + length parts \<and> (\<exists>fs. list_all framed fs \<and> hash' = hash @ concat fs
      \<and> disk io' = set_log (L @ concat fs) (disk io)
      \<and> (\<forall>p prev last. pen_id p = rid \<and> pen_next_chunk p = index
           \<and> index + length parts \<le> pen_chunk_count p \<and> pen_chunk_count p \<le> u64_max
           \<and> length (pen_chunks p) + length (concat parts) \<le> pen_encoded_bytes p \<longrightarrow>
           (\<exists>last'. replay_frames c g fs \<lparr>next_seq = n + 1, last_seen_event_id = last, replayed = (Some p, prev)\<rparr> =
              Inr \<lparr>next_seq = n' + 1, last_seen_event_id = last',
                replayed = (Some (p\<lparr>pen_chunks := pen_chunks p @ concat parts,
                  pen_next_chunk := index + length parts\<rparr>), prev)\<rparr>)))"
proof (induction parts arbitrary: index n hash io L)
  case Nil
  then show ?case
    by (intro conjI exI [of _ "[] :: string list"]) (auto simp: program_simps set_log_same)
next
  case (Cons chunk parts)
  let ?n = "n + 1"
  from Cons.prems(1) obtain m io1 eid io2 hash1 io3 where m: "lift (next_seq_number n) io = (Inr m, io1)"
    and eid: "new_identifier c io1 = (Inr eid, io2)"
    and we: "write_event c hash \<lparr>eh_generation = g, eh_seq = m, eh_event_id = eid, eh_timestamp_ms = ts,
          eh_kind = ''state_replacement_chunk''\<rparr> (chunk_payload c rid index chunk) io2 = (Inr hash1, io3)"
    and rest: "write_chunks c g ts rid (index + 1) parts m hash1 io3 = (Inr (n', hash'), io')"
    by (auto simp: seq_Inr)
  have m': "m = ?n" "io1 = io" using m by (auto simp: program_simps dest: next_seq_number_Inr)
  have e': "valid_identifier eid" "disk io2 = disk io"
    using new_identifier_Inr [OF eid] codec_simps(6) [OF c] m' by simp_all
  let ?f = "event_frame c \<lparr>eh_generation = g, eh_seq = m, eh_event_id = eid, eh_timestamp_ms = ts,
          eh_kind = ''state_replacement_chunk''\<rparr> (chunk_payload c rid index chunk)"
  have L: "log_bytes (disk io) = L" using Cons.prems(2) by (simp add: log_bytes_def)
  note w = write_event_Inr [OF we]
  have h1: "hash1 = hash @ ?f" and d3: "disk io3 = set_log (L @ ?f) (disk io)"
    and sz: "length ?f \<le> event_frame_max_bytes" using w e' L by simp_all
  have "n' = m + length parts \<and> (\<exists>fs. list_all framed fs \<and> hash' = hash1 @ concat fs
      \<and> disk io' = set_log ((L @ ?f) @ concat fs) (disk io3)
      \<and> (\<forall>p prev last. pen_id p = rid \<and> pen_next_chunk p = index + 1
           \<and> index + 1 + length parts \<le> pen_chunk_count p \<and> pen_chunk_count p \<le> u64_max
           \<and> length (pen_chunks p) + length (concat parts) \<le> pen_encoded_bytes p \<longrightarrow>
           (\<exists>last'. replay_frames c g fs \<lparr>next_seq = m + 1, last_seen_event_id = last, replayed = (Some p, prev)\<rparr> =
              Inr \<lparr>next_seq = n' + 1, last_seen_event_id = last',
                replayed = (Some (p\<lparr>pen_chunks := pen_chunks p @ concat parts,
                  pen_next_chunk := index + 1 + length parts\<rparr>), prev)\<rparr>)))"
    using Cons.prems(3,4) d3 m' by (intro Cons.IH [OF rest]) simp_all
  then obtain fs where n': "n' = m + length parts" and fs: "list_all framed fs" "hash' = hash1 @ concat fs"
      "disk io' = set_log ((L @ ?f) @ concat fs) (disk io3)"
    and rp: "\<And>p prev last. pen_id p = rid \<Longrightarrow> pen_next_chunk p = index + 1 \<Longrightarrow>
           index + 1 + length parts \<le> pen_chunk_count p \<Longrightarrow> pen_chunk_count p \<le> u64_max \<Longrightarrow>
           length (pen_chunks p) + length (concat parts) \<le> pen_encoded_bytes p \<Longrightarrow>
           \<exists>last'. replay_frames c g fs \<lparr>next_seq = m + 1, last_seen_event_id = last, replayed = (Some p, prev)\<rparr> =
              Inr \<lparr>next_seq = n' + 1, last_seen_event_id = last',
                replayed = (Some (p\<lparr>pen_chunks := pen_chunks p @ concat parts,
                  pen_next_chunk := index + 1 + length parts\<rparr>), prev)\<rparr>"
    by blast
  have "\<exists>last'. replay_frames c g (?f # fs)
        \<lparr>next_seq = n + 1, last_seen_event_id = last, replayed = (Some p, prev)\<rparr> =
      Inr \<lparr>next_seq = n' + 1, last_seen_event_id = last',
        replayed = (Some (p\<lparr>pen_chunks := pen_chunks p @ concat (chunk # parts),
          pen_next_chunk := index + length (chunk # parts)\<rparr>), prev)\<rparr>"
    if p: "pen_id p = rid" "pen_next_chunk p = index" "index + length (chunk # parts) \<le> pen_chunk_count p"
      "pen_chunk_count p \<le> u64_max" "length (pen_chunks p) + length (concat (chunk # parts)) \<le> pen_encoded_bytes p"
    for p prev last
  proof -
    let ?p = "p\<lparr>pen_chunks := pen_chunks p @ chunk, pen_next_chunk := index + 1\<rparr>"
    have ap: "apply_event c ''state_replacement_chunk'' (chunk_payload c rid index chunk) (Some p, prev)
        = Inr (Some ?p, prev)"
      using p Cons.prems(3) by (intro replay_chunk_written [OF c]) simp_all
    have "replay_frame c g ?f \<lparr>next_seq = n + 1, last_seen_event_id = last, replayed = (Some p, prev)\<rparr> =
        Inr \<lparr>next_seq = m + 1, last_seen_event_id = eid, replayed = (Some ?p, prev)\<rparr>"
      using replay_event_frame [OF c sz, of g "\<lparr>next_seq = n + 1, last_seen_event_id = last, replayed = (Some p, prev)\<rparr>"]
        Cons.prems(3,4) m' e' ts ap p plain_payloads(1) [of chunk index c rid] by simp
    then show ?thesis using rp [where p = ?p and prev = prev and last = eid] p by simp
  qed
  moreover have "list_all framed (?f # fs)" using fs(1) event_frame_framed [OF c] by simp
  moreover have "hash' = hash @ concat (?f # fs)" using fs(2) h1 by simp
  moreover have "disk io' = set_log (L @ concat (?f # fs)) (disk io)" using fs(3) d3 by simp
  moreover have "n' = n + length (chunk # parts)" using n' m' by simp
  ultimately show ?case by blast
qed

text \<open>The three kinds of events of a replacement, replayed.\<close>

lemma replay_started_written:
  assumes "codec_laws c" and "encoded \<noteq> []" and "length encoded \<le> max_state_bytes" and "valid_identifier rid"
  shows "apply_event c ''state_replacement_started''
      (replacement_json \<lparr>rep_id = rid, rep_encoded_bytes = length encoded, rep_sha256 = to_hex c (sha256 c encoded),
         rep_chunk_count = div_ceil (length encoded) raw_state_chunk_bytes\<rparr>) (None, prev) =
    Inr (Some \<lparr>pen_id = rid, pen_encoded_bytes = length encoded, pen_sha256 = sha256 c encoded,
        pen_chunk_count = div_ceil (length encoded) raw_state_chunk_bytes, pen_chunks = [],
        pen_next_chunk = 0\<rparr>, prev)"
    and "div_ceil (length encoded) raw_state_chunk_bytes \<le> 64"
proof -
  have "length encoded + raw_state_chunk_bytes - 1 \<le> 64 * raw_state_chunk_bytes + (raw_state_chunk_bytes - 1)"
    using assms(3) by (simp add: max_state_bytes_def raw_state_chunk_bytes_def)
  then have "(length encoded + raw_state_chunk_bytes - 1) div raw_state_chunk_bytes \<le>
      (64 * raw_state_chunk_bytes + (raw_state_chunk_bytes - 1)) div raw_state_chunk_bytes" by (rule div_le_mono)
  then show n: "div_ceil (length encoded) raw_state_chunk_bytes \<le> 64"
    by (simp add: div_ceil_def raw_state_chunk_bytes_def)
  have "length encoded \<le> u64_max" using assms(3) by (simp add: max_state_bytes_def u64_max_def)
  then have "replacement_of_json (replacement_json \<lparr>rep_id = rid, rep_encoded_bytes = length encoded,
        rep_sha256 = to_hex c (sha256 c encoded),
        rep_chunk_count = div_ceil (length encoded) raw_state_chunk_bytes\<rparr>) =
      Some \<lparr>rep_id = rid, rep_encoded_bytes = length encoded, rep_sha256 = to_hex c (sha256 c encoded),
        rep_chunk_count = div_ceil (length encoded) raw_state_chunk_bytes\<rparr>"
    using n by (intro replacement_roundtrip) (simp_all add: u64_max_def)
  then show "apply_event c ''state_replacement_started''
      (replacement_json \<lparr>rep_id = rid, rep_encoded_bytes = length encoded, rep_sha256 = to_hex c (sha256 c encoded),
         rep_chunk_count = div_ceil (length encoded) raw_state_chunk_bytes\<rparr>) (None, prev) =
    Inr (Some \<lparr>pen_id = rid, pen_encoded_bytes = length encoded, pen_sha256 = sha256 c encoded,
        pen_chunk_count = div_ceil (length encoded) raw_state_chunk_bytes, pen_chunks = [],
        pen_next_chunk = 0\<rparr>, prev)"
    using assms codec_simps [OF assms(1)]
    by (simp add: apply_event_def replay_started_def shaped_def checked_identifier_def decode_digest_def)
qed

lemma replay_committed_written:
  assumes "codec_laws c" and "length (session_bytes c s) \<le> max_state_bytes" and "validate_session s = Inr ()"
    and "n \<le> 64"
  shows "apply_event c ''state_replacement_committed''
      (replacement_json \<lparr>rep_id = rid, rep_encoded_bytes = length (session_bytes c s),
         rep_sha256 = to_hex c (sha256 c (session_bytes c s)), rep_chunk_count = n\<rparr>)
      (Some \<lparr>pen_id = rid, pen_encoded_bytes = length (session_bytes c s), pen_sha256 = sha256 c (session_bytes c s),
        pen_chunk_count = n, pen_chunks = session_bytes c s, pen_next_chunk = n\<rparr>, prev) =
    Inr (None, Some s)"
proof -
  have "length (session_bytes c s) \<le> u64_max" using assms(2) by (simp add: max_state_bytes_def u64_max_def)
  then have "replacement_of_json (replacement_json \<lparr>rep_id = rid, rep_encoded_bytes = length (session_bytes c s),
         rep_sha256 = to_hex c (sha256 c (session_bytes c s)), rep_chunk_count = n\<rparr>) =
      Some \<lparr>rep_id = rid, rep_encoded_bytes = length (session_bytes c s),
         rep_sha256 = to_hex c (sha256 c (session_bytes c s)), rep_chunk_count = n\<rparr>"
    using assms(4) by (intro replacement_roundtrip) (simp_all add: u64_max_def)
  then show ?thesis
    using assms codec_simps [OF assms(1)]
    by (simp add: apply_event_def replay_committed_event_def shaped_def decode_digest_def session_bytes_parse)
qed

lemma write_replacement_Inr:
  assumes c: "codec_laws c"
    and run: "write_replacement c g s (session_bytes c s) first dir L io = (Inr w, io')"
    and L: "entry (disk io) EventsFile = Some (Regular L)"
    and enc: "session_bytes c s \<noteq> []" "length (session_bytes c s) \<le> max_state_bytes"
    and v: "validate_session s = Inr ()" and room: "first + 66 \<le> u64_max"
  shows "\<exists>fs. list_all framed fs \<and> disk io' = set_log (L @ concat fs) (disk io)
    \<and> replay_frames c g fs \<lparr>next_seq = first, last_seen_event_id = seen, replayed = (None, prev)\<rparr> =
        Inr \<lparr>next_seq = wm_last_event_seq w + 1, last_seen_event_id = wm_last_event_id w, replayed = (None, Some s)\<rparr>
    \<and> wm_schema_version w = watermark_schema_version \<and> wm_session_id w = session_id s
    \<and> wm_log_generation w = g \<and> wm_event_log_bytes w = length (L @ concat fs)
    \<and> wm_event_log_sha256 w = to_hex c (sha256 c (L @ concat fs)) \<and> valid_identifier (wm_last_event_id w)
    \<and> first < wm_last_event_seq w \<and> wm_last_event_seq w \<le> u64_max
    \<and> wm_event_log_bytes w \<le> max_file_bytes \<and> wm_event_log_bytes w \<noteq> 0"
proof -
  let ?enc = "session_bytes c s"
  let ?ts = "sint (updated_at_ms s)"
  let ?N = "div_ceil (length ?enc) raw_state_chunk_bytes"
  let ?parts = "chunks raw_state_chunk_bytes ?enc"
  from run obtain rid io1 e1 io2 h1 io3 n h2 io4 m io5 e2 io6 h3 io7 io8 io9 where
    rid: "new_identifier c io = (Inr rid, io1)" and e1: "new_identifier c io1 = (Inr e1, io2)"
    and w1: "write_event c L \<lparr>eh_generation = g, eh_seq = first, eh_event_id = e1, eh_timestamp_ms = ?ts,
           eh_kind = ''state_replacement_started''\<rparr> (replacement_json \<lparr>rep_id = rid,
             rep_encoded_bytes = length ?enc, rep_sha256 = to_hex c (sha256 c ?enc), rep_chunk_count = ?N\<rparr>) io2
         = (Inr h1, io3)"
    and wc: "write_chunks c g ?ts rid 0 ?parts first h1 io3 = (Inr (n, h2), io4)"
    and m: "next_seq_number n = Inr m" "io5 = io4" and e2: "new_identifier c io5 = (Inr e2, io6)"
    and w2: "write_event c h2 \<lparr>eh_generation = g, eh_seq = m, eh_event_id = e2, eh_timestamp_ms = ?ts,
           eh_kind = ''state_replacement_committed''\<rparr> (replacement_json \<lparr>rep_id = rid,
             rep_encoded_bytes = length ?enc, rep_sha256 = to_hex c (sha256 c ?enc), rep_chunk_count = ?N\<rparr>) io6
         = (Inr h3, io7)"
    and s8: "sys_call (file_path dir EventsFile) io7 = (Inr (), io8)"
    and s9: "sys_call (file_path dir EventsFile) io8 = (Inr (), io9)"
    and w: "w = \<lparr>wm_schema_version = watermark_schema_version, wm_session_id = session_id s,
          wm_log_generation = g, wm_last_event_seq = m, wm_last_event_id = e2,
          wm_event_log_bytes = length (log_bytes (disk io9)), wm_event_log_sha256 = to_hex c (sha256 c h3)\<rparr>"
    and io': "io' = io9"
    by (auto simp: write_replacement_def Let_def seq_Inr program_simps)
  let ?sum = "replacement_json \<lparr>rep_id = rid, rep_encoded_bytes = length ?enc,
    rep_sha256 = to_hex c (sha256 c ?enc), rep_chunk_count = ?N\<rparr>"
  let ?f1 = "event_frame c \<lparr>eh_generation = g, eh_seq = first, eh_event_id = e1, eh_timestamp_ms = ?ts,
           eh_kind = ''state_replacement_started''\<rparr> ?sum"
  let ?f2 = "event_frame c \<lparr>eh_generation = g, eh_seq = m, eh_event_id = e2, eh_timestamp_ms = ?ts,
           eh_kind = ''state_replacement_committed''\<rparr> ?sum"
  have ids: "valid_identifier rid" "valid_identifier e1" "valid_identifier e2"
    using new_identifier_Inr [OF rid] new_identifier_Inr [OF e1] new_identifier_Inr [OF e2] codec_simps(6) [OF c]
    by simp_all
  have d2: "disk io2 = disk io" "disk io6 = disk io4"
    using new_identifier_Inr [OF rid] new_identifier_Inr [OF e1] new_identifier_Inr [OF e2] m(2) by simp_all
  have lb: "log_bytes (disk io) = L" using L by (simp add: log_bytes_def)
  have ts: "0 \<le> ?ts" "?ts \<le> i64_max"
    using v sint_i64_range(2) [of "updated_at_ms s"] by (simp_all add: validate_session_iff)
  have N: "?N \<le> 64" by (rule replay_started_written(2) [OF c enc ids(1)])
  have pl: "length ?parts = ?N" by (rule length_chunks) (simp add: raw_state_chunk_bytes_def)
  have pc: "concat ?parts = ?enc" by (rule chunks_concat) (simp add: raw_state_chunk_bytes_def)
  note W1 = write_event_Inr [OF w1] and W2 = write_event_Inr [OF w2]
  have d3: "disk io3 = set_log (L @ ?f1) (disk io)" and h1: "h1 = L @ ?f1" using W1 d2 lb by simp_all
  have "n = first + length ?parts \<and> (\<exists>fs. list_all framed fs \<and> h2 = h1 @ concat fs
      \<and> disk io4 = set_log ((L @ ?f1) @ concat fs) (disk io3)
      \<and> (\<forall>p prev last. pen_id p = rid \<and> pen_next_chunk p = 0
           \<and> 0 + length ?parts \<le> pen_chunk_count p \<and> pen_chunk_count p \<le> u64_max
           \<and> length (pen_chunks p) + length (concat ?parts) \<le> pen_encoded_bytes p \<longrightarrow>
           (\<exists>last'. replay_frames c g fs \<lparr>next_seq = first + 1, last_seen_event_id = last, replayed = (Some p, prev)\<rparr> =
              Inr \<lparr>next_seq = n + 1, last_seen_event_id = last',
                replayed = (Some (p\<lparr>pen_chunks := pen_chunks p @ concat ?parts,
                  pen_next_chunk := 0 + length ?parts\<rparr>), prev)\<rparr>)))"
    using room N pl d3 chunks_sizes [of raw_state_chunk_bytes ?enc]
    by (intro write_chunks_Inr [OF c ts wc]) simp_all
  then obtain fs where n: "n = first + ?N" and fs: "list_all framed fs" "h2 = h1 @ concat fs"
      "disk io4 = set_log (L @ ?f1 @ concat fs) (disk io)"
    and rp: "\<And>p prev last. pen_id p = rid \<Longrightarrow> pen_next_chunk p = 0 \<Longrightarrow> ?N \<le> pen_chunk_count p \<Longrightarrow>
        pen_chunk_count p \<le> u64_max \<Longrightarrow> length (pen_chunks p) + length ?enc \<le> pen_encoded_bytes p \<Longrightarrow>
        \<exists>last'. replay_frames c g fs \<lparr>next_seq = first + 1, last_seen_event_id = last, replayed = (Some p, prev)\<rparr> =
              Inr \<lparr>next_seq = n + 1, last_seen_event_id = last',
                replayed = (Some (p\<lparr>pen_chunks := pen_chunks p @ ?enc, pen_next_chunk := ?N\<rparr>), prev)\<rparr>"
    unfolding pl pc using d3 by auto
  have mm: "m = n + 1" using next_seq_number_Inr [OF m(1)] by simp
  let ?p0 = "\<lparr>pen_id = rid, pen_encoded_bytes = length ?enc, pen_sha256 = sha256 c ?enc,
        pen_chunk_count = ?N, pen_chunks = [], pen_next_chunk = 0\<rparr>"
  have pj: "plain_json ?sum" using enc(2) N by (intro plain_payloads(2)) (simp_all add: u64_max_def)
  have r1: "replay_frame c g ?f1 \<lparr>next_seq = first, last_seen_event_id = seen, replayed = (None, prev)\<rparr> =
      Inr \<lparr>next_seq = first + 1, last_seen_event_id = e1, replayed = (Some ?p0, prev)\<rparr>"
    using replay_event_frame [OF c, of "\<lparr>eh_generation = g, eh_seq = first, eh_event_id = e1, eh_timestamp_ms = ?ts,
           eh_kind = ''state_replacement_started''\<rparr>" ?sum g
           "\<lparr>next_seq = first, last_seen_event_id = seen, replayed = (None, prev)\<rparr>"] W1 room ids ts pj
      replay_started_written(1) [OF c enc ids(1), of prev] by simp
  obtain last' where r2: "replay_frames c g fs \<lparr>next_seq = first + 1, last_seen_event_id = e1, replayed = (Some ?p0, prev)\<rparr> =
      Inr \<lparr>next_seq = n + 1, last_seen_event_id = last',
        replayed = (Some (?p0\<lparr>pen_chunks := ?enc, pen_next_chunk := ?N\<rparr>), prev)\<rparr>"
    using rp [where p = ?p0 and prev = prev and last = e1] N by (auto simp: u64_max_def)
  have r3: "replay_frame c g ?f2 \<lparr>next_seq = n + 1, last_seen_event_id = last',
        replayed = (Some (?p0\<lparr>pen_chunks := ?enc, pen_next_chunk := ?N\<rparr>), prev)\<rparr> =
      Inr \<lparr>next_seq = m + 1, last_seen_event_id = e2, replayed = (None, Some s)\<rparr>"
    using replay_event_frame [OF c, of "\<lparr>eh_generation = g, eh_seq = m, eh_event_id = e2, eh_timestamp_ms = ?ts,
           eh_kind = ''state_replacement_committed''\<rparr>" ?sum g
           "\<lparr>next_seq = n + 1, last_seen_event_id = last',
             replayed = (Some (?p0\<lparr>pen_chunks := ?enc, pen_next_chunk := ?N\<rparr>), prev)\<rparr>"]
      W2 room ids ts n N mm pj replay_committed_written [OF c enc(2) v N, of rid prev] by simp
  have d7: "disk io7 = set_log (L @ concat (?f1 # fs @ [?f2])) (disk io)"
    and h3: "h3 = L @ concat (?f1 # fs @ [?f2])"
    and sz: "length (L @ concat (?f1 # fs @ [?f2])) \<le> max_file_bytes"
    using W2 d2 fs h1 by simp_all
  have d9: "disk io9 = disk io7"
    using sys_call_disk [of "file_path dir EventsFile" io7] sys_call_disk [of "file_path dir EventsFile" io8] s8 s9
    by simp
  have rr: "replay_frames c g (?f1 # fs @ [?f2]) \<lparr>next_seq = first, last_seen_event_id = seen, replayed = (None, prev)\<rparr> =
        Inr \<lparr>next_seq = m + 1, last_seen_event_id = e2, replayed = (None, Some s)\<rparr>"
    by (simp only: replay_frames.simps r1 replay_frames_append r2 r3 and_then_simps)
  have fr: "list_all framed (?f1 # fs @ [?f2])" using fs(1) event_frame_framed [OF c] by simp
  have ne: "?f1 \<noteq> []" by (simp add: event_frame_def)
  show ?thesis
    apply (rule exI [of _ "?f1 # fs @ [?f2]"])
    using rr fr d7 d9 sz ids(3) next_seq_number_Inr [OF m(1)] n ne
    by (simp add: w io' h3)
qed

end
