(* ===== verification/Session_Codec.thy ===== *)
theory Session_Codec
  imports Session_Durability
begin

section \<open>A codec with the laws\<close>

text \<open>
  A concrete \<open>codec\<close> that satisfies \<open>codec_laws\<close>, for the witnesses: a compact text of JSON values
  with a parser, hexadecimal text, and constant digests and identifiers. It is not the text of
  \<open>serde_json\<close>, only one with its laws.
\<close>

subsection \<open>Hexadecimal text\<close>

definition hex_char :: "nat \<Rightarrow> char" where
  "hex_char n = char_of (if n < 10 then 48 + n else 87 + n)"

definition hex_value :: "char \<Rightarrow> nat" where
  "hex_value c = (if byte_of c < 58 then byte_of c - 48 else byte_of c - 87)"

fun hex_text :: "string \<Rightarrow> string" where
  "hex_text [] = []"
| "hex_text (c # s) = hex_char (byte_of c div 16) # hex_char (byte_of c mod 16) # hex_text s"

fun hex_parse :: "string \<Rightarrow> string option" where
  "hex_parse [] = Some []"
| "hex_parse [c] = None"
| "hex_parse (c # d # s) =
     map_option (\<lambda>r. char_of (16 * hex_value c + hex_value d) # r) (hex_parse s)"

lemma hex_value_char: "n < 16 \<Longrightarrow> hex_value (hex_char n) = n"
  by (auto simp: hex_value_def hex_char_def byte_of_def)

lemma byte_of_halves: "byte_of c div 16 < 16" "byte_of c mod 16 < 16" "char_of (byte_of c) = c"
  by (simp_all add: byte_of_def less_mult_imp_div_less)

lemma hex_roundtrip: "hex_parse (hex_text s) = Some s"
  by (induction s) (simp_all add: hex_value_char byte_of_halves)

lemma hex_char_range: "n < 16 \<Longrightarrow> byte_of (hex_char n) \<in> {48..57} \<union> {97..102}"
  by (auto simp: hex_char_def byte_of_def)

lemma hex_text_chars: "c \<in> set (hex_text s) \<Longrightarrow> byte_of c \<in> {48..57} \<union> {97..102}"
proof (induction s)
  case (Cons a s)
  then have "c = hex_char (byte_of a div 16) \<or> c = hex_char (byte_of a mod 16) \<or> c \<in> set (hex_text s)" by simp
  then show ?case using Cons.IH hex_char_range byte_of_halves by blast
qed simp

subsection \<open>JSON text\<close>

fun json_text :: "json \<Rightarrow> string" where
  "json_text JNull = ''n''"
| "json_text (JBool b) = (if b then ''t'' else ''u'')"
| "json_text (JNumber n) = (if n < 0 then CHR ''-'' else CHR ''+'') # replicate (nat \<bar>n\<bar>) CHR ''1'' @ '';''"
| "json_text (JString s) = CHR ''s'' # hex_text s @ '';''"
| "json_text (JArray vs) = CHR ''['' # concat (map json_text vs) @ '']''"
| "json_text (JObject obj) = CHR ''{'' # concat (map (\<lambda>kv. hex_text (fst kv) @ '':'' @ json_text (snd kv)) obj) @ ''}''"

text \<open>The parser; the length of the text is fuel enough.\<close>

definition upto :: "char \<Rightarrow> string \<Rightarrow> string \<times> string" where
  "upto c s = (takeWhile (\<lambda>d. d \<noteq> c) s, drop 1 (dropWhile (\<lambda>d. d \<noteq> c) s))"

fun read_value :: "nat \<Rightarrow> string \<Rightarrow> (json \<times> string) option"
  and read_values :: "nat \<Rightarrow> string \<Rightarrow> (json list \<times> string) option"
  and read_fields :: "nat \<Rightarrow> string \<Rightarrow> ((string \<times> json) list \<times> string) option" where
  "read_value 0 s = None"
| "read_value (Suc n) [] = None"
| "read_value (Suc n) (c # s) =
     (if c = CHR ''n'' then Some (JNull, s)
      else if c = CHR ''t'' then Some (JBool True, s)
      else if c = CHR ''u'' then Some (JBool False, s)
      else if c = CHR ''+'' then (case upto CHR '';'' s of (d, r) \<Rightarrow> Some (JNumber (int (length d)), r))
      else if c = CHR ''-'' then (case upto CHR '';'' s of (d, r) \<Rightarrow> Some (JNumber (- int (length d)), r))
      else if c = CHR ''s'' then
        (case upto CHR '';'' s of (d, r) \<Rightarrow> map_option (\<lambda>t. (JString t, r)) (hex_parse d))
      else if c = CHR ''['' then map_option (\<lambda>(vs, r). (JArray vs, r)) (read_values n s)
      else if c = CHR ''{'' then map_option (\<lambda>(obj, r). (JObject obj, r)) (read_fields n s)
      else None)"
| "read_values 0 s = None"
| "read_values (Suc n) s =
     (if s \<noteq> [] \<and> hd s = CHR '']'' then Some ([], tl s)
      else case read_value n s of
          None \<Rightarrow> None
        | Some (v, r) \<Rightarrow> map_option (\<lambda>(vs, r). (v # vs, r)) (read_values n r))"
| "read_fields 0 s = None"
| "read_fields (Suc n) s =
     (if s \<noteq> [] \<and> hd s = CHR ''}'' then Some ([], tl s)
      else case upto CHR '':'' s of (k, r) \<Rightarrow>
        (case (hex_parse k, read_value n r) of
          (Some k, Some (v, r)) \<Rightarrow> map_option (\<lambda>(obj, r). ((k, v) # obj, r)) (read_fields n r)
        | _ \<Rightarrow> None))"

definition json_of_text :: "string \<Rightarrow> string + json" where
  "json_of_text s =
     (case read_value (length s) s of Some (v, []) \<Rightarrow> Inr v | _ \<Rightarrow> Inl ''expected value'')"

lemma upto_char: "c \<notin> set a \<Longrightarrow> upto c (a @ c # r) = (a, r)"
  by (induction a) (auto simp: upto_def)

lemma hex_text_free: "byte_of c \<notin> {48..57} \<union> {97..102} \<Longrightarrow> c \<notin> set (hex_text s)"
  using hex_text_chars by blast

lemma json_text_hd: "json_text v = c # r \<Longrightarrow> c \<noteq> CHR '']''"
  by (cases v) (auto split: if_splits)

lemma json_text_nonempty: "json_text v \<noteq> []"
  by (cases v) auto

lemma read_value_text: "length (json_text v) \<le> n \<Longrightarrow> read_value n (json_text v @ r) = Some (v, r)"
proof (induction v arbitrary: n r)
  case (JArray vs)
  have "length (concat (map json_text vs)) < n \<Longrightarrow>
      read_values n (concat (map json_text vs) @ CHR '']'' # r) = Some (vs, r)" for n r
    using JArray.IH
  proof (induction vs arbitrary: n)
    case Nil
    then show ?case by (cases n) simp_all
  next
    case (Cons v vs)
    obtain n' where n: "n = Suc n'" using Cons.prems(1) by (cases n) simp_all
    obtain c t where ct: "json_text v = c # t" using json_text_nonempty by (cases "json_text v") auto
    have len: "length (json_text v) \<le> n'" "length (concat (map json_text vs)) < n'"
      using Cons.prems(1) by (simp_all add: n ct)
    have "read_value n' (json_text v @ concat (map json_text vs) @ CHR '']'' # r) =
        Some (v, concat (map json_text vs) @ CHR '']'' # r)"
      using Cons.prems(2) len(1) by simp
    moreover have "read_values n' (concat (map json_text vs) @ CHR '']'' # r) = Some (vs, r)"
      using Cons.IH [of n'] len(2) Cons.prems(2) by simp
    moreover have "hd (json_text v @ x) \<noteq> CHR '']''" for x using ct json_text_hd by simp
    ultimately show ?case by (simp add: n)
  qed
  then show ?case using JArray.prems by (cases n) simp_all
next
  case (JObject obj)
  let ?f = "\<lambda>kv. hex_text (fst kv) @ '':'' @ json_text (snd kv)"
  have "length (concat (map ?f obj)) < n \<Longrightarrow>
      read_fields n (concat (map ?f obj) @ CHR ''}'' # r) = Some (obj, r)" for n r
    using JObject.IH
  proof (induction obj arbitrary: n)
    case Nil
    then show ?case by (cases n) (simp_all add: upto_def)
  next
    case (Cons kv obj)
    obtain n' where n: "n = Suc n'" using Cons.prems(1) by (cases n) simp_all
    obtain k v where kv: "kv = (k, v)" by (cases kv)
    have len: "length (json_text v) \<le> n'" "length (concat (map ?f obj)) < n'"
      using Cons.prems(1) n kv by simp_all
    let ?r = "concat (map ?f obj) @ CHR ''}'' # r"
    have u: "upto CHR '':'' (hex_text k @ CHR '':'' # json_text v @ ?r) = (k', json_text v @ ?r)"
      if "k' = hex_text k" for k'
      unfolding that by (rule upto_char) (rule hex_text_free, simp add: byte_of_def)
    have "read_value n' (json_text v @ ?r) = Some (v, ?r)"
      using Cons.prems(2) [of kv v] len(1) kv by (simp add: snds.simps)
    moreover have "read_fields n' ?r = Some (obj, r)"
      by (rule Cons.IH [OF len(2)]) (meson Cons.prems(2) list.set_intros(2))
    moreover have "hd (hex_text k @ CHR '':'' # x) \<noteq> CHR ''}''" for x
      using hex_text_free [of "CHR ''}''" k] by (cases "hex_text k") (auto simp: byte_of_def)
    ultimately show ?case using u [OF refl] by (simp add: n kv hex_roundtrip)
  qed
  then show ?case using JObject.prems by (cases n) simp_all
next
  case (JNumber i)
  have "upto CHR '';'' (replicate k CHR ''1'' @ CHR '';'' # r) = (replicate k CHR ''1'', r)" for k
    by (rule upto_char) simp
  with JNumber show ?case by (cases n) auto
next
  case (JString s)
  have "upto CHR '';'' (hex_text s @ CHR '';'' # r) = (hex_text s, r)"
    by (rule upto_char) (rule hex_text_free, simp add: byte_of_def)
  with JString show ?case by (cases n) (auto simp: hex_roundtrip)
next
  case JNull
  then show ?case by (cases n) simp_all
next
  case (JBool b)
  then show ?case by (cases n; cases b) simp_all
qed

lemma json_text_roundtrip: "json_of_text (json_text v) = Inr v"
  using read_value_text [of v "length (json_text v)" "[]"] by (simp add: json_of_text_def)

lemma hex_text_no_newline [simp]: "CHR 0x0A \<notin> set (hex_text s)"
  by (rule hex_text_free) (simp add: byte_of_def)

lemma json_text_no_newline: "CHR 0x0A \<notin> set (json_text v)"
proof (induction v)
  case (JObject obj)
  have "CHR 0x0A \<notin> set (json_text (snd kv))" if "kv \<in> set obj" for kv
    using JObject.IH [OF that] by (cases kv) (auto simp: snds.simps)
  then show ?case by auto
qed auto

subsection \<open>The codec\<close>

definition sample_codec :: codec where
  "sample_codec =
     \<lparr>json_bytes = json_text, json_parse = json_of_text, sha256 = (\<lambda>_. replicate 32 CHR ''h''),
      to_hex = hex_text, of_hex = hex_parse, to_base64 = hex_text,
      of_base64 = (\<lambda>s. ok_or ''invalid byte'' (hex_parse s)), shape_error = (\<lambda>_. ''invalid type''),
      fresh_identifier = (\<lambda>n. zero_identifier)\<rparr>"

lemma sample_codec_laws: "codec_laws sample_codec"
  by (simp add: codec_laws_def sample_codec_def json_text_roundtrip json_text_nonempty json_text_no_newline
      hex_roundtrip zero_identifier_def valid_identifier_def is_ascii_digit_def byte_of_def list_all_iff)

subsection \<open>A save that succeeds\<close>

definition sample_session :: session where
  "sample_session = \<lparr>schema_version = 3, session_id = ''a'', created_at_ms = 1, updated_at_ms = 2,
     workspace_root = ''/w'', origin_workspace_root = None, title = None, preferred_model = None,
     session_history = []\<rparr>"

text \<open>Nothing there yet, and no fault to come.\<close>

definition sample_io :: store_io where
  "sample_io = \<lparr>disk = \<lparr>root_dir = NoDir, own_dir = NoDir, entry = \<lambda>_. None\<rparr>, io_faults = [], fresh_count = 0\<rparr>"

lemma length_hex_text [simp]: "length (hex_text s) = 2 * length s"
  by (induction s) simp_all

lemma sample_fields [simp]:
  "session_id sample_session = ''a''" "sint (updated_at_ms sample_session) = 2"
  "stored_form digest hex sample_session = sample_session"
  "length zero_identifier = 32"
  by (simp_all add: stored_form_def redact_durable_session_def sample_session_def current_schema_def zero_identifier_def)

lemma sample_session_valid: "validate_session sample_session = Inr ()"
  by (simp add: validate_session_iff sample_session_def validate_session_id_def is_ascii_alphanumeric_def
      is_ascii_digit_def is_ascii_lowercase_def is_ascii_uppercase_def byte_of_def valid_root_def
      holds_option_def is_absolute_def current_schema_def)

lemma sample_session_bytes:
  "length (session_bytes sample_codec sample_session) \<le> 1000" "session_bytes sample_codec sample_session \<noteq> []"
  by (simp_all add: session_bytes_def sample_codec_def sample_session_def session_json_def json_nat_def some_field_def)

lemma sample_codec_simps:
  "json_bytes sample_codec v = json_text v"
  "length (to_hex sample_codec (sha256 sample_codec x)) = 64"
  "new_identifier sample_codec io = (Inr zero_identifier, io\<lparr>fresh_count := fresh_count io + 1\<rparr>)"
  by (simp_all add: sample_codec_def new_identifier_def)

lemma one_chunk: "xs \<noteq> [] \<Longrightarrow> length xs \<le> n \<Longrightarrow> 0 < n \<Longrightarrow> chunks n xs = [xs]"
  by (subst chunks.simps, subst chunks.simps) simp

lemma sys_call_quiet: "io_faults io = [] \<Longrightarrow> sys_call p io = (Inr (), io)"
  by (simp add: sys_call_def next_fault_def)

lemma write_event_quiet:
  assumes "io_faults io = []" and "length (event_frame c h p) \<le> n" and "n \<le> 10000"
    and "length (log_bytes (disk io)) \<le> 100000"
  shows "write_event c hash h p io = (Inr (hash @ event_frame c h p),
      io\<lparr>disk := set_log (log_bytes (disk io) @ event_frame c h p) (disk io)\<rparr>)"
  using assms
  by (simp add: write_event_def Let_def seq_def append_log_def next_fault_def program_simps
      event_frame_max_bytes_def max_file_bytes_def)

lemma sample_lengths:
  "length (event_frame sample_codec \<lparr>eh_generation = g, eh_seq = n, eh_event_id = i, eh_timestamp_ms = ts, eh_kind = k\<rparr> p)
     \<le> 300 + 2 * length g + n + 2 * length i + nat \<bar>ts\<bar> + 2 * length k + length (json_text p)"
  "length (json_text (replacement_json \<lparr>rep_id = a, rep_encoded_bytes = b, rep_sha256 = d, rep_chunk_count = e\<rparr>))
     \<le> 200 + 2 * length a + b + 2 * length d + e"
  "length (json_text (chunk_payload sample_codec a b x)) \<le> 400 + 2 * length a + b + 5 * length x"
  "length (json_text (watermark_json w)) \<le> 1000 + wm_schema_version w + 2 * length (wm_session_id w)
     + 2 * length (wm_log_generation w) + wm_last_event_seq w + 2 * length (wm_last_event_id w)
     + wm_event_log_bytes w + 2 * length (wm_event_log_sha256 w)"
  by (simp_all add: event_frame_def envelope_json_def json_nat_def sample_codec_def event_schema_version_def
      replacement_json_def chunk_payload_def chunk_json_def watermark_json_def)

abbreviation sample_header :: "nat \<Rightarrow> string \<Rightarrow> event_header" where
  "sample_header n k \<equiv> \<lparr>eh_generation = zero_identifier, eh_seq = n, eh_event_id = zero_identifier,
     eh_timestamp_ms = 2, eh_kind = k\<rparr>"

abbreviation sample_replacement :: "nat \<Rightarrow> string \<Rightarrow> nat \<Rightarrow> json" where
  "sample_replacement b d e \<equiv> replacement_json \<lparr>rep_id = zero_identifier, rep_encoded_bytes = b,
     rep_sha256 = d, rep_chunk_count = e\<rparr>"

lemma sample_frame_lengths:
  assumes "n \<le> 10" and "length k \<le> 40"
  shows "b \<le> 1000 \<Longrightarrow> length d = 64 \<Longrightarrow> e \<le> 10 \<Longrightarrow>
      length (event_frame sample_codec (sample_header n k) (sample_replacement b d e)) \<le> 2500"
    and "length x \<le> 1000 \<Longrightarrow>
      length (event_frame sample_codec (sample_header n k) (chunk_payload sample_codec zero_identifier 0 x)) \<le> 6000"
  using assms sample_lengths(1) [of zero_identifier n zero_identifier 2 k "sample_replacement b d e"]
    sample_lengths(1) [of zero_identifier n zero_identifier 2 k "chunk_payload sample_codec zero_identifier 0 x"]
    sample_lengths(2) [of zero_identifier b d e] sample_lengths(3) [of zero_identifier 0 x]
  by simp_all

lemma sample_write_replacement:
  assumes "entry (disk io) EventsFile = Some (Regular [])" and "io_faults io = []"
  shows "case write_replacement sample_codec zero_identifier sample_session
        (session_bytes sample_codec sample_session) (Suc 0) dir [] io of
      (Inr w, io') \<Rightarrow> io_faults io' = [] \<and> entry (disk io') WatermarkFile = entry (disk io) WatermarkFile
        \<and> length (json_text (watermark_json w)) \<le> 16000
    | _ \<Rightarrow> False"
proof -
  let ?e = "session_bytes sample_codec sample_session"
  let ?h = "to_hex sample_codec (sha256 sample_codec ?e)"
  have lb: "log_bytes (disk io) = []" using assms by (simp add: log_bytes_def)
  have ch: "chunks raw_state_chunk_bytes ?e = [?e]"
    using sample_session_bytes by (intro one_chunk) (simp_all add: raw_state_chunk_bytes_def)
  have dc: "div_ceil (length ?e) raw_state_chunk_bytes = 1"
    using length_chunks [of raw_state_chunk_bytes ?e] ch by (simp add: raw_state_chunk_bytes_def)
  show ?thesis
    using assms(2) sample_session_bytes(1)
      sample_frame_lengths(1) [of "Suc 0" "''state_replacement_started''" "length ?e" ?h "Suc 0"]
      sample_frame_lengths(2) [of "Suc (Suc 0)" "''state_replacement_chunk''" ?e]
      sample_frame_lengths(1) [of "Suc (Suc (Suc 0))" "''state_replacement_committed''" "length ?e" ?h "Suc 0"]
    by (auto simp: write_replacement_def Let_def ch dc sample_codec_simps seq_def write_event_quiet [where n = 6000]
        lb sys_call_quiet program_simps next_seq_number_def u64_max_def watermark_schema_version_def
        intro!: order.trans [OF sample_lengths(4)] simp del: json_text.simps)
qed

lemma sample_save_runs: "fst (save_sync sample_codec ''/r'' sample_session sample_io) = Inr ()"
proof -
  let ?d = "\<lparr>root_dir = RealDir, own_dir = RealDir, entry = [LockFile \<mapsto> Regular []]\<rparr>"
  let ?log = "set_log [] (set_entry EventsFile (Some (Regular [])) ?d)"
  have run: "save_sync sample_codec ''/r'' sample_session sample_io =
      save_locked sample_codec (path_push ''/r'' ''a'') sample_session \<lparr>disk = ?d, io_faults = [], fresh_count = 0\<rparr>"
    by (simp add: save_sync_def sample_session_valid seq_def program_simps sys_call_quiet sample_io_def Let_def
        ensure_private_directory_def ensure_existing_directory_def lock_session_def reject_unsafe_file_def
        set_entry_def)
  show ?thesis
    unfolding run
    using sample_session_bytes
      sample_write_replacement [of "\<lparr>disk = ?log, io_faults = [], fresh_count = Suc 0\<rparr>" "path_push ''/r'' ''a''"]
    by (simp add: save_locked_def existing_session_def path_is_file_def load_legacy_optional_def seq_def
        program_simps sys_call_quiet Let_def max_state_bytes_def commit_session_def append_session_def
        sample_codec_simps reject_unsafe_file_def open_log_at_def open_private_log_def hash_file_prefix_def)
      (auto simp: ignore_def atomic_write_json_def Let_def reject_unsafe_file_def seq_def program_simps
        sys_call_quiet max_watermark_bytes_def set_entry_def sample_codec_simps json_text_nonempty
        split: prod.splits sum.splits)
qed

end
