(* ===== verification/Session_Atomic.thy ===== *)
theory Session_Atomic
  imports Session_Codec
begin

section \<open>Saves are atomic\<close>

text \<open>
  Whatever fails in a save, and wherever: the directory then loads as before or as the session
  saved. Built on the replay lemmas of \<open>Session_Durability\<close>.
\<close>

subsection \<open>What an unfinished save leaves\<close>

text \<open>
  \<open>kept d0 k d\<close>: the directory \<open>d\<close> differs from \<open>d0\<close> only where a load does not look: the watermark
  and the manifest are the same, and a log with a watermark still starts with the committed bytes \<open>k\<close>.
\<close>

definition has_watermark :: "session_disk \<Rightarrow> bool" where
  "has_watermark d \<longleftrightarrow> (case entry d WatermarkFile of Some (Regular _) \<Rightarrow> True | _ \<Rightarrow> False)"

definition kept :: "session_disk \<Rightarrow> string \<Rightarrow> session_disk \<Rightarrow> bool" where
  "kept d0 k d \<longleftrightarrow> own_dir d = own_dir d0 \<and> entry d WatermarkFile = entry d0 WatermarkFile
     \<and> entry d ManifestFile = entry d0 ManifestFile
     \<and> (if has_watermark d0 then \<exists>b. entry d EventsFile = Some (Regular b) \<and> prefix k b else True)"

lemma log_bytes_Regular: "entry d EventsFile = Some (Regular b) \<Longrightarrow> log_bytes d = b"
  by (simp add: log_bytes_def)

lemma keeps_look:
  assumes "\<And>e. (\<exists>d. P d \<and> h d = e) \<Longrightarrow> keeps P (f e)"
  shows "keeps P (seq (look h) f)"
  unfolding keeps_def
proof (intro allI impI)
  fix io :: store_io
  assume P: "P (disk io)"
  then have "keeps P (f (h (disk io)))" by (intro assms) blast
  with P show "P (disk (snd (seq (look h) f io)))" by (simp add: seq_def program_simps keeps_def)
qed

lemma kept_set_log: "kept d0 k d \<Longrightarrow> kept d0 k (set_log (log_bytes d @ x) d)"
  by (auto simp: kept_def prefix_def log_bytes_Regular)

lemma kept_append [keeps_intros]: "keeps (kept d0 k) (append_log frame)"
  unfolding keeps_def append_log_def
  by (auto dest!: next_fault_disk simp: kept_set_log split: prod.splits io_fault.splits)

lemma kept_write_event [keeps_intros]: "keeps (kept d0 k) (write_event c hash h payload)"
  unfolding write_event_def Let_def by (intro keeps_intros)

lemma kept_write_chunks [keeps_intros]:
  "keeps (kept d0 k) (write_chunks c g ts rid index parts n hash)"
  by (induction parts arbitrary: index n hash) (simp_all add: keeps_intros)

lemma kept_write_replacement [keeps_intros]:
  "keeps (kept d0 k) (write_replacement c g s encoded first dir hash)"
  unfolding write_replacement_def Let_def
  by (auto intro!: keeps_intros split: prod.splits)

lemma kept_open_log [keeps_intros]: "keeps (kept d0 k) (open_private_log dir)"
proof -
  let ?path = "file_path dir EventsFile"
  have create: "keeps (kept d0 k) (seq (change (set_entry EventsFile (Some (Regular [])))) (\<lambda>_. seq (sys_call ?path) (\<lambda>_. give [])))"
    if "\<not> has_watermark d0"
    using that by (intro keeps_intros) (simp add: kept_def set_entry_def)
  have none: "\<lbrakk>kept d0 k d; entry d EventsFile = None\<rbrakk> \<Longrightarrow> \<not> has_watermark d0" for d
    by (auto simp: kept_def)
  show ?thesis
    unfolding open_private_log_def
    by (rule keeps_seq [OF keeps_basic(5)], rule keeps_look)
      (auto intro: keeps_intros create [OF none] split: option.split file_entry.split)
qed

lemma kept_open_log_at [keeps_intros]: "length k = n \<Longrightarrow> keeps (kept d0 k) (open_log_at dir n)"
  unfolding open_log_at_def hash_file_prefix_def
  by (intro keeps_intros) (auto simp: kept_def prefix_def log_bytes_Regular)

lemma kept_append_session:
  assumes "length k = (case existing of Some (_, w) \<Rightarrow> wm_event_log_bytes w | None \<Rightarrow> 0)"
  shows "keeps (kept d0 k) (append_session c dir s encoded existing)"
  unfolding append_session_def Let_def
  by (intro keeps_intros assms) (auto intro!: keeps_intros split: option.splits prod.splits)

text \<open>A directory that is kept loads as before.\<close>

lemma kept_load:
  assumes "kept d0 k d"
    and "has_watermark d0 \<Longrightarrow> \<exists>p w b. committed_of c (path_push root ident) ident (entry d0 WatermarkFile) (entry d0 EventsFile) = Inr (p, w)
      \<and> entry d0 EventsFile = Some (Regular b) \<and> k = take (wm_event_log_bytes w) b \<and> wm_event_log_bytes w \<le> length b"
  shows "load_of c root ident d = load_of c root ident d0"
proof (cases "has_watermark d0")
  case False
  then have "entry_is_file dir WatermarkFile (entry d0 WatermarkFile) \<noteq> Inr True" for dir
    by (auto simp: has_watermark_def entry_is_file_def split: option.splits file_entry.splits)
  with assms(1) show ?thesis
    by (auto simp: kept_def load_of_def Let_def and_then_def split: dir_state.splits sum.splits)
next
  case True
  let ?dir = "path_push root ident"
  from assms(2) [OF True] obtain p w b where
    cm: "committed_of c ?dir ident (entry d0 WatermarkFile) (entry d0 EventsFile) = Inr (p, w)"
    and b: "entry d0 EventsFile = Some (Regular b)" and k: "k = take (wm_event_log_bytes w) b"
    and n: "wm_event_log_bytes w \<le> length b" by blast
  from cm have wm: "watermark_of c ?dir ident (entry d0 WatermarkFile) = Inr w"
    and ls: "log_state c ?dir ident w (entry d0 EventsFile) = Inr p"
    by (auto simp: committed_of_def and_then_Inr_iff)
  from assms(1) True obtain x where x: "entry d EventsFile = Some (Regular (k @ x))"
    by (auto simp: kept_def prefix_def)
  have len: "length k = wm_event_log_bytes w" using k n by simp
  have "log_state c ?dir ident w (entry d EventsFile) = log_state c ?dir ident w (entry d0 EventsFile)"
    using len n by (simp add: log_state_def x b safe_entry_def entry_bytes_def k)
  moreover have same: "own_dir d = own_dir d0" "entry d WatermarkFile = entry d0 WatermarkFile"
    using assms(1) by (simp_all add: kept_def)
  ultimately have "committed_of c ?dir ident (entry d WatermarkFile) (entry d EventsFile) =
      committed_of c ?dir ident (entry d0 WatermarkFile) (entry d0 EventsFile)"
    by (simp only: committed_of_def wm and_then_simps)
  moreover have "entry_is_file dir WatermarkFile (entry d0 WatermarkFile) = Inr True" for dir
    using True by (auto simp: has_watermark_def entry_is_file_def split: option.splits file_entry.splits)
  ultimately show ?thesis
    using same by (simp add: load_of_def Let_def cong: dir_state.case_cong)
qed

subsection \<open>Successful steps\<close>

lemma sys_call_same: "sys_call p io = (r, io') \<Longrightarrow> disk io' = disk io"
  using sys_call_disk [of p io] by simp

lemma keeps_same: "keeps (\<lambda>d. d = d0) p \<Longrightarrow> p io = (r, io') \<Longrightarrow> disk io = d0 \<Longrightarrow> disk io' = d0"
  unfolding keeps_def by (metis snd_conv)

lemma keepsD: "keeps P p \<Longrightarrow> p io = (r, io') \<Longrightarrow> P (disk io) \<Longrightarrow> P (disk io')"
  unfolding keeps_def by (metis snd_conv)

lemma atomic_write_cases:
  assumes "atomic_write_json c dir f v limit io = (r, io')"
  obtains (failed) e where "r = Inl e" and "disk io' = disk io"
    | (written) "r = Inr ()" and "disk io' = set_entry f (Some (Regular (json_bytes c v))) (disk io)"
      and "json_bytes c v \<noteq> []" and "length (json_bytes c v) \<le> limit"
proof -
  have "disk i = disk io" if "reject_unsafe_file dir f io = (x, i)" for x i
    using keepsD [OF keeps_reads(1) that, of "\<lambda>d. d = disk io"] by simp
  then have "(\<exists>e. r = Inl e) \<and> disk io' = disk io \<or> r = Inr () \<and>
      disk io' = set_entry f (Some (Regular (json_bytes c v))) (disk io) \<and> json_bytes c v \<noteq> [] \<and>
      length (json_bytes c v) \<le> limit"
    using assms unfolding atomic_write_json_def Let_def
    by (auto simp: program_simps elim!: seq_cases dest!: sys_call_same split: if_splits)
  then show ?thesis using that by blast
qed

lemma open_private_log_Inr:
  "open_private_log dir io = (Inr b, io') \<Longrightarrow>
     b = log_bytes (disk io) \<and> log_bytes (disk io') = b \<and> (\<forall>x. set_log x (disk io') = set_log x (disk io))"
  unfolding open_private_log_def
  by (auto simp: program_simps log_bytes_def set_log_def set_entry_def elim!: seq_cases dest!: sys_call_same
      split: option.splits file_entry.splits)

lemma open_log_at_Inr:
  assumes "open_log_at dir n io = (Inr h, io')"
  shows "h = take n (log_bytes (disk io)) \<and> n \<le> length (log_bytes (disk io))
    \<and> disk io' = set_log (take n (log_bytes (disk io))) (disk io)"
proof -
  from assms obtain b io1 io2 io3 io4 io5 where o: "open_private_log dir io = (Inr b, io1)"
    and s: "sys_call (file_path dir EventsFile) io1 = (Inr (), io2)"
      "sys_call (file_path dir EventsFile) io2 = (Inr (), io3)"
    and n: "n \<le> length b" and io4: "io4 = io3\<lparr>disk := set_log (take n (log_bytes (disk io3))) (disk io3)\<rparr>"
    and s5: "sys_call (file_path dir EventsFile) io4 = (Inr (), io5)"
    and h: "hash_file_prefix dir n io5 = (Inr h, io')"
    unfolding open_log_at_def by (auto simp: seq_Inr program_simps split: if_splits)
  note 1 = open_private_log_Inr [OF o]
  have d3: "disk io3 = disk io1" using s by (simp add: sys_call_same)
  have d5: "disk io5 = set_log (take n b) (disk io)"
    using sys_call_same [OF s5] 1 d3 by (simp add: io4)
  have "keeps P (hash_file_prefix dir n)" for P
    unfolding hash_file_prefix_def by (intro keeps_intros)
  then have "disk io' = disk io5" using keeps_same h by blast
  moreover have "h = take n b"
  proof (cases "n = 0")
    case True
    with h show ?thesis by (simp add: hash_file_prefix_def program_simps)
  next
    case False
    with h obtain b' io6 where of: "open_file dir EventsFile io5 = (Inr b', io6)" and "h = take n b'"
      by (auto simp: hash_file_prefix_def seq_Inr program_simps split: if_splits)
    moreover from reads_Inr [OF reads_entries(3) of] have "b' = take n b"
      using d5 by (simp add: entry_bytes_def)
    ultimately show ?thesis by simp
  qed
  ultimately show ?thesis using 1 n d5 by simp
qed

lemma replay_frames_next_seq:
  "replay_frames c g fs cur = Inr cur' \<Longrightarrow> next_seq cur \<le> next_seq cur'"
proof (induction fs arbitrary: cur)
  case (Cons f fs)
  then obtain cur1 where f: "replay_frame c g f cur = Inr cur1" and "next_seq cur1 \<le> next_seq cur'" by auto
  moreover from f have "next_seq cur1 = next_seq cur + 1"
    by (auto simp: replay_frame_def and_then_Inr_iff split: if_splits)
  ultimately show ?case by simp
qed simp

text \<open>The log a save extends: a whole number of frames that replay, and what replaying them gives.\<close>

definition extends :: "codec \<Rightarrow> string \<Rightarrow> string \<Rightarrow> nat \<Rightarrow> bool" where
  "extends c g k first \<longleftrightarrow> (k = [] \<or> last k = CHR 0x0A) \<and>
     (\<exists>seen prev. replay_frames c g (frames k) replay_start =
       Inr \<lparr>next_seq = first, last_seen_event_id = seen, replayed = (None, prev)\<rparr>)"

lemma extends_Nil: "extends c g [] 1"
  by (simp add: extends_def replay_start_def)

lemma extends_committed:
  assumes "committed_of c dir ident we (Some (Regular b)) = Inr (p, w)"
  shows "extends c (wm_log_generation w) (take (wm_event_log_bytes w) b) (wm_last_event_seq w + 1)"
    and "wm_event_log_bytes w \<le> length b" and "valid_identifier (wm_log_generation w)"
proof -
  from assms have v: "validate_watermark c w ident = Inr ()"
    and ls: "log_state c dir ident w (Some (Regular b)) = Inr p"
    by (auto simp: committed_of_def watermark_of_def and_then_Inr_iff)
  let ?k = "take (wm_event_log_bytes w) b"
  from ls show "wm_event_log_bytes w \<le> length b"
    by (auto simp: log_state_def and_then_Inr_iff entry_bytes_def split: if_splits)
  from v show "valid_identifier (wm_log_generation w)" by (simp add: validate_watermark_def)
  from ls have "replay_log c w ident ?k = Inr p"
    by (auto simp: log_state_def and_then_Inr_iff entry_bytes_def split: if_splits)
  then obtain cur where cur: "replay_frames c (wm_log_generation w) (frames ?k) replay_start = Inr cur"
    and "next_seq cur - 1 = wm_last_event_seq w" and "fst (replayed cur) = None"
    by (auto simp: replay_log_def and_then_Inr_iff split: if_splits)
  moreover have "1 \<le> next_seq cur" using replay_frames_next_seq [OF cur] by (simp add: replay_start_def)
  ultimately have "cur = \<lparr>next_seq = wm_last_event_seq w + 1, last_seen_event_id = last_seen_event_id cur,
      replayed = (None, snd (replayed cur))\<rparr>"
    by (cases cur) (auto simp: prod_eq_iff)
  with cur replayed_newline [OF cur] show "extends c (wm_log_generation w) ?k (wm_last_event_seq w + 1)"
    unfolding extends_def by metis
qed

lemma write_replacement_extends:
  assumes c: "codec_laws c"
    and run: "write_replacement c g s (session_bytes c s) first dir k io = (Inr w, io')"
    and k: "entry (disk io) EventsFile = Some (Regular k)" and ext: "extends c g k first"
    and g: "valid_identifier g"
    and enc: "session_bytes c s \<noteq> []" "length (session_bytes c s) \<le> max_state_bytes"
    and v: "validate_session s = Inr ()" "schema_version s = current_schema"
    and room: "first + 66 \<le> u64_max"
  shows "\<exists>b. disk io' = set_log b (disk io)
    \<and> log_state c (path_push root (session_id s)) (session_id s) w (Some (Regular b)) = Inr s
    \<and> validate_watermark c w (session_id s) = Inr () \<and> watermark_of_json (watermark_json w) = Some w
    \<and> plain_json (watermark_json w)"
proof -
  from ext obtain seen prev where nl: "k = [] \<or> last k = CHR 0x0A"
    and rk: "replay_frames c g (frames k) replay_start =
       Inr \<lparr>next_seq = first, last_seen_event_id = seen, replayed = (None, prev)\<rparr>"
    unfolding extends_def by blast
  from write_replacement_Inr [OF c run k enc v(1) room, of seen prev] obtain fs where
    fs: "list_all framed fs" "disk io' = set_log (k @ concat fs) (disk io)"
    and rf: "replay_frames c g fs \<lparr>next_seq = first, last_seen_event_id = seen, replayed = (None, prev)\<rparr> =
        Inr \<lparr>next_seq = wm_last_event_seq w + 1, last_seen_event_id = wm_last_event_id w, replayed = (None, Some s)\<rparr>"
    and w: "wm_schema_version w = watermark_schema_version" "wm_session_id w = session_id s"
      "wm_log_generation w = g" "wm_event_log_bytes w = length (k @ concat fs)"
      "wm_event_log_sha256 w = to_hex c (sha256 c (k @ concat fs))" "valid_identifier (wm_last_event_id w)"
      "first < wm_last_event_seq w" "wm_last_event_seq w \<le> u64_max" "wm_event_log_bytes w \<le> max_file_bytes"
      "wm_event_log_bytes w \<noteq> 0"
    by blast
  have fr: "frames (k @ concat fs) = frames k @ fs"
    using frames_append [OF nl, of "concat fs"] frames_concat [OF fs(1), of "[]"] by simp
  have "replay_log c w (session_id s) (k @ concat fs) = Inr s"
    using v(2) w by (simp add: replay_log_def fr replay_frames_append rk rf)
  then have "log_state c (path_push root (session_id s)) (session_id s) w (Some (Regular (k @ concat fs))) = Inr s"
    using w(4) by (simp add: log_state_def safe_entry_def entry_bytes_def)
  moreover have "validate_watermark c w (session_id s) = Inr ()"
    using w g codec_simps(4) [OF c] by (simp add: validate_watermark_def)
  moreover have sz: "wm_schema_version w \<le> u32_max" "wm_schema_version w \<le> u64_max"
      "wm_event_log_bytes w \<le> u64_max"
    using w(1,9) by (simp_all add: watermark_schema_version_def u32_max_def u64_max_def max_file_bytes_def)
  moreover have "watermark_of_json (watermark_json w) = Some w"
    using sz w(8) by (intro watermark_roundtrip)
  moreover have "plain_json (watermark_json w)" using sz w(8) by (simp add: watermark_json_def)
  ultimately show ?thesis using fs(2) by blast
qed

subsection \<open>What a save finds\<close>

lemma is_file_iff: "entry_is_file dir WatermarkFile (entry d WatermarkFile) = Inr b \<Longrightarrow> b = has_watermark d"
  by (auto simp: entry_is_file_def has_watermark_def split: option.splits file_entry.splits)

lemma has_watermark_is_file:
  "has_watermark d \<Longrightarrow> entry_is_file dir WatermarkFile (entry d WatermarkFile) = Inr True"
  by (auto simp: entry_is_file_def has_watermark_def split: option.splits file_entry.splits)

text \<open>\<open>found c dir ident d existing\<close>: what \<open>existing_session\<close> can give for a directory.\<close>

definition found :: "codec \<Rightarrow> string \<Rightarrow> string \<Rightarrow> session_disk \<Rightarrow> (session \<times> watermark) option \<Rightarrow> bool" where
  "found c dir ident d existing \<longleftrightarrow>
     (if has_watermark d then \<exists>p w. existing = Some (p, w)
          \<and> committed_of c dir ident (entry d WatermarkFile) (entry d EventsFile) = Inr (p, w)
      else entry_is_file dir WatermarkFile (entry d WatermarkFile) = Inr False
        \<and> legacy_of c dir ident (entry d ManifestFile) = Inr (map_option fst existing)
        \<and> (case existing of None \<Rightarrow> True
            | Some (p, w) \<Rightarrow> wm_last_event_seq w = 0 \<and> wm_event_log_bytes w = 0
                \<and> wm_log_generation w \<in> range (fresh_identifier c)))"

lemma existing_session_Inr:
  assumes "existing_session c dir ident io = (Inr existing, io')"
  shows "disk io' = disk io" and "found c dir ident (disk io) existing"
proof -
  from assms obtain b io1 where f: "path_is_file dir WatermarkFile io = (Inr b, io1)"
    and rest: "(if b then seq (replay_committed c dir ident) (\<lambda>r. give (Some r))
       else seq (load_legacy_optional c dir ident) (\<lambda>legacy.
         case legacy of None \<Rightarrow> give None
         | Some s \<Rightarrow> seq (new_identifier c) (\<lambda>generation.
             give (Some (s, \<lparr>wm_schema_version = watermark_schema_version, wm_session_id = ident,
               wm_log_generation = generation, wm_last_event_seq = 0,
               wm_last_event_id = zero_identifier, wm_event_log_bytes = 0,
               wm_event_log_sha256 = to_hex c (sha256 c [])\<rparr>))))) io1 = (Inr existing, io')"
    unfolding existing_session_def seq_Inr by blast
  note 1 = reads_Inr [OF reads_entries(2) f]
  show "disk io' = disk io"
    by (rule keepsD [OF keeps_existing assms, of "\<lambda>d. d = disk io"]) simp
  show "found c dir ident (disk io) existing"
  proof (cases b)
    case True
    with rest obtain r io2 where r: "replay_committed c dir ident io1 = (Inr r, io2)" and "existing = Some r"
      by (auto simp: seq_Inr program_simps)
    with 1 True is_file_iff reads_Inr [OF reads_replay r] show ?thesis
      by (cases r) (auto simp: found_def)
  next
    case False
    with rest obtain v io2 where v: "load_legacy_optional c dir ident io1 = (Inr v, io2)"
      and ex: "(case v of None \<Rightarrow> existing = None | Some s \<Rightarrow> \<exists>w. existing = Some (s, w) \<and>
         wm_last_event_seq w = 0 \<and> wm_event_log_bytes w = 0 \<and> wm_log_generation w \<in> range (fresh_identifier c))"
      by (auto simp: seq_Inr program_simps new_identifier_def split: option.splits)
    note 2 = reads_Inr [OF reads_legacy v]
    with 1 False is_file_iff ex show ?thesis by (auto simp: found_def split: option.splits)
  qed
qed

text \<open>The generation, committed prefix and first sequence number of the save.\<close>

definition committed_prefix :: "session_disk \<Rightarrow> (session \<times> watermark) option \<Rightarrow> string" where
  "committed_prefix d existing =
     (case existing of None \<Rightarrow> [] | Some (_, w) \<Rightarrow> take (wm_event_log_bytes w) (log_bytes d))"

lemma found_extends:
  assumes "codec_laws c" and "found c dir ident d (Some (p, w))"
  shows "extends c (wm_log_generation w) (committed_prefix d (Some (p, w))) (wm_last_event_seq w + 1)"
    and "valid_identifier (wm_log_generation w)" and "wm_event_log_bytes w \<le> length (log_bytes d)"
    and "has_watermark d \<Longrightarrow> entry d EventsFile = Some (Regular (log_bytes d))"
proof -
  have k: "committed_prefix d (Some (p, w)) = take (wm_event_log_bytes w) (log_bytes d)"
    by (simp add: committed_prefix_def)
  have *: "extends c (wm_log_generation w) (take (wm_event_log_bytes w) (log_bytes d)) (wm_last_event_seq w + 1)
      \<and> valid_identifier (wm_log_generation w) \<and> wm_event_log_bytes w \<le> length (log_bytes d)
      \<and> (if has_watermark d then entry d EventsFile = Some (Regular (log_bytes d)) else True)"
  proof (cases "has_watermark d")
    case True
    with assms(2) have cm: "committed_of c dir ident (entry d WatermarkFile) (entry d EventsFile) = Inr (p, w)"
      by (simp add: found_def)
    then obtain b where b: "entry d EventsFile = Some (Regular b)"
      by (auto simp: committed_of_def log_state_def and_then_Inr_iff entry_bytes_def
          split: option.splits file_entry.splits)
    with cm show ?thesis
      using extends_committed [of c dir ident "entry d WatermarkFile" b p w] log_bytes_Regular [OF b] by simp
  next
    case False
    with assms(2) have w: "wm_last_event_seq w = 0" "wm_event_log_bytes w = 0"
      and "wm_log_generation w \<in> range (fresh_identifier c)" by (simp_all add: found_def)
    then have "valid_identifier (wm_log_generation w)" using codec_simps(6) [OF assms(1)] by fastforce
    with False show ?thesis using extends_Nil [of c "wm_log_generation w"] by (simp add: w)
  qed
  show "extends c (wm_log_generation w) (committed_prefix d (Some (p, w))) (wm_last_event_seq w + 1)"
    unfolding k using * by blast
  show "valid_identifier (wm_log_generation w)" "wm_event_log_bytes w \<le> length (log_bytes d)"
    using * by blast+
  show "entry d EventsFile = Some (Regular (log_bytes d))" if "has_watermark d"
    using * that by presburger
qed

lemma append_session_Inr:
  assumes c: "codec_laws c" and f: "found c dir (session_id s) (disk io) existing"
    and run: "append_session c dir s (session_bytes c s) existing io = (Inr w', io')"
    and enc: "session_bytes c s \<noteq> []" "length (session_bytes c s) \<le> max_state_bytes"
    and v: "validate_session s = Inr ()" "schema_version s = current_schema"
    and room: "\<And>p w. existing = Some (p, w) \<Longrightarrow> wm_last_event_seq w + 67 \<le> u64_max"
  shows "\<exists>b. disk io' = set_log b (disk io)
    \<and> log_state c (path_push root (session_id s)) (session_id s) w' (Some (Regular b)) = Inr s
    \<and> validate_watermark c w' (session_id s) = Inr () \<and> watermark_of_json (watermark_json w') = Some w'
    \<and> plain_json (watermark_json w')"
proof -
  let ?k = "committed_prefix (disk io) existing"
  let ?first = "case existing of Some (_, w) \<Rightarrow> min u64_max (wm_last_event_seq w + 1) | None \<Rightarrow> 1"
  from run obtain u io1 g io2 h io3 where r: "reject_unsafe_file dir EventsFile io = (Inr u, io1)"
    and gen: "(case existing of Some (_, w) \<Rightarrow> give (wm_log_generation w) | None \<Rightarrow> new_identifier c) io1 = (Inr g, io2)"
    and ol: "open_log_at dir (case existing of Some (_, w) \<Rightarrow> wm_event_log_bytes w | None \<Rightarrow> 0) io2 = (Inr h, io3)"
    and wr: "write_replacement c g s (session_bytes c s) ?first dir h io3 = (Inr w', io')"
    by (auto simp: append_session_def Let_def seq_Inr program_simps split: if_splits)
  have d1: "disk io1 = disk io" using reads_Inr [OF reads_entries(1) r] by simp
  have d2: "disk io2 = disk io"
    using gen d1 by (cases existing) (auto simp: program_simps dest: new_identifier_Inr)
  note o = open_log_at_Inr [OF ol]
  have h: "h = ?k" and d3: "disk io3 = set_log ?k (disk io)"
    using o d2 by (cases existing; simp add: committed_prefix_def split: prod.splits)+
  have e: "extends c g ?k ?first" and g: "valid_identifier g" and rm: "?first + 66 \<le> u64_max"
  proof (atomize (full), cases existing)
    case None
    then show "extends c g ?k ?first \<and> valid_identifier g \<and> ?first + 66 \<le> u64_max"
      using gen extends_Nil codec_simps(6) [OF c]
      by (auto simp: committed_prefix_def u64_max_def dest: new_identifier_Inr)
  next
    case (Some a)
    obtain p w where a: "existing = Some (p, w)" using Some by (cases a) simp
    then have "g = wm_log_generation w" using gen by (simp add: program_simps)
    moreover have "min u64_max (wm_last_event_seq w + 1) = wm_last_event_seq w + 1"
      using room [OF a] by simp
    ultimately show "extends c g ?k ?first \<and> valid_identifier g \<and> ?first + 66 \<le> u64_max"
      using found_extends [OF c f [unfolded a]] room [OF a] a by simp
  qed
  have "entry (disk io3) EventsFile = Some (Regular ?k)" by (simp add: d3)
  from write_replacement_extends [OF c wr [unfolded h] this e g enc v rm, of root] d3
  show ?thesis by auto
qed

subsection \<open>Loading after a save\<close>

lemma kept_found:
  assumes c: "codec_laws c" and f: "found c (path_push root ident) ident d0 existing"
  shows "kept d0 (committed_prefix d0 existing) d0"
    and "kept d0 (committed_prefix d0 existing) d \<Longrightarrow> load_of c root ident d = load_of c root ident d0"
proof -
  have w: "\<exists>p w. existing = Some (p, w) \<and> entry d0 EventsFile = Some (Regular (log_bytes d0))
      \<and> committed_of c (path_push root ident) ident (entry d0 WatermarkFile) (entry d0 EventsFile) = Inr (p, w)
      \<and> committed_prefix d0 existing = take (wm_event_log_bytes w) (log_bytes d0)
      \<and> wm_event_log_bytes w \<le> length (log_bytes d0)" if h: "has_watermark d0"
  proof -
    from f h obtain p w where ex: "existing = Some (p, w)"
      and cm: "committed_of c (path_push root ident) ident (entry d0 WatermarkFile) (entry d0 EventsFile) = Inr (p, w)"
      by (auto simp: found_def)
    have "committed_prefix d0 existing = take (wm_event_log_bytes w) (log_bytes d0)"
      by (simp add: ex committed_prefix_def)
    with ex cm found_extends(3,4) [OF c f [unfolded ex]] h show ?thesis by blast
  qed
  then show "kept d0 (committed_prefix d0 existing) d0"
    unfolding kept_def by (metis prefix_def append_take_drop_id)
  show "load_of c root ident d = load_of c root ident d0" if "kept d0 (committed_prefix d0 existing) d"
    by (rule kept_load [OF that]) (use w in metis)
qed

lemma load_of_committed:
  assumes "validate_session_id ident = Inr ()" and "own_dir d = RealDir" and "has_watermark d"
  shows "load_of c root ident d =
    map_sum id fst (committed_of c (path_push root ident) ident (entry d WatermarkFile) (entry d EventsFile))"
  using assms
  by (cases "committed_of c (path_push root ident) ident (entry d WatermarkFile) (entry d EventsFile)")
    (simp_all add: load_of_def has_watermark_is_file)

lemma load_of_found:
  assumes "validate_session_id ident = Inr ()" and "own_dir d = RealDir"
    and "found c (path_push root ident) ident d existing"
  shows "load_of c root ident d = (case existing of None \<Rightarrow> Inl (SessionNotFound ident) | Some (p, w) \<Rightarrow> Inr p)"
  using assms
  by (cases "has_watermark d")
    (auto simp: load_of_committed found_def load_of_def Let_def has_watermark_is_file split: option.splits)

text \<open>The new watermark over the new log.\<close>

lemma load_of_written:
  assumes c: "codec_laws c" and v: "validate_session_id ident = Inr ()" and own: "own_dir d = RealDir"
    and e: "entry d EventsFile = Some (Regular b)"
    and w: "entry d WatermarkFile = Some (Regular (json_bytes c (watermark_json w)))"
      "length (json_bytes c (watermark_json w)) \<le> max_watermark_bytes"
    and ls: "log_state c (path_push root ident) ident w (Some (Regular b)) = Inr s"
    and vw: "validate_watermark c w ident = Inr ()" "watermark_of_json (watermark_json w) = Some w"
      "plain_json (watermark_json w)"
  shows "load_of c root ident d = Inr s"
proof -
  have "watermark_of c (path_push root ident) ident (entry d WatermarkFile) = Inr w"
    using w vw codec_simps(1,2) [OF c]
    by (simp add: watermark_of_def safe_entry_def bounded_json_def entry_bytes_def shaped_def)
  then have "committed_of c (path_push root ident) ident (entry d WatermarkFile) (entry d EventsFile) = Inr (s, w)"
    using ls e by (simp add: committed_of_def)
  moreover have "has_watermark d" using w(1) by (simp add: has_watermark_def)
  ultimately show ?thesis using load_of_committed [OF v own] by simp
qed

text \<open>The manifest is not read beside a watermark.\<close>

definition same_state :: "session_disk \<Rightarrow> session_disk \<Rightarrow> bool" where
  "same_state d0 d \<longleftrightarrow> own_dir d = own_dir d0 \<and> entry d WatermarkFile = entry d0 WatermarkFile
     \<and> entry d EventsFile = entry d0 EventsFile"

lemma same_state_load: "has_watermark d0 \<Longrightarrow> same_state d0 d \<Longrightarrow> load_of c root ident d = load_of c root ident d0"
  using has_watermark_is_file [of d0] has_watermark_is_file [of d]
  by (auto simp: same_state_def load_of_def Let_def has_watermark_def split: dir_state.splits)

lemma manifest_same_state:
  assumes "write_manifest_best_effort c dir s w io = (r, io')"
  shows "same_state (disk io) (disk io')"
  using assms unfolding write_manifest_best_effort_def
  by (auto simp: same_state_def set_entry_def elim!: atomic_write_cases)

subsection \<open>The save under the lock\<close>

text \<open>Loads of \<open>d\<close> give what loads of \<open>d0\<close> give, or the session saved.\<close>

definition old_or_new :: "codec \<Rightarrow> string \<Rightarrow> session \<Rightarrow> session_disk \<Rightarrow> session_error + unit \<Rightarrow> session_disk \<Rightarrow> bool" where
  "old_or_new c root s d0 r d \<longleftrightarrow>
     (let stored = stored_form (sha256 c) (to_hex c) s; loads = load_of c root (session_id s) in
      (if r = Inr () then loads d = Inr stored
         \<and> (case loads d0 of Inr p \<Rightarrow> validate_replacement p stored = Inr () | Inl e \<Rightarrow> True) else True)
      \<and> (loads d = Inr stored \<or> (\<forall>p. loads d = Inr p \<longleftrightarrow> loads d0 = Inr p)))"

lemma old_or_newI:
  assumes "load_of c root (session_id s) d = load_of c root (session_id s) d0" and "r \<noteq> Inr ()"
  shows "old_or_new c root s d0 r d"
  using assms by (simp add: old_or_new_def)

lemma old_or_new_stored:
  assumes "load_of c root (session_id s) d = Inr (stored_form (sha256 c) (to_hex c) s)"
    and "\<And>p. load_of c root (session_id s) d0 = Inr p \<Longrightarrow>
      validate_replacement p (stored_form (sha256 c) (to_hex c) s) = Inr ()"
  shows "old_or_new c root s d0 r d"
  using assms by (simp add: old_or_new_def split: sum.split)

lemma old_or_new_from:
  assumes "old_or_new c root s d1 r d"
    and eq: "\<And>p. load_of c root (session_id s) d1 = Inr p \<longleftrightarrow> load_of c root (session_id s) d0 = Inr p"
  shows "old_or_new c root s d0 r d"
proof -
  have "(case load_of c root (session_id s) d0 of Inr p \<Rightarrow> P p | Inl e \<Rightarrow> True) \<longleftrightarrow>
      (case load_of c root (session_id s) d1 of Inr p \<Rightarrow> P p | Inl e \<Rightarrow> True)" for P
    using eq by (cases "load_of c root (session_id s) d0"; cases "load_of c root (session_id s) d1") (simp_all, metis+)
  with assms(1) show ?thesis by (simp add: old_or_new_def Let_def eq)
qed

lemma commit_session_outcome:
  assumes c: "codec_laws c" and own: "own_dir (disk io) = RealDir" and v: "validate_session s = Inr ()"
    and st: "stored = stored_form (sha256 c) (to_hex c) s" and dir: "dir = path_push root (session_id s)"
    and f: "found c dir (session_id s) (disk io) existing"
    and enc: "session_bytes c stored \<noteq> []" "length (session_bytes c stored) \<le> max_state_bytes"
    and room: "\<And>p w. existing = Some (p, w) \<Longrightarrow> wm_last_event_seq w + 67 \<le> u64_max"
    and rep: "\<And>p. load_of c root (session_id s) (disk io) = Inr p \<Longrightarrow> validate_replacement p stored = Inr ()"
    and run: "commit_session c dir stored (session_bytes c stored) existing io = (r, io')"
  shows "old_or_new c root s (disk io) r (disk io')"
proof -
  let ?id = "session_id s"
  let ?k = "committed_prefix (disk io) existing"
  note f' = f [unfolded dir]
  have vs: "validate_session stored = Inr ()" "schema_version stored = current_schema" "session_id stored = ?id"
    and vid: "validate_session_id ?id = Inr ()"
    using v by (simp_all add: st stored_form_valid) (simp add: validate_session_iff)
  have "length ?k = (case existing of Some (_, w) \<Rightarrow> wm_event_log_bytes w | None \<Rightarrow> 0)"
  proof (cases existing)
    case (Some a)
    with f' have "found c (path_push root ?id) ?id (disk io) (Some (fst a, snd a))" by simp
    from found_extends(3) [OF c this] Some show ?thesis by (cases a) (simp add: committed_prefix_def)
  qed (simp add: committed_prefix_def)
  from kept_append_session [OF this] have keeps: "keeps (kept (disk io) ?k)
      (append_session c dir stored (session_bytes c stored) existing)" .
  have kept_d: "load_of c root ?id d = load_of c root ?id (disk io)" if "kept (disk io) ?k d" for d
    by (rule kept_found(2) [OF c f' that])
  from run show ?thesis unfolding commit_session_def
  proof (cases rule: seq_cases)
    case (failed e)
    have "kept (disk io) ?k (disk io')" by (rule keepsD [OF keeps failed(1) kept_found(1) [OF c f']])
    then show ?thesis using failed(2) by (intro old_or_newI kept_d) simp_all
  next
    case (went_on w io1)
    have k1: "kept (disk io) ?k (disk io1)"
      by (rule keepsD [OF keeps went_on(1) kept_found(1) [OF c f']])
    from append_session_Inr [OF c f [folded vs(3)] went_on(1) enc vs(1,2), where root = root] room vs(3)
    obtain b where d1: "disk io1 = set_log b (disk io)"
      and ls: "log_state c (path_push root ?id) ?id w (Some (Regular b)) = Inr stored"
      and vw: "validate_watermark c w ?id = Inr ()" "watermark_of_json (watermark_json w) = Some w"
        "plain_json (watermark_json w)" by auto
    from went_on(2) show ?thesis
    proof (cases rule: seq_cases)
      case (failed e)
      from failed(1) have "disk io' = disk io1" by (auto elim: atomic_write_cases)
      with failed(2) kept_d [OF k1] show ?thesis by (intro old_or_newI) simp_all
    next
      case (went_on u io2)
      from went_on(1) have d2: "disk io2 = set_entry WatermarkFile (Some (Regular (json_bytes c (watermark_json w)))) (disk io1)"
        and lim: "length (json_bytes c (watermark_json w)) \<le> max_watermark_bytes"
        by (auto elim: atomic_write_cases)
      have "load_of c root ?id (disk io2) = Inr stored"
        by (rule load_of_written [OF c vid _ _ _ lim ls vw]) (simp_all add: d2 d1 own set_entry_def)
      moreover have "has_watermark (disk io2)" by (simp add: d2 has_watermark_def set_entry_def)
      moreover from went_on(2) obtain r1 io3 where "write_manifest_best_effort c dir stored w io2 = (r1, io3)"
        and "io' = io3" by (cases "write_manifest_best_effort c dir stored w io2") (auto simp: ignore_def)
      then have "same_state (disk io2) (disk io')" using manifest_same_state by blast
      ultimately show ?thesis 
        using rep by (intro old_or_new_stored) (simp_all add: same_state_load st)
    qed
  qed
qed

lemma save_locked_outcome:
  assumes c: "codec_laws c" and own: "own_dir (disk io) = RealDir" and v: "validate_session s = Inr ()"
    and room: "\<And>p w. committed_of c (path_push root (session_id s)) (session_id s)
        (entry (disk io) WatermarkFile) (entry (disk io) EventsFile) = Inr (p, w) \<Longrightarrow>
      wm_last_event_seq w + 67 \<le> u64_max"
    and marked: "has_watermark (disk io) \<or>
      load_of c root (session_id s) (disk io) \<noteq> Inr (stored_form (sha256 c) (to_hex c) s)"
    and run: "save_locked c (path_push root (session_id s)) s io = (r, io')"
  shows "old_or_new c root s (disk io) r (disk io')"
proof -
  let ?dir = "path_push root (session_id s)"
  let ?stored = "stored_form (sha256 c) (to_hex c) s"
  have vid: "validate_session_id (session_id s) = Inr ()" using v by (simp add: validate_session_iff)
  from run show ?thesis unfolding save_locked_def Let_def
  proof (cases rule: seq_cases)
    case (failed e)
    have "disk io' = disk io" by (rule keepsD [OF keeps_existing failed(1), of "\<lambda>d. d = disk io"]) simp
    with failed(2) show ?thesis by (intro old_or_newI) simp_all
  next
    case (went_on existing io1)
    note d1 = existing_session_Inr(1) [OF went_on(1)]
    have f: "found c ?dir (session_id s) (disk io1) existing"
      using existing_session_Inr(2) [OF went_on(1)] d1 by simp
    have own1: "own_dir (disk io1) = RealDir" using own d1 by simp
    have room1: "wm_last_event_seq w + 67 \<le> u64_max" if "existing = Some (p, w)" for p w
      using f that room [of p w] d1 by (cases "has_watermark (disk io)") (auto simp: found_def u64_max_def)
    from went_on(2) show ?thesis
    proof (cases rule: seq_cases)
      case (failed e)
      with d1 show ?thesis by (intro old_or_newI) (simp_all add: program_simps)
    next
      case (went_on u io2)
      have io2: "io2 = io1" using went_on(1) by (simp add: program_simps)
      have rep: "validate_replacement p ?stored = Inr ()" if "load_of c root (session_id s) (disk io1) = Inr p" for p
        using that went_on(1) load_of_found [OF vid own1 f]
        by (cases existing) (auto simp: program_simps split: prod.splits)
      show ?thesis
      proof (cases "map_option fst existing = Some ?stored")
        case True
        then obtain w where ex: "existing = Some (?stored, w)" by auto
        have ld: "load_of c root (session_id s) (disk io1) = Inr ?stored"
          using load_of_found [OF vid own1 f] by (simp add: ex)
        with marked d1 have "has_watermark (disk io1)" by simp
        moreover have "write_manifest_best_effort c ?dir ?stored w io1 = (r, io')"
          using went_on(2) True io2 by (simp add: ex)
        ultimately show ?thesis
          using same_state_load manifest_same_state ld rep d1 by (intro old_or_new_stored) metis+
      next
        case False
        note rest = went_on(2) [unfolded io2]
        show ?thesis
        proof (cases "session_bytes c ?stored = [] \<or> max_state_bytes < length (session_bytes c ?stored)")
          case True
          with rest False d1 show ?thesis by (intro old_or_newI) (auto simp: program_simps)
        next
          case fits: False
          with rest False have "commit_session c ?dir ?stored (session_bytes c ?stored) existing io1 = (r, io')"
            by (simp only: if_False)
          from commit_session_outcome [OF c own1 v refl refl f _ _ room1 rep this] fits d1 show ?thesis by simp
        qed
      qed
    qed
  qed
qed

subsection \<open>The whole save\<close>

text \<open>The directories and the lock: nothing a load reads changes, but a directory may be new.\<close>

definition unlocked :: "session_disk \<Rightarrow> session_file \<Rightarrow> file_entry option" where
  "unlocked d = (entry d)(LockFile := None)"

definition prepared :: "session_disk \<Rightarrow> session_disk \<Rightarrow> bool" where
  "prepared d0 d \<longleftrightarrow> own_dir d = own_dir d0 \<and> unlocked d = unlocked d0
     \<or> own_dir d0 = NoDir \<and> own_dir d = RealDir \<and> unlocked d = Map.empty"

lemma prepared_refl: "prepared d d"
  by (simp add: prepared_def)

lemma unlocked_entries:
  "entry d WatermarkFile = unlocked d WatermarkFile" "entry d EventsFile = unlocked d EventsFile"
  "entry d ManifestFile = unlocked d ManifestFile"
  by (simp_all add: unlocked_def)

lemma prepared_entries:
  "prepared d0 d \<Longrightarrow> own_dir d = own_dir d0 \<and> entry d WatermarkFile = entry d0 WatermarkFile
       \<and> entry d EventsFile = entry d0 EventsFile \<and> entry d ManifestFile = entry d0 ManifestFile
     \<or> own_dir d0 = NoDir \<and> own_dir d = RealDir \<and> entry d WatermarkFile = None
       \<and> entry d EventsFile = None \<and> entry d ManifestFile = None"
  unfolding prepared_def unlocked_entries by auto

lemma load_of_empty: "own_dir d = NoDir \<Longrightarrow> load_of c root ident d \<noteq> Inr p"
    "own_dir d = RealDir \<Longrightarrow> entry d WatermarkFile = None \<Longrightarrow> entry d ManifestFile = None \<Longrightarrow>
      load_of c root ident d \<noteq> Inr p"
  by (simp_all add: load_of_def Let_def and_then_Inr_iff entry_is_file_def legacy_of_def)

lemma prepared_load:
  assumes "prepared d0 d"
  shows "load_of c root ident d = Inr p \<longleftrightarrow> load_of c root ident d0 = Inr p"
  using prepared_entries [OF assms]
proof
  assume "own_dir d = own_dir d0 \<and> entry d WatermarkFile = entry d0 WatermarkFile
       \<and> entry d EventsFile = entry d0 EventsFile \<and> entry d ManifestFile = entry d0 ManifestFile"
  then show ?thesis by (simp only: load_of_def)
next
  assume "own_dir d0 = NoDir \<and> own_dir d = RealDir \<and> entry d WatermarkFile = None
       \<and> entry d EventsFile = None \<and> entry d ManifestFile = None"
  then show ?thesis using load_of_empty by blast
qed

lemma prepared_watermark:
  assumes "prepared d0 d" and "has_watermark d0" and "load_of c root ident d0 = Inr p"
  shows "has_watermark d"
  using prepared_entries [OF assms(1)] assms(2,3) load_of_empty(1) [of d0 c root ident p]
  unfolding has_watermark_def by auto

lemma prepared_lock: "prepared d0 d \<Longrightarrow> prepared d0 (set_entry LockFile e d)"
  by (simp add: prepared_def set_entry_def unlocked_def)

lemma keeps_create:
  assumes "\<And>d. P d \<Longrightarrow> which d = NoDir \<Longrightarrow> P (create d)"
  shows "keeps P (ensure_private_directory path which create)"
proof -
  have step: "keeps P (seq (look which) (\<lambda>s. seq (if s = NoDir then change create else give ()) p))"
    if "\<And>a. keeps P (p a)" for p :: "unit \<Rightarrow> unit program"
    using that assms by (auto simp: keeps_def seq_def program_simps)
  show ?thesis
    unfolding ensure_private_directory_def by (intro keeps_seq step keeps_basic keeps_reads)
qed

lemma keeps_lock_session: "keeps (prepared d0) (lock_session dir)"
  unfolding lock_session_def
  by (intro keeps_intros) (auto intro: prepared_lock)

lemma lock_session_Inr: "lock_session dir io = (Inr u, io') \<Longrightarrow> own_dir (disk io') = own_dir (disk io)"
proof -
  assume run: "lock_session dir io = (Inr u, io')"
  have "keeps (\<lambda>d. own_dir d = own_dir (disk io)) (lock_session dir)"
    unfolding lock_session_def by (intro keeps_intros) (auto simp: set_entry_def)
  from keepsD [OF this run] show ?thesis by simp
qed

lemma keeps_directories:
  "keeps (prepared d0) (ensure_private_directory path root_dir (\<lambda>d. d\<lparr>root_dir := RealDir\<rparr>))"
  "keeps (prepared d0) (ensure_private_directory path own_dir (\<lambda>d. d\<lparr>own_dir := RealDir, entry := \<lambda>_. None\<rparr>))"
  by (rule keeps_create; auto simp: prepared_def unlocked_def)+

lemma own_directory_Inr:
  assumes "ensure_private_directory path own_dir create io = (Inr u, io')"
  shows "own_dir (disk io') = RealDir"
proof -
  from assms obtain io1 io2 where e: "ensure_existing_directory path own_dir io1 = (Inr (), io2)"
    and s: "sys_call path io2 = (Inr u, io')"
    unfolding ensure_private_directory_def seq_Inr by auto
  from reads_Inr [OF reads_directory e] sys_call_same [OF s] show ?thesis by (auto split: dir_state.splits)
qed

text \<open>
  C3. Saves are atomic and durable, whatever fails. For every sequence of faults, whichever system
  call they meet and however much of an append they let through: a save that returns \<open>Ok\<close> is read
  back as its redacted form, and it kept the identity, the creation time and the origin of the
  session that was there, and did not go back in time; and after any save, also one that failed or broke off half way, the
  directory loads as the session saved, or it loads exactly what it loaded before. The sequence
  numbers must not be used up, and the session must not be a legacy session saved again unchanged.
\<close>

theorem saves_are_atomic:
  assumes c: "codec_laws c"
    and room: "\<And>p w. fst (replay_committed c (path_push root (session_id s)) (session_id s)
        \<lparr>disk = disk io, io_faults = [], fresh_count = 0\<rparr>) = Inr (p, w) \<Longrightarrow> wm_last_event_seq w + 67 \<le> u64_max"
    and marked: "has_watermark (disk io) \<or>
      load_entry c root (session_id s) (disk io) \<noteq> Inr (stored_form (sha256 c) (to_hex c) s)"
    and run: "save_sync c root s io = (r, io')"
  shows "(if r = Inr () then load_entry c root (session_id s) (disk io') = Inr (stored_form (sha256 c) (to_hex c) s)
        \<and> (case load_entry c root (session_id s) (disk io) of
            Inr p \<Rightarrow> validate_replacement p (stored_form (sha256 c) (to_hex c) s) = Inr () | Inl e \<Rightarrow> True)
      else True)
    \<and> (load_entry c root (session_id s) (disk io') = Inr (stored_form (sha256 c) (to_hex c) s)
      \<or> (\<forall>p. load_entry c root (session_id s) (disk io') = Inr p \<longleftrightarrow> load_entry c root (session_id s) (disk io) = Inr p))"
proof -
  let ?dir = "path_push root (session_id s)"
  let ?L = "load_of c root (session_id s)" and ?S = "stored_form (sha256 c) (to_hex c) s"
  have early: "old_or_new c root s (disk io) (Inl e) d" if "prepared (disk io) d" for e d
    using prepared_load [OF that] by (simp add: old_or_new_def)
  have "old_or_new c root s (disk io) r (disk io')"
    using run unfolding save_sync_def Let_def
  proof (cases rule: seq_cases)
    case (failed e)
    then have "io' = io" by (simp add: program_simps)
    with failed(2) show ?thesis by (simp add: early prepared_refl)
  next
    case (went_on u io1)
    then have v: "validate_session s = Inr ()" and "prepared (disk io) (disk io1)"
      by (simp_all add: program_simps prepared_refl)
    from went_on(2) show ?thesis
    proof (cases rule: seq_cases)
      case (failed e)
      from keepsD [OF keeps_directories(1) failed(1) \<open>prepared (disk io) (disk io1)\<close>] failed(2)
      show ?thesis by (simp add: early)
    next
      case (went_on u io2)
      note p2 = keepsD [OF keeps_directories(1) went_on(1) \<open>prepared (disk io) (disk io1)\<close>]
      from went_on(2) show ?thesis
      proof (cases rule: seq_cases)
        case (failed e)
        from keepsD [OF keeps_directories(2) failed(1) p2] failed(2) show ?thesis by (simp add: early)
      next
        case (went_on u io3)
        note p3 = keepsD [OF keeps_directories(2) went_on(1) p2] and own3 = own_directory_Inr [OF went_on(1)]
        from went_on(2) show ?thesis
        proof (cases rule: seq_cases)
          case (failed e)
          from keepsD [OF keeps_lock_session failed(1) p3] failed(2) show ?thesis by (simp add: early)
        next
          case (went_on u io4)
          note p4 = keepsD [OF keeps_lock_session went_on(1) p3]
          have own4: "own_dir (disk io4) = RealDir" using lock_session_Inr [OF went_on(1)] own3 by simp
          have "fst (replay_committed c ?dir (session_id s) \<lparr>disk = disk io, io_faults = [], fresh_count = 0\<rparr>) =
              committed_of c ?dir (session_id s) (entry (disk io) WatermarkFile) (entry (disk io) EventsFile)"
            by (simp add: reads_quiet [OF reads_replay])
          with room have "wm_last_event_seq w + 67 \<le> u64_max" if "committed_of c ?dir (session_id s)
              (entry (disk io4) WatermarkFile) (entry (disk io4) EventsFile) = Inr (p, w)" for p w
            using that prepared_entries [OF p4]
            by (auto simp: committed_of_def watermark_of_def bounded_json_def entry_bytes_def and_then_Inr_iff)
          moreover have "has_watermark (disk io4) \<or> ?L (disk io4) \<noteq> Inr ?S"
            using marked prepared_load [OF p4, of c root "session_id s" ?S] prepared_watermark [OF p4]
            unfolding load_entry_eq by blast
          ultimately have "old_or_new c root s (disk io4) r (disk io')"
            using save_locked_outcome [OF c own4 v _ _ went_on(2)] by blast
          then show ?thesis using prepared_load [OF p4] by (rule old_or_new_from)
        qed
      qed
    qed
  qed
  then show ?thesis unfolding old_or_new_def Let_def load_entry_eq .
qed

theorem saves_are_atomic_witness:
  "fst (save_sync sample_codec ''/r'' sample_session sample_io) = Inr ()
   \<and> load_entry sample_codec ''/r'' ''a'' (disk (snd (save_sync sample_codec ''/r'' sample_session sample_io))) =
     Inr sample_session"
proof -
  let ?before = "load_entry sample_codec ''/r'' (session_id sample_session) (disk sample_io)"
  have none: "?before \<noteq> Inr p" for p
    unfolding load_entry_eq by (rule load_of_empty(1)) (simp add: sample_io_def)
  have room: "wm_last_event_seq w + 67 \<le> u64_max" if "fst (replay_committed sample_codec
      (path_push ''/r'' (session_id sample_session)) (session_id sample_session)
      \<lparr>disk = disk sample_io, io_faults = [], fresh_count = 0\<rparr>) = Inr (p, w)" for p w
    using that
    by (simp add: reads_quiet [OF reads_replay] sample_io_def committed_of_def watermark_of_def safe_entry_def
        bounded_json_def entry_bytes_def)
  have run: "save_sync sample_codec ''/r'' sample_session sample_io =
      (Inr (), snd (save_sync sample_codec ''/r'' sample_session sample_io))"
    using sample_save_runs by (metis prod.collapse)
  from saves_are_atomic [OF sample_codec_laws room disjI2 [OF none] run] sample_save_runs
  show ?thesis by simp
qed

end
