(* ===== verification/Session_Legacy.thy ===== *)
theory Session_Legacy
  imports Session_Atomic
begin

section \<open>Legacy sessions saved again\<close>

text \<open>
  A session of an older schema is one manifest file that holds the whole session, without log and
  watermark. \<open>save_sync\<close> migrates it when it changed; when it did not, only the manifest of the
  current schema is written, over the file that holds the session.
\<close>

lemma manifest_plain:
  assumes "wm_last_event_seq w \<le> u64_max" and "wm_event_log_bytes w \<le> u64_max"
    and "length (session_history s) \<le> u64_max"
  shows "plain_json (manifest_json s w)"
proof -
  have "current_schema \<le> u64_max" by (simp add: current_schema_def u64_max_def)
  with assms show ?thesis by (simp add: manifest_json_def Let_def split: option.split)
qed

lemma manifest_schema: "\<exists>obj. manifest_json s w = JObject obj \<and> nat_field u64_max obj ''schema_version'' = Some current_schema"
  by (simp add: manifest_json_def Let_def current_schema_def u64_max_def)

lemma manifest_load:
  assumes c: "codec_laws c" and v: "validate_session_id ident = Inr ()" and own: "own_dir d = RealDir"
    and nw: "entry_is_file (path_push root ident) WatermarkFile (entry d WatermarkFile) = Inr False"
    and m: "entry d ManifestFile = Some (Regular (json_bytes c (manifest_json s w)))"
    and pl: "plain_json (manifest_json s w)"
    and len: "length (json_bytes c (manifest_json s w)) \<le> max_manifest_bytes"
  shows "load_of c root ident d = Inl (Corrupt ''schema-v3 manifest is missing its commit watermark'')"
proof -
  have "length (json_bytes c (manifest_json s w)) \<le> max_state_bytes"
    using len by (simp add: max_manifest_bytes_def max_state_bytes_def)
  then have "bounded_json c (path_push root ident) ManifestFile max_state_bytes (entry d ManifestFile) =
      Inr (manifest_json s w)"
    using m codec_simps(1,2) [OF c] pl by (simp add: bounded_json_def entry_bytes_def)
  moreover obtain obj where "manifest_json s w = JObject obj"
      and "nat_field u64_max obj ''schema_version'' = Some current_schema"
    using manifest_schema by blast
  ultimately have "legacy_of c (path_push root ident) ident (entry d ManifestFile) =
      Inl (Corrupt ''schema-v3 manifest is missing its commit watermark'')"
    using m by (simp add: legacy_of_def entry_is_file_def safe_entry_def)
  then show ?thesis using v own nw by (simp add: load_of_def)
qed

text \<open>
  C12. An unchanged legacy session that is saved is lost. When a directory without a watermark loads
  as the very session that is saved, the save returns \<open>Ok\<close> after writing the manifest of the current
  schema over the only copy, and every later load fails: the session is corrupt, its watermark
  missing.
\<close>

theorem unchanged_legacy_sessions_are_lost:
  assumes c: "codec_laws c"
    and nw: "entry (disk io) WatermarkFile = None"
    and ld: "load_entry c root (session_id s) (disk io) = Inr (stored_form (sha256 c) (to_hex c) s)"
    and n: "length (session_history s) \<le> u64_max"
    and run: "save_sync c root s io = (Inr (), io')"
  shows "load_entry c root (session_id s) (disk io') =
    Inl (Corrupt ''schema-v3 manifest is missing its commit watermark'')"
proof -
  let ?S = "stored_form (sha256 c) (to_hex c) s" and ?dir = "path_push root (session_id s)"
  from run obtain io1 io2 io3 where v: "validate_session s = Inr ()"
    and p1: "ensure_private_directory root root_dir (\<lambda>d. d\<lparr>root_dir := RealDir\<rparr>) io = (Inr (), io1)"
    and p2: "ensure_private_directory ?dir own_dir (\<lambda>d. d\<lparr>own_dir := RealDir, entry := \<lambda>_. None\<rparr>) io1 = (Inr (), io2)"
    and p3: "lock_session ?dir io2 = (Inr (), io3)" and body: "save_locked c ?dir s io3 = (Inr (), io')"
    by (auto simp: save_sync_def Let_def seq_Inr program_simps)
  have prep: "prepared (disk io) (disk io3)"
    using keepsD [OF keeps_lock_session p3 keepsD [OF keeps_directories(2) p2
          keepsD [OF keeps_directories(1) p1 prepared_refl]]] .
  have own: "own_dir (disk io3) = RealDir"
    using lock_session_Inr [OF p3] own_directory_Inr [OF p2] by simp
  have vid: "validate_session_id (session_id s) = Inr ()" using v by (simp add: validate_session_iff)
  have ld3: "load_of c root (session_id s) (disk io3) = Inr ?S"
    using ld prepared_load [OF prep] unfolding load_entry_eq by blast
  have nw3: "entry (disk io3) WatermarkFile = None" using prepared_entries [OF prep] nw by auto
  from body obtain existing io4 where ex: "existing_session c ?dir (session_id s) io3 = (Inr existing, io4)"
    and rest: "(if map_option fst existing = Some ?S then
           (case existing of Some (_, w) \<Rightarrow> write_manifest_best_effort c ?dir ?S w | None \<Rightarrow> give ())
         else if session_bytes c ?S = [] \<or> max_state_bytes < length (session_bytes c ?S) then
             fail (SessionUnavailable
               (''session state exceeds the '' @ show_nat max_state_bytes @ '' byte limit''))
           else commit_session c ?dir ?S (session_bytes c ?S) existing) io4 = (Inr (), io')"
    unfolding save_locked_def Let_def seq_Inr by (auto simp only: lift_def prod.inject)
  note d4 = existing_session_Inr(1) [OF ex] and f = existing_session_Inr(2) [OF ex]
  have nh: "\<not> has_watermark (disk io3)" using nw3 by (simp add: has_watermark_def)
  obtain w where ew: "existing = Some (?S, w)"
    using load_of_found [OF vid own f] ld3 by (cases existing) auto
  with f nh have w: "wm_last_event_seq w = 0" "wm_event_log_bytes w = 0" by (simp_all add: found_def)
  from rest ew have "write_manifest_best_effort c ?dir ?S w io4 = (Inr (), io')" by simp
  then have d': "disk io' = set_entry ManifestFile (Some (Regular (json_bytes c (manifest_json ?S w)))) (disk io4)"
    and len: "length (json_bytes c (manifest_json ?S w)) \<le> max_manifest_bytes"
    unfolding write_manifest_best_effort_def by (auto elim: atomic_write_cases)
  have pl: "plain_json (manifest_json ?S w)"
    using n by (intro manifest_plain) (simp_all add: w stored_form_def redact_durable_session_def)
  show ?thesis
    unfolding load_entry_eq
    by (rule manifest_load [OF c vid _ _ _ pl len])
      (simp_all add: d' d4 own nw3 set_entry_def entry_is_file_def)
qed

text \<open>A directory with a session of schema 2.\<close>

definition legacy_io :: store_io where
  "legacy_io = \<lparr>disk = \<lparr>root_dir = RealDir, own_dir = RealDir,
       entry = [ManifestFile \<mapsto> Regular (json_text (session_json (sample_session\<lparr>schema_version := 2\<rparr>)))]\<rparr>,
     io_faults = [], fresh_count = 0\<rparr>"

lemma legacy_sample:
  "legacy_of sample_codec dir ''a'' (Some (Regular (json_text (session_json (sample_session\<lparr>schema_version := 2\<rparr>))))) =
     Inr (Some sample_session)"
proof -
  let ?s = "sample_session\<lparr>schema_version := 2\<rparr>"
  have "length (json_text (session_json ?s)) \<le> max_state_bytes"
    by (simp add: sample_session_def session_json_def json_nat_def some_field_def max_state_bytes_def)
  moreover have "json_parse sample_codec (json_text (session_json ?s)) = Inr (session_json ?s)"
    by (simp add: sample_codec_def json_text_roundtrip)
  moreover have "session_of_json (session_json ?s) = Some ?s"
    by (rule session_roundtrip) (simp add: u32_max_def)
  moreover have "\<exists>obj. session_json ?s = JObject obj \<and> nat_field u64_max obj ''schema_version'' = Some 2"
    by (simp add: session_json_def u64_max_def)
  moreover have "validate_session ?s = Inr ()"
    using sample_session_valid by (simp add: validate_session_iff)
  moreover have "?s\<lparr>schema_version := current_schema\<rparr> = sample_session" "session_id ?s = ''a''"
    by (simp_all add: sample_session_def current_schema_def)
  ultimately show ?thesis
    by (auto simp: legacy_of_def entry_is_file_def safe_entry_def bounded_json_def entry_bytes_def
        json_text_nonempty session_of_value_def current_schema_def)
qed

lemma legacy_save_runs: "fst (save_sync sample_codec ''/r'' sample_session legacy_io) = Inr ()"
proof -
  let ?io = "\<lparr>disk = \<lparr>root_dir = RealDir, own_dir = RealDir, entry =
      [ManifestFile \<mapsto> Regular (json_text (session_json (sample_session\<lparr>schema_version := 2\<rparr>))), LockFile \<mapsto> Regular []]\<rparr>,
     io_faults = [], fresh_count = 0\<rparr>"
  have run: "save_sync sample_codec ''/r'' sample_session legacy_io =
      save_locked sample_codec (path_push ''/r'' ''a'') sample_session ?io"
    by (simp add: save_sync_def sample_session_valid seq_def program_simps sys_call_quiet legacy_io_def Let_def
        ensure_private_directory_def ensure_existing_directory_def lock_session_def reject_unsafe_file_def
        set_entry_def fun_upd_twist)
  have ll: "load_legacy_optional sample_codec dir ''a'' ?io = (Inr (Some sample_session), ?io)" for dir
    by (subst reads_quiet [OF reads_legacy]) (simp_all add: legacy_sample)
  have len: "\<not> max_manifest_bytes < length (json_text (manifest_json sample_session \<lparr>wm_schema_version = v, wm_session_id = ''a'',
      wm_log_generation = zero_identifier, wm_last_event_seq = 0, wm_last_event_id = zero_identifier,
      wm_event_log_bytes = 0, wm_event_log_sha256 = to_hex sample_codec (sha256 sample_codec x)\<rparr>))" for v x
    by (simp add: manifest_json_def Let_def sample_codec_simps json_nat_def max_manifest_bytes_def)
      (simp add: sample_session_def preview_def current_schema_def)
  show ?thesis
    unfolding run
    using len
    by (simp add: save_locked_def existing_session_def path_is_file_def ll seq_def program_simps sys_call_quiet
        Let_def sample_codec_simps validate_replacement_def write_manifest_best_effort_def
        atomic_write_json_def reject_unsafe_file_def json_text_nonempty)
qed

theorem unchanged_legacy_sessions_are_lost_witness:
  "load_entry sample_codec ''/r'' ''a'' (disk legacy_io) = Inr sample_session
   \<and> fst (save_sync sample_codec ''/r'' sample_session legacy_io) = Inr ()
   \<and> load_entry sample_codec ''/r'' ''a'' (disk (snd (save_sync sample_codec ''/r'' sample_session legacy_io))) =
     Inl (Corrupt ''schema-v3 manifest is missing its commit watermark'')"
proof -
  have nw: "entry (disk legacy_io) WatermarkFile = None" by (simp add: legacy_io_def)
  have vid: "validate_session_id ''a'' = Inr ()" using sample_session_valid by (simp add: validate_session_iff)
  have ld: "load_entry sample_codec ''/r'' (session_id sample_session) (disk legacy_io) =
      Inr (stored_form (sha256 sample_codec) (to_hex sample_codec) sample_session)"
    unfolding load_entry_eq
    by (simp add: load_of_def vid legacy_io_def entry_is_file_def legacy_sample)
  have n: "length (session_history sample_session) \<le> u64_max" by (simp add: sample_session_def)
  have run: "save_sync sample_codec ''/r'' sample_session legacy_io =
      (Inr (), snd (save_sync sample_codec ''/r'' sample_session legacy_io))"
    using legacy_save_runs by (metis prod.collapse)
  from unchanged_legacy_sessions_are_lost [OF sample_codec_laws nw ld n run] ld legacy_save_runs
  show ?thesis by simp
qed

end
