(* ===== verification/Session_List.thy ===== *)
theory Session_List
  imports Session_Store "HOL-Library.Multiset"
begin

section \<open>Listing sessions\<close>

text \<open>What \<open>list_sync\<close> of \<open>fx-store/src/lib.rs\<close> promises: which sessions, how many, in which order.\<close>

lemma bytes_less_trans: "\<not> bytes_less xs ys \<Longrightarrow> \<not> bytes_less ys zs \<Longrightarrow> \<not> bytes_less xs zs"
proof (induction xs ys arbitrary: zs rule: bytes_less.induct)
  case (1 xs)
  then show ?case by (cases zs; cases xs) auto
next
  case (3 x xs y ys)
  then show ?case by (cases zs) auto
qed simp

lemma bytes_less_asym: "bytes_less xs ys \<Longrightarrow> \<not> bytes_less ys xs"
  by (induction xs ys rule: bytes_less.induct) auto

lemma bytes_less_total: "\<not> bytes_less xs ys \<Longrightarrow> \<not> bytes_less ys xs \<Longrightarrow> xs = ys"
proof (induction xs ys rule: bytes_less.induct)
  case (1 xs)
  then show ?case by (cases xs) simp_all
qed auto

lemma before_asym: "before a b \<Longrightarrow> \<not> before b a"
  by (auto simp: before_def dest: bytes_less_asym)

lemma before_trans: "\<not> before b a \<Longrightarrow> \<not> before c b \<Longrightarrow> \<not> before c a"
  by (auto simp: before_def dest: bytes_less_trans)

abbreviation newest_first :: "session_summary list \<Rightarrow> bool" where
  "newest_first \<equiv> sorted_wrt (\<lambda>a b. \<not> before b a)"

lemma insert_recent_set [simp]: "set (insert_recent x ys) = insert x (set ys)"
  by (induction ys) auto

lemma insert_recent_mset [simp]: "mset (insert_recent x ys) = add_mset x (mset ys)"
  by (induction ys) auto

lemma insert_recent_sorted: "newest_first ys \<Longrightarrow> newest_first (insert_recent x ys)"
proof (induction ys)
  case (Cons y ys)
  then show ?case using before_asym [of y x] before_trans by auto
qed simp

lemma sort_recent_sorted: "newest_first (sort_recent xs)"
  by (induction xs) (simp_all add: sort_recent_def insert_recent_sorted)

lemma sort_recent_mset: "mset (sort_recent xs) = mset xs"
  by (induction xs) (simp_all add: sort_recent_def)

text \<open>
  A list of sessions is the newest of them. With a limit and a root, \<open>list\<close> gives the first
  \<open>limit\<close> of all the sessions that load and belong to the workspace, in the order of their last
  update, the latest first and among equals the larger name first: nothing that is listed is
  missing but for the limit, nothing that does not load is listed, and whatever is left out comes
  after everything that is given. A root that does not exist has no sessions.
\<close>

theorem sessions_are_listed_newest_first:
  "(\<exists>left_out. mset (list_sync c root (Some es) workspace limit) + mset left_out =
       mset (List.map_filter (listed c root (map_option normalize_workspace workspace)) es)
     \<and> length (list_sync c root (Some es) workspace limit) =
       min limit (length (List.map_filter (listed c root (map_option normalize_workspace workspace)) es))
     \<and> sorted_wrt (\<lambda>a b. \<not> before b a) (list_sync c root (Some es) workspace limit)
     \<and> list_all (\<lambda>a. list_all (\<lambda>b. \<not> before b a) left_out) (list_sync c root (Some es) workspace limit))
   \<and> list_sync c root None workspace limit = []"
proof -
  let ?all = "sort_recent (List.map_filter (listed c root (map_option normalize_workspace workspace)) es)"
  have ls: "list_sync c root (Some es) workspace limit = take limit ?all" by (simp add: list_sync_def)
  have m: "mset ?all = mset (List.map_filter (listed c root (map_option normalize_workspace workspace)) es)"
    by (rule sort_recent_mset)
  have "sorted_wrt (\<lambda>a b. \<not> before b a) (take limit ?all @ drop limit ?all)"
    using sort_recent_sorted by simp
  then have s: "newest_first (take limit ?all)"
      "list_all (\<lambda>a. list_all (\<lambda>b. \<not> before b a) (drop limit ?all)) (take limit ?all)"
    unfolding sorted_wrt_append by (auto simp: list_all_iff)
  have "mset (take limit ?all) + mset (drop limit ?all) = mset ?all"
    by (metis append_take_drop_id mset_append)
  moreover have "length ?all = length (List.map_filter (listed c root (map_option normalize_workspace workspace)) es)"
    using m by (metis size_mset)
  ultimately show ?thesis
    using s m unfolding ls by (intro conjI exI [of _ "drop limit ?all"]) (simp_all add: list_sync_def min.commute)
qed

end
