(* ===== verification/Monitor_Set.thy ===== *)
theory Monitor_Set
  imports Monitor Workspace_Path
begin

section \<open>The monitors of a terminal session\<close>

text \<open>
  \<open>fx-process/src/terminal_monitor_store.rs\<close> with \<open>terminal_observation.rs\<close>: the set of monitors of a
  session with its event log, the operations on it, and its evaluation against an observation of the
  terminal. A function that works on a local copy of the set and drops
  it on an error gives only the error. What the code asks of the operating system during one call
  is the record \<open>monitor_world\<close>; \<open>http::Uri\<close> and SHA-256 are third-party.
\<close>

definition set_schema_version :: nat where "set_schema_version = 1"
definition maximum_monitors :: nat where "maximum_monitors = 32"
definition maximum_events :: nat where "maximum_events = 1024"
definition maximum_set_bytes :: nat where "maximum_set_bytes = 2 * 1024 * 1024"
definition probe_output_bytes :: nat where "probe_output_bytes = 16 * 1024"

datatype observed_lifecycle = Running | Exited | Lost | Closed

record terminal_observation =
  obs_lifecycle :: observed_lifecycle
  obs_exit_code :: "32 word option"
  obs_signal :: "monitor_signal option"
  obs_cursor_start :: u64
  obs_cursor_end :: u64
  obs_raw_gap :: bool
  obs_output :: string
  obs_screen_text :: "string option"
  obs_workspace_root :: string
  obs_cwd :: string

record monitor_event =
  me_event_id :: u64
  me_monitor_id :: string
  me_reason :: event_reason
  me_lifecycle :: observed_lifecycle
  me_cursor_segment :: u64
  me_cursor_offset :: u64
  me_created_at_ms :: i64

record monitor_summary =
  msu_monitor_id :: string
  msu_state :: monitor_state

record inspect_monitors =
  im_monitors :: "monitor_summary list"
  im_events :: "monitor_event list"
  im_event_gap_through :: u64
  im_next_event_id :: u64

record monitor_set =
  ms_schema_version :: nat
  ms_session_id :: string
  ms_next_monitor_id :: u64
  ms_next_event_id :: u64
  ms_event_gap_through :: u64
  ms_acknowledged_through :: u64
  ms_cursor_offset :: u64
  ms_last_output_at_ms :: i64
  ms_last_lifecycle :: observed_lifecycle
  ms_monitors :: "monitor list"
  ms_events :: "monitor_event list"

definition corrupt :: "string \<Rightarrow> tool_error" where
  "corrupt m = Execution (''terminal monitor state is corrupt: '' @ m)"

definition corrupt_monitor :: "monitor_error \<Rightarrow> tool_error" where
  "corrupt_monitor e = corrupt (show_monitor_error e)"

definition monitor_io_error :: "string \<Rightarrow> string \<Rightarrow> tool_error" where
  "monitor_io_error context e = Execution (context @ '': '' @ e)"

subsection \<open>The set\<close>

definition empty_set :: "string \<Rightarrow> u64 \<Rightarrow> observed_lifecycle \<Rightarrow> i64 \<Rightarrow> monitor_set" where
  "empty_set sid cursor lifecycle now =
     \<lparr>ms_schema_version = set_schema_version, ms_session_id = sid, ms_next_monitor_id = 1,
      ms_next_event_id = 1, ms_event_gap_through = 0, ms_acknowledged_through = 0,
      ms_cursor_offset = cursor, ms_last_output_at_ms = now, ms_last_lifecycle = lifecycle,
      ms_monitors = [], ms_events = []\<rparr>"

definition is_ascii_hexdigit :: "char \<Rightarrow> bool" where
  "is_ascii_hexdigit c \<longleftrightarrow> is_ascii_digit c \<or> (65 \<le> byte_of c \<and> byte_of c \<le> 70)
     \<or> (97 \<le> byte_of c \<and> byte_of c \<le> 102)"

definition valid_terminal_id :: "string \<Rightarrow> bool" where
  "valid_terminal_id v =
     (case (case strip_prefix v ''terminal-n-'' of Some s \<Rightarrow> Some s | None \<Rightarrow> strip_prefix v ''terminal-t-'') of
        None \<Rightarrow> False
      | Some digits \<Rightarrow> length digits = 32 \<and> list_all is_ascii_hexdigit digits)"

fun validate_events :: "u64 \<Rightarrow> u64 \<Rightarrow> monitor_event list \<Rightarrow> tool_error + unit" where
  "validate_events next_id previous [] = Inr ()"
| "validate_events next_id previous (e # es) =
     (if me_event_id e \<le> previous \<or> next_id \<le> me_event_id e \<or> me_monitor_id e = []
         \<or> me_cursor_segment e = 0 \<or> sint (me_created_at_ms e) < 0 then
        Inl (corrupt ''monitor event sequence is invalid'')
      else validate_events next_id (me_event_id e) es)"

fun validate_monitors :: "monitor list \<Rightarrow> tool_error + unit" where
  "validate_monitors [] = Inr ()"
| "validate_monitors (m # ms) =
     and_then (map_err corrupt_monitor (validate_monitor m)) (\<lambda>_. validate_monitors ms)"

definition validate_set :: "string \<Rightarrow> monitor_set \<Rightarrow> tool_error + unit" where
  "validate_set expected s =
     (if ms_schema_version s \<noteq> set_schema_version \<or> ms_session_id s \<noteq> expected
         \<or> \<not> valid_terminal_id (ms_session_id s) \<or> ms_next_monitor_id s = 0 \<or> ms_next_event_id s = 0
         \<or> sint (ms_last_output_at_ms s) < 0 \<or> ms_next_event_id s \<le> ms_acknowledged_through s
         \<or> ms_next_event_id s \<le> ms_event_gap_through s \<or> maximum_monitors < length (ms_monitors s)
         \<or> maximum_events < length (ms_events s) then
        Inl (corrupt ''monitor set metadata is invalid'')
      else and_then (validate_monitors (ms_monitors s)) (\<lambda>_.
        validate_events (ms_next_event_id s) (max (ms_event_gap_through s) (ms_acknowledged_through s))
          (ms_events s)))"

definition active_count :: "monitor_set \<Rightarrow> nat" where
  "active_count s = length (filter (\<lambda>m. \<not> suspended m) (ms_monitors s))"

text \<open>\<open>while self.events.len() > MAXIMUM_EVENTS\<close>.\<close>

fun trim_events :: "monitor_event list \<Rightarrow> u64 \<Rightarrow> monitor_event list \<times> u64" where
  "trim_events [] gap = ([], gap)"
| "trim_events (e # es) gap =
     (if maximum_events < length (e # es) then trim_events es (max gap (me_event_id e)) else (e # es, gap))"

text \<open>A method of the monitor at an index; its error is a corrupt set.\<close>

definition on_monitor ::
  "nat \<Rightarrow> (monitor \<Rightarrow> (monitor_error + 'a) \<times> monitor) \<Rightarrow> monitor_set \<Rightarrow> tool_error + 'a \<times> monitor_set" where
  "on_monitor i f s =
     (case f (ms_monitors s ! i) of
        (Inl e, _) \<Rightarrow> Inl (corrupt_monitor e)
      | (Inr a, m) \<Rightarrow> Inr (a, s\<lparr>ms_monitors := (ms_monitors s)[i := m]\<rparr>))"

definition push_event ::
  "nat \<Rightarrow> event_reason \<Rightarrow> observed_lifecycle \<Rightarrow> u64 \<Rightarrow> i64 \<Rightarrow> monitor_set \<Rightarrow> tool_error + monitor_set" where
  "push_event i reason lifecycle cursor now s =
     (let event_id = ms_next_event_id s in
      and_then (ok_or (corrupt ''monitor event id exhausted'') (checked_add_u64 event_id 1)) (\<lambda>next_id.
      if length (ms_monitors s) \<le> i then Inl (corrupt ''monitor index is invalid'')
      else and_then (on_monitor i (note_notification event_id reason) (s\<lparr>ms_next_event_id := next_id\<rparr>)) (\<lambda>(_, s).
        let event = \<lparr>me_event_id = event_id, me_monitor_id = monitor_id (ms_monitors s ! i), me_reason = reason,
              me_lifecycle = lifecycle, me_cursor_segment = 1, me_cursor_offset = cursor, me_created_at_ms = now\<rparr>;
            (events, gap) = trim_events (ms_events s @ [event]) (ms_event_gap_through s) in
        Inr (s\<lparr>ms_events := events, ms_event_gap_through := gap\<rparr>))))"

definition summaries :: "monitor_set \<Rightarrow> monitor_summary list" where
  "summaries s = map (\<lambda>m. \<lparr>msu_monitor_id = monitor_id m, msu_state = state m\<rparr>) (ms_monitors s)"

definition remove_at :: "nat \<Rightarrow> 'a list \<Rightarrow> 'a list" where
  "remove_at i xs = take i xs @ drop (Suc i) xs"

definition find_monitor :: "monitor_set \<Rightarrow> string \<Rightarrow> tool_error + nat" where
  "find_monitor s ident =
     (case find (\<lambda>i. monitor_id (ms_monitors s ! i) = ident) [0..<length (ms_monitors s)] of
        None \<Rightarrow> Inl (InvalidArguments (''terminal monitor not found: '' @ ident))
      | Some i \<Rightarrow> Inr i)"

subsection \<open>What a monitor looks at\<close>

record uri =
  uri_scheme :: "string option"
  uri_authority :: "string option"
  uri_host :: "string option"
  uri_port :: "16 word option"
  uri_path_and_query :: "string option"

text \<open>
  A probe that could not be started, one that did not end in time or could not be waited for, and
  one that ended, with its success and what it wrote.
\<close>

datatype probe_outcome = NotStarted | Unfinished | Ended bool nat nat

record monitor_world =
  mw_files :: file_system
  mw_stat :: "string \<Rightarrow> io_error + (u64 \<times> int option)"
  mw_is_dir :: "string \<Rightarrow> bool"
  mw_sha256 :: "string \<Rightarrow> nat list"
  mw_uri :: "string \<Rightarrow> uri option"
  mw_addresses :: "string \<Rightarrow> 16 word \<Rightarrow> string list"
  mw_connects :: "string \<Rightarrow> bool"
  mw_exchange :: "string \<Rightarrow> string \<Rightarrow> string option list option"
  mw_probe :: "string \<Rightarrow> string \<Rightarrow> probe_outcome"

definition resolve_monitor_path ::
  "monitor_world \<Rightarrow> string \<Rightarrow> string \<Rightarrow> string \<Rightarrow> bool \<Rightarrow> tool_error + string" where
  "resolve_monitor_path w root cwd input existing =
     (let fs = mw_files w in
      and_then (map_err (\<lambda>e. Execution (''workspace is unavailable: '' @ io_message e)) (canonicalize fs root)) (\<lambda>workspace.
      and_then (map_err (\<lambda>e. Execution (''terminal cwd is unavailable: '' @ io_message e)) (canonicalize fs cwd)) (\<lambda>dir.
      and_then (ok_or (OutsideWorkspace dir) (path_strip_prefix dir workspace)) (\<lambda>relative.
      let requested = (if is_absolute input then input else path_push relative input) in
      if \<not> valid_utf8 requested then Inl (InvalidArguments ''terminal monitor path is not valid UTF-8'')
      else and_then (if existing then resolve_existing fs workspace requested
          else resolve_target fs workspace requested) (\<lambda>resolved.
        if \<not> path_starts_with (absolute resolved) workspace then Inl (OutsideWorkspace (absolute resolved))
        else Inr (absolute resolved))))))"

definition stat_baseline :: "monitor_world \<Rightarrow> string \<Rightarrow> tool_error + path_baseline" where
  "stat_baseline w path =
     (case mw_stat w path of
        Inl e \<Rightarrow>
          if io_not_found e then Inr \<lparr>pb_exists = False, pb_size = 0, pb_modified_ns = 0\<rparr>
          else Inl (monitor_io_error ''stat terminal monitor path'' (io_message e))
      | Inr (bytes, modified) \<Rightarrow>
          Inr \<lparr>pb_exists = True, pb_size = bytes,
               pb_modified_ns = (case modified of None \<Rightarrow> 0 | Some t \<Rightarrow> t)\<rparr>)"

record http_target =
  ht_host :: string
  ht_port :: "16 word"
  ht_authority :: string
  ht_path_and_query :: string

definition parse_http_target :: "monitor_world \<Rightarrow> string \<Rightarrow> tool_error + http_target" where
  "parse_http_target w url =
     and_then (ok_or (InvalidArguments ''terminal HTTP monitor URL is invalid'') (mw_uri w url)) (\<lambda>u.
     if uri_scheme u \<noteq> Some ''http'' then
       Inl (InvalidArguments ''terminal HTTP monitor supports only http:// URLs'')
     else and_then (ok_or (InvalidArguments ''terminal HTTP monitor URL has no authority'') (uri_authority u)) (\<lambda>authority.
     if CHR ''@'' \<in> set authority then
       Inl (InvalidArguments ''terminal HTTP monitor URL must not contain user information'')
     else and_then (ok_or (InvalidArguments ''terminal HTTP monitor URL has no host'') (uri_host u)) (\<lambda>host.
       Inr \<lparr>ht_host = host, ht_port = (case uri_port u of None \<Rightarrow> 80 | Some p \<Rightarrow> p), ht_authority = authority,
            ht_path_and_query = (case uri_path_and_query u of None \<Rightarrow> ''/'' | Some p \<Rightarrow> p)\<rparr>)))"

definition tcp_ready :: "monitor_world \<Rightarrow> string \<Rightarrow> 16 word \<Rightarrow> bool" where
  "tcp_ready w host port \<longleftrightarrow> list_ex (mw_connects w) (take 4 (mw_addresses w host port))"

text \<open>The reads of the first twelve bytes: a failed read is \<open>None\<close>, the end of the stream is empty.\<close>

fun read_head :: "string option list \<Rightarrow> string \<Rightarrow> string option" where
  "read_head [] got = Some got"
| "read_head (r # rs) got =
     (if 12 \<le> length got then Some got
      else case r of
          None \<Rightarrow> None
        | Some chunk \<Rightarrow> if chunk = [] then Some got else read_head rs (got @ take (12 - length got) chunk))"

definition crlf :: string where
  "crlf = [CHR 0x0D, CHR 0x0A]"

definition http_request :: "http_target \<Rightarrow> string" where
  "http_request t = ''GET '' @ ht_path_and_query t @ '' HTTP/1.0'' @ crlf @ ''Host: '' @ ht_authority t @ crlf
     @ ''Connection: close'' @ crlf @ crlf"

definition http_ready :: "monitor_world \<Rightarrow> string \<Rightarrow> bool" where
  "http_ready w url =
     (case parse_http_target w url of
        Inl _ \<Rightarrow> False
      | Inr t \<Rightarrow>
          (case find (mw_connects w) (take 4 (mw_addresses w (ht_host t) (ht_port t))) of
             None \<Rightarrow> False
           | Some address \<Rightarrow>
               (case mw_exchange w address (http_request t) of
                  None \<Rightarrow> False
                | Some reads \<Rightarrow>
                    (case read_head reads [] of
                       None \<Rightarrow> False
                     | Some head \<Rightarrow> 12 \<le> length head \<and> prefix ''HTTP/'' head))))"

definition run_custom_probe :: "monitor_world \<Rightarrow> string \<Rightarrow> string \<Rightarrow> bool" where
  "run_custom_probe w command dir =
     (case mw_probe w command dir of
        Ended success out err \<Rightarrow> success \<and> sat_add out err \<le> probe_output_bytes
      | _ \<Rightarrow> False)"

definition prepare_monitor_effects ::
  "monitor_world \<Rightarrow> string \<Rightarrow> string \<Rightarrow> monitor \<Rightarrow> tool_error + monitor" where
  "prepare_monitor_effects w root cwd m =
     (case condition (mon_definition m) of
        PathExists path \<Rightarrow> and_then (resolve_monitor_path w root cwd path False) (\<lambda>_. Inr m)
      | PathSize path _ \<Rightarrow> and_then (resolve_monitor_path w root cwd path False) (\<lambda>_. Inr m)
      | PathChanged path \<Rightarrow>
          and_then (resolve_monitor_path w root cwd path False) (\<lambda>resolved.
          and_then (stat_baseline w resolved) (\<lambda>b. Inr (m\<lparr>baseline := Some b\<rparr>)))
      | CustomProbe _ probe_cwd \<Rightarrow>
          and_then (resolve_monitor_path w root cwd probe_cwd True) (\<lambda>resolved.
          if \<not> mw_is_dir w resolved then
            Inl (InvalidArguments ''terminal monitor probe cwd is not a directory'')
          else Inr (m\<lparr>probe_cwd_fingerprint := Some (mw_sha256 w resolved)\<rparr>))
      | HttpReady url \<Rightarrow> and_then (parse_http_target w url) (\<lambda>_. Inr m)
      | _ \<Rightarrow> Inr m)"

definition poll_baseline :: "monitor_world \<Rightarrow> string \<Rightarrow> string \<Rightarrow> string \<Rightarrow> path_baseline option" where
  "poll_baseline w root cwd path =
     (case and_then (resolve_monitor_path w root cwd path False) (stat_baseline w) of
        Inl _ \<Rightarrow> None | Inr b \<Rightarrow> Some b)"

definition poll_condition :: "monitor_world \<Rightarrow> string \<Rightarrow> string \<Rightarrow> monitor \<Rightarrow> bool \<times> monitor" where
  "poll_condition w root cwd m =
     (case condition (mon_definition m) of
        TcpReady host port \<Rightarrow> (tcp_ready w host port, m)
      | HttpReady url \<Rightarrow> (http_ready w url, m)
      | PathExists path \<Rightarrow>
          ((case poll_baseline w root cwd path of None \<Rightarrow> False | Some b \<Rightarrow> pb_exists b), m)
      | PathChanged path \<Rightarrow>
          (case poll_baseline w root cwd path of
             None \<Rightarrow> (False, m)
           | Some current \<Rightarrow>
               ((case baseline m of None \<Rightarrow> False | Some previous \<Rightarrow> previous \<noteq> current),
                m\<lparr>baseline := Some current\<rparr>))
      | PathSize path minimum_bytes \<Rightarrow>
          ((case poll_baseline w root cwd path of
              None \<Rightarrow> False | Some b \<Rightarrow> pb_exists b \<and> minimum_bytes \<le> pb_size b), m)
      | CustomProbe command probe_cwd \<Rightarrow>
          ((case resolve_monitor_path w root cwd probe_cwd True of
              Inl _ \<Rightarrow> False
            | Inr resolved \<Rightarrow> probe_cwd_fingerprint m = Some (mw_sha256 w resolved)
                \<and> run_custom_probe w command resolved), m)
      | _ \<Rightarrow> (False, m))"

subsection \<open>Operations\<close>

record monitor_context =
  mc_current_cursor :: u64
  mc_lifecycle :: observed_lifecycle
  mc_workspace_root :: string
  mc_cwd :: string
  mc_now_ms :: i64

definition invalid_monitor :: "monitor_error \<Rightarrow> tool_error" where
  "invalid_monitor e = InvalidArguments (show_monitor_error e)"

text \<open>\<open>Monitor::new\<close> and \<open>prepare_monitor_effects\<close>, as both callers chain them.\<close>

definition build_monitor ::
  "monitor_world \<Rightarrow> monitor_context \<Rightarrow> string \<Rightarrow> monitor_definition \<Rightarrow> tool_error + monitor" where
  "build_monitor w ctx ident d =
     and_then (map_err invalid_monitor (new_monitor ident d (mc_now_ms ctx))) (\<lambda>m.
       prepare_monitor_effects w (mc_workspace_root ctx) (mc_cwd ctx) m)"

fun build_initial_loop ::
  "monitor_world \<Rightarrow> monitor_context \<Rightarrow> nat \<Rightarrow> monitor_definition list \<Rightarrow> tool_error + monitor list" where
  "build_initial_loop w ctx i [] = Inr []"
| "build_initial_loop w ctx i (d # ds) =
     and_then (ok_or (corrupt ''initial monitor id exhausted'') (checked_add_u64 (of_nat i) 1)) (\<lambda>sequence.
     and_then (map_err corrupt_monitor (stable_id sequence)) (\<lambda>ident.
     and_then (build_monitor w ctx ident d) (\<lambda>m.
     and_then (build_initial_loop w ctx (Suc i) ds) (\<lambda>ms. Inr (m # ms)))))"

definition build_initial_monitors ::
  "monitor_world \<Rightarrow> monitor_context \<Rightarrow> monitor_definition list \<Rightarrow> tool_error + monitor list" where
  "build_initial_monitors w ctx ds =
     (if maximum_monitors < length ds then
        Inl (InvalidArguments ''terminal start accepts at most 32 initial monitors'')
      else build_initial_loop w ctx 0 ds)"

text \<open>The event of an operation on the monitor at an index.\<close>

definition note_operation :: "monitor_context \<Rightarrow> nat \<Rightarrow> event_reason \<Rightarrow> monitor_set \<Rightarrow> tool_error + monitor_set" where
  "note_operation ctx i reason s =
     push_event i reason (mc_lifecycle ctx) (mc_current_cursor ctx) (mc_now_ms ctx) s"

text \<open>The \<open>match\<close> of \<open>operate\<close> on the loaded set.\<close>

fun apply_operation ::
  "monitor_world \<Rightarrow> monitor_context \<Rightarrow> monitor_set \<Rightarrow> monitor_operation \<Rightarrow> tool_error + monitor_set \<times> string" where
  "apply_operation w ctx s (AddMonitor d) =
     (if maximum_monitors \<le> length (ms_monitors s) then
        Inl (InvalidArguments ''terminal session already has 32 monitors'')
      else and_then (map_err corrupt_monitor (stable_id (ms_next_monitor_id s))) (\<lambda>ident.
        and_then (ok_or (corrupt ''monitor id exhausted'') (checked_add_u64 (ms_next_monitor_id s) 1)) (\<lambda>next_id.
        and_then (build_monitor w ctx ident d) (\<lambda>m.
          Inr (s\<lparr>ms_next_monitor_id := next_id, ms_monitors := ms_monitors s @ [m]\<rparr>, ident)))))"
| "apply_operation w ctx s (UpdateMonitor ident d) =
     and_then (find_monitor s ident) (\<lambda>i.
     and_then (ok_or (corrupt ''monitor generation exhausted'')
         (checked_add_u64 (generation (ms_monitors s ! i)) 1)) (\<lambda>g.
     and_then (map_err invalid_monitor (new_monitor ident d (mc_now_ms ctx))) (\<lambda>m.
     and_then (prepare_monitor_effects w (mc_workspace_root ctx) (mc_cwd ctx) (m\<lparr>generation := g\<rparr>)) (\<lambda>m.
     and_then (note_operation ctx i Updated (s\<lparr>ms_monitors := (ms_monitors s)[i := m]\<rparr>)) (\<lambda>s.
       Inr (s, ident))))))"
| "apply_operation w ctx s (PauseMonitor ident) =
     and_then (find_monitor s ident) (\<lambda>i.
       let (paused, m) = pause (ms_monitors s ! i); s = s\<lparr>ms_monitors := (ms_monitors s)[i := m]\<rparr> in
       if paused then
         and_then (on_monitor i bump_generation s) (\<lambda>(_, s).
         and_then (note_operation ctx i PausedEvent s) (\<lambda>s. Inr (s, ident)))
       else Inr (s, ident))"
| "apply_operation w ctx s (ResumeMonitor ident) =
     and_then (find_monitor s ident) (\<lambda>i.
     and_then (on_monitor i (resume (mc_now_ms ctx)) s) (\<lambda>(resumed, s).
       if resumed then
         and_then (on_monitor i bump_generation s) (\<lambda>(_, s).
         and_then (note_operation ctx i Resumed s) (\<lambda>s. Inr (s, ident)))
       else Inr (s, ident)))"
| "apply_operation w ctx s (RemoveMonitor ident) =
     and_then (find_monitor s ident) (\<lambda>i.
     and_then (note_operation ctx i Removed s) (\<lambda>s.
       Inr (s\<lparr>ms_monitors := remove_at i (ms_monitors s)\<rparr>, ident)))"

subsection \<open>Evaluation\<close>

definition apply_decision ::
  "nat \<Rightarrow> decision \<Rightarrow> observed_lifecycle \<Rightarrow> u64 \<Rightarrow> i64 \<Rightarrow> monitor_set \<Rightarrow> tool_error + bool \<times> monitor_set" where
  "apply_decision i d lifecycle cursor now s =
     and_then (case dec_notify d of
         None \<Rightarrow> Inr s | Some reason \<Rightarrow> push_event i reason lifecycle cursor now s) (\<lambda>s.
       if dec_remove d then Inr (True, s\<lparr>ms_monitors := remove_at i (ms_monitors s)\<rparr>)
       else Inr (False, s))"

fun degrade_loop :: "bool \<Rightarrow> monitor list \<Rightarrow> tool_error + bool \<times> monitor list" where
  "degrade_loop changed [] = Inr (changed, [])"
| "degrade_loop changed (m # ms) =
     (case degrade_for_raw_gap m of
        (Inl e, _) \<Rightarrow> Inl (corrupt_monitor e)
      | (Inr b, m) \<Rightarrow>
          and_then (degrade_loop (b \<or> changed) ms) (\<lambda>(changed, ms). Inr (changed, m # ms)))"

definition screen_matches :: "string \<Rightarrow> string option \<Rightarrow> bool" where
  "screen_matches p screen =
     (case screen of
        None \<Rightarrow> False
      | Some text \<Rightarrow> (case matches_pattern p True text of Inl _ \<Rightarrow> False | Inr b \<Rightarrow> b))"

text \<open>What the output means to the monitor at an index: whether it changed, and its decision.\<close>

definition output_decision ::
  "terminal_observation \<Rightarrow> i64 \<Rightarrow> nat \<Rightarrow> monitor_set \<Rightarrow> tool_error + bool \<times> decision option \<times> monitor_set" where
  "output_decision obs now i s =
     (case condition (mon_definition (ms_monitors s ! i)) of
        OutputQuiet _ \<Rightarrow> and_then (on_monitor i (note_output now) s) (\<lambda>(_, s). Inr (True, None, s))
      | OutputContains _ \<Rightarrow>
          and_then (on_monitor i (feed_output (obs_output obs)) s) (\<lambda>(matched, s).
          and_then (on_monitor i (observe Output matched now) s) (\<lambda>(d, s). Inr (True, Some d, s)))
      | OutputMatches _ \<Rightarrow>
          and_then (on_monitor i (feed_output (obs_output obs)) s) (\<lambda>(matched, s).
          and_then (on_monitor i (observe Output matched now) s) (\<lambda>(d, s). Inr (True, Some d, s)))
      | ScreenMatches p \<Rightarrow>
          and_then (on_monitor i (observe Screen (screen_matches p (obs_screen_text obs)) now) s) (\<lambda>(d, s).
            Inr (True, Some d, s))
      | _ \<Rightarrow> Inr (False, None, s))"

text \<open>One pass of the first loop: whether anything changed, and whether the monitor was removed.\<close>

definition output_step ::
  "terminal_observation \<Rightarrow> i64 \<Rightarrow> nat \<Rightarrow> monitor_set \<Rightarrow> tool_error + bool \<times> bool \<times> monitor_set" where
  "output_step obs now i s =
     (if suspended (ms_monitors s ! i) then Inr (False, False, s)
      else and_then (output_decision obs now i s) (\<lambda>(changed, decision, s).
        case decision of
          None \<Rightarrow> Inr (changed, False, s)
        | Some d \<Rightarrow>
            and_then (apply_decision i d (obs_lifecycle obs) (obs_cursor_end obs) now s) (\<lambda>(removed, s).
              Inr (True, removed, s))))"

definition timer_step ::
  "terminal_observation \<Rightarrow> i64 \<Rightarrow> nat \<Rightarrow> monitor_set \<Rightarrow> tool_error + bool \<times> bool \<times> monitor_set" where
  "timer_step obs now i s =
     and_then (if quiet_due (ms_monitors s ! i) now then on_monitor i (observe Quiet True now) s
         else on_monitor i (timer_decision now) s) (\<lambda>(d, s).
       if d = no_decision then Inr (False, False, s)
       else and_then (apply_decision i d (obs_lifecycle obs) (obs_cursor_end obs) now s) (\<lambda>(removed, s).
         Inr (True, removed, s)))"

lemma on_monitor_Inr:
  "on_monitor i f s = Inr (a, s') \<longleftrightarrow>
     (\<exists>m. f (ms_monitors s ! i) = (Inr a, m) \<and> s' = s\<lparr>ms_monitors := (ms_monitors s)[i := m]\<rparr>)"
  by (auto simp: on_monitor_def split: prod.splits sum.splits)

text \<open>A pushed event.\<close>

definition new_event :: "nat \<Rightarrow> event_reason \<Rightarrow> observed_lifecycle \<Rightarrow> u64 \<Rightarrow> i64 \<Rightarrow> monitor_set \<Rightarrow> monitor_event" where
  "new_event i reason lifecycle cursor now s =
     \<lparr>me_event_id = ms_next_event_id s, me_monitor_id = monitor_id (ms_monitors s ! i), me_reason = reason,
      me_lifecycle = lifecycle, me_cursor_segment = 1, me_cursor_offset = cursor, me_created_at_ms = now\<rparr>"

lemma note_notification_id: "note_notification e r m = (x, m') \<Longrightarrow> monitor_id m' = monitor_id m"
  by (auto simp: note_notification_def Let_def split: if_splits option.splits)

lemma push_event_Inr:
  "push_event i reason lifecycle cursor now s = Inr s' \<longleftrightarrow>
     (\<exists>next_id m events gap. checked_add_u64 (ms_next_event_id s) 1 = Some next_id
        \<and> i < length (ms_monitors s) \<and> note_notification (ms_next_event_id s) reason (ms_monitors s ! i) = (Inr (), m)
        \<and> trim_events (ms_events s @ [new_event i reason lifecycle cursor now s]) (ms_event_gap_through s) = (events, gap)
        \<and> s' = s\<lparr>ms_next_event_id := next_id, ms_monitors := (ms_monitors s)[i := m], ms_events := events,
            ms_event_gap_through := gap\<rparr>)"
proof (cases "checked_add_u64 (ms_next_event_id s) 1 = None \<or> length (ms_monitors s) \<le> i")
  case True
  then show ?thesis by (auto simp: push_event_def Let_def)
next
  case False
  then obtain next_id where n: "checked_add_u64 (ms_next_event_id s) 1 = Some next_id" "i < length (ms_monitors s)"
    by auto
  obtain x m where m: "note_notification (ms_next_event_id s) reason (ms_monitors s ! i) = (x, m)" by fastforce
  have id_eq: "monitor_id m = monitor_id (ms_monitors s ! i)" using note_notification_id [OF m] .
  obtain events gap where
    t: "trim_events (ms_events s @ [new_event i reason lifecycle cursor now s]) (ms_event_gap_through s) = (events, gap)"
    by fastforce
  show ?thesis
    using n m id_eq t by (cases x) (auto simp: push_event_def Let_def on_monitor_def new_event_def)
qed

lemma remove_at_length: "i < length xs \<Longrightarrow> length (remove_at i xs) = length xs - 1"
  by (simp add: remove_at_def)

lemma push_event_length: "push_event i r l c now s = Inr s' \<Longrightarrow> length (ms_monitors s') = length (ms_monitors s)"
  by (auto simp: push_event_Inr)

lemma apply_decision_length:
  assumes "apply_decision i d l c now s = Inr (removed, s')" and "i < length (ms_monitors s)"
  shows "length (ms_monitors s') = (if removed then length (ms_monitors s) - 1 else length (ms_monitors s))"
  using assms
  by (auto simp: apply_decision_def and_then_Inr_iff remove_at_length
      dest!: push_event_length split: if_splits option.splits)

lemma output_decision_length:
  "output_decision obs now i s = Inr (changed, d, s') \<Longrightarrow> length (ms_monitors s') = length (ms_monitors s)"
  by (auto simp: output_decision_def and_then_Inr_iff on_monitor_Inr split: monitor_condition.splits)

lemma output_step_length:
  assumes "output_step obs now i s = Inr (changed, removed, s')" and "i < length (ms_monitors s)"
  shows "length (ms_monitors s') = (if removed then length (ms_monitors s) - 1 else length (ms_monitors s))"
proof (cases "suspended (ms_monitors s ! i)")
  case True
  with assms show ?thesis by (simp add: output_step_def)
next
  case False
  with assms(1) obtain c d s1 where o: "output_decision obs now i s = Inr (c, d, s1)"
    and r: "(case d of None \<Rightarrow> Inr (c, False, s1)
        | Some d \<Rightarrow> and_then (apply_decision i d (obs_lifecycle obs) (obs_cursor_end obs) now s1) (\<lambda>(removed, s).
              Inr (True, removed, s))) = Inr (changed, removed, s')"
    by (auto simp: output_step_def and_then_Inr_iff)
  note l = output_decision_length [OF o]
  show ?thesis
  proof (cases d)
    case None
    with r l show ?thesis by simp
  next
    case (Some d')
    with r have "apply_decision i d' (obs_lifecycle obs) (obs_cursor_end obs) now s1 = Inr (removed, s')"
      by (auto simp: and_then_Inr_iff)
    from apply_decision_length [OF this] l assms(2) show ?thesis by simp
  qed
qed

lemma timer_step_Inr:
  "timer_step obs now i s = Inr (changed, removed, s') \<longleftrightarrow>
     (\<exists>d m. (if quiet_due (ms_monitors s ! i) now then observe Quiet True now (ms_monitors s ! i)
           else timer_decision now (ms_monitors s ! i)) = (Inr d, m)
        \<and> (let s1 = s\<lparr>ms_monitors := (ms_monitors s)[i := m]\<rparr> in
           if d = no_decision then \<not> changed \<and> \<not> removed \<and> s' = s1
           else changed \<and> apply_decision i d (obs_lifecycle obs) (obs_cursor_end obs) now s1 = Inr (removed, s')))"
proof -
  have body: "(if d = no_decision then Inr (False, False, t)
       else and_then (apply_decision i d (obs_lifecycle obs) (obs_cursor_end obs) now t) (\<lambda>(removed, s).
         Inr (True, removed, s))) = Inr (changed, removed, s') \<longleftrightarrow>
     (if d = no_decision then \<not> changed \<and> \<not> removed \<and> s' = t
      else changed \<and> apply_decision i d (obs_lifecycle obs) (obs_cursor_end obs) now t = Inr (removed, s'))" for d t
    by (auto simp: and_then_Inr_iff)
  show ?thesis
    by (cases "quiet_due (ms_monitors s ! i) now")
      (simp_all only: timer_step_def if_True if_False and_then_Inr_iff split_paired_Ex prod.case on_monitor_Inr body Let_def,
        blast+)
qed

lemma timer_step_length:
  assumes "timer_step obs now i s = Inr (changed, removed, s')" and "i < length (ms_monitors s)"
  shows "length (ms_monitors s') = (if removed then length (ms_monitors s) - 1 else length (ms_monitors s))"
  using assms by (auto simp: timer_step_Inr Let_def dest!: apply_decision_length split: if_splits)

text \<open>
  The two index loops: \<open>continue\<close> after a removal keeps the index. Each pass brings the index and the
  length one step closer.
\<close>

function output_loop ::
  "terminal_observation \<Rightarrow> i64 \<Rightarrow> nat \<Rightarrow> bool \<Rightarrow> monitor_set \<Rightarrow> tool_error + bool \<times> monitor_set" where
  "output_loop obs now i changed s =
     (if length (ms_monitors s) \<le> i then Inr (changed, s)
      else case output_step obs now i s of
          Inl e \<Rightarrow> Inl e
        | Inr (c, removed, s') \<Rightarrow> output_loop obs now (if removed then i else Suc i) (c \<or> changed) s')"
  by pat_completeness auto
termination
  by (relation "measure (\<lambda>(obs, now, i, changed, s). length (ms_monitors s) - i)")
    (auto dest!: output_step_length)

declare output_loop.simps [simp del]

function timer_loop ::
  "terminal_observation \<Rightarrow> i64 \<Rightarrow> nat \<Rightarrow> bool \<Rightarrow> monitor_set \<Rightarrow> tool_error + bool \<times> monitor_set" where
  "timer_loop obs now i changed s =
     (if length (ms_monitors s) \<le> i then Inr (changed, s)
      else case timer_step obs now i s of
          Inl e \<Rightarrow> Inl e
        | Inr (c, removed, s') \<Rightarrow> timer_loop obs now (if removed then i else Suc i) (c \<or> changed) s')"
  by pat_completeness auto
termination
  by (relation "measure (\<lambda>(obs, now, i, changed, s). length (ms_monitors s) - i)")
    (auto dest!: timer_step_length)

declare timer_loop.simps [simp del]

text \<open>One condition is polled in an evaluation, the first that is due.\<close>

definition poll_step ::
  "monitor_world \<Rightarrow> terminal_observation \<Rightarrow> i64 \<Rightarrow> monitor_set \<Rightarrow> tool_error + bool \<times> monitor_set" where
  "poll_step w obs now s =
     (case find (\<lambda>i. polling_due (ms_monitors s ! i) now) [0..<length (ms_monitors s)] of
        None \<Rightarrow> Inr (False, s)
      | Some i \<Rightarrow>
          let (matched, m) = poll_condition w (obs_workspace_root obs) (obs_cwd obs) (ms_monitors s ! i);
              s = s\<lparr>ms_monitors := (ms_monitors s)[i := m]\<rparr> in
          and_then (on_monitor i (observe Check matched now) s) (\<lambda>(d, s).
          and_then (apply_decision i d (obs_lifecycle obs) (obs_cursor_end obs) now s) (\<lambda>(_, s).
            Inr (True, s))))"

definition exit_condition_matches ::
  "monitor_condition \<Rightarrow> observed_lifecycle \<Rightarrow> 32 word option \<Rightarrow> monitor_signal option \<Rightarrow> bool" where
  "exit_condition_matches c lifecycle code signal =
     (case c of
        ProcessExit \<Rightarrow> lifecycle = Exited
      | ExitCode expected \<Rightarrow> lifecycle = Exited \<and> code = Some expected
      | Signal expected \<Rightarrow> lifecycle = Exited \<and> signal = Some expected
      | _ \<Rightarrow> False)"

definition exit_relevant :: "monitor_condition \<Rightarrow> bool" where
  "exit_relevant c = (case c of ProcessExit \<Rightarrow> True | ExitCode _ \<Rightarrow> True | Signal _ \<Rightarrow> True | _ \<Rightarrow> False)"

text \<open>The two observations of the first monitor when the session ends; the second only if the first is silent.\<close>

definition end_decision ::
  "observed_lifecycle \<Rightarrow> 32 word option \<Rightarrow> monitor_signal option \<Rightarrow> i64 \<Rightarrow> monitor_set \<Rightarrow>
     tool_error + decision \<times> monitor_set" where
  "end_decision lifecycle code signal now s =
     (let c = condition (mon_definition (ms_monitors s ! 0)) in
      and_then (if exit_relevant c \<and> lifecycle = Exited
          then on_monitor 0 (observe Exit (exit_condition_matches c lifecycle code signal) now) s
          else Inr (no_decision, s)) (\<lambda>(d, s).
        if dec_notify d = None \<and> notify (mon_definition (ms_monitors s ! 0)) = OnExit
            \<and> last_event_reason (ms_monitors s ! 0) \<noteq> Some SessionExitEvent
        then on_monitor 0 (observe SessionExit False now) s
        else Inr (d, s)))"

definition end_step ::
  "observed_lifecycle \<Rightarrow> 32 word option \<Rightarrow> monitor_signal option \<Rightarrow> u64 \<Rightarrow> i64 \<Rightarrow> monitor_set \<Rightarrow>
     tool_error + monitor_set" where
  "end_step lifecycle code signal cursor now s =
     and_then (end_decision lifecycle code signal now s) (\<lambda>(d, s).
     and_then (apply_decision 0 (d\<lparr>dec_remove := True\<rparr>) lifecycle cursor now s) (\<lambda>(_, s). Inr s))"

lemma end_decision_length:
  assumes "end_decision lifecycle code signal now s = Inr (d, s')"
  shows "length (ms_monitors s') = length (ms_monitors s)"
proof -
  have on: "length (ms_monitors t') = length (ms_monitors t)" if "on_monitor 0 f t = Inr (x, t')"
    for f :: "monitor \<Rightarrow> (monitor_error + decision) \<times> monitor" and t x t'
    using that by (auto simp: on_monitor_Inr)
  from assms obtain d1 s1 where "(if exit_relevant (condition (mon_definition (ms_monitors s ! 0))) \<and> lifecycle = Exited
          then on_monitor 0 (observe Exit (exit_condition_matches
            (condition (mon_definition (ms_monitors s ! 0))) lifecycle code signal) now) s
          else Inr (no_decision, s)) = Inr (d1, s1)"
    and 2: "(if dec_notify d1 = None \<and> notify (mon_definition (ms_monitors s1 ! 0)) = OnExit
            \<and> last_event_reason (ms_monitors s1 ! 0) \<noteq> Some SessionExitEvent
        then on_monitor 0 (observe SessionExit False now) s1 else Inr (d1, s1)) = Inr (d, s')"
    unfolding end_decision_def Let_def and_then_Inr_iff split_paired_Ex prod.case by blast
  then have "length (ms_monitors s1) = length (ms_monitors s)" by (simp add: on split: if_splits)
  moreover from 2 have "length (ms_monitors s') = length (ms_monitors s1)" by (auto simp: on split: if_splits)
  ultimately show ?thesis by simp
qed

lemma end_step_length:
  assumes "end_step lifecycle code signal cursor now s = Inr s'" and "ms_monitors s \<noteq> []"
  shows "length (ms_monitors s') < length (ms_monitors s)"
proof -
  from assms(1) obtain d s1 r where "end_decision lifecycle code signal now s = Inr (d, s1)"
    and a: "apply_decision 0 (d\<lparr>dec_remove := True\<rparr>) lifecycle cursor now s1 = Inr (r, s')"
    by (auto simp: end_step_def and_then_Inr_iff)
  then have l: "length (ms_monitors s1) = length (ms_monitors s)" by (blast dest: end_decision_length)
  from a have "r" by (auto simp: apply_decision_def and_then_Inr_iff)
  with apply_decision_length [OF a] l assms(2) show ?thesis by simp
qed

function end_monitors ::
  "observed_lifecycle \<Rightarrow> 32 word option \<Rightarrow> monitor_signal option \<Rightarrow> u64 \<Rightarrow> i64 \<Rightarrow> monitor_set \<Rightarrow>
     tool_error + monitor_set" where
  "end_monitors lifecycle code signal cursor now s =
     (if ms_monitors s = [] then Inr s
      else case end_step lifecycle code signal cursor now s of
          Inl e \<Rightarrow> Inl e
        | Inr s' \<Rightarrow> end_monitors lifecycle code signal cursor now s')"
  by pat_completeness auto
termination
  by (relation "measure (\<lambda>(lifecycle, code, signal, cursor, now, s). length (ms_monitors s))")
    (auto dest!: end_step_length)

declare end_monitors.simps [simp del]

text \<open>The parts of \<open>evaluate_terminal\<close> on the loaded set, in their order; \<open>changed\<close> is handed on.\<close>

definition evaluate_gap :: "terminal_observation \<Rightarrow> monitor_set \<Rightarrow> tool_error + bool \<times> monitor_set" where
  "evaluate_gap obs s =
     (if obs_raw_gap obs then
        and_then (degrade_loop False (ms_monitors s)) (\<lambda>(changed, ms). Inr (changed, s\<lparr>ms_monitors := ms\<rparr>))
      else Inr (False, s))"

definition evaluate_output ::
  "terminal_observation \<Rightarrow> i64 \<Rightarrow> bool \<Rightarrow> monitor_set \<Rightarrow> tool_error + bool \<times> monitor_set" where
  "evaluate_output obs now changed s =
     (if obs_output obs \<noteq> [] then output_loop obs now 0 True (s\<lparr>ms_last_output_at_ms := now\<rparr>)
      else Inr (changed, s))"

definition evaluate_poll ::
  "monitor_world \<Rightarrow> terminal_observation \<Rightarrow> i64 \<Rightarrow> bool \<Rightarrow> monitor_set \<Rightarrow> tool_error + bool \<times> monitor_set" where
  "evaluate_poll w obs now changed s =
     (if obs_lifecycle obs = Running then
        and_then (poll_step w obs now s) (\<lambda>(c, s). Inr (c \<or> changed, s))
      else Inr (changed, s))"

definition evaluate_end ::
  "terminal_observation \<Rightarrow> i64 \<Rightarrow> bool \<Rightarrow> monitor_set \<Rightarrow> tool_error + bool \<times> monitor_set" where
  "evaluate_end obs now changed s =
     and_then (if ms_last_lifecycle s = Running \<and> obs_lifecycle obs \<noteq> Running then
         and_then (end_monitors (obs_lifecycle obs) (obs_exit_code obs) (obs_signal obs) (obs_cursor_end obs) now s)
           (\<lambda>s. Inr (True, s))
       else Inr (changed, s)) (\<lambda>(changed, s).
     if ms_last_lifecycle s \<noteq> obs_lifecycle obs then Inr (True, s\<lparr>ms_last_lifecycle := obs_lifecycle obs\<rparr>)
     else Inr (changed, s))"

definition evaluate_set ::
  "monitor_world \<Rightarrow> terminal_observation \<Rightarrow> i64 \<Rightarrow> monitor_set \<Rightarrow> tool_error + bool \<times> monitor_set" where
  "evaluate_set w obs now s =
     (if ms_monitors s = [] then Inr (False, s)
      else if \<not> obs_raw_gap obs \<and> obs_cursor_start obs \<noteq> ms_cursor_offset s then Inr (False, s)
      else if obs_cursor_end obs < obs_cursor_start obs then
        Inl (corrupt ''terminal observation cursor is inconsistent'')
      else and_then (evaluate_gap obs s) (\<lambda>(changed, s).
        and_then (evaluate_output obs now changed s) (\<lambda>(changed, s).
        and_then (timer_loop obs now 0 changed (s\<lparr>ms_cursor_offset := obs_cursor_end obs\<rparr>)) (\<lambda>(changed, s).
        and_then (evaluate_poll w obs now changed s) (\<lambda>(changed, s).
          evaluate_end obs now changed s)))))"

end
