(* ===== verification/Monitor_Store.thy ===== *)
theory Monitor_Store
  imports Monitor_Set Tool_Results Actions "HOL-Library.List_Lexorder" "HOL-Library.Char_ord"
begin

section \<open>The store of monitor sets\<close>

text \<open>
  \<open>MonitorStore\<close> of \<open>fx-process/src/terminal_monitor_store.rs\<close>: one file per terminal session. A method
  is an action on the directory, with the outcomes the next system calls will have (\<open>None\<close> for a call
  that works, and when the list is used up). The derived JSON form of a set is the pair of functions
  in \<open>set_codec\<close>.
\<close>

record set_codec =
  set_bytes :: "monitor_set \<Rightarrow> string"
  set_parse :: "string \<Rightarrow> string + monitor_set"

datatype set_file = SetBytes string | NotAFile

record monitor_io =
  mio_root :: dir_state
  mio_files :: "string \<Rightarrow> set_file option"
  mio_faults :: "string option list"

type_synonym 'a monitor_action = "monitor_io \<Rightarrow> (tool_error + 'a) \<times> monitor_io"

definition mon_call :: "string \<Rightarrow> unit monitor_action" where
  "mon_call context io =
     (case mio_faults io of
        [] \<Rightarrow> (Inr (), io)
      | None # fs \<Rightarrow> (Inr (), io\<lparr>mio_faults := fs\<rparr>)
      | Some m # fs \<Rightarrow> (Inl (monitor_io_error context m), io\<lparr>mio_faults := fs\<rparr>))"

definition new_store :: "unit monitor_action" where
  "new_store =
     seq (mon_call ''create terminal monitor root'') (\<lambda>_.
     seq (\<lambda>io. (Inr (), if mio_root io = NoDir then io\<lparr>mio_root := RealDir\<rparr> else io)) (\<lambda>_.
     seq (mon_call ''stat terminal monitor root'') (\<lambda>_.
     seq (\<lambda>io. (Inr (mio_root io), io)) (\<lambda>root.
       if root = NotADir then fail (corrupt ''terminal monitor root is unsafe'')
       else mon_call ''secure terminal monitor root''))))"

text \<open>\<open>path\<close>: the identifier is checked before it becomes part of a file name.\<close>

definition check_terminal_id :: "string \<Rightarrow> tool_error + unit" where
  "check_terminal_id sid = ensure (valid_terminal_id sid) (InvalidArguments ''terminal session_id is invalid'')"

definition load_optional :: "set_codec \<Rightarrow> string \<Rightarrow> monitor_set option monitor_action" where
  "load_optional c sid =
     seq (lift (check_terminal_id sid)) (\<lambda>_.
     seq (mon_call ''open terminal monitor set'') (\<lambda>_.
     seq (\<lambda>io. (Inr (mio_files io sid), io)) (\<lambda>file.
       case file of
         None \<Rightarrow> give None
       | Some f \<Rightarrow>
           seq (mon_call ''stat terminal monitor set'') (\<lambda>_.
             case f of
               NotAFile \<Rightarrow> fail (corrupt ''terminal monitor set has an invalid size'')
             | SetBytes bytes \<Rightarrow>
                 if bytes = [] \<or> maximum_set_bytes < length bytes then
                   fail (corrupt ''terminal monitor set has an invalid size'')
                 else seq (mon_call ''read terminal monitor set'') (\<lambda>_.
                   seq (lift (map_err (\<lambda>m. corrupt (''decode terminal monitor set: '' @ m)) (set_parse c bytes))) (\<lambda>s.
                   seq (lift (validate_set sid s)) (\<lambda>_. give (Some s))))))))"

text \<open>The staged file replaces the old one when it is committed, and otherwise leaves it.\<close>

definition save_set :: "set_codec \<Rightarrow> monitor_set \<Rightarrow> unit monitor_action" where
  "save_set c s =
     seq (lift (validate_set (ms_session_id s) s)) (\<lambda>_.
       let bytes = set_bytes c s in
       if bytes = [] \<or> maximum_set_bytes < length bytes then
         fail (corrupt ''terminal monitor set exceeds its size limit'')
       else seq (lift (check_terminal_id (ms_session_id s))) (\<lambda>_.
         seq (mon_call ''stage terminal monitor set'') (\<lambda>_.
         seq (mon_call ''secure terminal monitor set'') (\<lambda>_.
         seq (mon_call ''write terminal monitor set'') (\<lambda>_.
         seq (mon_call ''commit terminal monitor set'') (\<lambda>_.
           \<lambda>io. (Inr (), io\<lparr>mio_files := (mio_files io)(ms_session_id s := Some (SetBytes bytes))\<rparr>)))))))"

definition validate_initial :: "monitor_world \<Rightarrow> monitor_context \<Rightarrow> monitor_definition list \<Rightarrow> tool_error + unit" where
  "validate_initial w ctx ds = and_then (build_initial_monitors w ctx ds) (\<lambda>_. Inr ())"

definition install_initial ::
  "set_codec \<Rightarrow> monitor_world \<Rightarrow> string \<Rightarrow> monitor_definition list \<Rightarrow> monitor_context \<Rightarrow> monitor_set monitor_action" where
  "install_initial c w sid ds ctx =
     (if ds = [] then give (empty_set sid 0 (mc_lifecycle ctx) (mc_now_ms ctx))
      else seq (load_optional c sid) (\<lambda>existing.
        if existing \<noteq> None then fail (corrupt ''initial monitor set already exists'')
        else seq (lift (build_initial_monitors w ctx ds)) (\<lambda>monitors.
        seq (lift (ok_or (corrupt ''initial monitor id exhausted'')
            (checked_add_u64 (of_nat (length monitors)) 1))) (\<lambda>next_id.
          let s = (empty_set sid 0 (mc_lifecycle ctx) (mc_now_ms ctx))
                \<lparr>ms_next_monitor_id := next_id, ms_monitors := monitors\<rparr> in
          seq (lift (validate_set sid s)) (\<lambda>_.
          seq (save_set c s) (\<lambda>_. give s))))))"

text \<open>The set an operation starts from.\<close>

definition operation_start :: "string \<Rightarrow> monitor_context \<Rightarrow> monitor_set option \<Rightarrow> monitor_set" where
  "operation_start sid ctx loaded =
     (case loaded of
        Some s \<Rightarrow> s
      | None \<Rightarrow> empty_set sid (mc_current_cursor ctx) (mc_lifecycle ctx) (mc_now_ms ctx))
     \<lparr>ms_last_lifecycle := mc_lifecycle ctx\<rparr>"

definition operate ::
  "set_codec \<Rightarrow> monitor_world \<Rightarrow> string \<Rightarrow> monitor_operation \<Rightarrow> monitor_context \<Rightarrow>
     (monitor_set \<times> string) monitor_action" where
  "operate c w sid op ctx =
     seq (lift (map_err invalid_monitor (validate_operation op))) (\<lambda>_.
     seq (load_optional c sid) (\<lambda>loaded.
     seq (lift (apply_operation w ctx (operation_start sid ctx loaded) op)) (\<lambda>(s, ident).
     seq (lift (validate_set sid s)) (\<lambda>_.
     seq (save_set c s) (\<lambda>_. give (s, ident))))))"

definition nothing_to_inspect :: inspect_monitors where
  "nothing_to_inspect = \<lparr>im_monitors = [], im_events = [], im_event_gap_through = 0, im_next_event_id = 1\<rparr>"

definition acknowledge :: "u64 \<Rightarrow> monitor_set \<Rightarrow> monitor_set" where
  "acknowledge k s =
     s\<lparr>ms_acknowledged_through := max (ms_acknowledged_through s) k,
       ms_events := filter (\<lambda>e. k < me_event_id e) (ms_events s)\<rparr>"

definition inspect_set :: "u64 option \<Rightarrow> nat \<Rightarrow> monitor_set \<Rightarrow> inspect_monitors" where
  "inspect_set after max_events s =
     (let from_id = (case after of None \<Rightarrow> ms_acknowledged_through s | Some a \<Rightarrow> a) in
      \<lparr>im_monitors = summaries s,
       im_events = take max_events (filter (\<lambda>e. from_id < me_event_id e) (ms_events s)),
       im_event_gap_through = ms_event_gap_through s, im_next_event_id = ms_next_event_id s\<rparr>)"

definition inspect ::
  "set_codec \<Rightarrow> string \<Rightarrow> u64 option \<Rightarrow> u64 option \<Rightarrow> nat \<Rightarrow> inspect_monitors monitor_action" where
  "inspect c sid after ack max_events =
     (if max_events = 0 \<or> 256 < max_events then
        fail (InvalidArguments ''terminal max_events must be between 1 and 256'')
      else seq (load_optional c sid) (\<lambda>loaded.
        case loaded of
          None \<Rightarrow> give nothing_to_inspect
        | Some s \<Rightarrow>
            (case ack of
               None \<Rightarrow> give (inspect_set after max_events s)
             | Some k \<Rightarrow>
                 if k = 0 \<or> ms_next_event_id s \<le> k then
                   fail (InvalidArguments ''terminal acknowledge_event_id is outside the event log'')
                 else seq (save_set c (acknowledge k s)) (\<lambda>_.
                   give (inspect_set after max_events (acknowledge k s))))))"

text \<open>
  An entry of the directory is its name, \<open>None\<close> for a name that is not UTF-8, or an error.
\<close>

definition session_of_entry :: "string \<Rightarrow> string option" where
  "session_of_entry name =
     (case strip_prefix name ''monitors-'' of
        None \<Rightarrow> None
      | Some v \<Rightarrow> (case strip_suffix v ''.json'' of
            None \<Rightarrow> None
          | Some sid \<Rightarrow> if valid_terminal_id sid then Some sid else None))"

fun monitored_loop :: "set_codec \<Rightarrow> (string + string option) list \<Rightarrow> string list monitor_action" where
  "monitored_loop c [] = give []"
| "monitored_loop c (Inl m # es) = fail (monitor_io_error ''read terminal monitor entry'' m)"
| "monitored_loop c (Inr name # es) =
     (case (case name of None \<Rightarrow> None | Some n \<Rightarrow> session_of_entry n) of
        None \<Rightarrow> monitored_loop c es
      | Some sid \<Rightarrow>
          seq (load_optional c sid) (\<lambda>loaded.
          seq (monitored_loop c es) (\<lambda>rest.
            give (if (case loaded of None \<Rightarrow> False | Some s \<Rightarrow> ms_monitors s \<noteq> [])
                  then sid # rest else rest))))"

definition monitored_sessions :: "set_codec \<Rightarrow> (string + string option) list \<Rightarrow> string list monitor_action" where
  "monitored_sessions c entries =
     seq (mon_call ''list terminal monitor sets'') (\<lambda>_.
     seq (monitored_loop c (take 256 entries)) (\<lambda>sids. give (sort sids)))"

definition wants_screen :: "monitor_set \<Rightarrow> bool" where
  "wants_screen s \<longleftrightarrow> list_ex (\<lambda>m. \<not> suspended m \<and>
     (case condition (mon_definition m) of ScreenMatches _ \<Rightarrow> True | _ \<Rightarrow> False)) (ms_monitors s)"

definition observation_request :: "set_codec \<Rightarrow> string \<Rightarrow> (u64 \<times> bool) option monitor_action" where
  "observation_request c sid =
     seq (load_optional c sid) (\<lambda>loaded.
       case loaded of
         None \<Rightarrow> give None
       | Some s \<Rightarrow> give (if ms_monitors s \<noteq> [] then Some (ms_cursor_offset s, wants_screen s) else None))"

definition active_count_for :: "set_codec \<Rightarrow> string \<Rightarrow> nat monitor_action" where
  "active_count_for c sid =
     seq (load_optional c sid) (\<lambda>loaded. give (case loaded of None \<Rightarrow> 0 | Some s \<Rightarrow> active_count s))"

definition evaluate_terminal ::
  "set_codec \<Rightarrow> monitor_world \<Rightarrow> string \<Rightarrow> terminal_observation \<Rightarrow> i64 \<Rightarrow> bool monitor_action" where
  "evaluate_terminal c w sid obs now =
     seq (load_optional c sid) (\<lambda>loaded.
       case loaded of
         None \<Rightarrow> give False
       | Some s \<Rightarrow>
           seq (lift (evaluate_set w obs now s)) (\<lambda>(changed, s).
           seq (if changed then save_set c s else give ()) (\<lambda>_. give changed)))"

definition end_session :: "set_codec \<Rightarrow> string \<Rightarrow> observed_lifecycle \<Rightarrow> i64 \<Rightarrow> bool monitor_action" where
  "end_session c sid lifecycle now =
     seq (load_optional c sid) (\<lambda>loaded.
       case loaded of
         None \<Rightarrow> give False
       | Some s \<Rightarrow>
           if ms_monitors s = [] then give False
           else seq (lift (end_monitors lifecycle None None (ms_cursor_offset s) now s)) (\<lambda>s.
             seq (save_set c (s\<lparr>ms_last_lifecycle := lifecycle\<rparr>)) (\<lambda>_. give True)))"

definition end_missing_session :: "set_codec \<Rightarrow> string \<Rightarrow> i64 \<Rightarrow> bool monitor_action" where
  "end_missing_session c sid now = end_session c sid Lost now"

end
