(* ===== verification/Monitor_Events.thy ===== *)
theory Monitor_Events
  imports Monitor_Store Monitor_Lifecycle
begin

section \<open>Sets of monitors stay sound\<close>

text \<open>
  The invariant of the sets that \<open>MonitorStore\<close> works on (\<open>fx-process/src/terminal_monitor_store.rs\<close>):
  every monitor is one that its own operations can produce, identifiers are never used twice, and the
  event log holds exactly the events that were neither acknowledged nor given up as a gap.
\<close>

subsection \<open>The invariant\<close>

text \<open>The identifiers handed out so far.\<close>

definition monitor_name :: "nat \<Rightarrow> string" where
  "monitor_name k = ''monitor-'' @ show_nat k"

definition used_ids :: "u64 \<Rightarrow> string set" where
  "used_ids n = monitor_name ` {0<..<unat n}"

definition fine :: "u64 \<Rightarrow> monitor \<Rightarrow> bool" where
  "fine n m \<longleftrightarrow> identity_ok m \<and> runtime_ok m \<and> last_event_id m < n"

text \<open>The monitors of a set whose next event is \<open>n\<close> and whose next monitor is \<open>k\<close>.\<close>

definition monitors_ok :: "u64 \<Rightarrow> u64 \<Rightarrow> monitor list \<Rightarrow> bool" where
  "monitors_ok n k ms \<longleftrightarrow> length ms \<le> maximum_monitors \<and> list_all (fine n) ms
     \<and> distinct (map monitor_id ms) \<and> set (map monitor_id ms) \<subseteq> used_ids k"

text \<open>The event log without holes: the identifiers after the gap and the acknowledgement, all of them.\<close>

definition first_kept :: "u64 \<Rightarrow> u64 \<Rightarrow> nat" where
  "first_kept gap ack = Suc (max (unat gap) (unat ack))"

definition log_whole :: "u64 \<Rightarrow> u64 \<Rightarrow> u64 \<Rightarrow> monitor_event list \<Rightarrow> bool" where
  "log_whole gap ack n es \<longleftrightarrow> map (\<lambda>e. unat (me_event_id e)) es = [first_kept gap ack..<unat n]
     \<and> first_kept gap ack \<le> unat n"

definition event_ok :: "u64 \<Rightarrow> monitor_event \<Rightarrow> bool" where
  "event_ok k e \<longleftrightarrow> me_monitor_id e \<in> used_ids k \<and> me_cursor_segment e \<noteq> 0 \<and> 0 \<le> sint (me_created_at_ms e)"

definition sound :: "string \<Rightarrow> monitor_set \<Rightarrow> bool" where
  "sound sid s \<longleftrightarrow> ms_schema_version s = set_schema_version \<and> ms_session_id s = sid \<and> valid_terminal_id sid
     \<and> ms_next_monitor_id s \<noteq> 0 \<and> 0 \<le> sint (ms_last_output_at_ms s)
     \<and> monitors_ok (ms_next_event_id s) (ms_next_monitor_id s) (ms_monitors s)
     \<and> length (ms_events s) \<le> maximum_events \<and> list_all (event_ok (ms_next_monitor_id s)) (ms_events s)
     \<and> log_whole (ms_event_gap_through s) (ms_acknowledged_through s) (ms_next_event_id s) (ms_events s)"

lemma inj_monitor_name: "inj monitor_name"
proof (rule injI)
  fix k l
  assume "monitor_name k = monitor_name l"
  then have "read_nat (show_nat k) = read_nat (show_nat l)" by (simp add: monitor_name_def)
  then show "k = l" by simp
qed

lemma stable_id_name: "stable_id n = Inr ident \<longleftrightarrow> n \<noteq> 0 \<and> ident = monitor_name (unat n)"
  by (auto simp: stable_id_def monitor_name_def)

lemma unat_max: "unat (max a b :: u64) = max (unat a) (unat b)"
  by (simp add: max_def word_le_nat_alt)

lemma unat_add1: "checked_add_u64 a 1 = Some b \<Longrightarrow> unat b = Suc (unat a)"
  using checked_add_u64_Some [of a 1 b] by simp

lemma used_ids_mono: "unat n \<le> unat n' \<Longrightarrow> used_ids n \<subseteq> used_ids n'"
  by (auto simp: used_ids_def)

lemma used_ids_next: "checked_add_u64 n 1 = Some n' \<Longrightarrow> stable_id n = Inr ident \<Longrightarrow>
    ident \<notin> used_ids n \<and> ident \<in> used_ids n'"
  by (auto simp: used_ids_def stable_id_name unat_add1 unat_gt_0 inj_eq [OF inj_monitor_name])

subsection \<open>A sound set is valid\<close>

lemma validate_monitors_ok: "list_all (fine n) ms \<Longrightarrow> validate_monitors ms = Inr ()"
  by (induction ms) (auto simp: fine_def validate_monitor_ok)

lemma validate_events_ok:
  "map (\<lambda>e. unat (me_event_id e)) es = [a..<unat n] \<Longrightarrow> unat p < a \<Longrightarrow>
     list_all (\<lambda>e. me_monitor_id e \<noteq> [] \<and> me_cursor_segment e \<noteq> 0 \<and> 0 \<le> sint (me_created_at_ms e)) es \<Longrightarrow>
     validate_events n p es = Inr ()"
proof (induction es arbitrary: a p)
  case (Cons e es)
  have lt: "a < unat n" using Cons.prems(1) by (cases "a < unat n") simp_all
  then have "[a..<unat n] = a # [Suc a..<unat n]" by (rule upt_conv_Cons)
  with Cons.prems(1) have e: "unat (me_event_id e) = a"
    and es: "map (\<lambda>e. unat (me_event_id e)) es = [Suc a..<unat n]"
    by simp_all
  have "validate_events n (me_event_id e) es = Inr ()"
    using Cons.IH [OF es, of "me_event_id e"] Cons.prems(3) e by simp
  with Cons.prems(2,3) e lt show ?case by (auto simp: word_le_nat_alt word_less_nat_alt)
qed simp

lemma used_id_nonempty: "ident \<in> used_ids n \<Longrightarrow> ident \<noteq> []"
  by (auto simp: used_ids_def monitor_name_def)

lemma sound_valid:
  assumes s: "sound sid s"
  shows "validate_set sid s = Inr ()"
proof -
  let ?a = "first_kept (ms_event_gap_through s) (ms_acknowledged_through s)"
  from s have log: "map (\<lambda>e. unat (me_event_id e)) (ms_events s) = [?a..<unat (ms_next_event_id s)]"
      "?a \<le> unat (ms_next_event_id s)"
    by (simp_all add: sound_def log_whole_def)
  have lt: "ms_acknowledged_through s < ms_next_event_id s" "ms_event_gap_through s < ms_next_event_id s"
      "ms_next_event_id s \<noteq> 0"
    using log(2) by (auto simp: first_kept_def word_less_nat_alt)
  have "list_all (\<lambda>e. me_monitor_id e \<noteq> [] \<and> me_cursor_segment e \<noteq> 0 \<and> 0 \<le> sint (me_created_at_ms e)) (ms_events s)"
    using s by (auto simp: sound_def event_ok_def list_all_iff dest: used_id_nonempty)
  then have "validate_events (ms_next_event_id s) (max (ms_event_gap_through s) (ms_acknowledged_through s)) (ms_events s) = Inr ()"
    using log(1) by (intro validate_events_ok [of _ ?a]) (simp_all add: first_kept_def unat_max)
  moreover have "validate_monitors (ms_monitors s) = Inr ()"
    using s by (auto simp: sound_def monitors_ok_def intro: validate_monitors_ok)
  ultimately show ?thesis using s lt by (auto simp: validate_set_def sound_def monitors_ok_def not_le not_less)
qed

subsection \<open>Pushing an event\<close>

lemma trim_events_short:
  assumes "length es \<le> Suc maximum_events"
  shows "trim_events es gap =
    (if length es \<le> maximum_events then (es, gap) else (tl es, max gap (me_event_id (hd es))))"
proof (cases es)
  case (Cons e rest)
  have "trim_events rest g = (rest, g)" if "length rest \<le> maximum_events" for g
    using that by (cases rest) simp_all
  then show ?thesis using assms Cons by (simp add: not_less)
qed (simp add: maximum_events_def)

lemma fine_mono: "fine n m \<Longrightarrow> n \<le> n' \<Longrightarrow> fine n' m"
  by (auto simp: fine_def)

lemma next_id_less: "checked_add_u64 n 1 = Some n' \<Longrightarrow> n < n'"
  by (simp add: word_less_nat_alt unat_add1)

lemma note_notification_fine:
  assumes "fine n m" and "n \<noteq> 0" and "checked_add_u64 n 1 = Some n'"
    and "note_notification n reason m = (Inr (), m')"
  shows "fine n' m'" and "monitor_id m' = monitor_id m"
proof -
  have m': "m' = snd (apply_call (NoteNotification n reason) m)" using assms(4) by simp
  have "identity_ok m'" "runtime_ok m'"
    using assms(1) apply_call_identity [of m "NoteNotification n reason"]
      apply_call_runtime_ok [of m "NoteNotification n reason"] same_identity_ok
    unfolding m' fine_def by blast+
  moreover have "last_event_id m' = n"
    using assms(4) by (auto simp: note_notification_def Let_def split: if_splits option.splits)
  ultimately show "fine n' m'" using next_id_less [OF assms(3)] by (simp add: fine_def)
  show "monitor_id m' = monitor_id m" using note_notification_id [OF assms(4)] .
qed

lemma log_whole_push:
  assumes w: "log_whole gap ack n es" and n: "checked_add_u64 n 1 = Some n'"
    and e: "me_event_id e = n" and len: "length es \<le> maximum_events"
    and t: "trim_events (es @ [e]) gap = (events, gap')"
  shows "log_whole gap' ack n' events" and "length events \<le> maximum_events"
    and "set events \<subseteq> insert e (set es)"
proof -
  let ?a = "first_kept gap ack"
  from w have a: "?a \<le> unat n" by (simp add: log_whole_def)
  have all: "map (\<lambda>e. unat (me_event_id e)) (es @ [e]) = [?a..<unat n']"
    using w e unat_add1 [OF n] by (simp add: log_whole_def)
  have tr: "(events, gap') = (if length (es @ [e]) \<le> maximum_events then (es @ [e], gap)
      else (tl (es @ [e]), max gap (me_event_id (hd (es @ [e])))))"
    using trim_events_short [of "es @ [e]"] len t by simp
  then show "length events \<le> maximum_events" using len by (auto split: if_splits)
  have "set (tl (es @ [e])) \<subseteq> insert e (set es)" by (cases es) auto
  with tr show "set events \<subseteq> insert e (set es)" by (auto split: if_splits)
  show "log_whole gap' ack n' events"
  proof (cases "length (es @ [e]) \<le> maximum_events")
    case True
    with tr all a unat_add1 [OF n] show ?thesis by (simp add: log_whole_def)
  next
    case False
    obtain x xs where x: "es @ [e] = x # xs" by (cases "es @ [e]") simp_all
    have "[?a..<unat n'] = ?a # [Suc ?a..<unat n']"
      using a unat_add1 [OF n] by (intro upt_conv_Cons) simp
    with all x have hx: "unat (me_event_id x) = ?a" and txs: "map (\<lambda>e. unat (me_event_id e)) xs = [Suc ?a..<unat n']"
      by simp_all
    have ev: "events = xs" "gap' = max gap (me_event_id x)" using tr False x by simp_all
    have "first_kept gap' ack = Suc ?a" using hx ev(2) by (simp add: unat_max first_kept_def)
    with txs a ev(1) unat_add1 [OF n] show ?thesis by (simp add: log_whole_def)
  qed
qed

lemma monitors_ok_update:
  assumes "monitors_ok n k ms" and "i < length ms" and "n \<le> n'"
    and "fine n' m" and "monitor_id m = monitor_id (ms ! i)"
  shows "monitors_ok n' k (ms[i := m])"
proof -
  have ids: "map monitor_id (ms[i := m]) = map monitor_id ms"
    using assms(2,5) by (metis list_update_id map_update)
  have "list_all (fine n') ms" using assms(1,3) by (auto simp: monitors_ok_def list_all_iff fine_mono)
  then have fine: "list_all (fine n') (ms[i := m])"
    using assms(4) set_update_subset_insert [of ms i m] by (auto simp: list_all_iff)
  show ?thesis using assms(1) fine unfolding monitors_ok_def ids by simp
qed

lemma monitors_ok_nth: "monitors_ok n k ms \<Longrightarrow> i < length ms \<Longrightarrow> fine n (ms ! i)"
  by (simp add: monitors_ok_def list_all_length)

text \<open>A sound successor of a sound set, with no identifier handed out twice.\<close>

definition advances :: "string \<Rightarrow> monitor_set \<Rightarrow> monitor_set \<Rightarrow> bool" where
  "advances sid s s' \<longleftrightarrow> sound sid s' \<and> ms_next_monitor_id s \<le> ms_next_monitor_id s'
     \<and> ms_next_event_id s \<le> ms_next_event_id s'"

lemma advances_refl: "sound sid s \<Longrightarrow> advances sid s s"
  by (simp add: advances_def)

lemma advances_trans: "advances sid s s1 \<Longrightarrow> advances sid s1 s2 \<Longrightarrow> advances sid s s2"
  by (auto simp: advances_def)

lemma advances_sound: "advances sid s s' \<Longrightarrow> sound sid s'"
  by (simp add: advances_def)

lemma advances_update:
  assumes s: "sound sid s" and i: "i < length (ms_monitors s)"
    and m: "fine (ms_next_event_id s) m" "monitor_id m = monitor_id (ms_monitors s ! i)"
  shows "advances sid s (s\<lparr>ms_monitors := (ms_monitors s)[i := m]\<rparr>)"
  using s monitors_ok_update [OF _ i order_refl m] by (simp add: sound_def advances_def)

lemma advances_cursor: "sound sid s \<Longrightarrow> advances sid s (s\<lparr>ms_cursor_offset := c\<rparr>)"
  and advances_lifecycle: "sound sid s \<Longrightarrow> advances sid s (s\<lparr>ms_last_lifecycle := l\<rparr>)"
  and advances_last_output: "sound sid s \<Longrightarrow> 0 \<le> sint now \<Longrightarrow> advances sid s (s\<lparr>ms_last_output_at_ms := now\<rparr>)"
  by (simp_all add: sound_def advances_def)

lemma remove_at_subset: "set (remove_at i xs) \<subseteq> set xs"
  by (auto simp: remove_at_def dest: in_set_takeD in_set_dropD)

lemma remove_at_distinct: "distinct xs \<Longrightarrow> distinct (remove_at i xs)"
  using set_take_disj_set_drop_if_distinct [of xs i "Suc i"] by (simp add: remove_at_def)

lemma monitors_ok_remove:
  assumes "monitors_ok n k ms"
  shows "monitors_ok n k (remove_at i ms)"
proof -
  have ids: "map monitor_id (remove_at i ms) = remove_at i (map monitor_id ms)"
    by (simp add: remove_at_def take_map drop_map)
  have "length (remove_at i ms) \<le> length ms" by (simp add: remove_at_def)
  moreover have "list_all (fine n) (remove_at i ms)"
    using assms remove_at_subset [of i ms] by (auto simp: monitors_ok_def list_all_iff)
  moreover have "distinct (remove_at i (map monitor_id ms))"
    using assms by (simp add: monitors_ok_def remove_at_distinct)
  moreover have "set (remove_at i (map monitor_id ms)) \<subseteq> used_ids k"
    using assms remove_at_subset [of i "map monitor_id ms"] unfolding monitors_ok_def by blast
  ultimately show ?thesis using assms unfolding monitors_ok_def ids by linarith
qed

lemma advances_remove: "sound sid s \<Longrightarrow> advances sid s (s\<lparr>ms_monitors := remove_at i (ms_monitors s)\<rparr>)"
  by (simp add: sound_def advances_def monitors_ok_remove)

lemma advances_push:
  assumes s: "sound sid s" and now: "0 \<le> sint now" and p: "push_event i reason lifecycle cursor now s = Inr s'"
  shows "advances sid s s'"
proof -
  from p obtain n' m events gap where n: "checked_add_u64 (ms_next_event_id s) 1 = Some n'"
    and i: "i < length (ms_monitors s)"
    and m: "note_notification (ms_next_event_id s) reason (ms_monitors s ! i) = (Inr (), m)"
    and t: "trim_events (ms_events s @ [new_event i reason lifecycle cursor now s]) (ms_event_gap_through s) = (events, gap)"
    and s': "s' = s\<lparr>ms_next_event_id := n', ms_monitors := (ms_monitors s)[i := m], ms_events := events,
            ms_event_gap_through := gap\<rparr>"
    by (auto simp: push_event_Inr)
  from s have ok: "monitors_ok (ms_next_event_id s) (ms_next_monitor_id s) (ms_monitors s)"
    and w: "log_whole (ms_event_gap_through s) (ms_acknowledged_through s) (ms_next_event_id s) (ms_events s)"
    and len: "length (ms_events s) \<le> maximum_events" by (simp_all add: sound_def)
  have n0: "ms_next_event_id s \<noteq> 0" using w by (auto simp: log_whole_def first_kept_def)
  have e: "me_event_id (new_event i reason lifecycle cursor now s) = ms_next_event_id s" by (simp add: new_event_def)
  note log = log_whole_push [OF w n e len t]
  note fm = note_notification_fine [OF monitors_ok_nth [OF ok i] n0 n m]
  have le: "ms_next_event_id s \<le> n'" using next_id_less [OF n] by simp
  note ok' = monitors_ok_update [OF ok i le fm]
  have "monitor_id (ms_monitors s ! i) \<in> used_ids (ms_next_monitor_id s)"
    using ok i by (auto simp: monitors_ok_def)
  then have "event_ok (ms_next_monitor_id s) (new_event i reason lifecycle cursor now s)"
    using now by (simp add: event_ok_def new_event_def)
  with s log(3) have "list_all (event_ok (ms_next_monitor_id s)) events"
    by (auto simp: sound_def list_all_iff)
  with s ok' log(1,2) le show ?thesis by (simp add: s' sound_def advances_def)
qed

subsection \<open>Methods of one monitor\<close>

definition tame :: "(monitor \<Rightarrow> (monitor_error + 'a) \<times> monitor) \<Rightarrow> bool" where
  "tame f \<longleftrightarrow> (\<forall>n m. fine n m \<longrightarrow> fine n (snd (f m)) \<and> monitor_id (snd (f m)) = monitor_id m)"

lemma apply_call_last:
  "(\<And>i r. c \<noteq> NoteNotification i r) \<Longrightarrow> last_event_id (snd (apply_call c m)) = last_event_id m"
proof (cases c)
  case (Observe obs b now)
  obtain r m' where o: "observe obs b now m = (r, m')" by fastforce
  from observe_keeps(2) [OF o] Observe o show ?thesis by (auto simp: keeps_def)
next
  case (TimerDecision now)
  then show ?thesis using keeps_timer [of m now] by (simp add: keeps_def)
next
  case (NoteOutput now)
  then show ?thesis using keeps_note_output [of m now] by (simp add: keeps_def)
next
  case (FeedOutput bytes)
  then show ?thesis using keeps_feed [of m bytes] by (simp add: keeps_def)
next
  case (Resume now)
  then show ?thesis by (auto simp: resume_def Let_def split: sum.splits option.splits)
qed (auto simp: pause_def degrade_for_raw_gap_def bump_generation_def split: option.splits)

lemma tame_call:
  assumes "\<And>m. snd (f m) = snd (apply_call c m)" and "\<And>i r. c \<noteq> NoteNotification i r"
  shows "tame f"
  unfolding tame_def
proof (intro allI impI)
  fix n m
  assume "fine n m"
  with apply_call_identity [of m c] apply_call_runtime_ok [of m c] apply_call_last [OF assms(2), of m]
    same_identity_ok [of m "snd (apply_call c m)"]
  show "fine n (snd (f m)) \<and> monitor_id (snd (f m)) = monitor_id m"
    by (simp add: assms(1) fine_def same_identity_def)
qed

lemma tame_methods:
  "tame (observe obs b now)" "tame (timer_decision now)" "tame (note_output now)" "tame (resume now)"
  "tame bump_generation" "tame (feed_output bytes)" "tame degrade_for_raw_gap"
  by (rule tame_call [of _ "Observe obs b now"] tame_call [of _ "TimerDecision now"] tame_call [of _ "NoteOutput now"]
      tame_call [of _ "Resume now"] tame_call [of _ BumpGeneration] tame_call [of _ "FeedOutput bytes"]
      tame_call [of _ DegradeForRawGap]; simp)+

lemma tame_snd: "tame f \<Longrightarrow> f m = (r, m') \<Longrightarrow> fine n m \<Longrightarrow> fine n m' \<and> monitor_id m' = monitor_id m"
  unfolding tame_def by (metis snd_conv)

lemma on_monitor_advances:
  assumes "sound sid s" and "i < length (ms_monitors s)" and "tame f" and "on_monitor i f s = Inr (a, s')"
  shows "advances sid s s'" and "length (ms_monitors s') = length (ms_monitors s)"
proof -
  from assms(4) obtain m where m: "f (ms_monitors s ! i) = (Inr a, m)"
    and s': "s' = s\<lparr>ms_monitors := (ms_monitors s)[i := m]\<rparr>"
    by (auto simp: on_monitor_Inr)
  have "fine (ms_next_event_id s) (ms_monitors s ! i)"
    using assms(1,2) by (auto simp: sound_def intro: monitors_ok_nth)
  from tame_snd [OF assms(3) m this] show "advances sid s s'"
    unfolding s' by (intro advances_update assms) simp_all
  show "length (ms_monitors s') = length (ms_monitors s)" by (simp add: s')
qed

end
