(* ===== verification/Monitor_Sound.thy ===== *)
theory Monitor_Sound
  imports Monitor_Events
begin

section \<open>Every operation and evaluation keeps a set sound\<close>

text \<open>
  The invariant of Monitor_Events through the operations, the evaluation and the end of a session
  (\<open>fx-process/src/terminal_monitor_store.rs\<close>): a set that is sound is given to the next step sound,
  so what the store saves it can always load again.
\<close>

lemma apply_decision_advances:
  assumes "sound sid s" and "0 \<le> sint now" and "apply_decision i d lifecycle cursor now s = Inr (removed, s')"
  shows "advances sid s s'"
proof -
  from assms(3) obtain s1 where p: "(case dec_notify d of
         None \<Rightarrow> Inr s | Some reason \<Rightarrow> push_event i reason lifecycle cursor now s) = Inr s1"
    and r: "s' = s1 \<or> s' = s1\<lparr>ms_monitors := remove_at i (ms_monitors s1)\<rparr>"
    by (auto simp: apply_decision_def and_then_Inr_iff split: if_splits)
  have 1: "advances sid s s1"
  proof (cases "dec_notify d")
    case None
    with p assms(1) show ?thesis by (simp add: advances_refl)
  next
    case (Some reason)
    with p have "push_event i reason lifecycle cursor now s = Inr s1" by simp
    with assms(1,2) show ?thesis by (rule advances_push)
  qed
  from r 1 advances_remove [OF advances_sound [OF 1], of i] show ?thesis by (auto intro: advances_trans)
qed

lemma output_decision_advances:
  assumes s: "sound sid s" and i: "i < length (ms_monitors s)" and o: "output_decision obs now i s = Inr (c, d, s')"
  shows "advances sid s s'"
proof -
  have two: "advances sid s t2" if "on_monitor i f s = Inr (x, t1)" "on_monitor i g t1 = Inr (y, t2)" "tame f" "tame g"
    for f :: "monitor \<Rightarrow> (monitor_error + bool) \<times> monitor" and g :: "monitor \<Rightarrow> (monitor_error + decision) \<times> monitor"
      and x y t1 t2
  proof -
    note 1 = on_monitor_advances [OF s i that(3,1)]
    have "i < length (ms_monitors t1)" using i 1(2) by simp
    from on_monitor_advances(1) [OF advances_sound [OF 1(1)] this that(4,2)] 1(1) show ?thesis
      by (blast intro: advances_trans)
  qed
  show ?thesis
    using o s by (auto simp: output_decision_def and_then_Inr_iff
        intro: two tame_methods on_monitor_advances(1) [OF s i] advances_refl split: monitor_condition.splits)
qed

lemma output_step_advances:
  assumes s: "sound sid s" and i: "i < length (ms_monitors s)" and now: "0 \<le> sint now"
    and o: "output_step obs now i s = Inr (c, r, s')"
  shows "advances sid s s'"
proof (cases "suspended (ms_monitors s ! i)")
  case True
  with o s show ?thesis by (simp add: output_step_def advances_refl)
next
  case False
  with o obtain c1 d s1 where d: "output_decision obs now i s = Inr (c1, d, s1)"
    and rest: "(case d of None \<Rightarrow> Inr (c1, False, s1)
        | Some d \<Rightarrow> and_then (apply_decision i d (obs_lifecycle obs) (obs_cursor_end obs) now s1) (\<lambda>(removed, s).
              Inr (True, removed, s))) = Inr (c, r, s')"
    by (auto simp: output_step_def and_then_Inr_iff)
  note 1 = output_decision_advances [OF s i d]
  from rest 1 show ?thesis
    by (auto simp: and_then_Inr_iff split: option.splits
        intro: advances_trans apply_decision_advances [OF advances_sound [OF 1] now])
qed

lemma timer_step_advances:
  assumes s: "sound sid s" and i: "i < length (ms_monitors s)" and now: "0 \<le> sint now"
    and t: "timer_step obs now i s = Inr (c, r, s')"
  shows "advances sid s s'"
proof -
  from t obtain d m where dm: "(if quiet_due (ms_monitors s ! i) now then observe Quiet True now (ms_monitors s ! i)
           else timer_decision now (ms_monitors s ! i)) = (Inr d, m)"
    and rest: "let s1 = s\<lparr>ms_monitors := (ms_monitors s)[i := m]\<rparr> in
           if d = no_decision then \<not> c \<and> \<not> r \<and> s' = s1
           else c \<and> apply_decision i d (obs_lifecycle obs) (obs_cursor_end obs) now s1 = Inr (r, s')"
    by (auto simp: timer_step_Inr)
  have "fine (ms_next_event_id s) (ms_monitors s ! i)" using s i by (auto simp: sound_def intro: monitors_ok_nth)
  then have "fine (ms_next_event_id s) m \<and> monitor_id m = monitor_id (ms_monitors s ! i)"
    using dm tame_snd [OF tame_methods(1) [of Quiet True now]] tame_snd [OF tame_methods(2) [of now]]
    by (auto split: if_splits)
  then have 1: "advances sid s (s\<lparr>ms_monitors := (ms_monitors s)[i := m]\<rparr>)"
    by (intro advances_update [OF s i]) simp_all
  from rest 1 show ?thesis
    by (auto simp: Let_def split: if_splits intro: advances_trans [OF 1] apply_decision_advances [OF advances_sound [OF 1] now])
qed

lemma output_loop_advances:
  "sound sid s \<Longrightarrow> 0 \<le> sint now \<Longrightarrow> output_loop obs now i changed s = Inr (c, s') \<Longrightarrow> advances sid s s'"
proof (induction obs now i changed s rule: output_loop.induct)
  case (1 obs now i changed s)
  show ?case
  proof (cases "length (ms_monitors s) \<le> i")
    case True
    with 1 show ?thesis by (simp add: output_loop.simps [of _ _ i] advances_refl)
  next
    case False
    with 1 obtain c1 r s1 where st: "output_step obs now i s = Inr (c1, r, s1)"
      and rest: "output_loop obs now (if r then i else Suc i) (c1 \<or> changed) s1 = Inr (c, s')"
      by (auto simp: output_loop.simps [of _ _ i] split: sum.splits)
    have a: "advances sid s s1" using output_step_advances [OF _ _ _ st] 1 False by simp
    from "1.IH" [OF False st refl refl advances_sound [OF a] "1.prems"(2) rest] a show ?thesis
      by (rule advances_trans [rotated])
  qed
qed

lemma timer_loop_advances:
  "sound sid s \<Longrightarrow> 0 \<le> sint now \<Longrightarrow> timer_loop obs now i changed s = Inr (c, s') \<Longrightarrow> advances sid s s'"
proof (induction obs now i changed s rule: timer_loop.induct)
  case (1 obs now i changed s)
  show ?case
  proof (cases "length (ms_monitors s) \<le> i")
    case True
    with 1 show ?thesis by (simp add: timer_loop.simps [of _ _ i] advances_refl)
  next
    case False
    with 1 obtain c1 r s1 where st: "timer_step obs now i s = Inr (c1, r, s1)"
      and rest: "timer_loop obs now (if r then i else Suc i) (c1 \<or> changed) s1 = Inr (c, s')"
      by (auto simp: timer_loop.simps [of _ _ i] split: sum.splits)
    have a: "advances sid s s1" using timer_step_advances [OF _ _ _ st] 1 False by simp
    from "1.IH" [OF False st refl refl advances_sound [OF a] "1.prems"(2) rest] a show ?thesis
      by (rule advances_trans [rotated])
  qed
qed

lemma poll_condition_fine:
  assumes "poll_condition w root cwd m = (b, m')" and "fine n m"
  shows "fine n m' \<and> monitor_id m' = monitor_id m"
proof -
  from assms(1) have "keeps m m'"
    by (auto simp: poll_condition_def split: monitor_condition.splits option.splits)
  with assms(2) keeps_runtime_ok [of m m'] same_identity_ok [of m m'] show ?thesis
    by (simp add: fine_def keeps_def same_identity_def)
qed

lemma poll_step_advances:
  assumes s: "sound sid s" and now: "0 \<le> sint now" and p: "poll_step w obs now s = Inr (c, s')"
  shows "advances sid s s'"
proof (cases "find (\<lambda>i. polling_due (ms_monitors s ! i) now) [0..<length (ms_monitors s)]")
  case None
  with p s show ?thesis by (simp add: poll_step_def advances_refl)
next
  case (Some i)
  then have i: "i < length (ms_monitors s)" by (auto simp: find_Some_iff)
  obtain b m where pc: "poll_condition w (obs_workspace_root obs) (obs_cwd obs) (ms_monitors s ! i) = (b, m)"
    by fastforce
  let ?s = "s\<lparr>ms_monitors := (ms_monitors s)[i := m]\<rparr>"
  from p Some pc obtain d s1 r where o: "on_monitor i (observe Check b now) ?s = Inr (d, s1)"
    and a: "apply_decision i d (obs_lifecycle obs) (obs_cursor_end obs) now s1 = Inr (r, s')"
    by (auto simp: poll_step_def and_then_Inr_iff)
  have "fine (ms_next_event_id s) (ms_monitors s ! i)" using s i by (auto simp: sound_def intro: monitors_ok_nth)
  from poll_condition_fine [OF pc this] have 1: "advances sid s ?s"
    by (intro advances_update [OF s i]) simp_all
  have "i < length (ms_monitors ?s)" using i by simp
  note 2 = on_monitor_advances(1) [OF advances_sound [OF 1] this tame_methods(1) o]
  note 3 = apply_decision_advances [OF advances_sound [OF 2] now a]
  from 1 2 3 show ?thesis by (blast intro: advances_trans)
qed

lemma end_decision_advances:
  assumes s: "sound sid s" and ne: "ms_monitors s \<noteq> []" and now: "0 \<le> sint now"
    and d: "end_decision lifecycle code signal now s = Inr (d, s1)"
  shows "advances sid s s1"
proof -
  let ?c = "condition (mon_definition (ms_monitors s ! 0))"
  from d obtain d1 t where t: "(if exit_relevant ?c \<and> lifecycle = Exited
          then on_monitor 0 (observe Exit (exit_condition_matches ?c lifecycle code signal) now) s
          else Inr (no_decision, s)) = Inr (d1, t)"
    and u: "(if dec_notify d1 = None \<and> notify (mon_definition (ms_monitors t ! 0)) = OnExit
            \<and> last_event_reason (ms_monitors t ! 0) \<noteq> Some SessionExitEvent
        then on_monitor 0 (observe SessionExit False now) t else Inr (d1, t)) = Inr (d, s1)"
    unfolding end_decision_def Let_def and_then_Inr_iff split_paired_Ex prod.case by blast
  have 0: "0 < length (ms_monitors s)" using ne by simp
  have 1: "advances sid s t \<and> length (ms_monitors t) = length (ms_monitors s)"
    using t advances_refl [OF s] on_monitor_advances [OF s 0 tame_methods(1)] by (auto split: if_splits)
  then have t0: "0 < length (ms_monitors t)" using 0 by simp
  have st: "sound sid t" using 1 by (blast dest: advances_sound)
  have "advances sid t s1"
    using u advances_refl [OF st] on_monitor_advances(1) [OF st t0 tame_methods(1)] by (auto split: if_splits)
  with 1 show ?thesis by (blast intro: advances_trans)
qed

lemmas end_decision_sound = advances_sound [OF end_decision_advances]

lemma end_step_advances:
  assumes s: "sound sid s" and ne: "ms_monitors s \<noteq> []" and now: "0 \<le> sint now"
    and e: "end_step lifecycle code signal cursor now s = Inr s'"
  shows "advances sid s s'"
proof -
  from e obtain d s1 r where d: "end_decision lifecycle code signal now s = Inr (d, s1)"
    and a: "apply_decision 0 (d\<lparr>dec_remove := True\<rparr>) lifecycle cursor now s1 = Inr (r, s')"
    by (auto simp: end_step_def and_then_Inr_iff)
  note 1 = end_decision_advances [OF s ne now d]
  from apply_decision_advances [OF advances_sound [OF 1] now a] 1 show ?thesis by (blast intro: advances_trans)
qed

lemma end_monitors_advances:
  "sound sid s \<Longrightarrow> 0 \<le> sint now \<Longrightarrow> end_monitors lifecycle code signal cursor now s = Inr s' \<Longrightarrow>
     advances sid s s' \<and> ms_monitors s' = []"
proof (induction lifecycle code signal cursor now s rule: end_monitors.induct)
  case (1 lifecycle code signal cursor now s)
  show ?case
  proof (cases "ms_monitors s = []")
    case True
    with 1 show ?thesis by (simp add: end_monitors.simps [of _ _ _ _ _ s] advances_refl)
  next
    case False
    with 1 obtain s1 where st: "end_step lifecycle code signal cursor now s = Inr s1"
      and rest: "end_monitors lifecycle code signal cursor now s1 = Inr s'"
      by (auto simp: end_monitors.simps [of _ _ _ _ _ s] split: sum.splits)
    note a = end_step_advances [OF "1.prems"(1) False "1.prems"(2) st]
    from "1.IH" [OF False st advances_sound [OF a] "1.prems"(2) rest] a show ?thesis
      by (blast intro: advances_trans)
  qed
qed

end
