(* ===== verification/Monitor_Samples.thy ===== *)
theory Monitor_Samples
  imports Monitor_Store
begin

section \<open>Sample sets of monitors\<close>

text \<open>
  A session with one monitor that waits for the process to exit, for the witnesses: the set with the
  monitor, without it again, and with a second one.
\<close>

definition quiet_world :: monitor_world where
  "quiet_world =
     \<lparr>mw_files = \<lparr>canonicalize = Inr, read_link = (\<lambda>_. Inr []), entry_is_symlink = (\<lambda>_. False), home = None\<rparr>,
      mw_stat = (\<lambda>_. Inr (0, None)), mw_is_dir = (\<lambda>_. False), mw_sha256 = (\<lambda>_. []),
      mw_uri = (\<lambda>_. None), mw_addresses = (\<lambda>_ _. []), mw_connects = (\<lambda>_. False),
      mw_exchange = (\<lambda>_ _. None), mw_probe = (\<lambda>_ _. NotStarted)\<rparr>"

definition exit_definition :: monitor_definition where
  "exit_definition = \<lparr>condition = ProcessExit, check_interval_ms = None, notify = OnExit, lifetime = UntilSessionEnd\<rparr>"

definition sample_sid :: string where
  "sample_sid = ''terminal-n-0123456789abcdef0123456789abcdef''"

definition sample_context :: "observed_lifecycle \<Rightarrow> monitor_context" where
  "sample_context lc =
     \<lparr>mc_current_cursor = 7, mc_lifecycle = lc, mc_workspace_root = ''/w'', mc_cwd = ''/w'', mc_now_ms = 1000\<rparr>"

definition exit_monitor :: "string \<Rightarrow> monitor" where
  "exit_monitor ident =
     \<lparr>monitor_id = ident, mon_definition = exit_definition, state = Active, generation = 1,
      created_at_ms = 1000, lifetime_deadline_ms = None, next_check_ms = None, next_notification_ms = None,
      check_count = 0, notification_count = 0, last_event_id = 0, last_event_reason = None,
      condition_matched = False, baseline = None, probe_cwd_fingerprint = None, matcher_states = no_states\<rparr>"

definition sample_empty :: monitor_set where
  "sample_empty = empty_set sample_sid 7 Running 1000"

definition sample_one :: monitor_set where
  "sample_one = sample_empty\<lparr>ms_next_monitor_id := 2, ms_monitors := [exit_monitor ''monitor-1'']\<rparr>"

definition sample_event :: monitor_event where
  "sample_event = \<lparr>me_event_id = 1, me_monitor_id = ''monitor-1'', me_reason = Removed, me_lifecycle = Running,
     me_cursor_segment = 1, me_cursor_offset = 7, me_created_at_ms = 1000\<rparr>"

definition sample_none :: monitor_set where
  "sample_none = sample_empty\<lparr>ms_next_monitor_id := 2, ms_next_event_id := 2, ms_events := [sample_event]\<rparr>"

definition sample_two :: monitor_set where
  "sample_two = sample_none\<lparr>ms_next_monitor_id := 3, ms_monitors := [exit_monitor ''monitor-2'']\<rparr>"

lemma sample_sid_valid: "valid_terminal_id sample_sid"
  by code_simp

lemmas sample_defs = sample_empty_def sample_one_def sample_none_def sample_two_def sample_event_def
  sample_context_def empty_set_def exit_monitor_def exit_definition_def

lemma exit_monitor_fields:
  "condition (mon_definition (exit_monitor i)) = ProcessExit" "notify (mon_definition (exit_monitor i)) = OnExit"
  "mon_definition (exit_monitor i) = exit_definition" "last_event_reason (exit_monitor i) = None"
  "lifetime_deadline_ms (exit_monitor i) = None" "state (exit_monitor i) = Active" "check_count (exit_monitor i) = 0"
  "condition_matched (exit_monitor i) = False" "monitor_id (exit_monitor i) = i" "last_event_id (exit_monitor i) = 0"
  "notification_count (exit_monitor i) = 0"
  by (simp_all add: exit_monitor_def exit_definition_def)

lemma stable_id_1: "stable_id 1 = Inr ''monitor-1''" and stable_id_2: "stable_id 2 = Inr ''monitor-2''"
  by code_simp+

lemma find_sample: "find_monitor sample_one ''monitor-1'' = Inr 0"
  by (simp add: find_monitor_def sample_defs)

lemma build_sample:
  "validate_monitor_id ident = Inr () \<Longrightarrow>
     build_monitor quiet_world (sample_context lc) ident exit_definition = Inr (exit_monitor ident)"
  by (simp add: build_monitor_def new_monitor_def prepare_monitor_effects_def sample_defs opt_deadline_def
      validate_definition_def validate_notify_def validate_lifetime_def validate_checks_def check_duration_def
      lifetime_duration_def quiet_duration_def notify_interval_def)

lemma valid_sample_ids: "validate_monitor_id ''monitor-1'' = Inr ()" "validate_monitor_id ''monitor-2'' = Inr ()"
  by code_simp+

lemma sample_sums: "checked_add_u64 1 1 = Some 2" "checked_add_u64 2 1 = Some 3" "checked_add_u64 0 1 = Some 1"
  by (simp_all add: checked_add_u64_def)

lemmas adding = apply_operation.simps list.size map_err_simps and_then_simps ok_or_simps maximum_monitors_def

lemma sample_add: "apply_operation quiet_world (sample_context Running) sample_empty (AddMonitor exit_definition)
    = Inr (sample_one, ''monitor-1'')"
proof -
  have "ms_next_monitor_id sample_empty = 1" "ms_monitors sample_empty = []" by (simp_all add: sample_defs)
  note adding = adding this stable_id_1 sample_sums build_sample [OF valid_sample_ids(1)]
  show ?thesis by (simp only: adding) (simp add: sample_one_def)
qed

lemma sample_add_again: "apply_operation quiet_world (sample_context Running) sample_none (AddMonitor exit_definition)
    = Inr (sample_two, ''monitor-2'')"
proof -
  have "ms_next_monitor_id sample_none = 2" "ms_monitors sample_none = []" by (simp_all add: sample_defs)
  note adding = adding this stable_id_2 sample_sums build_sample [OF valid_sample_ids(2)]
  show ?thesis by (simp only: adding) (simp add: sample_two_def)
qed

lemma sample_push: "push_event 0 Removed Running 7 1000 sample_one
    = Inr (sample_none\<lparr>ms_monitors := [(exit_monitor ''monitor-1'')
        \<lparr>notification_count := 1, last_event_id := 1, last_event_reason := Some Removed\<rparr>]\<rparr>)"
proof -
  have "ms_next_event_id sample_one = 1" "ms_monitors sample_one = [exit_monitor ''monitor-1'']"
    "ms_events sample_one = []" "ms_event_gap_through sample_one = 0" by (simp_all add: sample_defs)
  moreover have "note_notification 1 Removed (exit_monitor ''monitor-1'')
      = (Inr (), (exit_monitor ''monitor-1'')
          \<lparr>notification_count := 1, last_event_id := 1, last_event_reason := Some Removed\<rparr>)"
    by (simp add: note_notification_def Let_def exit_monitor_def sample_sums)
  ultimately show ?thesis
    unfolding push_event_Inr
    by (simp add: sample_sums new_event_def maximum_events_def)
      (simp add: sample_defs)
qed

lemma sample_remove: "apply_operation quiet_world (sample_context Running) sample_one (RemoveMonitor ''monitor-1'')
    = Inr (sample_none, ''monitor-1'')"
proof -
  have "mc_lifecycle (sample_context Running) = Running" "mc_current_cursor (sample_context Running) = 7"
    "mc_now_ms (sample_context Running) = 1000" by (simp_all add: sample_context_def)
  moreover have "ms_monitors sample_none = []" by (simp add: sample_defs)
  ultimately show ?thesis
    by (simp only: apply_operation.simps note_operation_def find_sample sample_push and_then_simps)
      (simp add: remove_at_def sample_defs)
qed

lemma sample_lifecycles:
  "sample_empty\<lparr>ms_last_lifecycle := Running\<rparr> = sample_empty" "sample_one\<lparr>ms_last_lifecycle := Running\<rparr> = sample_one"
  "sample_none\<lparr>ms_last_lifecycle := Running\<rparr> = sample_none"
  by (simp_all add: sample_empty_def sample_one_def sample_none_def empty_set_def)

text \<open>A codec that knows one set.\<close>

definition one_set_codec :: "monitor_set \<Rightarrow> set_codec" where
  "one_set_codec s = \<lparr>set_bytes = (\<lambda>_. ''{}''), set_parse = (\<lambda>_. Inr s)\<rparr>"

definition sample_io :: "string option list \<Rightarrow> monitor_io" where
  "sample_io faults = \<lparr>mio_root = RealDir, mio_files = (\<lambda>_. None), mio_faults = faults\<rparr>"

end
