(* ===== verification/Monitor_History.thy ===== *)
theory Monitor_History
  imports Monitor_Sound Monitor_Samples
begin

section \<open>The life of a set of monitors\<close>

text \<open>
  The steps of \<open>fx-process/src/terminal_monitor_store.rs\<close> on the set of one session, from the set it
  starts with, and what every set of such a history satisfies.
\<close>

subsection \<open>Evaluation\<close>

lemma degrade_loop_ok:
  "degrade_loop changed ms = Inr (c, ms') \<Longrightarrow>
     list_all2 (\<lambda>m m'. m' = snd (degrade_for_raw_gap m)) ms ms'"
proof (induction ms arbitrary: changed c ms')
  case (Cons m ms)
  obtain r m1 where d: "degrade_for_raw_gap m = (r, m1)" by fastforce
  with Cons.prems obtain b where r: "r = Inr b" by (cases r) auto
  with d Cons.prems obtain ms1 where "degrade_loop (b \<or> changed) ms = Inr (c, ms1)" "ms' = m1 # ms1"
    by (auto simp: and_then_Inr_iff)
  with d Cons.IH show ?case by simp
qed simp

lemma degraded_monitors_ok:
  assumes "list_all2 (\<lambda>m m'. m' = snd (degrade_for_raw_gap m)) ms ms'" and "monitors_ok n k ms"
  shows "monitors_ok n k ms'"
proof -
  have "fine n m \<Longrightarrow> fine n (snd (degrade_for_raw_gap m)) \<and> monitor_id (snd (degrade_for_raw_gap m)) = monitor_id m" for m
    using tame_methods(7) unfolding tame_def by blast
  with assms(1) have "list_all (fine n) ms \<Longrightarrow> list_all (fine n) ms' \<and> map monitor_id ms' = map monitor_id ms"
    by (induction ms ms' rule: list_all2_induct) auto
  moreover have "length ms' = length ms" using assms(1) by (simp add: list_all2_lengthD)
  ultimately show ?thesis using assms(2) unfolding monitors_ok_def by metis
qed

lemma evaluate_gap_advances: "sound sid s \<Longrightarrow> evaluate_gap obs s = Inr (c, s') \<Longrightarrow> advances sid s s'"
  by (auto simp: evaluate_gap_def and_then_Inr_iff advances_def sound_def
      dest!: degrade_loop_ok dest: degraded_monitors_ok split: if_splits)

lemma evaluate_output_advances:
  assumes "sound sid s" and "0 \<le> sint now" and "evaluate_output obs now c0 s = Inr (c, s')"
  shows "advances sid s s'"
proof (cases "obs_output obs = []")
  case True
  with assms show ?thesis by (simp add: evaluate_output_def advances_refl)
next
  case False
  note a = advances_last_output [OF assms(1,2)]
  from False assms(3) have "output_loop obs now 0 True (s\<lparr>ms_last_output_at_ms := now\<rparr>) = Inr (c, s')"
    by (simp add: evaluate_output_def)
  from output_loop_advances [OF advances_sound [OF a] assms(2) this] a show ?thesis by (blast intro: advances_trans)
qed

lemma evaluate_poll_advances:
  "sound sid s \<Longrightarrow> 0 \<le> sint now \<Longrightarrow> evaluate_poll w obs now c0 s = Inr (c, s') \<Longrightarrow> advances sid s s'"
  by (auto simp: evaluate_poll_def and_then_Inr_iff split: if_splits intro: poll_step_advances advances_refl)

lemma evaluate_end_advances:
  assumes s: "sound sid s" and now: "0 \<le> sint now" and e: "evaluate_end obs now c0 s = Inr (c, s')"
  shows "advances sid s s'"
proof -
  from e obtain c1 s1 where 1: "(if ms_last_lifecycle s = Running \<and> obs_lifecycle obs \<noteq> Running then
         and_then (end_monitors (obs_lifecycle obs) (obs_exit_code obs) (obs_signal obs) (obs_cursor_end obs) now s)
           (\<lambda>s. Inr (True, s)) else Inr (c0, s)) = Inr (c1, s1)"
    and s': "s' = s1 \<or> s' = s1\<lparr>ms_last_lifecycle := obs_lifecycle obs\<rparr>"
    unfolding evaluate_end_def and_then_Inr_iff by (auto split: if_splits)
  have a: "advances sid s s1"
    using 1 end_monitors_advances [OF s now] advances_refl [OF s] by (auto simp: and_then_Inr_iff split: if_splits)
  from s' advances_trans [OF a advances_lifecycle [OF advances_sound [OF a]]] a show ?thesis by auto
qed

lemma evaluate_set_advances:
  assumes s: "sound sid s" and now: "0 \<le> sint now" and e: "evaluate_set w obs now s = Inr (c, s')"
  shows "advances sid s s'"
proof (cases "ms_monitors s = [] \<or> \<not> obs_raw_gap obs \<and> obs_cursor_start obs \<noteq> ms_cursor_offset s")
  case True
  with s e show ?thesis by (auto simp: evaluate_set_def advances_refl split: if_splits)
next
  case False
  with e obtain c1 s1 c2 s2 c3 s3 c4 s4 where 1: "evaluate_gap obs s = Inr (c1, s1)"
    and 2: "evaluate_output obs now c1 s1 = Inr (c2, s2)"
    and 3: "timer_loop obs now 0 c2 (s2\<lparr>ms_cursor_offset := obs_cursor_end obs\<rparr>) = Inr (c3, s3)"
    and 4: "evaluate_poll w obs now c3 s3 = Inr (c4, s4)" and 5: "evaluate_end obs now c4 s4 = Inr (c, s')"
    by (auto simp: evaluate_set_def and_then_Inr_iff split: if_splits)
  note a1 = evaluate_gap_advances [OF s 1]
  note a2 = advances_trans [OF a1 evaluate_output_advances [OF advances_sound [OF a1] now 2]]
  note a2' = advances_trans [OF a2 advances_cursor [OF advances_sound [OF a2], of "obs_cursor_end obs"]]
  note a3 = advances_trans [OF a2' timer_loop_advances [OF advances_sound [OF a2'] now 3]]
  note a4 = advances_trans [OF a3 evaluate_poll_advances [OF advances_sound [OF a3] now 4]]
  from a4 evaluate_end_advances [OF advances_sound [OF a4] now 5] show ?thesis by (rule advances_trans)
qed

subsection \<open>Operations\<close>

lemma find_monitor_Inr:
  "find_monitor s ident = Inr i \<Longrightarrow> i < length (ms_monitors s) \<and> monitor_id (ms_monitors s ! i) = ident"
  by (auto simp: find_monitor_def find_Some_iff split: option.splits)

lemma new_monitor_fields: "new_monitor ident d now = Inr m \<Longrightarrow> monitor_id m = ident \<and> last_event_id m = 0"
  by (auto simp: new_monitor_def and_then_Inr_iff)

lemma prepare_keeps: "prepare_monitor_effects w root cwd m = Inr m' \<Longrightarrow> keeps m m'"
  by (auto simp: prepare_monitor_effects_def and_then_Inr_iff split: monitor_condition.splits if_splits)

lemma keeps_fine: "keeps m m' \<Longrightarrow> fine n m \<Longrightarrow> fine n m' \<and> monitor_id m' = monitor_id m"
  using keeps_runtime_ok [of m m'] same_identity_ok [of m m'] by (simp add: fine_def keeps_def same_identity_def)

lemma new_monitor_fine:
  "new_monitor ident d now = Inr m \<Longrightarrow> n \<noteq> 0 \<Longrightarrow> fine n m"
  using new_monitor_ok [of ident d now m] new_monitor_fields [of ident d now m] by (simp add: fine_def word_gt_0)

lemma build_monitor_fine:
  "build_monitor w ctx ident d = Inr m \<Longrightarrow> n \<noteq> 0 \<Longrightarrow> fine n m \<and> monitor_id m = ident"
  by (auto simp: build_monitor_def and_then_Inr_iff
      dest: prepare_keeps keeps_fine new_monitor_fine new_monitor_fields)

lemma sound_next_event: "sound sid s \<Longrightarrow> ms_next_event_id s \<noteq> 0"
  by (auto simp: sound_def log_whole_def first_kept_def)

lemma add_advances:
  assumes s: "sound sid s" and a: "apply_operation w ctx s (AddMonitor d) = Inr (s', ident)"
  shows "advances sid s s'" and "ident \<notin> used_ids (ms_next_monitor_id s)" and "ident \<in> used_ids (ms_next_monitor_id s')"
proof -
  from a obtain k m where len: "length (ms_monitors s) < maximum_monitors"
    and ident: "stable_id (ms_next_monitor_id s) = Inr ident"
    and k: "checked_add_u64 (ms_next_monitor_id s) 1 = Some k"
    and m: "build_monitor w ctx ident d = Inr m"
    and s': "s' = s\<lparr>ms_next_monitor_id := k, ms_monitors := ms_monitors s @ [m]\<rparr>"
    by (auto simp: and_then_Inr_iff not_le split: if_splits)
  from used_ids_next [OF k ident] show fresh: "ident \<notin> used_ids (ms_next_monitor_id s)"
    and new: "ident \<in> used_ids (ms_next_monitor_id s')" by (simp_all add: s')
  have le: "ms_next_monitor_id s \<le> k" using next_id_less [OF k] by simp
  then have mono: "used_ids (ms_next_monitor_id s) \<subseteq> used_ids k"
    by (intro used_ids_mono) (simp add: word_le_nat_alt)
  from build_monitor_fine [OF m sound_next_event [OF s]]
  have "monitors_ok (ms_next_event_id s) k (ms_monitors s @ [m])"
    using s len mono fresh new by (auto simp: sound_def monitors_ok_def s')
  moreover have "list_all (event_ok k) (ms_events s)"
    using s mono by (auto simp: sound_def list_all_iff event_ok_def)
  moreover have "k \<noteq> 0" using k by (rule checked_add_u64_nonzero)
  ultimately show "advances sid s s'" using s le by (simp add: s' sound_def advances_def)
qed

lemma update_advances:
  assumes s: "sound sid s" and now: "0 \<le> sint (mc_now_ms ctx)"
    and a: "apply_operation w ctx s (UpdateMonitor ident d) = Inr (s', r)"
  shows "advances sid s s'"
proof -
  from a obtain i g m m' where i: "find_monitor s ident = Inr i"
    and g: "checked_add_u64 (generation (ms_monitors s ! i)) 1 = Some g"
    and m: "new_monitor ident d (mc_now_ms ctx) = Inr m"
    and m': "prepare_monitor_effects w (mc_workspace_root ctx) (mc_cwd ctx) (m\<lparr>generation := g\<rparr>) = Inr m'"
    and p: "note_operation ctx i Updated (s\<lparr>ms_monitors := (ms_monitors s)[i := m']\<rparr>) = Inr s'"
    by (auto simp: and_then_Inr_iff)
  have "fine (ms_next_event_id s) m" "monitor_id m = ident"
    using new_monitor_fine [OF m sound_next_event [OF s]] new_monitor_fields [OF m] by simp_all
  then have g_fine: "fine (ms_next_event_id s) (m\<lparr>generation := g\<rparr>)" "monitor_id (m\<lparr>generation := g\<rparr>) = ident"
    using checked_add_u64_nonzero [OF g] same_identity_ok [of m "m\<lparr>generation := g\<rparr>"]
    by (simp_all add: fine_def same_identity_def runtime_ok_def)
  with keeps_fine [OF prepare_keeps [OF m'] g_fine(1)] find_monitor_Inr [OF i]
  have 1: "advances sid s (s\<lparr>ms_monitors := (ms_monitors s)[i := m']\<rparr>)"
    by (intro advances_update [OF s]) simp_all
  from advances_push [OF advances_sound [OF 1] now p [unfolded note_operation_def]] 1 show ?thesis
    by (blast intro: advances_trans)
qed

text \<open>Pausing and resuming: a method, a new generation and an event.\<close>

lemma bumped_advances:
  assumes s: "sound sid s" and now: "0 \<le> sint (mc_now_ms ctx)" and i: "i < length (ms_monitors s)"
    and b: "on_monitor i bump_generation s = Inr (u, s1)" and p: "note_operation ctx i reason s1 = Inr s'"
  shows "advances sid s s'"
proof -
  note 1 = on_monitor_advances(1) [OF s i tame_methods(5) b]
  from advances_push [OF advances_sound [OF 1] now p [unfolded note_operation_def]] 1 show ?thesis
    by (blast intro: advances_trans)
qed

lemma pause_advances:
  assumes s: "sound sid s" and now: "0 \<le> sint (mc_now_ms ctx)"
    and a: "apply_operation w ctx s (PauseMonitor ident) = Inr (s', r)"
  shows "advances sid s s'"
proof -
  from a obtain i where f: "find_monitor s ident = Inr i" by (auto simp: and_then_Inr_iff)
  obtain b m where m: "pause (ms_monitors s ! i) = (b, m)" by fastforce
  let ?s = "s\<lparr>ms_monitors := (ms_monitors s)[i := m]\<rparr>"
  note i = find_monitor_Inr [OF f, THEN conjunct1]
  have "tame (\<lambda>m. (Inr (), snd (pause m)))" by (rule tame_call [of _ Pause]) simp_all
  from tame_snd [OF this, of "ms_monitors s ! i" "Inr ()" m "ms_next_event_id s"] m s i
  have 1: "advances sid s ?s" by (intro advances_update [OF s i]) (auto simp: sound_def intro: monitors_ok_nth)
  show ?thesis
  proof (cases b)
    case False
    with a f m 1 show ?thesis by (simp add: and_then_def)
  next
    case True
    with a f m obtain u s1 where "on_monitor i bump_generation ?s = Inr (u, s1)" "note_operation ctx i PausedEvent s1 = Inr s'"
      by (auto simp: and_then_Inr_iff)
    from bumped_advances [OF advances_sound [OF 1] now _ this] 1 i show ?thesis
      by (auto intro: advances_trans)
  qed
qed

lemma resume_advances:
  assumes s: "sound sid s" and now: "0 \<le> sint (mc_now_ms ctx)"
    and a: "apply_operation w ctx s (ResumeMonitor ident) = Inr (s', r)"
  shows "advances sid s s'"
proof -
  from a obtain i b s1 where f: "find_monitor s ident = Inr i" and o: "on_monitor i (resume (mc_now_ms ctx)) s = Inr (b, s1)"
    by (auto simp: and_then_Inr_iff)
  note i = find_monitor_Inr [OF f, THEN conjunct1]
  note 1 = on_monitor_advances [OF s i tame_methods(4) o]
  show ?thesis
  proof (cases b)
    case False
    with a f o 1 show ?thesis by (simp add: and_then_def)
  next
    case True
    with a f o obtain u s2 where "on_monitor i bump_generation s1 = Inr (u, s2)" "note_operation ctx i Resumed s2 = Inr s'"
      by (auto simp: and_then_Inr_iff)
    from bumped_advances [OF advances_sound [OF 1(1)] now _ this] 1 i show ?thesis
      by (auto intro: advances_trans)
  qed
qed

lemma removal_advances:
  assumes s: "sound sid s" and now: "0 \<le> sint (mc_now_ms ctx)"
    and a: "apply_operation w ctx s (RemoveMonitor ident) = Inr (s', r)"
  shows "advances sid s s'"
proof -
  from a obtain i s1 where p: "note_operation ctx i Removed s = Inr s1"
    and s': "s' = s1\<lparr>ms_monitors := remove_at i (ms_monitors s1)\<rparr>"
    by (auto simp: and_then_Inr_iff)
  note 1 = advances_push [OF s now p [unfolded note_operation_def]]
  from advances_remove [OF advances_sound [OF 1]] 1 show ?thesis unfolding s' by (blast intro: advances_trans)
qed

lemma apply_operation_advances:
  assumes "sound sid s" and "0 \<le> sint (mc_now_ms ctx)" and "apply_operation w ctx s op = Inr (s', r)"
  shows "advances sid s s'"
  using assms
  by (cases op) (blast intro: add_advances(1) update_advances pause_advances resume_advances removal_advances)+

subsection \<open>The start of a set, and acknowledgement\<close>

lemma empty_set_sound: "valid_terminal_id sid \<Longrightarrow> 0 \<le> sint now \<Longrightarrow> sound sid (empty_set sid cursor lifecycle now)"
  by (simp add: sound_def empty_set_def monitors_ok_def log_whole_def first_kept_def)

lemma build_initial_loop_ids:
  "build_initial_loop w ctx i ds = Inr ms \<Longrightarrow> n \<noteq> 0 \<Longrightarrow> i + length ds < 2 ^ 64 \<Longrightarrow>
     list_all (fine n) ms
     \<and> map monitor_id ms = map monitor_name [Suc i..<Suc (i + length ds)]"
proof (induction ds arbitrary: i ms)
  case (Cons d ds)
  from Cons.prems(1) obtain sq ident m rest where sq: "checked_add_u64 (of_nat i) 1 = Some sq"
    and ident: "stable_id sq = Inr ident" and m: "build_monitor w ctx ident d = Inr m"
    and rest: "build_initial_loop w ctx (Suc i) ds = Inr rest" and ms: "ms = m # rest"
    by (auto simp: and_then_Inr_iff)
  have "unat sq = Suc i" using unat_add1 [OF sq] Cons.prems(3) by (simp add: unat_of_nat)
  then have "ident = monitor_name (Suc i)" using ident by (simp add: stable_id_name)
  moreover have "[Suc i..<Suc (i + length (d # ds))] = Suc i # [Suc (Suc i)..<Suc (Suc i + length ds)]"
    by (subst upt_conv_Cons) simp_all
  ultimately show ?case
    using Cons.IH [OF rest Cons.prems(2)] Cons.prems(3) build_monitor_fine [OF m Cons.prems(2)] ms by simp
qed simp

lemma installed_sound:
  assumes sid: "valid_terminal_id sid" and now: "0 \<le> sint (mc_now_ms ctx)"
    and b: "build_initial_monitors w ctx ds = Inr ms" and k: "checked_add_u64 (of_nat (length ms)) 1 = Some k"
  shows "sound sid ((empty_set sid 0 (mc_lifecycle ctx) (mc_now_ms ctx))\<lparr>ms_next_monitor_id := k, ms_monitors := ms\<rparr>)"
proof -
  from b have len: "length ds \<le> maximum_monitors" and l: "build_initial_loop w ctx 0 ds = Inr ms"
    by (auto simp: build_initial_monitors_def not_less split: if_splits)
  have ms: "list_all (fine 1) ms \<and> map monitor_id ms = map monitor_name [1..<Suc (length ds)]"
    using build_initial_loop_ids [OF l, of 1] len by (simp add: maximum_monitors_def)
  from ms have lm: "length ms = length ds" by (metis length_map length_upt diff_Suc_1)
  have uk: "unat k = Suc (length ds)" using unat_add1 [OF k] lm len by (simp add: unat_of_nat maximum_monitors_def)
  have dist: "distinct (map monitor_id ms)"
    unfolding ms [THEN conjunct2] distinct_map using inj_on_subset [OF inj_monitor_name] by simp
  have "set (map monitor_id ms) \<subseteq> used_ids k"
    unfolding ms [THEN conjunct2] used_ids_def uk set_map set_upt by (rule image_mono) auto
  with dist ms lm len have ok: "monitors_ok 1 k ms" unfolding monitors_ok_def by simp
  have "k \<noteq> 0" using k by (rule checked_add_u64_nonzero)
  with ok sid now show ?thesis
    by (simp add: sound_def empty_set_def log_whole_def first_kept_def)
qed

lemma filter_upt: "filter (\<lambda>i. k < i) [a..<b] = [max a (Suc k)..<b]"
proof (induction b)
  case (Suc b)
  then show ?case by (auto simp: max_def)
qed simp

lemma filtered_ids:
  "map (\<lambda>e. unat (me_event_id e)) (filter (\<lambda>e. k < me_event_id e) es)
     = filter (\<lambda>i. unat k < i) (map (\<lambda>e. unat (me_event_id e)) es)"
  by (induction es) (simp_all add: word_less_nat_alt)

lemma acknowledge_advances:
  assumes s: "sound sid s" and k: "k < ms_next_event_id s"
  shows "advances sid s (acknowledge k s)"
proof -
  let ?a = "first_kept (ms_event_gap_through s) (ms_acknowledged_through s)"
  have fk: "first_kept (ms_event_gap_through s) (max (ms_acknowledged_through s) k) = max ?a (Suc (unat k))"
    by (simp add: first_kept_def unat_max max.assoc)
  have "log_whole (ms_event_gap_through s) (max (ms_acknowledged_through s) k) (ms_next_event_id s)
      (filter (\<lambda>e. k < me_event_id e) (ms_events s))"
    using s k unfolding log_whole_def filtered_ids fk
    by (simp add: sound_def log_whole_def filter_upt word_less_nat_alt)
  moreover have "length (filter (\<lambda>e. k < me_event_id e) (ms_events s)) \<le> maximum_events"
    by (rule le_trans [OF length_filter_le]) (use s in \<open>simp add: sound_def\<close>)
  ultimately show ?thesis
    using s by (auto simp: sound_def advances_def acknowledge_def list_all_iff)
qed

subsection \<open>Histories\<close>

text \<open>
  A set of a session starts empty or with the initial monitors; every later one comes from it by an
  operation, an evaluation, the end of the session or an acknowledgement, at times that are not negative.
\<close>

inductive set_started :: "string \<Rightarrow> monitor_set \<Rightarrow> bool" for sid where
  fresh: "valid_terminal_id sid \<Longrightarrow> 0 \<le> sint now \<Longrightarrow> set_started sid (empty_set sid cursor lifecycle now)"
| installed: "valid_terminal_id sid \<Longrightarrow> 0 \<le> sint (mc_now_ms ctx) \<Longrightarrow>
    build_initial_monitors w ctx ds = Inr ms \<Longrightarrow> checked_add_u64 (of_nat (length ms)) 1 = Some k \<Longrightarrow>
    set_started sid ((empty_set sid 0 (mc_lifecycle ctx) (mc_now_ms ctx))
      \<lparr>ms_next_monitor_id := k, ms_monitors := ms\<rparr>)"

inductive set_step :: "monitor_set \<Rightarrow> monitor_set \<Rightarrow> bool" where
  operated: "0 \<le> sint (mc_now_ms ctx) \<Longrightarrow>
    apply_operation w ctx (s\<lparr>ms_last_lifecycle := mc_lifecycle ctx\<rparr>) op = Inr (s', ident) \<Longrightarrow> set_step s s'"
| evaluated: "0 \<le> sint now \<Longrightarrow> evaluate_set w obs now s = Inr (changed, s') \<Longrightarrow> set_step s s'"
| ended: "0 \<le> sint now \<Longrightarrow> end_monitors lifecycle None None (ms_cursor_offset s) now s = Inr s' \<Longrightarrow>
    set_step s (s'\<lparr>ms_last_lifecycle := lifecycle\<rparr>)"
| acknowledged: "k < ms_next_event_id s \<Longrightarrow> set_step s (acknowledge k s)"

inductive set_steps :: "monitor_set \<Rightarrow> monitor_set \<Rightarrow> bool" for s where
  none: "set_steps s s"
| more: "set_steps s s' \<Longrightarrow> set_step s' s'' \<Longrightarrow> set_steps s s''"

inductive_cases set_startedE: "set_started sid s"
inductive_cases set_stepE: "set_step s s'"

lemma started_sound: "set_started sid s \<Longrightarrow> sound sid s"
  by (erule set_startedE) (auto intro: empty_set_sound installed_sound)

lemma step_advances:
  assumes "sound sid s" and "set_step s s'"
  shows "advances sid s s'"
  using assms(2)
proof (cases rule: set_step.cases)
  case (operated ctx w op ident)
  note 1 = advances_lifecycle [OF assms(1), of "mc_lifecycle ctx"]
  from apply_operation_advances [OF advances_sound [OF 1] operated] 1 show ?thesis by (blast intro: advances_trans)
next
  case (evaluated now w obs changed)
  with assms(1) show ?thesis by (blast intro: evaluate_set_advances)
next
  case (ended now lifecycle s1)
  from end_monitors_advances [OF assms(1) ended(2,3)] have 1: "advances sid s s1" by blast
  from advances_trans [OF 1 advances_lifecycle [OF advances_sound [OF 1]]] ended(1) show ?thesis by simp
next
  case (acknowledged k)
  with acknowledge_advances [OF assms(1)] show ?thesis by simp
qed

lemma steps_advance: "set_steps s s' \<Longrightarrow> sound sid s \<Longrightarrow> advances sid s s'"
  by (induction rule: set_steps.induct) (blast intro: advances_refl advances_trans step_advances advances_sound)+

text \<open>The history of the sample sets.\<close>

lemma sample_started: "set_started sample_sid sample_empty"
  using fresh [OF sample_sid_valid, of 1000 7 Running] by (simp add: sample_empty_def)

lemma sample_steps: "set_step sample_empty sample_one" "set_step sample_one sample_none"
  using operated [of "sample_context Running" quiet_world sample_empty "AddMonitor exit_definition" sample_one]
    operated [of "sample_context Running" quiet_world sample_one "RemoveMonitor ''monitor-1''" sample_none]
    sample_add sample_remove sample_lifecycles
  by (simp_all only: sample_context_def monitor_context.simps) simp_all

lemma sample_history: "set_steps sample_empty sample_one" "set_steps sample_one sample_none"
  "set_steps sample_empty sample_none"
  using more [OF none sample_steps(1)] more [OF none sample_steps(2)] more [OF more [OF none sample_steps(1)] sample_steps(2)]
  by blast+

subsection \<open>What every set of a history satisfies\<close>

text \<open>
  C13. Every set of monitors that operations, evaluations, ends and acknowledgements (of identifiers that
  were given out) make of a set the store starts with, at times that are not negative, passes the validation
  that the store makes at every save and load: its monitors are valid and have distinct names, there are at
  most 32 of them and 1024 events, and its event log holds exactly the identifiers after the gap and the
  acknowledgement, none missing and in order. The size of the file, which the store limits to 2 MiB, is not
  part of that validation: a valid set can be too large to be saved.
\<close>

theorem monitor_sets_stay_valid:
  assumes "set_started sid s0" and "set_steps s0 s"
  shows "validate_set sid s = Inr () \<and> distinct (map monitor_id (ms_monitors s))
    \<and> length (ms_monitors s) \<le> maximum_monitors \<and> length (ms_events s) \<le> maximum_events
    \<and> map (\<lambda>e. unat (me_event_id e)) (ms_events s)
        = [Suc (max (unat (ms_event_gap_through s)) (unat (ms_acknowledged_through s)))..<unat (ms_next_event_id s)]"
proof -
  from steps_advance [OF assms(2) started_sound [OF assms(1)]] have "sound sid s" by (rule advances_sound)
  with sound_valid [OF this] show ?thesis by (simp add: sound_def monitors_ok_def log_whole_def first_kept_def)
qed

theorem monitor_sets_stay_valid_witness:
  "validate_set sample_sid sample_none = Inr () \<and> map (\<lambda>e. unat (me_event_id e)) (ms_events sample_none) = [1]
    \<and> validate_set sample_sid sample_one = Inr () \<and> ms_monitors sample_one = [exit_monitor ''monitor-1'']"
  using monitor_sets_stay_valid [OF sample_started sample_history(3)]
    monitor_sets_stay_valid [OF sample_started sample_history(1)]
  by (simp add: sample_none_def sample_one_def sample_event_def)

text \<open>
  The name of a monitor is never used twice: a monitor added to a set has a name that no monitor and no event
  of the set, or of any earlier set of the session, has had, also when the monitors are gone by then.
\<close>

theorem monitor_names_are_never_reused:
  assumes "set_started sid s0" and "set_steps s0 s1" and "set_steps s1 s2"
    and "apply_operation w ctx s2 (AddMonitor d) = Inr (s3, ident)"
  shows "ident \<notin> monitor_id ` set (ms_monitors s1) \<union> me_monitor_id ` set (ms_events s1)
    \<and> (\<exists>m. m \<in> set (ms_monitors s3) \<and> monitor_id m = ident)"
proof -
  from steps_advance [OF assms(2) started_sound [OF assms(1)]] have 1: "sound sid s1" by (rule advances_sound)
  from steps_advance [OF assms(3) 1] have 2: "advances sid s1 s2" .
  then have "used_ids (ms_next_monitor_id s1) \<subseteq> used_ids (ms_next_monitor_id s2)"
    by (intro used_ids_mono) (simp add: advances_def word_le_nat_alt)
  with add_advances(2) [OF advances_sound [OF 2] assms(4)]
  have "ident \<notin> used_ids (ms_next_monitor_id s1)" by blast
  moreover have "monitor_id ` set (ms_monitors s1) \<union> me_monitor_id ` set (ms_events s1) \<subseteq> used_ids (ms_next_monitor_id s1)"
    using 1 by (auto simp: sound_def monitors_ok_def list_all_iff event_ok_def)
  moreover from assms(4) obtain m where "build_monitor w ctx ident d = Inr m" "m \<in> set (ms_monitors s3)"
    by (auto simp: and_then_Inr_iff split: if_splits)
  ultimately show ?thesis using build_monitor_fine [of w ctx ident d m 1] by auto
qed

theorem monitor_names_are_never_reused_witness:
  "''monitor-2'' \<notin> monitor_id ` set (ms_monitors sample_one) \<union> me_monitor_id ` set (ms_events sample_one)
    \<and> (\<exists>m. m \<in> set (ms_monitors sample_two) \<and> monitor_id m = ''monitor-2'')"
  using monitor_names_are_never_reused [OF sample_started sample_history(1,2) sample_add_again] .

end
