(* ===== verification/Monitor_Durability.thy ===== *)
theory Monitor_Durability
  imports Monitor_History
begin

section \<open>The store of monitor sets under faults\<close>

text \<open>
  What a call of \<open>MonitorStore\<close> (\<open>fx-process/src/terminal_monitor_store.rs\<close>) leaves in the files when
  a system call or a check fails, what an inspection delivers of the event log, and an exit that
  no evaluation announces.
\<close>

subsection \<open>Failing calls\<close>

definition keeps_files :: "'a monitor_action \<Rightarrow> bool" where
  "keeps_files act \<longleftrightarrow> (\<forall>io. mio_files (snd (act io)) = mio_files io)"

definition all_or_nothing :: "'a monitor_action \<Rightarrow> bool" where
  "all_or_nothing act \<longleftrightarrow> (\<forall>io e io'. act io = (Inl e, io') \<longrightarrow> mio_files io' = mio_files io)"

named_theorems file_rules

lemma keeps_files_basic [file_rules]:
  "keeps_files (give a)" "keeps_files (fail e)" "keeps_files (lift r)" "keeps_files (mon_call m)"
  "keeps_files (\<lambda>io. (Inr (f io), io))"
  by (auto simp: keeps_files_def action_simps mon_call_def split: list.splits option.splits)

lemma keeps_files_seq [file_rules]:
  assumes "keeps_files p" and "\<And>a. keeps_files (f a)"
  shows "keeps_files (seq p f)"
  unfolding keeps_files_def
proof
  fix io
  obtain r s' where s: "seq p f io = (r, s')" by fastforce
  then show "mio_files (snd (seq p f io)) = mio_files io"
  proof (cases rule: seq_cases)
    case (failed e)
    with s assms(1) show ?thesis unfolding keeps_files_def by (metis snd_conv)
  next
    case (went_on a s1)
    with s assms show ?thesis unfolding keeps_files_def by (metis snd_conv)
  qed
qed

lemma keeps_files_if [file_rules]: "keeps_files p \<Longrightarrow> keeps_files q \<Longrightarrow> keeps_files (if b then p else q)"
  and keeps_files_option [file_rules]:
    "keeps_files n \<Longrightarrow> (\<And>a. keeps_files (f a)) \<Longrightarrow> keeps_files (case x of None \<Rightarrow> n | Some a \<Rightarrow> f a)"
  and keeps_files_file [file_rules]:
    "keeps_files p' \<Longrightarrow> (\<And>a. keeps_files (g a)) \<Longrightarrow> keeps_files (case y of SetBytes a \<Rightarrow> g a | NotAFile \<Rightarrow> p')"
  by (simp_all split: option.splits set_file.splits)

lemma load_keeps_files [file_rules]: "keeps_files (load_optional c sid)"
  unfolding load_optional_def by (intro file_rules)

lemma all_or_nothing_basic:
  "all_or_nothing (give a)" "all_or_nothing (fail e)" "all_or_nothing (lift r)" "all_or_nothing (mon_call m)"
  "all_or_nothing (\<lambda>io. (Inr (), f io))"
  by (auto simp: all_or_nothing_def action_simps mon_call_def split: list.splits option.splits)

lemma all_or_nothing_seq:
  assumes "keeps_files p" and "\<And>a. all_or_nothing (f a)"
  shows "all_or_nothing (seq p f)"
  using assms by (auto simp: all_or_nothing_def keeps_files_def seq_Inl) (metis snd_conv)+

lemma all_or_nothing_cases:
  "all_or_nothing p \<Longrightarrow> all_or_nothing q \<Longrightarrow> all_or_nothing (if b then p else q)"
  "all_or_nothing n \<Longrightarrow> (\<And>a. all_or_nothing (f a)) \<Longrightarrow> all_or_nothing (case x of None \<Rightarrow> n | Some a \<Rightarrow> f a)"
  "(\<And>a b. all_or_nothing (g a b)) \<Longrightarrow> all_or_nothing (case y of (a, b) \<Rightarrow> g a b)"
  by (simp_all split: option.splits prod.splits)

lemmas walk = all_or_nothing_basic all_or_nothing_cases

lemma save_all_or_nothing: "all_or_nothing (save_set c s)"
  unfolding save_set_def Let_def by (rule walk | rule all_or_nothing_seq file_rules)+

lemma save_then_give: "all_or_nothing (seq (save_set c s) (\<lambda>_. give a))"
  using save_all_or_nothing [of c s] by (auto simp: all_or_nothing_def seq_Inl action_simps)

lemma maybe_save_then_give: "all_or_nothing (seq (if b then save_set c s else give ()) (\<lambda>_. give a))"
  using save_then_give by (auto simp: all_or_nothing_def seq_Inl action_simps)

lemma store_calls_all_or_nothing:
  "all_or_nothing (install_initial c w sid ds ctx)"
  "all_or_nothing (operate c w sid op ctx)"
  "all_or_nothing (inspect c sid after ack max_events)"
  "all_or_nothing (evaluate_terminal c w sid obs now)"
  "all_or_nothing (end_session c sid lifecycle now)"
  unfolding install_initial_def operate_def inspect_def evaluate_terminal_def end_session_def Let_def
  by (rule save_then_give maybe_save_then_give walk | rule all_or_nothing_seq file_rules)+

lemma all_or_nothingD:
  "all_or_nothing act \<Longrightarrow> \<forall>e. fst (act io) = Inl e \<longrightarrow> mio_files (snd (act io)) = mio_files io"
  unfolding all_or_nothing_def by (cases "act io") simp

text \<open>
  C15. A call of the store that fails, at any of its system calls or checks, leaves the file of every session
  as it was: installing the initial monitors, an operation, an inspection with an acknowledgement,
  an evaluation and the end of a session write only in their last step, by replacing the file.
\<close>

theorem failed_store_calls_change_nothing:
  "(\<forall>e. fst (install_initial c w sid ds ctx io) = Inl e \<longrightarrow>
      mio_files (snd (install_initial c w sid ds ctx io)) = mio_files io)
   \<and> (\<forall>e. fst (operate c w sid op ctx io) = Inl e \<longrightarrow>
      mio_files (snd (operate c w sid op ctx io)) = mio_files io)
   \<and> (\<forall>e. fst (inspect c sid after ack max_events io) = Inl e \<longrightarrow>
      mio_files (snd (inspect c sid after ack max_events io)) = mio_files io)
   \<and> (\<forall>e. fst (evaluate_terminal c w sid obs now io) = Inl e \<longrightarrow>
      mio_files (snd (evaluate_terminal c w sid obs now io)) = mio_files io)
   \<and> (\<forall>e. fst (end_session c sid lifecycle now io) = Inl e \<longrightarrow>
      mio_files (snd (end_session c sid lifecycle now io)) = mio_files io)"
  by (intro conjI all_or_nothingD store_calls_all_or_nothing)

lemma sample_operate_fault:
  "fst (operate (one_set_codec s) quiet_world sample_sid (AddMonitor exit_definition) (sample_context Running)
      (sample_io [Some ''too many open files''])) = Inl (Execution ''open terminal monitor set: too many open files'')"
proof -
  have "validate_operation (AddMonitor exit_definition) = Inr ()" by code_simp
  moreover have "load_optional (one_set_codec s) sample_sid (sample_io [Some ''too many open files''])
      = (Inl (Execution ''open terminal monitor set: too many open files''), sample_io [])"
    using sample_sid_valid
    by (simp add: load_optional_def seq_def action_simps mon_call_def check_terminal_id_def monitor_io_error_def sample_io_def)
  ultimately show ?thesis by (simp add: operate_def seq_def action_simps)
qed

theorem failed_store_calls_change_nothing_witness:
  "mio_files (snd (operate (one_set_codec sample_one) quiet_world sample_sid (AddMonitor exit_definition)
      (sample_context Running) (sample_io [Some ''too many open files'']))) = mio_files (sample_io [])"
proof -
  have "mio_files (sample_io f) = mio_files (sample_io [])" for f by (simp add: sample_io_def)
  with failed_store_calls_change_nothing
    [of "one_set_codec sample_one" quiet_world sample_sid _ "sample_context Running" "sample_io [Some ''too many open files'']"
      "AddMonitor exit_definition"] sample_operate_fault [of sample_one]
  show ?thesis by (metis (no_types))
qed

subsection \<open>Operations that succeed\<close>

lemma mon_call_Inr: "mon_call m io = (Inr u, io') \<Longrightarrow> mio_files io' = mio_files io"
  using keeps_files_basic(4) [of m] unfolding keeps_files_def by (metis snd_conv)

lemma save_Inr:
  assumes "save_set c s io = (Inr u, io')"
  shows "mio_files io' = (mio_files io)(ms_session_id s := Some (SetBytes (set_bytes c s)))"
    and "validate_set (ms_session_id s) s = Inr ()" and "set_bytes c s \<noteq> []"
    and "length (set_bytes c s) \<le> maximum_set_bytes" and "valid_terminal_id (ms_session_id s)"
  using assms
  by (auto simp: save_set_def Let_def seq_Inr action_simps check_terminal_id_def dest!: mon_call_Inr split: if_splits)

lemma load_saved:
  assumes "mio_files io sid = Some (SetBytes (set_bytes c s))" and "mio_faults io = []"
    and "set_bytes c s \<noteq> []" and "length (set_bytes c s) \<le> maximum_set_bytes"
    and "set_parse c (set_bytes c s) = Inr s" and "validate_set sid s = Inr ()" and "valid_terminal_id sid"
  shows "load_optional c sid io = (Inr (Some s), io)"
  using assms by (simp add: load_optional_def seq_def action_simps mon_call_def check_terminal_id_def)

text \<open>
  An operation that succeeds has stored exactly the set it returns: the next call for the session loads that set,
  and the files of the other sessions are as they were. (The one hypothesis on JSON: the set the operation returns survives
  the way there and back.)
\<close>

theorem operations_store_what_they_return:
  assumes "operate c w sid op ctx io = (Inr (s, ident), io')" and "set_parse c (set_bytes c s) = Inr s"
  shows "load_optional c sid (io'\<lparr>mio_faults := []\<rparr>) = (Inr (Some s), io'\<lparr>mio_faults := []\<rparr>)
    \<and> mio_files io' = (mio_files io)(sid := Some (SetBytes (set_bytes c s)))"
proof -
  from assms(1) obtain loaded io1 u io2 where l: "load_optional c sid io = (Inr loaded, io1)"
    and v: "validate_set sid s = Inr ()" and sv: "save_set c s io1 = (Inr u, io2)" and io2: "io' = io2"
    by (auto simp: operate_def seq_Inr action_simps)
  from v have sid: "ms_session_id s = sid" by (auto simp: validate_set_def split: if_splits)
  have "mio_files io1 = mio_files io" using load_keeps_files [of c sid] l unfolding keeps_files_def by (metis snd_conv)
  with save_Inr [OF sv] have f: "mio_files io' = (mio_files io)(sid := Some (SetBytes (set_bytes c s)))"
    by (simp add: sid io2)
  have "load_optional c sid (io'\<lparr>mio_faults := []\<rparr>) = (Inr (Some s), io'\<lparr>mio_faults := []\<rparr>)"
    using save_Inr [OF sv] f assms(2) v by (intro load_saved) (simp_all add: sid)
  with f show ?thesis by blast
qed

lemma sample_operate:
  "operate (one_set_codec sample_one) quiet_world sample_sid (AddMonitor exit_definition) (sample_context Running)
      (sample_io []) = (Inr (sample_one, ''monitor-1''),
        (sample_io [])\<lparr>mio_files := [sample_sid \<mapsto> SetBytes ''{}'']\<rparr>)"
proof -
  have "validate_operation (AddMonitor exit_definition) = Inr ()" by code_simp
  moreover have "load_optional (one_set_codec sample_one) sample_sid (sample_io []) = (Inr None, sample_io [])"
    using sample_sid_valid
    by (simp add: load_optional_def seq_def action_simps mon_call_def check_terminal_id_def sample_io_def)
  moreover have "operation_start sample_sid (sample_context Running) None = sample_empty"
    by (simp add: operation_start_def sample_empty_def sample_context_def empty_set_def)
  moreover have v: "validate_set sample_sid sample_one = Inr ()"
    using advances_sound [OF steps_advance [OF sample_history(1) started_sound [OF sample_started]]] by (rule sound_valid)
  moreover have "ms_session_id sample_one = sample_sid" by (simp add: sample_defs)
  moreover have "save_set (one_set_codec sample_one) sample_one (sample_io [])
      = (Inr (), (sample_io [])\<lparr>mio_files := [sample_sid \<mapsto> SetBytes ''{}'']\<rparr>)"
    using v sample_sid_valid \<open>ms_session_id sample_one = sample_sid\<close>
    by (simp add: save_set_def Let_def seq_def action_simps mon_call_def check_terminal_id_def sample_io_def
        one_set_codec_def maximum_set_bytes_def)
  ultimately show ?thesis
    by (simp only: operate_def seq_def action_simps map_err_simps sample_add prod.case sum.case)
qed

theorem operations_store_what_they_return_witness:
  "load_optional (one_set_codec sample_one) sample_sid ((sample_io [])\<lparr>mio_files := [sample_sid \<mapsto> SetBytes ''{}'']\<rparr>)
     = (Inr (Some sample_one), (sample_io [])\<lparr>mio_files := [sample_sid \<mapsto> SetBytes ''{}'']\<rparr>)"
  using operations_store_what_they_return [OF sample_operate] by (simp add: one_set_codec_def sample_io_def)

subsection \<open>Inspection\<close>

text \<open>
  An inspection delivers the next events without a hole: of the identifiers after the one asked for (the last
  acknowledged one when none is), the ones that were neither acknowledged nor lost, in order, up to the number
  asked for; and it reports how far events are lost.
\<close>

theorem inspection_delivers_the_log:
  assumes "set_started sid s0" and "set_steps s0 s"
  shows "map (\<lambda>e. unat (me_event_id e)) (im_events (inspect_set after count s))
      = take count [max (Suc (max (unat (ms_event_gap_through s)) (unat (ms_acknowledged_through s))))
          (case after of None \<Rightarrow> 0 | Some a \<Rightarrow> Suc (unat a))..<unat (ms_next_event_id s)]
    \<and> im_event_gap_through (inspect_set after count s) = ms_event_gap_through s
    \<and> im_next_event_id (inspect_set after count s) = ms_next_event_id s"
proof -
  let ?a = "first_kept (ms_event_gap_through s) (ms_acknowledged_through s)"
  from steps_advance [OF assms(2) started_sound [OF assms(1)]] have "sound sid s" by (rule advances_sound)
  then have ids: "map (\<lambda>e. unat (me_event_id e)) (ms_events s) = [?a..<unat (ms_next_event_id s)]"
    by (simp add: sound_def log_whole_def)
  have "map (\<lambda>e. unat (me_event_id e)) (take count (filter (\<lambda>e. k < me_event_id e) (ms_events s)))
      = take count [max ?a (Suc (unat k))..<unat (ms_next_event_id s)]" for k
    by (simp only: take_map [symmetric] filtered_ids ids filter_upt)
  then show ?thesis
    by (auto simp: inspect_set_def first_kept_def Let_def max.assoc split: option.splits)
qed

theorem inspection_delivers_the_log_witness:
  "map (\<lambda>e. unat (me_event_id e)) (im_events (inspect_set None 10 sample_none)) = [1]
    \<and> im_next_event_id (inspect_set None 10 sample_none) = 2"
proof -
  have "[Suc 0..<2] = [Suc 0]" by (simp add: numeral_2_eq_2)
  with inspection_delivers_the_log [OF sample_started sample_history(3), of None 10] show ?thesis
    by (simp add: sample_none_def sample_empty_def empty_set_def)
qed

end
