(* ===== verification/Monitor_Exit.thy ===== *)
theory Monitor_Exit
  imports Monitor_Durability
begin

section \<open>How monitors learn of the end of a session\<close>

text \<open>
  The end of a session in \<open>fx-process/src/terminal_monitor_store.rs\<close>: the evaluation that first sees it
  announces it to the monitors that ask for it and removes them all; an operation or the installation of
  the initial monitors that sees it first keeps every later evaluation from doing so.
\<close>

subsection \<open>An announced end\<close>

text \<open>A recent event outlives a push: only the oldest of 1024 events goes.\<close>

lemma push_keeps_recent:
  assumes s: "sound sid s" and p: "push_event i reason lifecycle cursor now s = Inr s'"
    and e: "e \<in> set (ms_events s)" and recent: "unat (ms_next_event_id s) < unat (me_event_id e) + maximum_events"
  shows "e \<in> set (ms_events s')"
proof -
  let ?es = "ms_events s" and ?new = "new_event i reason lifecycle cursor now s"
  let ?a = "first_kept (ms_event_gap_through s) (ms_acknowledged_through s)"
  from p obtain gap where t: "trim_events (?es @ [?new]) (ms_event_gap_through s) = (ms_events s', gap)"
    by (auto simp: push_event_Inr)
  from s have len: "length ?es \<le> maximum_events"
    and ids: "map (\<lambda>e. unat (me_event_id e)) ?es = [?a..<unat (ms_next_event_id s)]"
    by (simp_all add: sound_def log_whole_def)
  show ?thesis
  proof (cases "length (?es @ [?new]) \<le> maximum_events")
    case True
    with t e trim_events_short [of "?es @ [?new]" "ms_event_gap_through s"] show ?thesis by simp
  next
    case False
    then have full: "length ?es = maximum_events" using len by simp
    obtain x xs where x: "?es = x # xs" using e by (cases ?es) simp_all
    have "?a + maximum_events = unat (ms_next_event_id s)"
      using arg_cong [OF ids, of length] full by (simp add: maximum_events_def)
    moreover have "unat (me_event_id x) = ?a"
      using ids x full by (cases "?a < unat (ms_next_event_id s)") (simp_all add: upt_conv_Cons)
    ultimately have "e \<noteq> x" using recent by auto
    moreover have "ms_events s' = xs @ [?new]"
      using t False len x trim_events_short [of "?es @ [?new]" "ms_event_gap_through s"] by simp
    ultimately show ?thesis using e x by auto
  qed
qed

lemma push_new_event:
  assumes "length (ms_events s) \<le> maximum_events" and "push_event i reason lifecycle cursor now s = Inr s'"
  shows "new_event i reason lifecycle cursor now s \<in> set (ms_events s')"
    and "unat (ms_next_event_id s') = Suc (unat (ms_next_event_id s))"
proof -
  let ?new = "new_event i reason lifecycle cursor now s"
  from assms(2) obtain gap n' where t: "trim_events (ms_events s @ [?new]) (ms_event_gap_through s) = (ms_events s', gap)"
    and n: "checked_add_u64 (ms_next_event_id s) 1 = Some n'" "ms_next_event_id s' = n'"
    by (auto simp: push_event_Inr)
  have "ms_events s' = ms_events s @ [?new] \<or> ms_events s' = tl (ms_events s @ [?new]) \<and> ms_events s \<noteq> []"
    using t assms(1) trim_events_short [of "ms_events s @ [?new]" "ms_event_gap_through s"]
    by (auto simp: maximum_events_def split: if_splits)
  then show "?new \<in> set (ms_events s')" by (cases "ms_events s") auto
  show "unat (ms_next_event_id s') = Suc (unat (ms_next_event_id s))" using unat_add1 n by simp
qed

text \<open>A monitor that is to announce the end of its session.\<close>

definition awaits_end :: "i64 \<Rightarrow> monitor \<Rightarrow> bool" where
  "awaits_end now m \<longleftrightarrow> \<not> suspended m \<and> \<not> due_at (lifetime_deadline_ms m) now
     \<and> notify (mon_definition m) = OnExit \<and> last_event_reason m \<noteq> Some SessionExitEvent"

lemma awaits_end_observe:
  assumes "awaits_end now m" and "0 \<le> sint now" and "observe Exit b now m = (Inr d, m')"
  shows "awaits_end now m' \<and> dec_notify d = None \<and> monitor_id m' = monitor_id m"
proof -
  from assms obtain n where "checked_add_u64 (check_count m) 1 = Some n"
    and "m' = (let m = m\<lparr>check_count := n\<rparr> in if b \<and> \<not> condition_matched m
      then m\<lparr>condition_matched := True, state := Matched\<rparr> else m)"
    and "dec_notify d = None"
    by (auto simp: observe_def awaits_end_def is_expired_def reschedule_check_def observe_notify_def Let_def
        split: option.splits if_splits)
  with assms(1) show ?thesis by (auto simp: awaits_end_def suspended_def Let_def)
qed

lemma observe_end:
  "awaits_end now m \<Longrightarrow> 0 \<le> sint now \<Longrightarrow>
     observe SessionExit False now m = (Inr (final_decision (Some SessionExitEvent)), m)"
  by (simp add: observe_def awaits_end_def is_expired_def)

lemma end_decision_announces:
  assumes d: "end_decision lifecycle code signal now s = Inr (d, s')" and ne: "ms_monitors s \<noteq> []"
    and m: "awaits_end now (ms_monitors s ! 0)" and now: "0 \<le> sint now"
  shows "dec_notify d = Some SessionExitEvent \<and> monitor_id (ms_monitors s' ! 0) = monitor_id (ms_monitors s ! 0)"
proof -
  let ?c = "condition (mon_definition (ms_monitors s ! 0))"
  have len: "0 < length (ms_monitors s)" using ne by simp
  from d obtain d1 t where t: "(if exit_relevant ?c \<and> lifecycle = Exited
          then on_monitor 0 (observe Exit (exit_condition_matches ?c lifecycle code signal) now) s
          else Inr (no_decision, s)) = Inr (d1, t)"
    and u: "(if dec_notify d1 = None \<and> notify (mon_definition (ms_monitors t ! 0)) = OnExit
            \<and> last_event_reason (ms_monitors t ! 0) \<noteq> Some SessionExitEvent
        then on_monitor 0 (observe SessionExit False now) t else Inr (d1, t)) = Inr (d, s')"
    unfolding end_decision_def Let_def and_then_Inr_iff split_paired_Ex prod.case by blast
  have 1: "awaits_end now (ms_monitors t ! 0) \<and> dec_notify d1 = None \<and> ms_monitors t \<noteq> []
      \<and> monitor_id (ms_monitors t ! 0) = monitor_id (ms_monitors s ! 0)"
    using t m ne len awaits_end_observe [OF m now]
    by (auto simp: on_monitor_Inr no_decision_def split: if_splits)
  then have "0 < length (ms_monitors t)" by simp
  with 1 u observe_end [of now "ms_monitors t ! 0"] now show ?thesis
    by (auto simp: on_monitor_Inr awaits_end_def final_decision_def)
qed

lemma on_first_tail: "on_monitor 0 f s = Inr (a, s') \<Longrightarrow> tl (ms_monitors s') = tl (ms_monitors s)"
  by (cases "ms_monitors s") (auto simp: on_monitor_Inr)

lemma end_step_parts:
  assumes "end_step lifecycle code signal cursor now s = Inr s'"
  obtains d s1 s2 where "end_decision lifecycle code signal now s = Inr (d, s1)"
    and "(case dec_notify d of None \<Rightarrow> Inr s1 | Some r \<Rightarrow> push_event 0 r lifecycle cursor now s1) = Inr s2"
    and "s' = s2\<lparr>ms_monitors := tl (ms_monitors s2)\<rparr>" and "tl (ms_monitors s2) = tl (ms_monitors s)"
    and "ms_events s1 = ms_events s" and "ms_next_event_id s1 = ms_next_event_id s"
proof -
  from assms obtain d s1 r where d: "end_decision lifecycle code signal now s = Inr (d, s1)"
    and a: "apply_decision 0 (d\<lparr>dec_remove := True\<rparr>) lifecycle cursor now s1 = Inr (r, s')"
    by (auto simp: end_step_def and_then_Inr_iff)
  from a obtain s2 where p: "(case dec_notify d of None \<Rightarrow> Inr s1 | Some r \<Rightarrow> push_event 0 r lifecycle cursor now s1) = Inr s2"
    and s': "s' = s2\<lparr>ms_monitors := remove_at 0 (ms_monitors s2)\<rparr>"
    by (auto simp: apply_decision_def and_then_Inr_iff)
  have "tl (ms_monitors s2) = tl (ms_monitors s1)"
    using p by (cases "ms_monitors s1") (auto simp: push_event_Inr split: option.splits)
  moreover have "tl (ms_monitors s1) = tl (ms_monitors s) \<and> ms_events s1 = ms_events s
      \<and> ms_next_event_id s1 = ms_next_event_id s"
  proof -
    have on: "tl (ms_monitors t') = tl (ms_monitors t) \<and> ms_events t' = ms_events t
        \<and> ms_next_event_id t' = ms_next_event_id t" if "on_monitor 0 f t = Inr (x, t')"
      for f :: "monitor \<Rightarrow> (monitor_error + decision) \<times> monitor" and t x t'
      using that on_first_tail [OF that] by (auto simp: on_monitor_Inr)
    from d show ?thesis
      unfolding end_decision_def Let_def and_then_Inr_iff split_paired_Ex prod.case
      by (auto dest!: on split: if_splits)
  qed
  moreover have "remove_at 0 (ms_monitors s2) = tl (ms_monitors s2)"
    by (simp add: remove_at_def drop_Suc)
  ultimately show thesis using that [OF d p] s' by simp
qed

lemma end_step_keeps_recent:
  assumes s: "sound sid s" and ne: "ms_monitors s \<noteq> []" and now: "0 \<le> sint now"
    and st: "end_step lifecycle code signal cursor now s = Inr s'"
    and e: "e \<in> set (ms_events s)"
    and recent: "unat (ms_next_event_id s) + length (ms_monitors s) \<le> unat (me_event_id e) + maximum_events"
  shows "e \<in> set (ms_events s')
    \<and> unat (ms_next_event_id s') + length (ms_monitors s') \<le> unat (me_event_id e) + maximum_events"
proof -
  from st obtain d s1 s2 where d: "end_decision lifecycle code signal now s = Inr (d, s1)"
    and p: "(case dec_notify d of None \<Rightarrow> Inr s1 | Some r \<Rightarrow> push_event 0 r lifecycle cursor now s1) = Inr s2"
    and s': "s' = s2\<lparr>ms_monitors := tl (ms_monitors s2)\<rparr>" "tl (ms_monitors s2) = tl (ms_monitors s)"
    and same: "ms_events s1 = ms_events s" "ms_next_event_id s1 = ms_next_event_id s"
    by (rule end_step_parts)
  have s1: "sound sid s1" using end_decision_sound [OF s ne now d] .
  have len: "length (ms_events s1) \<le> maximum_events" using s1 by (simp add: sound_def)
  have l: "length (ms_monitors s') + 1 = length (ms_monitors s)" using s' ne by (cases "ms_monitors s") simp_all
  show ?thesis
  proof (cases "dec_notify d")
    case None
    with p s' e recent same l show ?thesis by simp
  next
    case (Some r)
    with p have p: "push_event 0 r lifecycle cursor now s1 = Inr s2" by simp
    have "e \<in> set (ms_events s2)"
      using push_keeps_recent [OF s1 p] e recent same l by simp
    with push_new_event(2) [OF len p] same recent s' l show ?thesis by simp
  qed
qed

lemma end_monitors_keeps_recent:
  "sound sid s \<Longrightarrow> 0 \<le> sint now \<Longrightarrow> end_monitors lifecycle code signal cursor now s = Inr s' \<Longrightarrow>
     e \<in> set (ms_events s) \<Longrightarrow>
     unat (ms_next_event_id s) + length (ms_monitors s) \<le> unat (me_event_id e) + maximum_events \<Longrightarrow>
     e \<in> set (ms_events s')"
proof (induction lifecycle code signal cursor now s rule: end_monitors.induct)
  case (1 lifecycle code signal cursor now s)
  show ?case
  proof (cases "ms_monitors s = []")
    case True
    with 1 show ?thesis by (simp add: end_monitors.simps [of _ _ _ _ _ s])
  next
    case False
    with 1 obtain s1 where st: "end_step lifecycle code signal cursor now s = Inr s1"
      and rest: "end_monitors lifecycle code signal cursor now s1 = Inr s'"
      by (auto simp: end_monitors.simps [of _ _ _ _ _ s] split: sum.splits)
    note k = end_step_keeps_recent [OF "1.prems"(1) False "1.prems"(2) st "1.prems"(4,5)]
    note a = end_step_advances [OF "1.prems"(1) False "1.prems"(2) st]
    from "1.IH" [OF False st advances_sound [OF a] "1.prems"(2) rest] k show ?thesis by blast
  qed
qed

lemma end_monitors_announces:
  "sound sid s \<Longrightarrow> 0 \<le> sint now \<Longrightarrow> end_monitors lifecycle code signal cursor now s = Inr s' \<Longrightarrow>
     m \<in> set (ms_monitors s) \<Longrightarrow> awaits_end now m \<Longrightarrow>
     \<exists>e \<in> set (ms_events s'). me_monitor_id e = monitor_id m \<and> me_reason e = SessionExitEvent
       \<and> me_lifecycle e = lifecycle"
proof (induction lifecycle code signal cursor now s rule: end_monitors.induct)
  case (1 lifecycle code signal cursor now s)
  have ne: "ms_monitors s \<noteq> []" using "1.prems"(4) by auto
  with 1 obtain s1 where st: "end_step lifecycle code signal cursor now s = Inr s1"
    and rest: "end_monitors lifecycle code signal cursor now s1 = Inr s'"
    by (auto simp: end_monitors.simps [of _ _ _ _ _ s] split: sum.splits)
  note a = advances_sound [OF end_step_advances [OF "1.prems"(1) ne "1.prems"(2) st]]
  from st obtain d t1 t2 where d: "end_decision lifecycle code signal now s = Inr (d, t1)"
    and p: "(case dec_notify d of None \<Rightarrow> Inr t1 | Some r \<Rightarrow> push_event 0 r lifecycle cursor now t1) = Inr t2"
    and s1: "s1 = t2\<lparr>ms_monitors := tl (ms_monitors t2)\<rparr>" "tl (ms_monitors t2) = tl (ms_monitors s)"
    and same: "ms_events t1 = ms_events s" "ms_next_event_id t1 = ms_next_event_id s"
    by (rule end_step_parts)
  show ?case
  proof (cases "m \<in> set (tl (ms_monitors s))")
    case True
    with s1 have "m \<in> set (ms_monitors s1)" by simp
    from "1.IH" [OF ne st a "1.prems"(2) rest this "1.prems"(5)] show ?thesis .
  next
    case False
    then have m: "m = ms_monitors s ! 0" using "1.prems"(4) ne by (cases "ms_monitors s") auto
    note ann = end_decision_announces [OF d ne "1.prems"(5) [unfolded m] "1.prems"(2)]
    have t1: "sound sid t1" using end_decision_sound [OF "1.prems"(1) ne "1.prems"(2) d] .
    then have len: "length (ms_events t1) \<le> maximum_events" by (simp add: sound_def)
    let ?e = "new_event 0 SessionExitEvent lifecycle cursor now t1"
    from p ann have p: "push_event 0 SessionExitEvent lifecycle cursor now t1 = Inr t2" by simp
    from push_new_event [OF len p] have e: "?e \<in> set (ms_events s1)"
      and n: "unat (ms_next_event_id s1) = Suc (unat (me_event_id ?e))" by (simp_all add: s1 new_event_def)
    have "length (ms_monitors s1) \<le> 31" using a "1.prems"(1) s1 ne
      by (cases "ms_monitors s") (auto simp: sound_def monitors_ok_def maximum_monitors_def)
    with n have "unat (ms_next_event_id s1) + length (ms_monitors s1) \<le> unat (me_event_id ?e) + maximum_events"
      by (simp add: maximum_events_def)
    from end_monitors_keeps_recent [OF a "1.prems"(2) rest e this] ann m show ?thesis
      by (intro bexI [of _ ?e]) (simp_all add: new_event_def)
  qed
qed

text \<open>
  The evaluation that sees the end of a running session first removes every monitor of the set, and each one that waits
  for the end, is neither paused nor degraded nor expired and has not announced it before leaves an event
  with the exit as its reason and the lifecycle that was observed, also when the log was full before.
\<close>

theorem an_end_seen_by_evaluation_is_announced:
  assumes "set_started sid s0" and "set_steps s0 s" and "0 \<le> sint now"
    and "ms_last_lifecycle s = Running" and "obs_lifecycle obs \<noteq> Running"
    and "evaluate_end obs now c s = Inr (changed, s')"
  shows "changed \<and> ms_monitors s' = [] \<and> ms_last_lifecycle s' = obs_lifecycle obs
    \<and> (\<forall>m \<in> set (ms_monitors s). awaits_end now m \<longrightarrow>
        (\<exists>e \<in> set (ms_events s'). me_monitor_id e = monitor_id m \<and> me_reason e = SessionExitEvent
          \<and> me_lifecycle e = obs_lifecycle obs))"
proof -
  from steps_advance [OF assms(2) started_sound [OF assms(1)]] have s: "sound sid s" by (rule advances_sound)
  from assms(6) obtain c1 s1 where "(if ms_last_lifecycle s = Running \<and> obs_lifecycle obs \<noteq> Running then
         and_then (end_monitors (obs_lifecycle obs) (obs_exit_code obs) (obs_signal obs) (obs_cursor_end obs) now s)
           (\<lambda>s. Inr (True, s)) else Inr (c, s)) = Inr (c1, s1)"
    and s': "(if ms_last_lifecycle s1 \<noteq> obs_lifecycle obs
        then Inr (True, s1\<lparr>ms_last_lifecycle := obs_lifecycle obs\<rparr>) else Inr (c1, s1)) = (Inr (changed, s') :: tool_error + bool \<times> monitor_set)"
    unfolding evaluate_end_def and_then_Inr_iff split_paired_Ex prod.case by blast
  with assms(4,5) have c1: "c1"
    and e: "end_monitors (obs_lifecycle obs) (obs_exit_code obs) (obs_signal obs) (obs_cursor_end obs) now s = Inr s1"
    by (simp_all add: and_then_Inr_iff)
  note out = end_monitors_announces [OF s assms(3) e]
  have "ms_monitors s1 = []" using end_monitors_advances [OF s assms(3) e] by blast
  moreover have "changed \<and> ms_last_lifecycle s' = obs_lifecycle obs \<and> ms_monitors s' = ms_monitors s1
      \<and> ms_events s' = ms_events s1"
    using s' c1 by (cases "ms_last_lifecycle s1 = obs_lifecycle obs") auto
  ultimately show ?thesis using out by simp
qed

definition exited_observation :: terminal_observation where
  "exited_observation = \<lparr>obs_lifecycle = Exited, obs_exit_code = Some 0, obs_signal = None, obs_cursor_start = 0,
     obs_cursor_end = 0, obs_raw_gap = False, obs_output = [], obs_screen_text = None,
     obs_workspace_root = ''/w'', obs_cwd = ''/w''\<rparr>"

lemma end_monitors_empty: "ms_monitors s = [] \<Longrightarrow> end_monitors lifecycle code signal cursor now s = Inr s"
  by (simp add: end_monitors.simps)

text \<open>The exit of the sample session, evaluated.\<close>

definition sample_exit_event :: monitor_event where
  "sample_exit_event = \<lparr>me_event_id = 1, me_monitor_id = ''monitor-1'', me_reason = SessionExitEvent, me_lifecycle = Exited,
     me_cursor_segment = 1, me_cursor_offset = 0, me_created_at_ms = 2000\<rparr>"

definition sample_ended :: monitor_set where
  "sample_ended = sample_one\<lparr>ms_next_event_id := 2, ms_last_lifecycle := Exited, ms_monitors := [],
     ms_events := [sample_exit_event]\<rparr>"

lemma sample_end: "evaluate_end exited_observation 2000 False sample_one = Inr (True, sample_ended)"
proof -
  let ?m = "(exit_monitor ''monitor-1'')\<lparr>check_count := 1, condition_matched := True, state := Matched\<rparr>"
  let ?n = "?m\<lparr>notification_count := 1, last_event_id := 1, last_event_reason := Some SessionExitEvent\<rparr>"
  let ?t = "sample_one\<lparr>ms_monitors := [?m]\<rparr>" and ?p = "sample_one\<lparr>ms_next_event_id := 2, ms_monitors := [?n],
    ms_events := [sample_exit_event]\<rparr>"
  have one: "ms_monitors sample_one = [exit_monitor ''monitor-1'']" "ms_last_lifecycle sample_one = Running"
    by (simp_all add: sample_defs)
  have "observe Exit True 2000 (exit_monitor ''monitor-1'')
      = (Inr \<lparr>dec_notify = None, dec_remove = False, dec_state_changed = True\<rparr>, ?m)"
    by (simp add: observe_def suspended_def is_expired_def exit_monitor_fields exit_definition_def due_at_def
        reschedule_check_def observe_notify_def sample_sums)
  moreover have "observe SessionExit False 2000 ?m = (Inr (final_decision (Some SessionExitEvent)), ?m)"
    by (rule observe_end) (simp_all add: awaits_end_def suspended_def exit_monitor_fields exit_definition_def due_at_def)
  ultimately have d: "end_decision Exited (Some 0) None 2000 sample_one = Inr (final_decision (Some SessionExitEvent), ?t)"
    by (simp add: end_decision_def one on_monitor_def exit_relevant_def exit_condition_matches_def exit_monitor_fields
        and_then_Inr_iff exit_definition_def)
  have "note_notification 1 SessionExitEvent ?m = (Inr (), ?n)"
    by (simp add: note_notification_def Let_def exit_monitor_fields sample_sums)
  then have p: "push_event 0 SessionExitEvent Exited 0 2000 ?t = Inr ?p"
    unfolding push_event_Inr
    by (simp add: sample_sums new_event_def maximum_events_def sample_one_def sample_empty_def empty_set_def
        sample_exit_event_def exit_monitor_fields)
  have "end_step Exited (Some 0) None 0 2000 sample_one = Inr (?p\<lparr>ms_monitors := []\<rparr>)"
    unfolding end_step_def by (simp only: d and_then_simps prod.case)
      (simp add: apply_decision_def final_decision_def p remove_at_def)
  then have "end_monitors Exited (Some 0) None 0 2000 sample_one = Inr (?p\<lparr>ms_monitors := []\<rparr>)"
    by (simp add: end_monitors.simps [of _ _ _ _ _ sample_one] end_monitors_empty one)
  then show ?thesis
    by (simp add: evaluate_end_def one exited_observation_def sample_ended_def)
qed

theorem an_end_seen_by_evaluation_is_announced_witness:
  "ms_monitors sample_ended = [] \<and> ms_last_lifecycle sample_ended = Exited
    \<and> (\<exists>e \<in> set (ms_events sample_ended). me_monitor_id e = ''monitor-1'' \<and> me_reason e = SessionExitEvent)"
proof -
  have "awaits_end 2000 (exit_monitor ''monitor-1'')"
    by (simp add: awaits_end_def suspended_def exit_monitor_def exit_definition_def due_at_def)
  with an_end_seen_by_evaluation_is_announced [OF sample_started sample_history(1) _ _ _ sample_end]
  show ?thesis by (auto simp: sample_one_def sample_empty_def empty_set_def exited_observation_def exit_monitor_def)
qed

subsection \<open>An exit that is seen elsewhere first\<close>

text \<open>A monitor that waits only for the process to exit.\<close>

definition waits_for_exit :: "monitor_definition \<Rightarrow> bool" where
  "waits_for_exit d \<longleftrightarrow> condition d = ProcessExit \<and> lifetime_duration (lifetime d) = None
     \<and> notify d \<in> {OnMatch, OnStateChange, OnExit}"

definition waiting :: "monitor \<Rightarrow> bool" where
  "waiting m \<longleftrightarrow> waits_for_exit (mon_definition m) \<and> lifetime_deadline_ms m = None"

text \<open>Evaluations one after the other.\<close>

fun evaluate_all ::
  "(monitor_world \<times> terminal_observation \<times> i64) list \<Rightarrow> monitor_set \<Rightarrow> tool_error + monitor_set" where
  "evaluate_all [] s = Inr s"
| "evaluate_all ((w, obs, now) # rest) s =
     and_then (evaluate_set w obs now s) (\<lambda>(_, s). evaluate_all rest s)"

definition same_monitors :: "monitor_set \<Rightarrow> monitor_set \<Rightarrow> bool" where
  "same_monitors s s' \<longleftrightarrow> ms_monitors s' = ms_monitors s \<and> ms_events s' = ms_events s
     \<and> ms_last_lifecycle s' = ms_last_lifecycle s"

lemma waiting_output_loop:
  "list_all waiting (ms_monitors s) \<Longrightarrow> output_loop obs now i changed s = Inr (c, s') \<Longrightarrow> s' = s"
proof (induction obs now i changed s rule: output_loop.induct)
  case (1 obs now i changed s)
  show ?case
  proof (cases "length (ms_monitors s) \<le> i")
    case True
    with 1 show ?thesis by (simp add: output_loop.simps [of _ _ i])
  next
    case False
    then have "waiting (ms_monitors s ! i)" using "1.prems"(1) by (simp add: list_all_length)
    then have st: "output_step obs now i s = Inr (False, False, s)"
      by (auto simp: output_step_def output_decision_def waiting_def waits_for_exit_def)
    with "1.prems"(2) False have "output_loop obs now (Suc i) changed s = Inr (c, s')"
      by (simp add: output_loop.simps [of _ _ i])
    with "1.IH" [OF False st refl refl] "1.prems"(1) show ?thesis by simp
  qed
qed

lemma waiting_timer: "waiting m \<Longrightarrow> 0 \<le> sint now \<Longrightarrow> \<not> quiet_due m now \<and> timer_decision now m = (Inr no_decision, m)"
  by (auto simp: waiting_def waits_for_exit_def quiet_due_def quiet_duration_def timer_decision_def is_expired_def
      due_at_def notify_interval_def)

lemma waiting_timer_loop:
  "list_all waiting (ms_monitors s) \<Longrightarrow> 0 \<le> sint now \<Longrightarrow> timer_loop obs now i changed s = Inr (c, s') \<Longrightarrow> s' = s"
proof (induction obs now i changed s rule: timer_loop.induct)
  case (1 obs now i changed s)
  show ?case
  proof (cases "length (ms_monitors s) \<le> i")
    case True
    with 1 show ?thesis by (simp add: timer_loop.simps [of _ _ i])
  next
    case False
    then have "waiting (ms_monitors s ! i)" using "1.prems"(1) by (simp add: list_all_length)
    from waiting_timer [OF this "1.prems"(2)]
    have st: "timer_step obs now i s = Inr (False, False, s)"
      by (auto simp: timer_step_def and_then_Inr_iff on_monitor_Inr)
    with "1.prems"(3) False have "timer_loop obs now (Suc i) changed s = Inr (c, s')"
      by (simp add: timer_loop.simps [of _ _ i])
    with "1.IH" [OF False st refl refl] "1.prems"(1,2) show ?thesis by simp
  qed
qed

lemma waiting_gap:
  assumes "list_all waiting (ms_monitors s)" and "evaluate_gap obs s = Inr (c, s')"
  shows "s' = s"
proof -
  have "degrade_loop b ms = Inr (c, ms') \<Longrightarrow> list_all waiting ms \<Longrightarrow> ms' = ms" for b c ms ms'
    by (induction ms arbitrary: b c ms')
      (auto simp: degrade_for_raw_gap_def waiting_def waits_for_exit_def and_then_Inr_iff)
  with assms show ?thesis by (auto simp: evaluate_gap_def and_then_Inr_iff split: if_splits)
qed

lemma waiting_evaluation:
  assumes w: "list_all waiting (ms_monitors s)" and now: "0 \<le> sint now"
    and last: "ms_last_lifecycle s = Exited" "obs_lifecycle obs = Exited"
    and e: "evaluate_set w obs now s = Inr (c, s')"
  shows "same_monitors s s'"
proof (cases "ms_monitors s = [] \<or> \<not> obs_raw_gap obs \<and> obs_cursor_start obs \<noteq> ms_cursor_offset s")
  case True
  with e show ?thesis by (auto simp: evaluate_set_def same_monitors_def split: if_splits)
next
  case False
  with e obtain c1 s1 c2 s2 c3 s3 c4 s4 where 1: "evaluate_gap obs s = Inr (c1, s1)"
    and 2: "evaluate_output obs now c1 s1 = Inr (c2, s2)"
    and 3: "timer_loop obs now 0 c2 (s2\<lparr>ms_cursor_offset := obs_cursor_end obs\<rparr>) = Inr (c3, s3)"
    and 4: "evaluate_poll w obs now c3 s3 = Inr (c4, s4)" and 5: "evaluate_end obs now c4 s4 = Inr (c, s')"
    by (auto simp: evaluate_set_def and_then_Inr_iff split: if_splits)
  have s1: "s1 = s" using waiting_gap [OF w 1] .
  have s2: "s2 = s \<or> s2 = s\<lparr>ms_last_output_at_ms := now\<rparr>"
    using 2 s1 w waiting_output_loop [of "s\<lparr>ms_last_output_at_ms := now\<rparr>"]
    by (auto simp: evaluate_output_def split: if_splits)
  then have "list_all waiting (ms_monitors (s2\<lparr>ms_cursor_offset := obs_cursor_end obs\<rparr>))" using w by auto
  from waiting_timer_loop [OF this now 3] have "s3 = s2\<lparr>ms_cursor_offset := obs_cursor_end obs\<rparr>" .
  moreover have "s4 = s3" using 4 last by (simp add: evaluate_poll_def)
  moreover have "ms_last_lifecycle s4 = Exited" using calculation s2 last by auto
  with 5 last have "s' = s4" by (simp add: evaluate_end_def and_then_def)
  ultimately show ?thesis using s2 by (auto simp: same_monitors_def)
qed

lemma waiting_evaluations:
  "evaluate_all vs s = Inr s' \<Longrightarrow> list_all waiting (ms_monitors s) \<Longrightarrow> ms_last_lifecycle s = Exited \<Longrightarrow>
     list_all (\<lambda>(w, obs, now). obs_lifecycle obs = Exited \<and> 0 \<le> sint now) vs \<Longrightarrow> same_monitors s s'"
proof (induction vs s rule: evaluate_all.induct)
  case (2 w obs now rest s)
  then obtain c s1 where "evaluate_set w obs now s = Inr (c, s1)" and r: "evaluate_all rest s1 = Inr s'"
    by (auto simp: and_then_Inr_iff)
  with 2 waiting_evaluation [of s now obs w c s1] have 1: "same_monitors s s1" by simp
  have "same_monitors s1 s'"
    using 2 r 1 \<open>evaluate_set w obs now s = Inr (c, s1)\<close> by (auto simp: same_monitors_def)
  with 1 show ?case by (simp add: same_monitors_def)
qed (simp add: same_monitors_def)

text \<open>
  C14. An exit can go unannounced for ever. When the process has already exited as the initial monitors are installed, the
  set records the exit as the last lifecycle seen; every evaluation after it, which sees the exit as well,
  leaves the monitors that wait for the exit in place and pushes no event.
\<close>

theorem early_exits_are_never_announced:
  assumes "install_initial cdc w sid ds ctx io = (Inr s, io')" and "mc_lifecycle ctx = Exited"
    and "ds \<noteq> []" and "list_all waits_for_exit ds"
    and "evaluate_all vs s = Inr s'"
    and "list_all (\<lambda>(w, obs, now). obs_lifecycle obs = Exited \<and> 0 \<le> sint now) vs"
  shows "map mon_definition (ms_monitors s') = ds \<and> ms_events s' = []"
proof -
  from assms(1,3) obtain ms k where b: "build_initial_loop w ctx 0 ds = Inr ms"
    and s: "s = (empty_set sid 0 (mc_lifecycle ctx) (mc_now_ms ctx))\<lparr>ms_next_monitor_id := k, ms_monitors := ms\<rparr>"
    by (auto simp: install_initial_def Let_def seq_Inr action_simps build_initial_monitors_def split: if_splits)
  have "build_initial_loop w ctx i ds = Inr ms \<Longrightarrow> list_all waits_for_exit ds \<Longrightarrow>
      map mon_definition ms = ds \<and> list_all waiting ms" for i ds ms
  proof (induction ds arbitrary: i ms)
    case (Cons d ds)
    from Cons.prems(1) obtain ident m rest where m: "build_monitor w ctx ident d = Inr m"
      and rest: "build_initial_loop w ctx (Suc i) ds = Inr rest" and ms: "ms = m # rest"
      by (auto simp: and_then_Inr_iff)
    from Cons.prems(2) have d: "waits_for_exit d" by simp
    with m have "mon_definition m = d \<and> lifetime_deadline_ms m = None"
      by (auto simp: build_monitor_def and_then_Inr_iff new_monitor_def prepare_monitor_effects_def waits_for_exit_def
          opt_deadline_def)
    with d Cons.IH [OF rest] Cons.prems(2) ms show ?case by (simp add: waiting_def)
  qed simp
  from this [OF b assms(4)] have w: "map mon_definition ms = ds" "list_all waiting ms" by simp_all
  from waiting_evaluations [OF assms(5) _ _ assms(6)] w(2) assms(2)
  have "same_monitors s s'" by (simp add: s empty_set_def)
  with w(1) show ?thesis by (simp add: same_monitors_def s empty_set_def)
qed

text \<open>The sample session, whose process has exited before its monitor is installed.\<close>

definition late_set :: monitor_set where
  "late_set = (empty_set sample_sid 0 Exited 1000)
     \<lparr>ms_next_monitor_id := 2, ms_monitors := [exit_monitor ''monitor-1'']\<rparr>"

lemma late_install:
  "install_initial (one_set_codec late_set) quiet_world sample_sid [exit_definition] (sample_context Exited) (sample_io [])
     = (Inr late_set, (sample_io [])\<lparr>mio_files := [sample_sid \<mapsto> SetBytes ''{}'']\<rparr>)"
proof -
  have "checked_add_u64 (of_nat 0) 1 = Some 1" by (simp add: checked_add_u64_def)
  then have b: "build_initial_monitors quiet_world (sample_context Exited) [exit_definition] = Inr [exit_monitor ''monitor-1'']"
    by (simp only: build_initial_monitors_def build_initial_loop.simps stable_id_1 map_err_simps and_then_simps ok_or_simps
        build_sample [OF valid_sample_ids(1)]) (simp add: maximum_monitors_def)
  have k: "checked_add_u64 (of_nat (length [exit_monitor ''monitor-1''])) 1 = Some 2"
    using sample_sums(1) by simp
  have sets: "(empty_set sample_sid 0 (mc_lifecycle (sample_context Exited)) (mc_now_ms (sample_context Exited)))
      \<lparr>ms_next_monitor_id := 2, ms_monitors := [exit_monitor ''monitor-1'']\<rparr> = late_set"
    by (simp add: late_set_def sample_context_def)
  have "0 \<le> sint (mc_now_ms (sample_context Exited))" by (simp add: sample_context_def)
  from sound_valid [OF installed_sound [OF sample_sid_valid this b k]] have v: "validate_set sample_sid late_set = Inr ()"
    by (simp only: sets)
  have l: "load_optional (one_set_codec late_set) sample_sid (sample_io []) = (Inr None, sample_io [])"
    using sample_sid_valid
    by (simp add: load_optional_def seq_def action_simps mon_call_def check_terminal_id_def sample_io_def)
  have "ms_session_id late_set = sample_sid" by (simp add: late_set_def empty_set_def)
  with v sample_sid_valid have "save_set (one_set_codec late_set) late_set (sample_io [])
      = (Inr (), (sample_io [])\<lparr>mio_files := [sample_sid \<mapsto> SetBytes ''{}'']\<rparr>)"
    by (simp add: save_set_def Let_def seq_def action_simps mon_call_def check_terminal_id_def sample_io_def
        one_set_codec_def maximum_set_bytes_def)
  then show ?thesis
    by (simp only: install_initial_def Let_def seq_def action_simps l b k sets v ok_or_simps prod.case sum.case
        list.distinct if_False simp_thms)
qed

theorem early_exits_are_never_announced_witness:
  "\<exists>s. evaluate_all [(quiet_world, exited_observation, 2000)] late_set = Inr s
    \<and> map mon_definition (ms_monitors s) = [exit_definition] \<and> ms_events s = []"
proof -
  have w: "list_all waiting (ms_monitors late_set)"
    by (simp add: late_set_def waiting_def exit_monitor_def exit_definition_def waits_for_exit_def lifetime_duration_def)
  have m: "ms_monitors late_set = [exit_monitor ''monitor-1'']" "ms_cursor_offset late_set = 0"
    "ms_last_lifecycle late_set = Exited" by (simp_all add: late_set_def empty_set_def)
  have "timer_step exited_observation 2000 0 late_set = Inr (False, False, late_set)"
    using waiting_timer [of "exit_monitor ''monitor-1''" 2000] w m
    by (auto simp: timer_step_def and_then_Inr_iff on_monitor_Inr)
  then have "timer_loop exited_observation 2000 0 False late_set = Inr (False, late_set)"
    by (simp add: timer_loop.simps [of _ _ 0] timer_loop.simps [of _ _ "Suc 0"] m)
  moreover have "late_set\<lparr>ms_cursor_offset := 0\<rparr> = late_set" by (simp add: late_set_def empty_set_def)
  ultimately have "timer_loop exited_observation 2000 0 False (late_set\<lparr>ms_cursor_offset := 0\<rparr>) = Inr (False, late_set)"
    by (simp only:)
  then have e: "evaluate_set quiet_world exited_observation 2000 late_set = Inr (False, late_set)"
    by (simp add: evaluate_set_def exited_observation_def evaluate_gap_def evaluate_output_def evaluate_poll_def
        evaluate_end_def m)
  then have "evaluate_all [(quiet_world, exited_observation, 2000)] late_set = Inr late_set" by simp
  moreover have "waits_for_exit exit_definition" by (simp add: waits_for_exit_def exit_definition_def lifetime_duration_def)
  ultimately show ?thesis
    using early_exits_are_never_announced [OF late_install _ _ _ \<open>evaluate_all _ late_set = Inr late_set\<close>]
    by (simp add: sample_context_def exited_observation_def)
qed

end
