(* ===== verification/Subagent_Store.thy ===== *)
theory Subagent_Store
  imports Permission Actions
begin

section \<open>Child agents: their data and their store\<close>

text \<open>
  \<open>fx-subagent/src/domain.rs\<close> and \<open>store.rs\<close>. The store keeps one file per root session under a
  private directory. A method is an action on that directory, with the outcomes its system calls will
  have (\<open>None\<close> for a call that works, and when the list is used up); the derived JSON form of the file is
  the pair of functions in \<open>snapshot_codec\<close>.
\<close>

definition max_name_bytes :: nat where "max_name_bytes = 128"
definition max_model_bytes :: nat where "max_model_bytes = 256"
definition max_prompt_bytes :: nat where "max_prompt_bytes = 64 * 1024"
definition max_message_bytes :: nat where "max_message_bytes = 64 * 1024"
definition max_page_limit :: nat where "max_page_limit = 100"
definition max_wait_ms :: nat where "max_wait_ms = 60000"

datatype child_mode = OneOff | Persistent

datatype child_state =
    Idle
  | Queued
  | ChildRunning
  | Interrupted
  | Completed
  | ChildFailed
  | ChildCancelled
  | Archived

definition is_settled :: "child_state \<Rightarrow> bool" where
  "is_settled s \<longleftrightarrow> s \<noteq> Queued \<and> s \<noteq> ChildRunning"

subsection \<open>Commands\<close>

record create_input =
  ci_name :: string
  ci_mode :: child_mode
  ci_prompt :: "string option"
  ci_model :: "string option"
  ci_permission_mode :: "permission_mode option"

datatype inspect_section =
    StatusSection
  | MessagesSection
  | ToolActivitySection
  | EventsSection
  | ConfigurationSection
  | RelationshipSection

text \<open>\<open>until\<close> has one value.\<close>

record inspect_wait =
  iw_after_generation :: "u64 option"
  iw_timeout_ms :: u64

record inspect_input =
  ii_id :: string
  ii_sections :: "inspect_section list"
  ii_cursor :: "string option"
  ii_limit :: "nat option"
  ii_wait :: "inspect_wait option"

record send_input =
  si_id :: string
  si_content :: string

record message_input =
  mi_send :: "send_input option"
  mi_milestone :: "string option"

datatype relationship_action = Attach | Detach | Reparent

record relationship_input =
  ri_action :: relationship_action
  ri_id :: string
  ri_parent_id :: "string option"

record configure_input =
  cf_id :: string
  cf_name :: "string option"
  cf_model :: "string option"
  cf_permission_mode :: "permission_mode option"

datatype lifecycle_action = CancelChild | ResumeChild | CloseChild | ReopenChild

record lifecycle_input =
  li_id :: string
  li_action :: lifecycle_action

record command_input =
  cmd_create :: "create_input option"
  cmd_inspect :: "inspect_input option"
  cmd_message :: "message_input option"
  cmd_relationship :: "relationship_input option"
  cmd_configure :: "configure_input option"
  cmd_lifecycle :: "lifecycle_input option"

definition branch_count :: "command_input \<Rightarrow> nat" where
  "branch_count c = length (filter (\<lambda>selected. selected)
     [cmd_create c \<noteq> None, cmd_inspect c \<noteq> None, cmd_message c \<noteq> None, cmd_relationship c \<noteq> None,
      cmd_configure c \<noteq> None, cmd_lifecycle c \<noteq> None])"

subsection \<open>Snapshots\<close>

record tool_activity =
  ta_generation :: u64
  ta_phase :: string
  ta_tool :: string
  ta_call_id :: string
  ta_is_error :: "bool option"

record child_event =
  ce_generation :: u64
  ce_kind :: string
  ce_detail :: string
  ce_at_ms :: i64

record child_snapshot =
  cs_id :: string
  cs_parent_id :: "string option"
  cs_name :: string
  cs_mode :: child_mode
  cs_model :: string
  cs_permission_mode :: permission_mode
  cs_state :: child_state
  cs_generation :: u64
  cs_created_at_ms :: i64
  cs_updated_at_ms :: i64
  cs_history :: "chat_message list"
  cs_queued_messages :: "string list"
  cs_tool_activity :: "tool_activity list"
  cs_events :: "child_event list"
  cs_last_output :: "string option"
  cs_failure :: "string option"

record child_run_request =
  rr_id :: string
  rr_name :: string
  rr_model :: string
  rr_permission_mode :: permission_mode
  rr_history :: "chat_message list"
  rr_prompt :: string

record child_run_result =
  rs_history :: "chat_message list"
  rs_output :: string

subsection \<open>The store\<close>

definition snapshot_schema_version :: nat where "snapshot_schema_version = 1"
definition max_store_bytes :: nat where "max_store_bytes = 16 * 1024 * 1024"

datatype store_error = InvalidId | Corrupt string | StoreUnavailable string

fun show_subagent_store_error :: "store_error \<Rightarrow> string" where
  "show_subagent_store_error InvalidId = ''invalid subagent root id''"
| "show_subagent_store_error (Corrupt m) = ''subagent state is corrupt: '' @ m"
| "show_subagent_store_error (StoreUnavailable m) = ''subagent state is unavailable: '' @ m"

record snapshot_file =
  sf_schema_version :: nat
  sf_root_id :: string
  sf_children :: "child_snapshot list"

record snapshot_codec =
  sc_bytes :: "snapshot_file \<Rightarrow> string"
  sc_parse :: "string \<Rightarrow> string + snapshot_file"

datatype store_dir = NoStore | PrivateDir | UnsafeDir

text \<open>What is at a path: a regular file, or a link or something else.\<close>

datatype store_entry = StateFile string | UnsafeEntry

record subagent_store =
  st_root :: string
  st_dir :: store_dir
  st_lock :: "store_entry option"
  st_files :: "string \<Rightarrow> store_entry option"
  st_faults :: "string option list"

type_synonym 'a store_program = "subagent_store \<Rightarrow> (store_error + 'a) \<times> subagent_store"

definition store_call :: "string \<Rightarrow> unit store_program" where
  "store_call path st =
     (case st_faults st of
        [] \<Rightarrow> (Inr (), st)
      | None # fs \<Rightarrow> (Inr (), st\<lparr>st_faults := fs\<rparr>)
      | Some m # fs \<Rightarrow> (Inl (StoreUnavailable (path @ '': '' @ m)), st\<lparr>st_faults := fs\<rparr>))"

definition valid_id_byte :: "char \<Rightarrow> bool" where
  "valid_id_byte c \<longleftrightarrow> is_ascii_alphanumeric c \<or> c \<in> set ''._-''"

definition valid_root_id :: "string \<Rightarrow> bool" where
  "valid_root_id i \<longleftrightarrow> i \<noteq> [] \<and> length i \<le> 255 \<and> i \<noteq> ''.'' \<and> i \<noteq> ''..'' \<and> list_all valid_id_byte i"

definition state_path :: "subagent_store \<Rightarrow> string \<Rightarrow> string" where
  "state_path st root_id = path_push (st_root st) (root_id @ ''.json'')"

definition ensure_store_directory :: "unit store_program" where
  "ensure_store_directory =
     (\<lambda>st. seq (store_call (st_root st)) (\<lambda>_.
       if st_dir st = UnsafeDir then fail (Corrupt (''unsafe directory '' @ st_root st))
       else seq (if st_dir st = NoStore
             then seq (store_call (st_root st)) (\<lambda>_ st. (Inr (), st\<lparr>st_dir := PrivateDir\<rparr>))
             else give ()) (\<lambda>_.
         store_call (st_root st))) st)"

definition reject_unsafe :: "string \<Rightarrow> store_entry option \<Rightarrow> unit store_program" where
  "reject_unsafe path entry =
     seq (store_call path) (\<lambda>_.
       if entry = Some UnsafeEntry then fail (Corrupt (''unsafe file '' @ path)) else give ())"

text \<open>
  \<open>try_lock\<close>, repeated as long as the lock is held and the deadline has not passed: the outcome
  \<open>would block\<close> stands for a lock that is still held then.
\<close>

definition await_lock :: "string \<Rightarrow> unit store_program" where
  "await_lock path st =
     (case st_faults st of
        Some m # fs \<Rightarrow>
          if m = ''would block'' then (Inl (StoreUnavailable ''timed out waiting for lock''), st\<lparr>st_faults := fs\<rparr>)
          else store_call path st
      | _ \<Rightarrow> store_call path st)"

definition lock_store :: "unit store_program" where
  "lock_store =
     (\<lambda>st. let path = path_push (st_root st) ''subagent-control.lock'' in
       seq (reject_unsafe path (st_lock st)) (\<lambda>_.
       seq (store_call path) (\<lambda>_.
       seq (\<lambda>st. (Inr (), if st_lock st = None then st\<lparr>st_lock := Some (StateFile [])\<rparr> else st)) (\<lambda>_.
         await_lock path))) st)"

definition store_load :: "snapshot_codec \<Rightarrow> string \<Rightarrow> child_snapshot list store_program" where
  "store_load c root_id =
     (\<lambda>st. let path = state_path st root_id in
       seq (lift (ensure (valid_root_id root_id) InvalidId)) (\<lambda>_.
       seq ensure_store_directory (\<lambda>_.
       seq lock_store (\<lambda>_.
       seq (store_call path) (\<lambda>_.
         case st_files st root_id of
           None \<Rightarrow> give []
         | Some UnsafeEntry \<Rightarrow> fail (Corrupt (''unsafe or oversized state file '' @ path))
         | Some (StateFile bytes) \<Rightarrow>
             if max_store_bytes < length bytes then
               fail (Corrupt (''unsafe or oversized state file '' @ path))
             else seq (store_call path) (\<lambda>_.
               seq (lift (map_err Corrupt (sc_parse c bytes))) (\<lambda>file.
                 if sf_schema_version file \<noteq> snapshot_schema_version \<or> sf_root_id file \<noteq> root_id then
                   fail (Corrupt ''snapshot identity mismatch'')
                 else give (sf_children file))))))) st)"

definition store_save :: "snapshot_codec \<Rightarrow> string \<Rightarrow> child_snapshot list \<Rightarrow> unit store_program" where
  "store_save c root_id children =
     (\<lambda>st. let path = state_path st root_id;
           bytes = sc_bytes c \<lparr>sf_schema_version = snapshot_schema_version, sf_root_id = root_id, sf_children = children\<rparr> in
       seq (lift (ensure (valid_root_id root_id) InvalidId)) (\<lambda>_.
       seq ensure_store_directory (\<lambda>_.
       seq lock_store (\<lambda>_.
       seq (reject_unsafe path (st_files st root_id)) (\<lambda>_.
         if bytes = [] \<or> max_store_bytes < length bytes then fail (Corrupt ''snapshot exceeds 16 MiB'')
         else seq (store_call path) (\<lambda>_.
           seq (store_call path) (\<lambda>_.
           seq (store_call path) (\<lambda>_.
           seq (store_call path) (\<lambda>_.
             \<lambda>st. (Inr (), st\<lparr>st_files := (st_files st)(root_id := Some (StateFile bytes))\<rparr>)))))))))
         st)"

end
