(* ===== verification/Ordered_Map.thy ===== *)
theory Ordered_Map
  imports Text "HOL-Library.List_Lexorder" "HOL-Library.Char_ord"
begin

section \<open>Maps in the order of their keys\<close>

text \<open>\<open>BTreeMap\<close> as the list of its entries, in the order of the keys: \<open>insert\<close> and \<open>extend\<close>.\<close>

fun map_insert :: "'k::linorder \<Rightarrow> 'v \<Rightarrow> ('k \<times> 'v) list \<Rightarrow> ('k \<times> 'v) list" where
  "map_insert k v [] = [(k, v)]"
| "map_insert k v ((l, w) # xs) =
     (if k = l then (k, v) # xs else if k < l then (k, v) # (l, w) # xs else (l, w) # map_insert k v xs)"

definition map_extend :: "('k::linorder \<times> 'v) list \<Rightarrow> ('k \<times> 'v) list \<Rightarrow> ('k \<times> 'v) list" where
  "map_extend new xs = fold (\<lambda>(k, v). map_insert k v) new xs"

lemma map_of_map_insert: "map_of (map_insert k v xs) = (map_of xs)(k \<mapsto> v)"
  by (induction k v xs rule: map_insert.induct) (auto simp: fun_upd_twist)

lemma keys_map_insert: "fst ` set (map_insert k v xs) = insert k (fst ` set xs)"
  by (induction k v xs rule: map_insert.induct) auto

lemma map_insert_fresh_set: "k \<notin> fst ` set xs \<Longrightarrow> set (map_insert k v xs) = insert (k, v) (set xs)"
  by (induction k v xs rule: map_insert.induct) auto

lemma map_insert_sorted: "sorted_wrt (<) (map fst xs) \<Longrightarrow> sorted_wrt (<) (map fst (map_insert k v xs))"
proof (induction k v xs rule: map_insert.induct)
  case (2 k v l w xs)
  then show ?case using keys_map_insert [of k v xs] by (auto simp: set_map [symmetric] simp del: set_map)
qed simp

lemma map_insert_last: "\<forall>l \<in> fst ` set xs. l < k \<Longrightarrow> map_insert k v xs = xs @ [(k, v)]"
  by (induction k v xs rule: map_insert.induct) auto

lemma map_of_map_extend: "distinct (map fst new) \<Longrightarrow> map_of (map_extend new xs) = map_of xs ++ map_of new"
proof (induction new arbitrary: xs)
  case (Cons p new)
  obtain k v where p: "p = (k, v)" by fastforce
  from Cons.prems p have "k \<notin> fst ` set new" by auto
  then have "map_of new k = None" by (simp add: map_of_eq_None_iff)
  with Cons p show ?case
    by (auto simp: map_extend_def map_of_map_insert map_add_def fun_eq_iff split: option.splits)
qed (simp add: map_extend_def)

lemma map_extend_sorted:
  "sorted_wrt (<) (map fst xs) \<Longrightarrow> sorted_wrt (<) (map fst (map_extend new xs))"
  by (induction new arbitrary: xs) (auto simp: map_extend_def map_insert_sorted)

lemma sorted_keys_distinct: "sorted_wrt (<) (map fst (xs :: ('k::linorder \<times> 'v) list)) \<Longrightarrow> distinct (map fst xs)"
  using strict_sorted_iff by blast

text \<open>Two lists of entries in the order of the keys are equal when they are equal as maps.\<close>

lemma sorted_map_eq:
  assumes "sorted_wrt (<) (map fst xs)" "sorted_wrt (<) (map fst ys)" "map_of xs = map_of ys"
  shows "xs = (ys :: ('k::linorder \<times> 'v) list)"
proof -
  note d = assms(1,2) [THEN sorted_keys_distinct]
  have s: "set xs = set ys" using map_of_inject_set [OF d] assms(3) by simp
  then have "map fst xs = map fst ys"
    using assms(1,2) by (metis list.set_map strict_sorted_equal)
  with s d show ?thesis
    by (metis map_eq_imp_length_eq map_of_eq_Some_iff nth_equalityI nth_map nth_mem prod.collapse assms(3) option.inject)
qed

end
