(* ===== verification/Subagent.thy ===== *)
theory Subagent
  imports Subagent_Store Session_Json Ordered_Map
begin

section \<open>The manager of child agents\<close>

text \<open>
  \<open>SubagentManager\<close> of \<open>fx-subagent/src/lib.rs\<close> with the tool in front of it. A command runs as one step:
  the root and every child issue their commands one at a time. A spawned run of a child is an entry of
  \<open>mg_runs\<close>; it takes a step when it starts a generation (\<open>begin_run\<close>), when the executor reports a tool
  (\<open>live_event\<close>) and when the executor returns (\<open>finish_run\<close>), and other commands may come in between. The
  executor, the clock (a time for \<open>updated_at_ms\<close> and one for the event), the fresh part of an identifier
  and the outcomes of the store's system calls are inputs. A poisoned lock needs a panic, which the code
  under the locks does not raise.
\<close>

definition max_activity_items :: nat where "max_activity_items = 200"
definition max_event_items :: nat where "max_event_items = 200"
definition default_page_limit :: nat where "default_page_limit = 50"
definition max_history_messages :: nat where "max_history_messages = 256"

datatype manager_error =
    InvalidBranch
  | InvalidInput string
  | NotFound string
  | Busy string
  | Unsupported string
  | StoreFailed store_error

fun show_manager_error :: "manager_error \<Rightarrow> string" where
  "show_manager_error InvalidBranch = ''subagent command must select exactly one branch''"
| "show_manager_error (InvalidInput m) = ''invalid subagent input: '' @ m"
| "show_manager_error (NotFound i) = ''subagent `'' @ i @ ''` was not found or is outside caller authority''"
| "show_manager_error (Busy i) = ''subagent `'' @ i @ ''` is busy''"
| "show_manager_error (Unsupported i) = ''subagent `'' @ i @ ''` does not support this operation''"
| "show_manager_error (StoreFailed e) = show_subagent_store_error e"

datatype subagent_event =
    SubagentToolStarted string string
  | SubagentToolFinished string string bool

datatype child_run_error = RunCancelled | RunFailed string

record child =
  ch_snapshot :: child_snapshot
  ch_cancelled :: bool

text \<open>A run is before the next pass of its loop, with a prompt, or in the executor, with a request.\<close>

datatype run_stage = Starting string | Executing child_run_request

record manager =
  mg_root_id :: string
  mg_children :: "(string \<times> child) list"
  mg_runs :: "(string \<times> run_stage) list"
  mg_store :: "subagent_store option"

type_synonym 'a manager_action = "manager \<Rightarrow> (manager_error + 'a) \<times> manager"

text \<open>The two readings of the clock in a command.\<close>

type_synonym times = "i64 \<times> i64"

subsection \<open>Checks and small helpers\<close>

text \<open>\<open>char::is_control\<close> other than a newline or a tab, on UTF-8.\<close>

fun has_control :: "string \<Rightarrow> bool" where
  "has_control [] = False"
| "has_control (c # s) =
     ((is_ascii_control c \<and> c \<noteq> CHR 0x0A \<and> c \<noteq> CHR 0x09)
      \<or> (byte_of c = 0xC2 \<and> s \<noteq> [] \<and> 0x80 \<le> byte_of (hd s) \<and> byte_of (hd s) \<le> 0x9F)
      \<or> has_control s)"

definition validate_child_text :: "string \<Rightarrow> string \<Rightarrow> nat \<Rightarrow> manager_error + unit" where
  "validate_child_text field v maximum =
     (if trim v = [] \<or> maximum < length v \<or> has_control v then Inl (InvalidInput (''invalid '' @ field))
      else Inr ())"

definition validate_opt_text :: "string \<Rightarrow> string option \<Rightarrow> nat \<Rightarrow> manager_error + unit" where
  "validate_opt_text field v maximum =
     (case v of None \<Rightarrow> Inr () | Some t \<Rightarrow> validate_child_text field t maximum)"

definition validate_child_id :: "string \<Rightarrow> manager_error + unit" where
  "validate_child_id i =
     (if i = [] \<or> 255 < length i \<or> \<not> list_all valid_id_byte i then Inl (InvalidInput ''invalid child id'')
      else Inr ())"

fun permission_rank :: "permission_mode \<Rightarrow> nat" where
  "permission_rank AskMode = 0"
| "permission_rank AutoMode = 1"
| "permission_rank YoloMode = 2"

definition retain_tail :: "nat \<Rightarrow> 'a list \<Rightarrow> 'a list" where
  "retain_tail m xs = drop (length xs - m) xs"

definition push_child_event :: "i64 \<Rightarrow> string \<Rightarrow> string \<Rightarrow> child_snapshot \<Rightarrow> child_snapshot" where
  "push_child_event event_ms kind detail s =
     s\<lparr>cs_events := retain_tail max_event_items
         (cs_events s @ [\<lparr>ce_generation = cs_generation s, ce_kind = kind, ce_detail = detail, ce_at_ms = event_ms\<rparr>])\<rparr>"

definition bound_history :: "chat_message list \<Rightarrow> chat_message list" where
  "bound_history h =
     (if length h \<le> max_history_messages then h
      else let system = (case h of [] \<Rightarrow> [] | m # _ \<Rightarrow> if role m = System then [m] else []) in
        system @ drop (length h - (max_history_messages - length system)) h)"

definition truncate_owned :: "string \<Rightarrow> nat \<Rightarrow> string" where
  "truncate_owned v m = (if length v \<le> m then v else take (utf8_backward_boundary v m) v)"

text \<open>\<open>snapshot.generation = snapshot.generation.saturating_add(1); snapshot.updated_at_ms = now_ms()\<close>.\<close>

definition next_generation :: "i64 \<Rightarrow> child_snapshot \<Rightarrow> child_snapshot" where
  "next_generation now s = s\<lparr>cs_generation := saturating_add_u64 (cs_generation s) 1, cs_updated_at_ms := now\<rparr>"

text \<open>The change of an entry that is there.\<close>

fun map_change :: "'k \<Rightarrow> 'v \<Rightarrow> ('k \<times> 'v) list \<Rightarrow> ('k \<times> 'v) list" where
  "map_change k v [] = []"
| "map_change k v ((l, w) # xs) = (if k = l then (l, v) # xs else (l, w) # map_change k v xs)"

definition set_child :: "string \<Rightarrow> child \<Rightarrow> manager \<Rightarrow> manager" where
  "set_child ident c m = m\<lparr>mg_children := map_change ident c (mg_children m)\<rparr>"

definition parent_of :: "(string \<times> child) list \<Rightarrow> string \<Rightarrow> string option" where
  "parent_of cs i = (case map_of cs i of None \<Rightarrow> None | Some c \<Rightarrow> cs_parent_id (ch_snapshot c))"

subsection \<open>Authority\<close>

text \<open>The loop of \<open>is_authorized\<close> for a caller that is not the root, and the one of \<open>relationship_would_cycle\<close>.\<close>

fun authorized_walk :: "(string \<times> child) list \<Rightarrow> string \<Rightarrow> nat \<Rightarrow> string \<Rightarrow> bool" where
  "authorized_walk cs caller 0 current = False"
| "authorized_walk cs caller (Suc n) current =
     (if current = caller then True
      else case parent_of cs current of
          None \<Rightarrow> False
        | Some p \<Rightarrow> if p = caller then True else authorized_walk cs caller n p)"

definition is_authorized :: "manager \<Rightarrow> string \<Rightarrow> string \<Rightarrow> bool" where
  "is_authorized m caller i =
     (if caller = mg_root_id m then i \<in> set (map fst (mg_children m))
      else authorized_walk (mg_children m) caller (length (mg_children m)) i)"

fun cycle_walk :: "(string \<times> child) list \<Rightarrow> string \<Rightarrow> nat \<Rightarrow> string \<Rightarrow> bool" where
  "cycle_walk cs i 0 current = True"
| "cycle_walk cs i (Suc n) current =
     (if current = i then True
      else case parent_of cs current of None \<Rightarrow> False | Some p \<Rightarrow> cycle_walk cs i n p)"

definition relationship_would_cycle :: "manager \<Rightarrow> string \<Rightarrow> string \<Rightarrow> bool" where
  "relationship_would_cycle m i p = cycle_walk (mg_children m) i (Suc (length (mg_children m))) p"

definition authorized_child :: "string \<Rightarrow> string \<Rightarrow> child manager_action" where
  "authorized_child caller i =
     (\<lambda>m. if \<not> is_authorized m caller i then (Inl (NotFound i), m)
       else (ok_or (NotFound i) (map_of (mg_children m) i), m))"

text \<open>\<open>mutate_child\<close> on a child that was found; what the closure changed stays when it fails.\<close>

definition mutate_child ::
  "string \<Rightarrow> (child \<Rightarrow> (manager_error + 'a) \<times> child) \<Rightarrow> 'a manager_action" where
  "mutate_child i f =
     (\<lambda>m. case map_of (mg_children m) i of
        None \<Rightarrow> (Inl (NotFound i), m)
      | Some c \<Rightarrow> (case f c of (r, c') \<Rightarrow> (r, set_child i c' m)))"

definition on_snapshot :: "(child_snapshot \<Rightarrow> child_snapshot) \<Rightarrow> child \<Rightarrow> (manager_error + child_snapshot) \<times> child" where
  "on_snapshot f c = (Inr (f (ch_snapshot c)), c\<lparr>ch_snapshot := f (ch_snapshot c)\<rparr>)"

definition snapshots :: "manager \<Rightarrow> child_snapshot list" where
  "snapshots m = map (\<lambda>(_, c). ch_snapshot c) (mg_children m)"

definition persist :: "snapshot_codec \<Rightarrow> unit manager_action" where
  "persist cd =
     (\<lambda>m. case mg_store m of
        None \<Rightarrow> (Inr (), m)
      | Some st \<Rightarrow>
          (case store_save cd (mg_root_id m) (snapshots m) st of
             (r, st) \<Rightarrow> (map_err StoreFailed r, m\<lparr>mg_store := Some st\<rparr>)))"

text \<open>\<open>let _ = self.persist()\<close>.\<close>

definition try_persist :: "snapshot_codec \<Rightarrow> manager \<Rightarrow> manager" where
  "try_persist cd m = snd (persist cd m)"

definition spawn_run :: "string \<Rightarrow> string \<Rightarrow> manager \<Rightarrow> manager" where
  "spawn_run i task m = m\<lparr>mg_runs := mg_runs m @ [(i, Starting task)]\<rparr>"

definition spawn_if :: "string \<Rightarrow> string option \<Rightarrow> unit manager_action" where
  "spawn_if i task = (\<lambda>m. (Inr (), case task of None \<Rightarrow> m | Some p \<Rightarrow> spawn_run i p m))"

subsection \<open>Restoring\<close>

definition reconcile :: "times \<Rightarrow> child_snapshot \<Rightarrow> child_snapshot" where
  "reconcile t s =
     (if is_settled (cs_state s) then s
      else push_child_event (snd t) ''interrupted'' ''host restarted before the child settled''
        (next_generation (fst t) (s\<lparr>cs_state := Interrupted\<rparr>)))"

definition new_child :: "child_snapshot \<Rightarrow> child" where
  "new_child s = \<lparr>ch_snapshot = s, ch_cancelled = False\<rparr>"

definition restore ::
  "snapshot_codec \<Rightarrow> times \<Rightarrow> string \<Rightarrow> subagent_store option \<Rightarrow> (store_error + manager) \<times> subagent_store option" where
  "restore cd t root_id store =
     (case (case store of
          None \<Rightarrow> (Inr [], None)
        | Some st \<Rightarrow> (case store_load cd root_id st of (r, st) \<Rightarrow> (r, Some st))) of
        (Inl e, store) \<Rightarrow> (Inl e, store)
      | (Inr loaded, store) \<Rightarrow>
          let reconciled = list_ex (\<lambda>s. \<not> is_settled (cs_state s)) loaded;
              m = \<lparr>mg_root_id = root_id,
                   mg_children = foldl (\<lambda>cs s. map_insert (cs_id s) (new_child (reconcile t s)) cs) [] loaded,
                   mg_runs = [], mg_store = store\<rparr> in
          if reconciled then
            (case persist cd m of
               (Inl (StoreFailed e), m) \<Rightarrow> (Inl e, mg_store m)
             | (_, m) \<Rightarrow> (Inr m, mg_store m))
          else (Inr m, store))"

subsection \<open>What commands answer\<close>

fun child_mode_name :: "child_mode \<Rightarrow> string" where
  "child_mode_name OneOff = ''one_off''"
| "child_mode_name Persistent = ''persistent''"

fun child_state_name :: "child_state \<Rightarrow> string" where
  "child_state_name Idle = ''idle''"
| "child_state_name Queued = ''queued''"
| "child_state_name ChildRunning = ''running''"
| "child_state_name Interrupted = ''interrupted''"
| "child_state_name Completed = ''completed''"
| "child_state_name ChildFailed = ''failed''"
| "child_state_name ChildCancelled = ''cancelled''"
| "child_state_name Archived = ''archived''"

fun permission_mode_name :: "permission_mode \<Rightarrow> string" where
  "permission_mode_name AskMode = ''ask''"
| "permission_mode_name AutoMode = ''auto''"
| "permission_mode_name YoloMode = ''yolo''"

definition opt_json :: "('a \<Rightarrow> json) \<Rightarrow> 'a option \<Rightarrow> json" where
  "opt_json f v = (case v of None \<Rightarrow> JNull | Some a \<Rightarrow> f a)"

definition u64_json :: "u64 \<Rightarrow> json" where
  "u64_json n = JNumber (int (unat n))"

definition activity_json :: "tool_activity \<Rightarrow> json" where
  "activity_json a = JObject
     [(''generation'', u64_json (ta_generation a)), (''phase'', JString (ta_phase a)),
      (''tool'', JString (ta_tool a)), (''call_id'', JString (ta_call_id a)),
      (''is_error'', opt_json JBool (ta_is_error a))]"

definition event_json :: "child_event \<Rightarrow> json" where
  "event_json e = JObject
     [(''generation'', u64_json (ce_generation e)), (''kind'', JString (ce_kind e)),
      (''detail'', JString (ce_detail e)), (''at_ms'', JNumber (sint (ce_at_ms e)))]"

definition outcome :: "string \<Rightarrow> child_snapshot \<Rightarrow> (string \<times> json) list \<Rightarrow> json" where
  "outcome status s requested = JObject
     [(''ok'', JBool True), (''child_id'', JString (cs_id s)), (''status'', JString status),
      (''error_code'', JNull), (''retryable'', JBool False), (''generation'', u64_json (cs_generation s)),
      (''requested'', JObject requested), (''cursor'', JNull)]"

subsection \<open>The commands\<close>

definition within_authority :: "permission_mode \<Rightarrow> permission_mode \<Rightarrow> manager_error + unit" where
  "within_authority authority granted_mode =
     ensure (permission_rank granted_mode \<le> permission_rank authority)
       (InvalidInput ''child permission mode cannot exceed caller authority'')"

definition check_create :: "permission_mode \<Rightarrow> create_input \<Rightarrow> manager_error + permission_mode" where
  "check_create authority i =
     and_then (validate_child_text ''name'' (ci_name i) max_name_bytes) (\<lambda>_.
     and_then (validate_opt_text ''model'' (ci_model i) max_model_bytes) (\<lambda>_.
     and_then (validate_opt_text ''prompt'' (ci_prompt i) max_prompt_bytes) (\<lambda>_.
     and_then (ensure (\<not> (ci_mode i = OneOff \<and> ci_prompt i = None))
         (InvalidInput ''one_off creation requires a prompt'')) (\<lambda>_.
       let granted_mode = (case ci_permission_mode i of None \<Rightarrow> authority | Some p \<Rightarrow> p) in
       and_then (within_authority authority granted_mode) (\<lambda>_. Inr granted_mode)))))"

definition created_snapshot ::
  "times \<Rightarrow> string \<Rightarrow> string \<Rightarrow> permission_mode \<Rightarrow> create_input \<Rightarrow> child_snapshot" where
  "created_snapshot t ident caller granted_mode i =
     push_child_event (snd t) ''created'' ''child admitted''
       \<lparr>cs_id = ident, cs_parent_id = Some caller, cs_name = ci_name i, cs_mode = ci_mode i,
        cs_model = (case ci_model i of None \<Rightarrow> [] | Some m \<Rightarrow> m), cs_permission_mode = granted_mode,
        cs_state = (if ci_prompt i = None then Idle else Queued), cs_generation = 1, cs_created_at_ms = fst t,
        cs_updated_at_ms = fst t, cs_history = [], cs_queued_messages = [], cs_tool_activity = [], cs_events = [],
        cs_last_output = None, cs_failure = None\<rparr>"

definition create ::
  "snapshot_codec \<Rightarrow> times \<Rightarrow> string \<Rightarrow> string \<Rightarrow> permission_mode \<Rightarrow> create_input \<Rightarrow> child_snapshot manager_action" where
  "create cd t uuid caller authority i =
     seq (lift (check_create authority i)) (\<lambda>granted_mode.
       let ident = ''child-'' @ uuid; s = created_snapshot t ident caller granted_mode i in
       seq (\<lambda>m. (Inr (), m\<lparr>mg_children := map_insert ident (new_child s) (mg_children m)\<rparr>)) (\<lambda>_.
       seq (persist cd) (\<lambda>_.
       seq (spawn_if ident (ci_prompt i)) (\<lambda>_. give s))))"

text \<open>
  What the loop of an inspection that waits sees of the child each time it looks, the last time before
  the deadline at the latest: it ends with the first look that finds the child settled and new enough.
\<close>

definition wait_ready :: "inspect_wait \<Rightarrow> child_snapshot \<Rightarrow> bool" where
  "wait_ready w s \<longleftrightarrow> is_settled (cs_state s)
     \<and> (case iw_after_generation w of None \<Rightarrow> True | Some g \<Rightarrow> g < cs_generation s)"

definition wait_timed_out :: "inspect_wait \<Rightarrow> child_snapshot list \<Rightarrow> bool" where
  "wait_timed_out w looks \<longleftrightarrow> \<not> list_ex (wait_ready w) looks"

definition check_wait :: "inspect_input \<Rightarrow> inspect_wait \<Rightarrow> manager_error + unit" where
  "check_wait i w =
     and_then (ensure (StatusSection \<in> set (ii_sections i) \<and> ii_cursor i = None)
         (InvalidInput ''inspect wait requires status and cannot use cursor'')) (\<lambda>_.
       ensure (iw_timeout_ms w \<noteq> 0 \<and> unat (iw_timeout_ms w) \<le> max_wait_ms) (InvalidInput ''invalid wait timeout''))"

text \<open>\<open>str::parse::<usize>\<close>.\<close>

definition parse_usize :: "string \<Rightarrow> nat option" where
  "parse_usize s =
     (let digits = (if s \<noteq> [] \<and> hd s = CHR ''+'' then tl s else s) in
      if digits = [] \<or> \<not> list_all is_ascii_digit digits \<or> usize_max < read_nat digits then None
      else Some (read_nat digits))"

text \<open>One section; \<open>offset + limit\<close> is below \<open>usize::MAX\<close>, as the offset is at most the length of the history.\<close>

fun inspect_part :: "child_snapshot \<Rightarrow> bool \<Rightarrow> nat \<Rightarrow> nat \<Rightarrow> inspect_section \<Rightarrow> manager_error + string \<times> json" where
  "inspect_part s timed_out offset limit StatusSection =
     Inr (''status'', JObject
       [(''state'', JString (child_state_name (cs_state s))), (''generation'', u64_json (cs_generation s)),
        (''wait_timed_out'', JBool timed_out), (''last_output'', opt_json JString (cs_last_output s)),
        (''failure'', opt_json JString (cs_failure s))])"
| "inspect_part s timed_out offset limit MessagesSection =
     (if length (cs_history s) < offset then Inl (InvalidInput ''inspect cursor is out of range'')
      else let e = min (offset + limit) (length (cs_history s)) in
        Inr (''messages'', JObject
          [(''items'', JArray (map message_json (take (e - offset) (drop offset (cs_history s))))),
           (''next_cursor'', if e < length (cs_history s) then JString (show_nat e) else JNull),
           (''queued'', JArray (map JString (cs_queued_messages s)))]))"
| "inspect_part s timed_out offset limit ToolActivitySection =
     Inr (''tool_activity'', JArray (map activity_json (cs_tool_activity s)))"
| "inspect_part s timed_out offset limit EventsSection = Inr (''events'', JArray (map event_json (cs_events s)))"
| "inspect_part s timed_out offset limit ConfigurationSection =
     Inr (''configuration'', JObject
       [(''name'', JString (cs_name s)), (''mode'', JString (child_mode_name (cs_mode s))),
        (''model'', JString (cs_model s)), (''permission_mode'', JString (permission_mode_name (cs_permission_mode s)))])"
| "inspect_part s timed_out offset limit RelationshipSection =
     Inr (''relationship'', JObject [(''parent_id'', opt_json JString (cs_parent_id s))])"

text \<open>\<open>requested.insert\<close> for each section: a section asked for twice is there once.\<close>

fun inspect_parts ::
  "child_snapshot \<Rightarrow> bool \<Rightarrow> nat \<Rightarrow> nat \<Rightarrow> inspect_section list \<Rightarrow> (string \<times> json) list \<Rightarrow>
     manager_error + (string \<times> json) list" where
  "inspect_parts s timed_out offset limit [] acc = Inr acc"
| "inspect_parts s timed_out offset limit (p # ps) acc =
     and_then (inspect_part s timed_out offset limit p) (\<lambda>(k, v).
       inspect_parts s timed_out offset limit ps (map_insert k v acc))"

definition project_inspection :: "child_snapshot \<Rightarrow> inspect_input \<Rightarrow> bool \<Rightarrow> manager_error + json" where
  "project_inspection s i timed_out =
     and_then (case ii_cursor i of
         None \<Rightarrow> Inr 0
       | Some c \<Rightarrow> ok_or (InvalidInput ''invalid inspect cursor'') (parse_usize c)) (\<lambda>offset.
       let limit = (case ii_limit i of None \<Rightarrow> default_page_limit | Some l \<Rightarrow> l) in
       if limit = 0 \<or> max_page_limit < limit then Inl (InvalidInput ''invalid inspect limit'')
       else and_then (inspect_parts s timed_out offset limit (ii_sections i) []) (\<lambda>requested.
         Inr (outcome (if timed_out then ''wait_timed_out'' else ''inspected'') s requested)))"

text \<open>
  The looks of the wait and the snapshot read after it are the child's at later times; without a wait the
  snapshot is the one at hand.
\<close>

definition inspect_child ::
  "child_snapshot list \<Rightarrow> child_snapshot \<Rightarrow> string \<Rightarrow> inspect_input \<Rightarrow> json manager_action" where
  "inspect_child looks later caller i =
     seq (lift (validate_child_id (ii_id i))) (\<lambda>_.
     seq (lift (ensure (ii_sections i \<noteq> []) (InvalidInput ''inspect requires at least one section''))) (\<lambda>_.
     seq (authorized_child caller (ii_id i)) (\<lambda>c.
       case ii_wait i of
         None \<Rightarrow> lift (project_inspection (ch_snapshot c) i False)
       | Some w \<Rightarrow>
           seq (lift (check_wait i w)) (\<lambda>_. lift (project_inspection later i (wait_timed_out w looks))))))"

definition milestone :: "snapshot_codec \<Rightarrow> times \<Rightarrow> string \<Rightarrow> string \<Rightarrow> json manager_action" where
  "milestone cd t caller name =
     seq (lift (validate_child_text ''milestone'' name max_name_bytes)) (\<lambda>_.
     seq (\<lambda>m. (if caller = mg_root_id m then Inl (Unsupported caller) else Inr (), m)) (\<lambda>_.
     seq (authorized_child caller caller) (\<lambda>_.
     seq (mutate_child caller (on_snapshot (\<lambda>s. push_child_event (snd t) ''milestone'' name (next_generation (fst t) s)))) (\<lambda>s.
     seq (persist cd) (\<lambda>_.
       give (outcome ''milestone_emitted'' s [(''milestone'', JString name)]))))))"

text \<open>The closure of a message: the child is busy and keeps it, or is to be started.\<close>

definition queue_message :: "times \<Rightarrow> string \<Rightarrow> child \<Rightarrow> (manager_error + child_snapshot \<times> bool) \<times> child" where
  "queue_message t text c =
     (let s = ch_snapshot c in
      if cs_mode s \<noteq> Persistent \<or> cs_state s = Archived then (Inl (Unsupported (cs_id s)), c)
      else let busy = \<not> is_settled (cs_state s);
               s1 = (next_generation (fst t) s)\<lparr>cs_failure := None\<rparr>;
               s2 = (if busy then s1\<lparr>cs_queued_messages := cs_queued_messages s1 @ [text]\<rparr> else s1\<lparr>cs_state := Queued\<rparr>);
               s3 = push_child_event (snd t) ''message_queued'' ''parent sent work'' s2 in
        (Inr (s3, \<not> busy), c\<lparr>ch_snapshot := s3\<rparr>))"

definition send_message :: "snapshot_codec \<Rightarrow> times \<Rightarrow> string \<Rightarrow> send_input \<Rightarrow> json manager_action" where
  "send_message cd t caller i =
     seq (lift (validate_child_id (si_id i))) (\<lambda>_.
     seq (lift (validate_child_text ''message'' (si_content i) max_message_bytes)) (\<lambda>_.
     seq (authorized_child caller (si_id i)) (\<lambda>_.
     seq (mutate_child (si_id i) (queue_message t (si_content i))) (\<lambda>(s, begins).
     seq (persist cd) (\<lambda>_.
     seq (spawn_if (si_id i) (if begins then Some (si_content i) else None)) (\<lambda>_.
       give (outcome ''queued'' s [])))))))"

definition message_command :: "snapshot_codec \<Rightarrow> times \<Rightarrow> string \<Rightarrow> message_input \<Rightarrow> json manager_action" where
  "message_command cd t caller i =
     (case (mi_send i, mi_milestone i) of
        (None, Some name) \<Rightarrow> milestone cd t caller name
      | (Some s, None) \<Rightarrow> send_message cd t caller s
      | _ \<Rightarrow> fail InvalidBranch)"

text \<open>The closure of a configuration: the name and the model stay changed when a later check fails.\<close>

definition set_name :: "string option \<Rightarrow> child_snapshot \<Rightarrow> (manager_error + unit) \<times> child_snapshot" where
  "set_name v s =
     (case v of None \<Rightarrow> (Inr (), s)
      | Some name \<Rightarrow> (case validate_child_text ''name'' name max_name_bytes of
            Inl e \<Rightarrow> (Inl e, s) | Inr _ \<Rightarrow> (Inr (), s\<lparr>cs_name := name\<rparr>)))"

definition set_model :: "string option \<Rightarrow> child_snapshot \<Rightarrow> (manager_error + unit) \<times> child_snapshot" where
  "set_model v s =
     (case v of None \<Rightarrow> (Inr (), s)
      | Some model \<Rightarrow> (case validate_child_text ''model'' model max_model_bytes of
            Inl e \<Rightarrow> (Inl e, s) | Inr _ \<Rightarrow> (Inr (), s\<lparr>cs_model := model\<rparr>)))"

definition set_permission ::
  "permission_mode \<Rightarrow> permission_mode option \<Rightarrow> child_snapshot \<Rightarrow> (manager_error + unit) \<times> child_snapshot" where
  "set_permission authority v s =
     (case v of None \<Rightarrow> (Inr (), s)
      | Some granted_mode \<Rightarrow> (case within_authority authority granted_mode of
            Inl e \<Rightarrow> (Inl e, s) | Inr _ \<Rightarrow> (Inr (), s\<lparr>cs_permission_mode := granted_mode\<rparr>)))"

definition configure_snapshot ::
  "times \<Rightarrow> permission_mode \<Rightarrow> configure_input \<Rightarrow> child_snapshot \<Rightarrow> (manager_error + child_snapshot) \<times> child_snapshot" where
  "configure_snapshot t authority i =
     (\<lambda>s. if \<not> is_settled (cs_state s) then (Inl (Busy (cs_id s)), s)
       else seq (set_name (cf_name i)) (\<lambda>_.
         seq (set_model (cf_model i)) (\<lambda>_.
         seq (set_permission authority (cf_permission_mode i)) (\<lambda>_ s.
           let s = push_child_event (snd t) ''configured'' ''child configuration changed'' (next_generation (fst t) s) in
           (Inr s, s)))) s)"

definition in_snapshot ::
  "(child_snapshot \<Rightarrow> (manager_error + 'a) \<times> child_snapshot) \<Rightarrow> child \<Rightarrow> (manager_error + 'a) \<times> child" where
  "in_snapshot f c = (case f (ch_snapshot c) of (r, s) \<Rightarrow> (r, c\<lparr>ch_snapshot := s\<rparr>))"

definition configure ::
  "snapshot_codec \<Rightarrow> times \<Rightarrow> string \<Rightarrow> permission_mode \<Rightarrow> configure_input \<Rightarrow> json manager_action" where
  "configure cd t caller authority i =
     seq (lift (ensure (\<not> (cf_name i = None \<and> cf_model i = None \<and> cf_permission_mode i = None))
         (InvalidInput ''configure requires at least one change''))) (\<lambda>_.
     seq (authorized_child caller (cf_id i)) (\<lambda>_.
     seq (mutate_child (cf_id i) (in_snapshot (configure_snapshot t authority i))) (\<lambda>s.
     seq (persist cd) (\<lambda>_. give (outcome ''configured'' s [])))))"

definition next_parent :: "string \<Rightarrow> relationship_input \<Rightarrow> string option manager_action" where
  "next_parent caller i =
     (\<lambda>m. (case ri_action i of
         Detach \<Rightarrow> Inr None
       | Attach \<Rightarrow> Inr (Some (mg_root_id m))
       | Reparent \<Rightarrow>
           and_then (ok_or (InvalidInput ''reparent requires parent_id'') (ri_parent_id i)) (\<lambda>p.
           if \<not> is_authorized m caller p \<or> relationship_would_cycle m (ri_id i) p then
             Inl (InvalidInput ''invalid or cyclic parent relationship'')
           else Inr (Some p)), m))"

definition relationship :: "snapshot_codec \<Rightarrow> times \<Rightarrow> string \<Rightarrow> relationship_input \<Rightarrow> json manager_action" where
  "relationship cd t caller i =
     seq (authorized_child caller (ri_id i)) (\<lambda>_.
     seq (\<lambda>m. (if caller \<noteq> mg_root_id m then Inl (Unsupported (ri_id i)) else Inr (), m)) (\<lambda>_.
     seq (next_parent caller i) (\<lambda>p.
     seq (mutate_child (ri_id i) (on_snapshot (\<lambda>s.
         push_child_event (snd t) ''relationship_changed'' ''parent relationship changed''
           (next_generation (fst t) (s\<lparr>cs_parent_id := p\<rparr>))))) (\<lambda>s.
     seq (persist cd) (\<lambda>_. give (outcome ''relationship_changed'' s []))))))"

definition resume_text :: string where
  "resume_text = ''Resume the interrupted task. Reassess current workspace state before continuing.''"

text \<open>The closure of a lifecycle command, which counts a generation also when it fails.\<close>

definition lifecycle_child ::
  "times \<Rightarrow> lifecycle_action \<Rightarrow> child \<Rightarrow> (manager_error + child_snapshot \<times> string option) \<times> child" where
  "lifecycle_child t a c0 =
     (let c = c0\<lparr>ch_snapshot := next_generation (fst t) (ch_snapshot c0)\<rparr>;
          s = ch_snapshot c;
          put = (\<lambda>kind detail s task c. let s = push_child_event (snd t) kind detail s in
            (Inr (s, task), c\<lparr>ch_snapshot := s\<rparr>));
          unsupported = (Inl (Unsupported (cs_id s)), c) in
      case a of
        CancelChild \<Rightarrow>
          if is_settled (cs_state s) then unsupported
          else put ''cancelled'' ''cancellation requested'' (s\<lparr>cs_state := ChildCancelled\<rparr>) None (c\<lparr>ch_cancelled := True\<rparr>)
      | CloseChild \<Rightarrow>
          put ''archived'' ''child closed'' (s\<lparr>cs_state := Archived, cs_queued_messages := []\<rparr>) None (c\<lparr>ch_cancelled := True\<rparr>)
      | ReopenChild \<Rightarrow>
          if cs_state s \<noteq> Archived then unsupported
          else put ''reopened'' ''child reopened''
            (s\<lparr>cs_state := (if cs_mode s = Persistent then Idle else Interrupted)\<rparr>) None c
      | ResumeChild \<Rightarrow>
          if cs_state s \<notin> {Interrupted, ChildFailed, ChildCancelled} then unsupported
          else put ''resumed'' ''child queued for resume''
            (s\<lparr>cs_queued_messages := drop 1 (cs_queued_messages s), cs_state := Queued, cs_failure := None\<rparr>)
            (Some (case cs_queued_messages s of [] \<Rightarrow> resume_text | q # _ \<Rightarrow> q)) c)"

definition lifecycle :: "snapshot_codec \<Rightarrow> times \<Rightarrow> string \<Rightarrow> lifecycle_input \<Rightarrow> json manager_action" where
  "lifecycle cd t caller i =
     seq (authorized_child caller (li_id i)) (\<lambda>_.
     seq (mutate_child (li_id i) (lifecycle_child t (li_action i))) (\<lambda>(s, resume_prompt).
     seq (persist cd) (\<lambda>_.
     seq (spawn_if (li_id i) resume_prompt) (\<lambda>_.
       give (outcome ''lifecycle_changed'' s [])))))"

text \<open>What a command meets from outside: the clock, a fresh identifier, and the looks of a wait.\<close>

record surroundings =
  sur_times :: times
  sur_uuid :: string
  sur_looks :: "child_snapshot list"
  sur_later :: child_snapshot

definition execute_command ::
  "snapshot_codec \<Rightarrow> surroundings \<Rightarrow> string \<Rightarrow> permission_mode \<Rightarrow> command_input \<Rightarrow> json manager_action" where
  "execute_command cd w caller authority c =
     (if branch_count c \<noteq> 1 then fail InvalidBranch
      else case cmd_create c of
        Some i \<Rightarrow> seq (create cd (sur_times w) (sur_uuid w) caller authority i) (\<lambda>s. give (outcome ''created'' s []))
      | None \<Rightarrow> (case cmd_inspect c of
        Some i \<Rightarrow> inspect_child (sur_looks w) (sur_later w) caller i
      | None \<Rightarrow> (case cmd_message c of
        Some i \<Rightarrow> message_command cd (sur_times w) caller i
      | None \<Rightarrow> (case cmd_relationship c of
        Some i \<Rightarrow> relationship cd (sur_times w) caller i
      | None \<Rightarrow> (case cmd_configure c of
        Some i \<Rightarrow> configure cd (sur_times w) caller authority i
      | None \<Rightarrow> (case cmd_lifecycle c of
        Some i \<Rightarrow> lifecycle cd (sur_times w) caller i
      | None \<Rightarrow> fail InvalidBranch))))))"

subsection \<open>Runs\<close>

text \<open>The first closure of \<open>run_child\<close>.\<close>

definition start_generation :: "times \<Rightarrow> string \<Rightarrow> child_snapshot \<Rightarrow> (child_run_request option) \<times> child_snapshot" where
  "start_generation t task s =
     (if cs_state s = Archived then (None, s)
      else let s = push_child_event (snd t) ''started'' ''child generation started''
            ((next_generation (fst t) (s\<lparr>cs_state := ChildRunning\<rparr>))\<lparr>cs_failure := None\<rparr>) in
        (Some \<lparr>rr_id = cs_id s, rr_name = cs_name s, rr_model = cs_model s, rr_permission_mode = cs_permission_mode s,
           rr_history = cs_history s, rr_prompt = task\<rparr>, s))"

definition drop_run :: "nat \<Rightarrow> manager \<Rightarrow> manager" where
  "drop_run k m = m\<lparr>mg_runs := take k (mg_runs m) @ drop (Suc k) (mg_runs m)\<rparr>"

definition set_run :: "nat \<Rightarrow> run_stage \<Rightarrow> manager \<Rightarrow> manager" where
  "set_run k stage m = m\<lparr>mg_runs := (mg_runs m)[k := (fst (mg_runs m ! k), stage)]\<rparr>"

definition begin_run :: "snapshot_codec \<Rightarrow> times \<Rightarrow> nat \<Rightarrow> manager \<Rightarrow> manager" where
  "begin_run cd t k m =
     (if length (mg_runs m) \<le> k then m
      else case mg_runs m ! k of
        (i, Executing _) \<Rightarrow> m
      | (i, Starting task) \<Rightarrow>
          (case map_of (mg_children m) i of
             None \<Rightarrow> m
           | Some c \<Rightarrow>
               (case start_generation t task (ch_snapshot c) of
                  (request, s) \<Rightarrow>
                    let m = set_child i \<lparr>ch_snapshot = s, ch_cancelled = False\<rparr> m in
                    (case request of
                       None \<Rightarrow> drop_run k m
                     | Some r \<Rightarrow> try_persist cd (set_run k (Executing r) m)))))"

text \<open>The second closure: how the result settles the child, and the next prompt.\<close>

definition settle :: "i64 \<Rightarrow> bool \<Rightarrow> child_run_error + child_run_result \<Rightarrow> child_snapshot \<Rightarrow> child_snapshot" where
  "settle event_ms cancelled result s =
     (case result of
        Inr r \<Rightarrow>
          if \<not> cancelled then
            push_child_event event_ms ''settled'' ''child generation completed''
              (s\<lparr>cs_history := bound_history (rs_history r), cs_last_output := Some (rs_output r), cs_failure := None,
                 cs_state := (if cs_mode s = Persistent then Idle else Completed)\<rparr>)
          else push_child_event event_ms ''cancelled'' ''child generation cancelled''
              (s\<lparr>cs_state := ChildCancelled, cs_failure := None\<rparr>)
      | Inl RunCancelled \<Rightarrow>
          push_child_event event_ms ''cancelled'' ''child generation cancelled'' (s\<lparr>cs_state := ChildCancelled, cs_failure := None\<rparr>)
      | Inl (RunFailed e) \<Rightarrow>
          push_child_event event_ms ''failed'' ''child generation failed''
            (s\<lparr>cs_state := ChildFailed, cs_failure := Some (truncate_owned e max_message_bytes)\<rparr>))"

definition next_prompt :: "child_snapshot \<Rightarrow> string option \<times> child_snapshot" where
  "next_prompt s =
     (if cs_mode s = Persistent \<and> cs_state s \<noteq> Archived then
        (case cs_queued_messages s of
           [] \<Rightarrow> (None, s)
         | q # qs \<Rightarrow> (Some q, s\<lparr>cs_queued_messages := qs, cs_state := Queued\<rparr>))
      else (None, s))"

definition finish_generation ::
  "times \<Rightarrow> bool \<Rightarrow> child_run_error + child_run_result \<Rightarrow> child_snapshot \<Rightarrow> string option \<times> child_snapshot" where
  "finish_generation t cancelled result s =
     (let s = next_generation (fst t) s in
      if cs_state s = Archived then (None, s) else next_prompt (settle (snd t) cancelled result s))"

definition finish_run ::
  "snapshot_codec \<Rightarrow> times \<Rightarrow> nat \<Rightarrow> child_run_error + child_run_result \<Rightarrow> manager \<Rightarrow> manager" where
  "finish_run cd t k result m =
     (if length (mg_runs m) \<le> k then m
      else case mg_runs m ! k of
        (i, Starting _) \<Rightarrow> m
      | (i, Executing _) \<Rightarrow>
          (case map_of (mg_children m) i of
             None \<Rightarrow> m
           | Some c \<Rightarrow>
               (case finish_generation t (ch_cancelled c) result (ch_snapshot c) of
                  (following, s) \<Rightarrow>
                    let m = set_child i (c\<lparr>ch_snapshot := s\<rparr>) m in
                    try_persist cd (case following of
                       None \<Rightarrow> drop_run k m | Some task \<Rightarrow> set_run k (Starting task) m))))"

definition note_activity :: "i64 \<Rightarrow> subagent_event \<Rightarrow> child_snapshot \<Rightarrow> child_snapshot" where
  "note_activity now e s0 =
     (let s = next_generation now s0;
          a = (case e of
             SubagentToolStarted i name \<Rightarrow>
               \<lparr>ta_generation = cs_generation s, ta_phase = ''started'', ta_tool = name, ta_call_id = i, ta_is_error = None\<rparr>
           | SubagentToolFinished i name err \<Rightarrow>
               \<lparr>ta_generation = cs_generation s, ta_phase = ''finished'', ta_tool = name, ta_call_id = i,
                ta_is_error = Some err\<rparr>) in
      s\<lparr>cs_tool_activity := retain_tail max_activity_items (cs_tool_activity s @ [a])\<rparr>)"

definition live_event :: "snapshot_codec \<Rightarrow> i64 \<Rightarrow> nat \<Rightarrow> subagent_event \<Rightarrow> manager \<Rightarrow> manager" where
  "live_event cd now k e m =
     (if length (mg_runs m) \<le> k then m
      else case mg_runs m ! k of
        (i, Starting _) \<Rightarrow> m
      | (i, Executing _) \<Rightarrow>
          (case map_of (mg_children m) i of
             None \<Rightarrow> m
           | Some c \<Rightarrow> try_persist cd (set_child i (c\<lparr>ch_snapshot := note_activity now e (ch_snapshot c)\<rparr>) m)))"

subsection \<open>The tool\<close>

definition member :: "string \<Rightarrow> json \<Rightarrow> json option" where
  "member k v = (case v of JObject fs \<Rightarrow> map_of fs k | _ \<Rightarrow> None)"

text \<open>\<open>arguments.pointer("/command/inspect").is_some_and(is_object)\<close>.\<close>

definition subagent_effect :: "json \<Rightarrow> tool_effect" where
  "subagent_effect arguments =
     (case Option.bind (member ''command'' arguments) (member ''inspect'') of
        Some v \<Rightarrow> if is_object v then Read else Delegation
      | None \<Rightarrow> Delegation)"

text \<open>The derived decoder of the arguments and the JSON printer are parameters.\<close>

definition subagent_execute ::
  "(json \<Rightarrow> string + command_input) \<Rightarrow> (json \<Rightarrow> string) \<Rightarrow> snapshot_codec \<Rightarrow> surroundings \<Rightarrow> string \<Rightarrow>
     permission_mode \<Rightarrow> json \<Rightarrow> manager \<Rightarrow> (tool_error + tool_output) \<times> manager" where
  "subagent_execute decode print_json cd w caller authority arguments m =
     (case decode arguments of
        Inl e \<Rightarrow> (Inl (InvalidArguments e), m)
      | Inr c \<Rightarrow>
          (case execute_command cd w caller authority c m of
             (Inl e, m) \<Rightarrow> (Inl (Execution (show_manager_error e)), m)
           | (Inr v, m) \<Rightarrow>
               (Inr \<lparr>out_content = print_json v, is_error = False, structured = Some v,
                  original_bytes = length (print_json v), truncated = False, durable_content = None\<rparr>, m)))"

end
