(* ===== verification/Subagent_Tree.thy ===== *)
theory Subagent_Tree
  imports Subagent
begin

section \<open>The tree of child agents\<close>

text \<open>
  The parent relation of the children of a manager (\<open>fx-subagent/src/lib.rs\<close>): the two bounded walks of the
  code decide exactly whether one child is below another, as long as the relation has no cycle, and every
  step of the manager keeps it so, together with the bounds on what a child keeps and on what it may do.
\<close>

subsection \<open>The map of children\<close>

lemma keys_map_change [simp]: "map fst (map_change k v xs) = map fst xs"
  by (induction k v xs rule: map_change.induct) auto

lemma map_of_map_change: "map_of (map_change k v xs) = (if k \<in> fst ` set xs then (map_of xs)(k \<mapsto> v) else map_of xs)"
  by (induction k v xs rule: map_change.induct) (auto simp: fun_upd_twist)

lemma map_change_set: "set (map_change k v xs) \<subseteq> insert (k, v) (set xs)"
  by (induction k v xs rule: map_change.induct) auto

subsection \<open>Ancestors\<close>

definition parent_rel :: "(string \<times> child) list \<Rightarrow> (string \<times> string) set" where
  "parent_rel cs = {(i, p). parent_of cs i = Some p}"

lemma parent_rel_iff: "(i, p) \<in> parent_rel cs \<longleftrightarrow> parent_of cs i = Some p"
  by (simp add: parent_rel_def)

lemma parent_in_keys: "parent_of cs i = Some p \<Longrightarrow> i \<in> fst ` set cs"
  by (auto simp: parent_of_def intro: rev_image_eqI dest!: map_of_SomeD split: option.splits)

lemma above_step:
  assumes "parent_of cs i = Some p"
  shows "(i, j) \<in> (parent_rel cs)\<^sup>* \<longleftrightarrow> i = j \<or> (p, j) \<in> (parent_rel cs)\<^sup>*"
  using assms by (auto simp: parent_rel_iff elim: converse_rtranclE intro: converse_rtrancl_into_rtrancl)

lemma above_top: "parent_of cs i = None \<Longrightarrow> (i, j) \<in> (parent_rel cs)\<^sup>* \<longleftrightarrow> i = j"
  by (auto simp: parent_rel_iff elim: converse_rtranclE)

text \<open>The children on the way up from a name.\<close>

definition way_up :: "(string \<times> child) list \<Rightarrow> string \<Rightarrow> string set" where
  "way_up cs i = {j \<in> fst ` set cs. (i, j) \<in> (parent_rel cs)\<^sup>*}"

lemma way_up_finite [simp]: "finite (way_up cs i)"
  by (simp add: way_up_def)

lemma way_up_card: "card (way_up cs i) \<le> length cs"
proof -
  have "card (way_up cs i) \<le> card (fst ` set cs)" by (rule card_mono) (auto simp: way_up_def)
  also have "\<dots> \<le> length cs" by (metis card_length length_map set_map)
  finally show ?thesis .
qed

lemma way_up_parent:
  assumes "acyclic (parent_rel cs)" and "parent_of cs i = Some p"
  shows "card (way_up cs p) < card (way_up cs i)"
proof (rule psubset_card_mono)
  have "way_up cs p \<subseteq> way_up cs i" using above_step [OF assms(2)] by (auto simp: way_up_def)
  moreover have "i \<in> way_up cs i" using parent_in_keys [OF assms(2)] by (simp add: way_up_def)
  moreover have "i \<notin> way_up cs p"
  proof
    assume "i \<in> way_up cs p"
    then have "(p, i) \<in> (parent_rel cs)\<^sup>*" by (simp add: way_up_def)
    moreover have "(i, p) \<in> parent_rel cs" using assms(2) by (simp add: parent_rel_iff)
    ultimately have "(i, i) \<in> (parent_rel cs)\<^sup>+" by (rule rtrancl_into_trancl2 [rotated])
    with assms(1) show False by (simp add: acyclic_def)
  qed
  ultimately show "way_up cs p \<subset> way_up cs i" by blast
qed simp

lemma cycle_walk_iff:
  "acyclic (parent_rel cs) \<Longrightarrow> card (way_up cs j) < n \<Longrightarrow> cycle_walk cs i n j \<longleftrightarrow> (j, i) \<in> (parent_rel cs)\<^sup>*"
proof (induction n arbitrary: j)
  case (Suc n)
  show ?case
  proof (cases "parent_of cs j")
    case None
    then show ?thesis using above_top [OF None, of i] by auto
  next
    case (Some p)
    with Suc.prems way_up_parent [OF Suc.prems(1) Some] have "card (way_up cs p) < n" by linarith
    with Suc.IH [OF Suc.prems(1)] Some above_step [OF Some, of i] show ?thesis by auto
  qed
qed simp

lemma authorized_walk_iff:
  "acyclic (parent_rel cs) \<Longrightarrow> card (way_up cs i) \<le> n \<Longrightarrow>
     authorized_walk cs caller n i \<longleftrightarrow> 0 < n \<and> (i, caller) \<in> (parent_rel cs)\<^sup>*"
proof (induction n arbitrary: i)
  case (Suc n)
  show ?case
  proof (cases "parent_of cs i")
    case None
    then show ?thesis using above_top [OF None, of caller] by auto
  next
    case (Some p)
    with Suc.prems way_up_parent [OF Suc.prems(1) Some] have le: "card (way_up cs p) \<le> n" by linarith
    have "n = 0 \<Longrightarrow> parent_of cs p = None"
      using le parent_in_keys [of cs p] by (cases "parent_of cs p") (auto simp: way_up_def)
    with Suc.IH [OF Suc.prems(1) le] Some above_step [OF Some, of caller] above_top [of cs p caller]
    show ?thesis by (cases "n = 0") auto
  qed
qed simp

subsection \<open>The invariant\<close>

text \<open>A child keeps at most so much, and may do at most what rank \<open>b\<close> may.\<close>

definition bounded :: "child_snapshot \<Rightarrow> bool" where
  "bounded s \<longleftrightarrow> length (cs_events s) \<le> max_event_items \<and> length (cs_tool_activity s) \<le> max_activity_items
     \<and> length (cs_history s) \<le> max_history_messages
     \<and> (case cs_failure s of None \<Rightarrow> True | Some f \<Rightarrow> length f \<le> max_message_bytes)"

definition child_ok :: "nat \<Rightarrow> string \<Rightarrow> child_snapshot \<Rightarrow> bool" where
  "child_ok b i s \<longleftrightarrow> cs_id s = i \<and> permission_rank (cs_permission_mode s) \<le> b \<and> bounded s"

definition sane :: "nat \<Rightarrow> manager \<Rightarrow> bool" where
  "sane b m \<longleftrightarrow> mg_root_id m \<notin> fst ` set (mg_children m) \<and> sorted_wrt (<) (map fst (mg_children m))
     \<and> (\<forall>(i, c) \<in> set (mg_children m). child_ok b i (ch_snapshot c))
     \<and> (\<forall>i p. parent_of (mg_children m) i = Some p \<longrightarrow> p = mg_root_id m \<or> p \<in> fst ` set (mg_children m))
     \<and> acyclic (parent_rel (mg_children m))"

lemma sane_distinct: "sane b m \<Longrightarrow> distinct (map fst (mg_children m))"
  by (simp add: sane_def strict_sorted_iff)

lemma sane_child: "sane b m \<Longrightarrow> map_of (mg_children m) i = Some c \<Longrightarrow> child_ok b i (ch_snapshot c)"
  by (auto simp: sane_def dest: map_of_SomeD)

text \<open>A new version of a child that was there.\<close>

lemma parent_of_change:
  "i \<in> fst ` set cs \<Longrightarrow> parent_of (map_change i c cs) j = (if j = i then cs_parent_id (ch_snapshot c) else parent_of cs j)"
  by (simp add: parent_of_def map_of_map_change)

lemma sane_change:
  assumes m: "sane b m" and i: "i \<in> fst ` set (mg_children m)" and c: "child_ok b i (ch_snapshot c)"
    and p: "cs_parent_id (ch_snapshot c) = parent_of (mg_children m) i
      \<or> cs_parent_id (ch_snapshot c) = None \<or> cs_parent_id (ch_snapshot c) = Some (mg_root_id m)
      \<or> (\<exists>p. cs_parent_id (ch_snapshot c) = Some p \<and> p \<in> fst ` set (mg_children m) \<and> (p, i) \<notin> (parent_rel (mg_children m))\<^sup>*)"
  shows "sane b (set_child i c m)"
proof -
  let ?cs = "mg_children m" and ?new = "map_change i c (mg_children m)"
  have keys: "fst ` set ?new = fst ` set ?cs" by (metis keys_map_change set_map)
  have po: "parent_of ?new j = (if j = i then cs_parent_id (ch_snapshot c) else parent_of ?cs j)" for j
    using parent_of_change [OF i] .
  have ok: "child_ok b j (ch_snapshot d)" if "(j, d) \<in> set ?new" for j d
    using that m c map_change_set [of i c ?cs] by (auto simp: sane_def)
  have closed: "parent_of ?new j = Some q \<Longrightarrow> q = mg_root_id m \<or> q \<in> fst ` set ?cs" for j q
    using m p by (auto simp: po sane_def split: if_splits) metis+
  have root: "parent_of ?cs (mg_root_id m) = None"
    using m parent_in_keys [of ?cs "mg_root_id m"] by (cases "parent_of ?cs (mg_root_id m)") (auto simp: sane_def)
  let ?rest = "{(j, q). j \<noteq> i \<and> parent_of ?cs j = Some q}"
  have sub: "?rest \<subseteq> parent_rel ?cs" by (auto simp: parent_rel_iff)
  have rel: "parent_rel ?new = (case cs_parent_id (ch_snapshot c) of None \<Rightarrow> ?rest | Some q \<Rightarrow> insert (i, q) ?rest)"
    by (auto simp: parent_rel_def po split: option.splits if_splits)
  have acyc: "acyclic ?rest" using m acyclic_subset [OF _ sub] by (simp add: sane_def)
  have "acyclic (parent_rel ?new)"
  proof (cases "cs_parent_id (ch_snapshot c)")
    case None
    with rel acyc show ?thesis by simp
  next
    case (Some q)
    have "(q, i) \<notin> ?rest\<^sup>*"
    proof
      assume "(q, i) \<in> ?rest\<^sup>*"
      then have qi: "(q, i) \<in> (parent_rel ?cs)\<^sup>*" using rtrancl_mono [OF sub] by blast
      from p Some consider "parent_of ?cs i = Some q" | "q = mg_root_id m" | "(q, i) \<notin> (parent_rel ?cs)\<^sup>*" by auto
      then show False
      proof cases
        case 1
        then have "(i, q) \<in> parent_rel ?cs" by (simp add: parent_rel_iff)
        then have "(i, i) \<in> (parent_rel ?cs)\<^sup>+" using qi by (rule rtrancl_into_trancl2)
        with m show False by (auto simp: sane_def acyclic_def)
      next
        case 2
        with above_top [OF root, of i] qi i m show False by (auto simp: sane_def)
      next
        case 3
        with qi show False by simp
      qed
    qed
    with acyc rel Some show ?thesis by (simp add: acyclic_insert)
  qed
  with m keys ok closed show ?thesis
    unfolding sane_def set_child_def by (auto simp: keys simp del: map_of_map_change)
qed

lemma sane_insert:
  assumes m: "sane b m" and fresh: "i \<notin> fst ` set (mg_children m)" "i \<noteq> mg_root_id m"
    and c: "child_ok b i (ch_snapshot c)" "cs_parent_id (ch_snapshot c) = Some q"
    and q: "q = mg_root_id m \<or> q \<in> fst ` set (mg_children m)"
  shows "sane b (m\<lparr>mg_children := map_insert i c (mg_children m)\<rparr>)"
proof -
  let ?cs = "mg_children m" and ?new = "map_insert i c (mg_children m)"
  have po: "parent_of ?new j = (if j = i then Some q else parent_of ?cs j)" for j
    using c(2) by (simp add: parent_of_def map_of_map_insert)
  have none: "parent_of ?cs i = None" using fresh(1) parent_in_keys [of ?cs i] by (cases "parent_of ?cs i") auto
  then have rel: "parent_rel ?new = insert (i, q) (parent_rel ?cs)"
    by (auto simp: parent_rel_def po split: if_splits)
  have "(q, i) \<notin> (parent_rel ?cs)\<^sup>*"
  proof
    assume "(q, i) \<in> (parent_rel ?cs)\<^sup>*"
    then show False
    proof (cases rule: rtranclE)
      case base
      with q fresh show False by simp
    next
      case (step y)
      then have "i = mg_root_id m \<or> i \<in> fst ` set ?cs" using m by (auto simp: parent_rel_iff sane_def)
      with fresh show False by simp
    qed
  qed
  with m rel have "acyclic (parent_rel ?new)" by (simp add: acyclic_insert sane_def)
  moreover have "sorted_wrt (<) (map fst ?new)" using m by (intro map_insert_sorted) (simp add: sane_def)
  moreover have "\<forall>(j, d) \<in> set ?new. child_ok b j (ch_snapshot d)"
    using m c(1) map_insert_fresh_set [OF fresh(1), of c] by (auto simp: sane_def)
  ultimately show ?thesis
    using m fresh q by (auto simp: sane_def keys_map_insert po split: if_splits)
qed

end
