(* ===== verification/Subagent_Steps.thy ===== *)
theory Subagent_Steps
  imports Subagent_Tree
begin

section \<open>The steps of the manager of child agents\<close>

text \<open>
  Commands and the steps of runs (\<open>fx-subagent/src/lib.rs\<close>) as a step relation, and the invariant of
  Subagent_Tree through each of them.
\<close>

subsection \<open>Actions that keep the manager sane\<close>

definition safe :: "nat \<Rightarrow> 'a manager_action \<Rightarrow> bool" where
  "safe b act \<longleftrightarrow> (\<forall>m. sane b m \<longrightarrow> sane b (snd (act m)))"

lemma safe_same: "(\<And>m. mg_children (snd (act m)) = mg_children m \<and> mg_root_id (snd (act m)) = mg_root_id m) \<Longrightarrow> safe b act"
  by (simp add: safe_def sane_def)

lemma persist_same [simp]:
  "mg_children (snd (persist cd m)) = mg_children m" "mg_root_id (snd (persist cd m)) = mg_root_id m"
  "mg_runs (snd (persist cd m)) = mg_runs m"
  by (auto simp: persist_def split: option.splits prod.splits)

lemma safe_basic:
  "safe b (give a)" "safe b (fail e)" "safe b (lift r)" "safe b (persist cd)" "safe b (spawn_if i p)"
  "safe b (authorized_child caller i)" "safe b (\<lambda>m. (f m, m))"
  by (auto intro!: safe_same simp: action_simps spawn_if_def spawn_run_def authorized_child_def split: option.splits)

lemma safe_seq:
  assumes "safe b p" and "\<And>a. safe b (f a)"
  shows "safe b (seq p f)"
  unfolding safe_def
proof (intro allI impI)
  fix m
  assume m: "sane b m"
  obtain r m' where s: "seq p f m = (r, m')" by fastforce
  then show "sane b (snd (seq p f m))"
  proof (cases rule: seq_cases)
    case (failed e)
    with s m assms(1) show ?thesis unfolding safe_def by (metis snd_conv)
  next
    case (went_on a m1)
    with s m assms show ?thesis unfolding safe_def by (metis snd_conv)
  qed
qed

text \<open>What a closure may do to a child.\<close>

definition tame_closure :: "nat \<Rightarrow> (child \<Rightarrow> (manager_error + 'a) \<times> child) \<Rightarrow> bool" where
  "tame_closure b f \<longleftrightarrow> (\<forall>c i. child_ok b i (ch_snapshot c) \<longrightarrow>
     child_ok b i (ch_snapshot (snd (f c))) \<and> cs_parent_id (ch_snapshot (snd (f c))) = cs_parent_id (ch_snapshot c))"

lemma safe_mutate:
  assumes "tame_closure b f"
  shows "safe b (mutate_child i f)"
  unfolding safe_def
proof (intro allI impI)
  fix m
  assume m: "sane b m"
  show "sane b (snd (mutate_child i f m))"
  proof (cases "map_of (mg_children m) i")
    case None
    with m show ?thesis by (simp add: mutate_child_def)
  next
    case (Some c)
    obtain r c' where f: "f c = (r, c')" by fastforce
    from assms sane_child [OF m Some] f have "child_ok b i (ch_snapshot c')"
      and "cs_parent_id (ch_snapshot c') = parent_of (mg_children m) i"
      unfolding tame_closure_def by (auto simp: parent_of_def Some dest!: spec [of _ c])
    moreover have "i \<in> fst ` set (mg_children m)" using Some by (force dest: map_of_SomeD)
    ultimately have "sane b (set_child i c' m)" by (intro sane_change [OF m]) simp_all
    with Some f show ?thesis by (simp add: mutate_child_def)
  qed
qed

subsection \<open>What the closures do\<close>

lemma retain_tail_length [simp]: "length (retain_tail n xs) \<le> n"
  by (simp add: retain_tail_def)

lemma push_child_event_ok [simp]:
  "child_ok b i (push_child_event e k d s) \<longleftrightarrow> cs_id s = i \<and> permission_rank (cs_permission_mode s) \<le> b
     \<and> length (cs_tool_activity s) \<le> max_activity_items \<and> length (cs_history s) \<le> max_history_messages
     \<and> (case cs_failure s of None \<Rightarrow> True | Some f \<Rightarrow> length f \<le> max_message_bytes)"
  "cs_parent_id (push_child_event e k d s) = cs_parent_id s"
  by (auto simp: child_ok_def bounded_def push_child_event_def)

lemma next_generation_simps [simp]:
  "cs_id (next_generation now s) = cs_id s" "cs_parent_id (next_generation now s) = cs_parent_id s"
  "cs_state (next_generation now s) = cs_state s" "cs_mode (next_generation now s) = cs_mode s"
  "cs_permission_mode (next_generation now s) = cs_permission_mode s"
  "cs_history (next_generation now s) = cs_history s" "cs_failure (next_generation now s) = cs_failure s"
  "cs_tool_activity (next_generation now s) = cs_tool_activity s" "cs_events (next_generation now s) = cs_events s"
  "cs_queued_messages (next_generation now s) = cs_queued_messages s" "cs_name (next_generation now s) = cs_name s"
  "cs_model (next_generation now s) = cs_model s" "cs_last_output (next_generation now s) = cs_last_output s"
  "cs_generation (next_generation now s) = saturating_add_u64 (cs_generation s) 1"
  by (simp_all add: next_generation_def)

lemma child_ok_generation [simp]: "child_ok b i (next_generation now s) = child_ok b i s"
  by (simp add: child_ok_def bounded_def)

lemma tame_milestone: "tame_closure b (on_snapshot (\<lambda>s. push_child_event e k d (next_generation now s)))"
  by (simp add: tame_closure_def on_snapshot_def) (simp add: child_ok_def bounded_def)

lemma tame_queue: "tame_closure b (queue_message t text)"
  by (auto simp: tame_closure_def queue_message_def Let_def) (auto simp: child_ok_def bounded_def)

lemma tame_lifecycle: "tame_closure b (lifecycle_child t a)"
  by (cases a) (auto simp: tame_closure_def lifecycle_child_def Let_def child_ok_def bounded_def push_child_event_def)

text \<open>The steps of a configuration, on the snapshot.\<close>

definition stays :: "nat \<Rightarrow> (child_snapshot \<Rightarrow> (manager_error + 'a) \<times> child_snapshot) \<Rightarrow> bool" where
  "stays b f \<longleftrightarrow> (\<forall>j s. child_ok b j s \<longrightarrow> child_ok b j (snd (f s)) \<and> cs_parent_id (snd (f s)) = cs_parent_id s)"

lemma stays_seq:
  assumes "stays b f" and "\<And>a. stays b (g a)"
  shows "stays b (seq f g)"
  unfolding stays_def
proof (intro allI impI)
  fix j s
  assume ok: "child_ok b j s"
  obtain r s1 where f: "f s = (r, s1)" by fastforce
  have 1: "child_ok b j s1 \<and> cs_parent_id s1 = cs_parent_id s"
    using assms(1) ok f unfolding stays_def by (metis snd_conv)
  then have "\<forall>a. child_ok b j (snd (g a s1)) \<and> cs_parent_id (snd (g a s1)) = cs_parent_id s"
    using assms(2) unfolding stays_def by metis
  with 1 f show "child_ok b j (snd (seq f g s)) \<and> cs_parent_id (snd (seq f g s)) = cs_parent_id s"
    by (cases r) (simp_all add: seq_def)
qed

lemma tame_configure:
  assumes "permission_rank authority \<le> b"
  shows "tame_closure b (in_snapshot (configure_snapshot t authority i))"
proof -
  have parts: "stays b (set_name n)" "stays b (set_model l)" for n l
    by (auto simp: stays_def set_name_def set_model_def child_ok_def bounded_def split: option.splits sum.splits)
  have perm: "stays b (set_permission authority p)" for p
    using assms by (auto simp: stays_def set_permission_def within_authority_def child_ok_def bounded_def
        split: option.splits sum.splits)
  have last: "stays b (\<lambda>s. let s = push_child_event e k d (next_generation now s) in (Inr s, s))" for e k d now
    by (simp add: stays_def Let_def) (simp add: child_ok_def bounded_def)
  have guarded: "stays b f \<Longrightarrow> stays b (\<lambda>s. if x s then (Inl (e s), s) else f s)"
    for f :: "child_snapshot \<Rightarrow> (manager_error + child_snapshot) \<times> child_snapshot" and x e
    by (simp add: stays_def)
  have "stays b (configure_snapshot t authority i)"
    unfolding configure_snapshot_def by (rule guarded) (intro stays_seq parts perm last)
  then show ?thesis
    by (simp add: tame_closure_def in_snapshot_def stays_def case_prod_unfold)
qed

subsection \<open>The commands\<close>

lemma safe_if: "safe b p \<Longrightarrow> safe b q \<Longrightarrow> safe b (if x then p else q)"
  and safe_option: "safe b n \<Longrightarrow> (\<And>a. safe b (g a)) \<Longrightarrow> safe b (case y of None \<Rightarrow> n | Some a \<Rightarrow> g a)"
  and safe_prod: "(\<And>a c. safe b (h a c)) \<Longrightarrow> safe b (case z of (a, c) \<Rightarrow> h a c)"
  by (simp_all split: option.splits prod.splits)

lemmas safe_rules = safe_basic safe_if safe_option safe_prod safe_seq

lemma safe_inspect: "safe b (inspect_child looks later caller i)"
  unfolding inspect_child_def by (rule safe_rules)+

lemma safe_message: "safe b (message_command cd t caller i)"
proof -
  have "safe b (milestone cd t caller name)" for name
    unfolding milestone_def by (rule safe_mutate tame_milestone safe_rules)+
  moreover have "safe b (send_message cd t caller s)" for s
    unfolding send_message_def by (rule safe_mutate tame_queue safe_rules)+
  ultimately show ?thesis by (auto simp: message_command_def safe_basic split: option.splits)
qed

lemma safe_configure: "permission_rank authority \<le> b \<Longrightarrow> safe b (configure cd t caller authority i)"
  unfolding configure_def by (rule safe_mutate tame_configure safe_rules | assumption)+

lemma safe_lifecycle: "safe b (lifecycle cd t caller i)"
  unfolding lifecycle_def by (rule safe_mutate tame_lifecycle safe_rules)+

lemma sane_relationship:
  assumes m: "sane b m"
  shows "sane b (snd (relationship cd t caller i m))"
proof (cases "fst (authorized_child caller (ri_id i) m)")
  case (Inl e)
  with m show ?thesis
    by (cases "authorized_child caller (ri_id i) m") (auto simp: relationship_def seq_def authorized_child_def split: if_splits)
next
  case (Inr c)
  then have a: "authorized_child caller (ri_id i) m = (Inr c, m)" and c: "map_of (mg_children m) (ri_id i) = Some c"
    by (auto simp: authorized_child_def split: if_splits option.splits)
  have key: "ri_id i \<in> fst ` set (mg_children m)" using c by (force dest: map_of_SomeD)
  show ?thesis
  proof (cases "caller = mg_root_id m \<and> (\<exists>p. fst (next_parent caller i m) = Inr p)")
    case False
    with m a show ?thesis
      by (cases "fst (next_parent caller i m)") (auto simp: relationship_def seq_def next_parent_def)
  next
    case True
    then obtain p where p: "next_parent caller i m = (Inr p, m)" by (auto simp: next_parent_def)
    have fuel: "card (way_up (mg_children m) j) < Suc (length (mg_children m))" for j
      using way_up_card [of "mg_children m" j] by simp
    have "p = None \<or> p = Some (mg_root_id m)
        \<or> (\<exists>q. p = Some q \<and> q \<in> fst ` set (mg_children m) \<and> (q, ri_id i) \<notin> (parent_rel (mg_children m))\<^sup>*)"
    proof (cases "ri_action i")
      case Reparent
      with p obtain q where q: "p = Some q" "is_authorized m caller q" "\<not> relationship_would_cycle m (ri_id i) q"
        by (auto simp: next_parent_def and_then_Inr_iff split: if_splits)
      then have "q \<in> fst ` set (mg_children m)" using True by (simp add: is_authorized_def)
      moreover have "(q, ri_id i) \<notin> (parent_rel (mg_children m))\<^sup>*"
        using q(3) m cycle_walk_iff [OF _ fuel, of "ri_id i" q]
        unfolding relationship_would_cycle_def sane_def by blast
      ultimately show ?thesis using q(1) by blast
    qed (use p in \<open>auto simp: next_parent_def\<close>)
    moreover obtain s where s: "s = push_child_event (snd t) ''relationship_changed'' ''parent relationship changed''
           (next_generation (fst t) ((ch_snapshot c)\<lparr>cs_parent_id := p\<rparr>))" by simp
    moreover have "child_ok b (ri_id i) s" using sane_child [OF m c] by (auto simp: s child_ok_def bounded_def push_child_event_def)
    ultimately have new: "sane b (set_child (ri_id i) (c\<lparr>ch_snapshot := s\<rparr>) m)"
      by (intro sane_change [OF m key]) (auto simp: s)
    have "snd (relationship cd t caller i m) = snd (persist cd (set_child (ri_id i) (c\<lparr>ch_snapshot := s\<rparr>) m))"
      using True a p c by (simp add: relationship_def seq_def mutate_child_def on_snapshot_def action_simps s
          split: prod.splits sum.splits)
    with new show ?thesis by (simp add: sane_def)
  qed
qed

lemma sane_create:
  assumes m: "sane b m" and authority: "permission_rank authority \<le> b"
    and fresh: "''child-'' @ uuid \<notin> insert (mg_root_id m) (fst ` set (mg_children m))"
    and caller: "caller = mg_root_id m \<or> caller \<in> fst ` set (mg_children m)"
  shows "sane b (snd (create cd t uuid caller authority i m))"
proof (cases "check_create authority i")
  case (Inl e)
  with m show ?thesis by (simp add: create_def seq_def action_simps)
next
  case (Inr granted)
  let ?i = "''child-'' @ uuid" and ?s = "created_snapshot t (''child-'' @ uuid) caller granted i"
  have "permission_rank granted \<le> b"
    using Inr authority by (auto simp: check_create_def within_authority_def and_then_Inr_iff Let_def split: option.splits)
  then have "child_ok b ?i ?s" by (simp add: created_snapshot_def max_activity_items_def)
  moreover have "cs_parent_id ?s = Some caller" by (simp add: created_snapshot_def)
  ultimately have new: "sane b (m\<lparr>mg_children := map_insert ?i (new_child ?s) (mg_children m)\<rparr>)"
    using fresh caller by (intro sane_insert [OF m]) (auto simp: new_child_def)
  have "safe b (seq (persist cd) (\<lambda>_. seq (spawn_if ?i (ci_prompt i)) (\<lambda>_. give ?s)))"
    by (rule safe_rules)+
  with new have "sane b (snd (seq (persist cd) (\<lambda>_. seq (spawn_if ?i (ci_prompt i)) (\<lambda>_. give ?s))
      (m\<lparr>mg_children := map_insert ?i (new_child ?s) (mg_children m)\<rparr>)))"
    unfolding safe_def by blast
  moreover have "snd (create cd t uuid caller authority i m) = snd (seq (persist cd) (\<lambda>_. seq (spawn_if ?i (ci_prompt i)) (\<lambda>_. give ?s))
      (m\<lparr>mg_children := map_insert ?i (new_child ?s) (mg_children m)\<rparr>))"
    using Inr by (simp add: create_def Let_def action_simps seq_def [of "lift _"] seq_def [of "\<lambda>m. (Inr (), _ m)"])
  ultimately show ?thesis by simp
qed

subsection \<open>Runs\<close>

lemma sane_same: "mg_children m' = mg_children m \<Longrightarrow> mg_root_id m' = mg_root_id m \<Longrightarrow> sane b m' = sane b m"
  by (simp add: sane_def)

lemma run_updates [simp]:
  "mg_children (drop_run k m) = mg_children m" "mg_root_id (drop_run k m) = mg_root_id m"
  "mg_children (set_run k g m) = mg_children m" "mg_root_id (set_run k g m) = mg_root_id m"
  "mg_children (try_persist cd m) = mg_children m" "mg_root_id (try_persist cd m) = mg_root_id m"
  "mg_runs (try_persist cd m) = mg_runs m"
  by (simp_all add: drop_run_def set_run_def try_persist_def)

lemma utf8_backward_boundary_length: "length (take (utf8_backward_boundary v n) v) \<le> n"
  using utf8_backward_boundary_le [of v n] by (simp add: min.coboundedI2)

lemma truncate_owned_length: "length (truncate_owned v n) \<le> n"
  using utf8_backward_boundary_length [of v n] by (auto simp: truncate_owned_def)

lemma bound_history_length: "length (bound_history h) \<le> max_history_messages"
  by (cases h) (auto simp: bound_history_def Let_def max_history_messages_def)

lemma settle_ok:
  assumes "child_ok b i s"
  shows "child_ok b i (settle e cancelled result s)" "cs_parent_id (settle e cancelled result s) = cs_parent_id s"
  using assms bound_history_length truncate_owned_length
  by (auto simp: settle_def child_ok_def bounded_def push_child_event_def split: sum.splits child_run_error.splits)

lemma next_prompt_ok:
  assumes "next_prompt s = (p, s')"
  shows "child_ok b i s' = child_ok b i s" "cs_parent_id s' = cs_parent_id s"
  using assms by (auto simp: next_prompt_def child_ok_def bounded_def split: if_splits list.splits)

lemma finish_generation_ok:
  assumes "finish_generation t cancelled result s = (p, s')" and "child_ok b i s"
  shows "child_ok b i s' \<and> cs_parent_id s' = cs_parent_id s"
  using assms settle_ok [of b i "next_generation (fst t) s"] next_prompt_ok
  by (auto simp: finish_generation_def Let_def split: if_splits)

lemma start_generation_ok:
  assumes "start_generation t task s = (r, s')" and "child_ok b i s"
  shows "child_ok b i s' \<and> cs_parent_id s' = cs_parent_id s"
  using assms by (auto simp: start_generation_def Let_def child_ok_def bounded_def push_child_event_def split: if_splits)

lemma note_activity_ok:
  assumes "child_ok b i s"
  shows "child_ok b i (note_activity now e s) \<and> cs_parent_id (note_activity now e s) = cs_parent_id s"
  using assms by (simp add: note_activity_def Let_def child_ok_def bounded_def)

lemma sane_new_version:
  assumes m: "sane b m" and c: "map_of (mg_children m) i = Some c"
    and "child_ok b i (ch_snapshot c')" and "cs_parent_id (ch_snapshot c') = cs_parent_id (ch_snapshot c)"
  shows "sane b (set_child i c' m)"
proof -
  have "i \<in> fst ` set (mg_children m)" using c by (force dest: map_of_SomeD)
  with assms show ?thesis by (intro sane_change [OF m]) (simp_all add: parent_of_def)
qed

lemma sane_begin_run: "sane b m \<Longrightarrow> sane b (begin_run cd t k m)"
proof -
  assume m: "sane b m"
  have "sane b (set_child i \<lparr>ch_snapshot = s, ch_cancelled = False\<rparr> m)"
    if "map_of (mg_children m) i = Some c" "start_generation t task (ch_snapshot c) = (r, s)" for i c task r s
    using start_generation_ok [OF that(2) sane_child [OF m that(1)]] by (intro sane_new_version [OF m that(1)]) simp_all
  with m show ?thesis
    by (auto simp: begin_run_def Let_def sane_same [OF run_updates(1,2)] sane_same [OF run_updates(3,4)]
        sane_same [OF run_updates(5,6)] split: prod.splits run_stage.splits option.splits)
qed

lemma sane_finish_run: "sane b m \<Longrightarrow> sane b (finish_run cd t k result m)"
proof -
  assume m: "sane b m"
  have "sane b (set_child i (c\<lparr>ch_snapshot := s\<rparr>) m)"
    if "map_of (mg_children m) i = Some c" "finish_generation t x result (ch_snapshot c) = (p, s)" for i c x p s
    using finish_generation_ok [OF that(2) sane_child [OF m that(1)]] by (intro sane_new_version [OF m that(1)]) simp_all
  with m show ?thesis
    by (auto simp: finish_run_def Let_def sane_same [OF run_updates(1,2)] sane_same [OF run_updates(3,4)]
        sane_same [OF run_updates(5,6)] split: prod.splits run_stage.splits option.splits)
qed

lemma sane_live_event: "sane b m \<Longrightarrow> sane b (live_event cd now k e m)"
proof -
  assume m: "sane b m"
  have "sane b (set_child i (c\<lparr>ch_snapshot := note_activity now e (ch_snapshot c)\<rparr>) m)"
    if "map_of (mg_children m) i = Some c" for i c
    using note_activity_ok [OF sane_child [OF m that]] by (intro sane_new_version [OF m that]) simp_all
  with m show ?thesis
    by (auto simp: live_event_def sane_same [OF run_updates(5,6)] split: prod.splits run_stage.splits option.splits)
qed

subsection \<open>Histories\<close>

text \<open>
  A command comes from the root or from a child, with an authority of at most rank \<open>b\<close>; the identifier it
  may need is new.
\<close>

inductive manager_step :: "snapshot_codec \<Rightarrow> nat \<Rightarrow> manager \<Rightarrow> manager \<Rightarrow> bool" for cd b where
  commanded: "permission_rank authority \<le> b \<Longrightarrow> caller \<in> insert (mg_root_id m) (fst ` set (mg_children m)) \<Longrightarrow>
    ''child-'' @ sur_uuid w \<notin> insert (mg_root_id m) (fst ` set (mg_children m)) \<Longrightarrow>
    execute_command cd w caller authority c m = (r, m') \<Longrightarrow> manager_step cd b m m'"
| began: "manager_step cd b m (begin_run cd t k m)"
| finished: "manager_step cd b m (finish_run cd t k result m)"
| reported: "manager_step cd b m (live_event cd now k e m)"

inductive_cases manager_stepE: "manager_step cd b m m'"

inductive manager_steps :: "snapshot_codec \<Rightarrow> nat \<Rightarrow> manager \<Rightarrow> manager \<Rightarrow> bool" for cd b m where
  stay: "manager_steps cd b m m"
| then_step: "manager_steps cd b m m' \<Longrightarrow> manager_step cd b m' m'' \<Longrightarrow> manager_steps cd b m m''"

lemma sane_command:
  assumes m: "sane b m" and authority: "permission_rank authority \<le> b"
    and caller: "caller \<in> insert (mg_root_id m) (fst ` set (mg_children m))"
    and fresh: "''child-'' @ sur_uuid w \<notin> insert (mg_root_id m) (fst ` set (mg_children m))"
  shows "sane b (snd (execute_command cd w caller authority c m))"
proof -
  have ok: "sane b (snd (act m))" if "safe b act" for act :: "json manager_action"
    using that m by (simp add: safe_def)
  have cr: "sane b (snd (seq (create cd (sur_times w) (sur_uuid w) caller authority i) (\<lambda>s. give (outcome ''created'' s [])) m))" for i
    using sane_create [OF m authority fresh, of caller cd "sur_times w" i] caller
    by (auto simp: seq_def action_simps split: prod.splits sum.splits)
  show ?thesis
    using authority sane_relationship [OF m]
    by (auto simp: execute_command_def cr intro: ok safe_inspect safe_message safe_configure safe_lifecycle safe_basic
        split: option.splits)
qed

lemma step_sane:
  assumes m: "sane b m" and st: "manager_step cd b m m'"
  shows "sane b m'"
  using st
proof (cases rule: manager_step.cases)
  case (commanded authority caller w c r)
  with sane_command [OF m commanded(1-3), of cd c] show ?thesis by simp
qed (use m in \<open>simp_all add: sane_begin_run sane_finish_run sane_live_event\<close>)

lemma steps_sane: "manager_steps cd b m m' \<Longrightarrow> sane b m \<Longrightarrow> sane b m'"
  by (induction rule: manager_steps.induct) (auto intro: step_sane)

text \<open>A manager without a store of earlier children.\<close>

definition fresh_manager :: "string \<Rightarrow> subagent_store option \<Rightarrow> manager" where
  "fresh_manager root store = \<lparr>mg_root_id = root, mg_children = [], mg_runs = [], mg_store = store\<rparr>"

lemma fresh_sane: "sane b (fresh_manager root store)"
  by (simp add: sane_def fresh_manager_def parent_rel_def parent_of_def acyclic_def)

end
