(* ===== verification/Subagent_Samples.thy ===== *)
theory Subagent_Samples
  imports Subagent_Steps
begin

section \<open>Sample children\<close>

text \<open>Concrete commands and managers, at which the properties of child agents are applied.\<close>

definition sample_codec :: snapshot_codec where
  "sample_codec = \<lparr>sc_bytes = (\<lambda>_. ''x''), sc_parse = (\<lambda>_. Inl ''not read'')\<rparr>"

definition sample_create :: "string option \<Rightarrow> create_input" where
  "sample_create p = \<lparr>ci_name = ''a'', ci_mode = Persistent, ci_prompt = p, ci_model = None, ci_permission_mode = None\<rparr>"

definition sample_child :: "string \<Rightarrow> string \<Rightarrow> string option \<Rightarrow> child_snapshot" where
  "sample_child i parent p = created_snapshot (5, 6) i parent AskMode (sample_create p)"

definition sample_surroundings :: "string \<Rightarrow> surroundings" where
  "sample_surroundings uuid = \<lparr>sur_times = (5, 6), sur_uuid = uuid, sur_looks = [], sur_later = sample_child [] [] None\<rparr>"

definition create_only :: "create_input \<Rightarrow> command_input" where
  "create_only i = \<lparr>cmd_create = Some i, cmd_inspect = None, cmd_message = None, cmd_relationship = None,
     cmd_configure = None, cmd_lifecycle = None\<rparr>"

definition sample_manager :: manager where
  "sample_manager = \<lparr>mg_root_id = ''root'', mg_children = [(''child-1'', new_child (sample_child ''child-1'' ''root'' None))],
     mg_runs = [], mg_store = None\<rparr>"

definition sample_pair :: manager where
  "sample_pair = sample_manager\<lparr>mg_children := [(''child-1'', new_child (sample_child ''child-1'' ''root'' None)),
     (''child-2'', new_child (sample_child ''child-2'' ''child-1'' None))]\<rparr>"

lemma execute_create_saved:
  assumes "check_create authority i = Inr g" and "s = created_snapshot (sur_times w) (''child-'' @ sur_uuid w) caller g i"
    and "persist cd (m\<lparr>mg_children := map_insert (''child-'' @ sur_uuid w) (new_child s) (mg_children m)\<rparr>) = (Inr (), m')"
  shows "execute_command cd w caller authority (create_only i) m =
     (Inr (outcome ''created'' s []), case ci_prompt i of None \<Rightarrow> m' | Some p \<Rightarrow> spawn_run (''child-'' @ sur_uuid w) p m')"
  using assms by (simp add: execute_command_def create_only_def branch_count_def create_def seq_def action_simps
      Let_def spawn_if_def append.simps split: option.splits)

lemma execute_create:
  assumes "check_create authority i = Inr g" and "mg_store m = None"
  shows "execute_command cd w caller authority (create_only i) m =
    (let s = created_snapshot (sur_times w) (''child-'' @ sur_uuid w) caller g i;
         m' = m\<lparr>mg_children := map_insert (''child-'' @ sur_uuid w) (new_child s) (mg_children m)\<rparr> in
     (Inr (outcome ''created'' s []), case ci_prompt i of None \<Rightarrow> m' | Some p \<Rightarrow> spawn_run (''child-'' @ sur_uuid w) p m'))"
  using assms by (subst execute_create_saved [OF assms(1) refl]) (simp_all add: persist_def Let_def)

lemma sample_trim: "trim ''a'' = ''a''"
proof -
  have h: "ws_head ''a'' = 0" by code_simp
  have "all_ws ''a'' = False" by (subst all_ws.simps) (simp only: h, simp)
  moreover have "trim_start ''a'' = ''a''" by (subst trim_start.simps) (simp only: h, simp)
  ultimately show ?thesis by (simp add: trim_def)
qed

lemma sample_check: "check_create AskMode (sample_create None) = Inr AskMode"
  by (simp add: check_create_def sample_create_def validate_opt_text_def validate_child_text_def max_name_bytes_def
      sample_trim within_authority_def ensure_def is_ascii_control_def byte_of_def)

lemma sample_first:
  "execute_command sample_codec (sample_surroundings ''1'') ''root'' AskMode (create_only (sample_create None)) (fresh_manager ''root'' None)
     = (Inr (outcome ''created'' (sample_child ''child-1'' ''root'' None) []), sample_manager)"
  by (subst execute_create [OF sample_check])
    (simp_all add: fresh_manager_def sample_manager_def Let_def sample_surroundings_def sample_create_def sample_child_def)

lemma sample_second:
  "execute_command sample_codec (sample_surroundings ''2'') ''child-1'' AskMode (create_only (sample_create None)) sample_manager
     = (Inr (outcome ''created'' (sample_child ''child-2'' ''child-1'' None) []), sample_pair)"
  by (subst execute_create [OF sample_check])
    (simp_all add: sample_manager_def sample_pair_def Let_def sample_surroundings_def sample_create_def sample_child_def)

lemma sample_reached: "manager_steps sample_codec 0 (fresh_manager ''root'' None) sample_pair"
proof -
  have "manager_step sample_codec 0 (fresh_manager ''root'' None) sample_manager"
    by (rule commanded [OF _ _ _ sample_first]) (simp_all add: fresh_manager_def sample_surroundings_def)
  moreover have "manager_step sample_codec 0 sample_manager sample_pair"
    by (rule commanded [OF _ _ _ sample_second]) (simp_all add: sample_manager_def sample_surroundings_def)
  ultimately show ?thesis by (blast intro: stay then_step)
qed

text \<open>A manager of one child with some runs.\<close>

definition sample_at :: "child_state \<Rightarrow> child" where
  "sample_at st = new_child ((sample_child ''child-1'' ''root'' None)\<lparr>cs_state := st\<rparr>)"

definition sample_with :: "child \<Rightarrow> run_stage list \<Rightarrow> manager" where
  "sample_with c gs = \<lparr>mg_root_id = ''root'', mg_children = [(''child-1'', c)],
     mg_runs = map (Pair ''child-1'') gs, mg_store = None\<rparr>"

lemma sample_valid: "0 < n \<Longrightarrow> validate_child_text f ''a'' n = Inr ()"
  by (simp add: validate_child_text_def sample_trim is_ascii_control_def byte_of_def)

lemma sample_authorized [simp]: "authorized_child ''root'' ''child-1'' (sample_with c gs) = (Inr c, sample_with c gs)"
  by (simp add: authorized_child_def is_authorized_def sample_with_def)

lemma sample_mutate [simp]:
  "mutate_child ''child-1'' f (sample_with c gs) = (case f c of (r, c) \<Rightarrow> (r, sample_with c gs))"
  by (simp add: mutate_child_def sample_with_def set_child_def)

lemma sample_persist [simp]: "persist cd (sample_with c gs) = (Inr (), sample_with c gs)"
  by (simp add: persist_def sample_with_def)

lemma sample_spawn [simp]: "spawn_if ''child-1'' p (sample_with c gs) = (Inr (), sample_with c (gs @ (case p of None \<Rightarrow> [] | Some t \<Rightarrow> [Starting t])))"
  by (simp add: spawn_if_def sample_with_def spawn_run_def split: option.splits)

lemma sample_id: "validate_child_id ''child-1'' = Inr ()"
  by (simp add: validate_child_id_def valid_id_byte_def ascii_class_defs byte_of_def)

lemma sample_at_fields: "cs_mode (ch_snapshot (sample_at st)) = Persistent" "cs_state (ch_snapshot (sample_at st)) = st"
  "cs_id (ch_snapshot (sample_at st)) = ''child-1''" "cs_queued_messages (ch_snapshot (sample_at st)) = []"
  by (simp_all add: sample_at_def new_child_def sample_child_def created_snapshot_def push_child_event_def sample_create_def)

lemma sample_send:
  "\<exists>j c. send_message cd t ''root'' \<lparr>si_id = ''child-1'', si_content = ''a''\<rparr> (sample_with (sample_at Idle) [])
     = (Inr j, sample_with c [Starting ''a''])"
  by (simp add: send_message_def seq_def action_simps sample_id sample_valid max_message_bytes_def 
     queue_message_def sample_at_fields is_settled_def Let_def) blast

definition sample_cancelled :: "child_state \<Rightarrow> child" where
  "sample_cancelled st = snd (lifecycle_child (5, 6) CancelChild (sample_at st))"

lemma sample_cancel:
 "\<not> is_settled st \<Longrightarrow> \<exists>j. lifecycle cd (5, 6) ''root'' \<lparr>li_id = ''child-1'', li_action = CancelChild\<rparr> (sample_with (sample_at st) gs) = (Inr j, sample_with (sample_cancelled st) gs)"
  by (simp add: lifecycle_def seq_def action_simps lifecycle_child_def sample_at_fields Let_def sample_cancelled_def)

lemma sample_resume:
 "\<not> is_settled st \<Longrightarrow> \<exists>j m'. lifecycle cd t ''root'' \<lparr>li_id = ''child-1'', li_action = ResumeChild\<rparr> (sample_with (sample_cancelled st) gs) = (Inr j, m')"
  by (simp add: lifecycle_def seq_def action_simps lifecycle_child_def sample_at_fields Let_def sample_cancelled_def) (simp add: push_child_event_def)

text \<open>A store whose first system call fails.\<close>

definition full_store :: subagent_store where
  "full_store = \<lparr>st_root = ''/s'', st_dir = PrivateDir, st_lock = None, st_files = (\<lambda>_. None), st_faults = [Some ''full'']\<rparr>"

end
