(* ===== verification/Subagent_Authority.thy ===== *)
theory Subagent_Authority
  imports Subagent_Samples
begin

section \<open>Who may do what to which child\<close>

text \<open>
  Properties of the manager of child agents (\<open>fx-subagent/src/lib.rs\<close>) in every state its steps reach.
\<close>

lemma authorized_iff:
  assumes m: "sane b m"
  shows "is_authorized m caller i \<longleftrightarrow>
    (if caller = mg_root_id m then i \<in> fst ` set (mg_children m)
     else mg_children m \<noteq> [] \<and> (i, caller) \<in> (parent_rel (mg_children m))\<^sup>*)"
  using m authorized_walk_iff [OF _ way_up_card, of "mg_children m" caller i]
  by (auto simp: is_authorized_def sane_def)

text \<open>
  C35. In every state of the manager, a caller reaches exactly its own subtree: the root reaches every child, and a child
  reaches itself and the children below it, however deep, and no other; the bounded walk of the code never
  gives up too early.
\<close>

theorem authority_is_the_subtree:
  assumes "manager_steps cd b (fresh_manager root store) m"
  shows "fst (authorized_child caller i m) = Inr c \<longleftrightarrow>
    map_of (mg_children m) i = Some c \<and> (caller = mg_root_id m \<or> (i, caller) \<in> (parent_rel (mg_children m))\<^sup>*)"
proof -
  have m: "sane b m" using steps_sane [OF assms fresh_sane] .
  have key: "map_of (mg_children m) i = Some c \<Longrightarrow> i \<in> fst ` set (mg_children m)" for c
    by (force dest: map_of_SomeD)
  show ?thesis
    using key authorized_iff [OF m, of caller i] by (auto simp: authorized_child_def split: option.splits)
qed

theorem authority_is_the_subtree_witness:
  "fst (authorized_child ''child-1'' ''child-2'' sample_pair) = Inr (new_child (sample_child ''child-2'' ''child-1'' None))
   \<and> fst (authorized_child ''child-2'' ''child-1'' sample_pair) \<noteq> Inr (new_child (sample_child ''child-1'' ''root'' None))"
proof -
  let ?cs = "mg_children sample_pair"
  have p: "parent_of ?cs ''child-2'' = Some ''child-1''" "parent_of ?cs ''child-1'' = Some ''root''" "parent_of ?cs ''root'' = None"
    by (simp_all add: sample_pair_def parent_of_def new_child_def sample_child_def created_snapshot_def push_child_event_def)
  have c: "map_of ?cs ''child-2'' = Some (new_child (sample_child ''child-2'' ''child-1'' None))" 
   and r: "mg_root_id sample_pair = ''root''" by (simp_all add: sample_pair_def sample_manager_def)
  show ?thesis
    unfolding authority_is_the_subtree [OF sample_reached] above_step [OF p(1)] above_step [OF p(2)] above_top [OF p(3)]
    by (simp add: c r)
qed

text \<open>
  C34. Every state that commands, runs and their events reach from a manager without children keeps the tree a tree
  and the children bounded: names are distinct and none is the root's, the parents are the root or children and have
  no cycle, no child may do more than the callers were allowed to, and a child keeps at most 200 events, 200 tool
  activities, 256 messages and a failure of 64 KiB.
\<close>

theorem the_children_stay_a_bounded_tree:
  assumes "manager_steps cd b (fresh_manager root store) m"
  shows "distinct (mg_root_id m # map fst (mg_children m)) \<and> acyclic (parent_rel (mg_children m))
    \<and> (\<forall>i p. parent_of (mg_children m) i = Some p \<longrightarrow> p = mg_root_id m \<or> p \<in> fst ` set (mg_children m))
    \<and> (\<forall>(i, c) \<in> set (mg_children m). cs_id (ch_snapshot c) = i
        \<and> permission_rank (cs_permission_mode (ch_snapshot c)) \<le> b
        \<and> length (cs_events (ch_snapshot c)) \<le> 200 \<and> length (cs_tool_activity (ch_snapshot c)) \<le> 200
        \<and> length (cs_history (ch_snapshot c)) \<le> 256
        \<and> (case cs_failure (ch_snapshot c) of None \<Rightarrow> True | Some f \<Rightarrow> length f \<le> 65536))"
proof -
  have m: "sane b m" using steps_sane [OF assms fresh_sane] .
  then have "mg_root_id m \<notin> fst ` set (mg_children m)" "acyclic (parent_rel (mg_children m))"
    "\<forall>i p. parent_of (mg_children m) i = Some p \<longrightarrow> p = mg_root_id m \<or> p \<in> fst ` set (mg_children m)"
    unfolding sane_def by blast+
  moreover have "case ic of (i, c) \<Rightarrow> cs_id (ch_snapshot c) = i
        \<and> permission_rank (cs_permission_mode (ch_snapshot c)) \<le> b
        \<and> length (cs_events (ch_snapshot c)) \<le> 200 \<and> length (cs_tool_activity (ch_snapshot c)) \<le> 200
        \<and> length (cs_history (ch_snapshot c)) \<le> 256
        \<and> (case cs_failure (ch_snapshot c) of None \<Rightarrow> True | Some f \<Rightarrow> length f \<le> 65536)"
    if "ic \<in> set (mg_children m)" for ic
  proof -
    obtain i c where ic: "ic = (i, c)" by fastforce
    with that m have "child_ok b i (ch_snapshot c)" unfolding sane_def by blast
    then show ?thesis
      by (simp add: ic child_ok_def bounded_def max_event_items_def max_activity_items_def max_history_messages_def
          max_message_bytes_def split: option.splits)
  qed
  ultimately show ?thesis using sane_distinct [OF m] by auto
qed

theorem the_children_stay_a_bounded_tree_witness:
  "acyclic (parent_rel (mg_children sample_pair)) \<and> map fst (mg_children sample_pair) = [''child-1'', ''child-2'']"
  using the_children_stay_a_bounded_tree [OF sample_reached] by (simp add: sample_pair_def)

end
