(* ===== verification/Subagent_Runs.thy ===== *)
theory Subagent_Runs
  imports Subagent_Samples
begin

section \<open>Messages and runs of a child agent\<close>

text \<open>
  What becomes of the messages to a child (\<open>message\<close>, \<open>lifecycle\<close>, \<open>run_child\<close> of \<open>fx-subagent/src/lib.rs\<close>):
  without a cancellation a persistent child runs them one at a time in the order they were sent. A
  cancellation, and a save that fails, break this.
\<close>

definition runs_of :: "manager \<Rightarrow> string \<Rightarrow> run_stage list" where
  "runs_of m i = map snd (filter (\<lambda>r. fst r = i) (mg_runs m))"

fun prompt_of :: "run_stage \<Rightarrow> string list" where
  "prompt_of (Starting p) = [p]"
| "prompt_of (Executing r) = []"

text \<open>What counts for the messages of a child: its mode, state and queue, and its runs.\<close>

definition talk_state :: "manager \<Rightarrow> string \<Rightarrow> (child_mode \<times> child_state \<times> string list) option \<times> run_stage list" where
  "talk_state m i =
     (map_option (\<lambda>c. (cs_mode (ch_snapshot c), cs_state (ch_snapshot c), cs_queued_messages (ch_snapshot c)))
        (map_of (mg_children m) i), runs_of m i)"

text \<open>What was sent to a child and has not begun yet.\<close>

definition waiting :: "manager \<Rightarrow> string \<Rightarrow> string list" where
  "waiting m i =
     (case talk_state m i of (talk, runs) \<Rightarrow>
        concat (map prompt_of runs) @ (case talk of None \<Rightarrow> [] | Some (md, st, q) \<Rightarrow> q))"

text \<open>A persistent child with one run as long as it is not settled, and a child that is queued but has no run.\<close>

fun orderly_talk :: "(child_mode \<times> child_state \<times> string list) option \<times> run_stage list \<Rightarrow> bool" where
  "orderly_talk (Some (Persistent, st, q), []) \<longleftrightarrow> is_settled st \<and> q = []"
| "orderly_talk (Some (Persistent, st, q), [Starting p]) \<longleftrightarrow> st = Queued"
| "orderly_talk (Some (Persistent, st, q), [Executing r]) \<longleftrightarrow> st = ChildRunning"
| "orderly_talk _ \<longleftrightarrow> False"

definition orderly :: "manager \<Rightarrow> string \<Rightarrow> bool" where
  "orderly m i \<longleftrightarrow> orderly_talk (talk_state m i)"

definition stranded :: "manager \<Rightarrow> string \<Rightarrow> bool" where
  "stranded m i \<longleftrightarrow> (\<exists>md q. talk_state m i = (Some (md, Queued, q), []))"

text \<open>
  A history of messages to child \<open>i\<close>, with those that were accepted and those whose run has begun; the
  runs of every child and its events go on, and so does every command that is none to this child's messages.
\<close>

inductive conversation ::
  "snapshot_codec \<Rightarrow> nat \<Rightarrow> string \<Rightarrow> manager \<Rightarrow> string list \<Rightarrow> string list \<Rightarrow> manager \<Rightarrow> bool" for cd b i m where
  silence: "conversation cd b i m [] [] m"
| sent: "conversation cd b i m xs ys m' \<Longrightarrow> send_message cd t caller \<lparr>si_id = i, si_content = x\<rparr> m' = (Inr j, m'') \<Longrightarrow>
    conversation cd b i m (xs @ [x]) ys m''"
| begun: "conversation cd b i m xs ys m' \<Longrightarrow> k < length (mg_runs m') \<Longrightarrow> mg_runs m' ! k = (i, Starting x) \<Longrightarrow>
    conversation cd b i m xs (ys @ [x]) (begin_run cd t k m')"
| ended: "conversation cd b i m xs ys m' \<Longrightarrow> conversation cd b i m xs ys (finish_run cd t k result m')"
| noted: "conversation cd b i m xs ys m' \<Longrightarrow> conversation cd b i m xs ys (live_event cd now k e m')"
| elsewhere: "conversation cd b i m xs ys m' \<Longrightarrow> manager_step cd b m' m'' \<Longrightarrow> talk_state m'' i = talk_state m' i \<Longrightarrow>
    conversation cd b i m xs ys m''"

subsection \<open>Runs in the list of all runs\<close>

lemma runs_of_simps [simp]:
  "runs_of (try_persist cd m) i = runs_of m i" "runs_of (set_child j c m) i = runs_of m i"
  "runs_of (spawn_run j p m) i = runs_of m i @ (if j = i then [Starting p] else [])"
  by (simp_all add: runs_of_def set_child_def spawn_run_def)

lemma runs_at:
  assumes "k < length (mg_runs m)" and "mg_runs m ! k = (j, g)"
  shows "runs_of m i = map snd (filter (\<lambda>r. fst r = i) (take k (mg_runs m))) @ (if j = i then [g] else [])
      @ map snd (filter (\<lambda>r. fst r = i) (drop (Suc k) (mg_runs m)))"
  using assms by (subst runs_of_def, subst id_take_nth_drop [of k "mg_runs m"]) simp_all

lemma runs_of_set_run:
  assumes k: "k < length (mg_runs m)" and j: "mg_runs m ! k = (j, g)"
  shows "runs_of (set_run k h m) i = map snd (filter (\<lambda>r. fst r = i) (take k (mg_runs m))) @ (if j = i then [h] else [])
      @ map snd (filter (\<lambda>r. fst r = i) (drop (Suc k) (mg_runs m)))"
  using k by (simp add: runs_of_def set_run_def j upd_conv_take_nth_drop)

lemma runs_of_drop_run:
  "runs_of (drop_run k m) i = map snd (filter (\<lambda>r. fst r = i) (take k (mg_runs m)))
      @ map snd (filter (\<lambda>r. fst r = i) (drop (Suc k) (mg_runs m)))"
  by (simp add: runs_of_def drop_run_def)

lemma other_run:
  assumes "k < length (mg_runs m)" and "mg_runs m ! k = (j, g)" and "j \<noteq> i"
  shows "runs_of (set_run k h m) i = runs_of m i" "runs_of (drop_run k m) i = runs_of m i"
  using assms by (simp_all add: runs_of_set_run runs_at runs_of_drop_run)

lemma only_run:
  assumes "k < length (mg_runs m)" and "mg_runs m ! k = (i, g)" and "runs_of m i = [g']"
  shows "g' = g" "runs_of (set_run k h m) i = [h]" "runs_of (drop_run k m) i = []"
  using assms by (simp_all add: runs_of_set_run [OF assms(1,2)] runs_at [OF assms(1,2)] runs_of_drop_run
      append_eq_Cons_conv)

lemma run_listed: "k < length (mg_runs m) \<Longrightarrow> mg_runs m ! k = (i, g) \<Longrightarrow> g \<in> set (runs_of m i)"
  by (simp add: runs_at)

lemma set_child_runs [simp]: "mg_runs (set_child i c m) = mg_runs m"
  by (simp add: set_child_def)

lemma set_child_lookup:
  "map_of (mg_children (set_child j c m)) i =
     (if i = j \<and> map_of (mg_children m) j \<noteq> None then Some c else map_of (mg_children m) i)"
  by (auto simp: set_child_def map_of_map_change map_of_eq_None_iff)

subsection \<open>The steps\<close>

lemma talk_state_decides:
  assumes "talk_state m' i = talk_state m i"
  shows "waiting m' i = waiting m i" "orderly m' i = orderly m i" "stranded m' i = stranded m i"
  using assms by (simp_all add: waiting_def orderly_def stranded_def)

lemma talk_state_persist [simp]: "talk_state (try_persist cd m) i = talk_state m i"
  by (simp add: talk_state_def)

lemma mutate_child_Inr:
  "mutate_child i f m = (Inr r, m') \<longleftrightarrow>
     (\<exists>c c'. map_of (mg_children m) i = Some c \<and> f c = (Inr r, c') \<and> m' = set_child i c' m)"
  by (auto simp: mutate_child_def split: option.splits prod.splits)

lemma authorized_child_Inr:
  "authorized_child caller i m = (Inr c, m') \<longleftrightarrow> m' = m \<and> is_authorized m caller i \<and> map_of (mg_children m) i = Some c"
  by (auto simp: authorized_child_def split: option.splits)

lemma lift_Inr: "lift r m = (Inr a, m') \<longleftrightarrow> r = Inr a \<and> m' = m"
  by (auto simp: lift_def)

lemmas manager_Inr = mutate_child_Inr authorized_child_Inr lift_Inr

lemma send_message_Inr:
  assumes "send_message cd t caller \<lparr>si_id = i, si_content = x\<rparr> m = (Inr j, m')"
  obtains c s begins m1 where "map_of (mg_children m) i = Some c"
    and "queue_message t x c = (Inr (s, begins), c\<lparr>ch_snapshot := s\<rparr>)"
    and "persist cd (set_child i (c\<lparr>ch_snapshot := s\<rparr>) m) = (Inr (), m1)"
    and "m' = snd (spawn_if i (if begins then Some x else None) m1)"
proof -
  from assms obtain c0 m0 z m2 where c2: "authorized_child caller i m = (Inr c0, m2)"
    and z2: "mutate_child i (queue_message t x) m2 = (Inr z, m0)"
    and rest: "(case z of (s, begins) \<Rightarrow> seq (persist cd) (\<lambda>_.
       seq (spawn_if i (if begins then Some x else None)) (\<lambda>_. give (outcome ''queued'' s [])))) m0 = (Inr j, m')"
    unfolding send_message_def seq_Inr lift_Inr send_input.simps by blast
  from c2 z2 have c0: "authorized_child caller i m = (Inr c0, m)" and z: "mutate_child i (queue_message t x) m = (Inr z, m0)"
    by (simp_all add: authorized_child_Inr)
  obtain s begins where sb: "z = (s, begins)" by fastforce
  with z obtain c where c: "queue_message t x c0 = (Inr (s, begins), c)" "m0 = set_child i c m"
    using c0 by (auto simp: manager_Inr)
  from rest sb c(2) obtain m1 where m1: "persist cd (set_child i c m) = (Inr (), m1)"
    and m': "m' = snd (spawn_if i (if begins then Some x else None) m1)"
    by (auto simp: seq_Inr give_def)
  have "c = c0\<lparr>ch_snapshot := s\<rparr>" using c(1) by (auto simp: queue_message_def Let_def split: if_splits)
  with c0 c m1 m' that [of c0 s begins m1] show ?thesis by (simp add: authorized_child_Inr)
qed

lemma persisted: "persist cd m = (r, m') \<Longrightarrow> m' = try_persist cd m"
  by (simp add: try_persist_def)

lemma sent_talk_state:
  assumes "send_message cd t caller \<lparr>si_id = i, si_content = x\<rparr> m = (Inr j, m')"
  shows "\<exists>st q. talk_state m i = (Some (Persistent, st, q), runs_of m i) \<and> st \<noteq> Archived \<and>
    talk_state m' i = (if is_settled st then (Some (Persistent, Queued, q), runs_of m i @ [Starting x])
      else (Some (Persistent, st, q @ [x]), runs_of m i))"
  using assms
proof (rule send_message_Inr)
  fix c s begins m1
  assume c: "map_of (mg_children m) i = Some c"
    and q: "queue_message t x c = (Inr (s, begins), c\<lparr>ch_snapshot := s\<rparr>)"
    and p: "persist cd (set_child i (c\<lparr>ch_snapshot := s\<rparr>) m) = (Inr (), m1)"
    and "m' = snd (spawn_if i (if begins then Some x else None) m1)"
  then have m': "m' = (if begins then spawn_run i x m1 else m1)" by (simp add: spawn_if_def)
  have m1: "talk_state m1 i = (Some (cs_mode s, cs_state s, cs_queued_messages s), runs_of m i)"
    using c by (simp add: persisted [OF p]) (simp add: talk_state_def set_child_lookup)
  from q have "cs_mode (ch_snapshot c) = Persistent \<and> cs_state (ch_snapshot c) \<noteq> Archived
      \<and> begins = is_settled (cs_state (ch_snapshot c)) \<and> cs_mode s = Persistent
      \<and> cs_state s = (if begins then Queued else cs_state (ch_snapshot c))
      \<and> cs_queued_messages s = cs_queued_messages (ch_snapshot c) @ (if begins then [] else [x])"
    by (auto simp: queue_message_def Let_def push_child_event_def split: if_splits)
  moreover from m1 have "talk_state (spawn_run i x m1) i = (fst (talk_state m1 i), snd (talk_state m1 i) @ [Starting x])"
    by (simp add: talk_state_def) (simp add: spawn_run_def)
  ultimately show ?thesis using c m1 m' by (auto simp: talk_state_def split: if_splits)
qed

lemma begun_talk_state:
  assumes k: "k < length (mg_runs m)" "mg_runs m ! k = (i, Starting x)"
    and i: "talk_state m i = (Some (md, st, q), [Starting x'])" "st \<noteq> Archived"
  shows "x' = x" "\<exists>r. rr_prompt r = x \<and> talk_state (begin_run cd t k m) i = (Some (md, ChildRunning, q), [Executing r])"
proof -
  from i obtain c where c: "map_of (mg_children m) i = Some c" and runs: "runs_of m i = [Starting x']"
    and f: "cs_mode (ch_snapshot c) = md" "cs_state (ch_snapshot c) = st" "cs_queued_messages (ch_snapshot c) = q"
    by (auto simp: talk_state_def)
  show "x' = x" using only_run(1) [OF k runs] by simp
  obtain r s where g: "start_generation t x (ch_snapshot c) = (r, s)" by fastforce
  with i(2) f obtain q' where r: "r = Some q'" "rr_prompt q' = x" and
    s: "cs_mode s = md" "cs_state s = ChildRunning" "cs_queued_messages s = q"
    by (auto simp: start_generation_def Let_def push_child_event_def)
  have "talk_state (begin_run cd t k m) i = talk_state (set_run k (Executing q') (set_child i \<lparr>ch_snapshot = s, ch_cancelled = False\<rparr> m)) i"
    using k c g r by (simp add: begin_run_def Let_def)
  also have "\<dots> = (Some (md, ChildRunning, q), [Executing q'])"
    using only_run(2) [of k "set_child i \<lparr>ch_snapshot = s, ch_cancelled = False\<rparr> m" i "Starting x" "Starting x'" "Executing q'"] k runs c s
    by (simp add: talk_state_def set_child_lookup)
  finally show "\<exists>r. rr_prompt r = x \<and> talk_state (begin_run cd t k m) i = (Some (md, ChildRunning, q), [Executing r])"
    using r(2) by blast
qed

lemma ended_talk_state:
  assumes k: "k < length (mg_runs m)" "mg_runs m ! k = (i, Executing r)"
    and i: "talk_state m i = (Some (md, st, q), [g])" "st \<noteq> Archived"
  shows "\<exists>st'. is_settled st' \<and> st' \<noteq> Archived \<and> talk_state (finish_run cd t k result m) i =
    (if md = Persistent \<and> q \<noteq> [] then (Some (md, Queued, tl q), [Starting (hd q)]) else (Some (md, st', q), []))"
proof -
  from i obtain c where c: "map_of (mg_children m) i = Some c" and runs: "runs_of m i = [g]"
    and f: "cs_mode (ch_snapshot c) = md" "cs_state (ch_snapshot c) = st" "cs_queued_messages (ch_snapshot c) = q"
    by (auto simp: talk_state_def)
  let ?s0 = "settle (snd t) (ch_cancelled c) result (next_generation (fst t) (ch_snapshot c))"
  obtain p s where g: "finish_generation t (ch_cancelled c) result (ch_snapshot c) = (p, s)" by fastforce
  have s0: "cs_mode ?s0 = md" "cs_queued_messages ?s0 = q" "is_settled (cs_state ?s0)" "cs_state ?s0 \<noteq> Archived"
    using f by (auto simp: settle_def is_settled_def push_child_event_def split: sum.splits child_run_error.splits)
  from g f i(2) have ps: "next_prompt ?s0 = (p, s)" by (simp add: finish_generation_def Let_def)
  have s: "cs_mode s = md" "p = None \<Longrightarrow> s = ?s0" "p = (if md = Persistent \<and> q \<noteq> [] then Some (hd q) else None)"
    "p \<noteq> None \<Longrightarrow> cs_state s = Queued \<and> cs_queued_messages s = tl q"
    using ps s0 by (auto simp: next_prompt_def split: if_splits list.splits)
  let ?m = "set_child i (c\<lparr>ch_snapshot := s\<rparr>) m"
  have "talk_state (finish_run cd t k result m) i =
      talk_state (case p of None \<Rightarrow> drop_run k ?m | Some task \<Rightarrow> set_run k (Starting task) ?m) i"
    using k c g by (simp add: finish_run_def Let_def)
  moreover have "runs_of (drop_run k ?m) i = []" "runs_of (set_run k h ?m) i = [h]" for h
    using only_run(2,3) [of k ?m i "Executing r" g] k runs by simp_all
  ultimately have t': "talk_state (finish_run cd t k result m) i =
      (Some (md, cs_state s, cs_queued_messages s), case p of None \<Rightarrow> [] | Some task \<Rightarrow> [Starting task])"
    using c s(1) by (cases p) (simp_all add: talk_state_def set_child_lookup)
  show ?thesis using t' s s0 by (intro exI [of _ "cs_state ?s0"]) auto
qed

lemma set_child_elsewhere: "j \<noteq> i \<Longrightarrow> talk_state (set_child j c m) i = talk_state m i"
  by (simp add: talk_state_def set_child_lookup)

lemma other_run_talk:
  assumes "k < length (mg_runs m)" and "mg_runs m ! k = (j, g)" and "j \<noteq> i"
  shows "talk_state (set_run k h m) i = talk_state m i" "talk_state (drop_run k m) i = talk_state m i"
  using other_run [OF assms] by (simp_all add: talk_state_def)

lemma begun_elsewhere:
  assumes "\<And>x. k < length (mg_runs m) \<Longrightarrow> mg_runs m ! k \<noteq> (i, Starting x)"
  shows "talk_state (begin_run cd t k m) i = talk_state m i"
proof (cases "k < length (mg_runs m)")
  case True
  obtain j g where j: "mg_runs m ! k = (j, g)" by fastforce
  show ?thesis
  proof (cases "j = i")
    case True
    with j assms \<open>k < _\<close> show ?thesis by (cases g) (auto simp: begin_run_def)
  next
    case False
    then show ?thesis using True j
      by (auto simp: begin_run_def Let_def set_child_elsewhere other_run_talk [OF _ _ False]
          split: run_stage.splits option.splits prod.splits)
  qed
qed (simp add: begin_run_def)

lemma ended_elsewhere:
  assumes "\<And>r. k < length (mg_runs m) \<Longrightarrow> mg_runs m ! k \<noteq> (i, Executing r)"
  shows "talk_state (finish_run cd t k result m) i = talk_state m i"
proof (cases "k < length (mg_runs m)")
  case True
  obtain j g where j: "mg_runs m ! k = (j, g)" by fastforce
  show ?thesis
  proof (cases "j = i")
    case True
    with j assms \<open>k < _\<close> show ?thesis by (cases g) (auto simp: finish_run_def)
  next
    case False
    then show ?thesis using True j
      by (auto simp: finish_run_def Let_def set_child_elsewhere other_run_talk [OF _ _ False]
          split: run_stage.splits option.splits prod.splits)
  qed
qed (simp add: finish_run_def)

lemma noted_elsewhere: "talk_state (live_event cd now k e m) i = talk_state m i"
  by (auto simp: live_event_def talk_state_def set_child_lookup note_activity_def Let_def
      split: prod.splits run_stage.splits option.splits)

lemma talk_runs: "snd (talk_state m i) = runs_of m i"
  by (simp add: talk_state_def)

lemmas elsewhere_rules = begun_elsewhere ended_elsewhere noted_elsewhere

subsection \<open>Whole conversations\<close>

lemma orderly_cases:
  assumes "orderly m i"
  obtains (settled) st where "talk_state m i = (Some (Persistent, st, []), [])" and "is_settled st"
    | (ready) p q where "talk_state m i = (Some (Persistent, Queued, q), [Starting p])"
    | (busy) r q where "talk_state m i = (Some (Persistent, ChildRunning, q), [Executing r])"
proof -
  from assms have "orderly_talk (talk_state m i)" by (simp add: orderly_def)
  then show ?thesis using that by (cases "talk_state m i" rule: orderly_talk.cases) auto
qed

end
