(* ===== verification/Subagent_Messages.thy ===== *)
theory Subagent_Messages
  imports Subagent_Runs
begin

section \<open>Messages in order, and how they get lost\<close>

text \<open>Properties of the messages and runs of child agents (\<open>fx-subagent/src/lib.rs\<close>).\<close>

lemma orderly_sent:
  assumes "orderly m i" and "send_message cd t caller \<lparr>si_id = i, si_content = x\<rparr> m = (Inr j, m')"
  shows "orderly m' i" "waiting m' i = waiting m i @ [x]"
proof -
  from sent_talk_state [OF assms(2)] obtain st q
    where s: "talk_state m i = (Some (Persistent, st, q), runs_of m i)" "st \<noteq> Archived"
      "talk_state m' i = (if is_settled st then (Some (Persistent, Queued, q), runs_of m i @ [Starting x])
        else (Some (Persistent, st, q @ [x]), runs_of m i))"
    by blast
  from assms(1) have "orderly m' i \<and> waiting m' i = waiting m i @ [x]"
    by (cases rule: orderly_cases) (use s in \<open>auto simp: orderly_def waiting_def is_settled_def\<close>)
  then show "orderly m' i" "waiting m' i = waiting m i @ [x]" by simp_all
qed

lemma orderly_begun:
  assumes "orderly m i" and k: "k < length (mg_runs m)" "mg_runs m ! k = (i, Starting x)"
  shows "orderly (begin_run cd t k m) i" "waiting m i = x # waiting (begin_run cd t k m) i"
proof -
  have "Starting x \<in> set (snd (talk_state m i))" using run_listed [OF k] by (simp add: talk_runs)
  with assms(1) obtain q where "talk_state m i = (Some (Persistent, Queued, q), [Starting x])"
    by (cases rule: orderly_cases) auto
  with begun_talk_state(2) [OF k this, where cd = cd and t = t]
  have "orderly (begin_run cd t k m) i \<and> waiting m i = x # waiting (begin_run cd t k m) i"
    by (auto simp: orderly_def waiting_def)
  then show "orderly (begin_run cd t k m) i" "waiting m i = x # waiting (begin_run cd t k m) i" by simp_all
qed

lemma orderly_ended:
  assumes "orderly m i"
  shows "orderly (finish_run cd t k result m) i \<and> waiting (finish_run cd t k result m) i = waiting m i"
proof (cases "\<exists>r. k < length (mg_runs m) \<and> mg_runs m ! k = (i, Executing r)")
  case True
  then obtain r where k: "k < length (mg_runs m)" "mg_runs m ! k = (i, Executing r)" by blast
  have "Executing r \<in> set (snd (talk_state m i))" using run_listed [OF k] by (simp add: talk_runs)
  with assms obtain q where "talk_state m i = (Some (Persistent, ChildRunning, q), [Executing r])"
    by (cases rule: orderly_cases) auto
  with ended_talk_state [OF k this, where cd = cd and t = t and result = result] show ?thesis by (cases q) (auto simp: orderly_def waiting_def)
next
  case False
  with talk_state_decides [OF ended_elsewhere] assms show ?thesis by blast
qed

text \<open>
  Every persistent child starts orderly: its creation leaves it idle, or queued with one run and its prompt waiting.
\<close>

lemma created_orderly:
  assumes "create cd t uuid caller authority i m = (Inr s, m')" and "ci_mode i = Persistent"
    and "runs_of m (''child-'' @ uuid) = []"
  shows "orderly m' (''child-'' @ uuid)"
    and "waiting m' (''child-'' @ uuid) = (case ci_prompt i of None \<Rightarrow> [] | Some p \<Rightarrow> [p])"
proof -
  define ident where "ident = ''child-'' @ uuid"
  from assms(1) obtain granted m1 where p: "persist cd (m\<lparr>mg_children :=
        map_insert ident (new_child (created_snapshot t ident caller granted i)) (mg_children m)\<rparr>) = (Inr (), m1)"
    and m': "m' = snd (spawn_if ident (ci_prompt i) m1)"
    unfolding create_def Let_def ident_def by (auto simp: seq_Inr lift_Inr give_def)
  have m1: "talk_state m1 ident = (Some (Persistent, if ci_prompt i = None then Idle else Queued, []), [])"
    using assms(2,3) unfolding ident_def [symmetric] persisted [OF p] talk_state_persist
    by (simp add: talk_state_def runs_of_def) (simp add: map_of_map_insert new_child_def created_snapshot_def push_child_event_def)
  have spawned: "talk_state (spawn_run ident q m1) ident = (fst (talk_state m1 ident), snd (talk_state m1 ident) @ [Starting q])" for q
    by (simp add: talk_state_def) (simp add: spawn_run_def)
  have "orderly m' ident \<and> waiting m' ident = (case ci_prompt i of None \<Rightarrow> [] | Some p \<Rightarrow> [p])"
    using m1 spawned by (cases "ci_prompt i") (simp_all add: m' spawn_if_def orderly_def waiting_def is_settled_def)
  then show "orderly m' (''child-'' @ uuid)" "waiting m' (''child-'' @ uuid) = (case ci_prompt i of None \<Rightarrow> [] | Some p \<Rightarrow> [p])"
    by (simp_all add: ident_def)
qed

text \<open>
  A child that is settled with messages in its queue is not orderly: an interrupted child keeps its queue, and the
  next message that is sent to it is run before those.
\<close>

theorem a_settled_child_runs_new_messages_first:
  assumes "talk_state m i = (Some (Persistent, st, q), [])" and "is_settled st"
    and "send_message cd t caller \<lparr>si_id = i, si_content = x\<rparr> m = (Inr j, m')"
  shows "waiting m i = q \<and> waiting m' i = x # q"
  using sent_talk_state [OF assms(3)] assms(1,2) by (auto simp: waiting_def simp flip: talk_runs)

text \<open>
  C36. The messages that a persistent child accepts are run in the order they were sent, each once, one at a time,
  as long as nothing interferes. The child starts orderly, as every new child does: settled with an empty queue and
  no run, or queued with one run that has not begun, or running with one run in the executor. What happens then are
  messages to it that are accepted and saved, beginnings, ends and events of the runs of any child, and commands
  that leave the state, the queue and the runs of this child as they are; so it is not cancelled, resumed, closed or
  restarted meanwhile, and no save of a message to it fails. Then at any moment what waited at the start and was
  sent since is what has begun followed by what still waits, and a child without a run has begun everything. What
  the conditions exclude does break the order: \<open>a_failed_save_strands_the_child\<close>,
  \<open>a_settled_child_runs_new_messages_first\<close> and the theorems on cancellation below.
\<close>

theorem messages_run_in_the_order_sent:
  assumes "conversation cd b i m sent begun m'" and "orderly m i"
  shows "orderly m' i \<and> waiting m i @ sent = begun @ waiting m' i \<and> (runs_of m' i = [] \<longrightarrow> waiting m' i = [])"
proof -
  from assms(1) have "orderly m' i \<and> waiting m i @ sent = begun @ waiting m' i"
  proof (induction rule: conversation.induct)
    case silence
    show ?case using assms(2) by simp
  next
    case (sent xs ys m' t caller x j m'')
    then show ?case using orderly_sent [of m' i, OF _ sent.hyps(2)] by simp
  next
    case (begun xs ys m' k x t)
    then show ?case using orderly_begun [of m' i k x cd t] by simp
  next
    case (ended xs ys m' t k result)
    then show ?case using orderly_ended [of m' i cd t k result] by simp
  next
    case (noted xs ys m' now k e)
    then show ?case using talk_state_decides [OF noted_elsewhere] by simp
  next
    case (elsewhere xs ys m' m'')
    then show ?case using talk_state_decides [OF elsewhere.hyps(3)] by simp
  qed
  moreover have "runs_of m' i = [] \<longrightarrow> waiting m' i = []" if "orderly m' i"
    using that by (cases rule: orderly_cases) (auto simp: waiting_def simp flip: talk_runs)
  ultimately show ?thesis by blast
qed

theorem messages_run_in_the_order_sent_witness:
  "\<exists>m. waiting m ''child-1'' = [''a''] \<and> waiting (begin_run sample_codec (7, 8) 0 m) ''child-1'' = []
    \<and> orderly (begin_run sample_codec (7, 8) 0 m) ''child-1''"
proof -
  let ?m = "sample_with (sample_at Idle) []" and ?i = "''child-1''"
  obtain j c where s: "send_message sample_codec (5, 6) ''root'' \<lparr>si_id = ?i, si_content = ''a''\<rparr> ?m
      = (Inr j, sample_with c [Starting ''a''])"
    using sample_send by blast
  let ?m' = "sample_with c [Starting ''a'']"
  have o: "orderly ?m ?i" and w: "waiting ?m ?i = []"
    by (simp_all add: orderly_def waiting_def talk_state_def runs_of_def sample_with_def sample_at_fields is_settled_def)
  have c: "conversation sample_codec 0 ?i ?m ([] @ [''a'']) [] ?m'" by (rule sent [OF silence s])
  have runs: "mg_runs ?m' = [(?i, Starting ''a'')]" by (simp add: sample_with_def)
  have "conversation sample_codec 0 ?i ?m ([] @ [''a'']) ([] @ [''a'']) (begin_run sample_codec (7, 8) 0 ?m')"
    by (rule begun [OF c]) (simp_all add: runs)
  from messages_run_in_the_order_sent [OF this o] messages_run_in_the_order_sent [OF c o] w show ?thesis
    by (intro exI [of _ "?m'"]) simp
qed

lemma stranded_stays:
  assumes "conversation cd b i m sent begun m'" and "stranded m i"
  shows "stranded m' i \<and> begun = []"
  using assms(1)
proof (induction rule: conversation.induct)
  case silence
  show ?case using assms(2) by simp
next
  case (sent xs ys m' t caller x j m'')
  from sent_talk_state [OF sent.hyps(2)] sent.IH show ?case
    by (auto simp: stranded_def is_settled_def simp flip: talk_runs)
next
  case (begun xs ys m' k x t)
  with run_listed [OF begun.hyps(2,3)] show ?case by (auto simp: stranded_def simp flip: talk_runs)
next
  case (ended xs ys m' t k result)
  then have "mg_runs m' ! k \<noteq> (i, Executing r)" if "k < length (mg_runs m')" for r
    using run_listed [OF that, of i "Executing r"] by (auto simp: stranded_def simp flip: talk_runs)
  with talk_state_decides(3) [OF ended_elsewhere] ended.IH show ?case by blast
next
  case (noted xs ys m' now k e)
  then show ?case using talk_state_decides [OF noted_elsewhere] by simp
next
  case (elsewhere xs ys m' m'')
  then show ?case using talk_state_decides [OF elsewhere.hyps(3)] by simp
qed

text \<open>
  A creation with a prompt whose save fails reports the error but leaves the child in the tree, queued and
  without a run; whatever is sent to it afterwards is accepted and none of it ever begins.
\<close>

theorem a_failed_save_strands_the_child:
  assumes "create cd t uuid caller authority i m = (Inl (StoreFailed e), m')" and "ci_prompt i = Some p"
    and "runs_of m (''child-'' @ uuid) = []" and "conversation cd b (''child-'' @ uuid) m' sent begun m''"
  shows "\<exists>c. map_of (mg_children m'') (''child-'' @ uuid) = Some c \<and> cs_state (ch_snapshot c) = Queued
    \<and> runs_of m'' (''child-'' @ uuid) = [] \<and> begun = []"
proof -
  let ?i = "''child-'' @ uuid"
  from assms(1) obtain granted where "persist cd (m\<lparr>mg_children :=
      map_insert ?i (new_child (created_snapshot t ?i caller granted i)) (mg_children m)\<rparr>) = (Inl (StoreFailed e), m')"
    by (auto simp: create_def seq_Inl lift_def Let_def spawn_if_def give_def check_create_def validate_child_text_def
        validate_opt_text_def within_authority_def ensure_def and_then_def split: sum.splits if_splits option.splits)
  from persisted [OF this] have "talk_state m' ?i = (Some (ci_mode i, Queued, []), [])"
    using assms(2,3) by (simp add: talk_state_def)
      (simp add: map_of_map_insert new_child_def created_snapshot_def push_child_event_def try_persist_def runs_of_def)
  then have "stranded m' ?i" by (simp add: stranded_def)
  from stranded_stays [OF assms(4) this] show ?thesis
    by (auto simp: stranded_def talk_state_def)
qed

lemma full_create:
  "\<exists>e m'. create sample_codec (5, 6) ''1'' ''root'' AskMode (sample_create (Some ''a'')) (fresh_manager ''root'' (Some full_store))
     = (Inl (StoreFailed e), m')"
proof -
  have "check_create AskMode (sample_create (Some ''a'')) = Inr AskMode"
    by (simp add: check_create_def sample_create_def validate_opt_text_def sample_valid max_name_bytes_def max_prompt_bytes_def
        within_authority_def ensure_def)
  moreover have "valid_root_id ''root''" by (simp add: valid_root_id_def valid_id_byte_def ascii_class_defs byte_of_def)
  ultimately show ?thesis
    by (simp add: create_def seq_def action_simps Let_def persist_def fresh_manager_def store_save_def full_store_def
        ensure_store_directory_def store_call_def ensure_def)
qed

theorem a_failed_save_strands_the_child_witness:
  "\<exists>m. \<exists>c. map_of (mg_children m) ''child-1'' = Some c \<and> cs_state (ch_snapshot c) = Queued \<and> runs_of m ''child-1'' = []"
proof -
  obtain e m where m: "create sample_codec (5, 6) ''1'' ''root'' AskMode (sample_create (Some ''a'')) (fresh_manager ''root'' (Some full_store))
     = (Inl (StoreFailed e), m)" using full_create by blast
  have "runs_of (fresh_manager ''root'' (Some full_store)) (''child-'' @ ''1'') = []"
    by (simp add: runs_of_def fresh_manager_def)
  from a_failed_save_strands_the_child [OF m _ this silence, of "''a''"] show ?thesis by (auto simp: sample_create_def)
qed

subsection \<open>Cancellation\<close>

lemma lifecycle_Inr:
  assumes "lifecycle cd t caller \<lparr>li_id = i, li_action = a\<rparr> m = (Inr j, m')"
  obtains c s task c' m1 where "map_of (mg_children m) i = Some c"
    and "lifecycle_child t a c = (Inr (s, task), c')" and "m1 = try_persist cd (set_child i c' m)"
    and "m' = (case task of None \<Rightarrow> m1 | Some p \<Rightarrow> spawn_run i p m1)"
proof -
  from assms obtain c0 m0 z m2 where c2: "authorized_child caller i m = (Inr c0, m2)"
    and z2: "mutate_child i (lifecycle_child t a) m2 = (Inr z, m0)"
    and rest: "(case z of (s, resume_prompt) \<Rightarrow> seq (persist cd) (\<lambda>_.
       seq (spawn_if i resume_prompt) (\<lambda>_. give (outcome ''lifecycle_changed'' s [])))) m0 = (Inr j, m')"
    unfolding lifecycle_def seq_Inr lift_Inr lifecycle_input.simps by blast
  obtain s task where st: "z = (s, task)" by fastforce
  from c2 z2 st obtain c' where c: "map_of (mg_children m) i = Some c0" "lifecycle_child t a c0 = (Inr (s, task), c')"
      "m0 = set_child i c' m"
    by (auto simp: manager_Inr)
  from rest st c(3) obtain m1 where m1: "persist cd (set_child i c' m) = (Inr (), m1)"
    and m': "m' = snd (spawn_if i task m1)"
    by (auto simp: seq_Inr give_def)
  from that [of c0 s task c' m1] c m' persisted [OF m1] show ?thesis by (cases task) (simp_all add: spawn_if_def)
qed

lemma cancelled_child:
  assumes "lifecycle cd t caller \<lparr>li_id = i, li_action = CancelChild\<rparr> m = (Inr j, m')"
  obtains c where "map_of (mg_children m') i = Some c" and "cs_state (ch_snapshot c) = ChildCancelled"
    and "ch_cancelled c" and "mg_runs m' = mg_runs m"
  using assms
proof (rule lifecycle_Inr)
  fix c s task c' m1
  assume a: "map_of (mg_children m) i = Some c" "lifecycle_child t CancelChild c = (Inr (s, task), c')"
    "m1 = try_persist cd (set_child i c' m)" "m' = (case task of None \<Rightarrow> m1 | Some p \<Rightarrow> spawn_run i p m1)"
  then have "task = None" "cs_state (ch_snapshot c') = ChildCancelled" "ch_cancelled c'"
    by (auto simp: lifecycle_child_def Let_def push_child_event_def split: if_splits)
  with a that [of c'] show thesis by (simp add: set_child_lookup)
qed

lemma begin_run_starting:
  assumes "k < length (mg_runs m)" and "mg_runs m ! k = (i, Starting task)"
    and "map_of (mg_children m) i = Some c" and "cs_state (ch_snapshot c) \<noteq> Archived"
  obtains r c' where "map_of (mg_children (begin_run cd t k m)) i = Some c'" and "cs_state (ch_snapshot c') = ChildRunning"
    and "\<not> ch_cancelled c'" and "rr_prompt r = task" and "mg_runs (begin_run cd t k m) = (mg_runs m)[k := (i, Executing r)]"
proof -
  obtain r s where g: "start_generation t task (ch_snapshot c) = (Some r, s)" "rr_prompt r = task" "cs_state s = ChildRunning"
    using assms(4) by (simp add: start_generation_def Let_def) (simp add: push_child_event_def)
  with assms that [of "\<lparr>ch_snapshot = s, ch_cancelled = False\<rparr>" r] show ?thesis
    by (simp add: begin_run_def Let_def set_child_lookup) (simp add: set_run_def)
qed

text \<open>
  A child that is cancelled before its run has begun is reported and stored as cancelled, but the run begins all
  the same: it clears the cancellation, sets the child running and hands the prompt to the executor.
\<close>

theorem a_queued_run_survives_its_cancellation:
  assumes "lifecycle cd t caller \<lparr>li_id = i, li_action = CancelChild\<rparr> m = (Inr j, m')"
    and "k < length (mg_runs m)" and "mg_runs m ! k = (i, Starting task)"
  shows "(\<exists>c. map_of (mg_children m') i = Some c \<and> cs_state (ch_snapshot c) = ChildCancelled \<and> ch_cancelled c)
    \<and> (\<exists>c r. map_of (mg_children (begin_run cd t' k m')) i = Some c \<and> cs_state (ch_snapshot c) = ChildRunning
        \<and> \<not> ch_cancelled c \<and> mg_runs (begin_run cd t' k m') ! k = (i, Executing r) \<and> rr_prompt r = task)"
  using assms(1)
proof (rule cancelled_child)
  fix c
  assume c: "map_of (mg_children m') i = Some c" "cs_state (ch_snapshot c) = ChildCancelled" "ch_cancelled c"
    and runs: "mg_runs m' = mg_runs m"
  have k: "k < length (mg_runs m')" "mg_runs m' ! k = (i, Starting task)" using assms(2,3) runs by simp_all
  show ?thesis
    by (rule begin_run_starting [OF k c(1), of cd t']) (use c k(1) in \<open>simp_all add: runs\<close>)
qed

theorem a_queued_run_survives_its_cancellation_witness:
  "\<exists>c m. map_of (mg_children m) ''child-1'' = Some c \<and> cs_state (ch_snapshot c) = ChildCancelled
    \<and> (\<exists>r. mg_runs (begin_run sample_codec (7, 8) 0 m) ! 0 = (''child-1'', Executing r))"
proof -
  obtain j m' where l: "lifecycle sample_codec (5, 6) ''root'' \<lparr>li_id = ''child-1'', li_action = CancelChild\<rparr>
      (sample_with (sample_at Queued) [Starting ''a'']) = (Inr j, m')"
    using sample_cancel [of Queued sample_codec "[Starting ''a'']"] by (auto simp: is_settled_def)
  have "0 < length (mg_runs (sample_with (sample_at Queued) [Starting ''a'']))"
    "mg_runs (sample_with (sample_at Queued) [Starting ''a'']) ! 0 = (''child-1'', Starting ''a'')"
    by (simp_all add: sample_with_def)
  from a_queued_run_survives_its_cancellation [OF l this, of "(7, 8)"] show ?thesis by blast
qed

text \<open>
  A child that is cancelled while the executor works on it and resumed before the executor has noticed ends up with
  two runs in the executor, and the cancellation of the first one is gone.
\<close>

theorem a_resumed_child_may_run_twice:
  assumes "k < length (mg_runs m)" and "mg_runs m ! k = (i, Executing r)"
    and "lifecycle cd t1 caller \<lparr>li_id = i, li_action = CancelChild\<rparr> m = (Inr j1, m1)"
    and "lifecycle cd t2 caller \<lparr>li_id = i, li_action = ResumeChild\<rparr> m1 = (Inr j2, m2)"
  shows "\<exists>c r'. (let m3 = begin_run cd t3 (length (mg_runs m)) m2 in
    mg_runs m3 ! k = (i, Executing r) \<and> mg_runs m3 ! length (mg_runs m) = (i, Executing r')
    \<and> map_of (mg_children m3) i = Some c \<and> cs_state (ch_snapshot c) = ChildRunning \<and> \<not> ch_cancelled c)"
proof -
  from cancelled_child [OF assms(3)] have runs: "mg_runs m1 = mg_runs m" by blast
  from lifecycle_Inr [OF assms(4)] obtain c s task c' where c: "map_of (mg_children m1) i = Some c"
    and l: "lifecycle_child t2 ResumeChild c = (Inr (s, task), c')"
    and m2: "m2 = (case task of None \<Rightarrow> try_persist cd (set_child i c' m1)
      | Some p \<Rightarrow> spawn_run i p (try_persist cd (set_child i c' m1)))"
    by metis
  from l obtain p where p: "task = Some p" and q: "cs_state (ch_snapshot c') = Queued"
    by (auto simp: lifecycle_child_def Let_def push_child_event_def split: if_splits)
  have m2': "mg_runs m2 = mg_runs m @ [(i, Starting p)]" "map_of (mg_children m2) i = Some c'"
    using m2 p runs c by (simp_all add: spawn_run_def set_child_lookup)
  then have k: "length (mg_runs m) < length (mg_runs m2)" "mg_runs m2 ! length (mg_runs m) = (i, Starting p)" by simp_all
  show ?thesis
    by (rule begin_run_starting [OF k m2'(2), of cd t3]) (use q assms(1,2) in \<open>auto simp: m2'(1) Let_def nth_append\<close>)
qed

theorem a_resumed_child_may_run_twice_witness:
  "\<exists>(m :: manager) r r'. mg_runs m ! 0 = (''child-1'', Executing r) \<and> mg_runs m ! 1 = (''child-1'', Executing r')"
proof -
  obtain r :: child_run_request where True by simp
  let ?m = "sample_with (sample_at ChildRunning) [Executing r]"
  obtain j where l: "lifecycle sample_codec (5, 6) ''root'' \<lparr>li_id = ''child-1'', li_action = CancelChild\<rparr> ?m
      = (Inr j, sample_with (sample_cancelled ChildRunning) [Executing r])"
    using sample_cancel [of ChildRunning sample_codec "[Executing r]"] by (auto simp: is_settled_def)
  obtain k m2 where l2: "lifecycle sample_codec (5, 6) ''root'' \<lparr>li_id = ''child-1'', li_action = ResumeChild\<rparr>
      (sample_with (sample_cancelled ChildRunning) [Executing r]) = (Inr k, m2)"
    using sample_resume [of ChildRunning sample_codec "(5, 6)" "[Executing r]"] by (auto simp: is_settled_def)
  have m: "0 < length (mg_runs ?m)" "mg_runs ?m ! 0 = (''child-1'', Executing r)" "length (mg_runs ?m) = 1"
    by (simp_all add: sample_with_def)
  from a_resumed_child_may_run_twice [OF m(1,2) l l2, of "(7, 8)"] show ?thesis
    unfolding Let_def m(3) by blast
qed

text \<open>
  A configuration that is refused because it asks for more than the caller may do has changed the child's name
  nevertheless, without counting a generation, leaving an event or saving it.
\<close>

theorem a_refused_configuration_keeps_the_name:
  assumes "is_authorized m caller (cf_id i)" and "map_of (mg_children m) (cf_id i) = Some c"
    and "is_settled (cs_state (ch_snapshot c))"
    and "cf_name i = Some name" and "validate_child_text ''name'' name max_name_bytes = Inr ()" and "cf_model i = None"
    and "cf_permission_mode i = Some p" and "permission_rank authority < permission_rank p"
  shows "\<exists>m' c'. configure cd t caller authority i m =
      (Inl (InvalidInput ''child permission mode cannot exceed caller authority''), m')
    \<and> map_of (mg_children m') (cf_id i) = Some c' \<and> ch_snapshot c' = (ch_snapshot c)\<lparr>cs_name := name\<rparr> \<and> mg_store m' = mg_store m"
proof -
  let ?e = "InvalidInput ''child permission mode cannot exceed caller authority''"
  have "configure_snapshot t authority i (ch_snapshot c) = (Inl ?e, (ch_snapshot c)\<lparr>cs_name := name\<rparr>)"
    using assms(3-8)
    by (simp add: configure_snapshot_def seq_def set_name_def set_model_def set_permission_def within_authority_def ensure_def)
  with assms(1,2,4) have "configure cd t caller authority i m =
      (Inl ?e, set_child (cf_id i) (c\<lparr>ch_snapshot := (ch_snapshot c)\<lparr>cs_name := name\<rparr>\<rparr>) m)"
    by (simp add: configure_def seq_def action_simps ensure_def authorized_child_def mutate_child_def in_snapshot_def)
  with assms(2) show ?thesis by (simp add: set_child_lookup) (simp add: set_child_def)
qed

theorem a_refused_configuration_keeps_the_name_witness:
  "\<exists>m' c'. configure sample_codec (5, 6) ''root'' AskMode \<lparr>cf_id = ''child-1'', cf_name = Some ''a'', cf_model = None,
      cf_permission_mode = Some YoloMode\<rparr> (sample_with (sample_at Idle) [])
      = (Inl (InvalidInput ''child permission mode cannot exceed caller authority''), m')
    \<and> map_of (mg_children m') ''child-1'' = Some c' \<and> cs_name (ch_snapshot c') = ''a''"
proof -
  have "is_authorized (sample_with (sample_at Idle) []) ''root'' ''child-1''"
    "map_of (mg_children (sample_with (sample_at Idle) [])) ''child-1'' = Some (sample_at Idle)"
    "is_settled (cs_state (ch_snapshot (sample_at Idle)))"
    "validate_child_text ''name'' ''a'' max_name_bytes = Inr ()"
    by (simp_all add: is_authorized_def sample_with_def sample_at_fields is_settled_def sample_valid max_name_bytes_def)
  with a_refused_configuration_keeps_the_name [of "sample_with (sample_at Idle) []" "''root''"
      "\<lparr>cf_id = ''child-1'', cf_name = Some ''a'', cf_model = None, cf_permission_mode = Some YoloMode\<rparr>"
      "sample_at Idle" "''a''" YoloMode AskMode sample_codec "(5, 6)"]
  show ?thesis by fastforce
qed

end
