(* ===== verification/Subagent_Restart.thy ===== *)
theory Subagent_Restart
  imports Subagent_Samples
begin

section \<open>Saving, restarting and reading a history\<close>

text \<open>
  The store of child agents (\<open>fx-subagent/src/store.rs\<close>), \<open>restore\<close> and the pages of an inspection
  (\<open>fx-subagent/src/lib.rs\<close>).
\<close>

subsection \<open>The store's own calls\<close>

text \<open>Actions of the store that leave the state files alone.\<close>

definition files_stay :: "'a store_program \<Rightarrow> bool" where
  "files_stay p \<longleftrightarrow> (\<forall>st. st_files (snd (p st)) = st_files st \<and> st_root (snd (p st)) = st_root st)"

lemma files_stay_seq: "files_stay p \<Longrightarrow> (\<And>a. files_stay (f a)) \<Longrightarrow> files_stay (seq p f)"
  unfolding files_stay_def seq_def by (auto split: prod.splits sum.splits) (metis snd_conv)+

lemma files_stay_rules:
  "files_stay (give a)" "files_stay (fail e)" "files_stay (lift r)" "files_stay (store_call path)"
  "files_stay (await_lock path)" "files_stay (reject_unsafe path entry)" "files_stay ensure_store_directory" "files_stay lock_store"
proof -
  show basic: "files_stay (give a)" "files_stay (fail e)" "files_stay (lift r)" "files_stay (store_call path)" for a e r path
    by (auto simp: files_stay_def action_simps store_call_def split: list.splits option.splits)
  show l: "files_stay (await_lock path)" for path
    by (auto simp: files_stay_def await_lock_def store_call_def split: list.splits option.splits)
  show r: "files_stay (reject_unsafe path entry)" for path entry
    unfolding reject_unsafe_def by (intro files_stay_seq) (simp_all add: basic)
  have dir: "files_stay (\<lambda>st. (Inr (), st\<lparr>st_dir := PrivateDir\<rparr>))"
    and lock: "files_stay (\<lambda>st. (Inr (), if st_lock st = None then st\<lparr>st_lock := Some (StateFile [])\<rparr> else st))"
    by (auto simp: files_stay_def)
  have at_state: "files_stay (\<lambda>st. f st st)" if "\<And>z. files_stay (f z)" for f :: "subagent_store \<Rightarrow> unit store_program"
    using that by (simp add: files_stay_def)
  show "files_stay ensure_store_directory"
    unfolding ensure_store_directory_def by (rule at_state) (intro files_stay_seq; simp add: basic dir files_stay_seq)
  show "files_stay lock_store"
    unfolding lock_store_def Let_def by (rule at_state) (intro files_stay_seq; simp add: basic r l lock files_stay_seq)
qed

lemma store_call_Inr:
  "store_call path st = (Inr (), st') \<Longrightarrow> st_dir st' = st_dir st \<and> st_lock st' = st_lock st"
  by (auto simp: store_call_def split: list.splits option.splits)

lemma await_lock_Inr:
  "await_lock path st = (Inr (), st') \<Longrightarrow> st_dir st' = st_dir st \<and> st_lock st' = st_lock st"
  by (auto simp: await_lock_def dest: store_call_Inr split: list.splits option.splits if_splits)

lemma reject_unsafe_Inr:
  "reject_unsafe path entry st = (Inr (), st') \<Longrightarrow> entry \<noteq> Some UnsafeEntry \<and> st_dir st' = st_dir st \<and> st_lock st' = st_lock st"
  by (auto simp: reject_unsafe_def seq_Inr action_simps dest!: store_call_Inr split: if_splits)

lemma ensure_store_directory_Inr:
  "ensure_store_directory st = (Inr (), st') \<Longrightarrow> st_dir st' = PrivateDir \<and> st_lock st' = st_lock st"
  by (cases "st_dir st") (auto simp: ensure_store_directory_def seq_Inr action_simps dest!: store_call_Inr split: if_splits)

lemma lock_store_Inr:
  "lock_store st = (Inr (), st') \<Longrightarrow> st_lock st' \<noteq> Some UnsafeEntry \<and> st_dir st' = st_dir st"
  by (auto simp: lock_store_def Let_def seq_Inr dest!: store_call_Inr await_lock_Inr reject_unsafe_Inr split: if_splits)

text \<open>Actions that change the state files only when they succeed.\<close>

definition fails_clean :: "'a store_program \<Rightarrow> bool" where
  "fails_clean p \<longleftrightarrow> (\<forall>st e st'. p st = (Inl e, st') \<longrightarrow> st_files st' = st_files st)"

lemma fails_clean_seq: "files_stay p \<Longrightarrow> (\<And>a. fails_clean (f a)) \<Longrightarrow> fails_clean (seq p f)"
  unfolding fails_clean_def files_stay_def seq_Inl by (metis snd_conv)

lemma fails_clean_rules:
  "fails_clean (fail e)" "fails_clean (\<lambda>st. (Inr (), g st))" "fails_clean p \<Longrightarrow> fails_clean q \<Longrightarrow> fails_clean (if x then p else q)"
  by (simp_all add: fails_clean_def action_simps)

lemma store_save_fails_clean: "fails_clean (store_save c root_id cs)"
proof -
  have at_state: "fails_clean (\<lambda>st. f st st)" if "\<And>z. fails_clean (f z)" for f :: "subagent_store \<Rightarrow> unit store_program"
    using that by (simp add: fails_clean_def)
  show ?thesis
    unfolding store_save_def Let_def by (rule at_state) (intro fails_clean_seq fails_clean_rules files_stay_rules)
qed

text \<open>The file that is saved.\<close>

definition saved_file :: "string \<Rightarrow> child_snapshot list \<Rightarrow> snapshot_file" where
  "saved_file root_id cs = \<lparr>sf_schema_version = 1, sf_root_id = root_id, sf_children = cs\<rparr>"

definition fits :: "snapshot_codec \<Rightarrow> string \<Rightarrow> child_snapshot list \<Rightarrow> bool" where
  "fits c root_id cs \<longleftrightarrow> sc_bytes c (saved_file root_id cs) \<noteq> [] \<and> length (sc_bytes c (saved_file root_id cs)) \<le> max_store_bytes"

definition usable :: "subagent_store \<Rightarrow> bool" where
  "usable st \<longleftrightarrow> st_dir st = PrivateDir \<and> st_lock st \<noteq> Some UnsafeEntry"

lemma store_save_Inr:
  assumes "store_save c root_id cs st = (Inr (), st')"
  shows "st_files st' root_id = Some (StateFile (sc_bytes c (saved_file root_id cs)))"
    and "fits c root_id cs" and "valid_root_id root_id" and "usable st'"
proof -
  obtain path where path: "state_path st root_id = path" by simp
  from assms obtain s1 s2 s3 s4 s5 s6 s7 where v: "ensure (valid_root_id root_id) InvalidId = Inr ()"
    and s: "ensure_store_directory st = (Inr (), s1)" "lock_store s1 = (Inr (), s2)"
      "reject_unsafe path (st_files st root_id) s2 = (Inr (), s3)"
    and b: "\<not> (sc_bytes c (saved_file root_id cs) = [] \<or> max_store_bytes < length (sc_bytes c (saved_file root_id cs)))"
    and calls: "store_call path s3 = (Inr (), s4)" "store_call path s4 = (Inr (), s5)" "store_call path s5 = (Inr (), s6)"
      "store_call path s6 = (Inr (), s7)"
    and st': "st' = s7\<lparr>st_files := (st_files s7)(root_id := Some (StateFile (sc_bytes c (saved_file root_id cs))))\<rparr>"
    unfolding store_save_def Let_def path snapshot_schema_version_def saved_file_def [symmetric]
    by (auto simp: seq_Inr lift_def fail_def split: if_splits)
  show "st_files st' root_id = Some (StateFile (sc_bytes c (saved_file root_id cs)))" by (simp add: st')
  show "fits c root_id cs" using b by (simp add: fits_def)
  show "valid_root_id root_id" using v by (simp add: ensure_def split: if_splits)
  have "st_dir s7 = PrivateDir \<and> st_lock s7 = st_lock s2"
    using ensure_store_directory_Inr [OF s(1)] lock_store_Inr [OF s(2)] reject_unsafe_Inr [OF s(3)]
      store_call_Inr [OF calls(1)] store_call_Inr [OF calls(2)] store_call_Inr [OF calls(3)] store_call_Inr [OF calls(4)] by simp
  with lock_store_Inr [OF s(2)] show "usable st'" by (simp add: usable_def st')
qed

text \<open>Without faults every call works.\<close>

lemma faultless:
  assumes "st_faults st = []"
  shows "store_call path st = (Inr (), st)"
    and "await_lock path st = (Inr (), st)"
    and "entry \<noteq> Some UnsafeEntry \<Longrightarrow> reject_unsafe path entry st = (Inr (), st)"
    and "st_dir st = PrivateDir \<Longrightarrow> ensure_store_directory st = (Inr (), st)"
  using assms by (simp_all add: store_call_def await_lock_def reject_unsafe_def ensure_store_directory_def seq_def action_simps)

definition locked :: "subagent_store \<Rightarrow> subagent_store" where
  "locked st = (if st_lock st = None then st\<lparr>st_lock := Some (StateFile [])\<rparr> else st)"

lemma locked_simps [simp]:
  "st_faults (locked st) = st_faults st" "st_files (locked st) = st_files st" "st_root (locked st) = st_root st"
  "st_dir (locked st) = st_dir st" "usable (locked st) = usable st"
  by (simp_all add: locked_def usable_def)

lemma faultless_lock: "st_faults st = [] \<Longrightarrow> usable st \<Longrightarrow> lock_store st = (Inr (), locked st)"
  by (simp add: lock_store_def Let_def seq_def faultless usable_def store_call_def await_lock_def locked_def)

lemma faultless_load:
  assumes "st_faults st = []" and "usable st" and "valid_root_id root_id" and "fits c root_id cs"
    and "st_files st root_id = Some (StateFile (sc_bytes c (saved_file root_id cs)))"
    and "sc_parse c (sc_bytes c (saved_file root_id cs)) = Inr (saved_file root_id cs)"
  shows "store_load c root_id st = (Inr cs, locked st)"
proof -
  have "st_dir st = PrivateDir" using assms(2) by (simp add: usable_def)
  note calls = faultless(4) [OF assms(1) this] faultless_lock [OF assms(1,2)] faultless(1) [of "locked st"]
  have "sf_schema_version (saved_file root_id cs) = snapshot_schema_version" "sf_root_id (saved_file root_id cs) = root_id"
    "sf_children (saved_file root_id cs) = cs"
    by (simp_all add: saved_file_def snapshot_schema_version_def)
  with calls assms(1,3-6) show ?thesis
    by (simp add: store_load_def Let_def seq_def action_simps ensure_def fits_def map_err_def)
qed

lemma faultless_save:
  assumes "st_faults st = []" and "usable st" and "valid_root_id root_id" and "fits c root_id cs"
    and "st_files st root_id \<noteq> Some UnsafeEntry"
  shows "store_save c root_id cs st = (Inr (), (locked st)
    \<lparr>st_files := (st_files st)(root_id := Some (StateFile (sc_bytes c (saved_file root_id cs))))\<rparr>)"
  using assms
  by (simp add: store_save_def Let_def seq_def action_simps ensure_def faultless faultless_lock usable_def
      fits_def saved_file_def snapshot_schema_version_def)

subsection \<open>Restarts\<close>

text \<open>
  A save of the children of a root that fails, wherever its system calls stop, leaves every state file
  as it was, and loading never changes one.
\<close>

theorem a_failed_save_keeps_the_files:
  "(\<forall>e. fst (store_save cd root_id cs st) = Inl e \<longrightarrow> st_files (snd (store_save cd root_id cs st)) = st_files st)
   \<and> st_files (snd (store_load cd root_id st)) = st_files st"
proof (intro conjI allI impI)
  fix e
  assume "fst (store_save cd root_id cs st) = Inl e"
  then have "store_save cd root_id cs st = (Inl e, snd (store_save cd root_id cs st))" by (metis prod.collapse)
  with store_save_fails_clean [of cd root_id cs] show "st_files (snd (store_save cd root_id cs st)) = st_files st"
    unfolding fails_clean_def by blast
next
  have at_state: "files_stay (\<lambda>st. f st st)" if "\<And>z. files_stay (f z)" for f :: "subagent_store \<Rightarrow> child_snapshot list store_program"
    using that by (simp add: files_stay_def)
  have branch: "files_stay (case e of None \<Rightarrow> p | Some UnsafeEntry \<Rightarrow> q | Some (StateFile b) \<Rightarrow> if x b then r b else f b)"
    if "files_stay p" "files_stay q" "\<And>b. files_stay (r b)" "\<And>b. files_stay (f b)" for e p q x r
      and f :: "string \<Rightarrow> child_snapshot list store_program"
    using that by (simp split: option.split store_entry.split)
  have choose: "files_stay (if x then p else q)" if "files_stay p" "files_stay q" for x
      and p q :: "child_snapshot list store_program"
    using that by simp
  have "files_stay (store_load cd root_id)"
    unfolding store_load_def Let_def by (rule at_state) (intro files_stay_seq files_stay_rules branch choose)
  then show "st_files (snd (store_load cd root_id st)) = st_files st" by (simp add: files_stay_def)
qed

theorem a_failed_save_keeps_the_files_witness:
  "st_files (snd (store_save sample_codec ''root'' [] full_store)) = st_files full_store"
proof -
  have "valid_root_id ''root''" by (simp add: valid_root_id_def valid_id_byte_def ascii_class_defs byte_of_def)
  then have "\<exists>e. fst (store_save sample_codec ''root'' [] full_store) = Inl e"
    by (simp add: store_save_def Let_def seq_def action_simps ensure_def ensure_store_directory_def store_call_def full_store_def)
  with a_failed_save_keeps_the_files [of sample_codec "''root''" "[]" full_store] show ?thesis by blast
qed

lemma foldl_map_insert:
  assumes "sorted_wrt (<) (map f xs)" and "\<forall>k \<in> fst ` set acc. \<forall>x \<in> set xs. k < f x"
  shows "foldl (\<lambda>cs s. map_insert (f s) (g s) cs) acc xs = acc @ map (\<lambda>s. (f s, g s)) xs"
  using assms
proof (induction xs arbitrary: acc)
  case (Cons x xs)
  have "map_insert (f x) (g x) acc = acc @ [(f x, g x)]" using Cons.prems(2) by (intro map_insert_last) simp
  moreover have "\<forall>k \<in> fst ` set (acc @ [(f x, g x)]). \<forall>y \<in> set xs. k < f y" using Cons.prems by auto
  ultimately show ?case using Cons.IH [of "acc @ [(f x, g x)]"] Cons.prems(1) by simp
qed simp

text \<open>What a restart makes of a child.\<close>

definition restarted :: "times \<Rightarrow> string \<times> child \<Rightarrow> string \<times> child" where
  "restarted t = (\<lambda>(i, c). (i, new_child (reconcile t (ch_snapshot c))))"

lemma restarted_children:
  assumes "sane b m"
  shows "foldl (\<lambda>cs s. map_insert (cs_id s) (new_child (reconcile t s)) cs) [] (snapshots m) = map (restarted t) (mg_children m)"
proof -
  have ids: "\<forall>(i, c) \<in> set (mg_children m). cs_id (ch_snapshot c) = i" using assms by (auto simp: sane_def child_ok_def)
  then have keys: "map cs_id (snapshots m) = map fst (mg_children m)" by (auto simp: snapshots_def)
  have "map (\<lambda>s. (cs_id s, new_child (reconcile t s))) (snapshots m) = map (restarted t) (mg_children m)"
    using ids by (auto simp: snapshots_def restarted_def)
  moreover have "sorted_wrt (<) (map cs_id (snapshots m))" unfolding keys using assms by (simp add: sane_def)
  ultimately show ?thesis by (subst foldl_map_insert) simp_all
qed

lemma snapshots_restarted: "snapshots (m\<lparr>mg_children := map (restarted t) cs\<rparr>) = map (\<lambda>(i, c). reconcile t (ch_snapshot c)) cs"
  by (auto simp: snapshots_def restarted_def new_child_def)

lemma persist_saves:
  assumes "persist cd m = (Inr (), m1)" and "mg_store m1 = Some st"
  shows "fits cd (mg_root_id m) (snapshots m)" "valid_root_id (mg_root_id m)" "usable st"
    "st_files st (mg_root_id m) = Some (StateFile (sc_bytes cd (saved_file (mg_root_id m) (snapshots m))))"
proof -
  from assms obtain st0 where "store_save cd (mg_root_id m) (snapshots m) st0 = (Inr (), st)"
    by (auto simp: persist_def map_err_def split: option.splits prod.splits sum.splits)
  from store_save_Inr [OF this] show "fits cd (mg_root_id m) (snapshots m)" "valid_root_id (mg_root_id m)" "usable st"
    "st_files st (mg_root_id m) = Some (StateFile (sc_bytes cd (saved_file (mg_root_id m) (snapshots m))))"
    by simp_all
qed

text \<open>
  What a restart has to make of a child that was queued or running, field by field: it is interrupted,
  its generation and its time are new, one event says so behind the 199 newest others, and nothing else changes.
\<close>

definition interrupted_copy :: "times \<Rightarrow> child_snapshot \<Rightarrow> child_snapshot" where
  "interrupted_copy t s =
     \<lparr>cs_id = cs_id s, cs_parent_id = cs_parent_id s, cs_name = cs_name s, cs_mode = cs_mode s, cs_model = cs_model s,
      cs_permission_mode = cs_permission_mode s, cs_state = Interrupted,
      cs_generation = (if cs_generation s = - 1 then - 1 else cs_generation s + 1),
      cs_created_at_ms = cs_created_at_ms s, cs_updated_at_ms = fst t, cs_history = cs_history s,
      cs_queued_messages = cs_queued_messages s, cs_tool_activity = cs_tool_activity s,
      cs_events = drop (length (cs_events s) - 199) (cs_events s)
        @ [\<lparr>ce_generation = (if cs_generation s = - 1 then - 1 else cs_generation s + 1), ce_kind = ''interrupted'',
            ce_detail = ''host restarted before the child settled'', ce_at_ms = snd t\<rparr>],
      cs_last_output = cs_last_output s, cs_failure = cs_failure s\<rparr>"

lemma next_generation_eq: "saturating_add_u64 g 1 = (if g = - 1 then - 1 else g + 1)"
proof -
  have "unat (- 1 :: u64) = 2 ^ 64 - 1" by (simp add: unsigned_minus_1_eq_mask mask_eq_exp_minus_1)
  moreover have "unat g < 2 ^ 64" using unsigned_less [of g] by simp
  ultimately have "unat g + 1 < 2 ^ 64 \<longleftrightarrow> unat g \<noteq> unat (- 1 :: u64)" by linarith
  then show ?thesis by (simp add: saturating_add_u64_def word_unat_eq_iff)
qed

lemma reconcile_unsettled: "cs_state s \<in> {Queued, ChildRunning} \<Longrightarrow> reconcile t s = interrupted_copy t s"
proof -
  assume s: "cs_state s \<in> {Queued, ChildRunning}"
  have tail: "retain_tail max_event_items (es @ [e]) = drop (length es - 199) es @ [e]" for es :: "child_event list" and e
    by (simp add: retain_tail_def max_event_items_def)
  from s have "\<not> is_settled (cs_state s)" by (auto simp: is_settled_def)
  then show ?thesis
    by (cases s) (simp add: reconcile_def interrupted_copy_def push_child_event_def next_generation_def next_generation_eq tail)
qed

lemma reconcile_settled: "cs_state s \<notin> {Queued, ChildRunning} \<Longrightarrow> reconcile t s = s"
  by (auto simp: reconcile_def is_settled_def)

text \<open>What a restart makes of all children: the same names, in the same order, each as \<open>came_back\<close> says.\<close>

definition came_back :: "times \<Rightarrow> string \<times> child \<Rightarrow> string \<times> child \<Rightarrow> bool" where
  "came_back t old new \<longleftrightarrow> fst new = fst old \<and> \<not> ch_cancelled (snd new)
     \<and> ch_snapshot (snd new) =
         (if cs_state (ch_snapshot (snd old)) \<in> {Queued, ChildRunning}
          then interrupted_copy t (ch_snapshot (snd old)) else ch_snapshot (snd old))"

lemma restarted_came_back: "list_all2 (came_back t) cs (map (restarted t) cs)"
proof -
  have "came_back t ic (restarted t ic)" for ic
  proof (cases ic)
    case (Pair i c)
    show ?thesis
      using reconcile_unsettled [of "ch_snapshot c" t] reconcile_settled [of "ch_snapshot c" t]
      by (cases "cs_state (ch_snapshot c) \<in> {Queued, ChildRunning}")
        (simp_all only: Pair came_back_def restarted_def prod.case fst_conv snd_conv new_child_def child.simps if_True if_False simp_thms)
  qed
  then show ?thesis by (simp add: list_all2_conv_all_nth)
qed

lemma not_fits: "\<not> fits c root_id cs \<Longrightarrow>
    sc_bytes c (saved_file root_id cs) = [] \<or> max_store_bytes < length (sc_bytes c (saved_file root_id cs))"
  by (auto simp: fits_def not_le)

lemma faultless_save_too_large:
  assumes "st_faults st = []" and "usable st" and "valid_root_id root_id" and "\<not> fits c root_id cs"
    and "st_files st root_id \<noteq> Some UnsafeEntry"
  shows "store_save c root_id cs st = (Inl (Subagent_Store.Corrupt ''snapshot exceeds 16 MiB''), locked st)"
  using assms(1-3,5) not_fits [OF assms(4)]
  by (simp add: store_save_def Let_def seq_def action_simps ensure_def faultless faultless_lock usable_def
      saved_file_def snapshot_schema_version_def)

text \<open>
  C37. Whatever the children of a root have become since it had none, once they are saved, while no system call of the
  store fails and if the codec reads what it wrote, a restart brings all of them back, provided the file in which the unsettled ones are marked as interrupted is within
  the 16 MiB that a save writes: the settled ones as they were; those that were queued or running with the state
  interrupted, the next generation, the new time and one more event (of 200 events the oldest goes), and every other
  field, the history and the queue among them, unchanged; no run is left and nothing is queued or running. When that
  file is larger the restart fails with an error, nobody comes back, and the files stay as they are, so a state
  file just under the limit with an unsettled child can never be restored.
\<close>

theorem a_restart_brings_every_child_back:
  assumes "manager_steps cd b (fresh_manager root store) m"
    and "persist cd m = (Inr (), m1)" and "mg_store m1 = Some st" and "st_faults st = []"
    and "\<And>cs. fits cd (mg_root_id m) cs \<Longrightarrow>
        sc_parse cd (sc_bytes cd (saved_file (mg_root_id m) cs)) = Inr (saved_file (mg_root_id m) cs)"
  shows "if fits cd (mg_root_id m) (map (\<lambda>s. if cs_state s \<in> {Queued, ChildRunning} then interrupted_copy t s else s) (snapshots m))
    then \<exists>m2. restore cd t (mg_root_id m) (Some st) = (Inr m2, mg_store m2) \<and> mg_runs m2 = []
      \<and> list_all2 (came_back t) (mg_children m) (mg_children m2)
      \<and> (\<forall>(i, c) \<in> set (mg_children m2). cs_state (ch_snapshot c) \<notin> {Queued, ChildRunning})
    else \<exists>e st'. restore cd t (mg_root_id m) (Some st) = (Inl e, Some st') \<and> st_files st' = st_files st"
proof -
  let ?r = "mg_root_id m"
  let ?m = "\<lparr>mg_root_id = ?r, mg_children = map (restarted t) (mg_children m), mg_runs = [], mg_store = Some (locked st)\<rparr>"
  note saved = persist_saves [OF assms(2,3)]
  have load: "store_load cd ?r st = (Inr (snapshots m), locked st)"
    using faultless_load [OF assms(4) saved(3,2,1,4)] assms(5) [OF saved(1)] by blast
  have children: "foldl (\<lambda>cs s. map_insert (cs_id s) (new_child (reconcile t s)) cs) [] (snapshots m) = map (restarted t) (mg_children m)"
    by (rule restarted_children) (rule steps_sane [OF assms(1) fresh_sane])
  have snaps: "snapshots ?m = map (reconcile t) (snapshots m)" by (auto simp: snapshots_def restarted_def new_child_def)
  have "reconcile t s = (if cs_state s \<in> {Queued, ChildRunning} then interrupted_copy t s else s)" for s
    using reconcile_unsettled [of s t] reconcile_settled [of s t] by (simp only: split: if_split) blast
  then have marked: "map (\<lambda>s. if cs_state s \<in> {Queued, ChildRunning} then interrupted_copy t s else s) (snapshots m)
      = map (reconcile t) (snapshots m)" by (intro map_cong refl) (rule sym)
  show ?thesis
  proof (cases "fits cd ?r (map (reconcile t) (snapshots m))")
    case True
    have "\<exists>st'. persist cd ?m = (Inr (), ?m\<lparr>mg_store := Some st'\<rparr>)"
      using faultless_save [of "locked st" ?r cd "map (reconcile t) (snapshots m)"] saved(2-4) assms(4) True
      by (simp add: persist_def snaps map_err_def)
    then obtain st' where p: "persist cd ?m = (Inr (), ?m\<lparr>mg_store := Some st'\<rparr>)" ..
    have "\<exists>m2. restore cd t ?r (Some st) = (Inr m2, mg_store m2) \<and> mg_runs m2 = []
        \<and> mg_children m2 = map (restarted t) (mg_children m)"
      by (simp add: restore_def load children Let_def p)
    then obtain m2 where m2: "restore cd t ?r (Some st) = (Inr m2, mg_store m2)" "mg_runs m2 = []"
      "mg_children m2 = map (restarted t) (mg_children m)" by blast
    have "cs_state (reconcile t s) \<notin> {Queued, ChildRunning}" for s
      by (simp add: reconcile_def push_child_event_def is_settled_def next_generation_def)
    then have "\<forall>(i, c) \<in> set (mg_children m2). cs_state (ch_snapshot c) \<notin> {Queued, ChildRunning}"
      by (auto simp: m2(3) restarted_def new_child_def)
    with m2 True restarted_came_back [of t "mg_children m"] show ?thesis unfolding marked by (simp only: if_True) metis
  next
    case False
    have "\<not> list_all (\<lambda>s. is_settled (cs_state s)) (snapshots m)"
    proof
      assume "list_all (\<lambda>s. is_settled (cs_state s)) (snapshots m)"
      then have "map (reconcile t) (snapshots m) = map id (snapshots m)"
        by (intro map_cong refl) (simp add: list_all_iff reconcile_def)
      with False saved(1) show False by simp
    qed
    then have u: "list_ex (\<lambda>s. \<not> is_settled (cs_state s)) (snapshots m)" by (auto simp: list_ex_iff list_all_iff)
    have "persist cd ?m = (Inl (StoreFailed (Subagent_Store.Corrupt ''snapshot exceeds 16 MiB'')), ?m)"
      using faultless_save_too_large [of "locked st" ?r cd "map (reconcile t) (snapshots m)"] saved(2-4) assms(4) False
      by (simp add: persist_def snaps map_err_def) (simp add: locked_def)
    then have "restore cd t ?r (Some st) = (Inl (Subagent_Store.Corrupt ''snapshot exceeds 16 MiB''), Some (locked st))"
      by (simp add: restore_def load children Let_def u)
    with False show ?thesis unfolding marked by (simp only: if_False) (metis locked_simps(2))
  qed
qed

text \<open>A child that is queued when the host restarts, and a codec for the two files there are.\<close>

definition queued_file :: snapshot_file where
  "queued_file = saved_file ''root'' [sample_child ''child-1'' ''root'' (Some ''a'')]"

definition interrupted_file :: snapshot_file where
  "interrupted_file = saved_file ''root'' [reconcile (7, 8) (sample_child ''child-1'' ''root'' (Some ''a''))]"

definition two_file_codec :: snapshot_codec where
  "two_file_codec = \<lparr>sc_bytes = (\<lambda>f. if f = queued_file then ''q'' else if f = interrupted_file then ''in'' else []),
     sc_parse = (\<lambda>b. if b = ''q'' then Inr queued_file else if b = ''in'' then Inr interrupted_file else Inl ''bad'')\<rparr>"

definition empty_store :: subagent_store where
  "empty_store = \<lparr>st_root = ''/s'', st_dir = PrivateDir, st_lock = None, st_files = (\<lambda>_. None), st_faults = []\<rparr>"

definition queued_store :: subagent_store where
  "queued_store = (locked empty_store)\<lparr>st_files := (\<lambda>_. None)(''root'' := Some (StateFile ''q''))\<rparr>"

definition queued_manager :: manager where
  "queued_manager = \<lparr>mg_root_id = ''root'', mg_children = [(''child-1'', new_child (sample_child ''child-1'' ''root'' (Some ''a'')))],
     mg_runs = [], mg_store = Some queued_store\<rparr>"

lemma two_files:
  "fits two_file_codec ''root'' cs \<longleftrightarrow> saved_file ''root'' cs \<in> {queued_file, interrupted_file}"
  "f \<in> {queued_file, interrupted_file} \<Longrightarrow> sc_parse two_file_codec (sc_bytes two_file_codec f) = Inr f"
  by (auto simp: fits_def two_file_codec_def max_store_bytes_def)

lemma queued_saved:
  assumes "st_faults st = []" and "usable st" and "st_files st ''root'' \<noteq> Some UnsafeEntry"
  shows "store_save two_file_codec ''root'' [sample_child ''child-1'' ''root'' (Some ''a'')] st
    = (Inr (), (locked st)\<lparr>st_files := (st_files st)(''root'' := Some (StateFile ''q''))\<rparr>)"
proof -
  have "fits two_file_codec ''root'' [sample_child ''child-1'' ''root'' (Some ''a'')]"
    by (simp add: two_files queued_file_def)
  moreover have "valid_root_id ''root''" by (simp add: valid_root_id_def valid_id_byte_def ascii_class_defs byte_of_def)
  moreover have "sc_bytes two_file_codec (saved_file ''root'' [sample_child ''child-1'' ''root'' (Some ''a'')]) = ''q''"
    by (simp add: two_file_codec_def queued_file_def)
  ultimately show ?thesis using faultless_save [OF assms(1,2) _ _ assms(3), of two_file_codec] by simp
qed

lemma queued_reached:
  "manager_steps two_file_codec 0 (fresh_manager ''root'' (Some empty_store)) (spawn_run ''child-1'' ''a'' queued_manager)"
proof -
  have c: "check_create AskMode (sample_create (Some ''a'')) = Inr AskMode"
    by (simp add: check_create_def sample_create_def validate_opt_text_def sample_valid max_name_bytes_def max_prompt_bytes_def
        within_authority_def ensure_def)
  let ?m = "fresh_manager ''root'' (Some empty_store)" and ?w = "sample_surroundings ''1''" and ?i = "sample_create (Some ''a'')"
  let ?s = "sample_child ''child-1'' ''root'' (Some ''a'')"
  have s: "?s = created_snapshot (sur_times ?w) (''child-'' @ sur_uuid ?w) ''root'' AskMode ?i"
    by (simp add: sample_child_def sample_surroundings_def)
  have p: "persist two_file_codec (?m\<lparr>mg_children := map_insert (''child-'' @ sur_uuid ?w) (new_child ?s) (mg_children ?m)\<rparr>)
      = (Inr (), queued_manager)"
    using queued_saved [of empty_store]
    by (simp add: persist_def fresh_manager_def snapshots_def new_child_def usable_def empty_store_def map_err_def
        queued_manager_def queued_store_def sample_surroundings_def)
  have "manager_step two_file_codec 0 ?m (spawn_run ''child-1'' ''a'' queued_manager)"
    by (rule commanded [of AskMode 0 "''root''" ?m ?w two_file_codec "create_only ?i"])
       (simp_all add: execute_create_saved [OF c s p], simp_all add: fresh_manager_def sample_surroundings_def sample_create_def)
  then show ?thesis by (blast intro: stay then_step)
qed

theorem a_restart_brings_every_child_back_witness:
  "\<exists>m2. fst (restore two_file_codec (7, 8) ''root'' (Some queued_store)) = Inr m2 \<and> mg_runs m2 = []
    \<and> map (cs_state \<circ> ch_snapshot \<circ> snd) (mg_children m2) = [Interrupted]"
proof -
  let ?m = "spawn_run ''child-1'' ''a'' queued_manager"
  have f: "mg_root_id ?m = ''root''" "snapshots ?m = [sample_child ''child-1'' ''root'' (Some ''a'')]"
    "mg_children ?m = [(''child-1'', new_child (sample_child ''child-1'' ''root'' (Some ''a'')))]"
    by (simp_all add: spawn_run_def queued_manager_def snapshots_def new_child_def)
  have st: "st_faults queued_store = []" "usable queued_store" "locked queued_store = queued_store"
    "st_files queued_store = (\<lambda>_. None)(''root'' := Some (StateFile ''q''))"
    by (simp_all add: queued_store_def empty_store_def usable_def locked_def)
  have p: "persist two_file_codec ?m = (Inr (), ?m)"
    using queued_saved [of queued_store] st f
    by (simp add: persist_def map_err_def) (simp add: spawn_run_def queued_manager_def queued_store_def)
  have s: "mg_store ?m = Some queued_store" by (simp add: spawn_run_def queued_manager_def)
  have unsettled: "cs_state (sample_child ''child-1'' ''root'' (Some ''a'')) \<in> {Queued, ChildRunning}"
    by (simp add: sample_child_def created_snapshot_def push_child_event_def sample_create_def)
  have "fits two_file_codec ''root'' (map (\<lambda>s. if cs_state s \<in> {Queued, ChildRunning} then interrupted_copy (7, 8) s else s)
      (snapshots ?m))"
    using unsettled by (simp only: two_files f list.map if_True interrupted_file_def reconcile_unsettled [OF unsettled] insert_iff simp_thms)
  moreover have "sc_parse two_file_codec (sc_bytes two_file_codec (saved_file ''root'' cs)) = Inr (saved_file ''root'' cs)"
    if "fits two_file_codec ''root'' cs" for cs
    using that two_files by blast
  ultimately obtain m2 where m2: "restore two_file_codec (7, 8) ''root'' (Some queued_store) = (Inr m2, mg_store m2)"
    "mg_runs m2 = []" "list_all2 (came_back (7, 8)) (mg_children ?m) (mg_children m2)"
    using a_restart_brings_every_child_back [OF queued_reached p s st(1), where t = "(7, 8)"] unfolding f
    by (simp only: if_True) blast
  from m2(3) unsettled have "map (cs_state \<circ> ch_snapshot \<circ> snd) (mg_children m2) = [Interrupted]"
    unfolding f by (auto simp: list_all2_Cons1 came_back_def new_child_def interrupted_copy_def)
  with m2 show ?thesis by (intro exI [of _ m2]) (simp only: fst_conv simp_thms)
qed

end
