(* ===== verification/Subagent_Pages.thy ===== *)
theory Subagent_Pages
  imports Subagent_Samples
begin

section \<open>Reading a history page by page\<close>

text \<open>A caller that follows the cursors of inspections (\<open>project_inspection\<close> of \<open>fx-subagent/src/lib.rs\<close>).\<close>

text \<open>The items and the cursor in an answer.\<close>

definition message_page :: "json \<Rightarrow> (json list \<times> string option) option" where
  "message_page v =
     (case v of JObject fs \<Rightarrow> (case map_of fs ''requested'' of
        Some (JObject r) \<Rightarrow> (case map_of r ''messages'' of
          Some (JObject p) \<Rightarrow> (case (map_of p ''items'', map_of p ''next_cursor'') of
            (Some (JArray js), Some (JString c)) \<Rightarrow> Some (js, Some c)
          | (Some (JArray js), Some JNull) \<Rightarrow> Some (js, None)
          | _ \<Rightarrow> None)
        | _ \<Rightarrow> None)
      | _ \<Rightarrow> None)
    | _ \<Rightarrow> None)"

fun all_pages :: "nat \<Rightarrow> child_snapshot \<Rightarrow> nat \<Rightarrow> string option \<Rightarrow> json list option" where
  "all_pages 0 s limit cursor = None"
| "all_pages (Suc n) s limit cursor =
     (case project_inspection s
          \<lparr>ii_id = cs_id s, ii_sections = [MessagesSection], ii_cursor = cursor, ii_limit = Some limit, ii_wait = None\<rparr> False of
        Inl e \<Rightarrow> None
      | Inr v \<Rightarrow> (case message_page v of
          None \<Rightarrow> None
        | Some (js, None) \<Rightarrow> Some js
        | Some (js, Some c) \<Rightarrow> map_option ((@) js) (all_pages n s limit (Some c))))"

lemma parse_show_usize: "n \<le> usize_max \<Longrightarrow> parse_usize (show_nat n) = Some n"
proof -
  assume n: "n \<le> usize_max"
  have d: "list_all is_ascii_digit (show_nat n)" by (rule show_nat_digits)
  then have "hd (show_nat n) \<noteq> CHR ''+''"
    by (cases "show_nat n") (auto simp: is_ascii_digit_def byte_of_def)
  with d n show ?thesis by (simp add: parse_usize_def Let_def)
qed

definition cursor_offset :: "string option \<Rightarrow> nat option" where
  "cursor_offset c = (case c of None \<Rightarrow> Some 0 | Some t \<Rightarrow> parse_usize t)"

lemma one_page:
  assumes "cursor_offset c = Some k" and "k \<le> length (cs_history s)" and "0 < limit" and "limit \<le> 100"
  shows "\<exists>v. project_inspection s
      \<lparr>ii_id = cs_id s, ii_sections = [MessagesSection], ii_cursor = c, ii_limit = Some limit, ii_wait = None\<rparr> False = Inr v
    \<and> message_page v = Some (map message_json (take limit (drop k (cs_history s))),
        if k + limit < length (cs_history s) then Some (show_nat (k + limit)) else None)"
proof -
  have "(case c of None \<Rightarrow> Inr 0 | Some c \<Rightarrow> ok_or (InvalidInput ''invalid inspect cursor'') (parse_usize c)) = Inr k"
    using assms(1) by (cases c) (simp_all add: cursor_offset_def)
  with assms(2-4) show ?thesis
    by (simp add: project_inspection_def max_page_limit_def not_less min_def outcome_def message_page_def)
qed

lemma pages_from:
  assumes "0 < limit" and "limit \<le> 100" and "length (cs_history s) \<le> usize_max"
  shows "cursor_offset c = Some k \<Longrightarrow> k \<le> length (cs_history s) \<Longrightarrow> length (cs_history s) < k + n \<Longrightarrow>
    all_pages n s limit c = Some (map message_json (drop k (cs_history s)))"
proof (induction n arbitrary: c k)
  case (Suc n)
  obtain v where v: "project_inspection s
      \<lparr>ii_id = cs_id s, ii_sections = [MessagesSection], ii_cursor = c, ii_limit = Some limit, ii_wait = None\<rparr> False = Inr v"
    and p: "message_page v = Some (map message_json (take limit (drop k (cs_history s))),
        if k + limit < length (cs_history s) then Some (show_nat (k + limit)) else None)"
    using one_page [OF Suc.prems(1,2) assms(1,2)] by blast
  show ?case
  proof (cases "k + limit < length (cs_history s)")
    case True
    have "all_pages n s limit (Some (show_nat (k + limit))) = Some (map message_json (drop (k + limit) (cs_history s)))"
      by (rule Suc.IH) (use True assms Suc.prems in \<open>simp_all add: cursor_offset_def parse_show_usize\<close>)
    moreover have "take limit (drop k (cs_history s)) @ drop (k + limit) (cs_history s) = drop k (cs_history s)"
      by (metis add.commute append_take_drop_id drop_drop)
    ultimately show ?thesis using v p True by (simp flip: map_append)
  next
    case False
    with v p show ?thesis by simp
  qed
qed simp

text \<open>
  A caller that asks for the messages of a child and follows the cursors gets the whole history, each message
  once and in order, whatever page size it chose, and ends after at most one page for each message.
\<close>

theorem following_the_cursors_reads_the_whole_history:
  assumes "0 < limit" and "limit \<le> 100" and "length (cs_history s) \<le> usize_max"
  shows "all_pages (Suc (length (cs_history s))) s limit None = Some (map message_json (cs_history s))"
  using pages_from [OF assms, of None 0 "Suc (length (cs_history s))"] by (simp add: cursor_offset_def del: all_pages.simps)

theorem following_the_cursors_reads_the_whole_history_witness:
  "\<exists>s. length (cs_history s) = 3 \<and> all_pages 4 s 2 None = Some (map message_json (cs_history s))"
proof -
  obtain m :: chat_message where True by simp
  let ?s = "(sample_child [] [] None)\<lparr>cs_history := [m, m, m]\<rparr>"
  have h: "length (cs_history ?s) = 3" and b: "3 \<le> usize_max" by (simp, simp add: usize_max_def)
  have "all_pages (Suc 3) ?s 2 None = Some (map message_json (cs_history ?s))"
    by (rule following_the_cursors_reads_the_whole_history [of 2 ?s, unfolded h]) (use b in simp_all)
  moreover have "Suc 3 = 4" by simp
  ultimately show ?thesis using h by metis
qed

end
