(* ===== verification/Disk.thy ===== *)
theory Disk
  imports Workspace_Path Actions
begin

section \<open>A file system\<close>

text \<open>
  What the file tools use of \<open>std::fs\<close> on Unix, on a disk that is an explicit map from absolute names to
  nodes. A call meets a moment: what other processes have done to the disk since the last call, and the
  error it ends with if it does not work. When the moments are used up nobody interferes and every call works.
\<close>

subsection \<open>Nodes and names\<close>

text \<open>The names from the root to a node; the root itself is a directory that is always there.\<close>

type_synonym names = "string list"

record file_meta =
  fm_modified_ns :: int
  fm_device :: nat
  fm_inode :: nat
  fm_mode :: "32 word"

datatype disk_node =
    FileNode file_meta string
  | DirNode file_meta
  | LinkNode string
  | OtherNode file_meta

record disk =
  dk_nodes :: "(names \<times> disk_node) list"
  dk_root :: file_meta
  dk_home :: "string option"
  dk_fresh :: file_meta

text \<open>\<open>dk_fresh\<close> is what the next file that is created gets: the time, a device, a new inode and a mode.\<close>

definition node_at :: "disk \<Rightarrow> names \<Rightarrow> disk_node option" where
  "node_at d p = (if p = [] then Some (DirNode (dk_root d)) else map_of (dk_nodes d) p)"

fun put_node :: "names \<Rightarrow> disk_node \<Rightarrow> (names \<times> disk_node) list \<Rightarrow> (names \<times> disk_node) list" where
  "put_node p v [] = [(p, v)]"
| "put_node p v ((q, u) # ns) = (if p = q then (q, v) # ns else (q, u) # put_node p v ns)"

definition set_node :: "names \<Rightarrow> disk_node \<Rightarrow> disk \<Rightarrow> disk" where
  "set_node p v d = d\<lparr>dk_nodes := put_node p v (dk_nodes d)\<rparr>"

definition drop_nodes :: "(names \<Rightarrow> bool) \<Rightarrow> disk \<Rightarrow> disk" where
  "drop_nodes away d = d\<lparr>dk_nodes := filter (\<lambda>(p, v). \<not> away p) (dk_nodes d)\<rparr>"

definition names_below :: "disk \<Rightarrow> names \<Rightarrow> names list" where
  "names_below d p = map fst (filter (\<lambda>(q, v). p \<noteq> q \<and> prefix p q) (dk_nodes d))"

definition path_of :: "names \<Rightarrow> string" where
  "path_of p = render (RootDir # map Normal p)"

definition used_inode :: "disk \<Rightarrow> disk" where
  "used_inode d = d\<lparr>dk_fresh := (dk_fresh d)\<lparr>fm_inode := fm_inode (dk_fresh d) + 1\<rparr>\<rparr>"

text \<open>What \<open>metadata\<close> gives for a node; links are followed before.\<close>

definition node_meta :: "disk_node \<Rightarrow> file_meta" where
  "node_meta v =
     (case v of
        FileNode m _ \<Rightarrow> m
      | DirNode m \<Rightarrow> m
      | OtherNode m \<Rightarrow> m
      | LinkNode _ \<Rightarrow> \<lparr>fm_modified_ns = 0, fm_device = 0, fm_inode = 0, fm_mode = 0\<rparr>)"

subsection \<open>Errors of the operating system\<close>

definition os_error :: "string \<Rightarrow> io_error" where
  "os_error m = \<lparr>io_not_found = False, io_message = m\<rparr>"

definition enoent :: io_error where
  "enoent = \<lparr>io_not_found = True, io_message = ''No such file or directory (os error 2)''\<rparr>"

definition eexist :: io_error where "eexist = os_error ''File exists (os error 17)''"
definition enotdir :: io_error where "enotdir = os_error ''Not a directory (os error 20)''"
definition eisdir :: io_error where "eisdir = os_error ''Is a directory (os error 21)''"
definition einval :: io_error where "einval = os_error ''Invalid argument (os error 22)''"
definition enotempty :: io_error where "enotempty = os_error ''Directory not empty (os error 39)''"
definition eloop :: io_error where "eloop = os_error ''Too many levels of symbolic links (os error 40)''"

subsection \<open>Resolution\<close>

text \<open>
  Path resolution from a directory that is there: links are followed, at most \<open>links\<close> of them. A relative
  path starts at the root here; the tools use absolute ones only.
\<close>

function walk :: "disk \<Rightarrow> nat \<Rightarrow> names \<Rightarrow> component list \<Rightarrow> io_error + names" where
  "walk d links base [] = Inr base"
| "walk d links base (RootDir # cs) = walk d links [] cs"
| "walk d links base (CurDir # cs) = walk d links base cs"
| "walk d links base (ParentDir # cs) = walk d links (butlast base) cs"
| "walk d links base (Normal n # cs) =
     (case node_at d (base @ [n]) of
        None \<Rightarrow> Inl enoent
      | Some (LinkNode t) \<Rightarrow> (case links of 0 \<Rightarrow> Inl eloop | Suc k \<Rightarrow> walk d k base (components t @ cs))
      | Some (DirNode _) \<Rightarrow> walk d links (base @ [n]) cs
      | Some _ \<Rightarrow> if cs = [] then Inr (base @ [n]) else Inl enotdir)"
  by pat_completeness auto
termination
  by (relation "inv_image (less_than <*lex*> less_than) (\<lambda>(d, links, base, cs). (links, length cs))") auto

definition max_links :: nat where "max_links = 40"

definition locate :: "disk \<Rightarrow> string \<Rightarrow> io_error + names" where
  "locate d path = walk d max_links [] (components path)"

text \<open>The place of an entry itself: everything but its last name is followed.\<close>

definition locate_entry :: "disk \<Rightarrow> string \<Rightarrow> io_error + names" where
  "locate_entry d path =
     (let cs = components path in
      case (if cs = [] then RootDir else last cs) of
        Normal n \<Rightarrow>
          and_then (walk d max_links [] (butlast cs)) (\<lambda>base.
            case node_at d base of Some (DirNode _) \<Rightarrow> Inr (base @ [n]) | _ \<Rightarrow> Inl enotdir)
      | _ \<Rightarrow> locate d path)"

definition entry_node :: "disk \<Rightarrow> string \<Rightarrow> io_error + disk_node" where
  "entry_node d path = and_then (locate_entry d path) (\<lambda>p. ok_or enoent (node_at d p))"

definition fs_of :: "disk \<Rightarrow> file_system" where
  "fs_of d =
     \<lparr>canonicalize = (\<lambda>p. and_then (locate d p) (\<lambda>q. Inr (path_of q))),
      read_link = (\<lambda>p. and_then (entry_node d p) (\<lambda>v. case v of LinkNode t \<Rightarrow> Inr t | _ \<Rightarrow> Inl einval)),
      entry_is_symlink = (\<lambda>p. case entry_node d p of Inr (LinkNode t) \<Rightarrow> True | _ \<Rightarrow> False),
      home = dk_home d\<rparr>"

subsection \<open>Calls\<close>

text \<open>\<open>fs::metadata\<close> and \<open>File::open\<close>: the node a path leads to.\<close>

definition stat :: "string \<Rightarrow> disk \<Rightarrow> io_error + disk_node" where
  "stat path d = and_then (locate d path) (\<lambda>p. ok_or enoent (node_at d p))"

text \<open>\<open>fs::create_dir_all\<close>.\<close>

fun make_dirs :: "names \<Rightarrow> component list \<Rightarrow> disk \<Rightarrow> (io_error + unit) \<times> disk" where
  "make_dirs base [] d = (Inr (), d)"
| "make_dirs base (RootDir # cs) d = make_dirs [] cs d"
| "make_dirs base (CurDir # cs) d = make_dirs base cs d"
| "make_dirs base (ParentDir # cs) d = make_dirs (butlast base) cs d"
| "make_dirs base (Normal n # cs) d =
     (case node_at d (base @ [n]) of
        None \<Rightarrow> make_dirs (base @ [n]) cs (used_inode (set_node (base @ [n]) (DirNode (dk_fresh d)) d))
      | Some (DirNode _) \<Rightarrow> make_dirs (base @ [n]) cs d
      | Some (LinkNode _) \<Rightarrow>
          (case walk d max_links base [Normal n] of
             Inr p \<Rightarrow> (case node_at d p of
                 Some (DirNode _) \<Rightarrow> make_dirs p cs d
               | _ \<Rightarrow> (Inl (if cs = [] then eexist else enotdir), d))
           | Inl e \<Rightarrow> (Inl eexist, d))
      | Some _ \<Rightarrow> (Inl (if cs = [] then eexist else enotdir), d))"

definition create_dir_all :: "string \<Rightarrow> disk \<Rightarrow> (io_error + unit) \<times> disk" where
  "create_dir_all path = make_dirs [] (components path)"

text \<open>
  \<open>AtomicWriteFile::commit\<close>: the staged file, a new one, takes the place of the entry. It has the mode it
  was given, or else the one of the file it replaces, or else a fresh file's.
\<close>

definition replace_file :: "string \<Rightarrow> 32 word option \<Rightarrow> string \<Rightarrow> disk \<Rightarrow> (io_error + unit) \<times> disk" where
  "replace_file path mode body d =
     (case locate_entry d path of
        Inl e \<Rightarrow> (Inl e, d)
      | Inr p \<Rightarrow>
          (case node_at d p of
             Some (DirNode _) \<Rightarrow> (Inl eisdir, d)
           | old \<Rightarrow>
               let kept = (case old of Some (FileNode m _) \<Rightarrow> fm_mode m | _ \<Rightarrow> fm_mode (dk_fresh d));
                   new_mode = (case mode of Some m \<Rightarrow> m | None \<Rightarrow> kept) in
               (Inr (), used_inode (set_node p (FileNode ((dk_fresh d)\<lparr>fm_mode := new_mode\<rparr>) body) d))))"

definition remove_file :: "string \<Rightarrow> disk \<Rightarrow> (io_error + unit) \<times> disk" where
  "remove_file path d =
     (case locate_entry d path of
        Inl e \<Rightarrow> (Inl e, d)
      | Inr p \<Rightarrow>
          (case node_at d p of
             None \<Rightarrow> (Inl enoent, d)
           | Some (DirNode _) \<Rightarrow> (Inl eisdir, d)
           | Some _ \<Rightarrow> (Inr (), drop_nodes (\<lambda>q. q = p) d)))"

definition remove_dir :: "string \<Rightarrow> disk \<Rightarrow> (io_error + unit) \<times> disk" where
  "remove_dir path d =
     (case locate_entry d path of
        Inl e \<Rightarrow> (Inl e, d)
      | Inr p \<Rightarrow>
          (case node_at d p of
             None \<Rightarrow> (Inl enoent, d)
           | Some (DirNode _) \<Rightarrow>
               if p = [] then (Inl (os_error ''Device or resource busy (os error 16)''), d)
               else if names_below d p \<noteq> [] then (Inl enotempty, d)
               else (Inr (), drop_nodes (\<lambda>q. q = p) d)
           | Some _ \<Rightarrow> (Inl enotdir, d)))"

text \<open>\<open>fs::rename\<close>: the entry and everything below it moves.\<close>

definition move_names :: "names \<Rightarrow> names \<Rightarrow> names \<Rightarrow> names" where
  "move_names p q r = (if prefix p r then q @ drop (length p) r else r)"

definition move_entry :: "names \<Rightarrow> names \<Rightarrow> disk \<Rightarrow> disk" where
  "move_entry p q d =
     (let d = drop_nodes (\<lambda>r. r = q) d in d\<lparr>dk_nodes := map (\<lambda>(r, v). (move_names p q r, v)) (dk_nodes d)\<rparr>)"

definition is_dir_node :: "disk_node option \<Rightarrow> bool" where
  "is_dir_node v = (case v of Some (DirNode _) \<Rightarrow> True | _ \<Rightarrow> False)"

definition rename_entry :: "string \<Rightarrow> string \<Rightarrow> disk \<Rightarrow> (io_error + unit) \<times> disk" where
  "rename_entry source target d =
     (case (locate_entry d source, locate_entry d target) of
        (Inl e, _) \<Rightarrow> (Inl e, d)
      | (_, Inl e) \<Rightarrow> (Inl e, d)
      | (Inr p, Inr q) \<Rightarrow>
          (case node_at d p of
             None \<Rightarrow> (Inl enoent, d)
           | Some v \<Rightarrow>
               if p = q then (Inr (), d)
               else if p = [] \<or> q = [] then (Inl (os_error ''Device or resource busy (os error 16)''), d)
               else if is_dir_node (Some v) \<and> prefix p q then (Inl einval, d)
               else if is_dir_node (Some v) \<and> node_at d q \<noteq> None \<and> \<not> is_dir_node (node_at d q) then (Inl enotdir, d)
               else if \<not> is_dir_node (Some v) \<and> is_dir_node (node_at d q) then (Inl eisdir, d)
               else if is_dir_node (node_at d q) \<and> names_below d q \<noteq> [] then (Inl enotempty, d)
               else (Inr (), move_entry p q d)))"

text \<open>\<open>fs::read_dir\<close>: the entries of a directory, in the order the disk keeps them.\<close>

definition children_of :: "disk \<Rightarrow> names \<Rightarrow> (string \<times> disk_node) list" where
  "children_of d p =
     map (\<lambda>(q, v). (last q, v)) (filter (\<lambda>(q, v). q \<noteq> [] \<and> butlast q = p) (dk_nodes d))"

definition read_dir :: "string \<Rightarrow> disk \<Rightarrow> io_error + (string \<times> disk_node) list" where
  "read_dir path d =
     and_then (locate d path) (\<lambda>p.
       if is_dir_node (node_at d p) then Inr (children_of d p) else Inl enotdir)"

end
