(* ===== verification/File_Mutation.thy ===== *)
theory File_Mutation
  imports Disk Tools
begin

section \<open>Changing files\<close>

text \<open>
  \<open>fx-tools/src/file_mutation.rs\<close>, \<open>write_file.rs\<close> and \<open>edit_file.rs\<close>: a change is prepared from a
  snapshot of the file, shown, and committed later if the file is still the one that was shown. Parameters:
  \<open>sha256\<close>, and \<open>find_all\<close>, the positions \<open>memmem::find_iter\<close> gives for a text and what is searched in it.
\<close>

subsection \<open>The world of the file tools\<close>

record moment =
  mo_change :: "disk \<Rightarrow> disk"
  mo_fault :: "string option"

record tool_world =
  tw_disk :: disk
  tw_moments :: "moment list"
  tw_evidence :: "memory_evidence option"

type_synonym 'a tool_action = "tool_world \<Rightarrow> (tool_error + 'a) \<times> tool_world"

definition next_moment :: "tool_world \<Rightarrow> string option \<times> tool_world" where
  "next_moment w =
     (case tw_moments w of
        [] \<Rightarrow> (None, w)
      | m # ms \<Rightarrow> (mo_fault m, w\<lparr>tw_disk := mo_change m (tw_disk w), tw_moments := ms\<rparr>))"

definition disk_call ::
  "(io_error \<Rightarrow> 'e) \<Rightarrow> (disk \<Rightarrow> (io_error + 'a) \<times> disk) \<Rightarrow> tool_world \<Rightarrow> ('e + 'a) \<times> tool_world" where
  "disk_call err f w =
     (case next_moment w of
        (Some m, w) \<Rightarrow> (Inl (err (os_error m)), w)
      | (None, w) \<Rightarrow> (case f (tw_disk w) of (r, d) \<Rightarrow> (map_err err r, w\<lparr>tw_disk := d\<rparr>)))"

definition disk_look ::
  "(io_error \<Rightarrow> 'e) \<Rightarrow> (disk \<Rightarrow> io_error + 'a) \<Rightarrow> tool_world \<Rightarrow> ('e + 'a) \<times> tool_world" where
  "disk_look err f = disk_call err (\<lambda>d. (f d, d))"

text \<open>Path resolution sees one state of the disk, and a fault in its first system call.\<close>

definition resolving :: "(file_system \<Rightarrow> tool_error + 'a) \<Rightarrow> 'a tool_action" where
  "resolving f w =
     (case next_moment w of
        (Some m, w) \<Rightarrow> (f ((fs_of (tw_disk w))\<lparr>canonicalize := (\<lambda>_. Inl (os_error m))\<rparr>), w)
      | (None, w) \<Rightarrow> (f (fs_of (tw_disk w)), w))"

definition change_evidence :: "(memory_evidence \<Rightarrow> memory_evidence) \<Rightarrow> unit tool_action" where
  "change_evidence f w = (Inr (), w\<lparr>tw_evidence := map_option f (tw_evidence w)\<rparr>)"

subsection \<open>Snapshots\<close>

definition max_content_bytes :: nat where "max_content_bytes = 4 * 1024 * 1024"
definition max_path_bytes :: nat where "max_path_bytes = 4 * 1024"

datatype mutation_kind = WriteKind | EditKind

datatype mutation = WriteAll string | EditOne string string

record file_identity =
  id_len :: nat
  id_modified_ns :: int
  id_device :: nat
  id_inode :: nat
  id_mode :: "32 word"

record snapshot =
  sn_identity :: file_identity
  sn_content_hash :: "nat list"
  sn_content :: string

text \<open>\<open>i128\<close> nanoseconds, clamped at its maximum.\<close>

definition i128_max :: int where "i128_max = 2 ^ 127 - 1"

definition metadata_modified_ns :: "file_meta \<Rightarrow> int" where
  "metadata_modified_ns m = max (- i128_max) (min i128_max (fm_modified_ns m))"

definition identity_of :: "file_meta \<Rightarrow> string \<Rightarrow> file_identity" where
  "identity_of m body =
     \<lparr>id_len = length body, id_modified_ns = metadata_modified_ns m, id_device = fm_device m,
      id_inode = fm_inode m, id_mode = fm_mode m\<rparr>"

definition mutation_io_error :: "string \<Rightarrow> io_error \<Rightarrow> tool_error" where
  "mutation_io_error path e = Execution (''file mutation failed before commit: '' @ path @ '': '' @ io_message e)"

definition snapshot_of :: "(string \<Rightarrow> nat list) \<Rightarrow> string \<Rightarrow> io_error + disk_node \<Rightarrow> tool_error + snapshot option" where
  "snapshot_of sha256 path opened =
     (case opened of
        Inl e \<Rightarrow> if io_not_found e then Inr None else Inl (mutation_io_error path e)
      | Inr (FileNode m body) \<Rightarrow>
          if max_content_bytes < length body then
            Inl (Execution ''file mutation preparation failed: preimage exceeds the 4 MiB preparation limit'')
          else Inr (Some \<lparr>sn_identity = identity_of m body, sn_content_hash = sha256 body, sn_content = body\<rparr>)
      | Inr _ \<Rightarrow> Inl (Execution (''file mutation preparation failed: '' @ path @ '' is not a regular file'')))"

text \<open>The file is opened and read through its handle: one look.\<close>

definition read_snapshot :: "(string \<Rightarrow> nat list) \<Rightarrow> string \<Rightarrow> snapshot option tool_action" where
  "read_snapshot sha256 path w =
     (case next_moment w of
        (Some m, w) \<Rightarrow> (snapshot_of sha256 path (Inl (os_error m)), w)
      | (None, w) \<Rightarrow> (snapshot_of sha256 path (stat path (tw_disk w)), w))"

subsection \<open>What a change makes of a file\<close>

definition derive_postimage ::
  "(string \<Rightarrow> string \<Rightarrow> nat list) \<Rightarrow> snapshot option \<Rightarrow> mutation \<Rightarrow> tool_error + string" where
  "derive_postimage find_all preimage mut =
     (case mut of
        WriteAll body \<Rightarrow>
          if max_content_bytes < length body then
            Inl (InvalidArguments ''write_file failed: content exceeds the 4 MiB preparation limit'')
          else Inr body
      | EditOne old_string new_string \<Rightarrow>
          if max_content_bytes < length old_string then
            Inl (InvalidArguments ''edit_file failed: old_string exceeds the 4 MiB preparation limit'')
          else if max_content_bytes < length new_string then
            Inl (InvalidArguments ''edit_file failed: new_string exceeds the 4 MiB preparation limit'')
          else if old_string = new_string then
            Inl (InvalidArguments ''edit_file failed: old_string and new_string are identical'')
          else and_then (ok_or
              (Execution ''file mutation preparation failed: approved filesystem identity changed'')
              (map_option sn_content preimage)) (\<lambda>before.
            case find_all before old_string of
              [] \<Rightarrow> Inl (InvalidArguments ''edit_file failed: old_string not found in file'')
            | [position] \<Rightarrow>
                if length before < length old_string
                  \<or> max_content_bytes < length before - length old_string + length new_string then
                  Inl (InvalidArguments ''edit_file failed: postimage exceeds the 4 MiB preparation limit'')
                else Inr (take position before @ new_string @ drop (position + length old_string) before)
            | matches \<Rightarrow> Inl (InvalidArguments
                (''edit_file failed: old_string is not unique (found '' @ show_nat (length matches)
                   @ '' occurrences), provide more context''))))"

subsection \<open>Preparing\<close>

record prepared_mutation =
  pm_kind :: mutation_kind
  pm_raw_path :: string
  pm_target :: string
  pm_display_path :: string
  pm_preimage :: "snapshot option"
  pm_after :: string

definition kind_of :: "mutation \<Rightarrow> mutation_kind" where
  "kind_of mut = (case mut of WriteAll _ \<Rightarrow> WriteKind | EditOne _ _ \<Rightarrow> EditKind)"

definition prepare_mutation ::
  "(string \<Rightarrow> string \<Rightarrow> nat list) \<Rightarrow> (string \<Rightarrow> nat list) \<Rightarrow> string \<Rightarrow> string \<Rightarrow> mutation \<Rightarrow>
     prepared_mutation tool_action" where
  "prepare_mutation find_all sha256 root raw_path mut =
     (if max_path_bytes < length raw_path then
        fail (InvalidArguments ''file mutation preparation failed: path exceeds the preparation limit'')
      else seq (resolving (\<lambda>fs. resolve_target fs root raw_path)) (\<lambda>resolved.
        seq (read_snapshot sha256 (absolute resolved)) (\<lambda>preimage.
        seq (lift (derive_postimage find_all preimage mut)) (\<lambda>after.
          give \<lparr>pm_kind = kind_of mut, pm_raw_path = raw_path, pm_target = absolute resolved,
                pm_display_path = display resolved, pm_preimage = preimage, pm_after = after\<rparr>))))"

text \<open>The review of the change.\<close>

definition review_of :: "prepared_mutation \<Rightarrow> file_change_review" where
  "review_of p =
     \<lparr>fc_path = pm_display_path p, fc_before = map_option sn_content (pm_preimage p), fc_after = pm_after p\<rparr>"

subsection \<open>Committing\<close>

definition success_output :: "string \<Rightarrow> tool_output" where
  "success_output body =
     \<lparr>out_content = body, is_error = False, structured = None, original_bytes = length body,
      truncated = False, durable_content = None\<rparr>"

definition verify_binding :: "string \<Rightarrow> prepared_mutation \<Rightarrow> unit tool_action" where
  "verify_binding root p =
     seq (resolving (\<lambda>fs. resolve_target fs root (pm_raw_path p))) (\<lambda>resolved.
       lift (ensure (path_eq (absolute resolved) (pm_target p))
         (Execution ''file mutation rejected because the approved path traversal changed'')))"

definition still_fresh :: "snapshot option \<Rightarrow> snapshot option \<Rightarrow> bool" where
  "still_fresh expected actual =
     (case (expected, actual) of
        (None, None) \<Rightarrow> True
      | (Some e, Some a) \<Rightarrow> sn_identity e = sn_identity a \<and> sn_content_hash e = sn_content_hash a
      | _ \<Rightarrow> False)"

definition verify_preimage :: "(string \<Rightarrow> nat list) \<Rightarrow> string \<Rightarrow> snapshot option \<Rightarrow> unit tool_action" where
  "verify_preimage sha256 path expected =
     seq (read_snapshot sha256 path) (\<lambda>actual.
       lift (ensure (still_fresh expected actual)
         (Execution ''file mutation rejected because the file changed after preview; make a new tool call for a fresh preview'')))"

definition unchanged :: "prepared_mutation \<Rightarrow> bool" where
  "unchanged p \<longleftrightarrow> (case pm_preimage p of Some s \<Rightarrow> sn_content s = pm_after p | None \<Rightarrow> pm_after p = [])"

text \<open>\<open>AtomicWriteFile::open\<close>, a write for each chunk and \<open>sync_all\<close>: the staged file is nobody else's.\<close>

definition stage_calls :: "string \<Rightarrow> nat" where
  "stage_calls body = 2 + div_ceil (length body) (64 * 1024)"

fun touch :: "(io_error \<Rightarrow> tool_error) \<Rightarrow> nat \<Rightarrow> unit tool_action" where
  "touch err 0 = give ()"
| "touch err (Suc n) = seq (disk_look err (\<lambda>_. Inr ())) (\<lambda>_. touch err n)"

definition make_parent :: "(string \<Rightarrow> io_error \<Rightarrow> tool_error) \<Rightarrow> string \<Rightarrow> unit tool_action" where
  "make_parent err path =
     (case path_parent path of
        None \<Rightarrow> give ()
      | Some parent \<Rightarrow> disk_call (err parent) (create_dir_all parent))"

text \<open>The record of what the model has seen, after the commit.\<close>

definition record_mutation :: "(string \<Rightarrow> nat list) \<Rightarrow> prepared_mutation \<Rightarrow> unit tool_action" where
  "record_mutation sha256 p w =
     (case tw_evidence w of
        None \<Rightarrow> (Inr (), w)
      | Some _ \<Rightarrow>
          seq (disk_look (mutation_io_error (pm_target p)) (stat (pm_target p))) (\<lambda>v.
            change_evidence (\<lambda>s. record_evidence s (pm_target p)
              \<lparr>modified_ns = metadata_modified_ns (node_meta v), content_hash = sha256 (pm_after p),
               model_view_covers_full_file = True, snapshot_covers_full_file = True\<rparr>)) w)"

definition apply_mutation :: "(string \<Rightarrow> nat list) \<Rightarrow> string \<Rightarrow> prepared_mutation \<Rightarrow> tool_output tool_action" where
  "apply_mutation sha256 root p =
     (let target = pm_target p; err = mutation_io_error target in
      if unchanged p then
        give (success_output (''No changes to '' @ pm_display_path p @ ''; it already contains the requested content''))
      else
        seq (verify_binding root p) (\<lambda>_.
        seq (make_parent (\<lambda>_. err) target) (\<lambda>_.
        seq (verify_binding root p) (\<lambda>_.
        seq (verify_preimage sha256 target (pm_preimage p)) (\<lambda>_.
        seq (touch err (stage_calls (pm_after p))) (\<lambda>_.
        seq (verify_binding root p) (\<lambda>_.
        seq (verify_preimage sha256 target (pm_preimage p)) (\<lambda>_.
        seq (disk_call err (replace_file target None (pm_after p))) (\<lambda>_.
        seq (record_mutation sha256 p) (\<lambda>_.
          give (success_output ((case pm_kind p of WriteKind \<Rightarrow> ''wrote'' | EditKind \<Rightarrow> ''edited'') @ '' ''
            @ pm_display_path p @ '' ('' @ show_nat (length (pm_after p)) @ '' bytes)''))))))))))))"

subsection \<open>The tools\<close>

text \<open>The derived decoders: \<open>decode_error\<close> is serde's text for a value that does not fit.\<close>

definition decode_write :: "(json \<Rightarrow> string) \<Rightarrow> json \<Rightarrow> tool_error + string \<times> string" where
  "decode_write decode_error v =
     (case struct_fields [''path'', ''content''] v of
        None \<Rightarrow> Inl (InvalidArguments (decode_error v))
      | Some obj \<Rightarrow>
          (case (string_field obj ''path'', string_field obj ''content'') of
             (Some path, Some body) \<Rightarrow> Inr (path, body)
           | _ \<Rightarrow> Inl (InvalidArguments (decode_error v))))"

definition decode_edit :: "(json \<Rightarrow> string) \<Rightarrow> json \<Rightarrow> tool_error + string \<times> string \<times> string" where
  "decode_edit decode_error v =
     (case struct_fields [''path'', ''old_string'', ''new_string''] v of
        None \<Rightarrow> Inl (InvalidArguments (decode_error v))
      | Some obj \<Rightarrow>
          (case (string_field obj ''path'', string_field obj ''old_string'', string_field obj ''new_string'') of
             (Some path, Some old, Some new) \<Rightarrow> Inr (path, old, new)
           | _ \<Rightarrow> Inl (InvalidArguments (decode_error v))))"

definition decided_future :: "'a tool_action \<Rightarrow> (tool_world, tool_error + 'a) future" where
  "decided_future act = Fut (\<lambda>w. case act w of (r, w') \<Rightarrow> (Inl r, w'))"

definition prepared_file_mutation ::
  "(string \<Rightarrow> nat list) \<Rightarrow> string \<Rightarrow> prepared_mutation \<Rightarrow> tool_world prepared_call" where
  "prepared_file_mutation sha256 called p =
     \<lparr>pc_tool_name = called,
      pc_permission_requests = [new_permission_request called (pm_target p) Write],
      pc_irreversible = True, pc_review = Some (FileChange (review_of p)),
      pc_commit = (\<lambda>ctx. decided_future (apply_mutation sha256 (workspace_root ctx) p))\<rparr>"

definition prepare_file_mutation ::
  "(string \<Rightarrow> string \<Rightarrow> nat list) \<Rightarrow> (string \<Rightarrow> nat list) \<Rightarrow> string \<Rightarrow> string \<Rightarrow> string \<Rightarrow> mutation \<Rightarrow>
     tool_world tool_preparation tool_action" where
  "prepare_file_mutation find_all sha256 root called raw_path mut =
     seq (prepare_mutation find_all sha256 root raw_path mut) (\<lambda>p.
       give (PreparedCall (prepared_file_mutation sha256 called p)))"

definition target_of :: "'w tool_context \<Rightarrow> string \<Rightarrow> string list tool_action" where
  "target_of ctx path =
     seq (resolving (\<lambda>fs. resolve_target fs (workspace_root ctx) path)) (\<lambda>r. give [absolute r])"

text \<open>The schemas.\<close>

definition typed :: "string \<Rightarrow> json" where
  "typed kind = JObject [(''type'', JString kind)]"

definition object_schema :: "(string \<times> json) list \<Rightarrow> string list \<Rightarrow> json" where
  "object_schema props required =
     JObject [(''type'', JString ''object''), (''properties'', JObject props),
       (''required'', JArray (map JString required)), (''additionalProperties'', JBool False)]"

definition write_file_tool ::
  "(json \<Rightarrow> string) \<Rightarrow> (string \<Rightarrow> string \<Rightarrow> nat list) \<Rightarrow> (string \<Rightarrow> nat list) \<Rightarrow> tool_world tool" where
  "write_file_tool decode_error find_all sha256 =
     \<lparr>t_name = ''write_file'', t_description = ''Create or atomically replace a file after a reviewable content preview.'',
      t_input_schema = object_schema [(''path'', typed ''string''), (''content'', typed ''string'')] [''path'', ''content''],
      t_effect = (\<lambda>_. Inr Write),
      t_project_context_targets = (\<lambda>ctx v.
        seq (lift (decode_write decode_error v)) (\<lambda>(path, _). target_of ctx path)),
      t_prepare = (\<lambda>ctx v. seq (lift (decode_write decode_error v)) (\<lambda>(path, body).
        prepare_file_mutation find_all sha256 (workspace_root ctx) ''write_file'' path (WriteAll body))),
      t_execute = (\<lambda>_ _. decided_future (fail
        (PermissionDenied ''write_file execution requires canonical tool runtime authorization'')))\<rparr>"

definition edit_file_tool ::
  "(json \<Rightarrow> string) \<Rightarrow> (string \<Rightarrow> string \<Rightarrow> nat list) \<Rightarrow> (string \<Rightarrow> nat list) \<Rightarrow> tool_world tool" where
  "edit_file_tool decode_error find_all sha256 =
     \<lparr>t_name = ''edit_file'', t_description = ''Atomically replace one exact, unique string in an existing file.'',
      t_input_schema = object_schema
        [(''path'', typed ''string''), (''old_string'', typed ''string''), (''new_string'', typed ''string'')]
        [''path'', ''old_string'', ''new_string''],
      t_effect = (\<lambda>_. Inr Write),
      t_project_context_targets = (\<lambda>ctx v.
        seq (lift (decode_edit decode_error v)) (\<lambda>(path, _). target_of ctx path)),
      t_prepare = (\<lambda>ctx v. seq (lift (decode_edit decode_error v)) (\<lambda>(path, old, new).
        prepare_file_mutation find_all sha256 (workspace_root ctx) ''edit_file'' path (EditOne old new))),
      t_execute = (\<lambda>_ _. decided_future (fail
        (PermissionDenied ''edit_file execution requires canonical tool runtime authorization'')))\<rparr>"

end
