(* ===== verification/Direct_Fs.thy ===== *)
theory Direct_Fs
  imports File_Mutation
begin

section \<open>Folders, copies, renames and deletions\<close>

text \<open>
  \<open>fx-tools/src/direct_fs.rs\<close>: tools that act when they are executed. The inputs are decoded; a field that
  the struct does not have (\<open>overwrite\<close> of the schemas) is ignored by the derived decoder.
\<close>

definition display_path :: "string \<Rightarrow> string" where
  "display_path p = (if p = [] then ''.'' else p)"

definition fs_error :: "string \<Rightarrow> string \<Rightarrow> io_error \<Rightarrow> tool_error" where
  "fs_error operation path e = Execution (operation @ '': '' @ path @ '' ('' @ io_message e @ '')'')"

definition write_permission :: "string \<Rightarrow> string \<Rightarrow> permission_request" where
  "write_permission called target = new_permission_request called target Write"

text \<open>The fields a tool needs, by their names.\<close>

definition decode_path :: "(json \<Rightarrow> string) \<Rightarrow> json \<Rightarrow> tool_error + string" where
  "decode_path decode_error v =
     and_then (ok_or (InvalidArguments (decode_error v)) (struct_fields [''path''] v)) (\<lambda>obj.
       ok_or (InvalidArguments (decode_error v)) (string_field obj ''path''))"

definition decode_pair :: "(json \<Rightarrow> string) \<Rightarrow> string \<Rightarrow> string \<Rightarrow> json \<Rightarrow> tool_error + string \<times> string" where
  "decode_pair decode_error k1 k2 v =
     (case struct_fields [k1, k2] v of
        None \<Rightarrow> Inl (InvalidArguments (decode_error v))
      | Some obj \<Rightarrow>
          (case (string_field obj k1, string_field obj k2) of
             (Some a, Some b) \<Rightarrow> Inr (a, b)
           | _ \<Rightarrow> Inl (InvalidArguments (decode_error v))))"

definition resolve_old :: "string \<Rightarrow> string \<Rightarrow> resolved_path tool_action" where
  "resolve_old root path = resolving (\<lambda>fs. resolve_existing fs root path)"

definition resolve_new :: "string \<Rightarrow> string \<Rightarrow> resolved_path tool_action" where
  "resolve_new root path = resolving (\<lambda>fs. resolve_target fs root path)"

definition verify_target_binding :: "string \<Rightarrow> string \<Rightarrow> string \<Rightarrow> unit tool_action" where
  "verify_target_binding root raw_path expected =
     seq (resolve_new root raw_path) (\<lambda>r.
       lift (ensure (path_eq (absolute r) expected) (Execution ''filesystem target changed after permission evaluation'')))"

definition forget :: "string list \<Rightarrow> unit tool_action" where
  "forget paths = change_evidence (\<lambda>s. foldl remove_evidence s paths)"

subsection \<open>Folders\<close>

definition create_folder_requests :: "string \<Rightarrow> string \<Rightarrow> permission_request list tool_action" where
  "create_folder_requests root path =
     seq (resolve_new root path) (\<lambda>t. give [write_permission ''create_folder'' (absolute t)])"

definition create_folder :: "string \<Rightarrow> string \<Rightarrow> tool_output tool_action" where
  "create_folder root path =
     seq (resolve_new root path) (\<lambda>t.
       let shown = display_path (display t); err = fs_error ''create_folder failed'' (absolute t) in
       seq (disk_look err (\<lambda>d. case stat (absolute t) d of
           Inl e \<Rightarrow> if io_not_found e then Inr None else Inl e | Inr v \<Rightarrow> Inr (Some v))) (\<lambda>found.
         case found of
           Some (DirNode _) \<Rightarrow> give (success_output (''directory already exists: '' @ shown))
         | Some _ \<Rightarrow> fail (Execution (''create_folder failed: target exists and is not a directory: '' @ shown))
         | None \<Rightarrow>
             seq (disk_call err (create_dir_all (absolute t))) (\<lambda>_.
               give (success_output (''created '' @ shown)))))"

subsection \<open>Copies\<close>

definition copy_requests :: "string \<Rightarrow> string \<Rightarrow> string \<Rightarrow> permission_request list tool_action" where
  "copy_requests root source destination =
     seq (resolve_old root source) (\<lambda>s.
     seq (resolve_new root destination) (\<lambda>t.
       give [new_permission_request ''copy_file'' (absolute s) Read, write_permission ''copy_file'' (absolute t)]))"

text \<open>\<open>mode() & 0o222 != 0\<close>.\<close>

definition is_writable :: "file_meta \<Rightarrow> bool" where
  "is_writable m \<longleftrightarrow> and (fm_mode m) 146 \<noteq> 0"

definition validate_copy_destination :: "string \<Rightarrow> string \<Rightarrow> unit tool_action" where
  "validate_copy_destination path source_display =
     seq (disk_look (fs_error ''copy_file failed'' path) (\<lambda>d. case stat path d of
         Inl e \<Rightarrow> if io_not_found e then Inr None else Inl e | Inr v \<Rightarrow> Inr (Some v))) (\<lambda>found.
       case found of
         None \<Rightarrow> give ()
       | Some (FileNode m _) \<Rightarrow>
           if is_writable m then give () else fail (Execution (''copy_file failed: '' @ source_display))
       | Some _ \<Rightarrow> fail (Execution (''copy_file failed: '' @ source_display)))"

text \<open>The source is read through one handle; the staged file gets its permissions.\<close>

definition copy_file :: "string \<Rightarrow> string \<Rightarrow> string \<Rightarrow> tool_output tool_action" where
  "copy_file root source destination =
     seq (resolve_old root source) (\<lambda>s.
     seq (resolve_new root destination) (\<lambda>t.
       let from = display_path (display s); copied = success_output (''copied '' @ from @ '' -> '' @ display_path (display t));
           err = fs_error ''copy_file failed'' (absolute t) in
       if path_eq (absolute s) (absolute t) then give copied
       else
         seq (disk_look (fs_error ''copy_file failed'' (absolute s)) (stat (absolute s))) (\<lambda>opened.
           case opened of
             FileNode m body \<Rightarrow>
               seq (validate_copy_destination (absolute t) from) (\<lambda>_.
               seq (make_parent (fs_error ''copy_file failed'') (absolute t)) (\<lambda>_.
               seq (verify_target_binding root destination (absolute t)) (\<lambda>_.
               seq (touch err 4) (\<lambda>_.
               seq (verify_target_binding root destination (absolute t)) (\<lambda>_.
               seq (disk_call err (replace_file (absolute t) (Some (fm_mode m)) body)) (\<lambda>_.
               seq (forget [absolute t]) (\<lambda>_. give copied)))))))
           | _ \<Rightarrow> fail (Execution (''copy_file failed: '' @ from)))))"

subsection \<open>Renames\<close>

definition rename_requests :: "string \<Rightarrow> string \<Rightarrow> string \<Rightarrow> permission_request list tool_action" where
  "rename_requests root old new =
     seq (resolve_old root old) (\<lambda>s.
     seq (resolve_new root new) (\<lambda>t.
       give [write_permission ''rename_file'' (absolute s), write_permission ''rename_file'' (absolute t)]))"

definition rename_file :: "string \<Rightarrow> string \<Rightarrow> string \<Rightarrow> tool_output tool_action" where
  "rename_file root old new =
     seq (resolve_old root old) (\<lambda>s.
     seq (resolve_new root new) (\<lambda>t.
       let renamed = success_output (''renamed '' @ display_path (display s) @ '' -> '' @ display_path (display t)) in
       if path_eq (absolute s) (absolute t) then give renamed
       else
         seq (make_parent (fs_error ''rename_file failed'') (absolute t)) (\<lambda>_.
         seq (verify_target_binding root new (absolute t)) (\<lambda>_.
         seq (disk_call (fs_error ''rename_file failed'' (absolute s)) (rename_entry (absolute s) (absolute t))) (\<lambda>_.
         seq (forget [absolute s, absolute t]) (\<lambda>_. give renamed))))))"

subsection \<open>Deletions\<close>

definition delete_requests :: "string \<Rightarrow> string \<Rightarrow> permission_request list tool_action" where
  "delete_requests root path =
     seq (resolve_old root path) (\<lambda>t. give [write_permission ''delete_file'' (absolute t)])"

definition remove_dir_error :: "string \<Rightarrow> string \<Rightarrow> io_error \<Rightarrow> tool_error" where
  "remove_dir_error shown path e =
     (if e = enotempty then Execution (''delete_file failed: directory not empty: '' @ shown)
      else fs_error ''delete_file failed'' path e)"

definition delete_file :: "string \<Rightarrow> string \<Rightarrow> tool_output tool_action" where
  "delete_file root path =
     seq (resolve_old root path) (\<lambda>t.
       let shown = display_path (display t); err = fs_error ''delete_file failed'' (absolute t) in
       seq (disk_look err (stat (absolute t))) (\<lambda>v.
       seq (case v of
             DirNode _ \<Rightarrow> disk_call (remove_dir_error shown (absolute t)) (remove_dir (absolute t))
           | _ \<Rightarrow> disk_call err (remove_file (absolute t))) (\<lambda>_.
       seq (forget [absolute t]) (\<lambda>_. give (success_output (''deleted '' @ shown))))))"

subsection \<open>The tools\<close>

text \<open>\<open>Tool::prepare\<close> where the permission requests look at the disk.\<close>

definition direct_prepare :: "permission_request list tool_action \<Rightarrow> bool \<Rightarrow> tool_world tool_preparation tool_action" where
  "direct_prepare requests irreversible = seq requests (\<lambda>rs. give (DirectCall rs irreversible))"

definition both_targets :: "string \<Rightarrow> string \<Rightarrow> string \<Rightarrow> string list tool_action" where
  "both_targets root old new =
     seq (resolve_old root old) (\<lambda>s. seq (resolve_new root new) (\<lambda>t. give [absolute s, absolute t]))"

definition one_path_schema :: "string \<Rightarrow> json" where
  "one_path_schema field = object_schema [(field, typed ''string'')] [field]"

definition create_folder_tool :: "(json \<Rightarrow> string) \<Rightarrow> tool_world tool" where
  "create_folder_tool decode_error =
     \<lparr>t_name = ''create_folder'', t_description = ''Create a directory and any missing parent directories.'',
      t_input_schema = one_path_schema ''path'',
      t_effect = (\<lambda>_. Inr Write),
      t_project_context_targets = (\<lambda>ctx v. seq (lift (decode_path decode_error v)) (target_of ctx)),
      t_prepare = (\<lambda>ctx v. direct_prepare
        (seq (lift (decode_path decode_error v)) (create_folder_requests (workspace_root ctx))) False),
      t_execute = (\<lambda>ctx v. decided_future
        (seq (lift (decode_path decode_error v)) (create_folder (workspace_root ctx))))\<rparr>"

definition copy_file_tool :: "(json \<Rightarrow> string) \<Rightarrow> tool_world tool" where
  "copy_file_tool decode_error =
     (let decode = decode_pair decode_error ''source'' ''destination'' in
      \<lparr>t_name = ''copy_file'', t_description = ''Atomically copy a regular file, replacing an existing file.'',
       t_input_schema = object_schema
         [(''source'', typed ''string''), (''destination'', typed ''string''), (''overwrite'', typed ''boolean'')]
         [''source'', ''destination''],
       t_effect = (\<lambda>_. Inr Write),
       t_project_context_targets = (\<lambda>ctx v. seq (lift (decode v)) (\<lambda>(a, b). both_targets (workspace_root ctx) a b)),
       t_prepare = (\<lambda>ctx v. direct_prepare
         (seq (lift (decode v)) (\<lambda>(a, b). copy_requests (workspace_root ctx) a b)) True),
       t_execute = (\<lambda>ctx v. decided_future
         (seq (lift (decode v)) (\<lambda>(a, b). copy_file (workspace_root ctx) a b)))\<rparr>)"

definition rename_file_tool :: "(json \<Rightarrow> string) \<Rightarrow> tool_world tool" where
  "rename_file_tool decode_error =
     (let decode = decode_pair decode_error ''old_path'' ''new_path'' in
      \<lparr>t_name = ''rename_file'', t_description = ''Rename a file, replacing an existing regular destination.'',
       t_input_schema = object_schema
         [(''old_path'', typed ''string''), (''new_path'', typed ''string''), (''overwrite'', typed ''boolean'')]
         [''old_path'', ''new_path''],
       t_effect = (\<lambda>_. Inr Write),
       t_project_context_targets = (\<lambda>ctx v. seq (lift (decode v)) (\<lambda>(a, b). both_targets (workspace_root ctx) a b)),
       t_prepare = (\<lambda>ctx v. direct_prepare
         (seq (lift (decode v)) (\<lambda>(a, b). rename_requests (workspace_root ctx) a b)) True),
       t_execute = (\<lambda>ctx v. decided_future
         (seq (lift (decode v)) (\<lambda>(a, b). rename_file (workspace_root ctx) a b)))\<rparr>)"

definition delete_file_tool :: "(json \<Rightarrow> string) \<Rightarrow> tool_world tool" where
  "delete_file_tool decode_error =
     \<lparr>t_name = ''delete_file'', t_description = ''Delete a file or an empty directory.'',
      t_input_schema = one_path_schema ''path'',
      t_effect = (\<lambda>_. Inr Write),
      t_project_context_targets = (\<lambda>ctx v. seq (lift (decode_path decode_error v)) (\<lambda>path.
        seq (resolve_old (workspace_root ctx) path) (\<lambda>r. give [absolute r]))),
      t_prepare = (\<lambda>ctx v. direct_prepare
        (seq (lift (decode_path decode_error v)) (delete_requests (workspace_root ctx))) True),
      t_execute = (\<lambda>ctx v. decided_future
        (seq (lift (decode_path decode_error v)) (delete_file (workspace_root ctx))))\<rparr>"

end
