(* ===== verification/Disk_Facts.thy ===== *)
theory Disk_Facts
  imports Disk
begin

section \<open>Facts about the disk\<close>

text \<open>
  What the calls of Disk change, and what path resolution says about the names it returns.
\<close>

subsection \<open>Lookups\<close>

lemma map_of_put_node: "map_of (put_node p v ns) = (map_of ns)(p \<mapsto> v)"
  by (induction p v ns rule: put_node.induct) (auto simp: fun_upd_twist)

lemma node_at_set: "p \<noteq> [] \<Longrightarrow> node_at (set_node p v d) q = (if q = p then Some v else node_at d q)"
  by (simp add: node_at_def set_node_def map_of_put_node)

lemma node_at_used [simp]: "node_at (used_inode d) q = node_at d q"
  by (simp add: node_at_def used_inode_def)

lemma map_of_filter_keys: "map_of (filter (\<lambda>(p, v). \<not> away p) ns) q = (if away q then None else map_of ns q)"
  by (induction ns) auto

lemma node_at_drop: "q \<noteq> [] \<Longrightarrow> node_at (drop_nodes away d) q = (if away q then None else node_at d q)"
  by (simp add: node_at_def drop_nodes_def map_of_filter_keys)

lemma node_at_root [simp]: "node_at d [] = Some (DirNode (dk_root d))"
  by (simp add: node_at_def)

lemma map_of_move:
  "(\<And>x. x \<in> fst ` set ns \<Longrightarrow> f x = r \<longleftrightarrow> x = s) \<Longrightarrow> map_of (map (\<lambda>(x, v). (f x, v)) ns) r = map_of ns s"
proof (induction ns)
  case (Cons x ns)
  obtain a b where x: "x = (a, b)" by fastforce
  with Cons.prems [of a] have fa: "f a = r \<longleftrightarrow> a = s" by simp
  have "map_of (map (\<lambda>(x, v). (f x, v)) ns) r = map_of ns s" using Cons by simp
  with fa show ?case by (cases "a = s") (simp_all add: x)
qed simp

text \<open>Every entry is in a directory.\<close>

definition well_formed :: "disk \<Rightarrow> bool" where
  "well_formed d \<longleftrightarrow> (\<forall>p v. p \<noteq> [] \<longrightarrow> node_at d p = Some v \<longrightarrow> is_dir_node (node_at d (butlast p)))"

lemma absent_below:
  assumes "well_formed d" and "node_at d p = None" and "prefix p q"
  shows "node_at d q = None"
proof -
  from assms(3) obtain r where q: "q = p @ r" by (auto simp: prefix_def)
  have "node_at d (p @ r) = None"
  proof (induction r rule: rev_induct)
    case (snoc x r)
    show ?case
    proof (cases "node_at d (p @ r @ [x])")
      case (Some v)
      with assms(1) have "is_dir_node (node_at d (butlast (p @ r @ [x])))" unfolding well_formed_def by blast
      then have "is_dir_node (node_at d (p @ r))" by (simp add: butlast_append)
      with snoc show ?thesis by (simp add: is_dir_node_def)
    qed simp
  qed (use assms(2) in simp)
  with q show ?thesis by simp
qed

lemma is_dir_node_simps [simp]: "is_dir_node (Some v) \<longleftrightarrow> (\<exists>m. v = DirNode m)" "\<not> is_dir_node None"
  by (auto simp: is_dir_node_def split: disk_node.splits)

lemma is_dir_node_iff: "is_dir_node v \<longleftrightarrow> (\<exists>m. v = Some (DirNode m))"
  by (cases v) simp_all

lemma butlast_neq: "p \<noteq> [] \<Longrightarrow> butlast p \<noteq> p"
  by (metis append_butlast_last_id not_Cons_self2 self_append_conv)

lemma is_dir_of_prefix:
  assumes "well_formed d" and "node_at d p \<noteq> None" and "strict_prefix q p"
  shows "is_dir_node (node_at d q)"
proof -
  from assms(3) obtain x r where p: "p = q @ x # r" by (elim strict_prefixE')
  have "prefix (q @ [x]) p" by (simp add: p prefix_def)
  from absent_below [OF assms(1) _ this] assms(2) have "node_at d (q @ [x]) \<noteq> None" by blast
  then obtain v where "node_at d (q @ [x]) = Some v" by auto
  with assms(1) have "is_dir_node (node_at d (butlast (q @ [x])))" unfolding well_formed_def by blast
  then show ?thesis by simp
qed

subsection \<open>Resolution\<close>

lemma walk_more:
  "walk d k base cs = r \<Longrightarrow> r \<noteq> Inl eloop \<Longrightarrow> k \<le> k' \<Longrightarrow> walk d k' base cs = r"
proof (induction d k base cs arbitrary: k' rule: walk.induct)
  case (5 d k base n cs)
  show ?case
  proof (cases "node_at d (base @ [n])")
    case None
    with "5.prems"(1) show ?thesis by simp
  next
    case (Some v)
    show ?thesis
    proof (cases v)
      case (LinkNode t)
      with "5.prems"(1,2) Some obtain j where k: "k = Suc j" by (cases k) simp_all
      with "5.prems"(3) obtain j' where k': "k' = Suc j'" "j \<le> j'" by (cases k') auto
      from "5.prems"(1) Some LinkNode k have "walk d j base (components t @ cs) = r" by simp
      from "5.IH"(2) [OF Some LinkNode k this "5.prems"(2) k'(2)] Some LinkNode k' show ?thesis by simp
    next
      case (DirNode m)
      with "5.prems"(1) Some have "walk d k (base @ [n]) cs = r" by simp
      from "5.IH"(1) [OF Some DirNode this "5.prems"(2,3)] Some DirNode show ?thesis by simp
    qed (use "5.prems"(1) Some in simp_all)
  qed
qed auto

lemma walk_append:
  "walk d k base cs = Inr q \<Longrightarrow>
     (\<exists>k' \<le> k. walk d k base (cs @ ds) = walk d k' q ds) \<or> (ds \<noteq> [] \<and> walk d k base (cs @ ds) = Inl enotdir)"
proof (induction d k base cs rule: walk.induct)
  case (5 d k base n cs)
  then obtain v where v: "node_at d (base @ [n]) = Some v" by (auto split: option.splits)
  show ?case
  proof (cases v)
    case (LinkNode t)
    with v 5(3) obtain j where k: "k = Suc j" by (cases k) auto
    with v LinkNode 5(3) have "walk d j base (components t @ cs) = Inr q" by simp
    from 5(2) [OF v LinkNode k this] v LinkNode k show ?thesis by (auto intro: le_SucI)
  next
    case (DirNode m)
    with 5(1) [OF v DirNode] 5(3) v show ?thesis by simp
  next
    case (FileNode m b)
    with 5(3) v show ?thesis by (cases ds) (auto split: if_splits)
  next
    case (OtherNode m)
    with 5(3) v show ?thesis by (cases ds) (auto split: if_splits)
  qed
qed auto

lemma walk_prefix:
  "walk d k base (cs @ ds) = Inr p \<Longrightarrow> \<exists>q. walk d k base cs = Inr q"
proof (induction d k base cs rule: walk.induct)
  case (5 d k base n cs)
  then obtain v where v: "node_at d (base @ [n]) = Some v" by (auto split: option.splits)
  show ?case
  proof (cases v)
    case (LinkNode t)
    with v 5(3) obtain j where k: "k = Suc j" by (cases k) auto
    with v LinkNode 5(3) have "walk d j base ((components t @ cs) @ ds) = Inr p" by simp
    from 5(2) [OF v LinkNode k this] v LinkNode k show ?thesis by simp
  next
    case (DirNode m)
    with 5(1) [OF v DirNode] 5(3) v show ?thesis by simp
  qed (use 5(3) v in \<open>auto split: if_splits\<close>)
qed auto

text \<open>The names a resolution ends at: directories, and at the end an entry that is no link.\<close>

definition dirs :: "disk \<Rightarrow> names \<Rightarrow> bool" where
  "dirs d p \<longleftrightarrow> (\<forall>q. prefix q p \<longrightarrow> is_dir_node (node_at d q))"

definition real :: "disk \<Rightarrow> names \<Rightarrow> bool" where
  "real d p \<longleftrightarrow> (\<forall>q. strict_prefix q p \<longrightarrow> is_dir_node (node_at d q))
     \<and> (\<exists>v. node_at d p = Some v \<and> (\<forall>t. v \<noteq> LinkNode t))"

lemma dirs_simps [simp]: "dirs d []" "dirs d (p @ [n]) \<longleftrightarrow> dirs d p \<and> is_dir_node (node_at d (p @ [n]))"
  by (auto simp: dirs_def prefix_snoc)

lemma dirs_butlast: "dirs d p \<Longrightarrow> dirs d (butlast p)"
  by (auto simp: dirs_def intro: prefix_order.trans prefixeq_butlast)

lemma dirs_real: "dirs d p \<Longrightarrow> real d p"
  unfolding dirs_def real_def strict_prefix_def
  by (cases "node_at d p") (auto dest: spec [of _ p])

lemma walk_real: "walk d k base cs = Inr p \<Longrightarrow> dirs d base \<Longrightarrow> real d p"
proof (induction d k base cs rule: walk.induct)
  case (5 d k base n cs)
  then obtain v where v: "node_at d (base @ [n]) = Some v" by (auto split: option.splits)
  show ?case
  proof (cases v)
    case (LinkNode t)
    with v 5(3) obtain j where k: "k = Suc j" by (cases k) auto
    with v LinkNode 5(3) have "walk d j base (components t @ cs) = Inr p" by simp
    from 5(2) [OF v LinkNode k this 5(4)] show ?thesis .
  next
    case (DirNode m)
    with 5(1) [OF v DirNode] 5(3,4) v show ?thesis by simp
  qed (use 5(3,4) v in \<open>auto simp: real_def dirs_def strict_prefix_def prefix_snoc split: if_splits\<close>)
qed (auto intro: dirs_real dirs_butlast)

subsection \<open>Names without links that lead anywhere\<close>

definition clear :: "disk \<Rightarrow> names \<Rightarrow> bool" where
  "clear d p \<longleftrightarrow> (\<forall>q n t x. prefix (q @ [n]) p \<longrightarrow> node_at d (q @ [n]) = Some (LinkNode t) \<longrightarrow>
     walk d max_links q [Normal n] \<noteq> Inr x)"

lemma clear_prefix: "clear d p \<Longrightarrow> prefix q p \<Longrightarrow> clear d q"
  unfolding clear_def by (meson prefix_order.trans)

lemma real_clear:
  assumes "real d p"
  shows "clear d p"
  unfolding clear_def
proof (intro allI impI)
  fix q n t x
  assume pre: "prefix (q @ [n]) p" and link: "node_at d (q @ [n]) = Some (LinkNode t)"
  have False
  proof (cases "q @ [n] = p")
    case True
    with assms link show False by (auto simp: real_def)
  next
    case False
    with pre have "strict_prefix (q @ [n]) p" by (simp add: strict_prefix_def)
    with assms link show False by (auto simp: real_def)
  qed
  then show "walk d max_links q [Normal n] \<noteq> Inr x" ..
qed

lemma walk_clear:
  "walk d k base (map Normal ns) = Inr p \<Longrightarrow> clear d (base @ ns) \<Longrightarrow> k \<le> max_links \<Longrightarrow> p = base @ ns"
proof (induction ns arbitrary: base)
  case (Cons n ns)
  then obtain v where v: "node_at d (base @ [n]) = Some v" by (auto split: option.splits)
  show ?case
  proof (cases v)
    case (LinkNode t)
    with v Cons.prems(1) obtain j where k: "k = Suc j" by (cases k) auto
    with v LinkNode Cons.prems(1) have "walk d j base (components t @ map Normal ns) = Inr p" by simp
    from walk_prefix [OF this] obtain q where "walk d j base (components t) = Inr q" ..
    then have "walk d k base [Normal n] = Inr q" using v LinkNode k by simp
    from walk_more [OF this _ Cons.prems(3)] have "walk d max_links base [Normal n] = Inr q" by simp
    with Cons.prems(2) v LinkNode show ?thesis by (auto simp: clear_def)
  next
    case (DirNode m)
    with v Cons.prems Cons.IH [of "base @ [n]"] show ?thesis by simp
  qed (use v Cons.prems(1) in \<open>auto split: if_splits\<close>)
qed simp

text \<open>Absolute names as components.\<close>

definition goes_to :: "string \<Rightarrow> names \<Rightarrow> bool" where
  "goes_to path p \<longleftrightarrow> components path = RootDir # map Normal p"

lemma goes_to_unique: "goes_to path p \<Longrightarrow> goes_to path' q \<Longrightarrow> path_eq path path' \<longleftrightarrow> p = q"
  by (auto simp: goes_to_def path_eq_def inj_map_eq_map inj_def)

lemma locate_clear: "goes_to path p \<Longrightarrow> clear d p \<Longrightarrow> locate d path = Inr q \<Longrightarrow> q = p"
  using walk_clear [of d max_links "[]" p q] by (simp add: locate_def goes_to_def)

lemma locate_entry_clear:
  assumes "goes_to path p" and "clear d p" and "locate_entry d path = Inr q"
  shows "q = p"
proof (cases p rule: rev_cases)
  case Nil
  with assms show ?thesis by (simp add: locate_entry_def goes_to_def locate_def)
next
  case (snoc b n)
  have "components path = RootDir # map Normal b @ [Normal n]" using assms(1) snoc by (simp add: goes_to_def)
  with assms(3) have "and_then (walk d max_links [] (map Normal b)) (\<lambda>base.
      case node_at d base of Some (DirNode _) \<Rightarrow> Inr (base @ [n]) | _ \<Rightarrow> Inl enotdir) = Inr q"
    by (simp add: locate_entry_def butlast_append)
  then obtain base where w: "walk d max_links [] (map Normal b) = Inr base"
    and e: "(case node_at d base of Some (DirNode _) \<Rightarrow> Inr (base @ [n]) | _ \<Rightarrow> Inl enotdir) = Inr q"
    by (cases "walk d max_links [] (map Normal b)") simp_all
  from e have q: "q = base @ [n]" by (simp split: option.splits disk_node.splits)
  have "clear d ([] @ b)" using clear_prefix [OF assms(2), of b] snoc by simp
  from walk_clear [OF w this] q snoc show ?thesis by simp
qed

subsection \<open>What the calls change\<close>

text \<open>Nothing but directories that were not there, on the way to some names.\<close>

definition grows :: "names \<Rightarrow> disk \<Rightarrow> disk \<Rightarrow> bool" where
  "grows p d d' \<longleftrightarrow> (\<forall>q. node_at d' q = node_at d q
     \<or> (node_at d q = None \<and> is_dir_node (node_at d' q) \<and> prefix q p)) \<and> well_formed d'"

lemma grows_refl: "well_formed d \<Longrightarrow> grows p d d"
  by (simp add: grows_def)

lemma grows_trans: "grows p d d' \<Longrightarrow> grows p d' d'' \<Longrightarrow> grows p d d''"
  unfolding grows_def by metis

lemma grows_prefix: "grows q d d' \<Longrightarrow> prefix q p \<Longrightarrow> grows p d d'"
  unfolding grows_def by (meson prefix_order.trans)

lemma grows_real:
  assumes "grows p d d'" and "real d q"
  shows "real d' q"
proof -
  have "node_at d' r = node_at d r" if "node_at d r \<noteq> None" for r
    using assms(1) that by (auto simp: grows_def)
  with assms(2) show ?thesis unfolding real_def by (metis is_dir_node_simps(2) option.distinct(1))
qed

lemma well_formed_set:
  assumes "well_formed d" and "p \<noteq> []" and "is_dir_node (node_at d (butlast p))"
    and "is_dir_node (node_at d p) \<longrightarrow> (\<exists>m. v = DirNode m)"
  shows "well_formed (set_node p v d)"
proof -
  from butlast_neq [OF assms(2)] assms show ?thesis unfolding well_formed_def by (auto simp: node_at_set)
qed

lemma well_formed_used [simp]: "well_formed (used_inode d) = well_formed d"
  by (simp add: well_formed_def)

lemma make_dirs_grows:
  "make_dirs base (map Normal ns) d = (r, d') \<Longrightarrow> well_formed d \<Longrightarrow> is_dir_node (node_at d base) \<Longrightarrow>
     clear d (base @ ns) \<Longrightarrow> grows (base @ ns) d d'"
proof (induction ns arbitrary: base d)
  case (Cons n ns)
  show ?case
  proof (cases "node_at d (base @ [n])")
    case None
    define d1 where "d1 = used_inode (set_node (base @ [n]) (DirNode (dk_fresh d)) d)"
    have at: "node_at d1 q = (if q = base @ [n] then Some (DirNode (dk_fresh d)) else node_at d q)" for q
      by (simp add: d1_def node_at_set)
    have wf: "well_formed d1" unfolding d1_def using Cons.prems(2,3) None by (simp add: well_formed_set)
    have "clear d1 ((base @ [n]) @ ns)"
      unfolding clear_def
    proof (intro allI impI)
      fix q m t x
      assume pre: "prefix (q @ [m]) ((base @ [n]) @ ns)" and "node_at d1 (q @ [m]) = Some (LinkNode t)"
      then have link: "node_at d (q @ [m]) = Some (LinkNode t)" "q @ [m] \<noteq> base @ [n]" by (auto simp: at split: if_splits)
      have "\<not> prefix (base @ [n]) (q @ [m])" using absent_below [OF Cons.prems(2) None] link(1) by auto
      with pre have "prefix (q @ [m]) (base @ [n])" by (metis prefix_same_cases prefixI)
      with link(2) have "prefix (q @ [m]) base" by (auto simp: prefix_snoc)
      then have "q @ [m] = base \<or> strict_prefix (q @ [m]) base" by (simp add: strict_prefix_def)
      then have "is_dir_node (node_at d (q @ [m]))"
        using Cons.prems(3) is_dir_of_prefix [OF Cons.prems(2), of base "q @ [m]"] by (cases "node_at d base") auto
      with link(1) have False by simp
      then show "walk d1 max_links q [Normal m] \<noteq> Inr x" ..
    qed
    with Cons.IH [of "base @ [n]" d1] Cons.prems(1) None wf at [of "base @ [n]"] d1_def have "grows ((base @ [n]) @ ns) d1 d'" by simp
    moreover have "grows ((base @ [n]) @ ns) d d1" using None wf by (auto simp: grows_def at)
    ultimately show ?thesis using grows_trans by fastforce
  next
    case (Some v)
    show ?thesis
    proof (cases v)
      case (DirNode m)
      with Some Cons.prems Cons.IH [of "base @ [n]" d] show ?thesis by simp
    next
      case (LinkNode t)
      with Cons.prems(4) Some have "\<forall>x. walk d max_links base [Normal n] \<noteq> Inr x" by (auto simp: clear_def)
      with Some LinkNode Cons.prems(1,2) show ?thesis by (auto simp: grows_refl split: sum.splits)
    qed (use Some Cons.prems(1,2) in \<open>auto simp: grows_refl\<close>)
  qed
qed (simp add: grows_refl)

end
