(* ===== verification/Disk_Resolution.thy ===== *)
theory Disk_Resolution
  imports Disk_Facts
begin

section \<open>Resolved paths on a disk\<close>

text \<open>
  What the resolution of Workspace_Path gives on the file systems of Disk: absolute names without a link that
  leads anywhere, so that the calls of Disk reach exactly the node that was named.
\<close>

lemma walk_names:
  "walk d k base cs = Inr p \<Longrightarrow> list_all normal_name base \<Longrightarrow> \<forall>n. Normal n \<in> set cs \<longrightarrow> normal_name n \<Longrightarrow>
     list_all normal_name p"
proof (induction d k base cs rule: walk.induct)
  case (5 d k base n cs)
  then obtain v where v: "node_at d (base @ [n]) = Some v" by (auto split: option.splits)
  show ?case
  proof (cases v)
    case (LinkNode t)
    with v 5(3) obtain j where k: "k = Suc j" by (cases k) auto
    with v LinkNode 5(3) have "walk d j base (components t @ cs) = Inr p" by simp
    moreover have "\<forall>m. Normal m \<in> set (components t @ cs) \<longrightarrow> normal_name m" using 5(5) components_normal by auto
    ultimately show ?thesis using 5(2) [OF v LinkNode k] 5(4) by blast
  next
    case (DirNode m)
    with 5(1) [OF v DirNode] 5(3,4,5) v show ?thesis by simp
  qed (use 5(3,4,5) v in \<open>auto split: if_splits\<close>)
qed (auto simp: list_all_butlast)

lemma locate_names: "locate d path = Inr p \<Longrightarrow> list_all normal_name p"
  unfolding locate_def by (rule walk_names) (auto intro: components_normal)

lemma goes_to_path_of: "list_all normal_name p \<Longrightarrow> goes_to (path_of p) p"
  unfolding goes_to_def path_of_def
  by (rule components_render) (auto simp: component_list_def list_all_iff)

lemma canonicalize_Inr:
  "canonicalize (fs_of d) path = Inr c \<longleftrightarrow> (\<exists>p. locate d path = Inr p \<and> c = path_of p)"
  by (auto simp: fs_of_def and_then_Inr_iff)

lemma canonicalize_Inl: "canonicalize (fs_of d) path = Inl e \<longleftrightarrow> locate d path = Inl e"
  by (auto simp: fs_of_def and_then_Inl_iff)

lemma canonical_goes_to: "canonicalize (fs_of d) path = Inr c \<Longrightarrow> \<exists>p. locate d path = Inr p \<and> goes_to c p"
  by (auto simp: canonicalize_Inr intro: goes_to_path_of locate_names)

lemma is_absolute_path_of: "list_all normal_name p \<Longrightarrow> is_absolute (path_of p)"
  using goes_to_path_of [of p] components_root_head [of "path_of p"] by (simp add: goes_to_def)

lemma push_absolute: "is_absolute ws \<Longrightarrow> is_absolute (path_push ws p)"
  by (auto simp: path_push_def is_absolute_def split: if_splits)

lemma candidate_absolute:
  assumes "resolves_to (fs_of d) root raw ws candidate i"
  shows "\<exists>ns. goes_to candidate ns \<and> list_all normal_name ns"
proof -
  from assms have c: "classify_input (fs_of d) ws (trim raw) = Inr (candidate, i)"
    and "canonicalize (fs_of d) root = Inr ws" by (simp_all add: resolves_to_def)
  then have "is_absolute ws" using is_absolute_path_of locate_names by (auto simp: canonicalize_Inr)
  with c obtain p where p: "candidate = lexical_normalize p" "is_absolute p"
    using push_absolute by (auto simp: classify_input_def Let_def split: if_splits option.splits)
  obtain ns where "list_all normal_name ns"
    "components (lexical_normalize p) = (if is_absolute p then [RootDir] else []) @ map Normal ns"
    by (rule lexical_normalize_spec)
  with p show ?thesis by (auto simp: goes_to_def)
qed

text \<open>The first name that is missing is absent or a link that leads nowhere.\<close>

lemma missing_name:
  assumes "walk d max_links [] cs = Inr q" and "walk d max_links [] (cs @ [Normal n]) = Inl e" and "io_not_found e"
  shows "node_at d (q @ [n]) = None
    \<or> (\<exists>t. node_at d (q @ [n]) = Some (LinkNode t) \<and> (\<forall>x. walk d max_links q [Normal n] \<noteq> Inr x))"
proof -
  have "walk d max_links [] (cs @ [Normal n]) \<noteq> Inl enotdir" using assms(2,3) by (auto simp: enotdir_def os_error_def)
  with walk_append [OF assms(1), of "[Normal n]"] assms(2) obtain k where k: "k \<le> max_links" "walk d k q [Normal n] = Inl e"
    by auto
  have "e \<noteq> eloop" using assms(3) by (auto simp: eloop_def os_error_def)
  with walk_more [OF k(2) _ k(1)] have m: "walk d max_links q [Normal n] = Inl e" by simp
  show ?thesis
  proof (cases "node_at d (q @ [n])")
    case (Some v)
    with m show ?thesis by (cases v) auto
  qed simp
qed

lemma clear_extend:
  assumes "well_formed d" and "real d q"
    and first: "ms \<noteq> [] \<Longrightarrow> node_at d (q @ [hd ms]) = None
      \<or> (\<exists>t. node_at d (q @ [hd ms]) = Some (LinkNode t) \<and> (\<forall>x. walk d max_links q [Normal (hd ms)] \<noteq> Inr x))"
  shows "clear d (q @ ms)"
  unfolding clear_def
proof (intro allI impI)
  fix b n t x
  assume pre: "prefix (b @ [n]) (q @ ms)" and link: "node_at d (b @ [n]) = Some (LinkNode t)"
  show "walk d max_links b [Normal n] \<noteq> Inr x"
  proof (cases "prefix (b @ [n]) q")
    case True
    with real_clear [OF assms(2)] link show ?thesis by (auto simp: clear_def)
  next
    case False
    with pre obtain us where us: "b @ [n] = q @ us" "us \<noteq> []" "prefix us ms"
      by (metis append_Nil2 prefix_append prefix_order.refl)
    then obtain m us' where m: "us = m # us'" "ms \<noteq> []" "hd ms = m" by (cases us; cases ms) auto
    show ?thesis
    proof (cases us' rule: rev_cases)
      case Nil
      with us m have "b = q" "n = m" by auto
      with first [OF m(2)] m(3) link show ?thesis by auto
    next
      case (snoc vs y)
      with us m have b: "b = q @ m # vs" by simp
      have "strict_prefix (q @ [m]) (b @ [n])" by (auto simp: b strict_prefix_def prefix_def)
      from is_dir_of_prefix [OF assms(1) _ this] link have "is_dir_node (node_at d (q @ [m]))" by simp
      with first [OF m(2)] m(3) show ?thesis by auto
    qed
  qed
qed

lemma goes_to_push: "goes_to c p \<Longrightarrow> list_all normal_name ns \<Longrightarrow> goes_to (foldl path_push c ns) (p @ ns)"
  by (simp add: goes_to_def components_push_names)

lemma list_all_drop: "list_all P xs \<Longrightarrow> list_all P (drop n xs)"
  by (auto simp: list_all_iff dest: in_set_dropD)

theorem resolved_targets_are_clear:
  assumes "resolve_target (fs_of d) root raw = Inr r" and "well_formed d"
  shows "\<exists>p. goes_to (absolute r) p \<and> clear d p"
proof -
  from targets_extend_the_deepest_ancestor [OF assms(1)] obtain ws candidate i j canonical where
    res: "resolves_to (fs_of d) root raw ws candidate i" and j: "j \<le> length (components candidate)" and
    can: "canonicalize (fs_of d) (ancestor candidate j) = Inr canonical" and
    abs: "absolute r = foldl path_push canonical (map component_text (drop j (components candidate)))" and
    listed: "list_all (\<lambda>l. missing_at (fs_of d) (ancestor candidate l)
      \<and> link_stays_inside (fs_of d) ws i (ancestor candidate l) (map component_text (drop l (components candidate))))
        [Suc j..<Suc (length (components candidate))]" by blast
  have missing: "missing_at (fs_of d) (ancestor candidate l)" if "Suc j \<le> l" "l \<le> length (components candidate)" for l
    using listed that by (auto simp: list_all_iff simp del: upt_Suc)
  from candidate_absolute [OF res] obtain ns where ns: "components candidate = RootDir # map Normal ns"
    "list_all normal_name ns" by (auto simp: goes_to_def)
  from canonical_goes_to [OF can] obtain q where q: "locate d (ancestor candidate j) = Inr q" "goes_to canonical q" by blast
  have "j \<noteq> 0"
  proof
    assume "j = 0"
    with missing [of 1] ns have "missing_at (fs_of d) (ancestor candidate 1)" by simp
    then show False by (auto simp: missing_at_def canonicalize_Inl locate_def components_ancestor ns)
  qed
  then obtain k where k: "j = Suc k" by (cases j) auto
  let ?ms = "drop k ns"
  have "map component_text (drop j (components candidate)) = ?ms" by (simp add: ns k drop_map comp_def)
  with abs goes_to_push [OF q(2) list_all_drop [OF ns(2), of k]] have g: "goes_to (absolute r) (q @ ?ms)" by simp
  have w: "walk d max_links [] (RootDir # map Normal (take k ns)) = Inr q"
    using q(1) by (simp add: locate_def components_ancestor ns k take_map)
  have "real d q" using walk_real [OF w] by simp
  moreover have "node_at d (q @ [hd ?ms]) = None \<or> (\<exists>t. node_at d (q @ [hd ?ms]) = Some (LinkNode t)
      \<and> (\<forall>x. walk d max_links q [Normal (hd ?ms)] \<noteq> Inr x))" if "?ms \<noteq> []"
  proof -
    from that have len: "k < length ns" by simp
    with missing [of "Suc j"] ns k have "missing_at (fs_of d) (ancestor candidate (Suc j))" by simp
    moreover have "components (ancestor candidate (Suc j)) = (RootDir # map Normal (take k ns)) @ [Normal (hd ?ms)]"
      using len by (simp add: components_ancestor ns k take_map take_Suc_conv_app_nth hd_drop_conv_nth)
    ultimately obtain e where "walk d max_links [] ((RootDir # map Normal (take k ns)) @ [Normal (hd ?ms)]) = Inl e"
      "io_not_found e" by (auto simp only: missing_at_def canonicalize_Inl locate_def)
    from missing_name [OF w this] show ?thesis .
  qed
  ultimately show ?thesis using clear_extend [OF assms(2), of q ?ms] g by blast
qed

lemma resolved_paths_are_clear:
  "resolve_existing (fs_of d) root raw = Inr r \<Longrightarrow> well_formed d \<Longrightarrow> \<exists>p. goes_to (absolute r) p \<and> clear d p"
  by (blast dest: existing_paths_resolve_alike resolved_targets_are_clear)

end
