(* ===== verification/Disk_Effects.thy ===== *)
theory Disk_Effects
  imports Disk_Facts
begin

section \<open>What the calls of a disk change\<close>

text \<open>
  Every call that changes a disk keeps it well formed and changes nothing but its operands, what is below
  them, and directories on the way to them that were missing.
\<close>

definition within :: "names list \<Rightarrow> disk \<Rightarrow> disk \<Rightarrow> bool" where
  "within ps d d' \<longleftrightarrow> well_formed d' \<and> (\<forall>q. node_at d' q \<noteq> node_at d q \<longrightarrow> (\<exists>p \<in> set ps.
     prefix p q \<or> (prefix q p \<and> node_at d q = None \<and> is_dir_node (node_at d' q))))"

lemma within_refl: "well_formed d \<Longrightarrow> within ps d d"
  by (simp add: within_def)

lemma within_trans: "within ps d d' \<Longrightarrow> within ps d' d'' \<Longrightarrow> within ps d d''"
  unfolding within_def by (metis option.distinct(1) is_dir_node_simps(2))

lemma within_mono: "within ps d d' \<Longrightarrow> set ps \<subseteq> set qs \<Longrightarrow> within qs d d'"
  unfolding within_def by (meson subsetD)

lemma grows_within: "grows p d d' \<Longrightarrow> within [p] d d'"
  by (auto simp: grows_def within_def)

subsection \<open>Directories\<close>

lemma create_dir_all_grows:
  assumes "goes_to path p" and "clear d p" and "well_formed d"
  shows "grows p d (snd (create_dir_all path d))"
proof -
  obtain r d' where m: "make_dirs [] (map Normal p) d = (r, d')" by fastforce
  with make_dirs_grows [OF m assms(3)] assms(1,2) show ?thesis by (simp add: create_dir_all_def goes_to_def)
qed

lemma parent_goes_to:
  "goes_to path p \<Longrightarrow> path_parent path = Some parent \<Longrightarrow> p \<noteq> [] \<Longrightarrow> goes_to parent (butlast p)"
  using path_parent_Some [of path parent] by (simp add: goes_to_def map_butlast)

lemma parent_grows:
  assumes "goes_to path p" and "clear d p" and "well_formed d" and "path_parent path = Some parent"
  shows "grows (butlast p) d (snd (create_dir_all parent d))"
proof (cases "p = []")
  case True
  with path_parent_Some [OF assms(4)] assms(1,3) show ?thesis
    by (simp add: goes_to_def create_dir_all_def grows_refl)
next
  case False
  from create_dir_all_grows [OF parent_goes_to [OF assms(1,4) False] clear_prefix [OF assms(2) prefixeq_butlast] assms(3)]
  show ?thesis .
qed

text \<open>The name itself is not touched by making what is above it.\<close>

lemma grows_above_same:
  assumes "grows (butlast p) d d'"
  shows "node_at d' p = node_at d p"
proof (cases "p = []")
  case False
  then have "length (butlast p) < length p" by simp
  then have "\<not> prefix p (butlast p)" by (auto dest: prefix_length_le)
  with assms show ?thesis by (auto simp: grows_def)
next
  case True
  from assms [unfolded grows_def, THEN conjunct1, THEN spec, of "[]"] True show ?thesis
    by (simp del: node_at_root) (simp add: node_at_def)
qed

subsection \<open>Entries\<close>

lemma locate_entry_parent:
  assumes "goes_to path p" and "clear d p" and "locate_entry d path = Inr q"
  shows "q = p \<and> (p \<noteq> [] \<longrightarrow> is_dir_node (node_at d (butlast p)))"
proof -
  have q: "q = p" by (rule locate_entry_clear [OF assms])
  moreover have "is_dir_node (node_at d (butlast p))" if "p \<noteq> []"
  proof -
    from that obtain b n where p: "p = b @ [n]" by (cases p rule: rev_cases) auto
    have "components path = RootDir # map Normal b @ [Normal n]" using assms(1) p by (simp add: goes_to_def)
    with assms(3) have "and_then (walk d max_links [] (map Normal b)) (\<lambda>base.
        case node_at d base of Some (DirNode _) \<Rightarrow> Inr (base @ [n]) | _ \<Rightarrow> Inl enotdir) = Inr q"
      by (simp add: locate_entry_def butlast_append)
    then obtain base where "(case node_at d base of Some (DirNode _) \<Rightarrow> Inr (base @ [n]) | _ \<Rightarrow> Inl enotdir) = Inr q"
      by (cases "walk d max_links [] (map Normal b)") simp_all
    then have "base @ [n] = q" "is_dir_node (node_at d base)" by (auto split: option.splits disk_node.splits)
    with q p show ?thesis by simp
  qed
  ultimately show ?thesis by simp
qed

lemma nothing_below:
  assumes "well_formed d" and "\<not> is_dir_node (node_at d p) \<or> names_below d p = []" and "strict_prefix p q"
  shows "node_at d q = None"
proof (cases "node_at d q")
  case (Some v)
  with is_dir_of_prefix [OF assms(1) _ assms(3)] assms(2) have empty: "names_below d p = []" by simp
  from assms(3) have "q \<noteq> []" by auto
  with Some have "(q, v) \<in> set (dk_nodes d)" by (simp add: node_at_def map_of_SomeD)
  moreover from assms(3) have "p \<noteq> q \<and> prefix p q" by (simp add: strict_prefix_def)
  ultimately have "q \<in> set (names_below d p)" unfolding names_below_def by force
  with empty show ?thesis by simp
qed

lemma set_within:
  assumes "well_formed d" and "p \<noteq> []" and "is_dir_node (node_at d (butlast p))"
    and "is_dir_node (node_at d p) \<longrightarrow> (\<exists>m. v = DirNode m)"
  shows "within [p] d (set_node p v d)"
  using well_formed_set [OF assms] assms(2) by (auto simp: within_def node_at_set)

lemma drop_within:
  assumes "well_formed d" and "p \<noteq> []" and "\<not> is_dir_node (node_at d p) \<or> names_below d p = []"
  shows "within [p] d (drop_nodes (\<lambda>q. q = p) d)"
proof -
  have look: "node_at (drop_nodes (\<lambda>q. q = p) d) q = (if q = p then None else node_at d q)" if "q \<noteq> []" for q
    using that by (rule node_at_drop)
  have root: "is_dir_node (node_at (drop_nodes (\<lambda>q. q = p) d) [])" by simp
  have "well_formed (drop_nodes (\<lambda>q. q = p) d)"
    unfolding well_formed_def
  proof (intro allI impI)
    fix q v
    assume q: "q \<noteq> []" and "node_at (drop_nodes (\<lambda>q. q = p) d) q = Some v"
    then have v: "node_at d q = Some v" "q \<noteq> p" by (simp_all add: look split: if_splits)
    with assms(1) q have dir: "is_dir_node (node_at d (butlast q))" unfolding well_formed_def by blast
    have "butlast q \<noteq> p"
    proof
      assume "butlast q = p"
      then have "strict_prefix p q" using butlast_neq [OF q] prefixeq_butlast [of q] by (simp add: strict_prefix_def)
      from nothing_below [OF assms(1,3) this] v show False by simp
    qed
    with dir root show "is_dir_node (node_at (drop_nodes (\<lambda>q. q = p) d) (butlast q))"
      by (cases "butlast q = []") (simp_all add: look)
  qed
  moreover have "node_at (drop_nodes (\<lambda>q. q = p) d) q = node_at d q" if "q \<noteq> p" for q
    using that look by (cases "q = []") (simp_all add: drop_nodes_def)
  ultimately show ?thesis unfolding within_def by (metis list.set_intros(1) prefix_order.refl)
qed

lemma within_used [simp]: "within ps d (used_inode d') = within ps d d'"
  by (simp add: within_def)

lemma replace_file_within:
  assumes "goes_to path p" and "clear d p" and "well_formed d"
  shows "within [p] d (snd (replace_file path mode body d))"
proof (cases "locate_entry d path")
  case (Inr q)
  note q = locate_entry_parent [OF assms(1,2) Inr]
  show ?thesis
  proof (cases "is_dir_node (node_at d p)")
    case True
    with q Inr assms(3) show ?thesis by (auto simp: replace_file_def within_refl is_dir_node_iff)
  next
    case False
    then have "p \<noteq> []" by auto
    with q False have "within [p] d (set_node p (FileNode m body) d)" for m
      by (intro set_within [OF assms(3)]) simp_all
    with q Inr assms(3) show ?thesis
      by (auto simp: replace_file_def within_refl Let_def split: option.splits disk_node.splits)
  qed
qed (simp add: replace_file_def within_refl assms(3))

lemma remove_file_within:
  assumes "goes_to path p" and "clear d p" and "well_formed d"
  shows "within [p] d (snd (remove_file path d))"
proof (cases "locate_entry d path")
  case (Inr q)
  note q = locate_entry_parent [OF assms(1,2) Inr]
  have "within [p] d (drop_nodes (\<lambda>q. q = p) d)" if "\<not> is_dir_node (node_at d p)"
    using that by (intro drop_within [OF assms(3)]) auto
  with q Inr assms(3) show ?thesis
    by (auto simp: remove_file_def within_refl split: option.splits disk_node.splits)
qed (simp add: remove_file_def within_refl assms(3))

lemma remove_dir_within:
  assumes "goes_to path p" and "clear d p" and "well_formed d"
  shows "within [p] d (snd (remove_dir path d))"
proof (cases "locate_entry d path")
  case (Inr q)
  note q = locate_entry_parent [OF assms(1,2) Inr]
  have "within [p] d (drop_nodes (\<lambda>q. q = p) d)" if "p \<noteq> []" "names_below d p = []"
    using that by (intro drop_within [OF assms(3)]) auto
  with q Inr assms(3) show ?thesis
    by (auto simp: remove_dir_def within_refl split: option.splits disk_node.splits)
qed (simp add: remove_dir_def within_refl assms(3))

subsection \<open>Moves\<close>

lemma node_at_moved:
  assumes "well_formed d" and "p \<noteq> []" and "q \<noteq> []" and "\<not> prefix p q" and "\<not> prefix q p"
    and "\<not> is_dir_node (node_at d q) \<or> names_below d q = []"
  shows "node_at (move_entry p q d) r =
    (if prefix q r then node_at d (p @ drop (length q) r) else if prefix p r then None else node_at d r)"
proof (cases "r = []")
  case True
  with assms(2,3) show ?thesis by (simp add: node_at_def move_entry_def drop_nodes_def Let_def)
next
  case False
  define ns where "ns = filter (\<lambda>(p, v). \<not> p = q) (dk_nodes d)"
  have there: "node_at d x \<noteq> None" if "x \<in> fst ` set ns" "x \<noteq> []" for x
  proof -
    from that(1) have "x \<in> fst ` set (dk_nodes d)" by (auto simp: ns_def)
    with that(2) show ?thesis by (simp add: node_at_def map_of_eq_None_iff)
  qed
  have key: "\<not> prefix q x" if "x \<in> fst ` set ns" for x
  proof
    assume "prefix q x"
    moreover from that have "x \<noteq> q" by (auto simp: ns_def)
    ultimately have "strict_prefix q x" by (simp add: strict_prefix_def)
    from nothing_below [OF assms(1,6) this] there [OF that] assms(3) \<open>prefix q x\<close> show False by (cases "x = []") auto
  qed
  have look: "node_at (move_entry p q d) r = map_of (map (\<lambda>(x, v). (move_names p q x, v)) ns) r"
    using False by (simp add: node_at_def move_entry_def drop_nodes_def Let_def ns_def)
  have kept: "map_of ns x = (if x = q then None else map_of (dk_nodes d) x)" for x
    unfolding ns_def by (rule map_of_filter_keys)
  show ?thesis
  proof (cases "prefix q r")
    case True
    then obtain u where u: "r = q @ u" by (auto simp: prefix_def)
    have "map_of (map (\<lambda>(x, v). (move_names p q x, v)) ns) r = map_of ns (p @ u)"
    proof (rule map_of_move)
      fix x
      assume "x \<in> fst ` set ns"
      with key u show "move_names p q x = r \<longleftrightarrow> x = p @ u" by (auto simp: move_names_def prefix_def)
    qed
    moreover have "p @ u \<noteq> q" using assms(4) by (auto simp: prefix_def)
    ultimately show ?thesis using look True u assms(2) by (simp add: kept node_at_def)
  next
    case nq: False
    show ?thesis
    proof (cases "prefix p r")
      case True
      have "map_of (map (\<lambda>(x, v). (move_names p q x, v)) ns) r = None"
        using nq True by (auto simp: map_of_eq_None_iff move_names_def split: if_splits)
      with look nq True show ?thesis by simp
    next
      case np: False
      have "map_of (map (\<lambda>(x, v). (move_names p q x, v)) ns) r = map_of ns r"
        using nq np by (intro map_of_move) (auto simp: move_names_def)
      moreover have "r \<noteq> q" using nq by auto
      ultimately show ?thesis using look nq np False by (simp add: kept node_at_def)
    qed
  qed
qed

lemma move_within:
  assumes "well_formed d" and "p \<noteq> []" and "q \<noteq> []" and "\<not> prefix p q" and "\<not> prefix q p"
    and "\<not> is_dir_node (node_at d q) \<or> names_below d q = []" and "is_dir_node (node_at d (butlast q))"
  shows "within [p, q] d (move_entry p q d)"
proof -
  note look = node_at_moved [OF assms(1-6)]
  have up: "prefix a (butlast r) \<Longrightarrow> prefix a r" for a r :: names
    by (meson prefix_order.trans prefixeq_butlast)
  have "well_formed (move_entry p q d)"
    unfolding well_formed_def
  proof (intro allI impI)
    fix r v
    assume r: "r \<noteq> []" and v: "node_at (move_entry p q d) r = Some v"
    show "is_dir_node (node_at (move_entry p q d) (butlast r))"
    proof (cases "prefix q r")
      case True
      then obtain u where u: "r = q @ u" by (auto simp: prefix_def)
      show ?thesis
      proof (cases u rule: rev_cases)
        case Nil
        have "length (butlast q) < length q" using assms(3) by simp
        then have "\<not> prefix q (butlast q)" by (auto dest: prefix_length_le)
        moreover have "\<not> prefix p (butlast q)" using up assms(4) by blast
        ultimately show ?thesis using u Nil assms(7) by (simp add: look)
      next
        case (snoc us x)
        with v u have "node_at d (p @ us @ [x]) = Some v" by (simp add: look)
        with assms(1) have "is_dir_node (node_at d (butlast (p @ us @ [x])))" unfolding well_formed_def by blast
        with u snoc show ?thesis by (simp add: look butlast_append)
      qed
    next
      case False
      with v have "\<not> prefix p r" "node_at d r = Some v" by (simp_all add: look split: if_splits)
      moreover from this(2) assms(1) r have "is_dir_node (node_at d (butlast r))" unfolding well_formed_def by blast
      ultimately show ?thesis using False up by (auto simp: look)
    qed
  qed
  then show ?thesis by (auto simp: within_def look split: if_splits)
qed

lemma rename_entry_within:
  assumes "goes_to source p" and "clear d p" and "goes_to target q" and "clear d q" and "well_formed d"
  shows "within [p, q] d (snd (rename_entry source target d))"
proof (cases "rename_entry source target d = (Inr (), move_entry p q d)")
  case True
  from True obtain p' q' where loc: "locate_entry d source = Inr p'" "locate_entry d target = Inr q'"
    by (auto simp: rename_entry_def split: sum.splits)
  note pp = locate_entry_parent [OF assms(1,2) loc(1)] and qq = locate_entry_parent [OF assms(3,4) loc(2)]
  show ?thesis
  proof (cases "p = q")
    case False
    show ?thesis
    proof (cases "rename_entry source target d = (Inr (), d)")
      case True
      then show ?thesis by (simp add: within_refl assms(5))
    next
      case moved: False
      with True loc pp qq False obtain v where v: "node_at d p = Some v" and ne: "p \<noteq> []" "q \<noteq> []"
        and "\<not> (is_dir_node (Some v) \<and> prefix p q)"
        and kinds: "\<not> (\<not> is_dir_node (Some v) \<and> is_dir_node (node_at d q))"
        and empty: "\<not> (is_dir_node (node_at d q) \<and> names_below d q \<noteq> [])"
        by (auto simp: rename_entry_def simp del: is_dir_node_simps(1) split: option.splits if_splits)
      have "\<not> prefix p q"
      proof
        assume pre: "prefix p q"
        have "is_dir_node (node_at d p)"
        proof (cases "p = butlast q")
          case True
          with qq ne show ?thesis by simp
        next
          case np: False
          from pre False have "prefix p (butlast q)" by (metis append_butlast_last_id ne(2) prefix_snoc)
          with np have "strict_prefix p (butlast q)" by (simp add: strict_prefix_def)
          moreover have "node_at d (butlast q) \<noteq> None" using qq ne by (auto simp: is_dir_node_iff)
          ultimately show ?thesis using is_dir_of_prefix [OF assms(5)] by blast
        qed
        with v pre \<open>\<not> (is_dir_node (Some v) \<and> prefix p q)\<close> show False by simp
      qed
      moreover have "\<not> prefix q p"
      proof
        assume "prefix q p"
        with False have s: "strict_prefix q p" by (auto simp: strict_prefix_def)
        with is_dir_of_prefix [OF assms(5) _ s] v have "is_dir_node (node_at d q)" by simp
        with nothing_below [OF assms(5) _ s] empty v show False by auto
      qed
      ultimately show ?thesis using move_within [OF assms(5) ne] True qq empty ne by auto
    qed
  qed (use loc pp qq assms(5) in \<open>auto simp: rename_entry_def within_refl split: option.splits\<close>)
next
  case False
  have "snd (rename_entry source target d) = d"
  proof (cases "locate_entry d source")
    case (Inr p')
    note p' = this locate_entry_parent [OF assms(1,2) this]
    show ?thesis
    proof (cases "locate_entry d target")
      case (Inr q')
      with locate_entry_parent [OF assms(3,4) Inr] p' False show ?thesis
        by (auto simp: rename_entry_def split: option.splits)
    qed (use p' in \<open>simp add: rename_entry_def\<close>)
  qed (simp add: rename_entry_def)
  then show ?thesis by (simp add: within_refl assms(5))
qed

end
