(* ===== verification/File_Scope.thy ===== *)
theory File_Scope
  imports Direct_Fs Disk_Resolution Disk_Effects
begin

section \<open>The file tools stay within what they asked for\<close>

text \<open>
  When nobody else changes the disk while a tool works, every change it makes, also when it fails half way
  for whatever reason, is at or below a name it asked a write permission for, or is a directory that was
  missing above such a name.
\<close>

subsection \<open>Actions that look and actions that change\<close>

definition quiet :: "tool_world \<Rightarrow> bool" where
  "quiet w \<longleftrightarrow> (\<forall>m \<in> set (tw_moments w). mo_change m = (\<lambda>d. d))"

definition looks :: "'a tool_action \<Rightarrow> bool" where
  "looks act \<longleftrightarrow> (\<forall>w r w'. act w = (r, w') \<longrightarrow> quiet w \<longrightarrow> quiet w' \<and> tw_disk w' = tw_disk w)"

text \<open>From this world the action stays within some names.\<close>

definition stays :: "names list \<Rightarrow> 'a tool_action \<Rightarrow> tool_world \<Rightarrow> bool" where
  "stays ps act w \<longleftrightarrow> (quiet w \<longrightarrow> well_formed (tw_disk w) \<longrightarrow>
     quiet (snd (act w)) \<and> within ps (tw_disk w) (tw_disk (snd (act w))))"

lemma next_moment_quiet: "next_moment w = (m, w') \<Longrightarrow> quiet w \<Longrightarrow> quiet w' \<and> tw_disk w' = tw_disk w"
  by (auto simp: next_moment_def quiet_def split: list.splits)

lemma looksD: "looks act \<Longrightarrow> act w = (r, w') \<Longrightarrow> quiet w \<Longrightarrow> quiet w' \<and> tw_disk w' = tw_disk w"
  unfolding looks_def by blast

lemma looks_seq: "looks p \<Longrightarrow> (\<And>a. looks (f a)) \<Longrightarrow> looks (seq p f)"
  unfolding looks_def by (intro allI impI, elim seq_cases) fastforce+

lemma looks_basic: "looks (give a)" "looks (fail e)" "looks (lift r)"
  by (simp_all add: looks_def action_simps)

lemma looks_disk_look: "looks (disk_look err f)"
  unfolding looks_def disk_look_def disk_call_def
  by (auto dest!: next_moment_quiet split: prod.splits option.splits)

lemma looks_resolving: "looks (resolving f)"
  unfolding looks_def resolving_def
  by (auto dest!: next_moment_quiet split: prod.splits option.splits)

lemma looks_read_snapshot: "looks (read_snapshot sha256 path)"
  unfolding looks_def read_snapshot_def
  by (auto dest!: next_moment_quiet split: prod.splits option.splits)

lemma looks_change_evidence: "looks (change_evidence f)"
  by (auto simp: looks_def change_evidence_def quiet_def)

lemma looks_noted:
  "looks act \<Longrightarrow> looks (\<lambda>w. case tw_evidence w of None \<Rightarrow> (Inr (), w) | Some _ \<Rightarrow> act w)"
  by (simp add: looks_def split: option.splits)

lemma looks_touch: "looks (touch err n)"
  by (induction n) (auto intro: looks_seq looks_basic looks_disk_look)

lemmas looks_intros = looks_seq looks_basic looks_disk_look looks_resolving looks_read_snapshot
  looks_change_evidence looks_touch

lemma looks_verify:
  "looks (verify_binding root p)" "looks (verify_preimage sha256 path expected)"
  "looks (verify_target_binding root raw path)" "looks (validate_copy_destination path shown)"
  "looks (resolve_old root path)" "looks (resolve_new root path)" "looks (forget paths)"
  "looks (record_mutation sha256 p)"
proof -
  show "looks (verify_binding root p)" "looks (verify_preimage sha256 path expected)"
    "looks (verify_target_binding root raw path)" "looks (resolve_old root path)" "looks (resolve_new root path)"
    "looks (forget paths)"
    unfolding verify_binding_def verify_preimage_def verify_target_binding_def resolve_old_def resolve_new_def
      forget_def by (intro looks_intros)+
  have "looks (case found of None \<Rightarrow> give () | Some (FileNode m _) \<Rightarrow>
      if is_writable m then give () else fail (Execution (''copy_file failed: '' @ shown))
    | Some _ \<Rightarrow> fail (Execution (''copy_file failed: '' @ shown)))" for found
    by (auto simp: looks_basic split: option.splits disk_node.splits)
  then show "looks (validate_copy_destination path shown)"
    unfolding validate_copy_destination_def by (intro looks_intros)
  show "looks (record_mutation sha256 p)"
    unfolding record_mutation_def by (intro looks_noted looks_intros)
qed

lemma stays_looks: "looks act \<Longrightarrow> stays ps act w"
  unfolding stays_def by (metis looksD prod.collapse within_refl)

lemma stays_then_any:
  assumes "stays ps p w"
    and "\<And>a w'. p w = (Inr a, w') \<Longrightarrow> quiet w' \<Longrightarrow> well_formed (tw_disk w') \<Longrightarrow> stays ps (f a) w'"
  shows "stays ps (seq p f) w"
  unfolding stays_def
proof (intro impI)
  assume "quiet w" "well_formed (tw_disk w)"
  with assms(1) have q: "quiet (snd (p w))" and i: "within ps (tw_disk w) (tw_disk (snd (p w)))" by (simp_all add: stays_def)
  then have wf: "well_formed (tw_disk (snd (p w)))" by (simp add: within_def)
  show "quiet (snd (seq p f w)) \<and> within ps (tw_disk w) (tw_disk (snd (seq p f w)))"
  proof (cases "p w")
    case (Pair r w')
    show ?thesis
    proof (cases r)
      case (Inl e)
      with Pair q i show ?thesis by (simp add: seq_def)
    next
      case (Inr a)
      with Pair assms(2) q wf have "stays ps (f a) w'" by simp
      with Pair Inr q wf i show ?thesis by (auto simp: seq_def stays_def intro: within_trans)
    qed
  qed
qed

text \<open>After something that only looks, what is known of the disk is still known.\<close>

lemma stays_look:
  assumes "looks p" and "quiet w"
    and "\<And>a w'. p w = (Inr a, w') \<Longrightarrow> quiet w' \<Longrightarrow> tw_disk w' = tw_disk w \<Longrightarrow> stays ps (f a) w'"
  shows "stays ps (seq p f) w"
proof (rule stays_then_any)
  show "stays ps p w" by (rule stays_looks [OF assms(1)])
  show "stays ps (f a) w'" if "p w = (Inr a, w')" "quiet w'" for a w'
    using assms(3) [OF that] looksD [OF assms(1) that(1) assms(2)] by blast
qed

lemma stays_call:
  assumes "well_formed (tw_disk w) \<Longrightarrow> within ps (tw_disk w) (snd (f (tw_disk w)))"
  shows "stays ps (disk_call err f) w"
  unfolding stays_def
proof (intro impI)
  assume q: "quiet w" and wf: "well_formed (tw_disk w)"
  obtain m w' where n: "next_moment w = (m, w')" by fastforce
  from next_moment_quiet [OF n q] have w': "quiet w'" "tw_disk w' = tw_disk w" by blast+
  show "quiet (snd (disk_call err f w)) \<and> within ps (tw_disk w) (tw_disk (snd (disk_call err f w)))"
  proof (cases m)
    case None
    obtain r d where "f (tw_disk w') = (r, d)" by fastforce
    with None n w' assms wf show ?thesis by (auto simp: disk_call_def quiet_def)
  qed (use n w' wf in \<open>simp add: disk_call_def within_refl\<close>)
qed

lemma stays_mono: "stays ps act w \<Longrightarrow> set ps \<subseteq> set qs \<Longrightarrow> stays qs act w"
  unfolding stays_def by (blast intro: within_mono)

subsection \<open>What a resolution says\<close>

lemma resolving_Inr:
  assumes "resolving f w = (Inr r, w')" and "quiet w"
    and "\<And>fs e. io_not_found e = False \<Longrightarrow> f (fs\<lparr>canonicalize := \<lambda>_. Inl e\<rparr>) \<noteq> Inr r"
  shows "f (fs_of (tw_disk w)) = Inr r"
proof -
  obtain m w1 where n: "next_moment w = (m, w1)" by fastforce
  from next_moment_quiet [OF n assms(2)] have d: "tw_disk w1 = tw_disk w" by blast
  show ?thesis
  proof (cases m)
    case None
    with assms(1) n d show ?thesis by (simp add: resolving_def)
  next
    case (Some e)
    with assms(1,3) n show ?thesis by (auto simp: resolving_def os_error_def)
  qed
qed

lemma resolve_new_Inr:
  "resolve_new root raw w = (Inr r, w') \<Longrightarrow> quiet w \<Longrightarrow> resolve_target (fs_of (tw_disk w)) root raw = Inr r"
  unfolding resolve_new_def
  by (erule resolving_Inr) (auto simp: resolve_target_def canonical_workspace_def Let_def)

lemma resolve_old_Inr:
  "resolve_old root raw w = (Inr r, w') \<Longrightarrow> quiet w \<Longrightarrow> resolve_existing (fs_of (tw_disk w)) root raw = Inr r"
  unfolding resolve_old_def
  by (erule resolving_Inr) (auto simp: resolve_existing_def canonical_workspace_def Let_def)

lemma resolved_paths_are_real:
  assumes "resolve_existing (fs_of d) root raw = Inr r"
  shows "\<exists>p. goes_to (absolute r) p \<and> real d p"
proof -
  from assms obtain candidate path i ws where "canonicalize (fs_of d) candidate = Inr path"
    "finish_resolution ws i path = Inr r" by (auto simp: resolve_existing_Inr)
  then have "canonicalize (fs_of d) candidate = Inr (absolute r)" using finish_resolution_Inr by blast
  from canonical_goes_to [OF this] show ?thesis unfolding locate_def by (auto dest: walk_real)
qed

text \<open>Checks that the target still resolves alike: it is clear then.\<close>

lemma rebound_target:
  assumes "resolve_target (fs_of d) root raw = Inr r" and "well_formed d" and "path_eq (absolute r) target"
  shows "\<exists>p. goes_to target p \<and> clear d p"
  using resolved_targets_are_clear [OF assms(1,2)] assms(3) by (auto simp: goes_to_def path_eq_def)

lemma verify_target_binding_Inr:
  assumes "verify_target_binding root raw target w = (Inr u, w')" and "quiet w" and "well_formed (tw_disk w)"
  shows "\<exists>p. goes_to target p \<and> clear (tw_disk w) p"
proof -
  from assms(1) obtain r w1 where r: "resolve_new root raw w = (Inr r, w1)" and "path_eq (absolute r) target"
    by (auto simp: verify_target_binding_def seq_Inr action_simps)
  with rebound_target [OF resolve_new_Inr [OF r assms(2)] assms(3)] show ?thesis by blast
qed

lemma verify_binding_Inr:
  assumes "verify_binding root p w = (Inr u, w')" and "quiet w" and "well_formed (tw_disk w)"
  shows "\<exists>q. goes_to (pm_target p) q \<and> clear (tw_disk w) q"
proof -
  have "verify_binding root p = seq (resolve_new root (pm_raw_path p)) (\<lambda>resolved.
       lift (ensure (path_eq (absolute resolved) (pm_target p))
         (Execution ''file mutation rejected because the approved path traversal changed'')))"
    by (simp add: verify_binding_def resolve_new_def)
  with assms(1) obtain r w1 where r: "resolve_new root (pm_raw_path p) w = (Inr r, w1)"
    and "path_eq (absolute r) (pm_target p)" by (auto simp: seq_Inr action_simps)
  with rebound_target [OF resolve_new_Inr [OF r assms(2)] assms(3)] show ?thesis by blast
qed

lemma make_parent_grows:
  assumes "make_parent err path w = (r, w')" and "quiet w" and "well_formed (tw_disk w)"
    and "goes_to path p" and "clear (tw_disk w) p"
  shows "quiet w' \<and> grows (butlast p) (tw_disk w) (tw_disk w')"
proof (cases "path_parent path")
  case None
  with assms(1-3) show ?thesis by (simp add: make_parent_def action_simps grows_refl)
next
  case (Some parent)
  obtain m w1 where n: "next_moment w = (m, w1)" by fastforce
  from next_moment_quiet [OF n assms(2)] have w1: "quiet w1" "tw_disk w1 = tw_disk w" by blast+
  from parent_grows [OF assms(4,5,3) Some] have g: "grows (butlast p) (tw_disk w) (snd (create_dir_all parent (tw_disk w)))" .
  obtain r1 d where "create_dir_all parent (tw_disk w) = (r1, d)" by fastforce
  with assms(1) Some n w1 g assms(3) show ?thesis
    by (cases m) (auto simp: make_parent_def disk_call_def grows_refl quiet_def)
qed

lemma make_parent_stays:
  "goes_to path p \<Longrightarrow> clear (tw_disk w) p \<Longrightarrow> stays [p] (make_parent err path) w"
  unfolding stays_def using make_parent_grows grows_within grows_prefix [OF _ prefixeq_butlast] by (metis prod.collapse)

end
