(* ===== verification/File_Samples.thy ===== *)
theory File_Samples
  imports File_Scope
begin

section \<open>A small disk\<close>

text \<open>
  A workspace with one file, on which the witnesses of the file tools run.
\<close>

definition example_meta :: file_meta where
  "example_meta = \<lparr>fm_modified_ns = 1, fm_device = 1, fm_inode = 1, fm_mode = 33188\<rparr>"

definition example_disk :: disk where
  "example_disk =
     \<lparr>dk_nodes = [([''w''], DirNode example_meta), ([''w'', ''a''], FileNode example_meta ''x'')],
      dk_root = example_meta, dk_home = None, dk_fresh = example_meta\<lparr>fm_inode := 9\<rparr>\<rparr>"

definition example_world :: tool_world where
  "example_world = \<lparr>tw_disk = example_disk, tw_moments = [], tw_evidence = None\<rparr>"

definition example_snapshot :: snapshot where
  "example_snapshot = \<lparr>sn_identity = identity_of example_meta ''x'', sn_content_hash = [], sn_content = ''x''\<rparr>"

definition renamed_disk :: disk where
  "renamed_disk = example_disk\<lparr>dk_nodes := [([''w''], DirNode example_meta), ([''w'', ''b''], FileNode example_meta ''x'')]\<rparr>"

definition example_rename :: json where
  "example_rename = JObject [(''old_path'', JString ''a''), (''new_path'', JString ''b'')]"

lemma example_quiet: "quiet example_world"
  by (simp add: quiet_def example_world_def)

lemma example_well_formed: "well_formed example_disk"
  by (auto simp: well_formed_def node_at_def example_disk_def split: if_splits)

lemma example_resolutions:
  "resolve_existing (fs_of example_disk) ''/w'' ''a'' =
     Inr \<lparr>absolute = ''/w/a'', display = ''a'', intent = Workspace\<rparr>"
  "resolve_target (fs_of example_disk) ''/w'' ''b'' =
     Inr \<lparr>absolute = ''/w/b'', display = ''b'', intent = Workspace\<rparr>"
  "resolve_target (fs_of example_disk) ''/w'' ''a'' =
     Inr \<lparr>absolute = ''/w/a'', display = ''a'', intent = Workspace\<rparr>"
  "path_parent ''/w/b'' = Some ''/w''" "path_parent ''/w/a'' = Some ''/w''"
  "create_dir_all ''/w'' example_disk = (Inr (), example_disk)"
  "path_eq ''/w/a'' ''/w/b'' = False" "path_eq ''/w/b'' ''/w/b'' = True" "path_eq ''/w/a'' ''/w/a'' = True"
  by code_simp+

lemma example_decoded:
  "decode_pair (\<lambda>_. '''') ''old_path'' ''new_path'' example_rename = Inr (''a'', ''b'')"
  "rename_entry ''/w/a'' ''/w/b'' example_disk = (Inr (), renamed_disk)"
  by code_simp+

lemma poll_decided: "poll (decided_future act) w = (Inl r, w') \<longleftrightarrow> act w = (r, w')"
  by (auto simp: decided_future_def split: prod.splits)

lemmas action_defs = seq_def action_simps disk_look_def disk_call_def next_moment_def resolving_def
  change_evidence_def poll_decided decided_future_def

lemma example_rename_prepared:
  "t_prepare (rename_file_tool (\<lambda>_. '''')) (new_tool_context ''/w'') example_rename example_world =
     (Inr (DirectCall [write_permission ''rename_file'' ''/w/a'', write_permission ''rename_file'' ''/w/b''] True),
      example_world)"
  by (simp add: rename_file_tool_def Let_def direct_prepare_def rename_requests_def resolve_old_def resolve_new_def
      action_defs example_decoded example_world_def example_resolutions new_tool_context_def)

lemma example_rename_executed:
  "poll (t_execute (rename_file_tool (\<lambda>_. '''')) (new_tool_context ''/w'') example_rename) example_world =
     (Inl (Inr (success_output ''renamed a -> b'')), example_world\<lparr>tw_disk := renamed_disk\<rparr>)"
  by (simp add: rename_file_tool_def Let_def rename_file_def resolve_old_def resolve_new_def make_parent_def
      verify_target_binding_def forget_def display_path_def
      action_defs example_decoded example_world_def example_resolutions new_tool_context_def)

end
