(* ===== verification/File_Requests.thy ===== *)
theory File_Requests
  imports File_Samples
begin

section \<open>Permissions and effects of the file tools\<close>

text \<open>
  The tools of Direct_Fs and the commits of File_Mutation change only what their write permissions name.
\<close>

subsection \<open>Steps of the operations\<close>

lemma stays_case:
  "(x = None \<Longrightarrow> stays ps a w) \<Longrightarrow> (\<And>v. x = Some v \<Longrightarrow> stays ps (b v) w) \<Longrightarrow>
     stays ps (case x of None \<Rightarrow> a | Some v \<Rightarrow> b v) w"
  "(\<And>m s. v = FileNode m s \<Longrightarrow> stays ps (f1 m s) w) \<Longrightarrow> (\<And>m. v = DirNode m \<Longrightarrow> stays ps (f2 m) w) \<Longrightarrow>
     (\<And>s. v = LinkNode s \<Longrightarrow> stays ps (f3 s) w) \<Longrightarrow> (\<And>m. v = OtherNode m \<Longrightarrow> stays ps (f4 m) w) \<Longrightarrow>
     stays ps (case v of FileNode m s \<Rightarrow> f1 m s | DirNode m \<Rightarrow> f2 m | LinkNode s \<Rightarrow> f3 s | OtherNode m \<Rightarrow> f4 m) w"
  "(c \<Longrightarrow> stays ps a w) \<Longrightarrow> (\<not> c \<Longrightarrow> stays ps a' w) \<Longrightarrow> stays ps (if c then a else a') w"
  by (cases x; simp) (cases v; simp)+

lemma stays_basic: "stays ps (give a) w" "stays ps (fail e) w"
  by (intro stays_looks looks_basic)+

lemma stays_new:
  assumes "quiet w" and "resolve_target (fs_of (tw_disk w)) root raw = Inr t"
    and "\<And>w'. quiet w' \<Longrightarrow> tw_disk w' = tw_disk w \<Longrightarrow> stays ps (f t) w'"
  shows "stays ps (seq (resolve_new root raw) f) w"
proof (rule stays_look [OF looks_verify(6) assms(1)])
  show "stays ps (f a) w'" if "resolve_new root raw w = (Inr a, w')" "quiet w'" "tw_disk w' = tw_disk w" for a w'
    using resolve_new_Inr [OF that(1) assms(1)] assms(2,3) that(2,3) by simp
qed

lemma stays_old:
  assumes "quiet w" and "resolve_existing (fs_of (tw_disk w)) root raw = Inr t"
    and "\<And>w'. quiet w' \<Longrightarrow> tw_disk w' = tw_disk w \<Longrightarrow> stays ps (f t) w'"
  shows "stays ps (seq (resolve_old root raw) f) w"
proof (rule stays_look [OF looks_verify(5) assms(1)])
  show "stays ps (f a) w'" if "resolve_old root raw w = (Inr a, w')" "quiet w'" "tw_disk w' = tw_disk w" for a w'
    using resolve_old_Inr [OF that(1) assms(1)] assms(2,3) that(2,3) by simp
qed

lemma stays_bound:
  assumes "quiet w" and "well_formed (tw_disk w)" and "goes_to target p"
    and "\<And>w'. quiet w' \<Longrightarrow> tw_disk w' = tw_disk w \<Longrightarrow> clear (tw_disk w) p \<Longrightarrow> stays ps (f ()) w'"
  shows "stays ps (seq (verify_target_binding root raw target) f) w"
proof (rule stays_look [OF looks_verify(3) assms(1)])
  show "stays ps (f a) w'"
    if "verify_target_binding root raw target w = (Inr a, w')" "quiet w'" "tw_disk w' = tw_disk w" for a w'
    using verify_target_binding_Inr [OF that(1) assms(1,2)] goes_to_unique assms(3,4) that(2,3)
    by (auto simp: goes_to_def inj_map_eq_map inj_def)
qed

lemma stays_parent:
  assumes "quiet w" and "well_formed (tw_disk w)" and "goes_to path p" and "clear (tw_disk w) p" and "p \<in> set ps"
    and "\<And>w'. quiet w' \<Longrightarrow> well_formed (tw_disk w') \<Longrightarrow> grows p (tw_disk w) (tw_disk w') \<Longrightarrow> stays ps (f ()) w'"
  shows "stays ps (seq (make_parent err path) f) w"
proof (rule stays_then_any)
  show "stays ps (make_parent err path) w"
    using make_parent_stays [OF assms(3,4)] by (rule stays_mono) (simp add: assms(5))
  show "stays ps (f a) w'" if "make_parent err path w = (Inr a, w')" "quiet w'" "well_formed (tw_disk w')" for a w'
    using make_parent_grows [OF that(1) assms(1-4)] grows_prefix [OF _ prefixeq_butlast] that(3) assms(6) by simp
qed

lemma stays_then:
  assumes "quiet w" and "looks p" and "\<And>a w'. quiet w' \<Longrightarrow> tw_disk w' = tw_disk w \<Longrightarrow> stays ps (f a) w'"
  shows "stays ps (seq p f) w"
  using assms by (intro stays_look) simp_all

text \<open>A change, after which the operation only looks.\<close>

lemma stays_last:
  assumes "within ps (tw_disk w) (snd (g (tw_disk w)))" and "\<And>a. looks (f a)"
  shows "stays ps (seq (disk_call err g) f) w"
  using assms by (intro stays_then_any stays_call stays_looks) simp_all

subsection \<open>The operations\<close>

lemma create_folder_stays:
  assumes "quiet w" and "resolve_target (fs_of (tw_disk w)) root raw = Inr t"
    and "well_formed (tw_disk w)" and "goes_to (absolute t) p" and "clear (tw_disk w) p"
  shows "stays [p] (create_folder root raw) w"
  unfolding create_folder_def Let_def
  by (rule stays_new [OF assms(1,2)], rule stays_then, assumption, rule looks_disk_look,
      intro stays_case stays_basic stays_last looks_basic grows_within create_dir_all_grows)
    (use assms in simp_all)

lemma copy_file_stays:
  assumes "quiet w" and "resolve_existing (fs_of (tw_disk w)) root source = Inr s"
    and "resolve_target (fs_of (tw_disk w)) root destination = Inr t"
    and "well_formed (tw_disk w)" and "goes_to (absolute t) p" and "clear (tw_disk w) p"
  shows "stays [p] (copy_file root source destination) w"
  unfolding copy_file_def Let_def
  apply (rule stays_old [OF assms(1,2)])
  apply (rule stays_new, assumption, simp add: assms(3))
  apply (rule stays_case, rule stays_basic)
  apply (rule stays_then, assumption, rule looks_disk_look)
  apply (intro stays_case stays_basic)
  apply (rule stays_then, assumption, rule looks_verify)
  apply (rule stays_parent [OF _ _ assms(5)], assumption, simp add: assms, simp add: assms, simp)
  apply (rule stays_bound [OF _ _ assms(5)], assumption, assumption)
  apply (rule stays_then, assumption, rule looks_touch)
  apply (rule stays_bound [OF _ _ assms(5)], assumption, simp)
  apply (rule stays_last)
   apply (rule replace_file_within [OF assms(5)], simp, simp)
  apply (intro looks_intros looks_verify)
  done

lemma rename_file_stays:
  assumes "quiet w" and "resolve_existing (fs_of (tw_disk w)) root old = Inr s"
    and "resolve_target (fs_of (tw_disk w)) root new = Inr t" and "well_formed (tw_disk w)"
    and "goes_to (absolute s) p" and "real (tw_disk w) p" and "goes_to (absolute t) q" and "clear (tw_disk w) q"
  shows "stays [p, q] (rename_file root old new) w"
  unfolding rename_file_def Let_def
  apply (rule stays_old [OF assms(1,2)])
  apply (rule stays_new, assumption, simp add: assms(3))
  apply (rule stays_case, rule stays_basic)
  apply (rule stays_parent [OF _ _ assms(7)], assumption, simp add: assms, simp add: assms, simp)
  apply (rule stays_bound [OF _ _ assms(7)], assumption, assumption)
  apply (rule stays_last)
   apply (rule rename_entry_within [OF assms(5) real_clear assms(7)])
     apply (use assms(6) in \<open>auto intro: grows_real\<close>)[3]
  apply (intro looks_intros looks_verify)
  done

lemma delete_file_stays:
  assumes "quiet w" and "resolve_existing (fs_of (tw_disk w)) root raw = Inr t"
    and "well_formed (tw_disk w)" and "goes_to (absolute t) p" and "real (tw_disk w) p"
  shows "stays [p] (delete_file root raw) w"
  unfolding delete_file_def Let_def
  apply (rule stays_old [OF assms(1,2)])
  apply (rule stays_then, assumption, rule looks_disk_look)
  apply (rule stays_then_any)
   apply (intro stays_case stays_call remove_file_within [OF assms(4)] remove_dir_within [OF assms(4)])
          apply (use assms(3) in \<open>simp_all add: real_clear [OF assms(5)]\<close>)
  apply (intro stays_looks looks_intros looks_verify)
  done

text \<open>The names of an absolute path.\<close>

definition names_of :: "string \<Rightarrow> names" where
  "names_of path = map component_text (tl (components path))"

lemma names_of_goes_to: "goes_to path p \<Longrightarrow> names_of path = p"
  by (simp add: goes_to_def names_of_def comp_def)

lemma stays_binding:
  assumes "quiet w" and "well_formed (tw_disk w)"
    and "\<And>w'. goes_to (pm_target p) (names_of (pm_target p)) \<Longrightarrow> clear (tw_disk w) (names_of (pm_target p)) \<Longrightarrow>
       quiet w' \<Longrightarrow> tw_disk w' = tw_disk w \<Longrightarrow> stays ps (f ()) w'"
  shows "stays ps (seq (verify_binding root p) f) w"
proof (rule stays_look [OF looks_verify(1) assms(1)])
  show "stays ps (f a) w'" if "verify_binding root p w = (Inr a, w')" "quiet w'" "tw_disk w' = tw_disk w" for a w'
  proof -
    from verify_binding_Inr [OF that(1) assms(1,2)] obtain q
      where q: "goes_to (pm_target p) q" "clear (tw_disk w) q" by blast
    from assms(3) [OF _ _ that(2,3)] q show ?thesis by (simp add: names_of_goes_to)
  qed
qed

lemma apply_mutation_stays:
  assumes "quiet w" and "well_formed (tw_disk w)"
  shows "stays [names_of (pm_target p)] (apply_mutation sha256 root p) w"
  unfolding apply_mutation_def Let_def
  apply (rule stays_case, rule stays_basic)
  apply (rule stays_binding [OF assms])
  apply (rule stays_parent, assumption, simp add: assms(2), assumption, simp, simp)
  apply (rule stays_binding, assumption, assumption)
  apply (rule stays_then, assumption, rule looks_verify)
  apply (rule stays_then, assumption, rule looks_touch)
  apply (rule stays_binding, assumption, simp)
  apply (rule stays_then, assumption, rule looks_verify)
  apply (rule stays_last)
   apply (rule replace_file_within, assumption, simp, simp)
  apply (intro looks_intros looks_verify)
  done

subsection \<open>The tools\<close>

text \<open>
  What a list of permission requests allows to change: what a write request names, what is below it, and
  directories missing above it.
\<close>

definition asked_for :: "permission_request list \<Rightarrow> disk \<Rightarrow> disk \<Rightarrow> bool" where
  "asked_for rs d d' \<longleftrightarrow> (\<forall>q. node_at d' q \<noteq> node_at d q \<longrightarrow> (\<exists>r \<in> set rs. effect r = Write
     \<and> (prefix (names_of (req_target r)) q
        \<or> (prefix q (names_of (req_target r)) \<and> node_at d q = None \<and> is_dir_node (node_at d' q)))))"

lemma asked_for_within:
  assumes "within ps d d'" and "\<forall>p \<in> set ps. \<exists>r \<in> set rs. effect r = Write \<and> names_of (req_target r) = p"
  shows "asked_for rs d d'"
  using assms unfolding within_def asked_for_def by fast

lemma asked_for_stays:
  assumes "stays ps act w" and "quiet w" and "well_formed (tw_disk w)" and "act w = (r, w')"
    and "\<forall>p \<in> set ps. \<exists>r \<in> set rs. effect r = Write \<and> names_of (req_target r) = p"
  shows "asked_for rs (tw_disk w) (tw_disk w')"
  using assms asked_for_within [OF _ assms(5)] by (simp add: stays_def)

lemma write_requests [simp]:
  "req_target (write_permission called target) = target" "effect (write_permission called target) = Write"
  "req_target (new_permission_request called target e) = target" "effect (new_permission_request called target e) = e"
  by (simp_all add: write_permission_def new_permission_request_def)

lemma create_folder_asks:
  assumes "quiet w" and "well_formed (tw_disk w)" and "create_folder_requests root raw w = (Inr rs, w1)"
    and "create_folder root raw w1 = (r, w2)"
  shows "asked_for rs (tw_disk w) (tw_disk w2)"
proof -
  from assms(3) obtain t where t: "resolve_new root raw w = (Inr t, w1)"
    and rs: "rs = [write_permission ''create_folder'' (absolute t)]"
    by (auto simp: create_folder_requests_def seq_Inr action_simps)
  from looksD [OF looks_verify(6) t assms(1)] have w1: "quiet w1" "tw_disk w1 = tw_disk w" by blast+
  from resolve_new_Inr [OF t assms(1)] have res: "resolve_target (fs_of (tw_disk w)) root raw = Inr t" .
  from resolved_targets_are_clear [OF this assms(2)] obtain p where p: "goes_to (absolute t) p" "clear (tw_disk w) p" by blast
  have "asked_for rs (tw_disk w1) (tw_disk w2)"
    by (rule asked_for_stays [OF create_folder_stays _ _ assms(4)])
      (use w1 res p rs assms(2) in \<open>simp_all add: names_of_goes_to\<close>)
  with w1 show ?thesis by simp
qed

lemma copy_asks:
  assumes "quiet w" and "well_formed (tw_disk w)" and "copy_requests root source destination w = (Inr rs, w1)"
    and "copy_file root source destination w1 = (r, w2)"
  shows "asked_for rs (tw_disk w) (tw_disk w2)"
proof -
  from assms(3) obtain s t wm where s: "resolve_old root source w = (Inr s, wm)"
    and t: "resolve_new root destination wm = (Inr t, w1)"
    and rs: "rs = [new_permission_request ''copy_file'' (absolute s) Read, write_permission ''copy_file'' (absolute t)]"
    by (auto simp: copy_requests_def seq_Inr action_simps)
  from looksD [OF looks_verify(5) s assms(1)] have wm: "quiet wm" "tw_disk wm = tw_disk w" by blast+
  from looksD [OF looks_verify(6) t wm(1)] wm have w1: "quiet w1" "tw_disk w1 = tw_disk w" by simp_all
  from resolve_old_Inr [OF s assms(1)] resolve_new_Inr [OF t wm(1)] wm
  have res: "resolve_existing (fs_of (tw_disk w)) root source = Inr s"
    "resolve_target (fs_of (tw_disk w)) root destination = Inr t" by simp_all
  from resolved_targets_are_clear [OF res(2) assms(2)] obtain p where
    p: "goes_to (absolute t) p" "clear (tw_disk w) p" by blast
  have "asked_for rs (tw_disk w1) (tw_disk w2)"
    by (rule asked_for_stays [OF copy_file_stays _ _ assms(4)])
      (use w1 res p rs assms(2) in \<open>simp_all add: names_of_goes_to\<close>)
  with w1 show ?thesis by simp
qed

lemma rename_asks:
  assumes "quiet w" and "well_formed (tw_disk w)" and "rename_requests root old new w = (Inr rs, w1)"
    and "rename_file root old new w1 = (r, w2)"
  shows "asked_for rs (tw_disk w) (tw_disk w2)"
proof -
  from assms(3) obtain s t wm where s: "resolve_old root old w = (Inr s, wm)"
    and t: "resolve_new root new wm = (Inr t, w1)"
    and rs: "rs = [write_permission ''rename_file'' (absolute s), write_permission ''rename_file'' (absolute t)]"
    by (auto simp: rename_requests_def seq_Inr action_simps)
  from looksD [OF looks_verify(5) s assms(1)] have wm: "quiet wm" "tw_disk wm = tw_disk w" by blast+
  from looksD [OF looks_verify(6) t wm(1)] wm have w1: "quiet w1" "tw_disk w1 = tw_disk w" by simp_all
  from resolve_old_Inr [OF s assms(1)] resolve_new_Inr [OF t wm(1)] wm
  have res: "resolve_existing (fs_of (tw_disk w)) root old = Inr s"
    "resolve_target (fs_of (tw_disk w)) root new = Inr t" by simp_all
  from resolved_targets_are_clear [OF res(2) assms(2)] resolved_paths_are_real [OF res(1)] obtain p q where
    pq: "goes_to (absolute s) p" "real (tw_disk w) p" "goes_to (absolute t) q" "clear (tw_disk w) q" by blast
  have "asked_for rs (tw_disk w1) (tw_disk w2)"
    by (rule asked_for_stays [OF rename_file_stays _ _ assms(4)])
      (use w1 res pq rs assms(2) in \<open>auto simp: names_of_goes_to\<close>)
  with w1 show ?thesis by simp
qed

lemma delete_asks:
  assumes "quiet w" and "well_formed (tw_disk w)" and "delete_requests root raw w = (Inr rs, w1)"
    and "delete_file root raw w1 = (r, w2)"
  shows "asked_for rs (tw_disk w) (tw_disk w2)"
proof -
  from assms(3) obtain t where t: "resolve_old root raw w = (Inr t, w1)"
    and rs: "rs = [write_permission ''delete_file'' (absolute t)]"
    by (auto simp: delete_requests_def seq_Inr action_simps)
  from looksD [OF looks_verify(5) t assms(1)] have w1: "quiet w1" "tw_disk w1 = tw_disk w" by blast+
  from resolve_old_Inr [OF t assms(1)] have res: "resolve_existing (fs_of (tw_disk w)) root raw = Inr t" .
  from resolved_paths_are_real [OF this] obtain p where p: "goes_to (absolute t) p" "real (tw_disk w) p" by blast
  have "asked_for rs (tw_disk w1) (tw_disk w2)"
    by (rule asked_for_stays [OF delete_file_stays _ _ assms(4)])
      (use w1 res p rs assms(2) in \<open>simp_all add: names_of_goes_to\<close>)
  with w1 show ?thesis by simp
qed

lemma direct_prepare_Inr:
  "direct_prepare requests irreversible w = (Inr (DirectCall rs irr), w') \<Longrightarrow> requests w = (Inr rs, w')"
  by (auto simp: direct_prepare_def seq_Inr action_simps)

lemma decoded_both:
  "seq (lift d) f w = (Inr x, w') \<Longrightarrow> seq (lift d) g w1 = (r, w2) \<Longrightarrow> \<exists>a. f a w = (Inr x, w') \<and> g a w1 = (r, w2)"
  by (cases d) (auto simp: seq_def action_simps)

definition direct_tools :: "(json \<Rightarrow> string) \<Rightarrow> tool_world tool list" where
  "direct_tools decode_error =
     [create_folder_tool decode_error, copy_file_tool decode_error,
      rename_file_tool decode_error, delete_file_tool decode_error]"

text \<open>
  C16. Creating, copying, renaming and deleting, as long as nobody else changes the disk between the preparation
  of the call and the end of its execution, and on a disk where everything stands in a directory: whatever the
  arguments, wherever the links of the disk lead, and whichever system call fails half way, everything that is
  different on the disk after the execution is at or below a name for which the tool asked a write permission when
  it was prepared, or a directory that was missing above one. When others are at work it does not hold
  (\<open>exchanged_links_redirect_the_tools\<close>).
\<close>

theorem direct_tools_change_only_what_they_ask_for:
  assumes "tool \<in> set (direct_tools decode_error)" and "quiet w" and "well_formed (tw_disk w)"
    and "t_prepare tool ctx arguments w = (Inr (DirectCall rs irreversible), w1)"
    and "poll (t_execute tool ctx arguments) w1 = (Inl r, w2)"
  shows "asked_for rs (tw_disk w) (tw_disk w2)"
proof -
  let ?root = "workspace_root ctx"
  from assms(1) consider "tool = create_folder_tool decode_error" | "tool = copy_file_tool decode_error"
    | "tool = rename_file_tool decode_error" | "tool = delete_file_tool decode_error"
    by (auto simp: direct_tools_def)
  then show ?thesis
  proof cases
    case 1
    with assms(4,5) have "\<exists>a. create_folder_requests ?root a w = (Inr rs, w1) \<and> create_folder ?root a w1 = (r, w2)"
      by (intro decoded_both [where d = "decode_path decode_error arguments"])
        (simp_all add: create_folder_tool_def poll_decided direct_prepare_Inr)
    then show ?thesis using create_folder_asks [OF assms(2,3)] by blast
  next
    case 2
    with assms(4,5) have "\<exists>p. (case p of (a, b) \<Rightarrow> copy_requests ?root a b) w = (Inr rs, w1)
        \<and> (case p of (a, b) \<Rightarrow> copy_file ?root a b) w1 = (r, w2)"
      by (intro decoded_both [where d = "decode_pair decode_error ''source'' ''destination'' arguments"])
        (simp_all add: copy_file_tool_def Let_def poll_decided direct_prepare_Inr)
    then show ?thesis using copy_asks [OF assms(2,3)] by auto
  next
    case 3
    with assms(4,5) have "\<exists>p. (case p of (a, b) \<Rightarrow> rename_requests ?root a b) w = (Inr rs, w1)
        \<and> (case p of (a, b) \<Rightarrow> rename_file ?root a b) w1 = (r, w2)"
      by (intro decoded_both [where d = "decode_pair decode_error ''old_path'' ''new_path'' arguments"])
        (simp_all add: rename_file_tool_def Let_def poll_decided direct_prepare_Inr)
    then show ?thesis using rename_asks [OF assms(2,3)] by auto
  next
    case 4
    with assms(4,5) have "\<exists>a. delete_requests ?root a w = (Inr rs, w1) \<and> delete_file ?root a w1 = (r, w2)"
      by (intro decoded_both [where d = "decode_path decode_error arguments"])
        (simp_all add: delete_file_tool_def poll_decided direct_prepare_Inr)
    then show ?thesis using delete_asks [OF assms(2,3)] by blast
  qed
qed

theorem direct_tools_change_only_what_they_ask_for_witness:
  "asked_for [write_permission ''rename_file'' ''/w/a'', write_permission ''rename_file'' ''/w/b'']
     example_disk renamed_disk \<and> renamed_disk \<noteq> example_disk"
proof -
  have "rename_file_tool (\<lambda>_. '''') \<in> set (direct_tools (\<lambda>_. ''''))" by (simp add: direct_tools_def)
  from direct_tools_change_only_what_they_ask_for [OF this example_quiet _ example_rename_prepared example_rename_executed]
  have "asked_for [write_permission ''rename_file'' ''/w/a'', write_permission ''rename_file'' ''/w/b'']
     example_disk renamed_disk" using example_well_formed by (simp add: example_world_def)
  moreover have "renamed_disk \<noteq> example_disk" by (simp add: renamed_disk_def example_disk_def)
  ultimately show ?thesis ..
qed

text \<open>
  The tools resolve their arguments again when they are executed, and the check of the binding in copies and renames
  compares with that second resolution only. A directory that is exchanged for a link after the permission was given
  redirects the change to a name that nobody was asked about.
\<close>

definition plain_disk :: disk where
  "plain_disk = example_disk\<lparr>dk_nodes :=
     [([''w''], DirNode example_meta), ([''w'', ''l''], DirNode example_meta), ([''w'', ''o''], DirNode example_meta)]\<rparr>"

definition relinked_disk :: disk where
  "relinked_disk = example_disk\<lparr>dk_nodes :=
     [([''w''], DirNode example_meta), ([''w'', ''l''], LinkNode ''/w/o''), ([''w'', ''o''], DirNode example_meta)]\<rparr>"

definition redirected_disk :: disk where
  "redirected_disk = snd (create_dir_all ''/w/o/n'' relinked_disk)"

text \<open>The exchange happens after the first look at the disk, the one of the preparation.\<close>

definition exchanging_world :: tool_world where
  "exchanging_world = \<lparr>tw_disk = plain_disk,
     tw_moments = [\<lparr>mo_change = (\<lambda>d. d), mo_fault = None\<rparr>, \<lparr>mo_change = (\<lambda>_. relinked_disk), mo_fault = None\<rparr>],
     tw_evidence = None\<rparr>"

definition new_folder :: json where
  "new_folder = JObject [(''path'', JString ''l/n'')]"

lemma exchange_steps:
  "decode_path (\<lambda>_. '''') new_folder = Inr ''l/n''"
  "map_sum id absolute (resolve_target (fs_of plain_disk) ''/w'' ''l/n'') = Inr ''/w/l/n''"
  "map_sum id absolute (resolve_target (fs_of relinked_disk) ''/w'' ''l/n'') = Inr ''/w/o/n''"
  "stat ''/w/o/n'' relinked_disk = Inl enoent" "io_not_found enoent"
  "create_dir_all ''/w/o/n'' relinked_disk = (Inr (), redirected_disk)"
  "node_at plain_disk [''w'', ''o'', ''n''] = None" "is_dir_node (node_at redirected_disk [''w'', ''o'', ''n''])"
  "node_at redirected_disk [''w'', ''l'', ''n''] = None"
  by code_simp+

lemma map_sum_absolute: "map_sum id absolute r = Inr p \<Longrightarrow> \<exists>t. r = Inr t \<and> absolute t = p"
  by (cases r) auto

theorem exchanged_links_redirect_the_tools:
  "\<exists>w1 w2 out. t_prepare (create_folder_tool (\<lambda>_. '''')) (new_tool_context ''/w'') new_folder exchanging_world
       = (Inr (DirectCall [write_permission ''create_folder'' ''/w/l/n''] False), w1)
     \<and> poll (t_execute (create_folder_tool (\<lambda>_. '''')) (new_tool_context ''/w'') new_folder) w1 = (Inl (Inr out), w2)
     \<and> node_at plain_disk [''w'', ''o'', ''n''] = None
     \<and> is_dir_node (node_at (tw_disk w2) [''w'', ''o'', ''n''])
     \<and> node_at (tw_disk w2) [''w'', ''l'', ''n''] = None"
proof -
  from map_sum_absolute [OF exchange_steps(2)] obtain t
    where t: "resolve_target (fs_of plain_disk) ''/w'' ''l/n'' = Inr t" "absolute t = ''/w/l/n''" by blast
  from map_sum_absolute [OF exchange_steps(3)] obtain u
    where u: "resolve_target (fs_of relinked_disk) ''/w'' ''l/n'' = Inr u" "absolute u = ''/w/o/n''" by blast
  let ?w1 = "\<lparr>tw_disk = plain_disk, tw_moments = [\<lparr>mo_change = (\<lambda>_. relinked_disk), mo_fault = None\<rparr>],
     tw_evidence = None\<rparr>"
  let ?w2 = "\<lparr>tw_disk = redirected_disk, tw_moments = [], tw_evidence = None\<rparr>"
  have "t_prepare (create_folder_tool (\<lambda>_. '''')) (new_tool_context ''/w'') new_folder exchanging_world
      = (Inr (DirectCall [write_permission ''create_folder'' ''/w/l/n''] False), ?w1)"
    by (simp add: create_folder_tool_def direct_prepare_def create_folder_requests_def resolve_new_def
        action_defs exchange_steps(1) exchanging_world_def t new_tool_context_def)
  moreover have "\<exists>out. poll (t_execute (create_folder_tool (\<lambda>_. '''')) (new_tool_context ''/w'') new_folder) ?w1
      = (Inl (Inr out), ?w2)"
    by (simp add: create_folder_tool_def create_folder_def resolve_new_def Let_def
        action_defs exchange_steps(1,4-6) u new_tool_context_def map_err_def)
  ultimately show ?thesis using exchange_steps(7-9) by fastforce
qed

text \<open>
  A prepared write or edit, committed at any later time on any disk, changes nothing but what is at or
  below the one name its permission request shows, and directories that were missing above it.
\<close>

theorem commits_change_only_what_they_ask_for:
  assumes "quiet w" and "well_formed (tw_disk w)"
    and "prepare_file_mutation find_all sha256 root called raw_path mut w0 = (Inr (PreparedCall pc), w1)"
    and "poll (pc_commit pc ctx) w = (Inl r, w2)"
  shows "asked_for (pc_permission_requests pc) (tw_disk w) (tw_disk w2)"
proof -
  from assms(3) obtain p where pc: "pc = prepared_file_mutation sha256 called p"
    by (auto simp: prepare_file_mutation_def seq_Inr action_simps)
  with assms(4) have "apply_mutation sha256 (workspace_root ctx) p w = (r, w2)"
    by (simp add: prepared_file_mutation_def poll_decided)
  from asked_for_stays [OF apply_mutation_stays [OF assms(1,2)] assms(1,2) this] show ?thesis
    by (simp add: pc prepared_file_mutation_def)
qed

definition example_edit :: prepared_mutation where
  "example_edit = \<lparr>pm_kind = EditKind, pm_raw_path = ''a'', pm_target = ''/w/a'', pm_display_path = ''a'',
     pm_preimage = Some example_snapshot, pm_after = ''yz''\<rparr>"

definition edited_disk :: disk where
  "edited_disk = used_inode (set_node [''w'', ''a''] (FileNode ((dk_fresh example_disk)\<lparr>fm_mode := 33188\<rparr>) ''yz'') example_disk)"

lemma example_edit_steps:
  "stat ''/w/a'' example_disk = Inr (FileNode example_meta ''x'')"
  "snapshot_of (\<lambda>_. []) ''/w/a'' (Inr (FileNode example_meta ''x'')) = Inr (Some example_snapshot)"
  "derive_postimage (\<lambda>_ _. [0]) (Some example_snapshot) (EditOne ''x'' ''yz'') = Inr ''yz''"
  "replace_file ''/w/a'' None ''yz'' example_disk = (Inr (), edited_disk)"
  "unchanged example_edit = False" "stage_calls ''yz'' = 3"
  "still_fresh (Some example_snapshot) (Some example_snapshot) = True"
proof -
  show "stat ''/w/a'' example_disk = Inr (FileNode example_meta ''x'')"
    "replace_file ''/w/a'' None ''yz'' example_disk = (Inr (), edited_disk)" by code_simp+
qed (simp_all add: snapshot_of_def max_content_bytes_def example_snapshot_def derive_postimage_def unchanged_def
    example_edit_def stage_calls_def div_ceil_def still_fresh_def)

lemma example_edit_fields:
  "pm_target example_edit = ''/w/a''" "pm_raw_path example_edit = ''a''" "pm_after example_edit = ''yz''"
  "pm_kind example_edit = EditKind" "pm_display_path example_edit = ''a''" "pm_preimage example_edit = Some example_snapshot"
  "tw_disk example_world = example_disk" "tw_moments example_world = []" "tw_evidence example_world = None"
  "example_world\<lparr>tw_disk := example_disk\<rparr> = example_world"
  by (simp_all add: example_edit_def example_world_def)

lemma example_edit_prepared:
  "prepare_mutation (\<lambda>_ _. [0]) (\<lambda>_. []) ''/w'' ''a'' (EditOne ''x'' ''yz'') example_world = (Inr example_edit, example_world)"
  by (simp add: prepare_mutation_def read_snapshot_def max_path_bytes_def action_defs example_resolutions
      example_edit_fields example_edit_steps kind_of_def)

lemma example_commit_steps:
  "verify_binding ''/w'' example_edit example_world = (Inr (), example_world)"
  "make_parent parent_err ''/w/a'' example_world = (Inr (), example_world)"
  "verify_preimage (\<lambda>_. []) ''/w/a'' (Some example_snapshot) example_world = (Inr (), example_world)"
  "touch err n example_world = (Inr (), example_world)"
  "disk_call err (replace_file ''/w/a'' None ''yz'') example_world = (Inr (), example_world\<lparr>tw_disk := edited_disk\<rparr>)"
  "record_mutation (\<lambda>_. []) example_edit (example_world\<lparr>tw_disk := edited_disk\<rparr>) = (Inr (), example_world\<lparr>tw_disk := edited_disk\<rparr>)"
proof -
  show "touch err n example_world = (Inr (), example_world)"
    by (induction n) (simp_all add: action_defs example_edit_fields)
qed (simp_all add: verify_binding_def make_parent_def verify_preimage_def read_snapshot_def record_mutation_def
    action_defs example_edit_fields example_edit_steps example_resolutions)

lemma example_edit_applied:
  "apply_mutation (\<lambda>_. []) ''/w'' example_edit example_world =
     (Inr (success_output ''edited a (2 bytes)''), example_world\<lparr>tw_disk := edited_disk\<rparr>)"
proof -
  have "show_nat (Suc (Suc 0)) = ''2''" by code_simp
  then show ?thesis
    by (simp add: apply_mutation_def Let_def seq_def action_simps example_commit_steps example_edit_fields example_edit_steps
        del: touch.simps)
qed

theorem commits_change_only_what_they_ask_for_witness:
  "asked_for [new_permission_request ''edit_file'' ''/w/a'' Write] example_disk edited_disk"
proof -
  let ?pc = "prepared_file_mutation (\<lambda>_. []) ''edit_file'' example_edit"
  have "prepare_file_mutation (\<lambda>_ _. [0]) (\<lambda>_. []) ''/w'' ''edit_file'' ''a'' (EditOne ''x'' ''yz'') example_world =
      (Inr (PreparedCall ?pc), example_world)"
    by (simp add: prepare_file_mutation_def seq_def action_simps example_edit_prepared)
  moreover have "poll (pc_commit ?pc (new_tool_context ''/w'')) example_world =
      (Inl (Inr (success_output ''edited a (2 bytes)'')), example_world\<lparr>tw_disk := edited_disk\<rparr>)"
    by (simp add: prepared_file_mutation_def poll_decided new_tool_context_def example_edit_applied)
  ultimately have "asked_for (pc_permission_requests ?pc) (tw_disk example_world) edited_disk"
    using commits_change_only_what_they_ask_for [OF example_quiet] example_well_formed by (fastforce simp: example_edit_fields)
  then show ?thesis by (simp add: prepared_file_mutation_def example_edit_fields)
qed

end
