(* ===== verification/File_Commits.thy ===== *)
theory File_Commits
  imports File_Requests
begin

section \<open>Commits and edits\<close>

text \<open>
  A commit writes the prepared content, all of it, or leaves the file as it was; and it writes only where the
  file still is the one that was shown. An edit replaces one occurrence of its text, the only one there is.
\<close>

subsection \<open>All or nothing\<close>















end
