(* ===== verification/File_Edits.thy ===== *)
theory File_Edits
  imports File_Samples
begin

section \<open>What an edit makes of a text\<close>

text \<open>
  An edit replaces the one occurrence of its text, or is rejected. \<open>finds\<close> is what is documented of
  \<open>memmem::find_iter\<close>: all occurrences that do not overlap, from left to right.
\<close>

definition occurs_at :: "string \<Rightarrow> string \<Rightarrow> nat \<Rightarrow> bool" where
  "occurs_at body pat i \<longleftrightarrow> i \<le> length body \<and> prefix pat (drop i body)"

definition finds :: "(string \<Rightarrow> string \<Rightarrow> nat list) \<Rightarrow> bool" where
  "finds find_all \<longleftrightarrow> (\<forall>body pat.
     sorted_wrt (\<lambda>i j. i + max 1 (length pat) \<le> j) (find_all body pat)
     \<and> (\<forall>i \<in> set (find_all body pat). occurs_at body pat i)
     \<and> (\<forall>i. occurs_at body pat i \<longrightarrow> (\<exists>j \<in> set (find_all body pat). j \<le> i \<and> i < j + max 1 (length pat))))"

text \<open>A search that satisfies it.\<close>

function find_from :: "nat \<Rightarrow> string \<Rightarrow> string \<Rightarrow> nat list" where
  "find_from i body pat =
     (if length body < i then []
      else if prefix pat (drop i body) then i # find_from (i + max 1 (length pat)) body pat
      else find_from (Suc i) body pat)"
  by pat_completeness auto
termination by (relation "measure (\<lambda>(i, body, pat). Suc (length body) - i)") auto

declare find_from.simps [simp del]

lemma find_from_spec:
  "sorted_wrt (\<lambda>i j. i + max 1 (length pat) \<le> j) (find_from i body pat)
   \<and> (\<forall>k \<in> set (find_from i body pat). i \<le> k \<and> occurs_at body pat k)
   \<and> (\<forall>k \<ge> i. occurs_at body pat k \<longrightarrow> (\<exists>j \<in> set (find_from i body pat). j \<le> k \<and> k < j + max 1 (length pat)))"
proof (induction i body pat rule: find_from.induct)
  case (1 i body pat)
  consider "length body < i" | "i \<le> length body" "prefix pat (drop i body)" | "i \<le> length body" "\<not> prefix pat (drop i body)"
    by linarith
  then show ?case
  proof cases
    case 1
    then show ?thesis by (auto simp: find_from.simps occurs_at_def)
  next
    case 2
    let ?next = "find_from (i + max 1 (length pat)) body pat"
    have eq: "find_from i body pat = i # ?next" using 2 by (simp add: find_from.simps)
    from "1.IH"(1) 2 have IH: "sorted_wrt (\<lambda>i j. i + max 1 (length pat) \<le> j) ?next"
      "\<forall>k \<in> set ?next. i + max 1 (length pat) \<le> k \<and> occurs_at body pat k"
      "\<forall>k \<ge> i + max 1 (length pat). occurs_at body pat k \<longrightarrow> (\<exists>j \<in> set ?next. j \<le> k \<and> k < j + max 1 (length pat))"
      by auto
    have "\<exists>j \<in> set (i # ?next). j \<le> k \<and> k < j + max 1 (length pat)" if "i \<le> k" "occurs_at body pat k" for k
      using that IH(3) by (cases "k < i + max 1 (length pat)") auto
    moreover have "\<forall>k \<in> set (i # ?next). i \<le> k \<and> occurs_at body pat k" using IH(2) 2 by (auto simp: occurs_at_def)
    moreover have "sorted_wrt (\<lambda>i j. i + max 1 (length pat) \<le> j) (i # ?next)" using IH(1,2) by simp
    ultimately show ?thesis unfolding eq by blast
  next
    case 3
    have eq: "find_from i body pat = find_from (Suc i) body pat" using 3 by (subst find_from.simps) simp
    have "k \<noteq> i" if "occurs_at body pat k" for k using that 3 by (auto simp: occurs_at_def)
    then have "Suc i \<le> k" if "i \<le> k" "occurs_at body pat k" for k using that le_neq_implies_less Suc_leI by metis
    with "1.IH"(2) 3 show ?thesis unfolding eq by (auto dest: Suc_leD)
  qed
qed

lemma find_from_finds: "finds (find_from 0)"
  using find_from_spec [of _ 0] by (simp add: finds_def)

text \<open>
  C18. An edit that is accepted replaces one occurrence of the old text by the new one and leaves
  everything before and after it; there is no second occurrence apart from it (one that overlaps it is not
  noticed), the result is different, and within the bound. An edit is rejected only when a text or the result
  is too large, nothing would change, there is no occurrence, or there are two that do not overlap.
\<close>

theorem an_edit_replaces_the_one_occurrence:
  assumes "finds find_all"
  shows "case derive_postimage find_all (Some s) (EditOne old new) of
      Inr after \<Rightarrow> \<exists>a b. sn_content s = a @ old @ b \<and> after = a @ new @ b \<and> after \<noteq> sn_content s
        \<and> length after \<le> max_content_bytes
        \<and> (\<forall>i. occurs_at (sn_content s) old i \<longrightarrow> i = length a \<or> (length a < i \<and> i < length a + length old))
    | Inl e \<Rightarrow> max_content_bytes < length old \<or> max_content_bytes < length new \<or> old = new
        \<or> max_content_bytes < length (sn_content s) - length old + length new
        \<or> (\<forall>i. \<not> occurs_at (sn_content s) old i)
        \<or> (\<exists>i j. occurs_at (sn_content s) old i \<and> occurs_at (sn_content s) old j \<and> i < j \<and> i + length old \<le> j)"
proof -
  let ?text = "sn_content s"
  from assms have sorted: "sorted_wrt (\<lambda>i j. i + max 1 (length old) \<le> j) (find_all ?text old)"
    and sound: "\<And>i. i \<in> set (find_all ?text old) \<Longrightarrow> occurs_at ?text old i"
    and complete: "\<And>i. occurs_at ?text old i \<Longrightarrow> \<exists>j \<in> set (find_all ?text old). j \<le> i \<and> i < j + max 1 (length old)"
    by (auto simp: finds_def)
  consider "find_all ?text old = []" | k where "find_all ?text old = [k]" | k l ks where "find_all ?text old = k # l # ks"
    by (metis list.exhaust)
  then show ?thesis
  proof cases
    case 1
    with complete show ?thesis by (auto simp: derive_postimage_def split: sum.splits)
  next
    case 2
    from sound [of k] 2 obtain b where b: "k \<le> length ?text" "drop k ?text = old @ b"
      by (auto simp: occurs_at_def prefix_def)
    then have whole: "?text = take k ?text @ old @ b" by (metis append_take_drop_id)
    have rest: "drop (k + length old) ?text = b" using b(2) by (metis add.commute append_eq_conv_conj drop_drop)
    have len: "length ?text = k + length old + length b" using b by (metis add.assoc diff_add_inverse2 le_add_diff_inverse length_append length_drop)
    have lone: "i = k \<or> (k < i \<and> i < k + length old)" if "occurs_at ?text old i" for i
      using complete [OF that] 2 by auto
    show ?thesis
    proof (cases "derive_postimage find_all (Some s) (EditOne old new)")
      case (Inl e)
      with 2 show ?thesis by (auto simp: derive_postimage_def len split: if_splits)
    next
      case (Inr after)
      with 2 have after: "after = take k ?text @ new @ b" "old \<noteq> new"
        "length ?text - length old + length new \<le> max_content_bytes"
        by (auto simp: derive_postimage_def rest split: if_splits)
      have "length after \<le> max_content_bytes" using after(1,3) len b(1) by simp
      moreover have "after \<noteq> ?text" using after(1,2) whole by (metis append_same_eq same_append_eq)
      moreover have "\<forall>i. occurs_at ?text old i \<longrightarrow>
          i = length (take k ?text) \<or> (length (take k ?text) < i \<and> i < length (take k ?text) + length old)"
        using lone b(1) by simp
      ultimately show ?thesis
        unfolding Inr sum.case
        by - (rule exI [of _ "take k ?text"], rule exI [of _ b], use after(1) whole in blast)
    qed
  next
    case 3
    then have "occurs_at ?text old k \<and> occurs_at ?text old l \<and> k < l \<and> k + length old \<le> l"
      using sound sorted by auto
    with 3 show ?thesis by (auto simp: derive_postimage_def split: sum.splits)
  qed
qed

theorem an_edit_replaces_the_one_occurrence_witness:
  "derive_postimage (find_from 0) (Some (example_snapshot\<lparr>sn_content := ''aaa''\<rparr>)) (EditOne ''aa'' ''b'') = Inr ''ba''
   \<and> (\<exists>a b. ''aaa'' = a @ ''aa'' @ b \<and> ''ba'' = a @ ''b'' @ b)
   \<and> occurs_at ''aaa'' ''aa'' 0 \<and> occurs_at ''aaa'' ''aa'' 1"
proof -
  have "find_from 0 ''aaa'' ''aa'' = [0]" by (simp add: find_from.simps)
  then have eq: "derive_postimage (find_from 0) (Some (example_snapshot\<lparr>sn_content := ''aaa''\<rparr>)) (EditOne ''aa'' ''b'') = Inr ''ba''"
    by (simp add: derive_postimage_def max_content_bytes_def)
  with an_edit_replaces_the_one_occurrence
    [OF find_from_finds, where s = "example_snapshot\<lparr>sn_content := ''aaa''\<rparr>" and old = "''aa''" and new = "''b''"]
  have "\<exists>a b. ''aaa'' = a @ ''aa'' @ b \<and> ''ba'' = a @ ''b'' @ b" by auto
  with eq show ?thesis by (simp add: occurs_at_def)
qed

end
