(* ===== verification/Read_File.thy ===== *)
theory Read_File
  imports File_Samples
begin

section \<open>Reading a file\<close>

text \<open>
  \<open>fx-tools/src/read_file.rs\<close>: a range of numbered lines of a text file, within bounds on the lines, on
  each line and on the whole. Reading a directory or a special file is the error \<open>EISDIR\<close> here.
\<close>

definition max_snapshot_bytes :: nat where "max_snapshot_bytes = 10 * 1024 * 1024"
definition max_model_output_bytes :: nat where "max_model_output_bytes = 256 * 1024"
definition max_line_count :: nat where "max_line_count = 2000"
definition line_truncated_suffix :: string where "line_truncated_suffix = ''... (line truncated)''"

definition nl :: char where "nl = CHR 0x0A"
definition tab :: char where "tab = CHR 0x09"

subsection \<open>The input\<close>

record read_input =
  ri_path :: string
  ri_start_line :: nat
  ri_line_count :: nat

text \<open>A field with a serde default.\<close>

definition nat_field_or :: "nat \<Rightarrow> (string \<times> json) list \<Rightarrow> string \<Rightarrow> nat option" where
  "nat_field_or d obj k = (case map_of obj k of None \<Rightarrow> Some d | Some _ \<Rightarrow> nat_field usize_max obj k)"

definition decode_read :: "(json \<Rightarrow> string) \<Rightarrow> json \<Rightarrow> tool_error + read_input" where
  "decode_read decode_error v =
     (case struct_fields [''path'', ''start_line'', ''line_count''] v of
        None \<Rightarrow> Inl (InvalidArguments (decode_error v))
      | Some obj \<Rightarrow>
          (case (string_field obj ''path'', nat_field_or 1 obj ''start_line'', nat_field_or 400 obj ''line_count'') of
             (Some p, Some s, Some c) \<Rightarrow> Inr \<lparr>ri_path = p, ri_start_line = s, ri_line_count = c\<rparr>
           | _ \<Rightarrow> Inl (InvalidArguments (decode_error v))))"

subsection \<open>Lines\<close>

text \<open>\<open>str::split_terminator\<close>.\<close>

definition split_terminator :: "char \<Rightarrow> string \<Rightarrow> string list" where
  "split_terminator c s = (let ws = split_on c s in if last ws = [] then butlast ws else ws)"

definition truncate_utf8 :: "string \<Rightarrow> nat \<Rightarrow> string \<times> bool" where
  "truncate_utf8 s max_bytes =
     (if length s \<le> max_bytes then (s, False) else (take (utf8_backward_boundary s max_bytes) s, True))"

fun digits :: "nat \<Rightarrow> nat" where
  "digits n = (if 10 \<le> n then Suc (digits (n div 10)) else 1)"

declare digits.simps [simp del]

type_synonym line_record = "nat \<times> string \<times> string"

text \<open>The loop over the lines: the records, and whether something of a line or a line was left out.\<close>

fun line_records :: "nat \<Rightarrow> nat \<Rightarrow> (nat \<times> string) list \<Rightarrow> line_record list \<times> bool" where
  "line_records max_line rendered [] = ([], False)"
| "line_records max_line rendered ((number, line) # rest) =
     (let (short, was_cut) = truncate_utf8 line max_line;
          suf = (if was_cut then line_truncated_suffix else []);
          record_bytes = digits number + 1 + length short + length suf + 1 in
      if max_model_output_bytes < rendered + record_bytes then ([], True)
      else (case line_records max_line (rendered + record_bytes) rest of
          (rs, cuts) \<Rightarrow> ((number, short, suf) # rs, was_cut \<or> cuts)))"

text \<open>\<open>{number:<width$}\<close>.\<close>

definition padded :: "nat \<Rightarrow> nat \<Rightarrow> string" where
  "padded width n = (let s = show_nat n in s @ replicate (width - length s) CHR '' '')"

definition record_text :: "nat \<Rightarrow> line_record \<Rightarrow> string" where
  "record_text width r = (case r of (n, line, suf) \<Rightarrow> padded width n @ [tab] @ line @ suf @ [nl])"

definition numbered :: "string list \<Rightarrow> (nat \<times> string) list" where
  "numbered ws = zip [1..<Suc (length ws)] ws"

record read_view =
  rv_records :: "line_record list"
  rv_total :: nat
  rv_truncated :: bool

definition view_lines :: "nat \<Rightarrow> nat \<Rightarrow> nat \<Rightarrow> string \<Rightarrow> read_view" where
  "view_lines start_line line_count max_line body =
     (let ws = split_terminator nl body;
          start_index = start_line - 1;
          (rs, cuts) = line_records max_line 0 (take line_count (drop start_index (numbered ws))) in
      \<lparr>rv_records = rs, rv_total = length ws,
       rv_truncated = (cuts \<or> sat_add start_index (length rs) < length ws)\<rparr>)"

subsection \<open>The output\<close>

definition read_body :: "nat \<Rightarrow> read_view \<Rightarrow> string" where
  "read_body start_line view =
     (let rs = rv_records view in
      if rs = [] \<and> 0 < rv_total view \<and> rv_total view < start_line then
        ''... [start_line '' @ show_nat start_line @ '' is beyond end of file; total lines ''
          @ show_nat (rv_total view) @ '']'' @ [nl]
      else if rs = [] then []
      else concat (map (record_text (digits (fst (last rs)))) rs))"

definition model_complete :: "nat \<Rightarrow> bool \<Rightarrow> read_view \<Rightarrow> bool" where
  "model_complete start_line snapshot_complete view \<longleftrightarrow>
     snapshot_complete \<and> \<not> rv_truncated view \<and> start_line = 1 \<and> length (rv_records view) = rv_total view"

definition read_note :: "bool \<Rightarrow> read_view \<Rightarrow> string" where
  "read_note snapshot_complete view =
     ''... [showing '' @ show_nat (length (rv_records view)) @
     (if snapshot_complete then
        '' of '' @ show_nat (rv_total view) @ '' lines; use start_line/line_count to read more.]''
      else '' of at least '' @ show_nat (rv_total view) @ '' lines; file snapshot was capped before EOF.]'') @ [nl]"

definition read_content :: "string \<Rightarrow> nat \<Rightarrow> bool \<Rightarrow> read_view \<Rightarrow> string" where
  "read_content shown start_line snapshot_complete view =
     ''<path>'' @ shown @ ''</path>'' @ [nl] @ ''<content>'' @ [nl] @ read_body start_line view
     @ (if \<not> model_complete start_line snapshot_complete view \<and> (rv_records view \<noteq> [] \<or> rv_truncated view)
        then read_note snapshot_complete view else [])
     @ ''</content>''"

definition read_output :: "string \<Rightarrow> nat \<Rightarrow> bool \<Rightarrow> tool_output" where
  "read_output body file_bytes short =
     \<lparr>out_content = body, is_error = False, structured = None, original_bytes = file_bytes,
      truncated = short, durable_content = None\<rparr>"

definition binary_output :: "string \<Rightarrow> nat \<Rightarrow> tool_output" where
  "binary_output shown file_bytes =
     read_output (''<path>'' @ shown @ ''</path>'' @ [nl] @ ''<content>binary or non-utf8 file omitted (''
       @ show_nat file_bytes @ '' bytes)</content>'') file_bytes True"

subsection \<open>The tool\<close>

text \<open>Opening, the size and the bytes: one look.\<close>

definition open_and_read :: "string \<Rightarrow> disk \<Rightarrow> tool_error + file_meta \<times> string" where
  "open_and_read path d =
     (case stat path d of
        Inl e \<Rightarrow> Inl (io_text path e)
      | Inr (FileNode m body) \<Rightarrow> Inr (m, body)
      | Inr _ \<Rightarrow> Inl (Execution (io_message eisdir)))"

definition opened_file :: "string \<Rightarrow> (file_meta \<times> string) tool_action" where
  "opened_file path w =
     (case next_moment w of
        (Some m, w) \<Rightarrow> (Inl (io_text path (os_error m)), w)
      | (None, w) \<Rightarrow> (open_and_read path (tw_disk w), w))"

text \<open>What is made of the bytes of the file that was opened.\<close>

definition show_file ::
  "(string \<Rightarrow> nat list) \<Rightarrow> tool_world tool_context \<Rightarrow> nat \<Rightarrow> nat \<Rightarrow> resolved_path \<Rightarrow> file_meta \<times> string \<Rightarrow>
     tool_output tool_action" where
  "show_file sha256 ctx start_line line_count resolved opened =
     (let (m, body) = opened; file_bytes = length body; bytes = take max_snapshot_bytes body;
          snapshot_complete = file_bytes \<le> max_snapshot_bytes; shown = display resolved in
      if \<not> valid_utf8 bytes \<or> CHR 0x00 \<in> set bytes then give (binary_output shown file_bytes)
      else
        let view = view_lines start_line line_count (max_read_file_line_bytes (limits ctx)) bytes;
            complete = model_complete start_line snapshot_complete view in
        seq (change_evidence (\<lambda>s. record_evidence s (absolute resolved)
            \<lparr>modified_ns = metadata_modified_ns m, content_hash = sha256 bytes,
             model_view_covers_full_file = complete, snapshot_covers_full_file = snapshot_complete\<rparr>)) (\<lambda>_.
          give (read_output (read_content shown start_line snapshot_complete view) file_bytes (\<not> complete))))"

definition read_file_execute ::
  "(json \<Rightarrow> string) \<Rightarrow> (string \<Rightarrow> nat list) \<Rightarrow> tool_world tool_context \<Rightarrow> json \<Rightarrow> tool_output tool_action" where
  "read_file_execute decode_error sha256 ctx v =
     seq (lift (decode_read decode_error v)) (\<lambda>input.
       let path = trim (ri_path input);
           line_count = min (min (ri_line_count input) max_line_count) (max_read_file_lines (limits ctx)) in
       if path = [] then fail (InvalidArguments ''read_file field `path` must not be empty'')
       else if ri_start_line input = 0 \<or> ri_line_count input = 0 then
         fail (InvalidArguments ''start_line and line_count must be positive integers'')
       else seq (resolve_old (workspace_root ctx) path) (\<lambda>resolved.
         seq (opened_file (absolute resolved)) (show_file sha256 ctx (ri_start_line input) line_count resolved)))"

definition read_path_permission :: "string \<Rightarrow> tool_world tool_context \<Rightarrow> string \<Rightarrow> permission_request list tool_action" where
  "read_path_permission called ctx path =
     seq (resolve_old (workspace_root ctx) path) (\<lambda>r. give [new_permission_request called (absolute r) Read])"

definition positive_integer :: json where
  "positive_integer = JObject [(''type'', JString ''integer''), (''minimum'', JNumber 1)]"

definition read_file_tool ::
  "(json \<Rightarrow> string) \<Rightarrow> (string \<Rightarrow> nat list) \<Rightarrow> tool_world tool" where
  "read_file_tool decode_error sha256 =
     \<lparr>t_name = ''read_file'', t_description = ''Read a text file with stable line numbers and bounded output.'',
      t_input_schema = object_schema
        [(''path'', typed ''string''), (''start_line'', positive_integer), (''line_count'', positive_integer)] [''path''],
      t_effect = (\<lambda>_. Inr Read),
      t_project_context_targets = (\<lambda>ctx v. seq (lift (decode_read decode_error v)) (\<lambda>input.
        seq (resolve_old (workspace_root ctx) (ri_path input)) (\<lambda>r. give [absolute r]))),
      t_prepare = (\<lambda>ctx v. direct_prepare (seq (lift (decode_read decode_error v)) (\<lambda>input.
        read_path_permission ''read_file'' ctx (ri_path input))) False),
      t_execute = (\<lambda>ctx v. decided_future (read_file_execute decode_error sha256 ctx v))\<rparr>"

subsection \<open>A complete view shows the whole file\<close>

lemma join_lines: "ws \<noteq> [] \<Longrightarrow> join [c] ws @ [c] = concat (map (\<lambda>l. l @ [c]) ws)"
  by (induction "[c]" ws rule: join.induct) simp_all

lemma split_terminator_lines:
  "concat (map (\<lambda>l. l @ [c]) (split_terminator c s)) \<in> {s, s @ [c]} \<and> (\<forall>l \<in> set (split_terminator c s). c \<notin> set l)"
proof -
  let ?ws = "split_on c s"
  have all: "concat (map (\<lambda>l. l @ [c]) ?ws) = s @ [c]" using join_lines [of ?ws c] by simp
  have "concat (map (\<lambda>l. l @ [c]) (butlast ?ws)) = s" if "last ?ws = []"
  proof (cases ?ws rule: rev_cases)
    case (snoc us u)
    with all that show ?thesis by simp
  qed simp
  with all show ?thesis
    by (auto simp: split_terminator_def Let_def dest: split_on_notin in_set_butlastD)
qed

lemma line_records_whole:
  "line_records max_line rendered ws = (rs, False) \<Longrightarrow> rs = map (\<lambda>(n, l). (n, l, [])) ws"
proof (induction max_line rendered ws arbitrary: rs rule: line_records.induct)
  case (2 max_line rendered number line rest)
  then show ?case
    by (auto simp: Let_def truncate_utf8_def split: if_splits prod.splits)
qed simp

lemma length_numbered [simp]: "length (numbered ws) = length ws"
  by (simp add: numbered_def del: upt_Suc)

lemma view_lines_whole:
  assumes "model_complete start_line whole (view_lines start_line line_count max_line body)"
  shows "rv_records (view_lines start_line line_count max_line body) =
    map (\<lambda>(n, l). (n, l, [])) (numbered (split_terminator nl body)) \<and> start_line = 1"
proof -
  let ?ws = "split_terminator nl body"
  obtain rs cuts where loop: "line_records max_line 0 (take line_count (numbered ?ws)) = (rs, cuts)" by fastforce
  with assms have start: "start_line = 1" and "\<not> cuts" and len: "length rs = length ?ws"
    by (auto simp: model_complete_def view_lines_def Let_def)
  with loop line_records_whole have rs: "rs = map (\<lambda>(n, l). (n, l, [])) (take line_count (numbered ?ws))" by simp
  with len have "length (take line_count (numbered ?ws)) = length (numbered ?ws)"
    by (metis length_map length_numbered)
  then have "take line_count (numbered ?ws) = numbered ?ws" by (metis nat_le_linear take_all length_take min_def)
  with rs loop start show ?thesis by (simp add: view_lines_def Let_def)
qed

text \<open>The output has every line of the file, numbered from 1, and nothing else.\<close>

definition shows_whole :: "string \<Rightarrow> string \<Rightarrow> string \<Rightarrow> bool" where
  "shows_whole shown body out \<longleftrightarrow> (\<exists>ws. concat (map (\<lambda>l. l @ [nl]) ws) \<in> {body, body @ [nl]} \<and> (\<forall>l \<in> set ws. nl \<notin> set l)
     \<and> out = ''<path>'' @ shown @ ''</path>'' @ [nl] @ ''<content>'' @ [nl]
         @ concat (map (\<lambda>(n, l). padded (digits (length ws)) n @ [tab] @ l @ [nl]) (numbered ws)) @ ''</content>'')"

lemma read_content_whole:
  assumes "model_complete start_line whole (view_lines start_line line_count max_line body)"
  shows "shows_whole shown body (read_content shown start_line whole (view_lines start_line line_count max_line body))"
proof -
  let ?ws = "split_terminator nl body" and ?view = "view_lines start_line line_count max_line body"
  from view_lines_whole [OF assms] have rs: "rv_records ?view = map (\<lambda>(n, l). (n, l, [])) (numbered ?ws)"
    and start: "start_line = 1" by blast+
  have "read_body start_line ?view = concat (map (\<lambda>(n, l). padded (digits (length ?ws)) n @ [tab] @ l @ [nl]) (numbered ?ws))"
  proof (cases "?ws = []")
    case True
    moreover from this rs have "rv_records ?view = []" by (simp add: numbered_def)
    moreover have "rv_total ?view = length ?ws" by (simp add: view_lines_def Let_def split: prod.splits)
    ultimately show ?thesis by (simp add: read_body_def Let_def numbered_def)
  next
    case False
    then have "last (numbered ?ws) = (length ?ws, last ?ws)" "numbered ?ws \<noteq> []"
      by (auto simp: numbered_def last_zip last_upt zip_eq_Nil_iff simp del: upt_Suc)
    then have last: "fst (last (rv_records ?view)) = length ?ws" and ne: "rv_records ?view \<noteq> []"
      by (simp_all add: rs last_map)
    show ?thesis
      unfolding read_body_def Let_def last
      by (simp add: ne) (simp add: rs record_text_def comp_def split_def)
  qed
  with assms have "read_content shown start_line whole ?view = ''<path>'' @ shown @ ''</path>'' @ [nl] @ ''<content>'' @ [nl]
         @ concat (map (\<lambda>(n, l). padded (digits (length ?ws)) n @ [tab] @ l @ [nl]) (numbered ?ws)) @ ''</content>''"
    by (simp add: read_content_def)
  then show ?thesis unfolding shows_whole_def using split_terminator_lines [of nl body] by blast
qed

lemma next_moment_evidence: "next_moment w = (m, w') \<Longrightarrow> tw_evidence w' = tw_evidence w"
  by (auto simp: next_moment_def split: list.splits)

lemma resolve_old_evidence: "resolve_old root raw w = (r, w') \<Longrightarrow> tw_evidence w' = tw_evidence w"
  by (auto simp: resolve_old_def resolving_def dest!: next_moment_evidence split: prod.splits option.splits)

lemma opened_file_Inr:
  assumes "opened_file path w = (Inr (m, body), w')" and "quiet w"
  shows "stat path (tw_disk w) = Inr (FileNode m body) \<and> tw_evidence w' = tw_evidence w"
proof -
  obtain f w1 where n: "next_moment w = (f, w1)" by fastforce
  with assms(1) have "f = None" "open_and_read path (tw_disk w1) = Inr (m, body)" "w' = w1"
    by (auto simp: opened_file_def split: option.splits)
  with next_moment_quiet [OF n assms(2)] next_moment_evidence [OF n] show ?thesis
    by (auto simp: open_and_read_def split: sum.splits disk_node.splits)
qed

text \<open>
  C19. A read says that its output is complete, and records evidence that the model has seen the whole
  file, only when the output shows every line of the file in full, with its number, and the bytes behind the hash
  are all of the file.
\<close>

theorem complete_reads_show_the_whole_file:
  assumes "quiet w" and "read_file_execute decode_error sha256 ctx arguments w = (Inr out, w')"
    and "tw_evidence w = Some seen"
  shows "\<exists>(r :: resolved_path) m body. stat (absolute r) (tw_disk w) = Inr (FileNode m body)
    \<and> (truncated out \<or> (shows_whole (display r) body (out_content out) \<and> length body \<le> max_snapshot_bytes))
    \<and> (tw_evidence w' = Some seen \<and> truncated out
       \<or> (\<exists>ev. tw_evidence w' = Some (record_evidence seen (absolute r) ev)
            \<and> content_hash ev = sha256 (take max_snapshot_bytes body)
            \<and> (model_view_covers_full_file ev \<longleftrightarrow> \<not> truncated out)
            \<and> (snapshot_covers_full_file ev \<longleftrightarrow> length body \<le> max_snapshot_bytes)))"
proof -
  from assms(2) obtain input :: read_input and r m body w1 w2 where
    r: "resolve_old (workspace_root ctx) (trim (ri_path input)) w = (Inr r, w1)" and
    opened: "opened_file (absolute r) w1 = (Inr (m, body), w2)" and
    run: "show_file sha256 ctx (ri_start_line input)
       (min (min (ri_line_count input) max_line_count) (max_read_file_lines (limits ctx))) r (m, body) w2 = (Inr out, w')"
    by (auto simp: read_file_execute_def Let_def seq_Inr action_simps split: if_splits)
  note w1 = looksD [OF looks_verify(5) r assms(1)] resolve_old_evidence [OF r]
  note w2 = opened_file_Inr [OF opened conjunct1 [OF w1(1)]]
  let ?bytes = "take max_snapshot_bytes body"
  let ?view = "view_lines (ri_start_line input)
    (min (min (ri_line_count input) max_line_count) (max_read_file_lines (limits ctx))) (max_read_file_line_bytes (limits ctx)) ?bytes"
  let ?complete = "model_complete (ri_start_line input) (length body \<le> max_snapshot_bytes) ?view"
  have whole: "length body \<le> max_snapshot_bytes \<and> shows_whole (display r) body
      (read_content (display r) (ri_start_line input) (length body \<le> max_snapshot_bytes) ?view)" if c: ?complete
  proof -
    from c have "length body \<le> max_snapshot_bytes" by (simp add: model_complete_def)
    moreover from this have "?bytes = body" by simp
    ultimately show ?thesis using read_content_whole [OF c] by simp
  qed
  have ev: "tw_evidence w2 = Some seen" using w1 w2 assms(3) by simp
  have st: "stat (absolute r) (tw_disk w) = Inr (FileNode m body)" using w1 w2 by simp
  show ?thesis
  proof (cases "\<not> valid_utf8 ?bytes \<or> CHR 0x00 \<in> set ?bytes")
    case True
    with run have "out = binary_output (display r) (length body)" "w' = w2"
      by (simp_all add: show_file_def Let_def action_simps)
    then have "truncated out" "w' = w2" by (simp_all add: binary_output_def read_output_def)
    with st ev show ?thesis by blast
  next
    case False
    define ev where "ev = \<lparr>modified_ns = metadata_modified_ns m, content_hash = sha256 ?bytes,
      model_view_covers_full_file = ?complete, snapshot_covers_full_file = length body \<le> max_snapshot_bytes\<rparr>"
    from run False have "out = read_output (read_content (display r) (ri_start_line input)
        (length body \<le> max_snapshot_bytes) ?view) (length body) (\<not> ?complete)"
      "tw_evidence w' = Some (record_evidence seen (absolute r) ev)"
      using \<open>tw_evidence w2 = Some seen\<close>
      by (auto simp: show_file_def Let_def seq_def action_simps change_evidence_def ev_def)
    then have out: "truncated out \<longleftrightarrow> \<not> ?complete" "out_content out =
        read_content (display r) (ri_start_line input) (length body \<le> max_snapshot_bytes) ?view"
      "tw_evidence w' = Some (record_evidence seen (absolute r) ev)"
      by (simp_all add: read_output_def)
    moreover have "content_hash ev = sha256 ?bytes" "model_view_covers_full_file ev \<longleftrightarrow> \<not> truncated out"
      "snapshot_covers_full_file ev \<longleftrightarrow> length body \<le> max_snapshot_bytes"
      using out(1) by (simp_all add: ev_def)
    moreover have "truncated out \<or> (shows_whole (display r) body (out_content out) \<and> length body \<le> max_snapshot_bytes)"
      using out whole by auto
    ultimately show ?thesis using st by blast
  qed
qed

definition example_read_world :: tool_world where
  "example_read_world = example_world\<lparr>tw_evidence := Some Map.empty\<rparr>"

definition example_read_output :: tool_output where
  "example_read_output = read_output (concat [''<path>a</path>'', [nl], ''<content>'', [nl], ''1'', [tab], ''x'', [nl], ''</content>'']) 1 False"

lemma example_read:
  "read_file_execute (\<lambda>_. '''') (\<lambda>_. []) (new_tool_context ''/w'') (JObject [(''path'', JString ''a'')]) example_read_world =
     (Inr example_read_output, example_read_world\<lparr>tw_evidence := Some (record_evidence Map.empty ''/w/a''
        \<lparr>modified_ns = 1, content_hash = [], model_view_covers_full_file = True, snapshot_covers_full_file = True\<rparr>)\<rparr>)"
proof -
  have d: "decode_read (\<lambda>_. '''') (JObject [(''path'', JString ''a'')]) = Inr \<lparr>ri_path = ''a'', ri_start_line = 1, ri_line_count = 400\<rparr>"
    by (simp add: decode_read_def struct_fields_def string_field_def nat_field_or_def)
  have f: "trim ''a'' = ''a''" "stat ''/w/a'' example_disk = Inr (FileNode example_meta ''x'')" "valid_utf8 ''x''" by code_simp+
  have one: "show_nat (Suc 0) = ''1''" by code_simp
  have w: "resolve_old ''/w'' ''a'' example_read_world = (Inr \<lparr>absolute = ''/w/a'', display = ''a'', intent = Workspace\<rparr>, example_read_world)"
    "opened_file ''/w/a'' example_read_world = (Inr (example_meta, ''x''), example_read_world)"
    by (simp_all add: resolve_old_def resolving_def opened_file_def next_moment_def example_read_world_def example_world_def
        example_resolutions open_and_read_def f)
  have v: "read_content ''a'' 1 True (view_lines 1 400 2000 ''x'') = out_content example_read_output"
    "model_complete 1 True (view_lines 1 400 2000 ''x'')"
    by (simp_all add: read_content_def read_body_def view_lines_def numbered_def split_terminator_def truncate_utf8_def
        digits.simps max_model_output_bytes_def record_text_def padded_def one model_complete_def sat_add_def
        example_read_output_def read_output_def usize_max_def nl_def)
  have s: "show_file (\<lambda>_. []) (new_tool_context ''/w'') 1 400 \<lparr>absolute = ''/w/a'', display = ''a'', intent = Workspace\<rparr>
      (example_meta, ''x'') example_read_world =
     (Inr example_read_output, example_read_world\<lparr>tw_evidence := Some (record_evidence Map.empty ''/w/a''
        \<lparr>modified_ns = 1, content_hash = [], model_view_covers_full_file = True, snapshot_covers_full_file = True\<rparr>)\<rparr>)"
    using v f
    by (simp add: show_file_def Let_def seq_def action_simps change_evidence_def max_snapshot_bytes_def new_tool_context_def
        tool_limits_default_def metadata_modified_ns_def i128_max_def example_meta_def example_read_world_def read_output_def
        example_read_output_def)
  show ?thesis
    using s by (simp add: read_file_execute_def Let_def d f seq_def action_simps w new_tool_context_def
        max_line_count_def tool_limits_default_def)
qed

theorem complete_reads_show_the_whole_file_witness:
  "(\<exists>shown. shows_whole shown ''x'' (out_content example_read_output)) \<and> \<not> truncated example_read_output"
proof -
  have st: "stat p example_disk = Inr (FileNode m s) \<Longrightarrow> s = ''x''" for p m s
    by (auto simp: stat_def and_then_Inr_iff node_at_def example_disk_def split: if_splits)
  have q: "quiet example_read_world" by (simp add: quiet_def example_read_world_def example_world_def)
  have full: "\<not> truncated example_read_output" by (simp add: example_read_output_def read_output_def)
  have "tw_evidence example_read_world = Some Map.empty" "tw_disk example_read_world = example_disk"
    by (simp_all add: example_read_world_def example_world_def)
  with complete_reads_show_the_whole_file [OF q example_read] full st show ?thesis by metis
qed

end
