(* ===== verification/List_Files.thy ===== *)
theory List_Files
  imports Read_File
begin

section \<open>Listing a directory, file information, registration\<close>

text \<open>
  \<open>fx-tools/src/list_files.rs\<close>, \<open>file_info.rs\<close> and the registration of the mutation tools in
  \<open>lib.rs\<close>. Parameters: \<open>dir_len\<close>, the size a file system reports for what is no file, and \<open>show_time\<close>,
  jiff's rendering of seconds since the epoch.
\<close>

definition ignored_names :: "string list" where
  "ignored_names = [''.git'', ''.zig-cache'', ''zig-out'', ''target'', ''node_modules'', ''.next'', ''dist'',
     ''build'', ''coverage'']"

definition decode_list :: "(json \<Rightarrow> string) \<Rightarrow> json \<Rightarrow> tool_error + string" where
  "decode_list decode_error v =
     (case struct_fields [''path''] v of
        None \<Rightarrow> Inl (InvalidArguments (decode_error v))
      | Some obj \<Rightarrow>
          (case map_of obj ''path'' of
             None \<Rightarrow> Inr ''.''
           | Some (JString s) \<Rightarrow> Inr s
           | _ \<Rightarrow> Inl (InvalidArguments (decode_error v))))"

definition requested_dir :: "string \<Rightarrow> string" where
  "requested_dir path = (if trim path = [] then ''.'' else trim path)"

definition entry_suffix :: "disk_node \<Rightarrow> string" where
  "entry_suffix v = (case v of DirNode _ \<Rightarrow> ''/'' | LinkNode _ \<Rightarrow> ''@'' | _ \<Rightarrow> [])"

text \<open>The loop over the directory: it stops at the first entry that does not fit.\<close>

fun list_entries :: "nat \<Rightarrow> (string \<times> disk_node) list \<Rightarrow> (string \<times> string) list \<Rightarrow> (string \<times> string) list \<times> bool" where
  "list_entries most [] entries = (entries, False)"
| "list_entries most ((n, v) # rest) entries =
     (if n \<in> set ignored_names then list_entries most rest entries
      else if most \<le> length entries then (entries, True)
      else list_entries most rest (entries @ [(n, entry_suffix v)]))"

definition listing_text :: "string \<Rightarrow> nat \<Rightarrow> (string \<times> string) list \<Rightarrow> bool \<Rightarrow> string" where
  "listing_text shown most entries beyond =
     shown @ '':'' @ [nl] @ concat (map (\<lambda>(n, s). ''- '' @ n @ s @ [nl]) entries)
     @ (if entries = [] then ''(empty)'' @ [nl]
        else if beyond then ''... and more entries (showing first '' @ show_nat most @ '')'' @ [nl]
        else [])"

definition list_files_execute :: "(json \<Rightarrow> string) \<Rightarrow> tool_world tool_context \<Rightarrow> json \<Rightarrow> tool_output tool_action" where
  "list_files_execute decode_error ctx v =
     seq (lift (decode_list decode_error v)) (\<lambda>path.
     seq (resolve_old (workspace_root ctx) (requested_dir path)) (\<lambda>resolved.
     seq (disk_look (io_text (absolute resolved)) (read_dir (absolute resolved))) (\<lambda>found.
       let most = max_list_entries (limits ctx); (entries, beyond) = list_entries most found [];
           listed = listing_text (display_path (display resolved)) most entries beyond in
       give (read_output listed (length listed) beyond))))"

definition list_files_tool :: "(json \<Rightarrow> string) \<Rightarrow> tool_world tool" where
  "list_files_tool decode_error =
     \<lparr>t_name = ''list_files'', t_description = ''List the immediate entries of a directory with bounded output.'',
      t_input_schema = JObject [(''type'', JString ''object''), (''properties'', JObject [(''path'', typed ''string'')]),
        (''additionalProperties'', JBool False)],
      t_effect = (\<lambda>_. Inr Read),
      t_project_context_targets = (\<lambda>ctx v. seq (lift (decode_list decode_error v)) (\<lambda>path.
        seq (resolve_old (workspace_root ctx) (requested_dir path)) (\<lambda>r. give [absolute r]))),
      t_prepare = (\<lambda>ctx v. direct_prepare (seq (lift (decode_list decode_error v)) (\<lambda>path.
        read_path_permission ''list_files'' ctx (requested_dir path))) False),
      t_execute = (\<lambda>ctx v. decided_future (list_files_execute decode_error ctx v))\<rparr>"

subsection \<open>File information\<close>

definition node_kind :: "disk_node \<Rightarrow> string" where
  "node_kind v =
     (case v of DirNode _ \<Rightarrow> ''directory'' | FileNode _ _ \<Rightarrow> ''file'' | LinkNode _ \<Rightarrow> ''symlink'' | OtherNode _ \<Rightarrow> ''other'')"

definition node_len :: "(disk_node \<Rightarrow> nat) \<Rightarrow> disk_node \<Rightarrow> nat" where
  "node_len dir_len v = (case v of FileNode _ body \<Rightarrow> length body | _ \<Rightarrow> dir_len v)"

text \<open>\<open>Path::extension\<close>: what follows the last dot of the file name, unless that dot is its first character.\<close>

definition path_extension :: "string \<Rightarrow> string option" where
  "path_extension path =
     (case path_file_name path of
        None \<Rightarrow> None
      | Some n \<Rightarrow>
          (let parts = split_on CHR ''.'' n in
           if length parts < 2 \<or> butlast parts = [[]] then None else Some (last parts)))"

definition modified_text :: "(nat \<Rightarrow> string + string) \<Rightarrow> file_meta \<Rightarrow> tool_error + string" where
  "modified_text show_time m =
     (if fm_modified_ns m < 0 then Inl (Execution ''second time provided was later than self'')
      else
        let secs = nat (fm_modified_ns m div 1000000000) in
        if 2 ^ 63 \<le> secs then Inl (Execution ''modified time is out of range'')
        else map_err Execution (show_time secs))"

definition file_info_execute ::
  "(json \<Rightarrow> string) \<Rightarrow> (disk_node \<Rightarrow> nat) \<Rightarrow> (nat \<Rightarrow> string + string) \<Rightarrow> tool_world tool_context \<Rightarrow> json \<Rightarrow>
     tool_output tool_action" where
  "file_info_execute decode_error dir_len show_time ctx v =
     seq (lift (decode_path decode_error v)) (\<lambda>path.
       if trim path = [] then fail (InvalidArguments ''file_info field `path` must not be empty'')
       else seq (resolve_old (workspace_root ctx) path) (\<lambda>resolved.
         seq (disk_look (\<lambda>e. Execution (io_message e)) (stat (absolute resolved))) (\<lambda>node.
         seq (lift (modified_text show_time (node_meta node))) (\<lambda>modified.
           let shown = ''path: '' @ display_path (display resolved) @ [nl] @ ''type: '' @ node_kind node @ [nl]
                 @ ''size: '' @ show_nat (node_len dir_len node) @ '' bytes'' @ [nl] @ ''modified: '' @ modified @ [nl]
                 @ (case (node, path_extension (absolute resolved)) of
                      (FileNode _ _, Some ext) \<Rightarrow> ''extension: '' @ ext @ [nl]
                    | _ \<Rightarrow> []) in
           give (success_output shown)))))"

definition file_info_tool ::
  "(json \<Rightarrow> string) \<Rightarrow> (disk_node \<Rightarrow> nat) \<Rightarrow> (nat \<Rightarrow> string + string) \<Rightarrow> tool_world tool" where
  "file_info_tool decode_error dir_len show_time =
     \<lparr>t_name = ''file_info'',
      t_description = ''Inspect file or directory metadata, including type, size, and modified time.'',
      t_input_schema = object_schema [(''path'', typed ''string'')] [''path''],
      t_effect = (\<lambda>_. Inr Read),
      t_project_context_targets = (\<lambda>ctx v. seq (lift (decode_path decode_error v)) (\<lambda>path.
        seq (resolve_old (workspace_root ctx) path) (\<lambda>r. give [absolute r]))),
      t_prepare = (\<lambda>ctx v. direct_prepare (seq (lift (decode_path decode_error v)) (\<lambda>path.
        read_path_permission ''file_info'' ctx path)) False),
      t_execute = (\<lambda>ctx v. decided_future (file_info_execute decode_error dir_len show_time ctx v))\<rparr>"

subsection \<open>Registration\<close>

definition mutation_tools ::
  "(json \<Rightarrow> string) \<Rightarrow> (string \<Rightarrow> string \<Rightarrow> nat list) \<Rightarrow> (string \<Rightarrow> nat list) \<Rightarrow> tool_world tool list" where
  "mutation_tools decode_error find_all sha256 =
     [write_file_tool decode_error find_all sha256,
      edit_file_tool decode_error find_all sha256,
      create_folder_tool decode_error,
      copy_file_tool decode_error,
      rename_file_tool decode_error,
      delete_file_tool decode_error]"

text \<open>\<open>register_mutation_tools\<close>: the first refusal ends it.\<close>

fun register_each :: "'w registry \<Rightarrow> 'w tool list \<Rightarrow> (registry_error + unit) \<times> 'w registry" where
  "register_each reg [] = (Inr (), reg)"
| "register_each reg (t # ts) =
     (case register reg t of (Inl e, reg') \<Rightarrow> (Inl e, reg') | (Inr (), reg') \<Rightarrow> register_each reg' ts)"

definition register_mutation_tools ::
  "(json \<Rightarrow> string) \<Rightarrow> (string \<Rightarrow> string \<Rightarrow> nat list) \<Rightarrow> (string \<Rightarrow> nat list) \<Rightarrow>
     tool_world registry \<Rightarrow> (registry_error + unit) \<times> tool_world registry" where
  "register_mutation_tools decode_error find_all sha256 reg =
     register_each reg (mutation_tools decode_error find_all sha256)"

subsection \<open>Observation changes nothing\<close>

lemma looks_direct_prepare: "looks requests \<Longrightarrow> looks (direct_prepare requests irreversible)"
  unfolding direct_prepare_def by (intro looks_intros)

text \<open>The loop takes the first entries that are not ignored, and says whether there are others.\<close>

lemma list_entries_spec:
  "length entries \<le> most \<Longrightarrow> list_entries most found entries =
     (let shown = filter (\<lambda>(n, v). n \<notin> set ignored_names) found in
      (entries @ map (\<lambda>(n, v). (n, entry_suffix v)) (take (most - length entries) shown),
       most - length entries < length shown))"
proof (induction most found entries rule: list_entries.induct)
  case (2 most n v rest entries)
  show ?case
  proof (cases "length entries < most \<and> n \<notin> set ignored_names")
    case True
    then obtain k where k: "most - length entries = Suc k" "most - Suc (length entries) = k"
      by (metis Suc_diff_Suc)
    with True 2 show ?thesis by (simp add: Let_def)
  qed (use 2 in \<open>auto simp: Let_def\<close>)
qed simp

end
