(* ===== verification/Stream_Gateway.thy ===== *)
theory Stream_Gateway
  imports Gateway Session Actions
begin

section \<open>Streaming gateways\<close>

text \<open>
  What the two gateways of \<open>fx-provider/src/transport.rs\<close> share: access to JSON objects, the loop that reads
  a body and hands its server-sent events to a handler, and the errors of a request. Parameters: the JSON parser,
  and the SSE parser as a state with \<open>feed\<close> and \<open>finish\<close>, each giving the data of the events it completed.
\<close>

definition max_event_bytes :: nat where "max_event_bytes = 4 * 1024 * 1024"
definition max_stream_bytes :: nat where "max_stream_bytes = 64 * 1024 * 1024"

subsection \<open>JSON objects\<close>

type_synonym json_object = "(string \<times> json) list"

definition as_object :: "json \<Rightarrow> json_object option" where
  "as_object v = (case v of JObject obj \<Rightarrow> Some obj | _ \<Rightarrow> None)"

definition as_array :: "json \<Rightarrow> json list option" where
  "as_array v = (case v of JArray vs \<Rightarrow> Some vs | _ \<Rightarrow> None)"

definition as_str :: "json \<Rightarrow> string option" where
  "as_str v = (case v of JString s \<Rightarrow> Some s | _ \<Rightarrow> None)"

definition as_u64 :: "json \<Rightarrow> u64 option" where
  "as_u64 v = (case v of JNumber n \<Rightarrow> if 0 \<le> n \<and> n < 2 ^ 64 then Some (word_of_int n) else None | _ \<Rightarrow> None)"

definition object_field :: "json_object \<Rightarrow> string \<Rightarrow> json_object option" where
  "object_field obj key = Option.bind (map_of obj key) as_object"

definition array_field :: "json_object \<Rightarrow> string \<Rightarrow> json list option" where
  "array_field obj key = Option.bind (map_of obj key) as_array"

definition u64_field :: "json_object \<Rightarrow> string \<Rightarrow> u64 option" where
  "u64_field obj key = Option.bind (map_of obj key) as_u64"

text \<open>\<open>filter(|value| !value.is_empty())\<close> and \<open>unwrap_or\<close>.\<close>

definition non_empty :: "string option \<Rightarrow> string option" where
  "non_empty s = (if s = Some [] then None else s)"

definition unwrap_or :: "'a \<Rightarrow> 'a option \<Rightarrow> 'a" where
  "unwrap_or d a = (case a of None \<Rightarrow> d | Some x \<Rightarrow> x)"

lemma option_helpers [simp]:
  "unwrap_or d None = d" "unwrap_or d (Some x) = x"
  "non_empty None = None" "non_empty (Some []) = None" "non_empty (Some (c # s)) = Some (c # s)"
  by (simp_all add: unwrap_or_def non_empty_def)

lemma non_empty_Some: "non_empty a = Some s \<longleftrightarrow> a = Some s \<and> s \<noteq> []"
  by (auto simp: non_empty_def)

definition required_string :: "json_object \<Rightarrow> string \<Rightarrow> gateway_error + string" where
  "required_string obj field =
     ok_or (InvalidResponse (''SSE field `'' @ field @ ''` is missing'')) (non_empty (string_field obj field))"

text \<open>The object of an event, and the error where its data is none.\<close>

definition event_object :: "(string \<Rightarrow> string + json) \<Rightarrow> string \<Rightarrow> gateway_error + json_object" where
  "event_object parse d =
     and_then (map_err (\<lambda>e. InvalidResponse (''invalid SSE JSON: '' @ e)) (parse d)) (\<lambda>v.
       ok_or (InvalidResponse ''SSE event must be an object'') (as_object v))"

definition is_json :: "(string \<Rightarrow> string + json) \<Rightarrow> string \<Rightarrow> bool" where
  "is_json parse s \<longleftrightarrow> (case parse s of Inr _ \<Rightarrow> True | Inl _ \<Rightarrow> False)"

definition integrity_of :: "(string \<Rightarrow> string + json) \<Rightarrow> string \<Rightarrow> tool_argument_integrity" where
  "integrity_of parse s = (if is_json parse s then Valid else MalformedJson)"

subsection \<open>The loop\<close>

record 'p sse_parser =
  sse_start :: 'p
  sse_feed :: "string \<Rightarrow> 'p \<Rightarrow> string list \<times> 'p"
  sse_finish :: "'p \<Rightarrow> string list"

text \<open>
  A handler of events: the next state, what it emits, and whether the response is complete. What the rest
  of a stream gives is a result with the events emitted.
\<close>

type_synonym 's handler = "'s \<Rightarrow> string \<Rightarrow> gateway_error + 's \<times> gateway_event list \<times> bool"
type_synonym 'a streamed = "(gateway_error + 'a) \<times> gateway_event list"

definition emitting :: "gateway_event list \<Rightarrow> 'a streamed \<Rightarrow> 'a streamed" where
  "emitting es r = (fst r, es @ snd r)"

text \<open>The events of one read; the flag says that one of them completed the response.\<close>

fun handle_events :: "string \<Rightarrow> 's handler \<Rightarrow> 's \<Rightarrow> string list \<Rightarrow> ('s \<times> bool) streamed" where
  "handle_events label handle s [] = (Inr (s, False), [])"
| "handle_events label handle s (d # ds) =
     (if max_event_bytes < length d then (Inl (InvalidResponse (label @ '' event exceeded 4 MiB'')), [])
      else
        case handle s d of
          Inl e \<Rightarrow> (Inl e, [])
        | Inr (s', es, complete) \<Rightarrow>
            if complete then (Inr (s', True), es) else emitting es (handle_events label handle s' ds))"

text \<open>The reads of a body: an error, or bytes; nothing is its end, as is the end of the list.\<close>

type_synonym body_reads = "(unit + string) list"

text \<open>After the handler's events: the response, the error, or what follows.\<close>

definition after_events ::
  "('s \<Rightarrow> gateway_error + gateway_response) \<Rightarrow> ('s \<Rightarrow> gateway_response streamed) \<Rightarrow> ('s \<times> bool) streamed \<Rightarrow>
     gateway_response streamed" where
  "after_events finish continue r =
     (case r of
        (Inl e, es) \<Rightarrow> (Inl e, es)
      | (Inr (s', True), es) \<Rightarrow> (finish s', es)
      | (Inr (s', False), es) \<Rightarrow> emitting es (continue s'))"

text \<open>The end of the body: the parser's last events, and an error where none completed the response.\<close>

definition end_of_stream ::
  "string \<Rightarrow> string \<Rightarrow> 'p sse_parser \<Rightarrow> 's handler \<Rightarrow> ('s \<Rightarrow> gateway_error + gateway_response) \<Rightarrow> 'p \<Rightarrow> 's \<Rightarrow>
     gateway_response streamed" where
  "end_of_stream label ended parser handle finish p s =
     after_events finish (\<lambda>_. (Inl (InvalidResponse (label @ '' stream ended before a '' @ ended)), []))
       (handle_events label handle s (sse_finish parser p))"

fun consume_stream ::
  "string \<Rightarrow> string \<Rightarrow> 'p sse_parser \<Rightarrow> 's handler \<Rightarrow> ('s \<Rightarrow> gateway_error + gateway_response) \<Rightarrow>
     body_reads \<Rightarrow> 'p \<Rightarrow> nat \<Rightarrow> 's \<Rightarrow> gateway_response streamed" where
  "consume_stream label ended parser handle finish [] p seen s = end_of_stream label ended parser handle finish p s"
| "consume_stream label ended parser handle finish (Inl () # reads) p seen s = (Inl PossiblySent, [])"
| "consume_stream label ended parser handle finish (Inr [] # reads) p seen s =
     end_of_stream label ended parser handle finish p s"
| "consume_stream label ended parser handle finish (Inr (c # cs) # reads) p seen s =
     (let total_bytes = sat_add seen (length (c # cs)) in
      if max_stream_bytes < total_bytes then (Inl (InvalidResponse (label @ '' stream exceeded 64 MiB'')), [])
      else
        let (ds, p') = sse_feed parser (c # cs) p in
        after_events finish (consume_stream label ended parser handle finish reads p' total_bytes)
          (handle_events label handle s ds))"

subsection \<open>Requests\<close>

text \<open>\<open>ureq::Error\<close>, as far as it is told apart.\<close>

datatype io_kind = ConnectionRefused | AddrNotAvailable | OtherIoKind

datatype send_error =
    StatusCode nat | HttpError | BadUri | HostNotFound | InvalidProxyUrl | ConnectionFailed
  | BodyExceedsLimit | Tls | ConnectProxyFailed | TlsRequired | RequireHttpsOnly
  | Io io_kind | OtherSendError

definition map_send_error :: "send_error \<Rightarrow> gateway_error" where
  "map_send_error e =
     (case e of
        StatusCode n \<Rightarrow> if n = 401 \<or> n = 403 then Authentication else Rejected (''HTTP status '' @ show_nat n)
      | Io k \<Rightarrow> if k = OtherIoKind then PossiblySent else DefinitelyUnsent
      | OtherSendError \<Rightarrow> PossiblySent
      | _ \<Rightarrow> DefinitelyUnsent)"

text \<open>A base URL from the environment is taken for a loopback address only.\<close>

definition trim_end_slashes :: "string \<Rightarrow> string" where
  "trim_end_slashes s = rev (dropWhile (\<lambda>c. c = CHR ''/'') (rev s))"

definition is_loopback_base :: "string \<Rightarrow> bool" where
  "is_loopback_base b \<longleftrightarrow> prefix ''http://127.0.0.1:'' b \<or> prefix ''http://localhost:'' b
     \<or> b = ''http://localhost'' \<or> b = ''http://127.0.0.1''"

definition endpoint_from_base :: "string \<Rightarrow> string \<Rightarrow> string option \<Rightarrow> string" where
  "endpoint_from_base default_endpoint path base =
     (case base of
        None \<Rightarrow> default_endpoint
      | Some b \<Rightarrow>
          let normalized = trim_end_slashes b in
          if is_loopback_base normalized then normalized @ path else default_endpoint)"

definition fxrs_user_agent :: string where "fxrs_user_agent = ''fxrs/0.0.7''"

text \<open>
  A reply: its status, what reading its body gives, and what \<open>read_to_vec\<close> with a limit gives, nothing where it
  fails. The client sends a body with headers to an endpoint.
\<close>

record reply =
  reply_status :: nat
  reply_body :: body_reads
  reply_to_vec :: "nat \<Rightarrow> string option"

type_synonym 'w http_client =
  "string \<Rightarrow> (string \<times> string) list \<Rightarrow> string \<Rightarrow> 'w \<Rightarrow> (send_error + reply) \<times> 'w"

subsection \<open>Properties of the loop\<close>

text \<open>
  The contract of a handler: an invariant over its state and everything emitted so far, what holds of both
  when an event completes the response, and errors that are never those of a request that was not sent.
\<close>

definition after_delivery :: "gateway_error \<Rightarrow> bool" where
  "after_delivery e \<longleftrightarrow> (case e of InvalidResponse _ \<Rightarrow> True | Rejected _ \<Rightarrow> True | PossiblySent \<Rightarrow> True | _ \<Rightarrow> False)"

locale stream_handler =
  fixes handle :: "'s handler" and finish :: "'s \<Rightarrow> gateway_error + gateway_response" and initial :: 's
    and good final :: "'s \<Rightarrow> gateway_event list \<Rightarrow> bool"
  assumes good_initial: "good initial []"
    and good_step: "good s es \<Longrightarrow> handle s d = Inr (s', new, False) \<Longrightarrow> good s' (es @ new)"
    and good_last: "good s es \<Longrightarrow> handle s d = Inr (s', new, True) \<Longrightarrow> final s' (es @ new)"
    and handle_error: "handle s d = Inl e \<Longrightarrow> after_delivery e"
    and finish_error: "finish s = Inl e \<Longrightarrow> after_delivery e"
begin

lemma handle_events_good:
  "good s es \<Longrightarrow> handle_events label handle s ds = (Inr (s', complete), new) \<Longrightarrow>
     if complete then final s' (es @ new) else good s' (es @ new)"
proof (induction ds arbitrary: s es new)
  case (Cons d ds)
  then obtain s1 es1 c1 where h: "handle s d = Inr (s1, es1, c1)" by (auto split: if_splits sum.splits)
  show ?case
  proof (cases c1)
    case True
    with Cons.prems h good_last [OF Cons.prems(1), of d s1 es1] show ?thesis by (auto split: if_splits)
  next
    case False
    with good_step [OF Cons.prems(1)] h have g: "good s1 (es @ es1)" by simp
    from False Cons.prems(2) h obtain new' where "handle_events label handle s1 ds = (Inr (s', complete), new')"
      "new = es1 @ new'" by (cases "handle_events label handle s1 ds") (auto simp: emitting_def split: if_splits)
    with Cons.IH [OF g] show ?thesis by (simp split: if_splits)
  qed
qed simp

lemma after_events_good:
  assumes "after_events finish continue (handle_events label handle s ds) = (Inr resp, new)" and "good s es"
    and more: "\<And>s1 es1 new1. continue s1 = (Inr resp, new1) \<Longrightarrow> good s1 es1 \<Longrightarrow>
      \<exists>s'. final s' (es1 @ new1) \<and> finish s' = Inr resp"
  shows "\<exists>s'. final s' (es @ new) \<and> finish s' = Inr resp"
proof -
  from assms(1) obtain s1 complete new1 where h: "handle_events label handle s ds = (Inr (s1, complete), new1)"
    by (auto simp: after_events_def split: prod.splits sum.splits)
  note g = handle_events_good [OF assms(2) h]
  show ?thesis
  proof (cases complete)
    case True
    with assms(1) h g show ?thesis by (auto simp: after_events_def)
  next
    case False
    with assms(1) h obtain new2 where "continue s1 = (Inr resp, new2)" "new = new1 @ new2"
      by (cases "continue s1") (auto simp: after_events_def emitting_def)
    with more [of s1 new2 "es @ new1"] g False show ?thesis by simp
  qed
qed

text \<open>A response comes from a state in which the handler's conclusion holds for everything that was emitted.\<close>

lemma consume_good:
  "consume_stream label ended parser handle finish reads p seen s = (Inr resp, new) \<Longrightarrow> good s es \<Longrightarrow>
     \<exists>s'. final s' (es @ new) \<and> finish s' = Inr resp"
proof (induction reads arbitrary: p seen s es new)
  case Nil
  then show ?case by (auto simp: end_of_stream_def dest!: after_events_good)
next
  case (Cons r reads)
  show ?case
  proof (cases "\<exists>c cs. r = Inr (c # cs)")
    case True
    then obtain c cs where r: "r = Inr (c # cs)" by blast
    obtain ds p' where f: "sse_feed parser (c # cs) p = (ds, p')" by (cases "sse_feed parser (c # cs) p")
    from Cons.prems(1) r f have "after_events finish
        (consume_stream label ended parser handle finish reads p' (sat_add seen (length (c # cs))))
        (handle_events label handle s ds) = (Inr resp, new)" by (simp add: Let_def split: if_splits)
    from after_events_good [OF this Cons.prems(2) Cons.IH] show ?thesis .
  next
    case False
    then consider "r = Inl ()" | "r = Inr []" by (metis list.exhaust old.unit.exhaust sum.exhaust)
    then show ?thesis using Cons.prems
      by cases (auto simp: end_of_stream_def dest!: after_events_good)
  qed
qed

lemma response_good:
  assumes "consume_stream label ended parser handle finish reads p seen initial = (Inr resp, new)"
  shows "\<exists>s'. final s' new \<and> finish s' = Inr resp"
  using consume_good [OF assms good_initial] by simp

text \<open>The errors of a stream are never those of a request that was not sent.\<close>

lemma handle_events_error: "handle_events label handle s ds = (Inl e, new) \<Longrightarrow> after_delivery e"
proof (induction ds arbitrary: s new)
  case (Cons d ds)
  consider "max_event_bytes < length d" | e' where "handle s d = Inl e'" "\<not> max_event_bytes < length d"
    | s1 es1 c where "handle s d = Inr (s1, es1, c)" "\<not> max_event_bytes < length d"
    by (metis sum.exhaust surj_pair)
  then show ?case
  proof cases
    case 1
    with Cons.prems show ?thesis by (auto simp: after_delivery_def)
  next
    case 2
    with Cons.prems handle_error show ?thesis by auto
  next
    case 3
    with Cons.prems have "\<not> c" "fst (handle_events label handle s1 ds) = Inl e"
      by (auto simp: emitting_def split: if_splits)
    with Cons.IH [of s1 "snd (handle_events label handle s1 ds)"] show ?thesis
      by (metis prod.collapse)
  qed
qed simp

lemma after_events_error:
  assumes "after_events finish continue (handle_events label handle s ds) = (Inl e, new)"
    and "\<And>s1 new1. continue s1 = (Inl e, new1) \<Longrightarrow> after_delivery e"
  shows "after_delivery e"
proof (cases "handle_events label handle s ds")
  case (Pair r es)
  show ?thesis
  proof (cases r)
    case (Inl e')
    with Pair assms(1) have "e' = e" by (simp add: after_events_def)
    with Inl Pair show ?thesis using handle_events_error by blast
  next
    case (Inr sc)
    with Pair assms(1) have "finish (fst sc) = Inl e \<or> (\<exists>n. continue (fst sc) = (Inl e, n))"
      by (cases sc; cases "snd sc"; cases "continue (fst sc)") (auto simp: after_events_def emitting_def)
    with assms(2) finish_error show ?thesis by blast
  qed
qed

lemma consume_error:
  "consume_stream label ended parser handle finish reads p seen s = (Inl e, new) \<Longrightarrow> after_delivery e"
proof (induction reads arbitrary: p seen s new)
  case Nil
  then have "end_of_stream label ended parser handle finish p s = (Inl e, new)" by simp
  then show ?case unfolding end_of_stream_def by (rule after_events_error) (auto simp: after_delivery_def)
next
  case (Cons r reads)
  consider c cs where "r = Inr (c # cs)" | "r = Inl ()" | "r = Inr []"
    by (metis list.exhaust old.unit.exhaust sum.exhaust)
  then show ?case
  proof cases
    case 1
    obtain ds p' where f: "sse_feed parser (c # cs) p = (ds, p')" by (cases "sse_feed parser (c # cs) p")
    show ?thesis
    proof (cases "max_stream_bytes < sat_add seen (length (c # cs))")
      case True
      with Cons.prems 1 show ?thesis by (auto simp: after_delivery_def)
    next
      case False
      with Cons.prems 1 f have "after_events finish
        (consume_stream label ended parser handle finish reads p' (sat_add seen (length (c # cs))))
        (handle_events label handle s ds) = (Inl e, new)" by (simp add: Let_def)
      then show ?thesis by (rule after_events_error) (rule Cons.IH)
    qed
  next
    case 2
    with Cons.prems show ?thesis by (auto simp: after_delivery_def)
  next
    case 3
    with Cons.prems have "end_of_stream label ended parser handle finish p s = (Inl e, new)" by simp
    then show ?thesis unfolding end_of_stream_def by (rule after_events_error) (auto simp: after_delivery_def)
  qed
qed

end

subsection \<open>What was emitted\<close>

definition streamed_text :: "gateway_event list \<Rightarrow> string" where
  "streamed_text es = concat (List.map_filter (\<lambda>e. case e of ContentDelta d \<Rightarrow> Some d | _ \<Rightarrow> None) es)"

definition announced_ids :: "gateway_event list \<Rightarrow> string list" where
  "announced_ids es = List.map_filter (\<lambda>e. case e of GatewayToolStarted i _ \<Rightarrow> Some i | _ \<Rightarrow> None) es"

lemma emitted_simps [simp]:
  "streamed_text [] = []" "streamed_text (es @ es') = streamed_text es @ streamed_text es'"
  "streamed_text [ContentDelta d] = d" "streamed_text [ReasoningDelta d] = []" "streamed_text [GatewayToolStarted i n] = []"
  "announced_ids [] = []" "announced_ids (es @ es') = announced_ids es @ announced_ids es'"
  "announced_ids [ContentDelta d] = []" "announced_ids [ReasoningDelta d] = []"
  "announced_ids [GatewayToolStarted i n] = [i]"
  by (simp_all add: streamed_text_def announced_ids_def List.map_filter_simps)

subsection \<open>Reads do not matter\<close>

text \<open>The events of two lists in sequence.\<close>

lemma handle_events_append:
  "handle_events label handle s (xs @ ys) =
     (case handle_events label handle s xs of
        (Inl e, es) \<Rightarrow> (Inl e, es)
      | (Inr (s', True), es) \<Rightarrow> (Inr (s', True), es)
      | (Inr (s', False), es) \<Rightarrow> emitting es (handle_events label handle s' ys))"
  by (induction xs arbitrary: s)
    (auto simp: emitting_def split: sum.splits prod.splits bool.splits)

text \<open>The parser takes a body in parts as it takes the whole.\<close>

definition incremental :: "'p sse_parser \<Rightarrow> bool" where
  "incremental parser \<longleftrightarrow>
     (\<forall>p. sse_feed parser [] p = ([], p))
   \<and> (\<forall>a b p. sse_feed parser (a @ b) p =
        (let (d1, p1) = sse_feed parser a p; (d2, p2) = sse_feed parser b p1 in (d1 @ d2, p2)))"

text \<open>The reference: the whole body is parsed, then its events are handled, up to the one that completes it.\<close>

definition consume_body ::
  "string \<Rightarrow> string \<Rightarrow> 'p sse_parser \<Rightarrow> 's handler \<Rightarrow> ('s \<Rightarrow> gateway_error + gateway_response) \<Rightarrow>
     string \<Rightarrow> 'p \<Rightarrow> 's \<Rightarrow> gateway_response streamed" where
  "consume_body label ended parser handle finish body p s =
     (let (ds, p') = sse_feed parser body p in
      after_events finish (end_of_stream label ended parser handle finish p') (handle_events label handle s ds))"

lemma consume_stream_body:
  assumes "incremental parser" "list_all (\<lambda>r. r \<noteq> []) chunks" "seen + length (concat chunks) \<le> max_stream_bytes"
  shows "consume_stream label ended parser handle finish (map Inr chunks) p seen s =
     consume_body label ended parser handle finish (concat chunks) p s"
  using assms(2,3)
proof (induction chunks arbitrary: p seen s)
  case Nil
  from assms(1) show ?case
    by (simp add: consume_body_def incremental_def after_events_def emitting_def)
next
  case (Cons chunk chunks)
  from Cons.prems obtain c cs where chunk: "chunk = c # cs" by (auto simp: neq_Nil_conv)
  obtain d1 p1 where f1: "sse_feed parser chunk p = (d1, p1)" by (cases "sse_feed parser chunk p")
  obtain d2 p2 where f2: "sse_feed parser (concat chunks) p1 = (d2, p2)"
    by (cases "sse_feed parser (concat chunks) p1")
  have whole: "sse_feed parser (concat (chunk # chunks)) p = (d1 @ d2, p2)"
    using assms(1) f1 f2 by (simp add: incremental_def)
  have bound: "sat_add seen (length chunk) = seen + length chunk" "\<not> max_stream_bytes < seen + length chunk"
    using Cons.prems by (auto simp: sat_add_def usize_max_def max_stream_bytes_def)
  have IH: "consume_stream label ended parser handle finish (map Inr chunks) p1 (seen + length chunk) s' =
      after_events finish (end_of_stream label ended parser handle finish p2) (handle_events label handle s' d2)" for s'
    using Cons.IH [of "seen + length chunk" p1 s'] Cons.prems f2 by (simp add: consume_body_def)
  have "consume_stream label ended parser handle finish (map Inr (chunk # chunks)) p seen s =
      after_events finish
        (consume_stream label ended parser handle finish (map Inr chunks) p1 (seen + length chunk))
        (handle_events label handle s d1)"
    using bound f1 by (simp add: chunk Let_def)
  also have "\<dots> = after_events finish (end_of_stream label ended parser handle finish p2)
      (handle_events label handle s (d1 @ d2))"
    unfolding handle_events_append
    by (auto simp: after_events_def IH emitting_def split: prod.splits sum.splits bool.splits)
  finally show ?case using whole by (simp add: consume_body_def)
qed

text \<open>A parser of lines: each line is the data of an event.\<close>

fun line_feed :: "string \<Rightarrow> string \<Rightarrow> string list \<times> string" where
  "line_feed [] p = ([], p)"
| "line_feed (c # cs) p =
     (if c = CHR 0x0A then (let (ds, q) = line_feed cs [] in (p # ds, q)) else line_feed cs (p @ [c]))"

definition line_parser :: "string sse_parser" where
  "line_parser =
     \<lparr>sse_start = [], sse_feed = line_feed, sse_finish = (\<lambda>p. if p = [] then [] else [p])\<rparr>"

lemma line_feed_append:
  "line_feed (a @ b) p = (let (d1, p1) = line_feed a p; (d2, p2) = line_feed b p1 in (d1 @ d2, p2))"
  by (induction a arbitrary: p) (auto split: prod.splits)

lemma incremental_line_parser: "incremental line_parser"
  by (simp add: incremental_def line_parser_def line_feed_append)

end
