(* ===== verification/Codex_Body.thy ===== *)
theory Codex_Body
  imports Stream_Gateway Agent_Run "HOL-Library.AList"
begin

section \<open>The body of a Codex request\<close>

text \<open>
  \<open>build_codex_request_body\<close> of \<open>fx-provider/src/transport.rs\<close>: the transcript as input items, the tools, and
  the options. \<open>parse\<close> and \<open>print\<close> stand for \<open>serde_json\<close>.
\<close>

definition codex_web_search_tool_id :: string where
  "codex_web_search_tool_id = ''codex.web_search''"

text \<open>\<open>arguments.get(key)\<close> of a JSON value, and \<open>insert\<close> into an object: in place, or at the end.\<close>

definition value_get :: "json \<Rightarrow> string \<Rightarrow> json option" where
  "value_get v key = Option.bind (as_object v) (\<lambda>obj. map_of obj key)"

definition object_insert :: "string \<Rightarrow> json \<Rightarrow> json_object \<Rightarrow> json_object" where
  "object_insert key v obj = AList.update key v obj"

definition split_tool_call_id :: "string \<Rightarrow> string \<times> string option" where
  "split_tool_call_id value =
     (if CHR ''|'' \<in> set value then
        (let call_id = takeWhile (\<lambda>c. c \<noteq> CHR ''|'') value;
             item_id = tl (dropWhile (\<lambda>c. c \<noteq> CHR ''|'') value) in
         (call_id, if item_id \<noteq> [] then Some item_id else None))
      else (value, None))"

definition stable_tool_id :: "string \<Rightarrow> string \<Rightarrow> string" where
  "stable_tool_id call_id item_id =
     (if item_id = [] \<or> call_id = item_id then call_id else call_id @ ''|'' @ item_id)"

subsection \<open>Messages\<close>

definition user_item :: "chat_message \<Rightarrow> json" where
  "user_item m =
     JObject [(''type'', JString ''message''), (''role'', JString ''user''),
       (''content'', JArray [JObject [(''type'', JString ''input_text''),
          (''text'', JString (unwrap_or [] (content m)))]])]"

definition assistant_item :: "nat \<Rightarrow> string \<Rightarrow> json" where
  "assistant_item index c =
     JObject [(''type'', JString ''message''), (''id'', JString (''msg_fx_'' @ show_nat index)),
       (''role'', JString ''assistant''), (''status'', JString ''completed''),
       (''content'', JArray [JObject [(''type'', JString ''output_text''), (''text'', JString c),
          (''annotations'', JArray [])]])]"

definition call_item :: "tool_call \<Rightarrow> json" where
  "call_item call =
     (let (call_id, item_id) = split_tool_call_id (tc_id call) in
      JObject ([(''type'', JString ''function_call''), (''call_id'', JString call_id),
         (''name'', JString (tc_name call)), (''arguments'', JString (arguments_json call))]
       @ (case item_id of None \<Rightarrow> [] | Some i \<Rightarrow> [(''id'', JString i)])))"

definition invalid_call :: "tool_call \<Rightarrow> gateway_error" where
  "invalid_call call = InvalidResponse (''assistant tool call `'' @ tc_id call @ ''` has invalid arguments'')"

fun project_calls :: "(string \<Rightarrow> string + json) \<Rightarrow> tool_call list \<Rightarrow> gateway_error + json list" where
  "project_calls parse [] = Inr []"
| "project_calls parse (call # calls) =
     (if \<not> is_json parse (arguments_json call) then Inl (invalid_call call)
      else and_then (project_calls parse calls) (\<lambda>items. Inr (call_item call # items)))"

definition output_item :: "string \<Rightarrow> chat_message \<Rightarrow> json" where
  "output_item call_id m =
     JObject [(''type'', JString ''function_call_output''), (''call_id'', JString call_id),
       (''output'', JString (unwrap_or [] (content m)))]"

text \<open>The items that a message adds to the input.\<close>

definition project_message ::
  "(string \<Rightarrow> string + json) \<Rightarrow> chat_message \<Rightarrow> nat \<Rightarrow> gateway_error + json list" where
  "project_message parse m index =
     (case role m of
        System \<Rightarrow> Inr []
      | User \<Rightarrow> Inr [user_item m]
      | Assistant \<Rightarrow>
          and_then (project_calls parse (tool_calls m)) (\<lambda>items.
            Inr ((case non_empty (content m) of None \<Rightarrow> [] | Some c \<Rightarrow> [assistant_item index c]) @ items))
      | Tool \<Rightarrow>
          (let call_id = fst (split_tool_call_id (unwrap_or [] (tool_call_id m))) in
           if call_id = [] then Inl (InvalidResponse ''tool result is missing its call id'')
           else Inr [output_item call_id m]))"

fun project_messages ::
  "(string \<Rightarrow> string + json) \<Rightarrow> chat_message list \<Rightarrow> nat \<Rightarrow> gateway_error + json list" where
  "project_messages parse [] index = Inr []"
| "project_messages parse (m # ms) index =
     and_then (project_message parse m index) (\<lambda>items.
     and_then (project_messages parse ms (Suc index)) (\<lambda>rest. Inr (items @ rest)))"

subsection \<open>Tools and the body\<close>

definition project_tool :: "tool_advertisement \<Rightarrow> gateway_error + json" where
  "project_tool tool =
     (case ad_kind tool of
        Function \<Rightarrow>
          Inr (JObject [(''type'', JString ''function''), (''name'', JString (ad_name tool)),
            (''description'', JString (ad_description tool)), (''parameters'', ad_input_schema tool),
            (''strict'', JBool False)])
      | ProviderTool i args \<Rightarrow>
          if i = codex_web_search_tool_id then
            Inr (JObject ([(''type'', JString ''web_search''), (''search_context_size'', JString ''medium'')]
              @ (case Option.bind (value_get args ''allowed_domains'') as_array of
                   None \<Rightarrow> []
                 | Some domains \<Rightarrow> [(''filters'', JObject [(''allowed_domains'', JArray domains)])])))
          else Inl (InvalidResponse (''Codex does not support provider tool `'' @ i @ ''`'')))"

text \<open>\<open>collect::<Result<Vec<_>, _>>()\<close>: the first error, or all values.\<close>

fun collect :: "('a \<Rightarrow> 'e + 'b) \<Rightarrow> 'a list \<Rightarrow> 'e + 'b list" where
  "collect f [] = Inr []"
| "collect f (x # xs) = and_then (f x) (\<lambda>y. and_then (collect f xs) (\<lambda>ys. Inr (y # ys)))"

definition tool_choice_text :: "tool_choice \<Rightarrow> string" where
  "tool_choice_text c = (case c of AutoChoice \<Rightarrow> ''auto'' | NoneChoice \<Rightarrow> ''none'' | RequiredChoice \<Rightarrow> ''required'')"

definition instructions :: "gateway_request \<Rightarrow> string" where
  "instructions request =
     join [CHR 0x0A, CHR 0x0A] (List.map_filter content (filter (\<lambda>m. role m = System) (gw_messages request)))"

definition codex_body ::
  "(string \<Rightarrow> string + json) \<Rightarrow> string \<Rightarrow> gateway_request \<Rightarrow> gateway_error + json_object" where
  "codex_body parse model request =
     and_then (project_messages parse (gw_messages request) 0) (\<lambda>input.
     and_then (collect project_tool (gw_tools request)) (\<lambda>tools.
       Inr ([(''model'', JString model), (''store'', JBool False), (''stream'', JBool True),
             (''instructions'', JString (instructions request)), (''input'', JArray input),
             (''tools'', JArray tools), (''tool_choice'', JString (tool_choice_text (gw_tool_choice request))),
             (''parallel_tool_calls'', JBool True),
             (''include'', JArray [JString ''reasoning.encrypted_content'']),
             (''reasoning'', JObject [(''effort'', JString ''medium''), (''summary'', JString ''auto'')])]
          @ (case gw_max_output_tokens request of None \<Rightarrow> [] | Some n \<Rightarrow> [(''max_output_tokens'', JNumber (int n))]))))"

definition build_codex_request_body ::
  "(string \<Rightarrow> string + json) \<Rightarrow> (json \<Rightarrow> string) \<Rightarrow> string \<Rightarrow> gateway_request \<Rightarrow> gateway_error + string" where
  "build_codex_request_body parse print_json model request =
     and_then (codex_body parse model request) (\<lambda>root. Inr (print_json (JObject root)))"

subsection \<open>Call ids\<close>

lemma split_stable_id:
  assumes "CHR ''|'' \<notin> set call_id"
  shows "split_tool_call_id (stable_tool_id call_id item_id) =
     (call_id, if item_id = [] \<or> item_id = call_id then None else Some item_id)"
proof -
  have "takeWhile (\<lambda>c. c \<noteq> CHR ''|'') (call_id @ CHR ''|'' # rest) = call_id"
    "dropWhile (\<lambda>c. c \<noteq> CHR ''|'') (call_id @ CHR ''|'' # rest) = CHR ''|'' # rest" for rest
    using assms by (induction call_id) auto
  then show ?thesis using assms by (auto simp: split_tool_call_id_def stable_tool_id_def)
qed

text \<open>
  An id made of a call id and an item id is taken apart again into the two where the call id has no bar;
  distinct pairs of the two give distinct ids.
\<close>

lemma stable_id_inject:
  assumes "CHR ''|'' \<notin> set c" "CHR ''|'' \<notin> set c'" "i \<noteq> []" "i' \<noteq> []"
  shows "stable_tool_id c i = stable_tool_id c' i' \<longleftrightarrow> c = c' \<and> i = i'"
proof
  assume "stable_tool_id c i = stable_tool_id c' i'"
  then have "split_tool_call_id (stable_tool_id c i) = split_tool_call_id (stable_tool_id c' i')" by simp
  with assms show "c = c' \<and> i = i'" by (auto simp: split_stable_id split: if_splits)
qed simp

subsection \<open>The input of an answered transcript\<close>

text \<open>The call ids of the input, in order: of calls on the left, of outputs on the right.\<close>

definition item_call :: "json \<Rightarrow> (string + string) option" where
  "item_call v =
     (case as_object v of
        None \<Rightarrow> None
      | Some obj \<Rightarrow>
          case (string_field obj ''type'', string_field obj ''call_id'') of
            (Some t, Some i) \<Rightarrow>
              if t = ''function_call'' then Some (Inl i)
              else if t = ''function_call_output'' then Some (Inr i) else None
          | _ \<Rightarrow> None)"

text \<open>
  \<open>calls_answered open_calls items\<close>: an output is that of the oldest open call, and nothing but calls and
  outputs stands between a call and its output.
\<close>

fun calls_answered :: "string list \<Rightarrow> (string + string) option list \<Rightarrow> bool" where
  "calls_answered open_calls [] \<longleftrightarrow> open_calls = []"
| "calls_answered open_calls (None # xs) \<longleftrightarrow> open_calls = [] \<and> calls_answered [] xs"
| "calls_answered open_calls (Some (Inl i) # xs) \<longleftrightarrow> calls_answered (open_calls @ [i]) xs"
| "calls_answered open_calls (Some (Inr i) # xs) \<longleftrightarrow>
     open_calls \<noteq> [] \<and> hd open_calls = i \<and> calls_answered (tl open_calls) xs"

definition wire_id :: "tool_call \<Rightarrow> string" where
  "wire_id call = fst (split_tool_call_id (tc_id call))"

lemmas item_defs = item_call_def as_object_def string_field_def

lemma item_call_items [simp]:
  "item_call (user_item m) = None" "item_call (assistant_item n c) = None"
  "item_call (output_item i m) = Some (Inr i)" "item_call (call_item call) = Some (Inl (wire_id call))"
  by (simp_all add: item_defs user_item_def assistant_item_def output_item_def call_item_def wire_id_def
      split: prod.splits)

lemma project_calls_items: "project_calls parse calls = Inr items \<Longrightarrow> items = map call_item calls"
  by (induction calls arbitrary: items) (auto split: if_splits)

lemma calls_answered_calls:
  "calls_answered q (map item_call (map call_item calls) @ xs) = calls_answered (q @ map wire_id calls) xs"
  by (induction calls arbitrary: q) simp_all

lemma project_messages_append:
  "project_messages parse (xs @ ys) index =
     and_then (project_messages parse xs index) (\<lambda>a.
     and_then (project_messages parse ys (index + length xs)) (\<lambda>b. Inr (a @ b)))"
proof (induction xs arbitrary: index)
  case Nil
  then show ?case by (cases "project_messages parse ys index") simp_all
next
  case (Cons m xs)
  show ?case
    by (cases "project_message parse m index"; cases "project_messages parse xs (Suc index)";
        cases "project_messages parse ys (Suc (index + length xs))") (simp_all add: Cons.IH)
qed

text \<open>The results of calls, in order, close these calls.\<close>

lemma calls_answered_results:
  "list_all2 answers calls ms \<Longrightarrow> project_messages parse ms index = Inr items \<Longrightarrow>
     calls_answered (map wire_id calls @ q) (map item_call items @ xs) = calls_answered q xs"
  by (induction calls ms arbitrary: index items rule: list_all2_induct)
    (auto simp: answers_def project_message_def wire_id_def Let_def split: if_splits)

lemma calls_answered_transcript:
  "answered ms \<Longrightarrow> project_messages parse ms index = Inr items \<Longrightarrow>
     calls_answered [] (map item_call items @ xs) = calls_answered [] xs"
proof (induction ms arbitrary: index items rule: answered.induct)
  case (2 m ms)
  show ?case
  proof (cases "role m = Assistant")
    case True
    let ?n = "length (tool_calls m)"
    have "ms = take ?n ms @ drop ?n ms" by simp
    with "2.prems"(2) have "project_messages parse (m # take ?n ms @ drop ?n ms) index = Inr items" by simp
    then obtain own results rest i where p: "project_message parse m index = Inr own"
      "project_messages parse (take ?n ms) (Suc index) = Inr results"
      "project_messages parse (drop ?n ms) i = Inr rest" "items = own @ results @ rest"
      by (auto simp: project_messages_append and_then_Inr_iff simp del: append_take_drop_id)
    from p(1) True obtain head where own: "own = head @ map call_item (tool_calls m)"
      "head = [] \<or> (\<exists>c. head = [assistant_item index c])"
      by (cases "non_empty (content m)") (fastforce simp: project_message_def and_then_Inr_iff dest: project_calls_items)+
    from "2.prems"(1) True have a: "list_all2 answers (tool_calls m) (take ?n ms)" "answered (drop ?n ms)" by auto
    have "calls_answered [] (map item_call own @ ys) = calls_answered (map wire_id (tool_calls m)) ys" for ys
      using own(2) calls_answered_calls [of "[]" "tool_calls m" ys] by (auto simp: own(1))
    moreover have "calls_answered (map wire_id (tool_calls m)) (map item_call results @ ys) = calls_answered [] ys" for ys
      using calls_answered_results [OF a(1) p(2), of "[]" ys] by simp
    ultimately show ?thesis using "2.IH"(1) [OF True a(2) p(3)] p(4) by simp
  next
    case False
    with "2.prems" have m: "role m = System \<or> role m = User" "answered ms" by (cases "role m"; simp)+
    from "2.prems"(2) obtain own rest where p: "project_message parse m index = Inr own"
      "project_messages parse ms (Suc index) = Inr rest" "items = own @ rest" by (auto simp: and_then_Inr_iff)
    from p(1) m(1) have "own = [] \<or> own = [user_item m]" by (auto simp: project_message_def)
    with "2.IH"(2) [OF False m(2) p(2)] p(3) show ?thesis by auto
  qed
qed simp

text \<open>
  C24. A transcript in which every call is followed by its result gives an input with this property: each
  output answers the oldest call that is open under its wire id, nothing stands between a call and its
  output, and no call is left open.
\<close>

theorem codex_input_is_answered:
  assumes "answered (gw_messages request)" and "codex_body parse model request = Inr root"
  shows "\<exists>input. map_of root ''input'' = Some (JArray input) \<and> calls_answered [] (map item_call input)"
proof -
  from assms(2) obtain input where i: "project_messages parse (gw_messages request) 0 = Inr input"
    "map_of root ''input'' = Some (JArray input)"
    by (auto simp: codex_body_def and_then_Inr_iff)
  from calls_answered_transcript [OF assms(1) i(1), of "[]"] i(2) show ?thesis by auto
qed

definition sample_call :: "string \<Rightarrow> tool_call" where
  "sample_call args =
     \<lparr>tc_id = ''c|i'', tc_name = ''f'', arguments_json = args, argument_integrity = Valid, provisional_id = None,
      provider_result = None, provenance = FxLocal\<rparr>"

definition sample_request :: "string \<Rightarrow> gateway_request" where
  "sample_request args = example_request\<lparr>gw_messages :=
     [chat_text User ''u'', (chat_text Assistant ''a'')\<lparr>tool_calls := [sample_call args]\<rparr>,
      (chat_text Tool ''r'')\<lparr>tool_call_id := Some ''c|i''\<rparr>]\<rparr>"

definition sample_parse :: "string \<Rightarrow> string + json" where
  "sample_parse s = (if s = ''{}'' then Inr (JObject []) else Inl ''expected value'')"

theorem codex_input_is_answered_witness:
  "\<exists>root. codex_body sample_parse ''m'' (sample_request ''{}'') = Inr root
     \<and> (\<exists>input. map_of root ''input'' = Some (JArray input) \<and> calls_answered [] (map item_call input))"
proof -
  have a: "answered (gw_messages (sample_request ''{}''))"
    by (simp add: sample_request_def example_request_def sample_call_def answers_def chat_text_def)
  have "\<exists>root. codex_body sample_parse ''m'' (sample_request ''{}'') = Inr root"
    by (simp add: codex_body_def sample_request_def example_request_def sample_call_def chat_text_def
        project_message_def is_json_def sample_parse_def split_tool_call_id_def)
  then show ?thesis using codex_input_is_answered [OF a] by blast
qed

text \<open>
  What a request needs to be sent: every call that the transcript holds has arguments that are JSON, every
  result has a call id, and every provider tool is the web search.
\<close>

definition codex_accepts :: "(string \<Rightarrow> string + json) \<Rightarrow> chat_message \<Rightarrow> bool" where
  "codex_accepts parse m \<longleftrightarrow>
     (case role m of
        Assistant \<Rightarrow> list_all (\<lambda>call. is_json parse (arguments_json call)) (tool_calls m)
      | Tool \<Rightarrow> fst (split_tool_call_id (unwrap_or [] (tool_call_id m))) \<noteq> []
      | _ \<Rightarrow> True)"

definition codex_accepts_tool :: "tool_advertisement \<Rightarrow> bool" where
  "codex_accepts_tool tool \<longleftrightarrow>
     (case ad_kind tool of Function \<Rightarrow> True | ProviderTool i _ \<Rightarrow> i = codex_web_search_tool_id)"

lemma project_calls_ok:
  "(\<exists>items. project_calls parse calls = Inr items) \<longleftrightarrow> list_all (\<lambda>call. is_json parse (arguments_json call)) calls"
  by (induction calls) (auto simp: and_then_Inr_iff)

lemma project_message_ok: "(\<exists>items. project_message parse m index = Inr items) \<longleftrightarrow> codex_accepts parse m"
  by (cases "role m") (auto simp: project_message_def codex_accepts_def and_then_Inr_iff Let_def
      project_calls_ok [symmetric])

lemma project_messages_ok:
  "(\<exists>items. project_messages parse ms index = Inr items) \<longleftrightarrow> list_all (codex_accepts parse) ms"
proof (induction ms arbitrary: index)
  case (Cons m ms)
  have "(\<exists>items. project_messages parse (m # ms) index = Inr items) \<longleftrightarrow>
      (\<exists>items. project_message parse m index = Inr items) \<and> (\<exists>items. project_messages parse ms (Suc index) = Inr items)"
    by (auto simp: and_then_Inr_iff)
  with Cons.IH project_message_ok show ?case by simp
qed simp

lemma collect_ok: "(\<exists>ys. collect f xs = Inr ys) \<longleftrightarrow> list_all (\<lambda>x. \<exists>y. f x = Inr y) xs"
  by (induction xs) (auto simp: and_then_Inr_iff)

lemma project_tool_ok: "(\<exists>v. project_tool tool = Inr v) \<longleftrightarrow> codex_accepts_tool tool"
  by (auto simp: project_tool_def codex_accepts_tool_def split: tool_advertisement_kind.splits)

lemma codex_built:
  "build_codex_request_body parse print_json model request = Inr body \<Longrightarrow>
     list_all (codex_accepts parse) (gw_messages request)"
  by (auto simp: build_codex_request_body_def codex_body_def and_then_Inr_iff project_messages_ok [of _ _ 0, symmetric])

theorem codex_body_accepts:
  "(\<exists>body. build_codex_request_body parse print_json model request = Inr body) =
     (list_all (codex_accepts parse) (gw_messages request) \<and> list_all codex_accepts_tool (gw_tools request))"
proof -
  have "(\<exists>body. build_codex_request_body parse print_json model request = Inr body) \<longleftrightarrow>
      (\<exists>items. project_messages parse (gw_messages request) 0 = Inr items)
      \<and> (\<exists>tools. collect project_tool (gw_tools request) = Inr tools)"
    by (auto simp: build_codex_request_body_def codex_body_def and_then_Inr_iff)
  then show ?thesis by (simp add: project_messages_ok collect_ok project_tool_ok)
qed

end
