(* ===== verification/Vercel_Body.thy ===== *)
theory Vercel_Body
  imports Codex_Body
begin

section \<open>The body of a Vercel request\<close>

text \<open>
  \<open>build_vercel_request_body_with_config\<close> of \<open>fx-provider/src/transport.rs\<close>: the transcript in the shape of the
  AI SDK, the tools, and the routing of the gateway.
\<close>

record routing_policy =
  rp_only :: "string list"
  rp_order :: "string list"

definition routing_is_empty :: "routing_policy \<Rightarrow> bool" where
  "routing_is_empty r \<longleftrightarrow> rp_only r = [] \<and> rp_order r = []"

record vercel_config =
  vc_endpoint :: string
  vc_model :: string
  vc_access_token :: string
  vc_team_id :: "string option"
  vc_session_id :: "string option"
  vc_routing :: routing_policy

definition default_vercel_endpoint :: string where
  "default_vercel_endpoint = ''https://ai-gateway.vercel.sh/v3/ai/language-model''"

definition vercel_endpoint_from_base :: "string option \<Rightarrow> string" where
  "vercel_endpoint_from_base = endpoint_from_base default_vercel_endpoint ''/v3/ai/language-model''"

definition new_vercel_config :: "string \<Rightarrow> string \<Rightarrow> vercel_config" where
  "new_vercel_config model access_token =
     \<lparr>vc_endpoint = default_vercel_endpoint, vc_model = model, vc_access_token = access_token,
      vc_team_id = None, vc_session_id = None, vc_routing = \<lparr>rp_only = [], rp_order = []\<rparr>\<rparr>"

definition glm_5_2_model :: string where "glm_5_2_model = ''zai/glm-5.2''"

subsection \<open>Messages\<close>

definition text_part :: "string \<Rightarrow> json" where
  "text_part c = JObject [(''type'', JString ''text''), (''text'', JString c)]"

definition text_parts :: "chat_message \<Rightarrow> json list" where
  "text_parts m = (case non_empty (content m) of None \<Rightarrow> [] | Some c \<Rightarrow> [text_part c])"

definition vercel_call_part :: "tool_call \<Rightarrow> json \<Rightarrow> json" where
  "vercel_call_part call input =
     JObject [(''type'', JString ''tool-call''), (''toolCallId'', JString (tc_id call)),
       (''toolName'', JString (tc_name call)), (''input'', input)]"

definition project_vercel_call :: "(string \<Rightarrow> string + json) \<Rightarrow> tool_call \<Rightarrow> gateway_error + json" where
  "project_vercel_call parse call =
     and_then (map_err (\<lambda>_. invalid_call call) (parse (arguments_json call))) (\<lambda>input.
       Inr (vercel_call_part call input))"

definition result_part :: "string \<Rightarrow> chat_message \<Rightarrow> json" where
  "result_part call_id m =
     JObject [(''type'', JString ''tool-result''), (''toolCallId'', JString call_id),
       (''toolName'', JString (unwrap_or ''unknown'' (tool_name m))),
       (''output'', JObject [(''type'', JString ''text''), (''value'', JString (unwrap_or [] (content m)))])]"

definition project_vercel_message :: "(string \<Rightarrow> string + json) \<Rightarrow> chat_message \<Rightarrow> gateway_error + json" where
  "project_vercel_message parse m =
     (case role m of
        System \<Rightarrow>
          Inr (JObject [(''role'', JString ''system''), (''content'', JString (unwrap_or [] (content m)))])
      | User \<Rightarrow> Inr (JObject [(''role'', JString ''user''), (''content'', JArray (text_parts m))])
      | Assistant \<Rightarrow>
          and_then (collect (project_vercel_call parse) (tool_calls m)) (\<lambda>calls.
            Inr (JObject [(''role'', JString ''assistant''), (''content'', JArray (text_parts m @ calls))]))
      | Tool \<Rightarrow>
          and_then (ok_or (InvalidResponse ''tool result is missing its call id'') (non_empty (tool_call_id m)))
            (\<lambda>call_id.
              Inr (JObject [(''role'', JString ''tool''), (''content'', JArray [result_part call_id m])])))"

subsection \<open>Tools and the body\<close>

definition project_vercel_tool :: "tool_advertisement \<Rightarrow> gateway_error + json" where
  "project_vercel_tool tool =
     (case ad_kind tool of
        Function \<Rightarrow>
          Inr (JObject [(''type'', JString ''function''), (''name'', JString (ad_name tool)),
            (''description'', JString (ad_description tool)), (''inputSchema'', ad_input_schema tool)])
      | ProviderTool i args \<Rightarrow>
          and_then (ok_or (InvalidResponse (''Vercel provider tool `'' @ i @ ''` arguments must be an object''))
              (as_object args)) (\<lambda>projected.
            Inr (JObject (object_insert ''name'' (JString (ad_name tool))
              (object_insert ''id'' (JString i) (object_insert ''type'' (JString ''provider'') projected))))))"

definition strings :: "string list \<Rightarrow> json" where "strings ss = JArray (map JString ss)"

definition routing_options :: "routing_policy \<Rightarrow> json_object" where
  "routing_options r =
     (if routing_is_empty r then []
      else [(''providerOptions'', JObject [(''gateway'', JObject
        ((if rp_only r \<noteq> [] then [(''only'', strings (rp_only r))] else [])
         @ (if rp_order r \<noteq> [] then [(''order'', strings (rp_order r))] else [])))])])"

definition vercel_body ::
  "(string \<Rightarrow> string + json) \<Rightarrow> gateway_request \<Rightarrow> routing_policy \<Rightarrow> string option \<Rightarrow> gateway_error + json_object" where
  "vercel_body parse request routing user_agent =
     and_then (collect (project_vercel_message parse) (gw_messages request)) (\<lambda>messages.
     and_then (collect project_vercel_tool (gw_tools request)) (\<lambda>tools.
       Inr ([(''prompt'', JArray messages), (''tools'', JArray tools),
             (''toolChoice'', JObject [(''type'', JString (tool_choice_text (gw_tool_choice request)))])]
          @ (case gw_max_output_tokens request of None \<Rightarrow> [] | Some n \<Rightarrow> [(''maxOutputTokens'', JNumber (int n))])
          @ routing_options routing
          @ (case user_agent of None \<Rightarrow> [] | Some a \<Rightarrow> [(''headers'', JObject [(''user-agent'', JString a)])]))))"

definition build_vercel_request_body ::
  "(string \<Rightarrow> string + json) \<Rightarrow> (json \<Rightarrow> string) \<Rightarrow> vercel_config \<Rightarrow> gateway_request \<Rightarrow> gateway_error + string" where
  "build_vercel_request_body parse print_json c request =
     and_then (vercel_body parse request (vc_routing c)
         (if vc_model c = glm_5_2_model then Some fxrs_user_agent else None))
       (\<lambda>root. Inr (print_json (JObject root)))"

subsection \<open>What a request needs\<close>

definition vercel_accepts :: "(string \<Rightarrow> string + json) \<Rightarrow> chat_message \<Rightarrow> bool" where
  "vercel_accepts parse m \<longleftrightarrow>
     (case role m of
        Assistant \<Rightarrow> list_all (\<lambda>call. is_json parse (arguments_json call)) (tool_calls m)
      | Tool \<Rightarrow> non_empty (tool_call_id m) \<noteq> None
      | _ \<Rightarrow> True)"

lemma project_vercel_call_ok: "(\<exists>v. project_vercel_call parse call = Inr v) \<longleftrightarrow> is_json parse (arguments_json call)"
  by (auto simp: project_vercel_call_def is_json_def and_then_Inr_iff split: sum.splits)

lemma project_vercel_message_ok: "(\<exists>v. project_vercel_message parse m = Inr v) \<longleftrightarrow> vercel_accepts parse m"
  by (cases "role m")
    (auto simp: project_vercel_message_def vercel_accepts_def and_then_Inr_iff ok_or_def collect_ok
      project_vercel_call_ok [symmetric] split: option.splits)

lemma vercel_body_accepts:
  assumes "build_vercel_request_body parse print_json c request = Inr body"
  shows "list_all (vercel_accepts parse) (gw_messages request)"
proof -
  from assms have "\<exists>ms. collect (project_vercel_message parse) (gw_messages request) = Inr ms"
    by (auto simp: build_vercel_request_body_def vercel_body_def and_then_Inr_iff)
  then show ?thesis by (simp add: collect_ok project_vercel_message_ok)
qed

end
