(* ===== verification/Codex_Stream.thy ===== *)
theory Codex_Stream
  imports Codex_Body "HOL-Library.List_Lexorder" "HOL-Library.Char_ord"
begin

section \<open>The stream of a Codex response\<close>

text \<open>
  \<open>StreamState\<close>, \<open>process_event\<close> and \<open>consume_codex_sse\<close> of \<open>fx-provider/src/transport.rs\<close>. The sources
  are the \<open>BTreeMap\<close>, as a list in the order of its keys.
\<close>

record pending_function =
  pf_call_id :: string
  pf_name :: string
  pf_arguments :: string

record codex_state =
  cs_content :: string
  cs_text_was_streamed :: bool
  cs_tool_calls :: "tool_call list"
  cs_pending :: "string \<rightharpoonup> pending_function"
  cs_web_search_items :: "string list"
  cs_sources :: "(string \<times> string) list"
  cs_generation_id :: "string option"
  cs_finish_reason :: "finish_reason option"
  cs_usage :: usage
  cs_provider_error :: "string option"

definition codex_initial :: codex_state where
  "codex_initial =
     \<lparr>cs_content = [], cs_text_was_streamed = False, cs_tool_calls = [], cs_pending = Map.empty,
      cs_web_search_items = [], cs_sources = [], cs_generation_id = None, cs_finish_reason = None,
      cs_usage = usage_default, cs_provider_error = None\<rparr>"

subsection \<open>The parts of an event\<close>

definition event_type :: "json_object \<Rightarrow> string" where
  "event_type obj = unwrap_or [] (string_field obj ''type'')"

definition string_or_empty :: "json_object \<Rightarrow> string \<Rightarrow> string" where
  "string_or_empty obj key = unwrap_or [] (string_field obj key)"

definition output_item_key :: "json_object \<Rightarrow> gateway_error + string" where
  "output_item_key obj =
     ok_or (InvalidResponse ''function delta item id is missing'') (non_empty (string_field obj ''item_id''))"

text \<open>\<open>get_or_insert_with\<close>.\<close>

definition capture_response_id :: "codex_state \<Rightarrow> json_object \<Rightarrow> codex_state" where
  "capture_response_id s obj =
     (case non_empty (Option.bind (object_field obj ''response'') (\<lambda>response. string_field response ''id'')) of
        None \<Rightarrow> s
      | Some i \<Rightarrow> s\<lparr>cs_generation_id := or_else (cs_generation_id s) (Some i)\<rparr>)"

definition parse_usage :: "json_object \<Rightarrow> usage" where
  "parse_usage response =
     (let u = object_field response ''usage'' in
      \<lparr>input_tokens = Option.bind u (\<lambda>obj. u64_field obj ''input_tokens''),
       output_tokens = Option.bind u (\<lambda>obj. u64_field obj ''output_tokens'')\<rparr>)"

definition parse_incomplete_reason :: "json_object \<Rightarrow> finish_reason" where
  "parse_incomplete_reason response =
     (if Option.bind (object_field response ''incomplete_details'') (\<lambda>d. string_field d ''reason'')
           = Some ''content_filter''
      then ContentFilter else Length)"

definition response_error_message :: "json_object \<Rightarrow> string" where
  "response_error_message obj =
     unwrap_or ''Codex reported an error''
       (or_else
          (Option.bind
             (or_else (Option.bind (object_field obj ''response'') (\<lambda>response. map_of response ''error''))
                (map_of obj ''error''))
             (\<lambda>err. or_else (Option.bind (as_object err) (\<lambda>e. string_field e ''message'')) (as_str err)))
          (string_field obj ''message''))"

subsection \<open>Items\<close>

text \<open>\<open>entry(url).or_insert_with(title)\<close> of the \<open>BTreeMap\<close>.\<close>

fun insert_source :: "string \<Rightarrow> string \<Rightarrow> (string \<times> string) list \<Rightarrow> (string \<times> string) list" where
  "insert_source url name [] = [(url, name)]"
| "insert_source url name ((u, n) # rest) =
     (if url = u then (u, n) # rest
      else if url < u then (url, name) # (u, n) # rest
      else (u, n) # insert_source url name rest)"

definition capture_annotation :: "(string \<times> string) list \<Rightarrow> json \<Rightarrow> (string \<times> string) list" where
  "capture_annotation sources v =
     (case as_object v of
        None \<Rightarrow> sources
      | Some a \<Rightarrow>
          if string_field a ''type'' = Some ''url_citation'' then
            (case string_field a ''url'' of
               None \<Rightarrow> sources
             | Some url \<Rightarrow> insert_source url (unwrap_or url (non_empty (string_field a ''title''))) sources)
          else sources)"

text \<open>One part of a message: the text so far, and the sources.\<close>

definition capture_part :: "json \<Rightarrow> string \<times> (string \<times> string) list \<Rightarrow> string \<times> (string \<times> string) list" where
  "capture_part v acc =
     (case as_object v of
        None \<Rightarrow> acc
      | Some part \<Rightarrow>
          if string_field part ''type'' = Some ''output_text'' then
            (fst acc @ string_or_empty part ''text'',
             case array_field part ''annotations'' of
               None \<Rightarrow> snd acc
             | Some annotations \<Rightarrow> foldl capture_annotation (snd acc) annotations)
          else acc)"

definition capture_message_item :: "codex_state \<Rightarrow> json_object \<Rightarrow> codex_state" where
  "capture_message_item s item =
     (case array_field item ''content'' of
        None \<Rightarrow> s
      | Some parts \<Rightarrow>
          let (final_text, sources) = fold capture_part parts ([], cs_sources s);
              s = s\<lparr>cs_sources := sources\<rparr> in
          if \<not> cs_text_was_streamed s \<and> final_text \<noteq> [] then s\<lparr>cs_content := final_text\<rparr> else s)"

definition add_web_search :: "string \<Rightarrow> codex_state \<Rightarrow> codex_state" where
  "add_web_search i s =
     (if i \<in> set (cs_web_search_items s) then s
      else s\<lparr>cs_web_search_items := cs_web_search_items s @ [i]\<rparr>)"

definition capture_output_item_added ::
  "codex_state \<Rightarrow> json_object \<Rightarrow> gateway_error + codex_state \<times> gateway_event list" where
  "capture_output_item_added s obj =
     and_then (ok_or (InvalidResponse ''output item is missing'') (object_field obj ''item'')) (\<lambda>item.
       if event_type item = ''function_call'' then
         and_then (required_string item ''id'') (\<lambda>item_id.
         and_then (required_string item ''call_id'') (\<lambda>call_id.
         and_then (required_string item ''name'') (\<lambda>name.
           Inr (s\<lparr>cs_pending := (cs_pending s)(item_id \<mapsto>
                    \<lparr>pf_call_id = call_id, pf_name = name, pf_arguments = string_or_empty item ''arguments''\<rparr>)\<rparr>,
                [GatewayToolStarted (stable_tool_id call_id item_id) name]))))
       else if event_type item = ''web_search_call'' then
         and_then (required_string item ''id'') (\<lambda>item_id. Inr (add_web_search item_id s, []))
       else Inr (capture_message_item s item, []))"

definition finish_function ::
  "(string \<Rightarrow> string + json) \<Rightarrow> codex_state \<Rightarrow> json_object \<Rightarrow> gateway_error + codex_state" where
  "finish_function parse s item =
     and_then (required_string item ''id'') (\<lambda>item_id.
       let pending = cs_pending s item_id;
           s = s\<lparr>cs_pending := (cs_pending s)(item_id := None)\<rparr> in
       and_then (ok_or (InvalidResponse ''function call id is missing'')
           (or_else (string_field item ''call_id'') (map_option pf_call_id pending))) (\<lambda>call_id.
       and_then (ok_or (InvalidResponse ''function name is missing'')
           (or_else (string_field item ''name'') (map_option pf_name pending))) (\<lambda>name.
         let args = unwrap_or ''{}''
               (or_else (non_empty (string_field item ''arguments'')) (map_option pf_arguments pending));
             ident = stable_tool_id call_id item_id in
         if ident \<in> tc_id ` set (cs_tool_calls s) then
           Inl (InvalidResponse (''duplicate function call `'' @ ident @ ''`''))
         else
           Inr (s\<lparr>cs_tool_calls := cs_tool_calls s @
             [\<lparr>tc_id = ident, tc_name = name, arguments_json = args, argument_integrity = integrity_of parse args,
               provisional_id = None, provider_result = None, provenance = FxLocal\<rparr>]\<rparr>))))"

definition capture_output_item_done ::
  "(string \<Rightarrow> string + json) \<Rightarrow> codex_state \<Rightarrow> json_object \<Rightarrow> gateway_error + codex_state" where
  "capture_output_item_done parse s obj =
     and_then (ok_or (InvalidResponse ''completed output item is missing'') (object_field obj ''item'')) (\<lambda>item.
       if event_type item = ''function_call'' then finish_function parse s item
       else if event_type item = ''web_search_call'' then
         and_then (required_string item ''id'') (\<lambda>item_id. Inr (add_web_search item_id s))
       else if event_type item = ''message'' then Inr (capture_message_item s item)
       else Inr s)"

subsection \<open>The terminal event\<close>

text \<open>A call that the stream has finished, by its item id or, without one, by its call id.\<close>

definition is_call_of :: "string \<Rightarrow> tool_call \<Rightarrow> bool" where
  "is_call_of item_id call \<longleftrightarrow>
     (let (call_id, stored_item_id) = split_tool_call_id (tc_id call) in
      stored_item_id = Some item_id \<or> call_id = item_id)"

definition capture_output ::
  "(string \<Rightarrow> string + json) \<Rightarrow> codex_state \<Rightarrow> json_object \<Rightarrow> gateway_error + codex_state" where
  "capture_output parse s item =
     (if event_type item = ''function_call'' then
        (let item_id = string_or_empty item ''id'' in
         if item_id \<noteq> [] \<and> \<not> list_ex (is_call_of item_id) (cs_tool_calls s) then finish_function parse s item
         else Inr s)
      else if event_type item = ''web_search_call'' then
        (case string_field item ''id'' of None \<Rightarrow> Inr s | Some i \<Rightarrow> Inr (add_web_search i s))
      else if event_type item = ''message'' then Inr (capture_message_item s item)
      else Inr s)"

fun capture_outputs ::
  "(string \<Rightarrow> string + json) \<Rightarrow> codex_state \<Rightarrow> json_object list \<Rightarrow> gateway_error + codex_state" where
  "capture_outputs parse s [] = Inr s"
| "capture_outputs parse s (item # items) =
     and_then (capture_output parse s item) (\<lambda>s. capture_outputs parse s items)"

definition has_local_call :: "tool_call list \<Rightarrow> bool" where
  "has_local_call calls \<longleftrightarrow> filter (\<lambda>call. provenance call = FxLocal) calls \<noteq> []"

definition capture_terminal_response ::
  "(string \<Rightarrow> string + json) \<Rightarrow> codex_state \<Rightarrow> json_object \<Rightarrow> finish_reason \<Rightarrow> gateway_error + codex_state" where
  "capture_terminal_response parse s obj fallback =
     (let s = capture_response_id s obj in
      and_then (ok_or (InvalidResponse ''terminal response is missing'') (object_field obj ''response'')) (\<lambda>response.
      and_then (case array_field response ''output'' of
                  None \<Rightarrow> Inr s
                | Some output \<Rightarrow> capture_outputs parse s (List.map_filter as_object output)) (\<lambda>s.
        Inr (s\<lparr>cs_usage := parse_usage response,
               cs_finish_reason := Some
                 (if has_local_call (cs_tool_calls s) then ToolCalls
                  else if fallback = Length then parse_incomplete_reason response
                  else fallback)\<rparr>))))"

subsection \<open>Events\<close>

definition append_arguments :: "string \<Rightarrow> string \<Rightarrow> codex_state \<Rightarrow> codex_state" where
  "append_arguments key delta s =
     (case cs_pending s key of
        None \<Rightarrow> s
      | Some f \<Rightarrow> s\<lparr>cs_pending := (cs_pending s)(key \<mapsto> f\<lparr>pf_arguments := pf_arguments f @ delta\<rparr>)\<rparr>)"

definition process_object ::
  "(string \<Rightarrow> string + json) \<Rightarrow> codex_state \<Rightarrow> json_object \<Rightarrow>
     gateway_error + codex_state \<times> gateway_event list \<times> bool" where
  "process_object parse s obj =
     (let t = event_type obj in
      if t = ''response.created'' \<or> t = ''response.in_progress'' then Inr (capture_response_id s obj, [], False)
      else if t = ''response.output_text.delta'' then
        (let delta = string_or_empty obj ''delta'' in
         Inr (s\<lparr>cs_content := cs_content s @ delta, cs_text_was_streamed := True\<rparr>,
              if delta \<noteq> [] then [ContentDelta delta] else [], False))
      else if t = ''response.reasoning_summary_text.delta'' \<or> t = ''response.reasoning_text.delta'' then
        Inr (s, case string_field obj ''delta'' of None \<Rightarrow> [] | Some delta \<Rightarrow> [ReasoningDelta delta], False)
      else if t = ''response.output_item.added'' then
        and_then (capture_output_item_added s obj) (\<lambda>(s, es). Inr (s, es, False))
      else if t = ''response.function_call_arguments.delta'' then
        and_then (output_item_key obj) (\<lambda>key. Inr (append_arguments key (string_or_empty obj ''delta'') s, [], False))
      else if t = ''response.output_item.done'' then
        and_then (capture_output_item_done parse s obj) (\<lambda>s. Inr (s, [], False))
      else if t = ''response.completed'' then
        and_then (capture_terminal_response parse s obj Stop) (\<lambda>s. Inr (s, [], True))
      else if t = ''response.incomplete'' then
        and_then (capture_terminal_response parse s obj Length) (\<lambda>s. Inr (s, [], True))
      else if t = ''response.failed'' then
        Inr ((capture_response_id s obj)\<lparr>cs_provider_error := Some (response_error_message obj)\<rparr>, [], True)
      else if t = ''error'' then Inr (s\<lparr>cs_provider_error := Some (response_error_message obj)\<rparr>, [], True)
      else Inr (s, [], False))"

definition process_event :: "(string \<Rightarrow> string + json) \<Rightarrow> codex_state handler" where
  "process_event parse s d =
     (if d = ''[DONE]'' then Inr (s, [], False)
      else and_then (event_object parse d) (process_object parse s))"

text \<open>\<open>finish\<close>: the first web search becomes a call of the provider, with the sources as its result.\<close>

definition search_call :: "(json \<Rightarrow> string) \<Rightarrow> (string \<times> string) list \<Rightarrow> string \<Rightarrow> tool_call" where
  "search_call print_json sources ident =
     (let results = map (\<lambda>(url, name). JObject [(''title'', JString name), (''url'', JString url)]) sources in
      \<lparr>tc_id = ident, tc_name = ''web_search'', arguments_json = ''{}'', argument_integrity = Valid,
       provisional_id = None, provider_result = Some (print_json (JObject [(''results'', JArray results)])),
       provenance = Provider\<rparr>)"

definition codex_finish :: "(json \<Rightarrow> string) \<Rightarrow> codex_state \<Rightarrow> gateway_error + gateway_response" where
  "codex_finish print_json s =
     (case cs_provider_error s of
        Some e \<Rightarrow> Inl (Rejected e)
      | None \<Rightarrow>
          Inr \<lparr>resp_content = non_empty (Some (cs_content s)),
               resp_tool_calls = cs_tool_calls s @
                 (case cs_web_search_items s of [] \<Rightarrow> [] | i # _ \<Rightarrow> [search_call print_json (cs_sources s) i]),
               resp_generation_id = cs_generation_id s,
               resp_finish_reason = cs_finish_reason s,
               resp_usage = cs_usage s,
               resp_delivery_ambiguous = False\<rparr>)"

definition consume_codex_sse ::
  "(string \<Rightarrow> string + json) \<Rightarrow> (json \<Rightarrow> string) \<Rightarrow> 'p sse_parser \<Rightarrow> body_reads \<Rightarrow> gateway_response streamed" where
  "consume_codex_sse parse print_json parser reads =
     consume_stream ''Codex'' ''terminal response event'' parser (process_event parse) (codex_finish print_json)
       reads (sse_start parser) 0 codex_initial"

subsection \<open>The gateway\<close>

record codex_config =
  cc_endpoint :: string
  cc_model :: string
  cc_access_token :: string
  cc_account_id :: string
  cc_session_id :: "string option"
  cc_originator :: string

definition default_codex_endpoint :: string where
  "default_codex_endpoint = ''https://chatgpt.com/backend-api/codex/responses''"

definition codex_endpoint_from_base :: "string option \<Rightarrow> string" where
  "codex_endpoint_from_base = endpoint_from_base default_codex_endpoint ''/codex/responses''"

definition new_codex_config :: "string \<Rightarrow> string \<Rightarrow> string \<Rightarrow> codex_config" where
  "new_codex_config model access_token account_id =
     \<lparr>cc_endpoint = default_codex_endpoint, cc_model = model, cc_access_token = access_token,
      cc_account_id = account_id, cc_session_id = None, cc_originator = ''fxrs''\<rparr>"

definition codex_headers :: "codex_config \<Rightarrow> (string \<times> string) list" where
  "codex_headers c =
     [(''content-type'', ''application/json''), (''accept'', ''text/event-stream''),
      (''authorization'', ''Bearer '' @ cc_access_token c), (''chatgpt-account-id'', cc_account_id c),
      (''originator'', cc_originator c), (''openai-beta'', ''responses=experimental''),
      (''user-agent'', fxrs_user_agent)]
     @ (case non_empty (cc_session_id c) of None \<Rightarrow> [] | Some i \<Rightarrow> [(''session_id'', i)])"

text \<open>
  \<open>complete\<close>. The client's \<open>post\<close> is a parameter: what a request to an endpoint, with headers and a body, gives
  in a world.
\<close>

definition codex_gateway ::
  "(string \<Rightarrow> string + json) \<Rightarrow> (json \<Rightarrow> string) \<Rightarrow> 'p sse_parser \<Rightarrow> 'w http_client \<Rightarrow> codex_config \<Rightarrow> 'w gateway" where
  "codex_gateway parse print_json parser post c request w =
     (if cc_access_token c = [] \<or> cc_account_id c = [] then (Inl Authentication, [], w)
      else
        case build_codex_request_body parse print_json (cc_model c) request of
          Inl e \<Rightarrow> (Inl e, [], w)
        | Inr body \<Rightarrow>
            (case post (cc_endpoint c) (codex_headers c) body w of
               (Inl e, w') \<Rightarrow> (Inl (map_send_error e), [], w')
             | (Inr reply, w') \<Rightarrow>
                 (case consume_codex_sse parse print_json parser (reply_body reply) of
                    (r, es) \<Rightarrow> (r, es, w'))))"

end
