(* ===== verification/Vercel_Stream.thy ===== *)
theory Vercel_Stream
  imports Vercel_Body Codex_Stream
begin

section \<open>The stream of a Vercel response\<close>

text \<open>
  \<open>VercelStreamState\<close>, \<open>process_vercel_event\<close>, \<open>consume_vercel_sse\<close> and the gateway, of
  \<open>fx-provider/src/transport.rs\<close>. The pending tools are the \<open>HashMap\<close>, as an association list: its order is
  never seen, as an entry is taken by its key or when it is the only candidate.
\<close>

record vercel_pending =
  vp_name :: string
  vp_arguments :: string
  vp_ended :: bool

record vercel_state =
  vs_content :: string
  vs_tool_calls :: "tool_call list"
  vs_pending :: "(string \<times> vercel_pending) list"
  vs_generation_id :: "string option"
  vs_finish_reason :: "finish_reason option"
  vs_usage :: usage
  vs_provider_error :: "string option"

definition vercel_initial :: vercel_state where
  "vercel_initial =
     \<lparr>vs_content = [], vs_tool_calls = [], vs_pending = [], vs_generation_id = None, vs_finish_reason = None,
      vs_usage = usage_default, vs_provider_error = None\<rparr>"

subsection \<open>Values\<close>

text \<open>Equality of values: objects are equal with their fields in any order.\<close>

lemma zip_sizes [termination_simp]: "(x, y) \<in> set (zip xs ys) \<Longrightarrow> size x < Suc (size_list size xs)"
  by (metis le_imp_less_Suc order_refl set_zip_leftD size_list_estimation')

fun json_eq :: "json \<Rightarrow> json \<Rightarrow> bool" where
  "json_eq (JArray xs) (JArray ys) \<longleftrightarrow> length xs = length ys \<and> (\<forall>(x, y)\<in>set (zip xs ys). json_eq x y)"
| "json_eq (JObject xs) (JObject ys) \<longleftrightarrow>
     length xs = length ys
     \<and> (\<forall>(k, v)\<in>set xs. case map_of ys k of None \<Rightarrow> False | Some w \<Rightarrow> json_eq v w)"
| "json_eq v w \<longleftrightarrow> v = w"

definition json_arguments_equivalent :: "(string \<Rightarrow> string + json) \<Rightarrow> string \<Rightarrow> string \<Rightarrow> bool" where
  "json_arguments_equivalent parse l r \<longleftrightarrow>
     l = r \<or> (case (parse l, parse r) of (Inr v, Inr w) \<Rightarrow> json_eq v w | _ \<Rightarrow> False)"

definition capture_vercel_generation_id :: "vercel_state \<Rightarrow> json_object \<Rightarrow> vercel_state" where
  "capture_vercel_generation_id s obj =
     (case non_empty (Option.bind (Option.bind (object_field obj ''providerMetadata'')
              (\<lambda>metadata. object_field metadata ''gateway'')) (\<lambda>gateway. string_field gateway ''generationId'')) of
        None \<Rightarrow> s
      | Some i \<Rightarrow> s\<lparr>vs_generation_id := or_else (vs_generation_id s) (Some i)\<rparr>)"

definition parse_vercel_usage :: "json_object \<Rightarrow> usage" where
  "parse_vercel_usage obj =
     (let u = object_field obj ''usage'';
          total_of = (\<lambda>key. Option.bind (Option.bind u (\<lambda>usage. object_field usage key)) (\<lambda>tokens. u64_field tokens ''total''))
      in \<lparr>input_tokens = total_of ''inputTokens'', output_tokens = total_of ''outputTokens''\<rparr>)"

definition vercel_error_message :: "json_object \<Rightarrow> string" where
  "vercel_error_message obj =
     (let err = object_field obj ''error'';
          code = Option.bind err (\<lambda>e. string_field e ''code'');
          message = unwrap_or ''Vercel provider reported an error''
            (or_else (Option.bind err (\<lambda>e. string_field e ''message'')) (string_field obj ''message'')) in
      case code of None \<Rightarrow> message | Some code \<Rightarrow> code @ '': '' @ message)"

subsection \<open>Tool calls\<close>

definition has_call :: "string \<Rightarrow> tool_call list \<Rightarrow> bool" where
  "has_call i calls \<longleftrightarrow> i \<in> tc_id ` set calls"

definition start_tool :: "vercel_state \<Rightarrow> json_object \<Rightarrow> gateway_error + vercel_state \<times> gateway_event list" where
  "start_tool s obj =
     and_then (required_string obj ''id'') (\<lambda>i.
     and_then (required_string obj ''toolName'') (\<lambda>name.
       if map_of (vs_pending s) i \<noteq> None \<or> has_call i (vs_tool_calls s)
       then Inl (InvalidResponse (''duplicate Vercel tool input `'' @ i @ ''`''))
       else
         Inr (s\<lparr>vs_pending := AList.update i \<lparr>vp_name = name, vp_arguments = [], vp_ended = False\<rparr> (vs_pending s)\<rparr>,
              [GatewayToolStarted i name])))"

text \<open>A change of a pending tool that must be there.\<close>

definition change_pending ::
  "vercel_state \<Rightarrow> string \<Rightarrow> string \<Rightarrow> (vercel_pending \<Rightarrow> vercel_pending) \<Rightarrow> gateway_error + vercel_state" where
  "change_pending s what i f =
     (case map_of (vs_pending s) i of
        None \<Rightarrow> Inl (InvalidResponse (''Vercel tool input '' @ what @ '' has no start event for `'' @ i @ ''`''))
      | Some v \<Rightarrow> Inr (s\<lparr>vs_pending := AList.update i (f v) (vs_pending s)\<rparr>))"

definition final_arguments :: "(json \<Rightarrow> string) \<Rightarrow> json_object \<Rightarrow> string option" where
  "final_arguments print_json obj =
     (case map_of obj ''input'' of
        None \<Rightarrow> None | Some (JString v) \<Rightarrow> Some v | Some v \<Rightarrow> Some (print_json v))"

definition is_candidate ::
  "(string \<Rightarrow> string + json) \<Rightarrow> string option \<Rightarrow> string option \<Rightarrow> vercel_pending \<Rightarrow> bool" where
  "is_candidate parse name args v \<longleftrightarrow>
     vp_ended v \<and> (case name of None \<Rightarrow> True | Some n \<Rightarrow> n = vp_name v)
     \<and> (case args of None \<Rightarrow> True | Some a \<Rightarrow> json_arguments_equivalent parse a (vp_arguments v))"

text \<open>The pending tool that a call completes: the one with its id, or the only ended one that agrees with it.\<close>

definition pending_for ::
  "(string \<Rightarrow> string + json) \<Rightarrow> (string \<times> vercel_pending) list \<Rightarrow> string \<Rightarrow> string option \<Rightarrow> string option \<Rightarrow>
     string option" where
  "pending_for parse pending i name args =
     (if map_of pending i \<noteq> None then Some i
      else
        case map fst (filter (\<lambda>(k, v). is_candidate parse name args v) pending) of
          [k] \<Rightarrow> Some k
        | _ \<Rightarrow> None)"

definition finished_call ::
  "(string \<Rightarrow> string + json) \<Rightarrow> json_object \<Rightarrow> string \<Rightarrow> string \<Rightarrow> string \<Rightarrow> string option \<Rightarrow> tool_call" where
  "finished_call parse obj i name args pending_id =
     \<lparr>tc_id = i, tc_name = name, arguments_json = args, argument_integrity = integrity_of parse args,
      provisional_id = (if pending_id = Some i then None else pending_id), provider_result = None,
      provenance = (if map_of obj ''providerExecuted'' = Some (JBool True) then Provider else FxLocal)\<rparr>"

definition capture_vercel_tool_call ::
  "(string \<Rightarrow> string + json) \<Rightarrow> (json \<Rightarrow> string) \<Rightarrow> vercel_state \<Rightarrow> json_object \<Rightarrow>
     gateway_error + vercel_state \<times> gateway_event list" where
  "capture_vercel_tool_call parse print_json s obj =
     and_then (required_string obj ''toolCallId'') (\<lambda>i.
       if has_call i (vs_tool_calls s) then Inl (InvalidResponse (''duplicate Vercel tool call `'' @ i @ ''`''))
       else
         let final_name = non_empty (string_field obj ''toolName'');
             final_args = final_arguments print_json obj;
             pending_id = pending_for parse (vs_pending s) i final_name final_args;
             pending = Option.bind pending_id (map_of (vs_pending s));
             rest = (case pending_id of None \<Rightarrow> vs_pending s | Some k \<Rightarrow> AList.delete k (vs_pending s)) in
         if (case (final_name, pending) of (Some n, Some v) \<Rightarrow> n \<noteq> vp_name v | _ \<Rightarrow> False)
         then Inl (InvalidResponse (''Vercel tool call `'' @ i @ ''` changed its streamed tool name''))
         else
           and_then (ok_or (InvalidResponse ''Vercel tool name is missing'')
               (or_else final_name (map_option vp_name pending))) (\<lambda>name.
             let args = unwrap_or (unwrap_or ''{}'' (non_empty (map_option vp_arguments pending))) final_args in
             Inr (s\<lparr>vs_pending := rest,
                    vs_tool_calls := vs_tool_calls s @ [finished_call parse obj i name args pending_id]\<rparr>,
                  if pending = None then [GatewayToolStarted i name] else [])))"

text \<open>The result of a call that the provider executed: it is set in the first call with the id.\<close>

fun set_result :: "string \<Rightarrow> string \<Rightarrow> tool_call list \<Rightarrow> tool_call list" where
  "set_result i r [] = []"
| "set_result i r (call # calls) =
     (if tc_id call = i then call\<lparr>provider_result := Some r\<rparr> # calls else call # set_result i r calls)"

definition capture_vercel_tool_result ::
  "(json \<Rightarrow> string) \<Rightarrow> vercel_state \<Rightarrow> json_object \<Rightarrow> gateway_error + vercel_state" where
  "capture_vercel_tool_result print_json s obj =
     and_then (required_string obj ''toolCallId'') (\<lambda>i.
     and_then (ok_or (InvalidResponse (''Vercel tool result has no matching call `'' @ i @ ''`''))
         (find (\<lambda>call. tc_id call = i) (vs_tool_calls s))) (\<lambda>call.
       if provenance call \<noteq> Provider
       then Inl (InvalidResponse (''Vercel returned a result for locally executed tool `'' @ i @ ''`''))
       else
         and_then (ok_or (InvalidResponse (''Vercel tool result `'' @ i @ ''` is missing'')) (map_of obj ''result'')) (\<lambda>v.
           Inr (s\<lparr>vs_tool_calls := set_result i (print_json v) (vs_tool_calls s)\<rparr>))))"

subsection \<open>Events\<close>

definition finish_stream :: "vercel_state \<Rightarrow> json_object \<Rightarrow> gateway_error + vercel_state" where
  "finish_stream s obj =
     and_then (ok_or (InvalidResponse ''Vercel finish reason is missing'')
         (Option.bind (object_field obj ''finishReason'') (\<lambda>r. string_field r ''unified''))) (\<lambda>reason.
     and_then
       (if reason = ''stop'' then Inr (s\<lparr>vs_finish_reason := Some Stop\<rparr>)
        else if reason = ''length'' then Inr (s\<lparr>vs_finish_reason := Some Length\<rparr>)
        else if reason = ''content-filter'' then Inr (s\<lparr>vs_finish_reason := Some ContentFilter\<rparr>)
        else if reason = ''tool-calls'' then Inr (s\<lparr>vs_finish_reason := Some ToolCalls\<rparr>)
        else if reason = ''error'' then
          Inr (s\<lparr>vs_provider_error := or_else (vs_provider_error s)
                   (Some (unwrap_or ''Vercel provider reported an error''
                      (Option.bind (object_field obj ''finishReason'') (\<lambda>r. string_field r ''raw'')))),
                 vs_finish_reason := Some FinishError\<rparr>)
        else if reason = ''other'' then Inr (s\<lparr>vs_finish_reason := Some Other\<rparr>)
        else Inl (InvalidResponse (''unknown Vercel finish reason `'' @ reason @ ''`''))) (\<lambda>s.
       Inr (s\<lparr>vs_usage := parse_vercel_usage obj\<rparr>)))"

definition process_vercel_object ::
  "(string \<Rightarrow> string + json) \<Rightarrow> (json \<Rightarrow> string) \<Rightarrow> vercel_state \<Rightarrow> json_object \<Rightarrow>
     gateway_error + vercel_state \<times> gateway_event list \<times> bool" where
  "process_vercel_object parse print_json s obj =
     (let t = event_type obj in
      if t = ''text-delta'' then
        (case string_field obj ''delta'' of
           None \<Rightarrow> Inr (s, [], False)
         | Some delta \<Rightarrow>
             Inr (s\<lparr>vs_content := vs_content s @ delta\<rparr>, if delta \<noteq> [] then [ContentDelta delta] else [], False))
      else if t = ''reasoning-delta'' then
        Inr (s, case non_empty (string_field obj ''delta'') of None \<Rightarrow> [] | Some delta \<Rightarrow> [ReasoningDelta delta], False)
      else if t = ''tool-input-start'' then and_then (start_tool s obj) (\<lambda>(s, es). Inr (s, es, False))
      else if t = ''tool-input-delta'' then
        and_then (required_string obj ''id'') (\<lambda>i.
        and_then (change_pending s ''delta'' i
            (\<lambda>v. v\<lparr>vp_arguments := vp_arguments v @ string_or_empty obj ''delta''\<rparr>)) (\<lambda>s. Inr (s, [], False)))
      else if t = ''tool-input-end'' then
        and_then (required_string obj ''id'') (\<lambda>i.
        and_then (change_pending s ''end'' i (\<lambda>v. v\<lparr>vp_ended := True\<rparr>)) (\<lambda>s. Inr (s, [], False)))
      else if t = ''tool-call'' then
        and_then (capture_vercel_tool_call parse print_json s obj) (\<lambda>(s, es). Inr (s, es, False))
      else if t = ''tool-result'' then
        and_then (capture_vercel_tool_result print_json s obj) (\<lambda>s. Inr (s, [], False))
      else if t = ''error'' then Inr (s\<lparr>vs_provider_error := Some (vercel_error_message obj)\<rparr>, [], False)
      else if t = ''finish'' then and_then (finish_stream s obj) (\<lambda>s. Inr (s, [], True))
      else Inr (s, [], False))"

definition process_vercel_event ::
  "(string \<Rightarrow> string + json) \<Rightarrow> (json \<Rightarrow> string) \<Rightarrow> vercel_state handler" where
  "process_vercel_event parse print_json s d =
     (if d = ''[DONE]'' then Inr (s, [], False)
      else
        and_then (event_object parse d) (\<lambda>obj.
          process_vercel_object parse print_json (capture_vercel_generation_id s obj) obj))"

definition vercel_finish :: "vercel_state \<Rightarrow> gateway_error + gateway_response" where
  "vercel_finish s =
     (case vs_provider_error s of
        Some e \<Rightarrow> Inl (Rejected e)
      | None \<Rightarrow>
          if vs_pending s \<noteq> [] then Inl (InvalidResponse ''Vercel stream ended with an unfinished tool input'')
          else
            Inr \<lparr>resp_content = non_empty (Some (vs_content s)), resp_tool_calls = vs_tool_calls s,
                 resp_generation_id = vs_generation_id s, resp_finish_reason = vs_finish_reason s,
                 resp_usage = vs_usage s, resp_delivery_ambiguous = False\<rparr>)"

definition consume_vercel_sse ::
  "(string \<Rightarrow> string + json) \<Rightarrow> (json \<Rightarrow> string) \<Rightarrow> 'p sse_parser \<Rightarrow> body_reads \<Rightarrow> gateway_response streamed" where
  "consume_vercel_sse parse print_json parser reads =
     consume_stream ''Vercel'' ''finish event'' parser (process_vercel_event parse print_json) vercel_finish
       reads (sse_start parser) 0 vercel_initial"

subsection \<open>Error replies\<close>

definition vercel_http_error_detail :: "json \<Rightarrow> string option" where
  "vercel_http_error_detail v =
     Option.bind (as_object v) (\<lambda>obj.
       let err = map_of obj ''error'';
           err_obj = Option.bind err as_object;
           code = or_else (Option.bind err_obj (\<lambda>e. string_field e ''code'')) (string_field obj ''code'');
           message =
             or_else (or_else (or_else (Option.bind err_obj (\<lambda>e. string_field e ''message'')) (Option.bind err as_str))
               (string_field obj ''message'')) (string_field obj ''error_description'') in
       case (code, message) of
         (Some code, Some message) \<Rightarrow> Some (code @ '': '' @ message)
       | (Some code, None) \<Rightarrow> Some code
       | (None, Some message) \<Rightarrow> Some message
       | (None, None) \<Rightarrow> None)"

text \<open>
  \<open>is_control\<close> is true of U+0000 to U+001F and U+007F to U+009F; the latter are two bytes, C2 and a byte from
  80 to 9F. Each becomes a space.
\<close>

fun replace_controls :: "string \<Rightarrow> string" where
  "replace_controls [] = []"
| "replace_controls [c] = [if byte_of c < 32 \<or> byte_of c = 127 then CHR 0x20 else c]"
| "replace_controls (c # d # s) =
     (if byte_of c = 194 \<and> byte_of d < 160 then CHR 0x20 # replace_controls s
      else (if byte_of c < 32 \<or> byte_of c = 127 then CHR 0x20 else c) # replace_controls (d # s))"

definition max_detail_chars :: nat where "max_detail_chars = 1024"

definition count_chars :: "string \<Rightarrow> nat" where
  "count_chars s = length (filter (\<lambda>c. \<not> is_cont c) s)"

definition sanitize_error_detail :: "string \<Rightarrow> string" where
  "sanitize_error_detail detail =
     take_chars max_detail_chars (replace_controls detail)
     @ (if max_detail_chars < count_chars detail then [CHR 0xE2, CHR 0x80, CHR 0xA6] else [])"

definition vercel_http_status_error :: "(string \<Rightarrow> string + json) \<Rightarrow> nat \<Rightarrow> string \<Rightarrow> gateway_error" where
  "vercel_http_status_error parse status body =
     (let parsed = (case parse body of Inl _ \<Rightarrow> None | Inr v \<Rightarrow> Some v);
          detail = map_option sanitize_error_detail
            (or_else (Option.bind parsed vercel_http_error_detail)
               (if valid_utf8 body then non_empty (Some (trim body)) else None));
          message = ''Vercel Gateway returned HTTP '' @ show_nat status
            @ (case detail of None \<Rightarrow> [] | Some d \<Rightarrow> '': '' @ d) in
      if status = 401 then Authentication else Rejected message)"

subsection \<open>The gateway\<close>

definition max_error_body_bytes :: nat where "max_error_body_bytes = 64 * 1024"

definition vercel_headers :: "vercel_config \<Rightarrow> (string \<times> string) list" where
  "vercel_headers c =
     [(''content-type'', ''application/json''), (''accept'', ''text/event-stream''),
      (''authorization'', ''Bearer '' @ vc_access_token c),
      (''http-referer'', ''https://github.com/Leeeon233/fx-rs''), (''x-title'', ''fxrs''),
      (''ai-gateway-protocol-version'', ''0.0.1''), (''ai-language-model-specification-version'', ''4''),
      (''ai-language-model-id'', vc_model c), (''ai-language-model-streaming'', ''true''),
      (''user-agent'', fxrs_user_agent)]
     @ (case non_empty (vc_team_id c) of None \<Rightarrow> [] | Some t \<Rightarrow> [(''x-vercel-ai-gateway-team'', t)])
     @ (case non_empty (vc_session_id c) of
          None \<Rightarrow> [] | Some i \<Rightarrow> [(''x-session-id'', i), (''x-session-affinity'', i)])"

definition vercel_gateway ::
  "(string \<Rightarrow> string + json) \<Rightarrow> (json \<Rightarrow> string) \<Rightarrow> 'p sse_parser \<Rightarrow> 'w http_client \<Rightarrow> vercel_config \<Rightarrow> 'w gateway" where
  "vercel_gateway parse print_json parser post c request w =
     (if vc_access_token c = [] then (Inl Authentication, [], w)
      else
        case build_vercel_request_body parse print_json c request of
          Inl e \<Rightarrow> (Inl e, [], w)
        | Inr body \<Rightarrow>
            (case post (vc_endpoint c) (vercel_headers c) body w of
               (Inl e, w') \<Rightarrow> (Inl (map_send_error e), [], w')
             | (Inr reply, w') \<Rightarrow>
                 if reply_status reply \<noteq> 200 then
                   (case reply_to_vec reply max_error_body_bytes of
                      None \<Rightarrow> (Inl PossiblySent, [], w')
                    | Some body \<Rightarrow> (Inl (vercel_http_status_error parse (reply_status reply) body), [], w'))
                 else
                   (case consume_vercel_sse parse print_json parser (reply_body reply) of (r, es) \<Rightarrow> (r, es, w'))))"

end
