(* ===== verification/Codex_Response.thy ===== *)
theory Codex_Response
  imports Codex_Stream
begin

section \<open>What a Codex response says\<close>

text \<open>The invariant of the stream's state, and the response that comes of it.\<close>

definition local_call :: "(string \<Rightarrow> string + json) \<Rightarrow> tool_call \<Rightarrow> bool" where
  "local_call parse call \<longleftrightarrow> provenance call = FxLocal \<and> argument_integrity call = integrity_of parse (arguments_json call)
     \<and> provisional_id call = None \<and> provider_result call = None"

definition codex_good :: "(string \<Rightarrow> string + json) \<Rightarrow> codex_state \<Rightarrow> gateway_event list \<Rightarrow> bool" where
  "codex_good parse s es \<longleftrightarrow>
     cs_provider_error s = None
   \<and> (if cs_text_was_streamed s then suffix (streamed_text es) (cs_content s) else streamed_text es = [])
   \<and> distinct (map tc_id (cs_tool_calls s)) \<and> list_all (local_call parse) (cs_tool_calls s)"

definition codex_final :: "(string \<Rightarrow> string + json) \<Rightarrow> codex_state \<Rightarrow> gateway_event list \<Rightarrow> bool" where
  "codex_final parse s es \<longleftrightarrow>
     cs_provider_error s \<noteq> None
   \<or> (codex_good parse s es \<and> cs_finish_reason s \<noteq> None
      \<and> (cs_finish_reason s = Some ToolCalls \<longleftrightarrow> cs_tool_calls s \<noteq> []))"

named_theorems codex_good_intros

lemma good_response_id [codex_good_intros]: "codex_good parse s es \<Longrightarrow> codex_good parse (capture_response_id s obj) es"
  by (auto simp: codex_good_def capture_response_id_def split: option.splits)

lemma good_message_item [codex_good_intros]: "codex_good parse s es \<Longrightarrow> codex_good parse (capture_message_item s item) es"
  by (auto simp: codex_good_def capture_message_item_def Let_def split: option.splits prod.splits)

lemma good_web_search [codex_good_intros]: "codex_good parse s es \<Longrightarrow> codex_good parse (add_web_search i s) es"
  by (simp add: codex_good_def add_web_search_def)

lemma good_arguments [codex_good_intros]: "codex_good parse s es \<Longrightarrow> codex_good parse (append_arguments k d s) es"
  by (auto simp: codex_good_def append_arguments_def split: option.splits)

lemma good_finish_function:
  "codex_good parse s es \<Longrightarrow> finish_function parse s item = Inr s' \<Longrightarrow> codex_good parse s' es"
  by (auto simp: codex_good_def finish_function_def Let_def and_then_Inr_iff local_call_def split: if_splits)

lemma good_added:
  "codex_good parse s es \<Longrightarrow> capture_output_item_added s obj = Inr (s', new) \<Longrightarrow> codex_good parse s' (es @ new)"
  by (auto simp: capture_output_item_added_def and_then_Inr_iff intro: codex_good_intros split: if_splits)
    (simp add: codex_good_def)

lemma good_done:
  "codex_good parse s es \<Longrightarrow> capture_output_item_done parse s obj = Inr s' \<Longrightarrow> codex_good parse s' es"
  by (auto simp: capture_output_item_done_def and_then_Inr_iff intro: codex_good_intros good_finish_function
      split: if_splits)

lemma good_output: "codex_good parse s es \<Longrightarrow> capture_output parse s item = Inr s' \<Longrightarrow> codex_good parse s' es"
  by (auto simp: capture_output_def Let_def intro: codex_good_intros good_finish_function split: if_splits option.splits)

lemma good_outputs:
  "codex_good parse s es \<Longrightarrow> capture_outputs parse s items = Inr s' \<Longrightarrow> codex_good parse s' es"
  by (induction items arbitrary: s) (auto simp: and_then_Inr_iff dest: good_output)

lemma has_local_call_good: "codex_good parse s es \<Longrightarrow> has_local_call (cs_tool_calls s) \<longleftrightarrow> cs_tool_calls s \<noteq> []"
  by (cases "cs_tool_calls s") (auto simp: codex_good_def has_local_call_def local_call_def)

lemma good_terminal:
  assumes "codex_good parse s es" and "capture_terminal_response parse s obj fallback = Inr s'" and "fallback \<noteq> ToolCalls"
  shows "codex_final parse s' es"
proof -
  from assms(2) obtain response s1 where s1: "(case array_field response ''output'' of
        None \<Rightarrow> Inr (capture_response_id s obj)
      | Some output \<Rightarrow> capture_outputs parse (capture_response_id s obj) (List.map_filter as_object output)) = Inr s1"
    "s' = s1\<lparr>cs_usage := parse_usage response, cs_finish_reason := Some
       (if has_local_call (cs_tool_calls s1) then ToolCalls
        else if fallback = Length then parse_incomplete_reason response else fallback)\<rparr>"
    by (auto simp: capture_terminal_response_def Let_def and_then_Inr_iff)
  have g: "codex_good parse s1 es"
    using s1(1) good_response_id [OF assms(1), of obj] by (auto intro: good_outputs split: option.splits)
  then have "codex_good parse s' es" by (simp add: s1(2) codex_good_def)
  with has_local_call_good [OF g] assms(3) show ?thesis
    by (auto simp: codex_final_def s1(2) parse_incomplete_reason_def)
qed

text \<open>The errors of the handler.\<close>

lemma and_then_error: "and_then r f = Inl e \<Longrightarrow> (r = Inl e \<Longrightarrow> P) \<Longrightarrow> (\<And>a. r = Inr a \<Longrightarrow> f a = Inl e \<Longrightarrow> P) \<Longrightarrow> P"
  by (auto simp: and_then_Inl_iff)

lemma stream_errors:
  "required_string obj f = Inl e \<Longrightarrow> after_delivery e"
  "output_item_key obj = Inl e \<Longrightarrow> after_delivery e"
  "event_object parse d = Inl e \<Longrightarrow> after_delivery e"
  "ok_or (InvalidResponse m) r = Inl e \<Longrightarrow> after_delivery e"
  by (auto simp: required_string_def output_item_key_def event_object_def ok_or_def after_delivery_def map_err_def
      and_then_Inl_iff split: option.splits sum.splits)

lemma finish_function_error: "finish_function parse s item = Inl e \<Longrightarrow> after_delivery e"
  by (auto simp: finish_function_def Let_def after_delivery_def elim!: and_then_error dest: stream_errors [unfolded after_delivery_def]
      split: if_splits)

lemma added_error: "capture_output_item_added s obj = Inl e \<Longrightarrow> after_delivery e"
  by (auto simp: capture_output_item_added_def elim!: and_then_error dest: stream_errors split: if_splits)

lemma done_error: "capture_output_item_done parse s obj = Inl e \<Longrightarrow> after_delivery e"
  by (auto simp: capture_output_item_done_def elim!: and_then_error dest: stream_errors finish_function_error split: if_splits)

lemma outputs_error: "capture_outputs parse s items = Inl e \<Longrightarrow> after_delivery e"
  by (induction items arbitrary: s)
    (auto simp: capture_output_def Let_def elim!: and_then_error dest: finish_function_error split: if_splits option.splits)

lemma terminal_error: "capture_terminal_response parse s obj fallback = Inl e \<Longrightarrow> after_delivery e"
  by (auto simp: capture_terminal_response_def Let_def elim!: and_then_error dest: stream_errors outputs_error
      split: option.splits)

lemma process_event_error: "process_event parse s d = Inl e \<Longrightarrow> after_delivery e"
  by (auto simp: process_event_def process_object_def Let_def elim!: and_then_error
      dest: stream_errors added_error done_error terminal_error split: if_splits)

lemma good_delta:
  "codex_good parse s es \<Longrightarrow>
     codex_good parse (s\<lparr>cs_content := cs_content s @ delta, cs_text_was_streamed := True\<rparr>)
       (es @ (if delta \<noteq> [] then [ContentDelta delta] else []))"
  by (auto simp: codex_good_def suffix_def split: if_splits)

lemma good_reasoning: "codex_good parse s es \<Longrightarrow> codex_good parse s (es @ [ReasoningDelta d])"
  by (simp add: codex_good_def)

lemma process_object_good:
  assumes g: "codex_good parse s es" and p: "process_object parse s obj = Inr (s', new, complete)"
  shows "if complete then codex_final parse s' (es @ new) else codex_good parse s' (es @ new)"
proof -
  note unfolded = p [unfolded process_object_def Let_def]
  consider "event_type obj = ''response.created'' \<or> event_type obj = ''response.in_progress''"
    | "event_type obj = ''response.output_text.delta''"
    | "event_type obj = ''response.reasoning_summary_text.delta'' \<or> event_type obj = ''response.reasoning_text.delta''"
    | "event_type obj = ''response.output_item.added''"
    | "event_type obj = ''response.function_call_arguments.delta''"
    | "event_type obj = ''response.output_item.done''"
    | "event_type obj = ''response.completed''" | "event_type obj = ''response.incomplete''"
    | "event_type obj = ''response.failed''" | "event_type obj = ''error''"
    | "s' = s" "new = []" "\<not> complete"
    using unfolded by (fastforce split: if_split_asm)
  then show ?thesis
  proof cases
    case 1
    with unfolded good_response_id [OF g] show ?thesis by auto
  next
    case 2
    with unfolded good_delta [OF g, of "string_or_empty obj ''delta''"] show ?thesis by auto
  next
    case 3
    with unfolded g good_reasoning [OF g] show ?thesis by (auto split: option.splits)
  next
    case 4
    with unfolded good_added [OF g] show ?thesis by (auto simp: and_then_Inr_iff)
  next
    case 5
    with unfolded good_arguments [OF g] show ?thesis by (auto simp: and_then_Inr_iff)
  next
    case 6
    with unfolded good_done [OF g] show ?thesis by (auto simp: and_then_Inr_iff)
  next
    case 7
    with unfolded good_terminal [OF g] show ?thesis by (auto simp: and_then_Inr_iff)
  next
    case 8
    with unfolded good_terminal [OF g] show ?thesis by (auto simp: and_then_Inr_iff)
  next
    case 9
    with unfolded show ?thesis by (auto simp: codex_final_def)
  next
    case 10
    with unfolded show ?thesis by (auto simp: codex_final_def)
  next
    case 11
    with g show ?thesis by simp
  qed
qed

lemma process_event_good:
  assumes "codex_good parse s es" and "process_event parse s d = Inr (s', new, complete)"
  shows "if complete then codex_final parse s' (es @ new) else codex_good parse s' (es @ new)"
proof (cases "d = ''[DONE]''")
  case True
  with assms show ?thesis by (simp add: process_event_def)
next
  case False
  with assms(2) obtain obj where "process_object parse s obj = Inr (s', new, complete)"
    by (auto simp: process_event_def and_then_Inr_iff)
  with process_object_good [OF assms(1)] show ?thesis .
qed

interpretation codex: stream_handler
  "process_event parse" "codex_finish print_json" codex_initial "codex_good parse" "codex_final parse"
  for parse print_json
proof
  show "codex_good parse codex_initial []" by (simp add: codex_good_def codex_initial_def)
next
  fix s es d s' new
  assume "codex_good parse s es"
  note g = process_event_good [OF this]
  show "process_event parse s d = Inr (s', new, False) \<Longrightarrow> codex_good parse s' (es @ new)" using g by force
  show "process_event parse s d = Inr (s', new, True) \<Longrightarrow> codex_final parse s' (es @ new)" using g by force
next
  show "process_event parse s d = Inl e \<Longrightarrow> after_delivery e" for s d e by (rule process_event_error)
  show "codex_finish print_json s = Inl e \<Longrightarrow> after_delivery e" for s e
    by (auto simp: codex_finish_def after_delivery_def split: option.splits)
qed

text \<open>
  C21. A Codex response agrees with what was streamed: its content ends with the streamed text; its local calls
  have distinct ids, are marked malformed exactly when their arguments are no JSON, and carry no result; at most
  one call of the provider follows them; the finish reason is there, and is \<open>ToolCalls\<close> exactly when a local
  call is.
\<close>

theorem codex_response_agrees_with_stream:
  assumes "consume_codex_sse parse print_json parser reads = (Inr resp, es)"
  shows "suffix (streamed_text es) (unwrap_or [] (resp_content resp))
    \<and> distinct (map tc_id (filter (\<lambda>call. provenance call = FxLocal) (resp_tool_calls resp)))
    \<and> list_all (local_call parse) (filter (\<lambda>call. provenance call = FxLocal) (resp_tool_calls resp))
    \<and> length (filter (\<lambda>call. provenance call = Provider) (resp_tool_calls resp)) \<le> 1
    \<and> resp_finish_reason resp \<noteq> None
    \<and> (resp_finish_reason resp = Some ToolCalls) = has_local_call (resp_tool_calls resp)"
proof -
  from codex.response_good [OF assms [unfolded consume_codex_sse_def]]
  obtain s :: codex_state where s: "codex_final parse s es" "codex_finish print_json s = Inr resp" by blast
  define search where "search =
    (case cs_web_search_items s of [] \<Rightarrow> [] | i # _ \<Rightarrow> [search_call print_json (cs_sources s) i])"
  from s(2) have f: "cs_provider_error s = None" "resp_content resp = non_empty (Some (cs_content s))"
    "resp_tool_calls resp = cs_tool_calls s @ search" "resp_finish_reason resp = cs_finish_reason s"
    by (auto simp: codex_finish_def search_def split: option.splits)
  with s(1) have g: "codex_good parse s es" "cs_finish_reason s \<noteq> None"
    "cs_finish_reason s = Some ToolCalls \<longleftrightarrow> cs_tool_calls s \<noteq> []" by (auto simp: codex_final_def)
  have search: "filter (\<lambda>call. provenance call = FxLocal) search = []" "length search \<le> 1"
    by (auto simp: search_def search_call_def Let_def split: list.splits)
  have "\<forall>call\<in>set (cs_tool_calls s). provenance call = FxLocal"
    using g(1) by (auto simp: codex_good_def local_call_def list_all_iff)
  then have "filter (\<lambda>call. provenance call = FxLocal) (cs_tool_calls s) = cs_tool_calls s"
    "filter (\<lambda>call. provenance call = Provider) (cs_tool_calls s) = []"
    by (auto simp: filter_id_conv filter_empty_conv)
  moreover have "suffix (streamed_text es) (unwrap_or [] (resp_content resp))"
    using g(1) by (cases "cs_content s") (auto simp: f codex_good_def split: if_splits)
  moreover have "length (filter P search) \<le> 1" for P
    using order_trans [OF length_filter_le search(2)] by simp
  ultimately show ?thesis using g search
    by (simp add: f codex_good_def has_local_call_def)
qed

text \<open>A stream of a delta and the end of the response.\<close>

definition codex_sample_parse :: "string \<Rightarrow> string + json" where
  "codex_sample_parse s =
     (if s = ''t'' then
        Inr (JObject [(''type'', JString ''response.output_text.delta''), (''delta'', JString ''hi'')])
      else if s = ''e'' then Inr (JObject [(''type'', JString ''response.completed''), (''response'', JObject [])])
      else Inl ''expected value'')"

definition codex_sample_response :: gateway_response where
  "codex_sample_response =
     \<lparr>resp_content = Some ''hi'', resp_tool_calls = [], resp_generation_id = None, resp_finish_reason = Some Stop,
      resp_usage = usage_default, resp_delivery_ambiguous = False\<rparr>"

lemma codex_sample_events:
  "process_event codex_sample_parse codex_initial ''t'' =
     Inr (codex_initial\<lparr>cs_content := ''hi'', cs_text_was_streamed := True\<rparr>, [ContentDelta ''hi''], False)"
  "process_event codex_sample_parse (codex_initial\<lparr>cs_content := ''hi'', cs_text_was_streamed := True\<rparr>) ''e'' =
     Inr (codex_initial\<lparr>cs_content := ''hi'', cs_text_was_streamed := True, cs_finish_reason := Some Stop\<rparr>, [], True)"
  by (simp_all add: process_event_def process_object_def codex_sample_parse_def event_object_def as_object_def
      event_type_def string_or_empty_def string_field_def codex_initial_def capture_terminal_response_def Let_def
      object_field_def capture_response_id_def array_field_def has_local_call_def parse_usage_def usage_default_def)

lemma codex_sample_stream:
  "consume_codex_sse codex_sample_parse print_json line_parser [Inr [CHR ''t'', CHR 0x0A, CHR ''e'', CHR 0x0A]] =
     (Inr codex_sample_response, [ContentDelta ''hi''])"
proof -
  have h: "handle_events ''Codex'' (process_event codex_sample_parse) codex_initial [''t'', ''e''] =
      (Inr (codex_initial\<lparr>cs_content := ''hi'', cs_text_was_streamed := True, cs_finish_reason := Some Stop\<rparr>, True),
       [ContentDelta ''hi''])"
    by (simp add: codex_sample_events max_event_bytes_def emitting_def)
  have f: "codex_finish print_json (codex_initial\<lparr>cs_content := ''hi'', cs_text_was_streamed := True,
      cs_finish_reason := Some Stop\<rparr>) = Inr codex_sample_response"
    by (simp add: codex_finish_def codex_initial_def codex_sample_response_def)
  show ?thesis
    by (simp add: consume_codex_sse_def line_parser_def max_stream_bytes_def sat_add_def usize_max_def
        after_events_def h f del: handle_events.simps)
qed

theorem codex_response_agrees_with_stream_witness:
  "suffix (streamed_text [ContentDelta ''hi'']) (unwrap_or [] (resp_content codex_sample_response))"
  using codex_response_agrees_with_stream [OF codex_sample_stream] by blast

end
