(* ===== verification/Vercel_Response.thy ===== *)
theory Vercel_Response
  imports Vercel_Stream Codex_Response "HOL-Library.Multiset"
begin

section \<open>What a Vercel response says\<close>

text \<open>
  The invariant of the stream's state: the content is the streamed text, and each announced tool is pending or has
  become exactly one call, under its own id or as the provisional id of the call.
\<close>

definition announced_as :: "tool_call \<Rightarrow> string" where
  "announced_as call = unwrap_or (tc_id call) (provisional_id call)"

definition vercel_call :: "(string \<Rightarrow> string + json) \<Rightarrow> tool_call \<Rightarrow> bool" where
  "vercel_call parse call \<longleftrightarrow>
     argument_integrity call = integrity_of parse (arguments_json call)
   \<and> (provider_result call = None \<or> provenance call = Provider)"

definition pending_ids :: "(string \<times> vercel_pending) list \<Rightarrow> string multiset" where
  "pending_ids ps = mset (map fst ps)"

definition call_ids :: "tool_call list \<Rightarrow> string multiset" where
  "call_ids calls = mset (map announced_as calls)"

definition vercel_good :: "(string \<Rightarrow> string + json) \<Rightarrow> vercel_state \<Rightarrow> gateway_event list \<Rightarrow> bool" where
  "vercel_good parse s es \<longleftrightarrow>
     vs_content s = streamed_text es
   \<and> distinct (map fst (vs_pending s))
   \<and> mset (announced_ids es) = pending_ids (vs_pending s) + call_ids (vs_tool_calls s)
   \<and> distinct (map tc_id (vs_tool_calls s)) \<and> list_all (vercel_call parse) (vs_tool_calls s)"

definition vercel_final :: "(string \<Rightarrow> string + json) \<Rightarrow> vercel_state \<Rightarrow> gateway_event list \<Rightarrow> bool" where
  "vercel_final parse s es \<longleftrightarrow> vercel_good parse s es \<and> vs_finish_reason s \<noteq> None"

lemma good_generation_id: "vercel_good parse s es \<Longrightarrow> vercel_good parse (capture_vercel_generation_id s obj) es"
  by (auto simp: vercel_good_def capture_vercel_generation_id_def split: option.splits)

lemma pending_ids_update:
  "pending_ids (AList.update k v ps) = (if k \<in> fst ` set ps then pending_ids ps else add_mset k (pending_ids ps))"
  by (simp add: pending_ids_def update_keys del: mset_map)

lemma good_start:
  "vercel_good parse s es \<Longrightarrow> start_tool s obj = Inr (s', new) \<Longrightarrow> vercel_good parse s' (es @ new)"
  by (auto simp: vercel_good_def start_tool_def and_then_Inr_iff pending_ids_update distinct_update map_of_eq_None_iff
      split: if_splits)

lemma good_change:
  assumes "vercel_good parse s es" and "change_pending s what i f = Inr s'"
  shows "vercel_good parse s' es"
proof -
  from assms(2) obtain v where v: "map_of (vs_pending s) i = Some v"
    "s' = s\<lparr>vs_pending := AList.update i (f v) (vs_pending s)\<rparr>"
    by (auto simp: change_pending_def split: option.splits)
  from v(1) have "i \<in> fst ` set (vs_pending s)" by (metis domI dom_map_of_conv_image_fst)
  with assms(1) show ?thesis by (simp add: v(2) vercel_good_def pending_ids_update distinct_update)
qed

lemma pending_for_Some:
  assumes "pending_for parse pending i name args = Some k"
  shows "k \<in> fst ` set pending"
proof (cases "map_of pending i")
  case None
  with assms have "map fst (filter (\<lambda>(k, v). is_candidate parse name args v) pending) = [k]"
    by (auto simp: pending_for_def split: list.splits)
  then have "k \<in> fst ` set (filter (\<lambda>(k, v). is_candidate parse name args v) pending)"
    by (metis list.set_intros(1) list.set_map)
  then show ?thesis by auto
next
  case (Some v)
  with assms show ?thesis by (auto simp: pending_for_def dest: map_of_SomeD intro: rev_image_eqI)
qed

lemma pending_ids_delete:
  "distinct (map fst ps) \<Longrightarrow> k \<in> fst ` set ps \<Longrightarrow> pending_ids ps = add_mset k (pending_ids (AList.delete k ps))"
proof (induction ps)
  case (Cons p ps)
  show ?case
  proof (cases "fst p = k")
    case True
    with Cons.prems have "AList.delete k ps = ps" by (auto simp: delete_id)
    with True show ?thesis by (auto simp: AList.delete_eq pending_ids_def)
  next
    case False
    with Cons show ?thesis by (auto simp: AList.delete_eq pending_ids_def)
  qed
qed simp

lemma finished_call_fields [simp]:
  "tc_id (finished_call parse obj i name args k) = i" "vercel_call parse (finished_call parse obj i name args k)"
  "announced_as (finished_call parse obj i name args k) = unwrap_or i k"
  by (auto simp: finished_call_def vercel_call_def announced_as_def unwrap_or_def split: option.splits)

lemma tool_call_shape:
  assumes "capture_vercel_tool_call parse print_json s obj = Inr (s', new)"
  obtains i name args k where "\<not> has_call i (vs_tool_calls s)"
    "k = None \<or> (\<exists>j. k = Some j \<and> j \<in> fst ` set (vs_pending s))"
    "s' = s\<lparr>vs_pending := case k of None \<Rightarrow> vs_pending s | Some k \<Rightarrow> AList.delete k (vs_pending s),
            vs_tool_calls := vs_tool_calls s @ [finished_call parse obj i name args k]\<rparr>"
    "new = (if k = None then [GatewayToolStarted i name] else [])"
proof -
  define n where "n = non_empty (string_field obj ''toolName'')"
  define a where "a = final_arguments print_json obj"
  from assms obtain i where i: "required_string obj ''toolCallId'' = Inr i" "\<not> has_call i (vs_tool_calls s)"
    by (auto simp: capture_vercel_tool_call_def and_then_Inr_iff split: if_splits)
  define k where "k = pending_for parse (vs_pending s) i n a"
  define v where "v = Option.bind k (map_of (vs_pending s))"
  have k: "j \<in> fst ` set (vs_pending s)" if "k = Some j" for j using that by (simp add: k_def pending_for_Some)
  then have v: "v = None \<longleftrightarrow> k = None"
    by (cases k) (auto simp: v_def map_of_eq_None_iff)
  from assms i obtain name args where
    "s' = s\<lparr>vs_pending := case k of None \<Rightarrow> vs_pending s | Some k \<Rightarrow> AList.delete k (vs_pending s),
            vs_tool_calls := vs_tool_calls s @ [finished_call parse obj i name args k]\<rparr>"
    "new = (if v = None then [GatewayToolStarted i name] else [])"
    unfolding capture_vercel_tool_call_def Let_def n_def [symmetric] a_def [symmetric]
    by (cases "v = None") (auto simp: k_def [symmetric] v_def [symmetric] and_then_Inr_iff split: if_split_asm)
  with i(2) k v show thesis by (intro that [of i k]) auto
qed

lemma good_call:
  assumes "vercel_good parse s es" and "capture_vercel_tool_call parse print_json s obj = Inr (s', new)"
  shows "vercel_good parse s' (es @ new)"
proof -
  from tool_call_shape [OF assms(2)] obtain i name args k where shape: "\<not> has_call i (vs_tool_calls s)"
    "k = None \<or> (\<exists>j. k = Some j \<and> j \<in> fst ` set (vs_pending s))"
    "s' = s\<lparr>vs_pending := case k of None \<Rightarrow> vs_pending s | Some k \<Rightarrow> AList.delete k (vs_pending s),
            vs_tool_calls := vs_tool_calls s @ [finished_call parse obj i name args k]\<rparr>"
    "new = (if k = None then [GatewayToolStarted i name] else [])" .
  from assms(1) have d: "distinct (map fst (vs_pending s))" by (simp add: vercel_good_def)
  have "pending_ids (vs_pending s) + mset (announced_ids new) = add_mset (unwrap_or i k) (pending_ids (vs_pending s'))"
    using shape(2) pending_ids_delete [OF d] by (elim disjE exE conjE) (simp_all add: shape(3,4))
  moreover have "distinct (map fst (vs_pending s'))"
    using d by (auto simp: shape(3) distinct_delete split: option.splits)
  moreover have "streamed_text new = []" by (simp add: shape(4))
  ultimately show ?thesis
    using assms(1) shape(1) by (simp add: vercel_good_def shape(3) has_call_def call_ids_def)
qed

lemma set_result_fields [simp]:
  "map tc_id (set_result i r calls) = map tc_id calls"
  "call_ids (set_result i r calls) = call_ids calls"
  by (induction calls) (auto simp: call_ids_def announced_as_def)

lemma set_result_good:
  "find (\<lambda>call. tc_id call = i) calls = Some call \<Longrightarrow> provenance call = Provider \<Longrightarrow>
     list_all (vercel_call parse) calls \<Longrightarrow> list_all (vercel_call parse) (set_result i r calls)"
  by (induction calls) (auto simp: vercel_call_def split: if_splits)

lemma good_result:
  "vercel_good parse s es \<Longrightarrow> capture_vercel_tool_result print_json s obj = Inr s' \<Longrightarrow> vercel_good parse s' es"
  by (auto simp: vercel_good_def capture_vercel_tool_result_def and_then_Inr_iff ok_or_def set_result_good
      split: if_splits option.splits)

lemma good_finish: "vercel_good parse s es \<Longrightarrow> finish_stream s obj = Inr s' \<Longrightarrow> vercel_final parse s' es"
  by (auto simp: vercel_final_def vercel_good_def finish_stream_def and_then_Inr_iff split: if_splits)

lemma vercel_object_good:
  assumes g: "vercel_good parse s es" and p: "process_vercel_object parse print_json s obj = Inr (s', new, complete)"
  shows "if complete then vercel_final parse s' (es @ new) else vercel_good parse s' (es @ new)"
proof -
  note unfolded = p [unfolded process_vercel_object_def Let_def]
  consider "event_type obj = ''text-delta''" | "event_type obj = ''reasoning-delta''"
    | "event_type obj = ''tool-input-start''" | "event_type obj = ''tool-input-delta''"
    | "event_type obj = ''tool-input-end''" | "event_type obj = ''tool-call''" | "event_type obj = ''tool-result''"
    | "event_type obj = ''error''" | "event_type obj = ''finish''"
    | "s' = s" "new = []" "\<not> complete"
    using unfolded by (fastforce split: if_split_asm)
  then show ?thesis
  proof cases
    case 1
    with unfolded g show ?thesis by (auto simp: vercel_good_def split: option.splits)
  next
    case 2
    with unfolded g show ?thesis by (auto simp: vercel_good_def split: option.splits)
  next
    case 3
    with unfolded good_start [OF g] show ?thesis by (auto simp: and_then_Inr_iff)
  next
    case 4
    with unfolded good_change [OF g] show ?thesis by (auto simp: and_then_Inr_iff)
  next
    case 5
    with unfolded good_change [OF g] show ?thesis by (auto simp: and_then_Inr_iff)
  next
    case 6
    with unfolded good_call [OF g] show ?thesis by (auto simp: and_then_Inr_iff)
  next
    case 7
    with unfolded good_result [OF g] show ?thesis by (auto simp: and_then_Inr_iff)
  next
    case 8
    with unfolded g show ?thesis by (auto simp: vercel_good_def)
  next
    case 9
    with unfolded good_finish [OF g] show ?thesis by (auto simp: and_then_Inr_iff)
  next
    case 10
    with g show ?thesis by simp
  qed
qed

lemma vercel_event_good:
  assumes "vercel_good parse s es" and "process_vercel_event parse print_json s d = Inr (s', new, complete)"
  shows "if complete then vercel_final parse s' (es @ new) else vercel_good parse s' (es @ new)"
proof (cases "d = ''[DONE]''")
  case True
  with assms show ?thesis by (simp add: process_vercel_event_def)
next
  case False
  with assms(2) obtain obj where
    "process_vercel_object parse print_json (capture_vercel_generation_id s obj) obj = Inr (s', new, complete)"
    by (auto simp: process_vercel_event_def and_then_Inr_iff)
  from vercel_object_good [OF good_generation_id [OF assms(1)] this] show ?thesis .
qed

text \<open>The errors of the handler.\<close>

lemma vercel_call_error: "capture_vercel_tool_call parse print_json s obj = Inl e \<Longrightarrow> after_delivery e"
  by (simp add: capture_vercel_tool_call_def Let_def and_then_Inl_iff split: if_split_asm)
    (auto simp: after_delivery_def dest: stream_errors [unfolded after_delivery_def])

lemma vercel_error:
  "start_tool s obj = Inl e \<Longrightarrow> after_delivery e"
  "change_pending s what i f = Inl e \<Longrightarrow> after_delivery e"
  "capture_vercel_tool_result print_json s obj = Inl e \<Longrightarrow> after_delivery e"
  "finish_stream s obj = Inl e \<Longrightarrow> after_delivery e"
  by (auto simp: start_tool_def change_pending_def capture_vercel_tool_result_def finish_stream_def after_delivery_def
      and_then_Inl_iff dest: stream_errors [unfolded after_delivery_def] split: if_splits option.splits)

lemma vercel_event_error: "process_vercel_event parse print_json s d = Inl e \<Longrightarrow> after_delivery e"
  by (auto simp: process_vercel_event_def process_vercel_object_def Let_def elim!: and_then_error
      dest: stream_errors vercel_error vercel_call_error split: if_splits option.splits)

interpretation vercel: stream_handler
  "process_vercel_event parse print_json" vercel_finish vercel_initial "vercel_good parse" "vercel_final parse"
  for parse print_json
proof
  show "vercel_good parse vercel_initial []" by (simp add: vercel_good_def vercel_initial_def pending_ids_def call_ids_def)
next
  fix s es d s' new
  assume "vercel_good parse s es"
  note g = vercel_event_good [OF this]
  show "process_vercel_event parse print_json s d = Inr (s', new, False) \<Longrightarrow> vercel_good parse s' (es @ new)" using g by force
  show "process_vercel_event parse print_json s d = Inr (s', new, True) \<Longrightarrow> vercel_final parse s' (es @ new)" using g by force
next
  show "process_vercel_event parse print_json s d = Inl e \<Longrightarrow> after_delivery e" for s d e by (rule vercel_event_error)
  show "vercel_finish s = Inl e \<Longrightarrow> after_delivery e" for s e
    by (auto simp: vercel_finish_def after_delivery_def split: option.splits if_splits)
qed

text \<open>
  C20. A Vercel response is what was streamed: its content is the streamed text; every tool that was announced is
  exactly one of its calls, under its own id or as the call's provisional id, and no call was not announced; the
  ids of the calls are distinct; a call is marked malformed exactly when its arguments are no JSON, and has a result
  only where the provider executed it; the finish reason is there.
\<close>

theorem vercel_response_is_the_stream:
  assumes "consume_vercel_sse parse print_json parser reads = (Inr resp, es)"
  shows "unwrap_or [] (resp_content resp) = streamed_text es
    \<and> mset (announced_ids es) = mset (map announced_as (resp_tool_calls resp))
    \<and> distinct (map tc_id (resp_tool_calls resp))
    \<and> list_all (vercel_call parse) (resp_tool_calls resp)
    \<and> resp_finish_reason resp \<noteq> None"
proof -
  from vercel.response_good [OF assms [unfolded consume_vercel_sse_def]]
  obtain s :: vercel_state where s: "vercel_final parse s es" "vercel_finish s = Inr resp" by blast
  from s(2) have f: "vs_pending s = []" "resp_content resp = non_empty (Some (vs_content s))"
    "resp_tool_calls resp = vs_tool_calls s" "resp_finish_reason resp = vs_finish_reason s"
    by (auto simp: vercel_finish_def split: option.splits if_splits)
  have "unwrap_or [] (non_empty (Some (vs_content s))) = vs_content s" by (cases "vs_content s") simp_all
  with s(1) f show ?thesis by (simp add: vercel_final_def vercel_good_def pending_ids_def call_ids_def)
qed

subsection \<open>A sample of a Vercel stream\<close>

definition vercel_sample_parse :: "string \<Rightarrow> string + json" where
  "vercel_sample_parse s =
     (if s = ''t'' then Inr (JObject [(''type'', JString ''text-delta''), (''delta'', JString ''hi'')])
      else if s = ''c'' then
        Inr (JObject [(''type'', JString ''tool-call''), (''toolCallId'', JString ''i''),
          (''toolName'', JString ''f''), (''input'', JString ''x'')])
      else if s = ''f'' then
        Inr (JObject [(''type'', JString ''finish''), (''finishReason'', JObject [(''unified'', JString ''tool-calls'')])])
      else Inl ''expected value'')"

definition vercel_sample_call :: tool_call where
  "vercel_sample_call =
     \<lparr>tc_id = ''i'', tc_name = ''f'', arguments_json = ''x'', argument_integrity = MalformedJson, provisional_id = None,
      provider_result = None, provenance = FxLocal\<rparr>"

definition vercel_sample_response :: gateway_response where
  "vercel_sample_response =
     \<lparr>resp_content = Some ''hi'', resp_tool_calls = [vercel_sample_call], resp_generation_id = None,
      resp_finish_reason = Some ToolCalls, resp_usage = usage_default, resp_delivery_ambiguous = False\<rparr>"

lemma vercel_sample_events:
  "handle_events ''Vercel'' (process_vercel_event vercel_sample_parse print_json) vercel_initial [''t'', ''c'', ''f''] =
     (Inr (\<lparr>vs_content = ''hi'', vs_tool_calls = [vercel_sample_call], vs_pending = [], vs_generation_id = None,
            vs_finish_reason = Some ToolCalls, vs_usage = usage_default, vs_provider_error = None\<rparr>, True),
      [ContentDelta ''hi'', GatewayToolStarted ''i'' ''f''])"
  by (simp add: process_vercel_event_def process_vercel_object_def vercel_sample_parse_def event_object_def as_object_def
      event_type_def string_field_def vercel_initial_def capture_vercel_generation_id_def Let_def object_field_def
      capture_vercel_tool_call_def required_string_def has_call_def final_arguments_def pending_for_def
      finished_call_def integrity_of_def is_json_def vercel_sample_call_def finish_stream_def parse_vercel_usage_def
      usage_default_def max_event_bytes_def emitting_def)

lemma vercel_sample_stream:
  "consume_vercel_sse vercel_sample_parse print_json line_parser
       [Inr [CHR ''t'', CHR 0x0A, CHR ''c'', CHR 0x0A, CHR ''f'', CHR 0x0A]] =
     (Inr vercel_sample_response, [ContentDelta ''hi'', GatewayToolStarted ''i'' ''f''])"
  by (simp add: consume_vercel_sse_def line_parser_def max_stream_bytes_def sat_add_def usize_max_def after_events_def
      vercel_sample_events vercel_finish_def vercel_sample_response_def del: handle_events.simps)

theorem vercel_response_is_the_stream_witness:
  "unwrap_or [] (resp_content vercel_sample_response) = streamed_text [ContentDelta ''hi'', GatewayToolStarted ''i'' ''f'']
     \<and> mset (announced_ids [ContentDelta ''hi'', GatewayToolStarted ''i'' ''f'']) =
       mset (map announced_as (resp_tool_calls vercel_sample_response))"
  using vercel_response_is_the_stream [OF vercel_sample_stream] by blast

end
