(* ===== verification/Provider_Wire.thy ===== *)
theory Provider_Wire
  imports Vercel_Response
begin

section \<open>Properties of both providers\<close>

text \<open>
  What the Codex and the Vercel gateway of \<open>fx-provider/src/transport.rs\<close> share: a body may arrive in any
  parts, what may be retried, what a malformed call does to the requests that follow, and where an endpoint of
  the environment leads.
\<close>

subsection \<open>Parts of a body\<close>

text \<open>
  C22. How a body is cut into reads does not matter: for a parser that takes a body in parts as it takes the whole, and
  a body of at most 64 MiB, both consumers give what they give for the whole body at once.
\<close>

theorem any_reads_give_the_same_response:
  assumes "incremental parser" and "list_all (\<lambda>r. r \<noteq> []) chunks"
    and "length (concat chunks) \<le> max_stream_bytes"
  shows "consume_codex_sse parse print_json parser (map Inr chunks) =
      consume_body ''Codex'' ''terminal response event'' parser (process_event parse) (codex_finish print_json)
        (concat chunks) (sse_start parser) codex_initial
    \<and> consume_vercel_sse parse print_json parser (map Inr chunks) =
      consume_body ''Vercel'' ''finish event'' parser (process_vercel_event parse print_json) vercel_finish
        (concat chunks) (sse_start parser) vercel_initial"
  using assms(3) by (simp add: consume_codex_sse_def consume_vercel_sse_def consume_stream_body [OF assms(1,2)])

theorem any_reads_give_the_same_response_witness:
  "consume_codex_sse codex_sample_parse (\<lambda>_. []) line_parser (map Inr [[CHR ''t''], [CHR 0x0A, CHR ''e'', CHR 0x0A]]) =
     consume_codex_sse codex_sample_parse (\<lambda>_. []) line_parser (map Inr [[CHR ''t'', CHR 0x0A, CHR ''e'', CHR 0x0A]])"
  using any_reads_give_the_same_response [OF incremental_line_parser, of "[[CHR ''t''], [CHR 0x0A, CHR ''e'', CHR 0x0A]]"
      codex_sample_parse "\<lambda>_. []"]
    any_reads_give_the_same_response [OF incremental_line_parser, of "[[CHR ''t'', CHR 0x0A, CHR ''e'', CHR 0x0A]]"
      codex_sample_parse "\<lambda>_. []"]
  by (simp add: max_stream_bytes_def)

subsection \<open>Retries\<close>

lemma codex_gateway_unsent:
  assumes "fst (codex_gateway parse print_json parser post c request w) = Inl DefinitelyUnsent"
  shows "\<exists>body e. fst (post (cc_endpoint c) (codex_headers c) body w) = Inl e \<and> map_send_error e = DefinitelyUnsent
    \<and> fst (snd (codex_gateway parse print_json parser post c request w)) = []"
proof -
  have build: "build_codex_request_body parse print_json (cc_model c) request \<noteq> Inl DefinitelyUnsent"
  proof
    assume b: "build_codex_request_body parse print_json (cc_model c) request = Inl DefinitelyUnsent"
    have calls: "project_calls parse calls \<noteq> Inl DefinitelyUnsent" for calls
      by (induction calls) (auto simp: and_then_Inl_iff invalid_call_def)
    have message: "project_message parse m i \<noteq> Inl DefinitelyUnsent" for m i
      using calls by (auto simp: project_message_def and_then_Inl_iff Let_def split: role.splits)
    have messages: "project_messages parse ms i \<noteq> Inl DefinitelyUnsent" for ms i
      using message by (induction ms arbitrary: i) (auto simp: and_then_Inl_iff)
    have tools: "collect project_tool ts \<noteq> Inl DefinitelyUnsent" for ts
      by (induction ts) (auto simp: and_then_Inl_iff project_tool_def split: tool_advertisement_kind.splits if_splits)
    from b messages tools show False
      by (auto simp: build_codex_request_body_def codex_body_def and_then_Inl_iff)
  qed
  have stream: "consume_codex_sse parse print_json parser reads \<noteq> (Inl DefinitelyUnsent, es)" for reads es
    by (auto simp: consume_codex_sse_def after_delivery_def dest: codex.consume_error)
  from assms build obtain body where b: "build_codex_request_body parse print_json (cc_model c) request = Inr body"
    and auth: "\<not> (cc_access_token c = [] \<or> cc_account_id c = [])"
    by (cases "build_codex_request_body parse print_json (cc_model c) request")
      (auto simp: codex_gateway_def split: if_splits)
  obtain r w' where p: "post (cc_endpoint c) (codex_headers c) body w = (r, w')" by fastforce
  show ?thesis
  proof (cases r)
    case (Inl e)
    with assms b auth p show ?thesis by (intro exI [of _ body] exI [of _ e]) (auto simp: codex_gateway_def)
  next
    case (Inr reply)
    obtain q es where q: "consume_codex_sse parse print_json parser (reply_body reply) = (q, es)" by fastforce
    with assms b auth p Inr have "q = Inl DefinitelyUnsent" by (auto simp: codex_gateway_def)
    with stream q show ?thesis by blast
  qed
qed

lemma vercel_gateway_unsent:
  assumes "fst (vercel_gateway parse print_json parser post c request w) = Inl DefinitelyUnsent"
  shows "\<exists>body e. fst (post (vc_endpoint c) (vercel_headers c) body w) = Inl e \<and> map_send_error e = DefinitelyUnsent
    \<and> fst (snd (vercel_gateway parse print_json parser post c request w)) = []"
proof -
  have build: "build_vercel_request_body parse print_json c request \<noteq> Inl DefinitelyUnsent"
  proof
    assume b: "build_vercel_request_body parse print_json c request = Inl DefinitelyUnsent"
    have calls: "collect (project_vercel_call parse) calls \<noteq> Inl DefinitelyUnsent" for calls
      by (induction calls) (auto simp: and_then_Inl_iff project_vercel_call_def invalid_call_def map_err_def split: sum.splits)
    have messages: "collect (project_vercel_message parse) ms \<noteq> Inl DefinitelyUnsent" for ms
      using calls by (induction ms)
        (auto simp: and_then_Inl_iff project_vercel_message_def ok_or_def split: role.splits option.splits)
    have tools: "collect project_vercel_tool ts \<noteq> Inl DefinitelyUnsent" for ts
      by (induction ts) (auto simp: and_then_Inl_iff project_vercel_tool_def ok_or_def
          split: tool_advertisement_kind.splits option.splits)
    from b messages tools show False
      by (auto simp: build_vercel_request_body_def vercel_body_def and_then_Inl_iff)
  qed
  have stream: "consume_vercel_sse parse print_json parser reads \<noteq> (Inl DefinitelyUnsent, es)" for reads es
    by (auto simp: consume_vercel_sse_def after_delivery_def dest: vercel.consume_error)
  have status: "vercel_http_status_error parse n b \<noteq> DefinitelyUnsent" for n b
    by (simp add: vercel_http_status_error_def Let_def)
  from assms build obtain body where b: "build_vercel_request_body parse print_json c request = Inr body"
    and auth: "vc_access_token c \<noteq> []"
    by (cases "build_vercel_request_body parse print_json c request") (auto simp: vercel_gateway_def split: if_splits)
  obtain r w' where p: "post (vc_endpoint c) (vercel_headers c) body w = (r, w')" by fastforce
  show ?thesis
  proof (cases r)
    case (Inl e)
    with assms b auth p show ?thesis by (intro exI [of _ body] exI [of _ e]) (auto simp: vercel_gateway_def)
  next
    case (Inr reply)
    obtain q es where q: "consume_vercel_sse parse print_json parser (reply_body reply) = (q, es)" by fastforce
    with assms b auth p Inr status have "q = Inl DefinitelyUnsent"
      by (auto simp: vercel_gateway_def split: if_splits option.splits)
    with stream q show ?thesis by blast
  qed
qed

text \<open>No response arrived, and the client knows that the request had not left it.\<close>

definition before_delivery :: "send_error \<Rightarrow> bool" where
  "before_delivery e \<longleftrightarrow> (\<forall>n. e \<noteq> StatusCode n) \<and> e \<noteq> Io OtherIoKind \<and> e \<noteq> OtherSendError"

lemma unsent_before_delivery: "map_send_error e = DefinitelyUnsent \<Longrightarrow> before_delivery e"
  by (cases e) (auto simp: map_send_error_def before_delivery_def split: if_splits)

text \<open>
  C23. Both gateways report a request as unsent only when the client failed before delivery, and then nothing was
  emitted. So, wrapped by the retrying gateway, what the listener hears and the result are those of one attempt.
\<close>

theorem providers_stream_one_attempt:
  "(fst (codex_gateway parse print_json parser post c request w) = Inl DefinitelyUnsent \<longrightarrow>
      (\<exists>body e. fst (post (cc_endpoint c) (codex_headers c) body w) = Inl e \<and> before_delivery e))
   \<and> (fst (vercel_gateway parse print_json parser post v request w) = Inl DefinitelyUnsent \<longrightarrow>
      (\<exists>body e. fst (post (vc_endpoint v) (vercel_headers v) body w) = Inl e \<and> before_delivery e))
   \<and> (\<exists>w'. safe_retry (codex_gateway parse print_json parser post c) m request w =
        codex_gateway parse print_json parser post c request w')
   \<and> (\<exists>w'. safe_retry (vercel_gateway parse print_json parser post v) m request w =
        vercel_gateway parse print_json parser post v request w')"
proof -
  have c: "silent_until_sent (codex_gateway parse print_json parser post c)"
    unfolding silent_until_sent_def using codex_gateway_unsent [of parse print_json parser post c] by blast
  have v: "silent_until_sent (vercel_gateway parse print_json parser post v)"
    unfolding silent_until_sent_def using vercel_gateway_unsent [of parse print_json parser post v] by blast
  note one = c [THEN retries_stream_one_attempt] v [THEN retries_stream_one_attempt]
  show ?thesis
    using one(1) [of m request w] one(2) [of m request w] codex_gateway_unsent [of parse print_json parser post c request w]
      vercel_gateway_unsent [of parse print_json parser post v request w] unsent_before_delivery by blast
qed

definition refusing_post :: "unit http_client" where
  "refusing_post endpoint headers body w = (Inl ConnectionFailed, w)"

theorem providers_stream_one_attempt_witness:
  "\<exists>body e. fst (refusing_post default_codex_endpoint
      (codex_headers (new_codex_config ''m'' ''t'' ''a'')) body ()) = Inl e \<and> before_delivery e"
proof -
  have "fst (codex_gateway codex_sample_parse (\<lambda>_. []) line_parser refusing_post (new_codex_config ''m'' ''t'' ''a'')
      example_request ()) = Inl DefinitelyUnsent"
    by (simp add: codex_gateway_def new_codex_config_def example_request_def build_codex_request_body_def codex_body_def
        refusing_post_def map_send_error_def)
  with providers_stream_one_attempt [where parse = codex_sample_parse and print_json = "\<lambda>_. []"
      and parser = line_parser and post = refusing_post and c = "new_codex_config ''m'' ''t'' ''a''"
      and request = example_request and w = "()"]
  show ?thesis by (simp add: new_codex_config_def)
qed

subsection \<open>A malformed call\<close>

lemma stream_calls_integrity:
  "consume_codex_sse parse print_json parser reads = (Inr resp, es) \<or>
     consume_vercel_sse parse print_json parser reads = (Inr resp, es) \<Longrightarrow>
   call \<in> set (resp_tool_calls resp) \<Longrightarrow> argument_integrity call = MalformedJson \<Longrightarrow>
     \<not> is_json parse (arguments_json call)"
proof (elim disjE)
  assume calls: "call \<in> set (resp_tool_calls resp)" "argument_integrity call = MalformedJson"
  {
    assume "consume_codex_sse parse print_json parser reads = (Inr resp, es)"
    then obtain s :: codex_state where s: "codex_final parse s es" "codex_finish print_json s = Inr resp"
      using codex.response_good [of "''Codex''" "''terminal response event''" parser parse print_json reads]
      unfolding consume_codex_sse_def by blast
    with calls show ?thesis
      by (auto simp: codex_finish_def codex_final_def codex_good_def list_all_iff local_call_def integrity_of_def
          search_call_def Let_def split: option.splits list.splits if_splits)
  next
    assume "consume_vercel_sse parse print_json parser reads = (Inr resp, es)"
    then obtain s :: vercel_state where s: "vercel_final parse s es" "vercel_finish s = Inr resp"
      using vercel.response_good [of "''Vercel''" "''finish event''" parser parse print_json reads]
      unfolding consume_vercel_sse_def by blast
    with calls show ?thesis
      by (auto simp: vercel_finish_def vercel_final_def vercel_good_def list_all_iff vercel_call_def integrity_of_def
          split: option.splits if_splits)
  }
qed

text \<open>
  A response with a malformed call ends the conversation: once its message is in the transcript, where the
  agent puts it together with an error for the model to correct, every later request to either provider is
  refused before it is sent.
\<close>

theorem malformed_call_blocks_requests:
  assumes "consume_codex_sse parse print_json parser reads = (Inr resp, es)
      \<or> consume_vercel_sse parse print_json parser reads = (Inr resp, es)"
    and "\<exists>call\<in>set (resp_tool_calls resp). argument_integrity call = MalformedJson"
    and "assistant_message resp \<in> set (gw_messages request)"
  shows "(\<nexists>body. build_codex_request_body parse print_json model request = Inr body)
    \<and> (\<nexists>body. build_vercel_request_body parse print_json c request = Inr body)"
proof -
  from assms(2) obtain call where call: "call \<in> set (resp_tool_calls resp)" "argument_integrity call = MalformedJson"
    by blast
  note bad = stream_calls_integrity [OF assms(1) call]
  have "\<not> codex_accepts parse (assistant_message resp)" "\<not> vercel_accepts parse (assistant_message resp)"
    using bad call(1) by (auto simp: codex_accepts_def vercel_accepts_def list_all_iff)
  with assms(3) have "\<not> list_all (codex_accepts parse) (gw_messages request)"
    "\<not> list_all (vercel_accepts parse) (gw_messages request)" by (auto simp: list_all_iff)
  then show ?thesis using vercel_body_accepts codex_built by blast
qed

theorem malformed_call_blocks_requests_witness:
  "\<nexists>body. build_vercel_request_body vercel_sample_parse (\<lambda>_. []) (new_vercel_config ''m'' ''k'')
     (example_request\<lparr>gw_messages := [assistant_message vercel_sample_response]\<rparr>) = Inr body"
proof -
  have "\<exists>call\<in>set (resp_tool_calls vercel_sample_response). argument_integrity call = MalformedJson"
    by (simp add: vercel_sample_response_def vercel_sample_call_def)
  from malformed_call_blocks_requests [OF disjI2 [OF vercel_sample_stream] this,
      of "example_request\<lparr>gw_messages := [assistant_message vercel_sample_response]\<rparr>"]
  show ?thesis by simp
qed

subsection \<open>Where credentials go\<close>

text \<open>The host of an \<open>http\<close> URL: after the user information, before the port.\<close>

definition url_authority :: "string \<Rightarrow> string" where
  "url_authority url = takeWhile (\<lambda>c. c \<noteq> CHR ''/'') (drop (length ''http://'') url)"

definition url_host :: "string \<Rightarrow> string" where
  "url_host url =
     (let a = url_authority url;
          a = (if CHR ''@'' \<in> set a then tl (dropWhile (\<lambda>c. c \<noteq> CHR ''@'') a) else a) in
      takeWhile (\<lambda>c. c \<noteq> CHR '':'') a)"

text \<open>
  An endpoint of the environment is taken only when it starts as a loopback address. It may still lead
  elsewhere: a base with user information before another host is taken, and the bearer token of the Codex gateway,
  whose endpoint nothing else checks, goes to that host.
\<close>

theorem loopback_override_reaches_other_hosts:
  assumes "h \<noteq> []" and "list_all (\<lambda>c. c \<notin> {CHR ''/'', CHR '':'', CHR ''@''}) h"
  shows "(codex_endpoint_from_base base = default_codex_endpoint
        \<or> is_loopback_base (trim_end_slashes (unwrap_or [] base)))
    \<and> url_host (codex_endpoint_from_base (Some (''http://localhost:x@'' @ h))) = h"
proof -
  define b where "b = ''http://localhost:x@'' @ h"
  have "last h \<noteq> CHR ''/''" using assms by (simp add: list_all_iff)
  then have trim: "trim_end_slashes b = b"
    using assms(1) by (cases h rule: rev_cases) (simp_all add: b_def trim_end_slashes_def)
  have t: "takeWhile (\<lambda>c. c \<noteq> CHR ''/'') (h @ CHR ''/'' # p) = h" for p
    using assms(2) by (induction h) auto
  have u: "takeWhile (\<lambda>c. c \<noteq> CHR '':'') h = h" using assms(2) by (induction h) auto
  have host: "url_host (b @ CHR ''/'' # p) = h" for p
    by (simp add: b_def url_host_def url_authority_def t u)
  have "is_loopback_base b" by (simp add: b_def is_loopback_base_def)
  then have "url_host (endpoint_from_base d (CHR ''/'' # p) (Some b)) = h" for d p
    by (simp add: endpoint_from_base_def trim host)
  moreover have "codex_endpoint_from_base base = default_codex_endpoint
      \<or> is_loopback_base (trim_end_slashes (unwrap_or [] base))"
    by (cases base) (simp_all add: codex_endpoint_from_base_def endpoint_from_base_def Let_def)
  ultimately show ?thesis
    unfolding b_def codex_endpoint_from_base_def by blast
qed

theorem loopback_override_reaches_other_hosts_witness:
  "url_host (codex_endpoint_from_base (Some ''http://localhost:x@evil.example'')) = ''evil.example''"
  using loopback_override_reaches_other_hosts [of "''evil.example''" None] by simp

end
