(* ===== verification/Provider_Registry.thy ===== *)
theory Provider_Registry
  imports Ordered_Map Stream_Gateway
begin

section \<open>The registry of providers\<close>

text \<open>
  \<open>fx-provider/src/lib.rs\<close>: models, credentials, the provider contract as a record of operations on a world,
  and the registry. The catalogue is the \<open>BTreeMap\<close> behind a lock; an operation that would index a map without
  the key has no value, as the source panics there.
\<close>

subsection \<open>Models and providers\<close>

record model_info =
  mi_provider_id :: string
  mi_id :: string
  mi_name :: string
  mi_context_window :: nat
  mi_max_output_tokens :: nat
  mi_reasoning :: bool
  mi_native_web_search :: "string option"

definition model_route :: "model_info \<Rightarrow> string" where
  "model_route m = mi_provider_id m @ ''/'' @ mi_id m"

record auth_method =
  am_id :: string
  am_name :: string
  am_description :: string

datatype credential =
    ApiKey string "(string \<times> string) list"
  | OAuth string "string option" i64 "(string \<times> string) list"

datatype provider_error =
    UnknownProvider string
  | UnknownModel string
  | UnknownAuthMethod string
  | DuplicateProvider string
  | DuplicateModel string
  | DuplicateAuthMethod string
  | AuthenticationRequired string string
  | AuthenticationFailed string
  | CredentialStore string
  | Configuration string
  | Transport string

fun show_provider_error :: "provider_error \<Rightarrow> string" where
  "show_provider_error (UnknownProvider p) = ''provider `'' @ p @ ''` is not registered''"
| "show_provider_error (UnknownModel m) = ''model `'' @ m @ ''` is not registered''"
| "show_provider_error (UnknownAuthMethod m) = ''authentication method `'' @ m @ ''` is not registered''"
| "show_provider_error (DuplicateProvider p) = ''provider `'' @ p @ ''` is already registered''"
| "show_provider_error (DuplicateModel m) = ''model route `'' @ m @ ''` is already registered''"
| "show_provider_error (DuplicateAuthMethod m) = ''authentication method `'' @ m @ ''` is already registered''"
| "show_provider_error (AuthenticationRequired p m) = ''authentication is required for '' @ p @ '': '' @ m"
| "show_provider_error (AuthenticationFailed m) = ''provider authentication failed: '' @ m"
| "show_provider_error (CredentialStore m) = ''provider credential store failed: '' @ m"
| "show_provider_error (Configuration m) = ''provider configuration is invalid: '' @ m"
| "show_provider_error (Transport m) = ''provider transport could not be created: '' @ m"

text \<open>
  The credential store on a world: taking a provider's lease may fail and else shows the credential; a lease
  replaces or deletes it. A lease is exclusive, so that nothing happens between its steps.
\<close>

record 'w credential_store =
  st_lock :: "string \<Rightarrow> 'w \<Rightarrow> (provider_error + credential option) \<times> 'w"
  st_replace :: "string \<Rightarrow> credential \<Rightarrow> 'w \<Rightarrow> (provider_error + unit) \<times> 'w"
  st_delete :: "string \<Rightarrow> 'w \<Rightarrow> (provider_error + unit) \<times> 'w"

record 'w provider =
  pr_id :: string
  pr_name :: string
  pr_models :: "model_info list"
  pr_default_model :: string
  pr_auth_methods :: "auth_method list"
  pr_authenticate :: "'w credential_store \<Rightarrow> string \<Rightarrow> 'w \<Rightarrow> (provider_error + unit) \<times> 'w"
  pr_refresh_models :: "'w credential_store \<Rightarrow> 'w \<Rightarrow> (provider_error + model_info list option) \<times> 'w"
  pr_logout :: "'w credential_store \<Rightarrow> 'w \<Rightarrow> (provider_error + unit) \<times> 'w"
  pr_gateway :: "'w credential_store \<Rightarrow> string \<Rightarrow> string option \<Rightarrow> 'w \<Rightarrow> (provider_error + 'w gateway) \<times> 'w"

text \<open>The provided methods: a catalogue that does not change, and a log-out that deletes the credential.\<close>

definition static_refresh :: "'w credential_store \<Rightarrow> 'w \<Rightarrow> (provider_error + model_info list option) \<times> 'w" where
  "static_refresh st w = (Inr None, w)"

definition default_logout :: "string \<Rightarrow> 'w credential_store \<Rightarrow> 'w \<Rightarrow> (provider_error + unit) \<times> 'w" where
  "default_logout ident st = seq (st_lock st ident) (\<lambda>_. st_delete st ident)"

record authentication_outcome =
  models_refreshed :: bool
  catalog_warning :: "string option"

record registered_auth_method =
  ra_provider_id :: string
  ra_local_id :: string
  ra_descriptor :: auth_method

record 'w provider_registry =
  rg_providers :: "(string \<times> 'w provider) list"
  rg_models :: "(string \<times> model_info) list"
  rg_auth_methods :: "(string \<times> registered_auth_method) list"
  rg_default_route :: "string option"

definition new_registry :: "'w provider_registry" where
  "new_registry = \<lparr>rg_providers = [], rg_models = [], rg_auth_methods = [], rg_default_route = None\<rparr>"

subsection \<open>Identifiers\<close>

definition is_component :: "string \<Rightarrow> bool" where
  "is_component v \<longleftrightarrow> v \<noteq> [] \<and> length v \<le> 128 \<and> CHR ''/'' \<notin> set v
     \<and> list_all (\<lambda>c. is_ascii_alphanumeric c \<or> c \<in> {CHR ''-'', CHR ''_'', CHR ''.''}) v"

definition validate_component :: "string \<Rightarrow> string \<Rightarrow> provider_error + unit" where
  "validate_component label v =
     ensure (is_component v) (Configuration (label @ '' `'' @ v @ ''` is not a safe identifier''))"

definition is_model_id :: "string \<Rightarrow> bool" where
  "is_model_id v \<longleftrightarrow> v \<noteq> [] \<and> length v \<le> 256 \<and> list_all is_component (split_on (CHR ''/'') v)"

definition validate_model_id :: "string \<Rightarrow> provider_error + unit" where
  "validate_model_id v =
     ensure (is_model_id v) (Configuration (''model id `'' @ v @ ''` is not a safe slash-separated identifier''))"

definition auth_route :: "string \<Rightarrow> string \<Rightarrow> string" where
  "auth_route provider_id method_id = provider_id @ '':'' @ method_id"

subsection \<open>Registration\<close>

text \<open>The loop over a catalogue; \<open>acc\<close> holds the routes taken so far, in order.\<close>

definition wrong_provider :: "model_info \<Rightarrow> string \<Rightarrow> provider_error" where
  "wrong_provider m ident =
     Configuration (''model `'' @ mi_id m @ ''` declares provider `'' @ mi_provider_id m @ ''` instead of `'' @ ident @ ''`'')"

fun collect_models ::
  "string \<Rightarrow> (string \<times> model_info) list \<Rightarrow> model_info list \<Rightarrow> provider_error + (string \<times> model_info) list" where
  "collect_models ident acc [] = Inr acc"
| "collect_models ident acc (m # ms) =
     and_then (validate_model_id (mi_id m)) (\<lambda>_.
     and_then (ensure (mi_provider_id m = ident) (wrong_provider m ident)) (\<lambda>_.
       if model_route m \<in> fst ` set acc then Inl (DuplicateModel (model_route m))
       else collect_models ident (acc @ [(model_route m, m)]) ms))"

text \<open>The checks on a provider's catalogue: it is not empty and holds the default model.\<close>

definition checked_catalog ::
  "string \<Rightarrow> string \<Rightarrow> string \<Rightarrow> model_info list \<Rightarrow> provider_error + (string \<times> model_info) list" where
  "checked_catalog what ident default_model models =
     and_then (collect_models ident [] models) (\<lambda>entries.
     and_then (ensure (entries \<noteq> []) (Configuration (''provider `'' @ ident @ ''` has no models''))) (\<lambda>_.
     and_then (ensure (ident @ ''/'' @ default_model \<in> fst ` set entries)
         (Configuration (''provider `'' @ ident @ ''` default model `'' @ default_model @ ''` is not in its '' @ what)))
       (\<lambda>_. Inr entries)))"

fun collect_methods ::
  "string \<Rightarrow> (string \<times> registered_auth_method) list \<Rightarrow> (string \<times> registered_auth_method) list \<Rightarrow> auth_method list \<Rightarrow>
     provider_error + (string \<times> registered_auth_method) list" where
  "collect_methods ident registered acc [] = Inr acc"
| "collect_methods ident registered acc (m # ms) =
     and_then (validate_component ''authentication method id'' (am_id m)) (\<lambda>_.
       let global_id = auth_route ident (am_id m) in
       if global_id \<in> fst ` set registered \<or> global_id \<in> fst ` set acc then Inl (DuplicateAuthMethod global_id)
       else collect_methods ident registered
         (acc @ [(global_id, \<lparr>ra_provider_id = ident, ra_local_id = am_id m, ra_descriptor = m\<lparr>am_id := global_id\<rparr>\<rparr>)]) ms)"

definition register_provider :: "'w provider \<Rightarrow> 'w provider_registry \<Rightarrow> provider_error + 'w provider_registry" where
  "register_provider p r =
     and_then (validate_component ''provider id'' (pr_id p)) (\<lambda>_.
     and_then (ensure (pr_id p \<notin> fst ` set (rg_providers r)) (DuplicateProvider (pr_id p))) (\<lambda>_.
     and_then (checked_catalog ''catalog'' (pr_id p) (pr_default_model p) (pr_models p)) (\<lambda>entries.
     and_then (collect_methods (pr_id p) (rg_auth_methods r) [] (pr_auth_methods p)) (\<lambda>methods.
       case find (\<lambda>(route, _). route \<in> fst ` set (rg_models r)) entries of
         Some (route, _) \<Rightarrow> Inl (DuplicateModel route)
       | None \<Rightarrow>
           Inr (r\<lparr>rg_models := map_extend entries (rg_models r),
                  rg_auth_methods := map_extend methods (rg_auth_methods r),
                  rg_default_route := or_else (rg_default_route r) (Some (pr_id p @ ''/'' @ pr_default_model p)),
                  rg_providers := map_insert (pr_id p) p (rg_providers r)\<rparr>)))))"

subsection \<open>Look-ups\<close>

definition all_models :: "'w provider_registry \<Rightarrow> model_info list" where
  "all_models r = map snd (rg_models r)"

definition model_of :: "'w provider_registry \<Rightarrow> string \<Rightarrow> provider_error + model_info" where
  "model_of r route = ok_or (UnknownModel route) (map_of (rg_models r) route)"

definition default_model_of :: "'w provider_registry \<Rightarrow> provider_error + model_info" where
  "default_model_of r =
     and_then (ok_or (Configuration ''provider registry is empty'') (rg_default_route r)) (model_of r)"

definition all_auth_methods :: "'w provider_registry \<Rightarrow> auth_method list" where
  "all_auth_methods r = map (ra_descriptor \<circ> snd) (rg_auth_methods r)"

subsection \<open>Catalogues that change\<close>

definition replace_provider_models ::
  "string \<Rightarrow> model_info list \<Rightarrow> 'w provider_registry \<Rightarrow> provider_error + bool \<times> 'w provider_registry" where
  "replace_provider_models ident models r =
     and_then (ok_or (UnknownProvider ident) (map_of (rg_providers r) ident)) (\<lambda>p.
     and_then (checked_catalog ''refreshed catalog'' ident (pr_default_model p) models) (\<lambda>entries.
       let replacement = map_extend entries [] in
       case find (\<lambda>(route, _). \<exists>m. map_of (rg_models r) route = Some m \<and> mi_provider_id m \<noteq> ident) replacement of
         Some (route, _) \<Rightarrow> Inl (DuplicateModel route)
       | None \<Rightarrow>
           let updated = map_extend replacement (filter (\<lambda>(_, m). mi_provider_id m \<noteq> ident) (rg_models r)) in
           if rg_models r = updated then Inr (False, r) else Inr (True, r\<lparr>rg_models := updated\<rparr>)))"

definition no_outcome :: authentication_outcome where
  "no_outcome = \<lparr>models_refreshed = False, catalog_warning = None\<rparr>"

definition refresh_provider_catalog ::
  "'w credential_store \<Rightarrow> string \<Rightarrow> 'w provider_registry \<Rightarrow> 'w \<Rightarrow> (authentication_outcome \<times> 'w provider_registry \<times> 'w) option" where
  "refresh_provider_catalog st ident r w =
     (case map_of (rg_providers r) ident of
        None \<Rightarrow> None
      | Some p \<Rightarrow>
          Some (case pr_refresh_models p st w of
              (Inl e, w') \<Rightarrow> (no_outcome\<lparr>catalog_warning := Some (show_provider_error e)\<rparr>, r, w')
            | (Inr None, w') \<Rightarrow> (no_outcome, r, w')
            | (Inr (Some models), w') \<Rightarrow>
                (case replace_provider_models ident models r of
                   Inl e \<Rightarrow> (no_outcome\<lparr>catalog_warning := Some (show_provider_error e)\<rparr>, r, w')
                 | Inr (changed, r') \<Rightarrow> (no_outcome\<lparr>models_refreshed := changed\<rparr>, r', w'))))"

definition authenticate ::
  "'w credential_store \<Rightarrow> string \<Rightarrow> 'w provider_registry \<Rightarrow> 'w \<Rightarrow>
     ((provider_error + authentication_outcome) \<times> 'w provider_registry \<times> 'w) option" where
  "authenticate st method_id r w =
     (case map_of (rg_auth_methods r) method_id of
        None \<Rightarrow> Some (Inl (UnknownAuthMethod method_id), r, w)
      | Some m \<Rightarrow>
          case map_of (rg_providers r) (ra_provider_id m) of
            None \<Rightarrow> None
          | Some p \<Rightarrow>
              (case pr_authenticate p st (ra_local_id m) w of
                 (Inl e, w') \<Rightarrow> Some (Inl e, r, w')
               | (Inr _, w') \<Rightarrow>
                   map_option (\<lambda>(out, r', w''). (Inr out, r', w''))
                     (refresh_provider_catalog st (ra_provider_id m) r w')))"

text \<open>The loop of \<open>refresh_models\<close> over the providers.\<close>

fun refresh_each ::
  "'w credential_store \<Rightarrow> string list \<Rightarrow> bool \<Rightarrow> string list \<Rightarrow> 'w provider_registry \<Rightarrow> 'w \<Rightarrow>
     (bool \<times> string list \<times> 'w provider_registry \<times> 'w) option" where
  "refresh_each st [] refreshed warnings r w = Some (refreshed, warnings, r, w)"
| "refresh_each st (i # is) refreshed warnings r w =
     (case refresh_provider_catalog st i r w of
        None \<Rightarrow> None
      | Some (out, r', w') \<Rightarrow>
          refresh_each st is (refreshed \<or> models_refreshed out)
            (case catalog_warning out of None \<Rightarrow> warnings | Some m \<Rightarrow> warnings @ [i @ '': '' @ m]) r' w')"

definition refresh_models ::
  "'w credential_store \<Rightarrow> 'w provider_registry \<Rightarrow> 'w \<Rightarrow> (authentication_outcome \<times> 'w provider_registry \<times> 'w) option" where
  "refresh_models st r w =
     map_option (\<lambda>(refreshed, warnings, r', w').
         (\<lparr>models_refreshed = refreshed,
           catalog_warning = (if warnings = [] then None else Some (join ''; '' warnings))\<rparr>, r', w'))
       (refresh_each st (map fst (rg_providers r)) False [] r w)"

fun logout_each ::
  "'w credential_store \<Rightarrow> 'w provider list \<Rightarrow> 'w \<Rightarrow> string list \<times> 'w" where
  "logout_each st [] w = ([], w)"
| "logout_each st (p # ps) w =
     (case pr_logout p st w of
        (r, w') \<Rightarrow>
          (case logout_each st ps w' of
             (failures, w'') \<Rightarrow>
               ((case r of Inl e \<Rightarrow> [pr_id p @ '': '' @ show_provider_error e] | Inr _ \<Rightarrow> []) @ failures, w'')))"

definition logout_all :: "'w credential_store \<Rightarrow> 'w provider_registry \<Rightarrow> 'w \<Rightarrow> (provider_error + unit) \<times> 'w" where
  "logout_all st r w =
     (case logout_each st (map snd (rg_providers r)) w of
        (failures, w') \<Rightarrow> (ensure (failures = []) (CredentialStore (join ''; '' failures)), w'))"

definition gateway_for ::
  "'w credential_store \<Rightarrow> string \<Rightarrow> string option \<Rightarrow> 'w provider_registry \<Rightarrow> 'w \<Rightarrow>
     ((provider_error + 'w gateway) \<times> 'w) option" where
  "gateway_for st route session r w =
     (case model_of r route of
        Inl e \<Rightarrow> Some (Inl e, w)
      | Inr m \<Rightarrow>
          map_option (\<lambda>p. pr_gateway p st (mi_id m) session w) (map_of (rg_providers r) (mi_provider_id m)))"

end
