(* ===== verification/Registry_Invariant.thy ===== *)
theory Registry_Invariant
  imports Provider_Registry
begin

section \<open>The registry stays whole\<close>

text \<open>
  The registries that registration and refreshed catalogues reach: every model belongs to a registered provider, under
  its own route; every provider has its default model in the catalogue; every authentication method belongs to
  a registered provider.
\<close>

inductive reachable_registry :: "'w provider_registry \<Rightarrow> bool" where
  "reachable_registry new_registry"
| "reachable_registry r \<Longrightarrow> register_provider p r = Inr r' \<Longrightarrow> reachable_registry r'"
| "reachable_registry r \<Longrightarrow> replace_provider_models i ms r = Inr (changed, r') \<Longrightarrow> reachable_registry r'"

definition entry_of :: "model_info \<Rightarrow> string \<times> model_info" where
  "entry_of m = (model_route m, m)"

lemma entry_of_simps [simp]: "fst (entry_of m) = model_route m" "snd (entry_of m) = m" "fst \<circ> entry_of = model_route"
  by (auto simp: entry_of_def)

lemma validate_Inr [simp]:
  "validate_component l v = Inr u \<longleftrightarrow> is_component v" "validate_model_id v = Inr u \<longleftrightarrow> is_model_id v"
  by (auto simp: validate_component_def validate_model_id_def)

lemma collect_models_Inr:
  "collect_models ident acc ms = Inr entries \<Longrightarrow>
     entries = acc @ map entry_of ms \<and> (distinct (map fst acc) \<longrightarrow> distinct (map fst entries))
     \<and> (\<forall>m\<in>set ms. is_model_id (mi_id m) \<and> mi_provider_id m = ident)"
proof (induction ms arbitrary: acc)
  case (Cons m ms)
  from Cons.prems have m: "is_model_id (mi_id m)" "mi_provider_id m = ident" "model_route m \<notin> fst ` set acc"
    and c: "collect_models ident (acc @ [entry_of m]) ms = Inr entries"
    by (auto simp: and_then_Inr_iff entry_of_def split: if_splits)
  note ih = Cons.IH [OF c]
  show ?case
  proof (intro conjI impI)
    show "entries = acc @ map entry_of (m # ms)" using ih by simp
    show "\<forall>m\<in>set (m # ms). is_model_id (mi_id m) \<and> mi_provider_id m = ident" using ih m by simp
    assume "distinct (map fst acc)"
    with m have "distinct (map fst (acc @ [entry_of m]))" by simp
    with ih show "distinct (map fst entries)" by blast
  qed
qed simp

lemma collect_models_duplicate:
  "collect_models ident acc ms = Inl (DuplicateModel x) \<Longrightarrow> \<not> distinct (map fst acc @ map model_route ms)"
proof (induction ms arbitrary: acc)
  case (Cons m ms)
  show ?case
  proof (cases "model_route m \<in> fst ` set acc")
    case True
    then show ?thesis by auto
  next
    case False
    with Cons.prems have "collect_models ident (acc @ [(model_route m, m)]) ms = Inl (DuplicateModel x)"
      by (auto simp: and_then_Inl_iff validate_model_id_def ensure_def wrong_provider_def split: if_splits)
    from Cons.IH [OF this] show ?thesis by auto
  qed
qed simp

lemma checked_catalog_Inr:
  assumes "checked_catalog what ident d ms = Inr entries"
  shows "entries = map entry_of ms" "distinct (map fst entries)"
    "\<forall>m\<in>set ms. is_model_id (mi_id m) \<and> mi_provider_id m = ident" "ident @ ''/'' @ d \<in> model_route ` set ms"
proof -
  from assms have c: "collect_models ident [] ms = Inr entries" "ident @ ''/'' @ d \<in> fst ` set entries"
    by (auto simp: checked_catalog_def and_then_Inr_iff)
  from collect_models_Inr [OF c(1)] have e: "entries = map entry_of ms" "distinct (map fst entries)"
    "\<forall>m\<in>set ms. is_model_id (mi_id m) \<and> mi_provider_id m = ident"
    by (metis append_Nil, metis distinct.simps(1) list.map(1), metis)
  with c(2) show "entries = map entry_of ms" "distinct (map fst entries)"
    "\<forall>m\<in>set ms. is_model_id (mi_id m) \<and> mi_provider_id m = ident" "ident @ ''/'' @ d \<in> model_route ` set ms"
    by (auto simp: e(1) image_iff)
qed

text \<open>The provider is what stands before the first slash of a route.\<close>

lemma route_provider:
  assumes "model_route m = model_route m'" and "is_component (mi_provider_id m)" "is_component (mi_provider_id m')"
  shows "mi_provider_id m = mi_provider_id m' \<and> mi_id m = mi_id m'"
proof -
  have t: "takeWhile (\<lambda>c. c \<noteq> CHR ''/'') (p @ CHR ''/'' # i) = p \<and> dropWhile (\<lambda>c. c \<noteq> CHR ''/'') (p @ CHR ''/'' # i) = CHR ''/'' # i"
    if "is_component p" for p i
  proof -
    from that have "CHR ''/'' \<notin> set p" by (simp add: is_component_def)
    then show ?thesis by (induction p) auto
  qed
  have parts: "mi_provider_id x = takeWhile (\<lambda>c. c \<noteq> CHR ''/'') (model_route x)"
    "CHR ''/'' # mi_id x = dropWhile (\<lambda>c. c \<noteq> CHR ''/'') (model_route x)" if "is_component (mi_provider_id x)" for x
    using t [OF that, of "mi_id x"] by (simp_all add: model_route_def)
  show ?thesis using parts [OF assms(2)] parts [OF assms(3)] by (metis assms(1) list.inject)
qed

definition default_entry :: "string \<times> 'w provider \<Rightarrow> string" where
  "default_entry e = fst e @ ''/'' @ pr_default_model (snd e)"

definition entry_ok :: "'w provider_registry \<Rightarrow> string \<times> model_info \<Rightarrow> bool" where
  "entry_ok r e \<longleftrightarrow> fst e = model_route (snd e) \<and> is_component (mi_provider_id (snd e))
     \<and> mi_provider_id (snd e) \<in> fst ` set (rg_providers r)"

definition provider_ok :: "'w provider_registry \<Rightarrow> string \<times> 'w provider \<Rightarrow> bool" where
  "provider_ok r e \<longleftrightarrow> fst e = pr_id (snd e) \<and> is_component (fst e)
     \<and> default_entry e \<in> fst ` set (rg_models r)"

definition catalog_ok :: "'w provider_registry \<Rightarrow> bool" where
  "catalog_ok r \<longleftrightarrow>
     sorted_wrt (<) (map fst (rg_models r)) \<and> sorted_wrt (<) (map fst (rg_providers r))
   \<and> (\<forall>e\<in>set (rg_models r). entry_ok r e) \<and> (\<forall>e\<in>set (rg_providers r). provider_ok r e)
   \<and> (\<forall>e\<in>set (rg_auth_methods r). ra_provider_id (snd e) \<in> fst ` set (rg_providers r))
   \<and> (case rg_default_route r of
        None \<Rightarrow> rg_providers r = []
      | Some d \<Rightarrow> \<exists>e\<in>set (rg_providers r). d = default_entry e)"

lemma collect_methods_Inr:
  "collect_methods ident registered acc ms = Inr methods \<Longrightarrow> \<forall>e\<in>set acc. ra_provider_id (snd e) = ident \<Longrightarrow>
     \<forall>e\<in>set methods. ra_provider_id (snd e) = ident"
proof (induction ms arbitrary: acc)
  case (Cons m ms)
  from Cons.prems(1) have "collect_methods ident registered (acc @ [(auth_route ident (am_id m),
      \<lparr>ra_provider_id = ident, ra_local_id = am_id m, ra_descriptor = m\<lparr>am_id := auth_route ident (am_id m)\<rparr>\<rparr>)]) ms = Inr methods"
    by (auto simp: and_then_Inr_iff Let_def split: if_splits)
  from Cons.IH [OF this] Cons.prems(2) show ?case by simp
qed simp

lemma set_map_extend: "set (map_extend new xs) \<subseteq> set new \<union> set xs"
proof (induction new arbitrary: xs)
  case (Cons e new)
  have "set (map_insert k v xs) \<subseteq> insert (k, v) (set xs)" for k v
    by (induction k v xs rule: map_insert.induct) auto
  from this [of "fst e" "snd e"] have "set (map_insert (fst e) (snd e) xs) \<subseteq> insert e (set xs)" by simp
  moreover have "map_extend (e # new) xs = map_extend new (map_insert (fst e) (snd e) xs)"
    by (simp add: map_extend_def split_def)
  ultimately show ?case using Cons [of "map_insert (fst e) (snd e) xs"] by auto
qed (simp add: map_extend_def)

lemma keys_map_extend: "fst ` set (map_extend new xs) = fst ` set new \<union> fst ` set xs"
  by (induction new arbitrary: xs) (auto simp: map_extend_def keys_map_insert split_def)

lemma register_catalog_ok:
  assumes ok: "catalog_ok r" and reg: "register_provider p r = Inr r'"
  shows "catalog_ok r'"
proof -
  from reg obtain entries methods where c: "is_component (pr_id p)" "pr_id p \<notin> fst ` set (rg_providers r)"
    "checked_catalog ''catalog'' (pr_id p) (pr_default_model p) (pr_models p) = Inr entries"
    "collect_methods (pr_id p) (rg_auth_methods r) [] (pr_auth_methods p) = Inr methods"
    "r' = r\<lparr>rg_models := map_extend entries (rg_models r), rg_auth_methods := map_extend methods (rg_auth_methods r),
        rg_default_route := or_else (rg_default_route r) (Some (pr_id p @ ''/'' @ pr_default_model p)),
        rg_providers := map_insert (pr_id p) p (rg_providers r)\<rparr>"
    by (auto simp: register_provider_def and_then_Inr_iff split: option.splits)
  note cat = checked_catalog_Inr [OF c(3)]
  note providers = map_insert_fresh_set [OF c(2), of p]
  have keys: "fst ` set (rg_providers r') = insert (pr_id p) (fst ` set (rg_providers r))"
    by (simp add: c(5) keys_map_insert)
  have models: "fst ` set (rg_models r') = fst ` set entries \<union> fst ` set (rg_models r)"
    by (simp add: c(5) keys_map_extend)
  have "entry_ok r' e" if "e \<in> set (rg_models r')" for e
  proof -
    from that set_map_extend [of entries "rg_models r"] have "e \<in> set entries \<or> e \<in> set (rg_models r)"
      by (auto simp: c(5))
    then show ?thesis
      using cat(3) ok c(1) keys by (auto simp: cat(1) entry_ok_def catalog_ok_def)
  qed
  moreover have "provider_ok r' e" if "e \<in> set (rg_providers r')" for e
  proof -
    from that consider "e = (pr_id p, p)" | "e \<in> set (rg_providers r)" using providers by (auto simp: c(5))
    then show ?thesis
    proof cases
      case 1
      with c(1) cat(4) models show ?thesis
        by (auto simp: provider_ok_def default_entry_def cat(1) image_image)
    next
      case 2
      with ok have "provider_ok r e" by (simp add: catalog_ok_def)
      with models show ?thesis unfolding provider_ok_def by blast
    qed
  qed
  moreover have "ra_provider_id (snd e) \<in> fst ` set (rg_providers r')" if "e \<in> set (rg_auth_methods r')" for e
  proof -
    from that set_map_extend [of methods "rg_auth_methods r"] have "e \<in> set methods \<or> e \<in> set (rg_auth_methods r)"
      by (auto simp: c(5))
    with collect_methods_Inr [OF c(4)] ok keys show ?thesis by (auto simp: catalog_ok_def)
  qed
  moreover have "\<exists>e\<in>set (rg_providers r'). d = default_entry e"
    if "rg_default_route r' = Some d" for d
    using that ok providers by (cases "rg_default_route r") (auto simp: c(5) catalog_ok_def default_entry_def)
  moreover have "rg_default_route r' \<noteq> None" by (cases "rg_default_route r") (simp_all add: c(5))
  moreover have "sorted_wrt (<) (map fst (rg_models r'))" "sorted_wrt (<) (map fst (rg_providers r'))"
    using ok by (simp_all add: c(5) catalog_ok_def map_extend_sorted map_insert_sorted)
  ultimately show ?thesis unfolding catalog_ok_def by (auto split: option.splits)
qed

text \<open>What a refreshed catalogue leaves.\<close>

definition others :: "string \<Rightarrow> (string \<times> model_info) list \<Rightarrow> (string \<times> model_info) list" where
  "others i = filter (\<lambda>(_, m). mi_provider_id m \<noteq> i)"

lemma replaced:
  assumes "replace_provider_models i ms r = Inr (changed, r')" and "sorted_wrt (<) (map fst (rg_models r))"
  obtains entries p where "map_of (rg_providers r) i = Some p"
    "checked_catalog ''refreshed catalog'' i (pr_default_model p) ms = Inr entries"
    "r' = r\<lparr>rg_models := map_extend (map_extend entries []) (others i (rg_models r))\<rparr>"
    "changed = (rg_models r \<noteq> rg_models r')"
proof -
  from assms(1) obtain entries p where "map_of (rg_providers r) i = Some p"
    "checked_catalog ''refreshed catalog'' i (pr_default_model p) ms = Inr entries"
    "r' = r\<lparr>rg_models := map_extend (map_extend entries []) (others i (rg_models r))\<rparr>"
    "changed = (rg_models r \<noteq> rg_models r')"
    by (auto simp: replace_provider_models_def and_then_Inr_iff Let_def others_def split: option.splits if_splits)
  then show thesis by (rule that)
qed

lemma sorted_filter_keys: "sorted_wrt (<) (map fst xs) \<Longrightarrow> sorted_wrt (<) (map fst (filter P xs))"
  by (induction xs) auto

lemma extend_nothing:
  assumes "distinct (map fst es)"
  shows "map_of (map_extend es []) = map_of es" "distinct (map fst (map_extend es []))"
    "set (map_extend es []) \<subseteq> set es" "fst ` set (map_extend es []) = fst ` set es"
  using map_of_map_extend [OF assms, of "[]"] map_extend_sorted [of "[]" es] set_map_extend [of es "[]"]
    keys_map_extend [of es "[]"] by (simp_all add: sorted_keys_distinct)

lemma replace_ok:
  assumes ok: "catalog_ok r" and rep: "replace_provider_models i ms r = Inr (changed, r')"
  shows "catalog_ok r'"
proof -
  from ok have s: "sorted_wrt (<) (map fst (rg_models r))" by (simp add: catalog_ok_def)
  from replaced [OF rep s] obtain entries p where p: "map_of (rg_providers r) i = Some p"
    "checked_catalog ''refreshed catalog'' i (pr_default_model p) ms = Inr entries"
    "r' = r\<lparr>rg_models := map_extend (map_extend entries []) (others i (rg_models r))\<rparr>" by metis
  note cat = checked_catalog_Inr [OF p(2)]
  note entries_map = extend_nothing [OF cat(2)]
  from p(1) have ip: "(i, p) \<in> set (rg_providers r)" by (rule map_of_SomeD)
  have keys: "fst ` set (rg_models r') = fst ` set entries \<union> fst ` set (others i (rg_models r))"
    using entries_map(4) by (simp add: p(3) keys_map_extend)
  have "entry_ok r' e" if "e \<in> set (rg_models r')" for e
  proof -
    from that set_map_extend [of "map_extend entries []" "others i (rg_models r)"] entries_map(3)
    consider "e \<in> set entries" | "e \<in> set (rg_models r)" by (auto simp: p(3) others_def)
    then show ?thesis
    proof cases
      case 1
      then obtain m where m: "m \<in> set ms" "e = entry_of m" by (auto simp: cat(1))
      from ip have "i \<in> fst ` set (rg_providers r)" by force
      moreover from ip ok have "is_component i" by (auto simp: catalog_ok_def provider_ok_def)
      ultimately show ?thesis using m cat(3) by (simp add: entry_ok_def p(3))
    next
      case 2
      with ok show ?thesis by (simp add: catalog_ok_def entry_ok_def p(3))
    qed
  qed
  moreover have "provider_ok r' e" if "e \<in> set (rg_providers r')" for e
  proof -
    from that ok have e: "e \<in> set (rg_providers r)" "provider_ok r e" by (auto simp: p(3) catalog_ok_def)
    show ?thesis
    proof (cases "fst e = i")
      case True
      with e(1) p(1) ok have "snd e = p"
        by (metis map_of_is_SomeI option.inject prod.collapse catalog_ok_def sorted_keys_distinct)
      with True e(2) cat(4) keys show ?thesis
        by (auto simp: provider_ok_def default_entry_def cat(1) image_image)
    next
      case False
      from e(2) obtain m where m: "(default_entry e, m) \<in> set (rg_models r)"
        by (auto simp: provider_ok_def)
      with ok have "model_route m = default_entry e" "is_component (mi_provider_id m)"
        by (auto simp: catalog_ok_def entry_ok_def)
      moreover have "model_route \<lparr>mi_provider_id = fst e, mi_id = pr_default_model (snd e), mi_name = [], mi_context_window = 0,
          mi_max_output_tokens = 0, mi_reasoning = False, mi_native_web_search = None\<rparr> = default_entry e"
        by (simp add: model_route_def default_entry_def)
      ultimately have "mi_provider_id m = fst e" using route_provider e(2) by (fastforce simp: provider_ok_def)
      with m False have "(default_entry e, m) \<in> set (others i (rg_models r))"
        by (simp add: others_def)
      with keys have "default_entry e \<in> fst ` set (rg_models r')" by force
      with e(2) show ?thesis unfolding provider_ok_def by blast
    qed
  qed
  moreover have "sorted_wrt (<) (map fst (rg_models r'))"
    using s by (simp add: p(3) map_extend_sorted others_def sorted_filter_keys)
  ultimately show ?thesis using ok by (simp add: catalog_ok_def p(3) split: option.splits)
qed

lemma reachable_catalog_ok: "reachable_registry r \<Longrightarrow> catalog_ok r"
proof (induction rule: reachable_registry.induct)
  case 1
  show ?case by (simp add: new_registry_def catalog_ok_def)
next
  case (2 r p r')
  then show ?case using register_catalog_ok by blast
next
  case (3 r i ms changed r')
  then show ?case using replace_ok by blast
qed

subsection \<open>Properties\<close>

lemma refresh_catalog_ok:
  assumes "catalog_ok r" and "i \<in> fst ` set (rg_providers r)"
  shows "\<exists>out r' w'. refresh_provider_catalog st i r w = Some (out, r', w') \<and> catalog_ok r' \<and> rg_providers r' = rg_providers r"
proof -
  from assms(2) obtain p where p: "map_of (rg_providers r) i = Some p"
    by (metis domD dom_map_of_conv_image_fst)
  have "catalog_ok r' \<and> rg_providers r' = rg_providers r" if "replace_provider_models i ms r = Inr (c, r')" for ms c r'
    using replace_ok [OF assms(1) that] that
    by (auto simp: replace_provider_models_def and_then_Inr_iff Let_def split: option.splits if_splits)
  with p assms(1) show ?thesis
    by (auto simp: refresh_provider_catalog_def split: prod.splits sum.splits option.splits)
qed

lemma refresh_each_ok:
  "catalog_ok r \<Longrightarrow> set is \<subseteq> fst ` set (rg_providers r) \<Longrightarrow> refresh_each st is b ws r w \<noteq> None"
proof (induction "is" arbitrary: b ws r w)
  case (Cons i "is")
  from refresh_catalog_ok [OF Cons.prems(1), of i st w] Cons.prems(2) obtain out r' w' where
    s: "refresh_provider_catalog st i r w = Some (out, r', w')" "catalog_ok r'" "rg_providers r' = rg_providers r"
    by auto
  with Cons.IH [of r'] Cons.prems(2) show ?case by simp
qed simp

text \<open>
  C25. In every registry that registrations and refreshed catalogues reach, no operation indexes a map without the
  key: authentication, refreshing and the choice of a gateway have a value for every input; and once a provider is
  registered, the default model is in the catalogue.
\<close>

theorem registry_never_panics:
  assumes "reachable_registry r"
  shows "authenticate st method_id r w \<noteq> None \<and> refresh_models st r w \<noteq> None
    \<and> gateway_for st route session r w \<noteq> None
    \<and> (rg_providers r \<noteq> [] \<longrightarrow> (\<exists>m. default_model_of r = Inr m))"
proof -
  note ok = reachable_catalog_ok [OF assms]
  have lookup: "\<exists>p. map_of (rg_providers r) i = Some p" if "i \<in> fst ` set (rg_providers r)" for i
    using that by (metis domD dom_map_of_conv_image_fst)
  have "authenticate st method_id r w \<noteq> None"
  proof (cases "map_of (rg_auth_methods r) method_id")
    case (Some m)
    from ok have all: "\<forall>e\<in>set (rg_auth_methods r). ra_provider_id (snd e) \<in> fst ` set (rg_providers r)"
      by (simp add: catalog_ok_def)
    from bspec [OF all map_of_SomeD [OF Some]] have i: "ra_provider_id m \<in> fst ` set (rg_providers r)" by simp
    from lookup [OF i] obtain p where p: "map_of (rg_providers r) (ra_provider_id m) = Some p" by blast
    obtain a w' where a: "pr_authenticate p st (ra_local_id m) w = (a, w')" by fastforce
    from refresh_catalog_ok [OF ok i, of st w'] obtain x where "refresh_provider_catalog st (ra_provider_id m) r w' = Some x"
      by blast
    with Some p a have "authenticate st method_id r w = (case a of Inl e \<Rightarrow> Some (Inl e, r, w')
        | Inr _ \<Rightarrow> map_option (\<lambda>(out, r', w''). (Inr out, r', w'')) (Some x))"
      by (cases a; cases x) (simp_all add: authenticate_def)
    then show ?thesis by (cases x; cases a) simp_all
  qed (simp add: authenticate_def)
  moreover have "refresh_models st r w \<noteq> None"
    using refresh_each_ok [OF ok, of "map fst (rg_providers r)"] by (simp add: refresh_models_def)
  moreover have "gateway_for st route session r w \<noteq> None"
  proof (cases "map_of (rg_models r) route")
    case (Some m)
    from ok have "\<forall>e\<in>set (rg_models r). entry_ok r e" by (simp add: catalog_ok_def)
    from bspec [OF this map_of_SomeD [OF Some]] have "mi_provider_id m \<in> fst ` set (rg_providers r)"
      by (simp add: entry_ok_def)
    from lookup [OF this] Some show ?thesis by (auto simp: gateway_for_def model_of_def)
  qed (simp add: gateway_for_def model_of_def)
  moreover have "\<exists>m. default_model_of r = Inr m" if "rg_providers r \<noteq> []"
  proof -
    from that ok obtain d e where d: "rg_default_route r = Some d" "e \<in> set (rg_providers r)" "d = default_entry e"
      by (auto simp: catalog_ok_def split: option.splits)
    with ok have "d \<in> fst ` set (rg_models r)" by (simp add: catalog_ok_def provider_ok_def)
    then obtain m where "map_of (rg_models r) d = Some m" by (metis domD dom_map_of_conv_image_fst)
    with d(1) show ?thesis by (simp add: default_model_of_def model_of_def)
  qed
  ultimately show ?thesis by blast
qed

text \<open>
  C26. A refreshed catalogue is taken whole or not at all: where it is taken, the provider's models are exactly those of
  the new catalogue, the models of every other provider and everything else of the registry are as before, and
  the answer tells whether the catalogue changed.
\<close>

theorem catalogues_are_replaced_whole:
  assumes "reachable_registry r" and "replace_provider_models i ms r = Inr (changed, r')"
  shows "{m. \<exists>route. map_of (rg_models r') route = Some m \<and> mi_provider_id m = i} = set ms
    \<and> (\<forall>route m. mi_provider_id m \<noteq> i \<longrightarrow> (map_of (rg_models r') route = Some m) = (map_of (rg_models r) route = Some m))
    \<and> rg_providers r' = rg_providers r \<and> rg_auth_methods r' = rg_auth_methods r
    \<and> rg_default_route r' = rg_default_route r \<and> changed = (rg_models r' \<noteq> rg_models r)"
proof -
  note ok = reachable_catalog_ok [OF assms(1)]
  from ok have s: "sorted_wrt (<) (map fst (rg_models r))" by (simp add: catalog_ok_def)
  from replaced [OF assms(2) s] obtain entries p where p: "map_of (rg_providers r) i = Some p"
    "checked_catalog ''refreshed catalog'' i (pr_default_model p) ms = Inr entries"
    "r' = r\<lparr>rg_models := map_extend (map_extend entries []) (others i (rg_models r))\<rparr>"
    "changed = (rg_models r \<noteq> rg_models r')" by metis
  note cat = checked_catalog_Inr [OF p(2)]
  note entries_map = extend_nothing [OF cat(2)]
  have m: "map_of (rg_models r') = map_of (others i (rg_models r)) ++ map_of entries"
    by (simp add: p(3) map_of_map_extend [OF entries_map(2)] entries_map(1))
  have mine: "map_of entries route = Some x \<longleftrightarrow> x \<in> set ms \<and> route = model_route x" for route x
    using cat(2) by (auto simp: cat(1) entry_of_def map_of_eq_Some_iff image_iff)
  have mine_id: "mi_provider_id x = i" if "x \<in> set ms" for x using cat(3) that by blast
  have d: "distinct (map fst (rg_models r))" using s by (rule sorted_keys_distinct)
  then have do: "distinct (map fst (others i (rg_models r)))" by (simp add: others_def distinct_map_filter)
  have theirs: "map_of (others i (rg_models r)) route = Some x \<longleftrightarrow> map_of (rg_models r) route = Some x \<and> mi_provider_id x \<noteq> i" for route x
    using d do by (auto simp: map_of_eq_Some_iff others_def)
  have apart: "map_of entries route = None" if "map_of (others i (rg_models r)) route = Some x" for route x
  proof (rule ccontr)
    assume "map_of entries route \<noteq> None"
    then obtain y where y: "y \<in> set ms" "route = model_route y" using mine by blast
    from that theirs have x: "map_of (rg_models r) route = Some x" "mi_provider_id x \<noteq> i" by blast+
    with ok have "route = model_route x" "is_component (mi_provider_id x)"
      by (auto simp: catalog_ok_def entry_ok_def dest!: map_of_SomeD)
    moreover from p(1) ok have "is_component i" by (auto simp: catalog_ok_def provider_ok_def dest!: map_of_SomeD)
    ultimately show False using route_provider [of x y] y mine_id x(2) by simp
  qed
  have all: "map_of (rg_models r') route = Some x \<longleftrightarrow>
      (x \<in> set ms \<and> route = model_route x) \<or> (map_of (rg_models r) route = Some x \<and> mi_provider_id x \<noteq> i)" for route x
    using mine theirs apart by (auto simp: m map_add_Some_iff)
  show ?thesis
  proof (intro conjI allI impI)
    show "{x. \<exists>route. map_of (rg_models r') route = Some x \<and> mi_provider_id x = i} = set ms"
      using mine_id by (auto simp: all)
    show "(map_of (rg_models r') route = Some x) = (map_of (rg_models r) route = Some x)" if "mi_provider_id x \<noteq> i" for route x
      using that mine_id by (auto simp: all)
  qed (use p in auto)
qed

text \<open>A provider with two models.\<close>

definition sample_model :: "string \<Rightarrow> model_info" where
  "sample_model i =
     \<lparr>mi_provider_id = ''p'', mi_id = i, mi_name = i, mi_context_window = 1, mi_max_output_tokens = 1,
      mi_reasoning = False, mi_native_web_search = None\<rparr>"

definition sample_provider :: "'w provider" where
  "sample_provider =
     \<lparr>pr_id = ''p'', pr_name = ''P'', pr_models = [sample_model ''a''], pr_default_model = ''a'', pr_auth_methods = [],
      pr_authenticate = (\<lambda>_ _ w. (Inr (), w)), pr_refresh_models = static_refresh, pr_logout = default_logout ''p'',
      pr_gateway = (\<lambda>_ _ _ w. (Inl (Transport ''none''), w))\<rparr>"

definition sample_registry :: "'w provider_registry" where
  "sample_registry =
     \<lparr>rg_providers = [(''p'', sample_provider)], rg_models = [(''p/a'', sample_model ''a'')], rg_auth_methods = [],
      rg_default_route = Some ''p/a''\<rparr>"

lemma sample_ids: "is_component ''p''" "is_component ''a''" "is_component ''b''" "is_model_id ''a''" "is_model_id ''b''"
  by code_simp+

lemma sample_validated:
  "validate_component l ''p'' = Inr ()" "validate_model_id ''a'' = Inr ()" "validate_model_id ''b'' = Inr ()"
  by (simp_all add: validate_component_def validate_model_id_def sample_ids)

lemma sample_registered: "register_provider sample_provider new_registry = Inr sample_registry"
  by (simp add: register_provider_def sample_provider_def new_registry_def sample_registry_def sample_validated checked_catalog_def
      sample_model_def model_route_def map_extend_def)

lemma sample_reachable: "reachable_registry sample_registry"
  by (rule reachable_registry.intros(2) [OF reachable_registry.intros(1) sample_registered])

theorem registry_never_panics_witness: "\<exists>m. default_model_of (sample_registry :: unit provider_registry) = Inr m"
proof -
  have "rg_providers (sample_registry :: unit provider_registry) \<noteq> []" by (simp add: sample_registry_def)
  moreover have "reachable_registry (sample_registry :: unit provider_registry)" by (rule sample_reachable)
  ultimately show ?thesis using registry_never_panics [of "sample_registry :: unit provider_registry"] by blast
qed

theorem catalogues_are_replaced_whole_witness:
  "\<exists>r' :: unit provider_registry.
     replace_provider_models ''p'' [sample_model ''b'', sample_model ''a''] sample_registry = Inr (True, r')
   \<and> {m. \<exists>route. map_of (rg_models r') route = Some m \<and> mi_provider_id m = ''p''} = {sample_model ''b'', sample_model ''a''}"
proof -
  have "\<exists>r' :: unit provider_registry.
      replace_provider_models ''p'' [sample_model ''b'', sample_model ''a''] sample_registry = Inr (True, r')"
    by (simp add: replace_provider_models_def sample_registry_def sample_provider_def checked_catalog_def sample_validated
        sample_model_def model_route_def map_extend_def)
  then show ?thesis using catalogues_are_replaced_whole [OF sample_reachable] by fastforce
qed

end
