(* ===== verification/Credentials.thy ===== *)
theory Credentials
  imports File_Mutation Session_Json Provider_Registry
begin

section \<open>Stored credentials\<close>

text \<open>
  \<open>fx-auth/src/lib.rs\<close>: one file per provider below a private directory, written whole, and a lock. The
  files are those of \<open>Disk\<close>; \<open>serde_json\<close> is \<open>print\<close> and \<open>parse\<close>. How the wait for the lock ends is an input of
  the call that takes it.
\<close>

definition format_version :: nat where "format_version = 1"
definition max_credential_bytes :: nat where "max_credential_bytes = 64 * 1024"

subsection \<open>The stored form\<close>

definition attributes_json :: "(string \<times> string) list \<Rightarrow> json" where
  "attributes_json attributes = JObject (map (\<lambda>(k, v). (k, JString v)) attributes)"

fun credential_json :: "credential \<Rightarrow> json" where
  "credential_json (ApiKey secret attributes) =
     JObject [(''kind'', JString ''api_key''), (''secret'', JString secret), (''attributes'', attributes_json attributes)]"
| "credential_json (OAuth access refresh expires attributes) =
     JObject ([(''kind'', JString ''o_auth''), (''access_token'', JString access)]
       @ some_field ''refresh_token'' refresh
       @ [(''expires_at_ms'', JNumber (sint expires)), (''attributes'', attributes_json attributes)])"

text \<open>A \<open>BTreeMap<String, String>\<close>; of a key that is there twice the last value counts.\<close>

definition attributes_of_json :: "json \<Rightarrow> (string \<times> string) list option" where
  "attributes_of_json v =
     (case v of
        JObject obj \<Rightarrow>
          map_option (\<lambda>es. map_extend es [])
            (those (map (\<lambda>(k, v). map_option (Pair k) (as_str v)) obj))
      | _ \<Rightarrow> None)"

text \<open>An internally tagged enum: the tag is a field of the object, once, or the first value of an array.\<close>

definition tagged :: "string \<Rightarrow> json \<Rightarrow> (string \<times> json) option" where
  "tagged tag v =
     (case v of
        JObject obj \<Rightarrow>
          (case filter (\<lambda>(k, _). k = tag) obj of
             [(_, JString t)] \<Rightarrow> Some (t, JObject (filter (\<lambda>(k, _). k \<noteq> tag) obj))
           | _ \<Rightarrow> None)
      | JArray (JString t # vs) \<Rightarrow> Some (t, JArray vs)
      | _ \<Rightarrow> None)"

definition credential_of_json :: "json \<Rightarrow> credential option" where
  "credential_of_json v =
     (case tagged ''kind'' v of
        None \<Rightarrow> None
      | Some (kind, body) \<Rightarrow>
          if kind = ''api_key'' then
            Option.bind (struct_fields [''secret'', ''attributes''] body) (\<lambda>obj.
            Option.bind (string_field obj ''secret'') (\<lambda>secret.
            Option.bind (default_field [] attributes_of_json obj ''attributes'') (\<lambda>attributes.
              Some (ApiKey secret attributes))))
          else if kind = ''o_auth'' then
            Option.bind (struct_fields [''access_token'', ''refresh_token'', ''expires_at_ms'', ''attributes''] body) (\<lambda>obj.
            Option.bind (string_field obj ''access_token'') (\<lambda>access.
            Option.bind (opt_string_field obj ''refresh_token'') (\<lambda>refresh.
            Option.bind (i64_field obj ''expires_at_ms'') (\<lambda>expires.
            Option.bind (default_field [] attributes_of_json obj ''attributes'') (\<lambda>attributes.
              Some (OAuth access refresh (word_of_int expires) attributes))))))
          else None)"

definition stored_json :: "credential \<Rightarrow> json" where
  "stored_json c = JObject [(''version'', json_nat format_version), (''credential'', credential_json c)]"

text \<open>\<open>deny_unknown_fields\<close>.\<close>

definition stored_of_json :: "json \<Rightarrow> (nat \<times> credential) option" where
  "stored_of_json v =
     Option.bind (struct_fields [''version'', ''credential''] v) (\<lambda>obj.
       if set (map fst obj) \<subseteq> {''version'', ''credential''} then
         Option.bind (nat_field u32_max obj ''version'') (\<lambda>version.
         Option.bind (Option.bind (map_of obj ''credential'') credential_of_json) (\<lambda>c. Some (version, c)))
       else None)"

subsection \<open>Files\<close>

type_synonym 'a store_action = "tool_world \<Rightarrow> (provider_error + 'a) \<times> tool_world"

definition store_failed :: "string \<Rightarrow> io_error \<Rightarrow> provider_error" where
  "store_failed operation e = CredentialStore (operation @ '': '' @ io_message e)"

definition is_private :: "file_meta \<Rightarrow> bool" where
  "is_private m \<longleftrightarrow> and (fm_mode m) 63 = 0"

text \<open>\<open>O_NOFOLLOW\<close>: a link is not opened.\<close>

definition open_no_follow :: "string \<Rightarrow> disk \<Rightarrow> io_error + disk_node" where
  "open_no_follow path d =
     and_then (entry_node d path) (\<lambda>v. case v of LinkNode _ \<Rightarrow> Inl eloop | _ \<Rightarrow> Inr v)"

definition if_there :: "io_error + 'a \<Rightarrow> io_error + 'a option" where
  "if_there r = (case r of Inl e \<Rightarrow> if io_not_found e then Inr None else Inl e | Inr v \<Rightarrow> Inr (Some v))"

definition decode_stored :: "(string \<Rightarrow> string + json) \<Rightarrow> string \<Rightarrow> string \<Rightarrow> provider_error + credential" where
  "decode_stored parse path bytes =
     (if max_credential_bytes < length bytes then
        Inl (CredentialStore (''credential `'' @ path @ ''` exceeds 64 KiB''))
      else
        case Option.bind (case parse bytes of Inl _ \<Rightarrow> None | Inr v \<Rightarrow> Some v) stored_of_json of
          None \<Rightarrow> Inl (CredentialStore (''credential `'' @ path @ ''` is corrupt or has an unsupported schema''))
        | Some (version, c) \<Rightarrow>
            if version \<noteq> format_version then
              Inl (CredentialStore (''credential `'' @ path @ ''` uses unsupported version '' @ show_nat version))
            else Inr c)"

text \<open>The file is opened once; its metadata and its bytes are those of the handle.\<close>

definition read_credential :: "(string \<Rightarrow> string + json) \<Rightarrow> string \<Rightarrow> credential option store_action" where
  "read_credential parse path =
     seq (disk_look (store_failed ''opening credential'') (\<lambda>d. if_there (open_no_follow path d))) (\<lambda>opened.
       case opened of
         None \<Rightarrow> give None
       | Some node \<Rightarrow>
           seq (disk_look (store_failed ''inspecting credential'') (\<lambda>_. Inr ())) (\<lambda>_.
           case node of
             FileNode m bytes \<Rightarrow>
               if \<not> is_private m then
                 fail (CredentialStore (''credential `'' @ path @ ''` is not a private regular file''))
               else
                 seq (disk_look (store_failed ''reading credential'') (\<lambda>_. Inr ())) (\<lambda>_.
                   lift (and_then (decode_stored parse path bytes) (\<lambda>c. Inr (Some c))))
           | _ \<Rightarrow> fail (CredentialStore (''credential `'' @ path @ ''` is not a private regular file''))))"

text \<open>\<open>symlink_metadata(path).is_ok_and(is_symlink)\<close>: a failed look says no.\<close>

definition is_link :: "string \<Rightarrow> bool store_action" where
  "is_link path w =
     (case next_moment w of
        (Some _, w) \<Rightarrow> (Inr False, w)
      | (None, w) \<Rightarrow> (Inr (case entry_node (tw_disk w) path of Inr (LinkNode _) \<Rightarrow> True | _ \<Rightarrow> False), w))"

definition private_mode :: "32 word" where "private_mode = 384"

definition write_credential :: "(json \<Rightarrow> string) \<Rightarrow> string \<Rightarrow> credential \<Rightarrow> unit store_action" where
  "write_credential print_json path c =
     seq (is_link path) (\<lambda>link.
       if link then fail (CredentialStore (''credential `'' @ path @ ''` is a symbolic link''))
       else
         let bytes = print_json (stored_json c) @ [CHR 0x0A] in
         if max_credential_bytes < length bytes then fail (CredentialStore ''serialized credential exceeds 64 KiB'')
         else
           seq (disk_look (store_failed ''staging credential'') (\<lambda>d. and_then (locate_entry d path) (\<lambda>_. Inr ()))) (\<lambda>_.
           seq (disk_look (store_failed ''securing credential file'') (\<lambda>_. Inr ())) (\<lambda>_.
           seq (disk_look (store_failed ''writing credential'') (\<lambda>_. Inr ())) (\<lambda>_.
             disk_call (store_failed ''committing credential'') (replace_file path (Some private_mode) bytes)))))"

definition delete_credential :: "string \<Rightarrow> unit store_action" where
  "delete_credential path =
     seq (disk_look (store_failed ''inspecting credential'') (\<lambda>d. if_there (entry_node d path))) (\<lambda>found.
       case found of
         None \<Rightarrow> give ()
       | Some (FileNode _ _) \<Rightarrow> disk_call (store_failed ''deleting credential'') (remove_file path)
       | Some _ \<Rightarrow> fail (CredentialStore (''credential path `'' @ path @ ''` is not a regular file'')))"

subsection \<open>Directories and locks\<close>

text \<open>\<open>set_permissions\<close> of what a path leads to.\<close>

definition with_mode :: "32 word \<Rightarrow> disk_node \<Rightarrow> disk_node" where
  "with_mode bits v =
     (case v of
        FileNode m b \<Rightarrow> FileNode (m\<lparr>fm_mode := bits\<rparr>) b
      | DirNode m \<Rightarrow> DirNode (m\<lparr>fm_mode := bits\<rparr>)
      | OtherNode m \<Rightarrow> OtherNode (m\<lparr>fm_mode := bits\<rparr>)
      | LinkNode t \<Rightarrow> LinkNode t)"

definition set_mode :: "string \<Rightarrow> 32 word \<Rightarrow> disk \<Rightarrow> (io_error + unit) \<times> disk" where
  "set_mode path bits d =
     (case locate d path of
        Inl e \<Rightarrow> (Inl e, d)
      | Inr p \<Rightarrow>
          if p = [] then (Inr (), d\<lparr>dk_root := (dk_root d)\<lparr>fm_mode := bits\<rparr>\<rparr>)
          else
            case node_at d p of
              None \<Rightarrow> (Inl enoent, d)
            | Some v \<Rightarrow> (Inr (), set_node p (with_mode bits v) d))"

definition ensure_private_dir :: "string \<Rightarrow> unit store_action" where
  "ensure_private_dir path =
     seq (disk_look (store_failed ''inspecting credential directory'') (\<lambda>d. if_there (entry_node d path))) (\<lambda>found.
     seq (case found of
            None \<Rightarrow> disk_call (store_failed ''creating credential directory'') (create_dir_all path)
          | Some (DirNode _) \<Rightarrow> give ()
          | Some _ \<Rightarrow> fail (CredentialStore (''credential directory `'' @ path @ ''` is not a directory''))) (\<lambda>_.
       disk_call (store_failed ''securing credential directory'') (set_mode path 448)))"

text \<open>
  Opening the lock file creates it; it is not followed through a link. A handle is a place and the inode that was
  there; its mode is set as long as the file is in its place (one that was moved away is out of the model).
\<close>

definition open_lock :: "string \<Rightarrow> disk \<Rightarrow> (io_error + (names \<times> nat)) \<times> disk" where
  "open_lock path d =
     (case locate_entry d path of
        Inl e \<Rightarrow> (Inl e, d)
      | Inr p \<Rightarrow>
          (case node_at d p of
             None \<Rightarrow>
               (Inr (p, fm_inode (dk_fresh d)),
                used_inode (set_node p (FileNode ((dk_fresh d)\<lparr>fm_mode := private_mode\<rparr>) []) d))
           | Some (LinkNode _) \<Rightarrow> (Inl eloop, d)
           | Some (DirNode _) \<Rightarrow> (Inl eisdir, d)
           | Some v \<Rightarrow> (Inr (p, fm_inode (node_meta v)), d)))"

definition set_handle_mode :: "names \<times> nat \<Rightarrow> 32 word \<Rightarrow> disk \<Rightarrow> (io_error + unit) \<times> disk" where
  "set_handle_mode h bits d =
     (case node_at d (fst h) of
        Some v \<Rightarrow> if fm_inode (node_meta v) = snd h then (Inr (), set_node (fst h) (with_mode bits v) d) else (Inr (), d)
      | None \<Rightarrow> (Inr (), d))"

definition open_private_lock :: "string \<Rightarrow> unit store_action" where
  "open_private_lock path =
     seq (is_link path) (\<lambda>link.
       if link then fail (CredentialStore (''credential lock `'' @ path @ ''` is a symbolic link''))
       else
         seq (disk_call (store_failed ''opening credential lock'') (open_lock path)) (\<lambda>h.
           disk_call (store_failed ''securing credential file'') (set_handle_mode h private_mode)))"

definition validate_provider_id :: "string \<Rightarrow> provider_error + unit" where
  "validate_provider_id v =
     ensure (v \<noteq> [] \<and> length v \<le> 128 \<and> list_all (\<lambda>c. is_ascii_alphanumeric c \<or> c \<in> {CHR ''-'', CHR ''_'', CHR ''.''}) v)
       (CredentialStore (''unsafe provider id `'' @ v @ ''`''))"

datatype lock_answer = LockTaken | LockTimedOut | LockBroken string

definition lock_result :: "string \<Rightarrow> lock_answer \<Rightarrow> provider_error + unit" where
  "lock_result ident answer =
     (case answer of
        LockTaken \<Rightarrow> Inr ()
      | LockTimedOut \<Rightarrow> Inl (CredentialStore (''timed out locking credential for `'' @ ident @ ''`''))
      | LockBroken m \<Rightarrow> Inl (CredentialStore (''locking credential: '' @ m)))"

definition credential_path :: "string \<Rightarrow> string \<Rightarrow> string" where
  "credential_path root ident = path_push root (ident @ ''.json'')"

definition acquire ::
  "(string \<Rightarrow> string + json) \<Rightarrow> string \<Rightarrow> lock_answer \<Rightarrow> string \<Rightarrow> credential option store_action" where
  "acquire parse root answer ident =
     seq (lift (validate_provider_id ident)) (\<lambda>_.
     seq (ensure_private_dir root) (\<lambda>_.
     seq (ensure_private_dir (path_push root ''.locks'')) (\<lambda>_.
     seq (open_private_lock (path_push (path_push root ''.locks'') (ident @ ''.lock''))) (\<lambda>_.
     seq (lift (lock_result ident answer)) (\<lambda>_.
       read_credential parse (credential_path root ident))))))"

definition root_from_home :: "string \<Rightarrow> string" where
  "root_from_home home_dir = path_push (path_push home_dir ''.fx'') ''credentials''"

text \<open>The store, as the interface of the providers.\<close>

definition file_store ::
  "(string \<Rightarrow> string + json) \<Rightarrow> (json \<Rightarrow> string) \<Rightarrow> string \<Rightarrow> lock_answer \<Rightarrow> tool_world credential_store" where
  "file_store parse print_json root answer =
     \<lparr>st_lock = acquire parse root answer,
      st_replace = (\<lambda>ident c. write_credential print_json (credential_path root ident) c),
      st_delete = (\<lambda>ident. delete_credential (credential_path root ident))\<rparr>"

end
