(* ===== verification/Credential_Files.thy ===== *)
theory Credential_Files
  imports Credentials File_Samples Disk_Facts
begin

section \<open>What the credential store keeps\<close>

text \<open>
  A credential that was written is the one that is read, a write that fails leaves the file as it was, only
  private regular files are read, and the name of a provider is the name of a file in the store.
\<close>

subsection \<open>The stored form\<close>

fun attributes_in :: "credential \<Rightarrow> (string \<times> string) list" where
  "attributes_in (ApiKey _ attributes) = attributes"
| "attributes_in (OAuth _ _ _ attributes) = attributes"

definition in_key_order :: "credential \<Rightarrow> bool" where
  "in_key_order c \<longleftrightarrow> sorted_wrt (<) (map fst (attributes_in c))"

lemma map_extend_sorted_list:
  assumes "sorted_wrt (<) (map fst xs)" shows "map_extend xs [] = xs"
proof (rule sorted_map_eq)
  show "sorted_wrt (<) (map fst (map_extend xs []))" by (rule map_extend_sorted) simp
  show "map_of (map_extend xs []) = map_of xs"
    using map_of_map_extend [OF sorted_keys_distinct [OF assms], of "[]"] by simp
qed (rule assms)

lemma attributes_roundtrip: "sorted_wrt (<) (map fst xs) \<Longrightarrow> attributes_of_json (attributes_json xs) = Some xs"
proof -
  assume sorted: "sorted_wrt (<) (map fst xs)"
  have "those (map (\<lambda>(k, v). map_option (Pair k) (as_str v)) (map (\<lambda>(k, v). (k, JString v)) xs)) = Some xs"
    by (induction xs) (auto simp: as_str_def)
  then show ?thesis
    using map_extend_sorted_list [OF sorted] by (simp add: attributes_of_json_def attributes_json_def del: map_map)
qed

lemma stored_roundtrip:
  assumes "in_key_order c" shows "stored_of_json (stored_json c) = Some (format_version, c)"
proof (cases c)
  case (ApiKey secret attributes)
  with assms attributes_roundtrip [of attributes] show ?thesis
    by (simp add: in_key_order_def stored_json_def stored_of_json_def struct_fields_def format_version_def
        u32_max_def credential_of_json_def tagged_def)
next
  case (OAuth access refresh expires attributes)
  with assms attributes_roundtrip [of attributes] show ?thesis
    by (cases refresh)
      (simp_all add: in_key_order_def stored_json_def stored_of_json_def struct_fields_def format_version_def
        u32_max_def credential_of_json_def tagged_def some_field_def opt_string_field_def)
qed

subsection \<open>The file\<close>

lemma walk_around:
  assumes "walk d k base cs = Inr q" and "is_dir_node (node_at d q)" and "p \<noteq> []"
    and "case node_at d p of Some (DirNode _) \<Rightarrow> False | Some (LinkNode _) \<Rightarrow> False | _ \<Rightarrow> True"
  shows "walk (used_inode (set_node p v d)) k base cs = Inr q"
  using assms
proof (induction d k base cs rule: walk.induct)
  case (5 d k base n cs)
  then show ?case
    by (cases "base @ [n] = p")
      (auto simp: node_at_set is_dir_node_def split: option.splits disk_node.splits nat.splits if_splits)
qed simp_all

lemma locate_entry_named:
  assumes "components path = cs @ [Normal n]"
  shows "locate_entry d path = Inr p \<longleftrightarrow>
    (\<exists>base. walk d max_links [] cs = Inr base \<and> is_dir_node (node_at d base) \<and> p = base @ [n])"
proof -
  have "(case v of Some (DirNode _) \<Rightarrow> Inr (base @ [n]) | _ \<Rightarrow> Inl enotdir) = Inr p \<longleftrightarrow>
      is_dir_node v \<and> p = base @ [n]" for v base
    by (auto simp: is_dir_node_def split: option.splits disk_node.splits)
  with assms show ?thesis by (simp add: locate_entry_def and_then_Inr_iff)
qed

lemma entry_after_replace:
  assumes named: "components path = cs @ [Normal n]"
    and kept: "\<And>t. entry_node d path \<noteq> Inr (LinkNode t)"
    and replaced: "replace_file path bits body d = (Inr u, d')"
  shows "\<exists>m. entry_node d' path = Inr (FileNode m body) \<and> (\<forall>b. bits = Some b \<longrightarrow> fm_mode m = b)"
proof -
  from replaced obtain p where p: "locate_entry d path = Inr p"
    by (cases "locate_entry d path") (auto simp: replace_file_def)
  then obtain base where w: "walk d max_links [] cs = Inr base" and b: "is_dir_node (node_at d base)"
    and pb: "p = base @ [n]"
    using locate_entry_named [OF named] by blast
  have plain: "case node_at d p of Some (DirNode _) \<Rightarrow> False | Some (LinkNode _) \<Rightarrow> False | _ \<Rightarrow> True"
    using kept replaced p
    by (auto simp: entry_node_def replace_file_def ok_or_def split: option.splits disk_node.splits)
  from plain replaced p obtain m where d': "d' = used_inode (set_node p (FileNode m body) d)"
    and m: "\<forall>b. bits = Some b \<longrightarrow> fm_mode m = b"
    by (auto simp: replace_file_def Let_def split: option.splits disk_node.splits)
  from pb have "p \<noteq> []" and "base \<noteq> p" by simp_all
  from walk_around [OF w b \<open>p \<noteq> []\<close> plain] have "walk d' max_links [] cs = Inr base" by (simp add: d')
  moreover from b \<open>p \<noteq> []\<close> \<open>base \<noteq> p\<close> have "is_dir_node (node_at d' base)" by (simp add: d' node_at_set)
  ultimately have "locate_entry d' path = Inr p" using locate_entry_named [OF named] pb by blast
  with m \<open>p \<noteq> []\<close> show ?thesis by (auto simp: entry_node_def d' node_at_set ok_or_def)
qed

subsection \<open>Names\<close>

lemma provider_id_char: "validate_provider_id v = Inr u \<Longrightarrow> c \<in> set v \<Longrightarrow> c \<noteq> CHR ''/''"
  by (auto simp: validate_provider_id_def ensure_def list_all_iff is_ascii_alphanumeric_def is_ascii_digit_def
      is_ascii_lowercase_def is_ascii_uppercase_def byte_of_def split: if_splits)

lemma named_file: "validate_provider_id v = Inr u \<Longrightarrow> normal_name (v @ ''.json'') \<and> normal_name (v @ ''.lock'')"
  using provider_id_char [of v u "CHR ''/''"]
  by (auto simp: normal_name_def append_eq_Cons_conv)

lemma credential_file: "validate_provider_id v = Inr u \<Longrightarrow> components (credential_path root v) = components root @ [Normal (v @ ''.json'')]"
  using named_file by (simp add: credential_path_def components_push_name)

subsection \<open>Calls\<close>

lemma disk_call_cases:
  assumes "disk_call err f w = (r, w')"
  obtains (fault) m w1 where "next_moment w = (Some m, w1)" and "r = Inl (err (os_error m))" and "w' = w1"
    | (done_call) w1 a d where "next_moment w = (None, w1)" and "f (tw_disk w1) = (a, d)" and "r = map_err err a"
        and "w' = w1\<lparr>tw_disk := d\<rparr>"
  using assms by (auto simp: disk_call_def split: prod.splits option.splits)

lemma disk_call_kept:
  assumes "disk_call err f w = (Inl e, w')" and "quiet w" and "\<And>e' d d'. f d = (Inl e', d') \<Longrightarrow> d' = d"
  shows "tw_disk w' = tw_disk w \<and> quiet w'"
  using assms(1)
proof (cases rule: disk_call_cases)
  case (fault m w1)
  then show ?thesis using next_moment_quiet [OF fault(1) assms(2)] by simp
next
  case (done_call w1 a d)
  from done_call(3) obtain e' where "a = Inl e'" by (cases a) simp_all
  with done_call(2) assms(3) have "d = tw_disk w1" by blast
  then show ?thesis using done_call(4) next_moment_quiet [OF done_call(1) assms(2)] by (simp add: quiet_def)
qed

lemma disk_look_kept:
  assumes "disk_look err f w = (r, w')" and "quiet w" shows "tw_disk w' = tw_disk w \<and> quiet w'"
  using assms(1) unfolding disk_look_def
proof (cases rule: disk_call_cases)
  case (fault m w1)
  then show ?thesis using next_moment_quiet [OF fault(1) assms(2)] by simp
next
  case (done_call w1 a d)
  then show ?thesis using next_moment_quiet [OF done_call(1) assms(2)] by (auto simp: quiet_def)
qed

lemma is_link_kept:
  assumes "is_link path w = (r, w')" and "quiet w" shows "tw_disk w' = tw_disk w \<and> quiet w'"
proof (cases "next_moment w")
  case (Pair m w1)
  with assms(1) have "w' = w1" by (cases m) (simp_all add: is_link_def)
  with next_moment_quiet [OF Pair assms(2)] show ?thesis by simp
qed

lemma alone [simp]: "tw_moments w = [] \<Longrightarrow> next_moment w = (None, w)"
  by (simp add: next_moment_def)

lemma replace_kept: "replace_file path bits body d = (Inl e, d') \<Longrightarrow> d' = d"
  by (auto simp: replace_file_def Let_def split: sum.splits option.splits disk_node.splits)

lemma write_kept:
  assumes "write_credential print_json path c w = (Inl e, w')" and q: "quiet w"
  shows "tw_disk w' = tw_disk w"
  using assms(1) unfolding write_credential_def
proof (cases rule: seq_cases)
  case (failed e)
  with is_link_kept [OF failed(1) q] show ?thesis by simp
next
  case (went_on link w1)
  note w1 = is_link_kept [OF went_on(1) q]
  from went_on(2) w1 show ?thesis
    by (auto simp: Let_def action_simps seq_Inl split: if_splits
        dest!: disk_look_kept disk_call_kept [OF _ _ replace_kept])
qed

lemma write_alone:
  assumes "write_credential print_json path c w = (Inr u, w')" and "tw_moments w = []"
  shows "(\<forall>t. entry_node (tw_disk w) path \<noteq> Inr (LinkNode t)) \<and> tw_moments w' = []
    \<and> length (print_json (stored_json c) @ [CHR 0x0A]) \<le> max_credential_bytes
    \<and> replace_file path (Some private_mode) (print_json (stored_json c) @ [CHR 0x0A]) (tw_disk w) = (Inr (), tw_disk w')"
  using assms
  by (auto simp: write_credential_def Let_def action_simps seq_Inr is_link_def disk_look_def disk_call_def
      map_err_def split: if_splits sum.splits prod.splits disk_node.splits)

lemma private_mode: "fm_mode m = private_mode \<Longrightarrow> is_private m"
proof -
  assume "fm_mode m = private_mode"
  moreover have "and private_mode 63 = 0" by code_simp
  ultimately show ?thesis by (simp add: is_private_def)
qed

lemma read_alone:
  assumes "tw_moments w = []" and "entry_node (tw_disk w) path = Inr (FileNode m bytes)" and "is_private m"
    and "decode_stored parse path bytes = Inr c"
  shows "read_credential parse path w = (Inr (Some c), w)"
  using assms
  by (simp add: read_credential_def seq_def disk_look_def disk_call_def open_no_follow_def if_there_def action_simps)

text \<open>
  C27. A credential that is written is what the next reader gets, with nobody else at work on the disk; when the
  write fails, whatever the step that failed, the disk is as it was: there is no half-written credential.
\<close>

theorem credential_writes_are_whole:
  assumes "validate_provider_id ident = Inr ()" and "in_key_order c" and "quiet w"
    and "parse (print_json (stored_json c) @ [CHR 0x0A]) = Inr (stored_json c)"
    and "write_credential print_json (credential_path root ident) c w = (r, w')"
  shows "(isl r \<longrightarrow> tw_disk w' = tw_disk w)
    \<and> (r = Inr () \<and> tw_moments w = [] \<longrightarrow>
         read_credential parse (credential_path root ident) w' = (Inr (Some c), w'))"
proof (intro conjI impI)
  assume "isl r"
  with assms(5) write_kept [OF _ assms(3)] show "tw_disk w' = tw_disk w" by (auto simp: isl_def)
next
  assume "r = Inr () \<and> tw_moments w = []"
  with write_alone assms(5) have w: "\<And>t. entry_node (tw_disk w) (credential_path root ident) \<noteq> Inr (LinkNode t)"
      "tw_moments w' = []" "length (print_json (stored_json c) @ [CHR 0x0A]) \<le> max_credential_bytes"
      "replace_file (credential_path root ident) (Some private_mode) (print_json (stored_json c) @ [CHR 0x0A])
         (tw_disk w) = (Inr (), tw_disk w')"
    by blast+
  from entry_after_replace [OF credential_file [OF assms(1)] w(1) w(4)] obtain m where
    m: "entry_node (tw_disk w') (credential_path root ident) = Inr (FileNode m (print_json (stored_json c) @ [CHR 0x0A]))"
      "fm_mode m = private_mode" by blast
  from w(3) have "decode_stored parse p (print_json (stored_json c) @ [CHR 0x0A]) = Inr c" for p
    by (simp add: decode_stored_def assms(4) stored_roundtrip [OF assms(2)])
  with read_alone [OF w(2) m(1) private_mode [OF m(2)]]
  show "read_credential parse (credential_path root ident) w' = (Inr (Some c), w')" by blast
qed

lemma opened_file: "if_there (open_no_follow path d) = Inr (Some (FileNode m b)) \<Longrightarrow> entry_node d path = Inr (FileNode m b)"
proof -
  assume "if_there (open_no_follow path d) = Inr (Some (FileNode m b))"
  then have "open_no_follow path d = Inr (FileNode m b)" by (simp add: if_there_def split: sum.splits if_splits)
  then obtain v where "entry_node d path = Inr v" "(case v of LinkNode _ \<Rightarrow> Inl eloop | _ \<Rightarrow> Inr v) = Inr (FileNode m b)"
    unfolding open_no_follow_def and_then_Inr_iff by blast
  then show ?thesis by (cases v) simp_all
qed

lemma decoded_size: "decode_stored parse path bytes = Inr c \<Longrightarrow> length bytes \<le> max_credential_bytes"
  by (rule ccontr) (simp add: decode_stored_def)

text \<open>
  A credential is only ever taken from a private regular file: with nobody else at work, what is read comes from
  the bytes of a file that is no link, that its group and others have no access to, and that is at most 64 KiB.
\<close>

theorem only_private_files_are_read:
  assumes "quiet w" and "read_credential parse path w = (Inr (Some c), w')"
  shows "\<exists>m bytes. entry_node (tw_disk w) path = Inr (FileNode m bytes) \<and> and (fm_mode m) 63 = 0
    \<and> length bytes \<le> max_credential_bytes \<and> decode_stored parse path bytes = Inr c"
  using assms(2) unfolding read_credential_def
proof (cases rule: seq_cases)
  case (went_on opened w1)
  from went_on(1) have "if_there (open_no_follow path (tw_disk w)) = Inr opened"
    unfolding disk_look_def using next_moment_quiet [OF _ assms(1)]
    by (elim disk_call_cases) (auto simp: map_err_def split: sum.splits)
  moreover from went_on(2) obtain m bytes where "opened = Some (FileNode m bytes)" "is_private m"
    "decode_stored parse path bytes = Inr c"
    by (auto simp: action_simps seq_Inr and_then_Inr_iff split: option.splits disk_node.splits if_splits)
  ultimately show ?thesis using decoded_size [of parse path bytes c]
    by (auto simp: is_private_def dest: opened_file)
qed simp

text \<open>
  A provider's id is the name of a file of the store and nothing else: the file and the lock of an id that passes
  are directly in the store's two directories, and two ids have two files.
\<close>

theorem ids_name_files_in_the_store:
  assumes "validate_provider_id ident = Inr ()" and "validate_provider_id ident' = Inr ()"
  shows "components (credential_path root ident) = components root @ [Normal (ident @ ''.json'')]
    \<and> components (path_push (path_push root ''.locks'') (ident @ ''.lock'')) =
        components root @ [Normal ''.locks'', Normal (ident @ ''.lock'')]
    \<and> (path_eq (credential_path root ident) (credential_path root ident') \<longleftrightarrow> ident = ident')"
proof -
  have "normal_name ''.locks''" by (simp add: normal_name_def)
  with named_file [OF assms(1)] credential_file [OF assms(1)] credential_file [OF assms(2)] show ?thesis
    by (simp add: components_push_name path_eq_def)
qed

subsection \<open>Samples\<close>

definition sample_key :: credential where "sample_key = ApiKey ''k'' [(''team'', ''t'')]"

definition sample_print :: "json \<Rightarrow> string" where "sample_print j = ''k''"
definition sample_parse :: "string \<Rightarrow> string + json" where "sample_parse s = Inr (stored_json sample_key)"

definition stored_disk :: disk where
  "stored_disk =
     used_inode (set_node [''w'', ''p.json''] (FileNode ((dk_fresh example_disk)\<lparr>fm_mode := private_mode\<rparr>) [CHR ''k'', CHR 0x0A]) example_disk)"

definition stored_world :: tool_world where "stored_world = example_world\<lparr>tw_disk := stored_disk\<rparr>"

lemma sample_ids_valid: "validate_provider_id ''p'' = Inr ()" "validate_provider_id ''q'' = Inr ()" "in_key_order sample_key"
  by code_simp+

lemma sample_places:
  "credential_path ''/w'' ''p'' = ''/w/p.json''" "locate_entry example_disk ''/w/p.json'' = Inr [''w'', ''p.json'']"
  "entry_node example_disk ''/w/p.json'' = Inl enoent" "node_at example_disk [''w'', ''p.json''] = None"
  "locate_entry stored_disk ''/w/p.json'' = Inr [''w'', ''p.json'']"
  by code_simp+

lemma sample_bytes: "sample_print j @ [CHR 0x0A] = [CHR ''k'', CHR 0x0A]" "max_credential_bytes = 65536"
  by (simp_all add: sample_print_def max_credential_bytes_def)

lemma sample_written:
  "write_credential sample_print (credential_path ''/w'' ''p'') sample_key example_world = (Inr (), stored_world)"
  by (simp add: write_credential_def sample_places sample_bytes action_defs is_link_def replace_file_def
      stored_world_def stored_disk_def example_world_def Let_def)

theorem credential_writes_are_whole_witness:
  "read_credential sample_parse (credential_path ''/w'' ''p'') stored_world = (Inr (Some sample_key), stored_world)"
  using credential_writes_are_whole
    [OF sample_ids_valid(1,3) example_quiet _ sample_written, where parse = sample_parse]
  by (simp add: sample_parse_def [abs_def] example_world_def)

lemma stored_quiet: "quiet stored_world"
  by (simp add: quiet_def stored_world_def example_world_def)

lemma sample_decoded: "decode_stored sample_parse path [CHR ''k'', CHR 0x0A] = Inr sample_key"
  by (simp add: decode_stored_def sample_bytes sample_parse_def stored_roundtrip [OF sample_ids_valid(3)])

lemma sample_file:
  "entry_node stored_disk ''/w/p.json'' = Inr (FileNode ((dk_fresh example_disk)\<lparr>fm_mode := private_mode\<rparr>) [CHR ''k'', CHR 0x0A])"
  unfolding entry_node_def sample_places by (simp add: stored_disk_def node_at_set)

theorem only_private_files_are_read_witness:
  "\<exists>m bytes. entry_node stored_disk ''/w/p.json'' = Inr (FileNode m bytes)
     \<and> and (fm_mode m) 63 = 0 \<and> length bytes \<le> max_credential_bytes
     \<and> decode_stored sample_parse ''/w/p.json'' bytes = Inr sample_key"
proof -
  have "read_credential sample_parse ''/w/p.json'' stored_world = (Inr (Some sample_key), stored_world)"
    by (rule read_alone [OF _ _ private_mode sample_decoded, where m = "(dk_fresh example_disk)\<lparr>fm_mode := private_mode\<rparr>"])
      (simp_all add: stored_world_def example_world_def sample_file)
  from only_private_files_are_read [OF stored_quiet this] show ?thesis by (simp add: stored_world_def)
qed

theorem ids_name_files_in_the_store_witness:
  "\<not> path_eq (credential_path ''/w'' ''p'') (credential_path ''/w'' ''q'')"
  using ids_name_files_in_the_store [OF sample_ids_valid(1,2), of "''/w''"] by simp

end
