(* ===== verification/Oauth_World.thy ===== *)
theory Oauth_World
  imports Provider_Registry Codex_Body
begin

section \<open>What the providers ask of the world\<close>

text \<open>
  The third-party code and the operating system behind the two providers of \<open>fx-provider\<close> (\<open>codex.rs\<close>,
  \<open>vercel.rs\<close>): JSON, URLs, digests, clocks, the environment, a browser and an HTTP client, as a record of
  operations on a world; and what the providers share.
\<close>

subsection \<open>URLs\<close>

text \<open>
  What is read of a parsed \<open>Url\<close>: its port is there when it is not the one of the scheme; the known port is what
  \<open>port_or_known_default\<close> gives.
\<close>

record url_parts =
  ur_scheme :: string
  ur_host :: "string option"
  ur_port :: "nat option"
  ur_known_port :: "nat option"
  ur_username :: string
  ur_password :: "string option"
  ur_path :: string
  ur_query :: "string option"
  ur_fragment :: "string option"
  ur_pairs :: "(string \<times> string) list"

subsection \<open>The world\<close>

text \<open>
  A request gives an error of the client, or a status with the body, which is an error when it is longer than the
  limit. With \<open>True\<close> a status from 400 on is an error of the client. \<open>wb_elapsed\<close> tells how many milliseconds
  have passed, besides sleeping, since it was last asked. \<open>wb_error_body\<close> gives the strings \<open>error\<close> and
  \<open>error_description\<close> of a body as \<open>serde_json\<close> borrows them: not at all when one is written with escapes.
\<close>

type_synonym form = "(string \<times> string) list"
type_synonym http_answer = "string + nat \<times> (string + string)"

record 'w web =
  wb_json :: "string \<Rightarrow> string + json"
  wb_url :: "string \<Rightarrow> string + url_parts"
  wb_with_pairs :: "string \<Rightarrow> form \<Rightarrow> string + string"
  wb_base64_url :: "string \<Rightarrow> string"
  wb_base64_url_decode :: "string \<Rightarrow> string option"
  wb_sha256 :: "string \<Rightarrow> string"
  wb_time :: "'w \<Rightarrow> nat option \<times> 'w"
  wb_elapsed :: "'w \<Rightarrow> nat \<times> 'w"
  wb_sleep :: "nat \<Rightarrow> 'w \<Rightarrow> 'w"
  wb_uuid :: "'w \<Rightarrow> string \<times> 'w"
  wb_env :: "string \<Rightarrow> 'w \<Rightarrow> string option"
  wb_print :: "string \<Rightarrow> 'w \<Rightarrow> 'w"
  wb_browser :: "string \<Rightarrow> 'w \<Rightarrow> (string + unit) \<times> 'w"
  wb_error_body :: "string \<Rightarrow> (string \<times> string option) option"
  wb_get :: "string \<Rightarrow> form \<Rightarrow> nat \<Rightarrow> 'w \<Rightarrow> http_answer \<times> 'w"
  wb_post_form :: "bool \<Rightarrow> string \<Rightarrow> form \<Rightarrow> nat \<Rightarrow> 'w \<Rightarrow> http_answer \<times> 'w"

type_synonym ('w, 'a) provider_action = "'w \<Rightarrow> (provider_error + 'a) \<times> 'w"

text \<open>A reading of the world, a change of it, and a call with its error.\<close>

definition reading :: "('w \<Rightarrow> 'a \<times> 'w) \<Rightarrow> ('w, 'a) provider_action" where
  "reading f w = (case f w of (a, w') \<Rightarrow> (Inr a, w'))"

definition doing :: "('w \<Rightarrow> 'w) \<Rightarrow> ('w, unit) provider_action" where
  "doing f w = (Inr (), f w)"

definition calling :: "('e \<Rightarrow> provider_error) \<Rightarrow> ('w \<Rightarrow> ('e + 'a) \<times> 'w) \<Rightarrow> ('w, 'a) provider_action" where
  "calling err f w = (case f w of (r, w') \<Rightarrow> (map_err err r, w'))"

text \<open>\<open>now_ms\<close>: a clock before 1970, or beyond an \<open>i64\<close>, reads as the largest time.\<close>

definition now_ms :: "'w web \<Rightarrow> 'w \<Rightarrow> i64 \<times> 'w" where
  "now_ms web w =
     (case wb_time web w of
        (Some n, w') \<Rightarrow> (if int n \<le> i64_max then word_of_nat n else word_of_int i64_max, w')
      | (None, w') \<Rightarrow> (word_of_int i64_max, w'))"

definition saturating_sub_i64 :: "i64 \<Rightarrow> i64 \<Rightarrow> i64" where
  "saturating_sub_i64 a b = word_of_int (max i64_min (min i64_max (sint a - sint b)))"

text \<open>The time a token ends, from the seconds it is good for.\<close>

definition expiry_at :: "'w web \<Rightarrow> provider_error \<Rightarrow> i64 option \<Rightarrow> ('w, i64) provider_action" where
  "expiry_at web invalid seconds =
     (case Option.bind seconds (\<lambda>s. checked_mul_i64 s 1000) of
        None \<Rightarrow> fail invalid
      | Some duration \<Rightarrow>
          seq (reading (now_ms web)) (\<lambda>now. lift (ok_or invalid (checked_add_i64 now duration))))"

definition parsed :: "'w web \<Rightarrow> string \<Rightarrow> json option" where
  "parsed web bytes = (case wb_json web bytes of Inr v \<Rightarrow> Some v | Inl _ \<Rightarrow> None)"

text \<open>The opener of the operating system (\<open>open\<close>, \<open>xdg-open\<close>).\<close>

definition open_browser :: "'w web \<Rightarrow> string \<Rightarrow> ('w, unit) provider_action" where
  "open_browser web url =
     calling (\<lambda>e. AuthenticationFailed (''could not open login browser: '' @ e)) (wb_browser web url)"

end
