(* ===== verification/Vercel_Provider.thy ===== *)
theory Vercel_Provider
  imports Oauth_World Vercel_Stream Session_Json
begin

section \<open>The Vercel provider\<close>

text \<open>
  \<open>fx-provider/src/vercel.rs\<close>: the configuration and what of it is trusted, the discovery of the OAuth endpoints,
  the device login with its polling, the refresh of a saved token, the choice of a team, the built-in and the live
  catalogue, and the provider. The model ids that the provider accepts are shared by its operations: they are a cell
  of the world.
\<close>

definition vercel_provider_id :: string where "vercel_provider_id = ''vercel''"
definition vercel_default_model :: string where "vercel_default_model = ''zai/glm-5.2''"
definition device_auth_method :: string where "device_auth_method = ''oauth''"
definition vercel_provider_name :: string where "vercel_provider_name = ''Vercel AI Gateway''"
definition vercel_issuer :: string where "vercel_issuer = ''https://vercel.com''"
definition default_client_id :: string where "default_client_id = ''cl_zzh5hiOZbwJ9bfqEcYqPIJv3TaPaEYL0''"
definition default_teams_endpoint :: string where "default_teams_endpoint = ''https://api.vercel.com/v2/teams''"
definition oauth_scope :: string where "oauth_scope = ''openid offline_access''"
definition device_grant :: string where "device_grant = ''urn:ietf:params:oauth:grant-type:device_code''"
definition vercel_refresh_skew_ms :: i64 where "vercel_refresh_skew_ms = 60 * 1000"
definition max_oauth_body_bytes :: nat where "max_oauth_body_bytes = 64 * 1024"
definition default_auth_timeout_ms :: nat where "default_auth_timeout_ms = 10 * 60 * 1000"
definition default_catalog_endpoint :: string where
  "default_catalog_endpoint = ''https://ai-gateway.vercel.sh/coding-agent/v1/models''"

record vercel_provider_config =
  vp_issuer :: string
  vp_client_id :: string
  vp_gateway_endpoint :: string
  vp_catalog_endpoint :: string
  vp_teams_endpoint :: string
  vp_team :: "string option"
  vp_open_browser :: bool
  vp_auth_timeout_ms :: nat
  vp_additional_models :: "string list"
  vp_routing :: routing_policy

subsection \<open>What is trusted\<close>

definition is_loopback_url :: "url_parts \<Rightarrow> bool" where
  "is_loopback_url url \<longleftrightarrow> ur_scheme url = ''http''
     \<and> ur_host url \<in> {Some ''localhost'', Some ''127.0.0.1'', Some ''[::1]'', Some ''::1''}
     \<and> ur_username url = [] \<and> ur_password url = None"

definition is_loopback_origin :: "'w web \<Rightarrow> string \<Rightarrow> bool" where
  "is_loopback_origin web v =
     (case wb_url web v of
        Inl _ \<Rightarrow> False
      | Inr url \<Rightarrow> is_loopback_url url \<and> ur_path url = ''/'' \<and> ur_query url = None \<and> ur_fragment url = None
          \<and> ur_port url \<noteq> None)"

definition validate_issuer :: "'w web \<Rightarrow> string \<Rightarrow> provider_error + unit" where
  "validate_issuer web v =
     (let normalized = trim_end_slashes v in
      ensure (normalized = vercel_issuer \<or> is_loopback_origin web normalized)
        (Configuration ''Vercel OAuth issuer must be vercel.com or an explicit loopback test origin''))"

definition validate_client_id :: "string \<Rightarrow> provider_error + unit" where
  "validate_client_id v =
     ensure (trim v \<noteq> [] \<and> length v \<le> 256) (Configuration ''Vercel OAuth client id is empty or too long'')"

datatype endpoint_kind = GatewayEndpoint | VercelApi

definition validate_trusted_endpoint :: "'w web \<Rightarrow> string \<Rightarrow> endpoint_kind \<Rightarrow> provider_error + unit" where
  "validate_trusted_endpoint web v kind =
     and_then (map_err (\<lambda>e. Configuration (''invalid endpoint: '' @ e)) (wb_url web v)) (\<lambda>url.
       let production = ur_scheme url = ''https''
         \<and> ur_host url = Some (case kind of GatewayEndpoint \<Rightarrow> ''ai-gateway.vercel.sh'' | VercelApi \<Rightarrow> ''api.vercel.com'') in
       ensure (production \<or> is_loopback_url url)
         (Configuration ''Vercel endpoint must use its production origin or loopback''))"

definition untrusted_endpoint :: provider_error where
  "untrusted_endpoint = AuthenticationFailed ''Vercel OAuth discovery returned an untrusted endpoint''"

definition validate_oauth_endpoint :: "'w web \<Rightarrow> string \<Rightarrow> string \<Rightarrow> provider_error + unit" where
  "validate_oauth_endpoint web issuer v =
     and_then (map_err (\<lambda>e. AuthenticationFailed (''Vercel OAuth endpoint was invalid: '' @ e)) (wb_url web v)) (\<lambda>url.
       if trim_end_slashes issuer = vercel_issuer then
         ensure (ur_scheme url = ''https'' \<and> ur_host url \<in> {Some ''vercel.com'', Some ''api.vercel.com''}) untrusted_endpoint
       else
         and_then (map_err (\<lambda>_. AuthenticationFailed ''Vercel OAuth issuer was invalid'') (wb_url web issuer)) (\<lambda>i.
           ensure (is_loopback_url url \<and> ur_host url = ur_host i
             \<and> ur_known_port url = ur_known_port i) untrusted_endpoint))"

definition is_provider_route :: "string \<Rightarrow> bool" where
  "is_provider_route v \<longleftrightarrow> v \<noteq> [] \<and> length v \<le> 128
     \<and> list_all (\<lambda>c. is_ascii_alphanumeric c \<or> c \<in> {CHR ''-'', CHR ''_'', CHR ''.''}) v"

definition validate_routing_policy :: "routing_policy \<Rightarrow> provider_error + unit" where
  "validate_routing_policy policy =
     (case find (\<lambda>r. \<not> is_provider_route r) (rp_only policy @ rp_order policy) of
        Some r \<Rightarrow> Inl (Configuration (''Vercel Gateway provider route `'' @ r @ ''` is invalid''))
      | None \<Rightarrow> Inr ())"

subsection \<open>The environment\<close>

definition nonempty_env :: "'w web \<Rightarrow> string \<Rightarrow> 'w \<Rightarrow> string option" where
  "nonempty_env web name w = (case wb_env web name w of Some v \<Rightarrow> if trim v = [] then None else Some v | None \<Rightarrow> None)"

definition comma_list :: "string option \<Rightarrow> string list" where
  "comma_list v = filter (\<lambda>s. s \<noteq> []) (map trim (concat (map (split_on (CHR '','')) (case v of None \<Rightarrow> [] | Some s \<Rightarrow> [s]))))"

definition parse_additional_models :: "string option \<Rightarrow> string list" where
  "parse_additional_models v = comma_list v"

text \<open>The first of each.\<close>

definition parse_provider_routes :: "string option \<Rightarrow> string list" where
  "parse_provider_routes v = rev (remdups (rev (comma_list v)))"

definition vercel_catalog_endpoint_from_base :: "'w web \<Rightarrow> string option \<Rightarrow> string" where
  "vercel_catalog_endpoint_from_base web base =
     (case base of
        None \<Rightarrow> default_catalog_endpoint
      | Some b \<Rightarrow>
          let normalized = trim_end_slashes b in
          if is_loopback_origin web normalized then normalized @ ''/coding-agent/v1/models'' else default_catalog_endpoint)"

definition vercel_config_from_process :: "'w web \<Rightarrow> 'w \<Rightarrow> vercel_provider_config" where
  "vercel_config_from_process web w =
     (let issuer = unwrap_or vercel_issuer (nonempty_env web ''FX_E2E_OAUTH_ISSUER_URL'' w) in
      \<lparr>vp_issuer = issuer,
       vp_client_id = unwrap_or default_client_id (nonempty_env web ''FX_OAUTH_CLIENT_ID'' w),
       vp_gateway_endpoint = vercel_endpoint_from_base (wb_env web ''FX_GATEWAY_BASE_URL'' w),
       vp_catalog_endpoint = vercel_catalog_endpoint_from_base web (wb_env web ''FX_GATEWAY_BASE_URL'' w),
       vp_teams_endpoint =
         (if is_loopback_origin web issuer then trim_end_slashes issuer @ ''/v2/teams'' else default_teams_endpoint),
       vp_team = nonempty_env web ''FX_VERCEL_TEAM'' w, vp_open_browser = True,
       vp_auth_timeout_ms = default_auth_timeout_ms,
       vp_additional_models = parse_additional_models (wb_env web ''FX_VERCEL_MODELS'' w),
       vp_routing =
         \<lparr>rp_only = parse_provider_routes (wb_env web ''FX_VERCEL_PROVIDER_ONLY'' w),
          rp_order = parse_provider_routes (wb_env web ''FX_VERCEL_PROVIDER_ORDER'' w)\<rparr>\<rparr>)"

subsection \<open>Requests\<close>

definition vercel_failed :: "string \<Rightarrow> provider_error" where
  "vercel_failed m = AuthenticationFailed (''Vercel '' @ m)"

definition bounded_answer :: "string \<Rightarrow> ('w \<Rightarrow> http_answer \<times> 'w) \<Rightarrow> ('w, nat \<times> string) provider_action" where
  "bounded_answer label request =
     seq (calling (\<lambda>e. AuthenticationFailed (label @ '' request failed: '' @ e)) request) (\<lambda>(status, body).
     seq (lift (map_err (\<lambda>e. AuthenticationFailed (''could not read '' @ label @ '': '' @ e)) body)) (\<lambda>bytes.
       give (status, bytes)))"

definition get_bounded :: "'w web \<Rightarrow> string \<Rightarrow> string \<Rightarrow> ('w, nat \<times> string) provider_action" where
  "get_bounded web endpoint label = bounded_answer label (wb_get web endpoint [] max_oauth_body_bytes)"

definition post_form_bounded :: "'w web \<Rightarrow> string \<Rightarrow> form \<Rightarrow> string \<Rightarrow> ('w, nat \<times> string) provider_action" where
  "post_form_bounded web endpoint form_fields label =
     bounded_answer label (wb_post_form web False endpoint form_fields max_oauth_body_bytes)"

definition oauth_error_code :: "'w web \<Rightarrow> string \<Rightarrow> string option" where
  "oauth_error_code web bytes = map_option fst (wb_error_body web bytes)"

definition oauth_status_error :: "'w web \<Rightarrow> nat \<Rightarrow> string \<Rightarrow> string \<Rightarrow> provider_error" where
  "oauth_status_error web status bytes operation =
     (let detail = (case wb_error_body web bytes of
          None \<Rightarrow> ''HTTP '' @ show_nat status
        | Some (e, None) \<Rightarrow> e
        | Some (e, Some description) \<Rightarrow> e @ '': '' @ description) in
      AuthenticationFailed (''Vercel OAuth '' @ operation @ '' failed: '' @ detail))"

subsection \<open>Discovery\<close>

record oauth_metadata =
  om_issuer :: string
  om_device_endpoint :: string
  om_token_endpoint :: string

definition metadata_of :: "json \<Rightarrow> oauth_metadata option" where
  "metadata_of v =
     Option.bind (struct_fields [''issuer'', ''device_authorization_endpoint'', ''token_endpoint''] v) (\<lambda>obj.
     Option.bind (string_field obj ''issuer'') (\<lambda>issuer.
     Option.bind (string_field obj ''device_authorization_endpoint'') (\<lambda>dev.
     Option.bind (string_field obj ''token_endpoint'') (\<lambda>token.
       Some \<lparr>om_issuer = issuer, om_device_endpoint = dev, om_token_endpoint = token\<rparr>))))"

definition discover :: "'w web \<Rightarrow> string \<Rightarrow> ('w, oauth_metadata) provider_action" where
  "discover web issuer =
     seq (get_bounded web (trim_end_slashes issuer @ ''/.well-known/openid-configuration'') ''Vercel OAuth discovery'')
       (\<lambda>(status, bytes).
     seq (lift (ensure (status = 200) (vercel_failed (''OAuth discovery returned HTTP '' @ show_nat status)))) (\<lambda>_.
     seq (lift (ok_or (vercel_failed ''OAuth discovery response was invalid'') (Option.bind (parsed web bytes) metadata_of)))
       (\<lambda>m.
     seq (lift (ensure (trim_end_slashes (om_issuer m) = trim_end_slashes issuer)
         (vercel_failed ''OAuth discovery returned a different issuer''))) (\<lambda>_.
     seq (lift (validate_oauth_endpoint web issuer (om_device_endpoint m))) (\<lambda>_.
     seq (lift (validate_oauth_endpoint web issuer (om_token_endpoint m))) (\<lambda>_. give m))))))"

subsection \<open>Tokens\<close>

record vercel_token =
  vt_access :: string
  vt_refresh :: string
  vt_expires :: i64
  vt_scope :: string
  vt_type :: string

record token_response =
  tr_access :: string
  tr_refresh :: "string option"
  tr_expires_in :: i64
  tr_scope :: string
  tr_type :: string

definition vercel_token_response_of :: "json \<Rightarrow> token_response option" where
  "vercel_token_response_of v =
     Option.bind (struct_fields [''access_token'', ''refresh_token'', ''expires_in'', ''scope'', ''token_type''] v) (\<lambda>obj.
     Option.bind (string_field obj ''access_token'') (\<lambda>access.
     Option.bind (opt_string_field obj ''refresh_token'') (\<lambda>refresh.
     Option.bind (i64_field obj ''expires_in'') (\<lambda>seconds.
     Option.bind (default_field [] as_str obj ''scope'') (\<lambda>scope.
     Option.bind (string_field obj ''token_type'') (\<lambda>kind.
       Some \<lparr>tr_access = access, tr_refresh = refresh, tr_expires_in = word_of_int seconds, tr_scope = scope,
             tr_type = kind\<rparr>))))))"

definition eq_ignore_ascii_case :: "string \<Rightarrow> string \<Rightarrow> bool" where
  "eq_ignore_ascii_case a b \<longleftrightarrow> map to_ascii_lowercase a = map to_ascii_lowercase b"

definition parse_token ::
  "'w web \<Rightarrow> string \<Rightarrow> string option \<Rightarrow> string option \<Rightarrow> ('w, vercel_token) provider_action" where
  "parse_token web bytes previous_refresh previous_scope =
     seq (lift (ok_or (vercel_failed ''OAuth token response was invalid'')
         (Option.bind (parsed web bytes) vercel_token_response_of))) (\<lambda>r.
     seq (lift (ensure (tr_access r \<noteq> [] \<and> 0 <s tr_expires_in r \<and> eq_ignore_ascii_case (tr_type r) ''bearer'')
         (vercel_failed ''OAuth token response was incomplete''))) (\<lambda>_.
     seq (lift (ok_or (vercel_failed ''OAuth token response omitted its refresh token'')
         (or_else (non_empty (tr_refresh r)) previous_refresh))) (\<lambda>refresh.
     seq (expiry_at web (vercel_failed ''OAuth expiry was invalid'') (Some (tr_expires_in r))) (\<lambda>expires.
       give \<lparr>vt_access = tr_access r, vt_refresh = refresh, vt_expires = expires,
             vt_scope = (if trim (tr_scope r) = [] then unwrap_or [] previous_scope else tr_scope r),
             vt_type = tr_type r\<rparr>))))"

definition refresh_vercel_token ::
  "'w web \<Rightarrow> oauth_metadata \<Rightarrow> string \<Rightarrow> string \<Rightarrow> string \<Rightarrow> ('w, vercel_token) provider_action" where
  "refresh_vercel_token web m client_id refresh previous_scope =
     seq (post_form_bounded web (om_token_endpoint m)
         [(''client_id'', client_id), (''grant_type'', ''refresh_token''), (''refresh_token'', refresh)]
         ''Vercel token refresh'') (\<lambda>(status, bytes).
       if status \<noteq> 200 then fail (oauth_status_error web status bytes ''token refresh'')
       else parse_token web bytes (Some refresh) (Some previous_scope))"

subsection \<open>The device login\<close>

record device_authorization =
  dv_code :: string
  dv_user_code :: string
  dv_uri :: string
  dv_uri_complete :: "string option"
  dv_expires_in :: i64
  dv_interval :: i64

definition default_poll_interval :: int where "default_poll_interval = 5"

definition device_of :: "json \<Rightarrow> device_authorization option" where
  "device_of v =
     Option.bind (struct_fields [''device_code'', ''user_code'', ''verification_uri'', ''verification_uri_complete'',
         ''expires_in'', ''interval''] v) (\<lambda>obj.
     Option.bind (string_field obj ''device_code'') (\<lambda>code.
     Option.bind (string_field obj ''user_code'') (\<lambda>user_code.
     Option.bind (string_field obj ''verification_uri'') (\<lambda>uri.
     Option.bind (opt_string_field obj ''verification_uri_complete'') (\<lambda>complete.
     Option.bind (i64_field obj ''expires_in'') (\<lambda>seconds.
     Option.bind (if map_of obj ''interval'' = None then Some default_poll_interval else i64_field obj ''interval'') (\<lambda>interval.
       Some \<lparr>dv_code = code, dv_user_code = user_code, dv_uri = uri, dv_uri_complete = complete,
             dv_expires_in = word_of_int seconds, dv_interval = word_of_int interval\<rparr>)))))))"

definition request_device_authorization ::
  "'w web \<Rightarrow> vercel_provider_config \<Rightarrow> oauth_metadata \<Rightarrow> ('w, device_authorization) provider_action" where
  "request_device_authorization web config m =
     seq (post_form_bounded web (om_device_endpoint m) [(''client_id'', vp_client_id config), (''scope'', oauth_scope)]
         ''Vercel device authorization'') (\<lambda>(status, bytes).
       if status \<noteq> 200 then fail (oauth_status_error web status bytes ''device authorization'')
       else
         seq (lift (ok_or (vercel_failed ''device authorization response was invalid'')
             (Option.bind (parsed web bytes) device_of))) (\<lambda>d.
         seq (lift (ensure (dv_code d \<noteq> [] \<and> dv_user_code d \<noteq> [] \<and> dv_uri d \<noteq> [] \<and> 0 <s dv_expires_in d)
             (vercel_failed ''device authorization response was incomplete''))) (\<lambda>_.
         seq (lift (validate_oauth_endpoint web (vp_issuer config) (dv_uri d))) (\<lambda>_.
         seq (lift (case dv_uri_complete d of
               None \<Rightarrow> Inr ()
             | Some complete \<Rightarrow> validate_oauth_endpoint web (vp_issuer config) complete)) (\<lambda>_. give d)))))"

text \<open>
  The loop of \<open>poll_device_token\<close>, in milliseconds from its start; \<open>slow\<close> counts the answers \<open>slow_down\<close>, each of
  which makes the interval five seconds longer.
\<close>

definition poll_interval_ms :: "device_authorization \<Rightarrow> nat \<Rightarrow> nat" where
  "poll_interval_ms d slow = 1000 * (nat (max 1 (sint (dv_interval d))) + 5 * slow)"

datatype poll_answer = Pending | SlowDown | Finished_With string | Refused provider_error

definition poll_answer_of :: "'w web \<Rightarrow> nat \<Rightarrow> string \<Rightarrow> poll_answer" where
  "poll_answer_of web status bytes =
     (if status = 200 then Finished_With bytes
      else
        case oauth_error_code web bytes of
          None \<Rightarrow> Refused (oauth_status_error web status bytes ''device token'')
        | Some e \<Rightarrow>
            if e = ''authorization_pending'' then Pending
            else if e = ''slow_down'' then SlowDown
            else if e = ''access_denied'' then Refused (vercel_failed ''device authorization was denied'')
            else if e = ''expired_token'' then Refused (vercel_failed ''device authorization expired'')
            else Refused (oauth_status_error web status bytes ''device token''))"

definition poll_request ::
  "'w web \<Rightarrow> vercel_provider_config \<Rightarrow> oauth_metadata \<Rightarrow> device_authorization \<Rightarrow> ('w, nat \<times> string) provider_action" where
  "poll_request web config m d =
     post_form_bounded web (om_token_endpoint m)
       [(''client_id'', vp_client_id config), (''grant_type'', device_grant), (''device_code'', dv_code d)]
       ''Vercel device token''"

definition poll_timed_out :: provider_error where
  "poll_timed_out = AuthenticationFailed ''timed out waiting for Vercel device authorization''"

function poll_loop ::
  "'w web \<Rightarrow> vercel_provider_config \<Rightarrow> oauth_metadata \<Rightarrow> device_authorization \<Rightarrow> nat \<Rightarrow> nat \<Rightarrow> nat \<Rightarrow> 'w \<Rightarrow>
     (provider_error + vercel_token) \<times> 'w" where
  "poll_loop web config m d deadline slow now w =
     (if deadline \<le> now then (Inl poll_timed_out, w)
      else
        let (passed, w) = wb_elapsed web w;
            pause = min (poll_interval_ms d slow) (deadline - (now + passed));
            (answer, w) = poll_request web config m d (wb_sleep web pause w) in
        case answer of
          Inl e \<Rightarrow> (Inl e, w)
        | Inr (status, bytes) \<Rightarrow>
            (case poll_answer_of web status bytes of
               Finished_With token \<Rightarrow> parse_token web token None None w
             | Refused e \<Rightarrow> (Inl e, w)
             | Pending \<Rightarrow>
                 (let (took, w) = wb_elapsed web w in poll_loop web config m d deadline slow (now + passed + pause + took) w)
             | SlowDown \<Rightarrow>
                 (let (took, w) = wb_elapsed web w in
                  poll_loop web config m d deadline (slow + 1) (now + passed + pause + took) w)))"
  by pat_completeness auto
termination
  by (relation "measure (\<lambda>(web, config, m, d, deadline, slow, now, w). deadline - now)")
    (auto simp: poll_interval_ms_def)

declare poll_loop.simps [simp del]

definition poll_device_token ::
  "'w web \<Rightarrow> vercel_provider_config \<Rightarrow> oauth_metadata \<Rightarrow> device_authorization \<Rightarrow> ('w, vercel_token) provider_action" where
  "poll_device_token web config m d =
     seq (reading (wb_elapsed web)) (\<lambda>_.
       poll_loop web config m d (min (vp_auth_timeout_ms config) (1000 * nat (sint (dv_expires_in d)))) 0 0)"

subsection \<open>Teams\<close>

text \<open>A team is its id and its slug.\<close>

definition team_of :: "json \<Rightarrow> (string \<times> string) option" where
  "team_of v =
     Option.bind (struct_fields [''id'', ''slug'', ''name''] v) (\<lambda>obj.
     Option.bind (string_field obj ''id'') (\<lambda>i.
     Option.bind (string_field obj ''slug'') (\<lambda>slug.
     Option.bind (opt_string_field obj ''name'') (\<lambda>_. Some (i, slug)))))"

definition teams_of :: "json \<Rightarrow> (string \<times> string) list option" where
  "teams_of v =
     Option.bind (struct_fields [''teams''] v) (\<lambda>obj. Option.bind (map_of obj ''teams'') (list_value team_of))"

definition fetch_teams :: "'w web \<Rightarrow> vercel_provider_config \<Rightarrow> string \<Rightarrow> ('w, (string \<times> string) list) provider_action" where
  "fetch_teams web config access =
     seq (calling (\<lambda>e. vercel_failed (''team request failed: '' @ e))
         (wb_get web (vp_teams_endpoint config)
           [(''authorization'', ''Bearer '' @ access), (''accept'', ''application/json''), (''user-agent'', fxrs_user_agent)]
           max_oauth_body_bytes)) (\<lambda>(status, body).
     seq (lift (map_err (\<lambda>e. AuthenticationFailed (''could not read Vercel team response: '' @ e)) body)) (\<lambda>bytes.
     seq (lift (ensure (status = 200) (vercel_failed (''team request returned HTTP '' @ show_nat status)))) (\<lambda>_.
     seq (lift (ok_or (vercel_failed ''team response was invalid'') (Option.bind (parsed web bytes) teams_of))) (\<lambda>teams.
       give (filter (\<lambda>(i, slug). i \<noteq> [] \<and> slug \<noteq> []) teams)))))"

record team_selection =
  ts_id :: "string option"
  ts_slug :: "string option"

definition select_team :: "(string \<times> string) list \<Rightarrow> string option \<Rightarrow> provider_error + team_selection" where
  "select_team teams requested =
     (case requested of
        Some r \<Rightarrow>
          and_then (ok_or (AuthenticationFailed (''configured Vercel team `'' @ r @ ''` was not returned by the account''))
              (find (\<lambda>(i, slug). i = r \<or> slug = r) teams)) (\<lambda>(i, slug).
            Inr \<lparr>ts_id = Some i, ts_slug = Some slug\<rparr>)
      | None \<Rightarrow>
          Inr (case teams of [] \<Rightarrow> \<lparr>ts_id = None, ts_slug = None\<rparr> | (i, slug) # _ \<Rightarrow> \<lparr>ts_id = Some i, ts_slug = Some slug\<rparr>))"

definition configured_or_stored_team :: "string option \<Rightarrow> (string \<times> string) list \<Rightarrow> string option" where
  "configured_or_stored_team configured attributes =
     (let stored_id = map_of attributes ''team_id''; stored_slug = map_of attributes ''team_slug'' in
      case configured of
        Some c \<Rightarrow> if stored_id = Some c \<or> stored_slug = Some c then or_else stored_id (Some c) else Some c
      | None \<Rightarrow> stored_id)"

text \<open>The attributes of a stored token, in the order of the map.\<close>

definition vercel_credential :: "vercel_token \<Rightarrow> string \<Rightarrow> string \<Rightarrow> team_selection \<Rightarrow> credential" where
  "vercel_credential t issuer client_id team =
     OAuth (vt_access t) (Some (vt_refresh t)) (vt_expires t)
       (map_extend
          ([(''issuer'', issuer), (''client_id'', client_id), (''scope'', vt_scope t), (''token_type'', vt_type t)]
           @ (case ts_id team of None \<Rightarrow> [] | Some i \<Rightarrow> [(''team_id'', i)])
           @ (case ts_slug team of None \<Rightarrow> [] | Some s \<Rightarrow> [(''team_slug'', s)])) [])"

definition notice :: "'w web \<Rightarrow> string \<Rightarrow> ('w, unit) provider_action" where
  "notice web line = doing (wb_print web line)"

text \<open>\<open>device_login\<close>: a browser that does not open and teams that cannot be read are no errors.\<close>

definition device_login ::
  "'w web \<Rightarrow> vercel_provider_config \<Rightarrow> ('w, vercel_token \<times> team_selection) provider_action" where
  "device_login web config =
     seq (discover web (vp_issuer config)) (\<lambda>m.
     seq (request_device_authorization web config m) (\<lambda>d.
       let url = unwrap_or (dv_uri d) (dv_uri_complete d) in
       seq (notice web (''fxrs Vercel login: open '' @ url)) (\<lambda>_.
       seq (notice web (''fxrs Vercel login code: '' @ dv_user_code d)) (\<lambda>_.
       seq (if vp_open_browser config then
              (\<lambda>w. case open_browser web url w of
                 (Inl e, w') \<Rightarrow> notice web (''fxrs Vercel login: browser could not be opened ('' @ show_provider_error e
                   @ ''); open the URL manually'') w'
               | (Inr u, w') \<Rightarrow> (Inr u, w'))
            else give ()) (\<lambda>_.
       seq (poll_device_token web config m d) (\<lambda>token.
       seq (\<lambda>w. case fetch_teams web config (vt_access token) w of
              (Inl _, w') \<Rightarrow> (Inr [], w') | (Inr teams, w') \<Rightarrow> (Inr teams, w')) (\<lambda>teams.
       seq (lift (select_team teams (vp_team config))) (\<lambda>team. give (token, team)))))))))"

subsection \<open>The token of a request\<close>

datatype credential_source = FromApiKey | FromFxLogin

record vercel_auth =
  va_access :: string
  va_team_id :: "string option"
  va_source :: credential_source

definition vercel_sign_in_required :: provider_error where
  "vercel_sign_in_required =
     AuthenticationRequired vercel_provider_name
       ''call ACP authenticate with method `vercel:oauth`, or set `VERCEL_OIDC_TOKEN` or `AI_GATEWAY_API_KEY`''"

definition refresh_saved ::
  "'w web \<Rightarrow> vercel_provider_config \<Rightarrow> 'w credential_store \<Rightarrow> string option \<Rightarrow> (string \<times> string) list \<Rightarrow>
     ('w, vercel_auth) provider_action" where
  "refresh_saved web config st refresh attributes =
     (let team_id = configured_or_stored_team (vp_team config) attributes;
          issuer = unwrap_or (vp_issuer config) (map_of attributes ''issuer'');
          client_id = unwrap_or (vp_client_id config) (map_of attributes ''client_id'');
          previous_scope = unwrap_or oauth_scope (map_of attributes ''scope'') in
      seq (lift (ok_or (AuthenticationFailed
          ''the saved Vercel session expired and cannot be refreshed; authenticate again'') refresh)) (\<lambda>refresh.
      seq (lift (validate_issuer web issuer)) (\<lambda>_.
      seq (lift (validate_client_id client_id)) (\<lambda>_.
      seq (discover web issuer) (\<lambda>m.
      seq (refresh_vercel_token web m client_id refresh previous_scope) (\<lambda>token.
      seq (st_replace st vercel_provider_id
          (vercel_credential token issuer client_id \<lparr>ts_id = team_id, ts_slug = map_of attributes ''team_slug''\<rparr>)) (\<lambda>_.
        give \<lparr>va_access = vt_access token, va_team_id = team_id, va_source = FromFxLogin\<rparr>)))))))"

definition resolve_vercel_auth ::
  "'w web \<Rightarrow> vercel_provider_config \<Rightarrow> 'w credential_store \<Rightarrow> ('w, vercel_auth) provider_action" where
  "resolve_vercel_auth web config st w =
     (case nonempty_env web ''VERCEL_OIDC_TOKEN'' w of
        Some token \<Rightarrow> (Inr \<lparr>va_access = token, va_team_id = vp_team config, va_source = FromApiKey\<rparr>, w)
      | None \<Rightarrow>
     (case nonempty_env web ''AI_GATEWAY_API_KEY'' w of
        Some token \<Rightarrow> (Inr \<lparr>va_access = token, va_team_id = vp_team config, va_source = FromApiKey\<rparr>, w)
      | None \<Rightarrow>
        seq (st_lock st vercel_provider_id) (\<lambda>saved.
          case saved of
            None \<Rightarrow> fail vercel_sign_in_required
          | Some (ApiKey secret attributes) \<Rightarrow>
              give \<lparr>va_access = secret, va_team_id = configured_or_stored_team (vp_team config) attributes,
                    va_source = FromApiKey\<rparr>
          | Some (OAuth access refresh expires attributes) \<Rightarrow>
              seq (reading (now_ms web)) (\<lambda>now.
                if now <s saturating_sub_i64 expires vercel_refresh_skew_ms then
                  give \<lparr>va_access = access, va_team_id = configured_or_stored_team (vp_team config) attributes,
                        va_source = FromFxLogin\<rparr>
                else refresh_saved web config st refresh attributes)) w))"

definition max_catalog_body_bytes :: nat where "max_catalog_body_bytes = 2 * 1024 * 1024"

subsection \<open>Catalogues\<close>

definition is_vercel_model_id :: "string \<Rightarrow> bool" where
  "is_vercel_model_id v \<longleftrightarrow> v \<noteq> [] \<and> length v \<le> 256 \<and> list_all is_provider_route (split_on (CHR ''/'') v)"

definition validate_vercel_model_id :: "string \<Rightarrow> provider_error + unit" where
  "validate_vercel_model_id v =
     ensure (is_vercel_model_id v) (Configuration (''Vercel model id `'' @ v @ ''` is invalid''))"

definition built_in_models :: "string list" where
  "built_in_models =
     [''anthropic/claude-opus-4.8'', ''anthropic/claude-opus-4.7'', ''anthropic/claude-opus-4.6'',
      ''anthropic/claude-opus-4.5'', ''anthropic/claude-sonnet-4.6'', ''alibaba/qwen-3.7-max'',
      ''alibaba/qwen-3.7-plus'', ''openai/gpt-5.5'', ''openai/gpt-5.5-pro'', ''openai/gpt-5.4'', ''openai/gpt-5.4-mini'',
      ''openai/gpt-5.3-codex'', ''openai/gpt-5.2-codex'', ''openai/gpt-5.2'', ''openai/o3'', ''openai/gpt-oss-120b'',
      ''xai/grok-build-0.1'', ''google/gemini-3.1-pro'', vercel_default_model, ''zai/glm-5.2-fast'', ''zai/glm-5.1'',
      ''zai/glm-5'', ''deepseek/deepseek-v4'', ''deepseek/deepseek-v4-flash'', ''deepseek/deepseek-v4-pro'',
      ''minimax/minimax-m3'', ''minimax/minimax-m2.7'']"

definition conservative_model :: "string \<Rightarrow> model_info" where
  "conservative_model i =
     \<lparr>mi_provider_id = vercel_provider_id, mi_id = i, mi_name = i, mi_context_window = 128000,
      mi_max_output_tokens = 32000, mi_reasoning = True, mi_native_web_search = None\<rparr>"

text \<open>The ids that are new, in order, as models; the first that is no model id ends it.\<close>

fun extra_models :: "string set \<Rightarrow> string list \<Rightarrow> provider_error + model_info list" where
  "extra_models seen [] = Inr []"
| "extra_models seen (i # is) =
     (if i \<in> seen then extra_models seen is
      else
        and_then (validate_vercel_model_id i) (\<lambda>_.
        and_then (extra_models (insert i seen) is) (\<lambda>ms. Inr (conservative_model i # ms))))"

definition vercel_model_catalog :: "string list \<Rightarrow> provider_error + model_info list" where
  "vercel_model_catalog additional = extra_models {} (built_in_models @ additional)"

definition catalog_u32 :: "json option \<Rightarrow> nat option" where
  "catalog_u32 v =
     Option.bind v (\<lambda>v. Option.bind (as_u64 v) (\<lambda>n. if unat n \<le> u32_max then Some (unat n) else None))"

definition has_effort_option :: "json_object \<Rightarrow> bool" where
  "has_effort_option obj =
     (case array_field obj ''reasoning_options'' of
        None \<Rightarrow> False
      | Some options \<Rightarrow> list_ex (\<lambda>v. Option.bind (value_get v ''type'') as_str = Some ''effort'') options)"

definition has_reasoning_tag :: "json_object \<Rightarrow> bool" where
  "has_reasoning_tag obj =
     list_ex (\<lambda>v. case as_str v of Some tag \<Rightarrow> eq_ignore_ascii_case tag ''reasoning'' | None \<Rightarrow> False)
       (unwrap_or [] (array_field obj ''tags''))"

definition other_kind :: "json_object \<Rightarrow> bool" where
  "other_kind obj =
     (case Option.bind (map_of obj ''type'') as_str of None \<Rightarrow> False | Some kind \<Rightarrow> \<not> eq_ignore_ascii_case kind ''language'')"

definition parse_catalog_entry :: "json \<Rightarrow> model_info option" where
  "parse_catalog_entry v =
     Option.bind (as_object v) (\<lambda>obj.
       if other_kind obj then None
       else
         Option.bind (string_field obj ''id'') (\<lambda>i.
           if \<not> is_vercel_model_id i then None
           else
             Some \<lparr>mi_provider_id = vercel_provider_id, mi_id = i,
               mi_name = unwrap_or i (non_empty (map_option trim (string_field obj ''name''))),
               mi_context_window = unwrap_or 128000 (catalog_u32 (map_of obj ''context_window'')),
               mi_max_output_tokens = unwrap_or 32000 (catalog_u32 (map_of obj ''max_tokens'')),
               mi_reasoning = (has_reasoning_tag obj \<or> has_effort_option obj), mi_native_web_search = None\<rparr>))"

text \<open>The first model of each id.\<close>

fun first_of_each :: "string set \<Rightarrow> model_info list \<Rightarrow> model_info list" where
  "first_of_each seen [] = []"
| "first_of_each seen (m # ms) =
     (if mi_id m \<in> seen then first_of_each seen ms else m # first_of_each (insert (mi_id m) seen) ms)"

definition parse_model_catalog :: "'w web \<Rightarrow> string \<Rightarrow> string list \<Rightarrow> provider_error + model_info list" where
  "parse_model_catalog web bytes additional =
     and_then (ok_or (Transport ''Vercel model catalog response was invalid JSON'') (parsed web bytes)) (\<lambda>document.
     and_then (ok_or (Transport ''Vercel model catalog response omitted `data`'')
         (Option.bind (value_get document ''data'') as_array)) (\<lambda>entries.
       let models = first_of_each {} (List.map_filter parse_catalog_entry entries) in
       and_then (extra_models (mi_id ` set models) additional) (\<lambda>extra.
       and_then (ensure (models @ extra \<noteq> []) (Transport ''Vercel model catalog contained no language models'')) (\<lambda>_.
         Inr (models @ extra)))))"

definition catalog_status_error :: "nat \<Rightarrow> provider_error" where
  "catalog_status_error status = Transport (''Vercel model catalog request returned HTTP '' @ show_nat status)"

subsection \<open>The live catalogue\<close>

definition catalog_pairs :: "vercel_auth option \<Rightarrow> form" where
  "catalog_pairs auth =
     (case auth of
        Some a \<Rightarrow>
          if va_source a = FromFxLogin then (case va_team_id a of Some team \<Rightarrow> [(''teamId'', team)] | None \<Rightarrow> []) else []
      | None \<Rightarrow> [])"

definition catalog_headers :: "vercel_auth option \<Rightarrow> form" where
  "catalog_headers auth =
     [(''accept'', ''application/json''), (''user-agent'', fxrs_user_agent)]
     @ (case auth of
          None \<Rightarrow> []
        | Some a \<Rightarrow>
            (''authorization'', ''Bearer '' @ va_access a)
            # (if va_source a = FromApiKey then
                 (case va_team_id a of Some team \<Rightarrow> [(''x-vercel-ai-gateway-team'', team)] | None \<Rightarrow> [])
               else []))"

definition fetch_model_catalog ::
  "'w web \<Rightarrow> vercel_provider_config \<Rightarrow> vercel_auth option \<Rightarrow> ('w, nat \<times> string) provider_action" where
  "fetch_model_catalog web config auth =
     (let what = (if auth = None then ''Vercel public model catalog'' else ''Vercel model catalog'') in
      seq (lift (map_err (\<lambda>e. Configuration (''invalid Vercel catalog endpoint: '' @ e))
          (wb_with_pairs web (vp_catalog_endpoint config) (catalog_pairs auth)))) (\<lambda>url.
      seq (calling (\<lambda>e. Transport (what @ '' request failed: '' @ e))
          (wb_get web url (catalog_headers auth) max_catalog_body_bytes)) (\<lambda>(status, body).
      seq (lift (map_err (\<lambda>e. AuthenticationFailed (''could not read '' @ what @ '' response: '' @ e)) body)) (\<lambda>bytes.
        give (status, bytes)))))"

definition load_model_catalog ::
  "'w web \<Rightarrow> vercel_provider_config \<Rightarrow> 'w credential_store \<Rightarrow> ('w, model_info list) provider_action" where
  "load_model_catalog web config st =
     seq (resolve_vercel_auth web config st) (\<lambda>auth.
       let authenticated = \<not> (va_source auth = FromFxLogin \<and> va_team_id auth = None) in
       seq (fetch_model_catalog web config (if authenticated then Some auth else None)) (\<lambda>(status, bytes).
       seq (if authenticated \<and> status \<in> {401, 403} then
              seq (fetch_model_catalog web config None) (\<lambda>(fallback_status, fallback).
                lift (if fallback_status \<noteq> 200 then Inl (catalog_status_error fallback_status) else Inr fallback))
            else lift (if status \<noteq> 200 then Inl (catalog_status_error status) else Inr bytes)) (\<lambda>bytes.
       seq (lift (parse_model_catalog web bytes (vp_additional_models config))) (\<lambda>models.
       seq (lift (ensure (list_ex (\<lambda>m. mi_id m = vercel_default_model) models)
           (Transport (''Vercel model catalog omitted the default model `'' @ vercel_default_model @ ''`'')))) (\<lambda>_.
         give models)))))"

subsection \<open>The provider\<close>

definition new_vercel_provider ::
  "'w web \<Rightarrow> vercel_provider_config \<Rightarrow> provider_error + vercel_provider_config \<times> model_info list" where
  "new_vercel_provider web config =
     and_then (validate_issuer web (vp_issuer config)) (\<lambda>_.
     and_then (validate_client_id (vp_client_id config)) (\<lambda>_.
     and_then (validate_trusted_endpoint web (vp_gateway_endpoint config) GatewayEndpoint) (\<lambda>_.
     and_then (validate_trusted_endpoint web (vp_catalog_endpoint config) GatewayEndpoint) (\<lambda>_.
     and_then (validate_trusted_endpoint web (vp_teams_endpoint config) VercelApi) (\<lambda>_.
     and_then (validate_routing_policy (vp_routing config)) (\<lambda>_.
     and_then (vercel_model_catalog (vp_additional_models config)) (\<lambda>models. Inr (config, models))))))))"

text \<open>\<open>VercelProvider::from_process\<close>, which panics where this has no value.\<close>

definition vercel_from_process :: "'w web \<Rightarrow> 'w \<Rightarrow> (vercel_provider_config \<times> model_info list) option" where
  "vercel_from_process web w =
     (case new_vercel_provider web (vercel_config_from_process web w) of Inr p \<Rightarrow> Some p | Inl _ \<Rightarrow> None)"

record 'w id_cell =
  ic_get :: "'w \<Rightarrow> string set"
  ic_set :: "string set \<Rightarrow> 'w \<Rightarrow> 'w"

definition vercel_authenticate ::
  "'w web \<Rightarrow> vercel_provider_config \<Rightarrow> 'w credential_store \<Rightarrow> string \<Rightarrow> ('w, unit) provider_action" where
  "vercel_authenticate web config st method_id =
     (if method_id \<noteq> device_auth_method then fail (UnknownAuthMethod (vercel_provider_id @ '':'' @ method_id))
      else
        seq (device_login web config) (\<lambda>(token, team).
        seq (st_lock st vercel_provider_id) (\<lambda>_.
          st_replace st vercel_provider_id (vercel_credential token (vp_issuer config) (vp_client_id config) team))))"

definition vercel_refresh_models ::
  "'w web \<Rightarrow> 'w id_cell \<Rightarrow> vercel_provider_config \<Rightarrow> 'w credential_store \<Rightarrow> ('w, model_info list option) provider_action" where
  "vercel_refresh_models web cell config st =
     seq (load_model_catalog web config st) (\<lambda>models.
     seq (doing (\<lambda>w. ic_set cell (ic_get cell w \<union> mi_id ` set models) w)) (\<lambda>_. give (Some models)))"

definition vercel_provider_gateway ::
  "(vercel_config \<Rightarrow> 'w gateway) \<Rightarrow> 'w web \<Rightarrow> 'w id_cell \<Rightarrow> vercel_provider_config \<Rightarrow> 'w credential_store \<Rightarrow> string \<Rightarrow>
     string option \<Rightarrow> ('w, 'w gateway) provider_action" where
  "vercel_provider_gateway build_gateway web cell config st model_id session =
     seq (reading (\<lambda>w. (ic_get cell w, w))) (\<lambda>accepted.
     seq (lift (ensure (model_id \<in> accepted) (UnknownModel (vercel_provider_id @ ''/'' @ model_id)))) (\<lambda>_.
     seq (resolve_vercel_auth web config st) (\<lambda>auth.
       give (safe_retry (build_gateway ((new_vercel_config model_id (va_access auth))
         \<lparr>vc_endpoint := vp_gateway_endpoint config, vc_team_id := va_team_id auth, vc_session_id := session,
          vc_routing := vp_routing config\<rparr>)) 1))))"

definition vercel_provider ::
  "(vercel_config \<Rightarrow> 'w gateway) \<Rightarrow> 'w web \<Rightarrow> 'w id_cell \<Rightarrow> vercel_provider_config \<Rightarrow> model_info list \<Rightarrow> 'w provider" where
  "vercel_provider build_gateway web cell config models =
     \<lparr>pr_id = vercel_provider_id, pr_name = vercel_provider_name, pr_models = models,
      pr_default_model = vercel_default_model,
      pr_auth_methods = [\<lparr>am_id = device_auth_method, am_name = ''Sign in with Vercel'',
        am_description = ''Authorize fxrs for Vercel AI Gateway using the browser device flow.''\<rparr>],
      pr_authenticate = vercel_authenticate web config, pr_refresh_models = vercel_refresh_models web cell config,
      pr_logout = default_logout vercel_provider_id,
      pr_gateway = vercel_provider_gateway build_gateway web cell config\<rparr>"

end
