(* ===== verification/Codex_Auth.thy ===== *)
theory Codex_Auth
  imports Oauth_World Codex_Stream Credentials
begin

section \<open>The Codex provider\<close>

text \<open>
  \<open>fx-provider/src/codex.rs\<close>: the catalogue, the browser login with its callback, the token requests, and how a
  gateway gets its bearer token: from the saved credential, refreshed when it is about to expire, or from the file
  of the \<open>codex\<close> command. What the callback listener accepts before its deadline is an input of the login.
\<close>

definition codex_provider_id :: string where "codex_provider_id = ''codex''"
definition codex_default_model :: string where "codex_default_model = ''gpt-5.6-sol''"
definition browser_auth_method :: string where "browser_auth_method = ''chatgpt''"
definition codex_provider_name :: string where "codex_provider_name = ''OpenAI Codex''"
definition codex_client_id :: string where "codex_client_id = ''app_EMoamEEZ73f0CkXaXp7hrann''"
definition codex_auth_base_url :: string where "codex_auth_base_url = ''https://auth.openai.com''"
definition codex_scope :: string where "codex_scope = ''openid profile email offline_access''"
definition account_attribute :: string where "account_attribute = ''account_id''"
definition jwt_auth_claim :: string where "jwt_auth_claim = ''https://api.openai.com/auth''"
definition codex_refresh_skew_ms :: i64 where "codex_refresh_skew_ms = 5 * 60 * 1000"
definition max_auth_file_bytes :: nat where "max_auth_file_bytes = 64 * 1024"
definition max_token_body_bytes :: nat where "max_token_body_bytes = 64 * 1024"
definition max_http_header_bytes :: nat where "max_http_header_bytes = 32 * 1024"

record codex_provider_config =
  cp_home :: "string option"
  cp_responses_endpoint :: string
  cp_auth_base_url :: string
  cp_callback_loopback :: bool
  cp_callback_addr :: string
  cp_callback_port :: nat
  cp_open_browser :: bool

definition codex_from_process :: "'w web \<Rightarrow> string option \<Rightarrow> 'w \<Rightarrow> codex_provider_config" where
  "codex_from_process web home_dir w =
     \<lparr>cp_home = home_dir, cp_responses_endpoint = codex_endpoint_from_base (wb_env web ''FX_CODEX_BASE_URL'' w),
      cp_auth_base_url = codex_auth_base_url, cp_callback_loopback = True, cp_callback_addr = ''127.0.0.1:1455'',
      cp_callback_port = 1455, cp_open_browser = True\<rparr>"

definition validate_auth_base :: "'w web \<Rightarrow> string \<Rightarrow> provider_error + unit" where
  "validate_auth_base web v =
     and_then (map_err (\<lambda>e. Configuration (''invalid auth base: '' @ e)) (wb_url web v)) (\<lambda>url.
       let production = ur_scheme url = ''https'' \<and> ur_host url = Some ''auth.openai.com'';
           loopback = ur_scheme url = ''http'' \<and> ur_host url \<in> {Some ''localhost'', Some ''127.0.0.1''} in
       ensure (production \<or> loopback) (Configuration ''Codex auth base must be auth.openai.com or loopback''))"

definition new_codex_provider :: "'w web \<Rightarrow> codex_provider_config \<Rightarrow> provider_error + codex_provider_config" where
  "new_codex_provider web config =
     and_then (validate_auth_base web (cp_auth_base_url config)) (\<lambda>_.
     and_then (ensure (cp_callback_loopback config) (Configuration ''Codex OAuth callback must bind to loopback'')) (\<lambda>_.
       Inr config))"

subsection \<open>Models\<close>

definition codex_model :: "string \<times> nat \<Rightarrow> model_info" where
  "codex_model p =
     \<lparr>mi_provider_id = codex_provider_id, mi_id = fst p, mi_name = fst p, mi_context_window = snd p,
      mi_max_output_tokens = 128000, mi_reasoning = True, mi_native_web_search = Some codex_web_search_tool_id\<rparr>"

definition codex_catalog :: "model_info list" where
  "codex_catalog = map codex_model
     [(''gpt-5.3-codex-spark'', 128000), (''gpt-5.4'', 272000), (''gpt-5.4-mini'', 272000), (''gpt-5.5'', 272000),
      (''gpt-5.6-luna'', 272000), (''gpt-5.6-sol'', 272000), (''gpt-5.6-terra'', 272000)]"

definition codex_find_model :: "string \<Rightarrow> provider_error + model_info" where
  "codex_find_model ident =
     ok_or (UnknownModel (codex_provider_id @ ''/'' @ ident)) (find (\<lambda>m. mi_id m = ident) codex_catalog)"

subsection \<open>Tokens\<close>

definition decode_jwt :: "'w web \<Rightarrow> string \<Rightarrow> json option" where
  "decode_jwt web token =
     (case split_on (CHR ''.'') token of
        [_, payload, _] \<Rightarrow>
          if max_auth_file_bytes < length payload then None
          else Option.bind (wb_base64_url_decode web payload) (parsed web)
      | _ \<Rightarrow> None)"

definition account_id_from_jwt :: "'w web \<Rightarrow> string \<Rightarrow> string option" where
  "account_id_from_jwt web token =
     Option.bind (decode_jwt web token) (\<lambda>payload.
     Option.bind (value_get payload jwt_auth_claim) (\<lambda>claim.
     Option.bind (value_get claim ''chatgpt_account_id'') (\<lambda>v. non_empty (as_str v))))"

definition as_i64 :: "json \<Rightarrow> i64 option" where
  "as_i64 v = (case v of JNumber n \<Rightarrow> if i64_min \<le> n \<and> n \<le> i64_max then Some (word_of_int n) else None | _ \<Rightarrow> None)"

definition jwt_expiry_ms :: "'w web \<Rightarrow> string \<Rightarrow> i64 option" where
  "jwt_expiry_ms web token =
     Option.bind (decode_jwt web token) (\<lambda>payload.
     Option.bind (value_get payload ''exp'') (\<lambda>v.
     Option.bind (as_i64 v) (\<lambda>seconds. checked_mul_i64 seconds 1000)))"

record oauth_token =
  ot_access :: string
  ot_refresh :: string
  ot_expires :: i64

record codex_auth =
  ca_access :: string
  ca_account :: string

definition no_account :: provider_error where
  "no_account = AuthenticationFailed ''Codex access token did not contain a ChatGPT account id''"

definition token_credential :: "'w web \<Rightarrow> oauth_token \<Rightarrow> provider_error + credential" where
  "token_credential web t =
     and_then (ok_or no_account (account_id_from_jwt web (ot_access t))) (\<lambda>account.
       Inr (OAuth (ot_access t) (Some (ot_refresh t)) (ot_expires t) [(account_attribute, account)]))"

definition resolved_from_token :: "'w web \<Rightarrow> oauth_token \<Rightarrow> provider_error + codex_auth" where
  "resolved_from_token web t =
     and_then (ok_or no_account (account_id_from_jwt web (ot_access t))) (\<lambda>account.
       Inr \<lparr>ca_access = ot_access t, ca_account = account\<rparr>)"

definition token_response_of :: "json \<Rightarrow> (string \<times> string option \<times> nat) option" where
  "token_response_of v =
     Option.bind (struct_fields [''access_token'', ''refresh_token'', ''expires_in''] v) (\<lambda>obj.
     Option.bind (string_field obj ''access_token'') (\<lambda>access.
     Option.bind (opt_string_field obj ''refresh_token'') (\<lambda>refresh.
     Option.bind (nat_field u64_max obj ''expires_in'') (\<lambda>seconds. Some (access, refresh, seconds)))))"

definition token_failed :: "string \<Rightarrow> provider_error" where
  "token_failed m = AuthenticationFailed (''Codex OAuth '' @ m)"

definition token_request ::
  "'w web \<Rightarrow> codex_provider_config \<Rightarrow> form \<Rightarrow> string option \<Rightarrow> ('w, oauth_token) provider_action" where
  "token_request web config form_fields previous_refresh =
     seq (calling (\<lambda>e. token_failed (''token request failed: '' @ e))
         (wb_post_form web True (trim_end_slashes (cp_auth_base_url config) @ ''/oauth/token'') form_fields max_token_body_bytes))
       (\<lambda>(_, body).
     seq (lift (map_err (\<lambda>e. AuthenticationFailed (''could not read Codex OAuth token: '' @ e)) body)) (\<lambda>bytes.
     seq (lift (ok_or (token_failed ''token response was invalid'') (Option.bind (parsed web bytes) token_response_of)))
       (\<lambda>(access, refresh, seconds).
     seq (lift (ensure (access \<noteq> [] \<and> seconds \<noteq> 0) (token_failed ''token response was incomplete''))) (\<lambda>_.
     seq (lift (ok_or (token_failed ''token response omitted its refresh token'') (or_else (non_empty refresh) previous_refresh)))
       (\<lambda>refresh_token.
     seq (expiry_at web (token_failed ''expiry was invalid'') (if int seconds \<le> i64_max then Some (word_of_nat seconds) else None))
       (\<lambda>expires. give \<lparr>ot_access = access, ot_refresh = refresh_token, ot_expires = expires\<rparr>))))))"

definition refresh_codex_token :: "'w web \<Rightarrow> codex_provider_config \<Rightarrow> string \<Rightarrow> ('w, oauth_token) provider_action" where
  "refresh_codex_token web config refresh =
     token_request web config
       [(''grant_type'', ''refresh_token''), (''refresh_token'', refresh), (''client_id'', codex_client_id)] (Some refresh)"

definition exchange_code :: "'w web \<Rightarrow> codex_provider_config \<Rightarrow> string \<Rightarrow> string \<Rightarrow> string \<Rightarrow> ('w, oauth_token) provider_action" where
  "exchange_code web config code verifier redirect_uri =
     token_request web config
       [(''grant_type'', ''authorization_code''), (''client_id'', codex_client_id), (''code'', code),
        (''code_verifier'', verifier), (''redirect_uri'', redirect_uri)] None"

subsection \<open>The file of the \<open>codex\<close> command\<close>

definition ambient_of_json :: "json \<Rightarrow> (string \<times> string option) option option" where
  "ambient_of_json v =
     Option.bind (struct_fields [''tokens''] v) (\<lambda>file.
       case map_of file ''tokens'' of
         None \<Rightarrow> Some None
       | Some JNull \<Rightarrow> Some None
       | Some tokens \<Rightarrow>
           Option.bind (struct_fields [''access_token'', ''account_id''] tokens) (\<lambda>obj.
           Option.bind (string_field obj ''access_token'') (\<lambda>access.
           Option.bind (opt_string_field obj ''account_id'') (\<lambda>account. Some (Some (access, account))))))"

text \<open>\<open>read_private_file\<close> on the disk of the credential store: opened once, read through its handle.\<close>

definition ambient_failed :: "string \<Rightarrow> io_error \<Rightarrow> provider_error" where
  "ambient_failed what e = AuthenticationFailed (''could not '' @ what @ '' ambient Codex credential: '' @ io_message e)"

definition read_private_file :: "string \<Rightarrow> string option store_action" where
  "read_private_file path =
     seq (disk_look (ambient_failed ''open'') (\<lambda>d. if_there (open_no_follow path d))) (\<lambda>opened.
       case opened of
         None \<Rightarrow> give None
       | Some node \<Rightarrow>
           seq (disk_look (ambient_failed ''inspect'') (\<lambda>_. Inr ())) (\<lambda>_.
           case node of
             FileNode m bytes \<Rightarrow>
               if \<not> is_private m then
                 fail (AuthenticationFailed (''ambient Codex credential `'' @ path @ ''` is not a private regular file''))
               else
                 seq (disk_look (ambient_failed ''read'') (\<lambda>_. Inr ())) (\<lambda>_.
                   lift (if max_auth_file_bytes < length bytes
                     then Inl (AuthenticationFailed ''ambient Codex credential exceeds 64 KiB'') else Inr (Some bytes)))
           | _ \<Rightarrow> fail (AuthenticationFailed (''ambient Codex credential `'' @ path @ ''` is not a private regular file''))))"

definition soon_expired :: "i64 \<Rightarrow> i64 \<Rightarrow> i64 \<Rightarrow> bool" where
  "soon_expired skew expires now \<longleftrightarrow> \<not> now <s saturating_sub_i64 expires skew"

definition ambient_auth :: "'w web \<Rightarrow> string \<Rightarrow> string option \<Rightarrow> ('w, codex_auth option) provider_action" where
  "ambient_auth web access account =
     (if trim access = [] then give None
      else
        seq (lift (ok_or (AuthenticationFailed ''ambient Codex access token has no valid expiry; run `codex login`'')
            (jwt_expiry_ms web access))) (\<lambda>expires.
        seq (reading (now_ms web)) (\<lambda>now.
        seq (lift (ensure (\<not> soon_expired codex_refresh_skew_ms expires now)
            (AuthenticationFailed ''ambient Codex session is expired; run `codex login` or use ACP authenticate''))) (\<lambda>_.
        seq (lift (ok_or (AuthenticationFailed ''ambient Codex session has no ChatGPT account id'')
            (or_else (non_empty account) (account_id_from_jwt web access)))) (\<lambda>i.
          give (Some \<lparr>ca_access = access, ca_account = i\<rparr>))))))"

definition load_ambient ::
  "'w web \<Rightarrow> (string \<Rightarrow> ('w, string option) provider_action) \<Rightarrow> codex_provider_config \<Rightarrow>
     ('w, codex_auth option) provider_action" where
  "load_ambient web open_auth config =
     (case cp_home config of
        None \<Rightarrow> give None
      | Some home_dir \<Rightarrow>
          let path = path_push (path_push home_dir ''.codex'') ''auth.json'' in
          seq (open_auth path) (\<lambda>found.
          case found of
            None \<Rightarrow> give None
          | Some bytes \<Rightarrow>
              seq (lift (ok_or (AuthenticationFailed (''ambient Codex credential `'' @ path @ ''` is invalid''))
                  (Option.bind (parsed web bytes) ambient_of_json))) (\<lambda>tokens.
              case tokens of None \<Rightarrow> give None | Some (access, account) \<Rightarrow> ambient_auth web access account)))"

subsection \<open>The token of a gateway\<close>

definition codex_sign_in_required :: provider_error where
  "codex_sign_in_required =
     AuthenticationRequired codex_provider_name
       ''call ACP authenticate with method `codex:chatgpt`, or run `codex login` to reuse its local ChatGPT session''"

definition saved_account :: "'w web \<Rightarrow> string \<Rightarrow> (string \<times> string) list \<Rightarrow> provider_error + string" where
  "saved_account web access attributes =
     ok_or (AuthenticationFailed ''the saved Codex credential has no ChatGPT account id'')
       (or_else (non_empty (map_of attributes account_attribute)) (account_id_from_jwt web access))"

text \<open>
  The lease is held until the answer, or until nothing was found; a refreshed credential is stored before it is used.
\<close>

definition resolve_codex_auth ::
  "'w web \<Rightarrow> (string \<Rightarrow> ('w, string option) provider_action) \<Rightarrow> codex_provider_config \<Rightarrow> 'w credential_store \<Rightarrow>
     ('w, codex_auth) provider_action" where
  "resolve_codex_auth web open_auth config st =
     seq (st_lock st codex_provider_id) (\<lambda>saved.
       case saved of
         Some (ApiKey _ _) \<Rightarrow> fail (AuthenticationFailed ''the saved Codex credential has the wrong kind'')
       | Some (OAuth access refresh expires attributes) \<Rightarrow>
           seq (lift (saved_account web access attributes)) (\<lambda>account.
           seq (reading (now_ms web)) (\<lambda>now.
             if \<not> soon_expired codex_refresh_skew_ms expires now then give \<lparr>ca_access = access, ca_account = account\<rparr>
             else
               seq (lift (ok_or (AuthenticationFailed
                   ''the saved Codex session expired and cannot be refreshed; authenticate again'') refresh)) (\<lambda>refresh.
               seq (refresh_codex_token web config refresh) (\<lambda>refreshed.
               seq (lift (resolved_from_token web refreshed)) (\<lambda>resolved.
               seq (lift (token_credential web refreshed)) (\<lambda>c.
               seq (st_replace st codex_provider_id c) (\<lambda>_. give resolved)))))))
       | None \<Rightarrow>
           seq (load_ambient web open_auth config) (\<lambda>found.
             case found of Some auth \<Rightarrow> give auth | None \<Rightarrow> fail codex_sign_in_required))"

subsection \<open>The browser login\<close>

text \<open>
  What the listener accepts, in order, until the deadline: a connection with what its read timeout and its first line
  give, or an error; waiting is left out.
\<close>

datatype accepted = Connection "string + unit" "string + string" | AcceptError string

datatype callback = Code string | Ignore

definition parse_callback :: "'w web \<Rightarrow> string + unit \<Rightarrow> string + string \<Rightarrow> string \<Rightarrow> provider_error + callback" where
  "parse_callback web timeout_set line expected =
     and_then (map_err AuthenticationFailed timeout_set) (\<lambda>_.
     and_then (map_err (\<lambda>e. AuthenticationFailed (''could not read OAuth callback: '' @ e)) line) (\<lambda>request_line.
     and_then (ensure (length request_line \<le> max_http_header_bytes)
         (AuthenticationFailed ''OAuth callback request was too large'')) (\<lambda>_.
     and_then (ok_or (AuthenticationFailed ''invalid OAuth callback request'')
         (case split_whitespace request_line of _ # target # _ \<Rightarrow> Some target | _ \<Rightarrow> None)) (\<lambda>target.
     and_then (map_err (\<lambda>_. AuthenticationFailed ''invalid OAuth callback URL'')
         (wb_url web (''http://localhost'' @ target))) (\<lambda>url.
       if ur_path url \<noteq> ''/auth/callback'' then Inr Ignore
       else
         let parameters = map_of (rev (ur_pairs url)) in
         if parameters ''state'' \<noteq> Some expected then Inl (AuthenticationFailed ''OAuth callback state did not match'')
         else
           case parameters ''error'' of
             Some e \<Rightarrow> Inl (AuthenticationFailed (''Codex authorization was denied: '' @ e))
           | None \<Rightarrow>
               (case parameters ''code'' of
                  Some code \<Rightarrow>
                    if code \<noteq> [] \<and> length code \<le> 16 * 1024 then Inr (Code code)
                    else Inl (AuthenticationFailed ''OAuth callback omitted its code'')
                | None \<Rightarrow> Inl (AuthenticationFailed ''OAuth callback omitted its code'')))))))"

definition crlf :: string where "crlf = [CHR 0x0D, CHR 0x0A]"

definition callback_page :: "nat \<Rightarrow> string \<Rightarrow> string" where
  "callback_page status message =
     (let body = ''<!doctype html><meta charset=utf-8><title>Fx authentication</title><p>'' @ message @ ''</p>'' in
      ''HTTP/1.1 '' @ show_nat status @ '' '' @ (if status = 200 then ''OK'' else ''Error'') @ crlf
        @ ''Content-Type: text/html; charset=utf-8'' @ crlf @ ''Content-Length: '' @ show_nat (length body) @ crlf
        @ ''Connection: close'' @ crlf @ crlf @ body)"

text \<open>The code, and the pages sent to the connections in turn.\<close>

fun wait_for_callback :: "'w web \<Rightarrow> string \<Rightarrow> accepted list \<Rightarrow> (provider_error + string) \<times> string list" where
  "wait_for_callback web expected [] =
     (Inl (AuthenticationFailed ''timed out waiting for Codex browser login''), [])"
| "wait_for_callback web expected (AcceptError e # later) =
     (Inl (AuthenticationFailed (''OAuth callback failed: '' @ e)), [])"
| "wait_for_callback web expected (Connection timeout_set line # later) =
     (case parse_callback web timeout_set line expected of
        Inr (Code code) \<Rightarrow> (Inr code, [callback_page 200 ''Authentication complete. You can close this window.''])
      | Inr Ignore \<Rightarrow>
          (case wait_for_callback web expected later of
             (r, pages) \<Rightarrow> (r, callback_page 404 ''OAuth callback route not found.'' # pages))
      | Inl e \<Rightarrow> (Inl e, [callback_page 400 ''Authentication failed. Return to your ACP client.'']))"

record 'w callback_listener =
  li_bind :: "string \<Rightarrow> 'w \<Rightarrow> (string + unit) \<times> 'w"
  li_nonblocking :: "'w \<Rightarrow> (string + unit) \<times> 'w"
  li_accepted :: "'w \<Rightarrow> accepted list \<times> 'w"
  li_respond :: "string list \<Rightarrow> 'w \<Rightarrow> 'w"

definition authorize_pairs :: "string \<Rightarrow> string \<Rightarrow> string \<Rightarrow> form" where
  "authorize_pairs redirect_uri challenge expected =
     [(''response_type'', ''code''), (''client_id'', codex_client_id), (''redirect_uri'', redirect_uri),
      (''scope'', codex_scope), (''code_challenge'', challenge), (''code_challenge_method'', ''S256''),
      (''state'', expected), (''id_token_add_organizations'', ''true''), (''codex_cli_simplified_flow'', ''true''),
      (''originator'', ''fxrs'')]"

definition browser_login ::
  "'w web \<Rightarrow> 'w callback_listener \<Rightarrow> codex_provider_config \<Rightarrow> ('w, oauth_token) provider_action" where
  "browser_login web listener config =
     seq (calling (\<lambda>e. AuthenticationFailed
           (''could not bind Codex OAuth callback on '' @ cp_callback_addr config @ '': '' @ e))
         (li_bind listener (cp_callback_addr config))) (\<lambda>_.
     seq (calling (\<lambda>e. AuthenticationFailed (''could not configure OAuth callback: '' @ e)) (li_nonblocking listener)) (\<lambda>_.
     seq (reading (wb_uuid web)) (\<lambda>first.
     seq (reading (wb_uuid web)) (\<lambda>second.
     seq (reading (wb_uuid web)) (\<lambda>expected.
       let verifier = first @ second;
           challenge = wb_base64_url web (wb_sha256 web verifier);
           redirect_uri = ''http://localhost:'' @ show_nat (cp_callback_port config) @ ''/auth/callback'' in
       seq (lift (map_err Configuration
           (wb_with_pairs web (trim_end_slashes (cp_auth_base_url config) @ ''/oauth/authorize'')
             (authorize_pairs redirect_uri challenge expected)))) (\<lambda>auth_url.
       seq (if cp_open_browser config then open_browser web auth_url else give ()) (\<lambda>_.
       seq (reading (li_accepted listener)) (\<lambda>connections.
         let (answer, pages) = wait_for_callback web expected connections in
         seq (doing (li_respond listener pages)) (\<lambda>_.
         seq (lift answer) (\<lambda>code. exchange_code web config code verifier redirect_uri))))))))))"

subsection \<open>The provider\<close>

definition codex_authenticate ::
  "'w web \<Rightarrow> 'w callback_listener \<Rightarrow> codex_provider_config \<Rightarrow> 'w credential_store \<Rightarrow> string \<Rightarrow> ('w, unit) provider_action" where
  "codex_authenticate web listener config st method_id =
     (if method_id \<noteq> browser_auth_method then fail (UnknownAuthMethod (codex_provider_id @ '':'' @ method_id))
      else
        seq (browser_login web listener config) (\<lambda>token.
        seq (lift (token_credential web token)) (\<lambda>c.
        seq (st_lock st codex_provider_id) (\<lambda>_. st_replace st codex_provider_id c))))"

definition codex_provider_gateway ::
  "(codex_config \<Rightarrow> 'w gateway) \<Rightarrow> 'w web \<Rightarrow> (string \<Rightarrow> ('w, string option) provider_action) \<Rightarrow> codex_provider_config \<Rightarrow>
     'w credential_store \<Rightarrow> string \<Rightarrow> string option \<Rightarrow> ('w, 'w gateway) provider_action" where
  "codex_provider_gateway build_gateway web open_auth config st model_id session =
     seq (lift (codex_find_model model_id)) (\<lambda>_.
     seq (resolve_codex_auth web open_auth config st) (\<lambda>auth.
       give (safe_retry (build_gateway ((new_codex_config model_id (ca_access auth) (ca_account auth))
         \<lparr>cc_endpoint := cp_responses_endpoint config, cc_session_id := session, cc_originator := ''fxrs''\<rparr>)) 1)))"

definition codex_provider ::
  "(codex_config \<Rightarrow> 'w gateway) \<Rightarrow> 'w web \<Rightarrow> 'w callback_listener \<Rightarrow>
     (string \<Rightarrow> ('w, string option) provider_action) \<Rightarrow> codex_provider_config \<Rightarrow> 'w provider" where
  "codex_provider build_gateway web listener open_auth config =
     \<lparr>pr_id = codex_provider_id, pr_name = codex_provider_name, pr_models = codex_catalog,
      pr_default_model = codex_default_model,
      pr_auth_methods = [\<lparr>am_id = browser_auth_method, am_name = ''Sign in with ChatGPT'',
        am_description = ''Open a browser and authorize Fx for an OpenAI Codex subscription.''\<rparr>],
      pr_authenticate = codex_authenticate web listener config, pr_refresh_models = static_refresh,
      pr_logout = default_logout codex_provider_id, pr_gateway = codex_provider_gateway build_gateway web open_auth config\<rparr>"

end
