(* ===== verification/Provider_Catalogs.thy ===== *)
theory Provider_Catalogs
  imports Registry_Invariant Vercel_Provider Codex_Auth
begin

section \<open>The two providers in the registry\<close>

text \<open>
  The built-in providers register, whatever the configuration of theirs that was accepted, and a live catalogue of
  Vercel that is loaded is one the registry takes.
\<close>

subsection \<open>Catalogues that the registry accepts\<close>

lemma collect_models_ok:
  "\<forall>m\<in>set ms. is_model_id (mi_id m) \<and> mi_provider_id m = ident \<Longrightarrow> distinct (map fst acc @ map model_route ms) \<Longrightarrow>
     collect_models ident acc ms = Inr (acc @ map entry_of ms)"
proof (induction ms arbitrary: acc)
  case (Cons m ms)
  from Cons.prems have "model_route m \<notin> fst ` set acc" by auto
  moreover from Cons.prems have "collect_models ident (acc @ [entry_of m]) ms = Inr ((acc @ [entry_of m]) @ map entry_of ms)"
    by (intro Cons.IH) auto
  ultimately show ?case using Cons.prems(1) by (simp add: entry_of_def [abs_def] ensure_def validate_model_id_def)
qed simp

definition catalog_of :: "string \<Rightarrow> string \<Rightarrow> model_info list \<Rightarrow> bool" where
  "catalog_of ident d ms \<longleftrightarrow> (\<forall>m\<in>set ms. is_model_id (mi_id m) \<and> mi_provider_id m = ident)
     \<and> distinct (map mi_id ms) \<and> d \<in> mi_id ` set ms"

lemma checked_catalog_ok:
  assumes "catalog_of ident d ms"
  shows "checked_catalog what ident d ms = Inr (map entry_of ms)"
proof -
  have routes: "map model_route ms = map (\<lambda>i. ident @ ''/'' @ i) (map mi_id ms)"
    using assms by (auto simp: catalog_of_def model_route_def)
  have "distinct (map model_route ms)"
    using assms unfolding routes by (simp add: catalog_of_def distinct_map inj_on_def)
  with assms have "collect_models ident [] ms = Inr (map entry_of ms)"
    by (subst collect_models_ok) (auto simp: catalog_of_def)
  moreover have "ident @ ''/'' @ d \<in> fst ` set (map entry_of ms)"
  proof -
    from assms obtain m where "m \<in> set ms" "mi_id m = d" "mi_provider_id m = ident" by (auto simp: catalog_of_def)
    then show ?thesis by (auto simp: image_image model_route_def intro!: image_eqI)
  qed
  moreover have "ms \<noteq> []" using assms by (auto simp: catalog_of_def)
  ultimately show ?thesis by (simp add: checked_catalog_def ensure_def)
qed

lemma vercel_model_id: "is_vercel_model_id v \<Longrightarrow> is_model_id v"
proof -
  have "is_component c" if "is_provider_route c" "CHR ''/'' \<notin> set c" for c
    using that by (simp add: is_component_def is_provider_route_def)
  then show "is_vercel_model_id v \<Longrightarrow> is_model_id v"
    using split_on_notin [of _ "CHR ''/''" v] by (auto simp: is_vercel_model_id_def is_model_id_def list_all_iff)
qed

definition vercel_models :: "model_info list \<Rightarrow> bool" where
  "vercel_models ms \<longleftrightarrow> (\<forall>m\<in>set ms. is_vercel_model_id (mi_id m) \<and> mi_provider_id m = vercel_provider_id)"

lemma vercel_catalog_of:
  "vercel_models ms \<Longrightarrow> distinct (map mi_id ms) \<Longrightarrow> d \<in> mi_id ` set ms \<Longrightarrow> catalog_of vercel_provider_id d ms"
  using vercel_model_id by (auto simp: catalog_of_def vercel_models_def)

lemma extra_models_Inr:
  "extra_models seen is = Inr ms \<Longrightarrow> vercel_models ms \<and> distinct (map mi_id ms) \<and> mi_id ` set ms \<inter> seen = {}
     \<and> mi_id ` set ms \<union> seen = set is \<union> seen"
proof (induction seen "is" arbitrary: ms rule: extra_models.induct)
  case (2 seen i "is")
  show ?case
  proof (cases "i \<in> seen")
    case True
    with 2 show ?thesis by auto
  next
    case False
    with "2.prems" obtain ms' where m: "is_vercel_model_id i" "extra_models (insert i seen) is = Inr ms'"
      "ms = conservative_model i # ms'"
      by (auto simp: and_then_Inr_iff validate_vercel_model_id_def ensure_def split: if_splits)
    from "2.IH" (2) [OF False m(2)] m(1) have ih: "vercel_models ms' \<and> distinct (map mi_id ms')
        \<and> mi_id ` set ms' \<inter> insert i seen = {} \<and> mi_id ` set ms' \<union> insert i seen = set is \<union> insert i seen"
      by (simp add: validate_vercel_model_id_def ensure_def)
    with m False show ?thesis by (auto simp: vercel_models_def conservative_model_def)
  qed
qed (simp add: vercel_models_def)

lemma first_of_each:
  "set (first_of_each seen ms) \<subseteq> set ms \<and> distinct (map mi_id (first_of_each seen ms))
     \<and> mi_id ` set (first_of_each seen ms) \<inter> seen = {}"
  by (induction seen ms rule: first_of_each.induct) auto

lemma entry_model: "parse_catalog_entry v = Some m \<Longrightarrow> is_vercel_model_id (mi_id m) \<and> mi_provider_id m = vercel_provider_id"
  by (auto simp: parse_catalog_entry_def Option.bind_eq_Some_conv split: if_splits)

lemma parse_model_catalog_Inr:
  assumes "parse_model_catalog web bytes additional = Inr ms"
  shows "vercel_models ms \<and> distinct (map mi_id ms)"
proof -
  from assms obtain entries extra where m: "ms = first_of_each {} (List.map_filter parse_catalog_entry entries) @ extra"
    "extra_models (mi_id ` set (first_of_each {} (List.map_filter parse_catalog_entry entries))) additional = Inr extra"
    by (auto simp: parse_model_catalog_def Let_def and_then_Inr_iff)
  have "vercel_models (first_of_each {} (List.map_filter parse_catalog_entry entries))"
    using first_of_each [of "{}" "List.map_filter parse_catalog_entry entries"] entry_model
    by (fastforce simp: vercel_models_def List.map_filter_def split: option.splits)
  with extra_models_Inr [OF m(2)] first_of_each [of "{}" "List.map_filter parse_catalog_entry entries"] show ?thesis
    by (auto simp: m(1) vercel_models_def)
qed

lemma load_model_catalog_Inr:
  assumes "load_model_catalog web config st w = (Inr ms, w')"
  shows "catalog_of vercel_provider_id vercel_default_model ms"
proof -
  from assms obtain bytes where "parse_model_catalog web bytes (vp_additional_models config) = Inr ms"
    "list_ex (\<lambda>m. mi_id m = vercel_default_model) ms"
    by (auto simp: load_model_catalog_def seq_Inr action_simps Let_def ensure_def split: prod.splits if_splits)
  with parse_model_catalog_Inr show ?thesis by (intro vercel_catalog_of) (force simp: list_ex_iff)+
qed

lemma find_none: "(\<And>x. x \<in> set xs \<Longrightarrow> \<not> P x) \<Longrightarrow> find P xs = None"
  by (simp add: find_None_iff)

lemma register_accepts:
  assumes "is_component (pr_id p)" and "pr_id p \<notin> fst ` set (rg_providers r)" and "catalog_ok r"
    and "catalog_of (pr_id p) (pr_default_model p) (pr_models p)"
    and "collect_methods (pr_id p) (rg_auth_methods r) [] (pr_auth_methods p) = Inr methods"
  shows "\<exists>r'. register_provider p r = Inr r'
    \<and> rg_providers r' = map_insert (pr_id p) p (rg_providers r)
    \<and> rg_auth_methods r' = map_extend methods (rg_auth_methods r)
    \<and> rg_default_route r' = or_else (rg_default_route r) (Some (pr_id p @ ''/'' @ pr_default_model p))"
proof -
  have "\<not> fst e \<in> fst ` set (rg_models r)" if "e \<in> set (map entry_of (pr_models p))" for e
  proof
    assume "fst e \<in> fst ` set (rg_models r)"
    then obtain m where m: "(fst e, m) \<in> set (rg_models r)" by auto
    from that obtain m' where m': "m' \<in> set (pr_models p)" "e = entry_of m'" by auto
    with assms(4) have id: "mi_provider_id m' = pr_id p" by (simp add: catalog_of_def)
    from assms(3) m have "entry_ok r (fst e, m)" unfolding catalog_ok_def by blast
    then have "model_route m = fst e" "is_component (mi_provider_id m)" "mi_provider_id m \<in> fst ` set (rg_providers r)"
      by (simp_all add: entry_ok_def)
    with id show False using route_provider [of m m'] m'(2) assms(1,2) by simp
  qed
  then have "find (\<lambda>(route, _). route \<in> fst ` set (rg_models r)) (map entry_of (pr_models p)) = None"
    by (intro find_none) (auto simp: split_def)
  with checked_catalog_ok [OF assms(4)] assms(1,2,5) show ?thesis
    by (simp add: register_provider_def validate_component_def ensure_def)
qed

lemma built_in_components:
  "is_component codex_provider_id" "is_component browser_auth_method" "is_component vercel_provider_id"
  "is_component device_auth_method" "codex_provider_id \<noteq> vercel_provider_id"
  by code_simp+

lemma built_in_order: "codex_provider_id < vercel_provider_id" "''codex:chatgpt'' < ''vercel:oauth''"
  by (simp_all add: codex_provider_id_def vercel_provider_id_def less_char_def)

lemma codex_ids:
  "map mi_id codex_catalog = [''gpt-5.3-codex-spark'', ''gpt-5.4'', ''gpt-5.4-mini'', ''gpt-5.5'',
      ''gpt-5.6-luna'', ''gpt-5.6-sol'', ''gpt-5.6-terra'']"
  by (simp add: codex_catalog_def codex_model_def)

lemma codex_id_shapes:
  "list_all is_model_id [''gpt-5.3-codex-spark'', ''gpt-5.4'', ''gpt-5.4-mini'', ''gpt-5.5'',
      ''gpt-5.6-luna'', ''gpt-5.6-sol'', ''gpt-5.6-terra'']"
  by code_simp

lemma codex_catalog_of: "catalog_of codex_provider_id codex_default_model codex_catalog"
proof -
  have "is_model_id (mi_id m)" if "m \<in> set codex_catalog" for m
    using codex_id_shapes that unfolding codex_ids [symmetric] by (simp add: list_all_iff)
  moreover have "mi_provider_id m = codex_provider_id" if "m \<in> set codex_catalog" for m
    using that by (auto simp: codex_catalog_def codex_model_def)
  moreover have "distinct (map mi_id codex_catalog)" by (simp add: codex_ids)
  moreover have "codex_default_model \<in> set (map mi_id codex_catalog)" by (simp add: codex_ids codex_default_model_def)
  ultimately show ?thesis by (auto simp: catalog_of_def)
qed

lemma vercel_built_catalog:
  assumes "vercel_model_catalog additional = Inr models"
  shows "catalog_of vercel_provider_id vercel_default_model models"
proof -
  have "vercel_default_model \<in> set (built_in_models @ additional)" by (simp add: built_in_models_def)
  with extra_models_Inr [of "{}" "built_in_models @ additional" models] assms show ?thesis
    unfolding vercel_model_catalog_def by (intro vercel_catalog_of) auto
qed

lemma one_method:
  assumes "is_component m" and "auth_route i m \<notin> fst ` set registered"
  shows "\<exists>e. collect_methods i registered [] [\<lparr>am_id = m, am_name = n, am_description = d\<rparr>] = Inr [(auth_route i m, e)]"
  using assms by (simp add: validate_component_def ensure_def Let_def)

text \<open>
  The built-in providers register: with every configuration of Vercel that its constructor accepts, Codex and then
  Vercel are registered without an error, both are there, and the default model is the one of Codex.
\<close>

theorem built_in_providers_register:
  assumes "new_vercel_provider web config = Inr (config', models)"
  shows "\<exists>r r'. register_provider (codex_provider codex_build codex_web listener open_auth codex_config) new_registry = Inr r
    \<and> register_provider (vercel_provider vercel_build vercel_web cell config' models) r = Inr r'
    \<and> map fst (rg_providers r') = [codex_provider_id, vercel_provider_id]
    \<and> map fst (rg_auth_methods r') = [''codex:chatgpt'', ''vercel:oauth'']
    \<and> (\<exists>m. default_model_of r' = Inr m \<and> model_route m = ''codex/gpt-5.6-sol'')"
proof -
  let ?codex = "codex_provider codex_build codex_web listener open_auth codex_config"
  let ?vercel = "vercel_provider vercel_build vercel_web cell config' models"
  have fields: "pr_id ?codex = codex_provider_id" "pr_default_model ?codex = codex_default_model"
    "pr_models ?codex = codex_catalog" "pr_id ?vercel = vercel_provider_id" "pr_models ?vercel = models"
    "pr_default_model ?vercel = vercel_default_model"
    by (simp_all add: codex_provider_def vercel_provider_def)
  have routes: "auth_route codex_provider_id browser_auth_method = ''codex:chatgpt''"
    "auth_route vercel_provider_id device_auth_method = ''vercel:oauth''"
    by (simp_all add: auth_route_def codex_provider_id_def browser_auth_method_def vercel_provider_id_def
        device_auth_method_def)
  note reg0 = reachable_registry.intros(1)
  obtain e where "collect_methods codex_provider_id [] [] (pr_auth_methods ?codex) = Inr [(''codex:chatgpt'', e)]"
    using one_method [OF built_in_components(2), of codex_provider_id "[]"] by (auto simp: codex_provider_def routes)
  with register_accepts [of ?codex new_registry "[(''codex:chatgpt'', e)]"] built_in_components(1) codex_catalog_of
    reachable_catalog_ok [OF reg0] obtain r where r: "register_provider ?codex new_registry = Inr r"
      "rg_providers r = [(codex_provider_id, ?codex)]" "rg_auth_methods r = [(''codex:chatgpt'', e)]"
      "rg_default_route r = Some (codex_provider_id @ ''/'' @ codex_default_model)"
    by (auto simp: fields new_registry_def map_extend_def)
  have reg1: "reachable_registry r" by (rule reachable_registry.intros(2) [OF reg0 r(1)])
  have catalog: "catalog_of vercel_provider_id vercel_default_model models"
    using assms by (auto simp: new_vercel_provider_def and_then_Inr_iff intro: vercel_built_catalog)
  obtain e' where "collect_methods vercel_provider_id (rg_auth_methods r) [] (pr_auth_methods ?vercel) = Inr [(''vercel:oauth'', e')]"
    using one_method [OF built_in_components(4), of vercel_provider_id "rg_auth_methods r"]
    by (auto simp: vercel_provider_def routes r(3))
  with register_accepts [of ?vercel r "[(''vercel:oauth'', e')]"] built_in_components(3,5) catalog reachable_catalog_ok [OF reg1] obtain r' where
    r': "register_provider ?vercel r = Inr r'"
      "rg_providers r' = map_insert vercel_provider_id ?vercel (rg_providers r)"
      "rg_auth_methods r' = map_extend [(''vercel:oauth'', e')] (rg_auth_methods r)"
      "rg_default_route r' = rg_default_route r"
    by (auto simp: fields r(2,4))
  have reg2: "reachable_registry r'" by (rule reachable_registry.intros(2) [OF reg1 r'(1)])
  note ok = reachable_catalog_ok [OF reg2]
  have names: "map fst (rg_providers r') = [codex_provider_id, vercel_provider_id]"
    "map fst (rg_auth_methods r') = [''codex:chatgpt'', ''vercel:oauth'']"
    using built_in_order by (auto simp: r'(2,3) r(2,3) map_extend_def)
  let ?d = "codex_provider_id @ ''/'' @ codex_default_model"
  have "(codex_provider_id, ?codex) \<in> set (rg_providers r')" using built_in_order by (simp add: r'(2) r(2))
  with ok have "provider_ok r' (codex_provider_id, ?codex)" unfolding catalog_ok_def by blast
  then have "?d \<in> fst ` set (rg_models r')" unfolding provider_ok_def default_entry_def fst_conv snd_conv fields by blast
  then obtain m where m: "map_of (rg_models r') ?d = Some m" by (metis domD dom_map_of_conv_image_fst)
  with ok map_of_SomeD [OF m] have "entry_ok r' (?d, m)" unfolding catalog_ok_def by blast
  then have "model_route m = ?d" by (simp add: entry_ok_def)
  moreover have "default_model_of r' = Inr m" using m by (simp add: default_model_of_def model_of_def r'(4) r(4))
  moreover have "?d = ''codex/gpt-5.6-sol''" by (simp add: codex_provider_id_def codex_default_model_def)
  ultimately show ?thesis using r(1) r'(1) names by metis
qed

text \<open>
  C33. A live catalogue of Vercel that was loaded, whatever the answers it was made of, is one that the registry takes:
  refreshing never ends with a catalogue that is refused.
\<close>

theorem live_catalogues_are_accepted:
  assumes "reachable_registry r" and "map_of (rg_providers r) vercel_provider_id = Some p"
    and "pr_default_model p = vercel_default_model"
    and "load_model_catalog web config st w = (Inr ms, w')"
  shows "\<exists>changed r'. replace_provider_models vercel_provider_id ms r = Inr (changed, r')"
proof -
  note ok = reachable_catalog_ok [OF assms(1)]
  note cat = load_model_catalog_Inr [OF assms(4)]
  have component: "is_component vercel_provider_id" by code_simp
  have "mi_provider_id m = vercel_provider_id"
    if "e \<in> set (map_extend (map entry_of ms) [])" "map_of (rg_models r) (fst e) = Some m" for e m
  proof -
    from that(1) set_map_extend [of "map entry_of ms" "[]"] obtain m' where m': "m' \<in> set ms" "e = entry_of m'" by auto
    from ok map_of_SomeD [OF that(2)] have "entry_ok r (fst e, m)" unfolding catalog_ok_def by blast
    then have "model_route m = model_route m'" "is_component (mi_provider_id m)" by (simp_all add: entry_ok_def m'(2))
    with m'(1) cat component route_provider [of m m'] show ?thesis by (auto simp: catalog_of_def)
  qed
  then have "find (\<lambda>(route, _). \<exists>m. map_of (rg_models r) route = Some m \<and> mi_provider_id m \<noteq> vercel_provider_id)
      (map_extend (map entry_of ms) []) = None"
    by (intro find_none) (auto simp: split_def)
  with checked_catalog_ok [OF cat] assms(2,3) show ?thesis
    by (auto simp: replace_provider_models_def Let_def)
qed

subsection \<open>A small world\<close>

definition https_url :: "string \<Rightarrow> url_parts" where
  "https_url h =
     \<lparr>ur_scheme = ''https'', ur_host = Some h, ur_port = None, ur_known_port = Some 443, ur_username = [], ur_password = None,
      ur_path = ''/'', ur_query = None, ur_fragment = None, ur_pairs = []\<rparr>"

definition sample_catalog :: json where
  "sample_catalog = JObject [(''data'', JArray [JObject [(''id'', JString ''zai/glm-5.2'')]])]"

text \<open>Every URL has the host \<open>ai-gateway.vercel.sh\<close> or, from the first letters on, \<open>api.vercel.com\<close>; every GET
  gives a catalogue; a key is in the environment.\<close>

definition sample_web :: "unit web" where
  "sample_web =
     \<lparr>wb_json = (\<lambda>_. Inr sample_catalog),
      wb_url = (\<lambda>s. Inr (https_url (if prefix ''https://api'' s then ''api.vercel.com'' else ''ai-gateway.vercel.sh''))),
      wb_with_pairs = (\<lambda>s _. Inr s), wb_base64_url = id, wb_base64_url_decode = Some, wb_sha256 = id,
      wb_time = (\<lambda>w. (Some 0, w)), wb_elapsed = (\<lambda>w. (0, w)), wb_sleep = (\<lambda>_ w. w), wb_uuid = (\<lambda>w. (''u'', w)),
      wb_env = (\<lambda>name w. if name = ''AI_GATEWAY_API_KEY'' then Some ''k'' else None), wb_print = (\<lambda>_ w. w),
      wb_browser = (\<lambda>_ w. (Inr (), w)), wb_error_body = (\<lambda>_. None),
      wb_get = (\<lambda>_ _ _ w. (Inr (200, Inr []), w)), wb_post_form = (\<lambda>_ _ _ _ w. (Inr (200, Inr []), w))\<rparr>"

definition sample_config :: vercel_provider_config where
  "sample_config =
     \<lparr>vp_issuer = vercel_issuer, vp_client_id = ''c'', vp_gateway_endpoint = default_vercel_endpoint,
      vp_catalog_endpoint = default_catalog_endpoint, vp_teams_endpoint = default_teams_endpoint, vp_team = None,
      vp_open_browser = False, vp_auth_timeout_ms = 1000, vp_additional_models = [],
      vp_routing = \<lparr>rp_only = [], rp_order = []\<rparr>\<rparr>"

lemma extra_models_ok:
  "list_all is_vercel_model_id is \<Longrightarrow> distinct is \<Longrightarrow> set is \<inter> seen = {} \<Longrightarrow>
     extra_models seen is = Inr (map conservative_model is)"
  by (induction seen "is" rule: extra_models.induct) (auto simp: validate_vercel_model_id_def)

lemma built_in_ids: "list_all is_vercel_model_id built_in_models"
  by code_simp

lemma sample_built_ins: "vercel_model_catalog [] = Inr (map conservative_model built_in_models)"
proof -
  have "distinct built_in_models" by (simp add: built_in_models_def vercel_default_model_def)
  with built_in_ids show ?thesis by (simp add: vercel_model_catalog_def extra_models_ok)
qed

definition no_listener :: "unit callback_listener" where
  "no_listener =
     \<lparr>li_bind = (\<lambda>_ w. (Inr (), w)), li_nonblocking = (\<lambda>w. (Inr (), w)), li_accepted = (\<lambda>w. ([], w)), li_respond = (\<lambda>_ w. w)\<rparr>"

definition id_cell_of_nothing :: "unit id_cell" where
  "id_cell_of_nothing = \<lparr>ic_get = (\<lambda>_. {}), ic_set = (\<lambda>_ w. w)\<rparr>"

definition sample_codex_config :: codex_provider_config where
  "sample_codex_config = codex_from_process sample_web None ()"

definition sample_build :: "'c \<Rightarrow> unit gateway" where
  "sample_build c request w = (Inl PossiblySent, [], w)"

lemma sample_new:
  "new_vercel_provider sample_web sample_config = Inr (sample_config, map conservative_model built_in_models)"
proof -
  have "validate_issuer sample_web vercel_issuer = Inr ()" "validate_client_id ''c'' = Inr ()"
    by code_simp+
  then show ?thesis
    by (simp add: new_vercel_provider_def sample_config_def sample_built_ins validate_trusted_endpoint_def sample_web_def
        https_url_def default_vercel_endpoint_def default_catalog_endpoint_def default_teams_endpoint_def
        validate_routing_policy_def Let_def)
qed

theorem built_in_providers_register_witness:
  "\<exists>r r'. register_provider (codex_provider sample_build sample_web no_listener (\<lambda>_ w. (Inr None, w)) sample_codex_config)
      new_registry = Inr r
    \<and> register_provider (vercel_provider sample_build sample_web id_cell_of_nothing sample_config
        (map conservative_model built_in_models)) r = Inr r'
    \<and> (\<exists>m. default_model_of r' = Inr m \<and> model_route m = ''codex/gpt-5.6-sol'')"
  using built_in_providers_register [OF sample_new, of sample_build sample_web no_listener "\<lambda>_ w. (Inr None, w)"
      sample_codex_config sample_build sample_web id_cell_of_nothing] by blast

definition sample_vercel :: "unit provider" where
  "sample_vercel = vercel_provider sample_build sample_web id_cell_of_nothing sample_config
     (map conservative_model built_in_models)"

definition no_store :: "unit credential_store" where
  "no_store = \<lparr>st_lock = (\<lambda>_ w. (Inr None, w)), st_replace = (\<lambda>_ _ w. (Inr (), w)), st_delete = (\<lambda>_ w. (Inr (), w))\<rparr>"

lemma sample_vercel_registered:
  "\<exists>r. register_provider sample_vercel new_registry = Inr r \<and> map_of (rg_providers r) vercel_provider_id = Some sample_vercel"
proof -
  have route: "auth_route vercel_provider_id device_auth_method = ''vercel:oauth''"
    by (simp add: auth_route_def vercel_provider_id_def device_auth_method_def)
  have fields: "pr_id sample_vercel = vercel_provider_id" "pr_default_model sample_vercel = vercel_default_model"
    "pr_models sample_vercel = map conservative_model built_in_models"
    by (simp_all add: sample_vercel_def vercel_provider_def)
  obtain e where "collect_methods vercel_provider_id [] [] (pr_auth_methods sample_vercel) = Inr [(''vercel:oauth'', e)]"
    using one_method [OF built_in_components(4), of vercel_provider_id "[]"]
    by (auto simp: sample_vercel_def vercel_provider_def route)
  moreover have "catalog_ok (new_registry :: unit provider_registry)" by (intro reachable_catalog_ok reachable_registry.intros)
  ultimately show ?thesis
    using register_accepts [of sample_vercel new_registry "[(''vercel:oauth'', e)]"] built_in_components(3)
      vercel_built_catalog [OF sample_built_ins]
    by (auto simp: fields new_registry_def)
qed

lemma sample_loaded:
  "load_model_catalog sample_web sample_config no_store () = (Inr [(conservative_model vercel_default_model)\<lparr>mi_reasoning := False\<rparr>], ())"
proof -
  have "is_vercel_model_id ''zai/glm-5.2''"
    using built_in_ids by (simp add: built_in_models_def vercel_default_model_def)
  then have "parse_model_catalog sample_web [] [] = Inr [(conservative_model vercel_default_model)\<lparr>mi_reasoning := False\<rparr>]"
    by (simp add: parse_model_catalog_def sample_web_def parsed_def sample_catalog_def value_get_def as_object_def as_array_def
        Let_def List.map_filter_def parse_catalog_entry_def other_kind_def string_field_def conservative_model_def
        vercel_default_model_def catalog_u32_def has_reasoning_tag_def has_effort_option_def array_field_def)
  moreover have "trim ''k'' \<noteq> []" by code_simp
  ultimately show ?thesis
    by (simp add: load_model_catalog_def resolve_vercel_auth_def nonempty_env_def seq_def action_simps fetch_model_catalog_def
        calling_def sample_web_def sample_config_def Let_def conservative_model_def)
qed

theorem live_catalogues_are_accepted_witness:
  "\<exists>(r :: unit provider_registry) changed r'. replace_provider_models vercel_provider_id
      [(conservative_model vercel_default_model)\<lparr>mi_reasoning := False\<rparr>] r = Inr (changed, r')"
proof -
  obtain r where r: "register_provider sample_vercel new_registry = Inr r"
    "map_of (rg_providers r) vercel_provider_id = Some sample_vercel"
    using sample_vercel_registered by blast
  have "reachable_registry r" by (rule reachable_registry.intros(2) [OF reachable_registry.intros(1) r(1)])
  moreover have "pr_default_model sample_vercel = vercel_default_model" by (simp add: sample_vercel_def vercel_provider_def)
  ultimately show ?thesis using live_catalogues_are_accepted [OF _ r(2) _ sample_loaded] by blast
qed

end
