(* ===== verification/Provider_Login.thy ===== *)
theory Provider_Login
  imports Provider_Catalogs Credential_Files
begin

section \<open>Logins and tokens of the providers\<close>

text \<open>
  What a gateway's token is when \<open>resolve_auth\<close> gives one, when a browser callback is taken, where the tokens of Vercel
  go, how often the device login polls, and what a refresh does to the chosen team.
\<close>

subsection \<open>Codex: the token of a gateway\<close>

lemma sint_of_i64: "i64_min \<le> v \<Longrightarrow> v \<le> i64_max \<Longrightarrow> sint (word_of_int v :: i64) = v"
  by (simp add: sint_sbintrunc' signed_take_bit_int_eq_self)

lemma saturating_sub_less:
  assumes "now <s saturating_sub_i64 a b" and "0 \<le> sint b"
  shows "sint now < sint a - sint b"
proof -
  have r: "i64_min \<le> sint a" "sint a \<le> i64_max" "i64_min \<le> sint now" using sint_i64_range [of a] sint_i64_range [of now] by simp_all
  let ?c = "max i64_min (min i64_max (sint a - sint b))"
  have "sint (saturating_sub_i64 a b) = ?c"
    unfolding saturating_sub_i64_def by (rule sint_of_i64) simp_all
  with assms(1) have "sint now < ?c" by (simp add: word_sless_alt)
  with r(3) have "i64_min < ?c" by (rule order.strict_trans1)
  then have "?c \<le> sint a - sint b" by (auto simp: max_def split: if_splits)
  with \<open>sint now < ?c\<close> show ?thesis by (rule order.strict_trans2)
qed

definition holds_until :: "i64 \<Rightarrow> i64 \<Rightarrow> i64 \<Rightarrow> bool" where
  "holds_until now expires skew \<longleftrightarrow> sint now < sint expires - sint skew"

lemma not_soon_expired: "\<not> soon_expired codex_refresh_skew_ms expires now \<Longrightarrow> holds_until now expires codex_refresh_skew_ms"
  using saturating_sub_less [of now expires codex_refresh_skew_ms]
  by (simp add: soon_expired_def holds_until_def codex_refresh_skew_ms_def)

text \<open>A time that the clock showed.\<close>

definition clock_showed :: "'w web \<Rightarrow> i64 \<Rightarrow> bool" where
  "clock_showed web now \<longleftrightarrow> (\<exists>w w'. now_ms web w = (now, w'))"

lemma reading_now: "reading (now_ms web) w = (Inr now, w') \<Longrightarrow> clock_showed web now"
  by (auto simp: reading_def clock_showed_def split: prod.splits)

lemma ok_or_Inr_iff: "ok_or e x = Inr a \<longleftrightarrow> x = Some a"
  by (cases x) simp_all

lemma ensure_Inr_iff: "ensure b e = Inr u \<longleftrightarrow> b"
  by (simp add: ensure_def)

lemma ambient_auth_Inr:
  assumes "ambient_auth web access account v = (Inr (Some auth), v')" and "trim access \<noteq> []"
  shows "\<exists>expires now w2. jwt_expiry_ms web access = Some expires \<and> reading (now_ms web) v = (Inr now, w2)
    \<and> \<not> soon_expired codex_refresh_skew_ms expires now \<and> ca_access auth = access"
proof (cases "jwt_expiry_ms web access")
  case None
  with assms show ?thesis by (simp only: ambient_auth_def seq_def action_simps if_False ok_or_simps sum.case prod.case) simp
next
  case (Some expires)
  obtain now w2 where n: "reading (now_ms web) v = (Inr now, w2)"
    by (cases "now_ms web v") (simp add: reading_def)
  have "\<not> soon_expired codex_refresh_skew_ms expires now \<and> ca_access auth = access"
    using assms Some n
    apply (simp only: ambient_auth_def seq_def action_simps if_False if_True simp_thms)
    apply (simp only: ok_or_simps sum.case prod.case)
    apply (cases "soon_expired codex_refresh_skew_ms expires now")
     apply (simp only: ensure_simps if_False if_True simp_thms sum.case prod.case prod.inject sum.distinct)
    apply (cases "or_else (non_empty account) (account_id_from_jwt web access)")
     apply (auto simp only: ensure_simps ok_or_simps sum.case prod.case prod.inject sum.distinct sum.inject option.inject
        simp_thms codex_auth.simps)
    done
  with Some n show ?thesis by blast
qed

lemma ambient_fresh:
  assumes "load_ambient web open_auth config w = (Inr (Some auth), w')"
  shows "\<exists>expires now. jwt_expiry_ms web (ca_access auth) = Some expires \<and> clock_showed web now
    \<and> holds_until now expires codex_refresh_skew_ms"
proof -
  have step: "?thesis" if "ambient_auth web access account v = (Inr (Some auth), v')" for access account v v'
  proof (cases "trim access = []")
    case False
    from ambient_auth_Inr [OF that False] obtain expires now w2 where x: "jwt_expiry_ms web access = Some expires"
      "reading (now_ms web) v = (Inr now, w2)" "\<not> soon_expired codex_refresh_skew_ms expires now" "ca_access auth = access"
      by blast
    show ?thesis
      by (intro exI [of _ expires] exI [of _ now] conjI not_soon_expired x(3) reading_now [OF x(2)]) (simp add: x(1,4))
  next
    case True
    with that show ?thesis by (simp only: ambient_auth_def if_True) (simp add: action_simps)
  qed
  show ?thesis
  proof (cases "cp_home config")
    case (Some h)
    let ?path = "path_push (path_push h ''.codex'') ''auth.json''"
    from assms Some obtain found v where f: "open_auth ?path w = (Inr found, v)"
      and rest: "(case found of None \<Rightarrow> give None | Some bytes \<Rightarrow>
          seq (lift (ok_or (AuthenticationFailed (''ambient Codex credential `'' @ ?path @ ''` is invalid''))
            (Option.bind (parsed web bytes) ambient_of_json))) (\<lambda>tokens.
          case tokens of None \<Rightarrow> give None | Some (access, account) \<Rightarrow> ambient_auth web access account)) v = (Inr (Some auth), w')"
      unfolding load_ambient_def Some option.case Let_def seq_Inr by blast
    show ?thesis
    proof (cases found)
      case (Some bytes)
      have "\<exists>tokens. (case tokens of None \<Rightarrow> give None
          | Some (access, account) \<Rightarrow> ambient_auth web access account) v = (Inr (Some auth), w')"
        using rest unfolding Some option.case seq_Inr lift_def prod.inject by blast
      then obtain tokens where "(case tokens of None \<Rightarrow> give None
          | Some (access, account) \<Rightarrow> ambient_auth web access account) v = (Inr (Some auth), w')" ..
      then show ?thesis using step by (cases tokens) (auto simp: action_simps)
    qed (use rest in \<open>simp add: action_simps\<close>)
  qed (use assms in \<open>simp add: load_ambient_def action_simps\<close>)
qed

text \<open>
  C28. The token that a Codex gateway gets is good for five more minutes, or was stored before it is used: it is the saved
  one where that does not end soon; else it is a refreshed one, and the last thing that happened is that the store took
  it with its account; and only where nothing is saved it is the one of the \<open>codex\<close> command, where that does not end
  soon. A saved key is never taken.
\<close>

theorem codex_tokens_are_fresh_or_stored:
  assumes "resolve_codex_auth web open_auth config st w = (Inr auth, w')"
  shows "\<exists>saved w1. st_lock st codex_provider_id w = (Inr saved, w1) \<and>
    (case saved of
       None \<Rightarrow> load_ambient web open_auth config w1 = (Inr (Some auth), w')
         \<and> (\<exists>expires now. jwt_expiry_ms web (ca_access auth) = Some expires \<and> clock_showed web now
              \<and> holds_until now expires codex_refresh_skew_ms)
     | Some (ApiKey _ _) \<Rightarrow> False
     | Some (OAuth access refresh expires attributes) \<Rightarrow>
         (ca_access auth = access \<and> (\<exists>now. now_ms web w1 = (now, w') \<and> holds_until now expires codex_refresh_skew_ms))
         \<or> (\<exists>new_refresh until w2. st_replace st codex_provider_id
              (OAuth (ca_access auth) (Some new_refresh) until [(account_attribute, ca_account auth)]) w2 = (Inr (), w')))"
  using assms unfolding resolve_codex_auth_def
proof (cases rule: seq_cases)
  case (went_on saved w1)
  show ?thesis
  proof (intro exI conjI)
    show "st_lock st codex_provider_id w = (Inr saved, w1)" by (rule went_on(1))
    show "case saved of
       None \<Rightarrow> load_ambient web open_auth config w1 = (Inr (Some auth), w')
         \<and> (\<exists>expires now. jwt_expiry_ms web (ca_access auth) = Some expires \<and> clock_showed web now
              \<and> holds_until now expires codex_refresh_skew_ms)
     | Some (ApiKey _ _) \<Rightarrow> False
     | Some (OAuth access refresh expires attributes) \<Rightarrow>
         (ca_access auth = access \<and> (\<exists>now. now_ms web w1 = (now, w') \<and> holds_until now expires codex_refresh_skew_ms))
         \<or> (\<exists>new_refresh until w2. st_replace st codex_provider_id
              (OAuth (ca_access auth) (Some new_refresh) until [(account_attribute, ca_account auth)]) w2 = (Inr (), w'))"
    proof (cases saved)
      case None
      with went_on(2) have "load_ambient web open_auth config w1 = (Inr (Some auth), w')"
        by (auto simp: seq_Inr action_simps split: option.splits)
      with ambient_fresh None show ?thesis by auto
    next
      case (Some c)
      show ?thesis
      proof (cases c)
        case (OAuth access refresh expires attributes)
        with Some went_on(2) not_soon_expired show ?thesis
          by (fastforce simp: seq_Inr action_simps reading_def token_credential_def resolved_from_token_def and_then_Inr_iff
              split: if_splits prod.splits)
      qed (use Some went_on(2) in \<open>simp add: action_simps\<close>)
    qed
  qed
qed simp

text \<open>
  A refresh can use up the saved refresh token and keep nothing of what it got: where the new token names no account the
  gateway is refused and the new tokens are dropped, whatever the store would do, although the saved credential names the
  account; the store is not called again.
\<close>

theorem refreshed_tokens_without_an_account_are_lost:
  assumes "st_lock st codex_provider_id w = (Inr (Some (OAuth access (Some refresh) expires attributes)), w1)"
    and "saved_account web access attributes = Inr account" and "now_ms web w1 = (now, w2)"
    and "soon_expired codex_refresh_skew_ms expires now" and "refresh_codex_token web config refresh w2 = (Inr t, w3)"
    and "account_id_from_jwt web (ot_access t) = None"
  shows "resolve_codex_auth web open_auth config (st\<lparr>st_replace := f\<rparr>) w = (Inl no_account, w3)"
  using assms by (simp add: resolve_codex_auth_def seq_def action_simps reading_def resolved_from_token_def)

subsection \<open>Codex: the callback\<close>

text \<open>A connection that only asks for another path, and one that carries the code of the login.\<close>

definition request_url :: "'w web \<Rightarrow> string \<Rightarrow> url_parts option" where
  "request_url web line =
     (case split_whitespace line of
        _ # target # _ \<Rightarrow> (case wb_url web (''http://localhost'' @ target) of Inr url \<Rightarrow> Some url | Inl _ \<Rightarrow> None)
      | _ \<Rightarrow> None)"

definition is_passing :: "'w web \<Rightarrow> accepted \<Rightarrow> bool" where
  "is_passing web c \<longleftrightarrow> (\<exists>line url. c = Connection (Inr ()) (Inr line) \<and> length line \<le> max_http_header_bytes
     \<and> request_url web line = Some url \<and> ur_path url \<noteq> ''/auth/callback'')"

definition carries :: "'w web \<Rightarrow> string \<Rightarrow> string \<Rightarrow> accepted \<Rightarrow> bool" where
  "carries web expected code c \<longleftrightarrow> (\<exists>line url. c = Connection (Inr ()) (Inr line) \<and> length line \<le> max_http_header_bytes
     \<and> request_url web line = Some url \<and> ur_path url = ''/auth/callback''
     \<and> map_of (rev (ur_pairs url)) ''state'' = Some expected \<and> map_of (rev (ur_pairs url)) ''error'' = None
     \<and> map_of (rev (ur_pairs url)) ''code'' = Some code \<and> code \<noteq> [] \<and> length code \<le> 16 * 1024)"

lemma parse_callback_Inr:
  "parse_callback web t l expected = Inr r \<longleftrightarrow>
     t = Inr () \<and> (\<exists>line url. l = Inr line \<and> length line \<le> max_http_header_bytes \<and> request_url web line = Some url
       \<and> (if ur_path url \<noteq> ''/auth/callback'' then r = Ignore
          else map_of (rev (ur_pairs url)) ''state'' = Some expected \<and> map_of (rev (ur_pairs url)) ''error'' = None
            \<and> (\<exists>code. map_of (rev (ur_pairs url)) ''code'' = Some code \<and> code \<noteq> [] \<and> length code \<le> 16 * 1024
                \<and> r = Code code)))"
proof -
  have target: "ok_or e (case ws of _ # target # _ \<Rightarrow> Some target | _ \<Rightarrow> None) = Inr x \<longleftrightarrow> (\<exists>a b. ws = a # x # b)" for e ws x
    by (auto simp: ok_or_Inr_iff split: list.splits)
  have url: "request_url web line = Some url \<longleftrightarrow>
      (\<exists>a b x. split_whitespace line = a # x # b \<and> wb_url web (''http://localhost'' @ x) = Inr url)" for line url
    by (auto simp: request_url_def split: list.splits sum.splits)
  have err: "map_err f x = Inr y \<longleftrightarrow> x = Inr y" for f :: "'x \<Rightarrow> provider_error" and x and y :: 'y
    by (cases x) simp_all
  show ?thesis
    unfolding parse_callback_def and_then_Inr_iff err ensure_Inr_iff target url Let_def
    by (cases r) (fastforce split: option.splits if_splits)+
qed

text \<open>
  C29. The browser login takes a code only from a request for the callback path with the state it made up, with no error,
  and only if every connection before asked for another path: the first connection that is neither ends the login, also
  one that closes without a request.
\<close>

theorem codes_come_with_the_state:
  "(fst (wait_for_callback web expected cs) = Inr code) =
     (\<exists>before c later. cs = before @ c # later \<and> list_all (is_passing web) before \<and> carries web expected code c)"
proof (induction cs)
  case (Cons c cs)
  have step: "(\<exists>before c' later. c # cs = before @ c' # later \<and> list_all (is_passing web) before \<and> carries web expected code c')
      \<longleftrightarrow> carries web expected code c
        \<or> is_passing web c \<and> (\<exists>before c' later. cs = before @ c' # later \<and> list_all (is_passing web) before \<and> carries web expected code c')"
  proof (intro iffI; (elim exE conjE disjE)?)
    fix before c' later assume "c # cs = before @ c' # later" "list_all (is_passing web) before" "carries web expected code c'"
    then show "carries web expected code c
        \<or> is_passing web c \<and> (\<exists>before c' later. cs = before @ c' # later \<and> list_all (is_passing web) before \<and> carries web expected code c')"
      by (cases before) auto
  next
    assume "carries web expected code c"
    then have "c # cs = [] @ c # cs \<and> list_all (is_passing web) [] \<and> carries web expected code c" by simp
    then show "\<exists>before c' later. c # cs = before @ c' # later \<and> list_all (is_passing web) before \<and> carries web expected code c'"
      by blast
  next
    fix before c' later assume "is_passing web c" "cs = before @ c' # later" "list_all (is_passing web) before" "carries web expected code c'"
    then have "c # cs = (c # before) @ c' # later \<and> list_all (is_passing web) (c # before) \<and> carries web expected code c'" by simp
    then show "\<exists>before c' later. c # cs = before @ c' # later \<and> list_all (is_passing web) before \<and> carries web expected code c'"
      by blast
  qed
  show ?case
  proof (cases c)
    case (Connection t l)
    have passing: "is_passing web c \<longleftrightarrow> parse_callback web t l expected = Inr Ignore"
      by (auto simp: is_passing_def parse_callback_Inr Connection split: if_splits)
    have carrying: "carries web expected x c \<longleftrightarrow> parse_callback web t l expected = Inr (Code x)" for x
      by (auto simp: carries_def parse_callback_Inr Connection split: if_splits)
    show ?thesis unfolding step passing carrying Cons.IH [symmetric]
      by (auto simp: Connection split: sum.splits callback.splits prod.splits)
  next
    case (AcceptError e)
    then have "\<not> carries web expected code c" "\<not> is_passing web c" by (simp_all add: is_passing_def carries_def)
    then show ?thesis unfolding step by (simp add: AcceptError)
  qed
qed simp

subsection \<open>Vercel: where tokens go\<close>

definition https_at :: "string list \<Rightarrow> url_parts \<Rightarrow> bool" where
  "https_at hosts url \<longleftrightarrow> ur_scheme url = ''https'' \<and> (\<exists>h\<in>set hosts. ur_host url = Some h)"

definition on_this_machine :: "url_parts \<Rightarrow> bool" where
  "on_this_machine url \<longleftrightarrow> ur_scheme url = ''http''
     \<and> (\<exists>h\<in>{''localhost'', ''127.0.0.1'', ''[::1]'', ''::1''}. ur_host url = Some h)
     \<and> ur_username url = [] \<and> ur_password url = None"

definition trusted_host :: "'w web \<Rightarrow> string list \<Rightarrow> string \<Rightarrow> bool" where
  "trusted_host web hosts endpoint \<longleftrightarrow>
     (\<exists>url. wb_url web endpoint = Inr url \<and> (https_at hosts url \<or> on_this_machine url))"

definition endpoint_of :: "'w web \<Rightarrow> string \<Rightarrow> string \<Rightarrow> bool" where
  "endpoint_of web issuer endpoint \<longleftrightarrow> (\<exists>url. wb_url web endpoint = Inr url \<and>
     (if trim_end_slashes issuer = vercel_issuer then https_at [''vercel.com'', ''api.vercel.com''] url
      else on_this_machine url
        \<and> (\<exists>i. wb_url web issuer = Inr i \<and> ur_host url = ur_host i \<and> ur_known_port url = ur_known_port i)))"

lemma loopback_urls: "is_loopback_url url \<Longrightarrow> on_this_machine url"
  by (auto simp: is_loopback_url_def on_this_machine_def)

lemma map_err_Inr: "map_err f x = Inr y \<longleftrightarrow> x = Inr y"
  by (cases x) simp_all

lemma trusted_endpoint: "validate_trusted_endpoint web v kind = Inr u \<Longrightarrow>
    trusted_host web [case kind of GatewayEndpoint \<Rightarrow> ''ai-gateway.vercel.sh'' | VercelApi \<Rightarrow> ''api.vercel.com''] v"
  by (auto simp: validate_trusted_endpoint_def trusted_host_def https_at_def and_then_Inr_iff map_err_Inr ensure_Inr_iff Let_def
      dest: loopback_urls)

lemma oauth_endpoint: "validate_oauth_endpoint web issuer v = Inr u \<Longrightarrow> endpoint_of web issuer v"
  by (auto simp: validate_oauth_endpoint_def endpoint_of_def https_at_def and_then_Inr_iff map_err_Inr ensure_Inr_iff
      dest: loopback_urls split: if_splits)

text \<open>
  C30. The tokens of Vercel go to Vercel or to the machine itself: where the constructor accepts a configuration, the gateway,
  the catalogue and the teams are on their production hosts over HTTPS or on loopback without user information; and an
  endpoint that discovery accepts from an answer, for codes or for tokens, is Vercel's over HTTPS where the issuer is
  Vercel, and otherwise on the issuer's own host and port, on loopback.
\<close>

theorem vercel_endpoints_are_trusted:
  assumes "new_vercel_provider web config = Inr (config', models)"
  shows "config' = config \<and> trusted_host web [''ai-gateway.vercel.sh''] (vp_gateway_endpoint config)
    \<and> trusted_host web [''ai-gateway.vercel.sh''] (vp_catalog_endpoint config)
    \<and> trusted_host web [''api.vercel.com''] (vp_teams_endpoint config)
    \<and> (\<forall>issuer m. fst (discover web issuer w) = Inr m \<longrightarrow>
         endpoint_of web issuer (om_token_endpoint m) \<and> endpoint_of web issuer (om_device_endpoint m))"
proof -
  from assms have c: "config' = config" "validate_trusted_endpoint web (vp_gateway_endpoint config) GatewayEndpoint = Inr ()"
    "validate_trusted_endpoint web (vp_catalog_endpoint config) GatewayEndpoint = Inr ()"
    "validate_trusted_endpoint web (vp_teams_endpoint config) VercelApi = Inr ()"
    by (auto simp: new_vercel_provider_def and_then_Inr_iff)
  have "endpoint_of web issuer (om_token_endpoint m) \<and> endpoint_of web issuer (om_device_endpoint m)"
    if d: "fst (discover web issuer w) = Inr m" for issuer m
  proof -
    from d obtain w' where "discover web issuer w = (Inr m, w')" by (metis prod.collapse)
    then have "validate_oauth_endpoint web issuer (om_device_endpoint m) = Inr ()"
      "validate_oauth_endpoint web issuer (om_token_endpoint m) = Inr ()"
      by (auto simp: discover_def seq_Inr action_simps split: prod.splits)
    then show ?thesis using oauth_endpoint by blast
  qed
  with c(1) trusted_endpoint [OF c(2)] trusted_endpoint [OF c(3)] trusted_endpoint [OF c(4)] show ?thesis by simp
qed

subsection \<open>Vercel: polling\<close>

lemma bounded_world: "snd (bounded_answer label request x) = snd (request x)"
proof (cases "request x")
  case (Pair a x')
  then show ?thesis
    by (cases a) (auto simp: bounded_answer_def calling_def seq_def action_simps split: sum.splits prod.splits)
qed

lemma time_world: "snd (now_ms web x) = snd (wb_time web x)"
  by (auto simp: now_ms_def split: prod.splits option.splits)

lemma expiry_world: "snd (expiry_at web e s x) \<in> {x, snd (wb_time web x)}"
proof (cases "Option.bind s (\<lambda>s. checked_mul_i64 s 1000)")
  case None
  then show ?thesis by (simp add: expiry_at_def action_simps)
next
  case (Some n)
  obtain now x' where "now_ms web x = (now, x')" by fastforce
  with Some time_world [of web x] show ?thesis
    by (simp add: expiry_at_def seq_def reading_def action_simps split: sum.splits)
qed

lemma seq_lift: "seq (lift r) f x = (case r of Inl e \<Rightarrow> (Inl e, x) | Inr a \<Rightarrow> f a x)"
  by (simp add: seq_def action_simps split: sum.splits)

lemma lift_world: "x \<in> S \<Longrightarrow> (\<And>a. snd (f a x) \<in> S) \<Longrightarrow> snd (seq (lift r) f x) \<in> S"
  by (simp add: seq_lift split: sum.split)

lemma give_world: "snd (seq p (\<lambda>a. give (g a)) x) = snd (p x)"
  by (auto simp: seq_def action_simps split: prod.splits sum.splits)

lemma one_request_less:
  assumes "now < deadline" and "0 < i" and "deadline \<le> later \<or> now + i \<le> later"
  shows "1 + div_ceil (deadline - later) i \<le> div_ceil (deadline - now) i"
proof (cases "deadline \<le> later")
  case True
  then show ?thesis using assms(1,2) div_ceil_pos [of "deadline - now" i] by (simp add: div_ceil_def)
next
  case False
  with assms(3) have "deadline - later \<le> deadline - now - i" "now + i < deadline" by auto
  then have "(deadline - later + i - 1) div i \<le> (deadline - now - i + i - 1) div i" by (intro div_le_mono) simp
  moreover have "deadline - now - i + i - 1 + i = deadline - now + i - 1" using \<open>now + i < deadline\<close> by simp
  ultimately show ?thesis using assms(2) unfolding div_ceil_def
    by (metis add.commute add_le_cancel_left div_add_self2 less_numeral_extra(3))
qed

lemma token_world: "snd (parse_token web b p s x) \<in> {x, snd (wb_time web x)}"
  unfolding parse_token_def by (intro lift_world) (simp_all only: give_world expiry_world insertI1)

lemma poll_loop_bounded:
  assumes "\<And>x. count_of (snd (wb_elapsed web x)) = count_of x" and "\<And>n x. count_of (wb_sleep web n x) = count_of x"
    and "\<And>b r s x. count_of (snd (parse_token web b r s x)) = count_of x"
    and "\<And>x. count_of (snd (poll_request web config m d x)) \<le> count_of x + (1 :: nat)"
  shows "count_of (snd (poll_loop web config m d deadline slow now w)) \<le> count_of w
    + div_ceil (deadline - now) (1000 * nat (max 1 (sint (dv_interval d))))"
proof (induction "deadline - now" arbitrary: slow now w rule: less_induct)
  case less
  note step = poll_loop.simps [of web config m d deadline slow now w]
  let ?i = "1000 * nat (max 1 (sint (dv_interval d)))"
  show ?case
  proof (cases "deadline \<le> now")
    case True
    then show ?thesis by (simp add: step)
  next
    case False
    obtain passed w1 where p: "wb_elapsed web w = (passed, w1)" by fastforce
    let ?pause = "min (poll_interval_ms d slow) (deadline - (now + passed))"
    obtain answer w2 where r: "poll_request web config m d (wb_sleep web ?pause w1) = (answer, w2)" by fastforce
    obtain took w3 where t: "wb_elapsed web w2 = (took, w3)" by fastforce
    have c: "count_of w2 \<le> count_of w + 1" "count_of w3 = count_of w2"
      using assms(4) [of "wb_sleep web ?pause w1"] assms(2) [of ?pause w1] assms(1) [of w] assms(1) [of w2]
      by (simp_all add: p r t)
    let ?later = "now + passed + ?pause + took"
    have "?i \<le> poll_interval_ms d slow" by (simp add: poll_interval_ms_def)
    then have later: "deadline \<le> ?later \<or> now + ?i \<le> ?later" by linarith
    with False have fewer: "1 + div_ceil (deadline - ?later) ?i \<le> div_ceil (deadline - now) ?i"
      by (intro one_request_less) simp_all
    have "0 < ?i" by simp
    with later False have "deadline - ?later < deadline - now" by linarith
    note ih = less.hyps [OF this]
    show ?thesis
    proof (cases answer)
      case (Inl e)
      with False c fewer show ?thesis by (simp add: step p r Let_def)
    next
      case (Inr a)
      obtain status bytes where a: "a = (status, bytes)" by fastforce
      show ?thesis
      proof (cases "poll_answer_of web status bytes")
        case Pending
        have "count_of (snd (poll_loop web config m d deadline slow ?later w3)) \<le> count_of w3 + div_ceil (deadline - ?later) ?i"
          by (rule ih)
        with False c fewer show ?thesis by (simp add: step p r t Inr a Pending Let_def)
      next
        case SlowDown
        have "count_of (snd (poll_loop web config m d deadline (slow + 1) ?later w3)) \<le> count_of w3 + div_ceil (deadline - ?later) ?i"
          by (rule ih)
        with False c fewer show ?thesis by (simp add: step p r t Inr a SlowDown Let_def)
      next
        case (Finished_With token)
        with False c fewer assms(3) [of token None None w2] show ?thesis by (simp add: step p r Inr a Let_def)
      next
        case (Refused e)
        with False c fewer show ?thesis by (simp add: step p r Inr a Let_def)
      qed
    qed
  qed
qed

text \<open>
  C31. The device login ends, and does not hurry: with an interval of \<open>i\<close> seconds in the answer it asks for the token at most
  once for each \<open>max 1 i\<close> seconds of the time it has, begun seconds included, however the clock, the answers and the
  network behave. Requests are counted by any measure of the world that a request raises by at most one and nothing else
  changes.
\<close>

theorem device_polls_are_bounded:
  assumes "\<And>x. count_of (snd (wb_elapsed web x)) = count_of x" and "\<And>n x. count_of (wb_sleep web n x) = count_of x"
    and "\<And>x. count_of (snd (wb_time web x)) = count_of x"
    and "\<And>s e f l x. count_of (snd (wb_post_form web s e f l x)) \<le> count_of x + (1 :: nat)"
  shows "count_of (snd (poll_device_token web config m d w)) \<le> count_of w
    + div_ceil (min (vp_auth_timeout_ms config) (1000 * nat (sint (dv_expires_in d)))) (1000 * nat (max 1 (sint (dv_interval d))))"
proof -
  have post: "count_of (snd (poll_request web config m d x)) \<le> count_of x + 1" for x
    using assms(4) by (simp add: poll_request_def post_form_bounded_def bounded_world)
  have parse: "count_of (snd (parse_token web b r s x)) = count_of x" for b r s x
    using assms(3) token_world [of web b r s x] by auto
  have "poll_device_token web config m d w = poll_loop web config m d
      (min (vp_auth_timeout_ms config) (1000 * nat (sint (dv_expires_in d)))) 0 0 (snd (wb_elapsed web w))"
    by (simp add: poll_device_token_def seq_def reading_def split: prod.splits)
  with poll_loop_bounded [where web = web and count_of = count_of and slow = 0 and now = 0 and w = "snd (wb_elapsed web w)", OF assms(1,2) parse post] assms(1) [of w]
  show ?thesis by simp
qed

subsection \<open>Vercel: the team\<close>

lemma stored_team:
  "map_of (attributes_in (vercel_credential t issuer client_id team)) ''team_id'' = ts_id team"
  "map_of (attributes_in (vercel_credential t issuer client_id team)) ''team_slug'' = ts_slug team"
  by (simp_all add: vercel_credential_def map_of_map_extend split: option.splits)

text \<open>
  C32. A refresh under another team mixes two teams: when a token saved for a team, with its id \<open>i\<close> and slug \<open>s\<close>, is refreshed
  while \<open>FX_VERCEL_TEAM\<close> names another team \<open>c\<close>, the stored credential keeps the slug and gets \<open>c\<close> as its id. From then on
  requests go to \<open>c\<close> also where no team is configured, and where the team \<open>s\<close> is configured by its slug, which went to \<open>i\<close>
  before.
\<close>

theorem refreshing_mixes_teams:
  assumes "map_of attributes ''team_id'' = Some i" and "map_of attributes ''team_slug'' = Some s" and "c \<noteq> i" and "c \<noteq> s"
    and "vp_team config = Some c" and "refresh_saved web config st refresh attributes w = (Inr auth, w')"
  shows "configured_or_stored_team None attributes = Some i \<and> configured_or_stored_team (Some s) attributes = Some i
    \<and> (\<exists>saved w2. st_replace st vercel_provider_id saved w2 = (Inr (), w')
        \<and> configured_or_stored_team None (attributes_in saved) = Some c
        \<and> configured_or_stored_team (Some s) (attributes_in saved) = Some c)"
proof -
  from assms(1-5) have team: "configured_or_stored_team (vp_team config) attributes = Some c"
    by (simp add: configured_or_stored_team_def)
  from assms(6) team obtain t issuer client_id w2 where
    "st_replace st vercel_provider_id (vercel_credential t issuer client_id
       \<lparr>ts_id = Some c, ts_slug = map_of attributes ''team_slug''\<rparr>) w2 = (Inr (), w')"
    by (auto simp: refresh_saved_def Let_def seq_Inr action_simps)
  then have "\<exists>saved w2. st_replace st vercel_provider_id saved w2 = (Inr (), w')
        \<and> configured_or_stored_team None (attributes_in saved) = Some c
        \<and> configured_or_stored_team (Some s) (attributes_in saved) = Some c"
    by (intro exI conjI, assumption) (simp_all add: configured_or_stored_team_def stored_team assms(2))
  with assms(1,2) show ?thesis by (simp add: configured_or_stored_team_def)
qed

subsection \<open>Vercel: the environment\<close>

text \<open>
  A model id of \<open>FX_VERCEL_MODELS\<close> that is not valid ends the whole program: \<open>from_process\<close> has no value, which is the
  panic of its \<open>expect\<close>, whatever the rest of the environment holds and whichever provider is wanted.
\<close>

theorem a_bad_model_id_panics:
  assumes "wb_env web ''FX_VERCEL_MODELS'' w = Some v" and "i \<in> set (comma_list (Some v))" and "\<not> is_vercel_model_id i"
  shows "vercel_from_process web w = None"
proof -
  have "vercel_model_catalog (comma_list (Some v)) \<noteq> Inr models" for models
  proof
    assume "vercel_model_catalog (comma_list (Some v)) = Inr models"
    note built = extra_models_Inr [OF this [unfolded vercel_model_catalog_def]]
    have "i \<in> set (built_in_models @ comma_list (Some v)) \<union> {}" using assms(2) by simp
    with built have "i \<in> mi_id ` set models" by blast
    with built assms(3) show False unfolding vercel_models_def by blast
  qed
  moreover have "vp_additional_models (vercel_config_from_process web w) = comma_list (Some v)"
    by (simp add: vercel_config_from_process_def Let_def parse_additional_models_def assms(1))
  ultimately have "new_vercel_provider web (vercel_config_from_process web w) \<noteq> Inr p" for p
    by (cases p) (auto simp: new_vercel_provider_def and_then_Inr_iff)
  then show ?thesis by (auto simp: vercel_from_process_def split: sum.split)
qed

subsection \<open>Samples\<close>

definition keeping_store :: "credential \<Rightarrow> unit credential_store" where
  "keeping_store c = no_store\<lparr>st_lock := (\<lambda>_ w. (Inr (Some c), w))\<rparr>"

definition sample_session :: "i64 \<Rightarrow> credential" where
  "sample_session expires = OAuth ''a'' (Some ''r'') expires [(account_attribute, ''x'')]"

lemma sample_now: "now_ms sample_web w = (0, w)"
  by (simp add: now_ms_def sample_web_def)

lemma sample_soon: "\<not> soon_expired codex_refresh_skew_ms 1000000 0" "soon_expired codex_refresh_skew_ms 0 0"
  by code_simp+

theorem codex_tokens_are_fresh_or_stored_witness:
  "\<exists>saved w1. st_lock (keeping_store (sample_session 1000000)) codex_provider_id () = (Inr saved, w1)
     \<and> saved = Some (sample_session 1000000) \<and> holds_until 0 1000000 codex_refresh_skew_ms"
proof -
  have "resolve_codex_auth sample_web (\<lambda>_ w. (Inr None, w)) sample_codex_config (keeping_store (sample_session 1000000)) ()
      = (Inr \<lparr>ca_access = ''a'', ca_account = ''x''\<rparr>, ())"
    using sample_soon(1)
    by (simp add: resolve_codex_auth_def keeping_store_def no_store_def sample_session_def seq_def action_simps saved_account_def
        reading_def sample_now)
  from codex_tokens_are_fresh_or_stored [OF this] show ?thesis
    using not_soon_expired [OF sample_soon(1)] by (auto simp: keeping_store_def no_store_def)
qed

definition token_web :: "unit web" where
  "token_web = sample_web\<lparr>wb_json := (\<lambda>s. Inr (if s = ''m''
      then JObject [(''issuer'', JString vercel_issuer), (''device_authorization_endpoint'', JString ''d''),
        (''token_endpoint'', JString ''t'')]
      else JObject [(''access_token'', JString ''n''), (''expires_in'', JNumber 60), (''token_type'', JString ''Bearer'')])),
    wb_url := (\<lambda>s. Inr (https_url ''vercel.com'')), wb_get := (\<lambda>_ _ _ w. (Inr (200, Inr ''m''), w)),
    wb_base64_url_decode := (\<lambda>_. None)\<rparr>"

lemma token_now: "now_ms token_web w = (0, w)"
  by (simp add: now_ms_def token_web_def sample_web_def)

lemma sixty_seconds: "checked_mul_i64 60 1000 = Some 60000" "checked_add_i64 0 60000 = Some 60000"
  by code_simp+

lemma token_expiry: "expiry_at token_web e (Some 60) w = (Inr 60000, w)"
  by (simp add: expiry_at_def sixty_seconds seq_def reading_def token_now action_simps)

lemma token_request_run:
  assumes "\<And>e f l. wb_post_form web True e f l w = (Inr (status, Inr bytes), w1)"
    and "Option.bind (parsed web bytes) token_response_of = Some (access, None, seconds)" and "access \<noteq> []" and "seconds \<noteq> 0"
    and "\<And>e. expiry_at web e (if int seconds \<le> i64_max then Some (word_of_nat seconds) else None) w1 = (Inr expires, w1)"
  shows "token_request web config f (Some r) w = (Inr \<lparr>ot_access = access, ot_refresh = r, ot_expires = expires\<rparr>, w1)"
proof -
  have "(access \<noteq> [] \<and> seconds \<noteq> 0) = True" using assms(3,4) by simp
  moreover have "or_else (non_empty None) (Some r) = Some r" by (simp add: non_empty_def)
  ultimately show ?thesis
    by (simp only: token_request_def seq_def calling_def lift_def assms(1) prod.case map_err_simps sum.case assms(2) ok_or_simps
        ensure_simps assms(5) give_def)
qed

lemma token_answer:
  "token_response_of (JObject [(''access_token'', JString ''n''), (''expires_in'', JNumber 60), (''token_type'', JString ''Bearer'')])
      = Some (''n'', None, 60)"
  by (simp add: token_response_of_def struct_fields_def string_field_def opt_string_field_def nat_field_def u64_max_def)

lemma token_posted: "wb_post_form token_web b e f l w = (Inr (200, Inr []), w)"
  by (simp add: token_web_def sample_web_def)

lemma token_parsed: "Option.bind (parsed token_web []) token_response_of = Some (''n'', None, 60)"
  unfolding token_answer [symmetric] by (simp add: parsed_def token_web_def)

lemma token_refreshed:
  "refresh_codex_token token_web sample_codex_config ''r'' () = (Inr \<lparr>ot_access = ''n'', ot_refresh = ''r'', ot_expires = 60000\<rparr>, ())"
proof -
  have e: "expiry_at token_web e (if int 60 \<le> i64_max then Some (word_of_nat 60) else None) () = (Inr 60000, ())" for e
    using token_expiry by simp
  show ?thesis
    unfolding refresh_codex_token_def by (rule token_request_run [OF token_posted token_parsed _ _ e]) simp_all
qed

theorem refreshed_tokens_without_an_account_are_lost_witness:
  "resolve_codex_auth token_web (\<lambda>_ w. (Inr None, w)) sample_codex_config
     ((keeping_store (sample_session 0))\<lparr>st_replace := (\<lambda>_ _ w. (Inr (), w))\<rparr>) () = (Inl no_account, ())"
proof (rule refreshed_tokens_without_an_account_are_lost [OF _ _ token_now sample_soon(2) token_refreshed])
  show "st_lock (keeping_store (sample_session 0)) codex_provider_id () =
      (Inr (Some (OAuth ''a'' (Some ''r'') 0 [(account_attribute, ''x'')])), ())"
    by (simp add: keeping_store_def no_store_def sample_session_def)
  show "saved_account token_web ''a'' [(account_attribute, ''x'')] = Inr ''x''" by (simp add: saved_account_def)
  show "account_id_from_jwt token_web (ot_access \<lparr>ot_access = ''n'', ot_refresh = ''r'', ot_expires = 60000\<rparr>) = None"
    by (simp add: account_id_from_jwt_def decode_jwt_def)
qed

theorem vercel_endpoints_are_trusted_witness:
  "trusted_host sample_web [''ai-gateway.vercel.sh''] (vp_gateway_endpoint sample_config)
   \<and> trusted_host sample_web [''api.vercel.com''] (vp_teams_endpoint sample_config)"
  using vercel_endpoints_are_trusted [OF sample_new, of "()"] by blast

definition counting_web :: "nat web" where
  "counting_web =
     \<lparr>wb_json = (\<lambda>_. Inr JNull), wb_url = (\<lambda>s. Inr (https_url s)), wb_with_pairs = (\<lambda>s _. Inr s), wb_base64_url = id,
      wb_base64_url_decode = Some, wb_sha256 = id, wb_time = (\<lambda>w. (Some 0, w)), wb_elapsed = (\<lambda>w. (0, w)),
      wb_sleep = (\<lambda>_ w. w), wb_uuid = (\<lambda>w. (''u'', w)), wb_env = (\<lambda>_ _. None), wb_print = (\<lambda>_ w. w),
      wb_browser = (\<lambda>_ w. (Inr (), w)), wb_error_body = (\<lambda>_. Some (''authorization_pending'', None)),
      wb_get = (\<lambda>_ _ _ w. (Inr (200, Inr []), w)), wb_post_form = (\<lambda>_ _ _ _ w. (Inr (400, Inr []), w + 1))\<rparr>"

definition sample_metadata :: oauth_metadata where
  "sample_metadata = \<lparr>om_issuer = vercel_issuer, om_device_endpoint = ''d'', om_token_endpoint = ''t''\<rparr>"

definition sample_device :: device_authorization where
  "sample_device =
     \<lparr>dv_code = ''d'', dv_user_code = ''u'', dv_uri = ''v'', dv_uri_complete = None, dv_expires_in = 60,
      dv_interval = 5\<rparr>"

theorem device_polls_are_bounded_witness:
  "snd (poll_device_token counting_web sample_config sample_metadata sample_device 7) \<le> 7 + div_ceil (min 1000 60000) 5000"
proof -
  have "id (snd (poll_device_token counting_web sample_config sample_metadata sample_device 7))
      \<le> id 7 + div_ceil (min (vp_auth_timeout_ms sample_config) (1000 * nat (sint (dv_expires_in sample_device))))
        (1000 * nat (max 1 (sint (dv_interval sample_device))))"
    by (rule device_polls_are_bounded) (simp_all add: counting_web_def)
  then show ?thesis by (simp add: sample_config_def sample_device_def)
qed

definition crowded_web :: "unit web" where
  "crowded_web = sample_web\<lparr>wb_env := (\<lambda>_ _. Some ''a b'')\<rparr>"

theorem a_bad_model_id_panics_witness: "vercel_from_process crowded_web () = None"
proof (rule a_bad_model_id_panics)
  show "wb_env crowded_web ''FX_VERCEL_MODELS'' () = Some ''a b''" by (simp add: crowded_web_def)
  show "''a b'' \<in> set (comma_list (Some ''a b''))" by code_simp
  show "\<not> is_vercel_model_id ''a b''" by code_simp
qed

lemma token_got: "wb_get token_web e h n w = (Inr (200, Inr ''m''), w)"
  by (simp add: token_web_def)

lemma bounded_answer_run: "request w = (Inr (status, Inr bytes), w') \<Longrightarrow> bounded_answer label request w = (Inr (status, bytes), w')"
  by (simp only: bounded_answer_def seq_def calling_def lift_def give_def prod.case sum.case map_err_simps)

lemma discover_run:
  assumes "get_bounded web (trim_end_slashes issuer @ ''/.well-known/openid-configuration'') ''Vercel OAuth discovery'' w
      = (Inr (200, bytes), w')"
    and "Option.bind (parsed web bytes) metadata_of = Some m" and "(trim_end_slashes (om_issuer m) = trim_end_slashes issuer) = True"
    and "validate_oauth_endpoint web issuer (om_device_endpoint m) = Inr ()"
    and "validate_oauth_endpoint web issuer (om_token_endpoint m) = Inr ()"
  shows "discover web issuer w = (Inr m, w')"
  by (simp only: discover_def seq_def lift_def give_def prod.case sum.case assms ensure_simps ok_or_simps simp_thms)

lemma parse_token_run:
  assumes "Option.bind (parsed web bytes) vercel_token_response_of = Some r"
    and "(tr_access r \<noteq> [] \<and> 0 <s tr_expires_in r \<and> eq_ignore_ascii_case (tr_type r) ''bearer'') = True"
    and "or_else (non_empty (tr_refresh r)) previous_refresh = Some refresh"
    and "\<And>e. expiry_at web e (Some (tr_expires_in r)) w = (Inr expires, w)"
  shows "\<exists>token. parse_token web bytes previous_refresh previous_scope w = (Inr token, w)"
  by (simp only: parse_token_def seq_def lift_def give_def prod.case sum.case assms ensure_simps ok_or_simps prod.inject sum.inject
      simp_thms)

lemma token_metadata:
  "Option.bind (parsed token_web ''m'') metadata_of
     = Some \<lparr>om_issuer = vercel_issuer, om_device_endpoint = ''d'', om_token_endpoint = ''t''\<rparr>"
  by (simp add: parsed_def token_web_def metadata_of_def struct_fields_def string_field_def)

lemma token_endpoints: "validate_oauth_endpoint token_web vercel_issuer e = Inr ()"
proof -
  have "wb_url token_web e = Inr (https_url ''vercel.com'')" for e by (simp add: token_web_def)
  moreover have "trim_end_slashes vercel_issuer = vercel_issuer" by code_simp
  ultimately show ?thesis
    by (simp add: validate_oauth_endpoint_def https_url_def)
qed

lemma token_discovered:
  "discover token_web vercel_issuer () = (Inr \<lparr>om_issuer = vercel_issuer, om_device_endpoint = ''d'', om_token_endpoint = ''t''\<rparr>, ())"
  by (rule discover_run [OF _ token_metadata]) (simp_all add: token_endpoints get_bounded_def bounded_answer_run token_got)

lemma token_vercel_parsed:
  "Option.bind (parsed token_web []) vercel_token_response_of
     = Some \<lparr>tr_access = ''n'', tr_refresh = None, tr_expires_in = 60, tr_scope = [], tr_type = ''Bearer''\<rparr>"
  by (simp add: parsed_def token_web_def vercel_token_response_of_def struct_fields_def string_field_def opt_string_field_def
      i64_field_def default_field_def)

lemma token_renewed: "\<exists>token. refresh_vercel_token token_web m c ''r'' scope () = (Inr token, ())"
proof -
  have "post_form_bounded token_web e f l () = (Inr (200, []), ())" for e f l
    unfolding post_form_bounded_def by (rule bounded_answer_run) (rule token_posted)
  moreover have "\<exists>token. parse_token token_web [] (Some ''r'') (Some scope) () = (Inr token, ())"
  proof (rule parse_token_run [OF token_vercel_parsed])
    have "0 <s (60 :: i64)" "eq_ignore_ascii_case ''Bearer'' ''bearer''" by code_simp+
    then show "(tr_access \<lparr>tr_access = ''n'', tr_refresh = None, tr_expires_in = 60, tr_scope = [], tr_type = ''Bearer''\<rparr> \<noteq> []
      \<and> 0 <s tr_expires_in \<lparr>tr_access = ''n'', tr_refresh = None, tr_expires_in = 60, tr_scope = [], tr_type = ''Bearer''\<rparr>
      \<and> eq_ignore_ascii_case
          (tr_type \<lparr>tr_access = ''n'', tr_refresh = None, tr_expires_in = 60, tr_scope = [], tr_type = ''Bearer''\<rparr>) ''bearer'') = True"
      by simp
  qed (simp_all add: token_expiry)
  ultimately show ?thesis
    by (simp only: refresh_vercel_token_def seq_def prod.case sum.case refl not_True_eq_False if_False simp_thms)
qed

definition team_attributes :: "(string \<times> string) list" where
  "team_attributes = [(''team_id'', ''i''), (''team_slug'', ''s'')]"

definition accepting_store :: "unit credential_store" where
  "accepting_store = no_store\<lparr>st_replace := (\<lambda>_ _ w. (Inr (), w))\<rparr>"

lemma accepted: "st_replace accepting_store provider saved w = (Inr (), w)"
  by (simp add: accepting_store_def)

lemma other_team_refreshed:
  "\<exists>auth. refresh_saved token_web (sample_config\<lparr>vp_team := Some ''c''\<rparr>) accepting_store (Some ''r'') team_attributes () = (Inr auth, ())"
proof -
  have "unwrap_or (vp_issuer (sample_config\<lparr>vp_team := Some ''c''\<rparr>)) (map_of team_attributes ''issuer'') = vercel_issuer"
    "unwrap_or (vp_client_id (sample_config\<lparr>vp_team := Some ''c''\<rparr>)) (map_of team_attributes ''client_id'') = ''c''"
    by (simp_all add: sample_config_def team_attributes_def)
  moreover have "validate_issuer token_web vercel_issuer = Inr ()" "validate_client_id ''c'' = Inr ()"
    by code_simp+
  moreover obtain token where
    "refresh_vercel_token token_web \<lparr>om_issuer = vercel_issuer, om_device_endpoint = ''d'', om_token_endpoint = ''t''\<rparr> ''c'' ''r''
       (unwrap_or oauth_scope (map_of team_attributes ''scope'')) () = (Inr token, ())"
    using token_renewed by blast
  ultimately show ?thesis
    by (simp only: refresh_saved_def Let_def seq_def lift_def give_def ok_or_simps prod.case sum.case token_discovered accepted
        prod.inject sum.inject simp_thms)
qed

theorem refreshing_mixes_teams_witness:
  "configured_or_stored_team None team_attributes = Some ''i'' \<and> configured_or_stored_team (Some ''s'') team_attributes = Some ''i''
   \<and> (\<exists>saved w2. st_replace accepting_store vercel_provider_id saved w2 = (Inr (), ())
       \<and> configured_or_stored_team None (attributes_in saved) = Some ''c''
       \<and> configured_or_stored_team (Some ''s'') (attributes_in saved) = Some ''c'')"
proof -
  obtain auth where
    "refresh_saved token_web (sample_config\<lparr>vp_team := Some ''c''\<rparr>) accepting_store (Some ''r'') team_attributes () = (Inr auth, ())"
    using other_team_refreshed by blast
  then show ?thesis
    by (rule refreshing_mixes_teams [rotated -1]) (simp_all add: team_attributes_def)
qed

end
