(* ===== verification/Spec2Isabelle.thy ===== *)
theory Spec2Isabelle
  imports Agent_Admission Agent_Batch Agent_Run Monitor_Lifecycle Workspace_Path Tool_Results
    Session_Legacy Session_List Monitor_Exit Subagent_Authority Subagent_Messages Subagent_Restart Subagent_Pages
    File_Commits File_Edits List_Files Provider_Wire Registry_Invariant Credential_Files
    Provider_Login
begin

text \<open>
  A model of \<open>fx\<close>, a coding agent written in Rust (the crates under \<open>src/crates\<close>), and the proofs that
  its core does what it is meant to do.

  \<^bold>\<open>The program.\<close> A run of the agent (\<open>fx-core/src/agent.rs\<close>) projects the conversation onto the
  model's budget (\<open>context.rs\<close>), sends it through a gateway (\<open>gateway.rs\<close>), records the response and
  executes its tool calls. Each call is looked up in the registry (\<open>tool.rs\<close>), prepared by its tool,
  decided by the permission engine (\<open>permission.rs\<close>), asked about where the policy says so, and run;
  its output is bounded, and redacted before it is stored (\<open>redaction.rs\<close>, \<open>tool_result.rs\<close>). Tools
  reach files through the workspace boundary (\<open>fx-workspace\<close>). Sessions and large tool results are
  kept by \<open>fx-store\<close>; monitors of terminal output (\<open>fx-process/src/monitor.rs\<close>) schedule notifications
  to the agent. An agent starts other agents through \<open>fx-subagent\<close>, whose manager keeps a tree of them, and works on files through
  \<open>fx-tools\<close>.

  \<^bold>\<open>Conventions.\<close> A \<open>String\<close> is the list of its UTF-8 bytes; a \<open>Result\<close> is a sum with the error on the
  left; a struct is a record and an enum a datatype with the source's constructors; integers whose
  overflow matters are machine words, \<open>usize\<close> counters are \<open>nat\<close> with their maximum written out
  (\<open>Prelude\<close>). What is injected in the source (gateway, approval handler, tools, cancellation, file
  system, third-party code) is an argument of the definitions that use it.

  \<^bold>\<open>Theories and sources.\<close>

  \<^item> \<open>Prelude\<close>, \<open>Utf8\<close>, \<open>Text\<close>, \<open>Paths\<close>: results, saturating arithmetic and i64 arithmetic; UTF-8 and the
    character boundaries (\<open>utf8_prefix\<close>, \<open>utf8_forward_boundary\<close>); the string functions and
    \<open>std::path\<close> components of the standard library.
  \<^item> \<open>Message\<close>, \<open>Tools\<close>, \<open>Gateway\<close>: the data of \<open>fx-core\<close> (\<open>message.rs\<close>, \<open>gateway.rs\<close>, \<open>tool.rs\<close>,
    \<open>tool_result.rs\<close>, \<open>read_evidence.rs\<close>), the tool trait with its default methods, the registry, the
    read-evidence store, \<open>SafeRetryGateway\<close>.
  \<^item> \<open>Permission\<close>: \<open>permission.rs\<close>, with the abstract policy that \<open>decide\<close> implements.
  \<^item> \<open>Redaction\<close>: \<open>redaction.rs\<close>, byte by byte.
  \<^item> \<open>Context_Projection\<close>: \<open>context.rs\<close>.
  \<^item> \<open>Futures\<close>, \<open>Agent\<close>: \<open>agent.rs\<close>. A future is a finite sequence of polls; \<open>host\<close> is what a run
    changes outside its transcript. \<open>Agent_Admission\<close> (one call, and its output), \<open>Agent_Batch\<close> (the
    calls of one response) and \<open>Agent_Run\<close> (whole runs) hold the properties.
  \<^item> \<open>Pattern\<close>, \<open>Monitor\<close>, \<open>Monitor_Lifecycle\<close>: \<open>fx-process/src/monitor.rs\<close>, the streaming matcher, the
    monitor's state machine, and its reachable states.
  \<^item> \<open>Monitor_Set\<close>, \<open>Monitor_Store\<close>: \<open>terminal_monitor_store.rs\<close> and \<open>terminal_observation.rs\<close>, the monitors and
    the event log of a terminal session, the operations on them, their evaluation, and the files. What a
    call asks of the operating system is the record \<open>monitor_world\<close>. \<open>Monitor_Events\<close>, \<open>Monitor_Sound\<close> and
    \<open>Monitor_History\<close> hold the invariant through every step, \<open>Monitor_Durability\<close> the store under faults,
    \<open>Monitor_Exit\<close> the end of a session, \<open>Monitor_Samples\<close> the sets of the witnesses.
  \<^item> \<open>Workspace_Path\<close>: \<open>fx-workspace/src/lib.rs\<close> over a file system given by \<open>canonicalize\<close>,
    \<open>read_link\<close> and the symbolic-link test.
  \<^item> \<open>Tool_Results\<close>: the tool-result store of \<open>fx-store/src/lib.rs\<close> and the tool that reads it; the locale
    \<open>result_archive\<close> is its contract, interpreted on the model.
  \<^item> \<open>Session\<close>, \<open>Session_Json\<close>, \<open>Store_Io\<close>, \<open>Session_Store\<close>: sessions (\<open>fx-core/src/session.rs\<close>), their
    derived JSON form, the file routines and \<open>EventLogSessionStore\<close> of \<open>fx-store/src/lib.rs\<close>. A routine is
    a program (\<open>Actions\<close>) over a session directory and the faults its system calls will meet.
    \<open>Session_Durability\<close> (replaying what was written), \<open>Session_Atomic\<close> (saves under faults),
    \<open>Session_Legacy\<close>, \<open>Session_List\<close> hold the properties, \<open>Session_Codec\<close> a concrete codec for the
    witnesses.

  \<^item> \<open>Subagent_Store\<close>, \<open>Subagent\<close>: \<open>fx-subagent\<close> (\<open>domain.rs\<close>, \<open>store.rs\<close>, \<open>lib.rs\<close>). A command of the manager is
    one step; a run of a child is a sequence of steps (\<open>begin_run\<close>, \<open>live_event\<close>, \<open>finish_run\<close>) between which
    other commands come. \<open>Subagent_Tree\<close> and \<open>Subagent_Steps\<close> hold the invariant and the step relation,
    \<open>Subagent_Authority\<close> who reaches whom, \<open>Subagent_Runs\<close> and \<open>Subagent_Messages\<close> the messages,
    \<open>Subagent_Restart\<close> the store and restarts, \<open>Subagent_Pages\<close> the reading of a history,
    \<open>Subagent_Samples\<close> the concrete children of the witnesses.
  \<^item> \<open>Disk\<close>: what the file tools use of \<open>std::fs\<close>: nodes by name, path resolution with links, the calls. Between
    two calls of a tool other processes may change the disk, and each call may fail (\<open>moment\<close>).
    \<open>File_Mutation\<close> (\<open>file_mutation.rs\<close>, \<open>write_file.rs\<close>, \<open>edit_file.rs\<close>), \<open>Direct_Fs\<close> (\<open>direct_fs.rs\<close>),
    \<open>Read_File\<close> (\<open>read_file.rs\<close>) and \<open>List_Files\<close> (\<open>list_files.rs\<close>, \<open>file_info.rs\<close>, the registration) model the
    file tools of \<open>fx-tools\<close>. \<open>Disk_Facts\<close>, \<open>Disk_Resolution\<close> and \<open>Disk_Effects\<close> hold what resolution and the
    calls do to a well-formed disk, \<open>File_Scope\<close> and \<open>File_Requests\<close> that a tool stays within the names it asked
    for, \<open>File_Commits\<close> and \<open>File_Edits\<close> what a commit and an edit do, \<open>File_Samples\<close> the disk of the witnesses.

  \<^item> \<open>Stream_Gateway\<close>, \<open>Codex_Body\<close>, \<open>Codex_Stream\<close>, \<open>Vercel_Body\<close>, \<open>Vercel_Stream\<close>: \<open>fx-provider/src/transport.rs\<close>,
    the requests of the two gateways and the event streams they read. The locale \<open>stream_handler\<close> is what a
    gateway's handler promises; \<open>Codex_Response\<close> and \<open>Vercel_Response\<close> interpret it, \<open>Provider_Wire\<close> holds what
    both have in common. \<open>Ordered_Map\<close>: \<open>BTreeMap\<close> as an ordered list of entries.
  \<^item> \<open>Provider_Registry\<close>, \<open>Registry_Invariant\<close>: \<open>fx-provider/src/lib.rs\<close>, the providers, their models and their
    authentication methods, and the states of the registry that can be reached.
  \<^item> \<open>Credentials\<close>, \<open>Credential_Files\<close>: \<open>fx-auth\<close>, credentials as JSON in private files below a locked directory.
  \<^item> \<open>Oauth_World\<close>, \<open>Codex_Auth\<close>, \<open>Vercel_Provider\<close>: \<open>fx-provider/src/codex.rs\<close> and \<open>vercel.rs\<close>, the two providers: their
    catalogues, logins, token refreshes and environments. The HTTP client, URLs, digests, clocks and the browser are the
    record \<open>web\<close> of operations on a world. \<open>Provider_Catalogs\<close> shows that the registry takes what they offer,
    \<open>Provider_Login\<close> what is known of the tokens that are used and stored.

  \<^bold>\<open>What is shown.\<close> Nothing runs that the policy denies, or that it asks about and nobody approved;
  grants never lift a deny. The redactor masks the leftmost of the secrets it recognises and keeps every other
  byte, so a secret inside the match of another one can stay in clear (two are shown); what is stored or
  shown of a durable result went through it. Resolved workspace paths are inside the workspace. A
  batch gives each call one outcome in its place; transcripts keep every call answered; runs with a
  step limit end after at most that many requests. Projections keep whole turns and the newest one. A gateway request is repeated
  only while it is known to be unsent. Every reachable monitor is valid, its deadlines stay on their
  grid, a match is announced once, and the streaming matcher finds exactly the matches, however the
  output is cut. The set of monitors of a session passes the validation of its store (which does not measure the file), its event log has no holes and no name is
  used twice; a store call that fails changes nothing. Stored results are read back, whole and in pages. A session save is atomic under
  every fault and durable when it returns; listing gives the newest sessions. The child agents of a root stay a
  bounded tree, a caller reaches exactly its own subtree, the messages to a child are run in order as long as it is
  not cancelled, closed, resumed or restarted and its saves work, and a restart brings every saved child back
  unless marking the interrupted ones makes the file too large; five theorems show where cancellation,
  configuration, an interruption and a save that
  fails do not do what they should. While nobody else is at work on the disk, the file tools change only what they
  asked a write permission for (one theorem shows a link that is exchanged in between); a
  prepared change is written whole or not at all, and only over the file that was shown; an edit replaces the one
  occurrence of its text; a read that counts as complete shows the whole file. The response of a provider is what
  its events said, however the network cuts the bytes, and one request is one attempt; the registry of providers
  never meets a case it panics on and replaces catalogues whole; a credential is written whole, read back, and read
  from private files only. A Codex token is fresh or was stored before it is used, a login code is taken only with the
  state of its login, Vercel's endpoints are Vercel's or the machine's own, and polling for a device token is bounded;
  three theorems show where a refresh loses or mixes what it was given, and where a setting ends the program.

  \<^bold>\<open>Bounds and fuel.\<close> No definition runs on fuel that the code does not have: loops are structural
  or have a measure. The agent's loop has the step limit of its options, or none: then it is
  \<open>None\<close> if it never ends. Constants (sizes, limits, schema numbers) are the source's.

  \<^bold>\<open>Not modelled.\<close> Waiting for the session lock, permission bits and \<open>fsync\<close> have no effect in the
  model. The clock and fresh identifiers are inputs. Windows path prefixes do not exist in the Unix
  build. Interference with the file tools is assumed away where a theorem says \<open>quiet\<close>: between the last check of
  a commit and its renaming another process can still change the file, and the code cannot notice. Not yet
  modelled: \<open>fx-store/src/memory.rs\<close>, the terminal hosts and the sandbox of
  \<open>fx-process\<close>, the search, web and skill tools of \<open>fx-tools\<close>, \<open>fx-context\<close>, \<open>fx-config\<close>.
  \<open>fx-runtime\<close> and \<open>fx-cli\<close> wire the parts to the operating system, \<open>fx-mcp\<close> and the terminal user
  interface speak third-party protocols: glue.
\<close>

end
